(* ===== verification/CmsgBase.thy ===== *)
theory CmsgBase
  imports Main "HOL-Library.Word" "HOL-Library.AList"
begin

text \<open>
  The prelude of the development: machine integers and their memory images, C strings,
  the GLib containers the code keeps its state in (\<open>GList\<close>, \<open>GHashTable\<close>, \<open>GQueue\<close>), and the
  return codes of \<open>cmsg/include/cmsg/cmsg.h\<close>. It declares the rule collections that the
  component theories extend and the lemmas they share.

  GLib is not under \<open>src\<close>; its containers are modelled by what its documentation says: a
  \<open>GList\<close> is a list, \<open>g_list_remove\<close> takes out the first occurrence of a pointer,
  \<open>g_list_find_custom\<close> finds the first match, a \<open>GHashTable\<close> is an association list with
  distinct keys whose order stands for the (unspecified) iteration order.
\<close>

named_theorems cmsg_codes "numeric values of return codes and enumerations"
named_theorems wire_simps "rules that evaluate memory images"
named_theorems glib_simps "rules about the GLib containers"

section \<open>Machine integers\<close>

type_synonym u8 = "8 word"
type_synonym u16 = "16 word"
type_synonym u32 = "32 word"
type_synonym u64 = "64 word"

lemma unat_less_32: "unat (x :: u32) < 4294967296"
  using unsigned_less [of x] by simp

lemma unat_add_no_wrap:
  fixes a b :: "'a::len word"
  assumes "unat a + unat b < 2 ^ LENGTH('a)"
  shows "unat (a + b) = unat a + unat b"
  using assms by (simp add: unat_add_lem)

lemma unat_diff_le:
  fixes a b :: "'a::len word"
  assumes "b \<le> a"
  shows "unat (a - b) = unat a - unat b"
  using assms by (rule unat_sub)

section \<open>Memory images and byte order\<close>

datatype endian = LittleEndian | BigEndian

definition byte_at :: "nat \<Rightarrow> u32 \<Rightarrow> u8" where
  "byte_at k x = ucast (drop_bit (8 * k) x)"

definition be_bytes :: "u32 \<Rightarrow> u8 list" where
  "be_bytes x = [byte_at 3 x, byte_at 2 x, byte_at 1 x, byte_at 0 x]"

text \<open>The bytes a \<open>uint32_t\<close> occupies in memory on a host of the given byte order.\<close>

definition mem_of_u32 :: "endian \<Rightarrow> u32 \<Rightarrow> u8 list" where
  "mem_of_u32 e x = (case e of BigEndian \<Rightarrow> be_bytes x | LittleEndian \<Rightarrow> rev (be_bytes x))"

fun word_of_be :: "u8 list \<Rightarrow> u32" where
  "word_of_be [a, b, c, d] = word_cat (word_cat a b :: u16) (word_cat c d :: u16)"
| "word_of_be _ = 0"

definition u32_of_mem :: "endian \<Rightarrow> u8 list \<Rightarrow> u32" where
  "u32_of_mem e bs = word_of_be (case e of BigEndian \<Rightarrow> bs | LittleEndian \<Rightarrow> rev bs)"

definition bswap32 :: "u32 \<Rightarrow> u32" where
  "bswap32 x = word_of_be (rev (be_bytes x))"

definition htonl :: "endian \<Rightarrow> u32 \<Rightarrow> u32" where
  "htonl e x = (case e of BigEndian \<Rightarrow> x | LittleEndian \<Rightarrow> bswap32 x)"

definition ntohl :: "endian \<Rightarrow> u32 \<Rightarrow> u32" where
  "ntohl e x = htonl e x"

lemma word_of_be_be_bytes [simp, wire_simps]: "word_of_be (be_bytes x) = x"
  by (rule bit_word_eqI)
    (auto simp: be_bytes_def byte_at_def bit_word_cat_iff bit_ucast_iff bit_drop_bit_eq)

lemma byte_at_word_of_be:
  "byte_at 3 (word_of_be [a, b, c, d]) = a" "byte_at 2 (word_of_be [a, b, c, d]) = b"
  "byte_at 1 (word_of_be [a, b, c, d]) = c" "byte_at 0 (word_of_be [a, b, c, d]) = d"
  by (rule bit_word_eqI;
      auto simp: byte_at_def bit_word_cat_iff bit_ucast_iff bit_drop_bit_eq)+

lemma be_bytes_word_of_be [wire_simps]: "length bs = 4 \<Longrightarrow> be_bytes (word_of_be bs) = bs"
proof -
  assume "length bs = 4"
  then obtain a b c d where "bs = [a, b, c, d]"
    by (auto simp: length_Suc_conv eval_nat_numeral)
  then show ?thesis
    by (simp only: be_bytes_def byte_at_word_of_be)
qed

lemma length_be_bytes [simp]: "length (be_bytes x) = 4"
  by (simp add: be_bytes_def)

lemma length_mem_of_u32 [simp]: "length (mem_of_u32 e x) = 4"
  by (simp add: mem_of_u32_def split: endian.split)

lemma mem_htonl [simp, wire_simps]: "mem_of_u32 e (htonl e x) = be_bytes x"
  by (simp add: mem_of_u32_def htonl_def bswap32_def be_bytes_word_of_be split: endian.split)

lemma u32_of_mem_mem [simp, wire_simps]: "u32_of_mem e (mem_of_u32 e x) = x"
  by (simp add: u32_of_mem_def mem_of_u32_def split: endian.split)

lemma ntohl_htonl [simp, wire_simps]: "ntohl e (htonl e x) = x"
  by (simp add: ntohl_def htonl_def bswap32_def be_bytes_word_of_be split: endian.split)

lemma ntohl_mem [simp, wire_simps]: "ntohl e (u32_of_mem e (be_bytes x)) = x"
  by (metis mem_htonl ntohl_htonl u32_of_mem_mem)

section \<open>Arrays and strings\<close>

text \<open>Reading an array; \<open>None\<close> is a read past its end (undefined behaviour in C).\<close>

definition array_get :: "'a list \<Rightarrow> nat \<Rightarrow> 'a option" where
  "array_get xs i = (if i < length xs then Some (xs ! i) else None)"

lemma array_get_Some [simp]: "i < length xs \<Longrightarrow> array_get xs i = Some (xs ! i)"
  by (simp add: array_get_def)

text \<open>
  A C string is a \<open>string\<close> without its terminating NUL; \<open>bytes_of_string\<close> are its
  characters in memory. \<open>strcmp\<close> returns a number of the sign of the C function's result.
\<close>

definition bytes_of_string :: "string \<Rightarrow> u8 list" where
  "bytes_of_string s = map of_char s"

definition string_of_bytes :: "u8 list \<Rightarrow> string" where
  "string_of_bytes bs = map (\<lambda>b. char_of (unat b)) bs"

definition is_cstring :: "string \<Rightarrow> bool" where
  "is_cstring s \<longleftrightarrow> CHR 0x00 \<notin> set s"

text \<open>\<open>printf\<close> of an unsigned integer.\<close>

fun decimal :: "nat \<Rightarrow> string" where
  "decimal n = (if n < 10 then [] else decimal (n div 10)) @ [char_of (48 + n mod 10)]"

declare decimal.simps [simp del]

lemma decimal_digits: "c \<in> set (decimal n) \<Longrightarrow> 48 \<le> (of_char c :: nat)"
proof (induction n rule: decimal.induct)
  case (1 n)
  have "(48 :: nat) + n mod 10 < 256" by presburger
  then have "48 \<le> (of_char (char_of (48 + n mod 10) :: char) :: nat)" by simp
  with 1 show ?case by (subst (asm) (2) decimal.simps) (auto split: if_splits)
qed

lemma decimal_no_percent [simp]: "CHR ''%'' \<notin> set (decimal n)"
  using decimal_digits [of "CHR ''%''" n] by auto

fun strcmp :: "string \<Rightarrow> string \<Rightarrow> int" where
  "strcmp [] [] = 0"
| "strcmp [] (d # ds) = -1"
| "strcmp (c # cs) [] = 1"
| "strcmp (c # cs) (d # ds) =
     (if c = d then strcmp cs ds
      else if (of_char c :: nat) < of_char d then -1 else 1)"

lemma strcmp_eq_0 [simp]: "strcmp a b = 0 \<longleftrightarrow> a = b"
  by (induction a b rule: strcmp.induct) auto

lemma strcmp_refl [simp]: "strcmp a a = 0"
  by simp

lemma strcmp_swap: "strcmp a b < 0 \<longleftrightarrow> 0 < strcmp b a"
proof (induction a b rule: strcmp.induct)
  case (4 c cs d ds)
  have "(of_char c :: nat) = of_char d \<Longrightarrow> c = d"
    by simp
  with 4 show ?case by (auto simp: not_less dest: le_neq_trans)
qed auto

lemma strcmp_trans: "strcmp a b < 0 \<Longrightarrow> strcmp b c < 0 \<Longrightarrow> strcmp a c < 0"
proof (induction a b arbitrary: c rule: strcmp.induct)
  case (2 d ds)
  then show ?case by (cases c) auto
next
  case (4 x cs d ds)
  then show ?case by (cases c) (auto split: if_splits)
qed auto

lemma strcmp_less_irrefl: "\<not> strcmp a a < 0" "\<not> 0 < strcmp a a"
  by simp_all

lemma strcmp_less_asym: "strcmp a b < 0 \<Longrightarrow> strcmp b a < 0 \<Longrightarrow> False"
  using strcmp_trans [of a b a] by simp

lemma of_char_byte: "unat (of_char c :: u8) = of_char c"
proof -
  have "of_nat (of_char c) = (of_char c :: u8)"
    by (cases c) (simp add: of_char_def)
  then have "unat (of_char c :: u8) = of_char c mod 256"
    by (metis unat_of_nat [where 'a = 8, simplified])
  also have "\<dots> = of_char c"
    by (cases c) (simp add: of_char_def)
  finally show ?thesis .
qed

lemma of_char_u8_nonzero:
  assumes "c \<noteq> CHR 0x00"
  shows "(of_char c :: u8) \<noteq> 0"
proof
  assume "(of_char c :: u8) = 0"
  then have "(of_char c :: nat) = 0" using of_char_byte [of c] by simp
  then have "(of_char c :: nat) = of_char (CHR 0x00)" by simp
  with assms show False unfolding of_char_eq_iff by simp
qed

lemma length_bytes_of_string [simp]: "length (bytes_of_string s) = length s"
  by (simp add: bytes_of_string_def)

lemma string_of_bytes_of_string [simp, wire_simps]: "string_of_bytes (bytes_of_string s) = s"
  by (induction s) (simp_all add: string_of_bytes_def bytes_of_string_def of_char_byte)

end
