(* ===== verification/Wire.thy ===== *)
theory Wire
  imports CmsgBase
begin

text \<open>
  The wire format of \<open>cmsg/src/cmsg.c\<close> and the method lookup of \<open>cmsg/src/cmsg_protobuf-c.c\<close>:
  the fixed header, the TLV sub-header that names the method, and their processing by the
  receiver. Buffers are byte lists; a read or write past the end of a buffer is \<open>None\<close>
  (undefined behaviour in C), so "the result is \<open>Some\<close>" states memory safety. The host byte
  order is a parameter of type \<open>endian\<close>.
\<close>

section \<open>Return codes and enumerations\<close>

definition CMSG_RET_OK :: int where [cmsg_codes]: "CMSG_RET_OK = 0"
definition CMSG_RET_QUEUED :: int where [cmsg_codes]: "CMSG_RET_QUEUED = 1"
definition CMSG_RET_DROPPED :: int where [cmsg_codes]: "CMSG_RET_DROPPED = 2"
definition CMSG_RET_ERR :: int where [cmsg_codes]: "CMSG_RET_ERR = -1"
definition CMSG_RET_METHOD_NOT_FOUND :: int where [cmsg_codes]: "CMSG_RET_METHOD_NOT_FOUND = -2"
definition CMSG_RET_CLOSED :: int where [cmsg_codes]: "CMSG_RET_CLOSED = -3"

datatype cmsg_msg_type =
    CMSG_MSG_TYPE_METHOD_REQ
  | CMSG_MSG_TYPE_METHOD_REPLY
  | CMSG_MSG_TYPE_ECHO_REQ
  | CMSG_MSG_TYPE_ECHO_REPLY
  | CMSG_MSG_TYPE_CONN_OPEN

fun msg_type_code :: "cmsg_msg_type \<Rightarrow> u32" where
  "msg_type_code CMSG_MSG_TYPE_METHOD_REQ = 0"
| "msg_type_code CMSG_MSG_TYPE_METHOD_REPLY = 1"
| "msg_type_code CMSG_MSG_TYPE_ECHO_REQ = 2"
| "msg_type_code CMSG_MSG_TYPE_ECHO_REPLY = 3"
| "msg_type_code CMSG_MSG_TYPE_CONN_OPEN = 4"

text \<open>The \<open>switch\<close> over a received message type: \<open>None\<close> is its default branch.\<close>

definition msg_type_of_code :: "u32 \<Rightarrow> cmsg_msg_type option" where
  "msg_type_of_code c =
     (if c = 0 then Some CMSG_MSG_TYPE_METHOD_REQ
      else if c = 1 then Some CMSG_MSG_TYPE_METHOD_REPLY
      else if c = 2 then Some CMSG_MSG_TYPE_ECHO_REQ
      else if c = 3 then Some CMSG_MSG_TYPE_ECHO_REPLY
      else if c = 4 then Some CMSG_MSG_TYPE_CONN_OPEN
      else None)"

datatype cmsg_status_code =
    CMSG_STATUS_CODE_UNSET
  | CMSG_STATUS_CODE_SUCCESS
  | CMSG_STATUS_CODE_SERVICE_FAILED
  | CMSG_STATUS_CODE_TOO_MANY_PENDING
  | CMSG_STATUS_CODE_SERVICE_QUEUED
  | CMSG_STATUS_CODE_SERVICE_DROPPED
  | CMSG_STATUS_CODE_SERVER_CONNRESET
  | CMSG_STATUS_CODE_SERVER_METHOD_NOT_FOUND
  | CMSG_STATUS_CODE_CONNECTION_CLOSED

fun status_code :: "cmsg_status_code \<Rightarrow> u32" where
  "status_code CMSG_STATUS_CODE_UNSET = 0"
| "status_code CMSG_STATUS_CODE_SUCCESS = 1"
| "status_code CMSG_STATUS_CODE_SERVICE_FAILED = 2"
| "status_code CMSG_STATUS_CODE_TOO_MANY_PENDING = 3"
| "status_code CMSG_STATUS_CODE_SERVICE_QUEUED = 4"
| "status_code CMSG_STATUS_CODE_SERVICE_DROPPED = 5"
| "status_code CMSG_STATUS_CODE_SERVER_CONNRESET = 6"
| "status_code CMSG_STATUS_CODE_SERVER_METHOD_NOT_FOUND = 7"
| "status_code CMSG_STATUS_CODE_CONNECTION_CLOSED = 8"

lemma msg_type_of_code_code [simp, cmsg_codes]: "msg_type_of_code (msg_type_code t) = Some t"
  by (cases t) (simp_all add: msg_type_of_code_def)

lemma msg_type_of_code_Some: "msg_type_of_code c = Some t \<longleftrightarrow> c = msg_type_code t"
  by (cases t) (auto simp: msg_type_of_code_def)

section \<open>The fixed header\<close>

record cmsg_header =
  hdr_msg_type :: u32
  header_length :: u32
  message_length :: u32
  hdr_status_code :: u32

abbreviation cmsg_header_size :: u32 where
  "cmsg_header_size \<equiv> 16"

definition cmsg_header_create ::
  "endian \<Rightarrow> cmsg_msg_type \<Rightarrow> u32 \<Rightarrow> u32 \<Rightarrow> cmsg_status_code \<Rightarrow> cmsg_header" where
  "cmsg_header_create e msg_type extra_header_size packed_size st =
     (let header_len = cmsg_header_size + extra_header_size in
      \<lparr>hdr_msg_type = htonl e (msg_type_code msg_type),
       header_length = htonl e header_len,
       message_length = htonl e packed_size,
       hdr_status_code = htonl e (status_code st)\<rparr>)"

text \<open>The memory image of the struct, and the struct overlaid on a received buffer.\<close>

definition header_to_mem :: "endian \<Rightarrow> cmsg_header \<Rightarrow> u8 list" where
  "header_to_mem e h = mem_of_u32 e (hdr_msg_type h) @ mem_of_u32 e (header_length h)
     @ mem_of_u32 e (message_length h) @ mem_of_u32 e (hdr_status_code h)"

definition header_of_mem :: "endian \<Rightarrow> u8 list \<Rightarrow> cmsg_header" where
  "header_of_mem e bs =
     \<lparr>hdr_msg_type = u32_of_mem e (take 4 bs),
      header_length = u32_of_mem e (take 4 (drop 4 bs)),
      message_length = u32_of_mem e (take 4 (drop 8 bs)),
      hdr_status_code = u32_of_mem e (take 4 (drop 12 bs))\<rparr>"

definition cmsg_header_process :: "endian \<Rightarrow> cmsg_header \<Rightarrow> int \<times> cmsg_header" where
  "cmsg_header_process e received =
     (let converted =
        \<lparr>hdr_msg_type = ntohl e (hdr_msg_type received),
         header_length = ntohl e (header_length received),
         message_length = ntohl e (message_length received),
         hdr_status_code = ntohl e (hdr_status_code received)\<rparr>
      in case msg_type_of_code (hdr_msg_type converted) of
           Some _ \<Rightarrow> (CMSG_RET_OK, converted)
         | None \<Rightarrow> (CMSG_RET_ERR, converted))"

lemma length_header_to_mem [simp]: "length (header_to_mem e h) = 16"
  by (simp add: header_to_mem_def)

lemma header_of_to_mem [simp, wire_simps]: "header_of_mem e (header_to_mem e h @ rest) = h"
  by (simp add: header_of_mem_def header_to_mem_def)

lemma header_of_to_mem_exact [simp, wire_simps]: "header_of_mem e (header_to_mem e h) = h"
  using header_of_to_mem [of e h "[]"] by simp

lemma cmsg_header_process_create [wire_simps]:
  "cmsg_header_process e (cmsg_header_create e t extra packed st) =
     (CMSG_RET_OK, \<lparr>hdr_msg_type = msg_type_code t,
                    header_length = cmsg_header_size + extra,
                    message_length = packed, hdr_status_code = status_code st\<rparr>)"
  by (simp add: cmsg_header_process_def cmsg_header_create_def)

lemma cmsg_header_process_ret:
  "fst (cmsg_header_process e h) = CMSG_RET_OK \<or> fst (cmsg_header_process e h) = CMSG_RET_ERR"
  by (simp add: cmsg_header_process_def Let_def split: option.split)

section \<open>Method lookup in a service descriptor\<close>

record service_descriptor =
  svc_name :: string
  svc_methods :: "string list"
  method_indices_by_name :: "u32 list option"

definition UNDEFINED_METHOD :: u32 where
  "UNDEFINED_METHOD = 0xffffffff"

definition IS_METHOD_DEFINED :: "u32 \<Rightarrow> bool" where
  "IS_METHOD_DEFINED x = (if x = UNDEFINED_METHOD then False else True)"

text \<open>\<open>methods[method_indices_by_name[k]]\<close>: the index and the name found there.\<close>

definition method_by_rank :: "string list \<Rightarrow> u32 list \<Rightarrow> u32 \<Rightarrow> (u32 \<times> string) option" where
  "method_by_rank ms idx k =
     Option.bind (array_get idx (unat k)) (\<lambda>i.
     Option.bind (array_get ms (unat i)) (\<lambda>m. Some (i, m)))"

function method_search ::
  "string list \<Rightarrow> u32 list \<Rightarrow> string \<Rightarrow> u32 \<Rightarrow> u32 \<Rightarrow> u32 option" where
  "method_search ms idx nm start count =
     (if 1 < count then
        let mid = start + count div 2 in
        case method_by_rank ms idx mid of
          None \<Rightarrow> None
        | Some (mid_index, mid_name) \<Rightarrow>
            (let rv = strcmp mid_name nm in
             if rv = 0 then Some mid_index
             else if rv < 0 then method_search ms idx nm (mid + 1) (start + count - (mid + 1))
             else method_search ms idx nm start (mid - start))
      else if count = 0 then Some UNDEFINED_METHOD
      else case method_by_rank ms idx start of
             None \<Rightarrow> None
           | Some (i, m) \<Rightarrow> (if strcmp m nm = 0 then Some i else Some UNDEFINED_METHOD))"
  by pat_completeness auto

text \<open>What is left to search after looking at the middle, as numbers.\<close>

lemma search_right_half:
  fixes start count :: u32
  assumes "1 < count"
  shows "unat (start + count - (start + count div 2 + 1)) = unat count - unat count div 2 - 1"
proof -
  have n: "1 < unat count"
    using assms by (simp add: word_less_nat_alt)
  have eq: "start + count - (start + count div 2 + 1) = count - (count div 2 + 1)"
    by (simp add: algebra_simps)
  have half: "unat (count div 2 + 1) = unat count div 2 + 1"
    using n unat_less_32 [of count]
    by (subst unat_add_no_wrap) (simp_all add: unat_div)
  then have "count div 2 + 1 \<le> count"
    using n by (simp add: word_le_nat_alt)
  then show ?thesis
    unfolding eq by (subst unat_diff_le) (simp_all add: half)
qed

termination method_search
proof (relation "measure (\<lambda>(ms, idx, nm, start, count). unat count)", goal_cases)
  case 1
  show ?case by simp
next
  case (2 ms idx nm start count mid x i m rv)
  then have "1 < unat count" by (simp add: word_less_nat_alt)
  then have "unat count - unat count div 2 - 1 < unat count" by linarith
  with 2 show ?case by (simp only: in_measure prod.case search_right_half)
next
  case (3 ms idx nm start count mid x i m rv)
  then have "1 < unat count" by (simp add: word_less_nat_alt)
  with 3 show ?case by (simp add: unat_div)
qed

declare method_search.simps [simp del]

definition protobuf_c_service_descriptor_get_method_index_by_name ::
  "service_descriptor option \<Rightarrow> string \<Rightarrow> u32 option" where
  "protobuf_c_service_descriptor_get_method_index_by_name desc nm =
     (case desc of
        None \<Rightarrow> Some UNDEFINED_METHOD
      | Some d \<Rightarrow>
          (case method_indices_by_name d of
             None \<Rightarrow> Some UNDEFINED_METHOD
           | Some idx \<Rightarrow> method_search (svc_methods d) idx nm 0 (of_nat (length (svc_methods d)))))"

text \<open>
  What the generated descriptors promise: the index table ranks the methods by name, every
  entry is in range and the names strictly ascend.
\<close>

definition wf_method_table :: "string list \<Rightarrow> u32 list \<Rightarrow> bool" where
  "wf_method_table ms idx \<longleftrightarrow>
     length idx = length ms \<and> length ms < 2 ^ 32 \<and>
     (\<forall>i \<in> set idx. unat i < length ms) \<and>
     sorted_wrt (\<lambda>a b. strcmp (ms ! unat a) (ms ! unat b) < 0) idx"

definition wf_descriptor :: "service_descriptor \<Rightarrow> bool" where
  "wf_descriptor d \<longleftrightarrow>
     (case method_indices_by_name d of
        None \<Rightarrow> svc_methods d = []
      | Some idx \<Rightarrow> wf_method_table (svc_methods d) idx)"

lemma method_by_rank_wf:
  assumes "wf_method_table ms idx" "unat k < length ms"
  shows "method_by_rank ms idx k = Some (idx ! unat k, ms ! unat (idx ! unat k))"
  using assms by (simp add: wf_method_table_def method_by_rank_def)

lemma wf_method_table_less:
  assumes "wf_method_table ms idx" "i < j" "j < length ms"
  shows "strcmp (ms ! unat (idx ! i)) (ms ! unat (idx ! j)) < 0"
  using assms by (simp add: wf_method_table_def sorted_wrt_iff_nth_less)

lemma wf_method_table_set:
  assumes "wf_method_table ms idx"
  shows "set (map unat idx) = {..<length ms}"
proof -
  have "distinct (map unat idx)"
    unfolding distinct_conv_nth
  proof (intro allI impI)
    fix i j assume "i < length (map unat idx)" "j < length (map unat idx)" "i \<noteq> j"
    then have "strcmp (ms ! unat (idx ! i)) (ms ! unat (idx ! j)) < 0 \<or>
      strcmp (ms ! unat (idx ! j)) (ms ! unat (idx ! i)) < 0"
      using wf_method_table_less [OF assms] assms
      by (metis length_map nat_neq_iff wf_method_table_def)
    then show "map unat idx ! i \<noteq> map unat idx ! j"
      using \<open>i < _\<close> \<open>j < _\<close> by (auto dest: arg_cong [of _ _ "(!) ms"])
  qed
  then have "card (set (map unat idx)) = length ms"
    using assms by (simp add: distinct_card wf_method_table_def del: set_map)
  moreover have "set (map unat idx) \<subseteq> {..<length ms}"
    using assms by (auto simp: wf_method_table_def)
  ultimately show ?thesis
    by (metis card_lessThan card_subset_eq finite_lessThan)
qed

text \<open>The answer within a window of ranks, and that the search computes it.\<close>

definition rank_window_result :: "string list \<Rightarrow> u32 list \<Rightarrow> string \<Rightarrow> nat \<Rightarrow> nat \<Rightarrow> u32 \<Rightarrow> bool" where
  "rank_window_result ms idx nm s c r \<longleftrightarrow>
     (\<exists>k. s \<le> k \<and> k < s + c \<and> ms ! unat (idx ! k) = nm \<and> r = idx ! k) \<or>
     ((\<forall>k. s \<le> k \<and> k < s + c \<longrightarrow> ms ! unat (idx ! k) \<noteq> nm) \<and> r = UNDEFINED_METHOD)"

lemma rank_window_right:
  assumes wf: "wf_method_table ms idx"
    and m: "strcmp (ms ! unat (idx ! m)) nm < 0" "m < s + c" "s + c \<le> length ms"
    and r: "rank_window_result ms idx nm (m + 1) (s + c - (m + 1)) r" "s \<le> m"
  shows "rank_window_result ms idx nm s c r"
proof -
  have below: "ms ! unat (idx ! k) \<noteq> nm" if "k \<le> m" for k
    using that m wf_method_table_less [OF wf, of k m] strcmp_less_asym
    by (cases "k = m") auto
  have window: "k < m + 1 + (s + c - (m + 1)) \<longleftrightarrow> k < s + c" for k
    using m by linarith
  from r(1) show ?thesis
    unfolding rank_window_result_def window
  proof (elim disjE conjE exE)
    fix k assume "m + 1 \<le> k" "k < s + c" "ms ! unat (idx ! k) = nm" "r = idx ! k"
    then show "(\<exists>k. s \<le> k \<and> k < s + c \<and> ms ! unat (idx ! k) = nm \<and> r = idx ! k) \<or>
        (\<forall>k. s \<le> k \<and> k < s + c \<longrightarrow> ms ! unat (idx ! k) \<noteq> nm) \<and> r = UNDEFINED_METHOD"
      using r(2) by (intro disjI1 exI [of _ k]) auto
  qed (metis below Suc_eq_plus1 not_less_eq_eq)
qed

lemma rank_window_left:
  assumes wf: "wf_method_table ms idx"
    and m: "0 < strcmp (ms ! unat (idx ! (s + h))) nm" "h < c" "s + c \<le> length ms"
    and r: "rank_window_result ms idx nm s h r"
  shows "rank_window_result ms idx nm s c r"
proof -
  have above: "ms ! unat (idx ! k) \<noteq> nm" if "s + h \<le> k" "k < s + c" for k
    using that m wf_method_table_less [OF wf, of "s + h" k] strcmp_swap [of nm] strcmp_less_asym
    by (cases "k = s + h") auto
  from r show ?thesis
    unfolding rank_window_result_def
  proof (elim disjE conjE exE)
    fix k assume "s \<le> k" "k < s + h" "ms ! unat (idx ! k) = nm" "r = idx ! k"
    then show "(\<exists>k. s \<le> k \<and> k < s + c \<and> ms ! unat (idx ! k) = nm \<and> r = idx ! k) \<or>
        (\<forall>k. s \<le> k \<and> k < s + c \<longrightarrow> ms ! unat (idx ! k) \<noteq> nm) \<and> r = UNDEFINED_METHOD"
      using m(2) by (intro disjI1 exI [of _ k]) auto
  qed (metis above not_less)
qed

lemma method_search_window:
  shows "wf_method_table ms idx \<Longrightarrow> unat start + unat count \<le> length ms \<Longrightarrow>
    \<exists>r. method_search ms idx nm start count = Some r \<and>
        rank_window_result ms idx nm (unat start) (unat count) r"
proof (induction ms idx nm start count rule: method_search.induct [case_names search])
  case (search ms idx nm start count)
  note wf = search.prems(1) and le = search.prems(2)
  let ?n = "\<lambda>k. ms ! unat (idx ! k)"
  have len: "length ms < 2 ^ 32" using wf by (simp add: wf_method_table_def)
  show ?case
  proof (cases "1 < count")
    case True
    then have c: "1 < unat count" by (simp add: word_less_nat_alt)
    define mid where "mid = start + count div 2"
    have mid: "unat mid = unat start + unat count div 2"
      unfolding mid_def using le len by (subst unat_add_no_wrap) (simp_all add: unat_div)
    have rank: "method_by_rank ms idx mid = Some (idx ! unat mid, ?n (unat mid))"
      using wf le c by (intro method_by_rank_wf) (auto simp: mid)
    consider "?n (unat mid) = nm" | "strcmp (?n (unat mid)) nm < 0" | "0 < strcmp (?n (unat mid)) nm"
      by (metis linorder_neqE strcmp_eq_0)
    then show ?thesis
    proof cases
      case 1
      with True rank c mid show ?thesis
        by (subst method_search.simps)
          (auto simp: mid_def [symmetric] Let_def rank_window_result_def intro!: exI [of _ "unat mid"])
    next
      case 2
      have "unat (mid + 1) = unat mid + 1"
        using mid c le len by (subst unat_add_no_wrap) simp_all
      moreover have "unat (start + count - (mid + 1)) = unat start + unat count - (unat mid + 1)"
        using search_right_half [OF True, of start] mid by (simp add: mid_def)
      ultimately show ?thesis
        using search.IH(1) [OF True mid_def rank refl refl] 2 True rank wf le c mid
          rank_window_right [OF wf, of "unat mid" nm "unat start" "unat count"]
        by (subst method_search.simps) (auto simp: mid_def [symmetric] Let_def)
    next
      case 3
      then have "method_search ms idx nm start count = method_search ms idx nm start (mid - start)"
        using True rank by (subst method_search.simps) (auto simp: mid_def [symmetric] Let_def)
      moreover have "unat (mid - start) = unat count div 2"
        by (simp add: mid_def unat_div)
      ultimately show ?thesis
        using search.IH(2) [OF True mid_def rank refl refl] 3 wf le c
          rank_window_left [OF wf, of "unat start" "unat count div 2" nm "unat count"]
        by (fastforce simp: mid)
    qed
  next
    case False
    show ?thesis
    proof (cases "count = 0")
      case True
      then have "method_search ms idx nm start count = Some UNDEFINED_METHOD"
        by (subst method_search.simps) simp
      moreover have "rank_window_result ms idx nm (unat start) (unat count) UNDEFINED_METHOD"
        unfolding rank_window_result_def using True by (intro disjI2) auto
      ultimately show ?thesis by blast
    next
      case nz: False
      then have "unat count \<noteq> 0" by (simp add: unat_eq_zero)
      moreover have "\<not> 1 < unat count" using False by (simp add: word_less_nat_alt)
      ultimately have one: "unat count = 1" by linarith
      have rank: "method_by_rank ms idx start = Some (idx ! unat start, ?n (unat start))"
        using le one by (intro method_by_rank_wf [OF wf]) simp
      then have "method_search ms idx nm start count =
          (if ?n (unat start) = nm then Some (idx ! unat start) else Some UNDEFINED_METHOD)"
        using False nz by (simp add: method_search.simps [of ms idx nm start count])
      moreover have "rank_window_result ms idx nm (unat start) (unat count)
          (if ?n (unat start) = nm then idx ! unat start else UNDEFINED_METHOD)"
        unfolding rank_window_result_def one by (auto simp: less_Suc_eq_le dest: antisym)
      ultimately show ?thesis by (simp split: if_splits)
    qed
  qed
qed

text \<open>The lookup over a whole table finds a method exactly when the service has it.\<close>

lemma method_lookup_cases:
  assumes "method_indices_by_name d = Some idx" "wf_method_table (svc_methods d) idx"
  obtains (found) i where "i < length (svc_methods d)" "svc_methods d ! i = nm"
      "protobuf_c_service_descriptor_get_method_index_by_name (Some d) nm = Some (of_nat i)"
  | (absent) "nm \<notin> set (svc_methods d)"
      "protobuf_c_service_descriptor_get_method_index_by_name (Some d) nm = Some UNDEFINED_METHOD"
proof -
  let ?ms = "svc_methods d"
  have wf: "length idx = length ?ms" "length ?ms < 2 ^ 32"
    using assms(2) by (simp_all add: wf_method_table_def)
  then have n: "unat (of_nat (length ?ms) :: u32) = length ?ms"
    by (simp add: unat_of_nat)
  obtain r where r: "method_search ?ms idx nm 0 (of_nat (length ?ms)) = Some r"
    "rank_window_result ?ms idx nm 0 (length ?ms) r"
    using method_search_window [OF assms(2), of 0 "of_nat (length ?ms)" nm] by (auto simp: n)
  from r(2) show ?thesis
    unfolding rank_window_result_def
  proof (elim disjE conjE exE)
    fix k assume k: "k < 0 + length ?ms" "?ms ! unat (idx ! k) = nm" "r = idx ! k"
    then have "unat (idx ! k) < length ?ms"
      using assms(2) by (simp add: wf_method_table_def)
    then show thesis
      using k r(1) assms(1)
      by (intro found [of "unat (idx ! k)"])
        (simp_all add: protobuf_c_service_descriptor_get_method_index_by_name_def)
  next
    assume none: "\<forall>k. 0 \<le> k \<and> k < 0 + length ?ms \<longrightarrow> ?ms ! unat (idx ! k) \<noteq> nm"
      and "r = UNDEFINED_METHOD"
    have "nm \<notin> set ?ms"
    proof
      assume "nm \<in> set ?ms"
      then obtain i where i: "i < length ?ms" "?ms ! i = nm" by (auto simp: in_set_conv_nth)
      then have "i \<in> set (map unat idx)" using wf_method_table_set [OF assms(2)] by simp
      then obtain k where "k < length idx" "unat (idx ! k) = i" by (auto simp: in_set_conv_nth)
      with none i wf show False by auto
    qed
    then show thesis
      using absent r(1) assms(1) \<open>r = _\<close>
      by (simp add: protobuf_c_service_descriptor_get_method_index_by_name_def)
  qed
qed

lemma wf_method_table_distinct:
  assumes "wf_method_table ms idx"
  shows "distinct ms"
  unfolding distinct_conv_nth
proof (intro allI impI)
  fix i j assume ij: "i < length ms" "j < length ms" "i \<noteq> j"
  then have "i \<in> set (map unat idx)" "j \<in> set (map unat idx)"
    using wf_method_table_set [OF assms] by simp_all
  then obtain k l where "k < length idx" "l < length idx" "unat (idx ! k) = i" "unat (idx ! l) = j"
    by (auto simp: in_set_conv_nth)
  moreover from this ij have "k < l \<or> l < k" by (metis nat_neq_iff)
  ultimately show "ms ! i \<noteq> ms ! j"
    using wf_method_table_less [OF assms, of k l] wf_method_table_less [OF assms, of l k] assms
    by (auto simp: wf_method_table_def)
qed

section \<open>The TLV method header\<close>

text \<open>\<open>CMSG_TLV_SIZE\<close>, computed as \<open>size_t\<close> and kept in a \<open>uint32_t\<close>: it wraps.\<close>

definition CMSG_TLV_SIZE :: "u32 \<Rightarrow> u32" where
  "CMSG_TLV_SIZE x = 8 + x"

definition CMSG_TLV_METHOD_TYPE :: u32 where
  "CMSG_TLV_METHOD_TYPE = 0"

abbreviation CMSG_SERVER_REQUEST_MAX_NAME_LENGTH :: u32 where
  "CMSG_SERVER_REQUEST_MAX_NAME_LENGTH \<equiv> 128"

definition mem_write :: "u8 list \<Rightarrow> nat \<Rightarrow> u8 list \<Rightarrow> u8 list option" where
  "mem_write buf off bs =
     (if off + length bs \<le> length buf
      then Some (take off buf @ bs @ drop (off + length bs) buf) else None)"

text \<open>The bytes \<open>strncpy\<close> stores: the string cut at \<open>n\<close>, padded with NULs to \<open>n\<close>.\<close>

definition strncpy_bytes :: "string \<Rightarrow> nat \<Rightarrow> u8 list" where
  "strncpy_bytes src n = take n (bytes_of_string src @ replicate n 0)"

definition cmsg_tlv_method_header_create ::
  "endian \<Rightarrow> u8 list \<Rightarrow> cmsg_header \<Rightarrow> u32 \<Rightarrow> u32 \<Rightarrow> string \<Rightarrow> u8 list option" where
  "cmsg_tlv_method_header_create e buf header type len method_name =
     (let hton_type = htonl e type; hton_length = htonl e len in
      Option.bind (mem_write buf 0 (header_to_mem e header)) (\<lambda>buf.
      Option.bind (mem_write buf 16 (mem_of_u32 e hton_type)) (\<lambda>buf.
      Option.bind (mem_write buf 20 (mem_of_u32 e hton_length)) (\<lambda>buf.
      mem_write buf 24 (strncpy_bytes method_name (unat len))))))"

record cmsg_server_request =
  req_msg_type :: u32
  req_message_length :: u32
  req_method_index :: u32
  req_method_name_recvd :: string

definition read_net_u32 :: "endian \<Rightarrow> u8 list \<Rightarrow> nat \<Rightarrow> u32 option" where
  "read_net_u32 e buf off =
     (if off + 4 \<le> length buf then Some (ntohl e (u32_of_mem e (take 4 (drop off buf)))) else None)"

text \<open>The C string that starts a buffer; \<open>None\<close> when no NUL ends it.\<close>

fun cstring_of :: "u8 list \<Rightarrow> string option" where
  "cstring_of [] = None"
| "cstring_of (b # bs) =
     (if b = 0 then Some [] else map_option (Cons (char_of (unat b))) (cstring_of bs))"

text \<open>
  One round of the loop of \<open>cmsg_tlv_header_process\<close>: it ends the function with a return code
  (\<open>Inl\<close>) or goes on with the TLV's total length (\<open>Inr\<close>).
\<close>

definition cmsg_tlv_method_entry ::
  "service_descriptor option \<Rightarrow> u8 list \<Rightarrow> cmsg_server_request \<Rightarrow> u32
   \<Rightarrow> ((int + unit) \<times> cmsg_server_request) option" where
  "cmsg_tlv_method_entry desc buf req method_length =
     (if method_length = 0 \<or> CMSG_SERVER_REQUEST_MAX_NAME_LENGTH < method_length
      then Some (Inl CMSG_RET_ERR, req)
      else Option.bind (array_get buf 8) (\<lambda>b0.
        if b0 = 0 then Some (Inl CMSG_RET_ERR, req)
        else Option.bind (array_get buf (8 + unat (method_length - 1))) (\<lambda>bl.
          if bl \<noteq> 0 then Some (Inl CMSG_RET_ERR, req)
          else Option.bind (cstring_of (drop 8 buf)) (\<lambda>method.
            Option.bind (protobuf_c_service_descriptor_get_method_index_by_name desc method) (\<lambda>i.
              let req = req\<lparr>req_method_index := i\<rparr> in
              if \<not> IS_METHOD_DEFINED (req_method_index req)
              then Some (Inl CMSG_RET_METHOD_NOT_FOUND, req)
              else Some (Inr (), req\<lparr>req_method_name_recvd :=
                     take (unat (CMSG_SERVER_REQUEST_MAX_NAME_LENGTH - 1)) method\<rparr>))))))"

definition cmsg_tlv_entry ::
  "endian \<Rightarrow> service_descriptor option \<Rightarrow> u8 list \<Rightarrow> cmsg_server_request \<Rightarrow> u32
   \<Rightarrow> ((int + u32) \<times> cmsg_server_request) option" where
  "cmsg_tlv_entry e desc buf req extra_header_size =
     Option.bind (read_net_u32 e buf 0) (\<lambda>tlv_type.
     Option.bind (read_net_u32 e buf 4) (\<lambda>tlv_value_length.
       let tlv_total_length = CMSG_TLV_SIZE tlv_value_length in
       if tlv_total_length \<le> extra_header_size then
         if tlv_type = CMSG_TLV_METHOD_TYPE then
           Option.bind (read_net_u32 e buf 4) (\<lambda>method_length.
             case cmsg_tlv_method_entry desc buf req method_length of
               None \<Rightarrow> None
             | Some (Inl ret, req') \<Rightarrow> Some (Inl ret, req')
             | Some (Inr _, req') \<Rightarrow> Some (Inr tlv_total_length, req'))
         else Some (Inl CMSG_RET_ERR, req)
       else Some (Inl CMSG_RET_ERR, req)))"

lemma cmsg_tlv_method_entry_Inr:
  "cmsg_tlv_method_entry desc buf req ml = Some (Inr u, req') \<Longrightarrow> ml \<noteq> 0 \<and> ml \<le> 128"
  by (simp add: cmsg_tlv_method_entry_def not_less split: if_splits)

lemma unat_CMSG_TLV_SIZE:
  assumes "x \<le> 128"
  shows "unat (CMSG_TLV_SIZE x) = 8 + unat x"
proof -
  have "unat x \<le> 128" using assms by (simp add: word_le_nat_alt)
  then show ?thesis
    unfolding CMSG_TLV_SIZE_def by (subst unat_add_no_wrap) simp_all
qed

lemma cmsg_tlv_entry_progress:
  assumes "cmsg_tlv_entry e desc buf req extra = Some (Inr tot, req')"
  shows "8 < unat tot" "tot \<le> extra" "unat tot \<le> 136"
proof -
  from assms obtain ml where "tot = CMSG_TLV_SIZE ml" "tot \<le> extra"
      and "\<exists>u req'. cmsg_tlv_method_entry desc buf req ml = Some (Inr u, req')"
    by (auto simp: cmsg_tlv_entry_def Let_def bind_eq_Some_conv split: if_splits option.splits)
      (case_tac a; fastforce)
  moreover from this have ml: "ml \<noteq> 0" "ml \<le> 128"
    using cmsg_tlv_method_entry_Inr by blast+
  moreover from ml have "unat ml \<noteq> 0" "unat ml \<le> 128"
    by (simp_all add: unat_eq_zero word_le_nat_alt)
  ultimately show "8 < unat tot" "tot \<le> extra" "unat tot \<le> 136"
    by (simp_all add: unat_CMSG_TLV_SIZE)
qed

function cmsg_tlv_loop ::
  "endian \<Rightarrow> service_descriptor option \<Rightarrow> u8 list \<Rightarrow> cmsg_server_request \<Rightarrow> u32
   \<Rightarrow> (int \<times> cmsg_server_request) option" where
  "cmsg_tlv_loop e desc buf req extra_header_size =
     (if CMSG_TLV_SIZE 0 \<le> extra_header_size then
        case cmsg_tlv_entry e desc buf req extra_header_size of
          None \<Rightarrow> None
        | Some (Inl ret, req') \<Rightarrow> Some (ret, req')
        | Some (Inr tlv_total_length, req') \<Rightarrow>
            cmsg_tlv_loop e desc (drop (unat tlv_total_length) buf) req'
              (extra_header_size - tlv_total_length)
      else if extra_header_size \<noteq> 0 then Some (CMSG_RET_ERR, req)
      else Some (CMSG_RET_OK, req))"
  by pat_completeness auto
termination cmsg_tlv_loop
proof (relation "measure (\<lambda>(e, desc, buf, req, extra). unat extra)", goal_cases)
  case (2 e desc buf req extra x a req' tot)
  then have entry: "cmsg_tlv_entry e desc buf req extra = Some (Inr tot, req')" by simp
  from cmsg_tlv_entry_progress [OF this] show ?case
    by (simp add: unat_diff_le word_le_nat_alt)
qed simp

declare cmsg_tlv_loop.simps [simp del]

definition cmsg_tlv_header_process ::
  "endian \<Rightarrow> u8 list \<Rightarrow> cmsg_server_request \<Rightarrow> u32 \<Rightarrow> service_descriptor option
   \<Rightarrow> (int \<times> cmsg_server_request) option" where
  "cmsg_tlv_header_process e buf req extra_header_size desc =
     (if extra_header_size = 0 then Some (CMSG_RET_OK, req)
      else cmsg_tlv_loop e desc buf req extra_header_size)"


subsection \<open>Safety of the TLV processing\<close>

lemma cstring_of_total: "0 \<in> set bs \<Longrightarrow> \<exists>s. cstring_of bs = Some s"
  by (induction bs) auto

lemma cstring_of_append: "cstring_of (bytes_of_string s @ 0 # rest) = Some s" if "is_cstring s"
  using that
proof (induction s)
  case Nil
  then show ?case by (simp add: bytes_of_string_def)
next
  case (Cons c s)
  then have "(of_char c :: u8) \<noteq> 0"
    by (intro of_char_u8_nonzero) (auto simp: is_cstring_def)
  with Cons show ?case
    by (simp add: bytes_of_string_def is_cstring_def of_char_byte)
qed

lemma lookup_total:
  assumes "wf_descriptor d"
  shows "\<exists>i. protobuf_c_service_descriptor_get_method_index_by_name (Some d) nm = Some i"
proof (cases "method_indices_by_name d")
  case None
  then show ?thesis by (simp add: protobuf_c_service_descriptor_get_method_index_by_name_def)
next
  case (Some idx)
  with assms have "wf_method_table (svc_methods d) idx" by (simp add: wf_descriptor_def)
  from Some this show ?thesis by (cases rule: method_lookup_cases [where nm = nm]) auto
qed

lemma read_net_u32_total: "off + 4 \<le> length buf \<Longrightarrow> \<exists>x. read_net_u32 e buf off = Some x"
  by (simp add: read_net_u32_def)

lemma cmsg_tlv_method_entry_safe:
  assumes "wf_descriptor d" "ml \<le> 128 \<Longrightarrow> 8 + unat ml \<le> length buf"
  shows "\<exists>r. cmsg_tlv_method_entry (Some d) buf req ml = Some r"
proof (cases "ml = 0 \<or> 128 < ml \<or> array_get buf 8 = Some 0 \<or>
    array_get buf (8 + unat (ml - 1)) \<noteq> Some 0")
  case True
  have "unat (ml - 1) = unat ml - 1" "0 < unat ml" if "ml \<noteq> 0"
    using that by (simp_all add: unat_minus_one unat_gt_0)
  with True assms(2) show ?thesis
    by (cases "ml = 0 \<or> 128 < ml") (auto simp: cmsg_tlv_method_entry_def not_less)
next
  case False
  then have "unat (ml - 1) + 8 < length buf" "buf ! (8 + unat (ml - 1)) = 0"
    by (auto simp: array_get_def split: if_splits)
  then have "0 \<in> set (drop 8 buf)"
    by (auto simp: in_set_conv_nth intro!: exI [of _ "unat (ml - 1)"])
  then obtain s where "cstring_of (drop 8 buf) = Some s" using cstring_of_total by blast
  moreover obtain i where "protobuf_c_service_descriptor_get_method_index_by_name (Some d) s = Some i"
    using lookup_total [OF assms(1)] by blast
  moreover have "8 < length buf" using \<open>unat (ml - 1) + 8 < length buf\<close> by simp
  ultimately show ?thesis
    using False by (auto simp: cmsg_tlv_method_entry_def Let_def)
qed

lemma cmsg_tlv_entry_safe:
  assumes "wf_descriptor d" "8 \<le> extra" "unat extra \<le> length buf"
  shows "\<exists>r. cmsg_tlv_entry e (Some d) buf req extra = Some r"
proof -
  have len: "8 \<le> length buf" using assms(2,3) by (simp add: word_le_nat_alt)
  obtain ty where ty: "read_net_u32 e buf 0 = Some ty" using read_net_u32_total [of 0 buf e] len by auto
  obtain ml where ml: "read_net_u32 e buf 4 = Some ml" using read_net_u32_total [of 4 buf e] len by auto
  show ?thesis
  proof (cases "CMSG_TLV_SIZE ml \<le> extra \<and> ty = CMSG_TLV_METHOD_TYPE")
    case True
    then have "ml \<le> 128 \<Longrightarrow> 8 + unat ml \<le> length buf"
      using assms(3) unat_CMSG_TLV_SIZE [of ml] by (simp add: word_le_nat_alt)
    then obtain r where "cmsg_tlv_method_entry (Some d) buf req ml = Some r"
      using cmsg_tlv_method_entry_safe [OF assms(1)] by blast
    with True ty ml show ?thesis
      by (cases r; cases "fst r") (auto simp: cmsg_tlv_entry_def Let_def)
  next
    case False
    with ty ml show ?thesis by (auto simp: cmsg_tlv_entry_def Let_def)
  qed
qed

lemma cmsg_tlv_loop_safe:
  "wf_descriptor d \<Longrightarrow> unat extra \<le> length buf \<Longrightarrow>
    \<exists>r. cmsg_tlv_loop e (Some d) buf req extra = Some r"
proof (induction e "Some d" buf req extra rule: cmsg_tlv_loop.induct [case_names loop])
  case (loop e buf req extra)
  show ?case
  proof (cases "CMSG_TLV_SIZE 0 \<le> extra")
    case True
    then have "8 \<le> extra" by (simp add: CMSG_TLV_SIZE_def)
    from cmsg_tlv_entry_safe [OF loop.prems(1) this loop.prems(2)]
    obtain r req' where r: "cmsg_tlv_entry e (Some d) buf req extra = Some (r, req')" by fastforce
    show ?thesis
    proof (cases r)
      case (Inl ret)
      with r True show ?thesis by (subst cmsg_tlv_loop.simps) simp
    next
      case (Inr tot)
      with r have entry: "cmsg_tlv_entry e (Some d) buf req extra = Some (Inr tot, req')" by simp
      have "unat (extra - tot) \<le> length (drop (unat tot) buf)"
        using cmsg_tlv_entry_progress(2) [OF entry] loop.prems(2) by (simp add: unat_diff_le)
      with loop.hyps [OF True r refl Inr loop.prems(1)] True entry show ?thesis
        by (subst cmsg_tlv_loop.simps) simp
    qed
  qed (subst cmsg_tlv_loop.simps, simp)
qed

lemma cmsg_tlv_header_process_safe:
  assumes "wf_descriptor d" "unat extra \<le> length buf"
  shows "\<exists>r. cmsg_tlv_header_process e buf req extra (Some d) = Some r"
  using cmsg_tlv_loop_safe [OF assms] by (simp add: cmsg_tlv_header_process_def)

subsection \<open>The receiver reads what the sender wrote\<close>

lemma length_strncpy_bytes [simp]: "length (strncpy_bytes s n) = n"
  by (simp add: strncpy_bytes_def)

lemma strncpy_bytes_fits: "strncpy_bytes s (Suc (length s)) = bytes_of_string s @ [0]"
  by (simp add: strncpy_bytes_def bytes_of_string_def)

lemma cmsg_tlv_method_header_create_layout:
  assumes "24 + unat len \<le> length buf"
  shows "cmsg_tlv_method_header_create e buf h type len nm =
    Some (header_to_mem e h @ be_bytes type @ be_bytes len @ strncpy_bytes nm (unat len)
          @ drop (24 + unat len) buf)"
  using assms by (simp add: cmsg_tlv_method_header_create_def mem_write_def Let_def add.commute)

text \<open>The method TLV the sender writes reaches the lookup with the method's name.\<close>

lemma cmsg_tlv_entry_sent:
  assumes nm: "is_cstring nm" "nm \<noteq> []"
    and len: "len = of_nat (Suc (length nm))" "length nm < 128"
    and look: "protobuf_c_service_descriptor_get_method_index_by_name desc nm = Some i"
  shows "cmsg_tlv_entry e desc
      (be_bytes CMSG_TLV_METHOD_TYPE @ be_bytes len @ strncpy_bytes nm (unat len) @ rest)
      req (CMSG_TLV_SIZE len) =
    Some (if IS_METHOD_DEFINED i
          then (Inr (CMSG_TLV_SIZE len), req\<lparr>req_method_index := i, req_method_name_recvd := nm\<rparr>)
          else (Inl CMSG_RET_METHOD_NOT_FOUND, req\<lparr>req_method_index := i\<rparr>))"
proof -
  let ?buf = "be_bytes CMSG_TLV_METHOD_TYPE @ be_bytes len @ strncpy_bytes nm (unat len) @ rest"
  have n: "unat len = Suc (length nm)"
    unfolding len(1) using len(2) by (simp only: unat_of_nat) simp
  then have le: "len \<le> 128" "len \<noteq> 0"
    using len(2) by (auto simp: word_le_nat_alt)
  have last: "unat (len - 1) = length nm" using n le by (simp add: unat_minus_one)
  have name: "drop 8 ?buf = bytes_of_string nm @ 0 # rest"
    by (simp add: n strncpy_bytes_fits)
  have at: "array_get ?buf (8 + k) = array_get (bytes_of_string nm @ 0 # rest) k" for k
    using name by (simp add: array_get_def nth_append n strncpy_bytes_fits)
  obtain c cs where c: "nm = c # cs" using nm(2) by (cases nm) auto
  then have "(of_char c :: u8) \<noteq> 0"
    using nm(1) by (intro of_char_u8_nonzero) (auto simp: is_cstring_def)
  then have first: "\<exists>b. array_get ?buf 8 = Some b \<and> b \<noteq> 0"
    using at [of 0] c by (simp add: bytes_of_string_def)
  have nul: "array_get ?buf (8 + unat (len - 1)) = Some 0"
    unfolding at last by (simp add: array_get_def nth_append bytes_of_string_def)
  have "cmsg_tlv_method_entry desc ?buf req len =
      Some (if IS_METHOD_DEFINED i
        then (Inr (), req\<lparr>req_method_index := i, req_method_name_recvd := nm\<rparr>)
        else (Inl CMSG_RET_METHOD_NOT_FOUND, req\<lparr>req_method_index := i\<rparr>))"
    using first nul le len(2) look name cstring_of_append [OF nm(1), of rest]
    by (auto simp: cmsg_tlv_method_entry_def Let_def)
  then show ?thesis
    by (simp add: cmsg_tlv_entry_def read_net_u32_def CMSG_TLV_METHOD_TYPE_def Let_def)
qed

lemma cmsg_tlv_header_process_sent:
  assumes wf: "method_indices_by_name d = Some idx" "wf_method_table (svc_methods d) idx"
    and nm: "svc_methods d ! i = nm" "i < length (svc_methods d)" "is_cstring nm" "nm \<noteq> []"
    and len: "len = of_nat (Suc (length nm))" "length nm < 128"
  shows "cmsg_tlv_header_process e
      (be_bytes CMSG_TLV_METHOD_TYPE @ be_bytes len @ strncpy_bytes nm (unat len) @ rest)
      req (CMSG_TLV_SIZE len) (Some d) =
    Some (CMSG_RET_OK, req\<lparr>req_method_index := of_nat i, req_method_name_recvd := nm\<rparr>)"
proof -
  let ?buf = "be_bytes CMSG_TLV_METHOD_TYPE @ be_bytes len @ strncpy_bytes nm (unat len) @ rest"
  have n: "unat len = Suc (length nm)"
    unfolding len(1) using len(2) by (simp only: unat_of_nat) simp
  then have "len \<le> 128" using len(2) by (simp add: word_le_nat_alt)
  then have sz: "unat (CMSG_TLV_SIZE len) = 8 + unat len" by (simp add: unat_CMSG_TLV_SIZE)
  have lookup: "protobuf_c_service_descriptor_get_method_index_by_name (Some d) nm = Some (of_nat i)"
    using wf
  proof (cases rule: method_lookup_cases [where nm = nm])
    case (found j)
    then have "j = i"
      using nth_eq_iff_index_eq [OF wf_method_table_distinct [OF wf(2)], of j i] nm by simp
    with found show ?thesis by simp
  next
    case absent
    with nm show ?thesis by (metis nth_mem)
  qed
  have "length (svc_methods d) < 2 ^ 32" using wf(2) by (simp add: wf_method_table_def)
  then have "i < 4294967295" using nm(2) by simp
  then have "unat (of_nat i :: u32) \<noteq> unat UNDEFINED_METHOD"
    by (simp add: unat_of_nat UNDEFINED_METHOD_def)
  then have "IS_METHOD_DEFINED (of_nat i)" by (auto simp: IS_METHOD_DEFINED_def)
  then have entry: "cmsg_tlv_entry e (Some d) ?buf req (CMSG_TLV_SIZE len) = Some (Inr (CMSG_TLV_SIZE len),
      req\<lparr>req_method_index := of_nat i, req_method_name_recvd := nm\<rparr>)"
    using cmsg_tlv_entry_sent [OF nm(3,4) len lookup] by simp
  have "CMSG_TLV_SIZE 0 \<le> CMSG_TLV_SIZE len" "CMSG_TLV_SIZE len \<noteq> 0"
    using sz unat_CMSG_TLV_SIZE [of 0] by (auto simp: word_le_nat_alt)
  then show ?thesis
    using entry sz by (simp add: cmsg_tlv_header_process_def cmsg_tlv_loop.simps [of e _ ?buf])
      (simp add: cmsg_tlv_loop.simps CMSG_TLV_SIZE_def)
qed

text \<open>A method the receiver does not have.\<close>

lemma cmsg_tlv_header_process_unknown:
  assumes wf: "wf_descriptor d"
    and nm: "nm \<notin> set (svc_methods d)" "is_cstring nm" "nm \<noteq> []"
    and len: "len = of_nat (Suc (length nm))" "length nm < 128"
  shows "cmsg_tlv_header_process e
      (be_bytes CMSG_TLV_METHOD_TYPE @ be_bytes len @ strncpy_bytes nm (unat len) @ rest)
      req (CMSG_TLV_SIZE len) (Some d) =
    Some (CMSG_RET_METHOD_NOT_FOUND, req\<lparr>req_method_index := UNDEFINED_METHOD\<rparr>)"
proof -
  let ?buf = "be_bytes CMSG_TLV_METHOD_TYPE @ be_bytes len @ strncpy_bytes nm (unat len) @ rest"
  have n: "unat len = Suc (length nm)"
    unfolding len(1) using len(2) by (simp only: unat_of_nat) simp
  then have "len \<le> 128" using len(2) by (simp add: word_le_nat_alt)
  then have sz: "unat (CMSG_TLV_SIZE len) = 8 + unat len" by (simp add: unat_CMSG_TLV_SIZE)
  have lookup: "protobuf_c_service_descriptor_get_method_index_by_name (Some d) nm = Some UNDEFINED_METHOD"
  proof (cases "method_indices_by_name d")
    case None
    then show ?thesis by (simp add: protobuf_c_service_descriptor_get_method_index_by_name_def)
  next
    case (Some idx)
    with wf have "wf_method_table (svc_methods d) idx" by (simp add: wf_descriptor_def)
    with Some show ?thesis
      by (cases rule: method_lookup_cases [where nm = nm and d = d]) (use nm(1) nth_mem in auto)
  qed
  have "cmsg_tlv_entry e (Some d) ?buf req (CMSG_TLV_SIZE len) =
      Some (Inl CMSG_RET_METHOD_NOT_FOUND, req\<lparr>req_method_index := UNDEFINED_METHOD\<rparr>)"
    using cmsg_tlv_entry_sent [OF nm(2,3) len lookup] by (simp add: IS_METHOD_DEFINED_def)
  moreover have "CMSG_TLV_SIZE 0 \<le> CMSG_TLV_SIZE len" "CMSG_TLV_SIZE len \<noteq> 0"
    using sz unat_CMSG_TLV_SIZE [of 0] by (auto simp: word_le_nat_alt)
  ultimately show ?thesis
    by (simp add: cmsg_tlv_header_process_def cmsg_tlv_loop.simps [of e _ ?buf])
qed

end
