(* ===== verification/MsgHelpers.thy ===== *)
theory MsgHelpers
  imports Wire
begin

text \<open>
  The message helpers of \<open>cmsg/src/cmsg.c\<close>: growing a repeated field, one block holding an
  array of pointers and the structs they point to, packing and cloning a message, dumping it
  to a file and reading it back, and enumeration names. The protobuf-c library (packing and
  unpacking) and the outcome of system calls are arguments of the definitions.
\<close>

section \<open>Repeated fields\<close>

text \<open>
  A repeated field: the pointer to its block (\<open>None\<close> is \<open>NULL\<close>), whose cells are \<open>None\<close> until
  written, and the number of elements. \<open>realloc\<close> is told whether it succeeds.
\<close>

record 'a repeated =
  rep_block :: "'a option list option"
  num_elems :: nat

abbreviation CMSG_REPEATED_BLOCK_SIZE :: nat where
  "CMSG_REPEATED_BLOCK_SIZE \<equiv> 64"

definition cmsg_realloc :: "bool \<Rightarrow> 'a option list option \<Rightarrow> nat \<Rightarrow> 'a option list option" where
  "cmsg_realloc ok ptr n =
     (if ok then
        Some (case ptr of
                None \<Rightarrow> replicate n None
              | Some b \<Rightarrow> take n b @ replicate (n - length b) None)
      else None)"

text \<open>The result is \<open>None\<close> where the code would write past the end of the block.\<close>

definition cmsg_repeated_push :: "bool \<Rightarrow> 'a repeated \<Rightarrow> 'a \<Rightarrow> 'a repeated option" where
  "cmsg_repeated_push ok r value =
     (let n = num_elems r;
          new_array_ptr = (if n mod CMSG_REPEATED_BLOCK_SIZE = 0
                           then cmsg_realloc ok (rep_block r) (n + CMSG_REPEATED_BLOCK_SIZE)
                           else rep_block r)
      in case new_array_ptr of
           None \<Rightarrow> Some r
         | Some b \<Rightarrow> (if n < length b
                     then Some \<lparr>rep_block = Some (b[n := Some value]), num_elems = n + 1\<rparr>
                     else None))"

definition cmsg_repeated_append :: "bool \<Rightarrow> 'a repeated \<Rightarrow> 'a option \<Rightarrow> 'a repeated option" where
  "cmsg_repeated_append ok r ptr =
     (case ptr of None \<Rightarrow> Some r | Some p \<Rightarrow> cmsg_repeated_push ok r p)"

definition cmsg_repeated_append_uint32 :: "bool \<Rightarrow> u32 repeated \<Rightarrow> u32 \<Rightarrow> u32 repeated option" where
  "cmsg_repeated_append_uint32 ok r value = cmsg_repeated_push ok r value"

definition cmsg_repeated_append_int32 :: "bool \<Rightarrow> int repeated \<Rightarrow> int \<Rightarrow> int repeated option" where
  "cmsg_repeated_append_int32 ok r value = cmsg_repeated_push ok r value"

text \<open>The blocks the code builds: capacity is the count rounded up to whole blocks of 64.\<close>

definition repeated_ok :: "'a repeated \<Rightarrow> bool" where
  "repeated_ok r \<longleftrightarrow>
     (case rep_block r of
        None \<Rightarrow> num_elems r = 0
      | Some b \<Rightarrow> length b = 64 * ((num_elems r + 63) div 64) \<and>
                  (\<forall>i < num_elems r. b ! i \<noteq> None))"

definition repeated_contents :: "'a repeated \<Rightarrow> 'a list" where
  "repeated_contents r =
     (case rep_block r of None \<Rightarrow> [] | Some b \<Rightarrow> map the (take (num_elems r) b))"

lemma blocks_of:
  fixes q m :: nat
  assumes "64 * q < m" "m \<le> 64 * (q + 1)"
  shows "(m + 63) div 64 = q + 1"
  by (rule div_nat_eqI) (use assms in simp_all)

lemma repeated_capacity:
  fixes n :: nat
  assumes "n mod 64 \<noteq> 0"
  shows "n < 64 * ((n + 63) div 64)" "(n + 1 + 63) div 64 = (n + 63) div 64"
proof -
  define q r where "q = n div 64" and "r = n mod 64"
  then have n: "n = 64 * q + r" and r: "r < 64" "0 < r"
    using assms by (simp_all add: mult_div_mod_eq)
  then have "64 * q < n" "n + 1 \<le> 64 * (q + 1)" by simp_all
  then show "n < 64 * ((n + 63) div 64)" "(n + 1 + 63) div 64 = (n + 63) div 64"
    using blocks_of [of q n] blocks_of [of q "n + 1"] by simp_all
qed

lemma repeated_full:
  fixes n :: nat
  assumes "n mod 64 = 0"
  shows "64 * ((n + 1 + 63) div 64) = n + 64" "64 * ((n + 63) div 64) = n"
proof -
  obtain q where "n = 64 * q" using assms by (auto simp: dvd_eq_mod_eq_0 [symmetric])
  then show "64 * ((n + 1 + 63) div 64) = n + 64" "64 * ((n + 63) div 64) = n"
    using blocks_of [of q "n + 1"] by simp_all
qed

text \<open>The block a push writes into, when there is one.\<close>

lemma repeated_push_block:
  assumes "repeated_ok r" "n = num_elems r"
    and "blk = (if n mod 64 = 0 then cmsg_realloc ok (rep_block r) (n + 64) else rep_block r)"
  shows "blk = None \<longrightarrow> \<not> ok \<and> n mod 64 = 0"
    and "blk = Some b \<longrightarrow> n < length b \<and> length b = 64 * ((n + 1 + 63) div 64) \<and>
           map the (take n b) = repeated_contents r \<and> (\<forall>i<n. b ! i \<noteq> None)"
proof -
  show "blk = None \<longrightarrow> \<not> ok \<and> n mod 64 = 0"
    using assms by (auto simp: cmsg_realloc_def repeated_ok_def split: if_splits option.splits)
  show "blk = Some b \<longrightarrow> n < length b \<and> length b = 64 * ((n + 1 + 63) div 64) \<and>
           map the (take n b) = repeated_contents r \<and> (\<forall>i<n. b ! i \<noteq> None)"
  proof (cases "n mod 64 = 0")
    case True
    then show ?thesis
      using assms repeated_full [OF True]
      by (auto simp: cmsg_realloc_def repeated_ok_def repeated_contents_def nth_append
          split: if_splits option.splits)
  next
    case False
    then show ?thesis
      using assms repeated_capacity [OF False]
      by (auto simp: repeated_ok_def repeated_contents_def split: option.splits)
  qed
qed

lemma cmsg_repeated_push_correct:
  assumes "repeated_ok r"
  shows "\<exists>r'. cmsg_repeated_push ok r v = Some r' \<and> repeated_ok r' \<and>
    (repeated_contents r' = repeated_contents r @ [v] \<and> num_elems r' = num_elems r + 1 \<or>
     \<not> ok \<and> r' = r)"
proof -
  define n where "n = num_elems r"
  define blk where "blk = (if n mod 64 = 0 then cmsg_realloc ok (rep_block r) (n + 64) else rep_block r)"
  note facts = repeated_push_block [OF assms n_def blk_def]
  show ?thesis
  proof (cases blk)
    case None
    then have "cmsg_repeated_push ok r v = Some r"
      by (simp add: cmsg_repeated_push_def n_def [symmetric] blk_def [symmetric] Let_def)
    with facts(1) None assms show ?thesis by blast
  next
    case (Some b)
    note b = facts(2) [of b, rule_format, OF Some]
    then have n: "n < length b" by blast
    then have push: "cmsg_repeated_push ok r v =
        Some \<lparr>rep_block = Some (b[n := Some v]), num_elems = n + 1\<rparr>"
      using Some by (simp add: cmsg_repeated_push_def n_def [symmetric] blk_def [symmetric] Let_def)
    moreover have "repeated_ok \<lparr>rep_block = Some (b[n := Some v]), num_elems = n + 1\<rparr>"
      using b by (auto simp: repeated_ok_def nth_list_update less_Suc_eq)
    moreover have "repeated_contents \<lparr>rep_block = Some (b[n := Some v]), num_elems = n + 1\<rparr> =
        repeated_contents r @ [v]"
      using b n by (simp add: repeated_contents_def take_Suc_conv_app_nth)
    ultimately show ?thesis by (simp add: n_def)
  qed
qed

section \<open>One block for pointers and structs\<close>

text \<open>Addresses are 64-bit; \<open>base\<close> is what \<open>malloc\<close> returned.\<close>

definition cmsg_msg_array_alloc :: "u64 \<Rightarrow> u64 \<Rightarrow> u32 \<Rightarrow> u64 \<times> u64 list" where
  "cmsg_msg_array_alloc base struct_size num_structs =
     (let total_struct_size = struct_size * ucast num_structs;
          total_ptr_size = 8 * ucast num_structs;
          struct_array = base + total_ptr_size
      in (total_struct_size + total_ptr_size,
          map (\<lambda>i. struct_array + of_nat i * struct_size) [0..<unat num_structs]))"

text \<open>Without overflow every struct lies in the block, after the pointers, and none overlap.\<close>

lemma cmsg_msg_array_alloc_layout:
  assumes "cmsg_msg_array_alloc base ssz n = (sz, ptrs)"
    and fits: "unat base + unat n * (unat ssz + 8) < 2 ^ 64"
  shows "unat sz = unat n * (unat ssz + 8)"
    and "length ptrs = unat n"
    and "i < unat n \<Longrightarrow> unat (ptrs ! i) = unat base + 8 * unat n + i * unat ssz"
proof -
  define m k b where "m = unat n" and "k = unat ssz" and "b = unat base"
  have w: "(ucast n :: u64) = of_nat m" "ssz = of_nat k" "base = of_nat b"
    by (simp_all add: m_def k_def b_def)
  have fits': "b + (m * k + 8 * m) < 2 ^ 64"
    using fits by (simp add: m_def k_def b_def algebra_simps)
  then have block: "k * m + 8 * m < 2 ^ 64" by (simp add: mult.commute)
  have "sz = of_nat (k * m + 8 * m)"
    using assms(1) by (simp add: cmsg_msg_array_alloc_def Let_def w)
  then have "unat sz = k * m + 8 * m"
    using block by (simp only: unat_of_nat) simp
  then show "unat sz = unat n * (unat ssz + 8)"
    by (simp add: m_def k_def distrib_left mult.commute)
  show "length ptrs = unat n"
    using assms(1) by (auto simp: cmsg_msg_array_alloc_def Let_def)
  assume i: "i < unat n"
  then have "ptrs ! i = of_nat (b + 8 * m + i * k)"
    using assms(1) by (auto simp: cmsg_msg_array_alloc_def Let_def w)
  moreover have "i * k \<le> m * k" using i by (simp add: m_def)
  then have "b + 8 * m + i * k < 2 ^ 64" using fits' by linarith
  ultimately have "unat (ptrs ! i) = b + 8 * m + i * k"
    by (simp only: unat_of_nat) simp
  then show "unat (ptrs ! i) = unat base + 8 * unat n + i * unat ssz"
    by (simp only: m_def k_def b_def)
qed

section \<open>Packing, cloning and files\<close>

text \<open>\<open>packed_size\<close> and \<open>pack\<close> stand for \<open>protobuf_c_message_get_packed_size\<close> and \<open>_pack\<close>.\<close>

definition cmsg_pack_msg :: "('m \<Rightarrow> nat) \<Rightarrow> ('m \<Rightarrow> u8 list) \<Rightarrow> 'm \<Rightarrow> u8 list option" where
  "cmsg_pack_msg packed_size pack msg =
     (let message_size = packed_size msg; data = pack msg; ret = length data in
      if ret < message_size then None
      else if message_size < ret then None
      else Some data)"

definition cmsg_clone ::
  "('m \<Rightarrow> nat) \<Rightarrow> ('m \<Rightarrow> u8 list) \<Rightarrow> (u8 list \<Rightarrow> 'm option) \<Rightarrow> 'm \<Rightarrow> 'm option" where
  "cmsg_clone packed_size pack unpack msg =
     (case cmsg_pack_msg packed_size pack msg of None \<Rightarrow> None | Some data \<Rightarrow> unpack data)"

text \<open>
  A file system is a map from names to contents. \<open>written\<close> is how many bytes \<open>fwrite\<close>
  manages to write, \<open>rename_ok\<close> whether \<open>rename\<close> succeeds, and so on.
\<close>

record dump_env =
  asprintf_ok :: bool
  fopen_ok :: bool
  fwrite_max :: nat
  rename_ok :: bool

definition cmsg_dump_msg_to_file ::
  "dump_env \<Rightarrow> u8 list option \<Rightarrow> (string \<rightharpoonup> u8 list) \<Rightarrow> string \<Rightarrow> int \<times> (string \<rightharpoonup> u8 list)" where
  "cmsg_dump_msg_to_file env packed fs file_name =
     (if \<not> asprintf_ok env then (CMSG_RET_ERR, fs)
      else let tmp_file_name = file_name @ ''.tmp'' in
      if \<not> fopen_ok env then (CMSG_RET_ERR, fs)
      else
        let fs = fs(tmp_file_name \<mapsto> []);
            (ret, fs) =
              (case packed of
                 None \<Rightarrow> (CMSG_RET_ERR, fs)
               | Some data \<Rightarrow>
                   (let len = min (fwrite_max env) (length data);
                        fs = fs(tmp_file_name \<mapsto> take len data)
                    in if len = length data then (CMSG_RET_OK, fs) else (CMSG_RET_ERR, fs)));
            fs = (if rename_ok env
                  then (fs(file_name := fs tmp_file_name))(tmp_file_name := None) else fs)
        in (ret, fs))"

definition cmsg_get_msg_from_file ::
  "bool \<Rightarrow> bool \<Rightarrow> nat \<Rightarrow> (u8 list \<Rightarrow> 'm option) \<Rightarrow> (string \<rightharpoonup> u8 list) \<Rightarrow> string \<Rightarrow> 'm option" where
  "cmsg_get_msg_from_file open_ok malloc_ok fread_max unpack fs file_name =
     (case fs file_name of
        None \<Rightarrow> None
      | Some contents \<Rightarrow>
          if \<not> open_ok then None
          else if \<not> malloc_ok then None
          else let st_size = length contents; len = min fread_max st_size in
            if len \<noteq> st_size then None
            else unpack (take len contents))"

section \<open>Enumeration names\<close>

text \<open>The descriptor's values are sorted; the search stops at the first larger one.\<close>

fun enum_search :: "(int \<times> string) list \<Rightarrow> int \<Rightarrow> string option" where
  "enum_search [] v = None"
| "enum_search ((w, nm) # rest) v =
     (if w = v then Some nm else if v < w then None else enum_search rest v)"

definition cmsg_enum_to_name :: "(int \<times> string) list option \<Rightarrow> int \<Rightarrow> string option" where
  "cmsg_enum_to_name desc v = (case desc of None \<Rightarrow> None | Some values \<Rightarrow> enum_search values v)"

lemma enum_search_map_of: "sorted (map fst vs) \<Longrightarrow> enum_search vs v = map_of vs v"
proof (induction vs)
  case (Cons p vs)
  have "v < fst p \<Longrightarrow> map_of vs v = None"
    using Cons.prems by (force simp: map_of_eq_None_iff)
  with Cons show ?case by (cases p) auto
qed simp

section \<open>Thread names\<close>

text \<open>\<open>snprintf\<close> into 16 bytes of the prefix and as much of the name as fits.\<close>

definition cmsg_pthread_name :: "string \<Rightarrow> string option \<Rightarrow> string" where
  "cmsg_pthread_name prefix cmsg_name =
     take 15 (prefix @ take (16 - length prefix - 1) (case cmsg_name of None \<Rightarrow> ''cmsg'' | Some n \<Rightarrow> n))"

end
