(* ===== verification/Transport.thy ===== *)
theory Transport
  imports MsgHelpers
begin

text \<open>
  Transports and their descriptions: \<open>struct cmsg_transport\<close> with its socket address and
  function table (\<open>cmsg/src/transport/*.c\<close>), and the \<open>cmsg_transport_info\<close> messages that
  describe a transport to another process.

  The union of socket addresses is a flat record: \<open>sin_port\<close> is the port field that
  \<open>sockaddr_in\<close> and \<open>sockaddr_in6\<close> share at the same offset, the other fields belong to one
  member each. Addresses and ports are byte lists in network order. A function pointer is the
  name of the function, \<open>None\<close> is \<open>NULL\<close>. Allocation of the small fixed-size structs is taken
  to succeed. A message's \<open>type\<close> field names the member of its \<open>oneof\<close>.
\<close>

section \<open>The transport structure\<close>

datatype cmsg_transport_type =
    CMSG_TRANSPORT_LOOPBACK
  | CMSG_TRANSPORT_RPC_TCP
  | CMSG_TRANSPORT_ONEWAY_TCP
  | CMSG_TRANSPORT_BROADCAST
  | CMSG_TRANSPORT_RPC_UNIX
  | CMSG_TRANSPORT_ONEWAY_UNIX
  | CMSG_TRANSPORT_FORWARDING

datatype addr_family = AF_UNSPEC | AF_UNIX | AF_INET | AF_INET6 | AF_TIPC

record tport_functions =
  fn_recv_wrapper :: "string option"
  fn_connect :: "string option"
  fn_listen :: "string option"
  fn_server_accept :: "string option"
  fn_server_recv :: "string option"
  fn_client_recv :: "string option"
  fn_client_send :: "string option"
  fn_server_send :: "string option"
  fn_socket_close :: "string option"
  fn_get_socket :: "string option"
  fn_apply_send_timeout :: "string option"
  fn_apply_recv_timeout :: "string option"
  fn_destroy :: "string option"

record cmsg_transport =
  t_type :: cmsg_transport_type
  family :: addr_family
  vrf_bind_dev :: string
  sin_port :: "u8 list"
  sin_addr :: "u8 list"
  sin6_addr :: "u8 list"
  sin6_scope_id :: u32
  sun_family :: addr_family
  sun_path :: string
  tport_id :: string
  parent_obj_id :: string
  send_timeout :: u32
  receive_timeout :: u32
  connect_timeout :: u32
  receive_peek_timeout :: u32
  t_socket :: int
  tport_funcs :: tport_functions

definition no_funcs :: tport_functions where
  "no_funcs = \<lparr>fn_recv_wrapper = None, fn_connect = None, fn_listen = None,
     fn_server_accept = None, fn_server_recv = None, fn_client_recv = None,
     fn_client_send = None, fn_server_send = None, fn_socket_close = None,
     fn_get_socket = None, fn_apply_send_timeout = None, fn_apply_recv_timeout = None,
     fn_destroy = None\<rparr>"

section \<open>Function tables of the transport kinds\<close>

definition cmsg_transport_tcp_init_common :: "tport_functions \<Rightarrow> tport_functions" where
  "cmsg_transport_tcp_init_common f = f\<lparr>
     fn_recv_wrapper := Some ''cmsg_transport_tcp_recv'',
     fn_connect := Some ''cmsg_transport_tcp_connect'',
     fn_listen := Some ''cmsg_transport_tcp_listen'',
     fn_server_accept := Some ''cmsg_transport_tcp_server_accept'',
     fn_server_recv := Some ''cmsg_transport_server_recv'',
     fn_client_recv := Some ''cmsg_transport_tcp_client_recv'',
     fn_client_send := Some ''cmsg_transport_tcp_client_send'',
     fn_socket_close := Some ''cmsg_transport_tcp_socket_close'',
     fn_get_socket := Some ''cmsg_transport_get_socket'',
     fn_destroy := None,
     fn_apply_send_timeout := Some ''cmsg_transport_apply_send_timeout'',
     fn_apply_recv_timeout := Some ''cmsg_transport_apply_recv_timeout''\<rparr>"

definition cmsg_transport_tcp_init :: "cmsg_transport \<Rightarrow> cmsg_transport" where
  "cmsg_transport_tcp_init t = t\<lparr>family := AF_INET,
     tport_funcs := (cmsg_transport_tcp_init_common (tport_funcs t))
       \<lparr>fn_server_send := Some ''cmsg_transport_rpc_server_send''\<rparr>\<rparr>"

definition cmsg_transport_oneway_tcp_init :: "cmsg_transport \<Rightarrow> cmsg_transport" where
  "cmsg_transport_oneway_tcp_init t = t\<lparr>family := AF_INET,
     tport_funcs := (cmsg_transport_tcp_init_common (tport_funcs t))
       \<lparr>fn_server_send := Some ''cmsg_transport_oneway_server_send''\<rparr>\<rparr>"

definition cmsg_transport_unix_init_common :: "cmsg_transport \<Rightarrow> cmsg_transport" where
  "cmsg_transport_unix_init_common t = t\<lparr>family := AF_UNIX, sun_family := AF_UNIX,
     tport_funcs := (tport_funcs t)\<lparr>
       fn_recv_wrapper := Some ''cmsg_transport_unix_recv'',
       fn_connect := Some ''cmsg_transport_unix_connect'',
       fn_listen := Some ''cmsg_transport_unix_listen'',
       fn_server_accept := Some ''cmsg_transport_unix_server_accept'',
       fn_server_recv := Some ''cmsg_transport_server_recv'',
       fn_client_recv := Some ''cmsg_transport_unix_client_recv'',
       fn_client_send := Some ''cmsg_transport_unix_client_send'',
       fn_socket_close := Some ''cmsg_transport_socket_close'',
       fn_get_socket := Some ''cmsg_transport_get_socket'',
       fn_destroy := None,
       fn_apply_send_timeout := Some ''cmsg_transport_apply_send_timeout'',
       fn_apply_recv_timeout := Some ''cmsg_transport_apply_recv_timeout''\<rparr>\<rparr>"

definition cmsg_transport_rpc_unix_init :: "cmsg_transport \<Rightarrow> cmsg_transport" where
  "cmsg_transport_rpc_unix_init t =
     (let t = cmsg_transport_unix_init_common t in
      t\<lparr>tport_funcs := (tport_funcs t)\<lparr>fn_server_send := Some ''cmsg_transport_rpc_server_send''\<rparr>\<rparr>)"

definition cmsg_transport_oneway_unix_init :: "cmsg_transport \<Rightarrow> cmsg_transport" where
  "cmsg_transport_oneway_unix_init t =
     (let t = cmsg_transport_unix_init_common t in
      t\<lparr>tport_funcs := (tport_funcs t)\<lparr>fn_server_send := Some ''cmsg_transport_oneway_server_send''\<rparr>\<rparr>)"

definition cmsg_transport_loopback_init :: "cmsg_transport \<Rightarrow> cmsg_transport" where
  "cmsg_transport_loopback_init t = t\<lparr>tport_funcs := (tport_funcs t)\<lparr>
     fn_server_send := Some ''cmsg_transport_loopback_server_send'',
     fn_recv_wrapper := Some ''cmsg_transport_loopback_recv_handler'',
     fn_client_recv := Some ''cmsg_transport_loopback_client_recv'',
     fn_socket_close := Some ''cmsg_transport_loopback_client_close''\<rparr>\<rparr>"

definition cmsg_transport_forwarding_init :: "cmsg_transport \<Rightarrow> cmsg_transport" where
  "cmsg_transport_forwarding_init t = t\<lparr>tport_funcs := (tport_funcs t)\<lparr>
     fn_client_send := Some ''cmsg_transport_forwarding_client_send'',
     fn_destroy := Some ''cmsg_transport_forwarding_client_destroy'',
     fn_server_recv := Some ''cmsg_transport_server_recv'',
     fn_recv_wrapper := Some ''cmsg_transport_forwarding_recv_wrapper''\<rparr>\<rparr>"

definition cmsg_transport_tipc_broadcast_init :: "cmsg_transport \<Rightarrow> cmsg_transport" where
  "cmsg_transport_tipc_broadcast_init t = t\<lparr>family := AF_TIPC,
     tport_funcs := (tport_funcs t)\<lparr>
       fn_recv_wrapper := Some ''cmsg_transport_tipc_broadcast_recv'',
       fn_connect := Some ''cmsg_transport_tipc_broadcast_connect'',
       fn_listen := Some ''cmsg_transport_tipc_broadcast_listen'',
       fn_server_recv := Some ''cmsg_transport_server_recv'',
       fn_client_recv := Some ''cmsg_transport_tipc_broadcast_client_recv'',
       fn_client_send := Some ''cmsg_transport_tipc_broadcast_client_send'',
       fn_server_send := Some ''cmsg_transport_oneway_server_send'',
       fn_socket_close := Some ''cmsg_transport_socket_close'',
       fn_get_socket := Some ''cmsg_transport_get_socket'',
       fn_destroy := None,
       fn_apply_send_timeout := Some ''cmsg_transport_apply_send_timeout'',
       fn_apply_recv_timeout := Some ''cmsg_transport_apply_recv_timeout''\<rparr>\<rparr>"

definition cmsg_transport_new :: "cmsg_transport_type \<Rightarrow> cmsg_transport" where
  "cmsg_transport_new ty =
     (let t = \<lparr>t_type = ty, family = AF_UNSPEC, vrf_bind_dev = [],
        sin_port = replicate 2 0, sin_addr = replicate 4 0, sin6_addr = replicate 16 0,
        sin6_scope_id = 0, sun_family = AF_UNSPEC, sun_path = [], tport_id = [],
        parent_obj_id = [], send_timeout = 5, receive_timeout = 5, connect_timeout = 5,
        receive_peek_timeout = 10, t_socket = 0, tport_funcs = no_funcs\<rparr>;
      t = (case ty of
             CMSG_TRANSPORT_RPC_TCP \<Rightarrow> cmsg_transport_tcp_init t
           | CMSG_TRANSPORT_ONEWAY_TCP \<Rightarrow> cmsg_transport_oneway_tcp_init t
           | CMSG_TRANSPORT_BROADCAST \<Rightarrow> cmsg_transport_tipc_broadcast_init t
           | CMSG_TRANSPORT_LOOPBACK \<Rightarrow> cmsg_transport_loopback_init t
           | CMSG_TRANSPORT_FORWARDING \<Rightarrow> cmsg_transport_forwarding_init t
           | CMSG_TRANSPORT_ONEWAY_UNIX \<Rightarrow> cmsg_transport_oneway_unix_init t
           | CMSG_TRANSPORT_RPC_UNIX \<Rightarrow> cmsg_transport_rpc_unix_init t)
      in t\<lparr>t_socket := -1\<rparr>)"

lemmas transport_init_defs =
  cmsg_transport_tcp_init_def cmsg_transport_oneway_tcp_init_def cmsg_transport_tcp_init_common_def
  cmsg_transport_unix_init_common_def cmsg_transport_rpc_unix_init_def
  cmsg_transport_oneway_unix_init_def cmsg_transport_loopback_init_def
  cmsg_transport_forwarding_init_def cmsg_transport_tipc_broadcast_init_def no_funcs_def

section \<open>Creating transports\<close>

text \<open>\<open>strncpy\<close> of 16 bytes and a NUL forced into the last one.\<close>

abbreviation set_vrf :: "string \<Rightarrow> cmsg_transport \<Rightarrow> cmsg_transport" where
  "set_vrf dev t \<equiv> t\<lparr>vrf_bind_dev := take 15 dev\<rparr>"

text \<open>\<open>port\<close> is the answer of \<open>cmsg_service_port_get\<close> in network order; 0 when unknown.\<close>

definition cmsg_create_transport_tcp_ipv4 ::
  "u8 list \<Rightarrow> u8 list \<Rightarrow> string option \<Rightarrow> bool \<Rightarrow> cmsg_transport option" where
  "cmsg_create_transport_tcp_ipv4 port addr vrf oneway =
     (let transport_type = (if oneway then CMSG_TRANSPORT_ONEWAY_TCP else CMSG_TRANSPORT_RPC_TCP) in
      if port = [0, 0] then None
      else
        let t = (cmsg_transport_new transport_type)\<lparr>family := AF_INET, sin_port := port, sin_addr := addr\<rparr>
        in Some (case vrf of None \<Rightarrow> t | Some dev \<Rightarrow> set_vrf dev t))"

definition cmsg_create_transport_tcp_ipv6 ::
  "u8 list \<Rightarrow> u8 list \<Rightarrow> u32 \<Rightarrow> string option \<Rightarrow> bool \<Rightarrow> cmsg_transport option" where
  "cmsg_create_transport_tcp_ipv6 port addr scope vrf oneway =
     (let transport_type = (if oneway then CMSG_TRANSPORT_ONEWAY_TCP else CMSG_TRANSPORT_RPC_TCP) in
      if port = [0, 0] then None
      else
        let t = (cmsg_transport_new transport_type)
                  \<lparr>family := AF_INET6, sin_port := port, sin6_scope_id := scope, sin6_addr := addr\<rparr>
        in Some (case vrf of None \<Rightarrow> t | Some dev \<Rightarrow> set_vrf dev t))"

definition cmsg_transport_unix_sun_path :: "string \<Rightarrow> string" where
  "cmsg_transport_unix_sun_path service =
     map (\<lambda>c. if c = CHR ''.'' then CHR ''_'' else c) (''/tmp/'' @ service)"

text \<open>\<open>sun_path\<close> has 108 bytes; \<open>strncpy\<close> fills at most 107 of them.\<close>

definition cmsg_create_transport_unix :: "string \<Rightarrow> cmsg_transport_type \<Rightarrow> cmsg_transport" where
  "cmsg_create_transport_unix service ty =
     (cmsg_transport_new ty)\<lparr>family := AF_UNIX, sun_family := AF_UNIX,
        sun_path := take 107 (cmsg_transport_unix_sun_path service)\<rparr>"

definition cmsg_transport_counter_app_tport_id :: "cmsg_transport \<Rightarrow> string" where
  "cmsg_transport_counter_app_tport_id t =
     (if t_type t = CMSG_TRANSPORT_RPC_UNIX \<or> t_type t = CMSG_TRANSPORT_ONEWAY_UNIX
      then ''.unix'' else tport_id t)"

section \<open>Comparing transports\<close>

definition cmsg_transport_compare :: "cmsg_transport \<Rightarrow> cmsg_transport \<Rightarrow> bool" where
  "cmsg_transport_compare one two =
     (if t_type one = t_type two then
        (if t_type one = CMSG_TRANSPORT_RPC_TCP \<or> t_type one = CMSG_TRANSPORT_ONEWAY_TCP then
           family one = family two \<and>
           (family one = AF_INET \<and> sin_addr one = sin_addr two \<or>
            family one = AF_INET6 \<and> sin6_addr one = sin6_addr two) \<and>
           sin_port one = sin_port two
         else if t_type one = CMSG_TRANSPORT_RPC_UNIX \<or> t_type one = CMSG_TRANSPORT_ONEWAY_UNIX then
           family one = family two \<and> sun_family one = sun_family two \<and>
           strcmp (sun_path one) (sun_path two) = 0
         else False)
      else False)"

section \<open>Transport descriptions\<close>

record cmsg_tcp_transport_info =
  ti_ipv4 :: bool
  ti_addr :: "u8 list"
  ti_port :: "u8 list"
  ti_scope_id :: u32
  ti_vrf_bind_dev :: "string option"

datatype cmsg_transport_info =
    Info_not_set
  | Info_unix (info_oneway: bool) (info_path: string)
  | Info_tcp (info_oneway: bool) (info_tcp: cmsg_tcp_transport_info)
where
  "info_oneway Info_not_set = False"

definition cmsg_transport_tcp_info_create :: "cmsg_transport \<Rightarrow> cmsg_tcp_transport_info" where
  "cmsg_transport_tcp_info_create t =
     (let ipv4 = (family t \<noteq> AF_INET6) in
      \<lparr>ti_ipv4 = ipv4,
       ti_addr = (if ipv4 then sin_addr t else sin6_addr t),
       ti_port = sin_port t,
       ti_scope_id = (if ipv4 then 0 else sin6_scope_id t),
       ti_vrf_bind_dev = (if vrf_bind_dev t \<noteq> [] then Some (vrf_bind_dev t) else None)\<rparr>)"

definition cmsg_transport_info_create :: "cmsg_transport \<Rightarrow> cmsg_transport_info option" where
  "cmsg_transport_info_create t =
     (if t_type t \<noteq> CMSG_TRANSPORT_RPC_TCP \<and> t_type t \<noteq> CMSG_TRANSPORT_RPC_UNIX \<and>
         t_type t \<noteq> CMSG_TRANSPORT_ONEWAY_UNIX \<and> t_type t \<noteq> CMSG_TRANSPORT_ONEWAY_TCP then None
      else if t_type t = CMSG_TRANSPORT_RPC_TCP \<or> t_type t = CMSG_TRANSPORT_ONEWAY_TCP then
        Some (Info_tcp (t_type t = CMSG_TRANSPORT_ONEWAY_TCP) (cmsg_transport_tcp_info_create t))
      else Some (Info_unix (t_type t = CMSG_TRANSPORT_ONEWAY_UNIX) (sun_path t)))"

text \<open>
  \<open>memcpy\<close> of a message's bytes into a field; \<open>None\<close> when they overrun it. \<open>snprintf\<close> with
  the path as its format: a conversion other than \<open>%%\<close> reads a missing argument (\<open>None\<close>).
\<close>

definition memcpy_field :: "u8 list \<Rightarrow> u8 list \<Rightarrow> u8 list option" where
  "memcpy_field dst src =
     (if length src \<le> length dst then Some (src @ drop (length src) dst) else None)"

fun format_no_args :: "string \<Rightarrow> string option" where
  "format_no_args [] = Some []"
| "format_no_args [c] = (if c = CHR ''%'' then None else Some [c])"
| "format_no_args (c # d # r) =
     (if c = CHR ''%'' then
        (if d = CHR ''%'' then map_option (Cons (CHR ''%'')) (format_no_args r) else None)
      else map_option (Cons c) (format_no_args (d # r)))"

definition cmsg_transport_info_to_transport ::
  "cmsg_transport_info \<Rightarrow> cmsg_transport option option" where
  "cmsg_transport_info_to_transport info =
     (case info of
        Info_not_set \<Rightarrow> Some None
      | Info_unix one_way path \<Rightarrow>
          (let t = cmsg_transport_new (if one_way then CMSG_TRANSPORT_ONEWAY_UNIX
                                       else CMSG_TRANSPORT_RPC_UNIX) in
           Option.bind (format_no_args path) (\<lambda>s.
             Some (Some (t\<lparr>family := AF_UNIX, sun_family := AF_UNIX, sun_path := take 106 s\<rparr>))))
      | Info_tcp one_way tcp \<Rightarrow>
          (let t = cmsg_transport_new (if one_way then CMSG_TRANSPORT_ONEWAY_TCP
                                       else CMSG_TRANSPORT_RPC_TCP) in
           Option.bind (memcpy_field (sin_port t) (ti_port tcp)) (\<lambda>port.
           Option.bind (memcpy_field (if ti_ipv4 tcp then sin_addr t else sin6_addr t) (ti_addr tcp)) (\<lambda>addr.
             let t = (if ti_ipv4 tcp
                      then t\<lparr>family := AF_INET, sin_port := port, sin_addr := addr\<rparr>
                      else t\<lparr>family := AF_INET6, sin_port := port, sin6_addr := addr,
                              sin6_scope_id := ti_scope_id tcp\<rparr>)
             in Some (Some (case ti_vrf_bind_dev tcp of None \<Rightarrow> t | Some dev \<Rightarrow> set_vrf dev t))))))"

text \<open>\<open>memcmp\<close> of the first \<open>n\<close> bytes; \<open>None\<close> when one of the objects is shorter.\<close>

definition memcmp_eq :: "u8 list \<Rightarrow> u8 list \<Rightarrow> nat \<Rightarrow> bool option" where
  "memcmp_eq a b n = (if n \<le> length a \<and> n \<le> length b then Some (take n a = take n b) else None)"

definition cmsg_transport_info_compare ::
  "cmsg_transport_info \<Rightarrow> cmsg_transport_info \<Rightarrow> bool option" where
  "cmsg_transport_info_compare a b =
     (case (a, b) of
        (Info_tcp one_way_a tcp_a, Info_tcp one_way_b tcp_b) \<Rightarrow>
          (if one_way_a \<noteq> one_way_b then Some False
           else if ti_ipv4 tcp_a \<noteq> ti_ipv4 tcp_b then Some False
           else Option.bind (memcmp_eq (ti_port tcp_a) (ti_port tcp_b) (length (ti_port tcp_a))) (\<lambda>eq.
             if \<not> eq then Some False
             else memcmp_eq (ti_addr tcp_a) (ti_addr tcp_b) (length (ti_addr tcp_a))))
      | (Info_unix one_way_a path_a, Info_unix one_way_b path_b) \<Rightarrow>
          (if one_way_a \<noteq> one_way_b then Some False else Some (strcmp path_a path_b = 0))
      | _ \<Rightarrow> Some False)"

text \<open>The copy goes through a transport; a \<open>NULL\<close> transport is dereferenced.\<close>

definition cmsg_transport_info_copy :: "cmsg_transport_info \<Rightarrow> cmsg_transport_info option option" where
  "cmsg_transport_info_copy info =
     (case cmsg_transport_info_to_transport info of
        None \<Rightarrow> None
      | Some None \<Rightarrow> None
      | Some (Some t) \<Rightarrow> Some (cmsg_transport_info_create t))"

definition cmsg_transport_ipv4_address_get :: "cmsg_transport \<Rightarrow> u8 list" where
  "cmsg_transport_ipv4_address_get t = sin_addr t"


section \<open>Descriptions and transports agree\<close>

text \<open>Descriptions that the code itself makes: addresses of the right length, short paths.\<close>

definition info_ok :: "cmsg_transport_info \<Rightarrow> bool" where
  "info_ok info =
     (case info of
        Info_not_set \<Rightarrow> False
      | Info_unix _ path \<Rightarrow> length path \<le> 106 \<and> CHR ''%'' \<notin> set path
      | Info_tcp _ t \<Rightarrow>
          length (ti_port t) = 2 \<and> length (ti_addr t) = (if ti_ipv4 t then 4 else 16) \<and>
          (ti_ipv4 t \<longrightarrow> ti_scope_id t = 0) \<and>
          (case ti_vrf_bind_dev t of None \<Rightarrow> True | Some d \<Rightarrow> d \<noteq> [] \<and> length d \<le> 15))"

lemma format_no_args_plain: "CHR ''%'' \<notin> set s \<Longrightarrow> format_no_args s = Some s"
  by (induction s rule: format_no_args.induct) auto

lemma memcpy_field_exact: "length src = length dst \<Longrightarrow> memcpy_field dst src = Some src"
  by (simp add: memcpy_field_def)

lemma new_transport_fields [simp]:
  "t_type (cmsg_transport_new ty) = ty"
  "sin_port (cmsg_transport_new ty) = [0, 0]"
  "sin_addr (cmsg_transport_new ty) = [0, 0, 0, 0]"
  "sin6_addr (cmsg_transport_new ty) = replicate 16 0"
  "vrf_bind_dev (cmsg_transport_new ty) = []"
  "sin6_scope_id (cmsg_transport_new ty) = 0"
  by (cases ty; simp add: cmsg_transport_new_def Let_def transport_init_defs numeral_2_eq_2
      numeral_eq_Suc)+

text \<open>The transport a description stands for, without the failure cases.\<close>

definition transport_of_info :: "cmsg_transport_info \<Rightarrow> cmsg_transport" where
  "transport_of_info info = the (the (cmsg_transport_info_to_transport info))"

lemma info_to_transport_ok:
  "info_ok info \<Longrightarrow> cmsg_transport_info_to_transport info = Some (Some (transport_of_info info))"
  by (cases info)
    (auto simp: info_ok_def transport_of_info_def cmsg_transport_info_to_transport_def Let_def
      format_no_args_plain memcpy_field_exact split: if_splits option.splits)

lemma transport_of_unix:
  "info_ok (Info_unix ow path) \<Longrightarrow>
    t_type (transport_of_info (Info_unix ow path)) =
      (if ow then CMSG_TRANSPORT_ONEWAY_UNIX else CMSG_TRANSPORT_RPC_UNIX) \<and>
    family (transport_of_info (Info_unix ow path)) = AF_UNIX \<and>
    sun_family (transport_of_info (Info_unix ow path)) = AF_UNIX \<and>
    sun_path (transport_of_info (Info_unix ow path)) = path"
  by (auto simp: info_ok_def transport_of_info_def cmsg_transport_info_to_transport_def Let_def
      format_no_args_plain)

lemma transport_of_tcp:
  "info_ok (Info_tcp ow tcp) \<Longrightarrow>
    t_type (transport_of_info (Info_tcp ow tcp)) =
      (if ow then CMSG_TRANSPORT_ONEWAY_TCP else CMSG_TRANSPORT_RPC_TCP) \<and>
    family (transport_of_info (Info_tcp ow tcp)) = (if ti_ipv4 tcp then AF_INET else AF_INET6) \<and>
    sin_port (transport_of_info (Info_tcp ow tcp)) = ti_port tcp \<and>
    (if ti_ipv4 tcp then sin_addr (transport_of_info (Info_tcp ow tcp)) = ti_addr tcp
     else sin6_addr (transport_of_info (Info_tcp ow tcp)) = ti_addr tcp \<and>
          sin6_scope_id (transport_of_info (Info_tcp ow tcp)) = ti_scope_id tcp) \<and>
    vrf_bind_dev (transport_of_info (Info_tcp ow tcp)) =
      (case ti_vrf_bind_dev tcp of None \<Rightarrow> [] | Some d \<Rightarrow> d)"
  by (auto simp: info_ok_def transport_of_info_def cmsg_transport_info_to_transport_def Let_def
      memcpy_field_exact split: option.splits)

lemma info_create_of_info:
  assumes "info_ok info"
  shows "cmsg_transport_info_create (transport_of_info info) = Some info"
proof (cases info)
  case Info_not_set
  with assms show ?thesis by (simp add: info_ok_def)
next
  case (Info_unix ow path)
  with assms transport_of_unix [of ow path] show ?thesis
    by (auto simp: cmsg_transport_info_create_def)
next
  case (Info_tcp ow tcp)
  with assms transport_of_tcp [of ow tcp] show ?thesis
    by (cases tcp) (auto simp: cmsg_transport_info_create_def cmsg_transport_tcp_info_create_def
        Let_def info_ok_def split: option.splits)
qed

text \<open>What the comparison looks at: neither the scope nor the bound device.\<close>

fun info_key :: "cmsg_transport_info \<Rightarrow> (bool \<times> string) option \<times> (bool \<times> bool \<times> u8 list \<times> u8 list) option" where
  "info_key Info_not_set = (None, None)"
| "info_key (Info_unix ow path) = (Some (ow, path), None)"
| "info_key (Info_tcp ow t) = (None, Some (ow, ti_ipv4 t, ti_port t, ti_addr t))"

lemma info_compare_key:
  assumes "info_ok a" "info_ok b"
  shows "cmsg_transport_info_compare a b = Some (info_key a = info_key b)"
  using assms
  by (cases a; cases b)
    (auto simp: cmsg_transport_info_compare_def info_ok_def memcmp_eq_def split: if_splits)

lemma transport_compare_key:
  assumes "info_ok a" "info_ok b"
  shows "cmsg_transport_compare (transport_of_info a) (transport_of_info b) \<longleftrightarrow> info_key a = info_key b"
proof (cases a; cases b)
  fix owa pa owb pb
  assume ab: "a = Info_unix owa pa" "b = Info_unix owb pb"
  with assms show ?thesis
    using transport_of_unix [of owa pa] transport_of_unix [of owb pb]
    by (cases owa; cases owb; simp add: cmsg_transport_compare_def)
next
  fix owa pa owb tb
  assume "a = Info_unix owa pa" "b = Info_tcp owb tb"
  with assms show ?thesis
    using transport_of_unix [of owa pa] transport_of_tcp [of owb tb]
    by (simp add: cmsg_transport_compare_def)
next
  fix owa ta owb pb
  assume "a = Info_tcp owa ta" "b = Info_unix owb pb"
  with assms show ?thesis
    using transport_of_tcp [of owa ta] transport_of_unix [of owb pb]
    by (simp add: cmsg_transport_compare_def)
next
  fix owa ta owb tb
  assume "a = Info_tcp owa ta" "b = Info_tcp owb tb"
  with assms show ?thesis
    using transport_of_tcp [of owa ta] transport_of_tcp [of owb tb]
    by (auto simp: cmsg_transport_compare_def split: if_splits)
qed (use assms in \<open>simp_all add: info_ok_def\<close>)

text \<open>
  A service name that makes a socket path of 107 characters or more: the description of
  its transport, turned back into a transport, has a path one character shorter.
\<close>

lemma long_unix_path_not_recovered:
  assumes "107 \<le> length (cmsg_transport_unix_sun_path svc)"
    and "cmsg_transport_info_create (cmsg_create_transport_unix svc CMSG_TRANSPORT_RPC_UNIX) = Some info"
    and "cmsg_transport_info_to_transport info = Some (Some t)"
    and "CHR ''%'' \<notin> set svc"
  shows "\<not> cmsg_transport_compare (cmsg_create_transport_unix svc CMSG_TRANSPORT_RPC_UNIX) t"
proof -
  let ?p = "take 107 (cmsg_transport_unix_sun_path svc)"
  have info: "info = Info_unix False ?p"
    using assms(2) by (simp add: cmsg_transport_info_create_def cmsg_create_transport_unix_def)
  have "CHR ''%'' \<notin> set (cmsg_transport_unix_sun_path svc)"
    using assms(4) by (auto simp: cmsg_transport_unix_sun_path_def)
  then have "CHR ''%'' \<notin> set ?p" by (meson in_set_takeD)
  from assms(3) format_no_args_plain [OF this] have "sun_path t = take 106 ?p"
    by (auto simp: info cmsg_transport_info_to_transport_def Let_def)
  then have "length (sun_path t) \<noteq> length ?p" using assms(1) by simp
  then have "sun_path t \<noteq> ?p" by metis
  then show ?thesis
    by (simp add: cmsg_transport_compare_def cmsg_create_transport_unix_def)
qed

end
