(* ===== verification/TransportIO.thy ===== *)
theory TransportIO
  imports Transport
begin

text \<open>
  Moving bytes: the send and receive loops over a socket, peeking at a header with a timeout,
  receiving a message on the server and on the client (\<open>cmsg_transport.c\<close>), the in-memory
  transports (\<open>cmsg_transport_loopback.c\<close>, \<open>cmsg_transport_forwarding.c\<close>) and the cache of
  reachable hosts (\<open>cmsg_transport_tcp.c\<close>).

  The kernel is an argument: the list of what successive system calls return, or a receive
  function over a state. The locale \<open>byte_source\<close> is what the receive functions rely on; it is
  interpreted on the loopback and the forwarding transport. Lengths are below \<open>2 ^ 31\<close>, so the
  C \<open>int\<close> lengths are not negative; the \<open>uint32_t\<close> sums of header fields are kept as words.
\<close>

section \<open>Sending and receiving on a socket\<close>

text \<open>
  \<open>rets\<close> are the results of the successive \<open>send\<close> calls (\<open>-1\<close> or a count), \<open>wire\<close> what has
  been handed to the kernel. The result is \<open>None\<close> only when \<open>rets\<close> runs out.
\<close>

fun socket_send_loop :: "int list \<Rightarrow> u8 list \<Rightarrow> nat \<Rightarrow> u8 list \<Rightarrow> (int \<times> u8 list) option" where
  "socket_send_loop rets buf sent_bytes wire =
     (if sent_bytes < length buf then
        (case rets of
           [] \<Rightarrow> None
         | ret # rest \<Rightarrow>
             (if ret = -1 then Some (-1, wire)
              else socket_send_loop rest buf (sent_bytes + nat ret)
                     (wire @ take (nat ret) (drop sent_bytes buf))))
      else Some (int sent_bytes, wire))"

declare socket_send_loop.simps [simp del]

definition cmsg_transport_socket_send :: "int list \<Rightarrow> u8 list \<Rightarrow> (int \<times> u8 list) option" where
  "cmsg_transport_socket_send rets buf = socket_send_loop rets buf 0 []"

text \<open>
  A blocking \<open>send\<close> hands over at least one byte and at most what it was given, or fails. Then
  the loop ends, and what it reports is what is on the wire.
\<close>

fun send_rets_ok :: "int list \<Rightarrow> nat \<Rightarrow> bool" where
  "send_rets_ok rets left =
     (if left = 0 then True
      else case rets of
             [] \<Rightarrow> False
           | r # rest \<Rightarrow> r = -1 \<or> (0 < r \<and> nat r \<le> left \<and> send_rets_ok rest (left - nat r)))"

declare send_rets_ok.simps [simp del]

lemma socket_send_loop_correct:
  assumes "send_rets_ok rets (length buf - sent)" "sent \<le> length buf" "wire = take sent buf"
  shows "\<exists>ret w. socket_send_loop rets buf sent wire = Some (ret, w) \<and>
     (ret = int (length buf) \<and> w = buf \<or> ret = -1 \<and> (\<exists>k < length buf. w = take k buf))"
  using assms
proof (induction rets arbitrary: sent wire)
  case Nil
  then show ?case
    by (auto simp: socket_send_loop.simps send_rets_ok.simps [of "[]"] split: if_splits)
next
  case (Cons r rets)
  show ?case
  proof (cases "sent < length buf \<and> r \<noteq> -1")
    case True
    then have r: "0 < r" "nat r \<le> length buf - sent" "send_rets_ok rets (length buf - (sent + nat r))"
      using Cons.prems(1) by (auto simp: send_rets_ok.simps [of "r # rets"])
    have "wire @ take (nat r) (drop sent buf) = take (sent + nat r) buf"
      using Cons.prems(3) by (simp add: take_add)
    with Cons.IH [of "sent + nat r"] r True show ?thesis
      by (simp add: socket_send_loop.simps [of "r # rets"])
  next
    case False
    with Cons.prems show ?thesis
      by (subst socket_send_loop.simps) auto
  qed
qed

text \<open>
  The receive loop: the kernel answers a \<open>recv\<close> with some bytes (none: the peer has shut
  down) or an error. Each request is at most 16 KiB and never passes the end of the message.
\<close>

datatype errno = ECONNRESET | ECONNABORTED | EINTR | EAGAIN | EOTHER

datatype recv_result = Recv_ok "u8 list" | Recv_fail errno

abbreviation CMSG_RECV_ALL_CHUNK_SIZE :: nat where
  "CMSG_RECV_ALL_CHUNK_SIZE \<equiv> 16 * 1024"

text \<open>
  The kernel's side of a socket: what is there when it is asked the next time. It hands out as much of it as was asked for and
  keeps the rest. When nothing will come any more, \<open>recv\<close> waits for ever.
\<close>

fun kernel_recv :: "recv_result list \<Rightarrow> nat \<Rightarrow> (recv_result \<times> recv_result list) option" where
  "kernel_recv [] n = None"
| "kernel_recv (Recv_fail e # rest) n = Some (Recv_fail e, rest)"
| "kernel_recv (Recv_ok data # rest) n =
     Some (Recv_ok (take n data), if length data \<le> n then rest else Recv_ok (drop n data) # rest)"

text \<open>The result: the return value, the bytes stored, and the sizes asked for; \<open>None\<close> when it waits for ever.\<close>

function socket_recv_loop ::
  "recv_result list \<Rightarrow> nat \<Rightarrow> u8 list \<Rightarrow> nat list \<Rightarrow> (int \<times> u8 list \<times> nat list) option" where
  "socket_recv_loop rets len got asked =
     (if length got < len then
        (let bytes_left = len - length got;
             chunk_size = min bytes_left CMSG_RECV_ALL_CHUNK_SIZE
         in case kernel_recv rets chunk_size of
              None \<Rightarrow> None
            | Some (Recv_fail _, _) \<Rightarrow> Some (-1, got, asked @ [chunk_size])
            | Some (Recv_ok data, rest) \<Rightarrow>
                (if data = [] then Some (int (length got), got, asked @ [chunk_size])
                 else socket_recv_loop rest len (got @ data) (asked @ [chunk_size])))
      else Some (int (length got), got, asked))"
  by pat_completeness auto
termination socket_recv_loop
  by (relation "measure (\<lambda>(rets, len, got, asked). len - length got)") (auto intro!: diff_less_mono2)

declare socket_recv_loop.simps [simp del]

definition cmsg_transport_socket_recv ::
  "bool \<Rightarrow> recv_result list \<Rightarrow> nat \<Rightarrow> (int \<times> u8 list \<times> nat list) option" where
  "cmsg_transport_socket_recv dontwait rets len =
     (if dontwait then
        (case kernel_recv rets len of
           None \<Rightarrow> None
         | Some (Recv_fail _, _) \<Rightarrow> Some (-1, [], [len])
         | Some (Recv_ok data, _) \<Rightarrow> Some (int (length data), data, [len]))
      else socket_recv_loop rets len [] [])"

text \<open>What the kernel has to hand out before the stream ends, and how it ends.\<close>

fun recv_stream :: "recv_result list \<Rightarrow> u8 list" where
  "recv_stream [] = []"
| "recv_stream (Recv_fail _ # _) = []"
| "recv_stream (Recv_ok data # rest) = (if data = [] then [] else data @ recv_stream rest)"

fun recv_end :: "recv_result list \<Rightarrow> recv_result option" where
  "recv_end [] = None"
| "recv_end (Recv_fail e # _) = Some (Recv_fail e)"
| "recv_end (Recv_ok data # rest) = (if data = [] then Some (Recv_ok []) else recv_end rest)"

text \<open>What a receive of \<open>len\<close> bytes is to return and to store.\<close>

definition recv_outcome :: "recv_result list \<Rightarrow> nat \<Rightarrow> (int \<times> u8 list) option" where
  "recv_outcome rets len =
     (if len \<le> length (recv_stream rets) then Some (int len, take len (recv_stream rets))
      else case recv_end rets of
             None \<Rightarrow> None
           | Some (Recv_fail _) \<Rightarrow> Some (-1, recv_stream rets)
           | Some (Recv_ok _) \<Rightarrow> Some (int (length (recv_stream rets)), recv_stream rets))"

text \<open>A request that is not answered by nothing or an error takes its bytes off the stream.\<close>

lemma kernel_recv_stream:
  assumes "kernel_recv rets n = Some (Recv_ok data, rest)" "0 < n" "data \<noteq> []"
  shows "recv_stream rets = data @ recv_stream rest" "recv_end rets = recv_end rest" "length data \<le> n"
  using assms by (cases "(rets, n)" rule: kernel_recv.cases; auto split: if_splits)+

lemma kernel_recv_ends:
  assumes "0 < n"
  shows "kernel_recv rets n = None \<Longrightarrow> recv_stream rets = [] \<and> recv_end rets = None"
    and "kernel_recv rets n = Some (Recv_fail e, rest) \<Longrightarrow> recv_stream rets = [] \<and> recv_end rets = Some (Recv_fail e)"
    and "kernel_recv rets n = Some (Recv_ok [], rest) \<Longrightarrow> recv_stream rets = [] \<and> recv_end rets = Some (Recv_ok [])"
  using assms by (cases "(rets, n)" rule: kernel_recv.cases; simp split: if_splits)+

lemma socket_recv_loop_outcome:
  assumes "length got \<le> len" "\<forall>n \<in> set asked. n \<le> CMSG_RECV_ALL_CHUNK_SIZE"
  shows "case recv_outcome rets (len - length got) of
      None \<Rightarrow> socket_recv_loop rets len got asked = None
    | Some (r, out) \<Rightarrow> \<exists>asked'. socket_recv_loop rets len got asked =
        Some (if r < 0 then r else int (length got) + r, got @ out, asked') \<and> (\<forall>n \<in> set asked'. n \<le> CMSG_RECV_ALL_CHUNK_SIZE)"
  using assms
proof (induction rets len got asked rule: socket_recv_loop.induct)
  case (1 rets len got asked)
  show ?case
  proof (cases "length got < len")
    case False
    then show ?thesis using "1.prems" by (simp add: recv_outcome_def socket_recv_loop.simps [of _ _ got])
  next
    case True
    define chunk where "chunk = min (len - length got) CMSG_RECV_ALL_CHUNK_SIZE"
    have chunk: "0 < chunk" "chunk \<le> len - length got" "chunk \<le> CMSG_RECV_ALL_CHUNK_SIZE" using True by (auto simp: chunk_def)
    note ends = kernel_recv_ends [OF chunk(1), of rets]
    have step: "socket_recv_loop rets len got asked = (case kernel_recv rets chunk of
        None \<Rightarrow> None
      | Some (Recv_fail _, _) \<Rightarrow> Some (-1, got, asked @ [chunk])
      | Some (Recv_ok data, rest) \<Rightarrow>
          (if data = [] then Some (int (length got), got, asked @ [chunk])
           else socket_recv_loop rest len (got @ data) (asked @ [chunk])))"
      unfolding chunk_def using True by (subst socket_recv_loop.simps) (simp only: Let_def if_True)
    consider (waits) "kernel_recv rets chunk = None" | (fails) e rest where "kernel_recv rets chunk = Some (Recv_fail e, rest)"
      | (shut) rest where "kernel_recv rets chunk = Some (Recv_ok [], rest)"
      | (data) data rest where "kernel_recv rets chunk = Some (Recv_ok data, rest)" "data \<noteq> []"
      by (metis option.exhaust prod.exhaust recv_result.exhaust)
    then show ?thesis
    proof cases
      case waits
      then show ?thesis using True ends(1)
        by (simp add: recv_outcome_def step)
    next
      case fails
      then show ?thesis using True ends(2) chunk(3) "1.prems"(2)
        by (auto simp: recv_outcome_def step)
    next
      case shut
      then show ?thesis using True ends(3) chunk(3) "1.prems"(2)
        by (auto simp: recv_outcome_def step)
    next
      case data
      note d = kernel_recv_stream [OF data(1) chunk(1) data(2)]
      have run: "socket_recv_loop rets len got asked = socket_recv_loop rest len (got @ data) (asked @ [chunk])"
        using data by (simp add: step)
      have fits: "length (got @ data) \<le> len" "\<forall>n \<in> set (asked @ [chunk]). n \<le> CMSG_RECV_ALL_CHUNK_SIZE"
        using d(3) chunk(2,3) True "1.prems"(2) by auto
      have "recv_outcome rets (len - length got) =
          map_option (\<lambda>(r, out). (if r < 0 then r else int (length data) + r, data @ out)) (recv_outcome rest (len - length (got @ data)))"
        using d fits(1) by (auto simp: recv_outcome_def split: option.split recv_result.split)
      moreover have "case recv_outcome rest (len - length (got @ data)) of
          None \<Rightarrow> socket_recv_loop rest len (got @ data) (asked @ [chunk]) = None
        | Some (r, out) \<Rightarrow> \<exists>asked'. socket_recv_loop rest len (got @ data) (asked @ [chunk]) =
            Some (if r < 0 then r else int (length (got @ data)) + r, (got @ data) @ out, asked') \<and>
            (\<forall>n \<in> set asked'. n \<le> CMSG_RECV_ALL_CHUNK_SIZE)"
        by (rule "1.IH" [OF True refl chunk_def data(1) refl refl data(2) fits])
      ultimately show ?thesis unfolding run
        by (auto simp: add.assoc split: option.splits)
    qed
  qed
qed

section \<open>Peeking at a header\<close>

datatype cmsg_peek_code =
    CMSG_PEEK_CODE_SUCCESS
  | CMSG_PEEK_CODE_CONNECTION_CLOSED
  | CMSG_PEEK_CODE_CONNECTION_RESET
  | CMSG_PEEK_CODE_TIMEOUT

text \<open>
  A receive function over a state: how much to read and whether only to peek. \<open>clocks\<close> are
  the seconds since the start, read after each unsuccessful round (a round interrupted by a
  signal does not look at its entry). The result is \<open>None\<close> only when \<open>clocks\<close> runs out.
\<close>

type_synonym 's recv_func = "'s \<Rightarrow> u32 \<Rightarrow> bool \<Rightarrow> recv_result \<times> 's"

fun peek_loop ::
  "'s recv_func \<Rightarrow> u32 \<Rightarrow> nat \<Rightarrow> nat list \<Rightarrow> 's \<Rightarrow> (cmsg_peek_code \<times> u8 list \<times> 's) option" where
  "peek_loop recv_wrapper header_size seconds_to_wait [] s = None"
| "peek_loop recv_wrapper header_size seconds_to_wait (now # clocks) s =
     (case recv_wrapper s header_size True of
        (Recv_ok data, s') \<Rightarrow>
          (if length data = unat header_size then Some (CMSG_PEEK_CODE_SUCCESS, data, s')
           else if data = [] then Some (CMSG_PEEK_CODE_CONNECTION_CLOSED, [], s')
           else if seconds_to_wait < now then Some (CMSG_PEEK_CODE_TIMEOUT, data, s')
           else peek_loop recv_wrapper header_size seconds_to_wait clocks s')
      | (Recv_fail e, s') \<Rightarrow>
          (if e = ECONNRESET \<or> e = ECONNABORTED then Some (CMSG_PEEK_CODE_CONNECTION_RESET, [], s')
           else if e = EINTR then peek_loop recv_wrapper header_size seconds_to_wait clocks s'
           else if seconds_to_wait < now then Some (CMSG_PEEK_CODE_TIMEOUT, [], s')
           else peek_loop recv_wrapper header_size seconds_to_wait clocks s'))"

definition cmsg_transport_peek_for_header ::
  "'s recv_func \<Rightarrow> nat \<Rightarrow> u32 \<Rightarrow> nat list \<Rightarrow> 's \<Rightarrow> (cmsg_peek_code \<times> u8 list \<times> 's) option" where
  "cmsg_transport_peek_for_header recv_wrapper seconds_to_wait header_size clocks s =
     peek_loop recv_wrapper header_size seconds_to_wait clocks s"

definition cmsg_transport_peek_to_status_code :: "cmsg_peek_code \<Rightarrow> cmsg_status_code" where
  "cmsg_transport_peek_to_status_code peek_code =
     (case peek_code of
        CMSG_PEEK_CODE_CONNECTION_CLOSED \<Rightarrow> CMSG_STATUS_CODE_CONNECTION_CLOSED
      | CMSG_PEEK_CODE_CONNECTION_RESET \<Rightarrow> CMSG_STATUS_CODE_SERVER_CONNRESET
      | CMSG_PEEK_CODE_TIMEOUT \<Rightarrow> CMSG_STATUS_CODE_SERVICE_FAILED
      | CMSG_PEEK_CODE_SUCCESS \<Rightarrow> CMSG_STATUS_CODE_SUCCESS)"

text \<open>The peek gives up once the clock has passed the limit, whatever the peer does.\<close>

lemma peek_loop_terminates:
  assumes "\<And>s s'. recv s n True \<noteq> (Recv_fail EINTR, s')" "\<exists>now \<in> set clocks. wait < now"
  shows "\<exists>code data s'. peek_loop recv n wait clocks s = Some (code, data, s')"
  using assms(2)
proof (induction clocks arbitrary: s)
  case (Cons now clocks)
  obtain r s' where r: "recv s n True = (r, s')" by fastforce
  show ?case
  proof (cases r)
    case (Recv_ok data)
    with Cons r show ?thesis by (cases "wait < now") auto
  next
    case (Recv_fail e)
    with assms(1) [of s s'] r have "e \<noteq> EINTR" by auto
    with Cons r Recv_fail show ?thesis by (cases "wait < now") auto
  qed
qed simp

lemma peek_loop_header:
  "peek_loop recv n wait clocks s = Some (CMSG_PEEK_CODE_SUCCESS, data, s') \<Longrightarrow>
    length data = unat n"
  by (induction clocks arbitrary: s)
    (auto split: prod.splits recv_result.splits if_splits)

section \<open>Receiving a message\<close>

abbreviation CMSG_RECV_BUFFER_SZ :: u32 where
  "CMSG_RECV_BUFFER_SZ \<equiv> 512"

text \<open>A zeroed buffer of a given size with the received bytes at its start.\<close>

definition fill_buffer :: "nat \<Rightarrow> u8 list \<Rightarrow> u8 list" where
  "fill_buffer n bs = bs @ replicate (n - length bs) 0"

text \<open>The \<open>int\<close> result of a receive function and the bytes it stored.\<close>

definition recv_nbytes :: "recv_result \<Rightarrow> int" where
  "recv_nbytes r = (case r of Recv_ok data \<Rightarrow> int (length data) | Recv_fail _ \<Rightarrow> -1)"

definition recv_bytes :: "recv_result \<Rightarrow> u8 list" where
  "recv_bytes r = (case r of Recv_ok data \<Rightarrow> data | Recv_fail _ \<Rightarrow> [])"

text \<open>The result: return code, receive buffer, converted header, and the byte count.\<close>

record server_recv_out =
  sr_buffer :: "u8 list"
  sr_header :: cmsg_header
  sr_nbytes :: int

definition cmsg_transport_server_recv_msg ::
  "endian \<Rightarrow> 's recv_func \<Rightarrow> bool \<Rightarrow> u8 list \<Rightarrow> server_recv_out \<Rightarrow> 's \<Rightarrow> int \<times> server_recv_out \<times> 's" where
  "cmsg_transport_server_recv_msg e recv_wrapper calloc_ok peeked_header out s =
     (let (ret, processed) = cmsg_header_process e (header_of_mem e peeked_header);
          out = out\<lparr>sr_header := processed\<rparr>
      in if ret \<noteq> CMSG_RET_OK then (CMSG_RET_ERR, out, s)
         else
           let dyn_len = message_length processed + header_length processed in
           if CMSG_RECV_BUFFER_SZ < dyn_len \<and> \<not> calloc_ok then (CMSG_RET_ERR, out\<lparr>sr_buffer := []\<rparr>, s)
           else
             let size = (if CMSG_RECV_BUFFER_SZ < dyn_len then unat dyn_len else length (sr_buffer out));
                 (r, s) = recv_wrapper s dyn_len False
             in (CMSG_RET_OK,
                 out\<lparr>sr_buffer := fill_buffer size (recv_bytes r), sr_nbytes := recv_nbytes r\<rparr>, s))"

definition cmsg_transport_server_recv ::
  "endian \<Rightarrow> 's recv_func \<Rightarrow> bool \<Rightarrow> nat \<Rightarrow> nat list \<Rightarrow> server_recv_out \<Rightarrow> 's
   \<Rightarrow> (int \<times> server_recv_out \<times> 's) option" where
  "cmsg_transport_server_recv e recv_wrapper calloc_ok timeout clocks out s =
     (case cmsg_transport_peek_for_header recv_wrapper timeout cmsg_header_size clocks s of
        None \<Rightarrow> None
      | Some (peek_status, header_received, s) \<Rightarrow>
          Some (if peek_status = CMSG_PEEK_CODE_SUCCESS
                then cmsg_transport_server_recv_msg e recv_wrapper calloc_ok header_received out s
                else if peek_status = CMSG_PEEK_CODE_CONNECTION_CLOSED \<or>
                        peek_status = CMSG_PEEK_CODE_CONNECTION_RESET
                then (CMSG_RET_CLOSED, out, s)
                else (CMSG_RET_ERR, out, s)))"

text \<open>
  The client's receive. \<open>unpack\<close> is \<open>protobuf_c_message_unpack\<close> with the output descriptor of
  a method. The result is the status, the message and the state; \<open>None\<close> is a read out of
  bounds (or no clock left in the peek).
\<close>

definition client_recv_body ::
  "endian \<Rightarrow> service_descriptor \<Rightarrow> (nat \<Rightarrow> u8 list \<Rightarrow> 'm option) \<Rightarrow> cmsg_header \<Rightarrow> u8 list
   \<Rightarrow> (u32 \<times> 'm option) option" where
  "client_recv_body e descriptor unpack hdr recv_buffer =
     (let extra_header_size = header_length hdr - cmsg_header_size;
          server_request = \<lparr>req_msg_type = 0, req_message_length = 0, req_method_index = 0,
                            req_method_name_recvd = []\<rparr>
      in case cmsg_tlv_header_process e recv_buffer server_request extra_header_size (Some descriptor) of
           None \<Rightarrow> None
         | Some (ret, req) \<Rightarrow>
             (if ret \<noteq> CMSG_RET_OK then Some (status_code CMSG_STATUS_CODE_SERVICE_FAILED, None)
              else if hdr_status_code hdr = status_code CMSG_STATUS_CODE_SUCCESS then
                (let buffer = drop (unat extra_header_size) recv_buffer in
                 if unat (req_method_index req) < length (svc_methods descriptor) \<and>
                    unat (message_length hdr) \<le> length buffer
                 then
                   (case unpack (unat (req_method_index req)) (take (unat (message_length hdr)) buffer) of
                      None \<Rightarrow> Some (status_code CMSG_STATUS_CODE_SERVICE_FAILED, None)
                    | Some msg \<Rightarrow> Some (hdr_status_code hdr, Some msg))
                 else None)
              else Some (hdr_status_code hdr, None)))"

definition client_recv_rest ::
  "endian \<Rightarrow> service_descriptor \<Rightarrow> (nat \<Rightarrow> u8 list \<Rightarrow> 'm option) \<Rightarrow> 's recv_func \<Rightarrow> bool \<Rightarrow> cmsg_header
   \<Rightarrow> 's \<Rightarrow> (u32 \<times> 'm option \<times> 's) option" where
  "client_recv_rest e descriptor unpack recv_wrapper calloc_ok hdr s =
     (let dyn_len = message_length hdr + header_length hdr - cmsg_header_size in
      if dyn_len = 0 then Some (hdr_status_code hdr, None, s)
      else if 512 < dyn_len \<and> \<not> calloc_ok
      then Some (status_code CMSG_STATUS_CODE_SERVICE_FAILED, None, s)
      else
        let (r, s) = recv_wrapper s dyn_len False;
            recv_buffer = fill_buffer (if 512 < dyn_len then unat dyn_len else 512) (recv_bytes r)
        in if recv_nbytes r = sint dyn_len
           then (case client_recv_body e descriptor unpack hdr recv_buffer of
                   None \<Rightarrow> None
                 | Some (st, msg) \<Rightarrow> Some (st, msg, s))
           else Some (status_code CMSG_STATUS_CODE_SERVICE_FAILED, None, s))"

definition cmsg_transport_client_recv ::
  "endian \<Rightarrow> service_descriptor \<Rightarrow> (nat \<Rightarrow> u8 list \<Rightarrow> 'm option) \<Rightarrow> 's recv_func \<Rightarrow> bool \<Rightarrow> nat
   \<Rightarrow> nat list \<Rightarrow> 's \<Rightarrow> (u32 \<times> 'm option \<times> 's) option" where
  "cmsg_transport_client_recv e descriptor unpack recv_wrapper calloc_ok timeout clocks s =
     (case cmsg_transport_peek_for_header recv_wrapper timeout cmsg_header_size clocks s of
        None \<Rightarrow> None
      | Some (peek, _, s) \<Rightarrow>
          if peek \<noteq> CMSG_PEEK_CODE_SUCCESS
          then Some (status_code (cmsg_transport_peek_to_status_code peek), None, s)
          else
            (case recv_wrapper s cmsg_header_size False of
               (Recv_ok data, s) \<Rightarrow>
                 (if length data = 16 then
                    (let (ret, hdr) = cmsg_header_process e (header_of_mem e data) in
                     if ret \<noteq> CMSG_RET_OK then Some (status_code CMSG_STATUS_CODE_SERVICE_FAILED, None, s)
                     else client_recv_rest e descriptor unpack recv_wrapper calloc_ok hdr s)
                  else if data \<noteq> [] then
                    (let (_, s) = recv_wrapper s (of_nat (length data)) False
                     in Some (status_code CMSG_STATUS_CODE_SERVICE_FAILED, None, s))
                  else Some (status_code CMSG_STATUS_CODE_SERVICE_FAILED, None, s))
             | (Recv_fail err, s) \<Rightarrow>
                 (if err = ECONNRESET
                  then Some (status_code CMSG_STATUS_CODE_SERVER_CONNRESET, None, s)
                  else Some (status_code CMSG_STATUS_CODE_SERVICE_FAILED, None, s))))"


section \<open>In-memory transports\<close>

record loopback_buffer =
  lb_msg :: "u8 list"
  lb_pos :: nat

text \<open>The reply the server sends is stored on the transport for the client to read.\<close>

definition cmsg_transport_loopback_server_send :: "u8 list \<Rightarrow> int \<times> loopback_buffer" where
  "cmsg_transport_loopback_server_send buff =
     (int (length buff), \<lparr>lb_msg = buff, lb_pos = 0\<rparr>)"

text \<open>With nothing to read it returns \<open>-1\<close> and leaves \<open>errno\<close> as it was (\<open>err\<close>).\<close>

definition cmsg_transport_loopback_recv_handler :: "errno \<Rightarrow> loopback_buffer recv_func" where
  "cmsg_transport_loopback_recv_handler err b len peek =
     (if length (lb_msg b) \<le> lb_pos b then (Recv_fail err, b)
      else
        let len = (if length (lb_msg b) < lb_pos b + unat len
                   then length (lb_msg b) - lb_pos b else unat len);
            msg = take len (drop (lb_pos b) (lb_msg b));
            b = (if \<not> peek then b\<lparr>lb_pos := lb_pos b + len\<rparr> else b)
        in (Recv_ok msg, b))"

text \<open>The user data of a forwarding transport holds the message the application passed in.\<close>

record forwarding_data =
  fw_msg :: "u8 list"
  fw_pos :: nat

definition cmsg_transport_forwarding_recv_wrapper :: "errno \<Rightarrow> forwarding_data recv_func" where
  "cmsg_transport_forwarding_recv_wrapper err d len peek =
     (if length (fw_msg d) \<le> fw_pos d then (Recv_fail err, d)
      else
        let len = (if length (fw_msg d) < fw_pos d + unat len
                   then length (fw_msg d) - fw_pos d else unat len);
            msg = take len (drop (fw_pos d) (fw_msg d));
            d = (if \<not> peek then d\<lparr>fw_pos := fw_pos d + len\<rparr> else d)
        in (Recv_ok msg, d))"

definition cmsg_transport_forwarding_client_send :: "(u8 list \<Rightarrow> bool) \<Rightarrow> u8 list \<Rightarrow> int" where
  "cmsg_transport_forwarding_client_send send_f buff =
     (if \<not> send_f buff then -1 else int (length buff))"

section \<open>The contract of a byte source\<close>

text \<open>
  What the receive functions need of a transport that holds its data: \<open>pending\<close> are the bytes
  not yet read; peeking leaves them, reading takes them from the front.
\<close>

locale byte_source =
  fixes recv :: "'s recv_func"
    and pending :: "'s \<Rightarrow> u8 list"
  assumes recv_empty: "pending s = [] \<Longrightarrow> \<exists>e. recv s len peek = (Recv_fail e, s)"
    and recv_data: "pending s \<noteq> [] \<Longrightarrow>
      \<exists>s'. recv s len peek = (Recv_ok (take (unat len) (pending s)), s') \<and>
           pending s' = (if peek then pending s else drop (unat len) (pending s))"
begin

lemma recv_peek:
  assumes "pending s \<noteq> []"
  obtains s' where "recv s len True = (Recv_ok (take (unat len) (pending s)), s')"
    "pending s' = pending s"
  using recv_data [OF assms, of len True] by auto

lemma recv_read:
  assumes "pending s \<noteq> []"
  obtains s' where "recv s len False = (Recv_ok (take (unat len) (pending s)), s')"
    "pending s' = drop (unat len) (pending s)"
  using recv_data [OF assms, of len False] by auto

lemma peek_header:
  assumes "16 \<le> length (pending s)" "clocks \<noteq> []"
  obtains s' where
    "cmsg_transport_peek_for_header recv wait cmsg_header_size clocks s =
       Some (CMSG_PEEK_CODE_SUCCESS, take 16 (pending s), s')"
    "pending s' = pending s"
proof -
  have "pending s \<noteq> []" using assms by auto
  then obtain s' where "recv s cmsg_header_size True = (Recv_ok (take 16 (pending s)), s')"
    "pending s' = pending s"
    by (rule recv_peek [where len = cmsg_header_size]) auto
  with assms that [of s'] show ?thesis
    by (cases clocks) (auto simp: cmsg_transport_peek_for_header_def)
qed

text \<open>A whole packet waiting: the server gets exactly it, zero-padded to the buffer's size.\<close>

lemma server_recv_packet:
  assumes "pending s = header_to_mem e h @ rest" "clocks \<noteq> []" "calloc"
    and "cmsg_header_process e h = (CMSG_RET_OK, hdr)"
    and "unat (message_length hdr + header_length hdr) = 16 + length rest"
    and "length (sr_buffer out) = 512"
  shows "\<exists>s'. cmsg_transport_server_recv e recv calloc wait clocks out s =
      Some (CMSG_RET_OK,
            out\<lparr>sr_header := hdr,
                sr_buffer := fill_buffer (max 512 (16 + length rest)) (header_to_mem e h @ rest),
                sr_nbytes := int (16 + length rest)\<rparr>, s') \<and> pending s' = []"
proof -
  have "16 \<le> length (pending s)" using assms(1) by simp
  then obtain s1 where s1: "cmsg_transport_peek_for_header recv wait cmsg_header_size clocks s =
       Some (CMSG_PEEK_CODE_SUCCESS, take 16 (pending s), s1)" "pending s1 = pending s"
    using assms(2) by (rule peek_header)
  have "pending s1 \<noteq> []" using s1(2) \<open>16 \<le> length (pending s)\<close> by auto
  then obtain s2 where s2:
    "recv s1 (message_length hdr + header_length hdr) False = (Recv_ok (header_to_mem e h @ rest), s2)"
    "pending s2 = []"
    using s1(2) assms(1,5)
    by (elim recv_read [where len = "message_length hdr + header_length hdr"]) auto
  have "CMSG_RECV_BUFFER_SZ < message_length hdr + header_length hdr \<longleftrightarrow> 512 < 16 + length rest"
    using assms(5) by (simp add: word_less_nat_alt)
  then show ?thesis
    using s1 s2 assms
    by (auto simp: cmsg_transport_server_recv_def cmsg_transport_server_recv_msg_def Let_def
        recv_bytes_def recv_nbytes_def max_def)
qed

end

interpretation loopback_source: byte_source "cmsg_transport_loopback_recv_handler err"
    "\<lambda>b. drop (lb_pos b) (lb_msg b)" for err
proof (unfold_locales, goal_cases)
  case (2 s len peek)
  then show ?case
    by (cases "length (lb_msg s) < lb_pos s + unat len")
      (auto simp: cmsg_transport_loopback_recv_handler_def Let_def add.commute)
qed (auto simp: cmsg_transport_loopback_recv_handler_def)

interpretation forwarding_source: byte_source "cmsg_transport_forwarding_recv_wrapper err"
    "\<lambda>d. drop (fw_pos d) (fw_msg d)" for err
proof (unfold_locales, goal_cases)
  case (2 s len peek)
  then show ?case
    by (cases "length (fw_msg s) < fw_pos s + unat len")
      (auto simp: cmsg_transport_forwarding_recv_wrapper_def Let_def add.commute)
qed (auto simp: cmsg_transport_forwarding_recv_wrapper_def)

section \<open>The cache of reachable TCP hosts\<close>

type_synonym tcp_cache = "(u32 \<times> bool) list"

text \<open>The entries in use, in order; an unknown host is appended while there is room.\<close>

definition cmsg_transport_tcp_cache_init :: tcp_cache where
  "cmsg_transport_tcp_cache_init = []"

abbreviation TCP_CONNECTION_CACHE_SIZE :: nat where
  "TCP_CONNECTION_CACHE_SIZE \<equiv> 24"

fun cache_update :: "tcp_cache \<Rightarrow> u32 \<Rightarrow> bool \<Rightarrow> tcp_cache option" where
  "cache_update [] address present = None"
| "cache_update ((a, p) # rest) address present =
     (if a = address then Some ((a, present) # rest)
      else map_option (Cons (a, p)) (cache_update rest address present))"

definition cmsg_transport_tcp_cache_set :: "tcp_cache \<Rightarrow> u32 \<Rightarrow> bool \<Rightarrow> tcp_cache" where
  "cmsg_transport_tcp_cache_set cache address present =
     (case cache_update cache address present of
        Some cache' \<Rightarrow> cache'
      | None \<Rightarrow>
          if length cache < TCP_CONNECTION_CACHE_SIZE - 1
          then cache @ [(address, present)] else cache)"

fun cmsg_transport_tcp_cache_should_connect :: "tcp_cache \<Rightarrow> u32 \<Rightarrow> bool" where
  "cmsg_transport_tcp_cache_should_connect [] address = True"
| "cmsg_transport_tcp_cache_should_connect ((a, p) # rest) address =
     (if a = address then p else cmsg_transport_tcp_cache_should_connect rest address)"

lemma should_connect_map_of:
  "cmsg_transport_tcp_cache_should_connect c a = (case map_of c a of None \<Rightarrow> True | Some p \<Rightarrow> p)"
  by (induction c) auto

lemma cache_update_None: "cache_update c a p = None \<longleftrightarrow> a \<notin> fst ` set c"
  by (induction c) force+

lemma cache_update_Some:
  "cache_update c a p = Some c' \<Longrightarrow> map fst c' = map fst c \<and> map_of c' = (map_of c)(a \<mapsto> p)"
  by (induction c arbitrary: c') (auto split: if_splits simp: fun_upd_twist)

lemma map_of_append_new:
  assumes "a \<notin> fst ` set c"
  shows "[a \<mapsto> p] ++ map_of c = (map_of c)(a \<mapsto> p)"
proof
  fix x
  have "map_of c a = None" using assms by (simp add: map_of_eq_None_iff)
  then show "([a \<mapsto> p] ++ map_of c) x = ((map_of c)(a \<mapsto> p)) x"
    by (cases "map_of c x") (auto simp: map_add_def)
qed

lemma tcp_cache_set_cases:
  "map_of (cmsg_transport_tcp_cache_set c a p) =
     (if a \<in> fst ` set c \<or> length c < 23 then (map_of c)(a \<mapsto> p) else map_of c)"
proof (cases "cache_update c a p")
  case None
  then have "a \<notin> fst ` set c" by (simp add: cache_update_None)
  with None show ?thesis by (simp add: cmsg_transport_tcp_cache_set_def map_of_append_new)
next
  case (Some c')
  then have "a \<in> fst ` set c" using cache_update_None [of c a p] by auto
  with Some cache_update_Some [OF Some] show ?thesis
    by (simp add: cmsg_transport_tcp_cache_set_def)
qed

definition tcp_cache_ok :: "tcp_cache \<Rightarrow> bool" where
  "tcp_cache_ok c \<longleftrightarrow> distinct (map fst c) \<and> length c \<le> 23"

lemma tcp_cache_set_ok: "tcp_cache_ok c \<Longrightarrow> tcp_cache_ok (cmsg_transport_tcp_cache_set c a p)"
proof (cases "cache_update c a p")
  case None
  then have "a \<notin> fst ` set c" by (simp add: cache_update_None)
  moreover assume "tcp_cache_ok c"
  ultimately show ?thesis
    using None by (auto simp: cmsg_transport_tcp_cache_set_def tcp_cache_ok_def)
next
  case (Some c')
  moreover assume "tcp_cache_ok c"
  ultimately show ?thesis
    using cache_update_Some [OF Some]
    by (metis cmsg_transport_tcp_cache_set_def length_map option.simps(5) tcp_cache_ok_def)
qed

end
