(* ===== verification/MsgQueue.thy ===== *)
theory MsgQueue
  imports TransportIO
begin

text \<open>
  The queues of \<open>cmsg/src/cmsg_queue.c\<close>: the send queue of a client or publisher, the receive
  queue of a server, and the table that says per method whether a message is processed, queued
  or dropped. A \<open>GQueue\<close> is a list, head first; the code pushes at the head and pops at the
  tail, and relies on that being first-in first-out: the locale \<open>fifo\<close>.

  Clients and transports are addresses (\<open>nat\<close>), \<open>tports\<close> is the store of transports. Whether
  an allocation succeeds is an argument. \<open>None\<close> is undefined behaviour: a method name that
  overruns the 128 bytes of an entry, or a \<open>NULL\<close> entry of the filter table.
\<close>

section \<open>First in, first out\<close>

locale fifo =
  fixes push :: "'q \<Rightarrow> 'a \<Rightarrow> 'q"
    and pop :: "'q \<Rightarrow> 'a option \<times> 'q"
    and waiting :: "'q \<Rightarrow> 'a list"
  assumes waiting_push: "waiting (push q x) = waiting q @ [x]"
    and pop_empty: "waiting q = [] \<Longrightarrow> fst (pop q) = None \<and> waiting (snd (pop q)) = []"
    and pop_next: "waiting q = x # xs \<Longrightarrow> fst (pop q) = Some x \<and> waiting (snd (pop q)) = xs"
begin

text \<open>\<open>k\<close> rounds of taking an entry out and pushing it back unless it is dropped.\<close>

primrec rotate_filter :: "('a \<Rightarrow> bool) \<Rightarrow> nat \<Rightarrow> 'q \<Rightarrow> 'q" where
  "rotate_filter drp 0 q = q"
| "rotate_filter drp (Suc k) q =
     (case pop q of
        (None, q') \<Rightarrow> rotate_filter drp k q'
      | (Some x, q') \<Rightarrow> rotate_filter drp k (if drp x then q' else push q' x))"

lemma rotate_filter_waiting:
  "k \<le> length (waiting q) \<Longrightarrow>
    waiting (rotate_filter drp k q) =
      drop k (waiting q) @ filter (\<lambda>x. \<not> drp x) (take k (waiting q))"
proof (induction k arbitrary: q)
  case (Suc k)
  then obtain x xs where w: "waiting q = x # xs" by (cases "waiting q") auto
  obtain q' where q': "pop q = (Some x, q')" "waiting q' = xs"
    using pop_next [OF w] by (cases "pop q") auto
  with Suc w show ?case
    by (simp add: waiting_push)
qed simp

lemma rotate_filter_all:
  "waiting (rotate_filter drp (length (waiting q)) q) = filter (\<lambda>x. \<not> drp x) (waiting q)"
  by (simp add: rotate_filter_waiting)

end

definition g_queue_push_head :: "'a list \<Rightarrow> 'a \<Rightarrow> 'a list" where
  "g_queue_push_head q x = x # q"

definition g_queue_pop_tail :: "'a list \<Rightarrow> 'a option \<times> 'a list" where
  "g_queue_pop_tail q = (if q = [] then (None, []) else (Some (last q), butlast q))"

interpretation gqueue: fifo g_queue_push_head g_queue_pop_tail rev
proof (unfold_locales, goal_cases)
  case (3 q x xs)
  then have "q = rev xs @ [x]" by (metis rev.simps(2) rev_rev_ident)
  then show ?case by (simp add: g_queue_pop_tail_def)
qed (auto simp: g_queue_push_head_def g_queue_pop_tail_def)

lemma length_pop_tail: "g_queue_pop_tail q = (Some x, q') \<Longrightarrow> length q = Suc (length q')"
  by (auto simp: g_queue_pop_tail_def split: if_splits)

section \<open>The send queue\<close>

record send_queue_entry =
  sq_method_name :: string
  sq_client :: nat
  sq_transport :: nat
  sq_buffer :: "u8 list"

type_synonym send_queue = "send_queue_entry list"

definition cmsg_send_queue_push ::
  "bool \<Rightarrow> bool \<Rightarrow> send_queue \<Rightarrow> u8 list \<Rightarrow> nat \<Rightarrow> nat \<Rightarrow> string option \<Rightarrow> (int \<times> send_queue) option" where
  "cmsg_send_queue_push entry_ok buffer_ok queue buffer client transport method_name =
     (if \<not> entry_ok then Some (CMSG_RET_ERR, queue)
      else if \<not> buffer_ok then Some (CMSG_RET_ERR, queue)
      else
        let name = (case method_name of None \<Rightarrow> [] | Some m \<Rightarrow> m) in
        if 128 \<le> length name then None
        else Some (CMSG_RET_OK,
               g_queue_push_head queue
                 \<lparr>sq_method_name = name, sq_client = client, sq_transport = transport,
                  sq_buffer = buffer\<rparr>))"

function cmsg_send_queue_free_all :: "send_queue \<Rightarrow> send_queue" where
  "cmsg_send_queue_free_all queue =
     (case g_queue_pop_tail queue of
        (None, q) \<Rightarrow> q
      | (Some _, q) \<Rightarrow> cmsg_send_queue_free_all q)"
  by pat_completeness auto
termination cmsg_send_queue_free_all
  by (relation "measure length") (auto dest: length_pop_tail [OF sym])

declare cmsg_send_queue_free_all.simps [simp del]

text \<open>Whether an entry goes: by the very transport or by an equal one, and by the method.\<close>

definition send_entry_matches ::
  "(nat \<Rightarrow> cmsg_transport) \<Rightarrow> nat \<Rightarrow> string option \<Rightarrow> bool \<Rightarrow> send_queue_entry \<Rightarrow> bool" where
  "send_entry_matches tports transport method_name exact entry =
     ((exact \<and> sq_transport entry = transport \<or>
       \<not> exact \<and> cmsg_transport_compare (tports (sq_transport entry)) (tports transport)) \<and>
      (case method_name of None \<Rightarrow> True | Some m \<Rightarrow> strcmp (sq_method_name entry) m = 0))"

definition cmsg_send_queue_free_all_by_transport_method ::
  "(nat \<Rightarrow> cmsg_transport) \<Rightarrow> send_queue \<Rightarrow> nat \<Rightarrow> string option \<Rightarrow> bool \<Rightarrow> send_queue" where
  "cmsg_send_queue_free_all_by_transport_method tports queue transport method_name exact =
     gqueue.rotate_filter (send_entry_matches tports transport method_name exact) (length queue) queue"

definition cmsg_send_queue_free_all_by_transport ::
  "(nat \<Rightarrow> cmsg_transport) \<Rightarrow> send_queue \<Rightarrow> nat \<Rightarrow> send_queue" where
  "cmsg_send_queue_free_all_by_transport tports queue transport =
     cmsg_send_queue_free_all_by_transport_method tports queue transport None False"

definition cmsg_send_queue_free_all_by_single_transport ::
  "(nat \<Rightarrow> cmsg_transport) \<Rightarrow> send_queue \<Rightarrow> nat \<Rightarrow> send_queue" where
  "cmsg_send_queue_free_all_by_single_transport tports queue transport =
     cmsg_send_queue_free_all_by_transport_method tports queue transport None True"

definition cmsg_send_queue_free_by_transport_method ::
  "(nat \<Rightarrow> cmsg_transport) \<Rightarrow> send_queue \<Rightarrow> nat \<Rightarrow> string \<Rightarrow> send_queue" where
  "cmsg_send_queue_free_by_transport_method tports queue transport method_name =
     cmsg_send_queue_free_all_by_transport_method tports queue transport (Some method_name) False"

definition cmsg_send_queue_free_by_single_transport_method ::
  "(nat \<Rightarrow> cmsg_transport) \<Rightarrow> send_queue \<Rightarrow> nat \<Rightarrow> string \<Rightarrow> send_queue" where
  "cmsg_send_queue_free_by_single_transport_method tports queue transport method_name =
     cmsg_send_queue_free_all_by_transport_method tports queue transport (Some method_name) True"

lemmas send_queue_free_defs =
  cmsg_send_queue_free_all_by_transport_def cmsg_send_queue_free_all_by_single_transport_def
  cmsg_send_queue_free_by_transport_method_def cmsg_send_queue_free_by_single_transport_method_def

lemma cmsg_send_queue_free_all_empty: "cmsg_send_queue_free_all q = []"
proof (induction q rule: cmsg_send_queue_free_all.induct)
  case (1 q)
  then show ?case
    by (subst cmsg_send_queue_free_all.simps)
      (auto simp: g_queue_pop_tail_def split: prod.splits option.splits if_splits)
qed

lemma send_queue_free_filter:
  "cmsg_send_queue_free_all_by_transport_method tports q t m exact =
     filter (\<lambda>x. \<not> send_entry_matches tports t m exact x) q"
  using gqueue.rotate_filter_all [of "send_entry_matches tports t m exact" q]
  by (simp add: cmsg_send_queue_free_all_by_transport_method_def rev_filter [symmetric])

section \<open>The receive queue\<close>

record 'm receive_queue_entry =
  rq_method_index :: u32
  rq_buffer :: 'm

type_synonym 'm receive_queue = "'m receive_queue_entry list"

definition cmsg_receive_queue_push ::
  "bool \<Rightarrow> 'm receive_queue \<Rightarrow> 'm \<Rightarrow> u32 \<Rightarrow> int \<times> 'm receive_queue" where
  "cmsg_receive_queue_push entry_ok queue buffer method_index =
     (if \<not> entry_ok then (CMSG_RET_ERR, queue)
      else (CMSG_RET_OK, g_queue_push_head queue \<lparr>rq_method_index = method_index, rq_buffer = buffer\<rparr>))"

text \<open>
  \<open>invoke\<close> is the server's \<open>cmsg_server_invoke\<close> with the reason \<open>INVOKING_FROM_QUEUE\<close>; it may
  change the queue. The first argument of the loop is how many more may be processed.
\<close>

primrec receive_process_loop ::
  "('m receive_queue_entry \<Rightarrow> 's \<times> 'm receive_queue \<Rightarrow> 's \<times> 'm receive_queue)
   \<Rightarrow> nat \<Rightarrow> nat \<Rightarrow> 's \<times> 'm receive_queue \<Rightarrow> nat \<times> ('s \<times> 'm receive_queue)" where
  "receive_process_loop invoke 0 processed st = (processed, st)"
| "receive_process_loop invoke (Suc left) processed st =
     (case g_queue_pop_tail (snd st) of
        (None, q) \<Rightarrow> (processed, (fst st, q))
      | (Some entry, q) \<Rightarrow> receive_process_loop invoke left (Suc processed) (invoke entry (fst st, q)))"

definition cmsg_receive_queue_process_some ::
  "('m receive_queue_entry \<Rightarrow> 's \<times> 'm receive_queue \<Rightarrow> 's \<times> 'm receive_queue)
   \<Rightarrow> 's \<times> 'm receive_queue \<Rightarrow> nat \<Rightarrow> nat \<times> ('s \<times> 'm receive_queue)" where
  "cmsg_receive_queue_process_some invoke st num_to_process =
     (if num_to_process = 0 then (0, st)
      else if length (snd st) = 0 then (0, st)
      else receive_process_loop invoke num_to_process 0 st)"

text \<open>The loop runs until a round processes nothing; \<open>None\<close> when it never ends.\<close>

partial_function (option) receive_process_rounds ::
  "('m receive_queue_entry \<Rightarrow> 's \<times> 'm receive_queue \<Rightarrow> 's \<times> 'm receive_queue)
   \<Rightarrow> 's \<times> 'm receive_queue \<Rightarrow> nat \<Rightarrow> (nat \<times> ('s \<times> 'm receive_queue)) option" where
  "receive_process_rounds invoke st total_processed =
     (case cmsg_receive_queue_process_some invoke st 50 of
        (processed, st') \<Rightarrow>
          if processed = 0 then Some (total_processed, st')
          else receive_process_rounds invoke st' (total_processed + processed))"

definition cmsg_receive_queue_process_all ::
  "('m receive_queue_entry \<Rightarrow> 's \<times> 'm receive_queue \<Rightarrow> 's \<times> 'm receive_queue)
   \<Rightarrow> 's \<times> 'm receive_queue \<Rightarrow> (nat \<times> ('s \<times> 'm receive_queue)) option" where
  "cmsg_receive_queue_process_all invoke st = receive_process_rounds invoke st 0"

definition cmsg_receive_queue_free_all :: "'m receive_queue \<Rightarrow> 'm receive_queue" where
  "cmsg_receive_queue_free_all queue = gqueue.rotate_filter (\<lambda>_. True) (length queue) queue"

text \<open>
  A method that leaves the queue alone: on states with \<open>I\<close>, the entries of \<open>E\<close> act by \<open>f\<close>
  and are handled oldest first.
\<close>

definition keeps_queue :: "('s \<Rightarrow> bool) \<Rightarrow> 'm receive_queue_entry set
    \<Rightarrow> ('m receive_queue_entry \<Rightarrow> 's \<times> 'm receive_queue \<Rightarrow> 's \<times> 'm receive_queue)
    \<Rightarrow> ('m receive_queue_entry \<Rightarrow> 's \<Rightarrow> 's) \<Rightarrow> bool" where
  "keeps_queue I E invoke f \<longleftrightarrow> (\<forall>e \<in> E. \<forall>s q. I s \<longrightarrow> invoke e (s, q) = (f e s, q) \<and> I (f e s))"

lemma keeps_queue_fold: "keeps_queue I E invoke f \<Longrightarrow> I s \<Longrightarrow> set es \<subseteq> E \<Longrightarrow> I (fold f es s)"
  by (induction es arbitrary: s) (auto simp: keeps_queue_def)

lemma receive_process_loop_fifo:
  assumes "keeps_queue I E invoke f" "I s" "set q \<subseteq> E"
  shows "receive_process_loop invoke n k (s, q) =
    (k + min n (length q),
     (fold f (take n (rev q)) s, rev (drop n (rev q))))"
  using assms(2,3)
proof (induction n arbitrary: k s q)
  case (Suc n)
  show ?case
  proof (cases q rule: rev_cases)
    case (snoc q' e)
    then have "g_queue_pop_tail q = (Some e, q')" by (simp add: g_queue_pop_tail_def)
    with snoc Suc assms(1) show ?thesis by (simp add: keeps_queue_def)
  qed (simp add: g_queue_pop_tail_def)
qed simp

lemma receive_process_some_fifo:
  assumes "keeps_queue I E invoke f" "I s" "set q \<subseteq> E"
  shows "cmsg_receive_queue_process_some invoke (s, q) n =
    (min n (length q), (fold f (take n (rev q)) s, rev (drop n (rev q))))"
  by (auto simp: cmsg_receive_queue_process_some_def receive_process_loop_fifo [OF assms])

lemma receive_process_rounds_fifo:
  assumes "keeps_queue I E invoke f" "I s" "set q \<subseteq> E"
  shows "receive_process_rounds invoke (s, q) k = Some (k + length q, (fold f (rev q) s, []))"
  using assms(2,3)
proof (induction "length q" arbitrary: s q k rule: less_induct)
  case less
  note some = receive_process_some_fifo [OF assms(1) less.prems]
  show ?case
  proof (cases "q = []")
    case True
    with some [of 50] show ?thesis
      by (subst receive_process_rounds.simps) simp
  next
    case False
    let ?q = "rev (drop 50 (rev q))"
    have "length ?q < length q" using False by (cases q) simp_all
    moreover have "I (fold f (take 50 (rev q)) s)"
      using less.prems set_take_subset [of 50 "rev q"] by (intro keeps_queue_fold [OF assms(1)]) auto
    moreover have "set ?q \<subseteq> E" using less.prems set_drop_subset [of 50 "rev q"] by auto
    ultimately have
      "receive_process_rounds invoke (fold f (take 50 (rev q)) s, ?q) (k + min 50 (length q)) =
        Some (k + min 50 (length q) + length ?q, (fold f (rev ?q) (fold f (take 50 (rev q)) s), []))"
      by (rule less.hyps)
    moreover have "fold f (rev ?q) (fold f (take 50 (rev q)) s) = fold f (rev q) s"
      by (metis append_take_drop_id comp_apply fold_append rev_rev_ident)
    ultimately show ?thesis
      using False by (subst receive_process_rounds.simps) (simp add: some [of 50])
  qed
qed

lemma receive_queue_free_all_empty: "cmsg_receive_queue_free_all q = []"
  using gqueue.rotate_filter_all [of "\<lambda>_. True" q] by (simp add: cmsg_receive_queue_free_all_def)

section \<open>The queue filter\<close>

datatype cmsg_queue_filter_type =
    CMSG_QUEUE_FILTER_PROCESS
  | CMSG_QUEUE_FILTER_DROP
  | CMSG_QUEUE_FILTER_QUEUE
  | CMSG_QUEUE_FILTER_ERROR

datatype cmsg_queue_state =
    CMSG_QUEUE_STATE_ENABLED
  | CMSG_QUEUE_STATE_TO_DISABLED
  | CMSG_QUEUE_STATE_DISABLED

type_synonym queue_filter = "(string \<times> cmsg_queue_filter_type) list"

text \<open>Writing through the entry that a lookup returned; a \<open>NULL\<close> entry is dereferenced.\<close>

fun filter_set_each :: "queue_filter \<Rightarrow> string list \<Rightarrow> cmsg_queue_filter_type \<Rightarrow> queue_filter option" where
  "filter_set_each tbl [] ty = Some tbl"
| "filter_set_each tbl (m # ms) ty =
     (case map_of tbl m of
        None \<Rightarrow> None
      | Some _ \<Rightarrow> filter_set_each (AList.update m ty tbl) ms ty)"

definition cmsg_queue_filter_set_all ::
  "queue_filter \<Rightarrow> service_descriptor \<Rightarrow> cmsg_queue_filter_type \<Rightarrow> queue_filter option" where
  "cmsg_queue_filter_set_all tbl descriptor ty = filter_set_each tbl (svc_methods descriptor) ty"

definition cmsg_queue_filter_clear_all :: "queue_filter \<Rightarrow> service_descriptor \<Rightarrow> queue_filter option" where
  "cmsg_queue_filter_clear_all tbl descriptor =
     filter_set_each tbl (svc_methods descriptor) CMSG_QUEUE_FILTER_PROCESS"

definition cmsg_queue_filter_set ::
  "queue_filter \<Rightarrow> string \<Rightarrow> cmsg_queue_filter_type \<Rightarrow> int \<times> queue_filter" where
  "cmsg_queue_filter_set tbl meth ty =
     (case map_of tbl meth of
        Some _ \<Rightarrow> (CMSG_RET_OK, AList.update meth ty tbl)
      | None \<Rightarrow> (CMSG_RET_ERR, tbl))"

definition cmsg_queue_filter_clear :: "queue_filter \<Rightarrow> string \<Rightarrow> int \<times> queue_filter" where
  "cmsg_queue_filter_clear tbl meth =
     (case map_of tbl meth of
        Some _ \<Rightarrow> (CMSG_RET_OK, AList.update meth CMSG_QUEUE_FILTER_PROCESS tbl)
      | None \<Rightarrow> (CMSG_RET_ERR, tbl))"

definition cmsg_queue_filter_init :: "queue_filter \<Rightarrow> service_descriptor \<Rightarrow> queue_filter" where
  "cmsg_queue_filter_init tbl descriptor =
     fold (\<lambda>m tbl. AList.update m CMSG_QUEUE_FILTER_PROCESS tbl) (svc_methods descriptor) tbl"

definition cmsg_queue_filter_free :: "queue_filter \<Rightarrow> service_descriptor \<Rightarrow> queue_filter" where
  "cmsg_queue_filter_free tbl descriptor = fold AList.delete (svc_methods descriptor) tbl"

definition cmsg_queue_filter_lookup :: "queue_filter \<Rightarrow> string \<Rightarrow> cmsg_queue_filter_type" where
  "cmsg_queue_filter_lookup tbl meth =
     (case map_of tbl meth of Some ty \<Rightarrow> ty | None \<Rightarrow> CMSG_QUEUE_FILTER_ERROR)"

fun filter_type_of :: "queue_filter \<Rightarrow> string list \<Rightarrow> cmsg_queue_state \<Rightarrow> cmsg_queue_state option" where
  "filter_type_of tbl [] ty = Some ty"
| "filter_type_of tbl (m # ms) ty =
     (case map_of tbl m of
        None \<Rightarrow> None
      | Some f \<Rightarrow>
          filter_type_of tbl ms (if f = CMSG_QUEUE_FILTER_QUEUE then CMSG_QUEUE_STATE_ENABLED else ty))"

definition cmsg_queue_filter_get_type :: "queue_filter \<Rightarrow> service_descriptor \<Rightarrow> cmsg_queue_state option" where
  "cmsg_queue_filter_get_type tbl descriptor =
     filter_type_of tbl (svc_methods descriptor) CMSG_QUEUE_STATE_DISABLED"

text \<open>The table that every operation keeps: exactly the methods of the service.\<close>

definition filter_covers :: "queue_filter \<Rightarrow> service_descriptor \<Rightarrow> bool" where
  "filter_covers tbl d \<longleftrightarrow> fst ` set tbl = set (svc_methods d) \<and> distinct (map fst tbl)"

lemma filter_set_each_total:
  "set ms \<subseteq> fst ` set tbl \<Longrightarrow>
    filter_set_each tbl ms ty = Some (fold (\<lambda>m. AList.update m ty) ms tbl)"
proof (induction ms arbitrary: tbl)
  case (Cons m ms)
  then obtain v where "map_of tbl m = Some v"
    by (metis domD dom_map_of_conv_image_fst list.set_intros(1) subsetD)
  with Cons show ?case by (simp add: dom_update [unfolded dom_map_of_conv_image_fst] subset_insertI2)
qed simp

lemma map_of_fold_update:
  "map_of (fold (\<lambda>m. AList.update m v) ms tbl) =
     (\<lambda>k. if k \<in> set ms then Some v else map_of tbl k)"
  by (induction ms arbitrary: tbl) (auto simp: update_conv' fun_eq_iff)

lemma keys_fold_update:
  "fst ` set (fold (\<lambda>m. AList.update m v) ms tbl) = fst ` set tbl \<union> set ms"
  by (induction ms arbitrary: tbl) (auto simp: dom_update [unfolded dom_map_of_conv_image_fst])

lemma distinct_fold_update:
  "distinct (map fst tbl) \<Longrightarrow> distinct (map fst (fold (\<lambda>m. AList.update m v) ms tbl))"
  by (induction ms arbitrary: tbl) (auto simp: distinct_update)

lemma filter_type_of_any:
  "set ms \<subseteq> fst ` set tbl \<Longrightarrow>
    filter_type_of tbl ms ty =
      Some (if \<exists>m \<in> set ms. map_of tbl m = Some CMSG_QUEUE_FILTER_QUEUE
            then CMSG_QUEUE_STATE_ENABLED else ty)"
proof (induction ms arbitrary: ty)
  case (Cons m ms)
  then obtain v where "map_of tbl m = Some v"
    by (metis domD dom_map_of_conv_image_fst list.set_intros(1) subsetD)
  with Cons show ?case by auto
qed simp

end
