(* ===== verification/Crypto.thy ===== *)
theory Crypto
  imports CmsgBase
begin

text \<open>
  The secure framing of \<open>cmsg/src/cmsg_crypto.c\<close>: the 12-byte header (magic, length, type) in
  front of encrypted data and of the client's nonce. OpenSSL and the application's key
  derivation are not under \<open>src\<close>: the record \<open>evp\<close> holds what the code calls of them. A cipher
  call that fails is \<open>None\<close>; a \<open>None\<close> result of a function here is a read outside a buffer.
\<close>

unbundle bit_operations_syntax

record cmsg_crypto_sa =
  sa_ctx_out_init :: bool
  sa_ctx_in_init :: bool
  sa_server :: bool
  sa_keydata :: "u8 list"

record evp =
  encrypt_init :: "u8 list \<Rightarrow> bool"
  encrypt_update :: "u8 list \<Rightarrow> u8 list \<Rightarrow> u8 list option"
  encrypt_final :: "u8 list \<Rightarrow> u8 list \<Rightarrow> u8 list option"
  decrypt_init :: "u8 list \<Rightarrow> bool"
  decrypt_update :: "u8 list \<Rightarrow> u8 list \<Rightarrow> u8 list option"
  decrypt_final :: "u8 list \<Rightarrow> u8 list \<Rightarrow> u8 list option"

text \<open>The derive callback: its return code and the SA as it leaves it.\<close>

type_synonym sa_derive = "cmsg_crypto_sa \<Rightarrow> u8 list \<Rightarrow> int \<times> cmsg_crypto_sa"

definition CMSG_CRYPTO_MAGIC :: u32 where [cmsg_codes]: "CMSG_CRYPTO_MAGIC = 0xa5a50001"
definition CMSG_CRYPTO_TYPE_NONCE :: u32 where [cmsg_codes]: "CMSG_CRYPTO_TYPE_NONCE = 1"
definition CMSG_CRYPTO_TYPE_PAYLOAD :: u32 where [cmsg_codes]: "CMSG_CRYPTO_TYPE_PAYLOAD = 2"

abbreviation crypto_header_size :: nat where "crypto_header_size \<equiv> 12"
abbreviation NONCE_SIZE :: nat where "NONCE_SIZE \<equiv> 64"
abbreviation ENCRYPT_EXTRA :: nat where "ENCRYPT_EXTRA \<equiv> 64"

section \<open>Integers in network order\<close>

definition cmsg_crypto_put32 :: "u32 \<Rightarrow> u8 list" where
  "cmsg_crypto_put32 value =
     [ucast (drop_bit 24 value AND 0xFF), ucast (drop_bit 16 value AND 0xFF),
      ucast (drop_bit 8 value AND 0xFF), ucast (value AND 0xFF)]"

definition cmsg_crypto_get32_direct :: "u8 list \<Rightarrow> u32 option" where
  "cmsg_crypto_get32_direct inp =
     (case inp of
        b0 # b1 # b2 # b3 # rest \<Rightarrow>
          Some (push_bit 24 (ucast b0) OR push_bit 16 (ucast b1) OR push_bit 8 (ucast b2) OR ucast b3)
      | _ \<Rightarrow> None)"

text \<open>The cursor version returns the rest of the buffer.\<close>

definition cmsg_crypto_get32 :: "u8 list \<Rightarrow> (u32 \<times> u8 list) option" where
  "cmsg_crypto_get32 inp =
     (case inp of
        b0 # b1 # b2 # b3 # rest \<Rightarrow>
          Some (push_bit 24 (ucast b0) OR push_bit 16 (ucast b1) OR push_bit 8 (ucast b2) OR ucast b3, rest)
      | _ \<Rightarrow> None)"

lemma put32_be_bytes: "cmsg_crypto_put32 x = be_bytes x"
proof -
  have m: "(0xFF :: u32) = mask 8" by (simp add: mask_eq_exp_minus_1)
  have *: "ucast (y AND 0xFF :: u32) = (ucast y :: u8)" for y :: u32
    by (rule bit_word_eqI) (simp only: m bit_ucast_iff bit_and_iff bit_mask_iff, simp)
  show ?thesis by (simp add: cmsg_crypto_put32_def be_bytes_def byte_at_def *)
qed

lemma get32_word_of_be:
  "push_bit 24 (ucast b0) OR push_bit 16 (ucast b1) OR push_bit 8 (ucast b2) OR ucast b3 =
     word_of_be [b0, b1, b2, b3]" for b0 b1 b2 b3 :: u8
proof (rule bit_word_eqI)
  fix n assume "n < LENGTH(32)"
  then consider "n < 8" | "8 \<le> n" "n < 16" | "16 \<le> n" "n < 24" | "24 \<le> n" "n < 32" by fastforce
  then show "bit (push_bit 24 (ucast b0) OR push_bit 16 (ucast b1) OR push_bit 8 (ucast b2) OR ucast b3 :: u32) n =
      bit (word_of_be [b0, b1, b2, b3]) n"
    by cases (auto simp: bit_or_iff bit_push_bit_iff bit_ucast_iff bit_word_cat_iff
        dest: bit_imp_le_length)
qed

lemma get32_direct_be:
  "cmsg_crypto_get32_direct (be_bytes x @ rest) = Some x"
  using word_of_be_be_bytes [of x]
  by (simp add: cmsg_crypto_get32_direct_def get32_word_of_be be_bytes_def)

lemma get32_be: "cmsg_crypto_get32 (be_bytes x @ rest) = Some (x, rest)"
  using word_of_be_be_bytes [of x]
  by (simp add: cmsg_crypto_get32_def get32_word_of_be be_bytes_def)

section \<open>The operations\<close>

definition cmsg_crypto_encrypt ::
  "evp \<Rightarrow> cmsg_crypto_sa option \<Rightarrow> u8 list \<Rightarrow> int \<times> u8 list" where
  "cmsg_crypto_encrypt evp sa inbuf =
     (case sa of
        None \<Rightarrow> (-1, [])
      | Some sa \<Rightarrow>
          if \<not> encrypt_init evp (sa_keydata sa) then (-1, [])
          else
            (case encrypt_update evp (sa_keydata sa) inbuf of
               None \<Rightarrow> (-1, [])
             | Some body \<Rightarrow>
                 (case encrypt_final evp (sa_keydata sa) inbuf of
                    None \<Rightarrow> (-1, [])
                  | Some final \<Rightarrow>
                      let out_length = length body + (length final + crypto_header_size) in
                      (int out_length,
                       cmsg_crypto_put32 CMSG_CRYPTO_MAGIC
                       @ cmsg_crypto_put32 (of_nat out_length)
                       @ cmsg_crypto_put32 CMSG_CRYPTO_TYPE_PAYLOAD
                       @ body @ final))))"

text \<open>
  \<open>decrypt_final\<close> gets the whole ciphertext, as the context remembers it. The result has the
  return code, the SA (the derive callback may change it) and the plaintext written.
\<close>

definition cmsg_crypto_decrypt ::
  "evp \<Rightarrow> sa_derive \<Rightarrow> cmsg_crypto_sa option \<Rightarrow> u8 list
   \<Rightarrow> (int \<times> cmsg_crypto_sa option \<times> u8 list) option" where
  "cmsg_crypto_decrypt evp sa_derive_func sa inbuf =
     (case sa of
        None \<Rightarrow> Some (-1, None, [])
      | Some sa \<Rightarrow>
          Option.bind (cmsg_crypto_get32 inbuf) (\<lambda>(magic, inp).
          Option.bind (cmsg_crypto_get32 inp) (\<lambda>(encrypt_length, inp).
          Option.bind (cmsg_crypto_get32 inp) (\<lambda>(type, inp).
            if sa_server sa \<and> \<not> sa_ctx_out_init sa then
              (if type = CMSG_CRYPTO_TYPE_NONCE then
                 (let (r, sa') = sa_derive_func sa inp in
                  Some (if r < 0 then -1 else 0, Some sa', []))
               else Some (-1, Some sa, []))
            else if type = CMSG_CRYPTO_TYPE_PAYLOAD then
              (if \<not> decrypt_init evp (sa_keydata sa) then Some (-1, Some sa, [])
               else
                 (case decrypt_update evp (sa_keydata sa) inp of
                    None \<Rightarrow> Some (-1, Some sa, [])
                  | Some body \<Rightarrow>
                      (case decrypt_final evp (sa_keydata sa) inp of
                         None \<Rightarrow> Some (-1, Some sa, body)
                       | Some final \<Rightarrow>
                           Some (int (length body + length final), Some sa, body @ final))))
            else Some (-1, Some sa, [])))))"

text \<open>The length comes back as an \<open>int\<close>: a header of length \<open>0xffffffff\<close> reads as the failure \<open>-1\<close>.\<close>

definition cmsg_crypto_parse_header :: "u8 list \<Rightarrow> int option" where
  "cmsg_crypto_parse_header header =
     Option.bind (cmsg_crypto_get32_direct header) (\<lambda>magic.
     Option.bind (cmsg_crypto_get32_direct (drop 4 header)) (\<lambda>msg_length.
       Some (if magic \<noteq> CMSG_CRYPTO_MAGIC \<or> msg_length = 0 then -1 else sint msg_length)))"

text \<open>\<open>rand\<close> is the nonce of \<open>RAND_bytes\<close>, \<open>None\<close> when it fails.\<close>

definition cmsg_crypto_create_nonce ::
  "bool \<Rightarrow> u8 list option \<Rightarrow> sa_derive \<Rightarrow> cmsg_crypto_sa \<Rightarrow> u8 list option \<times> cmsg_crypto_sa" where
  "cmsg_crypto_create_nonce calloc_ok rand sa_derive_func sa =
     (let nonce_buffer_length = crypto_header_size + NONCE_SIZE in
      if \<not> calloc_ok then (None, sa)
      else
        case rand of
          None \<Rightarrow> (None, sa)
        | Some nonce \<Rightarrow>
            let (r, sa') = sa_derive_func sa nonce in
            if r < 0 then (None, sa')
            else
              (Some (cmsg_crypto_put32 CMSG_CRYPTO_MAGIC
                     @ cmsg_crypto_put32 (of_nat nonce_buffer_length)
                     @ cmsg_crypto_put32 CMSG_CRYPTO_TYPE_NONCE @ nonce), sa'))"

section \<open>Framing\<close>

text \<open>Any framed packet: what the receiver's two readers see of it.\<close>

definition crypto_packet :: "u32 \<Rightarrow> u8 list \<Rightarrow> u8 list" where
  "crypto_packet type payload =
     be_bytes CMSG_CRYPTO_MAGIC @ be_bytes (of_nat (crypto_header_size + length payload))
     @ be_bytes type @ payload"

lemma length_crypto_packet [simp]: "length (crypto_packet type payload) = 12 + length payload"
  by (simp add: crypto_packet_def)

lemma parse_header_packet:
  assumes "12 + length payload < 2 ^ 31"
  shows "cmsg_crypto_parse_header (take 8 (crypto_packet type payload) @ rest) =
    Some (int (length (crypto_packet type payload)))"
proof -
  let ?n = "12 + length payload"
  let ?w = "of_nat ?n :: u32"
  have u: "unat ?w = ?n" using assms by (simp only: unat_of_nat) simp
  then have nz: "?w \<noteq> 0" by (metis add_is_0 unat_0 zero_neq_numeral)
  have s: "sint ?w = int ?n"
    using assms by (simp only: signed_of_nat) (simp add: signed_take_bit_int_eq_self)
  have "take 8 (crypto_packet type payload) = be_bytes CMSG_CRYPTO_MAGIC @ be_bytes ?w"
    by (simp add: crypto_packet_def)
  moreover have "drop 4 (be_bytes CMSG_CRYPTO_MAGIC @ be_bytes ?w @ rest) = be_bytes ?w @ rest"
    by simp
  ultimately show ?thesis
    using nz s unfolding cmsg_crypto_parse_header_def
    by (simp only: append_assoc get32_direct_be length_crypto_packet) simp
qed

lemma encrypt_packet:
  assumes "cmsg_crypto_encrypt evp (Some sa) inbuf = (n, out)" "0 \<le> n"
  obtains body final where
    "encrypt_update evp (sa_keydata sa) inbuf = Some body"
    "encrypt_final evp (sa_keydata sa) inbuf = Some final"
    "out = crypto_packet CMSG_CRYPTO_TYPE_PAYLOAD (body @ final)" "n = int (length out)"
  using assms
  by (auto simp: cmsg_crypto_encrypt_def crypto_packet_def put32_be_bytes Let_def add.commute add.left_commute
      split: if_splits option.splits)

lemma decrypt_packet_payload:
  assumes "\<not> (sa_server sa \<and> \<not> sa_ctx_out_init sa)" "decrypt_init evp (sa_keydata sa)"
    and "decrypt_update evp (sa_keydata sa) payload = Some body"
    and "decrypt_final evp (sa_keydata sa) payload = Some final"
  shows "cmsg_crypto_decrypt evp derive (Some sa) (crypto_packet CMSG_CRYPTO_TYPE_PAYLOAD payload) =
    Some (int (length (body @ final)), Some sa, body @ final)"
  using assms by (auto simp: cmsg_crypto_decrypt_def crypto_packet_def get32_be)

lemma decrypt_packet_nonce:
  assumes "sa_server sa" "\<not> sa_ctx_out_init sa"
  shows "cmsg_crypto_decrypt evp derive (Some sa) (crypto_packet CMSG_CRYPTO_TYPE_NONCE nonce) =
    Some (if fst (derive sa nonce) < 0 then -1 else 0, Some (snd (derive sa nonce)), [])"
  using assms by (simp add: cmsg_crypto_decrypt_def crypto_packet_def get32_be split: prod.split)

lemma create_nonce_packet:
  assumes "cmsg_crypto_create_nonce calloc rand derive sa = (Some buf, sa')"
    and "\<And>n. rand = Some n \<Longrightarrow> length n = NONCE_SIZE"
  obtains nonce where "rand = Some nonce" "buf = crypto_packet CMSG_CRYPTO_TYPE_NONCE nonce"
    "sa' = snd (derive sa nonce)" "0 \<le> fst (derive sa nonce)"
  using assms
  by (auto simp: cmsg_crypto_create_nonce_def crypto_packet_def put32_be_bytes Let_def
      split: if_splits option.splits prod.splits)

end
