(* ===== verification/Server.thy ===== *)
theory Server
  imports MsgQueue Crypto
begin

text \<open>
  The server of \<open>cmsg/src/cmsg_server.c\<close>: what it does with a received packet, the replies it
  sends, the receive queue and its filter, and the state machine that drives the queue.

  The generated code and the application are the record \<open>server_env\<close>: packing and unpacking of
  messages, the validation functions and the implementations of the methods. An implementation
  answers with the list of responses it sends (\<open>None\<close> is a \<open>NULL\<close> message) and says whether
  it keeps the message it was given. The environment may depend on all that happened before,
  the trace of the server. A \<open>None\<close> result is undefined behaviour or a failed \<open>assert\<close>.
  Mutexes are not modelled; each function runs as one step of the server's thread.
\<close>

section \<open>State\<close>

datatype server_counter =
    cntr_unknown_rpc | cntr_rpc | cntr_unknown_fields | cntr_messages_queued
  | cntr_messages_dropped | cntr_connections_accepted | cntr_connections_closed
  | cntr_poll_errors | cntr_recv_errors | cntr_send_errors | cntr_pack_errors
  | cntr_memory_errors | cntr_protocol_errors | cntr_queue_errors

datatype cmsg_method_processing_reason =
    CMSG_METHOD_OK_TO_INVOKE
  | CMSG_METHOD_QUEUED
  | CMSG_METHOD_DROPPED
  | CMSG_METHOD_INVOKING_FROM_QUEUE

datatype server_closure = Closure_rpc | Closure_oneway

text \<open>What the server does to its surroundings, oldest first.\<close>

datatype 'm server_event =
    Ev_send int "u8 list"
  | Ev_impl nat "'m option"
  | Ev_free 'm
  | Ev_count server_counter

record 'm cmsg_server =
  srv_service :: service_descriptor
  srv_transport_type :: cmsg_transport_type
  srv_queue :: "'m receive_queue"
  max_queue_length :: nat
  queueing_state :: cmsg_queue_state
  queueing_state_last :: cmsg_queue_state
  queue_in_process :: bool
  queue_process_number :: int
  queue_filters :: queue_filter
  app_owns_current_msg :: bool
  app_owns_all_msgs :: bool
  crypto_sas :: "(int \<times> cmsg_crypto_sa) list option"
  srv_trace :: "'m server_event list"

record 'm server_env =
  env_endian :: endian
  packed_size :: "'m \<Rightarrow> nat"
  pack_msg :: "'m \<Rightarrow> u8 list"
  unpack_msg :: "nat \<Rightarrow> u8 list \<Rightarrow> 'm option"
  has_unknown_fields :: "'m \<Rightarrow> bool"
  input_n_fields :: "nat \<Rightarrow> nat"
  validation_func :: "nat \<Rightarrow> ('m \<Rightarrow> string option) option"
  ant_response :: "nat \<Rightarrow> string \<Rightarrow> 'm option"
  has_impl :: "nat \<Rightarrow> bool"
  impl_func :: "'m server_event list \<Rightarrow> nat \<Rightarrow> 'm option \<Rightarrow> 'm option list \<times> bool"
  alloc_ok :: "'m server_event list \<Rightarrow> bool"
  send_ret :: "'m server_event list \<Rightarrow> int \<Rightarrow> u8 list \<Rightarrow> int"
  env_evp :: evp

definition server_log :: "'m server_event \<Rightarrow> 'm cmsg_server \<Rightarrow> 'm cmsg_server" where
  "server_log ev s = s\<lparr>srv_trace := srv_trace s @ [ev]\<rparr>"

abbreviation CMSG_COUNTER_INC :: "'m cmsg_server \<Rightarrow> server_counter \<Rightarrow> 'm cmsg_server" where
  "CMSG_COUNTER_INC s c \<equiv> server_log (Ev_count c) s"

fun cmsg_server_get_closure_func :: "cmsg_transport_type \<Rightarrow> server_closure" where
  "cmsg_server_get_closure_func CMSG_TRANSPORT_RPC_TCP = Closure_rpc"
| "cmsg_server_get_closure_func CMSG_TRANSPORT_LOOPBACK = Closure_rpc"
| "cmsg_server_get_closure_func CMSG_TRANSPORT_RPC_UNIX = Closure_rpc"
| "cmsg_server_get_closure_func CMSG_TRANSPORT_ONEWAY_TCP = Closure_oneway"
| "cmsg_server_get_closure_func CMSG_TRANSPORT_BROADCAST = Closure_oneway"
| "cmsg_server_get_closure_func CMSG_TRANSPORT_ONEWAY_UNIX = Closure_oneway"
| "cmsg_server_get_closure_func CMSG_TRANSPORT_FORWARDING = Closure_oneway"

text \<open>The state a new server starts in (\<open>cmsg_server_create\<close> when every allocation succeeds).\<close>

definition cmsg_server_create :: "cmsg_transport_type \<Rightarrow> service_descriptor \<Rightarrow> 'm cmsg_server" where
  "cmsg_server_create transport_type service =
     \<lparr>srv_service = service, srv_transport_type = transport_type, srv_queue = [],
      max_queue_length = 0, queueing_state = CMSG_QUEUE_STATE_DISABLED,
      queueing_state_last = CMSG_QUEUE_STATE_DISABLED, queue_in_process = False,
      queue_process_number = 0, queue_filters = cmsg_queue_filter_init [] service,
      app_owns_current_msg = False, app_owns_all_msgs = False, crypto_sas = None, srv_trace = []\<rparr>"

definition cmsg_server_crypto_enabled :: "'m cmsg_server \<Rightarrow> bool" where
  "cmsg_server_crypto_enabled server \<longleftrightarrow> crypto_sas server \<noteq> None"

definition cmsg_server_crypto_enable ::
  "bool \<Rightarrow> bool \<Rightarrow> bool \<Rightarrow> 'm cmsg_server \<Rightarrow> int \<times> 'm cmsg_server" where
  "cmsg_server_crypto_enable have_funcs mutex_ok table_ok server =
     (if \<not> have_funcs then (CMSG_RET_ERR, server)
      else if crypto_sas server \<noteq> None then (CMSG_RET_OK, server)
      else if \<not> mutex_ok then (CMSG_RET_ERR, server)
      else if \<not> table_ok then (CMSG_RET_ERR, server)
      else (CMSG_RET_OK, server\<lparr>crypto_sas := Some []\<rparr>))"

text \<open>
  Accepting: \<open>sock\<close> is what the transport's accept returned, \<open>sa\<close> what the application's create
  callback returned for the peer. (The result of the accept is not looked at.)
\<close>

definition cmsg_server_accept ::
  "int \<Rightarrow> cmsg_crypto_sa option \<Rightarrow> 'm cmsg_server \<Rightarrow> int \<times> 'm cmsg_server" where
  "cmsg_server_accept sock sa server =
     (case crypto_sas server of
        None \<Rightarrow> (sock, CMSG_COUNTER_INC server cntr_connections_accepted)
      | Some sas \<Rightarrow>
          (case sa of
             None \<Rightarrow> (-1, server)
           | Some sa \<Rightarrow>
               (sock, CMSG_COUNTER_INC (server\<lparr>crypto_sas := Some (AList.update sock sa sas)\<rparr>)
                        cntr_connections_accepted)))"

definition cmsg_server_close_accepted_socket :: "'m cmsg_server \<Rightarrow> int \<Rightarrow> 'm cmsg_server" where
  "cmsg_server_close_accepted_socket server socket =
     server\<lparr>crypto_sas := map_option (AList.delete socket) (crypto_sas server)\<rparr>"

section \<open>Sending\<close>

definition server_send :: "'m server_env \<Rightarrow> 'm cmsg_server \<Rightarrow> int \<Rightarrow> u8 list \<Rightarrow> int \<times> 'm cmsg_server" where
  "server_send env server socket buff =
     (send_ret env (srv_trace server) socket buff, server_log (Ev_send socket buff) server)"

definition cmsg_server_send_wrapper ::
  "'m server_env \<Rightarrow> 'm cmsg_server \<Rightarrow> int \<Rightarrow> u8 list \<Rightarrow> int \<times> 'm cmsg_server" where
  "cmsg_server_send_wrapper env server socket buff =
     (case crypto_sas server of
        None \<Rightarrow> server_send env server socket buff
      | Some sas \<Rightarrow>
          (case map_of sas socket of
             None \<Rightarrow> (-1, server)
           | Some sa \<Rightarrow>
               if \<not> alloc_ok env (srv_trace server) then (-1, server)
               else
                 let (encrypt_length, encrypt_buffer) = cmsg_crypto_encrypt (env_evp env) (Some sa) buff in
                 if encrypt_length < 0 then (-1, server)
                 else
                   let (ret, server) = server_send env server socket encrypt_buffer in
                   (if encrypt_length = ret then int (length buff) else ret, server)))"

definition server_send_header :: "'m server_env \<Rightarrow> 'm cmsg_server \<Rightarrow> int \<Rightarrow> cmsg_header \<Rightarrow> int \<times> 'm cmsg_server" where
  "server_send_header env server socket header =
     (let (ret, server) = cmsg_server_send_wrapper env server socket (header_to_mem (env_endian env) header) in
      if ret < 16 then (CMSG_RET_ERR, CMSG_COUNTER_INC server cntr_send_errors)
      else (CMSG_RET_OK, server))"

definition cmsg_server_echo_req_message_processor ::
  "'m server_env \<Rightarrow> int \<Rightarrow> 'm cmsg_server \<Rightarrow> int \<times> 'm cmsg_server" where
  "cmsg_server_echo_req_message_processor env socket server =
     server_send_header env server socket
       (cmsg_header_create (env_endian env) CMSG_MSG_TYPE_ECHO_REPLY 0 0 CMSG_STATUS_CODE_SUCCESS)"

definition cmsg_server_empty_method_reply_send ::
  "'m server_env \<Rightarrow> int \<Rightarrow> 'm cmsg_server \<Rightarrow> cmsg_status_code \<Rightarrow> 'm cmsg_server" where
  "cmsg_server_empty_method_reply_send env socket server st =
     snd (server_send_header env server socket
       (cmsg_header_create (env_endian env) CMSG_MSG_TYPE_METHOD_REPLY 0 0 st))"

section \<open>Closures\<close>

text \<open>The packet of a reply that carries a message; \<open>None\<close> is a write past the buffer.\<close>

definition closure_rpc_reply ::
  "'m server_env \<Rightarrow> 'm cmsg_server \<Rightarrow> int \<Rightarrow> cmsg_server_request \<Rightarrow> 'm \<Rightarrow> 'm cmsg_server option" where
  "closure_rpc_reply env server socket server_request message =
     (let method_len = of_nat (length (req_method_name_recvd server_request) + 1) :: u32;
          packed = of_nat (packed_size env message) :: u32;
          extra_header_size = CMSG_TLV_SIZE method_len;
          total_header_size = cmsg_header_size + extra_header_size;
          total_message_size = total_header_size + packed;
          header = cmsg_header_create (env_endian env) CMSG_MSG_TYPE_METHOD_REPLY extra_header_size
                     packed CMSG_STATUS_CODE_SUCCESS;
          failed = (\<lambda>s. cmsg_server_empty_method_reply_send env socket s CMSG_STATUS_CODE_SERVICE_FAILED)
      in if \<not> alloc_ok env (srv_trace server)
         then Some (failed (CMSG_COUNTER_INC server cntr_memory_errors))
         else
           Option.bind (cmsg_tlv_method_header_create (env_endian env)
             (replicate (unat total_message_size) 0) header CMSG_TLV_METHOD_TYPE method_len
             (req_method_name_recvd server_request)) (\<lambda>buffer.
           Option.bind (mem_write buffer (unat total_header_size) (pack_msg env message)) (\<lambda>buffer.
             let ret = of_nat (length (pack_msg env message)) :: u32 in
             if ret < packed \<or> packed < ret
             then Some (failed (CMSG_COUNTER_INC server cntr_pack_errors))
             else
               let (send_ret, server) = cmsg_server_send_wrapper env server socket buffer in
               Some (if send_ret < sint total_message_size
                     then CMSG_COUNTER_INC server cntr_send_errors else server))))"

definition cmsg_server_closure_rpc ::
  "'m server_env \<Rightarrow> 'm cmsg_server \<Rightarrow> int \<Rightarrow> cmsg_server_request \<Rightarrow> cmsg_method_processing_reason
   \<Rightarrow> 'm option \<Rightarrow> 'm cmsg_server option" where
  "cmsg_server_closure_rpc env server socket server_request reason message =
     (case reason of
        CMSG_METHOD_INVOKING_FROM_QUEUE \<Rightarrow> Some server
      | CMSG_METHOD_QUEUED \<Rightarrow>
          Some (cmsg_server_empty_method_reply_send env socket server CMSG_STATUS_CODE_SERVICE_QUEUED)
      | CMSG_METHOD_DROPPED \<Rightarrow>
          Some (cmsg_server_empty_method_reply_send env socket server CMSG_STATUS_CODE_SERVICE_DROPPED)
      | CMSG_METHOD_OK_TO_INVOKE \<Rightarrow>
          (case message of
             None \<Rightarrow>
               Some (CMSG_COUNTER_INC
                 (cmsg_server_empty_method_reply_send env socket server CMSG_STATUS_CODE_SERVICE_FAILED)
                 cntr_memory_errors)
           | Some message \<Rightarrow> closure_rpc_reply env server socket server_request message))"

definition server_closure_call ::
  "'m server_env \<Rightarrow> 'm cmsg_server \<Rightarrow> int \<Rightarrow> cmsg_server_request \<Rightarrow> cmsg_method_processing_reason
   \<Rightarrow> 'm option \<Rightarrow> 'm cmsg_server option" where
  "server_closure_call env server socket server_request reason message =
     (case cmsg_server_get_closure_func (srv_transport_type server) of
        Closure_rpc \<Rightarrow> cmsg_server_closure_rpc env server socket server_request reason message
      | Closure_oneway \<Rightarrow> Some server)"

section \<open>Invoking a method\<close>

fun send_responses ::
  "('m option \<Rightarrow> 'm cmsg_server \<Rightarrow> 'm cmsg_server option) \<Rightarrow> 'm option list
   \<Rightarrow> 'm cmsg_server \<Rightarrow> 'm cmsg_server option" where
  "send_responses closure [] server = Some server"
| "send_responses closure (r # rs) server = Option.bind (closure r server) (send_responses closure rs)"

definition cmsg_service_input_valid ::
  "'m server_env \<Rightarrow> nat \<Rightarrow> 'm \<Rightarrow> ('m option \<Rightarrow> 'm cmsg_server \<Rightarrow> 'm cmsg_server option)
   \<Rightarrow> ('m \<Rightarrow> string option) \<Rightarrow> 'm cmsg_server \<Rightarrow> (bool \<times> 'm cmsg_server) option" where
  "cmsg_service_input_valid env method_index input closure validation server =
     (case validation input of
        None \<Rightarrow> Some (True, server)
      | Some err_str \<Rightarrow>
          map_option (Pair False) (closure (ant_response env method_index err_str) server))"

definition invoke_impl_func ::
  "'m server_env \<Rightarrow> nat \<Rightarrow> 'm \<Rightarrow> ('m option \<Rightarrow> 'm cmsg_server \<Rightarrow> 'm cmsg_server option)
   \<Rightarrow> 'm cmsg_server \<Rightarrow> 'm cmsg_server option" where
  "invoke_impl_func env method_index input closure server =
     (if \<not> has_impl env method_index then Some server
      else
        let arg = (if input_n_fields env method_index = 0 then None else Some input);
            (responses, owns) = impl_func env (srv_trace server) method_index arg;
            server = server_log (Ev_impl method_index arg) server;
            server = (if owns then server\<lparr>app_owns_current_msg := True\<rparr> else server)
        in send_responses closure responses server)"

definition cmsg_server_invoke_impl ::
  "'m server_env \<Rightarrow> u32 \<Rightarrow> 'm \<Rightarrow> ('m option \<Rightarrow> 'm cmsg_server \<Rightarrow> 'm cmsg_server option)
   \<Rightarrow> 'm cmsg_server \<Rightarrow> 'm cmsg_server option" where
  "cmsg_server_invoke_impl env method_index input closure server =
     (if \<not> unat method_index < length (svc_methods (srv_service server)) then None
      else
        (case validation_func env (unat method_index) of
           None \<Rightarrow> invoke_impl_func env (unat method_index) input closure server
         | Some validation \<Rightarrow>
             Option.bind (cmsg_service_input_valid env (unat method_index) input closure validation server)
               (\<lambda>(valid, server).
                  if \<not> valid then Some server
                  else invoke_impl_func env (unat method_index) input closure server)))"

text \<open>A message that was invoked is freed unless the application keeps it.\<close>

definition cmsg_server_invoke ::
  "'m server_env \<Rightarrow> int \<Rightarrow> cmsg_server_request \<Rightarrow> 'm cmsg_server \<Rightarrow> 'm
   \<Rightarrow> cmsg_method_processing_reason \<Rightarrow> 'm cmsg_server option" where
  "cmsg_server_invoke env socket server_request server message reason =
     (let method_index = req_method_index server_request;
          closure = (\<lambda>msg s. server_closure_call env s socket server_request reason msg);
          server = (if has_unknown_fields env message
                    then CMSG_COUNTER_INC server cntr_unknown_fields else server);
          invoke =
            Option.bind (cmsg_server_invoke_impl env method_index message closure server) (\<lambda>server.
              let server = (if \<not> (app_owns_current_msg server \<or> app_owns_all_msgs server)
                            then server_log (Ev_free message) server else server)
              in Some (server\<lparr>app_owns_current_msg := False\<rparr>))
      in case reason of
           CMSG_METHOD_OK_TO_INVOKE \<Rightarrow> invoke
         | CMSG_METHOD_INVOKING_FROM_QUEUE \<Rightarrow> invoke
         | CMSG_METHOD_QUEUED \<Rightarrow>
             (let (_, q) = cmsg_receive_queue_push (alloc_ok env (srv_trace server)) (srv_queue server)
                             message method_index;
                  server = server\<lparr>srv_queue := q, max_queue_length := max (max_queue_length server) (length q)\<rparr>
              in map_option (\<lambda>server. CMSG_COUNTER_INC server cntr_messages_queued)
                   (closure (Some message) server))
         | CMSG_METHOD_DROPPED \<Rightarrow>
             map_option (\<lambda>server. server_log (Ev_free message)
                 (CMSG_COUNTER_INC server cntr_messages_dropped))
               (closure (Some message) server))"

text \<open>The loopback client's way in; the name is copied whole into a buffer of 128 bytes.\<close>

definition cmsg_server_invoke_direct ::
  "'m server_env \<Rightarrow> 'm cmsg_server \<Rightarrow> 'm \<Rightarrow> u32 \<Rightarrow> 'm cmsg_server option" where
  "cmsg_server_invoke_direct env server input method_index =
     Option.bind (array_get (svc_methods (srv_service server)) (unat method_index)) (\<lambda>method_name.
       if \<not> length method_name < 128 then None
       else cmsg_server_invoke env (-1)
              \<lparr>req_msg_type = msg_type_code CMSG_MSG_TYPE_METHOD_REQ,
               req_message_length = of_nat (packed_size env input),
               req_method_index = method_index, req_method_name_recvd = method_name\<rparr>
              server input CMSG_METHOD_OK_TO_INVOKE)"


section \<open>Processing a received message\<close>

definition cmsg_server_queue_filter_lookup :: "'m cmsg_server \<Rightarrow> string \<Rightarrow> cmsg_queue_filter_type" where
  "cmsg_server_queue_filter_lookup server meth = cmsg_queue_filter_lookup (queue_filters server) meth"

text \<open>
  The method's descriptor is read before the index is checked, so an index past the end of the
  method table is already a read out of bounds.
\<close>

definition cmsg_server_method_req_message_processor ::
  "'m server_env \<Rightarrow> int \<Rightarrow> cmsg_server_request \<Rightarrow> 'm cmsg_server \<Rightarrow> u8 list
   \<Rightarrow> (int \<times> 'm cmsg_server) option" where
  "cmsg_server_method_req_message_processor env socket server_request server buffer_data =
     (let idx = unat (req_method_index server_request);
          len = unat (req_message_length server_request)
      in Option.bind (array_get (svc_methods (srv_service server)) idx) (\<lambda>method_name.
           if length (svc_methods (srv_service server)) \<le> idx
           then Some (CMSG_RET_ERR, CMSG_COUNTER_INC server cntr_unknown_rpc)
           else if length buffer_data < len then None
           else
             let server = CMSG_COUNTER_INC server cntr_rpc in
             (case unpack_msg env idx (take len buffer_data) of
                None \<Rightarrow> Some (CMSG_RET_ERR, CMSG_COUNTER_INC server cntr_pack_errors)
              | Some message \<Rightarrow>
                  (let invoke = (\<lambda>reason. map_option (Pair CMSG_RET_OK)
                          (cmsg_server_invoke env socket server_request server message reason))
                   in case cmsg_server_queue_filter_lookup server method_name of
                        CMSG_QUEUE_FILTER_ERROR \<Rightarrow>
                          Some (CMSG_RET_ERR,
                                server_log (Ev_free message) (CMSG_COUNTER_INC server cntr_queue_errors))
                      | CMSG_QUEUE_FILTER_DROP \<Rightarrow> invoke CMSG_METHOD_DROPPED
                      | CMSG_QUEUE_FILTER_QUEUE \<Rightarrow> invoke CMSG_METHOD_QUEUED
                      | CMSG_QUEUE_FILTER_PROCESS \<Rightarrow> invoke CMSG_METHOD_OK_TO_INVOKE))))"

definition cmsg_server_message_processor ::
  "'m server_env \<Rightarrow> int \<Rightarrow> cmsg_server_request \<Rightarrow> 'm cmsg_server \<Rightarrow> u8 list
   \<Rightarrow> (int \<times> 'm cmsg_server) option" where
  "cmsg_server_message_processor env socket server_request server buffer_data =
     (case msg_type_of_code (req_msg_type server_request) of
        Some CMSG_MSG_TYPE_METHOD_REQ \<Rightarrow>
          cmsg_server_method_req_message_processor env socket server_request server buffer_data
      | Some CMSG_MSG_TYPE_ECHO_REQ \<Rightarrow>
          Some (cmsg_server_echo_req_message_processor env socket server)
      | Some CMSG_MSG_TYPE_CONN_OPEN \<Rightarrow> Some (CMSG_RET_OK, server)
      | _ \<Rightarrow> Some (CMSG_RET_ERR, CMSG_COUNTER_INC server cntr_protocol_errors))"

definition cmsg_server_recv_process ::
  "'m server_env \<Rightarrow> int \<Rightarrow> u8 list \<Rightarrow> 'm cmsg_server \<Rightarrow> u32 \<Rightarrow> u32 \<Rightarrow> int \<Rightarrow> cmsg_header
   \<Rightarrow> (int \<times> 'm cmsg_server) option" where
  "cmsg_server_recv_process env socket buffer_data server extra_header_size dyn_len nbytes hdr =
     (let server_request = \<lparr>req_msg_type = hdr_msg_type hdr, req_message_length = message_length hdr,
                            req_method_index = UNDEFINED_METHOD, req_method_name_recvd = []\<rparr>
      in case cmsg_tlv_header_process (env_endian env) buffer_data server_request extra_header_size
                (Some (srv_service server)) of
           None \<Rightarrow> None
         | Some (ret, server_request) \<Rightarrow>
             (if ret \<noteq> CMSG_RET_OK then
                Some (ret,
                  if ret = CMSG_RET_METHOD_NOT_FOUND
                  then CMSG_COUNTER_INC
                         (cmsg_server_empty_method_reply_send env socket server
                            CMSG_STATUS_CODE_SERVER_METHOD_NOT_FOUND) cntr_unknown_rpc
                  else server)
              else if message_length hdr = 0 \<or> nbytes = sint dyn_len then
                map_option (\<lambda>(_, server). (ret, server))
                  (cmsg_server_message_processor env socket server_request server
                     (drop (unat extra_header_size) buffer_data))
              else Some (CMSG_RET_ERR, server)))"

text \<open>
  What the transport's receive returned is an argument: the code, the buffer, the converted
  header and the byte count. \<open>None\<close> for the header is one that was never written.
\<close>

definition server_receive_result ::
  "'m server_env \<Rightarrow> 'm cmsg_server \<Rightarrow> int \<Rightarrow> int \<times> u8 list \<times> cmsg_header option \<times> int
   \<Rightarrow> (int \<times> 'm cmsg_server) option" where
  "server_receive_result env server socket received =
     (case received of (ret, recv_buff, processed_header, nbytes) \<Rightarrow>
        if ret < 0 then
          (let server = (if ret \<noteq> CMSG_RET_CLOSED
                         then CMSG_COUNTER_INC server cntr_recv_errors else server)
           in Some (CMSG_RET_ERR, CMSG_COUNTER_INC server cntr_connections_closed))
        else if 0 < nbytes then
          Option.bind processed_header (\<lambda>hdr.
            let extra_header_size = header_length hdr - cmsg_header_size;
                dyn_len = message_length hdr + header_length hdr
            in cmsg_server_recv_process env socket (drop 16 recv_buff) server extra_header_size
                 dyn_len nbytes hdr)
        else Some (ret, server))"

text \<open>
  Receiving on an encrypted connection: peek for the secure header, read the packet, decrypt
  it. The plaintext buffer has the static 512 bytes, or the packet's length when it is longer;
  a write past it is \<open>None\<close>. A header is converted only when enough bytes were decrypted.
\<close>

definition cmsg_server_receive_packet ::
  "'m server_env \<Rightarrow> 's recv_func \<Rightarrow> sa_derive \<Rightarrow> cmsg_crypto_sa \<Rightarrow> bool \<Rightarrow> bool \<Rightarrow> nat \<Rightarrow> nat list \<Rightarrow> 's
   \<Rightarrow> (int \<times> u8 list \<times> int \<times> cmsg_crypto_sa \<times> 's) option" where
  "cmsg_server_receive_packet env recv_wrapper derive sa calloc1 calloc2 timeout clocks t =
     (let static = replicate 512 (0 :: u8) in
      case cmsg_transport_peek_for_header recv_wrapper timeout 8 clocks t of
        None \<Rightarrow> None
      | Some (peek_status, sec_header, t) \<Rightarrow>
          if peek_status \<noteq> CMSG_PEEK_CODE_SUCCESS then
            Some (if peek_status = CMSG_PEEK_CODE_CONNECTION_CLOSED \<or>
                     peek_status = CMSG_PEEK_CODE_CONNECTION_RESET
                  then CMSG_RET_CLOSED else CMSG_RET_ERR, static, 0, sa, t)
          else
            Option.bind (cmsg_crypto_parse_header sec_header) (\<lambda>parsed.
              let msg_length = word_of_int parsed :: u32 in
              if msg_length = - 1 then Some (CMSG_RET_ERR, static, 0, sa, t)
              else if \<not> msg_length < 512 \<and> \<not> calloc1 then Some (CMSG_RET_ERR, static, 0, sa, t)
              else
                let (r, t) = recv_wrapper t msg_length False;
                    inbuf = recv_bytes r
                in if word_of_int (recv_nbytes r) \<noteq> msg_length then Some (CMSG_RET_ERR, static, 0, sa, t)
                   else if 512 < msg_length \<and> \<not> calloc2 then Some (CMSG_RET_ERR, [], 0, sa, t)
                   else
                     Option.bind (cmsg_crypto_decrypt (env_evp env) derive (Some sa) inbuf)
                       (\<lambda>(decoded_bytes, sa', plain).
                          map_option (\<lambda>buf. (CMSG_RET_OK, buf, decoded_bytes,
                              (case sa' of None \<Rightarrow> sa | Some sa' \<Rightarrow> sa'), t))
                            (mem_write (if 512 < msg_length then replicate (unat msg_length) 0 else static)
                               0 plain))))"

text \<open>
  \<open>decoded_bytes\<close> starts at 0 in the caller. The failed header makes the call fail; a short
  plaintext leaves the header unwritten and the call succeeds.
\<close>

definition cmsg_server_receive_encrypted ::
  "'m server_env \<Rightarrow> 's recv_func \<Rightarrow> sa_derive \<Rightarrow> bool \<Rightarrow> bool \<Rightarrow> nat \<Rightarrow> nat list \<Rightarrow> 'm cmsg_server
   \<Rightarrow> int \<Rightarrow> 's \<Rightarrow> ((int \<times> u8 list \<times> cmsg_header option \<times> int) \<times> 'm cmsg_server \<times> 's) option" where
  "cmsg_server_receive_encrypted env recv_wrapper derive calloc1 calloc2 timeout clocks server socket t =
     (case map_of (the (crypto_sas server)) socket of
        None \<Rightarrow> Some ((CMSG_RET_ERR, replicate 512 0, None, 0), server, t)
      | Some sa \<Rightarrow>
          Option.bind (cmsg_server_receive_packet env recv_wrapper derive sa calloc1 calloc2 timeout clocks t)
            (\<lambda>(ret, decoded_data, decoded_bytes, sa', t).
               let server = server\<lparr>crypto_sas := map_option (AList.update socket sa') (crypto_sas server)\<rparr>
               in if 16 \<le> decoded_bytes then
                    (let (hret, hdr) = cmsg_header_process (env_endian env)
                           (header_of_mem (env_endian env) decoded_data)
                     in Some ((if hret \<noteq> CMSG_RET_OK then CMSG_RET_ERR else ret,
                               decoded_data, Some hdr, decoded_bytes), server, t))
                  else Some ((ret, decoded_data, None, decoded_bytes), server, t)))"

definition cmsg_server_receive ::
  "'m server_env \<Rightarrow> 's recv_func \<Rightarrow> sa_derive \<Rightarrow> bool \<Rightarrow> bool \<Rightarrow> nat \<Rightarrow> nat list \<Rightarrow> 'm cmsg_server
   \<Rightarrow> int \<Rightarrow> 's \<Rightarrow> (int \<times> 'm cmsg_server \<times> 's) option" where
  "cmsg_server_receive env recv_wrapper derive calloc1 calloc2 timeout clocks server socket t =
     (if cmsg_server_crypto_enabled server then
        Option.bind (cmsg_server_receive_encrypted env recv_wrapper derive calloc1 calloc2
                       timeout clocks server socket t)
          (\<lambda>(received, server, t).
             map_option (\<lambda>(ret, server). (ret, server, t)) (server_receive_result env server socket received))
      else
        Option.bind (cmsg_transport_server_recv (env_endian env) recv_wrapper calloc1 timeout clocks
                       \<lparr>sr_buffer = replicate 512 0, sr_header = \<lparr>hdr_msg_type = 0, header_length = 0, message_length = 0, hdr_status_code = 0\<rparr>, sr_nbytes = 0\<rparr> t)
          (\<lambda>(ret, out, t).
             map_option (\<lambda>(ret, server). (ret, server, t))
               (server_receive_result env server socket
                  (ret, sr_buffer out, Some (sr_header out), sr_nbytes out))))"

text \<open>
  The forwarding server reads a message that the application hands it; its transport has no
  reply path, and the read goes to the end of the message at once.
\<close>

definition cmsg_forwarding_server_process ::
  "'m server_env \<Rightarrow> sa_derive \<Rightarrow> errno \<Rightarrow> bool \<Rightarrow> bool \<Rightarrow> nat \<Rightarrow> nat list \<Rightarrow> 'm cmsg_server \<Rightarrow> u8 list
   \<Rightarrow> 'm cmsg_server option" where
  "cmsg_forwarding_server_process env derive err calloc1 calloc2 timeout clocks server msg =
     map_option (\<lambda>(ret, server, t). server)
       (cmsg_server_receive env (cmsg_transport_forwarding_recv_wrapper err) derive calloc1 calloc2
          timeout clocks server 1 \<lparr>fw_msg = msg, fw_pos = 0\<rparr>)"

section \<open>The queue state machine\<close>

text \<open>The queue handed to an invocation is the one the loop just popped from.\<close>

definition invoke_from_queue ::
  "'m server_env \<Rightarrow> 'm receive_queue_entry \<Rightarrow> 'm cmsg_server option \<times> 'm receive_queue
   \<Rightarrow> 'm cmsg_server option \<times> 'm receive_queue" where
  "invoke_from_queue env entry st =
     (case Option.bind (fst st) (\<lambda>server.
             cmsg_server_invoke env (-1)
               \<lparr>req_msg_type = 0, req_message_length = 0, req_method_index = rq_method_index entry,
                req_method_name_recvd = []\<rparr>
               (server\<lparr>srv_queue := snd st\<rparr>) (rq_buffer entry) CMSG_METHOD_INVOKING_FROM_QUEUE) of
        None \<Rightarrow> (None, snd st)
      | Some server \<Rightarrow> (Some (server\<lparr>srv_queue := []\<rparr>), srv_queue server))"

definition server_process_some :: "'m server_env \<Rightarrow> 'm cmsg_server \<Rightarrow> nat \<Rightarrow> (nat \<times> 'm cmsg_server) option" where
  "server_process_some env server n =
     (case cmsg_receive_queue_process_some (invoke_from_queue env) (Some (server\<lparr>srv_queue := []\<rparr>), srv_queue server) n of
        (processed, server', q) \<Rightarrow> map_option (\<lambda>s. (processed, s\<lparr>srv_queue := q\<rparr>)) server')"

definition server_process_all :: "'m server_env \<Rightarrow> 'm cmsg_server \<Rightarrow> (nat \<times> 'm cmsg_server) option" where
  "server_process_all env server =
     Option.bind (cmsg_receive_queue_process_all (invoke_from_queue env)
        (Some (server\<lparr>srv_queue := []\<rparr>), srv_queue server))
       (\<lambda>(processed, server', q). map_option (\<lambda>s. (processed, s\<lparr>srv_queue := q\<rparr>)) server')"

definition cmsg_server_queue_get_length :: "'m cmsg_server \<Rightarrow> nat" where
  "cmsg_server_queue_get_length server = length (srv_queue server)"

definition queue_process_step :: "'m server_env \<Rightarrow> 'm cmsg_server \<Rightarrow> (nat \<times> 'm cmsg_server) option" where
  "queue_process_step env server =
     (if 0 \<le> queue_process_number server
      then server_process_some env server (nat (queue_process_number server))
      else if queue_process_number server = -1 then server_process_all env server
      else Some (0, server))"

definition cmsg_server_queue_process :: "'m server_env \<Rightarrow> 'm cmsg_server \<Rightarrow> (nat \<times> 'm cmsg_server) option" where
  "cmsg_server_queue_process env server =
     map_option (\<lambda>(processed, server). (processed, server\<lparr>queueing_state_last := queueing_state server\<rparr>))
       (case queueing_state server of
          CMSG_QUEUE_STATE_TO_DISABLED \<Rightarrow>
            Option.bind
              (if queue_in_process server then Some server
               else map_option (\<lambda>tbl. server\<lparr>queue_in_process := True, queue_filters := tbl\<rparr>)
                      (cmsg_queue_filter_set_all (queue_filters server) (srv_service server)
                         CMSG_QUEUE_FILTER_QUEUE))
              (\<lambda>server. Option.bind (queue_process_step env server) (\<lambda>(processed, server).
                 if cmsg_server_queue_get_length server = 0 then
                   map_option (\<lambda>tbl. (processed,
                       server\<lparr>queue_process_number := 0, queue_in_process := False,
                              queue_filters := tbl, queueing_state := CMSG_QUEUE_STATE_DISABLED\<rparr>))
                     (cmsg_queue_filter_clear_all (queue_filters server) (srv_service server))
                 else Some (processed, server)))
        | CMSG_QUEUE_STATE_ENABLED \<Rightarrow> queue_process_step env server
        | CMSG_QUEUE_STATE_DISABLED \<Rightarrow> Some (0, server))"

definition cmsg_server_queue_process_some ::
  "'m server_env \<Rightarrow> 'm cmsg_server \<Rightarrow> int \<Rightarrow> (nat \<times> 'm cmsg_server) option" where
  "cmsg_server_queue_process_some env server number_to_process =
     cmsg_server_queue_process env (server\<lparr>queue_process_number := number_to_process\<rparr>)"

definition cmsg_server_queue_process_all :: "'m server_env \<Rightarrow> 'm cmsg_server \<Rightarrow> (nat \<times> 'm cmsg_server) option" where
  "cmsg_server_queue_process_all env server = server_process_all env server"

definition cmsg_server_queue_filter_set_all ::
  "'m cmsg_server \<Rightarrow> cmsg_queue_filter_type \<Rightarrow> 'm cmsg_server option" where
  "cmsg_server_queue_filter_set_all server filter_type =
     (let server =
        (case filter_type of
           CMSG_QUEUE_FILTER_PROCESS \<Rightarrow> server\<lparr>queueing_state := CMSG_QUEUE_STATE_TO_DISABLED\<rparr>
         | CMSG_QUEUE_FILTER_DROP \<Rightarrow> server\<lparr>queueing_state := CMSG_QUEUE_STATE_TO_DISABLED\<rparr>
         | CMSG_QUEUE_FILTER_QUEUE \<Rightarrow> server\<lparr>queueing_state := CMSG_QUEUE_STATE_ENABLED\<rparr>
         | CMSG_QUEUE_FILTER_ERROR \<Rightarrow> server)
      in map_option (\<lambda>tbl. server\<lparr>queue_filters := tbl\<rparr>)
           (cmsg_queue_filter_set_all (queue_filters server) (srv_service server) filter_type))"

definition cmsg_server_queue_filter_clear_all :: "'m cmsg_server \<Rightarrow> 'm cmsg_server option" where
  "cmsg_server_queue_filter_clear_all server =
     map_option (\<lambda>tbl. server\<lparr>queueing_state := CMSG_QUEUE_STATE_TO_DISABLED, queue_filters := tbl\<rparr>)
       (cmsg_queue_filter_clear_all (queue_filters server) (srv_service server))"

definition cmsg_server_queue_filter_set ::
  "'m cmsg_server \<Rightarrow> string \<Rightarrow> cmsg_queue_filter_type \<Rightarrow> (int \<times> 'm cmsg_server) option" where
  "cmsg_server_queue_filter_set server meth filter_type =
     (let (ret, tbl) = cmsg_queue_filter_set (queue_filters server) meth filter_type in
      map_option (\<lambda>st. (ret, server\<lparr>queue_filters := tbl, queueing_state := st\<rparr>))
        (cmsg_queue_filter_get_type tbl (srv_service server)))"

definition cmsg_server_queue_filter_clear ::
  "'m cmsg_server \<Rightarrow> string \<Rightarrow> (int \<times> 'm cmsg_server) option" where
  "cmsg_server_queue_filter_clear server meth =
     (let (ret, tbl) = cmsg_queue_filter_clear (queue_filters server) meth in
      map_option (\<lambda>st. (ret, server\<lparr>queue_filters := tbl, queueing_state := st\<rparr>))
        (cmsg_queue_filter_get_type tbl (srv_service server)))"

definition cmsg_server_drop_all :: "'m cmsg_server \<Rightarrow> 'm cmsg_server option" where
  "cmsg_server_drop_all server = cmsg_server_queue_filter_set_all server CMSG_QUEUE_FILTER_DROP"

definition cmsg_server_queue_enable :: "'m cmsg_server \<Rightarrow> 'm cmsg_server option" where
  "cmsg_server_queue_enable server = cmsg_server_queue_filter_set_all server CMSG_QUEUE_FILTER_QUEUE"

text \<open>
  A request from another thread stores the number to process, then polls \<open>queue_in_process\<close>
  until it reads false. \<open>polls\<close> are the states the server has at its polls; \<open>None\<close> when it is
  still waiting after the last of them.
\<close>

primrec request_wait :: "'m cmsg_server list \<Rightarrow> int option" where
  "request_wait [] = None"
| "request_wait (server # polls) = (if queue_in_process server then request_wait polls else Some CMSG_RET_OK)"

definition cmsg_server_queue_request_process_some :: "'m cmsg_server \<Rightarrow> u32 \<Rightarrow> 'm cmsg_server" where
  "cmsg_server_queue_request_process_some server num_to_process =
     server\<lparr>queue_process_number := sint num_to_process\<rparr>"

definition cmsg_server_queue_request_process_all :: "'m cmsg_server \<Rightarrow> 'm cmsg_server" where
  "cmsg_server_queue_request_process_all server = server\<lparr>queue_process_number := -1\<rparr>"

definition cmsg_server_queue_disable :: "'m cmsg_server \<Rightarrow> 'm cmsg_server option" where
  "cmsg_server_queue_disable server =
     map_option cmsg_server_queue_request_process_all
       (cmsg_server_queue_filter_set_all server CMSG_QUEUE_FILTER_PROCESS)"

section \<open>Message ownership\<close>

definition cmsg_server_app_owns_current_msg_set :: "'m cmsg_server \<Rightarrow> 'm cmsg_server" where
  "cmsg_server_app_owns_current_msg_set server = server\<lparr>app_owns_current_msg := True\<rparr>"

definition cmsg_server_app_owns_all_msgs_set :: "'m cmsg_server \<Rightarrow> bool \<Rightarrow> 'm cmsg_server" where
  "cmsg_server_app_owns_all_msgs_set server app_is_owner = server\<lparr>app_owns_all_msgs := app_is_owner\<rparr>"

section \<open>Which packets are sent\<close>

text \<open>The packets on the wire, in order.\<close>

fun sent_packets :: "'m server_event list \<Rightarrow> (int \<times> u8 list) list" where
  "sent_packets [] = []"
| "sent_packets (Ev_send sock bs # evs) = (sock, bs) # sent_packets evs"
| "sent_packets (_ # evs) = sent_packets evs"

fun impl_calls :: "'m server_event list \<Rightarrow> (nat \<times> 'm option) list" where
  "impl_calls [] = []"
| "impl_calls (Ev_impl i m # evs) = (i, m) # impl_calls evs"
| "impl_calls (_ # evs) = impl_calls evs"

fun freed :: "'m server_event list \<Rightarrow> 'm list" where
  "freed [] = []"
| "freed (Ev_free m # evs) = m # freed evs"
| "freed (_ # evs) = freed evs"

lemma sent_packets_append [simp]: "sent_packets (a @ b) = sent_packets a @ sent_packets b"
  by (induction a rule: sent_packets.induct) simp_all

lemma impl_calls_append [simp]: "impl_calls (a @ b) = impl_calls a @ impl_calls b"
  by (induction a rule: impl_calls.induct) simp_all

lemma freed_append [simp]: "freed (a @ b) = freed a @ freed b"
  by (induction a rule: freed.induct) simp_all

text \<open>Only the trace has grown.\<close>

definition trace_ext :: "'m server_event list \<Rightarrow> 'm cmsg_server \<Rightarrow> 'm cmsg_server" where
  "trace_ext evs s = s\<lparr>srv_trace := srv_trace s @ evs\<rparr>"

lemma trace_ext_simps [simp]:
  "srv_service (trace_ext evs s) = srv_service s"
  "srv_transport_type (trace_ext evs s) = srv_transport_type s"
  "srv_queue (trace_ext evs s) = srv_queue s"
  "max_queue_length (trace_ext evs s) = max_queue_length s"
  "queueing_state (trace_ext evs s) = queueing_state s"
  "queueing_state_last (trace_ext evs s) = queueing_state_last s"
  "queue_in_process (trace_ext evs s) = queue_in_process s"
  "queue_process_number (trace_ext evs s) = queue_process_number s"
  "queue_filters (trace_ext evs s) = queue_filters s"
  "app_owns_current_msg (trace_ext evs s) = app_owns_current_msg s"
  "app_owns_all_msgs (trace_ext evs s) = app_owns_all_msgs s"
  "crypto_sas (trace_ext evs s) = crypto_sas s"
  "srv_trace (trace_ext evs s) = srv_trace s @ evs"
  by (simp_all add: trace_ext_def)

lemma trace_ext_trace_ext [simp]: "trace_ext b (trace_ext a s) = trace_ext (a @ b) s"
  by (simp add: trace_ext_def)

lemma server_log_ext: "server_log ev = trace_ext [ev]"
  by (simp add: fun_eq_iff server_log_def trace_ext_def)

text \<open>Operations that only add to the trace.\<close>

definition extends :: "'m cmsg_server \<Rightarrow> 'm cmsg_server \<Rightarrow> bool" where
  "extends s s' \<longleftrightarrow> (\<exists>evs. s' = trace_ext evs s)"

lemma extends_refl [simp, intro]: "extends s s"
  unfolding extends_def by (rule exI [of _ "[]"]) (simp add: trace_ext_def)

lemma extends_trans [trans]: "extends a b \<Longrightarrow> extends b c \<Longrightarrow> extends a c"
  by (auto simp: extends_def)

lemma extends_ext [simp, intro]: "extends s (trace_ext evs s)"
  by (auto simp: extends_def)

lemma extends_log [simp, intro]: "extends s (server_log ev s)"
  by (simp add: server_log_ext)

lemma extends_ext_right [simp]: "extends s s' \<Longrightarrow> extends s (trace_ext evs s')"
  using extends_trans by blast

lemma extends_send: "extends s (snd (server_send env s sock bs))"
  by (simp add: server_send_def)

lemma extends_wrapper: "extends s (snd (cmsg_server_send_wrapper env s sock bs))"
  by (auto simp: cmsg_server_send_wrapper_def server_send_def Let_def split: option.split prod.split)

lemma extends_wrapper_pair: "cmsg_server_send_wrapper env s sock bs = (r, s') \<Longrightarrow> extends s s'"
  using extends_wrapper [of s env sock bs] by simp

lemma extends_send_header: "extends s (snd (server_send_header env s sock h))"
  using extends_wrapper [of s env sock "header_to_mem (env_endian env) h"]
  by (auto simp: server_send_header_def server_log_ext split: prod.split)

lemma extends_empty_reply [simp]: "extends s (cmsg_server_empty_method_reply_send env sock s st)"
  by (simp add: cmsg_server_empty_method_reply_send_def extends_send_header)

lemma extends_closure_reply:
  assumes "closure_rpc_reply env s sock req m = Some s'"
  shows "extends s s'"
proof -
  have failed: "extends s (cmsg_server_empty_method_reply_send env sock (CMSG_COUNTER_INC s c) st)" for c st
    using extends_trans [OF extends_log extends_empty_reply] .
  show ?thesis
    using assms failed
    by (auto simp: closure_rpc_reply_def Let_def bind_eq_Some_conv server_log_ext
        split: if_splits prod.splits dest!: extends_wrapper_pair)
qed

lemma extends_closure:
  assumes "server_closure_call env s sock req reason m = Some s'"
  shows "extends s s'"
  using assms extends_closure_reply
  by (fastforce simp: server_closure_call_def cmsg_server_closure_rpc_def server_log_ext
      split: server_closure.splits cmsg_method_processing_reason.splits option.splits)

lemma extends_responses:
  assumes "send_responses closure rs s = Some s'"
    and "\<And>r s s'. closure r s = Some s' \<Longrightarrow> extends s s'"
  shows "extends s s'"
  using assms(1)
proof (induction rs arbitrary: s)
  case (Cons r rs)
  then obtain s1 where "closure r s = Some s1" "send_responses closure rs s1 = Some s'"
    by (auto simp: bind_eq_Some_conv)
  with Cons.IH assms(2) show ?case using extends_trans by blast
qed simp

end
