(* ===== verification/Packets.thy ===== *)
theory Packets
  imports Transport
begin

text \<open>
  The packet of a call or a reply as one byte string, how the code's writes build it, and what
  the receiving side's readers make of it.
\<close>

section \<open>Building\<close>

definition method_packet ::
  "endian \<Rightarrow> cmsg_msg_type \<Rightarrow> cmsg_status_code \<Rightarrow> string \<Rightarrow> u8 list \<Rightarrow> u8 list" where
  "method_packet e type st nm body =
     (let len = of_nat (Suc (length nm)) :: u32 in
      header_to_mem e (cmsg_header_create e type (CMSG_TLV_SIZE len) (of_nat (length body)) st)
      @ be_bytes CMSG_TLV_METHOD_TYPE @ be_bytes len @ bytes_of_string nm @ [0] @ body)"

lemma length_method_packet [simp]:
  "length (method_packet e type st nm body) = 25 + length nm + length body"
  by (simp add: method_packet_def Let_def bytes_of_string_def)

lemma mem_write_append:
  "length xs = off \<Longrightarrow> length ys = length bs \<Longrightarrow> mem_write (xs @ ys) off bs = Some (xs @ bs)"
  by (simp add: mem_write_def)

lemma packet_sizes:
  fixes nm :: string and n :: nat
  assumes "length nm < 128" "n < 2000000000"
  defines "len \<equiv> of_nat (Suc (length nm)) :: u32"
  shows "unat len = Suc (length nm)"
    "unat (CMSG_TLV_SIZE len) = 9 + length nm"
    "unat (cmsg_header_size + CMSG_TLV_SIZE len) = 25 + length nm"
    "unat (cmsg_header_size + CMSG_TLV_SIZE len + of_nat n) = 25 + length nm + n"
    "sint (cmsg_header_size + CMSG_TLV_SIZE len + of_nat n) = int (25 + length nm + n)"
    "unat (of_nat n :: u32) = n"
proof -
  show 1: "unat len = Suc (length nm)"
    using assms(1) unfolding len_def by (simp only: unat_of_nat) simp
  then have "len \<le> 128" using assms(1) by (simp add: word_le_nat_alt)
  then show 2: "unat (CMSG_TLV_SIZE len) = 9 + length nm" by (simp add: unat_CMSG_TLV_SIZE 1)
  then show 3: "unat (cmsg_header_size + CMSG_TLV_SIZE len) = 25 + length nm"
    using assms(1) by (subst unat_add_no_wrap) simp_all
  show 4: "unat (of_nat n :: u32) = n"
    using assms(2) by (simp only: unat_of_nat) simp
  show 5: "unat (cmsg_header_size + CMSG_TLV_SIZE len + of_nat n) = 25 + length nm + n"
    using assms(1,2) 3 4 by (subst unat_add_no_wrap) simp_all
  have w: "cmsg_header_size + CMSG_TLV_SIZE len + of_nat n = of_nat (25 + length nm + n)"
    unfolding 5 [symmetric] by simp
  show "sint (cmsg_header_size + CMSG_TLV_SIZE len + of_nat n) = int (25 + length nm + n)"
    using assms(1,2) unfolding w by (simp only: signed_of_nat) (simp add: signed_take_bit_int_eq_self)
qed

text \<open>Header, TLV and body written into a zeroed buffer of the right size.\<close>

lemma packet_built:
  fixes nm :: string
  assumes "length nm < 128" "n < 2000000000" "length body = n"
  shows "\<exists>buf. cmsg_tlv_method_header_create e (replicate (25 + length nm + n) 0)
      (cmsg_header_create e type (CMSG_TLV_SIZE (of_nat (Suc (length nm)))) (of_nat n) st)
      CMSG_TLV_METHOD_TYPE (of_nat (Suc (length nm))) nm = Some buf \<and>
    mem_write buf (25 + length nm) body = Some (method_packet e type st nm body)"
proof -
  let ?len = "of_nat (Suc (length nm)) :: u32"
  let ?h = "cmsg_header_create e type (CMSG_TLV_SIZE ?len) (of_nat n) st"
  let ?head = "header_to_mem e ?h @ be_bytes CMSG_TLV_METHOD_TYPE @ be_bytes ?len @ bytes_of_string nm @ [0]"
  have "cmsg_tlv_method_header_create e (replicate (25 + length nm + n) 0) ?h
      CMSG_TLV_METHOD_TYPE ?len nm = Some (?head @ replicate n 0)"
    using packet_sizes(1) [OF assms(1,2)]
    by (subst cmsg_tlv_method_header_create_layout) (simp_all add: strncpy_bytes_fits)
  moreover have "mem_write (?head @ replicate n 0) (25 + length nm) body = Some (?head @ body)"
    by (rule mem_write_append) (simp_all add: bytes_of_string_def assms(3))
  moreover have "?head @ body = method_packet e type st nm body"
    by (simp add: method_packet_def Let_def assms(3))
  ultimately show ?thesis by metis
qed

section \<open>Reading\<close>

text \<open>The converted header of such a packet.\<close>

definition packet_header :: "cmsg_msg_type \<Rightarrow> cmsg_status_code \<Rightarrow> string \<Rightarrow> u8 list \<Rightarrow> cmsg_header" where
  "packet_header type st nm body =
     \<lparr>hdr_msg_type = msg_type_code type,
      header_length = cmsg_header_size + CMSG_TLV_SIZE (of_nat (Suc (length nm))),
      message_length = of_nat (length body), hdr_status_code = status_code st\<rparr>"

lemma packet_split:
  obtains h where "method_packet e type st nm body = header_to_mem e h
      @ be_bytes CMSG_TLV_METHOD_TYPE @ be_bytes (of_nat (Suc (length nm))) @ bytes_of_string nm @ [0] @ body"
    "cmsg_header_process e h = (CMSG_RET_OK, packet_header type st nm body)"
  by (rule that [of "cmsg_header_create e type (CMSG_TLV_SIZE (of_nat (Suc (length nm))))
        (of_nat (length body)) st"])
    (simp_all add: method_packet_def Let_def cmsg_header_process_create packet_header_def)

lemma packet_header_lengths:
  assumes "length nm < 128" "length body < 2000000000"
  shows "unat (header_length (packet_header type st nm body)) = 25 + length nm"
    "unat (message_length (packet_header type st nm body)) = length body"
    "unat (message_length (packet_header type st nm body) + header_length (packet_header type st nm body))
       = 25 + length nm + length body"
    "unat (header_length (packet_header type st nm body) - cmsg_header_size) = 9 + length nm"
    "header_length (packet_header type st nm body) - cmsg_header_size = CMSG_TLV_SIZE (of_nat (Suc (length nm)))"
  using packet_sizes [OF assms] by (simp_all add: packet_header_def add.commute)

text \<open>The TLV of such a packet names its method.\<close>

lemma packet_tlv:
  assumes "method_indices_by_name d = Some idx" "wf_method_table (svc_methods d) idx"
    and "i < length (svc_methods d)" "svc_methods d ! i = nm" "is_cstring nm" "nm \<noteq> []" "length nm < 128"
  shows "cmsg_tlv_header_process e
      (be_bytes CMSG_TLV_METHOD_TYPE @ be_bytes (of_nat (Suc (length nm))) @ bytes_of_string nm @ [0] @ rest)
      req (CMSG_TLV_SIZE (of_nat (Suc (length nm)))) (Some d) =
    Some (CMSG_RET_OK, req\<lparr>req_method_index := of_nat i, req_method_name_recvd := nm\<rparr>)"
proof -
  have "unat (of_nat (Suc (length nm)) :: u32) = Suc (length nm)"
    using assms(7) by (simp only: unat_of_nat) simp
  then show ?thesis
    using cmsg_tlv_header_process_sent [OF assms(1,2,4,3,5,6) refl assms(7), of e rest req]
    by (simp add: strncpy_bytes_fits)
qed

lemma packet_tlv_unknown:
  assumes "wf_descriptor d" "nm \<notin> set (svc_methods d)" "is_cstring nm" "nm \<noteq> []" "length nm < 128"
  shows "cmsg_tlv_header_process e
      (be_bytes CMSG_TLV_METHOD_TYPE @ be_bytes (of_nat (Suc (length nm))) @ bytes_of_string nm @ [0] @ rest)
      req (CMSG_TLV_SIZE (of_nat (Suc (length nm)))) (Some d) =
    Some (CMSG_RET_METHOD_NOT_FOUND, req\<lparr>req_method_index := UNDEFINED_METHOD\<rparr>)"
proof -
  have "unat (of_nat (Suc (length nm)) :: u32) = Suc (length nm)"
    using assms(5) by (simp only: unat_of_nat) simp
  then show ?thesis
    using cmsg_tlv_header_process_unknown [OF assms(1-4) refl assms(5), of e rest req]
    by (simp add: strncpy_bytes_fits)
qed

end
