(* ===== verification/ServerProps.thy ===== *)
theory ServerProps
  imports Server Packets
begin

text \<open>
  What the server guarantees: its replies, the well-formedness of its state under every
  operation, the absence of undefined behaviour on well-formed packets, and the queue.
\<close>

section \<open>Assumptions on the generated code\<close>

text \<open>
  The documented contract of protobuf-c: packing a message fills exactly its packed size. The
  sizes stay below the range of the \<open>int\<close> the code compares the sent length with.
\<close>

definition env_ok :: "'m server_env \<Rightarrow> bool" where
  "env_ok env \<longleftrightarrow> (\<forall>m. length (pack_msg env m) = packed_size env m \<and> packed_size env m < 2000000000)"

text \<open>The packet of a reply.\<close>

definition reply_packet :: "endian \<Rightarrow> string \<Rightarrow> u8 list \<Rightarrow> u8 list" where
  "reply_packet e nm body =
     method_packet e CMSG_MSG_TYPE_METHOD_REPLY CMSG_STATUS_CODE_SUCCESS nm body"

lemma closure_rpc_reply_sends:
  assumes "env_ok env" "length (req_method_name_recvd req) < 128" "alloc_ok env (srv_trace s)"
    and pkt: "pkt = reply_packet (env_endian env) (req_method_name_recvd req) (pack_msg env m)"
  shows "closure_rpc_reply env s sock req m =
    (let (ret, s') = cmsg_server_send_wrapper env s sock pkt in
     Some (if ret < int (length pkt) then CMSG_COUNTER_INC s' cntr_send_errors else s'))"
proof -
  let ?nm = "req_method_name_recvd req"
  have n: "length (pack_msg env m) = packed_size env m" "packed_size env m < 2000000000"
    using assms(1) by (auto simp: env_ok_def)
  note sz = packet_sizes [OF assms(2) n(2)]
  obtain buf where "cmsg_tlv_method_header_create (env_endian env)
      (replicate (25 + length ?nm + packed_size env m) 0)
      (cmsg_header_create (env_endian env) CMSG_MSG_TYPE_METHOD_REPLY
        (CMSG_TLV_SIZE (of_nat (Suc (length ?nm)))) (of_nat (packed_size env m)) CMSG_STATUS_CODE_SUCCESS)
      CMSG_TLV_METHOD_TYPE (of_nat (Suc (length ?nm))) ?nm = Some buf"
    "mem_write buf (25 + length ?nm) (pack_msg env m) = Some pkt"
    unfolding pkt reply_packet_def using packet_built [OF assms(2) n(2) n(1)] by blast
  moreover have "length pkt = 25 + length ?nm + packed_size env m"
    by (simp add: pkt reply_packet_def n)
  ultimately show ?thesis
    using sz assms(3) by (simp add: closure_rpc_reply_def Let_def n split: prod.split)
qed

section \<open>Invoking never goes wrong\<close>

lemma closure_rpc_reply_total:
  assumes "env_ok env" "length (req_method_name_recvd req) < 128"
  shows "\<exists>s'. closure_rpc_reply env s sock req m = Some s'"
proof (cases "alloc_ok env (srv_trace s)")
  case True
  then show ?thesis
    using closure_rpc_reply_sends [OF assms True refl] by (simp split: prod.split)
qed (simp add: closure_rpc_reply_def Let_def)

lemma server_closure_total:
  assumes "env_ok env" "length (req_method_name_recvd req) < 128"
  shows "\<exists>s'. server_closure_call env s sock req reason m = Some s'"
  using closure_rpc_reply_total [OF assms]
  by (auto simp: server_closure_call_def cmsg_server_closure_rpc_def
      split: server_closure.split cmsg_method_processing_reason.split option.split)

lemma send_responses_total:
  assumes "\<And>r s. \<exists>s'. closure r s = Some s'"
  shows "\<exists>s'. send_responses closure rs s = Some s'"
proof (induction rs arbitrary: s)
  case (Cons r rs)
  obtain s1 where "closure r s = Some s1" using assms by blast
  with Cons show ?case by simp
qed simp

lemma trace_ext_owns:
  "trace_ext evs s\<lparr>app_owns_current_msg := b\<rparr> = trace_ext evs (s\<lparr>app_owns_current_msg := b\<rparr>)"
  by (simp add: trace_ext_def)

lemma invoke_impl_func_frame:
  assumes closure: "\<And>r s s'. closure r s = Some s' \<Longrightarrow> extends s s'"
    and run: "invoke_impl_func env i m closure s = Some s'"
  shows "\<exists>evs b. s' = trace_ext evs (s\<lparr>app_owns_current_msg := b\<rparr>)"
proof (cases "has_impl env i")
  case True
  let ?arg = "if input_n_fields env i = 0 then None else Some m"
  obtain rs owns where f: "impl_func env (srv_trace s) i ?arg = (rs, owns)" by fastforce
  define b where "b = (owns \<or> app_owns_current_msg s)"
  have "(if owns then server_log (Ev_impl i ?arg) s\<lparr>app_owns_current_msg := True\<rparr>
         else server_log (Ev_impl i ?arg) s) =
        trace_ext [Ev_impl i ?arg] (s\<lparr>app_owns_current_msg := b\<rparr>)"
    by (auto simp: b_def server_log_def trace_ext_def)
  with run True f have "send_responses closure rs
      (trace_ext [Ev_impl i ?arg] (s\<lparr>app_owns_current_msg := b\<rparr>)) = Some s'"
    by (simp add: invoke_impl_func_def Let_def)
  then have "extends (trace_ext [Ev_impl i ?arg] (s\<lparr>app_owns_current_msg := b\<rparr>)) s'"
    by (rule extends_responses) (rule closure)
  then show ?thesis by (auto simp: extends_def)
next
  case False
  with run have "s' = trace_ext [] (s\<lparr>app_owns_current_msg := app_owns_current_msg s\<rparr>)"
    by (simp add: invoke_impl_func_def trace_ext_def)
  then show ?thesis by blast
qed

lemma invoke_impl_frame:
  assumes closure: "\<And>r s s'. closure r s = Some s' \<Longrightarrow> extends s s'"
    and run: "cmsg_server_invoke_impl env idx m closure s = Some s'"
  shows "\<exists>evs b. s' = trace_ext evs (s\<lparr>app_owns_current_msg := b\<rparr>)"
proof -
  have self: "\<exists>b. trace_ext evs s = trace_ext evs (s\<lparr>app_owns_current_msg := b\<rparr>)" for evs
    by (rule exI [of _ "app_owns_current_msg s"]) (simp add: trace_ext_def)
  have impl: "\<exists>evs b. s' = trace_ext evs (s\<lparr>app_owns_current_msg := b\<rparr>)"
    if "invoke_impl_func env (unat idx) m closure (trace_ext evs s) = Some s'" for evs
  proof -
    have "\<exists>evs' b. s' = trace_ext evs' (trace_ext evs s\<lparr>app_owns_current_msg := b\<rparr>)"
      by (rule invoke_impl_func_frame [OF _ that]) (rule closure)
    then show ?thesis by (auto simp: trace_ext_owns)
  qed
  have nil: "trace_ext [] s = s" by (simp add: trace_ext_def)
  show ?thesis
  proof (cases "validation_func env (unat idx)")
    case None
    with run impl [of "[]"] show ?thesis
      by (auto simp: cmsg_server_invoke_impl_def nil split: if_splits)
  next
    case (Some v)
    with run obtain valid s1 where v: "cmsg_service_input_valid env (unat idx) m closure v s = Some (valid, s1)"
      and rest: "if \<not> valid then s1 = s' else invoke_impl_func env (unat idx) m closure s1 = Some s'"
      by (auto simp: cmsg_server_invoke_impl_def bind_eq_Some_conv split: if_splits)
    from v have "extends s s1"
      by (auto simp: cmsg_service_input_valid_def split: option.splits dest: closure)
    then obtain evs where evs: "s1 = trace_ext evs s" by (auto simp: extends_def)
    show ?thesis
    proof (cases valid)
      case True
      with rest evs show ?thesis by (intro impl [of evs]) simp
    next
      case False
      with rest evs self [of evs] show ?thesis by auto
    qed
  qed
qed

lemma invoke_impl_total:
  assumes "\<And>r s. \<exists>s'. closure r s = Some s'"
    and "unat idx < length (svc_methods (srv_service s))"
  shows "\<exists>s'. cmsg_server_invoke_impl env idx m closure s = Some s'"
proof -
  have f: "\<exists>s'. invoke_impl_func env (unat idx) m closure s = Some s'" for s
    using send_responses_total [OF assms(1)]
    by (auto simp: invoke_impl_func_def Let_def split: prod.split)
  have v: "\<exists>r. cmsg_service_input_valid env (unat idx) m closure v s = Some r" for v
    using assms(1) [of "ant_response env (unat idx) (the (v m))" s]
    by (auto simp: cmsg_service_input_valid_def split: option.split)
  show ?thesis
  proof (cases "validation_func env (unat idx)")
    case None
    with f assms(2) show ?thesis by (simp add: cmsg_server_invoke_impl_def)
  next
    case (Some val)
    obtain valid s1 where "cmsg_service_input_valid env (unat idx) m closure val s = Some (valid, s1)"
      using v [of val] by auto
    with Some f [of s1] assms(2) show ?thesis by (simp add: cmsg_server_invoke_impl_def)
  qed
qed

text \<open>What an invocation changes, by the reason it is made for.\<close>

definition invoke_frame ::
  "cmsg_method_processing_reason \<Rightarrow> u32 \<Rightarrow> 'm \<Rightarrow> 'm cmsg_server \<Rightarrow> 'm cmsg_server \<Rightarrow> bool" where
  "invoke_frame reason idx m s s' \<longleftrightarrow>
     (case reason of
        CMSG_METHOD_DROPPED \<Rightarrow> extends s s'
      | CMSG_METHOD_QUEUED \<Rightarrow>
          (\<exists>q. q \<in> {srv_queue s, \<lparr>rq_method_index = idx, rq_buffer = m\<rparr> # srv_queue s} \<and>
             extends (s\<lparr>srv_queue := q, max_queue_length := max (max_queue_length s) (length q)\<rparr>) s')
      | _ \<Rightarrow> extends (s\<lparr>app_owns_current_msg := False\<rparr>) s')"

lemma invoke_frame:
  assumes "cmsg_server_invoke env sock req s m reason = Some s'"
  shows "invoke_frame reason (req_method_index req) m s s'"
proof -
  let ?closure = "\<lambda>msg s. server_closure_call env s sock req reason msg"
  define s0 where "s0 = (if has_unknown_fields env m then CMSG_COUNTER_INC s cntr_unknown_fields else s)"
  have s0: "extends s s0" by (simp add: s0_def)
  have invoke: "extends (s\<lparr>app_owns_current_msg := False\<rparr>) s'"
    if "Option.bind (cmsg_server_invoke_impl env (req_method_index req) m ?closure s0) (\<lambda>server.
              let server = (if \<not> (app_owns_current_msg server \<or> app_owns_all_msgs server)
                            then server_log (Ev_free m) server else server)
              in Some (server\<lparr>app_owns_current_msg := False\<rparr>)) = Some s'"
  proof -
    from that obtain s1 where s1: "cmsg_server_invoke_impl env (req_method_index req) m ?closure s0 = Some s1"
      and "s' = (if \<not> (app_owns_current_msg s1 \<or> app_owns_all_msgs s1)
                 then server_log (Ev_free m) s1 else s1)\<lparr>app_owns_current_msg := False\<rparr>"
      unfolding Let_def bind_eq_Some_conv by (elim exE conjE) simp
    then have "s' = trace_ext (if app_owns_current_msg s1 \<or> app_owns_all_msgs s1 then [] else [Ev_free m]) s1
                      \<lparr>app_owns_current_msg := False\<rparr>"
      by (simp add: server_log_def trace_ext_def)
    then have s': "\<exists>evs. s' = trace_ext evs s1\<lparr>app_owns_current_msg := False\<rparr>" by blast
    have "\<exists>evs b. s1 = trace_ext evs (s0\<lparr>app_owns_current_msg := b\<rparr>)"
      by (rule invoke_impl_frame [OF _ s1]) (rule extends_closure)
    then obtain evs2 b evs1 evs3 where "s1 = trace_ext evs2 (s0\<lparr>app_owns_current_msg := b\<rparr>)"
      "s0 = trace_ext evs1 s" "s' = trace_ext evs3 s1\<lparr>app_owns_current_msg := False\<rparr>"
      using s0 s' by (auto simp: extends_def)
    then have "s' = trace_ext (evs1 @ evs2 @ evs3) (s\<lparr>app_owns_current_msg := False\<rparr>)"
      by (simp add: trace_ext_def)
    then show ?thesis by simp
  qed
  show ?thesis
  proof (cases reason)
    case CMSG_METHOD_QUEUED
    define q where "q = snd (cmsg_receive_queue_push (alloc_ok env (srv_trace s0)) (srv_queue s0) m (req_method_index req))"
    have q: "q \<in> {srv_queue s, \<lparr>rq_method_index = req_method_index req, rq_buffer = m\<rparr> # srv_queue s}"
      using s0 by (auto simp: q_def cmsg_receive_queue_push_def g_queue_push_head_def extends_def)
    let ?u = "\<lambda>s. s\<lparr>srv_queue := q, max_queue_length := max (max_queue_length s) (length q)\<rparr>"
    obtain evs where "s0 = trace_ext evs s" using s0 by (auto simp: extends_def)
    then have "?u s0 = trace_ext evs (?u s)" by (simp add: trace_ext_def)
    then have "extends (?u s) (?u s0)" by simp
    moreover have "extends (?u s0) s'"
      using assms CMSG_METHOD_QUEUED extends_closure
      by (fastforce simp: cmsg_server_invoke_def Let_def s0_def [symmetric] q_def server_log_ext
          split: prod.splits)
    ultimately show ?thesis
      using q extends_trans by (auto simp: invoke_frame_def CMSG_METHOD_QUEUED)
  next
    case CMSG_METHOD_DROPPED
    then have "extends s0 s'"
      using assms extends_closure
      by (fastforce simp: cmsg_server_invoke_def Let_def s0_def [symmetric] server_log_ext)
    with s0 show ?thesis using extends_trans by (auto simp: invoke_frame_def CMSG_METHOD_DROPPED)
  qed (use assms invoke in \<open>simp_all add: cmsg_server_invoke_def Let_def s0_def [symmetric] invoke_frame_def\<close>)
qed

lemma invoke_total:
  assumes "env_ok env" "length (req_method_name_recvd req) < 128"
    and "unat (req_method_index req) < length (svc_methods (srv_service s))"
  shows "\<exists>s'. cmsg_server_invoke env sock req s m reason = Some s'"
proof -
  note closure = server_closure_total [OF assms(1,2)]
  define s0 where "s0 = (if has_unknown_fields env m then CMSG_COUNTER_INC s cntr_unknown_fields else s)"
  have idx: "unat (req_method_index req) < length (svc_methods (srv_service s0))"
    using assms(3) by (simp add: s0_def server_log_ext)
  have "\<exists>s1. cmsg_server_invoke_impl env (req_method_index req) m
      (\<lambda>msg s. server_closure_call env s sock req reason msg) s0 = Some s1"
    by (rule invoke_impl_total [OF closure idx])
  then show ?thesis
    using closure by (auto simp: cmsg_server_invoke_def Let_def s0_def [symmetric]
        split: cmsg_method_processing_reason.split prod.split)
qed

section \<open>The well-formed server\<close>

definition server_ok :: "'m cmsg_server \<Rightarrow> bool" where
  "server_ok s \<longleftrightarrow>
     wf_descriptor (srv_service s) \<and> filter_covers (queue_filters s) (srv_service s) \<and>
     (\<forall>e \<in> set (srv_queue s). unat (rq_method_index e) < length (svc_methods (srv_service s))) \<and>
     length (srv_queue s) \<le> max_queue_length s"

lemma server_ok_extends: "extends s s' \<Longrightarrow> server_ok s' = server_ok s"
  by (auto simp: extends_def server_ok_def)

lemma server_ok_owns [simp]: "server_ok (s\<lparr>app_owns_current_msg := b\<rparr>) = server_ok s"
  by (simp add: server_ok_def)

lemma invoke_frame_ok:
  assumes "invoke_frame reason idx m s s'" "server_ok s"
    and "unat idx < length (svc_methods (srv_service s))"
  shows "server_ok s'"
proof (cases reason)
  case CMSG_METHOD_QUEUED
  with assms(1) obtain q where "q \<in> {srv_queue s, \<lparr>rq_method_index = idx, rq_buffer = m\<rparr> # srv_queue s}"
    and "extends (s\<lparr>srv_queue := q, max_queue_length := max (max_queue_length s) (length q)\<rparr>) s'"
    by (auto simp: invoke_frame_def)
  with assms(2,3) show ?thesis by (auto simp: server_ok_extends) (auto simp: server_ok_def)
qed (use assms in \<open>auto simp: invoke_frame_def server_ok_extends\<close>)

lemma invoke_ok:
  assumes "cmsg_server_invoke env sock req s m reason = Some s'" "server_ok s"
    and "unat (req_method_index req) < length (svc_methods (srv_service s))"
  shows "server_ok s'"
  using invoke_frame_ok [OF invoke_frame [OF assms(1)] assms(2,3)] .

lemma invoke_frame_fields:
  assumes "invoke_frame reason idx m s s'"
  shows "srv_service s' = srv_service s" "crypto_sas s' = crypto_sas s"
    "queue_filters s' = queue_filters s" "queueing_state s' = queueing_state s"
    "queue_in_process s' = queue_in_process s" "queue_process_number s' = queue_process_number s"
    "srv_transport_type s' = srv_transport_type s"
  using assms
  by (auto simp: invoke_frame_def extends_def split: cmsg_method_processing_reason.splits)

text \<open>A header TLV that was accepted names a method of the service.\<close>

lemma lookup_defined:
  assumes "protobuf_c_service_descriptor_get_method_index_by_name (Some d) nm = Some i"
    and "wf_descriptor d" "IS_METHOD_DEFINED i"
  shows "unat i < length (svc_methods d)"
proof (cases "method_indices_by_name d")
  case None
  with assms show ?thesis
    by (simp add: protobuf_c_service_descriptor_get_method_index_by_name_def IS_METHOD_DEFINED_def)
next
  case (Some idx)
  with assms(2) have wf: "wf_method_table (svc_methods d) idx" by (simp add: wf_descriptor_def)
  then have n: "length (svc_methods d) < 2 ^ 32" by (simp add: wf_method_table_def)
  from Some wf show ?thesis
  proof (cases rule: method_lookup_cases [of d idx nm])
    case (found k)
    with assms(1) n show ?thesis by (auto simp: unat_of_nat)
  next
    case absent
    with assms(1,3) show ?thesis by (simp add: IS_METHOD_DEFINED_def)
  qed
qed

definition request_names_method :: "service_descriptor \<Rightarrow> cmsg_server_request \<Rightarrow> bool" where
  "request_names_method d req \<longleftrightarrow>
     unat (req_method_index req) < length (svc_methods d) \<and> length (req_method_name_recvd req) < 128"

lemma cmsg_tlv_entry_index:
  assumes "cmsg_tlv_entry e (Some d) buf req extra = Some (Inr tot, req')" "wf_descriptor d"
  shows "request_names_method d req'" "req_msg_type req' = req_msg_type req"
    "req_message_length req' = req_message_length req"
proof -
  from assms(1) obtain ml u where "cmsg_tlv_method_entry (Some d) buf req ml = Some (Inr u, req')"
    by (auto simp: cmsg_tlv_entry_def Let_def bind_eq_Some_conv split: if_splits option.splits)
      (case_tac a; fastforce)
  then obtain i meth where
    "protobuf_c_service_descriptor_get_method_index_by_name (Some d) meth = Some i"
    "IS_METHOD_DEFINED i"
    "req' = req\<lparr>req_method_index := i, req_method_name_recvd := take 127 meth\<rparr>"
    by (auto simp: cmsg_tlv_method_entry_def Let_def bind_eq_Some_conv split: if_splits)
  with lookup_defined [OF _ assms(2)] show "request_names_method d req'"
    "req_msg_type req' = req_msg_type req" "req_message_length req' = req_message_length req"
    by (auto simp: request_names_method_def)
qed

lemma cmsg_tlv_method_entry_Inl:
  "cmsg_tlv_method_entry desc buf req ml \<noteq> Some (Inl CMSG_RET_OK, req')"
proof
  assume "cmsg_tlv_method_entry desc buf req ml = Some (Inl CMSG_RET_OK, req')"
  then show False
    by (simp add: cmsg_tlv_method_entry_def Let_def cmsg_codes bind_eq_Some_conv split: if_splits)
qed

lemma cmsg_tlv_entry_Inl:
  "cmsg_tlv_entry e desc buf req extra \<noteq> Some (Inl CMSG_RET_OK, req')"
proof
  assume *: "cmsg_tlv_entry e desc buf req extra = Some (Inl CMSG_RET_OK, req')"
  obtain ml where "cmsg_tlv_method_entry desc buf req ml = Some (Inl CMSG_RET_OK, req')"
    using * by (auto simp: cmsg_tlv_entry_def Let_def bind_eq_Some_conv cmsg_codes
        split: if_splits option.splits) (case_tac a; fastforce)
  then show False using cmsg_tlv_method_entry_Inl by blast
qed

lemma cmsg_tlv_loop_index:
  assumes "cmsg_tlv_loop e (Some d) buf req extra = Some (CMSG_RET_OK, req')" "wf_descriptor d"
    and "extra \<noteq> 0 \<or> request_names_method d req"
  shows "request_names_method d req'"
  using assms
proof (induction e "Some d" buf req extra rule: cmsg_tlv_loop.induct)
  case (1 e buf req extra)
  show ?case
  proof (cases "CMSG_TLV_SIZE 0 \<le> extra")
    case False
    with "1.prems" show ?thesis
      by (subst (asm) cmsg_tlv_loop.simps) (simp add: cmsg_codes split: if_splits)
  next
    case True
    then have "cmsg_tlv_loop e (Some d) buf req extra =
      (case cmsg_tlv_entry e (Some d) buf req extra of
          None \<Rightarrow> None
        | Some (Inl ret, req') \<Rightarrow> Some (ret, req')
        | Some (Inr tot, req') \<Rightarrow> cmsg_tlv_loop e (Some d) (drop (unat tot) buf) req' (extra - tot))"
      by (subst cmsg_tlv_loop.simps) simp
    with "1.prems"(1) consider
        (stop) "cmsg_tlv_entry e (Some d) buf req extra = Some (Inl CMSG_RET_OK, req')"
      | (more) tot req1 where "cmsg_tlv_entry e (Some d) buf req extra = Some (Inr tot, req1)"
          "cmsg_tlv_loop e (Some d) (drop (unat tot) buf) req1 (extra - tot) = Some (CMSG_RET_OK, req')"
      by (auto split: option.splits sum.splits)
    then show ?thesis
    proof cases
      case stop
      then show ?thesis by (simp add: cmsg_tlv_entry_Inl)
    next
      case more
      show ?thesis
        by (rule "1.hyps" [OF True more(1)])
          (use more cmsg_tlv_entry_index [OF more(1) "1.prems"(2)] "1.prems"(2) in blast)+
    qed
  qed
qed

lemma cmsg_tlv_header_process_index:
  assumes "cmsg_tlv_header_process e buf req extra (Some d) = Some (CMSG_RET_OK, req')"
    and "wf_descriptor d" "extra \<noteq> 0"
  shows "request_names_method d req'"
  using assms cmsg_tlv_loop_index [of e d buf req extra req']
  by (simp add: cmsg_tlv_header_process_def)

section \<open>Receiving a packet keeps the server well-formed\<close>

lemma method_req_ok:
  assumes "env_ok env" "server_ok s" "request_names_method (srv_service s) req"
    and "unat (req_message_length req) \<le> length buf"
  shows "\<exists>ret s'. cmsg_server_method_req_message_processor env sock req s buf = Some (ret, s') \<and> server_ok s'"
proof -
  from assms(3) have nm: "unat (req_method_index req) < length (svc_methods (srv_service s))"
    "length (req_method_name_recvd req) < 128" by (auto simp: request_names_method_def)
  let ?s = "CMSG_COUNTER_INC s cntr_rpc"
  have ok: "server_ok ?s" "server_ok (CMSG_COUNTER_INC ?s c)"
    "server_ok (server_log ev (CMSG_COUNTER_INC ?s c))" for c ev
    using assms(2) by (simp_all add: server_log_ext server_ok_extends [OF extends_ext])
  have idx: "unat (req_method_index req) < length (svc_methods (srv_service ?s))"
    using nm(1) by (simp add: server_log_ext)
  have "\<exists>s'. cmsg_server_invoke env sock req ?s m reason = Some s' \<and> server_ok s'" for m reason
    using invoke_total [OF assms(1) nm(2) idx] invoke_ok [OF _ ok(1) idx] by blast
  then have "\<exists>ret s'. map_option (Pair CMSG_RET_OK) (cmsg_server_invoke env sock req ?s m reason) =
      Some (ret, s') \<and> server_ok s'" for m reason
    by fastforce
  then show ?thesis
    using nm assms(4) ok
    by (auto simp: cmsg_server_method_req_message_processor_def Let_def
        split: option.split cmsg_queue_filter_type.split)
qed

lemma echo_req_ok:
  "server_ok s \<Longrightarrow> server_ok (snd (cmsg_server_echo_req_message_processor env sock s))"
  by (simp add: cmsg_server_echo_req_message_processor_def server_ok_extends [OF extends_send_header])

lemma msg_type_of_code_METHOD_REQ:
  "msg_type_of_code c = Some CMSG_MSG_TYPE_METHOD_REQ \<longleftrightarrow> c = msg_type_code CMSG_MSG_TYPE_METHOD_REQ"
  by (auto simp: msg_type_of_code_def)

lemma message_processor_ok:
  assumes "env_ok env" "server_ok s"
    and "req_msg_type req = msg_type_code CMSG_MSG_TYPE_METHOD_REQ \<Longrightarrow>
      request_names_method (srv_service s) req \<and> unat (req_message_length req) \<le> length buf"
  shows "\<exists>ret s'. cmsg_server_message_processor env sock req s buf = Some (ret, s') \<and> server_ok s'"
proof (cases "msg_type_of_code (req_msg_type req) = Some CMSG_MSG_TYPE_METHOD_REQ")
  case True
  then have "cmsg_server_message_processor env sock req s buf =
      cmsg_server_method_req_message_processor env sock req s buf"
    by (simp add: cmsg_server_message_processor_def)
  moreover have "request_names_method (srv_service s) req" "unat (req_message_length req) \<le> length buf"
    using True assms(3) unfolding msg_type_of_code_METHOD_REQ by blast+
  ultimately show ?thesis using method_req_ok [OF assms(1,2)] by simp
next
  case False
  have "server_ok (CMSG_COUNTER_INC s c)" for c
    using assms(2) by (simp add: server_ok_extends [OF extends_log])
  then show ?thesis
    using False assms(2) echo_req_ok [OF assms(2), of env sock]
    by (cases "cmsg_server_echo_req_message_processor env sock s")
      (auto simp: cmsg_server_message_processor_def split: option.split cmsg_msg_type.split)
qed

text \<open>
  A header the server can trust: it is at least its own size, the two lengths add up without
  wrap-around, and a method request carries a TLV.
\<close>

definition header_sane :: "cmsg_header \<Rightarrow> bool" where
  "header_sane hdr \<longleftrightarrow>
     cmsg_header_size \<le> header_length hdr \<and>
     unat (header_length hdr) + unat (message_length hdr) < 2 ^ 32 \<and>
     (hdr_msg_type hdr = msg_type_code CMSG_MSG_TYPE_METHOD_REQ \<longrightarrow> cmsg_header_size \<noteq> header_length hdr)"

lemma cmsg_tlv_loop_keeps:
  assumes "cmsg_tlv_loop e (Some d) buf req extra = Some (ret, req')" "ret = CMSG_RET_OK" "wf_descriptor d"
  shows "req_msg_type req' = req_msg_type req \<and> req_message_length req' = req_message_length req"
  using assms
proof (induction e "Some d" buf req extra rule: cmsg_tlv_loop.induct)
  case (1 e buf req extra)
  show ?case
  proof (cases "CMSG_TLV_SIZE 0 \<le> extra")
    case False
    with "1.prems" show ?thesis
      by (subst (asm) cmsg_tlv_loop.simps) (simp add: cmsg_codes split: if_splits)
  next
    case True
    with "1.prems"(1,2) obtain tot req1
      where more: "cmsg_tlv_entry e (Some d) buf req extra = Some (Inr tot, req1)"
        "cmsg_tlv_loop e (Some d) (drop (unat tot) buf) req1 (extra - tot) = Some (ret, req')"
      by (subst (asm) cmsg_tlv_loop.simps) (auto simp: cmsg_tlv_entry_Inl split: option.splits sum.splits)
    from "1.hyps" [OF True more(1)] "1.prems" more
    show ?thesis using cmsg_tlv_entry_index [OF more(1) "1.prems"(3)] by metis
  qed
qed

lemma cmsg_tlv_header_process_keeps:
  assumes "cmsg_tlv_header_process e buf req extra (Some d) = Some (CMSG_RET_OK, req')" "wf_descriptor d"
  shows "req_msg_type req' = req_msg_type req" "req_message_length req' = req_message_length req"
  using assms cmsg_tlv_loop_keeps [of e d buf req extra _ req']
  by (auto simp: cmsg_tlv_header_process_def split: if_splits)

lemma recv_process_ok:
  assumes env: "env_ok env" "server_ok s"
    and len: "unat extra + unat (message_length hdr) \<le> length buf"
    and tlv: "hdr_msg_type hdr = msg_type_code CMSG_MSG_TYPE_METHOD_REQ \<Longrightarrow> extra \<noteq> 0"
  shows "\<exists>ret s'. cmsg_server_recv_process env sock buf s extra dyn_len nbytes hdr = Some (ret, s') \<and> server_ok s'"
proof -
  let ?d = "srv_service s"
  let ?req = "\<lparr>req_msg_type = hdr_msg_type hdr, req_message_length = message_length hdr,
               req_method_index = UNDEFINED_METHOD, req_method_name_recvd = []\<rparr>"
  have wf: "wf_descriptor ?d" using env(2) by (simp add: server_ok_def)
  obtain ret req where tlv_run: "cmsg_tlv_header_process (env_endian env) buf ?req extra (Some ?d) = Some (ret, req)"
    using cmsg_tlv_header_process_safe [OF wf, of extra buf] len by fastforce
  show ?thesis
  proof (cases "ret = CMSG_RET_OK")
    case True
    note run = tlv_run [unfolded True]
    have "request_names_method ?d req \<and> unat (req_message_length req) \<le> length (drop (unat extra) buf)"
      if "req_msg_type req = msg_type_code CMSG_MSG_TYPE_METHOD_REQ"
      using cmsg_tlv_header_process_keeps [OF run wf] cmsg_tlv_header_process_index [OF run wf] len tlv that
      by simp
    from message_processor_ok [OF env this] obtain ret' s' where
      "cmsg_server_message_processor env sock req s (drop (unat extra) buf) = Some (ret', s')" "server_ok s'"
      by blast
    with True run env(2) show ?thesis by (simp add: cmsg_server_recv_process_def Let_def)
  next
    case False
    let ?s' = "cmsg_server_empty_method_reply_send env sock s CMSG_STATUS_CODE_SERVER_METHOD_NOT_FOUND"
    have "server_ok (CMSG_COUNTER_INC ?s' cntr_unknown_rpc)"
      using env(2) by (simp add: server_ok_extends [OF extends_log] server_ok_extends [OF extends_empty_reply])
    with False tlv_run env(2) show ?thesis by (simp add: cmsg_server_recv_process_def Let_def)
  qed
qed

lemma receive_result_ok:
  assumes env: "env_ok env" "server_ok s"
    and hdr: "0 \<le> ret \<Longrightarrow> 0 < nbytes \<Longrightarrow> \<exists>h. hdr = Some h \<and> header_sane h \<and>
        unat (header_length h) + unat (message_length h) \<le> length buf"
  shows "\<exists>ret' s'. server_receive_result env s sock (ret, buf, hdr, nbytes) = Some (ret', s') \<and> server_ok s'"
proof -
  consider "ret < 0" | "0 \<le> ret" "nbytes \<le> 0" | "0 \<le> ret" "0 < nbytes" by linarith
  then show ?thesis
  proof cases
    case 1
    then show ?thesis using env(2)
      by (simp add: server_receive_result_def server_log_ext server_ok_extends [OF extends_ext])
  next
    case 2
    then show ?thesis using env(2) by (simp add: server_receive_result_def)
  next
    case 3
    from hdr [OF this] obtain h where h: "hdr = Some h" "header_sane h"
      "unat (header_length h) + unat (message_length h) \<le> length buf" by blast
    have sz: "cmsg_header_size \<le> header_length h" "16 \<le> unat (header_length h)"
      using h(2) by (auto simp: header_sane_def word_le_nat_alt)
    then have "unat (header_length h - cmsg_header_size) = unat (header_length h) - 16"
      by (simp add: unat_diff_le)
    moreover have "header_length h - cmsg_header_size \<noteq> 0"
      if "hdr_msg_type h = msg_type_code CMSG_MSG_TYPE_METHOD_REQ"
      using h(2) that by (auto simp: header_sane_def)
    ultimately obtain ret' s' where
      "cmsg_server_recv_process env sock (drop 16 buf) s (header_length h - cmsg_header_size)
         (message_length h + header_length h) nbytes h = Some (ret', s')" "server_ok s'"
      using recv_process_ok [OF env, of "header_length h - cmsg_header_size" h "drop 16 buf"] h(3) sz
      by fastforce
    with 3 h(1) show ?thesis by (simp add: server_receive_result_def Let_def)
  qed
qed

end
