(* ===== verification/ServerQueue.thy ===== *)
theory ServerQueue
  imports ServerProps
begin

text \<open>
  The receive queue of the server: queued calls run oldest first and without a reply, the queue
  state machine, and the step relation of a whole server with its invariant.
\<close>

section \<open>Invoking a queued call\<close>

abbreviation queued_request :: "'m receive_queue_entry \<Rightarrow> cmsg_server_request" where
  "queued_request e \<equiv> \<lparr>req_msg_type = 0, req_message_length = 0, req_method_index = rq_method_index e,
                        req_method_name_recvd = []\<rparr>"

text \<open>A queued call runs its implementation when there is one and its input is valid.\<close>

definition runs_impl :: "'m server_env \<Rightarrow> 'm receive_queue_entry \<Rightarrow> bool" where
  "runs_impl env e \<longleftrightarrow>
     has_impl env (unat (rq_method_index e)) \<and>
     (case validation_func env (unat (rq_method_index e)) of
        None \<Rightarrow> True | Some v \<Rightarrow> v (rq_buffer e) = None)"

definition queued_call :: "'m server_env \<Rightarrow> 'm receive_queue_entry \<Rightarrow> nat \<times> 'm option" where
  "queued_call env e =
     (unat (rq_method_index e),
      if input_n_fields env (unat (rq_method_index e)) = 0 then None else Some (rq_buffer e))"

lemma closure_from_queue [simp]:
  "server_closure_call env s sock req CMSG_METHOD_INVOKING_FROM_QUEUE m = Some s"
  by (simp add: server_closure_call_def cmsg_server_closure_rpc_def split: server_closure.split)

lemma send_responses_silent [simp]: "send_responses (\<lambda>_. Some) rs s = Some s"
  by (induction rs) simp_all

text \<open>The server after one queued call.\<close>

definition queued_call_result :: "'m server_env \<Rightarrow> 'm receive_queue_entry \<Rightarrow> 'm cmsg_server \<Rightarrow> 'm cmsg_server" where
  "queued_call_result env e s =
     (let s = (if has_unknown_fields env (rq_buffer e) then CMSG_COUNTER_INC s cntr_unknown_fields else s);
          (i, arg) = queued_call env e;
          owns = (app_owns_current_msg s \<or> runs_impl env e \<and> snd (impl_func env (srv_trace s) i arg));
          s = (if runs_impl env e then server_log (Ev_impl i arg) s else s);
          s = (if owns \<or> app_owns_all_msgs s then s else server_log (Ev_free (rq_buffer e)) s)
      in s\<lparr>app_owns_current_msg := False\<rparr>)"

lemma invoke_queued:
  assumes "unat (rq_method_index e) < length (svc_methods (srv_service s))"
  shows "cmsg_server_invoke env sock (queued_request e) s (rq_buffer e) CMSG_METHOD_INVOKING_FROM_QUEUE =
    Some (queued_call_result env e s)"
proof -
  define s0 where "s0 = (if has_unknown_fields env (rq_buffer e) then CMSG_COUNTER_INC s cntr_unknown_fields else s)"
  let ?i = "unat (rq_method_index e)"
  let ?arg = "if input_n_fields env ?i = 0 then None else Some (rq_buffer e)"
  have idx: "?i < length (svc_methods (srv_service s0))"
    using assms by (simp add: s0_def server_log_ext)
  define s1 where "s1 = (if runs_impl env e
     then (let s' = server_log (Ev_impl ?i ?arg) s0 in
           if snd (impl_func env (srv_trace s0) ?i ?arg) then s'\<lparr>app_owns_current_msg := True\<rparr> else s')
     else s0)"
  have "cmsg_server_invoke_impl env (rq_method_index e) (rq_buffer e) (\<lambda>msg. Some) s0 = Some s1"
    using idx by (auto simp: cmsg_server_invoke_impl_def cmsg_service_input_valid_def invoke_impl_func_def
        s1_def runs_impl_def Let_def split: option.split prod.split)
  then show ?thesis
    by (auto simp: cmsg_server_invoke_def s0_def [symmetric] queued_call_result_def queued_call_def Let_def
        s1_def server_log_def)
qed

lemma queued_call_result_queue:
  "queued_call_result env e (s\<lparr>srv_queue := q\<rparr>) = queued_call_result env e s\<lparr>srv_queue := q\<rparr>"
  by (simp add: queued_call_result_def Let_def server_log_def split: prod.split)

lemma queued_call_result_frame:
  "\<exists>evs. queued_call_result env e s = trace_ext evs (s\<lparr>app_owns_current_msg := False\<rparr>)
     \<and> sent_packets evs = []
     \<and> impl_calls evs = (if runs_impl env e then [queued_call env e] else [])"
proof -
  let ?owns = "app_owns_current_msg s \<or> runs_impl env e \<and>
    snd (impl_func env (srv_trace s @ (if has_unknown_fields env (rq_buffer e)
       then [Ev_count cntr_unknown_fields] else [])) (fst (queued_call env e)) (snd (queued_call env e)))"
  let ?evs = "(if has_unknown_fields env (rq_buffer e) then [Ev_count cntr_unknown_fields] else [])
     @ (if runs_impl env e then [Ev_impl (fst (queued_call env e)) (snd (queued_call env e))] else [])
     @ (if ?owns \<or> app_owns_all_msgs s then [] else [Ev_free (rq_buffer e)])"
  have "queued_call_result env e s = trace_ext ?evs (s\<lparr>app_owns_current_msg := False\<rparr>)"
    by (cases "queued_call env e") (auto simp: queued_call_result_def Let_def server_log_def trace_ext_def)
  then show ?thesis by (intro exI [of _ ?evs]) simp
qed

section \<open>Draining the queue\<close>

definition entries_ok :: "'m cmsg_server \<Rightarrow> 'm receive_queue \<Rightarrow> bool" where
  "entries_ok s q \<longleftrightarrow> (\<forall>e \<in> set q. unat (rq_method_index e) < length (svc_methods (srv_service s)))"

lemma fold_queued_frame:
  "\<exists>evs b. fold (queued_call_result env) es s = trace_ext evs (s\<lparr>app_owns_current_msg := b\<rparr>)
     \<and> sent_packets evs = [] \<and> impl_calls evs = map (queued_call env) (filter (runs_impl env) es)"
proof (induction es arbitrary: s)
  case Nil
  have "s = trace_ext [] (s\<lparr>app_owns_current_msg := app_owns_current_msg s\<rparr>)"
    by (simp add: trace_ext_def)
  then show ?case by (metis filter.simps(1) fold_simps(1) impl_calls.simps(1) list.map(1) sent_packets.simps(1))
next
  case (Cons e es)
  obtain evs1 where evs1: "queued_call_result env e s = trace_ext evs1 (s\<lparr>app_owns_current_msg := False\<rparr>)"
    "sent_packets evs1 = []" "impl_calls evs1 = (if runs_impl env e then [queued_call env e] else [])"
    using queued_call_result_frame by blast
  obtain evs2 b where "fold (queued_call_result env) es (queued_call_result env e s) =
      trace_ext evs2 (queued_call_result env e s\<lparr>app_owns_current_msg := b\<rparr>)"
    "sent_packets evs2 = []" "impl_calls evs2 = map (queued_call env) (filter (runs_impl env) es)"
    using Cons.IH by blast
  with evs1 have "fold (queued_call_result env) (e # es) s =
      trace_ext (evs1 @ evs2) (s\<lparr>app_owns_current_msg := b\<rparr>) \<and> sent_packets (evs1 @ evs2) = [] \<and>
      impl_calls (evs1 @ evs2) = map (queued_call env) (filter (runs_impl env) (e # es))"
    by (simp add: trace_ext_owns)
  then show ?case by blast
qed

lemma fold_queued_service [simp]: "srv_service (fold (queued_call_result env) es s) = srv_service s"
  using fold_queued_frame [of env es s] by auto

text \<open>With well-formed entries the step of the loop is the pure function above.\<close>

lemma invoke_from_queue_ok:
  assumes "entries_ok s [e]"
  shows "invoke_from_queue env e (Some (s\<lparr>srv_queue := []\<rparr>), q) =
    (Some (queued_call_result env e s\<lparr>srv_queue := []\<rparr>), q)"
  using assms invoke_queued [of e "s\<lparr>srv_queue := q\<rparr>" env "-1"]
  by (simp add: invoke_from_queue_def entries_ok_def queued_call_result_queue)

definition queued_step :: "'m server_env \<Rightarrow> 'm receive_queue_entry \<Rightarrow> 'm cmsg_server option \<Rightarrow> 'm cmsg_server option" where
  "queued_step env e = map_option (\<lambda>s. queued_call_result env e s\<lparr>srv_queue := []\<rparr>)"

lemma invoke_from_queue_keeps:
  "keeps_queue (\<lambda>so. \<exists>s. so = Some s \<and> srv_queue s = [] \<and> srv_service s = d)
     {e. unat (rq_method_index e) < length (svc_methods d)} (invoke_from_queue env) (queued_step env)"
proof -
  have "srv_service (queued_call_result env e s) = srv_service s" for e s
    using queued_call_result_frame [of env e s] by auto
  moreover have "invoke_from_queue env e (Some s, q) = (Some (queued_call_result env e s\<lparr>srv_queue := []\<rparr>), q)"
    if "srv_queue s = []" "unat (rq_method_index e) < length (svc_methods (srv_service s))" for e s q
  proof -
    have "s\<lparr>srv_queue := []\<rparr> = s" using that(1) by simp
    then show ?thesis using that(2) invoke_from_queue_ok [of s e env q] by (simp add: entries_ok_def)
  qed
  ultimately show ?thesis by (auto simp: keeps_queue_def queued_step_def)
qed

lemma fold_queued_step:
  "fold (queued_step env) es (Some (s\<lparr>srv_queue := []\<rparr>)) =
     Some (fold (queued_call_result env) es s\<lparr>srv_queue := []\<rparr>)"
proof (induction es arbitrary: s)
  case (Cons e es)
  show ?case
    using Cons [of "queued_call_result env e s"]
    by (simp add: queued_step_def queued_call_result_queue)
qed simp

lemma server_process_all_result:
  assumes "entries_ok s (srv_queue s)"
  shows "server_process_all env s =
    Some (length (srv_queue s), fold (queued_call_result env) (rev (srv_queue s)) s\<lparr>srv_queue := []\<rparr>)"
proof -
  have "receive_process_rounds (invoke_from_queue env) (Some (s\<lparr>srv_queue := []\<rparr>), srv_queue s) 0 =
      Some (length (srv_queue s), fold (queued_step env) (rev (srv_queue s)) (Some (s\<lparr>srv_queue := []\<rparr>)), [])"
    using assms receive_process_rounds_fifo [OF invoke_from_queue_keeps [of "srv_service s" env],
        where s = "Some (s\<lparr>srv_queue := []\<rparr>)" and q = "srv_queue s" and k = 0]
    by (auto simp: entries_ok_def)
  then show ?thesis
    by (simp add: server_process_all_def cmsg_receive_queue_process_all_def fold_queued_step)
qed

lemma server_process_some_result:
  assumes "entries_ok s (srv_queue s)"
  shows "server_process_some env s n =
    Some (min n (length (srv_queue s)),
      fold (queued_call_result env) (take n (rev (srv_queue s))) s
        \<lparr>srv_queue := rev (drop n (rev (srv_queue s)))\<rparr>)"
proof -
  have "cmsg_receive_queue_process_some (invoke_from_queue env) (Some (s\<lparr>srv_queue := []\<rparr>), srv_queue s) n =
      (min n (length (srv_queue s)),
       fold (queued_step env) (take n (rev (srv_queue s))) (Some (s\<lparr>srv_queue := []\<rparr>)),
       rev (drop n (rev (srv_queue s))))"
    using assms receive_process_some_fifo [OF invoke_from_queue_keeps [of "srv_service s" env],
        where s = "Some (s\<lparr>srv_queue := []\<rparr>)" and q = "srv_queue s" and n = n]
    by (auto simp: entries_ok_def)
  then show ?thesis
    by (simp add: server_process_some_def fold_queued_step)
qed

section \<open>The filter table under the server's operations\<close>

lemma filter_set_all_result:
  assumes "filter_covers tbl d"
  obtains tbl' where "cmsg_queue_filter_set_all tbl d ty = Some tbl'" "filter_covers tbl' d"
    "\<And>m. m \<in> set (svc_methods d) \<Longrightarrow> cmsg_queue_filter_lookup tbl' m = ty"
proof
  let ?t = "fold (\<lambda>m. AList.update m ty) (svc_methods d) tbl"
  show "cmsg_queue_filter_set_all tbl d ty = Some ?t"
    using assms by (simp add: cmsg_queue_filter_set_all_def filter_set_each_total filter_covers_def)
  show "filter_covers ?t d"
    using assms by (simp add: filter_covers_def keys_fold_update distinct_fold_update)
  show "cmsg_queue_filter_lookup ?t m = ty" if "m \<in> set (svc_methods d)" for m
    using that by (simp add: cmsg_queue_filter_lookup_def map_of_fold_update)
qed

lemma filter_clear_all_is_set_all:
  "cmsg_queue_filter_clear_all tbl d = cmsg_queue_filter_set_all tbl d CMSG_QUEUE_FILTER_PROCESS"
  by (simp add: cmsg_queue_filter_clear_all_def cmsg_queue_filter_set_all_def)

lemma filter_covers_update:
  "filter_covers tbl d \<Longrightarrow> map_of tbl m = Some x \<Longrightarrow> filter_covers (AList.update m ty tbl) d"
proof -
  assume *: "filter_covers tbl d" "map_of tbl m = Some x"
  have "fst ` set (AList.update m ty tbl) = insert m (fst ` set tbl)"
    by (simp add: dom_update [unfolded dom_map_of_conv_image_fst])
  moreover have "m \<in> fst ` set tbl"
    using *(2) by (metis domI dom_map_of_conv_image_fst)
  ultimately show ?thesis
    using *(1) by (simp add: filter_covers_def distinct_update insert_absorb)
qed

lemma filter_set_covers: "filter_covers tbl d \<Longrightarrow> filter_covers (snd (cmsg_queue_filter_set tbl m ty)) d"
  by (auto simp: cmsg_queue_filter_set_def filter_covers_update split: option.split)

lemma filter_clear_covers: "filter_covers tbl d \<Longrightarrow> filter_covers (snd (cmsg_queue_filter_clear tbl m)) d"
  by (auto simp: cmsg_queue_filter_clear_def filter_covers_update split: option.split)

lemma filter_get_type_total:
  "filter_covers tbl d \<Longrightarrow> cmsg_queue_filter_get_type tbl d =
     Some (if \<exists>m \<in> set (svc_methods d). cmsg_queue_filter_lookup tbl m = CMSG_QUEUE_FILTER_QUEUE
           then CMSG_QUEUE_STATE_ENABLED else CMSG_QUEUE_STATE_DISABLED)"
proof -
  have "cmsg_queue_filter_lookup tbl m = CMSG_QUEUE_FILTER_QUEUE \<longleftrightarrow> map_of tbl m = Some CMSG_QUEUE_FILTER_QUEUE" for m
    by (simp add: cmsg_queue_filter_lookup_def split: option.split)
  then show "filter_covers tbl d \<Longrightarrow> cmsg_queue_filter_get_type tbl d =
     Some (if \<exists>m \<in> set (svc_methods d). cmsg_queue_filter_lookup tbl m = CMSG_QUEUE_FILTER_QUEUE
           then CMSG_QUEUE_STATE_ENABLED else CMSG_QUEUE_STATE_DISABLED)"
    by (simp add: cmsg_queue_filter_get_type_def filter_type_of_any filter_covers_def)
qed

lemma filter_init_covers: "filter_covers (cmsg_queue_filter_init [] d) d"
proof -
  have "fst ` set (fold (\<lambda>m tbl. AList.update m CMSG_QUEUE_FILTER_PROCESS tbl) (svc_methods d) []) =
      set (svc_methods d)"
    using keys_fold_update [of CMSG_QUEUE_FILTER_PROCESS "svc_methods d" "[]"] by simp
  moreover have "distinct (map fst (fold (\<lambda>m tbl. AList.update m CMSG_QUEUE_FILTER_PROCESS tbl) (svc_methods d) []))"
    using distinct_fold_update [of "[]" CMSG_QUEUE_FILTER_PROCESS "svc_methods d"] by simp
  ultimately show ?thesis by (simp add: filter_covers_def cmsg_queue_filter_init_def)
qed

section \<open>The state machine\<close>

lemma server_ok_entries: "server_ok s \<Longrightarrow> entries_ok s (srv_queue s)"
  by (simp add: server_ok_def entries_ok_def)

lemma queue_process_step_result:
  assumes "server_ok s"
  obtains n evs b q where
    "queue_process_step env s = Some (n, trace_ext evs (s\<lparr>app_owns_current_msg := b, srv_queue := q\<rparr>))"
    "sent_packets evs = []" "set q \<subseteq> set (srv_queue s)" "length q \<le> length (srv_queue s)"
    "queue_process_number s = -1 \<Longrightarrow> q = [] \<and>
       impl_calls evs = map (queued_call env) (filter (runs_impl env) (rev (srv_queue s)))"
proof -
  note ok = server_ok_entries [OF assms]
  have upd: "trace_ext evs (s\<lparr>app_owns_current_msg := b\<rparr>)\<lparr>srv_queue := q\<rparr> =
      trace_ext evs (s\<lparr>app_owns_current_msg := b, srv_queue := q\<rparr>)" for evs b q
    by (simp add: trace_ext_def)
  consider (some) "0 \<le> queue_process_number s" | (all) "queue_process_number s = -1"
    | (none) "queue_process_number s < -1" by linarith
  then show ?thesis
  proof cases
    case some
    let ?n = "nat (queue_process_number s)"
    let ?es = "take ?n (rev (srv_queue s))"
    let ?q = "rev (drop ?n (rev (srv_queue s)))"
    obtain evs b where fr: "fold (queued_call_result env) ?es s = trace_ext evs (s\<lparr>app_owns_current_msg := b\<rparr>)"
      "sent_packets evs = []"
      using fold_queued_frame by blast
    have "set ?q \<subseteq> set (srv_queue s)" using set_drop_subset [of ?n "rev (srv_queue s)"] by simp
    with some fr server_process_some_result [OF ok, of env ?n] that [where evs = evs and b = b and q = ?q]
    show ?thesis by (simp add: queue_process_step_def upd)
  next
    case all
    obtain evs b where fr: "fold (queued_call_result env) (rev (srv_queue s)) s =
        trace_ext evs (s\<lparr>app_owns_current_msg := b\<rparr>)" "sent_packets evs = []"
      "impl_calls evs = map (queued_call env) (filter (runs_impl env) (rev (srv_queue s)))"
      using fold_queued_frame by blast
    with all server_process_all_result [OF ok, of env] that [where evs = evs and b = b and q = "[]"]
    show ?thesis by (simp add: queue_process_step_def upd)
  next
    case none
    have "s = trace_ext [] (s\<lparr>app_owns_current_msg := app_owns_current_msg s, srv_queue := srv_queue s\<rparr>)"
      by (simp add: trace_ext_def)
    with none that [where n = 0 and evs = "[]" and b = "app_owns_current_msg s" and q = "srv_queue s"] show ?thesis
      by (simp add: queue_process_step_def)
  qed
qed

lemma queue_process_to_disabled:
  assumes "server_ok s" "queueing_state s = CMSG_QUEUE_STATE_TO_DISABLED"
  obtains n evs b q tbl drained where
    "cmsg_server_queue_process env s = Some (n,
      (trace_ext evs (s\<lparr>app_owns_current_msg := b, srv_queue := q, queue_filters := tbl,
         queue_process_number := (if drained then 0 else queue_process_number s),
         queue_in_process := \<not> drained,
         queueing_state := (if drained then CMSG_QUEUE_STATE_DISABLED else CMSG_QUEUE_STATE_TO_DISABLED),
         queueing_state_last := (if drained then CMSG_QUEUE_STATE_DISABLED else CMSG_QUEUE_STATE_TO_DISABLED)\<rparr>)))"
    "drained \<longleftrightarrow> q = []" "filter_covers tbl (srv_service s)" "sent_packets evs = []"
    "set q \<subseteq> set (srv_queue s)" "length q \<le> length (srv_queue s)"
    "\<And>m. drained \<Longrightarrow> m \<in> set (svc_methods (srv_service s)) \<Longrightarrow>
       cmsg_queue_filter_lookup tbl m = CMSG_QUEUE_FILTER_PROCESS"
    "queue_process_number s = -1 \<Longrightarrow> q = [] \<and>
       impl_calls evs = map (queued_call env) (filter (runs_impl env) (rev (srv_queue s)))"
proof -
  have cov: "filter_covers (queue_filters s) (srv_service s)" using assms(1) by (simp add: server_ok_def)
  obtain tbl1 where tbl1: "cmsg_queue_filter_set_all (queue_filters s) (srv_service s) CMSG_QUEUE_FILTER_QUEUE = Some tbl1"
    "filter_covers tbl1 (srv_service s)"
    using filter_set_all_result [OF cov] by metis
  define tbl0 where "tbl0 = (if queue_in_process s then queue_filters s else tbl1)"
  define s1 where "s1 = s\<lparr>queue_in_process := True, queue_filters := tbl0\<rparr>"
  have start: "(if queue_in_process s then Some s
      else map_option (\<lambda>tbl. s\<lparr>queue_in_process := True, queue_filters := tbl\<rparr>)
        (cmsg_queue_filter_set_all (queue_filters s) (srv_service s) CMSG_QUEUE_FILTER_QUEUE)) = Some s1"
    by (simp add: s1_def tbl0_def tbl1)
  have cov0: "filter_covers tbl0 (srv_service s)" using cov tbl1 by (simp add: tbl0_def)
  have "server_ok s1" using assms(1) cov0 by (simp add: server_ok_def s1_def)
  then obtain n evs b q where step:
    "queue_process_step env s1 = Some (n, trace_ext evs (s1\<lparr>app_owns_current_msg := b, srv_queue := q\<rparr>))"
    "sent_packets evs = []" "set q \<subseteq> set (srv_queue s)" "length q \<le> length (srv_queue s)"
    "queue_process_number s = -1 \<Longrightarrow> q = [] \<and>
       impl_calls evs = map (queued_call env) (filter (runs_impl env) (rev (srv_queue s)))"
    by (rule queue_process_step_result [of s1 env]) (simp_all add: s1_def)
  obtain tbl2 where tbl2: "cmsg_queue_filter_clear_all tbl0 (srv_service s) = Some tbl2"
    "filter_covers tbl2 (srv_service s)"
    "\<And>m. m \<in> set (svc_methods (srv_service s)) \<Longrightarrow> cmsg_queue_filter_lookup tbl2 m = CMSG_QUEUE_FILTER_PROCESS"
    unfolding filter_clear_all_is_set_all using filter_set_all_result [OF cov0] by metis
  show ?thesis
  proof (cases "q = []")
    case True
    then have "cmsg_server_queue_process env s = Some (n,
      (trace_ext evs (s\<lparr>app_owns_current_msg := b, srv_queue := [], queue_filters := tbl2,
         queue_process_number := 0, queue_in_process := False,
         queueing_state := CMSG_QUEUE_STATE_DISABLED, queueing_state_last := CMSG_QUEUE_STATE_DISABLED\<rparr>)))"
      using assms(2) step(1) tbl2(1)
      by (simp add: cmsg_server_queue_process_def start cmsg_server_queue_get_length_def)
        (simp add: s1_def trace_ext_def)
    with True tbl2 step show ?thesis by (intro that [where drained = True]) simp_all
  next
    case False
    then have "cmsg_server_queue_process env s = Some (n,
      (trace_ext evs (s\<lparr>app_owns_current_msg := b, srv_queue := q, queue_filters := tbl0,
         queue_process_number := queue_process_number s, queue_in_process := True,
         queueing_state := CMSG_QUEUE_STATE_TO_DISABLED, queueing_state_last := CMSG_QUEUE_STATE_TO_DISABLED\<rparr>)))"
      using assms(2) step(1)
      by (simp add: cmsg_server_queue_process_def start cmsg_server_queue_get_length_def)
        (simp add: s1_def trace_ext_def)
    with False cov0 step show ?thesis by (intro that [where drained = False]) simp_all
  qed
qed

section \<open>The server as a state machine\<close>

text \<open>
  Receptions that are certainly defined: a failure, nothing, or a packet with a sane header. The step relation does not ask
  for it: whatever arrives is a step, unless it takes the code to undefined behaviour.
\<close>

definition received_sane :: "int \<times> u8 list \<times> cmsg_header option \<times> int \<Rightarrow> bool" where
  "received_sane r \<longleftrightarrow>
     (case r of (ret, buf, hdr, nbytes) \<Rightarrow>
        0 \<le> ret \<and> 0 < nbytes \<longrightarrow>
          (case hdr of None \<Rightarrow> False
           | Some h \<Rightarrow> header_sane h \<and> unat (header_length h) + unat (message_length h) \<le> length buf))"

text \<open>
  The receive function of a reception may answer every read as it likes: its state counts the reads. The reception is
  plain or encrypted, as the server is.
\<close>

inductive server_step :: "'m server_env \<Rightarrow> 'm cmsg_server \<Rightarrow> 'm cmsg_server \<Rightarrow> bool" for env where
  Receive: "cmsg_server_receive env (recv_wrapper :: nat recv_func) derive c1 c2 timeout clocks s sock t = Some (ret, s', t') \<Longrightarrow>
    server_step env s s'"
| Accept: "cmsg_server_accept sock sa s = (ret, s') \<Longrightarrow> server_step env s s'"
| Close: "server_step env s (cmsg_server_close_accepted_socket s sock)"
| Crypto_enable: "cmsg_server_crypto_enable a b c s = (ret, s') \<Longrightarrow> server_step env s s'"
| Own_all: "server_step env s (cmsg_server_app_owns_all_msgs_set s b)"
| Set_all: "cmsg_server_queue_filter_set_all s ty = Some s' \<Longrightarrow> server_step env s s'"
| Clear_all: "cmsg_server_queue_filter_clear_all s = Some s' \<Longrightarrow> server_step env s s'"
| Filter_set: "cmsg_server_queue_filter_set s m ty = Some (ret, s') \<Longrightarrow> server_step env s s'"
| Filter_clear: "cmsg_server_queue_filter_clear s m = Some (ret, s') \<Longrightarrow> server_step env s s'"
| Request_some: "server_step env s (cmsg_server_queue_request_process_some s n)"
| Request_all: "server_step env s (cmsg_server_queue_request_process_all s)"
| Process: "cmsg_server_queue_process env s = Some (n, s') \<Longrightarrow> server_step env s s'"
| Process_some: "cmsg_server_queue_process_some env s k = Some (n, s') \<Longrightarrow> server_step env s s'"
| Process_all: "cmsg_server_queue_process_all env s = Some (n, s') \<Longrightarrow> server_step env s s'"

text \<open>The invariant: well-formed, and while queueing is disabled no method is set to queue.\<close>

definition server_inv :: "'m cmsg_server \<Rightarrow> bool" where
  "server_inv s \<longleftrightarrow> server_ok s \<and>
     (queueing_state s = CMSG_QUEUE_STATE_DISABLED \<longrightarrow>
        (\<forall>m \<in> set (svc_methods (srv_service s)).
           cmsg_queue_filter_lookup (queue_filters s) m \<noteq> CMSG_QUEUE_FILTER_QUEUE))"

lemma server_ok_cov: "server_ok s \<Longrightarrow> filter_covers (queue_filters s) (srv_service s)"
  by (simp add: server_ok_def)

lemma server_ok_filters:
  "server_ok s \<Longrightarrow> filter_covers tbl (srv_service s) \<Longrightarrow>
    server_ok (s\<lparr>queue_filters := tbl, queueing_state := st\<rparr>)"
  by (simp add: server_ok_def)

lemma server_create_inv: "wf_descriptor d \<Longrightarrow> server_inv (cmsg_server_create tt d)"
proof -
  have "cmsg_queue_filter_lookup (cmsg_queue_filter_init [] d) m = CMSG_QUEUE_FILTER_PROCESS"
    if "m \<in> set (svc_methods d)" for m
  proof -
    have "map_of (cmsg_queue_filter_init [] d) = (\<lambda>k. if k \<in> set (svc_methods d) then Some CMSG_QUEUE_FILTER_PROCESS else None)"
      using map_of_fold_update [of CMSG_QUEUE_FILTER_PROCESS "svc_methods d" "[]"]
      by (simp add: cmsg_queue_filter_init_def fun_eq_iff)
    with that show ?thesis by (simp add: cmsg_queue_filter_lookup_def)
  qed
  then show "wf_descriptor d \<Longrightarrow> server_inv (cmsg_server_create tt d)"
    by (simp add: server_inv_def server_ok_def cmsg_server_create_def filter_init_covers)
qed

text \<open>Every operation is defined on a well-formed server.\<close>

lemma queue_process_step_ok:
  assumes "server_ok s"
  shows "\<exists>n s'. queue_process_step env s = Some (n, s') \<and> server_ok s' \<and>
    queueing_state s' = queueing_state s \<and> queue_filters s' = queue_filters s \<and> srv_service s' = srv_service s"
proof -
  obtain n evs b q where "queue_process_step env s = Some (n, trace_ext evs (s\<lparr>app_owns_current_msg := b, srv_queue := q\<rparr>))"
    "set q \<subseteq> set (srv_queue s)" "length q \<le> length (srv_queue s)"
    using queue_process_step_result [OF assms] by metis
  moreover from this have "server_ok (trace_ext evs (s\<lparr>app_owns_current_msg := b, srv_queue := q\<rparr>))"
    using assms by (auto simp: server_ok_def)
  ultimately show ?thesis by simp
qed

lemma queue_process_inv:
  assumes "server_inv s"
  shows "\<exists>n s'. cmsg_server_queue_process env s = Some (n, s') \<and> server_inv s'"
proof -
  have ok: "server_ok s" using assms by (simp add: server_inv_def)
  show ?thesis
  proof (cases "queueing_state s")
    case CMSG_QUEUE_STATE_ENABLED
    obtain n s' where s': "queue_process_step env s = Some (n, s')" "server_ok s'" "queueing_state s' = queueing_state s"
      using queue_process_step_ok [OF ok] by blast
    then have "server_inv (s'\<lparr>queueing_state_last := queueing_state s'\<rparr>)"
      using CMSG_QUEUE_STATE_ENABLED by (simp add: server_inv_def server_ok_def)
    with s' CMSG_QUEUE_STATE_ENABLED show ?thesis by (simp add: cmsg_server_queue_process_def)
  next
    case CMSG_QUEUE_STATE_DISABLED
    have "server_inv (s\<lparr>queueing_state_last := queueing_state s\<rparr>)"
      using assms by (simp add: server_inv_def server_ok_def)
    with CMSG_QUEUE_STATE_DISABLED show ?thesis by (simp add: cmsg_server_queue_process_def)
  next
    case CMSG_QUEUE_STATE_TO_DISABLED
    obtain n evs b q tbl drained where run:
      "cmsg_server_queue_process env s = Some (n,
      (trace_ext evs (s\<lparr>app_owns_current_msg := b, srv_queue := q, queue_filters := tbl,
         queue_process_number := (if drained then 0 else queue_process_number s),
         queue_in_process := \<not> drained,
         queueing_state := (if drained then CMSG_QUEUE_STATE_DISABLED else CMSG_QUEUE_STATE_TO_DISABLED),
         queueing_state_last := (if drained then CMSG_QUEUE_STATE_DISABLED else CMSG_QUEUE_STATE_TO_DISABLED)\<rparr>)))"
      "filter_covers tbl (srv_service s)" "set q \<subseteq> set (srv_queue s)" "length q \<le> length (srv_queue s)"
      "\<And>m. drained \<Longrightarrow> m \<in> set (svc_methods (srv_service s)) \<Longrightarrow>
         cmsg_queue_filter_lookup tbl m = CMSG_QUEUE_FILTER_PROCESS"
      by (rule queue_process_to_disabled [OF ok CMSG_QUEUE_STATE_TO_DISABLED, of env]) blast
    then show ?thesis using ok by (auto simp: server_inv_def server_ok_def)
  qed
qed

text \<open>Receiving leaves the service, the filters and the queueing state alone.\<close>

definition same_filters :: "'m cmsg_server \<Rightarrow> 'm cmsg_server \<Rightarrow> bool" where
  "same_filters s s' \<longleftrightarrow> srv_service s' = srv_service s \<and> queue_filters s' = queue_filters s \<and>
     queueing_state s' = queueing_state s"

lemma same_filters_extends: "extends s s' \<Longrightarrow> same_filters s s'"
  by (auto simp: extends_def same_filters_def)

lemma same_filters_trans: "same_filters a b \<Longrightarrow> same_filters b c \<Longrightarrow> same_filters a c"
  by (simp add: same_filters_def)

lemma same_filters_invoke: "cmsg_server_invoke env sock req s m reason = Some s' \<Longrightarrow> same_filters s s'"
  by (drule invoke_frame) (simp add: same_filters_def invoke_frame_fields)

lemma same_filters_log: "same_filters s (server_log ev s)"
  by (rule same_filters_extends) simp

lemma same_filters_method_req:
  assumes "cmsg_server_method_req_message_processor env sock req s buf = Some (ret, s')"
  shows "same_filters s s'"
proof -
  let ?s = "CMSG_COUNTER_INC s cntr_rpc"
  have c: "same_filters s (CMSG_COUNTER_INC ?s x)" "same_filters s (server_log ev (CMSG_COUNTER_INC ?s x))" for x ev
    using same_filters_log same_filters_trans by blast+
  have i: "same_filters s s'" if "cmsg_server_invoke env sock req ?s m reason = Some s'" for m reason
    using same_filters_trans [OF same_filters_log same_filters_invoke [OF that]] .
  show ?thesis
    using assms c i same_filters_log [of s]
    by (auto simp: cmsg_server_method_req_message_processor_def Let_def bind_eq_Some_conv
        split: if_splits option.splits cmsg_queue_filter_type.splits)
qed

lemma same_filters_processor:
  assumes "cmsg_server_message_processor env sock req s buf = Some (ret, s')"
  shows "same_filters s s'"
proof -
  have "same_filters s (snd (cmsg_server_echo_req_message_processor env sock s))"
    by (simp add: cmsg_server_echo_req_message_processor_def same_filters_extends extends_send_header)
  moreover have "same_filters s s" by (simp add: same_filters_def)
  ultimately show ?thesis
    using assms same_filters_method_req same_filters_log [of s]
    by (cases "cmsg_server_echo_req_message_processor env sock s")
      (auto simp: cmsg_server_message_processor_def split: option.splits cmsg_msg_type.splits)
qed

lemma same_filters_receive:
  assumes "server_receive_result env s sock r = Some (ret, s')"
  shows "same_filters s s'"
proof -
  have refl: "same_filters s s" by (simp add: same_filters_def)
  have log2: "same_filters s (CMSG_COUNTER_INC (CMSG_COUNTER_INC s a) b)" for a b
    using same_filters_log same_filters_trans by blast
  have miss: "same_filters s (CMSG_COUNTER_INC
      (cmsg_server_empty_method_reply_send env sock s st) c)" for st c
    using same_filters_trans [OF same_filters_extends [OF extends_empty_reply] same_filters_log] .
  have proc: "same_filters s s'" if "cmsg_server_recv_process env sock buf s extra dl nb h = Some (ret, s')" for buf extra dl nb h
    using that same_filters_processor refl miss
    by (auto simp: cmsg_server_recv_process_def Let_def split: option.splits if_splits)
  obtain r1 buf hdr nb where r: "r = (r1, buf, hdr, nb)" by (cases r)
  consider "r1 < 0" | "0 \<le> r1" "nb \<le> 0" | h where "0 \<le> r1" "0 < nb" "hdr = Some h"
    using assms r by (cases hdr) (auto simp: server_receive_result_def split: if_splits)
  then show ?thesis
  proof cases
    case 1
    with assms r show ?thesis using log2 same_filters_log [of s]
      by (auto simp: server_receive_result_def split: if_splits)
  next
    case 2
    with assms r refl show ?thesis by (simp add: server_receive_result_def)
  next
    case 3
    with assms r proc show ?thesis by (simp add: server_receive_result_def Let_def)
  qed
qed

lemma server_inv_receive:
  assumes "env_ok env" "server_inv s" "received_sane r"
  shows "\<exists>ret s'. server_receive_result env s sock r = Some (ret, s') \<and> server_inv s'"
proof -
  obtain r1 buf hdr nb where r: "r = (r1, buf, hdr, nb)" by (cases r)
  have "\<exists>h. hdr = Some h \<and> header_sane h \<and> unat (header_length h) + unat (message_length h) \<le> length buf"
    if "0 \<le> r1" "0 < nb"
    using assms(3) that by (auto simp: received_sane_def r split: option.splits)
  moreover have "server_ok s" using assms(2) by (simp add: server_inv_def)
  ultimately have "\<exists>ret s'. server_receive_result env s sock (r1, buf, hdr, nb) = Some (ret, s') \<and> server_ok s'"
    by (intro receive_result_ok [OF assms(1)])
  then obtain ret s' where
    s': "server_receive_result env s sock r = Some (ret, s')" "server_ok s'"
    using r by blast
  with same_filters_receive [OF s'(1)] assms(2) show ?thesis
    by (auto simp: server_inv_def same_filters_def)
qed

text \<open>Whatever arrives, a reception that is defined leaves a well-formed server.\<close>

lemma method_req_keeps:
  assumes "cmsg_server_method_req_message_processor env sock req s buf = Some (ret, s')" "server_ok s"
  shows "server_ok s'"
proof -
  let ?s = "CMSG_COUNTER_INC s cntr_rpc"
  have ok: "server_ok (CMSG_COUNTER_INC s c)" "server_ok (CMSG_COUNTER_INC ?s c)" "server_ok (server_log ev (CMSG_COUNTER_INC ?s c))" for c ev
    using assms(2) by (simp_all add: server_log_ext server_ok_extends [OF extends_ext])
  have idx: "unat (req_method_index req) < length (svc_methods (srv_service ?s))"
    using assms(1) by (auto simp: cmsg_server_method_req_message_processor_def Let_def bind_eq_Some_conv array_get_def server_log_ext split: if_splits)
  show ?thesis
    using assms(1) ok invoke_ok [OF _ ok(1) idx]
    by (auto simp: cmsg_server_method_req_message_processor_def Let_def bind_eq_Some_conv
        split: if_splits option.splits cmsg_queue_filter_type.splits)
qed

lemma message_processor_keeps:
  assumes "cmsg_server_message_processor env sock req s buf = Some (ret, s')" "server_ok s"
  shows "server_ok s'"
proof -
  have "server_ok (CMSG_COUNTER_INC s c)" for c
    using assms(2) by (simp add: server_ok_extends [OF extends_log])
  then show ?thesis
    using assms method_req_keeps echo_req_ok [OF assms(2), of env sock]
    by (cases "cmsg_server_echo_req_message_processor env sock s")
      (auto simp: cmsg_server_message_processor_def split: option.splits cmsg_msg_type.splits)
qed

lemma recv_process_keeps:
  assumes "cmsg_server_recv_process env sock buf s extra dl nb h = Some (ret, s')" "server_ok s"
  shows "server_ok s'"
proof -
  let ?req = "\<lparr>req_msg_type = hdr_msg_type h, req_message_length = message_length h,
    req_method_index = UNDEFINED_METHOD, req_method_name_recvd = []\<rparr>"
  obtain r req where tlv: "cmsg_tlv_header_process (env_endian env) buf ?req extra (Some (srv_service s)) = Some (r, req)"
    using assms(1) by (auto simp: cmsg_server_recv_process_def Let_def split: option.splits)
  have "server_ok (CMSG_COUNTER_INC (cmsg_server_empty_method_reply_send env sock s st) a)" for a st
    using assms(2) by (simp add: server_ok_extends [OF extends_log] server_ok_extends [OF extends_empty_reply])
  then show ?thesis
    using assms message_processor_keeps
    by (cases "r = CMSG_RET_OK") (auto simp: cmsg_server_recv_process_def Let_def tlv split: if_splits)
qed

lemma receive_result_keeps:
  assumes "server_receive_result env s sock r = Some (ret, s')" "server_ok s"
  shows "server_ok s'"
proof -
  obtain r1 buf hdr nb where r: "r = (r1, buf, hdr, nb)" by (cases r)
  have "server_ok (CMSG_COUNTER_INC s a)" "server_ok (CMSG_COUNTER_INC (CMSG_COUNTER_INC s a) b)" for a b
    using assms(2) by (simp_all add: server_ok_extends [OF extends_log])
  then show ?thesis
    using assms recv_process_keeps
    by (auto simp: r server_receive_result_def Let_def bind_eq_Some_conv split: if_splits)
qed

lemma server_inv_received:
  assumes "server_receive_result env s sock r = Some (ret, s')" "server_inv s"
  shows "server_inv s'"
  using assms receive_result_keeps [OF assms(1)] same_filters_receive [OF assms(1)]
  by (auto simp: server_inv_def same_filters_def)

lemma server_inv_reception:
  assumes "cmsg_server_receive env recv_wrapper derive c1 c2 timeout clocks s sock t = Some (ret, s', t')" "server_inv s"
  shows "server_inv s'"
proof -
  have "server_inv s1" if "cmsg_server_receive_encrypted env recv_wrapper derive c1 c2 timeout clocks s sock t = Some (r, s1, t1)" for r s1 t1
    using that assms(2)
    by (auto simp: cmsg_server_receive_encrypted_def server_inv_def server_ok_def Let_def bind_eq_Some_conv split: option.splits if_splits prod.splits)
  then show ?thesis
    using assms server_inv_received
    by (fastforce simp: cmsg_server_receive_def bind_eq_Some_conv split: if_splits)
qed

lemma server_inv_set_all:
  assumes "server_inv s"
  shows "\<exists>s'. cmsg_server_queue_filter_set_all s ty = Some s' \<and> server_inv s'"
proof -
  have ok: "server_ok s" using assms by (simp add: server_inv_def)
  obtain tbl where tbl: "cmsg_queue_filter_set_all (queue_filters s) (srv_service s) ty = Some tbl"
    "filter_covers tbl (srv_service s)"
    "\<And>m. m \<in> set (svc_methods (srv_service s)) \<Longrightarrow> cmsg_queue_filter_lookup tbl m = ty"
    using filter_set_all_result [OF server_ok_cov [OF ok]] by metis
  then show ?thesis
    using assms by (cases ty) (auto simp: cmsg_server_queue_filter_set_all_def server_inv_def server_ok_def)
qed

lemma server_inv_clear_all:
  assumes "server_inv s"
  shows "\<exists>s'. cmsg_server_queue_filter_clear_all s = Some s' \<and> server_inv s'"
proof -
  have ok: "server_ok s" using assms by (simp add: server_inv_def)
  obtain tbl where "cmsg_queue_filter_set_all (queue_filters s) (srv_service s) CMSG_QUEUE_FILTER_PROCESS = Some tbl"
    "filter_covers tbl (srv_service s)"
    using filter_set_all_result [OF server_ok_cov [OF ok]] by metis
  then show ?thesis
    using assms by (auto simp: cmsg_server_queue_filter_clear_all_def filter_clear_all_is_set_all
        server_inv_def server_ok_def)
qed

lemma server_inv_table:
  assumes "server_inv s" "filter_covers tbl (srv_service s)"
  shows "\<exists>st. cmsg_queue_filter_get_type tbl (srv_service s) = Some st \<and>
     server_inv (s\<lparr>queue_filters := tbl, queueing_state := st\<rparr>)"
  using assms by (auto simp: filter_get_type_total server_inv_def server_ok_def)

lemma server_inv_filter_set:
  assumes "server_inv s"
  shows "\<exists>ret s'. cmsg_server_queue_filter_set s m ty = Some (ret, s') \<and> server_inv s'"
proof -
  have "filter_covers (snd (cmsg_queue_filter_set (queue_filters s) m ty)) (srv_service s)"
    using assms by (intro filter_set_covers) (simp add: server_inv_def server_ok_def)
  from server_inv_table [OF assms this] show ?thesis
    by (auto simp: cmsg_server_queue_filter_set_def split: prod.split)
qed

lemma server_inv_filter_clear:
  assumes "server_inv s"
  shows "\<exists>ret s'. cmsg_server_queue_filter_clear s m = Some (ret, s') \<and> server_inv s'"
proof -
  have "filter_covers (snd (cmsg_queue_filter_clear (queue_filters s) m)) (srv_service s)"
    using assms by (intro filter_clear_covers) (simp add: server_inv_def server_ok_def)
  from server_inv_table [OF assms this] show ?thesis
    by (auto simp: cmsg_server_queue_filter_clear_def split: prod.split)
qed

lemma server_inv_process_all:
  assumes "server_inv s"
  shows "\<exists>n s'. cmsg_server_queue_process_all env s = Some (n, s') \<and> server_inv s'"
proof -
  have ok: "server_ok s" using assms by (simp add: server_inv_def)
  obtain evs b where "fold (queued_call_result env) (rev (srv_queue s)) s = trace_ext evs (s\<lparr>app_owns_current_msg := b\<rparr>)"
    using fold_queued_frame by blast
  with server_process_all_result [OF server_ok_entries [OF ok], of env] assms show ?thesis
    by (simp add: cmsg_server_queue_process_all_def server_inv_def server_ok_def)
qed

lemma server_inv_number [simp]: "server_inv (s\<lparr>queue_process_number := n\<rparr>) = server_inv s"
  by (simp add: server_inv_def server_ok_def)

lemma server_inv_other [simp]:
  "server_inv (s\<lparr>crypto_sas := c\<rparr>) = server_inv s"
  "server_inv (s\<lparr>app_owns_all_msgs := b\<rparr>) = server_inv s"
  "server_inv (server_log ev s) = server_inv s"
  by (simp_all add: server_inv_def server_ok_def server_log_def)

lemma server_step_inv:
  assumes "server_step env s s'" "env_ok env" "server_inv s"
  shows "server_inv s'"
  using assms(1)
proof cases
  case Receive
  from server_inv_reception [OF this assms(3)] show ?thesis .
next
  case Accept
  then show ?thesis using assms(3) by (auto simp: cmsg_server_accept_def split: option.splits)
next
  case Crypto_enable
  then show ?thesis using assms(3) by (auto simp: cmsg_server_crypto_enable_def split: if_splits)
next
  case Set_all
  then show ?thesis using server_inv_set_all [OF assms(3)] by (metis option.inject prod.inject)
next
  case Clear_all
  then show ?thesis using server_inv_clear_all [OF assms(3)] by (metis option.inject prod.inject)
next
  case Filter_set
  then show ?thesis using server_inv_filter_set [OF assms(3)] by (metis option.inject prod.inject)
next
  case Filter_clear
  then show ?thesis using server_inv_filter_clear [OF assms(3)] by (metis option.inject prod.inject)
next
  case Process
  then show ?thesis using queue_process_inv [OF assms(3)] by (metis option.inject prod.inject)
next
  case (Process_some k n)
  then show ?thesis using queue_process_inv [of "s\<lparr>queue_process_number := k\<rparr>" env] assms(3)
    by (metis cmsg_server_queue_process_some_def option.inject prod.inject server_inv_number)
next
  case Process_all
  then show ?thesis using server_inv_process_all [OF assms(3)] by (metis option.inject prod.inject)
qed (use assms(3) in \<open>simp_all add: cmsg_server_close_accepted_socket_def cmsg_server_app_owns_all_msgs_set_def
      cmsg_server_queue_request_process_some_def cmsg_server_queue_request_process_all_def\<close>)

inductive server_reachable :: "'m server_env \<Rightarrow> service_descriptor \<Rightarrow> 'm cmsg_server \<Rightarrow> bool" for env d where
  Start: "server_reachable env d (cmsg_server_create tt d)"
| Step: "server_reachable env d s \<Longrightarrow> server_step env s s' \<Longrightarrow> server_reachable env d s'"

inductive_cases server_stepE: "server_step env s s'"

lemma server_reachable_inv:
  "server_reachable env d s \<Longrightarrow> env_ok env \<Longrightarrow> wf_descriptor d \<Longrightarrow> server_inv s"
  by (induction rule: server_reachable.induct) (auto intro: server_create_inv server_step_inv)

end
