(* ===== verification/Client.thy ===== *)
theory Client
  imports MsgQueue Crypto
begin

text \<open>
  The client of \<open>cmsg/src/cmsg_client.c\<close>: connecting, building and sending packets with one
  reconnection, the send queue and its filter, and what a call returns for each answer.

  The record \<open>client_env\<close> holds what is not under \<open>src\<close> or not the client's: the generated
  packing code, the transport's connect and send, the random source, the application's
  callbacks, and the answer that \<open>cmsg_client_response_receive\<close> gets. They may depend on all
  that happened before, the trace of the client. \<open>None\<close> is a write past a buffer.
\<close>

datatype cmsg_client_state =
    CMSG_CLIENT_STATE_INIT
  | CMSG_CLIENT_STATE_CONNECTED
  | CMSG_CLIENT_STATE_FAILED
  | CMSG_CLIENT_STATE_CLOSED
  | CMSG_CLIENT_STATE_QUEUED

datatype client_counter =
    cl_unknown_rpc | cl_rpc | cl_unknown_fields | cl_messages_queued | cl_messages_dropped
  | cl_connect_attempts | cl_connect_failures | cl_recv_errors | cl_send_errors
  | cl_pack_errors | cl_memory_errors | cl_protocol_errors | cl_queue_errors

datatype client_event =
    Cl_connect
  | Cl_close
  | Cl_send "u8 list"
  | Cl_recv
  | Cl_sleep
  | Cl_callback string
  | Cl_count client_counter

record cmsg_client =
  cl_handle :: nat
  cl_transport :: nat
  cl_transport_type :: cmsg_transport_type
  cl_descriptor :: service_descriptor
  cl_state :: cmsg_client_state
  cl_queue :: send_queue
  cl_filters :: queue_filter
  cl_process_count :: nat
  cl_sa :: "cmsg_crypto_sa option"
  cl_trace :: "client_event list"

record 'm client_env =
  ce_endian :: endian
  ce_packed_size :: "'m \<Rightarrow> nat"
  ce_pack :: "'m \<Rightarrow> u8 list"
  ce_unknown_fields :: "'m \<Rightarrow> bool"
  ce_connect :: "client_event list \<Rightarrow> int"
  ce_send :: "client_event list \<Rightarrow> u8 list \<Rightarrow> int"
  ce_answer :: "client_event list \<Rightarrow> u32 \<times> 'm option"
  ce_alloc :: "client_event list \<Rightarrow> bool"
  ce_filter_func :: "(string \<Rightarrow> int \<times> cmsg_queue_filter_type) option"
  ce_callback :: bool
  ce_evp :: evp
  ce_rand :: "client_event list \<Rightarrow> u8 list option"
  ce_derive :: sa_derive

definition client_log :: "client_event \<Rightarrow> cmsg_client \<Rightarrow> cmsg_client" where
  "client_log ev c = c\<lparr>cl_trace := cl_trace c @ [ev]\<rparr>"

text \<open>The state a new client starts in.\<close>

definition cmsg_client_init ::
  "nat \<Rightarrow> nat \<Rightarrow> cmsg_transport_type \<Rightarrow> service_descriptor \<Rightarrow> cmsg_client" where
  "cmsg_client_init handle transport type descriptor =
     \<lparr>cl_handle = handle, cl_transport = transport, cl_transport_type = type,
      cl_descriptor = descriptor, cl_state = CMSG_CLIENT_STATE_INIT, cl_queue = [],
      cl_filters = cmsg_queue_filter_init [] descriptor, cl_process_count = 0,
      cl_sa = None, cl_trace = []\<rparr>"

text \<open>How calls travel: whether the server is invoked directly, and whether an answer is awaited.\<close>

fun cmsg_client_invoke_init :: "cmsg_transport_type \<Rightarrow> bool \<times> bool" where
  "cmsg_client_invoke_init CMSG_TRANSPORT_RPC_TCP = (False, True)"
| "cmsg_client_invoke_init CMSG_TRANSPORT_RPC_UNIX = (False, True)"
| "cmsg_client_invoke_init CMSG_TRANSPORT_ONEWAY_TCP = (False, False)"
| "cmsg_client_invoke_init CMSG_TRANSPORT_BROADCAST = (False, False)"
| "cmsg_client_invoke_init CMSG_TRANSPORT_ONEWAY_UNIX = (False, False)"
| "cmsg_client_invoke_init CMSG_TRANSPORT_FORWARDING = (False, False)"
| "cmsg_client_invoke_init CMSG_TRANSPORT_LOOPBACK = (True, True)"

definition cmsg_client_crypto_enabled :: "cmsg_client \<Rightarrow> bool" where
  "cmsg_client_crypto_enabled client \<longleftrightarrow> cl_sa client \<noteq> None"

definition cmsg_client_crypto_enable ::
  "cmsg_client \<Rightarrow> cmsg_crypto_sa option \<Rightarrow> bool \<Rightarrow> int \<times> cmsg_client" where
  "cmsg_client_crypto_enable client sa have_derive =
     (if sa = None \<or> \<not> have_derive then (CMSG_RET_ERR, client)
      else (CMSG_RET_OK, client\<lparr>cl_sa := sa\<rparr>))"

section \<open>Connecting\<close>

definition cmsg_client_connect :: "'m client_env \<Rightarrow> cmsg_client \<Rightarrow> int \<times> cmsg_client" where
  "cmsg_client_connect env client =
     (if cl_state client = CMSG_CLIENT_STATE_CONNECTED then (0, client)
      else
        let client = client_log (Cl_count cl_connect_attempts) client;
            ret = ce_connect env (cl_trace client);
            client = client_log Cl_connect client
        in if ret < 0
           then (ret, client_log (Cl_count cl_connect_failures) client\<lparr>cl_state := CMSG_CLIENT_STATE_FAILED\<rparr>)
           else (ret, client\<lparr>cl_state := CMSG_CLIENT_STATE_CONNECTED\<rparr>))"

definition cmsg_client_close_wrapper :: "cmsg_client \<Rightarrow> cmsg_client" where
  "cmsg_client_close_wrapper client =
     (client_log Cl_close client)
       \<lparr>cl_sa := map_option (\<lambda>sa. sa\<lparr>sa_ctx_in_init := False\<rparr>) (cl_sa client)\<rparr>"

section \<open>Building a packet\<close>

definition cmsg_client_create_packet ::
  "'m client_env \<Rightarrow> cmsg_client \<Rightarrow> string \<Rightarrow> 'm \<Rightarrow> ((int \<times> u8 list) \<times> cmsg_client) option" where
  "cmsg_client_create_packet env client method_name input =
     (let method_length = of_nat (length method_name + 1) :: u32;
          packed = of_nat (ce_packed_size env input) :: u32;
          extra_header_size = CMSG_TLV_SIZE method_length;
          total_header_size = cmsg_header_size + extra_header_size;
          total_message_size = total_header_size + packed;
          header = cmsg_header_create (ce_endian env) CMSG_MSG_TYPE_METHOD_REQ extra_header_size
                     packed CMSG_STATUS_CODE_UNSET
      in if \<not> ce_alloc env (cl_trace client)
         then Some ((CMSG_RET_ERR, []), client_log (Cl_count cl_memory_errors) client)
         else
           Option.bind (cmsg_tlv_method_header_create (ce_endian env)
             (replicate (unat total_message_size) 0) header CMSG_TLV_METHOD_TYPE method_length
             method_name) (\<lambda>buffer.
           Option.bind (mem_write buffer (unat total_header_size) (ce_pack env input)) (\<lambda>buffer.
             let ret = of_nat (length (ce_pack env input)) :: u32 in
             if ret < packed \<or> packed < ret
             then Some ((CMSG_RET_ERR, []), client_log (Cl_count cl_pack_errors) client)
             else Some ((CMSG_RET_OK, buffer), client))))"

section \<open>Sending\<close>

definition client_tport_send :: "'m client_env \<Rightarrow> cmsg_client \<Rightarrow> u8 list \<Rightarrow> int \<times> cmsg_client" where
  "client_tport_send env client bs =
     (ce_send env (cl_trace client) bs, client_log (Cl_send bs) client)"

definition client_send_nonce :: "'m client_env \<Rightarrow> cmsg_client \<Rightarrow> cmsg_crypto_sa \<Rightarrow> bool \<times> cmsg_client" where
  "client_send_nonce env client sa =
     (if sa_ctx_in_init sa then (True, client)
      else
        case cmsg_crypto_create_nonce (ce_alloc env (cl_trace client)) (ce_rand env (cl_trace client))
               (ce_derive env) sa of
          (None, sa) \<Rightarrow> (False, client\<lparr>cl_sa := Some sa\<rparr>)
        | (Some nonce, sa) \<Rightarrow>
            (let (send_ret, client) = client_tport_send env (client\<lparr>cl_sa := Some sa\<rparr>) nonce
             in (0 \<le> send_ret, client)))"

definition cmsg_client_transport_send ::
  "'m client_env \<Rightarrow> cmsg_client \<Rightarrow> u8 list \<Rightarrow> int \<times> cmsg_client" where
  "cmsg_client_transport_send env client buffer =
     (case cl_sa client of
        None \<Rightarrow> client_tport_send env client buffer
      | Some sa \<Rightarrow>
          (let (ready, client) = client_send_nonce env client sa in
           if \<not> ready then (CMSG_RET_ERR, client)
           else if \<not> ce_alloc env (cl_trace client) then (CMSG_RET_ERR, client)
           else
             let (encrypt_length, encrypt_buffer) = cmsg_crypto_encrypt (ce_evp env) (cl_sa client) buffer in
             if encrypt_length < 0 then (CMSG_RET_ERR, client)
             else
               let (send_ret, client) = client_tport_send env client encrypt_buffer in
               (if encrypt_length = send_ret then int (length buffer) else send_ret, client)))"

definition cmsg_client_buffer_send_retry_once ::
  "'m client_env \<Rightarrow> cmsg_client \<Rightarrow> u8 list \<Rightarrow> int \<times> cmsg_client" where
  "cmsg_client_buffer_send_retry_once env client buffer =
     (let (_, client) = cmsg_client_connect env client in
      if cl_state client \<noteq> CMSG_CLIENT_STATE_CONNECTED then (CMSG_RET_CLOSED, client)
      else
        let (send_ret, client) = cmsg_client_transport_send env client buffer in
        if \<not> send_ret < int (length buffer) then (CMSG_RET_OK, client)
        else
          let client = cmsg_client_close_wrapper (client\<lparr>cl_state := CMSG_CLIENT_STATE_CLOSED\<rparr>);
              (_, client) = cmsg_client_connect env client
          in if cl_state client \<noteq> CMSG_CLIENT_STATE_CONNECTED then (CMSG_RET_CLOSED, client)
             else
               let (send_ret, client) = cmsg_client_transport_send env client buffer in
               if \<not> send_ret < int (length buffer) then (CMSG_RET_OK, client)
               else
                 (CMSG_RET_ERR,
                  client_log (Cl_count cl_send_errors)
                    (cmsg_client_close_wrapper (client\<lparr>cl_state := CMSG_CLIENT_STATE_FAILED\<rparr>))))"

text \<open>\<open>cmsg_client_send_bytes\<close> of a plain client is the same send under the send lock.\<close>

definition cmsg_client_send_bytes :: "'m client_env \<Rightarrow> cmsg_client \<Rightarrow> u8 list \<Rightarrow> int \<times> cmsg_client" where
  "cmsg_client_send_bytes env client buffer = cmsg_client_buffer_send_retry_once env client buffer"

definition cmsg_client_buffer_send ::
  "'m client_env \<Rightarrow> cmsg_client \<Rightarrow> u8 list \<Rightarrow> int \<times> cmsg_client" where
  "cmsg_client_buffer_send env client buffer =
     (let (_, client) = cmsg_client_connect env client in
      if cl_state client \<noteq> CMSG_CLIENT_STATE_CONNECTED then (CMSG_RET_CLOSED, client)
      else
        let (send_ret, client) = cmsg_client_transport_send env client buffer in
        if send_ret < int (length buffer)
        then (CMSG_RET_ERR,
              client_log (Cl_count cl_send_errors)
                (cmsg_client_close_wrapper (client\<lparr>cl_state := CMSG_CLIENT_STATE_FAILED\<rparr>)))
        else (CMSG_RET_OK, client))"

text \<open>The retry loop runs for \<open>c = 0 .. max_tries\<close>.\<close>

fun buffer_send_loop :: "'m client_env \<Rightarrow> cmsg_client \<Rightarrow> u8 list \<Rightarrow> nat \<Rightarrow> int \<times> cmsg_client" where
  "buffer_send_loop env client buffer 0 = (CMSG_RET_ERR, client)"
| "buffer_send_loop env client buffer (Suc left) =
     (let (ret, client) = cmsg_client_buffer_send env client buffer in
      if ret = CMSG_RET_OK then (CMSG_RET_OK, client)
      else buffer_send_loop env (client_log Cl_sleep client) buffer left)"

definition cmsg_client_buffer_send_retry ::
  "'m client_env \<Rightarrow> cmsg_client \<Rightarrow> u8 list \<Rightarrow> nat \<Rightarrow> int \<times> cmsg_client" where
  "cmsg_client_buffer_send_retry env client buffer max_tries =
     buffer_send_loop env client buffer (Suc max_tries)"

text \<open>Sending changes only the connection state, the keys and the trace.\<close>

definition same_client :: "cmsg_client \<Rightarrow> cmsg_client \<Rightarrow> bool" where
  "same_client c c' \<longleftrightarrow>
     cl_handle c' = cl_handle c \<and> cl_transport c' = cl_transport c \<and>
     cl_transport_type c' = cl_transport_type c \<and> cl_descriptor c' = cl_descriptor c \<and>
     cl_queue c' = cl_queue c \<and> cl_filters c' = cl_filters c \<and>
     cl_process_count c' = cl_process_count c \<and> (\<exists>tr. cl_trace c' = cl_trace c @ tr)"

lemma same_client_refl [simp, intro]: "same_client c c"
  by (simp add: same_client_def)

lemma same_client_trans [trans]: "same_client a b \<Longrightarrow> same_client b c \<Longrightarrow> same_client a c"
  by (auto simp: same_client_def)

lemma same_client_log [simp]: "same_client c (client_log ev c)"
  by (simp add: same_client_def client_log_def)

lemma same_client_state [simp]: "same_client c (c\<lparr>cl_state := st\<rparr>)"
  by (simp add: same_client_def)

lemma same_client_sa [simp]: "same_client c (c\<lparr>cl_sa := sa\<rparr>)"
  by (simp add: same_client_def)

lemma same_client_into:
  "same_client c a \<Longrightarrow> same_client c (client_log ev a)"
  "same_client c a \<Longrightarrow> same_client c (a\<lparr>cl_state := st\<rparr>)"
  using same_client_trans same_client_log same_client_state by blast+

lemma same_client_connect: "cmsg_client_connect env c = (r, c') \<Longrightarrow> same_client c c'"
  by (auto simp: cmsg_client_connect_def Let_def same_client_into split: if_splits)

lemma same_client_close [simp]: "same_client c (cmsg_client_close_wrapper c)"
  unfolding cmsg_client_close_wrapper_def
  by (rule same_client_trans [OF same_client_log same_client_sa])

lemma same_client_tport: "client_tport_send env c bs = (r, c') \<Longrightarrow> same_client c c'"
  by (auto simp: client_tport_send_def)

lemma same_client_nonce: "client_send_nonce env c sa = (b, c') \<Longrightarrow> same_client c c'"
  by (auto simp: client_send_nonce_def Let_def split: if_splits prod.splits option.splits
      dest!: same_client_tport intro: same_client_trans [OF same_client_sa])

lemma same_client_send:
  assumes "cmsg_client_transport_send env c bs = (r, c')"
  shows "same_client c c'"
proof (cases "cl_sa c")
  case None
  with assms same_client_tport show ?thesis by (simp add: cmsg_client_transport_send_def)
next
  case (Some sa)
  obtain b c1 where n: "client_send_nonce env c sa = (b, c1)" by fastforce
  obtain l e where "cmsg_crypto_encrypt (ce_evp env) (cl_sa c1) bs = (l, e)" by fastforce
  moreover obtain r2 c2 where t: "client_tport_send env c1 e = (r2, c2)" by fastforce
  ultimately have "c' = c1 \<or> c' = c2"
    using assms Some n by (auto simp: cmsg_client_transport_send_def split: if_splits)
  with same_client_nonce [OF n] same_client_tport [OF t] same_client_trans show ?thesis by blast
qed

lemma same_client_failed:
  "same_client c (client_log ev (cmsg_client_close_wrapper (c\<lparr>cl_state := st\<rparr>)))"
  using same_client_trans [OF same_client_state same_client_trans [OF same_client_close same_client_log]] .

lemma same_client_retry_once:
  assumes "cmsg_client_buffer_send_retry_once env c bs = (r, c')"
  shows "same_client c c'"
proof -
  obtain x1 c1 where 1: "cmsg_client_connect env c = (x1, c1)" by fastforce
  obtain x2 c2 where 2: "cmsg_client_transport_send env c1 bs = (x2, c2)" by fastforce
  let ?c = "cmsg_client_close_wrapper (c2\<lparr>cl_state := CMSG_CLIENT_STATE_CLOSED\<rparr>)"
  obtain x3 c3 where 3: "cmsg_client_connect env ?c = (x3, c3)" by fastforce
  obtain x4 c4 where 4: "cmsg_client_transport_send env c3 bs = (x4, c4)" by fastforce
  let ?f = "client_log (Cl_count cl_send_errors)
     (cmsg_client_close_wrapper (c4\<lparr>cl_state := CMSG_CLIENT_STATE_FAILED\<rparr>))"
  have "c' \<in> {c1, c2, c3, c4, ?f}"
    using assms 1 2 3 4 by (auto simp: cmsg_client_buffer_send_retry_once_def split: if_splits)
  moreover have s: "same_client c c1" "same_client c1 c2" "same_client c2 ?c" "same_client ?c c3"
      "same_client c3 c4" "same_client c4 ?f"
    using same_client_connect [OF 1] same_client_send [OF 2] same_client_connect [OF 3]
      same_client_send [OF 4] same_client_failed same_client_trans [OF same_client_state same_client_close]
    by blast+
  ultimately show ?thesis using same_client_trans by (metis empty_iff insert_iff)
qed

lemma same_client_buffer_send:
  assumes "cmsg_client_buffer_send env c bs = (r, c')"
  shows "same_client c c'"
proof -
  obtain x1 c1 where 1: "cmsg_client_connect env c = (x1, c1)" by fastforce
  obtain x2 c2 where 2: "cmsg_client_transport_send env c1 bs = (x2, c2)" by fastforce
  have "c' \<in> {c1, c2, client_log (Cl_count cl_send_errors)
     (cmsg_client_close_wrapper (c2\<lparr>cl_state := CMSG_CLIENT_STATE_FAILED\<rparr>))}"
    using assms 1 2 by (auto simp: cmsg_client_buffer_send_def split: if_splits)
  with same_client_connect [OF 1] same_client_send [OF 2] same_client_failed same_client_trans
  show ?thesis by (metis empty_iff insert_iff)
qed

lemma same_client_send_loop:
  "buffer_send_loop env c bs n = (r, c') \<Longrightarrow> same_client c c'"
proof (induction n arbitrary: c)
  case (Suc n)
  obtain x c1 where 1: "cmsg_client_buffer_send env c bs = (x, c1)" by fastforce
  with Suc.prems have "c' = c1 \<or> buffer_send_loop env (client_log Cl_sleep c1) bs n = (r, c')"
    by (auto split: if_splits)
  with Suc.IH same_client_buffer_send [OF 1] same_client_log same_client_trans show ?case by metis
qed simp

section \<open>Queueing and calling\<close>

definition cmsg_client_queue_filter_lookup :: "cmsg_client \<Rightarrow> string \<Rightarrow> cmsg_queue_filter_type" where
  "cmsg_client_queue_filter_lookup client meth = cmsg_queue_filter_lookup (cl_filters client) meth"

text \<open>The result: the code, and whether to queue.\<close>

definition cmsg_client_should_queue ::
  "'m client_env \<Rightarrow> cmsg_client \<Rightarrow> string \<Rightarrow> (int \<times> bool) \<times> cmsg_client" where
  "cmsg_client_should_queue env client method_name =
     (let action =
        (case ce_filter_func env of
           None \<Rightarrow> cmsg_client_queue_filter_lookup client method_name
         | Some f \<Rightarrow>
             if fst (f method_name) \<noteq> CMSG_RET_OK
             then cmsg_client_queue_filter_lookup client method_name else snd (f method_name))
      in case action of
           CMSG_QUEUE_FILTER_ERROR \<Rightarrow> ((CMSG_RET_ERR, False), client_log (Cl_count cl_queue_errors) client)
         | CMSG_QUEUE_FILTER_DROP \<Rightarrow> ((CMSG_RET_DROPPED, False), client_log (Cl_count cl_messages_dropped) client)
         | CMSG_QUEUE_FILTER_QUEUE \<Rightarrow> ((CMSG_RET_OK, True), client_log (Cl_count cl_messages_queued) client)
         | CMSG_QUEUE_FILTER_PROCESS \<Rightarrow> ((CMSG_RET_OK, False), client))"

text \<open>The result of the push is not looked at.\<close>

definition cmsg_client_add_to_queue ::
  "'m client_env \<Rightarrow> cmsg_client \<Rightarrow> u8 list \<Rightarrow> string \<Rightarrow> (int \<times> cmsg_client) option" where
  "cmsg_client_add_to_queue env client buffer method_name =
     Option.bind (cmsg_send_queue_push (ce_alloc env (cl_trace client)) (ce_alloc env (cl_trace client))
        (cl_queue client) buffer (cl_handle client) (cl_transport client) (Some method_name))
       (\<lambda>(_, q).
          let client = client\<lparr>cl_queue := q, cl_process_count := cl_process_count client + 1\<rparr>
          in Some (CMSG_RET_QUEUED,
                   if ce_callback env then client_log (Cl_callback method_name) client else client))"

text \<open>The first component of the result is the code, the second \<open>did_queue\<close>.\<close>

definition cmsg_client_queue_input ::
  "'m client_env \<Rightarrow> cmsg_client \<Rightarrow> u32 \<Rightarrow> 'm \<Rightarrow> ((int \<times> bool) \<times> cmsg_client) option" where
  "cmsg_client_queue_input env client method_index input =
     Option.bind (array_get (svc_methods (cl_descriptor client)) (unat method_index)) (\<lambda>method_name.
       case cmsg_client_should_queue env client method_name of
         ((ret, do_queue), client) \<Rightarrow>
           if ret \<noteq> CMSG_RET_OK then Some ((ret, do_queue), client)
           else if do_queue then
             Option.bind (cmsg_client_create_packet env client method_name input)
               (\<lambda>((ret, buffer), client).
                  if ret = CMSG_RET_OK
                  then map_option (\<lambda>(ret, client). ((ret, True), client))
                         (cmsg_client_add_to_queue env client buffer method_name)
                  else Some ((ret, True), client))
           else Some ((ret, False), client))"

definition cmsg_client_invoke_send ::
  "'m client_env \<Rightarrow> cmsg_client \<Rightarrow> u32 \<Rightarrow> 'm \<Rightarrow> (int \<times> cmsg_client) option" where
  "cmsg_client_invoke_send env client method_index input =
     Option.bind (array_get (svc_methods (cl_descriptor client)) (unat method_index)) (\<lambda>method_name.
     Option.bind (cmsg_client_create_packet env (client_log (Cl_count cl_rpc) client) method_name input)
       (\<lambda>((ret, buffer), client).
          if ret \<noteq> CMSG_RET_OK then Some (ret, client)
          else Some (cmsg_client_buffer_send_retry_once env client buffer)))"

text \<open>
  What a call makes of the server's answer: the return code and the message handed to the
  caller. (The caller's own fields unknown to it are freed.)
\<close>

definition cmsg_client_invoke_recv ::
  "'m client_env \<Rightarrow> cmsg_client \<Rightarrow> (int \<times> 'm option) \<times> cmsg_client" where
  "cmsg_client_invoke_recv env client =
     (let (st, message) = ce_answer env (cl_trace client);
          client = client_log Cl_recv client
      in if st \<in> {status_code CMSG_STATUS_CODE_SERVICE_FAILED,
                  status_code CMSG_STATUS_CODE_CONNECTION_CLOSED,
                  status_code CMSG_STATUS_CODE_SERVER_CONNRESET}
         then ((CMSG_RET_CLOSED, None),
               client_log (Cl_count cl_recv_errors)
                 (cmsg_client_close_wrapper (client\<lparr>cl_state := CMSG_CLIENT_STATE_CLOSED\<rparr>)))
         else if st = status_code CMSG_STATUS_CODE_SERVICE_QUEUED then ((CMSG_RET_QUEUED, None), client)
         else if st = status_code CMSG_STATUS_CODE_SERVICE_DROPPED then ((CMSG_RET_DROPPED, None), client)
         else if st = status_code CMSG_STATUS_CODE_SERVER_METHOD_NOT_FOUND
         then ((CMSG_RET_METHOD_NOT_FOUND, None), client_log (Cl_count cl_unknown_rpc) client)
         else
           case message of
             None \<Rightarrow>
               (if st = status_code CMSG_STATUS_CODE_SUCCESS then ((CMSG_RET_OK, None), client)
                else ((CMSG_RET_ERR, None), client_log (Cl_count cl_protocol_errors) client))
           | Some m \<Rightarrow>
               ((CMSG_RET_OK, Some m),
                if ce_unknown_fields env m then client_log (Cl_count cl_unknown_fields) client else client))"

text \<open>
  A call over a transport that is not a loopback. The result: the return code, the message,
  and the client.
\<close>

definition cmsg_client_invoke ::
  "'m client_env \<Rightarrow> cmsg_client \<Rightarrow> u32 \<Rightarrow> 'm option \<Rightarrow> ((int \<times> 'm option) \<times> cmsg_client) option" where
  "cmsg_client_invoke env client method_index input =
     (case input of
        None \<Rightarrow> Some ((CMSG_RET_ERR, None), client)
      | Some input \<Rightarrow>
          Option.bind (cmsg_client_queue_input env client method_index input)
            (\<lambda>((ret, did_queue), client).
               if ret \<noteq> CMSG_RET_OK then Some ((ret, None), client)
               else if did_queue then Some ((ret, None), client)
               else
                 Option.bind (cmsg_client_invoke_send env client method_index input)
                   (\<lambda>(ret, client).
                      if ret = CMSG_RET_OK \<and> snd (cmsg_client_invoke_init (cl_transport_type client))
                      then Some (cmsg_client_invoke_recv env client)
                      else Some ((ret, None), client))))"

definition cmsg_client_send_echo_request :: "'m client_env \<Rightarrow> cmsg_client \<Rightarrow> int \<Rightarrow> int \<times> cmsg_client" where
  "cmsg_client_send_echo_request env client socket =
     (let header = cmsg_header_create (ce_endian env) CMSG_MSG_TYPE_ECHO_REQ 0 0 CMSG_STATUS_CODE_UNSET;
          (ret, client) = cmsg_client_buffer_send_retry_once env client (header_to_mem (ce_endian env) header)
      in if ret \<noteq> CMSG_RET_OK then (-1, client) else (socket, client))"

section \<open>The send queue\<close>

definition cmsg_client_queue_get_length :: "cmsg_client \<Rightarrow> nat" where
  "cmsg_client_queue_get_length client = length (cl_queue client)"

text \<open>
  Sending the queue, oldest first, until one entry cannot be sent. Every entry was queued by
  this client (another client's entry is outside the model: \<open>None\<close>).
\<close>

function client_process_loop :: "'m client_env \<Rightarrow> cmsg_client \<Rightarrow> (int \<times> cmsg_client) option" where
  "client_process_loop env client =
     (case g_queue_pop_tail (cl_queue client) of
        (None, _) \<Rightarrow> Some (CMSG_RET_OK, client)
      | (Some entry, q) \<Rightarrow>
          if sq_client entry \<noteq> cl_handle client then None
          else
            let (ret, client) = cmsg_client_buffer_send_retry env (client\<lparr>cl_queue := q\<rparr>) (sq_buffer entry) 10
            in if ret = CMSG_RET_ERR then Some (CMSG_RET_ERR, client)
               else client_process_loop env client)"
  by pat_completeness auto
termination client_process_loop
proof (relation "measure (\<lambda>(env, client). length (cl_queue client))", goal_cases)
  case (2 env client x q entry rc ret client')
  then have "same_client (client\<lparr>cl_queue := q\<rparr>) client'"
    by (auto simp: cmsg_client_buffer_send_retry_def dest: same_client_send_loop [OF sym])
  then have "cl_queue client' = q" by (auto simp: same_client_def)
  with 2 show ?case using length_pop_tail [of "cl_queue client"] by (metis in_measure lessI old.prod.case)
qed simp

declare client_process_loop.simps [simp del]

definition cmsg_client_queue_process_all_direct ::
  "(nat \<Rightarrow> cmsg_transport) \<Rightarrow> 'm client_env \<Rightarrow> cmsg_client \<Rightarrow> (int \<times> cmsg_client) option" where
  "cmsg_client_queue_process_all_direct tports env client =
     map_option (\<lambda>(ret, client).
        (ret,
         if ret = CMSG_RET_ERR
         then client\<lparr>cl_queue := cmsg_send_queue_free_all_by_transport tports (cl_queue client) (cl_transport client)\<rparr>
         else client))
       (client_process_loop env client)"

text \<open>
  Called on another thread than the client's own, it first waits for something to be queued;
  \<open>None\<close> when nothing is (it would wait for ever), else the counter goes down by one.
\<close>

definition cmsg_client_queue_process_all ::
  "(nat \<Rightarrow> cmsg_transport) \<Rightarrow> 'm client_env \<Rightarrow> bool \<Rightarrow> cmsg_client \<Rightarrow> (int \<times> cmsg_client) option" where
  "cmsg_client_queue_process_all tports env own_thread client =
     (if own_thread then cmsg_client_queue_process_all_direct tports env client
      else if cl_process_count client = 0 then None
      else map_option (\<lambda>(ret, client). (ret, client\<lparr>cl_process_count := cl_process_count client - 1\<rparr>))
             (cmsg_client_queue_process_all_direct tports env client))"

definition cmsg_client_queue_filter_set_all ::
  "cmsg_client \<Rightarrow> cmsg_queue_filter_type \<Rightarrow> cmsg_client option" where
  "cmsg_client_queue_filter_set_all client filter_type =
     map_option (\<lambda>tbl. client\<lparr>cl_filters := tbl\<rparr>)
       (cmsg_queue_filter_set_all (cl_filters client) (cl_descriptor client) filter_type)"

definition cmsg_client_queue_filter_clear_all :: "cmsg_client \<Rightarrow> cmsg_client option" where
  "cmsg_client_queue_filter_clear_all client =
     map_option (\<lambda>tbl. client\<lparr>cl_filters := tbl\<rparr>)
       (cmsg_queue_filter_clear_all (cl_filters client) (cl_descriptor client))"

definition cmsg_client_queue_filter_set ::
  "cmsg_client \<Rightarrow> string \<Rightarrow> cmsg_queue_filter_type \<Rightarrow> int \<times> cmsg_client" where
  "cmsg_client_queue_filter_set client meth filter_type =
     (let (ret, tbl) = cmsg_queue_filter_set (cl_filters client) meth filter_type
      in (ret, client\<lparr>cl_filters := tbl\<rparr>))"

definition cmsg_client_queue_filter_clear :: "cmsg_client \<Rightarrow> string \<Rightarrow> int \<times> cmsg_client" where
  "cmsg_client_queue_filter_clear client meth =
     (let (ret, tbl) = cmsg_queue_filter_clear (cl_filters client) meth
      in (ret, client\<lparr>cl_filters := tbl\<rparr>))"

definition cmsg_client_queue_enable :: "cmsg_client \<Rightarrow> cmsg_client option" where
  "cmsg_client_queue_enable client = cmsg_client_queue_filter_set_all client CMSG_QUEUE_FILTER_QUEUE"

definition cmsg_client_queue_disable ::
  "(nat \<Rightarrow> cmsg_transport) \<Rightarrow> 'm client_env \<Rightarrow> bool \<Rightarrow> cmsg_client \<Rightarrow> (int \<times> cmsg_client) option" where
  "cmsg_client_queue_disable tports env own_thread client =
     Option.bind (cmsg_client_queue_filter_set_all client CMSG_QUEUE_FILTER_PROCESS)
       (cmsg_client_queue_process_all tports env own_thread)"

end
