(* ===== verification/EndToEnd.thy ===== *)
theory EndToEnd
  imports ServerQueue Client
begin

text \<open>
  A call from end to end: the client's packet, what the server does with it, and what the
  client makes of the reply.
\<close>

section \<open>The client's packet\<close>

definition client_env_ok :: "'m client_env \<Rightarrow> bool" where
  "client_env_ok env \<longleftrightarrow>
     (\<forall>m. length (ce_pack env m) = ce_packed_size env m \<and> ce_packed_size env m < 2000000000)"

definition call_packet :: "endian \<Rightarrow> string \<Rightarrow> u8 list \<Rightarrow> u8 list" where
  "call_packet e nm body = method_packet e CMSG_MSG_TYPE_METHOD_REQ CMSG_STATUS_CODE_UNSET nm body"

lemma create_packet_builds:
  assumes "client_env_ok env" "length nm < 128" "ce_alloc env (cl_trace c)"
  shows "cmsg_client_create_packet env c nm m =
    Some ((CMSG_RET_OK, call_packet (ce_endian env) nm (ce_pack env m)), c)"
proof -
  have n: "length (ce_pack env m) = ce_packed_size env m" "ce_packed_size env m < 2000000000"
    using assms(1) by (auto simp: client_env_ok_def)
  note sz = packet_sizes [OF assms(2) n(2)]
  obtain buf where "cmsg_tlv_method_header_create (ce_endian env)
      (replicate (25 + length nm + ce_packed_size env m) 0)
      (cmsg_header_create (ce_endian env) CMSG_MSG_TYPE_METHOD_REQ
        (CMSG_TLV_SIZE (of_nat (Suc (length nm)))) (of_nat (ce_packed_size env m)) CMSG_STATUS_CODE_UNSET)
      CMSG_TLV_METHOD_TYPE (of_nat (Suc (length nm))) nm = Some buf"
    "mem_write buf (25 + length nm) (ce_pack env m) = Some (call_packet (ce_endian env) nm (ce_pack env m))"
    unfolding call_packet_def using packet_built [OF assms(2) n(2) n(1)] by blast
  then show ?thesis
    using sz assms(3) by (simp add: cmsg_client_create_packet_def Let_def n)
qed

section \<open>The server's receive\<close>

text \<open>A service as the generator makes it, and one of its methods.\<close>

definition service_method :: "service_descriptor \<Rightarrow> nat \<Rightarrow> string \<Rightarrow> bool" where
  "service_method d i nm \<longleftrightarrow>
     wf_descriptor d \<and> i < length (svc_methods d) \<and> svc_methods d ! i = nm \<and>
     is_cstring nm \<and> nm \<noteq> [] \<and> length nm < 128"

lemma service_method_index:
  assumes "service_method d i nm"
  obtains idx where "method_indices_by_name d = Some idx" "wf_method_table (svc_methods d) idx"
    "unat (of_nat i :: u32) = i"
proof -
  from assms have "svc_methods d \<noteq> []" "wf_descriptor d" "i < length (svc_methods d)"
    by (auto simp: service_method_def)
  then obtain idx where idx: "method_indices_by_name d = Some idx" "wf_method_table (svc_methods d) idx"
    by (auto simp: wf_descriptor_def split: option.splits)
  then have "length (svc_methods d) < 2 ^ 32" by (simp add: wf_method_table_def)
  with \<open>i < _\<close> have "unat (of_nat i :: u32) = i" by (simp only: unat_of_nat) simp
  with idx that show ?thesis by blast
qed

abbreviation call_request :: "nat \<Rightarrow> string \<Rightarrow> u8 list \<Rightarrow> cmsg_server_request" where
  "call_request i nm body \<equiv>
     \<lparr>req_msg_type = msg_type_code CMSG_MSG_TYPE_METHOD_REQ, req_message_length = of_nat (length body),
      req_method_index = of_nat i, req_method_name_recvd = nm\<rparr>"

text \<open>A call packet, whole in the buffer, reaches the message processor as its request.\<close>

lemma receive_call_packet:
  assumes sm: "service_method (srv_service s) i nm" and len: "length body < 2000000000"
  shows "server_receive_result env s sock
      (CMSG_RET_OK, call_packet (env_endian env) nm body @ pad,
       Some (packet_header CMSG_MSG_TYPE_METHOD_REQ CMSG_STATUS_CODE_UNSET nm body),
       int (25 + length nm + length body)) =
    map_option (\<lambda>(_, s'). (CMSG_RET_OK, s'))
      (cmsg_server_message_processor env sock (call_request i nm body) s (body @ pad))"
proof -
  let ?e = "env_endian env"
  let ?len = "of_nat (Suc (length nm)) :: u32"
  define hdr where "hdr = packet_header CMSG_MSG_TYPE_METHOD_REQ CMSG_STATUS_CODE_UNSET nm body"
  define tlv where "tlv = be_bytes CMSG_TLV_METHOD_TYPE @ be_bytes ?len @ bytes_of_string nm @ [0]"
  define w where "w = CMSG_TLV_SIZE ?len"
  have nm: "length nm < 128" using sm by (simp add: service_method_def)
  obtain h where "call_packet ?e nm body = header_to_mem ?e h @ tlv @ body"
    unfolding call_packet_def tlv_def
    by (rule packet_split [of ?e CMSG_MSG_TYPE_METHOD_REQ CMSG_STATUS_CODE_UNSET nm body]) simp
  then have body: "drop 16 (call_packet ?e nm body @ pad) = tlv @ body @ pad" by simp
  obtain idx where idx: "method_indices_by_name (srv_service s) = Some idx"
    "wf_method_table (svc_methods (srv_service s)) idx"
    using service_method_index [OF sm] by metis
  have tlv: "cmsg_tlv_header_process ?e (tlv @ body @ pad) req w (Some (srv_service s)) =
      Some (CMSG_RET_OK, req\<lparr>req_method_index := of_nat i, req_method_name_recvd := nm\<rparr>)" for req
    using packet_tlv [OF idx, of i nm ?e "body @ pad" req] sm
    by (simp add: service_method_def tlv_def w_def)
  have "unat w = length tlv"
    using packet_sizes(2) [OF nm len] by (simp add: bytes_of_string_def w_def tlv_def)
  then have rest: "drop (unat w) (tlv @ body @ pad) = body @ pad" by simp
  have hl: "header_length hdr - cmsg_header_size = w" "hdr_msg_type hdr = msg_type_code CMSG_MSG_TYPE_METHOD_REQ"
    "message_length hdr = of_nat (length body)"
    by (simp_all add: hdr_def packet_header_def w_def)
  have dyn: "sint (message_length hdr + header_length hdr) = int (25 + length nm + length body)"
    using packet_sizes(5) [OF nm len] by (simp add: packet_header_def add.commute hdr_def)
  have "server_receive_result env s sock (CMSG_RET_OK, call_packet ?e nm body @ pad, Some hdr,
       int (25 + length nm + length body)) =
      cmsg_server_recv_process env sock (tlv @ body @ pad) s w (message_length hdr + header_length hdr)
        (int (25 + length nm + length body)) hdr"
    by (simp add: server_receive_result_def body hl Let_def CMSG_RET_OK_def del: drop_append)
  also have "\<dots> = map_option (\<lambda>(_, s'). (CMSG_RET_OK, s'))
      (cmsg_server_message_processor env sock (call_request i nm body) s (body @ pad))"
    using dyn by (simp add: cmsg_server_recv_process_def tlv rest hl del: drop_append)
  finally show ?thesis by (simp add: hdr_def)
qed

section \<open>The replies of a call\<close>

text \<open>The empty reply with a status, and the packet that answers with a response.\<close>

definition status_packet :: "endian \<Rightarrow> cmsg_status_code \<Rightarrow> u8 list" where
  "status_packet e st = header_to_mem e (cmsg_header_create e CMSG_MSG_TYPE_METHOD_REPLY 0 0 st)"

definition answer_packet :: "'m server_env \<Rightarrow> string \<Rightarrow> 'm option \<Rightarrow> u8 list" where
  "answer_packet env nm r =
     (case r of
        Some m \<Rightarrow> reply_packet (env_endian env) nm (pack_msg env m)
      | None \<Rightarrow> status_packet (env_endian env) CMSG_STATUS_CODE_SERVICE_FAILED)"

text \<open>The events \<open>evs\<close> send the packets \<open>pkts\<close> on \<open>sock\<close> and run the implementations \<open>calls\<close>.\<close>

definition acts ::
  "int \<Rightarrow> u8 list list \<Rightarrow> (nat \<times> 'm option) list \<Rightarrow> 'm cmsg_server \<Rightarrow> 'm cmsg_server \<Rightarrow> bool" where
  "acts sock pkts calls s s' \<longleftrightarrow>
     (\<exists>evs. s' = trace_ext evs s \<and> sent_packets evs = map (Pair sock) pkts \<and> impl_calls evs = calls)"

lemma acts_trans: "acts sock p c s s1 \<Longrightarrow> acts sock p' c' s1 s2 \<Longrightarrow> acts sock (p @ p') (c @ c') s s2"
  by (fastforce simp: acts_def)

lemma acts_refl: "acts sock [] [] s s"
  by (auto simp: acts_def trace_ext_def intro: exI [of _ "[]"])

lemma acts_count: "acts sock p c s s1 \<Longrightarrow> acts sock p c s (CMSG_COUNTER_INC s1 k)"
  by (fastforce simp: acts_def server_log_ext)

lemma acts_free: "acts sock p c s s1 \<Longrightarrow> acts sock p c s (server_log (Ev_free m) s1)"
  by (fastforce simp: acts_def server_log_ext)

lemma acts_fields: "acts sock p c s s' \<Longrightarrow> crypto_sas s' = crypto_sas s \<and> srv_transport_type s' = srv_transport_type s
    \<and> app_owns_all_msgs s' = app_owns_all_msgs s \<and> srv_service s' = srv_service s"
  by (auto simp: acts_def)

lemma plain_send:
  "crypto_sas s = None \<Longrightarrow> cmsg_server_send_wrapper env s sock bs = (r, s') \<Longrightarrow> acts sock [bs] [] s s'"
  by (auto simp: cmsg_server_send_wrapper_def server_send_def server_log_ext acts_def intro: exI [of _ "[Ev_send sock bs]"])

lemma plain_empty_reply:
  assumes "crypto_sas s = None"
  shows "acts sock [status_packet (env_endian env) st] [] s (cmsg_server_empty_method_reply_send env sock s st)"
proof -
  obtain r s1 where w: "cmsg_server_send_wrapper env s sock (status_packet (env_endian env) st) = (r, s1)"
    by fastforce
  with plain_send [OF assms w] acts_count [OF plain_send [OF assms w]] show ?thesis
    by (simp add: cmsg_server_empty_method_reply_send_def server_send_header_def status_packet_def)
qed

definition rpc_plain :: "'m cmsg_server \<Rightarrow> bool" where
  "rpc_plain s \<longleftrightarrow> crypto_sas s = None \<and> cmsg_server_get_closure_func (srv_transport_type s) = Closure_rpc"

lemma closure_answers:
  assumes "env_ok env" "rpc_plain s" "length (req_method_name_recvd req) < 128" "\<And>t. alloc_ok env t"
  shows "\<exists>s'. server_closure_call env s sock req CMSG_METHOD_OK_TO_INVOKE r = Some s' \<and>
    acts sock [answer_packet env (req_method_name_recvd req) r] [] s s'"
proof (cases r)
  case None
  have "crypto_sas s = None" using assms(2) by (simp add: rpc_plain_def)
  from acts_count [OF plain_empty_reply [OF this]] show ?thesis
    using assms(2) None by (simp add: server_closure_call_def cmsg_server_closure_rpc_def rpc_plain_def answer_packet_def)
next
  case (Some m)
  have plain: "crypto_sas s = None" using assms(2) by (simp add: rpc_plain_def)
  let ?pkt = "reply_packet (env_endian env) (req_method_name_recvd req) (pack_msg env m)"
  obtain k s1 where w: "cmsg_server_send_wrapper env s sock ?pkt = (k, s1)" by fastforce
  note a = plain_send [OF plain w]
  show ?thesis
    using assms(2) Some closure_rpc_reply_sends [OF assms(1,3,4) refl, of s sock m] w a acts_count [OF a]
    by (simp add: server_closure_call_def cmsg_server_closure_rpc_def rpc_plain_def answer_packet_def)
qed

lemma responses_answer:
  assumes "env_ok env" "rpc_plain s" "length (req_method_name_recvd req) < 128" "\<And>t. alloc_ok env t"
  shows "\<exists>s'. send_responses (\<lambda>msg s. server_closure_call env s sock req CMSG_METHOD_OK_TO_INVOKE msg) rs s = Some s' \<and>
    acts sock (map (answer_packet env (req_method_name_recvd req)) rs) [] s s'"
  using assms(2)
proof (induction rs arbitrary: s)
  case (Cons r rs)
  obtain s1 where s1: "server_closure_call env s sock req CMSG_METHOD_OK_TO_INVOKE r = Some s1"
    "acts sock [answer_packet env (req_method_name_recvd req) r] [] s s1"
    using closure_answers [OF assms(1) Cons.prems assms(3,4)] by blast
  then have "rpc_plain s1" using Cons.prems acts_fields by (metis rpc_plain_def)
  from Cons.IH [OF this] s1 acts_trans [OF s1(2)] show ?case by fastforce
qed (simp add: acts_refl)

text \<open>A method that runs: its implementation, then one packet for each of its responses.\<close>

definition method_ready :: "'m server_env \<Rightarrow> nat \<Rightarrow> 'm \<Rightarrow> bool" where
  "method_ready env i m \<longleftrightarrow> has_impl env i \<and>
     (case validation_func env i of None \<Rightarrow> True | Some v \<Rightarrow> v m = None)"

definition method_arg :: "'m server_env \<Rightarrow> nat \<Rightarrow> 'm \<Rightarrow> 'm option" where
  "method_arg env i m = (if input_n_fields env i = 0 then None else Some m)"

lemma invoke_answers:
  assumes "env_ok env" "rpc_plain s" "length (req_method_name_recvd req) < 128" "\<And>t. alloc_ok env t"
    and idx: "unat (req_method_index req) < length (svc_methods (srv_service s))"
    and ready: "method_ready env (unat (req_method_index req)) m"
    and impl: "\<And>t. fst (impl_func env t (unat (req_method_index req)) (method_arg env (unat (req_method_index req)) m)) = rs"
  shows "\<exists>s'. cmsg_server_invoke env sock req s m CMSG_METHOD_OK_TO_INVOKE = Some s' \<and>
    acts sock (map (answer_packet env (req_method_name_recvd req)) rs)
      [(unat (req_method_index req), method_arg env (unat (req_method_index req)) m)]
      (s\<lparr>app_owns_current_msg := False\<rparr>) s'"
proof -
  let ?i = "unat (req_method_index req)"
  let ?arg = "method_arg env ?i m"
  let ?closure = "\<lambda>msg s. server_closure_call env s sock req CMSG_METHOD_OK_TO_INVOKE msg"
  define s0 where "s0 = (if has_unknown_fields env m then CMSG_COUNTER_INC s cntr_unknown_fields else s)"
  have a0: "acts sock [] [] s s0" by (simp add: s0_def acts_refl acts_count)
  obtain owns where f: "impl_func env (srv_trace s0) ?i ?arg = (rs, owns)"
    using impl by (metis prod.collapse)
  define b where "b = (owns \<or> app_owns_current_msg s0)"
  define s1 where "s1 = server_log (Ev_impl ?i ?arg) (s0\<lparr>app_owns_current_msg := b\<rparr>)"
  have s1': "(if owns then server_log (Ev_impl ?i ?arg) s0\<lparr>app_owns_current_msg := True\<rparr>
      else server_log (Ev_impl ?i ?arg) s0) = s1"
    by (auto simp: s1_def b_def server_log_def)
  have "rpc_plain s1" using assms(2) acts_fields [OF a0] by (simp add: s1_def rpc_plain_def server_log_ext)
  from responses_answer [OF assms(1) this assms(3,4)] obtain s2 where
    s2: "send_responses ?closure rs s1 = Some s2"
    "acts sock (map (answer_packet env (req_method_name_recvd req)) rs) [] s1 s2" by blast
  have run: "cmsg_server_invoke_impl env (req_method_index req) m ?closure s0 = Some s2"
    using ready idx f s1' s2(1) acts_fields [OF a0]
    by (auto simp: cmsg_server_invoke_impl_def invoke_impl_func_def method_ready_def method_arg_def [symmetric]
        cmsg_service_input_valid_def Let_def split: option.splits)
  define s3 where "s3 = (if \<not> (app_owns_current_msg s2 \<or> app_owns_all_msgs s2) then server_log (Ev_free m) s2 else s2)
      \<lparr>app_owns_current_msg := False\<rparr>"
  have "cmsg_server_invoke env sock req s m CMSG_METHOD_OK_TO_INVOKE = Some s3"
    by (simp add: cmsg_server_invoke_def Let_def s0_def [symmetric] run s3_def)
  moreover have "acts sock (map (answer_packet env (req_method_name_recvd req)) rs) [(?i, ?arg)]
      (s\<lparr>app_owns_current_msg := False\<rparr>) s3"
  proof -
    obtain e0 where e0: "s0 = trace_ext e0 s" "sent_packets e0 = []" "impl_calls e0 = []"
      using a0 by (auto simp: acts_def)
    obtain e2 where e2: "s2 = trace_ext e2 s1" "sent_packets e2 = map (Pair sock) (map (answer_packet env (req_method_name_recvd req)) rs)"
      "impl_calls e2 = []"
      using s2(2) unfolding acts_def by blast
    let ?free = "if \<not> (app_owns_current_msg s2 \<or> app_owns_all_msgs s2) then [Ev_free m] else []"
    have "s3 = trace_ext (e0 @ [Ev_impl ?i ?arg] @ e2 @ ?free) (s\<lparr>app_owns_current_msg := False\<rparr>)"
      by (auto simp: s3_def e2(1) s1_def e0(1) server_log_def trace_ext_def)
    with e0 e2 show ?thesis by (auto simp: acts_def)
  qed
  ultimately show ?thesis by blast
qed

section \<open>Receiving a call and its reply from a transport\<close>

fun filter_reason :: "cmsg_queue_filter_type \<Rightarrow> cmsg_method_processing_reason option" where
  "filter_reason CMSG_QUEUE_FILTER_PROCESS = Some CMSG_METHOD_OK_TO_INVOKE"
| "filter_reason CMSG_QUEUE_FILTER_QUEUE = Some CMSG_METHOD_QUEUED"
| "filter_reason CMSG_QUEUE_FILTER_DROP = Some CMSG_METHOD_DROPPED"
| "filter_reason CMSG_QUEUE_FILTER_ERROR = None"

lemma message_processor_call:
  assumes sm: "service_method (srv_service s) i nm" and len: "length body < 2000000000"
    and un: "unpack_msg env i body = Some m"
    and flt: "filter_reason (cmsg_server_queue_filter_lookup s nm) = Some reason"
  shows "cmsg_server_message_processor env sock (call_request i nm body) s (body @ pad) =
    map_option (Pair CMSG_RET_OK) (cmsg_server_invoke env sock (call_request i nm body)
      (CMSG_COUNTER_INC s cntr_rpc) m reason)"
proof -
  obtain idx where i: "unat (of_nat i :: u32) = i" using service_method_index [OF sm] by metis
  have n: "unat (of_nat (length body) :: u32) = length body"
    using len by (simp only: unat_of_nat) simp
  have flt': "cmsg_server_queue_filter_lookup (CMSG_COUNTER_INC s cntr_rpc) nm = cmsg_server_queue_filter_lookup s nm"
    by (simp add: cmsg_server_queue_filter_lookup_def server_log_def)
  have "msg_type_of_code (msg_type_code CMSG_MSG_TYPE_METHOD_REQ) = Some CMSG_MSG_TYPE_METHOD_REQ"
    unfolding msg_type_of_code_METHOD_REQ ..
  then show ?thesis
    using sm un flt' flt i n
    by (cases "cmsg_server_queue_filter_lookup s nm")
      (simp_all add: cmsg_server_message_processor_def cmsg_server_method_req_message_processor_def
        service_method_def Let_def del: msg_type_code.simps)
qed

lemma server_receive_call:
  assumes src: "byte_source recv pending"
    and t: "pending t = call_packet (env_endian env) nm body" "clocks \<noteq> []"
    and plain: "crypto_sas s = None"
    and sm: "service_method (srv_service s) i nm" and len: "length body < 2000000000"
  shows "\<exists>t' pad. pending t' = [] \<and>
    cmsg_server_receive env recv derive True c2 timeout clocks s sock t =
      map_option (\<lambda>(_, s'). (CMSG_RET_OK, s', t'))
        (cmsg_server_message_processor env sock (call_request i nm body) s (body @ pad))"
proof -
  have nm: "length nm < 128" using sm by (simp add: service_method_def)
  let ?hdr = "packet_header CMSG_MSG_TYPE_METHOD_REQ CMSG_STATUS_CODE_UNSET nm body"
  let ?out = "\<lparr>sr_buffer = replicate 512 0,
      sr_header = \<lparr>hdr_msg_type = 0, header_length = 0, message_length = 0, hdr_status_code = 0\<rparr>,
      sr_nbytes = 0\<rparr>"
  obtain h rest where h: "call_packet (env_endian env) nm body = header_to_mem (env_endian env) h @ rest"
    "cmsg_header_process (env_endian env) h = (CMSG_RET_OK, ?hdr)"
    unfolding call_packet_def
    by (rule packet_split [of "env_endian env" CMSG_MSG_TYPE_METHOD_REQ CMSG_STATUS_CODE_UNSET nm body]) blast
  have rest: "length rest = 9 + length nm + length body"
    using arg_cong [OF h(1), of length] by (simp add: call_packet_def)
  have sz: "unat (message_length ?hdr + header_length ?hdr) = 16 + length rest"
    using packet_header_lengths(3) [OF nm len] rest by simp
  from byte_source.server_recv_packet [OF src, of t "env_endian env" h rest clocks True ?hdr ?out timeout]
  obtain t' where recv: "cmsg_transport_server_recv (env_endian env) recv True timeout clocks ?out t =
      Some (CMSG_RET_OK, ?out\<lparr>sr_header := ?hdr,
        sr_buffer := fill_buffer (max 512 (16 + length rest)) (header_to_mem (env_endian env) h @ rest),
        sr_nbytes := int (16 + length rest)\<rparr>, t')" "pending t' = []"
    using t h sz by auto
  let ?pad = "replicate (max 512 (16 + length rest) - length (call_packet (env_endian env) nm body)) 0"
  have nb: "int (16 + length rest) = int (25 + length nm + length body)" using rest by simp
  have "cmsg_server_receive env recv derive True c2 timeout clocks s sock t =
      map_option (\<lambda>(ret, s'). (ret, s', t')) (server_receive_result env s sock
        (CMSG_RET_OK, call_packet (env_endian env) nm body @ ?pad, Some ?hdr, int (25 + length nm + length body)))"
    using plain recv(1) unfolding nb
    by (simp add: cmsg_server_receive_def cmsg_server_crypto_enabled_def fill_buffer_def h(1))
  also have "\<dots> = map_option (\<lambda>(_, s'). (CMSG_RET_OK, s', t'))
        (cmsg_server_message_processor env sock (call_request i nm body) s (body @ ?pad))"
    by (simp only: receive_call_packet [OF sm len] option.map_comp) (simp add: comp_def case_prod_unfold)
  finally show ?thesis using recv(2) by blast
qed

text \<open>The client reads the reply off its transport.\<close>

lemma client_receives_reply:
  assumes src: "byte_source recv pending"
    and t: "pending t = reply_packet e nm body" "clocks \<noteq> []"
    and sm: "service_method d i nm" and len: "length body < 2000000000"
    and un: "unpack i body = Some m"
  shows "\<exists>t'. pending t' = [] \<and>
    cmsg_transport_client_recv e d unpack recv True timeout clocks t =
      Some (status_code CMSG_STATUS_CODE_SUCCESS, Some m, t')"
proof -
  have nm: "length nm < 128" using sm by (simp add: service_method_def)
  define hdr where "hdr = packet_header CMSG_MSG_TYPE_METHOD_REPLY CMSG_STATUS_CODE_SUCCESS nm body"
  let ?len = "of_nat (Suc (length nm)) :: u32"
  define tlv where "tlv = be_bytes CMSG_TLV_METHOD_TYPE @ be_bytes ?len @ bytes_of_string nm @ [0]"
  obtain h where h: "reply_packet e nm body = header_to_mem e h @ tlv @ body"
    "cmsg_header_process e h = (CMSG_RET_OK, hdr)"
    unfolding reply_packet_def hdr_def tlv_def
    by (rule packet_split [of e CMSG_MSG_TYPE_METHOD_REPLY CMSG_STATUS_CODE_SUCCESS nm body]) simp
  obtain idx where idx: "method_indices_by_name d = Some idx" "wf_method_table (svc_methods d) idx"
    "unat (of_nat i :: u32) = i"
    using service_method_index [OF sm] by metis
  have tl: "length tlv = 9 + length nm" by (simp add: tlv_def bytes_of_string_def)
  note hl = packet_header_lengths [OF nm len, of CMSG_MSG_TYPE_METHOD_REPLY CMSG_STATUS_CODE_SUCCESS, folded hdr_def]
  let ?dyn = "message_length hdr + header_length hdr - cmsg_header_size"
  have "cmsg_header_size \<le> message_length hdr + header_length hdr"
    using hl(3) by (simp add: word_le_nat_alt)
  then have dyn: "unat ?dyn = 9 + length nm + length body"
    using hl(3) by (simp add: unat_diff_le)
  then have dynw: "?dyn = of_nat (9 + length nm + length body)" by (metis of_nat_unat ucast_id)
  have dyns: "sint ?dyn = int (9 + length nm + length body)"
    unfolding dynw using nm len by (simp only: signed_of_nat) (simp add: signed_take_bit_int_eq_self)
  have dyn0: "?dyn \<noteq> 0" using dyn by (metis add_eq_0_iff_both_eq_0 unat_0 zero_neq_numeral)
  have pend: "16 \<le> length (pending t)" using t(1) h(1) by simp
  obtain t1 where t1: "cmsg_transport_peek_for_header recv timeout cmsg_header_size clocks t =
      Some (CMSG_PEEK_CODE_SUCCESS, take 16 (pending t), t1)" "pending t1 = pending t"
    using byte_source.peek_header [OF src pend t(2)] by metis
  have ne1: "pending t1 \<noteq> []" using pend t1 by auto
  obtain t2 where t2: "recv t1 cmsg_header_size False = (Recv_ok (header_to_mem e h), t2)"
    "pending t2 = tlv @ body"
    using byte_source.recv_read [OF src ne1, of cmsg_header_size] t1(2) t(1) h(1) by (auto simp del: append_assoc)
  have ne2: "pending t2 \<noteq> []" using t2(2) tl by auto
  obtain t3 where t3: "recv t2 ?dyn False = (Recv_ok (tlv @ body), t3)" "pending t3 = []"
    using byte_source.recv_read [OF src ne2, of ?dyn] t2(2) dyn tl by auto
  define n where "n = (if 512 < ?dyn then unat ?dyn else 512)"
  define pad where "pad = replicate (n - length (tlv @ body)) (0 :: u8)"
  have tlv: "cmsg_tlv_header_process e (tlv @ body @ pad) req (header_length hdr - cmsg_header_size) (Some d) =
      Some (CMSG_RET_OK, req\<lparr>req_method_index := of_nat i, req_method_name_recvd := nm\<rparr>)" for req
    using packet_tlv [OF idx(1,2), of i nm e "body @ pad" req] sm hl(5)
    by (simp add: service_method_def tlv_def)
  have body: "client_recv_body e d unpack hdr (tlv @ body @ pad) =
      Some (status_code CMSG_STATUS_CODE_SUCCESS, Some m)"
    using sm un idx(3) hl(2,4) tl
    by (simp add: client_recv_body_def tlv Let_def service_method_def)
      (simp add: hdr_def packet_header_def)
  have "client_recv_rest e d unpack recv True hdr t2 =
      Some (status_code CMSG_STATUS_CODE_SUCCESS, Some m, t3)"
    using dyn0 dyns t3(1) tl body
    by (simp add: client_recv_rest_def Let_def recv_bytes_def recv_nbytes_def fill_buffer_def
        n_def [symmetric] pad_def)
  then have "cmsg_transport_client_recv e d unpack recv True timeout clocks t =
      Some (status_code CMSG_STATUS_CODE_SUCCESS, Some m, t3)"
    using t1(1) t2(1) h(2) by (simp add: cmsg_transport_client_recv_def)
  with t3(2) show ?thesis by blast
qed

section \<open>Calls that are not run\<close>

lemma invoke_queues:
  assumes "rpc_plain s" "\<And>t. alloc_ok env t"
  shows "\<exists>s'. cmsg_server_invoke env sock req s m CMSG_METHOD_QUEUED = Some s' \<and>
    acts sock [status_packet (env_endian env) CMSG_STATUS_CODE_SERVICE_QUEUED] []
      (s\<lparr>srv_queue := \<lparr>rq_method_index = req_method_index req, rq_buffer = m\<rparr> # srv_queue s,
         max_queue_length := max (max_queue_length s) (Suc (length (srv_queue s)))\<rparr>) s'"
proof -
  let ?u = "\<lambda>s. s\<lparr>srv_queue := \<lparr>rq_method_index = req_method_index req, rq_buffer = m\<rparr> # srv_queue s,
         max_queue_length := max (max_queue_length s) (Suc (length (srv_queue s)))\<rparr>"
  define s0 where "s0 = (if has_unknown_fields env m then CMSG_COUNTER_INC s cntr_unknown_fields else s)"
  have u0: "acts sock [] [] (?u s) (?u s0)"
    by (cases "has_unknown_fields env m")
      (auto simp: s0_def acts_def server_log_def trace_ext_def intro: exI [of _ "[]"] exI [of _ "[Ev_count cntr_unknown_fields]"])
  have rpc: "crypto_sas (?u s0) = None" "cmsg_server_get_closure_func (srv_transport_type s0) = Closure_rpc"
    using assms(1) by (auto simp: s0_def rpc_plain_def server_log_ext)
  have run: "cmsg_server_invoke env sock req s m CMSG_METHOD_QUEUED =
      Some (CMSG_COUNTER_INC (cmsg_server_empty_method_reply_send env sock (?u s0) CMSG_STATUS_CODE_SERVICE_QUEUED)
        cntr_messages_queued)"
    using rpc(2) assms(2)
    by (simp add: cmsg_server_invoke_def Let_def s0_def [symmetric] cmsg_receive_queue_push_def
        g_queue_push_head_def server_closure_call_def cmsg_server_closure_rpc_def)
  from acts_count [OF acts_trans [OF u0 plain_empty_reply [OF rpc(1)]]] run show ?thesis by fastforce
qed

lemma invoke_drops:
  assumes "rpc_plain s"
  shows "\<exists>s'. cmsg_server_invoke env sock req s m CMSG_METHOD_DROPPED = Some s' \<and>
    acts sock [status_packet (env_endian env) CMSG_STATUS_CODE_SERVICE_DROPPED] [] s s'"
proof -
  define s0 where "s0 = (if has_unknown_fields env m then CMSG_COUNTER_INC s cntr_unknown_fields else s)"
  have u0: "acts sock [] [] s s0"
    by (simp add: s0_def acts_refl acts_count)
  have rpc: "crypto_sas s0 = None" "cmsg_server_get_closure_func (srv_transport_type s0) = Closure_rpc"
    using assms by (auto simp: s0_def rpc_plain_def server_log_ext)
  let ?s1 = "CMSG_COUNTER_INC (cmsg_server_empty_method_reply_send env sock s0 CMSG_STATUS_CODE_SERVICE_DROPPED)
     cntr_messages_dropped"
  have run: "cmsg_server_invoke env sock req s m CMSG_METHOD_DROPPED = Some (server_log (Ev_free m) ?s1)"
    using rpc(2)
    by (simp add: cmsg_server_invoke_def Let_def s0_def [symmetric]
        server_closure_call_def cmsg_server_closure_rpc_def)
  have "acts sock [status_packet (env_endian env) CMSG_STATUS_CODE_SERVICE_DROPPED] [] s ?s1"
    using acts_count [OF acts_trans [OF u0 plain_empty_reply [OF rpc(1)]]] by simp
  from acts_free [OF this] run show ?thesis by blast
qed

end
