(* ===== verification/Demo.thy ===== *)
theory Demo
  imports EndToEnd
begin

text \<open>
  A small service for the concrete instances of the properties: two methods, messages of one
  boolean packed as one byte, and an implementation of \<open>flip\<close> that answers with the negation.
\<close>

definition demo_service :: service_descriptor where
  "demo_service = \<lparr>svc_name = ''demo'', svc_methods = [''ping'', ''flip''],
                   method_indices_by_name = Some [1, 0]\<rparr>"

definition demo_pack :: "bool \<Rightarrow> u8 list" where
  "demo_pack b = [if b then 1 else 0]"

definition demo_unpack :: "nat \<Rightarrow> u8 list \<Rightarrow> bool option" where
  "demo_unpack i bs = (case bs of [b] \<Rightarrow> Some (b = 1) | _ \<Rightarrow> None)"

definition demo_evp :: evp where
  "demo_evp = \<lparr>encrypt_init = \<lambda>_. True, encrypt_update = \<lambda>_ bs. Some (rev bs), encrypt_final = \<lambda>_ _. Some [],
               decrypt_init = \<lambda>_. True, decrypt_update = \<lambda>_ bs. Some (rev bs), decrypt_final = \<lambda>_ _. Some []\<rparr>"

definition demo_env :: "bool server_env" where
  "demo_env = \<lparr>env_endian = LittleEndian, packed_size = \<lambda>_. 1, pack_msg = demo_pack,
     unpack_msg = demo_unpack, has_unknown_fields = \<lambda>_. False, input_n_fields = \<lambda>_. 1,
     validation_func = \<lambda>_. None, ant_response = \<lambda>_ _. None, has_impl = \<lambda>_. True,
     impl_func = \<lambda>_ _ arg. ([map_option Not arg], False), alloc_ok = \<lambda>_. True,
     send_ret = \<lambda>_ _ bs. int (length bs), env_evp = demo_evp\<rparr>"

definition demo_client_env :: "bool client_env" where
  "demo_client_env = \<lparr>ce_endian = LittleEndian, ce_packed_size = \<lambda>_. 1, ce_pack = demo_pack,
     ce_unknown_fields = \<lambda>_. False, ce_connect = \<lambda>_. 0, ce_send = \<lambda>_ bs. int (length bs),
     ce_answer = \<lambda>_. (1, Some False), ce_alloc = \<lambda>_. True, ce_filter_func = None,
     ce_callback = False, ce_evp = demo_evp, ce_rand = \<lambda>_. Some (replicate 64 7),
     ce_derive = \<lambda>sa _. (0, sa\<lparr>sa_ctx_in_init := True, sa_ctx_out_init := True\<rparr>)\<rparr>"

abbreviation demo_server :: "bool cmsg_server" where
  "demo_server \<equiv> cmsg_server_create CMSG_TRANSPORT_RPC_UNIX demo_service"

abbreviation demo_client :: cmsg_client where
  "demo_client \<equiv> cmsg_client_init 1 2 CMSG_TRANSPORT_RPC_UNIX demo_service"

lemma demo_service_wf: "wf_descriptor demo_service"
  by (simp add: wf_descriptor_def demo_service_def wf_method_table_def)

lemma demo_flip: "service_method demo_service 1 ''flip''"
  using demo_service_wf by (simp add: service_method_def demo_service_def is_cstring_def)

lemma demo_env_ok: "env_ok demo_env"
  by (simp add: env_ok_def demo_env_def demo_pack_def)

lemma demo_client_env_ok: "client_env_ok demo_client_env"
  by (simp add: client_env_ok_def demo_client_env_def demo_pack_def)

end
