(* ===== verification/ServerProperties.thy ===== *)
theory ServerProperties
  imports Demo
begin

text \<open>The properties of the server, each with a concrete instance.\<close>

section \<open>The server as a state machine\<close>

text \<open>
  C2: Whatever a server of a well-formed service receives, plain or encrypted, with a sane header or
  not, and whatever accepts, filter changes and queue operations it goes through, its filter table
  holds exactly its methods, every queued call names a method of the service, the recorded maximum
  bounds the queue, and in the disabled state no method is set to queue. (That is as long as the code
  stays within defined behaviour, and packing a message fills its packed size, as protobuf-c says.)
\<close>

theorem server_reachable_invariant:
  assumes "server_reachable env d s" "env_ok env" "wf_descriptor d"
  shows "filter_covers (queue_filters s) (srv_service s) \<and>
    (\<forall>e \<in> set (srv_queue s). unat (rq_method_index e) < length (svc_methods (srv_service s))) \<and>
    length (srv_queue s) \<le> max_queue_length s \<and>
    (queueing_state s = CMSG_QUEUE_STATE_DISABLED \<longrightarrow>
       (\<forall>m \<in> set (svc_methods (srv_service s)).
          cmsg_queue_filter_lookup (queue_filters s) m \<noteq> CMSG_QUEUE_FILTER_QUEUE))"
  using server_reachable_inv [OF assms] by (auto simp: server_inv_def server_ok_def)

definition demo_enabled :: "bool cmsg_server" where
  "demo_enabled = demo_server\<lparr>queueing_state := CMSG_QUEUE_STATE_ENABLED,
     queue_filters := [(''ping'', CMSG_QUEUE_FILTER_QUEUE), (''flip'', CMSG_QUEUE_FILTER_QUEUE)]\<rparr>"

lemma demo_enable: "cmsg_server_queue_enable demo_server = Some demo_enabled"
  by (simp add: cmsg_server_queue_enable_def cmsg_server_queue_filter_set_all_def demo_enabled_def
      cmsg_server_create_def cmsg_queue_filter_set_all_def cmsg_queue_filter_init_def demo_service_def)

lemma demo_enabled_reachable: "server_reachable demo_env demo_service demo_enabled"
  by (rule server_reachable.Step [OF server_reachable.Start [of _ _ CMSG_TRANSPORT_RPC_UNIX] server_step.Set_all])
    (rule demo_enable [unfolded cmsg_server_queue_enable_def])

theorem server_reachable_invariant_witness:
  "filter_covers (queue_filters demo_enabled) (srv_service demo_enabled)"
  using server_reachable_invariant [OF demo_enabled_reachable demo_env_ok demo_service_wf] by blast

text \<open>
  C3: On a reachable server no operation is undefined: any packet whose header is sane (its
  lengths add up and fit the buffer, a call carries a TLV), whatever its other bytes, and every
  filter and queue operation gives a result.
\<close>

theorem server_operations_defined:
  assumes "server_reachable env d s" "env_ok env" "wf_descriptor d"
  shows "(\<forall>r sock. received_sane r \<longrightarrow> (\<exists>res. server_receive_result env s sock r = Some res)) \<and>
    (\<exists>res. cmsg_server_queue_process env s = Some res) \<and>
    (\<exists>res. cmsg_server_queue_process_all env s = Some res) \<and>
    (\<forall>ty. \<exists>res. cmsg_server_queue_filter_set_all s ty = Some res) \<and>
    (\<forall>m ty. \<exists>res. cmsg_server_queue_filter_set s m ty = Some res) \<and>
    (\<forall>m. \<exists>res. cmsg_server_queue_filter_clear s m = Some res)"
  using server_reachable_inv [OF assms] server_inv_receive [OF assms(2)] queue_process_inv
    server_inv_process_all server_inv_set_all server_inv_filter_set server_inv_filter_clear
  by blast

theorem server_operations_defined_witness:
  "\<exists>res. cmsg_server_queue_process demo_env demo_enabled = Some res"
  using server_operations_defined [OF demo_enabled_reachable demo_env_ok demo_service_wf] by blast

section \<open>What a call is answered\<close>

text \<open>
  A call to a method set to queue is not run: it is put at the end of the queue, the
  maximum length follows, and the caller gets one empty reply saying it was queued.
\<close>

lemma queued_call_replies:
  assumes "rpc_plain s" "service_method (srv_service s) i nm" "length body < 2000000000"
    and "unpack_msg env i body = Some m" "\<And>t. alloc_ok env t"
    and "cmsg_server_queue_filter_lookup s nm = CMSG_QUEUE_FILTER_QUEUE"
  shows "\<exists>s' evs. cmsg_server_message_processor env sock (call_request i nm body) s (body @ pad) =
      Some (CMSG_RET_OK, s') \<and>
    s' = trace_ext evs (s\<lparr>srv_queue := \<lparr>rq_method_index = of_nat i, rq_buffer = m\<rparr> # srv_queue s,
        max_queue_length := max (max_queue_length s) (Suc (length (srv_queue s)))\<rparr>) \<and>
    sent_packets evs = [(sock, status_packet (env_endian env) CMSG_STATUS_CODE_SERVICE_QUEUED)] \<and>
    impl_calls evs = []"
proof -
  let ?s = "CMSG_COUNTER_INC s cntr_rpc"
  have rpc: "rpc_plain ?s" using assms(1) by (simp add: rpc_plain_def server_log_ext)
  obtain s' where inv: "cmsg_server_invoke env sock (call_request i nm body) ?s m CMSG_METHOD_QUEUED = Some s'"
    and "acts sock [status_packet (env_endian env) CMSG_STATUS_CODE_SERVICE_QUEUED] []
      (?s\<lparr>srv_queue := \<lparr>rq_method_index = of_nat i, rq_buffer = m\<rparr> # srv_queue ?s,
         max_queue_length := max (max_queue_length ?s) (Suc (length (srv_queue ?s)))\<rparr>) s'"
    using invoke_queues [OF rpc assms(5), of sock "call_request i nm body" m] by auto
  then obtain evs where "s' = trace_ext (Ev_count cntr_rpc # evs)
      (s\<lparr>srv_queue := \<lparr>rq_method_index = of_nat i, rq_buffer = m\<rparr> # srv_queue s,
         max_queue_length := max (max_queue_length s) (Suc (length (srv_queue s)))\<rparr>)"
      "sent_packets evs = [(sock, status_packet (env_endian env) CMSG_STATUS_CODE_SERVICE_QUEUED)]"
      "impl_calls evs = []"
    by (auto simp: acts_def server_log_def trace_ext_def)
  with message_processor_call [OF assms(2-4), of CMSG_METHOD_QUEUED] assms(6) inv show ?thesis
    by fastforce
qed

lemma demo_call_facts:
  "rpc_plain demo_enabled" "service_method (srv_service demo_enabled) 1 ''flip''"
  "unpack_msg demo_env 1 [1] = Some True" "alloc_ok demo_env t"
  "cmsg_server_queue_filter_lookup demo_enabled ''flip'' = CMSG_QUEUE_FILTER_QUEUE"
  using demo_flip
  by (simp_all add: rpc_plain_def demo_enabled_def cmsg_server_create_def demo_env_def demo_unpack_def
      cmsg_server_queue_filter_lookup_def cmsg_queue_filter_lookup_def)

text \<open>
  A call to a method set to drop is not run and not queued; the caller gets one empty reply
  saying it was dropped, and nothing of the server but its trace changes.
\<close>

lemma dropped_call_replies:
  assumes "rpc_plain s" "service_method (srv_service s) i nm" "length body < 2000000000"
    and "unpack_msg env i body = Some m"
    and "cmsg_server_queue_filter_lookup s nm = CMSG_QUEUE_FILTER_DROP"
  shows "\<exists>s'. cmsg_server_message_processor env sock (call_request i nm body) s (body @ pad) =
      Some (CMSG_RET_OK, s') \<and>
    acts sock [status_packet (env_endian env) CMSG_STATUS_CODE_SERVICE_DROPPED] [] s s'"
proof -
  let ?s = "CMSG_COUNTER_INC s cntr_rpc"
  have rpc: "rpc_plain ?s" using assms(1) by (simp add: rpc_plain_def server_log_ext)
  obtain s' where s': "cmsg_server_invoke env sock (call_request i nm body) ?s m CMSG_METHOD_DROPPED = Some s'"
    "acts sock [status_packet (env_endian env) CMSG_STATUS_CODE_SERVICE_DROPPED] [] ?s s'"
    using invoke_drops [OF rpc] by blast
  have "acts sock [] [] s ?s" by (simp add: acts_refl acts_count)
  from acts_trans [OF this s'(2)] message_processor_call [OF assms(2-4), of CMSG_METHOD_DROPPED] assms(5) s'(1)
  show ?thesis by simp
qed

definition demo_dropping :: "bool cmsg_server" where
  "demo_dropping = demo_enabled\<lparr>queue_filters := [(''ping'', CMSG_QUEUE_FILTER_PROCESS), (''flip'', CMSG_QUEUE_FILTER_DROP)]\<rparr>"

text \<open>
  A call to a method the service does not have is not run; the caller gets one empty reply
  saying the method was not found, so that it does not wait for ever.
\<close>

lemma unknown_method_replies:
  assumes "crypto_sas s = None" "wf_descriptor (srv_service s)"
    and nm: "nm \<notin> set (svc_methods (srv_service s))" "is_cstring nm" "nm \<noteq> []" "length nm < 128"
    and len: "length body < 2000000000"
  shows "\<exists>s'. server_receive_result env s sock
      (CMSG_RET_OK, call_packet (env_endian env) nm body @ pad,
       Some (packet_header CMSG_MSG_TYPE_METHOD_REQ CMSG_STATUS_CODE_UNSET nm body),
       int (25 + length nm + length body)) = Some (CMSG_RET_METHOD_NOT_FOUND, s') \<and>
    acts sock [status_packet (env_endian env) CMSG_STATUS_CODE_SERVER_METHOD_NOT_FOUND] [] s s'"
proof -
  let ?e = "env_endian env"
  let ?len = "of_nat (Suc (length nm)) :: u32"
  define w where "w = CMSG_TLV_SIZE ?len"
  define hdr where "hdr = packet_header CMSG_MSG_TYPE_METHOD_REQ CMSG_STATUS_CODE_UNSET nm body"
  define tlv where "tlv = be_bytes CMSG_TLV_METHOD_TYPE @ be_bytes ?len @ bytes_of_string nm @ [0]"
  obtain h where "call_packet ?e nm body = header_to_mem ?e h @ tlv @ body"
    unfolding call_packet_def tlv_def
    by (rule packet_split [of ?e CMSG_MSG_TYPE_METHOD_REQ CMSG_STATUS_CODE_UNSET nm body]) simp
  then have body: "drop 16 (call_packet ?e nm body @ pad) = tlv @ body @ pad" by simp
  have tlv: "cmsg_tlv_header_process ?e (tlv @ body @ pad) req w (Some (srv_service s)) =
      Some (CMSG_RET_METHOD_NOT_FOUND, req\<lparr>req_method_index := UNDEFINED_METHOD\<rparr>)" for req
    using packet_tlv_unknown [OF assms(2) nm, of ?e "body @ pad" req] by (simp add: tlv_def w_def)
  have hl: "header_length hdr - cmsg_header_size = w"
    by (simp add: hdr_def packet_header_def w_def)
  let ?s' = "CMSG_COUNTER_INC (cmsg_server_empty_method_reply_send env sock s
      CMSG_STATUS_CODE_SERVER_METHOD_NOT_FOUND) cntr_unknown_rpc"
  have "server_receive_result env s sock (CMSG_RET_OK, call_packet ?e nm body @ pad, Some hdr,
       int (25 + length nm + length body)) =
      cmsg_server_recv_process env sock (tlv @ body @ pad) s w
        (message_length hdr + header_length hdr) (int (25 + length nm + length body)) hdr"
    by (simp only: server_receive_result_def prod.case body bind.bind_lunit Let_def hl)
      (simp add: CMSG_RET_OK_def)
  also have "\<dots> = Some (CMSG_RET_METHOD_NOT_FOUND, ?s')"
    by (simp add: cmsg_server_recv_process_def tlv Let_def cmsg_codes)
  finally show ?thesis
    using acts_count [OF plain_empty_reply [OF assms(1)]] by (simp add: hdr_def)
qed

section \<open>The queue\<close>

text \<open>
  C28: Disabling queueing and then letting the server process its queue runs every waiting call
  exactly once, oldest first (those with an implementation and valid input), sends nothing,
  empties the queue, and leaves queueing disabled with every method processed at once.
\<close>

theorem disable_drains_in_order:
  assumes "server_inv s"
  shows "\<exists>s1 n s2 evs. cmsg_server_queue_disable s = Some s1 \<and>
    cmsg_server_queue_process env s1 = Some (n, s2) \<and>
    srv_queue s2 = [] \<and> queueing_state s2 = CMSG_QUEUE_STATE_DISABLED \<and> \<not> queue_in_process s2 \<and>
    (\<forall>m \<in> set (svc_methods (srv_service s)).
       cmsg_queue_filter_lookup (queue_filters s2) m = CMSG_QUEUE_FILTER_PROCESS) \<and>
    srv_trace s2 = srv_trace s @ evs \<and> sent_packets evs = [] \<and>
    impl_calls evs = map (queued_call env) (filter (runs_impl env) (rev (srv_queue s)))"
proof -
  obtain s0 where s0: "cmsg_server_queue_filter_set_all s CMSG_QUEUE_FILTER_PROCESS = Some s0" "server_inv s0"
    using server_inv_set_all [OF assms] by blast
  define s1 where "s1 = cmsg_server_queue_request_process_all s0"
  have ok: "server_ok s1" using s0(2)
    by (simp add: s1_def cmsg_server_queue_request_process_all_def server_inv_def server_ok_def)
  have same: "srv_queue s1 = srv_queue s" "srv_trace s1 = srv_trace s" "srv_service s1 = srv_service s"
    "queueing_state s1 = CMSG_QUEUE_STATE_TO_DISABLED" "queue_process_number s1 = -1"
    using s0(1) by (auto simp: s1_def cmsg_server_queue_request_process_all_def cmsg_server_queue_filter_set_all_def)
  obtain n evs b q tbl drained where run:
    "cmsg_server_queue_process env s1 = Some (n,
      (trace_ext evs (s1\<lparr>app_owns_current_msg := b, srv_queue := q, queue_filters := tbl,
         queue_process_number := (if drained then 0 else queue_process_number s1),
         queue_in_process := \<not> drained,
         queueing_state := (if drained then CMSG_QUEUE_STATE_DISABLED else CMSG_QUEUE_STATE_TO_DISABLED),
         queueing_state_last := (if drained then CMSG_QUEUE_STATE_DISABLED else CMSG_QUEUE_STATE_TO_DISABLED)\<rparr>)))"
    "drained \<longleftrightarrow> q = []" "sent_packets evs = []"
    "\<And>m. drained \<Longrightarrow> m \<in> set (svc_methods (srv_service s1)) \<Longrightarrow>
       cmsg_queue_filter_lookup tbl m = CMSG_QUEUE_FILTER_PROCESS"
    "queue_process_number s1 = -1 \<Longrightarrow> q = [] \<and>
       impl_calls evs = map (queued_call env) (filter (runs_impl env) (rev (srv_queue s1)))"
    by (rule queue_process_to_disabled [OF ok same(4), of env]) blast
  then have "q = []" "drained" using same(5) by auto
  with run same s0(1) show ?thesis
    by (auto simp: cmsg_server_queue_disable_def s1_def [symmetric] intro!: exI [of _ s1])
qed

definition demo_queued :: "bool cmsg_server" where
  "demo_queued = demo_enabled\<lparr>srv_queue := [\<lparr>rq_method_index = 1, rq_buffer = False\<rparr>,
     \<lparr>rq_method_index = 1, rq_buffer = True\<rparr>], max_queue_length := 2\<rparr>"

lemma demo_queued_inv: "server_inv demo_queued"
  using demo_service_wf
  by (auto simp: server_inv_def server_ok_def demo_queued_def demo_enabled_def cmsg_server_create_def
      filter_covers_def demo_service_def)

theorem disable_drains_in_order_witness:
  "\<exists>s1 n s2 evs. cmsg_server_queue_disable demo_queued = Some s1 \<and>
    cmsg_server_queue_process demo_env s1 = Some (n, s2) \<and> srv_queue s2 = [] \<and>
    srv_trace s2 = srv_trace demo_queued @ evs \<and>
    impl_calls evs = [(1, Some True), (1, Some False)]"
proof -
  have "map (queued_call demo_env) (filter (runs_impl demo_env) (rev (srv_queue demo_queued))) =
      [(1, Some True), (1, Some False)]"
    by (simp add: demo_queued_def queued_call_def runs_impl_def demo_env_def)
  then show ?thesis using disable_drains_in_order [OF demo_queued_inv, of demo_env] by fastforce
qed

text \<open>
  Processing up to \<open>n\<close> queued calls runs the oldest ones in order, keeps the others in
  order, and sends no reply.
\<close>

lemma process_some_takes_oldest:
  assumes "server_inv s" "queueing_state s = CMSG_QUEUE_STATE_ENABLED"
  shows "\<exists>s' evs. cmsg_server_queue_process_some env s (int n) = Some (min n (length (srv_queue s)), s') \<and>
    srv_queue s' = rev (drop n (rev (srv_queue s))) \<and>
    srv_trace s' = srv_trace s @ evs \<and> sent_packets evs = [] \<and>
    impl_calls evs = map (queued_call env) (filter (runs_impl env) (take n (rev (srv_queue s))))"
proof -
  let ?s = "s\<lparr>queue_process_number := int n\<rparr>"
  have ok: "entries_ok ?s (srv_queue ?s)"
    using assms(1) by (simp add: server_inv_def server_ok_def entries_ok_def)
  obtain evs b where "fold (queued_call_result env) (take n (rev (srv_queue s))) ?s =
      trace_ext evs (?s\<lparr>app_owns_current_msg := b\<rparr>)" "sent_packets evs = []"
    "impl_calls evs = map (queued_call env) (filter (runs_impl env) (take n (rev (srv_queue s))))"
    using fold_queued_frame by blast
  with server_process_some_result [OF ok, of env n] assms(2) show ?thesis
    by (auto simp: cmsg_server_queue_process_some_def cmsg_server_queue_process_def queue_process_step_def)
qed

section \<open>Behaviour that surprises\<close>

text \<open>
  \<open>cmsg_server_drop_all\<close> does not last: the next time the server processes its (empty) queue,
  the filters it set to drop are replaced, and every method is processed again.
\<close>

lemma drop_all_is_lost:
  assumes "server_inv s" "srv_queue s = []"
  shows "\<exists>s1 n s2. cmsg_server_drop_all s = Some s1 \<and>
    (\<forall>m \<in> set (svc_methods (srv_service s)).
       cmsg_queue_filter_lookup (queue_filters s1) m = CMSG_QUEUE_FILTER_DROP) \<and>
    cmsg_server_queue_process env s1 = Some (n, s2) \<and>
    (\<forall>m \<in> set (svc_methods (srv_service s)).
       cmsg_queue_filter_lookup (queue_filters s2) m = CMSG_QUEUE_FILTER_PROCESS)"
proof -
  have ok: "server_ok s" using assms(1) by (simp add: server_inv_def)
  obtain tbl where tbl: "cmsg_queue_filter_set_all (queue_filters s) (srv_service s) CMSG_QUEUE_FILTER_DROP = Some tbl"
    "filter_covers tbl (srv_service s)"
    "\<And>m. m \<in> set (svc_methods (srv_service s)) \<Longrightarrow> cmsg_queue_filter_lookup tbl m = CMSG_QUEUE_FILTER_DROP"
    using filter_set_all_result [OF server_ok_cov [OF ok]] by metis
  define s1 where "s1 = s\<lparr>queueing_state := CMSG_QUEUE_STATE_TO_DISABLED, queue_filters := tbl\<rparr>"
  have s1: "cmsg_server_drop_all s = Some s1"
    by (simp add: cmsg_server_drop_all_def cmsg_server_queue_filter_set_all_def tbl(1) s1_def)
  have "server_ok s1" "queueing_state s1 = CMSG_QUEUE_STATE_TO_DISABLED"
    using ok tbl(2) by (simp_all add: s1_def server_ok_def)
  then obtain n evs b q tbl2 drained where run:
    "cmsg_server_queue_process env s1 = Some (n,
      (trace_ext evs (s1\<lparr>app_owns_current_msg := b, srv_queue := q, queue_filters := tbl2,
         queue_process_number := (if drained then 0 else queue_process_number s1),
         queue_in_process := \<not> drained,
         queueing_state := (if drained then CMSG_QUEUE_STATE_DISABLED else CMSG_QUEUE_STATE_TO_DISABLED),
         queueing_state_last := (if drained then CMSG_QUEUE_STATE_DISABLED else CMSG_QUEUE_STATE_TO_DISABLED)\<rparr>)))"
    "drained \<longleftrightarrow> q = []" "set q \<subseteq> set (srv_queue s1)"
    "\<And>m. drained \<Longrightarrow> m \<in> set (svc_methods (srv_service s1)) \<Longrightarrow>
       cmsg_queue_filter_lookup tbl2 m = CMSG_QUEUE_FILTER_PROCESS"
    by (rule queue_process_to_disabled [of s1 env]) blast
  then have "drained" using assms(2) by (simp add: s1_def)
  with run s1 tbl(3) show ?thesis by (auto simp: s1_def)
qed

text \<open>The states of a server whose queue is processed again and again.\<close>

primrec process_states :: "'m server_env \<Rightarrow> nat \<Rightarrow> 'm cmsg_server \<Rightarrow> 'm cmsg_server list" where
  "process_states env 0 s = []"
| "process_states env (Suc n) s =
     (case cmsg_server_queue_process env s of
        None \<Rightarrow> []
      | Some (_, s') \<Rightarrow> s' # process_states env n s')"

text \<open>
  A request to process the queue waits for ever on a server that was enabled again while
  its queue was being worked off: in the enabled state the flag it polls is never cleared,
  however often the queue is processed.
\<close>

lemma request_waits_for_ever:
  assumes "server_inv s" "queueing_state s = CMSG_QUEUE_STATE_ENABLED" "queue_in_process s"
  shows "length (process_states env n s) = n \<and> request_wait (process_states env n s) = None"
  using assms
proof (induction n arbitrary: s)
  case (Suc n)
  have ok: "server_ok s" using Suc.prems(1) by (simp add: server_inv_def)
  obtain k s' where s': "cmsg_server_queue_process env s = Some (k, s')" "server_inv s'"
    using queue_process_inv [OF Suc.prems(1)] by blast
  obtain j evs b q where
    "queue_process_step env s = Some (j, trace_ext evs (s\<lparr>app_owns_current_msg := b, srv_queue := q\<rparr>))"
    using queue_process_step_result [OF ok] by metis
  then have "queueing_state s' = CMSG_QUEUE_STATE_ENABLED" "queue_in_process s'"
    using s'(1) Suc.prems(2,3) by (auto simp: cmsg_server_queue_process_def)
  with Suc.IH [OF s'(2)] s' show ?case by simp
qed simp

definition demo_reenabled :: "bool cmsg_server" where
  "demo_reenabled = demo_queued\<lparr>queue_in_process := True\<rparr>"

text \<open>
  Clearing the filter of the only queueing method strands the calls that wait: the server
  goes straight to the disabled state, in which processing the queue does nothing.
\<close>

lemma filter_clear_strands_queue:
  assumes "server_inv s" "m \<in> set (svc_methods (srv_service s))"
    and "\<And>m'. m' \<in> set (svc_methods (srv_service s)) \<Longrightarrow> m' \<noteq> m \<Longrightarrow>
      cmsg_queue_filter_lookup (queue_filters s) m' \<noteq> CMSG_QUEUE_FILTER_QUEUE"
  shows "\<exists>s1. cmsg_server_queue_filter_clear s m = Some (CMSG_RET_OK, s1) \<and>
    srv_queue s1 = srv_queue s \<and>
    cmsg_server_queue_process env s1 = Some (0, s1\<lparr>queueing_state_last := CMSG_QUEUE_STATE_DISABLED\<rparr>)"
proof -
  have cov: "filter_covers (queue_filters s) (srv_service s)"
    using assms(1) by (simp add: server_inv_def server_ok_def)
  then have "m \<in> fst ` set (queue_filters s)" using assms(2) by (simp add: filter_covers_def)
  then obtain x where x: "map_of (queue_filters s) m = Some x"
    by (metis domD dom_map_of_conv_image_fst)
  let ?tbl = "AList.update m CMSG_QUEUE_FILTER_PROCESS (queue_filters s)"
  have "cmsg_queue_filter_lookup ?tbl m' \<noteq> CMSG_QUEUE_FILTER_QUEUE" if "m' \<in> set (svc_methods (srv_service s))" for m'
    using assms(3) [OF that] by (cases "m' = m") (auto simp: cmsg_queue_filter_lookup_def update_conv')
  then have "cmsg_queue_filter_get_type ?tbl (srv_service s) = Some CMSG_QUEUE_STATE_DISABLED"
    using filter_get_type_total [OF filter_covers_update [OF cov x]] by simp
  with x show ?thesis
    by (simp add: cmsg_server_queue_filter_clear_def cmsg_queue_filter_clear_def cmsg_server_queue_process_def)
qed

definition demo_one_queueing :: "bool cmsg_server" where
  "demo_one_queueing = demo_queued\<lparr>queue_filters := [(''ping'', CMSG_QUEUE_FILTER_PROCESS), (''flip'', CMSG_QUEUE_FILTER_QUEUE)]\<rparr>"

text \<open>
  A method request without a TLV reads the method table out of bounds before it checks the
  index: for every such packet the server's behaviour is undefined.
\<close>

lemma request_without_tlv_undefined:
  assumes "length (svc_methods (srv_service s)) < 4294967295"
    and "hdr_msg_type hdr = msg_type_code CMSG_MSG_TYPE_METHOD_REQ" "header_length hdr = cmsg_header_size"
    and "message_length hdr = 0" "0 < nbytes"
  shows "server_receive_result env s sock (CMSG_RET_OK, buf, Some hdr, nbytes) = None"
proof -
  have "unat UNDEFINED_METHOD = 4294967295" by (simp add: UNDEFINED_METHOD_def)
  moreover have "msg_type_of_code (msg_type_code CMSG_MSG_TYPE_METHOD_REQ) = Some CMSG_MSG_TYPE_METHOD_REQ"
    unfolding msg_type_of_code_METHOD_REQ ..
  ultimately show ?thesis
    using assms
    by (simp add: server_receive_result_def cmsg_server_recv_process_def cmsg_tlv_header_process_def
        CMSG_RET_OK_def cmsg_server_message_processor_def cmsg_server_method_req_message_processor_def
        array_get_def Let_def del: msg_type_code.simps)
qed

end
