(* ===== verification/ClientProperties.thy ===== *)
theory ClientProperties
  imports Demo
begin

text \<open>The properties of the client, each with a concrete instance.\<close>

text \<open>The packets a client put on its transport.\<close>

fun client_sends :: "client_event list \<Rightarrow> u8 list list" where
  "client_sends [] = []"
| "client_sends (Cl_send bs # evs) = bs # client_sends evs"
| "client_sends (_ # evs) = client_sends evs"

lemma client_sends_append [simp]: "client_sends (a @ b) = client_sends a @ client_sends b"
  by (induction a rule: client_sends.induct) simp_all

section \<open>Sending with one reconnection\<close>

lemma connect_plain:
  assumes "cmsg_client_connect env c = (r, c')" "cl_sa c = None"
  shows "\<exists>tr. cl_trace c' = cl_trace c @ tr \<and> client_sends tr = [] \<and> Cl_close \<notin> set tr \<and>
      (cl_state c \<noteq> CMSG_CLIENT_STATE_CONNECTED \<longrightarrow> Cl_connect \<in> set tr)" "cl_sa c' = None"
    "cl_state c' = CMSG_CLIENT_STATE_CONNECTED \<or> cl_state c' = CMSG_CLIENT_STATE_FAILED"
  using assms
  by (auto simp: cmsg_client_connect_def Let_def client_log_def split: if_splits)

lemma send_plain:
  "cl_sa c = None \<Longrightarrow> cmsg_client_transport_send env c bs =
     (ce_send env (cl_trace c) bs, c\<lparr>cl_trace := cl_trace c @ [Cl_send bs]\<rparr>)"
  by (simp add: cmsg_client_transport_send_def client_tport_send_def client_log_def)

lemma close_plain:
  "cl_sa c = None \<Longrightarrow> cmsg_client_close_wrapper c = c\<lparr>cl_trace := cl_trace c @ [Cl_close]\<rparr>"
  by (simp add: cmsg_client_close_wrapper_def client_log_def)

text \<open>
  C35: Sending a buffer on a client without encryption tries at most twice. The client connects if it is not connected; if
  that fails nothing is sent. A send that takes the whole buffer succeeds and leaves the client connected. After one that falls short the
  connection is closed, then connected again, and the buffer is sent once more as a whole; if that falls short as well the
  connection is closed again, a send error is counted, and the client has failed. Nothing else is sent or closed.
\<close>

theorem send_retry_once_outcome:
  assumes "cl_sa c = None" "cmsg_client_buffer_send_retry_once env c buf = (ret, c')"
  shows "\<exists>t1 t2. client_sends t1 = [] \<and> client_sends t2 = [] \<and> Cl_close \<notin> set t1 \<and> Cl_close \<notin> set t2 \<and>
    cl_trace (snd (cmsg_client_connect env c)) = cl_trace c @ t1 \<and>
    (let short = (\<lambda>tr. ce_send env tr buf < int (length buf));
         first = cl_trace c @ t1; again = first @ [Cl_send buf, Cl_close] @ t2 in
     ret = CMSG_RET_CLOSED \<and> cl_state c' = CMSG_CLIENT_STATE_FAILED \<and> cl_trace c' = first \<or>
     ret = CMSG_RET_OK \<and> cl_state c' = CMSG_CLIENT_STATE_CONNECTED \<and> \<not> short first \<and> cl_trace c' = first @ [Cl_send buf] \<or>
     short first \<and> Cl_connect \<in> set t2 \<and>
     (ret = CMSG_RET_CLOSED \<and> cl_state c' = CMSG_CLIENT_STATE_FAILED \<and> cl_trace c' = again \<or>
      ret = CMSG_RET_OK \<and> cl_state c' = CMSG_CLIENT_STATE_CONNECTED \<and> \<not> short again \<and> cl_trace c' = again @ [Cl_send buf] \<or>
      ret = CMSG_RET_ERR \<and> cl_state c' = CMSG_CLIENT_STATE_FAILED \<and> short again \<and>
        cl_trace c' = again @ [Cl_send buf, Cl_close, Cl_count cl_send_errors]))"
proof -
  obtain r1 c1 where 1: "cmsg_client_connect env c = (r1, c1)" by fastforce
  note p1 = connect_plain [OF 1 assms(1)]
  obtain t1 where t1: "cl_trace c1 = cl_trace c @ t1" "client_sends t1 = []" "Cl_close \<notin> set t1" using p1(1) by blast
  let ?c2 = "c1\<lparr>cl_trace := cl_trace c1 @ [Cl_send buf]\<rparr>"
  let ?c3 = "cmsg_client_close_wrapper (?c2\<lparr>cl_state := CMSG_CLIENT_STATE_CLOSED\<rparr>)"
  have c3: "cl_sa ?c3 = None" "cl_trace ?c3 = cl_trace c1 @ [Cl_send buf, Cl_close]"
    using p1(2) by (simp_all add: close_plain)
  obtain r4 c4 where 4: "cmsg_client_connect env ?c3 = (r4, c4)" by fastforce
  note p4 = connect_plain [OF 4 c3(1)]
  obtain t4 where t4: "cl_trace c4 = cl_trace c1 @ [Cl_send buf, Cl_close] @ t4" "client_sends t4 = []"
      "Cl_close \<notin> set t4" "Cl_connect \<in> set t4"
    using p4(1) c3 p1(2) by (auto simp: close_plain)
  let ?c5 = "c4\<lparr>cl_trace := cl_trace c4 @ [Cl_send buf]\<rparr>"
  let ?c6 = "client_log (Cl_count cl_send_errors)
     (cmsg_client_close_wrapper (?c5\<lparr>cl_state := CMSG_CLIENT_STATE_FAILED\<rparr>))"
  have c6: "cl_state ?c6 = CMSG_CLIENT_STATE_FAILED"
    "cl_trace ?c6 = cl_trace c4 @ [Cl_send buf, Cl_close, Cl_count cl_send_errors]"
    using p4(2) by (simp_all add: close_plain client_log_def)
  define whole2 where "whole2 \<longleftrightarrow> \<not> ce_send env (cl_trace c1) buf < int (length buf)"
  define whole5 where "whole5 \<longleftrightarrow> \<not> ce_send env (cl_trace c4) buf < int (length buf)"
  have "(ret, c') =
      (if cl_state c1 \<noteq> CMSG_CLIENT_STATE_CONNECTED then (CMSG_RET_CLOSED, c1)
       else if whole2 then (CMSG_RET_OK, ?c2)
       else if cl_state c4 \<noteq> CMSG_CLIENT_STATE_CONNECTED then (CMSG_RET_CLOSED, c4)
       else if whole5 then (CMSG_RET_OK, ?c5) else (CMSG_RET_ERR, ?c6))"
    unfolding assms(2) [symmetric] cmsg_client_buffer_send_retry_once_def Let_def 1 prod.case
      send_plain [OF p1(2)] 4 send_plain [OF p4(2)] whole2_def whole5_def by simp
  then consider (down) "cl_state c1 \<noteq> CMSG_CLIENT_STATE_CONNECTED" "ret = CMSG_RET_CLOSED" "c' = c1"
    | (sent) "cl_state c1 = CMSG_CLIENT_STATE_CONNECTED" whole2 "ret = CMSG_RET_OK" "c' = ?c2"
    | (down2) "\<not> whole2" "cl_state c4 \<noteq> CMSG_CLIENT_STATE_CONNECTED" "ret = CMSG_RET_CLOSED" "c' = c4"
    | (sent2) "\<not> whole2" "cl_state c4 = CMSG_CLIENT_STATE_CONNECTED" whole5 "ret = CMSG_RET_OK" "c' = ?c5"
    | (failed) "\<not> whole2" "\<not> whole5" "ret = CMSG_RET_ERR" "c' = ?c6"
    by (simp split: if_splits)
  then show ?thesis
  proof cases
    case down
    with t1 p1(3) 1 show ?thesis by (intro exI [of _ t1] exI [of _ "[]"]) (auto simp: Let_def)
  next
    case sent
    with t1 1 show ?thesis by (intro exI [of _ t1] exI [of _ "[]"]) (auto simp: Let_def whole2_def)
  next
    case down2
    with t1 t4 p4(3) 1 show ?thesis by (intro exI [of _ t1] exI [of _ t4]) (auto simp: Let_def whole2_def)
  next
    case sent2
    with t1 t4 1 show ?thesis by (intro exI [of _ t1] exI [of _ t4]) (auto simp: Let_def whole2_def whole5_def)
  next
    case failed
    then have "cl_trace c' = cl_trace c @ t1 @ [Cl_send buf, Cl_close] @ t4 @ [Cl_send buf, Cl_close, Cl_count cl_send_errors]"
      using c6(2) t1(1) t4(1) by simp
    with failed c6(1) t1 t4 1 show ?thesis by (intro exI [of _ t1] exI [of _ t4]) (auto simp: Let_def whole2_def whole5_def)
  qed
qed

theorem send_retry_once_outcome_witness:
  "cl_state (snd (cmsg_client_buffer_send_retry_once demo_client_env demo_client [1, 2])) =
     CMSG_CLIENT_STATE_CONNECTED"
proof -
  have "cl_sa demo_client = None" by (simp add: cmsg_client_init_def)
  moreover have "fst (cmsg_client_buffer_send_retry_once demo_client_env demo_client [1, 2]) = CMSG_RET_OK"
    by (simp add: cmsg_client_buffer_send_retry_once_def cmsg_client_connect_def Let_def demo_client_env_def
        cmsg_client_init_def cmsg_client_transport_send_def client_tport_send_def client_log_def)
  ultimately show ?thesis
    using send_retry_once_outcome [of demo_client demo_client_env "[1, 2]"]
    by (cases "cmsg_client_buffer_send_retry_once demo_client_env demo_client [1, 2]") (auto simp: Let_def cmsg_codes)
qed

section \<open>The send queue\<close>

text \<open>A server that can be reached and takes every buffer whole.\<close>

definition reachable_peer :: "'m client_env \<Rightarrow> bool" where
  "reachable_peer env \<longleftrightarrow> (\<forall>t. 0 \<le> ce_connect env t) \<and> (\<forall>t bs. ce_send env t bs = int (length bs))"

lemma buffer_send_reachable:
  assumes "reachable_peer env" "cl_sa c = None"
  obtains c' tr where "cmsg_client_buffer_send_retry env c bs n = (CMSG_RET_OK, c')"
    "cl_trace c' = cl_trace c @ tr" "client_sends tr = [bs]" "cl_sa c' = None" "same_client c c'"
proof -
  obtain r c1 where 1: "cmsg_client_connect env c = (r, c1)" by fastforce
  have conn: "cl_state c1 = CMSG_CLIENT_STATE_CONNECTED"
  proof -
    have "\<not> ce_connect env t < 0" for t using assms(1) by (simp add: reachable_peer_def not_less)
    with 1 show ?thesis by (auto simp: cmsg_client_connect_def Let_def split: if_splits)
  qed
  obtain tr where tr: "cl_trace c1 = cl_trace c @ tr" "client_sends tr = []"
    using connect_plain(1) [OF 1 assms(2)] by blast
  let ?c' = "c1\<lparr>cl_trace := cl_trace c1 @ [Cl_send bs]\<rparr>"
  have send: "cmsg_client_buffer_send env c bs = (CMSG_RET_OK, ?c')"
    using assms(1) conn by (simp add: cmsg_client_buffer_send_def 1 send_plain [OF connect_plain(2) [OF 1 assms(2)]]
        reachable_peer_def)
  then have "cmsg_client_buffer_send_retry env c bs n = (CMSG_RET_OK, ?c')"
    by (simp add: cmsg_client_buffer_send_retry_def)
  moreover have "same_client c ?c'" using same_client_buffer_send [OF send] .
  ultimately show ?thesis
    using that [of ?c' "tr @ [Cl_send bs]"] tr connect_plain(2) [OF 1 assms(2)] by simp
qed

lemma process_loop_reachable:
  assumes "reachable_peer env" "cl_sa c = None" "\<forall>e \<in> set (cl_queue c). sq_client e = cl_handle c"
  shows "\<exists>c' tr. client_process_loop env c = Some (CMSG_RET_OK, c') \<and> cl_queue c' = [] \<and>
    cl_trace c' = cl_trace c @ tr \<and> client_sends tr = map sq_buffer (rev (cl_queue c))"
  using assms(2,3)
proof (induction "cl_queue c" arbitrary: c rule: rev_induct)
  case Nil
  then have "client_process_loop env c = Some (CMSG_RET_OK, c)"
    by (subst client_process_loop.simps) (simp add: g_queue_pop_tail_def)
  with Nil show ?case by (intro exI [of _ c] exI [of _ "[]"]) simp
next
  case (snoc e q)
  let ?c = "c\<lparr>cl_queue := q\<rparr>"
  have pop: "g_queue_pop_tail (cl_queue c) = (Some e, q)"
    by (simp add: g_queue_pop_tail_def snoc.hyps(2) [symmetric])
  obtain c1 tr1 where c1: "cmsg_client_buffer_send_retry env ?c (sq_buffer e) 10 = (CMSG_RET_OK, c1)"
    "cl_trace c1 = cl_trace c @ tr1" "client_sends tr1 = [sq_buffer e]" "cl_sa c1 = None" "same_client ?c c1"
    by (rule buffer_send_reachable [OF assms(1), of ?c "sq_buffer e" 10]) (use snoc.prems in auto)
  then have same: "cl_queue c1 = q" "cl_handle c1 = cl_handle c" by (auto simp: same_client_def)
  have "\<forall>x \<in> set (cl_queue c1). sq_client x = cl_handle c1"
    using snoc.prems(2) snoc.hyps(2) same by (metis UnCI set_append)
  with snoc.hyps(1) [of c1] same c1(4) obtain c' tr where c':
    "client_process_loop env c1 = Some (CMSG_RET_OK, c')" "cl_queue c' = []"
    "cl_trace c' = cl_trace c1 @ tr" "client_sends tr = map sq_buffer (rev q)"
    by auto
  have "sq_client e = cl_handle c" using snoc.prems(2) snoc.hyps(2) by (metis in_set_conv_decomp)
  with c1(1) c'(1) have "client_process_loop env c = Some (CMSG_RET_OK, c')"
    by (subst client_process_loop.simps) (simp add: pop cmsg_codes)
  with c'(2-4) c1(2,3) show ?case
    by (intro exI [of _ c'] exI [of _ "tr1 @ tr"]) (simp add: snoc.hyps(2) [symmetric])
qed

text \<open>
  C29: When the server can be reached, processing the send queue sends every queued packet
  exactly once, in the order the calls were made, and leaves the queue empty.
\<close>

theorem queue_sent_in_order:
  assumes "reachable_peer env" "cl_sa c = None" "\<forall>e \<in> set (cl_queue c). sq_client e = cl_handle c"
  shows "\<exists>c' tr. cmsg_client_queue_process_all_direct tports env c = Some (CMSG_RET_OK, c') \<and>
    cl_queue c' = [] \<and> cl_trace c' = cl_trace c @ tr \<and>
    client_sends tr = map sq_buffer (rev (cl_queue c))"
  using process_loop_reachable [OF assms]
  by (auto simp: cmsg_client_queue_process_all_direct_def cmsg_codes)

definition demo_queueing_client :: cmsg_client where
  "demo_queueing_client = demo_client\<lparr>cl_queue :=
     [\<lparr>sq_method_name = ''flip'', sq_client = 1, sq_transport = 2, sq_buffer = [2]\<rparr>,
      \<lparr>sq_method_name = ''ping'', sq_client = 1, sq_transport = 2, sq_buffer = [1]\<rparr>]\<rparr>"

theorem queue_sent_in_order_witness:
  "\<exists>c' tr. cmsg_client_queue_process_all_direct (\<lambda>_. cmsg_transport_new CMSG_TRANSPORT_RPC_UNIX) demo_client_env demo_queueing_client =
      Some (CMSG_RET_OK, c') \<and> cl_queue c' = [] \<and> client_sends tr = [[1], [2]]"
proof -
  have "reachable_peer demo_client_env" "cl_sa demo_queueing_client = None"
    "\<forall>e \<in> set (cl_queue demo_queueing_client). sq_client e = cl_handle demo_queueing_client"
    "map sq_buffer (rev (cl_queue demo_queueing_client)) = [[1], [2]]"
    by (simp_all add: reachable_peer_def demo_client_env_def demo_queueing_client_def cmsg_client_init_def)
  then show ?thesis using queue_sent_in_order by metis
qed

lemma process_loop_total:
  "\<forall>e \<in> set (cl_queue c). sq_client e = cl_handle c \<Longrightarrow>
   \<exists>ret c'. client_process_loop env c = Some (ret, c') \<and> (ret \<noteq> CMSG_RET_ERR \<longrightarrow> cl_queue c' = []) \<and>
     cl_transport c' = cl_transport c"
proof (induction env c rule: client_process_loop.induct)
  case (1 env c)
  show ?case
  proof (cases "g_queue_pop_tail (cl_queue c)")
    case (Pair eo q)
    show ?thesis
    proof (cases eo)
      case None
      with Pair show ?thesis
        by (subst client_process_loop.simps) (auto simp: g_queue_pop_tail_def split: if_splits)
    next
      case (Some e)
      with Pair have eq: "cl_queue c = q @ [e]"
        by (auto simp: g_queue_pop_tail_def split: if_splits)
      then have e: "sq_client e = cl_handle c" using "1.prems" by simp
      obtain ret c1 where c1: "cmsg_client_buffer_send_retry env (c\<lparr>cl_queue := q\<rparr>) (sq_buffer e) 10 = (ret, c1)"
        by fastforce
      then have "same_client (c\<lparr>cl_queue := q\<rparr>) c1"
        unfolding cmsg_client_buffer_send_retry_def by (rule same_client_send_loop)
      then have same: "cl_queue c1 = q" "cl_handle c1 = cl_handle c" "cl_transport c1 = cl_transport c"
        by (auto simp: same_client_def)
      have step: "client_process_loop env c =
          (if ret = CMSG_RET_ERR then Some (CMSG_RET_ERR, c1) else client_process_loop env c1)"
        by (subst client_process_loop.simps) (simp add: Pair Some e c1)
      show ?thesis
      proof (cases "ret = CMSG_RET_ERR")
        case True
        with step same show ?thesis by simp
      next
        case False
        have "\<forall>x \<in> set (cl_queue c1). sq_client x = cl_handle c1"
          using "1.prems" eq same by simp
        from "1.IH" [OF Pair [symmetric] Some _ _ _ _ this, OF _ c1 [symmetric] refl] e False
        show ?thesis using step same by auto
      qed
    qed
  qed
qed

text \<open>
  C30: Whether or not the server can be reached, processing the send queue returns. Unless it returns an error every packet
  was handed over or dropped and the queue is empty. After an error no packet stays whose transport compares equal to the
  client's own. (Broadcast, forwarding and loopback transports compare equal to none, not even to themselves, so that the
  packets of such a client do stay after an error.)
\<close>

theorem queue_never_left_behind:
  assumes "\<forall>e \<in> set (cl_queue c). sq_client e = cl_handle c"
  shows "\<exists>ret c'. cmsg_client_queue_process_all_direct tports env c = Some (ret, c') \<and>
    (ret \<noteq> CMSG_RET_ERR \<longrightarrow> cl_queue c' = []) \<and>
    (\<forall>e \<in> set (cl_queue c'). \<not> cmsg_transport_compare (tports (sq_transport e)) (tports (cl_transport c)))"
proof -
  obtain ret c' where run: "client_process_loop env c = Some (ret, c')"
    "ret \<noteq> CMSG_RET_ERR \<longrightarrow> cl_queue c' = []" "cl_transport c' = cl_transport c"
    using process_loop_total [OF assms] by blast
  show ?thesis
  proof (cases "ret = CMSG_RET_ERR")
    case True
    with run show ?thesis
      by (simp add: cmsg_client_queue_process_all_direct_def cmsg_send_queue_free_all_by_transport_def
          send_queue_free_filter send_entry_matches_def)
  next
    case False
    with run show ?thesis by (simp add: cmsg_client_queue_process_all_direct_def)
  qed
qed

theorem queue_never_left_behind_witness:
  "\<exists>ret c'. cmsg_client_queue_process_all_direct (\<lambda>_. cmsg_transport_new CMSG_TRANSPORT_RPC_UNIX)
      (demo_client_env\<lparr>ce_connect := \<lambda>_. -1\<rparr>) demo_queueing_client = Some (ret, c') \<and> cl_queue c' = []"
proof -
  let ?t = "\<lambda>_ :: nat. cmsg_transport_new CMSG_TRANSPORT_RPC_UNIX"
  have "cmsg_transport_compare (?t 0) (?t 0)"
    by (simp add: cmsg_transport_compare_def cmsg_transport_new_def transport_init_defs Let_def)
  moreover have "\<forall>e \<in> set (cl_queue demo_queueing_client). sq_client e = cl_handle demo_queueing_client"
    by (simp add: demo_queueing_client_def cmsg_client_init_def)
  ultimately show ?thesis
    using queue_never_left_behind [of demo_queueing_client ?t "demo_client_env\<lparr>ce_connect := \<lambda>_. -1\<rparr>"]
    by (metis last_in_set)
qed

text \<open>What the comparison means for the other transports.\<close>

lemma incomparable_packets_stay:
  assumes "t_type (tports (cl_transport c)) \<in> {CMSG_TRANSPORT_BROADCAST, CMSG_TRANSPORT_FORWARDING, CMSG_TRANSPORT_LOOPBACK}"
    and "client_process_loop env c = Some (CMSG_RET_ERR, c1)" "cl_transport c1 = cl_transport c"
  shows "\<exists>ret c'. cmsg_client_queue_process_all_direct tports env c = Some (ret, c') \<and> cl_queue c' = cl_queue c1"
proof -
  have "\<not> cmsg_transport_compare u (tports (cl_transport c))" for u
    using assms(1) by (auto simp: cmsg_transport_compare_def)
  then show ?thesis using assms(2,3)
    by (simp add: cmsg_client_queue_process_all_direct_def cmsg_send_queue_free_all_by_transport_def
        send_queue_free_filter send_entry_matches_def)
qed

text \<open>
  A call to a method set to queue sends nothing: the packet the call would have sent is put
  at the end of the client's queue, and the caller is told it was queued.
\<close>

lemma client_queues_packet:
  assumes "client_env_ok env" "svc_methods (cl_descriptor c) ! i = nm" "i < length (svc_methods (cl_descriptor c))"
    and "unat (of_nat i :: u32) = i" "length nm < 128" "\<And>t. ce_alloc env t" "ce_filter_func env = None"
    and "cmsg_client_queue_filter_lookup c nm = CMSG_QUEUE_FILTER_QUEUE"
  shows "\<exists>c' tr. cmsg_client_invoke env c (of_nat i) (Some m) = Some ((CMSG_RET_QUEUED, None), c') \<and>
    cl_queue c' = \<lparr>sq_method_name = nm, sq_client = cl_handle c, sq_transport = cl_transport c,
        sq_buffer = call_packet (ce_endian env) nm (ce_pack env m)\<rparr> # cl_queue c \<and>
    cl_trace c' = cl_trace c @ tr \<and> client_sends tr = [] \<and> cl_state c' = cl_state c"
proof -
  let ?c = "client_log (Cl_count cl_messages_queued) c"
  have q: "cmsg_client_should_queue env c nm = ((CMSG_RET_OK, True), ?c)"
    using assms(7,8) by (simp add: cmsg_client_should_queue_def)
  have p: "cmsg_client_create_packet env ?c nm m = Some ((CMSG_RET_OK, call_packet (ce_endian env) nm (ce_pack env m)), ?c)"
    using create_packet_builds [OF assms(1,5)] assms(6) by blast
  show ?thesis
    using assms(2-6) p
    by (auto simp: cmsg_client_invoke_def cmsg_client_queue_input_def q cmsg_client_add_to_queue_def
        cmsg_send_queue_push_def g_queue_push_head_def cmsg_codes Let_def client_log_def)
qed

definition demo_queue_on_client :: cmsg_client where
  "demo_queue_on_client = demo_client\<lparr>cl_filters := [(''ping'', CMSG_QUEUE_FILTER_PROCESS), (''flip'', CMSG_QUEUE_FILTER_QUEUE)]\<rparr>"

end
