(* ===== verification/WireProperties.thy ===== *)
theory WireProperties
  imports Demo MsgHelpers "HOL-Library.Sublist"
begin

text \<open>The properties of the wire format and of the message helpers, each with a concrete instance.\<close>

section \<open>Headers and method names\<close>

text \<open>
  Hosts of either byte order understand each other's headers: what one writes, the other
  reads back as the type, the sizes and the status that were meant, and accepts.
\<close>

lemma header_crosses_hosts:
  "cmsg_header_process there (header_of_mem there
      (header_to_mem here (cmsg_header_create here t extra packed st) @ rest)) =
    (CMSG_RET_OK, \<lparr>hdr_msg_type = msg_type_code t, header_length = cmsg_header_size + extra,
                   message_length = packed, hdr_status_code = status_code st\<rparr>)"
proof -
  have "header_to_mem here (cmsg_header_create here t extra packed st) =
      header_to_mem there (cmsg_header_create there t extra packed st)"
    by (simp add: header_to_mem_def cmsg_header_create_def Let_def)
  then show ?thesis by (simp add: cmsg_header_process_create)
qed

text \<open>
  C32: On a generated descriptor the binary search over the ranks finds exactly the methods of
  the service: a name gets the index of the method of that name, and an unknown one gets
  \<open>UNDEFINED_METHOD\<close>, whatever the table's size.
\<close>

theorem method_lookup_correct:
  assumes "method_indices_by_name d = Some idx" "wf_method_table (svc_methods d) idx"
  shows "(\<exists>i < length (svc_methods d). svc_methods d ! i = nm \<and>
            protobuf_c_service_descriptor_get_method_index_by_name (Some d) nm = Some (of_nat i)) \<or>
         nm \<notin> set (svc_methods d) \<and>
            protobuf_c_service_descriptor_get_method_index_by_name (Some d) nm = Some UNDEFINED_METHOD"
  by (cases rule: method_lookup_cases [OF assms, of nm]) auto

theorem method_lookup_correct_witness:
  "protobuf_c_service_descriptor_get_method_index_by_name (Some demo_service) ''pong'' = Some UNDEFINED_METHOD"
proof -
  have "wf_method_table (svc_methods demo_service) [1, 0]"
    using demo_service_wf by (simp add: wf_descriptor_def demo_service_def)
  then show ?thesis
    using method_lookup_correct [of demo_service "[1, 0]" "''pong''"]
    by (auto simp: demo_service_def less_Suc_eq numeral_2_eq_2)
qed

text \<open>
  C27: The TLV parser is safe on anything: whatever bytes and whatever lengths in them, as long as
  the claimed header size lies in the received buffer it reads nothing outside it and ends; and
  if it accepts a nonempty TLV header, the index it reports is a method of the service.
\<close>

theorem tlv_parser_safe:
  assumes "wf_descriptor d" "unat extra \<le> length buf"
  shows "\<exists>ret req'. cmsg_tlv_header_process e buf req extra (Some d) = Some (ret, req') \<and>
    (ret = CMSG_RET_OK \<and> extra \<noteq> 0 \<longrightarrow>
       unat (req_method_index req') < length (svc_methods d) \<and> length (req_method_name_recvd req') < 128)"
  using cmsg_tlv_header_process_safe [OF assms, of e req]
    cmsg_tlv_header_process_index [of e buf req extra d, OF _ assms(1)]
  by (auto simp: request_names_method_def)

theorem tlv_parser_safe_witness:
  "\<forall>req. \<exists>r. cmsg_tlv_header_process LittleEndian (replicate 200 0xFF) req 150 (Some demo_service) = Some r"
proof
  fix req
  show "\<exists>r. cmsg_tlv_header_process LittleEndian (replicate 200 0xFF) req 150 (Some demo_service) = Some r"
    using tlv_parser_safe [of demo_service 150 "replicate 200 0xFF" LittleEndian req] demo_service_wf by auto
qed

text \<open>
  C31: What the sender's TLV writer puts after the header, the receiver's parser turns back into
  the method's index and name, between hosts of any byte order and whatever follows in the buffer.
\<close>

theorem tlv_round_trip:
  assumes meth: "service_method d i nm"
    and len: "len = of_nat (Suc (length nm))" "24 + unat len \<le> length buf"
  shows "\<exists>pkt. cmsg_tlv_method_header_create here buf h CMSG_TLV_METHOD_TYPE len nm = Some pkt \<and>
    length pkt = length buf \<and>
    cmsg_tlv_header_process there (drop 16 pkt) req (CMSG_TLV_SIZE len) (Some d) =
      Some (CMSG_RET_OK, req\<lparr>req_method_index := of_nat i, req_method_name_recvd := nm\<rparr>)"
proof -
  obtain idx where "method_indices_by_name d = Some idx" "wf_method_table (svc_methods d) idx"
      "svc_methods d ! i = nm" "i < length (svc_methods d)" "is_cstring nm" "nm \<noteq> []" "length nm < 128"
    using meth by (auto simp: service_method_def wf_descriptor_def split: option.splits)
  then show ?thesis
    using len cmsg_tlv_method_header_create_layout [OF len(2), of here h CMSG_TLV_METHOD_TYPE nm]
      cmsg_tlv_header_process_sent [of d idx i nm len there "drop (24 + unat len) buf" req]
    by simp
qed

theorem tlv_round_trip_witness:
  "\<forall>h req. \<exists>pkt. cmsg_tlv_method_header_create BigEndian (replicate 40 0) h CMSG_TLV_METHOD_TYPE 5 ''flip'' = Some pkt \<and>
    cmsg_tlv_header_process LittleEndian (drop 16 pkt) req (CMSG_TLV_SIZE 5) (Some demo_service) =
      Some (CMSG_RET_OK, req\<lparr>req_method_index := 1, req_method_name_recvd := ''flip''\<rparr>)"
  using tlv_round_trip [OF demo_flip, of 5 "replicate 40 0" BigEndian _ LittleEndian] by auto

section \<open>Messages in memory and in files\<close>

text \<open>
  Appending to a repeated field is exact: starting from an empty field, any number of
  appends, with any of the block allocations failing, never writes outside the block, and the
  field then holds in order the values whose append could get memory.
\<close>

lemma repeated_append_exact:
  assumes "repeated_ok r"
  shows "\<exists>r' kept. foldl (\<lambda>r (ok, v). Option.bind r (\<lambda>r. cmsg_repeated_append ok r (Some v))) (Some r) vs = Some r' \<and>
    repeated_ok r' \<and> repeated_contents r' = repeated_contents r @ map snd kept \<and>
    subseq kept vs \<and> filter fst vs = filter fst kept"
  using assms
proof (induction vs arbitrary: r)
  case Nil
  show ?case using Nil by (intro exI [of _ r] exI [of _ "[]"]) simp
next
  case (Cons p vs)
  obtain ok v where p: "p = (ok, v)" by fastforce
  obtain r1 where r1: "cmsg_repeated_append ok r (Some v) = Some r1" "repeated_ok r1"
      "repeated_contents r1 = repeated_contents r @ [v] \<or> \<not> ok \<and> r1 = r"
    using cmsg_repeated_push_correct [OF Cons.prems, of ok v] by (auto simp: cmsg_repeated_append_def)
  obtain r' kept where step: "foldl (\<lambda>r (ok, v). Option.bind r (\<lambda>r. cmsg_repeated_append ok r (Some v))) (Some r1) vs = Some r'"
      "repeated_ok r'" "repeated_contents r' = repeated_contents r1 @ map snd kept"
      "subseq kept vs" "filter fst vs = filter fst kept"
    using Cons.IH [OF r1(2)] by blast
  from r1(3) show ?case
  proof
    assume "repeated_contents r1 = repeated_contents r @ [v]"
    with step r1 p show ?thesis by (intro exI [of _ r'] exI [of _ "p # kept"]) auto
  next
    assume "\<not> ok \<and> r1 = r"
    with step r1 p show ?thesis by (intro exI [of _ r'] exI [of _ kept]) auto
  qed
qed

text \<open>
  The one block that holds an array of messages is laid out without overlap: unless the size
  wraps, the block has room for the pointers and the structs, and the structs follow the
  pointer table one after the other, each within the block.
\<close>

lemma msg_array_layout:
  assumes "cmsg_msg_array_alloc base ssz n = (sz, ptrs)"
    and "unat base + unat n * (unat ssz + 8) < 2 ^ 64"
  shows "unat sz = unat n * (unat ssz + 8) \<and> length ptrs = unat n \<and>
    (\<forall>i < unat n. unat base + 8 * unat n \<le> unat (ptrs ! i) \<and>
       unat (ptrs ! i) + unat ssz \<le> unat base + unat sz) \<and>
    (\<forall>i j. i < j \<and> j < unat n \<longrightarrow> unat (ptrs ! i) + unat ssz \<le> unat (ptrs ! j))"
proof -
  note l = cmsg_msg_array_alloc_layout [OF assms]
  have le: "i * unat ssz + unat ssz \<le> j * unat ssz" if "i < j" for i j
    using mult_le_mono1 [of "Suc i" j "unat ssz"] that by simp
  have "8 * unat n + i * unat ssz + unat ssz \<le> unat n * (unat ssz + 8)" if "i < unat n" for i
    using le [OF that] by (simp add: algebra_simps)
  then show ?thesis using l(1,2,3) le by (auto simp: add.assoc)
qed

text \<open>
  A message that was dumped to a file without an error is what reading the file gives back,
  and the dump touches no file but the target and the temporary name next to it.
\<close>

lemma dump_get_round_trip:
  assumes "cmsg_dump_msg_to_file env (cmsg_pack_msg sz pack m) fs name = (CMSG_RET_OK, fs')"
    and "rename_ok env" "unpack (pack m) = Some m" "length (pack m) \<le> fread_max"
  shows "cmsg_get_msg_from_file True True fread_max unpack fs' name = Some m \<and>
    (\<forall>f. f \<noteq> name \<and> f \<noteq> name @ ''.tmp'' \<longrightarrow> fs' f = fs f)"
  using assms
  by (auto simp: cmsg_dump_msg_to_file_def cmsg_get_msg_from_file_def cmsg_pack_msg_def Let_def cmsg_codes
      split: if_splits option.splits)

section \<open>Encryption\<close>

text \<open>
  C38: Encrypted data survive the framing: of what \<open>cmsg_crypto_encrypt\<close> makes, the receiver
  reads from the first eight bytes exactly how much to receive, and \<open>cmsg_crypto_decrypt\<close> under the
  same keys gives the plaintext back, provided the cipher inverts itself.
\<close>

theorem crypto_round_trip:
  assumes "cmsg_crypto_encrypt evp (Some sa) plain = (n, out)" "0 \<le> n" "length out < 2 ^ 31"
    and keys: "sa_keydata sa' = sa_keydata sa" "\<not> sa_server sa' \<or> sa_ctx_out_init sa'"
    and cipher: "decrypt_init evp (sa_keydata sa)"
      "\<And>body final. encrypt_update evp (sa_keydata sa) plain = Some body \<Longrightarrow>
         encrypt_final evp (sa_keydata sa) plain = Some final \<Longrightarrow>
         \<exists>b f. decrypt_update evp (sa_keydata sa) (body @ final) = Some b \<and>
               decrypt_final evp (sa_keydata sa) (body @ final) = Some f \<and> b @ f = plain"
  shows "n = int (length out) \<and> cmsg_crypto_parse_header (take 8 out @ rest) = Some n \<and>
    cmsg_crypto_decrypt evp derive (Some sa') out = Some (int (length plain), Some sa', plain)"
proof -
  obtain body final where e: "encrypt_update evp (sa_keydata sa) plain = Some body"
    "encrypt_final evp (sa_keydata sa) plain = Some final"
    "out = crypto_packet CMSG_CRYPTO_TYPE_PAYLOAD (body @ final)" "n = int (length out)"
    using encrypt_packet [OF assms(1,2)] by metis
  obtain b f where d: "decrypt_update evp (sa_keydata sa) (body @ final) = Some b"
    "decrypt_final evp (sa_keydata sa) (body @ final) = Some f" "b @ f = plain"
    using cipher(2) [OF e(1,2)] by blast
  have "cmsg_crypto_decrypt evp derive (Some sa') (crypto_packet CMSG_CRYPTO_TYPE_PAYLOAD (body @ final)) =
      Some (int (length (b @ f)), Some sa', b @ f)"
    by (rule decrypt_packet_payload) (use keys cipher(1) d in auto)
  then show ?thesis
    using e(3,4) d(3) assms(3) parse_header_packet [of "body @ final" CMSG_CRYPTO_TYPE_PAYLOAD rest] by simp
qed

abbreviation demo_sa :: cmsg_crypto_sa where
  "demo_sa \<equiv> \<lparr>sa_ctx_out_init = True, sa_ctx_in_init = True, sa_server = True, sa_keydata = []\<rparr>"

theorem crypto_round_trip_witness:
  "cmsg_crypto_decrypt demo_evp (\<lambda>sa _. (0, sa)) (Some demo_sa)
      (snd (cmsg_crypto_encrypt demo_evp (Some demo_sa) [1, 2, 3])) = Some (3, Some demo_sa, [1, 2, 3])"
  using crypto_round_trip [of demo_evp demo_sa "[1, 2, 3]" 15
      "snd (cmsg_crypto_encrypt demo_evp (Some demo_sa) [1, 2, 3])" demo_sa "[]" "\<lambda>sa _. (0, sa)"]
  by (simp add: cmsg_crypto_encrypt_def demo_evp_def cmsg_crypto_put32_def)

text \<open>
  The nonce sets up the server: the packet the client makes of its nonce puts both ends
  through the key derivation with the same 64 bytes, and nothing of it is taken for data.
\<close>

lemma crypto_nonce_agrees:
  assumes "cmsg_crypto_create_nonce calloc rand derive_c sa = (Some buf, sa')"
    and "\<And>n. rand = Some n \<Longrightarrow> length n = NONCE_SIZE"
    and "sa_server server" "\<not> sa_ctx_out_init server"
  shows "\<exists>nonce. rand = Some nonce \<and> sa' = snd (derive_c sa nonce) \<and>
    cmsg_crypto_parse_header (take 8 buf) = Some 76 \<and> length buf = 76 \<and>
    cmsg_crypto_decrypt evp derive_s (Some server) buf =
      Some (if fst (derive_s server nonce) < 0 then -1 else 0, Some (snd (derive_s server nonce)), [])"
proof -
  obtain nonce where n: "rand = Some nonce" "buf = crypto_packet CMSG_CRYPTO_TYPE_NONCE nonce"
    "sa' = snd (derive_c sa nonce)"
    using create_nonce_packet [OF assms(1,2)] by metis
  then show ?thesis
    using assms(2) [OF n(1)] decrypt_packet_nonce [OF assms(3,4), of evp derive_s nonce]
      parse_header_packet [of nonce CMSG_CRYPTO_TYPE_NONCE "[]"] by simp
qed

end
