(* ===== verification/TransportProperties.thy ===== *)
theory TransportProperties
  imports Demo "HOL-Library.Sublist"
begin

text \<open>The properties of transports, of their I/O loops and of the queues, each with a concrete instance.\<close>

section \<open>Descriptions of transports\<close>

text \<open>
  A transport can be sent to another process: the transport built from a description has the
  type, family and addresses of the description, and describing it gives the description back.
\<close>

lemma transport_info_round_trip:
  assumes "info_ok info"
  shows "\<exists>t. cmsg_transport_info_to_transport info = Some (Some t) \<and>
    cmsg_transport_info_create t = Some info"
  using info_to_transport_ok [OF assms] info_create_of_info [OF assms] by blast

text \<open>
  Descriptions are compared as the transports are: two descriptions are equal for
  \<open>cmsg_transport_info_compare\<close> exactly when \<open>cmsg_transport_compare\<close> says so of the transports
  they describe, and no memory outside them is read.
\<close>

lemma info_compare_refines:
  assumes "info_ok a" "info_ok b"
    and "cmsg_transport_info_to_transport a = Some (Some ta)"
    and "cmsg_transport_info_to_transport b = Some (Some tb)"
  shows "cmsg_transport_info_compare a b = Some (cmsg_transport_compare ta tb)"
  using info_compare_key [OF assms(1,2)] transport_compare_key [OF assms(1,2)] assms(3,4)
    info_to_transport_ok [OF assms(1)] info_to_transport_ok [OF assms(2)] by simp

text \<open>
  A service with a path of 107 or more characters cannot be found through its description:
  the transport made from the description loses the last character of the path, so it does not
  compare equal to the one it describes.
\<close>

lemma long_unix_path_lost:
  assumes "107 \<le> length (cmsg_transport_unix_sun_path svc)" "CHR ''%'' \<notin> set svc"
    and "cmsg_transport_info_create (cmsg_create_transport_unix svc CMSG_TRANSPORT_RPC_UNIX) = Some info"
    and "cmsg_transport_info_to_transport info = Some (Some t)"
  shows "\<not> cmsg_transport_compare (cmsg_create_transport_unix svc CMSG_TRANSPORT_RPC_UNIX) t"
  by (rule long_unix_path_not_recovered [OF assms(1,3,4,2)])

section \<open>Moving bytes\<close>

text \<open>
  A blocking send is all or nothing as far as its caller can tell: it ends, and it returns
  the length of the buffer with exactly the buffer on the wire, or -1 with less than all of it.
\<close>

lemma socket_send_exact:
  assumes "send_rets_ok rets (length buf)"
  shows "\<exists>ret wire. cmsg_transport_socket_send rets buf = Some (ret, wire) \<and>
    (ret = int (length buf) \<and> wire = buf \<or> ret = -1 \<and> (\<exists>k < length buf. wire = take k buf))"
  using socket_send_loop_correct [of rets buf 0 "[]"] assms
  by (simp add: cmsg_transport_socket_send_def)

text \<open>
  C39: A blocking receive takes the next bytes off the stream of the peer. If as many come as were asked for, it stores exactly
  those and returns their number; if the peer shuts down before, it stores what came and returns its length; after an error it
  returns -1, with what came before stored; and it waits for ever only when too little comes and neither happens. It never
  stores more than was asked for, and never asks the kernel for more than 16 KiB at a time.
\<close>

theorem socket_recv_exact:
  "case recv_outcome rets len of
     None \<Rightarrow> cmsg_transport_socket_recv False rets len = None
   | Some (ret, out) \<Rightarrow> length out \<le> len \<and> (\<exists>asked. cmsg_transport_socket_recv False rets len = Some (ret, out, asked) \<and>
       (\<forall>n \<in> set asked. n \<le> CMSG_RECV_ALL_CHUNK_SIZE))"
proof -
  have "length out \<le> len" if "recv_outcome rets len = Some (ret, out)" for ret out
    using that by (auto simp: recv_outcome_def split: if_splits option.splits recv_result.splits)
  then show ?thesis
    using socket_recv_loop_outcome [of "[]" len "[]" rets]
    by (cases "recv_outcome rets len") (auto simp: cmsg_transport_socket_recv_def recv_outcome_def split: if_splits option.splits recv_result.splits)
qed

theorem socket_recv_exact_witness:
  "\<exists>asked. cmsg_transport_socket_recv False [Recv_ok [1, 2], Recv_ok [3, 4]] 3 = Some (3, [1, 2, 3], asked) \<and>
    (\<forall>n \<in> set asked. n \<le> 16384)"
  using socket_recv_exact [of "[Recv_ok [1, 2], Recv_ok [3, 4]]" 3] by (simp add: recv_outcome_def)

text \<open>
  Peeking for a header always ends: once the clock passes the limit it gives up whatever the
  peer does (signals that interrupt it apart), and it reports success only with a whole header.
\<close>

lemma peek_ends:
  assumes "\<And>s s'. recv s hsize True \<noteq> (Recv_fail EINTR, s')" "\<exists>now \<in> set clocks. wait < now"
  shows "\<exists>code data s'. cmsg_transport_peek_for_header recv wait hsize clocks s = Some (code, data, s') \<and>
    (code = CMSG_PEEK_CODE_SUCCESS \<longrightarrow> length data = unat hsize)"
proof -
  obtain code data s' where r: "peek_loop recv hsize wait clocks s = Some (code, data, s')"
    using peek_loop_terminates [where recv = recv and n = hsize, OF assms] by blast
  then have "code = CMSG_PEEK_CODE_SUCCESS \<longrightarrow> length data = unat hsize"
    using peek_loop_header [of recv hsize wait clocks s data s'] by auto
  with r show ?thesis by (simp add: cmsg_transport_peek_for_header_def)
qed

section \<open>Tables\<close>

text \<open>
  The cache of TCP hosts is a map from addresses to reachability as long as at most 23 hosts
  are known: a host recorded is a host looked up, the others are unaffected, unknown hosts are
  tried. With 23 known it forgets new hosts and nothing else.
\<close>

lemma tcp_cache_is_map:
  assumes "tcp_cache_ok c"
  shows "tcp_cache_ok (cmsg_transport_tcp_cache_set c a p) \<and>
    cmsg_transport_tcp_cache_should_connect (cmsg_transport_tcp_cache_set c a p) b =
      (if b = a \<and> (a \<in> fst ` set c \<or> length c < 23) then p
       else cmsg_transport_tcp_cache_should_connect c b)"
  using tcp_cache_set_ok [OF assms] by (simp add: should_connect_map_of tcp_cache_set_cases)

text \<open>
  Dropping the queued packets of a transport takes out all of them and only them, in
  place: the packets of every other transport stay in their order.
\<close>

lemma send_queue_free_exact:
  "cmsg_send_queue_free_all_by_transport tports q t =
     filter (\<lambda>x. \<not> cmsg_transport_compare (tports (sq_transport x)) (tports t)) q \<and>
   cmsg_send_queue_free_all_by_single_transport tports q t = filter (\<lambda>x. sq_transport x \<noteq> t) q \<and>
   cmsg_send_queue_free_by_transport_method tports q t m =
     filter (\<lambda>x. \<not> (cmsg_transport_compare (tports (sq_transport x)) (tports t) \<and> sq_method_name x = m)) q \<and>
   cmsg_send_queue_free_by_single_transport_method tports q t m =
     filter (\<lambda>x. \<not> (sq_transport x = t \<and> sq_method_name x = m)) q"
  by (simp add: send_queue_free_defs send_queue_free_filter send_entry_matches_def)

text \<open>
  The filter table is a total map on the service's methods: setting a method's filter
  changes that method's lookup and no other, clearing it sets it to process, a name that is no
  method is refused without a change, and \<open>cmsg_queue_filter_get_type\<close> says enabled exactly when
  some method is set to queue.
\<close>

lemma filter_table_is_map:
  assumes "filter_covers tbl d"
  shows "cmsg_queue_filter_get_type tbl d =
      Some (if \<exists>m \<in> set (svc_methods d). cmsg_queue_filter_lookup tbl m = CMSG_QUEUE_FILTER_QUEUE
            then CMSG_QUEUE_STATE_ENABLED else CMSG_QUEUE_STATE_DISABLED) \<and>
    (\<exists>tbl'. cmsg_queue_filter_set tbl m ty =
        (if m \<in> set (svc_methods d) then CMSG_RET_OK else CMSG_RET_ERR, tbl') \<and>
      filter_covers tbl' d \<and>
      cmsg_queue_filter_lookup tbl' =
        (cmsg_queue_filter_lookup tbl)(m := if m \<in> set (svc_methods d) then ty else CMSG_QUEUE_FILTER_ERROR)) \<and>
    cmsg_queue_filter_clear tbl m = cmsg_queue_filter_set tbl m CMSG_QUEUE_FILTER_PROCESS"
proof -
  have "m \<in> set (svc_methods d) \<longleftrightarrow> (\<exists>v. map_of tbl m = Some v)"
    using assms by (metis filter_covers_def map_of_eq_None_iff not_None_eq)
  then show ?thesis
    using filter_get_type_total [OF assms] filter_set_covers [OF assms, of m ty]
    by (auto simp: cmsg_queue_filter_set_def cmsg_queue_filter_clear_def cmsg_queue_filter_lookup_def
        update_conv' fun_eq_iff split: option.splits)
qed

end
