(* ===== verification/CompositeClient.thy ===== *)
theory CompositeClient
  imports MsgQueue
begin

text \<open>
  The composite client of \<open>cmsg/src/cmsg_composite_client.c\<close>, which passes a call on to a list of
  child clients, and the part of \<open>cmsg_client.c\<close> that hands the answers of a call to its caller.

  A child is an address; \<open>tports\<close> is the transport of each. What a child's \<open>invoke_send\<close>,
  \<open>invoke_recv\<close> and \<open>send_bytes\<close> give is the environment's. The array \<open>closure_data\<close> is a list of
  \<open>CMSG_RECV_ARRAY_SIZE\<close> message slots; \<open>None\<close> as the result of a function is an access outside it.
\<close>

section \<open>The list of children\<close>

record composite_client =
  comp_is_composite :: bool
  comp_children :: "nat list"
  comp_parent_set :: "nat list"

definition cmsg_composite_client_init :: composite_client where
  "cmsg_composite_client_init =
     \<lparr>comp_is_composite = True, comp_children = [], comp_parent_set = []\<rparr>"

text \<open>Loopback children go last: they run the implementation in the caller's thread.\<close>

definition cmsg_composite_client_add_child ::
  "(nat \<Rightarrow> cmsg_transport) \<Rightarrow> composite_client option \<Rightarrow> nat option \<Rightarrow> int \<times> composite_client option" where
  "cmsg_composite_client_add_child tports composite client =
     (case (composite, client) of
        (Some cc, Some c) \<Rightarrow>
          if \<not> comp_is_composite cc then (-1, composite)
          else (CMSG_RET_OK, Some
            (cc\<lparr>comp_children := (if t_type (tports c) = CMSG_TRANSPORT_LOOPBACK
                                then comp_children cc @ [c] else c # comp_children cc),
                comp_parent_set := c # comp_parent_set cc\<rparr>))
      | _ \<Rightarrow> (CMSG_RET_ERR, composite))"

definition cmsg_composite_client_delete_child ::
  "composite_client option \<Rightarrow> nat option \<Rightarrow> int \<times> composite_client option" where
  "cmsg_composite_client_delete_child composite client =
     (case (composite, client) of
        (Some cc, Some c) \<Rightarrow>
          if \<not> comp_is_composite cc then (-1, composite)
          else (0, Some (cc\<lparr>comp_children := remove1 c (comp_children cc),
                           comp_parent_set := removeAll c (comp_parent_set cc)\<rparr>))
      | _ \<Rightarrow> (-1, composite))"

definition cmsg_composite_client_num_children :: "composite_client \<Rightarrow> nat" where
  "cmsg_composite_client_num_children cc =
     (if \<not> comp_is_composite cc then 0 else length (comp_children cc))"

definition cmsg_composite_client_get_children :: "composite_client \<Rightarrow> nat list" where
  "cmsg_composite_client_get_children cc = (if \<not> comp_is_composite cc then [] else comp_children cc)"

text \<open>The children that are destroyed, and the client without them.\<close>

definition cmsg_composite_client_free_all_children :: "composite_client \<Rightarrow> nat list \<times> composite_client" where
  "cmsg_composite_client_free_all_children cc =
     (if \<not> comp_is_composite cc then ([], cc) else (comp_children cc, cc\<lparr>comp_children := []\<rparr>))"

definition cmsg_composite_client_lookup_by_tcp_ipv4_addr ::
  "(nat \<Rightarrow> cmsg_transport) \<Rightarrow> composite_client \<Rightarrow> u8 list \<Rightarrow> nat option" where
  "cmsg_composite_client_lookup_by_tcp_ipv4_addr tports cc addr =
     (if \<not> comp_is_composite cc then None
      else List.find (\<lambda>c. (t_type (tports c) = CMSG_TRANSPORT_RPC_TCP \<or>
                            t_type (tports c) = CMSG_TRANSPORT_ONEWAY_TCP) \<and>
                           sin_addr (tports c) = addr) (comp_children cc))"

definition cmsg_composite_client_lookup_by_tcp_ipv6_addr ::
  "(nat \<Rightarrow> cmsg_transport) \<Rightarrow> composite_client \<Rightarrow> u8 list \<Rightarrow> nat option" where
  "cmsg_composite_client_lookup_by_tcp_ipv6_addr tports cc addr =
     (if \<not> comp_is_composite cc then None
      else List.find (\<lambda>c. (t_type (tports c) = CMSG_TRANSPORT_RPC_TCP \<or>
                            t_type (tports c) = CMSG_TRANSPORT_ONEWAY_TCP) \<and>
                           sin6_addr (tports c) = addr) (comp_children cc))"

definition cmsg_composite_client_lookup_by_transport ::
  "(nat \<Rightarrow> cmsg_transport) \<Rightarrow> composite_client \<Rightarrow> cmsg_transport \<Rightarrow> nat option" where
  "cmsg_composite_client_lookup_by_transport tports cc t =
     (if \<not> comp_is_composite cc then None
      else List.find (\<lambda>c. cmsg_transport_compare (tports c) t) (comp_children cc))"

section \<open>Calling the children\<close>

datatype comp_event = Comp_send nat | Comp_recv nat

text \<open>\<open>has_recv\<close>: whether the child's \<open>invoke_recv\<close> is set; one-way transports have none.\<close>

record 'm comp_env =
  child_send :: "nat \<Rightarrow> int"
  child_has_recv :: "nat \<Rightarrow> bool"
  child_recv :: "nat \<Rightarrow> int \<times> 'm option"

text \<open>The first loop: the clients to receive from, and the overall result.\<close>

fun comp_send_loop ::
  "'m comp_env \<Rightarrow> nat list \<Rightarrow> nat list \<Rightarrow> int \<Rightarrow> comp_event list \<Rightarrow> nat list \<times> int \<times> comp_event list" where
  "comp_send_loop env [] recvs overall tr = (recvs, overall, tr)"
| "comp_send_loop env (c # cs) recvs overall tr =
     (let ret = child_send env c; tr = tr @ [Comp_send c] in
      if ret = CMSG_RET_OK then comp_send_loop env cs (recvs @ [c]) overall tr
      else comp_send_loop env cs recvs (if overall \<noteq> CMSG_RET_ERR then ret else overall) tr)"

text \<open>The second loop; a message is stored in slot \<open>i\<close>, which must exist.\<close>

fun comp_recv_loop ::
  "'m comp_env \<Rightarrow> nat list \<Rightarrow> nat \<Rightarrow> 'm option list \<Rightarrow> int \<Rightarrow> comp_event list
   \<Rightarrow> ('m option list \<times> int \<times> comp_event list) option" where
  "comp_recv_loop env [] i closures overall tr = Some (closures, overall, tr)"
| "comp_recv_loop env (c # cs) i closures overall tr =
     (if \<not> child_has_recv env c then comp_recv_loop env cs i closures overall tr
      else
        case child_recv env c of
          (ret, message) \<Rightarrow>
            let tr = tr @ [Comp_recv c] in
            if ret = CMSG_RET_OK then
              (case message of
                 None \<Rightarrow> comp_recv_loop env cs (i + 1) closures overall tr
               | Some m \<Rightarrow>
                   if i < length closures
                   then comp_recv_loop env cs (i + 1) (closures[i := Some m]) overall tr
                   else None)
            else comp_recv_loop env cs i closures ret tr)"

definition cmsg_composite_client_invoke ::
  "'m comp_env \<Rightarrow> composite_client \<Rightarrow> 'm option list \<Rightarrow> ('m option list \<times> int \<times> comp_event list) option" where
  "cmsg_composite_client_invoke env cc closures =
     (if comp_children cc = [] then Some (closures, CMSG_RET_OK, [])
      else
        case comp_send_loop env (comp_children cc) [] CMSG_RET_OK [] of
          (recvs, overall, tr) \<Rightarrow> comp_recv_loop env recvs 0 closures overall tr)"

text \<open>Sending raw bytes to every child; the argument is what each child's send returns.\<close>

fun comp_send_bytes_loop :: "(nat \<Rightarrow> int) \<Rightarrow> nat list \<Rightarrow> int \<Rightarrow> int" where
  "comp_send_bytes_loop send [] overall = overall"
| "comp_send_bytes_loop send (c # cs) overall =
     (let ret = send c in
      comp_send_bytes_loop send cs
        (if ret \<noteq> CMSG_RET_OK \<and> overall \<noteq> CMSG_RET_ERR then ret else overall))"

definition cmsg_composite_client_send_bytes :: "(nat \<Rightarrow> int) \<Rightarrow> composite_client \<Rightarrow> int" where
  "cmsg_composite_client_send_bytes send cc =
     (if comp_children cc = [] then CMSG_RET_OK
      else comp_send_bytes_loop send (comp_children cc) CMSG_RET_OK)"

section \<open>Handing the answers to the caller\<close>

abbreviation CMSG_RECV_ARRAY_SIZE :: nat where
  "CMSG_RECV_ARRAY_SIZE \<equiv> 25"

text \<open>The messages up to the first empty slot; reading past the array is \<open>None\<close>.\<close>

fun closure_messages :: "'m option list \<Rightarrow> 'm list option" where
  "closure_messages [] = None"
| "closure_messages (None # _) = Some []"
| "closure_messages (Some m # rest) = map_option (Cons m) (closure_messages rest)"

text \<open>What is stored in the caller's array: a message without fields is freed instead.\<close>

definition cmsg_api_process_closure_data ::
  "('m \<Rightarrow> nat) \<Rightarrow> 'm option list \<Rightarrow> int \<Rightarrow> ('m option list \<times> int) option" where
  "cmsg_api_process_closure_data n_fields closures retval =
     map_option (\<lambda>ms. (map (\<lambda>m. if 0 < n_fields m then Some m else None) ms, retval))
       (closure_messages closures)"

text \<open>
  A method may be answered from a file or refused when a service is not supported; \<open>access_ok\<close>,
  \<open>from_file\<close> and \<open>ant_response\<close> stand for the file system and the result messages.
\<close>

record method_extensions =
  response_filename :: "string option"
  service_support :: "(string \<times> int \<times> string) option"

record 'm api_env =
  access_ok :: "string \<Rightarrow> bool"
  from_file :: "string \<Rightarrow> 'm option"
  create_ant_response :: "string option \<Rightarrow> int \<Rightarrow> 'm option"

definition cmsg_api_file_response :: "'m api_env \<Rightarrow> string \<Rightarrow> int \<times> 'm option" where
  "cmsg_api_file_response env filename =
     (if \<not> access_ok env filename then (CMSG_RET_OK, create_ant_response env None 0)
      else case from_file env filename of
             None \<Rightarrow> (CMSG_RET_ERR, None)
           | Some m \<Rightarrow> (CMSG_RET_OK, Some m))"

definition cmsg_supported_service_check :: "'m api_env \<Rightarrow> string \<times> int \<times> string \<Rightarrow> bool \<times> 'm option" where
  "cmsg_supported_service_check env params =
     (case params of (filename, return_code, msg) \<Rightarrow>
        if \<not> access_ok env filename then (False, create_ant_response env (Some msg) return_code)
        else (True, None))"

text \<open>
  A call through the generated API. \<open>invoke\<close> is the client's own call: it fills the closures
  and gives the return value; \<open>None\<close> as client is \<open>NULL\<close>. The result is the code with the
  messages stored in the caller's array, from its first slot on.
\<close>

definition cmsg_api_invoke ::
  "'m api_env \<Rightarrow> ('m \<Rightarrow> nat) \<Rightarrow> ('m option list \<Rightarrow> ('m option list \<times> int) option) option
   \<Rightarrow> method_extensions option \<Rightarrow> (int \<times> 'm option list) option" where
  "cmsg_api_invoke env n_fields client extensions =
     (case client of
        None \<Rightarrow> Some (CMSG_RET_ERR, [])
      | Some invoke \<Rightarrow>
          let call = (case invoke (replicate CMSG_RECV_ARRAY_SIZE None) of
                        None \<Rightarrow> None
                      | Some (closures, retval) \<Rightarrow>
                          map_option (\<lambda>(ms, r). (r, ms))
                            (cmsg_api_process_closure_data n_fields closures retval))
          in case extensions of
               None \<Rightarrow> call
             | Some ext \<Rightarrow>
                 (case response_filename ext of
                    Some f \<Rightarrow> (case cmsg_api_file_response env f of (r, m) \<Rightarrow> Some (r, [m]))
                  | None \<Rightarrow>
                      (case service_support ext of
                         None \<Rightarrow> call
                       | Some params \<Rightarrow>
                           (case cmsg_supported_service_check env params of
                              (supported, m) \<Rightarrow>
                                if \<not> supported then Some (CMSG_RET_OK, [m]) else call))))"

section \<open>What the loops do\<close>

lemma comp_send_loop_result:
  "comp_send_loop env cs recvs overall tr =
     (recvs @ filter (\<lambda>c. child_send env c = CMSG_RET_OK) cs,
      fst (snd (comp_send_loop env cs recvs overall tr)), tr @ map Comp_send cs)"
  by (induction env cs recvs overall tr rule: comp_send_loop.induct) (simp_all add: Let_def)

lemma comp_send_loop_overall:
  "fst (snd (comp_send_loop env cs recvs overall tr)) = CMSG_RET_OK \<longleftrightarrow>
     overall = CMSG_RET_OK \<and> (\<forall>c \<in> set cs. child_send env c = CMSG_RET_OK)"
  by (induction env cs recvs overall tr rule: comp_send_loop.induct)
    (auto simp: Let_def cmsg_codes)

text \<open>Once a send gave the plain error, no other send's error replaces it.\<close>

lemma comp_send_loop_error:
  "(\<exists>c \<in> set cs. child_send env c = CMSG_RET_ERR) \<or> overall = CMSG_RET_ERR \<Longrightarrow>
    fst (snd (comp_send_loop env cs recvs overall tr)) = CMSG_RET_ERR"
proof (induction cs arbitrary: recvs overall tr)
  case (Cons c cs)
  have "child_send env c = CMSG_RET_OK \<Longrightarrow> (\<exists>c \<in> set cs. child_send env c = CMSG_RET_ERR) \<or> overall = CMSG_RET_ERR"
    using Cons.prems by (auto simp: cmsg_codes)
  then show ?case using Cons by (auto simp: Let_def)
qed simp

lemma comp_recv_loop_result:
  assumes "i + length (filter (child_has_recv env) cs) \<le> length closures"
  shows "\<exists>closures' overall'. comp_recv_loop env cs i closures overall tr =
      Some (closures', overall', tr @ map Comp_recv (filter (child_has_recv env) cs)) \<and>
    length closures' = length closures \<and>
    (overall' = CMSG_RET_OK \<longleftrightarrow> overall = CMSG_RET_OK \<and>
       (\<forall>c \<in> set cs. child_has_recv env c \<longrightarrow> fst (child_recv env c) = CMSG_RET_OK))"
  using assms
proof (induction cs arbitrary: i closures overall tr)
  case (Cons c cs)
  obtain ret m where r: "child_recv env c = (ret, m)" by fastforce
  show ?case
  proof (cases "child_has_recv env c \<and> ret = CMSG_RET_OK")
    case True
    let ?cl = "case m of None \<Rightarrow> closures | Some x \<Rightarrow> closures[i := Some x]"
    have "length ?cl = length closures" by (cases m) auto
    with True Cons.IH [of "Suc i" ?cl overall "tr @ [Comp_recv c]"] Cons.prems r show ?thesis
      by (cases m) auto
  next
    case False
    with Cons.IH [of i closures "if child_has_recv env c then ret else overall"
        "if child_has_recv env c then tr @ [Comp_recv c] else tr"] Cons.prems r
    show ?thesis by (auto split: if_splits)
  qed
qed simp

text \<open>The slots hold the messages of the successful answers, without gaps if all carry one.\<close>

lemma comp_recv_loop_messages:
  assumes "comp_recv_loop env cs i closures overall tr = Some (closures', overall', tr')"
    and "\<forall>c \<in> set cs. child_has_recv env c \<and> fst (child_recv env c) = CMSG_RET_OK \<longrightarrow> snd (child_recv env c) \<noteq> None"
    and "closures = map Some ms @ replicate k None" "length ms = i"
  shows "\<exists>k'. closures' = map Some (ms @ map (the \<circ> snd \<circ> child_recv env)
      (filter (\<lambda>c. child_has_recv env c \<and> fst (child_recv env c) = CMSG_RET_OK) cs)) @ replicate k' None \<and>
    k' + length (filter (\<lambda>c. child_has_recv env c \<and> fst (child_recv env c) = CMSG_RET_OK) cs) = k"
  using assms
proof (induction cs arbitrary: i closures overall tr ms k)
  case (Cons c cs)
  obtain ret m where r: "child_recv env c = (ret, m)" by fastforce
  show ?case
  proof (cases "child_has_recv env c \<and> ret = CMSG_RET_OK")
    case True
    with Cons.prems(2) r obtain x where x: "m = Some x" by auto
    with Cons.prems(1,3,4) True r obtain k1 where k: "k = Suc k1"
      by (cases k) auto
    have "closures[i := Some x] = map Some (ms @ [x]) @ replicate k1 None"
      using Cons.prems(3,4) k by (simp add: list_update_append)
    with Cons.IH [of "Suc i" "closures[i := Some x]" overall "tr @ [Comp_recv c]" "ms @ [x]" k1]
      Cons.prems True r x k show ?thesis by auto
  next
    case False
    with Cons.IH [of i closures "if child_has_recv env c then ret else overall"
        "if child_has_recv env c then tr @ [Comp_recv c] else tr" ms k] Cons.prems r
    show ?thesis by (auto split: if_splits)
  qed
qed auto

lemma closure_messages_prefix: "0 < k \<Longrightarrow> closure_messages (map Some ms @ replicate k None) = Some ms"
  by (induction ms) (auto simp: gr0_conv_Suc)

end
