(* ===== verification/ServiceListener.thy ===== *)
theory ServiceListener
  imports CompositeClient
begin

text \<open>
  The service listener daemon: the store of servers and listeners per service
  (\<open>service_listener/data.c\<close>), the watch on the processes they belong to (\<open>process_watch.c\<close>), the
  copy of it on remote hosts (\<open>remote_sync.c\<close>) and the handlers of its configuration service
  (\<open>configuration.c\<close>).

  Messages and listeners are heap objects that lists hold by pointer: a field \<open>_ptr\<close> is the
  pointer, \<open>sl_next\<close> the next one that an allocation returns (allocations succeed). What the daemon
  sends goes to the trace; the answers of the kernel and of the listeners are functions of the
  trace so far. \<open>None\<close> is undefined behaviour: memory read outside a buffer or after it was freed.
\<close>

record service_info =
  si_ptr :: nat
  si_service :: string
  si_transport :: cmsg_transport_info
  si_local :: bool
  si_pid :: u32

text \<open>A listener's client is its transport; \<open>None\<close> is a client that could not be created.\<close>

record listener_data =
  ls_ptr :: nat
  ls_client :: "cmsg_transport option"
  ls_id :: u32
  ls_pid :: u32

record service_data_entry =
  servers :: "service_info list"
  listeners :: "listener_data list"

record sld_listener_info =
  li_service :: string
  li_transport :: cmsg_transport_info
  li_id :: u32
  li_pid :: u32

datatype sld_event =
    Sld_notify bool nat u32 service_info bool \<comment> \<open>added, listener, its id, the server, sent\<close>
  | Sld_destroy_client nat
  | Sld_sync bool service_info
  | Sld_bulk_sync nat "service_info list"
  | Sld_tcp_cache "u8 list" bool

datatype pidfd_result = Pidfd_ok | Pidfd_ESRCH | Pidfd_error

record sld_env =
  notify_ret :: "sld_event list \<Rightarrow> nat \<Rightarrow> int"
  pidfd_open :: "sld_event list \<Rightarrow> u32 \<Rightarrow> pidfd_result"
  sync_port :: "u8 list"

record sld_state =
  sl_table :: "(string \<times> service_data_entry) list"
  sl_watches :: "(u32 \<times> int) list"
  sl_sync_server :: bool
  sl_local_ip :: "u8 list"
  sl_comp_client :: "composite_client option"
  sl_tports :: "nat \<Rightarrow> cmsg_transport"
  sl_next :: nat
  sl_trace :: "sld_event list"

definition sld_log :: "sld_event \<Rightarrow> sld_state \<Rightarrow> sld_state" where
  "sld_log ev st = st\<lparr>sl_trace := sl_trace st @ [ev]\<rparr>"

definition data_init :: sld_state where
  "data_init =
     \<lparr>sl_table = [], sl_watches = [], sl_sync_server = False, sl_local_ip = [0, 0, 0, 0],
      sl_comp_client = None, sl_tports = (\<lambda>_. cmsg_transport_new CMSG_TRANSPORT_ONEWAY_TCP),
      sl_next = 0, sl_trace = []\<rparr>"

section \<open>Copies on remote hosts\<close>

text \<open>\<open>memcpy\<close> of an address of fewer than four bytes reads past it.\<close>

definition remote_sync_server_added_removed :: "service_info \<Rightarrow> bool \<Rightarrow> sld_state \<Rightarrow> (bool \<times> sld_state) option" where
  "remote_sync_server_added_removed info added st =
     (case sl_comp_client st of
        None \<Rightarrow> Some (False, st)
      | Some _ \<Rightarrow>
          (case si_transport info of
             Info_tcp _ tcp \<Rightarrow>
               if \<not> ti_ipv4 tcp then Some (False, st)
               else if length (ti_addr tcp) < 4 then None
               else if take 4 (ti_addr tcp) \<noteq> sl_local_ip st then Some (False, st)
               else Some (True, sld_log (Sld_sync added info) st)
           | _ \<Rightarrow> Some (False, st)))"

definition remote_sync_server_added :: "service_info \<Rightarrow> sld_state \<Rightarrow> sld_state option" where
  "remote_sync_server_added info st = map_option snd (remote_sync_server_added_removed info True st)"

definition remote_sync_server_removed :: "service_info \<Rightarrow> sld_state \<Rightarrow> sld_state option" where
  "remote_sync_server_removed info st = map_option snd (remote_sync_server_added_removed info False st)"

section \<open>The entries of the store\<close>

abbreviation empty_entry :: service_data_entry where
  "empty_entry \<equiv> \<lparr>servers = [], listeners = []\<rparr>"

definition get_service_entry_or_create ::
  "string \<Rightarrow> bool \<Rightarrow> sld_state \<Rightarrow> service_data_entry option \<times> sld_state" where
  "get_service_entry_or_create service create st =
     (case map_of (sl_table st) service of
        Some entry \<Rightarrow> (Some entry, st)
      | None \<Rightarrow>
          if create then (Some empty_entry, st\<lparr>sl_table := AList.update service empty_entry (sl_table st)\<rparr>)
          else (None, st))"

text \<open>Writing an entry back; the pointer a lookup returned is the entry in the table.\<close>

definition put_entry :: "string \<Rightarrow> service_data_entry \<Rightarrow> sld_state \<Rightarrow> sld_state" where
  "put_entry service entry st = st\<lparr>sl_table := AList.update service entry (sl_table st)\<rparr>"

definition data_remove_service_data_entry_if_empty ::
  "service_data_entry \<Rightarrow> string \<Rightarrow> sld_state \<Rightarrow> sld_state" where
  "data_remove_service_data_entry_if_empty entry key st =
     (if servers entry = [] \<and> listeners entry = []
      then st\<lparr>sl_table := AList.delete key (sl_table st)\<rparr> else st)"

text \<open>\<open>g_list_remove\<close>: the first link with the pointer goes.\<close>

fun remove_listener :: "nat \<Rightarrow> listener_data list \<Rightarrow> listener_data list" where
  "remove_listener p [] = []"
| "remove_listener p (l # ls) = (if ls_ptr l = p then ls else l # remove_listener p ls)"

fun remove_server :: "nat \<Rightarrow> service_info list \<Rightarrow> service_info list" where
  "remove_server p [] = []"
| "remove_server p (s # ss) = (if si_ptr s = p then ss else s # remove_server p ss)"

text \<open>A generated API function: a \<open>NULL\<close> client is an error and sends nothing.\<close>

definition send_event :: "sld_env \<Rightarrow> bool \<Rightarrow> listener_data \<Rightarrow> service_info \<Rightarrow> sld_state \<Rightarrow> int \<times> sld_state" where
  "send_event env added l info st =
     (case ls_client l of
        None \<Rightarrow> (CMSG_RET_ERR, st)
      | Some _ \<Rightarrow>
          let ret = notify_ret env (sl_trace st) (ls_ptr l)
          in (ret, sld_log (Sld_notify added (ls_ptr l) (ls_id l) info (ret = CMSG_RET_OK)) st))"

text \<open>The loop over the listeners: the ones to remove, last failure first.\<close>

fun notify_each ::
  "sld_env \<Rightarrow> service_info \<Rightarrow> bool \<Rightarrow> listener_data list \<Rightarrow> listener_data list \<Rightarrow> sld_state
   \<Rightarrow> listener_data list \<times> sld_state" where
  "notify_each env info added [] removal_list st = (removal_list, st)"
| "notify_each env info added (l # ls) removal_list st =
     (case send_event env added l info st of
        (ret, st) \<Rightarrow>
          notify_each env info added ls (if ret \<noteq> CMSG_RET_OK then l # removal_list else removal_list) st)"

fun drop_listeners :: "listener_data list \<Rightarrow> listener_data list \<times> sld_state \<Rightarrow> listener_data list \<times> sld_state" where
  "drop_listeners [] (ls, st) = (ls, st)"
| "drop_listeners (r # rs) (ls, st) =
     drop_listeners rs (remove_listener (ls_ptr r) ls, sld_log (Sld_destroy_client (ls_ptr r)) st)"

definition notify_listeners ::
  "sld_env \<Rightarrow> service_info \<Rightarrow> bool \<Rightarrow> service_data_entry \<Rightarrow> sld_state \<Rightarrow> service_data_entry \<times> sld_state" where
  "notify_listeners env info added entry st =
     (case notify_each env info added (listeners entry) [] st of
        (removal_list, st) \<Rightarrow>
          case drop_listeners removal_list (listeners entry, st) of
            (ls, st) \<Rightarrow> (entry\<lparr>listeners := ls\<rparr>, st))"

section \<open>Processes\<close>

text \<open>
  The callback for one entry when a process is gone: its listeners first, then its servers. The
  list of servers to go through is the one at the start; each that goes is announced first.
\<close>

fun remove_servers_by_pid ::
  "sld_env \<Rightarrow> u32 \<Rightarrow> service_info list \<Rightarrow> service_data_entry \<times> sld_state
   \<Rightarrow> (service_data_entry \<times> sld_state) option" where
  "remove_servers_by_pid env pid [] (entry, st) = Some (entry, st)"
| "remove_servers_by_pid env pid (info # rest) (entry, st) =
     (if si_local info \<and> si_pid info = pid then
        (case notify_listeners env info False entry st of
           (entry, st) \<Rightarrow>
             Option.bind (remote_sync_server_removed info st) (\<lambda>st.
               remove_servers_by_pid env pid rest
                 (entry\<lparr>servers := remove_server (si_ptr info) (servers entry)\<rparr>, st)))
      else remove_servers_by_pid env pid rest (entry, st))"

definition remove_by_pid ::
  "sld_env \<Rightarrow> u32 \<Rightarrow> service_data_entry \<Rightarrow> sld_state \<Rightarrow> (service_data_entry \<times> sld_state) option" where
  "remove_by_pid env pid entry st =
     (let gone = filter (\<lambda>l. ls_pid l = pid) (listeners entry);
          st = fold (\<lambda>l. sld_log (Sld_destroy_client (ls_ptr l))) gone st;
          entry = entry\<lparr>listeners := filter (\<lambda>l. ls_pid l \<noteq> pid) (listeners entry)\<rparr>
      in remove_servers_by_pid env pid (servers entry) (entry, st))"

text \<open>\<open>g_hash_table_foreach_remove\<close>: an entry that the callback leaves empty is removed.\<close>

fun foreach_remove ::
  "(service_data_entry \<Rightarrow> sld_state \<Rightarrow> (service_data_entry \<times> sld_state) option)
   \<Rightarrow> (string \<times> service_data_entry) list \<Rightarrow> sld_state
   \<Rightarrow> ((string \<times> service_data_entry) list \<times> sld_state) option" where
  "foreach_remove f [] st = Some ([], st)"
| "foreach_remove f ((key, entry) # rest) st =
     Option.bind (f entry st) (\<lambda>(entry, st).
     Option.bind (foreach_remove f rest st) (\<lambda>(tbl, st).
       Some (if servers entry = [] \<and> listeners entry = [] then tbl else (key, entry) # tbl, st)))"

definition hash_foreach_remove ::
  "(service_data_entry \<Rightarrow> sld_state \<Rightarrow> (service_data_entry \<times> sld_state) option)
   \<Rightarrow> sld_state \<Rightarrow> sld_state option" where
  "hash_foreach_remove f st =
     map_option (\<lambda>(tbl, st). st\<lparr>sl_table := tbl\<rparr>) (foreach_remove f (sl_table st) st)"

definition data_remove_by_pid :: "sld_env \<Rightarrow> u32 \<Rightarrow> sld_state \<Rightarrow> sld_state option" where
  "data_remove_by_pid env pid st = hash_foreach_remove (remove_by_pid env pid) st"

definition create_process_watch :: "sld_env \<Rightarrow> u32 \<Rightarrow> sld_state \<Rightarrow> sld_state option" where
  "create_process_watch env pid st =
     (case pidfd_open env (sl_trace st) pid of
        Pidfd_ok \<Rightarrow> Some (st\<lparr>sl_watches := AList.update pid 1 (sl_watches st)\<rparr>)
      | Pidfd_ESRCH \<Rightarrow> data_remove_by_pid env pid st
      | Pidfd_error \<Rightarrow> Some st)"

definition process_watch_add :: "sld_env \<Rightarrow> u32 \<Rightarrow> sld_state \<Rightarrow> sld_state option" where
  "process_watch_add env pid st =
     (case map_of (sl_watches st) pid of
        Some ref \<Rightarrow> Some (st\<lparr>sl_watches := AList.update pid (ref + 1) (sl_watches st)\<rparr>)
      | None \<Rightarrow> create_process_watch env pid st)"

definition process_watch_remove :: "u32 \<Rightarrow> sld_state \<Rightarrow> sld_state" where
  "process_watch_remove pid st =
     (case map_of (sl_watches st) pid of
        None \<Rightarrow> st
      | Some ref \<Rightarrow>
          if ref - 1 = 0 then st\<lparr>sl_watches := AList.delete pid (sl_watches st)\<rparr>
          else st\<lparr>sl_watches := AList.update pid (ref - 1) (sl_watches st)\<rparr>)"

text \<open>The process has exited.\<close>

definition pidfd_read :: "sld_env \<Rightarrow> u32 \<Rightarrow> sld_state \<Rightarrow> sld_state option" where
  "pidfd_read env pid st =
     map_option (\<lambda>st. st\<lparr>sl_watches := AList.delete pid (sl_watches st)\<rparr>) (data_remove_by_pid env pid st)"

section \<open>Servers\<close>

text \<open>\<open>g_list_find_custom\<close> with the comparison of transports.\<close>

fun find_server :: "service_info list \<Rightarrow> service_info \<Rightarrow> service_info option option" where
  "find_server [] info = Some None"
| "find_server (s # ss) info =
     (case cmsg_transport_info_compare (si_transport s) (si_transport info) of
        None \<Rightarrow> None
      | Some eq \<Rightarrow> if eq then Some (Some s) else find_server ss info)"

definition data_remove_server :: "sld_env \<Rightarrow> service_info \<Rightarrow> bool \<Rightarrow> sld_state \<Rightarrow> sld_state option" where
  "data_remove_server env info local st =
     (case get_service_entry_or_create (si_service info) False st of
        (None, st) \<Rightarrow> Some st
      | (Some entry, st) \<Rightarrow>
          (case find_server (servers entry) info of
             None \<Rightarrow> None
           | Some None \<Rightarrow> Some st
           | Some (Some s) \<Rightarrow>
               let entry = entry\<lparr>servers := remove_server (si_ptr s) (servers entry)\<rparr> in
               case notify_listeners env info False entry st of
                 (entry, st) \<Rightarrow>
                   Option.bind (remote_sync_server_removed info st) (\<lambda>st.
                     let st = (if local then process_watch_remove (si_pid info) st else st)
                     in Some (data_remove_service_data_entry_if_empty entry (si_service info)
                                (put_entry (si_service info) entry st)))))"

definition data_add_server :: "sld_env \<Rightarrow> service_info \<Rightarrow> bool \<Rightarrow> sld_state \<Rightarrow> sld_state option" where
  "data_add_server env info local st =
     (let info = info\<lparr>si_local := local\<rparr> in
      Option.bind (data_remove_server env info local st) (\<lambda>st.
        case get_service_entry_or_create (si_service info) True st of
          (None, _) \<Rightarrow> None
        | (Some entry, st) \<Rightarrow>
            (case notify_listeners env info True (entry\<lparr>servers := info # servers entry\<rparr>) st of
               (entry, st) \<Rightarrow>
                 Option.bind (remote_sync_server_added info (put_entry (si_service info) entry st)) (\<lambda>st.
                   if local then process_watch_add env (si_pid info) st else Some st))))"

text \<open>Whether a server's address is the given one; the length compared is the server's.\<close>

definition server_has_addr :: "u8 list \<Rightarrow> service_info \<Rightarrow> bool option" where
  "server_has_addr addr info =
     (case si_transport info of
        Info_tcp _ tcp \<Rightarrow>
          if ti_ipv4 tcp then memcmp_eq (ti_addr tcp) addr (length (ti_addr tcp)) else Some False
      | _ \<Rightarrow> Some False)"

fun servers_by_addr :: "u8 list \<Rightarrow> service_info list \<Rightarrow> service_info list option" where
  "servers_by_addr addr [] = Some []"
| "servers_by_addr addr (info # rest) =
     Option.bind (server_has_addr addr info) (\<lambda>yes.
       map_option (\<lambda>found. if yes then info # found else found) (servers_by_addr addr rest))"

fun remove_each_server ::
  "sld_env \<Rightarrow> service_info list \<Rightarrow> service_data_entry \<times> sld_state \<Rightarrow> (service_data_entry \<times> sld_state) option" where
  "remove_each_server env [] (entry, st) = Some (entry, st)"
| "remove_each_server env (info # rest) (entry, st) =
     (case notify_listeners env info False
             (entry\<lparr>servers := remove_server (si_ptr info) (servers entry)\<rparr>) st of
        (entry, st) \<Rightarrow>
          Option.bind (remote_sync_server_removed info st) (\<lambda>st. remove_each_server env rest (entry, st)))"

definition delete_server_by_addr ::
  "sld_env \<Rightarrow> u8 list \<Rightarrow> service_data_entry \<Rightarrow> sld_state \<Rightarrow> (service_data_entry \<times> sld_state) option" where
  "delete_server_by_addr env addr entry st =
     Option.bind (servers_by_addr addr (servers entry)) (\<lambda>removal_list.
       remove_each_server env removal_list (entry, st))"

definition data_remove_servers_by_addr :: "sld_env \<Rightarrow> u8 list \<Rightarrow> sld_state \<Rightarrow> sld_state option" where
  "data_remove_servers_by_addr env addr st = hash_foreach_remove (delete_server_by_addr env addr) st"

text \<open>The list is built by prepending, over all services.\<close>

fun get_servers_by_addr :: "u8 list \<Rightarrow> (string \<times> service_data_entry) list \<Rightarrow> service_info list \<Rightarrow> service_info list option" where
  "get_servers_by_addr addr [] found = Some found"
| "get_servers_by_addr addr ((_, entry) # rest) found =
     Option.bind (servers_by_addr addr (servers entry)) (\<lambda>these.
       get_servers_by_addr addr rest (rev these @ found))"

definition data_get_servers_by_addr :: "u8 list \<Rightarrow> sld_state \<Rightarrow> service_info list option" where
  "data_get_servers_by_addr addr st = get_servers_by_addr addr (sl_table st) []"

section \<open>Listeners\<close>

text \<open>Telling a new listener about each server; it is dropped at the first failure.\<close>

fun tell_servers :: "sld_env \<Rightarrow> listener_data \<Rightarrow> service_info list \<Rightarrow> sld_state \<Rightarrow> bool \<times> sld_state" where
  "tell_servers env l [] st = (True, st)"
| "tell_servers env l (info # rest) st =
     (case send_event env True l info st of
        (ret, st) \<Rightarrow> if ret \<noteq> CMSG_RET_OK then (False, st) else tell_servers env l rest st)"

text \<open>
  Watching the process may find it gone and remove the new listener, and its entry with it: the
  code goes on with both.
\<close>

definition data_add_listener :: "sld_env \<Rightarrow> sld_listener_info \<Rightarrow> sld_state \<Rightarrow> sld_state option" where
  "data_add_listener env info st =
     (case get_service_entry_or_create (li_service info) True st of
        (None, _) \<Rightarrow> None
      | (Some entry, st) \<Rightarrow>
          Option.bind (cmsg_transport_info_to_transport (li_transport info)) (\<lambda>client.
            let l = \<lparr>ls_ptr = sl_next st, ls_client = client, ls_id = li_id info, ls_pid = li_pid info\<rparr>;
                st = put_entry (li_service info) (entry\<lparr>listeners := l # listeners entry\<rparr>)
                       (st\<lparr>sl_next := sl_next st + 1\<rparr>)
            in Option.bind (process_watch_add env (ls_pid l) st) (\<lambda>st.
                 Option.bind (map_of (sl_table st) (li_service info)) (\<lambda>entry.
                   if servers entry = [] then Some st
                   else if l \<notin> set (listeners entry) then None
                   else
                     case tell_servers env l (servers entry) st of
                       (True, st) \<Rightarrow> Some st
                     | (False, st) \<Rightarrow>
                         Some (process_watch_remove (ls_pid l)
                                (sld_log (Sld_destroy_client (ls_ptr l))
                                  (put_entry (li_service info)
                                    (entry\<lparr>listeners := remove_listener (ls_ptr l) (listeners entry)\<rparr>) st)))))))"

text \<open>The first listener whose transport the message describes; its id is not looked at.\<close>

fun find_listener :: "cmsg_transport_info \<Rightarrow> listener_data list \<Rightarrow> listener_data option option" where
  "find_listener info [] = Some None"
| "find_listener info (l # ls) =
     Option.bind (ls_client l) (\<lambda>t.
     Option.bind (cmsg_transport_info_create t) (\<lambda>transport_info.
     Option.bind (cmsg_transport_info_compare info transport_info) (\<lambda>eq.
       if eq then Some (Some l) else find_listener info ls)))"

definition data_remove_listener :: "sld_listener_info \<Rightarrow> sld_state \<Rightarrow> sld_state option" where
  "data_remove_listener info st =
     (case get_service_entry_or_create (li_service info) False st of
        (None, st) \<Rightarrow> Some st
      | (Some entry, st) \<Rightarrow>
          Option.bind (find_listener (li_transport info) (listeners entry)) (\<lambda>found.
            case found of
              None \<Rightarrow> Some st
            | Some l \<Rightarrow>
                let entry = entry\<lparr>listeners := remove_listener (ls_ptr l) (listeners entry)\<rparr>;
                    st = process_watch_remove (ls_pid l) (sld_log (Sld_destroy_client (ls_ptr l)) st)
                in Some (data_remove_service_data_entry_if_empty entry (li_service info)
                           (put_entry (li_service info) entry st))))"

section \<open>Hosts\<close>

definition remote_sync_address_set :: "u8 list \<Rightarrow> sld_state \<Rightarrow> sld_state" where
  "remote_sync_address_set addr st =
     (if sl_sync_server st then st else st\<lparr>sl_sync_server := True, sl_local_ip := addr\<rparr>)"

text \<open>A client that cannot be created is not added, and syncing to it sends nothing.\<close>

definition remote_sync_add_host :: "sld_env \<Rightarrow> u8 list \<Rightarrow> sld_state \<Rightarrow> sld_state option" where
  "remote_sync_add_host env addr st =
     (let comp = (case sl_comp_client st of None \<Rightarrow> cmsg_composite_client_init | Some cc \<Rightarrow> cc) in
      case cmsg_create_transport_tcp_ipv4 (sync_port env) addr None True of
        None \<Rightarrow>
          map_option (\<lambda>_. st\<lparr>sl_comp_client := Some comp\<rparr>)
            (data_get_servers_by_addr (sl_local_ip st) st)
      | Some t \<Rightarrow>
          let c = sl_next st;
              tports = (sl_tports st)(c := t);
              cc = snd (cmsg_composite_client_add_child tports (Some comp) (Some c));
              st = st\<lparr>sl_comp_client := cc, sl_tports := tports, sl_next := c + 1\<rparr>
          in map_option (\<lambda>services. sld_log (Sld_bulk_sync c services) st)
               (data_get_servers_by_addr (sl_local_ip st) st))"

definition remote_sync_delete_host :: "u8 list \<Rightarrow> sld_state \<Rightarrow> sld_state" where
  "remote_sync_delete_host addr st =
     (case sl_comp_client st of
        None \<Rightarrow> st
      | Some cc \<Rightarrow>
          let child = cmsg_composite_client_lookup_by_tcp_ipv4_addr (sl_tports st) cc addr;
              cc' = snd (cmsg_composite_client_delete_child (Some cc) child);
              st = (case child of None \<Rightarrow> st | Some c \<Rightarrow> sld_log (Sld_destroy_client c) st)
          in case cc' of
               None \<Rightarrow> st
             | Some cc \<Rightarrow>
                 if cmsg_composite_client_num_children cc = 0 then st\<lparr>sl_comp_client := None\<rparr>
                 else st\<lparr>sl_comp_client := Some cc\<rparr>)"

section \<open>The handlers\<close>

text \<open>A received message is a fresh object: its pointer is the next one.\<close>

definition received :: "service_info \<Rightarrow> sld_state \<Rightarrow> service_info \<times> sld_state" where
  "received info st = (info\<lparr>si_ptr := sl_next st\<rparr>, st\<lparr>sl_next := sl_next st + 1\<rparr>)"

definition cmsg_sld_configuration_impl_address_set :: "u8 list \<Rightarrow> sld_state \<Rightarrow> sld_state" where
  "cmsg_sld_configuration_impl_address_set addr st = remote_sync_address_set addr st"

definition cmsg_sld_configuration_impl_add_host :: "sld_env \<Rightarrow> u8 list \<Rightarrow> sld_state \<Rightarrow> sld_state option" where
  "cmsg_sld_configuration_impl_add_host env addr st =
     remote_sync_add_host env addr (sld_log (Sld_tcp_cache addr True) st)"

definition cmsg_sld_configuration_impl_delete_host :: "sld_env \<Rightarrow> u8 list \<Rightarrow> sld_state \<Rightarrow> sld_state option" where
  "cmsg_sld_configuration_impl_delete_host env addr st =
     data_remove_servers_by_addr env addr
       (remote_sync_delete_host addr (sld_log (Sld_tcp_cache addr False) st))"

definition cmsg_sld_configuration_impl_listen :: "sld_env \<Rightarrow> sld_listener_info \<Rightarrow> sld_state \<Rightarrow> sld_state option" where
  "cmsg_sld_configuration_impl_listen env info st = data_add_listener env info st"

definition cmsg_sld_configuration_impl_unlisten :: "sld_listener_info \<Rightarrow> sld_state \<Rightarrow> sld_state option" where
  "cmsg_sld_configuration_impl_unlisten info st = data_remove_listener info st"

definition cmsg_sld_configuration_impl_add_server :: "sld_env \<Rightarrow> service_info \<Rightarrow> sld_state \<Rightarrow> sld_state option" where
  "cmsg_sld_configuration_impl_add_server env recv_msg st =
     (case received recv_msg st of
        (info, st) \<Rightarrow>
          if si_transport info = Info_not_set then Some st else data_add_server env info True st)"

definition cmsg_sld_configuration_impl_remove_server :: "sld_env \<Rightarrow> service_info \<Rightarrow> sld_state \<Rightarrow> sld_state option" where
  "cmsg_sld_configuration_impl_remove_server env recv_msg st =
     (case received recv_msg st of
        (info, st) \<Rightarrow>
          if si_transport info = Info_not_set then Some st else data_remove_server env info True st)"

definition is_tcp :: "cmsg_transport_info \<Rightarrow> bool" where
  "is_tcp info = (case info of Info_tcp _ _ \<Rightarrow> True | _ \<Rightarrow> False)"

definition cmsg_sld_remote_sync_impl_add_server :: "sld_env \<Rightarrow> service_info \<Rightarrow> sld_state \<Rightarrow> sld_state option" where
  "cmsg_sld_remote_sync_impl_add_server env recv_msg st =
     (case received recv_msg st of
        (info, st) \<Rightarrow> if is_tcp (si_transport info) then data_add_server env info False st else Some st)"

definition cmsg_sld_remote_sync_impl_remove_server :: "sld_env \<Rightarrow> service_info \<Rightarrow> sld_state \<Rightarrow> sld_state option" where
  "cmsg_sld_remote_sync_impl_remove_server env recv_msg st =
     (case received recv_msg st of
        (info, st) \<Rightarrow> if is_tcp (si_transport info) then data_remove_server env info False st else Some st)"

fun cmsg_sld_remote_sync_impl_bulk_sync :: "sld_env \<Rightarrow> service_info list \<Rightarrow> sld_state \<Rightarrow> sld_state option" where
  "cmsg_sld_remote_sync_impl_bulk_sync env [] st = Some st"
| "cmsg_sld_remote_sync_impl_bulk_sync env (recv_msg # rest) st =
     Option.bind
       (case received recv_msg st of
          (info, st) \<Rightarrow> if is_tcp (si_transport info) then data_add_server env info False st else Some st)
       (cmsg_sld_remote_sync_impl_bulk_sync env rest)"

end
