(* ===== verification/ServiceListenerProps.thy ===== *)
theory ServiceListenerProps
  imports ServiceListener "HOL-Library.Multiset"
begin

text \<open>
  What the service listener daemon promises a listener: the events it was sent add up to the
  servers of its service. The lemmas say of every operation of the store that it keeps this.
\<close>

section \<open>What a listener knows\<close>

type_synonym server_key = "(bool \<times> string) option \<times> (bool \<times> bool \<times> u8 list \<times> u8 list) option"

definition server_key :: "service_info \<Rightarrow> server_key" where
  "server_key s = info_key (si_transport s)"

abbreviation server_keys :: "service_info list \<Rightarrow> server_key multiset" where
  "server_keys ss \<equiv> image_mset server_key (mset ss)"

text \<open>
  The effect of an announcement on a multiset of servers, and of a trace on what \<open>p\<close> knows from the
  events that carry each id.
\<close>

definition announce :: "bool \<Rightarrow> service_info \<Rightarrow> server_key multiset \<Rightarrow> server_key multiset" where
  "announce added s K = (if added then add_mset (server_key s) K else K - {#server_key s#})"

fun learn :: "nat \<Rightarrow> sld_event \<Rightarrow> (u32 \<Rightarrow> server_key multiset) \<Rightarrow> u32 \<Rightarrow> server_key multiset" where
  "learn p (Sld_notify added q i s ok) K = (if q = p \<and> ok then K(i := announce added s (K i)) else K)"
| "learn p _ K = K"

definition known :: "sld_event list \<Rightarrow> nat \<Rightarrow> u32 \<Rightarrow> server_key multiset" where
  "known tr p = fold (learn p) tr (\<lambda>_. {#})"

lemma known_Nil [simp]: "known [] p = (\<lambda>_. {#})"
  by (simp add: known_def)

lemma known_snoc [simp]: "known (tr @ [ev]) p = learn p ev (known tr p)"
  by (simp add: known_def)

lemma known_log [simp]: "known (sl_trace (sld_log ev st)) p = learn p ev (known (sl_trace st) p)"
  by (simp add: sld_log_def)

definition view :: "sld_event list \<Rightarrow> service_data_entry \<Rightarrow> server_key multiset \<Rightarrow> bool" where
  "view tr e K \<longleftrightarrow> (\<forall>l \<in> set (listeners e). known tr (ls_ptr l) (ls_id l) = K)"

text \<open>Only proper descriptions are announced.\<close>

fun event_ok :: "sld_event \<Rightarrow> bool" where
  "event_ok (Sld_notify added q i s ok) = info_ok (si_transport s)"
| "event_ok _ = True"

abbreviation trace_ok :: "sld_event list \<Rightarrow> bool" where
  "trace_ok tr \<equiv> \<forall>ev \<in> set tr. event_ok ev"

text \<open>Nothing but the trace differs, and it stays proper.\<close>

definition only_trace :: "sld_state \<Rightarrow> sld_state \<Rightarrow> bool" where
  "only_trace st st' \<longleftrightarrow> (\<exists>tr. st' = st\<lparr>sl_trace := tr\<rparr> \<and> (trace_ok (sl_trace st) \<longrightarrow> trace_ok tr))"

lemma only_trace_refl [simp, intro]: "only_trace st st"
  by (auto simp: only_trace_def intro: exI [of _ "sl_trace st"])

lemma only_trace_trans: "only_trace a b \<Longrightarrow> only_trace b c \<Longrightarrow> only_trace a c"
  by (auto simp: only_trace_def)

lemma only_trace_log [simp, intro]: "event_ok ev \<Longrightarrow> only_trace st (sld_log ev st)"
  unfolding only_trace_def by (rule exI [of _ "sl_trace st @ [ev]"]) (simp add: sld_log_def)

lemma only_trace_fields:
  "only_trace st st' \<Longrightarrow> sl_table st' = sl_table st \<and> sl_watches st' = sl_watches st \<and> sl_next st' = sl_next st"
  by (auto simp: only_trace_def)

text \<open>A step on one entry: it only adds to the trace, and only its own listeners learn from it.\<close>

definition acts_on ::
  "service_data_entry \<Rightarrow> sld_state \<Rightarrow> service_data_entry \<Rightarrow> sld_state \<Rightarrow> bool" where
  "acts_on e st e' st' \<longleftrightarrow>
     only_trace st st' \<and> set (listeners e') \<subseteq> set (listeners e) \<and>
     (distinct (map ls_ptr (listeners e)) \<longrightarrow> distinct (map ls_ptr (listeners e'))) \<and>
     (\<forall>p. p \<notin> ls_ptr ` set (listeners e) \<longrightarrow> known (sl_trace st') p = known (sl_trace st) p)"

lemma acts_on_refl [simp, intro]: "acts_on e st e st"
  by (simp add: acts_on_def)

lemma acts_on_servers [simp]: "acts_on (e\<lparr>servers := x\<rparr>) st e' st' = acts_on e st e' st'"
  "acts_on e st (e'\<lparr>servers := x\<rparr>) st' = acts_on e st e' st'"
  by (simp_all add: acts_on_def)

lemma acts_on_trans:
  assumes "acts_on e st e1 st1" "acts_on e1 st1 e2 st2"
  shows "acts_on e st e2 st2"
proof -
  have "only_trace st st2"
    using assms only_trace_trans by (auto simp: acts_on_def)
  moreover have "known (sl_trace st2) p = known (sl_trace st) p"
    if "p \<notin> ls_ptr ` set (listeners e)" for p
  proof -
    have "p \<notin> ls_ptr ` set (listeners e1)" using assms(1) that by (auto simp: acts_on_def)
    then show ?thesis using assms that by (simp add: acts_on_def)
  qed
  ultimately show ?thesis using assms by (auto simp: acts_on_def)
qed

lemma acts_on_log:
  "event_ok ev \<Longrightarrow> (\<And>p K. p \<notin> ls_ptr ` set (listeners e) \<Longrightarrow> learn p ev K = K) \<Longrightarrow>
    acts_on e st e (sld_log ev st)"
  by (simp add: acts_on_def)

section \<open>Announcing\<close>

lemma remove_listener_filter:
  "distinct (map ls_ptr ls) \<Longrightarrow> remove_listener p ls = filter (\<lambda>l. ls_ptr l \<noteq> p) ls"
  by (induction ls) (auto intro!: filter_True [symmetric] simp: rev_image_eqI)

lemma remove_server_filter:
  "distinct (map si_ptr ss) \<Longrightarrow> remove_server p ss = filter (\<lambda>s. si_ptr s \<noteq> p) ss"
  by (induction ss) (auto intro!: filter_True [symmetric] simp: rev_image_eqI)

lemma drop_listeners_result:
  "distinct (map ls_ptr ls) \<Longrightarrow>
    fst (drop_listeners rs (ls, st)) = filter (\<lambda>l. ls_ptr l \<notin> ls_ptr ` set rs) ls \<and>
    only_trace st (snd (drop_listeners rs (ls, st))) \<and>
    known (sl_trace (snd (drop_listeners rs (ls, st)))) = known (sl_trace st)"
proof (induction rs arbitrary: ls st)
  case (Cons r rs)
  have "distinct (map ls_ptr (remove_listener (ls_ptr r) ls))"
    using Cons.prems by (simp add: remove_listener_filter distinct_map_filter)
  note IH = Cons.IH [OF this, of "sld_log (Sld_destroy_client (ls_ptr r)) st"]
  have "only_trace st (sld_log (Sld_destroy_client (ls_ptr r)) st)" by (rule only_trace_log) simp
  with IH have "only_trace st (snd (drop_listeners (r # rs) (ls, st)))"
    by (simp add: only_trace_trans [of st "sld_log (Sld_destroy_client (ls_ptr r)) st"])
  with IH Cons.prems show ?case
    by (auto simp: remove_listener_filter fun_eq_iff known_log intro!: filter_cong)
qed (simp add: fun_eq_iff)

text \<open>The listeners that were told know; the others are on the list to be removed.\<close>

lemma notify_each_result:
  assumes "distinct (map ls_ptr ls)" "notify_each env info added ls rem st = (rem', st')"
    and info: "info_ok (si_transport info)"
  shows "only_trace st st' \<and> set rem \<subseteq> set rem' \<and> set rem' \<subseteq> set rem \<union> set ls \<and>
    (\<forall>l \<in> set ls. l \<notin> set rem' \<longrightarrow> known (sl_trace st') (ls_ptr l) (ls_id l) = announce added info (known (sl_trace st) (ls_ptr l) (ls_id l))) \<and>
    (\<forall>p. p \<notin> ls_ptr ` set ls \<longrightarrow> known (sl_trace st') p = known (sl_trace st) p)"
  using assms(1,2)
proof (induction ls arbitrary: rem st)
  case (Cons l ls)
  obtain ret st1 where s: "send_event env added l info st = (ret, st1)" by fastforce
  have st1: "only_trace st st1"
    "ret = CMSG_RET_OK \<Longrightarrow> known (sl_trace st1) (ls_ptr l) (ls_id l) = announce added info (known (sl_trace st) (ls_ptr l) (ls_id l))"
    "\<And>p. p \<noteq> ls_ptr l \<Longrightarrow> known (sl_trace st1) p = known (sl_trace st) p"
    using s info by (auto simp: send_event_def Let_def cmsg_codes split: option.splits)
  let ?rem = "if ret \<noteq> CMSG_RET_OK then l # rem else rem"
  from Cons.prems s have n: "notify_each env info added ls ?rem st1 = (rem', st')" by simp
  note ih = Cons.IH [OF _ n]
  have d: "distinct (map ls_ptr ls)" "ls_ptr l \<notin> ls_ptr ` set ls" using Cons.prems(1) by auto
  have "only_trace st st'"
    using ih [OF d(1)] st1(1) only_trace_trans by blast
  moreover have "ret \<noteq> CMSG_RET_OK \<Longrightarrow> l \<in> set rem'" using ih [OF d(1)] by auto
  moreover have "known (sl_trace st1) (ls_ptr x) = known (sl_trace st) (ls_ptr x)" if "x \<in> set ls" for x
    using st1(3) that d(2) by (metis image_eqI)
  ultimately show ?case
    using ih [OF d(1)] st1(2,3) d(2) by (auto split: if_splits)
qed simp

lemma notify_listeners_result:
  assumes "distinct (map ls_ptr (listeners e))" "notify_listeners env info added e st = (e', st')"
    and info: "info_ok (si_transport info)"
  shows "servers e' = servers e" "acts_on e st e' st'"
    "view (sl_trace st) e K \<Longrightarrow> view (sl_trace st') e' (announce added info K)"
proof -
  obtain rem st1 where n: "notify_each env info added (listeners e) [] st = (rem, st1)" by fastforce
  obtain ls st2 where d: "drop_listeners rem (listeners e, st1) = (ls, st2)" by fastforce
  have e': "e' = e\<lparr>listeners := ls\<rparr>" "st' = st2"
    using assms(2) n d by (simp_all add: notify_listeners_def)
  note N = notify_each_result [OF assms(1) n info]
  have D: "ls = filter (\<lambda>l. ls_ptr l \<notin> ls_ptr ` set rem) (listeners e)"
    "only_trace st1 st2" "known (sl_trace st2) = known (sl_trace st1)"
    using drop_listeners_result [OF assms(1), of rem st1] d by simp_all
  show "servers e' = servers e" by (simp add: e')
  have "only_trace st st2"
    using D(2) N only_trace_trans by blast
  then show "acts_on e st e' st'"
    using N D(1,3) by (auto simp: acts_on_def e' distinct_map_filter)
  show "view (sl_trace st') e' (announce added info K)" if "view (sl_trace st) e K"
    using that N D(1,3) by (auto simp: view_def e')
qed

section \<open>Entries\<close>

text \<open>
  A well-formed entry: messages as the daemon gets them, no two servers of the same transport,
  and every listener knows exactly the servers.
\<close>

definition listener_ok :: "nat \<Rightarrow> listener_data \<Rightarrow> bool" where
  "listener_ok n l \<longleftrightarrow> ls_ptr l < n \<and> (\<exists>ti. info_ok ti \<and> ls_client l = Some (transport_of_info ti))"

definition server_ok_in :: "nat \<Rightarrow> string \<Rightarrow> service_info \<Rightarrow> bool" where
  "server_ok_in n k s \<longleftrightarrow> si_ptr s < n \<and> info_ok (si_transport s) \<and> si_service s = k"

definition entry_shape :: "nat \<Rightarrow> string \<Rightarrow> service_data_entry \<Rightarrow> bool" where
  "entry_shape n k e \<longleftrightarrow>
     distinct (map ls_ptr (listeners e)) \<and> (\<forall>l \<in> set (listeners e). listener_ok n l) \<and>
     distinct (map si_ptr (servers e)) \<and> (\<forall>s \<in> set (servers e). server_ok_in n k s) \<and>
     distinct (map server_key (servers e))"

definition entry_ok :: "nat \<Rightarrow> sld_event list \<Rightarrow> string \<Rightarrow> service_data_entry \<Rightarrow> bool" where
  "entry_ok n tr k e \<longleftrightarrow> entry_shape n k e \<and> view tr e (server_keys (servers e))"

lemma entry_shape_acts:
  "entry_shape n k e \<Longrightarrow> acts_on e st e' st' \<Longrightarrow> servers e' = servers e \<Longrightarrow> entry_shape n k e'"
  by (auto simp: entry_shape_def acts_on_def)

lemma entry_shape_filter: "entry_shape n k e \<Longrightarrow> entry_shape n k (e\<lparr>servers := filter P (servers e)\<rparr>)"
  by (auto simp: entry_shape_def distinct_map_filter)

lemma entry_shape_remove_server: "entry_shape n k e \<Longrightarrow> entry_shape n k (e\<lparr>servers := remove_server p (servers e)\<rparr>)"
  using entry_shape_filter [of n k e] by (simp add: remove_server_filter entry_shape_def [of n k e])

lemma sync_ok:
  assumes "info_ok (si_transport info)"
  shows "\<exists>b st'. remote_sync_server_added_removed info added st = Some (b, st') \<and>
    only_trace st st' \<and> known (sl_trace st') = known (sl_trace st)"
proof -
  have log: "known (sl_trace (sld_log (Sld_sync added info) st)) = known (sl_trace st)"
    by (simp add: fun_eq_iff)
  then show ?thesis
    using assms by (cases "si_transport info"; cases "sl_comp_client st")
      (auto simp: remote_sync_server_added_removed_def info_ok_def)
qed

lemma sync_acts:
  assumes "info_ok (si_transport info)"
  obtains st' where "remote_sync_server_added info st = Some st'" "\<And>e. acts_on e st e st'"
      "known (sl_trace st') = known (sl_trace st)"
  using sync_ok [OF assms, of True st] that
  by (auto simp: remote_sync_server_added_def acts_on_def)

lemma sync_removed_acts:
  assumes "info_ok (si_transport info)"
  obtains st' where "remote_sync_server_removed info st = Some st'" "\<And>e. acts_on e st e st'"
      "known (sl_trace st') = known (sl_trace st)"
  using sync_ok [OF assms, of False st] that
  by (auto simp: remote_sync_server_removed_def acts_on_def)

lemma keys_remove:
  "distinct (map si_ptr ss) \<Longrightarrow> s \<in> set ss \<Longrightarrow> server_keys (remove_server (si_ptr s) ss) = server_keys ss - {#server_key s#}"
proof (induction ss)
  case (Cons x ss)
  then have "s \<noteq> x \<Longrightarrow> server_key s \<in># server_keys ss" by auto
  with Cons show ?case by (auto simp: rev_image_eqI)
qed simp

lemma keys_without:
  assumes "entry_shape n k e" "s \<in> set (servers e)"
  shows "server_keys (remove_server (si_ptr s) (servers e)) = server_keys (servers e) - {#server_key s#}"
  using assms keys_remove by (simp add: entry_shape_def)

lemma key_gone:
  assumes "entry_shape n k e" "s \<in> set (servers e)"
  shows "server_key s \<notin> server_key ` set (remove_server (si_ptr s) (servers e))"
proof -
  have "distinct (map si_ptr (servers e))" "inj_on server_key (set (servers e))"
    using assms(1) by (simp_all add: entry_shape_def distinct_map)
  then show ?thesis using assms(2) by (auto simp: remove_server_filter dest: inj_onD)
qed

text \<open>Taking one server out and announcing it, by a message with the same transport.\<close>

lemma retire_server:
  assumes e: "entry_ok n (sl_trace st) k e" "s \<in> set (servers e)"
    and info: "server_key info = server_key s" "info_ok (si_transport info)"
    and n: "notify_listeners env info False e1 st = (e', st')"
    and e1: "e1 = e\<lparr>servers := remove_server (si_ptr s) (servers e)\<rparr>"
  obtains st2 where "remote_sync_server_removed info st' = Some st2" "acts_on e st e' st2"
    "entry_ok n (sl_trace st2) k e'" "servers e' = remove_server (si_ptr s) (servers e)"
proof -
  have d: "distinct (map ls_ptr (listeners e1))" using e(1) by (simp add: e1 entry_ok_def entry_shape_def)
  note N = notify_listeners_result [OF d n info(2)]
  obtain st2 where st2: "remote_sync_server_removed info st' = Some st2" "\<And>e. acts_on e st' e st2"
      "known (sl_trace st2) = known (sl_trace st')"
    using sync_removed_acts [OF info(2), of st'] by blast
  have sh: "entry_shape n k e" "view (sl_trace st) e (server_keys (servers e))"
    using e(1) by (simp_all add: entry_ok_def)
  have acts: "acts_on e st e' st2"
    using acts_on_trans [OF N(2) st2(2)] by (simp add: e1)
  moreover have sv: "servers e' = remove_server (si_ptr s) (servers e)" using N(1) by (simp add: e1)
  moreover have "entry_shape n k e'"
    using entry_shape_acts [OF entry_shape_remove_server [OF sh(1), of "si_ptr s"]] acts sv by simp
  moreover have "view (sl_trace st') e' (server_keys (servers e) - {#server_key s#})"
    using N(3) [of "server_keys (servers e)"] sh(2) info(1) by (simp add: e1 view_def announce_def)
  then have "view (sl_trace st2) e' (server_keys (servers e'))"
    using st2(3) by (simp add: view_def sv keys_without [OF sh(1) e(2)])
  ultimately show thesis using that st2(1) by (simp add: entry_ok_def)
qed

section \<open>The callbacks of the table\<close>

text \<open>The outcome of a callback: defined, on its own entry only, and the entry is well-formed again.\<close>

definition entry_step ::
  "nat \<Rightarrow> string \<Rightarrow> service_data_entry \<Rightarrow> sld_state \<Rightarrow> (service_data_entry \<times> sld_state) option \<Rightarrow> bool" where
  "entry_step n k e st r \<longleftrightarrow> (\<exists>e' st'. r = Some (e', st') \<and> acts_on e st e' st' \<and>
     entry_ok n (sl_trace st') k e' \<and> set (servers e') \<subseteq> set (servers e))"

text \<open>An entry whose listeners outside \<open>P\<close> may still be behind.\<close>

definition entry_ok_for :: "(listener_data \<Rightarrow> bool) \<Rightarrow> nat \<Rightarrow> sld_event list \<Rightarrow> string \<Rightarrow> service_data_entry \<Rightarrow> bool" where
  "entry_ok_for P n tr k e \<longleftrightarrow> entry_shape n k e \<and>
     (\<forall>l \<in> set (listeners e). P l \<longrightarrow> known tr (ls_ptr l) (ls_id l) = server_keys (servers e))"

lemma entry_ok_for_all: "entry_ok_for (\<lambda>_. True) n tr k e = entry_ok n tr k e"
  by (simp add: entry_ok_for_def entry_ok_def view_def)

lemma entry_ok_for_weaken: "entry_ok n tr k e \<Longrightarrow> entry_ok_for P n tr k e"
  by (simp add: entry_ok_for_def entry_ok_def view_def)

lemma remove_servers_by_pid_ok:
  assumes "entry_ok n (sl_trace st) k e" "set ss \<subseteq> set (servers e)" "distinct (map si_ptr ss)"
  shows "entry_step n k e st (remove_servers_by_pid env pid ss (e, st))"
  using assms
  unfolding entry_step_def
proof (induction ss arbitrary: e st)
  case (Cons s ss)
  show ?case
  proof (cases "si_local s \<and> si_pid s = pid")
    case True
    let ?e1 = "e\<lparr>servers := remove_server (si_ptr s) (servers e)\<rparr>"
    obtain e1 st1 where n: "notify_listeners env s False e st = (e1, st1)" by fastforce
    have n': "notify_listeners env s False ?e1 st = (e1\<lparr>servers := remove_server (si_ptr s) (servers e)\<rparr>, st1)"
      using n by (auto simp: notify_listeners_def split: prod.splits)
    have s: "s \<in> set (servers e)" "info_ok (si_transport s)"
      using Cons.prems by (auto simp: entry_ok_def entry_shape_def server_ok_in_def)
    obtain st2 where st2: "remote_sync_server_removed s st1 = Some st2"
        "acts_on e st (e1\<lparr>servers := remove_server (si_ptr s) (servers e)\<rparr>) st2"
        "entry_ok n (sl_trace st2) k (e1\<lparr>servers := remove_server (si_ptr s) (servers e)\<rparr>)"
      using retire_server [OF Cons.prems(1) s(1) refl s(2) n' refl] by metis
    have d: "distinct (map si_ptr (servers e))" using Cons.prems(1) by (simp add: entry_ok_def entry_shape_def)
    have e1: "servers e1 = servers e"
      using n by (auto simp: notify_listeners_def split: prod.splits)
    have sub: "set ss \<subseteq> set (remove_server (si_ptr s) (servers e))"
      using Cons.prems(2,3) by (auto simp: remove_server_filter [OF d] rev_image_eqI)
    obtain e' st' where "remove_servers_by_pid env pid ss (e1\<lparr>servers := remove_server (si_ptr s) (servers e)\<rparr>, st2) = Some (e', st')"
        "acts_on (e1\<lparr>servers := remove_server (si_ptr s) (servers e)\<rparr>) st2 e' st'"
        "entry_ok n (sl_trace st') k e'" "set (servers e') \<subseteq> set (remove_server (si_ptr s) (servers e))"
      using Cons.IH [OF st2(3)] sub Cons.prems(3) by auto
    moreover from this(2) have "acts_on e st e' st'" using acts_on_trans [OF st2(2)] by blast
    ultimately show ?thesis
      using True n st2(1) e1 by (auto simp: remove_server_filter [OF d])
  next
    case False
    with Cons show ?thesis by auto
  qed
qed auto

lemma destroy_trace:
  "only_trace st (fold (\<lambda>l. sld_log (Sld_destroy_client (ls_ptr l))) ls st) \<and>
   known (sl_trace (fold (\<lambda>l. sld_log (Sld_destroy_client (ls_ptr l))) ls st)) = known (sl_trace st)"
proof (induction ls arbitrary: st)
  case (Cons l ls)
  have "only_trace st (sld_log (Sld_destroy_client (ls_ptr l)) st)" by (rule only_trace_log) simp
  from only_trace_trans [OF this] Cons [of "sld_log (Sld_destroy_client (ls_ptr l)) st"]
  show ?case by (simp add: fun_eq_iff)
qed simp

lemma remove_by_pid_ok:
  assumes "entry_ok_for (\<lambda>l. ls_pid l \<noteq> pid) n (sl_trace st) k e"
  shows "entry_step n k e st (remove_by_pid env pid e st)"
proof -
  let ?st = "fold (\<lambda>l. sld_log (Sld_destroy_client (ls_ptr l))) (filter (\<lambda>l. ls_pid l = pid) (listeners e)) st"
  let ?e = "e\<lparr>listeners := filter (\<lambda>l. ls_pid l \<noteq> pid) (listeners e)\<rparr>"
  have t: "only_trace st ?st" "known (sl_trace ?st) = known (sl_trace st)"
    using destroy_trace by blast+
  have "entry_ok n (sl_trace ?st) k ?e"
    using assms t(2) by (auto simp: entry_ok_for_def entry_ok_def entry_shape_def view_def distinct_map_filter)
  moreover have "distinct (map si_ptr (servers e))" using assms by (simp add: entry_ok_for_def entry_shape_def)
  ultimately obtain e' st' where r: "remove_servers_by_pid env pid (servers ?e) (?e, ?st) = Some (e', st')"
      "acts_on ?e ?st e' st'" "entry_ok n (sl_trace st') k e'" "set (servers e') \<subseteq> set (servers ?e)"
    using remove_servers_by_pid_ok [of n ?st k ?e "servers ?e" env pid] by (auto simp: entry_step_def)
  have "acts_on e st ?e ?st" using t by (auto simp: acts_on_def distinct_map_filter)
  with r(2) have "acts_on e st e' st'" using acts_on_trans by blast
  with r show ?thesis by (auto simp: remove_by_pid_def Let_def entry_step_def)
qed

lemma servers_by_addr_total:
  assumes "\<forall>s \<in> set ss. info_ok (si_transport s)" "length addr = 4"
  shows "\<exists>P. servers_by_addr addr ss = Some (filter P ss)"
proof
  let ?P = "\<lambda>s. server_has_addr addr s = Some True"
  show "servers_by_addr addr ss = Some (filter ?P ss)"
    using assms(1)
  proof (induction ss)
    case (Cons s ss)
    then have "info_ok (si_transport s)" by simp
    then have "\<exists>b. server_has_addr addr s = Some b"
      using assms(2) by (cases "si_transport s")
        (auto simp: server_has_addr_def info_ok_def memcmp_eq_def)
    with Cons show ?case by auto
  qed simp
qed

lemma remove_each_server_ok:
  assumes "entry_ok n (sl_trace st) k e" "set ss \<subseteq> set (servers e)" "distinct (map si_ptr ss)"
  shows "entry_step n k e st (remove_each_server env ss (e, st))"
  using assms
  unfolding entry_step_def
proof (induction ss arbitrary: e st)
  case (Cons s ss)
  let ?e1 = "e\<lparr>servers := remove_server (si_ptr s) (servers e)\<rparr>"
  obtain e1 st1 where n: "notify_listeners env s False ?e1 st = (e1, st1)" by fastforce
  have s: "s \<in> set (servers e)" "info_ok (si_transport s)"
    using Cons.prems by (auto simp: entry_ok_def entry_shape_def server_ok_in_def)
  obtain st2 where st2: "remote_sync_server_removed s st1 = Some st2" "acts_on e st e1 st2"
      "entry_ok n (sl_trace st2) k e1" "servers e1 = remove_server (si_ptr s) (servers e)"
    using retire_server [OF Cons.prems(1) s(1) refl s(2) n refl] by metis
  have d: "distinct (map si_ptr (servers e))" using Cons.prems(1) by (simp add: entry_ok_def entry_shape_def)
  have sub: "set ss \<subseteq> set (servers e1)"
    using Cons.prems(2,3) by (auto simp: st2(4) remove_server_filter [OF d] rev_image_eqI)
  obtain e' st' where r: "remove_each_server env ss (e1, st2) = Some (e', st')" "acts_on e1 st2 e' st'"
      "entry_ok n (sl_trace st') k e'" "set (servers e') \<subseteq> set (servers e1)"
    using Cons.IH [OF st2(3) sub] Cons.prems(3) by auto
  then show ?case
    using n st2(1) acts_on_trans [OF st2(2) r(2)] by (auto simp: st2(4) remove_server_filter [OF d])
qed auto

lemma delete_server_by_addr_ok:
  assumes "entry_ok n (sl_trace st) k e" "length addr = 4"
  shows "entry_step n k e st (delete_server_by_addr env addr e st)"
proof -
  have "\<forall>s \<in> set (servers e). info_ok (si_transport s)" "distinct (map si_ptr (servers e))"
    using assms(1) by (auto simp: entry_ok_def entry_shape_def server_ok_in_def)
  moreover from this(1) obtain P where "servers_by_addr addr (servers e) = Some (filter P (servers e))"
    using servers_by_addr_total [OF _ assms(2)] by blast
  ultimately show ?thesis
    using remove_each_server_ok [OF assms(1), of "filter P (servers e)" env]
    by (auto simp: delete_server_by_addr_def distinct_map_filter)
qed

end
