(* ===== verification/ServiceListenerInv.thy ===== *)
theory ServiceListenerInv
  imports ServiceListenerProps
begin

text \<open>
  The service listener daemon as a state machine: the table of services stays well-formed, and
  every listener's view exact, through every handler and every exit of a process.
\<close>

section \<open>The table\<close>

abbreviation ptrs :: "service_data_entry \<Rightarrow> nat set" where
  "ptrs e \<equiv> ls_ptr ` set (listeners e)"

abbreviation in_use :: "service_data_entry \<Rightarrow> bool" where
  "in_use e \<equiv> servers e \<noteq> [] \<or> listeners e \<noteq> []"

definition tbl_ok ::
  "(listener_data \<Rightarrow> bool) \<Rightarrow> nat \<Rightarrow> sld_event list \<Rightarrow> (string \<times> service_data_entry) list \<Rightarrow> bool" where
  "tbl_ok P n tr tbl \<longleftrightarrow> distinct (map fst tbl) \<and>
     (\<forall>(k, e) \<in> set tbl. entry_ok_for P n tr k e \<and> in_use e) \<and>
     (\<forall>(k1, e1) \<in> set tbl. \<forall>(k2, e2) \<in> set tbl. k1 \<noteq> k2 \<longrightarrow> ptrs e1 \<inter> ptrs e2 = {})"

lemma tbl_okI:
  assumes "distinct (map fst tbl)" "\<And>k e. (k, e) \<in> set tbl \<Longrightarrow> entry_ok_for P n tr k e"
    "\<And>k e. (k, e) \<in> set tbl \<Longrightarrow> in_use e"
    "\<And>k1 e1 k2 e2. (k1, e1) \<in> set tbl \<Longrightarrow> (k2, e2) \<in> set tbl \<Longrightarrow> k1 \<noteq> k2 \<Longrightarrow> ptrs e1 \<inter> ptrs e2 = {}"
  shows "tbl_ok P n tr tbl"
  unfolding tbl_ok_def using assms by fast

lemma tbl_okD:
  assumes "tbl_ok P n tr tbl"
  shows "distinct (map fst tbl)" "(k, e) \<in> set tbl \<Longrightarrow> entry_ok_for P n tr k e"
    "(k, e) \<in> set tbl \<Longrightarrow> in_use e"
    "(k1, e1) \<in> set tbl \<Longrightarrow> (k2, e2) \<in> set tbl \<Longrightarrow> k1 \<noteq> k2 \<Longrightarrow> ptrs e1 \<inter> ptrs e2 = {}"
  using assms unfolding tbl_ok_def by fast+

lemma set_alist_update:
  "distinct (map fst al) \<Longrightarrow> set (AList.update k v al) = insert (k, v) {x \<in> set al. fst x \<noteq> k}"
  by (induction al) (auto simp: rev_image_eqI)

lemma set_alist_delete: "set (AList.delete k al) = {x \<in> set al. fst x \<noteq> k}"
  by (induction al) auto

lemma entry_ok_for_known:
  "entry_ok_for P n tr k e \<Longrightarrow> (\<And>p. p \<in> ptrs e \<Longrightarrow> known tr' p = known tr p) \<Longrightarrow> entry_ok_for P n tr' k e"
  by (auto simp: entry_ok_for_def)

lemma tbl_ok_known:
  assumes "tbl_ok P n tr tbl" "known tr' = known tr"
  shows "tbl_ok P n tr' tbl"
  using assms by (auto simp: tbl_ok_def intro: entry_ok_for_known)

text \<open>An entry that stays within its own listeners leaves the others as they were.\<close>

lemma tbl_put:
  assumes t: "tbl_ok P n (sl_trace st) tbl"
    and e: "map_of tbl k = Some e \<or> k \<notin> fst ` set tbl \<and> listeners e = []"
    and s: "acts_on e st e' st'" "entry_ok_for P n (sl_trace st') k e'"
  shows "in_use e' \<Longrightarrow> tbl_ok P n (sl_trace st') (AList.update k e' tbl)"
    and "tbl_ok P n (sl_trace st') (AList.delete k tbl)"
proof -
  note D = tbl_okD [OF t]
  have disj: "ptrs e2 \<inter> ptrs e = {}" if "(k2, e2) \<in> set tbl" "k2 \<noteq> k" for k2 e2
    using e D(4) [OF that(1) _ that(2)] map_of_SomeD [of tbl k e] by auto
  have others: "entry_ok_for P n (sl_trace st') k2 e2" if "(k2, e2) \<in> set tbl" "k2 \<noteq> k" for k2 e2
  proof (rule entry_ok_for_known [OF D(2) [OF that(1)]])
    fix p assume "p \<in> ptrs e2"
    with disj [OF that] have "p \<notin> ptrs e" by blast
    then show "known (sl_trace st') p = known (sl_trace st) p" using s(1) by (simp add: acts_on_def)
  qed
  have sub: "ptrs e' \<subseteq> ptrs e" using s(1) by (auto simp: acts_on_def)
  show "tbl_ok P n (sl_trace st') (AList.delete k tbl)"
  proof (rule tbl_okI)
    fix k1 e1 k2 e2
    assume "(k1, e1) \<in> set (AList.delete k tbl)" "(k2, e2) \<in> set (AList.delete k tbl)" "k1 \<noteq> k2"
    then show "ptrs e1 \<inter> ptrs e2 = {}" by (intro D(4)) (auto simp: set_alist_delete)
  next
    show "in_use e2" if "(k2, e2) \<in> set (AList.delete k tbl)" for k2 e2
      using that by (intro D(3) [of k2]) (simp add: set_alist_delete)
  qed (use D(1) others in \<open>simp_all add: set_alist_delete distinct_delete\<close>)
  show "tbl_ok P n (sl_trace st') (AList.update k e' tbl)" if "in_use e'"
  proof (rule tbl_okI)
    fix k1 e1 k2 e2
    assume *: "(k1, e1) \<in> set (AList.update k e' tbl)" "(k2, e2) \<in> set (AList.update k e' tbl)" "k1 \<noteq> k2"
    then consider "k1 = k" "e1 = e'" "(k2, e2) \<in> set tbl" "k2 \<noteq> k" | "k2 = k" "e2 = e'" "(k1, e1) \<in> set tbl" "k1 \<noteq> k"
      | "(k1, e1) \<in> set tbl" "(k2, e2) \<in> set tbl"
      by (auto simp: set_alist_update [OF D(1)])
    then show "ptrs e1 \<inter> ptrs e2 = {}"
    proof cases
      case 1
      then show ?thesis using disj [of k2 e2] sub by blast
    next
      case 2
      then show ?thesis using disj [of k1 e1] sub by blast
    next
      case 3
      then show ?thesis using D(4) *(3) by simp
    qed
  qed (use that D others s(2) in \<open>auto simp: set_alist_update [OF D(1)] distinct_update\<close>)
qed

section \<open>Going through the table\<close>

lemma foreach_remove_ok:
  assumes step: "\<forall>k e st. entry_ok_for P n (sl_trace st) k e \<longrightarrow> entry_step n k e st (f e st)"
    and t: "tbl_ok P n (sl_trace st) tbl"
  shows "\<exists>tbl' st'. foreach_remove f tbl st = Some (tbl', st') \<and> only_trace st st' \<and>
    (\<forall>p. (\<forall>(k, e) \<in> set tbl. p \<notin> ptrs e) \<longrightarrow> known (sl_trace st') p = known (sl_trace st) p) \<and>
    fst ` set tbl' \<subseteq> fst ` set tbl \<and> tbl_ok (\<lambda>_. True) n (sl_trace st') tbl' \<and>
    (\<forall>(k, e') \<in> set tbl'. \<exists>e. (k, e) \<in> set tbl \<and> ptrs e' \<subseteq> ptrs e \<and> set (servers e') \<subseteq> set (servers e))"
  using t
proof (induction tbl arbitrary: st)
  case Nil
  then show ?case by (auto simp: tbl_ok_def)
next
  case (Cons ke tbl)
  obtain k e where ke: "ke = (k, e)" by fastforce
  note D = tbl_okD [OF Cons.prems [unfolded ke]]
  have here: "entry_ok_for P n (sl_trace st) k e" and k: "k \<notin> fst ` set tbl"
    using D(1) D(2) [of k e] by auto
  obtain e1 st1 where f: "f e st = Some (e1, st1)" "acts_on e st e1 st1" "entry_ok n (sl_trace st1) k e1"
      "set (servers e1) \<subseteq> set (servers e)"
    using step [rule_format, OF here] by (auto simp: entry_step_def)
  have disj: "ptrs e2 \<inter> ptrs e = {}" if "(k2, e2) \<in> set tbl" for k2 e2
    using D(4) [of k2 e2 k e] that k by force
  have same: "known (sl_trace st1) p = known (sl_trace st) p" if "p \<notin> ptrs e" for p
    using f(2) that by (simp add: acts_on_def)
  have "tbl_ok P n (sl_trace st1) tbl"
  proof (rule tbl_okI)
    fix k2 e2 assume k2: "(k2, e2) \<in> set tbl"
    show "entry_ok_for P n (sl_trace st1) k2 e2"
    proof (rule entry_ok_for_known [OF D(2)])
      show "(k2, e2) \<in> set ((k, e) # tbl)" using k2 by simp
      show "known (sl_trace st1) p = known (sl_trace st) p" if "p \<in> ptrs e2" for p
        by (rule same) (use disj [OF k2] that in blast)
    qed
    show "in_use e2" using D(3) [of k2 e2] k2 by simp
  next
    show "ptrs e1 \<inter> ptrs e2 = {}" if "(k1, e1) \<in> set tbl" "(k2, e2) \<in> set tbl" "k1 \<noteq> k2" for k1 e1 k2 e2
      by (rule D(4) [of k1 _ k2]) (use that in simp_all)
  qed (use D(1) in simp)
  from Cons.IH [OF this] obtain tbl' st' where r: "foreach_remove f tbl st1 = Some (tbl', st')" "only_trace st1 st'"
      and r3: "\<forall>p. (\<forall>(k, e) \<in> set tbl. p \<notin> ptrs e) \<longrightarrow> known (sl_trace st') p = known (sl_trace st1) p"
      and r4:
      "fst ` set tbl' \<subseteq> fst ` set tbl" "tbl_ok (\<lambda>_. True) n (sl_trace st') tbl'"
      "\<forall>(k, e') \<in> set tbl'. \<exists>e. (k, e) \<in> set tbl \<and> ptrs e' \<subseteq> ptrs e \<and> set (servers e') \<subseteq> set (servers e)"
    by (elim exE conjE) (rule that; assumption)
  note R = tbl_okD [OF r4(2)]
  let ?t = "if servers e1 = [] \<and> listeners e1 = [] then tbl' else (k, e1) # tbl'"
  have sub: "ptrs e1 \<subseteq> ptrs e" using f(2) by (auto simp: acts_on_def)
  have disj1: "ptrs e2 \<inter> ptrs e1 = {}" if m: "(k2, e2) \<in> set tbl'" for k2 e2
  proof -
    obtain e0 where "(k2, e0) \<in> set tbl" "ptrs e2 \<subseteq> ptrs e0" using bspec [OF r4(3) m] by auto
    with disj [OF this(1)] sub show ?thesis by blast
  qed
  have e1: "entry_ok_for (\<lambda>_. True) n (sl_trace st') k e1"
  proof (rule entry_ok_for_known [OF f(3) [folded entry_ok_for_all]])
    fix p assume "p \<in> ptrs e1"
    then have "p \<in> ptrs e" using sub by blast
    then have "p \<notin> ptrs e2" if "(k2, e2) \<in> set tbl" for k2 e2
      using disj [OF that] by blast
    then show "known (sl_trace st') p = known (sl_trace st1) p" by (intro r3 [rule_format]) blast
  qed
  have ok: "tbl_ok (\<lambda>_. True) n (sl_trace st') ?t"
  proof (rule tbl_okI)
    fix k1 e2 k2 e3
    assume "(k1, e2) \<in> set ?t" "(k2, e3) \<in> set ?t" "k1 \<noteq> k2"
    then consider "(k1, e2) \<in> set tbl'" "(k2, e3) \<in> set tbl'" | "e2 = e1" "(k2, e3) \<in> set tbl'" | "e3 = e1" "(k1, e2) \<in> set tbl'"
      by (auto split: if_splits)
    then show "ptrs e2 \<inter> ptrs e3 = {}"
    proof cases
      case 1
      then show ?thesis using R(4) \<open>k1 \<noteq> k2\<close> by simp
    next
      case 2
      then show ?thesis using disj1 [of k2 e3] by blast
    next
      case 3
      then show ?thesis using disj1 [of k1 e2] by simp
    qed
  qed (use R e1 r4(1) k in \<open>auto split: if_splits\<close>)
  have only: "only_trace st st'"
    using f(2) r(2) only_trace_trans by (auto simp: acts_on_def)
  have others: "known (sl_trace st') p = known (sl_trace st) p"
    if "\<forall>(k, e) \<in> set (ke # tbl). p \<notin> ptrs e" for p
    using that same r3 [rule_format, of p] by (simp add: ke)
  have origin: "\<exists>e. (k2, e) \<in> set (ke # tbl) \<and> ptrs e2 \<subseteq> ptrs e \<and> set (servers e2) \<subseteq> set (servers e)"
    if "(k2, e2) \<in> set ?t" for k2 e2
  proof (cases "(k2, e2) \<in> set tbl'")
    case True
    then show ?thesis using bspec [OF r4(3) True] by (auto simp: ke)
  next
    case False
    then show ?thesis using that sub f(4) by (auto simp: ke split: if_splits)
  qed
  have keys: "fst ` set ?t \<subseteq> fst ` set (ke # tbl)" using r4(1) by (auto simp: ke)
  have run: "foreach_remove f (ke # tbl) st = Some (?t, st')" using f(1) r(1) by (simp add: ke)
  show ?case
    by (rule exI [of _ ?t], rule exI [of _ st'])
      (intro conjI allI impI run only others keys ok; use origin in \<open>simp add: split_beta\<close>)
qed

section \<open>The invariant\<close>

text \<open>Every pointer in use, and every listener ever told anything, is below \<open>n\<close>.\<close>

definition sld_inv_for :: "(listener_data \<Rightarrow> bool) \<Rightarrow> nat \<Rightarrow> sld_state \<Rightarrow> bool" where
  "sld_inv_for P n st \<longleftrightarrow> tbl_ok P n (sl_trace st) (sl_table st) \<and> n \<le> sl_next st \<and>
     (\<forall>p \<ge> n. known (sl_trace st) p = (\<lambda>_. {#})) \<and> length (sl_local_ip st) = 4 \<and> trace_ok (sl_trace st)"

definition sld_inv :: "sld_state \<Rightarrow> bool" where
  "sld_inv st \<longleftrightarrow> sld_inv_for (\<lambda>_. True) (sl_next st) st"

abbreviation inv_at :: "nat \<Rightarrow> sld_state \<Rightarrow> bool" where
  "inv_at n st \<equiv> sld_inv_for (\<lambda>_. True) n st"

lemma listener_below: "entry_shape n k e \<Longrightarrow> p \<in> ptrs e \<Longrightarrow> p < n"
  by (auto simp: entry_shape_def listener_ok_def)

lemma entry_shape_mono: "entry_shape n k e \<Longrightarrow> n \<le> m \<Longrightarrow> entry_shape m k e"
  by (force simp: entry_shape_def listener_ok_def server_ok_in_def)

lemma tbl_ok_mono:
  assumes "tbl_ok P n tr tbl" "n \<le> m"
  shows "tbl_ok P m tr tbl"
proof (rule tbl_okI)
  show "entry_ok_for P m tr k e" if "(k, e) \<in> set tbl" for k e
    using tbl_okD(2) [OF assms(1) that] entry_shape_mono [OF _ assms(2)] by (auto simp: entry_ok_for_def)
qed (use tbl_okD [OF assms(1)] in \<open>simp_all\<close>)

lemma inv_mono: "sld_inv_for P n st \<Longrightarrow> n \<le> m \<Longrightarrow> m \<le> sl_next st \<Longrightarrow> sld_inv_for P m st"
  using tbl_ok_mono by (auto simp: sld_inv_for_def)

lemma inv_fields [simp]:
  "sld_inv_for P n (st\<lparr>sl_watches := w\<rparr>) = sld_inv_for P n st"
  "sld_inv_for P n (st\<lparr>sl_comp_client := c\<rparr>) = sld_inv_for P n st"
  "sld_inv_for P n (st\<lparr>sl_tports := t\<rparr>) = sld_inv_for P n st"
  "sld_inv_for P n (st\<lparr>sl_sync_server := b\<rparr>) = sld_inv_for P n st"
  by (simp_all add: sld_inv_for_def)

lemma inv_next: "sld_inv_for P n st \<Longrightarrow> sl_next st \<le> m \<Longrightarrow> sld_inv_for P n (st\<lparr>sl_next := m\<rparr>)"
  by (auto simp: sld_inv_for_def)

lemma inv_log:
  assumes "sld_inv_for P n st" "\<And>p K. learn p ev K = K" "event_ok ev"
  shows "sld_inv_for P n (sld_log ev st)"
proof -
  have "known (sl_trace (sld_log ev st)) = known (sl_trace st)" using assms(2) by (simp add: fun_eq_iff)
  then show ?thesis using assms(1,3) tbl_ok_known by (auto simp: sld_inv_for_def sld_log_def)
qed

text \<open>Going through the table with a callback that sets its entry right.\<close>

lemma hash_foreach_remove_inv:
  assumes "sld_inv_for P n st"
    and "\<forall>k e st. entry_ok_for P n (sl_trace st) k e \<longrightarrow> entry_step n k e st (f e st)"
  shows "\<exists>st'. hash_foreach_remove f st = Some st' \<and> inv_at n st' \<and>
    sl_next st' = sl_next st \<and> sl_watches st' = sl_watches st \<and> fst ` set (sl_table st') \<subseteq> fst ` set (sl_table st)"
proof -
  have t: "tbl_ok P n (sl_trace st) (sl_table st)" using assms(1) by (simp add: sld_inv_for_def)
  from foreach_remove_ok [where f = f, OF assms(2) t] obtain tbl' st' where
    r: "foreach_remove f (sl_table st) st = Some (tbl', st')" "only_trace st st'"
    and o: "\<forall>p. (\<forall>(k, e) \<in> set (sl_table st). p \<notin> ptrs e) \<longrightarrow> known (sl_trace st') p = known (sl_trace st) p"
    and t': "fst ` set tbl' \<subseteq> fst ` set (sl_table st)" "tbl_ok (\<lambda>_. True) n (sl_trace st') tbl'"
    by (elim exE conjE) (rule that; assumption)
  have "known (sl_trace st') p = (\<lambda>_. {#})" if "n \<le> p" for p
  proof -
    have "p \<notin> ptrs e" if "(k, e) \<in> set (sl_table st)" for k e
      using tbl_okD(2) [OF t that] listener_below \<open>n \<le> p\<close> by (auto simp: entry_ok_for_def dest: listener_below)
    then have "known (sl_trace st') p = known (sl_trace st) p" by (intro o [rule_format]) blast
    then show ?thesis using assms(1) that by (simp add: sld_inv_for_def)
  qed
  then have "inv_at n (st'\<lparr>sl_table := tbl'\<rparr>)"
    using assms(1) t'(2) r(2) by (auto simp: sld_inv_for_def only_trace_def)
  then show ?thesis
    using r t'(1) by (auto simp: hash_foreach_remove_def only_trace_def)
qed

lemma data_remove_servers_by_addr_inv:
  assumes "inv_at n st" "length addr = 4"
  shows "\<exists>st'. data_remove_servers_by_addr env addr st = Some st' \<and> inv_at n st' \<and> sl_next st' = sl_next st"
  unfolding data_remove_servers_by_addr_def
  using hash_foreach_remove_inv [OF assms(1), of "delete_server_by_addr env addr"]
    delete_server_by_addr_ok [OF _ assms(2)] by (auto simp: entry_ok_for_all)

lemma data_remove_by_pid_inv:
  assumes "sld_inv_for (\<lambda>l. ls_pid l \<noteq> pid) n st"
  shows "\<exists>st'. data_remove_by_pid env pid st = Some st' \<and> inv_at n st' \<and> sl_next st' = sl_next st"
  unfolding data_remove_by_pid_def
  using hash_foreach_remove_inv [OF assms, of "remove_by_pid env pid"] remove_by_pid_ok by blast

lemma inv_for_weaken: "inv_at n st \<Longrightarrow> sld_inv_for P n st"
proof -
  assume *: "inv_at n st"
  then have t: "tbl_ok (\<lambda>_. True) n (sl_trace st) (sl_table st)" by (simp add: sld_inv_for_def)
  have "tbl_ok P n (sl_trace st) (sl_table st)"
  proof (rule tbl_okI)
    show "entry_ok_for P n (sl_trace st) k e" if "(k, e) \<in> set (sl_table st)" for k e
      using tbl_okD(2) [OF t that] entry_ok_for_weaken by (simp add: entry_ok_for_all)
  qed (use tbl_okD [OF t] in \<open>simp_all\<close>)
  with * show "sld_inv_for P n st" by (simp add: sld_inv_for_def)
qed

lemma process_watch_remove_inv [simp]: "sld_inv_for P n (process_watch_remove pid st) = sld_inv_for P n st"
  "sl_next (process_watch_remove pid st) = sl_next st" "sl_table (process_watch_remove pid st) = sl_table st"
  by (auto simp: process_watch_remove_def split: option.splits)

lemma process_watch_add_inv:
  assumes "inv_at n st"
  shows "\<exists>st'. process_watch_add env pid st = Some st' \<and> inv_at n st' \<and> sl_next st' = sl_next st"
  using assms data_remove_by_pid_inv [OF inv_for_weaken [OF assms], where pid = pid and env = env]
  by (cases "pidfd_open env (sl_trace st) pid")
    (auto simp: process_watch_add_def create_process_watch_def split: option.splits)

lemma pidfd_read_inv:
  assumes "inv_at n st"
  shows "\<exists>st'. pidfd_read env pid st = Some st' \<and> inv_at n st' \<and> sl_next st' = sl_next st"
  using data_remove_by_pid_inv [OF inv_for_weaken [OF assms], where pid = pid and env = env]
  by (auto simp: pidfd_read_def)

section \<open>Operations on one service\<close>

text \<open>Writing back an entry after a step on it.\<close>

lemma inv_put:
  assumes i: "sld_inv_for P n st"
    and e: "map_of (sl_table st) k = Some e \<or> k \<notin> fst ` set (sl_table st) \<and> listeners e = []"
    and s: "acts_on e st e' st'" "entry_ok_for P n (sl_trace st') k e'"
    and sh: "\<And>p. p \<in> ptrs e \<Longrightarrow> p < n"
  shows "in_use e' \<Longrightarrow> sld_inv_for P n (put_entry k e' st')"
    and "sld_inv_for P n (data_remove_service_data_entry_if_empty e' k (put_entry k e' st'))"
proof -
  have t: "tbl_ok P n (sl_trace st) (sl_table st)" using i by (simp add: sld_inv_for_def)
  have st': "sl_table st' = sl_table st" "sl_next st' = sl_next st" "sl_local_ip st' = sl_local_ip st"
    "trace_ok (sl_trace st')"
    using s(1) i by (auto simp: acts_on_def only_trace_def sld_inv_for_def)
  have fresh: "known (sl_trace st') p = (\<lambda>_. {#})" if "n \<le> p" for p
  proof -
    have "p \<notin> ptrs e" using sh [of p] that by auto
    then show ?thesis using i that s(1) by (simp add: sld_inv_for_def acts_on_def)
  qed
  note del = delete_update_same [of k e' "sl_table st"]
  show 1: "sld_inv_for P n (put_entry k e' st')" if "in_use e'"
    using tbl_put(1) [OF t e s that] fresh i st' by (auto simp: sld_inv_for_def put_entry_def)
  show "sld_inv_for P n (data_remove_service_data_entry_if_empty e' k (put_entry k e' st'))"
    using 1 tbl_put(2) [OF t e s] fresh i st' del
    by (auto simp: sld_inv_for_def put_entry_def data_remove_service_data_entry_if_empty_def)
qed

end
