(* ===== verification/ServiceListenerSteps.thy ===== *)
theory ServiceListenerSteps
  imports ServiceListenerInv
begin

text \<open>Every handler of the service listener daemon keeps its invariant; the reachable states.\<close>

section \<open>Servers\<close>

lemma find_server_result:
  assumes "\<forall>s \<in> set ss. info_ok (si_transport s)" "info_ok (si_transport info)"
  shows "find_server ss info = Some (List.find (\<lambda>s. server_key s = server_key info) ss)"
  using assms(1)
  by (induction ss) (auto simp: info_compare_key [OF _ assms(2)] server_key_def)

lemma table_entry:
  assumes "inv_at n st" "map_of (sl_table st) k = Some e"
  shows "entry_ok n (sl_trace st) k e" "\<And>p. p \<in> ptrs e \<Longrightarrow> p < n"
proof -
  have "entry_ok_for (\<lambda>_. True) n (sl_trace st) k e"
    using assms(1) map_of_SomeD [OF assms(2)] by (auto simp: sld_inv_for_def intro: tbl_okD(2))
  then show "entry_ok n (sl_trace st) k e" by (simp add: entry_ok_for_all)
  then show "\<And>p. p \<in> ptrs e \<Longrightarrow> p < n" by (auto simp: entry_ok_def dest: listener_below)
qed

lemma entry_servers_ok: "entry_ok n tr k e \<Longrightarrow> \<forall>s \<in> set (servers e). info_ok (si_transport s)"
  by (auto simp: entry_ok_def entry_shape_def server_ok_in_def)

text \<open>Removing a server: no server of that transport is left for the service.\<close>

definition no_server :: "service_info \<Rightarrow> sld_state \<Rightarrow> bool" where
  "no_server info st \<longleftrightarrow> (\<forall>e. map_of (sl_table st) (si_service info) = Some e \<longrightarrow> server_key info \<notin> server_key ` set (servers e))"

lemma map_of_put [simp]: "map_of (sl_table (put_entry k e st)) = (map_of (sl_table st))(k \<mapsto> e)"
  by (simp add: put_entry_def update_conv')

lemma next_put [simp]: "sl_next (put_entry k e st) = sl_next st"
  "sl_next (data_remove_service_data_entry_if_empty e k st) = sl_next st"
  by (simp_all add: put_entry_def data_remove_service_data_entry_if_empty_def)

lemma map_of_if_empty:
  "map_of (sl_table (data_remove_service_data_entry_if_empty e k (put_entry k e st))) =
     (map_of (sl_table st))(k := if in_use e then Some e else None)"
  by (auto simp: data_remove_service_data_entry_if_empty_def delete_conv' put_entry_def update_conv' fun_eq_iff)

lemma data_remove_server_inv:
  assumes i: "inv_at n st" and info: "info_ok (si_transport info)"
  shows "\<exists>st'. data_remove_server env info local st = Some st' \<and> inv_at n st' \<and> sl_next st' = sl_next st \<and> no_server info st'"
proof (cases "map_of (sl_table st) (si_service info)")
  case None
  with i show ?thesis by (auto simp: data_remove_server_def get_service_entry_or_create_def no_server_def)
next
  case (Some e)
  note E = table_entry [OF i Some]
  note f = find_server_result [OF entry_servers_ok [OF E(1)] info]
  show ?thesis
  proof (cases "List.find (\<lambda>s. server_key s = server_key info) (servers e)")
    case None
    then have "\<forall>s \<in> set (servers e). server_key s \<noteq> server_key info" by (auto simp: find_None_iff)
    then have "no_server info st" by (auto simp: no_server_def Some)
    with None i f Some show ?thesis
      by (auto simp: data_remove_server_def get_service_entry_or_create_def)
  next
    case s: (Some s)
    then have s_in: "s \<in> set (servers e)" "server_key info = server_key s"
      by (auto simp: find_Some_iff)
    let ?e1 = "e\<lparr>servers := remove_server (si_ptr s) (servers e)\<rparr>"
    obtain e' st1 where nl: "notify_listeners env info False ?e1 st = (e', st1)" by fastforce
    obtain st2 where st2: "remote_sync_server_removed info st1 = Some st2" "acts_on e st e' st2"
        "entry_ok n (sl_trace st2) (si_service info) e'" "servers e' = remove_server (si_ptr s) (servers e)"
      using retire_server [OF E(1) s_in(1) s_in(2) info nl refl] by metis
    let ?w = "if local then process_watch_remove (si_pid info) st2 else st2"
    let ?st' = "data_remove_service_data_entry_if_empty e' (si_service info) (put_entry (si_service info) e' ?w)"
    have comm: "?st' = (if local then process_watch_remove (si_pid info) else id)
        (data_remove_service_data_entry_if_empty e' (si_service info) (put_entry (si_service info) e' st2))"
      by (auto simp: process_watch_remove_def put_entry_def data_remove_service_data_entry_if_empty_def split: option.splits)
    have "inv_at n (data_remove_service_data_entry_if_empty e' (si_service info) (put_entry (si_service info) e' st2))"
      by (rule inv_put(2) [OF i disjI1 [OF Some] st2(2) _ E(2)]) (use st2(3) in \<open>simp add: entry_ok_for_all\<close>)
    then have "inv_at n ?st'" by (simp add: comm)
    moreover have "sl_next st2 = sl_next st" using st2(2) by (auto simp: acts_on_def only_trace_def)
    then have "sl_next ?st' = sl_next st" by simp
    moreover have "server_key info \<notin> server_key ` set (servers e')"
      using key_gone [of n "si_service info" e s] E(1) s_in by (simp add: st2(4) entry_ok_def)
    then have "no_server info ?st'" by (auto simp: no_server_def map_of_if_empty split: if_splits)
    moreover have "data_remove_server env info local st = Some ?st'"
      using Some f s nl st2(1) by (simp add: data_remove_server_def get_service_entry_or_create_def Let_def)
    ultimately show ?thesis by blast
  qed
qed

text \<open>Adding one: it becomes the first server of its service, whatever was there before.\<close>

lemma data_add_server_inv:
  assumes i: "inv_at n st" and info: "info_ok (si_transport info)" "si_ptr info = n" "n < sl_next st"
  shows "\<exists>st'. data_add_server env info local st = Some st' \<and> inv_at (Suc n) st' \<and> sl_next st' = sl_next st"
proof -
  let ?i = "info\<lparr>si_local := local\<rparr>"
  have key: "server_key ?i = server_key info" by (simp add: server_key_def)
  obtain st1 where st1: "data_remove_server env ?i local st = Some st1" "inv_at n st1" "sl_next st1 = sl_next st" "no_server ?i st1"
    using data_remove_server_inv [OF i, of ?i env local] info(1) by auto
  let ?k = "si_service info"
  obtain e st2 where g: "get_service_entry_or_create ?k True st1 = (Some e, st2)"
    by (cases "map_of (sl_table st1) ?k") (auto simp: get_service_entry_or_create_def)
  have e: "entry_ok n (sl_trace st1) ?k e" "\<And>p. p \<in> ptrs e \<Longrightarrow> p < n" "server_key ?i \<notin> server_key ` set (servers e)"
    and t: "map_of (sl_table st1) ?k = Some e \<or> ?k \<notin> fst ` set (sl_table st1) \<and> listeners e = []"
    and st2: "st2 = st1 \<or> st2 = put_entry ?k e st1"
    using g table_entry [OF st1(2)] st1(4)
    by (auto simp: get_service_entry_or_create_def no_server_def put_entry_def entry_ok_def entry_shape_def
        view_def map_of_eq_None_iff split: option.splits)
  let ?e1 = "e\<lparr>servers := ?i # servers e\<rparr>"
  obtain e' st3 where nl: "notify_listeners env ?i True ?e1 st1 = (e', st3)" by fastforce
  have d: "distinct (map ls_ptr (listeners ?e1))" using e(1) by (simp add: entry_ok_def entry_shape_def)
  have "info_ok (si_transport ?i)" using info(1) by simp
  note N = notify_listeners_result [OF d nl this]
  have sub: "set (listeners e') \<subseteq> set (listeners e)" using N(2) by (simp add: acts_on_def)
  have sh: "entry_shape (Suc n) ?k e"
    by (rule entry_shape_mono [of n]) (use e(1) in \<open>simp_all add: entry_ok_def\<close>)
  have "entry_shape (Suc n) ?k ?e1"
    using e(1,3) info key sh by (fastforce simp: entry_ok_def entry_shape_def server_ok_in_def)
  then have shape: "entry_shape (Suc n) ?k e'"
    using entry_shape_acts [OF _ N(2) N(1)] by simp
  have "view (sl_trace st1) ?e1 (server_keys (servers e))" using e(1) by (simp add: entry_ok_def view_def)
  from N(3) [OF this] have view: "view (sl_trace st3) e' (server_keys (servers e'))"
    using N(1) by (simp add: announce_def)
  have acts: "acts_on e st1 e' st3" using N(2) by simp
  have "entry_ok_for (\<lambda>_. True) (Suc n) (sl_trace st3) ?k e'"
    using shape view by (simp add: entry_ok_for_all entry_ok_def)
  moreover have "inv_at (Suc n) st1"
    by (rule inv_mono [OF st1(2)]) (use info(3) st1(3) in simp_all)
  ultimately have "inv_at (Suc n) (put_entry ?k e' st3)"
    using inv_put(1) [OF _ t acts, of "\<lambda>_. True" "Suc n"] e(2) N(1) less_SucI by auto
  moreover have "\<exists>st3'. notify_listeners env ?i True ?e1 st2 = (e', st3') \<and> put_entry ?k e' st3' = put_entry ?k e' st3"
  proof (cases "st2 = st1")
    case True
    then show ?thesis using nl by simp
  next
    case False
    then have "listeners e = []" "st2 = put_entry ?k e st1"
      using st2 g by (auto simp: get_service_entry_or_create_def split: option.splits)
    then show ?thesis
      using nl by (auto simp: notify_listeners_def put_entry_def)
  qed
  then obtain st3' where st3': "notify_listeners env ?i True ?e1 st2 = (e', st3')" "put_entry ?k e' st3' = put_entry ?k e' st3"
    by blast
  ultimately have p: "inv_at (Suc n) (put_entry ?k e' st3')" by simp
  obtain st4 where st4: "remote_sync_server_added ?i (put_entry ?k e' st3') = Some st4"
      "\<And>e. acts_on e (put_entry ?k e' st3') e st4" "known (sl_trace st4) = known (sl_trace (put_entry ?k e' st3'))"
    using sync_acts [of ?i "put_entry ?k e' st3'"] info(1) by auto
  have o4: "only_trace (put_entry ?k e' st3') st4" using st4(2) by (auto simp: acts_on_def)
  have i4: "inv_at (Suc n) st4"
    using p o4 tbl_ok_known [OF _ st4(3)] st4(3) by (auto simp: sld_inv_for_def only_trace_def)
  have n4: "sl_next st4 = sl_next st"
    using o4 st3'(2) acts st1(3) by (auto simp: only_trace_def acts_on_def put_entry_def)
  show ?thesis
    using process_watch_add_inv [OF i4, of env "si_pid info"] i4 n4 st1(1) g st3'(1) st4(1)
    by (simp add: data_add_server_def Let_def)
qed

section \<open>Listeners\<close>

lemma inv_for_imp:
  assumes "sld_inv_for P n st" "\<And>l. Q l \<Longrightarrow> P l"
  shows "sld_inv_for Q n st"
proof -
  have t: "tbl_ok P n (sl_trace st) (sl_table st)" using assms(1) by (simp add: sld_inv_for_def)
  have "tbl_ok Q n (sl_trace st) (sl_table st)"
  proof (rule tbl_okI)
    show "entry_ok_for Q n (sl_trace st) k e" if "(k, e) \<in> set (sl_table st)" for k e
      using tbl_okD(2) [OF t that] assms(2) by (auto simp: entry_ok_for_def)
  qed (use tbl_okD [OF t] in \<open>simp_all\<close>)
  with assms(1) show ?thesis by (simp add: sld_inv_for_def)
qed

text \<open>Once the listener left out has caught up, everyone has.\<close>

lemma inv_catch_up:
  assumes "sld_inv_for (\<lambda>x. x \<noteq> l) n st"
    and "\<And>k e. (k, e) \<in> set (sl_table st) \<Longrightarrow> l \<in> set (listeners e) \<Longrightarrow>
      known (sl_trace st) (ls_ptr l) (ls_id l) = server_keys (servers e)"
  shows "inv_at n st"
proof -
  have t: "tbl_ok (\<lambda>x. x \<noteq> l) n (sl_trace st) (sl_table st)" using assms(1) by (simp add: sld_inv_for_def)
  have "tbl_ok (\<lambda>_. True) n (sl_trace st) (sl_table st)"
  proof (rule tbl_okI)
    show "entry_ok_for (\<lambda>_. True) n (sl_trace st) k e" if "(k, e) \<in> set (sl_table st)" for k e
      using tbl_okD(2) [OF t that] assms(2) [OF that] by (auto simp: entry_ok_for_def)
  qed (use tbl_okD [OF t] in \<open>simp_all\<close>)
  with assms(1) show ?thesis by (simp add: sld_inv_for_def)
qed

text \<open>A new listener, which does not know the servers yet.\<close>

lemma add_listener_inv:
  assumes i: "sld_inv st"
    and e: "map_of (sl_table st) k = Some e \<or> k \<notin> fst ` set (sl_table st) \<and> e = empty_entry"
    and l: "ls_ptr l = sl_next st" "info_ok ti" "ls_client l = Some (transport_of_info ti)"
  shows "sld_inv_for (\<lambda>x. x \<noteq> l) (Suc (sl_next st))
    (put_entry k (e\<lparr>listeners := l # listeners e\<rparr>) (st\<lparr>sl_next := Suc (sl_next st)\<rparr>))"
proof -
  let ?n = "sl_next st" and ?tbl = "sl_table st" and ?e = "e\<lparr>listeners := l # listeners e\<rparr>"
  have at: "inv_at ?n st" using i by (simp add: sld_inv_def)
  then have t: "tbl_ok (\<lambda>_. True) ?n (sl_trace st) ?tbl" by (simp add: sld_inv_for_def)
  note D = tbl_okD [OF t]
  have e_ok: "entry_ok ?n (sl_trace st) k e" and below: "\<And>p. p \<in> ptrs e \<Longrightarrow> p < ?n"
    using e table_entry [OF at, of k e] by (auto simp: entry_ok_def entry_shape_def view_def)
  have shape: "entry_shape (Suc ?n) k e"
    by (rule entry_shape_mono [of ?n]) (use e_ok in \<open>simp_all add: entry_ok_def\<close>)
  have new: "entry_ok_for (\<lambda>x. x \<noteq> l) (Suc ?n) (sl_trace st) k ?e"
    using shape e_ok l below [of ?n] by (auto simp: entry_ok_for_def entry_ok_def entry_shape_def view_def listener_ok_def)
  have old: "entry_ok_for (\<lambda>x. x \<noteq> l) (Suc ?n) (sl_trace st) k2 e2" "\<And>p. p \<in> ptrs e2 \<Longrightarrow> p < ?n"
    if "(k2, e2) \<in> set ?tbl" for k2 e2
    using D(2) [OF that] by (auto simp: entry_ok_for_def dest: entry_shape_mono [of ?n _ _ "Suc ?n"] listener_below)
  have disj: "ptrs e2 \<inter> ptrs ?e = {}" if "(k2, e2) \<in> set ?tbl" "k2 \<noteq> k" for k2 e2
  proof -
    have "ptrs e2 \<inter> ptrs e = {}" using e D(4) [OF that(1) _ that(2)] map_of_SomeD [of ?tbl k e] by auto
    moreover have "?n \<notin> ptrs e2" using old(2) [OF that(1), of ?n] by blast
    ultimately show ?thesis using l(1) by auto
  qed
  have "tbl_ok (\<lambda>x. x \<noteq> l) (Suc ?n) (sl_trace st) (AList.update k ?e ?tbl)"
  proof (rule tbl_okI)
    fix k1 e1 k2 e2
    assume *: "(k1, e1) \<in> set (AList.update k ?e ?tbl)" "(k2, e2) \<in> set (AList.update k ?e ?tbl)" "k1 \<noteq> k2"
    then consider "e1 = ?e" "(k2, e2) \<in> set ?tbl" "k2 \<noteq> k" | "e2 = ?e" "(k1, e1) \<in> set ?tbl" "k1 \<noteq> k"
      | "(k1, e1) \<in> set ?tbl" "(k2, e2) \<in> set ?tbl"
      by (auto simp: set_alist_update [OF D(1)])
    then show "ptrs e1 \<inter> ptrs e2 = {}"
    proof cases
      case 1
      then show ?thesis using disj [of k2 e2] by blast
    next
      case 2
      then show ?thesis using disj [of k1 e1] by blast
    next
      case 3
      then show ?thesis using D(4) *(3) by simp
    qed
  next
    show "in_use e2" if "(k2, e2) \<in> set (AList.update k ?e ?tbl)" for k2 e2
      using that D(3) [of k2 e2] by (auto simp: set_alist_update [OF D(1)])
    show "entry_ok_for (\<lambda>x. x \<noteq> l) (Suc ?n) (sl_trace st) k2 e2" if "(k2, e2) \<in> set (AList.update k ?e ?tbl)" for k2 e2
      using that new old(1) by (auto simp: set_alist_update [OF D(1)])
  qed (simp add: D(1) distinct_update)
  then show ?thesis using at by (simp add: sld_inv_for_def put_entry_def)
qed

lemma tell_servers_result:
  assumes "tell_servers env l ss st = (b, st')" and ok: "\<forall>s \<in> set ss. info_ok (si_transport s)"
  shows "only_trace st st' \<and> (\<forall>p. p \<noteq> ls_ptr l \<longrightarrow> known (sl_trace st') p = known (sl_trace st) p) \<and>
    (b \<longrightarrow> known (sl_trace st') (ls_ptr l) (ls_id l) = known (sl_trace st) (ls_ptr l) (ls_id l) + server_keys ss)"
  using assms(1) ok
proof (induction ss arbitrary: st)
  case (Cons s ss)
  obtain ret st1 where s: "send_event env True l s st = (ret, st1)" by fastforce
  have st1: "only_trace st st1"
    "ret = CMSG_RET_OK \<Longrightarrow> known (sl_trace st1) (ls_ptr l) (ls_id l) = add_mset (server_key s) (known (sl_trace st) (ls_ptr l) (ls_id l))"
    "\<And>p. p \<noteq> ls_ptr l \<Longrightarrow> known (sl_trace st1) p = known (sl_trace st) p"
    using s Cons.prems(2) by (auto simp: send_event_def Let_def announce_def cmsg_codes split: option.splits)
  show ?case
  proof (cases "ret = CMSG_RET_OK")
    case True
    then show ?thesis
      using Cons.IH [of st1] Cons.prems s st1 only_trace_trans [OF st1(1)] by auto
  next
    case False
    then show ?thesis using Cons.prems s st1 by auto
  qed
qed auto

text \<open>Telling the new listener, in a table that holds it: it catches up, or it goes again.\<close>

lemma tell_new_listener:
  assumes i: "sld_inv_for (\<lambda>x. x \<noteq> l) n st" and e: "map_of (sl_table st) k = Some e"
    and l: "listeners e = l # ls" "known (sl_trace st) (ls_ptr l) = (\<lambda>_. {#})"
    and t: "tell_servers env l (servers e) st = (b, st')"
  shows "b \<Longrightarrow> inv_at n st'"
    and "\<not> b \<Longrightarrow> servers e \<noteq> [] \<Longrightarrow>
      inv_at n (put_entry k (e\<lparr>listeners := remove_listener (ls_ptr l) (listeners e)\<rparr>) st')"
    and "only_trace st st'"
proof -
  have sv: "\<forall>s \<in> set (servers e). info_ok (si_transport s)"
    using i tbl_okD(2) [OF _ map_of_SomeD [OF e]]
    by (fastforce simp: sld_inv_for_def entry_ok_for_def entry_shape_def server_ok_in_def)
  note T = tell_servers_result [OF t sv]
  show o: "only_trace st st'" using T by blast
  have tb: "tbl_ok (\<lambda>x. x \<noteq> l) n (sl_trace st) (sl_table st)" using i by (simp add: sld_inv_for_def)
  note D = tbl_okD [OF tb]
  have in_e: "(k, e) \<in> set (sl_table st)" using map_of_SomeD [OF e] .
  have here: "entry_ok_for (\<lambda>x. x \<noteq> l) n (sl_trace st) k e" using D(2) [OF in_e] .
  have only_e: "k2 = k" if "(k2, e2) \<in> set (sl_table st)" "l \<in> set (listeners e2)" for k2 e2
    using D(4) [OF that(1) in_e] that(2) l(1) by (cases "k2 = k") auto
  have same: "e2 = e" if "(k, e2) \<in> set (sl_table st)" for e2
    using that in_e D(1) by (meson eq_key_imp_eq_value)
  have ptr: "ls_ptr x \<noteq> ls_ptr l" if "x \<in> set ls" for x
  proof -
    have "ls_ptr l \<notin> ls_ptr ` set ls" using here l(1) by (simp add: entry_ok_for_def entry_shape_def)
    with that show ?thesis by (metis image_eqI)
  qed
  have acts: "acts_on e st e st'" using T l(1) by (auto simp: acts_on_def)
  have told: "entry_ok_for (\<lambda>x. x \<noteq> l) n (sl_trace st') k e"
    using here T l(1) ptr by (auto simp: entry_ok_for_def)
  have below: "\<And>p. p \<in> ptrs e \<Longrightarrow> p < n"
    using here by (auto simp: entry_ok_for_def intro: listener_below)
  have used: "in_use e" using l(1) by simp
  have tab: "sl_table st' = sl_table st" using o by (simp add: only_trace_fields)
  have "put_entry k e st' = st'" using e tab by (simp add: put_entry_def update_triv)
  then have "sld_inv_for (\<lambda>x. x \<noteq> l) n st'"
    using inv_put(1) [OF i disjI1 [OF e] acts told below used] by simp
  then show "inv_at n st'" if b
  proof (rule inv_catch_up)
    show "known (sl_trace st') (ls_ptr l) (ls_id l) = server_keys (servers e2)"
      if "(k2, e2) \<in> set (sl_table st')" "l \<in> set (listeners e2)" for k2 e2
      using only_e [of k2 e2] same [of e2] that T \<open>b\<close> l(2) tab by auto
  qed
  let ?e = "e\<lparr>listeners := remove_listener (ls_ptr l) (listeners e)\<rparr>"
  have rm: "?e = e\<lparr>listeners := ls\<rparr>" using l(1) by simp
  have "acts_on e st ?e st'" "entry_ok_for (\<lambda>x. x \<noteq> l) n (sl_trace st') k ?e"
    using acts told l(1) by (auto simp: rm acts_on_def entry_ok_for_def entry_shape_def)
  from inv_put(1) [OF i disjI1 [OF e] this below]
  have "sld_inv_for (\<lambda>x. x \<noteq> l) n (put_entry k ?e st')" if "servers e \<noteq> []" using that by simp
  then show "inv_at n (put_entry k ?e st')" if "servers e \<noteq> []" "\<not> b"
  proof (rule inv_catch_up [OF _ _])
    show "servers e \<noteq> []" by fact
    show "known (sl_trace (put_entry k ?e st')) (ls_ptr l) (ls_id l) = server_keys (servers e2)"
      if "(k2, e2) \<in> set (sl_table (put_entry k ?e st'))" "l \<in> set (listeners e2)" for k2 e2
    proof -
      have "(k2, e2) \<in> set (sl_table st) \<and> k2 \<noteq> k \<or> e2 = ?e"
        using that(1) by (auto simp: put_entry_def tab set_alist_update [OF D(1)])
      then have False using that(2) only_e [of k2 e2] ptr [of l] by (auto simp: rm)
      then show ?thesis ..
    qed
  qed
qed

text \<open>After a process is gone no listener of it is left.\<close>

lemma notify_listeners_sub:
  "notify_listeners env info added e st = (e', st') \<Longrightarrow> set (listeners e') \<subseteq> set (listeners e)"
proof -
  have rm: "set (remove_listener p ls) \<subseteq> set ls" for p ls by (induction ls) auto
  have "set (fst (drop_listeners rs (ls, st))) \<subseteq> set ls" for rs ls st
  proof (induction rs arbitrary: ls st)
    case (Cons r rs)
    then show ?case using rm [of "ls_ptr r" ls] by fastforce
  qed simp
  then show "notify_listeners env info added e st = (e', st') \<Longrightarrow> set (listeners e') \<subseteq> set (listeners e)"
    by (auto simp: notify_listeners_def split: prod.splits) (metis fst_conv subsetD)
qed

lemma remove_servers_by_pid_sub:
  "remove_servers_by_pid env pid ss (e, st) = Some (e', st') \<Longrightarrow> set (listeners e') \<subseteq> set (listeners e)"
proof (induction ss arbitrary: e st)
  case (Cons s ss)
  show ?case
  proof (cases "si_local s \<and> si_pid s = pid")
    case True
    obtain e1 st1 where n: "notify_listeners env s False e st = (e1, st1)" by fastforce
    from Cons.prems True n obtain st2 where
      "remove_servers_by_pid env pid ss (e1\<lparr>servers := remove_server (si_ptr s) (servers e1)\<rparr>, st2) = Some (e', st')"
      by (auto simp: bind_eq_Some_conv)
    from Cons.IH [OF this] notify_listeners_sub [OF n] show ?thesis by auto
  next
    case False
    with Cons show ?thesis by auto
  qed
qed simp

lemma foreach_remove_all:
  assumes "foreach_remove f tbl st = Some (tbl', st')" "\<And>e st e' st'. f e st = Some (e', st') \<Longrightarrow> Q e'"
  shows "\<forall>(k, e) \<in> set tbl'. Q e"
  using assms(1)
  by (induction tbl arbitrary: st tbl') (auto simp: bind_eq_Some_conv assms(2) split: if_splits, blast+)

lemma foreach_remove_emptied:
  assumes "foreach_remove f tbl st = Some (tbl', st')" "distinct (map fst tbl)" "(k, e) \<in> set tbl"
    and "\<And>st e' st'. f e st = Some (e', st') \<Longrightarrow> \<not> in_use e'"
  shows "k \<notin> fst ` set tbl'"
proof -
  have sub: "fst ` set t' \<subseteq> fst ` set t" if "foreach_remove f t s = Some (t', s')" for t s t' s'
    using that
  proof (induction t arbitrary: s t')
    case (Cons ke t)
    obtain k1 e1 where ke: "ke = (k1, e1)" by fastforce
    obtain e2 s2 t2 where "foreach_remove f t s2 = Some (t2, s')"
      "t' = (if servers e2 = [] \<and> listeners e2 = [] then t2 else (k1, e2) # t2)"
      using Cons.prems by (auto simp: ke bind_eq_Some_conv)
    with Cons.IH show ?case by (auto simp: ke)
  qed simp
  show ?thesis
    using assms(1,2,3)
  proof (induction tbl arbitrary: st tbl')
    case (Cons ke tbl)
    obtain k1 e1 where ke: "ke = (k1, e1)" by fastforce
    obtain e2 st2 tbl2 where f: "f e1 st = Some (e2, st2)" "foreach_remove f tbl st2 = Some (tbl2, st')"
      "tbl' = (if servers e2 = [] \<and> listeners e2 = [] then tbl2 else (k1, e2) # tbl2)"
      using Cons.prems(1) by (auto simp: ke bind_eq_Some_conv)
    show ?case
    proof (cases "k1 = k")
      case True
      then have "e1 = e" "k \<notin> fst ` set tbl" using Cons.prems(2,3) by (auto simp: ke rev_image_eqI)
      then show ?thesis using f assms(4) sub [OF f(2)] by auto
    next
      case False
      then have "k \<notin> fst ` set tbl2" using Cons f(2) by (auto simp: ke)
      with False f(3) show ?thesis by auto
    qed
  qed simp
qed

lemma data_remove_by_pid_gone:
  assumes "data_remove_by_pid env pid st = Some st'"
  shows "\<forall>(k, e) \<in> set (sl_table st'). \<forall>l \<in> set (listeners e). ls_pid l \<noteq> pid"
proof -
  obtain tbl st1 where r: "foreach_remove (remove_by_pid env pid) (sl_table st) st = Some (tbl, st1)" "st' = st1\<lparr>sl_table := tbl\<rparr>"
    using assms by (auto simp: data_remove_by_pid_def hash_foreach_remove_def)
  have "\<forall>(k, e) \<in> set tbl. \<forall>l \<in> set (listeners e). ls_pid l \<noteq> pid"
    by (rule foreach_remove_all [OF r(1)]) (use remove_servers_by_pid_sub in \<open>fastforce simp: remove_by_pid_def Let_def\<close>)
  then show ?thesis by (simp add: r(2))
qed

text \<open>The process that listens is there, as far as the daemon can tell.\<close>

definition alive :: "sld_env \<Rightarrow> u32 \<Rightarrow> sld_state \<Rightarrow> bool" where
  "alive env pid st \<longleftrightarrow> map_of (sl_watches st) pid \<noteq> None \<or> pidfd_open env (sl_trace st) pid \<noteq> Pidfd_ESRCH"

lemma process_watch_add_alive:
  assumes "alive env pid st"
  obtains w where "process_watch_add env pid st = Some (st\<lparr>sl_watches := w\<rparr>)"
proof (cases "map_of (sl_watches st) pid")
  case None
  then have "pidfd_open env (sl_trace st) pid \<noteq> Pidfd_ESRCH" using assms by (simp add: alive_def)
  then show ?thesis
    using None that [of "AList.update pid 1 (sl_watches st)"] that [of "sl_watches st"]
    by (cases "pidfd_open env (sl_trace st) pid") (simp_all add: process_watch_add_def create_process_watch_def)
next
  case (Some ref)
  then show ?thesis using that by (simp add: process_watch_add_def)
qed

lemma data_add_listener_cases:
  assumes i: "sld_inv st" and info: "info_ok (li_transport info)"
  shows "alive env (li_pid info) st \<Longrightarrow> data_add_listener env info st \<noteq> None"
    and "data_add_listener env info st = Some st' \<Longrightarrow> sld_inv st'"
proof -
  let ?k = "li_service info" and ?n = "sl_next st"
  obtain e st1 where g: "get_service_entry_or_create ?k True st = (Some e, st1)"
    by (cases "map_of (sl_table st) ?k") (auto simp: get_service_entry_or_create_def)
  define l where "l = \<lparr>ls_ptr = sl_next st, ls_client = Some (transport_of_info (li_transport info)),
      ls_id = li_id info, ls_pid = li_pid info\<rparr>"
  define e1 where "e1 = e\<lparr>listeners := l # listeners e\<rparr>"
  define st2 where "st2 = put_entry ?k e1 (st\<lparr>sl_next := Suc (sl_next st)\<rparr>)"
  have t: "map_of (sl_table st) ?k = Some e \<or> ?k \<notin> fst ` set (sl_table st) \<and> e = empty_entry"
    using g by (auto simp: get_service_entry_or_create_def map_of_eq_None_iff split: option.splits)
  have put: "put_entry ?k e1 (st1\<lparr>sl_next := Suc (sl_next st1)\<rparr>) = st2" "sl_next st1 = sl_next st"
    using g by (auto simp: st2_def put_entry_def get_service_entry_or_create_def split: option.splits)
  have i2: "sld_inv_for (\<lambda>x. x \<noteq> l) (Suc ?n) st2"
    unfolding st2_def e1_def by (rule add_listener_inv [OF i t _ info]) (simp_all add: l_def)
  have m2: "map_of (sl_table st2) ?k = Some e1" by (simp add: st2_def)
  have k2: "known (sl_trace st2) (ls_ptr l) = (\<lambda>_. {#})" "sl_next st2 = Suc ?n"
    using i by (simp_all add: sld_inv_def sld_inv_for_def l_def st2_def put_entry_def)
  have run: "data_add_listener env info st =
    Option.bind (process_watch_add env (ls_pid l) st2) (\<lambda>st.
      Option.bind (map_of (sl_table st) ?k) (\<lambda>entry.
        if servers entry = [] then Some st
        else if l \<notin> set (listeners entry) then None
        else case tell_servers env l (servers entry) st of
               (True, st) \<Rightarrow> Some st
             | (False, st) \<Rightarrow> Some (process_watch_remove (ls_pid l) (sld_log (Sld_destroy_client (ls_ptr l))
                 (put_entry ?k (entry\<lparr>listeners := remove_listener (ls_ptr l) (listeners entry)\<rparr>) st)))))"
    using g put info_to_transport_ok [OF info]
    by (simp add: data_add_listener_def l_def e1_def Let_def cong: if_cong prod.case_cong bool.case_cong)
  have al2: "alive env (li_pid info) st2 = alive env (li_pid info) st"
    by (simp add: alive_def st2_def put_entry_def)
  have live: "\<exists>st'. data_add_listener env info st = Some st' \<and> sld_inv st'" if al: "alive env (li_pid info) st"
  proof -
    obtain w where w: "process_watch_add env (ls_pid l) st2 = Some (st2\<lparr>sl_watches := w\<rparr>)"
      using process_watch_add_alive [of env "ls_pid l" st2] al al2 by (auto simp: l_def)
    define st3 where "st3 = st2\<lparr>sl_watches := w\<rparr>"
    have i3: "sld_inv_for (\<lambda>x. x \<noteq> l) (Suc ?n) st3" "map_of (sl_table st3) ?k = Some e1"
      "known (sl_trace st3) (ls_ptr l) = (\<lambda>_. {#})" "sl_next st3 = Suc ?n"
      using i2 m2 k2 by (simp_all add: st3_def)
    obtain b st4 where tell: "tell_servers env l (servers e1) st3 = (b, st4)" by fastforce
    have e1: "listeners e1 = l # listeners e" by (simp add: e1_def)
    note T = tell_new_listener [OF i3(1,2) e1 i3(3) tell]
    have n4: "sl_next st4 = Suc ?n" using T(3) i3(4) by (simp add: only_trace_fields)
    show ?thesis
    proof (cases "servers e1 = []")
      case True
      then have "inv_at (Suc ?n) st3" using T(1) tell by auto
      then show ?thesis using run w i3 True by (simp add: sld_inv_def st3_def [symmetric])
    next
      case False
      let ?st5 = "put_entry ?k (e1\<lparr>listeners := remove_listener (ls_ptr l) (listeners e1)\<rparr>) st4"
      have "inv_at (Suc ?n) (sld_log (Sld_destroy_client (ls_ptr l)) ?st5)" if "\<not> b"
        by (rule inv_log [OF T(2) [OF that False]]) simp_all
      then show ?thesis
        using run w i3(2) False e1 tell T(1) n4
        by (cases b) (simp_all add: sld_inv_def st3_def [symmetric] sld_log_def)
    qed
  qed
  then show "alive env (li_pid info) st \<Longrightarrow> data_add_listener env info st \<noteq> None" by auto
  show "sld_inv st'" if "data_add_listener env info st = Some st'"
  proof (cases "alive env (li_pid info) st")
    case True
    then show ?thesis using live that by auto
  next
    case False
    then have "process_watch_add env (ls_pid l) st2 = data_remove_by_pid env (li_pid info) st2"
      by (auto simp: alive_def process_watch_add_def create_process_watch_def l_def st2_def put_entry_def)
    moreover have "sld_inv_for (\<lambda>x. ls_pid x \<noteq> li_pid info) (Suc ?n) st2"
      by (rule inv_for_imp [OF i2]) (auto simp: l_def)
    then obtain st3 where st3: "data_remove_by_pid env (li_pid info) st2 = Some st3" "inv_at (Suc ?n) st3" "sl_next st3 = Suc ?n"
      using data_remove_by_pid_inv [where env = env] k2(2) by metis
    have "l \<notin> set (listeners e2)" if "map_of (sl_table st3) ?k = Some e2" for e2
    proof -
      have "ls_pid l = li_pid info" by (simp add: l_def)
      then show ?thesis
        using bspec [OF data_remove_by_pid_gone [OF st3(1)] map_of_SomeD [OF that]] by auto
    qed
    then have "st' = st3"
      using that run calculation st3(1) by (auto simp: bind_eq_Some_conv split: if_splits)
    with st3 show ?thesis by (simp add: sld_inv_def)
  qed
qed

lemma find_listener_result:
  assumes "\<forall>l \<in> set ls. listener_ok n l" "info_ok info"
  shows "\<exists>r. find_listener info ls = Some r \<and> (\<forall>l. r = Some l \<longrightarrow> l \<in> set ls)"
  using assms(1)
proof (induction ls)
  case (Cons l ls)
  then obtain ti where "info_ok ti" "ls_client l = Some (transport_of_info ti)"
    by (auto simp: listener_ok_def)
  with Cons assms(2) show ?case
    by (auto simp: info_create_of_info info_compare_key)
qed simp

lemma data_remove_listener_inv:
  assumes i: "sld_inv st" and info: "info_ok (li_transport info)"
  shows "\<exists>st'. data_remove_listener info st = Some st' \<and> sld_inv st'"
proof (cases "map_of (sl_table st) (li_service info)")
  case None
  with i show ?thesis by (auto simp: data_remove_listener_def get_service_entry_or_create_def)
next
  case (Some e)
  have at: "inv_at (sl_next st) st" using i by (simp add: sld_inv_def)
  note E = table_entry [OF at Some]
  have ls: "\<forall>l \<in> set (listeners e). listener_ok (sl_next st) l" "distinct (map ls_ptr (listeners e))"
    using E(1) by (simp_all add: entry_ok_def entry_shape_def)
  obtain r where r: "find_listener (li_transport info) (listeners e) = Some r" "\<forall>l. r = Some l \<longrightarrow> l \<in> set (listeners e)"
    using find_listener_result [OF ls(1) info] by blast
  show ?thesis
  proof (cases r)
    case None
    with Some r i show ?thesis by (simp add: data_remove_listener_def get_service_entry_or_create_def)
  next
    case l: (Some l)
    let ?e = "e\<lparr>listeners := remove_listener (ls_ptr l) (listeners e)\<rparr>"
    let ?st = "sld_log (Sld_destroy_client (ls_ptr l)) st"
    let ?k = "li_service info"
    have acts: "acts_on e st ?e ?st"
      using ls(2) by (auto simp: acts_on_def remove_listener_filter distinct_map_filter)
    have "entry_ok_for (\<lambda>_. True) (sl_next st) (sl_trace ?st) ?k ?e"
      using E(1) ls(2) by (auto simp: entry_ok_for_def entry_ok_def entry_shape_def view_def remove_listener_filter distinct_map_filter)
    from inv_put(2) [OF at disjI1 [OF Some] acts this E(2)]
    have "inv_at (sl_next st) (data_remove_service_data_entry_if_empty ?e ?k (put_entry ?k ?e ?st))" .
    moreover have "data_remove_service_data_entry_if_empty ?e ?k (put_entry ?k ?e (process_watch_remove (ls_pid l) ?st)) =
        process_watch_remove (ls_pid l) (data_remove_service_data_entry_if_empty ?e ?k (put_entry ?k ?e ?st))"
      by (auto simp: process_watch_remove_def put_entry_def data_remove_service_data_entry_if_empty_def sld_log_def split: option.splits)
    ultimately show ?thesis
      using Some r(1) l by (simp add: data_remove_listener_def get_service_entry_or_create_def Let_def sld_inv_def sld_log_def)
  qed
qed

section \<open>Hosts\<close>

lemma get_servers_total:
  assumes "length addr = 4"
  shows "(\<forall>(k, e) \<in> set tbl. \<forall>s \<in> set (servers e). info_ok (si_transport s)) \<Longrightarrow>
    \<exists>r. get_servers_by_addr addr tbl found = Some r"
proof (induction tbl arbitrary: found)
  case (Cons ke tbl)
  obtain P where "servers_by_addr addr (servers (snd ke)) = Some (filter P (servers (snd ke)))"
    using servers_by_addr_total [of "servers (snd ke)" addr] Cons.prems assms by (cases ke) auto
  with Cons show ?case by (cases ke) auto
qed simp

lemma data_get_servers_total:
  assumes "inv_at n st"
  shows "\<exists>r. data_get_servers_by_addr (sl_local_ip st) st = Some r"
proof -
  have t: "tbl_ok (\<lambda>_. True) n (sl_trace st) (sl_table st)" "length (sl_local_ip st) = 4"
    using assms by (simp_all add: sld_inv_for_def)
  have "\<forall>s \<in> set (servers e). info_ok (si_transport s)" if "(k, e) \<in> set (sl_table st)" for k e
    using tbl_okD(2) [OF t(1) that] by (auto simp: entry_ok_for_def entry_shape_def server_ok_in_def)
  then show ?thesis
    using get_servers_total [OF t(2), of "sl_table st" "[]"] by (auto simp: data_get_servers_by_addr_def)
qed

lemma remote_sync_add_host_inv:
  assumes "sld_inv st"
  shows "\<exists>st'. remote_sync_add_host env addr st = Some st' \<and> sld_inv st'"
proof -
  have at: "inv_at (sl_next st) st" using assms by (simp add: sld_inv_def)
  let ?st = "\<lambda>c t. st\<lparr>sl_comp_client := c, sl_tports := t, sl_next := Suc (sl_next st)\<rparr>"
  have i: "inv_at (Suc (sl_next st)) (?st c t)" for c t
    by (rule inv_mono [of _ "sl_next st"]) (use at in \<open>auto simp: sld_inv_for_def\<close>)
  have "sld_inv (sld_log (Sld_bulk_sync p r) (?st c t))" for p r c t
    using inv_log [OF i, of "Sld_bulk_sync p r"] by (simp add: sld_inv_def sld_log_def)
  then show ?thesis
    using data_get_servers_total [OF at] at
    by (auto simp: remote_sync_add_host_def Let_def data_get_servers_by_addr_def sld_inv_def split: option.split)
qed

lemma remote_sync_delete_host_inv:
  assumes "sld_inv st"
  shows "sld_inv (remote_sync_delete_host addr st)"
proof -
  have at: "inv_at (sl_next st) st" using assms by (simp add: sld_inv_def)
  have "inv_at (sl_next st) (sld_log (Sld_destroy_client c) st)" for c
    by (rule inv_log [OF at]) simp_all
  then show ?thesis
    using at by (auto simp: remote_sync_delete_host_def sld_inv_def Let_def sld_log_def split: option.splits)
qed

section \<open>Reachable states\<close>

text \<open>The messages the daemon gets: descriptions made by \<open>cmsg_transport_info_create\<close>.\<close>

definition message_ok :: "service_info \<Rightarrow> bool" where
  "message_ok info \<longleftrightarrow> si_transport info = Info_not_set \<or> info_ok (si_transport info)"

inductive sld_step :: "sld_env \<Rightarrow> sld_state \<Rightarrow> sld_state \<Rightarrow> bool" for env where
  Address_set: "length addr = 4 \<Longrightarrow> sld_step env st (cmsg_sld_configuration_impl_address_set addr st)"
| Add_host: "cmsg_sld_configuration_impl_add_host env addr st = Some st' \<Longrightarrow> sld_step env st st'"
| Delete_host: "length addr = 4 \<Longrightarrow> cmsg_sld_configuration_impl_delete_host env addr st = Some st' \<Longrightarrow> sld_step env st st'"
| Listen: "info_ok (li_transport li) \<Longrightarrow> cmsg_sld_configuration_impl_listen env li st = Some st' \<Longrightarrow> sld_step env st st'"
| Unlisten: "info_ok (li_transport li) \<Longrightarrow> cmsg_sld_configuration_impl_unlisten li st = Some st' \<Longrightarrow> sld_step env st st'"
| Add_server: "message_ok info \<Longrightarrow> cmsg_sld_configuration_impl_add_server env info st = Some st' \<Longrightarrow> sld_step env st st'"
| Remove_server: "message_ok info \<Longrightarrow> cmsg_sld_configuration_impl_remove_server env info st = Some st' \<Longrightarrow> sld_step env st st'"
| Remote_add: "message_ok info \<Longrightarrow> cmsg_sld_remote_sync_impl_add_server env info st = Some st' \<Longrightarrow> sld_step env st st'"
| Remote_remove: "message_ok info \<Longrightarrow> cmsg_sld_remote_sync_impl_remove_server env info st = Some st' \<Longrightarrow> sld_step env st st'"
| Bulk_sync: "\<forall>info \<in> set infos. message_ok info \<Longrightarrow> cmsg_sld_remote_sync_impl_bulk_sync env infos st = Some st' \<Longrightarrow> sld_step env st st'"
| Exit: "pidfd_read env pid st = Some st' \<Longrightarrow> sld_step env st st'"

inductive sld_reachable :: "sld_env \<Rightarrow> sld_state \<Rightarrow> bool" for env where
  Start: "sld_reachable env data_init"
| Step: "sld_reachable env st \<Longrightarrow> sld_step env st st' \<Longrightarrow> sld_reachable env st'"

lemma data_init_inv: "sld_inv data_init"
  by (simp add: sld_inv_def sld_inv_for_def data_init_def tbl_ok_def)

lemma received_add:
  assumes "sld_inv st" "received info st = (info', st')" "info_ok (si_transport info)"
  shows "\<exists>st2. data_add_server env info' local st' = Some st2 \<and> sld_inv st2"
proof -
  have "inv_at (sl_next st) st'"
    using assms(1,2) by (auto simp: received_def sld_inv_def sld_inv_for_def)
  moreover have "info_ok (si_transport info')" "si_ptr info' = sl_next st" "sl_next st' = Suc (sl_next st)"
    using assms(2,3) by (auto simp: received_def)
  ultimately show ?thesis
    using data_add_server_inv [of "sl_next st" st' info' env local] by (auto simp: sld_inv_def)
qed

lemma received_remove:
  assumes "sld_inv st" "received info st = (info', st')" "info_ok (si_transport info)"
  shows "\<exists>st2. data_remove_server env info' local st' = Some st2 \<and> sld_inv st2"
proof -
  have "inv_at (Suc (sl_next st)) st'"
    by (rule inv_mono [of _ "sl_next st"])
      (use assms(1,2) in \<open>auto simp: received_def sld_inv_def sld_inv_for_def\<close>)
  moreover have "info_ok (si_transport info')" "sl_next st' = Suc (sl_next st)"
    using assms(2,3) by (auto simp: received_def)
  ultimately show ?thesis
    using data_remove_server_inv [of "Suc (sl_next st)" st' info' env local] by (auto simp: sld_inv_def)
qed

lemma received_ignore: "sld_inv st \<Longrightarrow> received info st = (info', st') \<Longrightarrow> sld_inv st'"
  by (auto simp: received_def sld_inv_def sld_inv_for_def intro: tbl_ok_mono)

lemma info_not_set: "message_ok info \<Longrightarrow> si_transport info \<noteq> Info_not_set \<Longrightarrow> info_ok (si_transport info)"
  "message_ok info \<Longrightarrow> is_tcp (si_transport info) \<Longrightarrow> info_ok (si_transport info)"
  by (auto simp: message_ok_def is_tcp_def)

lemma received_transport: "received info st = (info', st') \<Longrightarrow> si_transport info' = si_transport info"
  by (auto simp: received_def)

lemma add_server_handler:
  assumes "sld_inv st" "message_ok info"
  shows "\<exists>st'. cmsg_sld_configuration_impl_add_server env info st = Some st' \<and> sld_inv st'"
    and "\<exists>st'. cmsg_sld_remote_sync_impl_add_server env info st = Some st' \<and> sld_inv st'"
proof -
  obtain info' st1 where r: "received info st = (info', st1)" by fastforce
  note t = received_transport [OF r] received_ignore [OF assms(1) r]
  show "\<exists>st'. cmsg_sld_configuration_impl_add_server env info st = Some st' \<and> sld_inv st'"
    using r t received_add [OF assms(1) r info_not_set(1) [OF assms(2)], of env True]
    by (cases "si_transport info = Info_not_set") (auto simp: cmsg_sld_configuration_impl_add_server_def)
  show "\<exists>st'. cmsg_sld_remote_sync_impl_add_server env info st = Some st' \<and> sld_inv st'"
    using r t received_add [OF assms(1) r info_not_set(2) [OF assms(2)], of env False]
    by (cases "is_tcp (si_transport info)") (auto simp: cmsg_sld_remote_sync_impl_add_server_def)
qed

lemma remove_server_handler:
  assumes "sld_inv st" "message_ok info"
  shows "\<exists>st'. cmsg_sld_configuration_impl_remove_server env info st = Some st' \<and> sld_inv st'"
    and "\<exists>st'. cmsg_sld_remote_sync_impl_remove_server env info st = Some st' \<and> sld_inv st'"
proof -
  obtain info' st1 where r: "received info st = (info', st1)" by fastforce
  note t = received_transport [OF r] received_ignore [OF assms(1) r]
  show "\<exists>st'. cmsg_sld_configuration_impl_remove_server env info st = Some st' \<and> sld_inv st'"
    using r t received_remove [OF assms(1) r info_not_set(1) [OF assms(2)], of env True]
    by (cases "si_transport info = Info_not_set") (auto simp: cmsg_sld_configuration_impl_remove_server_def)
  show "\<exists>st'. cmsg_sld_remote_sync_impl_remove_server env info st = Some st' \<and> sld_inv st'"
    using r t received_remove [OF assms(1) r info_not_set(2) [OF assms(2)], of env False]
    by (cases "is_tcp (si_transport info)") (auto simp: cmsg_sld_remote_sync_impl_remove_server_def)
qed

lemma bulk_sync_handler:
  "sld_inv st \<Longrightarrow> \<forall>info \<in> set infos. message_ok info \<Longrightarrow>
    \<exists>st'. cmsg_sld_remote_sync_impl_bulk_sync env infos st = Some st' \<and> sld_inv st'"
proof (induction infos arbitrary: st)
  case (Cons info infos)
  then obtain st1 where "cmsg_sld_remote_sync_impl_add_server env info st = Some st1" "sld_inv st1"
    using add_server_handler(2) [of st info env] by auto
  with Cons show ?case by (auto simp: cmsg_sld_remote_sync_impl_add_server_def)
qed simp

lemma host_handlers:
  assumes "sld_inv st"
  shows "\<exists>st'. cmsg_sld_configuration_impl_add_host env addr st = Some st' \<and> sld_inv st'"
    and "length addr = 4 \<Longrightarrow> \<exists>st'. cmsg_sld_configuration_impl_delete_host env addr st = Some st' \<and> sld_inv st'"
    and "length addr = 4 \<Longrightarrow> sld_inv (cmsg_sld_configuration_impl_address_set addr st)"
proof -
  have at: "inv_at (sl_next st) st" using assms by (simp add: sld_inv_def)
  have log: "sld_inv (sld_log (Sld_tcp_cache addr b) st)" for b
    using inv_log [OF at, of "Sld_tcp_cache addr b"] by (simp add: sld_inv_def sld_log_def)
  show "\<exists>st'. cmsg_sld_configuration_impl_add_host env addr st = Some st' \<and> sld_inv st'"
    using remote_sync_add_host_inv [OF log] by (simp add: cmsg_sld_configuration_impl_add_host_def)
  show "\<exists>st'. cmsg_sld_configuration_impl_delete_host env addr st = Some st' \<and> sld_inv st'" if "length addr = 4"
    using data_remove_servers_by_addr_inv [OF remote_sync_delete_host_inv [OF log [of False], of addr, unfolded sld_inv_def] that, of env]
    by (fastforce simp: cmsg_sld_configuration_impl_delete_host_def sld_inv_def)
  show "sld_inv (cmsg_sld_configuration_impl_address_set addr st)" if "length addr = 4"
    using at that by (auto simp: cmsg_sld_configuration_impl_address_set_def remote_sync_address_set_def sld_inv_def sld_inv_for_def)
qed

lemma pidfd_read_handler:
  "sld_inv st \<Longrightarrow> \<exists>st'. pidfd_read env pid st = Some st' \<and> sld_inv st'"
  using pidfd_read_inv [of "sl_next st" st env pid] by (auto simp: sld_inv_def)

lemma sld_step_inv:
  assumes "sld_step env st st'" "sld_inv st"
  shows "sld_inv st'"
  using assms(1)
proof (cases rule: sld_step.cases)
  case Listen
  then show ?thesis using data_add_listener_cases(2) [OF assms(2)] by (simp add: cmsg_sld_configuration_impl_listen_def)
next
  case Unlisten
  then show ?thesis using data_remove_listener_inv [OF assms(2)] by (fastforce simp: cmsg_sld_configuration_impl_unlisten_def)
qed (use assms(2) host_handlers add_server_handler remove_server_handler bulk_sync_handler pidfd_read_handler
     in \<open>metis option.inject\<close>)+

lemma sld_reachable_inv: "sld_reachable env st \<Longrightarrow> sld_inv st"
  by (induction rule: sld_reachable.induct) (auto simp: data_init_inv intro: sld_step_inv)

end
