(* ===== verification/DaemonProperties.thy ===== *)
theory DaemonProperties
  imports ServiceListenerSteps
begin

text \<open>The properties of the composite client and of the service listener daemon.\<close>

section \<open>The composite client\<close>

text \<open>The slots hold what the successful answers carried.\<close>

lemma comp_recv_loop_slots:
  assumes "comp_recv_loop env cs i closures overall tr = Some (closures', overall', tr')"
    and "closures = os @ replicate k None" "length os = i" "length (filter (child_has_recv env) cs) \<le> k"
  shows "\<exists>k'. closures' = os @ map (snd \<circ> child_recv env)
      (filter (\<lambda>c. child_has_recv env c \<and> fst (child_recv env c) = CMSG_RET_OK) cs) @ replicate k' None \<and>
    k' + length (filter (\<lambda>c. child_has_recv env c \<and> fst (child_recv env c) = CMSG_RET_OK) cs) = k"
  using assms
proof (induction cs arbitrary: i closures overall tr os k)
  case (Cons c cs)
  obtain ret m where r: "child_recv env c = (ret, m)" by fastforce
  show ?case
  proof (cases "child_has_recv env c \<and> ret = CMSG_RET_OK")
    case True
    with Cons.prems(4) obtain k1 where k: "k = Suc k1" by (cases k) auto
    have slot: "(case m of None \<Rightarrow> closures | Some x \<Rightarrow> closures[i := Some x]) = (os @ [m]) @ replicate k1 None"
      using Cons.prems(2,3) k by (auto simp: list_update_append split: option.split)
    have "comp_recv_loop env cs (Suc i) (case m of None \<Rightarrow> closures | Some x \<Rightarrow> closures[i := Some x]) overall (tr @ [Comp_recv c]) =
        Some (closures', overall', tr')"
      using Cons.prems(1) True r by (auto split: option.splits if_splits)
    from Cons.IH [OF this slot] Cons.prems(3,4) True r k show ?thesis by auto
  next
    case False
    with Cons.IH [of i closures "if child_has_recv env c then ret else overall"
        "if child_has_recv env c then tr @ [Comp_recv c] else tr" os k] Cons.prems r
    show ?thesis by (auto split: if_splits)
  qed
qed auto

lemma closure_messages_slots:
  "0 < k \<Longrightarrow> closure_messages (ms @ replicate k None) = Some (map the (takeWhile (\<lambda>m. m \<noteq> None) ms))"
proof (induction ms)
  case (Cons m ms)
  then show ?case by (cases m) auto
qed (auto simp: gr0_conv_Suc)

text \<open>
  C40: A call on a composite client reaches every child: each child is sent
  the call once, in order; exactly the children that could be sent to and that answer are
  received from, in that order, after all the sending; and the call succeeds exactly when every send and
  every answer does. The caller gets the messages of the successful answers in the same order, up to the first one that
  carries no message: no answer is lost if each carries one, but after a success without a message (which the client allows)
  the caller does not see the rest. (At most 24 children answer, as \<open>CMSG_MAX_CLIENTS\<close> says.)
\<close>

theorem composite_call_complete:
  assumes "length (filter (child_has_recv env) (comp_children cc)) \<le> 24"
  shows "\<exists>closures ret. let sent = filter (\<lambda>c. child_send env c = CMSG_RET_OK) (comp_children cc);
      answering = filter (child_has_recv env) sent in
    cmsg_composite_client_invoke env cc (replicate CMSG_RECV_ARRAY_SIZE None) =
      Some (closures, ret, map Comp_send (comp_children cc) @ map Comp_recv answering) \<and>
    closure_messages closures = Some (map the (takeWhile (\<lambda>m. m \<noteq> None)
      (map (snd \<circ> child_recv env) (filter (\<lambda>c. fst (child_recv env c) = CMSG_RET_OK) answering)))) \<and>
    (ret = CMSG_RET_OK \<longleftrightarrow> (\<forall>c \<in> set (comp_children cc). child_send env c = CMSG_RET_OK) \<and>
       (\<forall>c \<in> set answering. fst (child_recv env c) = CMSG_RET_OK))"
proof -
  let ?cs = "comp_children cc"
  let ?sent = "filter (\<lambda>c. child_send env c = CMSG_RET_OK) ?cs"
  let ?ans = "filter (child_has_recv env) ?sent"
  let ?init = "replicate CMSG_RECV_ARRAY_SIZE None"
  obtain overall where send: "comp_send_loop env ?cs [] CMSG_RET_OK [] = (?sent, overall, map Comp_send ?cs)"
    using comp_send_loop_result [of env ?cs "[]" CMSG_RET_OK "[]"] by (metis append_Nil)
  have overall: "overall = CMSG_RET_OK \<longleftrightarrow> (\<forall>c \<in> set ?cs. child_send env c = CMSG_RET_OK)"
    using comp_send_loop_overall [of env ?cs "[]" CMSG_RET_OK "[]"] send by simp
  have "?ans = filter (\<lambda>c. child_send env c = CMSG_RET_OK) (filter (child_has_recv env) ?cs)"
    by (simp add: conj_commute)
  then have few: "length ?ans \<le> 24" using assms(1) length_filter_le le_trans by metis
  have "0 + length ?ans \<le> length (?init :: 'a option list)" using few by simp
  from comp_recv_loop_result [OF this, of overall "map Comp_send ?cs"]
  obtain closures ret where recv: "comp_recv_loop env ?sent 0 ?init overall (map Comp_send ?cs) =
      Some (closures, ret, map Comp_send ?cs @ map Comp_recv ?ans)"
    and ret: "ret = CMSG_RET_OK \<longleftrightarrow> overall = CMSG_RET_OK \<and>
       (\<forall>c \<in> set ?sent. child_has_recv env c \<longrightarrow> fst (child_recv env c) = CMSG_RET_OK)"
    by (elim exE conjE) (rule that)
  let ?got = "filter (\<lambda>c. child_has_recv env c \<and> fst (child_recv env c) = CMSG_RET_OK) ?sent"
  obtain k where k: "closures = map (snd \<circ> child_recv env) ?got @ replicate k None" "k + length ?got = 25"
    using comp_recv_loop_slots [OF recv, of "[]" 25] few by auto
  have got: "?got = filter (\<lambda>c. fst (child_recv env c) = CMSG_RET_OK) ?ans" by (simp add: conj_ac)
  then have "length ?got \<le> 24" using few length_filter_le le_trans by metis
  then have "closure_messages closures =
      Some (map the (takeWhile (\<lambda>m. m \<noteq> None) (map (snd \<circ> child_recv env) ?got)))"
    unfolding k(1) by (intro closure_messages_slots) (use k(2) in linarith)
  moreover have "cmsg_composite_client_invoke env cc ?init = Some (closures, ret, map Comp_send ?cs @ map Comp_recv ?ans)"
    using send recv by (cases "?cs = []") (auto simp: cmsg_composite_client_invoke_def)
  ultimately show ?thesis
    using got ret overall by (intro exI [of _ closures] exI [of _ ret]) (auto simp: Let_def)
qed

definition demo_comp_env :: "nat comp_env" where
  "demo_comp_env = \<lparr>child_send = \<lambda>c. if c = 2 then CMSG_RET_ERR else CMSG_RET_OK,
     child_has_recv = \<lambda>c. c \<noteq> 4, child_recv = \<lambda>c. (CMSG_RET_OK, Some (10 * c))\<rparr>"

theorem composite_call_complete_witness:
  "\<exists>closures ret. cmsg_composite_client_invoke demo_comp_env
      \<lparr>comp_is_composite = True, comp_children = [1, 2, 3, 4], comp_parent_set = []\<rparr> (replicate CMSG_RECV_ARRAY_SIZE None) =
    Some (closures, ret, [Comp_send 1, Comp_send 2, Comp_send 3, Comp_send 4, Comp_recv 1, Comp_recv 3]) \<and>
    closure_messages closures = Some [10, 30] \<and> ret \<noteq> CMSG_RET_OK"
  using composite_call_complete [of demo_comp_env "\<lparr>comp_is_composite = True, comp_children = [1, 2, 3, 4], comp_parent_set = []\<rparr>"]
  by (simp add: demo_comp_env_def Let_def cmsg_codes)

section \<open>The service listener daemon\<close>

text \<open>
  The concrete daemon of the witnesses: process 5 listens for \<open>db\<close>, process 7 serves it,
  process 9 is gone.
\<close>

definition demo_sld_env :: sld_env where
  "demo_sld_env = \<lparr>notify_ret = \<lambda>_ _. 0, pidfd_open = \<lambda>_ pid. if pid = 9 then Pidfd_ESRCH else Pidfd_ok,
     sync_port = [1, 2]\<rparr>"

definition demo_li :: "u32 \<Rightarrow> u32 \<Rightarrow> sld_listener_info" where
  "demo_li i pid = \<lparr>li_service = ''db'', li_transport = Info_unix True ''/tmp/l'', li_id = i, li_pid = pid\<rparr>"

definition demo_info :: service_info where
  "demo_info = \<lparr>si_ptr = 0, si_service = ''db'', si_transport = Info_unix False ''/tmp/s'', si_local = True, si_pid = 7\<rparr>"

definition demo_listening :: sld_state where
  "demo_listening = the (cmsg_sld_configuration_impl_listen demo_sld_env (demo_li 1 5) data_init)"

definition demo_tcp_info :: service_info where
  "demo_tcp_info = \<lparr>si_ptr = 0, si_service = ''db'', si_transport = Info_tcp False
     \<lparr>ti_ipv4 = True, ti_addr = [10, 0, 0, 9], ti_port = [48, 57], ti_scope_id = 0, ti_vrf_bind_dev = None\<rparr>,
     si_local = True, si_pid = 7\<rparr>"

definition demo_serving1 :: sld_state where
  "demo_serving1 = the (cmsg_sld_configuration_impl_add_server demo_sld_env demo_info demo_listening)"

definition demo_serving :: sld_state where
  "demo_serving = the (cmsg_sld_configuration_impl_add_server demo_sld_env demo_tcp_info demo_serving1)"

definition demo_two :: sld_state where
  "demo_two = the (cmsg_sld_configuration_impl_listen demo_sld_env (demo_li 2 5) demo_listening)"

definition demo_db :: "sld_state \<Rightarrow> service_data_entry" where
  "demo_db st = the (map_of (sl_table st) ''db'')"

lemma demo_messages_ok: "info_ok (li_transport (demo_li i pid))" "message_ok demo_info" "message_ok demo_tcp_info"
  by (simp_all add: demo_li_def demo_info_def demo_tcp_info_def message_ok_def info_ok_def)

lemma demo_listening_reachable: "sld_reachable demo_sld_env demo_listening"
proof -
  have "\<not> Option.is_none (cmsg_sld_configuration_impl_listen demo_sld_env (demo_li 1 5) data_init)"
    by code_simp
  then have "cmsg_sld_configuration_impl_listen demo_sld_env (demo_li 1 5) data_init = Some demo_listening"
    unfolding demo_listening_def by (simp add: Option.is_none_def)
  from sld_step.Listen [OF demo_messages_ok(1) this] sld_reachable.Start
  show ?thesis by (rule sld_reachable.Step [rotated])
qed

lemma demo_serving_reachable: "sld_reachable demo_sld_env demo_serving"
proof -
  have "\<not> Option.is_none (cmsg_sld_configuration_impl_add_server demo_sld_env demo_info demo_listening)"
    "\<not> Option.is_none (cmsg_sld_configuration_impl_add_server demo_sld_env demo_tcp_info demo_serving1)"
    by code_simp+
  then have add: "cmsg_sld_configuration_impl_add_server demo_sld_env demo_info demo_listening = Some demo_serving1"
    "cmsg_sld_configuration_impl_add_server demo_sld_env demo_tcp_info demo_serving1 = Some demo_serving"
    unfolding demo_serving_def demo_serving1_def by (simp_all add: Option.is_none_def)
  note sld_reachable.Step [OF demo_listening_reachable sld_step.Add_server [OF demo_messages_ok(2) add(1)]]
  then show ?thesis by (rule sld_reachable.Step) (rule sld_step.Add_server [OF demo_messages_ok(3) add(2)])
qed

text \<open>
  C4: A listener's picture of its service is exact. Whatever calls the daemon gets, whichever
  processes exit and whichever sends fail, the events that a listener still registered was sent
  add up to the servers the daemon knows for its service, each transport once.
\<close>

theorem listener_view_exact:
  assumes "sld_reachable env st" "map_of (sl_table st) service = Some entry" "l \<in> set (listeners entry)"
  shows "known (sl_trace st) (ls_ptr l) (ls_id l) = server_keys (servers entry) \<and>
    distinct (map server_key (servers entry))"
proof -
  have "inv_at (sl_next st) st" using sld_reachable_inv [OF assms(1)] by (simp add: sld_inv_def)
  from table_entry(1) [OF this assms(2)] show ?thesis
    using assms(3) by (auto simp: entry_ok_def entry_shape_def view_def)
qed

theorem listener_view_exact_witness:
  "known (sl_trace demo_serving) 0 (ls_id (hd (listeners (demo_db demo_serving)))) = server_keys (servers (demo_db demo_serving)) \<and>
   length (servers (demo_db demo_serving)) = 2"
proof -
  have "\<not> Option.is_none (map_of (sl_table demo_serving) ''db'')" by code_simp
  then have "map_of (sl_table demo_serving) ''db'' = Some (demo_db demo_serving)"
    by (simp add: demo_db_def Option.is_none_def)
  moreover have "hd (listeners (demo_db demo_serving)) \<in> set (listeners (demo_db demo_serving))"
    by (rule hd_in_set) code_simp
  moreover have "ls_ptr (hd (listeners (demo_db demo_serving))) = 0" by code_simp
  moreover have "length (servers (demo_db demo_serving)) = 2" by code_simp
  ultimately show ?thesis
    using listener_view_exact [OF demo_serving_reachable, of "''db''" "demo_db demo_serving"
      "hd (listeners (demo_db demo_serving))"] by simp
qed



text \<open>
  A server's address is compared with the length of the other one: a message with an address that is too short makes
  the daemon read past its end.
\<close>

lemma short_address_undefined:
  "cmsg_sld_configuration_impl_remove_server demo_sld_env
     (demo_tcp_info\<lparr>si_transport := Info_tcp False
        \<lparr>ti_ipv4 = True, ti_addr = [10, 0], ti_port = [48, 57], ti_scope_id = 0, ti_vrf_bind_dev = None\<rparr>\<rparr>) demo_serving = None"
proof -
  have "Option.is_none (cmsg_sld_configuration_impl_remove_server demo_sld_env
     (demo_tcp_info\<lparr>si_transport := Info_tcp False
        \<lparr>ti_ipv4 = True, ti_addr = [10, 0], ti_port = [48, 57], ti_scope_id = 0, ti_vrf_bind_dev = None\<rparr>\<rparr>) demo_serving)"
    by code_simp
  then show ?thesis by (simp add: Option.is_none_def)
qed

text \<open>
  A process that exits while it asks to listen corrupts the daemon: if its service is not in
  the store yet, the watch finds the process gone and frees the new listener and its entry, and
  the handler goes on to read the freed entry.
\<close>

lemma dead_listener_undefined:
  assumes "sld_reachable env st" "info_ok (li_transport info)"
    and "map_of (sl_table st) (li_service info) = None"
    and "map_of (sl_watches st) (li_pid info) = None"
    and "\<And>tr. pidfd_open env tr (li_pid info) = Pidfd_ESRCH"
  shows "cmsg_sld_configuration_impl_listen env info st = None"
proof -
  let ?k = "li_service info"
  define l where "l = \<lparr>ls_ptr = sl_next st, ls_client = Some (transport_of_info (li_transport info)),
      ls_id = li_id info, ls_pid = li_pid info\<rparr>"
  define st2 where "st2 = put_entry ?k \<lparr>servers = [], listeners = [l]\<rparr> (put_entry ?k empty_entry st\<lparr>sl_next := Suc (sl_next st)\<rparr>)"
  have gone: "map_of (sl_table st3) ?k = None" if r: "data_remove_by_pid env (li_pid info) st2 = Some st3" for st3
  proof -
    obtain tbl st4 where f: "foreach_remove (remove_by_pid env (li_pid info)) (sl_table st2) st2 = Some (tbl, st4)"
      "sl_table st3 = tbl"
      using r by (auto simp: data_remove_by_pid_def hash_foreach_remove_def)
    have "distinct (map fst (sl_table st))"
      using sld_reachable_inv [OF assms(1)] by (simp add: sld_inv_def sld_inv_for_def tbl_ok_def)
    then have d: "distinct (map fst (sl_table st2))" by (simp add: st2_def put_entry_def distinct_update)
    have "(?k, \<lparr>servers = [], listeners = [l]\<rparr>) \<in> set (sl_table st2)"
      using map_of_SomeD [of "sl_table st2" ?k] by (simp add: st2_def)
    from foreach_remove_emptied [OF f(1) d this] show ?thesis
      using f(2) by (auto simp: remove_by_pid_def l_def Let_def map_of_eq_None_iff)
  qed
  have "process_watch_add env (li_pid info) st2 = data_remove_by_pid env (li_pid info) st2"
    using assms(4,5) by (simp add: process_watch_add_def create_process_watch_def st2_def put_entry_def)
  moreover have "\<exists>f. data_add_listener env info st = Option.bind (process_watch_add env (li_pid info) st2)
      (\<lambda>st. Option.bind (map_of (sl_table st) ?k) (f st))"
    using assms(3) info_to_transport_ok [OF assms(2)]
    by (simp add: data_add_listener_def get_service_entry_or_create_def Let_def put_entry_def st2_def l_def)
      (rule exI, rule refl)
  ultimately show ?thesis
    using gone by (cases "data_remove_by_pid env (li_pid info) st2")
      (auto simp: cmsg_sld_configuration_impl_listen_def)
qed

text \<open>
  A process with two listeners for a service cannot end one of them: the daemon looks only at
  the transport, which the two share, so it removes the one that came last and goes on
  notifying the one that asked to leave.
\<close>

lemma unlisten_ignores_id:
  assumes "map_of (sl_table st) (li_service info) = Some entry" "listeners entry = newer # older # rest"
    and "ls_client newer = Some (transport_of_info (li_transport info))"
    and "ls_client older = Some (transport_of_info (li_transport info))"
    and "info_ok (li_transport info)" "li_id info = ls_id older" "ls_id newer \<noteq> ls_id older"
  shows "\<exists>st' entry'. cmsg_sld_configuration_impl_unlisten info st = Some st' \<and>
    map_of (sl_table st') (li_service info) = Some entry' \<and> listeners entry' = older # rest"
proof -
  have "find_listener (li_transport info) (listeners entry) = Some (Some newer)"
    using assms(2,3,5) by (simp add: info_create_of_info info_compare_key)
  then show ?thesis
    using assms(1,2)
    by (simp add: cmsg_sld_configuration_impl_unlisten_def data_remove_listener_def get_service_entry_or_create_def
        Let_def map_of_if_empty sld_log_def)
qed

end
