(* ===== verification/PubSub.thy ===== *)
theory PubSub
  imports CompositeClient
begin

text \<open>
  The publisher subscriber daemon: the store of subscriptions (\<open>publisher_subscriber/data.c\<close>),
  their copies on remote hosts (\<open>remote_sync.c\<close>) and the handlers of its configuration service
  (\<open>configuration.c\<close>).

  Clients are heap objects: an address, with its transport in a store, and \<open>_next\<close> is the next
  address that an allocation returns (allocations succeed). What the daemon sends goes to the
  trace with whether it arrived; \<open>delivered\<close> decides that from the trace so far. \<open>None\<close> is
  undefined behaviour: memory read outside a buffer, through \<open>NULL\<close> or after it was freed.
\<close>

section \<open>The state of the daemon\<close>

record ps_subscription =
  sub_service :: string
  sub_transport :: cmsg_transport_info
  sub_method :: string
  sub_remote_addr :: "u8 list option"

text \<open>
  A method entry is its name and its transports; the list of methods is an association list,
  as \<open>get_method_entry_or_create\<close> never adds a name twice.
\<close>

type_synonym method_entries = "(string \<times> cmsg_transport_info list) list"

record ps_service_entry =
  ps_methods :: method_entries
  ps_comp_client :: composite_client
  ps_sl_info :: bool

datatype psd_event =
    Psd_registered (psd_child: nat) method_entries (psd_arrived: bool) \<comment> \<open>the reply to a new publisher\<close>
  | Psd_change (psd_child: nat) string cmsg_transport_info bool (psd_arrived: bool)
  | Psd_host_removal (psd_child: nat) "u8 list" (psd_arrived: bool)
  | Psd_bulk_sync (psd_child: nat) "ps_subscription list" (psd_arrived: bool)
  | Psd_sync (psd_child: nat) ps_subscription bool (psd_arrived: bool)
  | Psd_destroy_client (psd_child: nat)
  | Psd_listen string
  | Psd_unlisten string

record psd_env =
  delivered :: "psd_event list \<Rightarrow> nat \<Rightarrow> bool"
  listen_ok :: "psd_event list \<Rightarrow> string \<Rightarrow> bool"
  sync_transport :: "u8 list \<Rightarrow> cmsg_transport option"

record psd_state =
  ps_table :: "(string \<times> ps_service_entry) list"
  ps_remote :: "ps_subscription list"
  ps_tports :: "nat \<Rightarrow> cmsg_transport"
  ps_sync_server :: "cmsg_transport option"
  ps_listening :: bool
  ps_local_ip :: "u8 list"
  ps_sync_clients :: "nat list"
  ps_next :: nat
  ps_trace :: "psd_event list"

definition ps_log :: "psd_event \<Rightarrow> psd_state \<Rightarrow> psd_state" where
  "ps_log ev st = st\<lparr>ps_trace := ps_trace st @ [ev]\<rparr>"

definition ps_data_init :: psd_state where
  "ps_data_init =
     \<lparr>ps_table = [], ps_remote = [], ps_tports = (\<lambda>_. cmsg_transport_new CMSG_TRANSPORT_RPC_UNIX),
      ps_sync_server = None, ps_listening = False, ps_local_ip = [0, 0, 0, 0], ps_sync_clients = [],
      ps_next = 0, ps_trace = []\<rparr>"

text \<open>
  \<open>g_list_find_custom\<close> with a comparison that may be undefined, and \<open>g_list_remove\<close> of what it
  found: no element before it satisfies the comparison, so the first equal one is it.
\<close>

fun list_find :: "('a \<Rightarrow> bool option) \<Rightarrow> 'a list \<Rightarrow> 'a option option" where
  "list_find P [] = Some None"
| "list_find P (x # xs) = Option.bind (P x) (\<lambda>b. if b then Some (Some x) else list_find P xs)"

fun list_filter :: "('a \<Rightarrow> bool option) \<Rightarrow> 'a list \<Rightarrow> 'a list option" where
  "list_filter P [] = Some []"
| "list_filter P (x # xs) =
     Option.bind (P x) (\<lambda>b. map_option (\<lambda>ys. if b then x # ys else ys) (list_filter P xs))"

section \<open>Copies on remote hosts\<close>

definition remote_sync_subscription_added_removed ::
  "psd_env \<Rightarrow> ps_subscription \<Rightarrow> bool \<Rightarrow> psd_state \<Rightarrow> psd_state" where
  "remote_sync_subscription_added_removed env info added st =
     (case List.find (\<lambda>c. Some (sin_addr (ps_tports st c)) = sub_remote_addr info) (ps_sync_clients st) of
        None \<Rightarrow> st
      | Some c \<Rightarrow> ps_log (Psd_sync c info added (delivered env (ps_trace st) c)) st)"

definition remote_sync_subscription_added :: "psd_env \<Rightarrow> ps_subscription \<Rightarrow> psd_state \<Rightarrow> psd_state" where
  "remote_sync_subscription_added env info st = remote_sync_subscription_added_removed env info True st"

definition remote_sync_subscription_removed :: "psd_env \<Rightarrow> ps_subscription \<Rightarrow> psd_state \<Rightarrow> psd_state" where
  "remote_sync_subscription_removed env info st = remote_sync_subscription_added_removed env info False st"

definition remote_sync_bulk_sync_subscriptions :: "psd_env \<Rightarrow> nat \<Rightarrow> psd_state \<Rightarrow> psd_state" where
  "remote_sync_bulk_sync_subscriptions env c st =
     ps_log (Psd_bulk_sync c
       (filter (\<lambda>info. sub_remote_addr info = Some (sin_addr (ps_tports st c))) (ps_remote st))
       (delivered env (ps_trace st) c)) st"

section \<open>The entries of the store\<close>

definition ps_get_service_entry_or_create ::
  "psd_env \<Rightarrow> string \<Rightarrow> bool \<Rightarrow> psd_state \<Rightarrow> ps_service_entry option \<times> psd_state" where
  "ps_get_service_entry_or_create env service create st =
     (case map_of (ps_table st) service of
        Some entry \<Rightarrow> (Some entry, st)
      | None \<Rightarrow>
          if create then
            let listening = listen_ok env (ps_trace st) service;
                entry = \<lparr>ps_methods = [], ps_comp_client = cmsg_composite_client_init, ps_sl_info = listening\<rparr>;
                st = (if listening then ps_log (Psd_listen service) st else st)
            in (Some entry, st\<lparr>ps_table := AList.update service entry (ps_table st)\<rparr>)
          else (None, st))"

definition ps_put_entry :: "string \<Rightarrow> ps_service_entry \<Rightarrow> psd_state \<Rightarrow> psd_state" where
  "ps_put_entry service entry st = st\<lparr>ps_table := AList.update service entry (ps_table st)\<rparr>"

definition ps_service_entry_free :: "string \<Rightarrow> ps_service_entry \<Rightarrow> psd_state \<Rightarrow> psd_state" where
  "ps_service_entry_free service entry st =
     (let st = (if ps_sl_info entry then ps_log (Psd_unlisten service) st else st) in
      fold (\<lambda>c. ps_log (Psd_destroy_client c))
        (fst (cmsg_composite_client_free_all_children (ps_comp_client entry))) st)"

text \<open>\<open>g_hash_table_remove\<close> on the table of services: the entry is freed as well.\<close>

definition ps_remove_service :: "string \<Rightarrow> psd_state \<Rightarrow> psd_state" where
  "ps_remove_service service st =
     (case map_of (ps_table st) service of
        None \<Rightarrow> st
      | Some entry \<Rightarrow>
          ps_service_entry_free service entry (st\<lparr>ps_table := AList.delete service (ps_table st)\<rparr>))"

definition get_method_entry_or_create :: "string \<Rightarrow> bool \<Rightarrow> method_entries \<Rightarrow> cmsg_transport_info list option \<times> method_entries" where
  "get_method_entry_or_create name create ms =
     (case map_of ms name of
        Some ts \<Rightarrow> (Some ts, ms)
      | None \<Rightarrow> if create then (Some [], (name, []) # ms) else (None, ms))"

text \<open>Every publisher of the service is sent the update, in the order of the composite client.\<close>

definition update_publishers_with_method_change ::
  "psd_env \<Rightarrow> composite_client \<Rightarrow> string \<Rightarrow> cmsg_transport_info \<Rightarrow> bool \<Rightarrow> psd_state \<Rightarrow> psd_state" where
  "update_publishers_with_method_change env cc name info added st =
     fold (\<lambda>c st. ps_log (Psd_change c name info added (delivered env (ps_trace st) c)) st) (comp_children cc) st"

definition update_publishers_with_host_removal ::
  "psd_env \<Rightarrow> composite_client \<Rightarrow> u8 list \<Rightarrow> psd_state \<Rightarrow> psd_state" where
  "update_publishers_with_host_removal env cc addr st =
     fold (\<lambda>c st. ps_log (Psd_host_removal c addr (delivered env (ps_trace st) c)) st) (comp_children cc) st"

section \<open>Subscriptions\<close>

text \<open>The copy of a description is only \<open>NULL\<close> for a type that no description has.\<close>

definition data_add_local_subscription :: "psd_env \<Rightarrow> ps_subscription \<Rightarrow> psd_state \<Rightarrow> psd_state option" where
  "data_add_local_subscription env info st =
     (case ps_get_service_entry_or_create env (sub_service info) True st of
        (None, _) \<Rightarrow> None
      | (Some entry, st) \<Rightarrow>
          (case get_method_entry_or_create (sub_method info) True (ps_methods entry) of
             (None, _) \<Rightarrow> None
           | (Some ts, ms) \<Rightarrow>
               Option.bind (cmsg_transport_info_copy (sub_transport info)) (\<lambda>copy.
               Option.bind copy (\<lambda>transport_copy.
                 let entry = entry\<lparr>ps_methods := AList.update (sub_method info) (transport_copy # ts) ms\<rparr>
                 in Some (update_publishers_with_method_change env (ps_comp_client entry) (sub_method info)
                            (sub_transport info) True (ps_put_entry (sub_service info) entry st))))))"

text \<open>The result says whether the daemon keeps the message.\<close>

definition data_add_subscription :: "psd_env \<Rightarrow> ps_subscription \<Rightarrow> psd_state \<Rightarrow> (bool \<times> psd_state) option" where
  "data_add_subscription env info st =
     (case sub_remote_addr info of
        Some _ \<Rightarrow>
          Some (True, remote_sync_subscription_added env info (st\<lparr>ps_remote := info # ps_remote st\<rparr>))
      | None \<Rightarrow> map_option (Pair False) (data_add_local_subscription env info st))"

definition remote_subscription_compare :: "ps_subscription \<Rightarrow> ps_subscription \<Rightarrow> bool option" where
  "remote_subscription_compare a b =
     (if strcmp (sub_service a) (sub_service b) \<noteq> 0 then Some False
      else if strcmp (sub_method a) (sub_method b) \<noteq> 0 then Some False
      else if sub_remote_addr a \<noteq> sub_remote_addr b then Some False
      else cmsg_transport_info_compare (sub_transport a) (sub_transport b))"

text \<open>
  The found message is freed, which sets the list's pointer to \<open>NULL\<close>; then the link with the
  pointer \<open>NULL\<close> is removed, which is the same link.
\<close>

definition data_remove_remote_subscription :: "psd_env \<Rightarrow> ps_subscription \<Rightarrow> psd_state \<Rightarrow> psd_state option" where
  "data_remove_remote_subscription env info st =
     Option.bind (list_find (\<lambda>a. remote_subscription_compare a info) (ps_remote st)) (\<lambda>found.
       case found of
         None \<Rightarrow> Some st
       | Some a \<Rightarrow>
           Some (remote_sync_subscription_removed env info (st\<lparr>ps_remote := remove1 a (ps_remote st)\<rparr>)))"

text \<open>The transports that are left, and the state after the publishers were told.\<close>

definition data_remove_transport_from_method ::
  "psd_env \<Rightarrow> composite_client \<Rightarrow> string \<Rightarrow> cmsg_transport_info \<Rightarrow> cmsg_transport_info list \<Rightarrow> psd_state
   \<Rightarrow> (cmsg_transport_info list \<times> psd_state) option" where
  "data_remove_transport_from_method env cc name info ts st =
     Option.bind (list_find (\<lambda>t. cmsg_transport_info_compare t info) ts) (\<lambda>found.
       case found of
         None \<Rightarrow> Some (ts, st)
       | Some t \<Rightarrow> Some (remove1 t ts, update_publishers_with_method_change env cc name info False st))"

definition data_remove_local_subscription :: "psd_env \<Rightarrow> ps_subscription \<Rightarrow> psd_state \<Rightarrow> psd_state option" where
  "data_remove_local_subscription env info st =
     (case ps_get_service_entry_or_create env (sub_service info) False st of
        (None, st) \<Rightarrow> Some st
      | (Some entry, st) \<Rightarrow>
          (case get_method_entry_or_create (sub_method info) False (ps_methods entry) of
             (None, _) \<Rightarrow> Some st
           | (Some ts, ms) \<Rightarrow>
               map_option (\<lambda>(ts, st).
                 if ts \<noteq> [] then
                   ps_put_entry (sub_service info)
                     (entry\<lparr>ps_methods := AList.update (sub_method info) ts ms\<rparr>) st
                 else
                   (let ms = AList.delete (sub_method info) ms;
                        st = ps_put_entry (sub_service info) (entry\<lparr>ps_methods := ms\<rparr>) st
                    in if ms = [] then ps_remove_service (sub_service info) st else st))
                 (data_remove_transport_from_method env (ps_comp_client entry) (sub_method info)
                    (sub_transport info) ts st)))"

definition data_remove_subscription :: "psd_env \<Rightarrow> ps_subscription \<Rightarrow> psd_state \<Rightarrow> psd_state option" where
  "data_remove_subscription env info st =
     (case sub_remote_addr info of
        Some _ \<Rightarrow> data_remove_remote_subscription env info st
      | None \<Rightarrow> data_remove_local_subscription env info st)"

section \<open>Removing a subscriber or a host\<close>

text \<open>The collected messages, last first, are taken off the list and the remote hosts told.\<close>

definition data_remove_remote_entries_for_subscriber ::
  "psd_env \<Rightarrow> string \<Rightarrow> cmsg_transport_info \<Rightarrow> psd_state \<Rightarrow> psd_state option" where
  "data_remove_remote_entries_for_subscriber env service transport_info st =
     map_option (\<lambda>found.
       fold (\<lambda>info st. remote_sync_subscription_removed env info (st\<lparr>ps_remote := remove1 info (ps_remote st)\<rparr>))
         (rev found) st)
       (list_filter (\<lambda>info. if strcmp (sub_service info) service = 0
                           then cmsg_transport_info_compare (sub_transport info) transport_info
                           else Some False) (ps_remote st))"

text \<open>\<open>g_list_foreach\<close> over the methods of an entry.\<close>

fun data_remove_subscriber_from_methods ::
  "psd_env \<Rightarrow> composite_client \<Rightarrow> cmsg_transport_info \<Rightarrow> method_entries \<Rightarrow> psd_state
   \<Rightarrow> (method_entries \<times> psd_state) option" where
  "data_remove_subscriber_from_methods env cc subscriber [] st = Some ([], st)"
| "data_remove_subscriber_from_methods env cc subscriber ((name, ts) # ms) st =
     Option.bind (data_remove_transport_from_method env cc name subscriber ts st) (\<lambda>(ts, st).
       map_option (\<lambda>(ms, st). ((name, ts) # ms, st))
         (data_remove_subscriber_from_methods env cc subscriber ms st))"

definition data_prune_empty_methods :: "method_entries \<Rightarrow> method_entries" where
  "data_prune_empty_methods ms = filter (\<lambda>(name, ts). ts \<noteq> []) ms"

text \<open>
  \<open>service_is_key\<close>: the caller's service name is the key of the table itself, as it is for an
  event of the service listener. Removing the entry frees the key, and the name is compared
  with the remote subscriptions after that.
\<close>

definition data_remove_subscriber ::
  "psd_env \<Rightarrow> bool \<Rightarrow> string \<Rightarrow> cmsg_transport_info \<Rightarrow> psd_state \<Rightarrow> (bool \<times> psd_state) option" where
  "data_remove_subscriber env service_is_key service transport_info st =
     Option.bind
       (case ps_get_service_entry_or_create env service False st of
          (None, st) \<Rightarrow> Some (False, st)
        | (Some entry, st) \<Rightarrow>
            map_option (\<lambda>(ms, st).
              let ms = data_prune_empty_methods ms;
                  st = ps_put_entry service (entry\<lparr>ps_methods := ms\<rparr>) st
              in if ms = [] \<and> cmsg_composite_client_num_children (ps_comp_client entry) = 0
                 then (True, ps_remove_service service st) else (False, st))
              (data_remove_subscriber_from_methods env (ps_comp_client entry) transport_info (ps_methods entry) st))
       (\<lambda>(removed, st).
          if removed \<and> service_is_key \<and> ps_remote st \<noteq> [] then None
          else map_option (Pair removed)
                 (data_remove_remote_entries_for_subscriber env service transport_info st))"

text \<open>Whether a transport was removed, and the ones that stay. A \<open>NULL\<close> transport is dereferenced.\<close>

definition info_has_addr :: "u8 list \<Rightarrow> cmsg_transport_info \<Rightarrow> bool option" where
  "info_has_addr addr info =
     (case info of
        Info_tcp _ _ \<Rightarrow>
          Option.bind (cmsg_transport_info_to_transport info) (\<lambda>transport.
            map_option (\<lambda>t. sin_addr t = addr) transport)
      | _ \<Rightarrow> Some False)"

definition data_remove_clients_with_addr_from_method ::
  "u8 list \<Rightarrow> cmsg_transport_info list \<Rightarrow> (bool \<times> cmsg_transport_info list) option" where
  "data_remove_clients_with_addr_from_method addr ts =
     map_option (\<lambda>removal_list. (removal_list \<noteq> [], fold remove1 (rev removal_list) ts))
       (list_filter (info_has_addr addr) ts)"

fun data_remove_addr_from_methods :: "u8 list \<Rightarrow> method_entries \<Rightarrow> (bool \<times> method_entries) option" where
  "data_remove_addr_from_methods addr [] = Some (False, [])"
| "data_remove_addr_from_methods addr ((name, ts) # ms) =
     Option.bind (data_remove_clients_with_addr_from_method addr ts) (\<lambda>(gone, ts).
       map_option (\<lambda>(gone', ms). (gone \<or> gone', (name, ts) # ms)) (data_remove_addr_from_methods addr ms))"

definition data_remove_local_entries_for_addr ::
  "psd_env \<Rightarrow> u8 list \<Rightarrow> ps_service_entry \<Rightarrow> psd_state \<Rightarrow> (ps_service_entry \<times> psd_state) option" where
  "data_remove_local_entries_for_addr env addr entry st =
     map_option (\<lambda>(subscriber_removed, ms).
       (entry\<lparr>ps_methods := data_prune_empty_methods ms\<rparr>,
        if subscriber_removed
        then update_publishers_with_host_removal env (ps_comp_client entry) addr st else st))
       (data_remove_addr_from_methods addr (ps_methods entry))"

fun ps_foreach ::
  "(ps_service_entry \<Rightarrow> psd_state \<Rightarrow> (ps_service_entry \<times> psd_state) option)
   \<Rightarrow> (string \<times> ps_service_entry) list \<Rightarrow> psd_state \<Rightarrow> ((string \<times> ps_service_entry) list \<times> psd_state) option" where
  "ps_foreach f [] st = Some ([], st)"
| "ps_foreach f ((key, entry) # rest) st =
     Option.bind (f entry st) (\<lambda>(entry, st).
       map_option (\<lambda>(tbl, st). ((key, entry) # tbl, st)) (ps_foreach f rest st))"

definition data_remove_empty_services :: "ps_service_entry \<Rightarrow> bool" where
  "data_remove_empty_services entry \<longleftrightarrow>
     ps_methods entry = [] \<and> cmsg_composite_client_num_children (ps_comp_client entry) = 0"

definition data_remove_local_subscriptions_for_addr :: "psd_env \<Rightarrow> u8 list \<Rightarrow> psd_state \<Rightarrow> psd_state option" where
  "data_remove_local_subscriptions_for_addr env addr st =
     map_option (\<lambda>(tbl, st).
       fold (\<lambda>(key, entry). ps_service_entry_free key entry)
         (filter (\<lambda>(key, entry). data_remove_empty_services entry) tbl)
         (st\<lparr>ps_table := filter (\<lambda>(key, entry). \<not> data_remove_empty_services entry) tbl\<rparr>))
       (ps_foreach (data_remove_local_entries_for_addr env addr) (ps_table st) st)"

section \<open>Publishers\<close>

text \<open>The methods with their subscribers, as the reply to a new publisher lists them.\<close>

definition data_get_subscription_info_for_service :: "string \<Rightarrow> psd_state \<Rightarrow> method_entries" where
  "data_get_subscription_info_for_service service st =
     (case map_of (ps_table st) service of None \<Rightarrow> [] | Some entry \<Rightarrow> ps_methods entry)"

text \<open>A client without a transport is not created, and then not added.\<close>

definition data_add_publisher ::
  "psd_env \<Rightarrow> string \<Rightarrow> cmsg_transport_info \<Rightarrow> psd_state \<Rightarrow> (nat option \<times> psd_state) option" where
  "data_add_publisher env service transport_info st =
     (case ps_get_service_entry_or_create env service True st of
        (None, _) \<Rightarrow> None
      | (Some entry, st) \<Rightarrow>
          map_option (\<lambda>transport.
            case transport of
              None \<Rightarrow> (None, st)
            | Some t \<Rightarrow>
                let c = ps_next st; tports = (ps_tports st)(c := t) in
                case snd (cmsg_composite_client_add_child tports (Some (ps_comp_client entry)) (Some c)) of
                  None \<Rightarrow> (None, st)
                | Some cc \<Rightarrow>
                    (Some c, ps_put_entry service (entry\<lparr>ps_comp_client := cc\<rparr>)
                               (st\<lparr>ps_tports := tports, ps_next := c + 1\<rparr>)))
            (cmsg_transport_info_to_transport transport_info))"

text \<open>\<open>cmsg_transport_compare\<close> with a transport that could not be made dereferences \<open>NULL\<close>.\<close>

definition data_remove_publisher ::
  "psd_env \<Rightarrow> string \<Rightarrow> cmsg_transport_info \<Rightarrow> psd_state \<Rightarrow> psd_state option" where
  "data_remove_publisher env service transport_info st =
     (case ps_get_service_entry_or_create env service False st of
        (None, st) \<Rightarrow> Some st
      | (Some entry, st) \<Rightarrow>
          Option.bind (cmsg_transport_info_to_transport transport_info) (\<lambda>transport.
            map_option (\<lambda>found.
              case found of
                None \<Rightarrow> st
              | Some c \<Rightarrow>
                  case snd (cmsg_composite_client_delete_child (Some (ps_comp_client entry)) (Some c)) of
                    None \<Rightarrow> st
                  | Some cc \<Rightarrow> ps_log (Psd_destroy_client c)
                                (ps_put_entry service (entry\<lparr>ps_comp_client := cc\<rparr>) st))
              (list_find (\<lambda>c. map_option (cmsg_transport_compare (ps_tports st c)) transport)
                 (cmsg_composite_client_get_children (ps_comp_client entry)))))"

section \<open>Events and handlers\<close>

text \<open>The service listener reports that a subscriber's server is gone; goes on listening or not.\<close>

definition sl_event_handler ::
  "psd_env \<Rightarrow> string \<Rightarrow> cmsg_transport \<Rightarrow> bool \<Rightarrow> psd_state \<Rightarrow> (bool \<times> psd_state) option" where
  "sl_event_handler env service transport added st =
     (if added then Some (True, st)
      else
        case cmsg_transport_info_create transport of
          None \<Rightarrow> Some (True, st)
        | Some info \<Rightarrow>
            map_option (\<lambda>(removed, st). (\<not> removed, st)) (data_remove_subscriber env True service info st))"

text \<open>A daemon of another host appears or goes. Without a server of its own \<open>NULL\<close> is dereferenced.\<close>

definition remote_sync_sl_event_handler ::
  "psd_env \<Rightarrow> cmsg_transport \<Rightarrow> bool \<Rightarrow> psd_state \<Rightarrow> psd_state option" where
  "remote_sync_sl_event_handler env transport added st =
     Option.bind (ps_sync_server st) (\<lambda>own.
       if cmsg_transport_compare own transport then Some st
       else if added then
         let c = ps_next st;
             st = st\<lparr>ps_tports := (ps_tports st)(c := transport), ps_sync_clients := c # ps_sync_clients st,
                     ps_next := c + 1\<rparr>
         in Some (remote_sync_bulk_sync_subscriptions env c st)
       else
         map_option (\<lambda>st.
           case List.find (\<lambda>c. cmsg_transport_compare (ps_tports st c) transport) (ps_sync_clients st) of
             None \<Rightarrow> st
           | Some c \<Rightarrow> (ps_log (Psd_destroy_client c) st)\<lparr>ps_sync_clients := remove1 c (ps_sync_clients st)\<rparr>)
           (data_remove_local_subscriptions_for_addr env (sin_addr transport) st))"

definition ps_remote_sync_address_set :: "psd_env \<Rightarrow> u8 list \<Rightarrow> psd_state \<Rightarrow> psd_state" where
  "ps_remote_sync_address_set env addr st =
     (case ps_sync_server st of
        Some _ \<Rightarrow> st
      | None \<Rightarrow> st\<lparr>ps_sync_server := sync_transport env addr, ps_local_ip := addr, ps_listening := True\<rparr>)"

definition cmsg_psd_configuration_impl_address_set :: "psd_env \<Rightarrow> u8 list \<Rightarrow> psd_state \<Rightarrow> psd_state" where
  "cmsg_psd_configuration_impl_address_set env addr st = ps_remote_sync_address_set env addr st"

definition cmsg_psd_configuration_impl_add_subscription ::
  "psd_env \<Rightarrow> ps_subscription \<Rightarrow> psd_state \<Rightarrow> psd_state option" where
  "cmsg_psd_configuration_impl_add_subscription env info st = map_option snd (data_add_subscription env info st)"

definition cmsg_psd_configuration_impl_remove_subscription ::
  "psd_env \<Rightarrow> ps_subscription \<Rightarrow> psd_state \<Rightarrow> psd_state option" where
  "cmsg_psd_configuration_impl_remove_subscription env info st = data_remove_subscription env info st"

definition cmsg_psd_configuration_impl_remove_subscriber ::
  "psd_env \<Rightarrow> string \<Rightarrow> cmsg_transport_info \<Rightarrow> psd_state \<Rightarrow> psd_state option" where
  "cmsg_psd_configuration_impl_remove_subscriber env service info st =
     map_option snd (data_remove_subscriber env False service info st)"

definition cmsg_psd_configuration_impl_add_publisher ::
  "psd_env \<Rightarrow> string \<Rightarrow> cmsg_transport_info \<Rightarrow> psd_state \<Rightarrow> psd_state option" where
  "cmsg_psd_configuration_impl_add_publisher env service info st =
     map_option (\<lambda>(client, st).
       case client of
         None \<Rightarrow> st
       | Some c \<Rightarrow>
           ps_log (Psd_registered c (data_get_subscription_info_for_service service st)
             (delivered env (ps_trace st) c)) st)
       (data_add_publisher env service info st)"

definition cmsg_psd_configuration_impl_remove_publisher ::
  "psd_env \<Rightarrow> string \<Rightarrow> cmsg_transport_info \<Rightarrow> psd_state \<Rightarrow> psd_state option" where
  "cmsg_psd_configuration_impl_remove_publisher env service info st = data_remove_publisher env service info st"

definition cmsg_psd_remote_sync_impl_add_subscription ::
  "psd_env \<Rightarrow> ps_subscription \<Rightarrow> psd_state \<Rightarrow> psd_state option" where
  "cmsg_psd_remote_sync_impl_add_subscription env info st = data_add_local_subscription env info st"

definition cmsg_psd_remote_sync_impl_remove_subscription ::
  "psd_env \<Rightarrow> ps_subscription \<Rightarrow> psd_state \<Rightarrow> psd_state option" where
  "cmsg_psd_remote_sync_impl_remove_subscription env info st = data_remove_local_subscription env info st"

fun cmsg_psd_remote_sync_impl_bulk_sync :: "psd_env \<Rightarrow> ps_subscription list \<Rightarrow> psd_state \<Rightarrow> psd_state option" where
  "cmsg_psd_remote_sync_impl_bulk_sync env [] st = Some st"
| "cmsg_psd_remote_sync_impl_bulk_sync env (info # rest) st =
     Option.bind (data_add_local_subscription env info st) (cmsg_psd_remote_sync_impl_bulk_sync env rest)"

end
