(* ===== verification/Publisher.thy ===== *)
theory Publisher
  imports PubSub Client
begin

text \<open>
  The publisher (\<open>publisher_subscriber/cmsg_pub.c\<close>): per method with subscribers a composite
  client whose children are the subscribers, and a queue of packets that its send thread
  empties. The daemon of \<open>PubSub\<close> tells it about every change. (The service of its update server
  always belongs to the publisher. One thread at a time works on the subscribers, as the
  mutex ensures.) \<open>None\<close> is undefined behaviour, here an access through \<open>NULL\<close>.
\<close>

datatype pub_event = Pub_send nat "u8 list" | Pub_destroy_client nat

record publisher =
  pub_methods :: "(string \<times> composite_client) list"
  pub_tports :: "nat \<Rightarrow> cmsg_transport"
  pub_next :: nat
  pub_queue :: "(string \<times> u8 list) list"
  pub_trace :: "pub_event list"

definition pub_log :: "pub_event \<Rightarrow> publisher \<Rightarrow> publisher" where
  "pub_log ev p = p\<lparr>pub_trace := pub_trace p @ [ev]\<rparr>"

definition new_publisher :: publisher where
  "new_publisher = \<lparr>pub_methods = [], pub_tports = (\<lambda>_. cmsg_transport_new CMSG_TRANSPORT_RPC_UNIX),
     pub_next = 0, pub_queue = [], pub_trace = []\<rparr>"

definition cmsg_publisher_get_client_for_method ::
  "publisher \<Rightarrow> string \<Rightarrow> bool \<Rightarrow> composite_client option \<times> publisher" where
  "cmsg_publisher_get_client_for_method p method_name create =
     (case map_of (pub_methods p) method_name of
        Some client \<Rightarrow> (Some client, p)
      | None \<Rightarrow>
          if create then
            (Some cmsg_composite_client_init,
             p\<lparr>pub_methods := AList.update method_name cmsg_composite_client_init (pub_methods p)\<rparr>)
          else (None, p))"

definition cmsg_publisher_add_subscriber ::
  "publisher \<Rightarrow> string \<Rightarrow> cmsg_transport_info \<Rightarrow> publisher option" where
  "cmsg_publisher_add_subscriber p method_name transport_info =
     (case cmsg_publisher_get_client_for_method p method_name True of
        (comp_client, p) \<Rightarrow>
          map_option (\<lambda>transport.
            case transport of
              None \<Rightarrow> p
            | Some t \<Rightarrow>
                let c = pub_next p; tports = (pub_tports p)(c := t) in
                case snd (cmsg_composite_client_add_child tports comp_client (Some c)) of
                  None \<Rightarrow> p
                | Some cc \<Rightarrow> p\<lparr>pub_methods := AList.update method_name cc (pub_methods p),
                                pub_tports := tports, pub_next := c + 1\<rparr>)
            (cmsg_transport_info_to_transport transport_info))"

text \<open>A method without a composite client: its children are counted through \<open>NULL\<close>.\<close>

definition cmsg_publisher_remove_subscriber ::
  "publisher \<Rightarrow> string \<Rightarrow> cmsg_transport_info \<Rightarrow> publisher option" where
  "cmsg_publisher_remove_subscriber p method_name transport_info =
     (case cmsg_publisher_get_client_for_method p method_name False of
        (None, _) \<Rightarrow> None
      | (Some comp_client, p) \<Rightarrow>
          Option.bind (cmsg_transport_info_to_transport transport_info) (\<lambda>transport.
            map_option (\<lambda>found.
              let (cc, p) =
                (case found of
                   None \<Rightarrow> (comp_client, p)
                 | Some c \<Rightarrow>
                     (case snd (cmsg_composite_client_delete_child (Some comp_client) (Some c)) of
                        None \<Rightarrow> (comp_client, p)
                      | Some cc \<Rightarrow> (cc, pub_log (Pub_destroy_client c) p)))
              in p\<lparr>pub_methods :=
                     (if cmsg_composite_client_num_children cc = 0 then AList.delete method_name (pub_methods p)
                      else AList.update method_name cc (pub_methods p))\<rparr>)
              (list_find (\<lambda>c. map_option (cmsg_transport_compare (pub_tports p c)) transport)
                 (cmsg_composite_client_get_children comp_client))))"

definition cmsg_psd_update_impl_subscription_change ::
  "publisher \<Rightarrow> string \<Rightarrow> cmsg_transport_info \<Rightarrow> bool \<Rightarrow> publisher option" where
  "cmsg_psd_update_impl_subscription_change p method_name transport added =
     (if added then cmsg_publisher_add_subscriber p method_name transport
      else cmsg_publisher_remove_subscriber p method_name transport)"

text \<open>The \<open>while\<close> loop over the children with the address: each round deletes one.\<close>

function remove_children_from_host ::
  "(nat \<Rightarrow> cmsg_transport) \<Rightarrow> u8 list \<Rightarrow> composite_client \<Rightarrow> nat list \<times> composite_client" where
  "remove_children_from_host tports addr cc =
     (case cmsg_composite_client_lookup_by_tcp_ipv4_addr tports cc addr of
        None \<Rightarrow> ([], cc)
      | Some client \<Rightarrow>
          (case cmsg_composite_client_delete_child (Some cc) (Some client) of
             (_, None) \<Rightarrow> ([], cc)
           | (_, Some cc') \<Rightarrow>
               (case remove_children_from_host tports addr cc' of
                  (gone, cc') \<Rightarrow> (client # gone, cc'))))"
  by pat_completeness auto

lemma find_length_remove1: "List.find P xs = Some x \<Longrightarrow> length (remove1 x xs) < length xs"
  by (auto simp: find_Some_iff length_remove1 intro!: diff_less)

termination remove_children_from_host
  by (relation "measure (\<lambda>(_, _, cc). length (comp_children cc))")
    (auto simp: cmsg_composite_client_lookup_by_tcp_ipv4_addr_def cmsg_composite_client_delete_child_def
      split: if_splits dest: find_length_remove1)

declare remove_children_from_host.simps [simp del]

fun remove_subscribers_from_host ::
  "(nat \<Rightarrow> cmsg_transport) \<Rightarrow> u8 list \<Rightarrow> (string \<times> composite_client) list
   \<Rightarrow> nat list \<times> (string \<times> composite_client) list" where
  "remove_subscribers_from_host tports addr [] = ([], [])"
| "remove_subscribers_from_host tports addr ((name, cc) # rest) =
     (case remove_children_from_host tports addr cc of
        (gone, cc) \<Rightarrow>
          (case remove_subscribers_from_host tports addr rest of
             (gone', rest) \<Rightarrow>
               (gone @ gone', if cmsg_composite_client_num_children cc = 0 then rest else (name, cc) # rest)))"

definition cmsg_psd_update_impl_host_removal :: "publisher \<Rightarrow> u8 list \<Rightarrow> publisher" where
  "cmsg_psd_update_impl_host_removal p addr =
     (case remove_subscribers_from_host (pub_tports p) addr (pub_methods p) of
        (gone, ms) \<Rightarrow> fold (\<lambda>c. pub_log (Pub_destroy_client c)) gone (p\<lparr>pub_methods := ms\<rparr>))"

text \<open>The reply to the registration fills a new publisher.\<close>

fun add_subscribers :: "string \<Rightarrow> cmsg_transport_info list \<Rightarrow> publisher \<Rightarrow> publisher option" where
  "add_subscribers method_name [] p = Some p"
| "add_subscribers method_name (t # ts) p =
     Option.bind (cmsg_publisher_add_subscriber p method_name t) (add_subscribers method_name ts)"

fun cmsg_publisher_init_subscribers :: "method_entries \<Rightarrow> publisher \<Rightarrow> publisher option" where
  "cmsg_publisher_init_subscribers [] p = Some p"
| "cmsg_publisher_init_subscribers ((name, ts) # ms) p =
     Option.bind (add_subscribers name ts p) (cmsg_publisher_init_subscribers ms)"

definition cmsg_publisher_queue_packet :: "bool \<Rightarrow> publisher \<Rightarrow> u8 list \<Rightarrow> string \<Rightarrow> int \<times> publisher" where
  "cmsg_publisher_queue_packet alloc p packet method_name =
     (if \<not> alloc then (CMSG_RET_ERR, p)
      else (CMSG_RET_OK, p\<lparr>pub_queue := g_queue_push_head (pub_queue p) (method_name, packet)\<rparr>))"

text \<open>
  Publishing a message. \<open>base\<close> is the client inside the method's composite client, which builds
  the packet; a method without subscribers is done at once.
\<close>

definition cmsg_pub_invoke ::
  "'m client_env \<Rightarrow> cmsg_client \<Rightarrow> bool \<Rightarrow> publisher \<Rightarrow> string \<Rightarrow> 'm \<Rightarrow> (int \<times> publisher) option" where
  "cmsg_pub_invoke env base alloc p method_name input =
     (case cmsg_publisher_get_client_for_method p method_name False of
        (None, p) \<Rightarrow> Some (CMSG_RET_OK, p)
      | (Some _, p) \<Rightarrow>
          map_option (\<lambda>((ret, packet), _).
            if ret \<noteq> CMSG_RET_OK then (CMSG_RET_ERR, p)
            else case cmsg_publisher_queue_packet alloc p packet method_name of
                   (ret, p) \<Rightarrow> (if ret \<noteq> CMSG_RET_OK then CMSG_RET_ERR else CMSG_RET_OK, p))
            (cmsg_client_create_packet env base method_name input))"

text \<open>One packet goes to every child of its method's composite client, if there still is one.\<close>

definition publish_packet :: "string \<Rightarrow> u8 list \<Rightarrow> publisher \<Rightarrow> publisher" where
  "publish_packet method_name packet p =
     (case cmsg_publisher_get_client_for_method p method_name False of
        (None, p) \<Rightarrow> p
      | (Some cc, p) \<Rightarrow> fold (\<lambda>c. pub_log (Pub_send c packet)) (comp_children cc) p)"

function cmsg_publisher_process_send_queue :: "publisher \<Rightarrow> publisher" where
  "cmsg_publisher_process_send_queue p =
     (case g_queue_pop_tail (pub_queue p) of
        (None, _) \<Rightarrow> p
      | (Some (name, packet), q) \<Rightarrow>
          cmsg_publisher_process_send_queue ((publish_packet name packet p)\<lparr>pub_queue := q\<rparr>))"
  by pat_completeness auto

termination cmsg_publisher_process_send_queue
  by (relation "measure (\<lambda>p. length (pub_queue p))") (auto dest!: length_pop_tail [OF sym])

declare cmsg_publisher_process_send_queue.simps [simp del]

end
