(* ===== verification/PublisherProps.thy ===== *)
theory PublisherProps
  imports Publisher "HOL-Library.Multiset"
begin

text \<open>
  What a store of subscriptions promises, and that the publisher's table of composite clients
  keeps it: per method the subscribers as a multiset of what transports are compared by. The
  locale \<open>subscription_index\<close> is the interface; the publisher and the daemon both provide it.
\<close>

section \<open>The abstract store\<close>

type_synonym ps_key = "(bool \<times> string) option \<times> (bool \<times> bool \<times> u8 list \<times> u8 list) option"

type_synonym ps_subs = "string \<Rightarrow> ps_key multiset"

datatype ps_update = Upd_change string cmsg_transport_info bool | Upd_host "u8 list"

text \<open>The \<open>sin_addr\<close> of a transport with an IPv6 address is its flow information, zero.\<close>

fun key_has_addr :: "u8 list \<Rightarrow> ps_key \<Rightarrow> bool" where
  "key_has_addr addr (_, None) = False"
| "key_has_addr addr (_, Some (_, ipv4, _, a)) = ((if ipv4 then a else [0, 0, 0, 0]) = addr)"

fun apply_update :: "ps_update \<Rightarrow> ps_subs \<Rightarrow> ps_subs" where
  "apply_update (Upd_change m info added) S =
     S(m := if added then add_mset (info_key info) (S m) else S m - {#info_key info#})"
| "apply_update (Upd_host addr) S = (\<lambda>m. filter_mset (\<lambda>k. \<not> key_has_addr addr k) (S m))"

text \<open>Only a subscription that is there is taken away.\<close>

fun update_fits :: "ps_update \<Rightarrow> ps_subs \<Rightarrow> bool" where
  "update_fits (Upd_change m info added) S \<longleftrightarrow> info_ok info \<and> (added \<or> info_key info \<in># S m)"
| "update_fits (Upd_host addr) S \<longleftrightarrow> True"

fun updates_fit :: "ps_update list \<Rightarrow> ps_subs \<Rightarrow> bool" where
  "updates_fit [] S \<longleftrightarrow> True"
| "updates_fit (u # us) S \<longleftrightarrow> update_fits u S \<and> updates_fit us (apply_update u S)"

locale subscription_index =
  fixes index_ok :: "'s \<Rightarrow> bool"
    and subs :: "'s \<Rightarrow> ps_subs"
    and update :: "ps_update \<Rightarrow> 's \<Rightarrow> 's option"
  assumes update_step: "index_ok s \<Longrightarrow> update_fits u (subs s) \<Longrightarrow>
    \<exists>s'. update u s = Some s' \<and> index_ok s' \<and> subs s' = apply_update u (subs s)"
begin

fun run :: "ps_update list \<Rightarrow> 's \<Rightarrow> 's option" where
  "run [] s = Some s"
| "run (u # us) s = Option.bind (update u s) (run us)"

lemma run_append: "run (us @ vs) s = Option.bind (run us s) (run vs)"
  by (induction us arbitrary: s) (simp_all split: bind_split)

text \<open>Any sequence of fitting updates is carried out, and exactly.\<close>

lemma run_exact:
  "index_ok s \<Longrightarrow> updates_fit us (subs s) \<Longrightarrow>
    \<exists>s'. run us s = Some s' \<and> index_ok s' \<and> subs s' = fold apply_update us (subs s)"
proof (induction us arbitrary: s)
  case (Cons u us)
  then obtain s' where s': "update u s = Some s'" "index_ok s'" "subs s' = apply_update u (subs s)"
    using update_step [of s u] by auto
  with Cons.IH [of s'] Cons.prems show ?case by auto
qed simp

end

section \<open>Keys of transports\<close>

definition transport_key :: "cmsg_transport \<Rightarrow> ps_key" where
  "transport_key t = info_key (the (cmsg_transport_info_create t))"

lemma transport_key_of_info [simp]: "info_ok info \<Longrightarrow> transport_key (transport_of_info info) = info_key info"
  by (simp add: transport_key_def info_create_of_info)

lemma sin_addr_of_tcp:
  "info_ok (Info_tcp ow tcp) \<Longrightarrow>
    sin_addr (transport_of_info (Info_tcp ow tcp)) = (if ti_ipv4 tcp then ti_addr tcp else [0, 0, 0, 0])"
  by (auto simp: info_ok_def transport_of_info_def cmsg_transport_info_to_transport_def Let_def
      memcpy_field_exact split: option.splits)

text \<open>What the publisher's lookup by address looks at.\<close>

definition tcp_child_at :: "u8 list \<Rightarrow> cmsg_transport \<Rightarrow> bool" where
  "tcp_child_at addr t \<longleftrightarrow>
     (t_type t = CMSG_TRANSPORT_RPC_TCP \<or> t_type t = CMSG_TRANSPORT_ONEWAY_TCP) \<and> sin_addr t = addr"

lemma tcp_child_at_key:
  assumes "info_ok info"
  shows "tcp_child_at addr (transport_of_info info) \<longleftrightarrow> key_has_addr addr (info_key info)"
proof (cases info)
  case (Info_unix ow path)
  with assms transport_of_unix [of ow path] show ?thesis by (auto simp: tcp_child_at_def)
next
  case (Info_tcp ow tcp)
  with assms transport_of_tcp [of ow tcp] sin_addr_of_tcp [of ow tcp] show ?thesis
    by (auto simp: tcp_child_at_def)
qed (use assms in \<open>simp add: info_ok_def\<close>)

lemma transport_of_info_type:
  assumes "info_ok info"
  shows "t_type (transport_of_info info) \<noteq> CMSG_TRANSPORT_LOOPBACK"
proof (cases info)
  case (Info_unix ow path)
  with assms transport_of_unix [of ow path] show ?thesis by auto
next
  case (Info_tcp ow tcp)
  with assms transport_of_tcp [of ow tcp] show ?thesis by auto
qed (use assms in \<open>simp add: info_ok_def\<close>)

section \<open>Searching lists\<close>

lemma list_find_total: "(\<And>x. x \<in> set xs \<Longrightarrow> P x = Some (Q x)) \<Longrightarrow> list_find P xs = Some (List.find Q xs)"
  by (induction xs) auto

lemma list_filter_total: "(\<And>x. x \<in> set xs \<Longrightarrow> P x = Some (Q x)) \<Longrightarrow> list_filter P xs = Some (filter Q xs)"
  by (induction xs) auto

lemma find_SomeD: "List.find P xs = Some x \<Longrightarrow> x \<in> set xs \<and> P x"
  by (auto simp: find_Some_iff)

lemma find_NoneD: "List.find P xs = None \<Longrightarrow> x \<in> set xs \<Longrightarrow> \<not> P x"
  by (auto simp: find_None_iff)

lemma filter_remove1_other: "P x \<Longrightarrow> filter (\<lambda>x. \<not> P x) (remove1 x xs) = filter (\<lambda>x. \<not> P x) xs"
  by (induction xs) auto

lemma image_mset_remove1:
  "x \<in> set xs \<Longrightarrow> image_mset f (mset (remove1 x xs)) = image_mset f (mset xs) - {#f x#}"
  by (simp add: image_mset_Diff)

lemma image_mset_filter_key:
  "(\<And>x. x \<in> set xs \<Longrightarrow> P x \<longleftrightarrow> Q (f x)) \<Longrightarrow>
    image_mset f (mset (filter P xs)) = filter_mset Q (image_mset f (mset xs))"
  by (induction xs) auto

section \<open>The publisher as such a store\<close>

text \<open>A composite client of subscribers: its children are live clients made from descriptions.\<close>

definition subscribers_ok :: "nat \<Rightarrow> (nat \<Rightarrow> cmsg_transport) \<Rightarrow> composite_client \<Rightarrow> bool" where
  "subscribers_ok n tports cc \<longleftrightarrow>
     comp_is_composite cc \<and> distinct (comp_children cc) \<and>
     (\<forall>c \<in> set (comp_children cc). c < n \<and> (\<exists>info. info_ok info \<and> tports c = transport_of_info info))"

definition pub_ok :: "publisher \<Rightarrow> bool" where
  "pub_ok p \<longleftrightarrow> distinct (map fst (pub_methods p)) \<and>
     (\<forall>m cc. map_of (pub_methods p) m = Some cc \<longrightarrow> subscribers_ok (pub_next p) (pub_tports p) cc)"

definition child_keys :: "(nat \<Rightarrow> cmsg_transport) \<Rightarrow> composite_client \<Rightarrow> ps_key multiset" where
  "child_keys tports cc = image_mset (\<lambda>c. transport_key (tports c)) (mset (comp_children cc))"

definition pub_subs :: "publisher \<Rightarrow> ps_subs" where
  "pub_subs p m = (case map_of (pub_methods p) m of None \<Rightarrow> {#} | Some cc \<Rightarrow> child_keys (pub_tports p) cc)"

definition pub_update :: "ps_update \<Rightarrow> publisher \<Rightarrow> publisher option" where
  "pub_update u p =
     (case u of
        Upd_change m info added \<Rightarrow> cmsg_psd_update_impl_subscription_change p m info added
      | Upd_host addr \<Rightarrow> Some (cmsg_psd_update_impl_host_removal p addr))"

lemma pub_okI:
  assumes "distinct (map fst (pub_methods p))"
    and "\<And>m cc. map_of (pub_methods p) m = Some cc \<Longrightarrow> subscribers_ok (pub_next p) (pub_tports p) cc"
  shows "pub_ok p"
  unfolding pub_ok_def using assms by blast

lemma pub_okD:
  assumes "pub_ok p"
  shows "distinct (map fst (pub_methods p))"
    and "map_of (pub_methods p) m = Some cc \<Longrightarrow> subscribers_ok (pub_next p) (pub_tports p) cc"
  using assms unfolding pub_ok_def by blast+

lemma subscribers_okD:
  assumes "subscribers_ok n tports cc" "c \<in> set (comp_children cc)"
  obtains info where "c < n" "info_ok info" "tports c = transport_of_info info"
  using assms unfolding subscribers_ok_def by blast

lemma subscribers_ok_mono:
  assumes "subscribers_ok n tports cc" "n \<le> n'" "\<And>c. c < n \<Longrightarrow> tports' c = tports c"
  shows "subscribers_ok n' tports' cc"
proof -
  have "c < n' \<and> (\<exists>info. info_ok info \<and> tports' c = transport_of_info info)" if "c \<in> set (comp_children cc)" for c
    by (rule subscribers_okD [OF assms(1) that]) (use assms(2,3) in force)
  with assms(1) show ?thesis unfolding subscribers_ok_def by simp
qed

lemma child_keys_cong:
  assumes "subscribers_ok n tports cc" "\<And>c. c < n \<Longrightarrow> tports' c = tports c"
  shows "child_keys tports' cc = child_keys tports cc"
  unfolding child_keys_def
  by (rule image_mset_cong) (use assms subscribers_okD [OF assms(1)] in force)

lemma subscribers_ok_subset:
  assumes "subscribers_ok n tports cc" "comp_is_composite cc'" "distinct (comp_children cc')"
    "set (comp_children cc') \<subseteq> set (comp_children cc)"
  shows "subscribers_ok n tports cc'"
  using assms unfolding subscribers_ok_def by blast

text \<open>Adding a child that was made from a description.\<close>

lemma add_child_fresh:
  assumes "subscribers_ok n tports cc" "info_ok info"
  obtains cc' where
    "snd (cmsg_composite_client_add_child (tports(n := transport_of_info info)) (Some cc) (Some n)) = Some cc'"
    "subscribers_ok (Suc n) (tports(n := transport_of_info info)) cc'"
    "child_keys (tports(n := transport_of_info info)) cc' = add_mset (info_key info) (child_keys tports cc)"
    "comp_children cc' = n # comp_children cc"
proof -
  let ?t = "tports(n := transport_of_info info)"
  let ?cc' = "cc\<lparr>comp_children := n # comp_children cc, comp_parent_set := n # comp_parent_set cc\<rparr>"
  have comp: "comp_is_composite cc" using assms(1) by (simp add: subscribers_ok_def)
  have old: "subscribers_ok (Suc n) ?t cc" by (rule subscribers_ok_mono [OF assms(1)]) auto
  have "n \<notin> set (comp_children cc)" using assms(1) unfolding subscribers_ok_def by blast
  with old assms(2) have "subscribers_ok (Suc n) ?t ?cc'"
    unfolding subscribers_ok_def by auto
  moreover have "snd (cmsg_composite_client_add_child ?t (Some cc) (Some n)) = Some ?cc'"
    using comp transport_of_info_type [OF assms(2)] by (simp add: cmsg_composite_client_add_child_def)
  moreover have "child_keys ?t ?cc' = add_mset (info_key info) (child_keys tports cc)"
    using child_keys_cong [OF assms(1), of ?t] assms(2) by (simp add: child_keys_def)
  ultimately show ?thesis using that by simp
qed

lemma init_composite_ok: "subscribers_ok n tports cmsg_composite_client_init"
  by (simp add: subscribers_ok_def cmsg_composite_client_init_def)

lemma init_composite_keys [simp]: "child_keys tports cmsg_composite_client_init = {#}"
  by (simp add: child_keys_def cmsg_composite_client_init_def)

lemma add_subscriber_exact:
  assumes "pub_ok p" "info_ok info"
  shows "\<exists>p'. cmsg_publisher_add_subscriber p m info = Some p' \<and> pub_ok p' \<and>
    pub_subs p' = (pub_subs p)(m := add_mset (info_key info) (pub_subs p m))"
proof -
  let ?cc = "case map_of (pub_methods p) m of None \<Rightarrow> cmsg_composite_client_init | Some cc \<Rightarrow> cc"
  let ?t = "(pub_tports p)(pub_next p := transport_of_info info)"
  have ok: "subscribers_ok (pub_next p) (pub_tports p) ?cc"
    using pub_okD(2) [OF assms(1), of m] init_composite_ok by (cases "map_of (pub_methods p) m") auto
  obtain cc' where cc': "snd (cmsg_composite_client_add_child ?t (Some ?cc) (Some (pub_next p))) = Some cc'"
    "subscribers_ok (Suc (pub_next p)) ?t cc'"
    "child_keys ?t cc' = add_mset (info_key info) (child_keys (pub_tports p) ?cc)"
    using add_child_fresh [OF ok assms(2)] by metis
  let ?p' = "p\<lparr>pub_methods := AList.update m cc' (pub_methods p), pub_tports := ?t, pub_next := Suc (pub_next p)\<rparr>"
  have add: "cmsg_publisher_add_subscriber p m info = Some ?p'"
    using cc'(1) info_to_transport_ok [OF assms(2)]
    by (cases "map_of (pub_methods p) m")
      (simp_all add: cmsg_publisher_add_subscriber_def cmsg_publisher_get_client_for_method_def Let_def)
  have ok': "pub_ok ?p'"
  proof (rule pub_okI)
    show "distinct (map fst (pub_methods ?p'))"
      using pub_okD(1) [OF assms(1)] by (simp add: distinct_update)
    fix m' c assume c: "map_of (pub_methods ?p') m' = Some c"
    show "subscribers_ok (pub_next ?p') (pub_tports ?p') c"
    proof (cases "m' = m")
      case True
      with c cc'(2) show ?thesis by (simp add: update_conv)
    next
      case False
      then have "map_of (pub_methods p) m' = Some c" using c by (simp add: update_conv)
      from subscribers_ok_mono [OF pub_okD(2) [OF assms(1) this]] show ?thesis by simp
    qed
  qed
  have "pub_subs ?p' m' = ((pub_subs p)(m := add_mset (info_key info) (pub_subs p m))) m'" for m'
  proof (cases "m' = m")
    case True
    then show ?thesis
      using cc'(3) by (cases "map_of (pub_methods p) m") (simp_all add: pub_subs_def update_conv)
  next
    case False
    then show ?thesis
      using child_keys_cong [OF pub_okD(2) [OF assms(1)], of m' _ ?t]
      by (cases "map_of (pub_methods p) m'") (simp_all add: pub_subs_def update_conv)
  qed
  then have "pub_subs ?p' = (pub_subs p)(m := add_mset (info_key info) (pub_subs p m))" by blast
  with add ok' show ?thesis by blast
qed

text \<open>Taking a child away, and storing what is left.\<close>

lemma delete_child_exact:
  assumes "subscribers_ok n tports cc" "c \<in> set (comp_children cc)"
  obtains cc' where "snd (cmsg_composite_client_delete_child (Some cc) (Some c)) = Some cc'"
    "subscribers_ok n tports cc'" "comp_children cc' = remove1 c (comp_children cc)"
    "child_keys tports cc' = child_keys tports cc - {#transport_key (tports c)#}"
proof -
  let ?cc' = "cc\<lparr>comp_children := remove1 c (comp_children cc), comp_parent_set := removeAll c (comp_parent_set cc)\<rparr>"
  have comp: "comp_is_composite cc" "distinct (comp_children cc)"
    using assms(1) by (simp_all add: subscribers_ok_def)
  have "subscribers_ok n tports ?cc'"
    by (rule subscribers_ok_subset [OF assms(1)]) (use comp in \<open>auto dest: notin_set_remove1\<close>)
  moreover have "child_keys tports ?cc' = child_keys tports cc - {#transport_key (tports c)#}"
    unfolding child_keys_def using image_mset_remove1 [OF assms(2)] by simp
  ultimately show ?thesis
    using that [of ?cc'] comp by (simp add: cmsg_composite_client_delete_child_def)
qed

text \<open>The entry of a method is written back, or dropped when it is empty: the same to \<open>pub_subs\<close>.\<close>

lemma pub_put:
  assumes "pub_ok p" "subscribers_ok (pub_next p) (pub_tports p) cc"
    and "p' = p\<lparr>pub_methods := (if comp_children cc = [] then AList.delete m (pub_methods p)
                             else AList.update m cc (pub_methods p)), pub_trace := tr\<rparr>"
  shows "pub_ok p'" "pub_subs p' = (pub_subs p)(m := child_keys (pub_tports p) cc)"
proof -
  have "child_keys (pub_tports p) cc = {#}" if "comp_children cc = []" using that by (simp add: child_keys_def)
  then have "pub_subs p' m' = ((pub_subs p)(m := child_keys (pub_tports p) cc)) m'" for m'
    by (cases "map_of (pub_methods p) m'") (simp_all add: assms(3) pub_subs_def update_conv delete_conv)
  then show "pub_subs p' = (pub_subs p)(m := child_keys (pub_tports p) cc)" by blast
  show "pub_ok p'"
  proof (rule pub_okI)
    show "distinct (map fst (pub_methods p'))"
      using pub_okD(1) [OF assms(1)] by (simp add: assms(3) distinct_update distinct_delete)
    fix m' c assume "map_of (pub_methods p') m' = Some c"
    then have "c = cc \<or> map_of (pub_methods p) m' = Some c"
      by (simp add: assms(3) update_conv delete_conv split: if_splits)
    then show "subscribers_ok (pub_next p') (pub_tports p') c"
      using assms(2) pub_okD(2) [OF assms(1)] by (auto simp: assms(3))
  qed
qed

lemma remove_subscriber_exact:
  assumes "pub_ok p" "info_ok info" "info_key info \<in># pub_subs p m"
  shows "\<exists>p'. cmsg_publisher_remove_subscriber p m info = Some p' \<and> pub_ok p' \<and>
    pub_subs p' = (pub_subs p)(m := pub_subs p m - {#info_key info#})"
proof -
  obtain cc where cc: "map_of (pub_methods p) m = Some cc"
    using assms(3) by (cases "map_of (pub_methods p) m") (auto simp: pub_subs_def)
  have ok: "subscribers_ok (pub_next p) (pub_tports p) cc" using assms(1) cc by (simp add: pub_ok_def)
  have keys: "pub_subs p m = child_keys (pub_tports p) cc" by (simp add: pub_subs_def cc)
  let ?P = "\<lambda>c. transport_key (pub_tports p c) = info_key info"
  have "list_find (\<lambda>c. Some (cmsg_transport_compare (pub_tports p c) (transport_of_info info))) (comp_children cc) =
      Some (List.find ?P (comp_children cc))"
  proof (rule list_find_total)
    fix c assume "c \<in> set (comp_children cc)"
    then obtain i where "info_ok i" "pub_tports p c = transport_of_info i"
      using subscribers_okD [OF ok] by metis
    then show "Some (cmsg_transport_compare (pub_tports p c) (transport_of_info info)) =
        Some (transport_key (pub_tports p c) = info_key info)"
      using transport_compare_key [of i info] assms(2) by simp
  qed
  moreover obtain c where c: "List.find ?P (comp_children cc) = Some c"
    using assms(3) keys by (cases "List.find ?P (comp_children cc)") (auto simp: child_keys_def find_None_iff)
  moreover obtain cc' where cc': "snd (cmsg_composite_client_delete_child (Some cc) (Some c)) = Some cc'"
    "subscribers_ok (pub_next p) (pub_tports p) cc'"
    "child_keys (pub_tports p) cc' = child_keys (pub_tports p) cc - {#transport_key (pub_tports p c)#}"
    using delete_child_exact [OF ok] find_SomeD [OF c] by metis
  moreover have "comp_is_composite cc" "comp_is_composite cc'"
    using ok cc'(2) by (simp_all add: subscribers_ok_def)
  moreover define p' where "p' = p\<lparr>pub_methods := (if comp_children cc' = [] then AList.delete m (pub_methods p)
      else AList.update m cc' (pub_methods p)), pub_trace := pub_trace p @ [Pub_destroy_client c]\<rparr>"
  ultimately have "cmsg_publisher_remove_subscriber p m info = Some p'"
    using cc info_to_transport_ok [OF assms(2)]
    by (simp add: cmsg_publisher_remove_subscriber_def cmsg_publisher_get_client_for_method_def
        cmsg_composite_client_get_children_def cmsg_composite_client_num_children_def pub_log_def)
  then show ?thesis
    using pub_put [OF assms(1) cc'(2) p'_def] cc'(3) find_SomeD [OF c] keys by auto
qed

section \<open>A host that goes\<close>

lemma remove_children_from_host_result:
  "comp_is_composite cc \<Longrightarrow>
    \<exists>gone cc'. remove_children_from_host tports addr cc = (gone, cc') \<and> comp_is_composite cc' \<and>
      comp_children cc' = filter (\<lambda>c. \<not> tcp_child_at addr (tports c)) (comp_children cc)"
proof (induction "length (comp_children cc)" arbitrary: cc rule: less_induct)
  case less
  let ?P = "\<lambda>c. tcp_child_at addr (tports c)"
  have lookup: "cmsg_composite_client_lookup_by_tcp_ipv4_addr tports cc addr = List.find ?P (comp_children cc)"
    using less.prems by (simp add: cmsg_composite_client_lookup_by_tcp_ipv4_addr_def tcp_child_at_def)
  show ?case
  proof (cases "List.find ?P (comp_children cc)")
    case None
    then have "filter (\<lambda>c. \<not> ?P c) (comp_children cc) = comp_children cc"
      by (auto simp: find_None_iff intro!: filter_True)
    with None less.prems lookup show ?thesis by (simp add: remove_children_from_host.simps [of tports addr cc])
  next
    case (Some c)
    let ?cc' = "cc\<lparr>comp_children := remove1 c (comp_children cc), comp_parent_set := removeAll c (comp_parent_set cc)\<rparr>"
    have "comp_is_composite ?cc'" using less.prems by simp
    with less.hyps [of ?cc'] find_length_remove1 [OF Some] obtain gone cc' where
      "remove_children_from_host tports addr ?cc' = (gone, cc')" "comp_is_composite cc'"
      "comp_children cc' = filter (\<lambda>c. \<not> ?P c) (remove1 c (comp_children cc))"
      by auto
    then show ?thesis
      using Some less.prems lookup filter_remove1_other [of ?P c] find_SomeD [OF Some]
      by (simp add: remove_children_from_host.simps [of tports addr cc] cmsg_composite_client_delete_child_def)
  qed
qed

lemma remove_subscribers_from_host_result:
  assumes "distinct (map fst ms)" "\<And>m cc. (m, cc) \<in> set ms \<Longrightarrow> comp_is_composite cc"
    and "remove_subscribers_from_host tports addr ms = (gone, ms')"
  shows "distinct (map fst ms') \<and> set (map fst ms') \<subseteq> set (map fst ms) \<and>
    (\<forall>m. map_of ms' m = Option.bind (map_of ms m) (\<lambda>cc.
       let cc' = snd (remove_children_from_host tports addr cc) in
       if comp_children cc' = [] then None else Some cc'))"
  using assms
proof (induction ms arbitrary: gone ms')
  case (Cons e ms)
  obtain m cc where e: "e = (m, cc)" by fastforce
  obtain g1 cc' where h: "remove_children_from_host tports addr cc = (g1, cc')" "comp_is_composite cc'"
    using remove_children_from_host_result [of cc tports addr] Cons.prems(2) [of m cc] e by auto
  obtain g2 ms2 where r: "remove_subscribers_from_host tports addr ms = (g2, ms2)" by fastforce
  have IH: "distinct (map fst ms2) \<and> set (map fst ms2) \<subseteq> set (map fst ms) \<and>
    (\<forall>m. map_of ms2 m = Option.bind (map_of ms m) (\<lambda>cc.
       let cc' = snd (remove_children_from_host tports addr cc) in
       if comp_children cc' = [] then None else Some cc'))"
    by (rule Cons.IH [OF _ _ r]) (use Cons.prems e in auto)
  have "m \<notin> set (map fst ms)" using Cons.prems(1) e by simp
  then have "map_of ms m = None" by (simp add: map_of_eq_None_iff)
  moreover from this have "map_of ms2 m = None" using IH [THEN conjunct2, THEN conjunct2, THEN spec, of m] by simp
  moreover have "ms' = (if comp_children cc' = [] then ms2 else (m, cc') # ms2)"
    using Cons.prems(3) e h r by (simp add: cmsg_composite_client_num_children_def split: if_splits)
  ultimately show ?case
    using IH e h \<open>m \<notin> set (map fst ms)\<close> by (auto simp: Let_def)
qed simp

lemma filter_children_exact:
  assumes "subscribers_ok n tports cc" "comp_is_composite cc'"
    and "comp_children cc' = filter (\<lambda>c. \<not> tcp_child_at addr (tports c)) (comp_children cc)"
  shows "subscribers_ok n tports cc'"
    "child_keys tports cc' = filter_mset (\<lambda>k. \<not> key_has_addr addr k) (child_keys tports cc)"
proof -
  show "subscribers_ok n tports cc'"
    by (rule subscribers_ok_subset [OF assms(1,2)]) (use assms(1,3) in \<open>auto simp: subscribers_ok_def\<close>)
  have "tcp_child_at addr (tports c) \<longleftrightarrow> key_has_addr addr (transport_key (tports c))"
    if "c \<in> set (comp_children cc)" for c
    by (rule subscribers_okD [OF assms(1) that]) (simp add: tcp_child_at_key)
  then show "child_keys tports cc' = filter_mset (\<lambda>k. \<not> key_has_addr addr k) (child_keys tports cc)"
    unfolding child_keys_def assms(3) by (intro image_mset_filter_key) simp
qed

lemma fold_pub_log [simp]:
  "pub_methods (fold (\<lambda>c. pub_log (ev c)) cs p) = pub_methods p"
  "pub_tports (fold (\<lambda>c. pub_log (ev c)) cs p) = pub_tports p"
  "pub_next (fold (\<lambda>c. pub_log (ev c)) cs p) = pub_next p"
  "pub_queue (fold (\<lambda>c. pub_log (ev c)) cs p) = pub_queue p"
  "pub_trace (fold (\<lambda>c. pub_log (ev c)) cs p) = pub_trace p @ map ev cs"
  by (induction cs arbitrary: p) (simp_all add: pub_log_def)

lemma host_removal_exact:
  assumes "pub_ok p"
  shows "pub_ok (cmsg_psd_update_impl_host_removal p addr)"
    "pub_subs (cmsg_psd_update_impl_host_removal p addr) =
       (\<lambda>m. filter_mset (\<lambda>k. \<not> key_has_addr addr k) (pub_subs p m))"
proof -
  let ?p' = "cmsg_psd_update_impl_host_removal p addr"
  let ?h = "\<lambda>cc. snd (remove_children_from_host (pub_tports p) addr cc)"
  obtain gone ms' where r: "remove_subscribers_from_host (pub_tports p) addr (pub_methods p) = (gone, ms')"
    by fastforce
  then have p': "pub_methods ?p' = ms'" "pub_tports ?p' = pub_tports p" "pub_next ?p' = pub_next p"
    by (simp_all add: cmsg_psd_update_impl_host_removal_def)
  have comp: "comp_is_composite cc" if "(m, cc) \<in> set (pub_methods p)" for m cc
    using pub_okD(2) [OF assms map_of_is_SomeI [OF pub_okD(1) [OF assms] that]] by (simp add: subscribers_ok_def)
  note res = remove_subscribers_from_host_result [OF pub_okD(1) [OF assms] comp r]
  have h: "subscribers_ok (pub_next p) (pub_tports p) (?h cc)"
    "child_keys (pub_tports p) (?h cc) = filter_mset (\<lambda>k. \<not> key_has_addr addr k) (child_keys (pub_tports p) cc)"
    if "map_of (pub_methods p) m = Some cc" for m cc
  proof -
    have ok: "subscribers_ok (pub_next p) (pub_tports p) cc" by (rule pub_okD(2) [OF assms that])
    then have "comp_is_composite cc" by (simp add: subscribers_ok_def)
    from remove_children_from_host_result [OF this, of "pub_tports p" addr]
    have "comp_is_composite (?h cc)"
      "comp_children (?h cc) = filter (\<lambda>c. \<not> tcp_child_at addr (pub_tports p c)) (comp_children cc)" by auto
    from filter_children_exact [OF ok this]
    show "subscribers_ok (pub_next p) (pub_tports p) (?h cc)"
      "child_keys (pub_tports p) (?h cc) = filter_mset (\<lambda>k. \<not> key_has_addr addr k) (child_keys (pub_tports p) cc)" .
  qed
  show "pub_ok ?p'"
  proof (rule pub_okI)
    show "distinct (map fst (pub_methods ?p'))" using res p' by simp
    fix m c assume "map_of (pub_methods ?p') m = Some c"
    then obtain cc where "map_of (pub_methods p) m = Some cc" "c = ?h cc"
      using res p' by (auto simp: Let_def bind_eq_Some_conv split: if_splits)
    then show "subscribers_ok (pub_next ?p') (pub_tports ?p') c" using h p' by simp
  qed
  show "pub_subs ?p' = (\<lambda>m. filter_mset (\<lambda>k. \<not> key_has_addr addr k) (pub_subs p m))"
  proof
    fix m
    show "pub_subs ?p' m = filter_mset (\<lambda>k. \<not> key_has_addr addr k) (pub_subs p m)"
    proof (cases "map_of (pub_methods p) m")
      case None
      then show ?thesis using res p' by (simp add: pub_subs_def)
    next
      case (Some cc)
      have "child_keys (pub_tports p) (?h cc) = {#}" if "comp_children (?h cc) = []"
        using that by (simp add: child_keys_def)
      with Some h(2) [OF Some] res p' show ?thesis by (auto simp: pub_subs_def Let_def)
    qed
  qed
qed

interpretation publisher: subscription_index pub_ok pub_subs pub_update
proof
  fix p u assume ok: "pub_ok p" and fits: "update_fits u (pub_subs p)"
  show "\<exists>p'. pub_update u p = Some p' \<and> pub_ok p' \<and> pub_subs p' = apply_update u (pub_subs p)"
  proof (cases u)
    case (Upd_change m info added)
    with fits ok add_subscriber_exact [of p info m] remove_subscriber_exact [of p info m] show ?thesis
      by (auto simp: pub_update_def cmsg_psd_update_impl_subscription_change_def)
  next
    case (Upd_host addr)
    with host_removal_exact [OF ok] show ?thesis by (simp add: pub_update_def)
  qed
qed

end
