(* ===== verification/PubSubProps.thy ===== *)
theory PubSubProps
  imports PublisherProps
begin

text \<open>
  What the publisher subscriber daemon promises: its store is a multiset of subscribers per
  service and method, and every publisher that got all its updates has the same one.
\<close>

section \<open>What a publisher heard\<close>

text \<open>The publisher behind the client \<open>c\<close>, after the messages of the trace that arrived.\<close>

fun hear :: "nat \<Rightarrow> psd_event \<Rightarrow> publisher option \<Rightarrow> publisher option" where
  "hear c (Psd_registered c' ms arrived) P =
     (if c' = c \<and> arrived then cmsg_publisher_init_subscribers ms new_publisher else P)"
| "hear c (Psd_change c' m info added arrived) P =
     (if c' = c \<and> arrived then Option.bind P (\<lambda>p. cmsg_psd_update_impl_subscription_change p m info added) else P)"
| "hear c (Psd_host_removal c' addr arrived) P =
     (if c' = c \<and> arrived then map_option (\<lambda>p. cmsg_psd_update_impl_host_removal p addr) P else P)"
| "hear c _ P = P"

definition publisher_at :: "nat \<Rightarrow> psd_event list \<Rightarrow> publisher option" where
  "publisher_at c tr = fold (hear c) tr None"

fun missed :: "nat \<Rightarrow> psd_event \<Rightarrow> bool" where
  "missed c (Psd_registered c' ms arrived) \<longleftrightarrow> c' = c \<and> \<not> arrived"
| "missed c (Psd_change c' m info added arrived) \<longleftrightarrow> c' = c \<and> \<not> arrived"
| "missed c (Psd_host_removal c' addr arrived) \<longleftrightarrow> c' = c \<and> \<not> arrived"
| "missed c _ \<longleftrightarrow> False"

definition all_arrived :: "nat \<Rightarrow> psd_event list \<Rightarrow> bool" where
  "all_arrived c tr \<longleftrightarrow> (\<forall>ev \<in> set tr. \<not> missed c ev)"

definition knows :: "nat \<Rightarrow> ps_subs \<Rightarrow> psd_event list \<Rightarrow> bool" where
  "knows c S tr \<longleftrightarrow> (all_arrived c tr \<longrightarrow> (\<exists>p. publisher_at c tr = Some p \<and> pub_ok p \<and> pub_subs p = S))"

lemma publisher_at_snoc [simp]: "publisher_at c (tr @ [ev]) = hear c ev (publisher_at c tr)"
  by (simp add: publisher_at_def)

lemma all_arrived_snoc [simp]: "all_arrived c (tr @ [ev]) \<longleftrightarrow> all_arrived c tr \<and> \<not> missed c ev"
  by (auto simp: all_arrived_def)

text \<open>Events that are not for the publisher leave it as it is.\<close>

definition unheard :: "nat \<Rightarrow> psd_event \<Rightarrow> bool" where
  "unheard c ev \<longleftrightarrow> (\<forall>P. hear c ev P = P) \<and> \<not> missed c ev"

lemma knows_unheard [simp]: "unheard c ev \<Longrightarrow> knows c S (tr @ [ev]) \<longleftrightarrow> knows c S tr"
  by (simp add: knows_def unheard_def)

lemma unheard_others [simp]:
  "unheard c (Psd_bulk_sync c' infos a)" "unheard c (Psd_sync c' info added a)"
  "unheard c (Psd_destroy_client c')" "unheard c (Psd_listen s)" "unheard c (Psd_unlisten s)"
  "c' \<noteq> c \<Longrightarrow> unheard c (Psd_registered c' ms a)"
  "c' \<noteq> c \<Longrightarrow> unheard c (Psd_change c' m t added a)"
  "c' \<noteq> c \<Longrightarrow> unheard c (Psd_host_removal c' addr a)"
  by (simp_all add: unheard_def)

text \<open>The event that carries an update, and what hearing it does.\<close>

fun update_event :: "ps_update \<Rightarrow> nat \<Rightarrow> bool \<Rightarrow> psd_event" where
  "update_event (Upd_change m info added) c arrived = Psd_change c m info added arrived"
| "update_event (Upd_host addr) c arrived = Psd_host_removal c addr arrived"

lemma update_event_other [simp]: "c' \<noteq> c \<Longrightarrow> unheard c (update_event u c' arrived)"
  by (cases u) simp_all

lemma hear_update: "hear c (update_event u c True) P = Option.bind P (pub_update u)"
  by (cases u; cases P) (simp_all add: pub_update_def)

lemma missed_update: "missed c (update_event u c arrived) \<longleftrightarrow> \<not> arrived"
  by (cases u) simp_all

lemma knows_update:
  assumes "knows c S tr" "update_fits u S"
  shows "knows c (apply_update u S) (tr @ [update_event u c arrived])"
proof (cases arrived)
  case True
  with assms publisher.update_step [of _ u] show ?thesis
    by (auto simp: knows_def hear_update missed_update)
qed (simp add: knows_def missed_update)

section \<open>Telling all publishers of a service\<close>

definition tell_all :: "psd_env \<Rightarrow> ps_update \<Rightarrow> nat list \<Rightarrow> psd_state \<Rightarrow> psd_state" where
  "tell_all env u cs st = fold (\<lambda>c st. ps_log (update_event u c (delivered env (ps_trace st) c)) st) cs st"

lemma update_publishers_tell_all:
  "update_publishers_with_method_change env cc m info added st =
     tell_all env (Upd_change m info added) (comp_children cc) st"
  "update_publishers_with_host_removal env cc addr st = tell_all env (Upd_host addr) (comp_children cc) st"
  by (simp_all add: update_publishers_with_method_change_def update_publishers_with_host_removal_def tell_all_def)

lemma ps_log_fields [simp]:
  "ps_table (ps_log ev st) = ps_table st" "ps_remote (ps_log ev st) = ps_remote st"
  "ps_tports (ps_log ev st) = ps_tports st" "ps_sync_server (ps_log ev st) = ps_sync_server st"
  "ps_listening (ps_log ev st) = ps_listening st" "ps_local_ip (ps_log ev st) = ps_local_ip st"
  "ps_sync_clients (ps_log ev st) = ps_sync_clients st" "ps_next (ps_log ev st) = ps_next st"
  "ps_trace (ps_log ev st) = ps_trace st @ [ev]"
  by (simp_all add: ps_log_def)

text \<open>A step that only adds to the trace.\<close>

definition same_store :: "psd_state \<Rightarrow> psd_state \<Rightarrow> bool" where
  "same_store st st' \<longleftrightarrow> (\<exists>evs. st' = st\<lparr>ps_trace := ps_trace st @ evs\<rparr>)"

lemma same_store_refl [simp]: "same_store st st"
  by (auto simp: same_store_def intro: exI [of _ "[]"])

lemma same_store_log: "same_store st st' \<Longrightarrow> same_store st (ps_log ev st')"
  by (auto simp: same_store_def ps_log_def)

lemma same_storeD:
  assumes "same_store st st'"
  shows "ps_table st' = ps_table st" "ps_remote st' = ps_remote st" "ps_tports st' = ps_tports st"
    "ps_sync_server st' = ps_sync_server st" "ps_sync_clients st' = ps_sync_clients st" "ps_next st' = ps_next st"
  using assms by (auto simp: same_store_def)

lemma same_store_trans:
  assumes "same_store st st'" "same_store st' st''"
  shows "same_store st st''"
  using assms by (auto simp: same_store_def)

lemma tell_all_store: "same_store st (tell_all env u cs st)"
proof (induction cs arbitrary: st)
  case (Cons c cs)
  from Cons.IH [of "ps_log (update_event u c (delivered env (ps_trace st) c)) st"] show ?case
    using same_store_trans same_store_log [OF same_store_refl] by (fastforce simp: tell_all_def)
qed (simp add: tell_all_def)

lemma tell_all_other: "c \<notin> set cs \<Longrightarrow> knows c S (ps_trace (tell_all env u cs st)) \<longleftrightarrow> knows c S (ps_trace st)"
proof (induction cs arbitrary: st)
  case (Cons c' cs)
  then have "c' \<noteq> c" "c \<notin> set cs" by auto
  with Cons.IH [of "ps_log (update_event u c' (delivered env (ps_trace st) c')) st"] show ?case
    by (simp add: tell_all_def)
qed (simp add: tell_all_def)

lemma tell_all_told:
  assumes "distinct cs" "c \<in> set cs" "knows c S (ps_trace st)" "update_fits u S"
  shows "knows c (apply_update u S) (ps_trace (tell_all env u cs st))"
  using assms
proof (induction cs arbitrary: st)
  case (Cons c' cs)
  let ?st = "ps_log (update_event u c' (delivered env (ps_trace st) c')) st"
  have tell: "tell_all env u (c' # cs) st = tell_all env u cs ?st" by (simp add: tell_all_def)
  show ?case
  proof (cases "c' = c")
    case True
    then have "knows c (apply_update u S) (ps_trace ?st)" using Cons.prems knows_update by simp
    moreover have "c \<notin> set cs" using True Cons.prems(1) by simp
    ultimately show ?thesis unfolding tell by (simp add: tell_all_other)
  next
    case False
    with Cons.prems have "knows c S (ps_trace ?st)" by simp
    with False Cons.IH [of ?st] Cons.prems show ?thesis by (simp add: tell)
  qed
qed simp

section \<open>The methods of an entry\<close>

definition subs_of :: "method_entries \<Rightarrow> ps_subs" where
  "subs_of ms m = (case map_of ms m of None \<Rightarrow> {#} | Some ts \<Rightarrow> image_mset info_key (mset ts))"

definition methods_ok :: "method_entries \<Rightarrow> bool" where
  "methods_ok ms \<longleftrightarrow> distinct (map fst ms) \<and> (\<forall>(m, ts) \<in> set ms. ts \<noteq> [] \<and> (\<forall>t \<in> set ts. info_ok t))"

lemma methods_okD:
  assumes "methods_ok ms"
  shows "distinct (map fst ms)" "map_of ms m = Some ts \<Longrightarrow> ts \<noteq> []"
    "map_of ms m = Some ts \<Longrightarrow> t \<in> set ts \<Longrightarrow> info_ok t"
  using assms unfolding methods_ok_def by (blast dest: map_of_SomeD)+

lemma methods_okI:
  assumes "distinct (map fst ms)"
    and "\<And>m ts. map_of ms m = Some ts \<Longrightarrow> ts \<noteq> [] \<and> (\<forall>t \<in> set ts. info_ok t)"
  shows "methods_ok ms"
  unfolding methods_ok_def using assms map_of_is_SomeI [OF assms(1)] by blast

lemma subs_of_Nil [simp]: "subs_of [] = (\<lambda>_. {#})"
  by (simp add: subs_of_def fun_eq_iff)

lemma subs_of_Cons:
  "m \<notin> set (map fst ms) \<Longrightarrow> subs_of ((m, ts) # ms) = (subs_of ms)(m := image_mset info_key (mset ts))"
  by (auto simp: subs_of_def fun_eq_iff)

text \<open>A registered publisher starts with the subscriptions of its service.\<close>

lemma add_subscribers_exact:
  "pub_ok p \<Longrightarrow> \<forall>t \<in> set ts. info_ok t \<Longrightarrow>
    \<exists>p'. add_subscribers m ts p = Some p' \<and> pub_ok p' \<and>
      pub_subs p' = (pub_subs p)(m := pub_subs p m + image_mset info_key (mset ts))"
proof (induction ts arbitrary: p)
  case (Cons t ts)
  then have "info_ok t" by simp
  with add_subscriber_exact [OF Cons.prems(1)] obtain p1 where p1:
    "cmsg_publisher_add_subscriber p m t = Some p1" "pub_ok p1"
    "pub_subs p1 = (pub_subs p)(m := add_mset (info_key t) (pub_subs p m))" by blast
  have "\<forall>t \<in> set ts. info_ok t" using Cons.prems(2) by simp
  from Cons.IH [OF p1(2) this] obtain p2 where
    "add_subscribers m ts p1 = Some p2" "pub_ok p2"
    "pub_subs p2 = (pub_subs p1)(m := pub_subs p1 m + image_mset info_key (mset ts))" by blast
  with p1 show ?case by auto
qed simp

lemma init_subscribers_exact:
  "pub_ok p \<Longrightarrow> methods_ok ms \<Longrightarrow> (\<And>m. m \<in> set (map fst ms) \<Longrightarrow> pub_subs p m = {#}) \<Longrightarrow>
    \<exists>p'. cmsg_publisher_init_subscribers ms p = Some p' \<and> pub_ok p' \<and>
      pub_subs p' = (\<lambda>m. if m \<in> set (map fst ms) then subs_of ms m else pub_subs p m)"
proof (induction ms arbitrary: p)
  case (Cons e ms)
  obtain m ts where e: "e = (m, ts)" by fastforce
  from Cons.prems(2) have ts: "\<forall>t \<in> set ts. info_ok t" "methods_ok ms" "m \<notin> set (map fst ms)"
    by (simp_all add: methods_ok_def e)
  from add_subscribers_exact [OF Cons.prems(1) ts(1), of m] Cons.prems(3) [of m] e obtain p1 where p1:
    "add_subscribers m ts p = Some p1" "pub_ok p1"
    "pub_subs p1 = (pub_subs p)(m := image_mset info_key (mset ts))" by auto
  have "pub_subs p1 m' = {#}" if "m' \<in> set (map fst ms)" for m'
    using that ts(3) p1(3) Cons.prems(3) [of m'] e by auto
  from Cons.IH [OF p1(2) ts(2) this] obtain p2 where p2:
    "cmsg_publisher_init_subscribers ms p1 = Some p2" "pub_ok p2"
    "pub_subs p2 = (\<lambda>m. if m \<in> set (map fst ms) then subs_of ms m else pub_subs p1 m)" by blast
  then show ?case using p1 e ts(3) subs_of_Cons [OF ts(3), of ts] by (auto simp: fun_eq_iff)
qed simp

lemma new_publisher_ok: "pub_ok new_publisher" "pub_subs new_publisher = (\<lambda>_. {#})"
  by (simp_all add: pub_ok_def new_publisher_def pub_subs_def fun_eq_iff)

lemma knows_registered:
  assumes "methods_ok ms"
  shows "knows c (subs_of ms) (tr @ [Psd_registered c ms arrived])"
proof -
  have "\<exists>p'. cmsg_publisher_init_subscribers ms new_publisher = Some p' \<and> pub_ok p' \<and>
      pub_subs p' = (\<lambda>m. if m \<in> set (map fst ms) then subs_of ms m else pub_subs new_publisher m)"
    by (rule init_subscribers_exact) (use assms new_publisher_ok in auto)
  moreover have "(\<lambda>m. if m \<in> set (map fst ms) then subs_of ms m else pub_subs new_publisher m) = subs_of ms"
    by (auto simp: fun_eq_iff subs_of_def new_publisher_ok map_of_eq_None_iff [THEN iffD2])
  ultimately show ?thesis by (auto simp: knows_def)
qed

end
