(* ===== verification/PubSubInv.thy ===== *)
theory PubSubInv
  imports PubSubProps
begin

text \<open>
  The invariant of the publisher subscriber daemon, and the operations on single services: each
  carries out its update of the abstract store, and every publisher keeps up.
\<close>

section \<open>The invariant\<close>

abbreviation publishers_of :: "ps_service_entry \<Rightarrow> nat list" where
  "publishers_of e \<equiv> comp_children (ps_comp_client e)"

definition entry_fine :: "nat \<Rightarrow> ps_service_entry \<Rightarrow> bool" where
  "entry_fine n e \<longleftrightarrow> methods_ok (ps_methods e) \<and> comp_is_composite (ps_comp_client e) \<and>
     distinct (publishers_of e) \<and> (\<forall>c \<in> set (publishers_of e). c < n)"

definition psd_subs :: "psd_state \<Rightarrow> string \<Rightarrow> ps_subs" where
  "psd_subs st service = (case map_of (ps_table st) service of None \<Rightarrow> \<lambda>_. {#} | Some e \<Rightarrow> subs_of (ps_methods e))"

text \<open>Entries are well-formed, no publisher is in two of them, and each knows its subscribers.\<close>

definition psd_inv :: "psd_state \<Rightarrow> bool" where
  "psd_inv st \<longleftrightarrow> distinct (map fst (ps_table st)) \<and>
     (\<forall>k e. map_of (ps_table st) k = Some e \<longrightarrow> entry_fine (ps_next st) e \<and>
        (\<forall>c \<in> set (publishers_of e). knows c (subs_of (ps_methods e)) (ps_trace st) \<and>
           (\<forall>k' e'. map_of (ps_table st) k' = Some e' \<longrightarrow> c \<in> set (publishers_of e') \<longrightarrow> k' = k))) \<and>
     (\<forall>info \<in> set (ps_remote st). info_ok (sub_transport info))"

lemma psd_invI:
  assumes "distinct (map fst (ps_table st))"
    and "\<And>k e. map_of (ps_table st) k = Some e \<Longrightarrow> entry_fine (ps_next st) e"
    and "\<And>k e c. map_of (ps_table st) k = Some e \<Longrightarrow> c \<in> set (publishers_of e) \<Longrightarrow>
      knows c (subs_of (ps_methods e)) (ps_trace st)"
    and "\<And>k e k' e' c. map_of (ps_table st) k = Some e \<Longrightarrow> map_of (ps_table st) k' = Some e' \<Longrightarrow>
      c \<in> set (publishers_of e) \<Longrightarrow> c \<in> set (publishers_of e') \<Longrightarrow> k' = k"
    and "\<forall>info \<in> set (ps_remote st). info_ok (sub_transport info)"
  shows "psd_inv st"
  unfolding psd_inv_def using assms by blast

lemma psd_invD:
  assumes "psd_inv st"
  shows "distinct (map fst (ps_table st))"
    and "map_of (ps_table st) k = Some e \<Longrightarrow> entry_fine (ps_next st) e"
    and "map_of (ps_table st) k = Some e \<Longrightarrow> c \<in> set (publishers_of e) \<Longrightarrow>
      knows c (subs_of (ps_methods e)) (ps_trace st)"
    and "map_of (ps_table st) k = Some e \<Longrightarrow> map_of (ps_table st) k' = Some e' \<Longrightarrow>
      c \<in> set (publishers_of e) \<Longrightarrow> c \<in> set (publishers_of e') \<Longrightarrow> k' = k"
    and "\<forall>info \<in> set (ps_remote st). info_ok (sub_transport info)"
  using assms unfolding psd_inv_def by blast+

lemma entry_fineD:
  assumes "entry_fine n e"
  shows "methods_ok (ps_methods e)" "comp_is_composite (ps_comp_client e)" "distinct (publishers_of e)"
    "c \<in> set (publishers_of e) \<Longrightarrow> c < n"
  using assms unfolding entry_fine_def by blast+

lemma entry_fine_mono: "entry_fine n e \<Longrightarrow> n \<le> n' \<Longrightarrow> entry_fine n' e"
  unfolding entry_fine_def by (meson order_less_le_trans)

lemma psd_subs_Some: "map_of (ps_table st) k = Some e \<Longrightarrow> psd_subs st k = subs_of (ps_methods e)"
  by (simp add: psd_subs_def)

lemma psd_subs_update:
  "ps_table st' = AList.update k e' (ps_table st) \<Longrightarrow> psd_subs st' = (psd_subs st)(k := subs_of (ps_methods e'))"
  by (auto simp: psd_subs_def update_conv fun_eq_iff)

text \<open>Another entry for a service, after a step that only the publishers of it hear.\<close>

lemma psd_inv_put:
  assumes inv: "psd_inv st" and e: "map_of (ps_table st) k = Some e"
    and tbl: "ps_table st' = AList.update k e' (ps_table st)" "ps_next st \<le> ps_next st'" "ps_remote st' = ps_remote st"
    and e': "entry_fine (ps_next st') e'"
    and old: "\<And>c. c \<in> set (publishers_of e') \<Longrightarrow> c \<in> set (publishers_of e) \<or> ps_next st \<le> c"
    and told: "\<And>c. c \<in> set (publishers_of e') \<Longrightarrow> knows c (subs_of (ps_methods e')) (ps_trace st')"
    and others: "\<And>c S. c \<notin> set (publishers_of e) \<Longrightarrow> c < ps_next st \<Longrightarrow> knows c S (ps_trace st) \<Longrightarrow> knows c S (ps_trace st')"
  shows "psd_inv st'"
proof (rule psd_invI)
  have look: "map_of (ps_table st') k1 = Some e1 \<longleftrightarrow> (if k1 = k then e1 = e' else map_of (ps_table st) k1 = Some e1)"
    for k1 e1 by (auto simp: tbl(1) update_conv)
  have other: "c \<notin> set (publishers_of e)" if "map_of (ps_table st) k1 = Some e1" "k1 \<noteq> k" "c \<in> set (publishers_of e1)" for k1 e1 c
    using psd_invD(4) [OF inv that(1) e that(3)] that(2) by blast
  have old_less: "c < ps_next st" if "map_of (ps_table st) k1 = Some e1" "c \<in> set (publishers_of e1)" for k1 e1 c
    using entry_fineD(4) [OF psd_invD(2) [OF inv that(1)] that(2)] .
  show "distinct (map fst (ps_table st'))" using psd_invD(1) [OF inv] by (simp add: tbl(1) distinct_update)
  show "entry_fine (ps_next st') e1" if "map_of (ps_table st') k1 = Some e1" for k1 e1
  proof (cases "k1 = k")
    case False
    with that look have "map_of (ps_table st) k1 = Some e1" by simp
    from entry_fine_mono [OF psd_invD(2) [OF inv this] tbl(2)] show ?thesis .
  qed (use that e' look in simp)
  show "knows c (subs_of (ps_methods e1)) (ps_trace st')"
    if "map_of (ps_table st') k1 = Some e1" "c \<in> set (publishers_of e1)" for k1 e1 c
  proof (cases "k1 = k")
    case False
    with that look have "map_of (ps_table st) k1 = Some e1" by simp
    from others [OF other [OF this False that(2)] old_less [OF this that(2)] psd_invD(3) [OF inv this that(2)]]
    show ?thesis .
  qed (use that told look in simp)
  have apart: False if "map_of (ps_table st) k2 = Some e2" "k2 \<noteq> k" "c \<in> set (publishers_of e2)" "c \<in> set (publishers_of e')" for k2 e2 c
    using old [OF that(4)] other [OF that(1,2,3)] old_less [OF that(1,3)] by simp
  show "k2 = k1" if "map_of (ps_table st') k1 = Some e1" "map_of (ps_table st') k2 = Some e2"
    "c \<in> set (publishers_of e1)" "c \<in> set (publishers_of e2)" for k1 e1 k2 e2 c
    using that apart psd_invD(4) [OF inv] unfolding look by (cases "k1 = k"; cases "k2 = k") auto
  show "\<forall>info \<in> set (ps_remote st'). info_ok (sub_transport info)" using psd_invD(5) [OF inv] by (simp add: tbl(3))
qed

text \<open>A step that no publisher hears, and one that drops entries.\<close>

lemma psd_inv_same:
  assumes inv: "psd_inv st"
    and tbl: "\<And>k e. map_of (ps_table st') k = Some e \<Longrightarrow> map_of (ps_table st) k = Some e"
      "distinct (map fst (ps_table st'))" "ps_next st \<le> ps_next st'"
    and remote: "\<forall>info \<in> set (ps_remote st'). info_ok (sub_transport info)"
    and quiet: "\<And>c S. knows c S (ps_trace st) \<Longrightarrow> knows c S (ps_trace st')"
  shows "psd_inv st'"
proof (rule psd_invI)
  show "entry_fine (ps_next st') e" if "map_of (ps_table st') k = Some e" for k e
    by (rule entry_fine_mono [OF psd_invD(2) [OF inv tbl(1) [OF that]] tbl(3)])
  show "knows c (subs_of (ps_methods e)) (ps_trace st')"
    if "map_of (ps_table st') k = Some e" "c \<in> set (publishers_of e)" for k e c
    by (rule quiet [OF psd_invD(3) [OF inv tbl(1) [OF that(1)] that(2)]])
  show "k' = k" if "map_of (ps_table st') k = Some e" "map_of (ps_table st') k' = Some e'"
    "c \<in> set (publishers_of e)" "c \<in> set (publishers_of e')" for k e k' e' c
    by (rule psd_invD(4) [OF inv tbl(1) [OF that(1)] tbl(1) [OF that(2)] that(3,4)])
qed (fact tbl(2) remote)+

section \<open>Entries come and go\<close>

lemma get_service_entry_exact:
  assumes "psd_inv st"
  shows "\<exists>e st1. ps_get_service_entry_or_create env k True st = (Some e, st1) \<and> psd_inv st1 \<and>
    map_of (ps_table st1) k = Some e \<and> psd_subs st1 = psd_subs st \<and> ps_next st1 = ps_next st \<and>
    ps_remote st1 = ps_remote st \<and> ps_tports st1 = ps_tports st"
proof (cases "map_of (ps_table st) k")
  case (Some e)
  with assms show ?thesis by (simp add: ps_get_service_entry_or_create_def)
next
  case None
  let ?l = "listen_ok env (ps_trace st) k"
  let ?e = "\<lparr>ps_methods = [], ps_comp_client = cmsg_composite_client_init, ps_sl_info = ?l\<rparr>"
  let ?st = "if ?l then ps_log (Psd_listen k) st else st"
  let ?st1 = "?st\<lparr>ps_table := AList.update k ?e (ps_table st)\<rparr>"
  have get: "ps_get_service_entry_or_create env k True st = (Some ?e, ?st1)"
    using None by (simp add: ps_get_service_entry_or_create_def Let_def)
  have quiet: "knows c S (ps_trace ?st1) \<longleftrightarrow> knows c S (ps_trace st)" for c S by simp
  have look: "map_of (ps_table ?st1) k1 = Some e1 \<longleftrightarrow> (if k1 = k then e1 = ?e else map_of (ps_table st) k1 = Some e1)"
    for k1 e1 by (auto simp: update_conv)
  have no: "publishers_of ?e = []" by (simp add: cmsg_composite_client_init_def)
  have "psd_inv ?st1"
  proof (rule psd_invI)
    show "distinct (map fst (ps_table ?st1))" using psd_invD(1) [OF assms] by (simp add: distinct_update)
    show "entry_fine (ps_next ?st1) e1" if "map_of (ps_table ?st1) k1 = Some e1" for k1 e1
      using that psd_invD(2) [OF assms, of k1 e1] unfolding look
      by (cases "k1 = k") (auto simp: entry_fine_def methods_ok_def cmsg_composite_client_init_def)
    show "knows c (subs_of (ps_methods e1)) (ps_trace ?st1)"
      if "map_of (ps_table ?st1) k1 = Some e1" "c \<in> set (publishers_of e1)" for k1 e1 c
      using that no psd_invD(3) [OF assms, of k1 e1 c] unfolding look quiet by (auto split: if_splits)
    show "k2 = k1" if "map_of (ps_table ?st1) k1 = Some e1" "map_of (ps_table ?st1) k2 = Some e2"
      "c \<in> set (publishers_of e1)" "c \<in> set (publishers_of e2)" for k1 e1 k2 e2 c
      using that no psd_invD(4) [OF assms] unfolding look by (auto split: if_splits)
    show "\<forall>info \<in> set (ps_remote ?st1). info_ok (sub_transport info)" using psd_invD(5) [OF assms] by simp
  qed
  moreover have "psd_subs ?st1 = psd_subs st"
    using None by (auto simp: psd_subs_def update_conv fun_eq_iff)
  ultimately show ?thesis using get by (simp add: update_conv)
qed

lemma entry_free_store: "same_store st (ps_service_entry_free k e st)"
proof -
  have "same_store st (fold (\<lambda>c. ps_log (Psd_destroy_client c)) cs st)" for cs :: "nat list" and st
  proof (induction cs arbitrary: st)
    case (Cons c cs)
    from same_store_trans [OF same_store_log [OF same_store_refl] Cons.IH [of "ps_log (Psd_destroy_client c) st"]]
    show ?case by simp
  qed simp
  then show ?thesis
    by (auto simp: ps_service_entry_free_def Let_def intro: same_store_trans [OF same_store_log [OF same_store_refl]])
qed

lemma entry_free_knows [simp]: "knows c S (ps_trace (ps_service_entry_free k e st)) \<longleftrightarrow> knows c S (ps_trace st)"
proof -
  have "knows c S (ps_trace (fold (\<lambda>c. ps_log (Psd_destroy_client c)) cs st)) \<longleftrightarrow> knows c S (ps_trace st)"
    for cs :: "nat list" and st
    by (induction cs arbitrary: st) simp_all
  then show ?thesis by (simp add: ps_service_entry_free_def Let_def)
qed

lemma remove_service_exact:
  assumes "psd_inv st"
  shows "psd_inv (ps_remove_service k st)" "psd_subs (ps_remove_service k st) = (psd_subs st)(k := \<lambda>_. {#})"
    "ps_remote (ps_remove_service k st) = ps_remote st"
proof -
  let ?d = "st\<lparr>ps_table := AList.delete k (ps_table st)\<rparr>"
  have r: "ps_table (ps_remove_service k st) = AList.delete k (ps_table st) \<and> ps_next (ps_remove_service k st) = ps_next st \<and>
    ps_remote (ps_remove_service k st) = ps_remote st \<and>
    (\<forall>c S. knows c S (ps_trace (ps_remove_service k st)) \<longleftrightarrow> knows c S (ps_trace st))"
  proof (cases "map_of (ps_table st) k")
    case None
    then have "AList.delete k (ps_table st) = ps_table st"
      by (simp add: map_of_eq_None_iff delete_id)
    with None show ?thesis by (simp add: ps_remove_service_def)
  next
    case (Some e)
    with same_storeD [OF entry_free_store, of k e ?d] show ?thesis by (simp add: ps_remove_service_def)
  qed
  show "psd_inv (ps_remove_service k st)"
    by (rule psd_inv_same [OF assms])
      (use r psd_invD(1,5) [OF assms] in \<open>auto simp: delete_conv distinct_delete split: if_splits\<close>)
  show "psd_subs (ps_remove_service k st) = (psd_subs st)(k := \<lambda>_. {#})"
    using r by (auto simp: psd_subs_def delete_conv fun_eq_iff)
  show "ps_remote (ps_remove_service k st) = ps_remote st" using r by simp
qed

section \<open>Adding a subscription\<close>

lemma info_copy_ok: "info_ok info \<Longrightarrow> cmsg_transport_info_copy info = Some (Some info)"
  by (simp add: cmsg_transport_info_copy_def info_to_transport_ok info_create_of_info)

lemma methods_add:
  assumes "methods_ok ms" "info_ok info" "get_method_entry_or_create m True ms = (Some ts, ms')"
  shows "methods_ok (AList.update m (info # ts) ms')"
    "subs_of (AList.update m (info # ts) ms') = apply_update (Upd_change m info True) (subs_of ms)"
proof -
  have g: "map_of (AList.update m x ms') = (map_of ms)(m \<mapsto> x)" "distinct (map fst ms')"
    "ts = [] \<and> map_of ms m = None \<or> map_of ms m = Some ts" for x
    using assms(3) methods_okD(1) [OF assms(1)]
    by (auto simp: get_method_entry_or_create_def update_conv map_of_eq_None_iff fun_eq_iff split: option.splits)
  have old: "\<forall>t \<in> set ts. info_ok t"
    using g(3) methods_okD(3) [OF assms(1), of m ts] by auto
  show "methods_ok (AList.update m (info # ts) ms')"
  proof (rule methods_okI)
    show "distinct (map fst (AList.update m (info # ts) ms'))" using g(2) by (rule distinct_update)
    fix m' ts' assume "map_of (AList.update m (info # ts) ms') m' = Some ts'"
    then show "ts' \<noteq> [] \<and> (\<forall>t \<in> set ts'. info_ok t)"
      using old assms(2) methods_okD(2,3) [OF assms(1), of m' ts'] by (auto simp: g(1) split: if_splits)
  qed
  show "subs_of (AList.update m (info # ts) ms') = apply_update (Upd_change m info True) (subs_of ms)"
    using g(3) by (auto simp: subs_of_def g(1) fun_eq_iff split: option.split)
qed

text \<open>One entry with an update that its publishers were told: the whole store has the update.\<close>

lemma psd_update_entry:
  assumes inv: "psd_inv st" and e: "map_of (ps_table st) k = Some e"
    and ms: "methods_ok ms" "subs_of ms = apply_update u (subs_of (ps_methods e))"
    and fits: "update_fits u (subs_of (ps_methods e))"
    and st': "st' = tell_all env u (publishers_of e) (ps_put_entry k (e\<lparr>ps_methods := ms\<rparr>) st)"
  shows "psd_inv st'" "psd_subs st' = (psd_subs st)(k := apply_update u (psd_subs st k))"
    "ps_remote st' = ps_remote st" "map_of (ps_table st') k = Some (e\<lparr>ps_methods := ms\<rparr>)"
proof -
  let ?e' = "e\<lparr>ps_methods := ms\<rparr>" and ?put = "ps_put_entry k (e\<lparr>ps_methods := ms\<rparr>) st"
  note same = same_storeD [OF tell_all_store, of env u "publishers_of e" ?put]
  have put: "ps_table ?put = AList.update k ?e' (ps_table st)" "ps_next ?put = ps_next st"
    "ps_remote ?put = ps_remote st" "ps_trace ?put = ps_trace st"
    by (simp_all add: ps_put_entry_def)
  have tbl: "ps_table st' = AList.update k ?e' (ps_table st)" "ps_next st' = ps_next st" "ps_remote st' = ps_remote st"
    using same put by (simp_all add: st')
  have fine: "entry_fine (ps_next st) e" by (rule psd_invD(2) [OF inv e])
  show "psd_inv st'"
  proof (rule psd_inv_put [OF inv e tbl(1) _ tbl(3)])
    show "entry_fine (ps_next st') ?e'" using fine ms(1) by (simp add: entry_fine_def tbl(2))
    fix c assume "c \<in> set (publishers_of ?e')"
    then have c: "c \<in> set (publishers_of e)" by simp
    then show "c \<in> set (publishers_of e) \<or> ps_next st \<le> c" by simp
    have "knows c (subs_of (ps_methods e)) (ps_trace ?put)"
      using psd_invD(3) [OF inv e c] by (simp add: put)
    from tell_all_told [OF entry_fineD(3) [OF fine] c this fits]
    show "knows c (subs_of (ps_methods ?e')) (ps_trace st')" by (simp add: st' ms(2))
  next
    fix c S assume "c \<notin> set (publishers_of e)" "knows c S (ps_trace st)"
    then show "knows c S (ps_trace st')" by (simp add: st' tell_all_other put)
  qed (simp add: tbl)
  show "psd_subs st' = (psd_subs st)(k := apply_update u (psd_subs st k))"
    using psd_subs_update [of st' k ?e' st] ms(2) e by (simp add: tbl psd_subs_Some)
  show "ps_remote st' = ps_remote st" "map_of (ps_table st') k = Some ?e'"
    by (simp_all add: tbl update_conv)
qed

lemma add_local_exact:
  assumes "psd_inv st" "info_ok (sub_transport info)"
  shows "\<exists>st'. data_add_local_subscription env info st = Some st' \<and> psd_inv st' \<and> ps_remote st' = ps_remote st \<and>
    psd_subs st' = (psd_subs st)(sub_service info :=
      apply_update (Upd_change (sub_method info) (sub_transport info) True) (psd_subs st (sub_service info)))"
proof -
  let ?k = "sub_service info" and ?m = "sub_method info" and ?i = "sub_transport info"
  obtain e st1 where g: "ps_get_service_entry_or_create env ?k True st = (Some e, st1)" "psd_inv st1"
    "map_of (ps_table st1) ?k = Some e" "psd_subs st1 = psd_subs st" "ps_remote st1 = ps_remote st"
    using get_service_entry_exact [OF assms(1)] by blast
  obtain ts ms where m: "get_method_entry_or_create ?m True (ps_methods e) = (Some ts, ms)"
    by (cases "map_of (ps_methods e) ?m") (simp_all add: get_method_entry_or_create_def)
  have ok: "methods_ok (ps_methods e)" by (rule entry_fineD(1) [OF psd_invD(2) [OF g(2,3)]])
  let ?st' = "tell_all env (Upd_change ?m ?i True) (publishers_of e)
    (ps_put_entry ?k (e\<lparr>ps_methods := AList.update ?m (?i # ts) ms\<rparr>) st1)"
  have "data_add_local_subscription env info st = Some ?st'"
    using g(1) m info_copy_ok [OF assms(2)]
    by (simp add: data_add_local_subscription_def Let_def update_publishers_tell_all)
  moreover note psd_update_entry [OF g(2,3) methods_add [OF ok assms(2) m] _ refl, of env]
  ultimately show ?thesis using assms(2) g(4,5) by simp
qed

section \<open>Removing a subscription\<close>

lemma find_transport:
  assumes "\<forall>t \<in> set ts. info_ok t" "info_ok info"
  shows "list_find (\<lambda>t. cmsg_transport_info_compare t info) ts = Some (List.find (\<lambda>t. info_key t = info_key info) ts)"
  by (rule list_find_total) (use assms info_compare_key in blast)

text \<open>A transport goes and the publishers are told, or there was none and nothing happens.\<close>

lemma remove_transport_cases:
  assumes "\<forall>t \<in> set ts. info_ok t" "info_ok info"
  obtains (gone) ts' where "data_remove_transport_from_method env cc m info ts st =
      Some (ts', tell_all env (Upd_change m info False) (comp_children cc) st)"
      "info_key info \<in># image_mset info_key (mset ts)" "set ts' \<subseteq> set ts"
      "image_mset info_key (mset ts') = image_mset info_key (mset ts) - {#info_key info#}"
  | (none) "data_remove_transport_from_method env cc m info ts st = Some (ts, st)"
      "info_key info \<notin># image_mset info_key (mset ts)"
proof (cases "List.find (\<lambda>t. info_key t = info_key info) ts")
  case None
  then have "info_key info \<notin># image_mset info_key (mset ts)" by (auto simp: find_None_iff)
  moreover have "data_remove_transport_from_method env cc m info ts st = Some (ts, st)"
    using find_transport [OF assms] None by (simp add: data_remove_transport_from_method_def)
  ultimately show ?thesis using none by blast
next
  case (Some t)
  have t: "t \<in> set ts" "info_key t = info_key info" using find_SomeD [OF Some] by auto
  have "data_remove_transport_from_method env cc m info ts st =
      Some (remove1 t ts, tell_all env (Upd_change m info False) (comp_children cc) st)"
    using find_transport [OF assms] Some
    by (simp add: data_remove_transport_from_method_def update_publishers_tell_all)
  moreover have "info_key info \<in># image_mset info_key (mset ts)"
    using t by (metis image_eqI set_image_mset set_mset_mset)
  moreover have "image_mset info_key (mset (remove1 t ts)) = image_mset info_key (mset ts) - {#info_key info#}"
    using image_mset_remove1 [OF t(1), of info_key] t(2) by simp
  ultimately show ?thesis using gone set_remove1_subset by metis
qed

lemma methods_put:
  assumes "methods_ok ms" "map_of ms m = Some ts" "\<forall>t \<in> set ts'. info_ok t"
  shows "methods_ok (if ts' = [] then AList.delete m ms else AList.update m ts' ms)"
    "subs_of (if ts' = [] then AList.delete m ms else AList.update m ts' ms) =
       (subs_of ms)(m := image_mset info_key (mset ts'))"
proof -
  have d: "distinct (map fst ms)" by (rule methods_okD(1) [OF assms(1)])
  show "methods_ok (if ts' = [] then AList.delete m ms else AList.update m ts' ms)"
  proof (rule methods_okI)
    show "distinct (map fst (if ts' = [] then AList.delete m ms else AList.update m ts' ms))"
      using d by (simp add: distinct_update distinct_delete)
    fix m1 ts1 assume "map_of (if ts' = [] then AList.delete m ms else AList.update m ts' ms) m1 = Some ts1"
    then show "ts1 \<noteq> [] \<and> (\<forall>t \<in> set ts1. info_ok t)"
      using assms(3) methods_okD(2,3) [OF assms(1), of m1 ts1]
      by (auto simp: update_conv delete_conv split: if_splits)
  qed
  show "subs_of (if ts' = [] then AList.delete m ms else AList.update m ts' ms) =
       (subs_of ms)(m := image_mset info_key (mset ts'))"
    by (auto simp: subs_of_def update_conv delete_conv fun_eq_iff)
qed

end
