(* ===== verification/PubSubSteps.thy ===== *)
theory PubSubSteps
  imports PubSubInv
begin

text \<open>Every operation of the publisher subscriber daemon and its effect on the store; its reachable states.\<close>

section \<open>Removing one subscription\<close>

definition drop_key :: "string \<Rightarrow> ps_key \<Rightarrow> ps_subs \<Rightarrow> ps_subs" where
  "drop_key m k S = S(m := S m - {#k#})"

lemma drop_key_absent: "k \<notin># S m \<Longrightarrow> drop_key m k S = S"
  by (simp add: drop_key_def fun_eq_iff diff_single_trivial)

lemma put_entry_same:
  assumes "psd_inv st" "map_of (ps_table st) k = Some e" "methods_ok ms" "subs_of ms = subs_of (ps_methods e)"
  shows "psd_inv (ps_put_entry k (e\<lparr>ps_methods := ms\<rparr>) st)"
    "psd_subs (ps_put_entry k (e\<lparr>ps_methods := ms\<rparr>) st) = psd_subs st"
proof -
  let ?st = "ps_put_entry k (e\<lparr>ps_methods := ms\<rparr>) st"
  have st: "ps_table ?st = AList.update k (e\<lparr>ps_methods := ms\<rparr>) (ps_table st)" "ps_next ?st = ps_next st"
    "ps_remote ?st = ps_remote st" "ps_trace ?st = ps_trace st" by (simp_all add: ps_put_entry_def)
  show "psd_inv ?st"
    by (rule psd_inv_put [OF assms(1,2) st(1) _ st(3)])
      (use psd_invD(2,3) [OF assms(1,2)] assms(3,4) in \<open>simp_all add: st entry_fine_def\<close>)
  show "psd_subs ?st = psd_subs st"
    using psd_subs_update [OF st(1)] assms(2,4) by (simp add: psd_subs_Some [symmetric])
qed

lemma tell_all_put:
  "tell_all env u cs (ps_put_entry k e st) = ps_put_entry k e (tell_all env u cs st)"
proof (induction cs arbitrary: st)
  case (Cons c cs)
  have "ps_log ev (ps_put_entry k e st) = ps_put_entry k e (ps_log ev st)" "ps_trace (ps_put_entry k e st) = ps_trace st" for ev
    by (simp_all add: ps_log_def ps_put_entry_def)
  with Cons.IH [of "ps_log (update_event u c (delivered env (ps_trace st) c)) st"] show ?case
    by (simp add: tell_all_def)
qed (simp add: tell_all_def)

lemma put_put [simp]: "ps_put_entry k e (ps_put_entry k e' st) = ps_put_entry k e st"
  by (simp add: ps_put_entry_def)

lemma put_found: "psd_inv st \<Longrightarrow> map_of (ps_table st) k = Some e \<Longrightarrow> ps_put_entry k e st = st"
  by (simp add: ps_put_entry_def update_triv)

text \<open>The tail of the removal: store the methods, and drop the service when none is left.\<close>

definition store_methods :: "string \<Rightarrow> ps_service_entry \<Rightarrow> string \<Rightarrow> method_entries \<Rightarrow> cmsg_transport_info list \<Rightarrow> psd_state \<Rightarrow> psd_state" where
  "store_methods k e m ms ts st =
     (let ms' = (if ts = [] then AList.delete m ms else AList.update m ts ms);
          st = ps_put_entry k (e\<lparr>ps_methods := ms'\<rparr>) st
      in if ts = [] \<and> ms' = [] then ps_remove_service k st else st)"

lemma remove_local_store:
  assumes "map_of (ps_table st) (sub_service info) = Some e" "map_of (ps_methods e) (sub_method info) = Some ts"
  shows "data_remove_local_subscription env info st =
    map_option (\<lambda>(ts, st). store_methods (sub_service info) e (sub_method info) (ps_methods e) ts st)
      (data_remove_transport_from_method env (ps_comp_client e) (sub_method info) (sub_transport info) ts st)"
  using assms
  by (auto simp: data_remove_local_subscription_def ps_get_service_entry_or_create_def
      get_method_entry_or_create_def store_methods_def Let_def intro!: map_option_cong)

lemma remove_local_exact:
  assumes "psd_inv st" "info_ok (sub_transport info)"
  shows "\<exists>st'. data_remove_local_subscription env info st = Some st' \<and> psd_inv st' \<and> ps_remote st' = ps_remote st \<and>
    psd_subs st' = (psd_subs st)(sub_service info :=
      drop_key (sub_method info) (info_key (sub_transport info)) (psd_subs st (sub_service info)))"
proof (cases "map_of (ps_table st) (sub_service info)")
  case None
  then have "drop_key (sub_method info) (info_key (sub_transport info)) (psd_subs st (sub_service info)) =
      psd_subs st (sub_service info)" by (simp add: psd_subs_def drop_key_absent)
  with None assms show ?thesis
    by (simp add: data_remove_local_subscription_def ps_get_service_entry_or_create_def)
next
  case (Some e)
  let ?k = "sub_service info" and ?m = "sub_method info" and ?i = "sub_transport info"
  have ok: "methods_ok (ps_methods e)" by (rule entry_fineD(1) [OF psd_invD(2) [OF assms(1) Some]])
  note S = psd_subs_Some [OF Some]
  show ?thesis
  proof (cases "map_of (ps_methods e) ?m")
    case None
    then have "drop_key ?m (info_key ?i) (psd_subs st ?k) = psd_subs st ?k"
      by (simp add: S subs_of_def drop_key_absent)
    with None Some assms show ?thesis
      by (simp add: data_remove_local_subscription_def ps_get_service_entry_or_create_def get_method_entry_or_create_def)
  next
    case (Some ts)
    have ts: "\<forall>t \<in> set ts. info_ok t" "ts \<noteq> []" using methods_okD(2,3) [OF ok Some] by auto
    have Sm: "psd_subs st ?k ?m = image_mset info_key (mset ts)" by (simp add: S subs_of_def Some)
    note rl = remove_local_store [OF \<open>map_of (ps_table st) ?k = Some e\<close> Some]
    show ?thesis
      using ts(1) assms(2)
    proof (cases rule: remove_transport_cases [where env = env and cc = "ps_comp_client e" and m = ?m and st = st])
      case none
      have "store_methods ?k e ?m (ps_methods e) ts st = st"
        using ts(2) Some put_found [OF assms(1) \<open>map_of (ps_table st) ?k = Some e\<close>]
        by (simp add: store_methods_def update_triv)
      with none Sm drop_key_absent [of "info_key ?i" "psd_subs st ?k" ?m] assms(1) rl show ?thesis by simp
    next
      case (gone ts')
      have ts': "\<forall>t \<in> set ts'. info_ok t" using ts(1) gone(3) by blast
      let ?ms = "if ts' = [] then AList.delete ?m (ps_methods e) else AList.update ?m ts' (ps_methods e)"
      let ?u = "Upd_change ?m ?i False"
      let ?st = "tell_all env ?u (publishers_of e) (ps_put_entry ?k (e\<lparr>ps_methods := ?ms\<rparr>) st)"
      have ms: "subs_of ?ms = apply_update ?u (subs_of (ps_methods e))"
        using methods_put(2) [OF ok Some ts'] gone(4) Sm by (simp add: S)
      have fits: "update_fits ?u (subs_of (ps_methods e))"
        using assms(2) gone(2) Sm by (simp add: S)
      note upd = psd_update_entry [OF assms(1) \<open>map_of (ps_table st) ?k = Some e\<close> methods_put(1) [OF ok Some ts'] ms fits refl, of env]
      have rm: "data_remove_local_subscription env info st =
          Some (if ts' = [] \<and> ?ms = [] then ps_remove_service ?k ?st else ?st)"
        by (simp add: rl gone(1) store_methods_def Let_def tell_all_put)
      have drop: "apply_update ?u (psd_subs st ?k) = drop_key ?m (info_key ?i) (psd_subs st ?k)"
        by (simp add: drop_key_def)
      show ?thesis
      proof (cases "ts' = [] \<and> ?ms = []")
        case True
        have nil: "?ms = []" using True by blast
        have "psd_subs ?st ?k = subs_of ?ms" using psd_subs_Some [OF upd(4)] by simp
        also have "\<dots> = (\<lambda>_. {#})" unfolding nil by simp
        finally have "(psd_subs ?st)(?k := \<lambda>_. {#}) = psd_subs ?st" by (simp only: fun_upd_idem_iff)
        then have "psd_subs (ps_remove_service ?k ?st) =
            (psd_subs st)(?k := drop_key ?m (info_key ?i) (psd_subs st ?k))"
          unfolding remove_service_exact(2) [OF upd(1), of ?k] upd(2) drop by (rule trans) simp
        moreover have "data_remove_local_subscription env info st = Some (ps_remove_service ?k ?st)"
          by (simp only: rm if_P [OF True])
        ultimately show ?thesis
          using remove_service_exact(1,3) [OF upd(1), of ?k] upd(3) by (metis (lifting))
      next
        case False
        have "data_remove_local_subscription env info st = Some ?st"
          by (simp only: rm if_not_P [OF False])
        moreover have "psd_subs ?st = (psd_subs st)(?k := drop_key ?m (info_key ?i) (psd_subs st ?k))"
          by (simp only: upd(2) drop)
        ultimately show ?thesis using upd(1,3) by blast
      qed
    qed
  qed
qed

section \<open>Removing a subscriber\<close>

lemma knows_drop:
  assumes "knows c S tr" "info_ok info"
  shows "knows c (drop_key m (info_key info) S) (tr @ [Psd_change c m info False arrived]) \<or> info_key info \<notin># S m"
  using knows_update [OF assms(1), of "Upd_change m info False" arrived] assms(2) by (auto simp: drop_key_def)

text \<open>All methods of an entry in turn; the store and the publishers lose one occurrence of each.\<close>

definition drop_in :: "string set \<Rightarrow> ps_key \<Rightarrow> ps_subs \<Rightarrow> ps_subs" where
  "drop_in ms k S = (\<lambda>m. if m \<in> ms then S m - {#k#} else S m)"

lemma remove_from_methods_exact:
  assumes "\<forall>(m, ts) \<in> set ms. \<forall>t \<in> set ts. info_ok t" "distinct (map fst ms)" "info_ok info"
    and "distinct (comp_children cc)"
  shows "\<exists>ms' st'. data_remove_subscriber_from_methods env cc info ms st = Some (ms', st') \<and> same_store st st' \<and>
    map fst ms' = map fst ms \<and> (\<forall>(m, ts) \<in> set ms'. \<forall>t \<in> set ts. info_ok t) \<and>
    subs_of ms' = drop_in UNIV (info_key info) (subs_of ms) \<and>
    (\<forall>c S. c \<notin> set (comp_children cc) \<longrightarrow> knows c S (ps_trace st) \<longrightarrow> knows c S (ps_trace st')) \<and>
    (\<forall>c S. c \<in> set (comp_children cc) \<longrightarrow> knows c S (ps_trace st) \<longrightarrow>
       (\<forall>m \<in> set (map fst ms). S m = subs_of ms m) \<longrightarrow>
       knows c (drop_in (set (map fst ms)) (info_key info) S) (ps_trace st'))"
  using assms(1,2)
proof (induction ms arbitrary: st)
  case Nil
  then show ?case by (auto simp: drop_in_def)
next
  case (Cons x ms)
  obtain m ts where x: "x = (m, ts)" by fastforce
  let ?k = "info_key info"
  have ts: "\<forall>t \<in> set ts. info_ok t" and fresh: "m \<notin> set (map fst ms)" using Cons.prems x by auto
  obtain ts' st1 where r: "data_remove_transport_from_method env cc m info ts st = Some (ts', st1)"
    "same_store st st1" "set ts' \<subseteq> set ts" "image_mset info_key (mset ts') = image_mset info_key (mset ts) - {#?k#}"
    "\<And>c S. c \<notin> set (comp_children cc) \<Longrightarrow> knows c S (ps_trace st) \<Longrightarrow> knows c S (ps_trace st1)"
    "\<And>c S. c \<in> set (comp_children cc) \<Longrightarrow> knows c S (ps_trace st) \<Longrightarrow> S m = image_mset info_key (mset ts) \<Longrightarrow>
      knows c (drop_key m ?k S) (ps_trace st1)"
    using ts assms(3)
  proof (cases rule: remove_transport_cases [where env = env and cc = cc and m = m and st = st])
    case none
    have "knows c (drop_key m ?k S) (ps_trace st)"
      if "knows c S (ps_trace st)" "S m = image_mset info_key (mset ts)" for c S
      using that none(2) drop_key_absent [of ?k S m] by simp
    moreover have "image_mset info_key (mset ts) - {#?k#} = image_mset info_key (mset ts)"
      using none(2) by (rule diff_single_trivial)
    ultimately show ?thesis using that [OF none(1) same_store_refl] by simp
  next
    case (gone ts')
    have "knows c (drop_key m ?k S) (ps_trace (tell_all env (Upd_change m info False) (comp_children cc) st))"
      if "c \<in> set (comp_children cc)" "knows c S (ps_trace st)" "S m = image_mset info_key (mset ts)" for c S
      using tell_all_told [OF assms(4) that(1,2), of "Upd_change m info False" env] that(3) gone(2) assms(3)
      by (simp add: drop_key_def)
    then show ?thesis using that [OF gone(1) tell_all_store gone(3,4)] tell_all_other by blast
  qed
  from Cons.IH [of st1] Cons.prems x obtain ms' st' where IH:
    "data_remove_subscriber_from_methods env cc info ms st1 = Some (ms', st')" "same_store st1 st'"
    "map fst ms' = map fst ms" "\<forall>(m, ts) \<in> set ms'. \<forall>t \<in> set ts. info_ok t"
    "subs_of ms' = drop_in UNIV ?k (subs_of ms)"
    "\<And>c S. c \<notin> set (comp_children cc) \<Longrightarrow> knows c S (ps_trace st1) \<Longrightarrow> knows c S (ps_trace st')"
    "\<And>c S. c \<in> set (comp_children cc) \<Longrightarrow> knows c S (ps_trace st1) \<Longrightarrow>
       (\<And>m. m \<in> set (map fst ms) \<Longrightarrow> S m = subs_of ms m) \<Longrightarrow> knows c (drop_in (set (map fst ms)) ?k S) (ps_trace st')"
    by auto
  have fresh': "m \<notin> set (map fst ms')" using fresh IH(3) by simp
  have "subs_of ((m, ts') # ms') = drop_in UNIV ?k (subs_of ((m, ts) # ms))"
    using subs_of_Cons [OF fresh', of ts'] subs_of_Cons [OF fresh, of ts] IH(5) r(4)
    by (auto simp: drop_in_def fun_eq_iff)
  moreover have "knows c (drop_in (set (map fst (x # ms))) ?k S) (ps_trace st')"
    if "c \<in> set (comp_children cc)" "knows c S (ps_trace st)" "\<forall>m \<in> set (map fst (x # ms)). S m = subs_of (x # ms) m" for c S
  proof -
    have "S m = image_mset info_key (mset ts)" using that(3) x by (simp add: subs_of_def)
    moreover have "drop_key m ?k S m1 = subs_of ms m1" if "m1 \<in> set (map fst ms)" for m1
      using that \<open>\<forall>m \<in> set (map fst (x # ms)). S m = subs_of (x # ms) m\<close> x fresh subs_of_Cons [OF fresh, of ts]
      by (auto simp: drop_key_def)
    ultimately have "knows c (drop_in (set (map fst ms)) ?k (drop_key m ?k S)) (ps_trace st')"
      using IH(7) [OF that(1) r(6) [OF that(1,2)]] by blast
    moreover have "drop_in (set (map fst ms)) ?k (drop_key m ?k S) = drop_in (set (map fst (x # ms))) ?k S"
      using fresh x by (auto simp: drop_in_def drop_key_def fun_eq_iff)
    ultimately show ?thesis by simp
  qed
  moreover have "\<forall>(m, ts) \<in> set ((m, ts') # ms'). \<forall>t \<in> set ts. info_ok t"
    using ts r(3) IH(4) by auto
  ultimately show ?case
    using r IH same_store_trans [OF r(2) IH(2)] x by (intro exI [of _ "(m, ts') # ms'"] exI [of _ st']) auto
qed

lemma map_of_filter_entry:
  "distinct (map fst xs) \<Longrightarrow>
    map_of (filter (\<lambda>(k, e). P e) xs) k = (case map_of xs k of None \<Rightarrow> None | Some e \<Rightarrow> if P e then Some e else None)"
  by (induction xs) (auto simp: map_of_eq_None_iff split: option.split)

lemma distinct_filter_entry: "distinct (map fst xs) \<Longrightarrow> distinct (map fst (filter P xs))"
  by (induction xs) auto

lemma prune_exact:
  assumes "distinct (map fst ms)" "\<forall>(m, ts) \<in> set ms. \<forall>t \<in> set ts. info_ok t"
  shows "methods_ok (data_prune_empty_methods ms)" "subs_of (data_prune_empty_methods ms) = subs_of ms"
proof -
  note look = map_of_filter_entry [OF assms(1), of "\<lambda>ts. ts \<noteq> []"]
  show "methods_ok (data_prune_empty_methods ms)"
  proof (rule methods_okI)
    show "distinct (map fst (data_prune_empty_methods ms))"
      unfolding data_prune_empty_methods_def by (rule distinct_filter_entry [OF assms(1)])
    fix m ts assume "map_of (data_prune_empty_methods ms) m = Some ts"
    then have "map_of ms m = Some ts" "ts \<noteq> []"
      unfolding data_prune_empty_methods_def look by (auto split: option.splits if_splits)
    then show "ts \<noteq> [] \<and> (\<forall>t \<in> set ts. info_ok t)" using assms(2) by (fastforce dest: map_of_SomeD)
  qed
  show "subs_of (data_prune_empty_methods ms) = subs_of ms"
    unfolding subs_of_def data_prune_empty_methods_def look by (simp add: fun_eq_iff split: option.split)
qed

lemma fold_remove1_Cons: "\<forall>y \<in> set ys. y \<noteq> x \<Longrightarrow> fold remove1 ys (x # xs) = x # fold remove1 ys xs"
proof (induction ys arbitrary: xs)
  case (Cons y ys)
  then show ?case by simp
qed simp

lemma fold_remove1_filter: "fold remove1 (rev (filter Q xs)) xs = filter (\<lambda>x. \<not> Q x) xs"
proof -
  have "fold remove1 (filter Q xs) xs = filter (\<lambda>x. \<not> Q x) xs"
  proof (induction xs)
    case (Cons x xs)
    have "\<not> Q x \<Longrightarrow> \<forall>y \<in> set (filter Q xs). y \<noteq> x" by auto
    with Cons.IH fold_remove1_Cons [of "filter Q xs" x xs] show ?case by simp
  qed simp
  moreover have "fold remove1 (rev (filter Q xs)) = fold remove1 (filter Q xs)"
    by (rule fold_rev) (simp add: fun_eq_iff remove1_commute)
  ultimately show ?thesis by simp
qed

section \<open>Remote subscriptions\<close>

text \<open>A step that leaves the table alone and that no publisher hears.\<close>

definition quiet :: "psd_state \<Rightarrow> psd_state \<Rightarrow> bool" where
  "quiet st st' \<longleftrightarrow> ps_table st' = ps_table st \<and> ps_next st \<le> ps_next st' \<and>
     (\<forall>c S. knows c S (ps_trace st) \<longrightarrow> knows c S (ps_trace st'))"

lemma quiet_inv:
  assumes "psd_inv st" "quiet st st'" "\<forall>info \<in> set (ps_remote st'). info_ok (sub_transport info)"
  shows "psd_inv st'" "psd_subs st' = psd_subs st"
proof -
  show "psd_inv st'"
    by (rule psd_inv_same [OF assms(1)]) (use assms(2,3) psd_invD(1) [OF assms(1)] in \<open>simp_all add: quiet_def\<close>)
  show "psd_subs st' = psd_subs st" using assms(2) by (simp add: quiet_def psd_subs_def fun_eq_iff)
qed

lemma quiet_trans: "quiet st st' \<Longrightarrow> quiet st' st'' \<Longrightarrow> quiet st st''"
  by (auto simp: quiet_def)

lemma sync_quiet:
  "quiet st (remote_sync_subscription_added_removed env info added (st\<lparr>ps_remote := r\<rparr>))"
  "ps_remote (remote_sync_subscription_added_removed env info added st) = ps_remote st"
  by (auto simp: quiet_def remote_sync_subscription_added_removed_def split: option.split)

abbreviation sync_removed :: "psd_env \<Rightarrow> ps_subscription \<Rightarrow> psd_state \<Rightarrow> psd_state" where
  "sync_removed env info st \<equiv>
     remote_sync_subscription_removed env info (st\<lparr>ps_remote := remove1 info (ps_remote st)\<rparr>)"

lemma fold_sync_removed:
  "quiet st (fold (sync_removed env) infos st) \<and>
   ps_remote (fold (sync_removed env) infos st) = fold remove1 infos (ps_remote st)"
proof (induction infos arbitrary: st)
  case Nil
  show ?case by (simp add: quiet_def)
next
  case (Cons info infos)
  have q: "quiet st (sync_removed env info st)" "ps_remote (sync_removed env info st) = remove1 info (ps_remote st)"
    by (simp_all add: remote_sync_subscription_removed_def sync_quiet)
  show ?case
    using Cons.IH [of "sync_removed env info st"] quiet_trans [OF q(1)] q(2) by simp
qed

definition same_subscriber :: "string \<Rightarrow> ps_key \<Rightarrow> ps_subscription \<Rightarrow> bool" where
  "same_subscriber service k info \<longleftrightarrow> sub_service info = service \<and> info_key (sub_transport info) = k"

lemma remove_remote_entries_exact:
  assumes "psd_inv st" "info_ok t"
  shows "\<exists>st'. data_remove_remote_entries_for_subscriber env service t st = Some st' \<and> psd_inv st' \<and>
    psd_subs st' = psd_subs st \<and>
    ps_remote st' = filter (\<lambda>info. \<not> same_subscriber service (info_key t) info) (ps_remote st)"
proof -
  let ?Q = "same_subscriber service (info_key t)"
  let ?st = "fold (sync_removed env) (rev (filter ?Q (ps_remote st))) st"
  note fold = fold_sync_removed [of st env "rev (filter ?Q (ps_remote st))"]
  have "list_filter (\<lambda>info. if strcmp (sub_service info) service = 0
      then cmsg_transport_info_compare (sub_transport info) t else Some False) (ps_remote st) =
      Some (filter ?Q (ps_remote st))"
    by (rule list_filter_total)
      (use psd_invD(5) [OF assms(1)] info_compare_key [OF _ assms(2)] in \<open>auto simp: same_subscriber_def\<close>)
  then have r: "data_remove_remote_entries_for_subscriber env service t st = Some ?st"
    by (simp add: data_remove_remote_entries_for_subscriber_def)
  have rem: "ps_remote ?st = filter (\<lambda>info. \<not> ?Q info) (ps_remote st)"
    using fold by (simp add: fold_remove1_filter)
  then have ok: "\<forall>info \<in> set (ps_remote ?st). info_ok (sub_transport info)" using psd_invD(5) [OF assms(1)] by simp
  show ?thesis using r rem quiet_inv [OF assms(1) conjunct1 [OF fold] ok] by blast
qed

section \<open>Removing a subscriber: the store\<close>

lemma psd_remove_subscriber_exact:
  assumes "psd_inv st" "info_ok info"
  shows "\<exists>removed st'. (data_remove_subscriber env is_key k info st = Some (removed, st') \<or>
      removed \<and> is_key \<and> ps_remote st \<noteq> [] \<and> data_remove_subscriber env is_key k info st = None) \<and>
    psd_inv st' \<and> psd_subs st' = (psd_subs st)(k := drop_in UNIV (info_key info) (psd_subs st k)) \<and>
    ps_remote st' = filter (\<lambda>a. \<not> same_subscriber k (info_key info) a) (ps_remote st)"
proof -
  let ?first = "case ps_get_service_entry_or_create env k False st of
      (None, st) \<Rightarrow> Some (False, st)
    | (Some entry, st) \<Rightarrow>
        map_option (\<lambda>(ms, st).
          let ms = data_prune_empty_methods ms; st = ps_put_entry k (entry\<lparr>ps_methods := ms\<rparr>) st
          in if ms = [] \<and> cmsg_composite_client_num_children (ps_comp_client entry) = 0
             then (True, ps_remove_service k st) else (False, st))
          (data_remove_subscriber_from_methods env (ps_comp_client entry) info (ps_methods entry) st)"
  have "\<exists>removed st1. ?first = Some (removed, st1) \<and> psd_inv st1 \<and>
    psd_subs st1 = (psd_subs st)(k := drop_in UNIV (info_key info) (psd_subs st k)) \<and> ps_remote st1 = ps_remote st"
  proof (cases "map_of (ps_table st) k")
    case None
    then have "drop_in UNIV (info_key info) (psd_subs st k) = psd_subs st k"
      by (simp add: psd_subs_def drop_in_def fun_eq_iff)
    with None assms(1) show ?thesis
      by (intro exI [of _ False] exI [of _ st]) (simp add: ps_get_service_entry_or_create_def)
  next
    case (Some e)
    have fine: "entry_fine (ps_next st) e" by (rule psd_invD(2) [OF assms(1) Some])
    note ok = entry_fineD [OF fine]
    obtain ms st2 where r: "data_remove_subscriber_from_methods env (ps_comp_client e) info (ps_methods e) st = Some (ms, st2)"
      "same_store st st2" "map fst ms = map fst (ps_methods e)" "\<forall>(m, ts) \<in> set ms. \<forall>t \<in> set ts. info_ok t"
      "subs_of ms = drop_in UNIV (info_key info) (subs_of (ps_methods e))"
      "\<And>c S. c \<notin> set (publishers_of e) \<Longrightarrow> knows c S (ps_trace st) \<Longrightarrow> knows c S (ps_trace st2)"
      "\<And>c S. c \<in> set (publishers_of e) \<Longrightarrow> knows c S (ps_trace st) \<Longrightarrow>
         (\<And>m. m \<in> set (map fst (ps_methods e)) \<Longrightarrow> S m = subs_of (ps_methods e) m) \<Longrightarrow>
         knows c (drop_in (set (map fst (ps_methods e))) (info_key info) S) (ps_trace st2)"
      using remove_from_methods_exact [OF _ methods_okD(1) [OF ok(1)] assms(2) ok(3), of env st] ok(1)
      unfolding methods_ok_def by (auto simp: case_prod_beta)
    let ?ms = "data_prune_empty_methods ms"
    let ?st = "ps_put_entry k (e\<lparr>ps_methods := ?ms\<rparr>) st2"
    have ms: "methods_ok ?ms" "subs_of ?ms = drop_in UNIV (info_key info) (subs_of (ps_methods e))"
      using prune_exact [OF _ r(4)] methods_okD(1) [OF ok(1)] r(3,5) by simp_all
    have all: "drop_in (set (map fst (ps_methods e))) (info_key info) (subs_of (ps_methods e)) = subs_of ?ms"
      unfolding ms(2) by (auto simp: drop_in_def fun_eq_iff subs_of_def map_of_eq_None_iff [THEN iffD2])
    note same = same_storeD [OF r(2)]
    have tbl: "ps_table ?st = AList.update k (e\<lparr>ps_methods := ?ms\<rparr>) (ps_table st)" "ps_next ?st = ps_next st"
      "ps_remote ?st = ps_remote st" "ps_trace ?st = ps_trace st2" using same by (simp_all add: ps_put_entry_def)
    have inv: "psd_inv ?st"
    proof (rule psd_inv_put [OF assms(1) Some tbl(1) _ tbl(3)])
      show "entry_fine (ps_next ?st) (e\<lparr>ps_methods := ?ms\<rparr>)" using fine ms(1) by (simp add: entry_fine_def tbl(2))
      fix c assume "c \<in> set (publishers_of (e\<lparr>ps_methods := ?ms\<rparr>))"
      then have c: "c \<in> set (publishers_of e)" by simp
      then show "c \<in> set (publishers_of e) \<or> ps_next st \<le> c" by simp
      from r(7) [OF c psd_invD(3) [OF assms(1) Some c] refl]
      show "knows c (subs_of (ps_methods (e\<lparr>ps_methods := ?ms\<rparr>))) (ps_trace ?st)"
        unfolding tbl(4) all by simp
    next
      fix c S assume "c \<notin> set (publishers_of e)" "knows c S (ps_trace st)"
      then show "knows c S (ps_trace ?st)" unfolding tbl(4) by (rule r(6))
    qed (simp add: tbl)
    have subs: "psd_subs ?st = (psd_subs st)(k := drop_in UNIV (info_key info) (psd_subs st k))"
      using psd_subs_update [OF tbl(1)] ms(2) by (simp add: psd_subs_Some [OF Some])
    show ?thesis
    proof (cases "?ms = [] \<and> cmsg_composite_client_num_children (ps_comp_client e) = 0")
      case True
      have "subs_of ?ms = (\<lambda>_. {#})" using True by simp
      then have "psd_subs ?st k = (\<lambda>_. {#})" using psd_subs_update [OF tbl(1)] by simp
      then have "(psd_subs ?st)(k := \<lambda>_. {#}) = psd_subs ?st" by (simp only: fun_upd_idem_iff)
      with remove_service_exact [OF inv, of k] subs tbl(3) r(1) True Some show ?thesis
        by (intro exI [of _ True] exI [of _ "ps_remove_service k ?st"])
          (simp add: ps_get_service_entry_or_create_def)
    next
      case False
      with inv subs tbl(3) r(1) Some show ?thesis
        by (simp only: ps_get_service_entry_or_create_def option.case prod.case option.map Let_def if_False) blast
    qed
  qed
  then obtain removed st1 where first: "?first = Some (removed, st1)" "psd_inv st1"
    "psd_subs st1 = (psd_subs st)(k := drop_in UNIV (info_key info) (psd_subs st k))" "ps_remote st1 = ps_remote st" by blast
  from remove_remote_entries_exact [OF first(2) assms(2), of env k] first(3,4) obtain st' where
    "data_remove_remote_entries_for_subscriber env k info st1 = Some st'" "psd_inv st'"
    "psd_subs st' = (psd_subs st)(k := drop_in UNIV (info_key info) (psd_subs st k))"
    "ps_remote st' = filter (\<lambda>a. \<not> same_subscriber k (info_key info) a) (ps_remote st)" by auto
  moreover have "data_remove_subscriber env is_key k info st =
      (if removed \<and> is_key \<and> ps_remote st1 \<noteq> [] then None
       else map_option (Pair removed) (data_remove_remote_entries_for_subscriber env k info st1))"
    unfolding data_remove_subscriber_def first(1) by simp
  ultimately show ?thesis using first(4) by (intro exI [of _ removed] exI [of _ st']) simp
qed

end
