(* ===== verification/PubSubReach.thy ===== *)
theory PubSubReach
  imports PubSubSteps
begin

text \<open>
  The operations of the daemon that touch every service, the publishers that come and go, and
  what the remote hosts send; with them the reachable states of the daemon.
\<close>

section \<open>A host that goes\<close>

abbreviation info_at :: "u8 list \<Rightarrow> cmsg_transport_info \<Rightarrow> bool" where
  "info_at addr t \<equiv> key_has_addr addr (info_key t)"

lemma info_has_addr_ok:
  assumes "info_ok t"
  shows "info_has_addr addr t = Some (info_at addr t)"
proof (cases t)
  case (Info_tcp ow tcp)
  with assms sin_addr_of_tcp [of ow tcp] show ?thesis
    by (simp add: info_has_addr_def info_to_transport_ok)
qed (simp_all add: info_has_addr_def)

definition without_host :: "u8 list \<Rightarrow> method_entries \<Rightarrow> method_entries" where
  "without_host addr ms = map (\<lambda>(m, ts). (m, filter (\<lambda>t. \<not> info_at addr t) ts)) ms"

definition host_in :: "u8 list \<Rightarrow> method_entries \<Rightarrow> bool" where
  "host_in addr ms \<longleftrightarrow> (\<exists>(m, ts) \<in> set ms. \<exists>t \<in> set ts. info_at addr t)"

lemma remove_clients_with_addr:
  assumes "\<forall>t \<in> set ts. info_ok t"
  shows "data_remove_clients_with_addr_from_method addr ts =
    Some (\<exists>t \<in> set ts. info_at addr t, filter (\<lambda>t. \<not> info_at addr t) ts)"
proof -
  have "list_filter (info_has_addr addr) ts = Some (filter (info_at addr) ts)"
    by (rule list_filter_total) (use assms info_has_addr_ok in blast)
  then show ?thesis
    by (simp add: data_remove_clients_with_addr_from_method_def fold_remove1_filter filter_empty_conv)
qed

lemma remove_addr_from_methods:
  "\<forall>(m, ts) \<in> set ms. \<forall>t \<in> set ts. info_ok t \<Longrightarrow>
    data_remove_addr_from_methods addr ms = Some (host_in addr ms, without_host addr ms)"
proof (induction ms)
  case (Cons x ms)
  obtain m ts where x: "x = (m, ts)" by fastforce
  have "\<forall>t \<in> set ts. info_ok t" "\<forall>(m, ts) \<in> set ms. \<forall>t \<in> set ts. info_ok t"
    using Cons.prems x by simp_all
  with Cons.IH remove_clients_with_addr [of ts addr] x show ?case
    by (simp add: host_in_def without_host_def)
qed (simp add: host_in_def without_host_def)

lemma filter_mset_True: "\<forall>x \<in># M. P x \<Longrightarrow> filter_mset P M = M"
  by (induction M) simp_all

lemma methods_ok_infos: "methods_ok ms \<Longrightarrow> \<forall>(m, ts) \<in> set ms. \<forall>t \<in> set ts. info_ok t"
  by (force simp: methods_ok_def)

lemma map_of_without_host: "map_of (without_host addr ms) m = map_option (filter (\<lambda>t. \<not> info_at addr t)) (map_of ms m)"
  by (induction ms) (auto simp: without_host_def)

lemma without_host_exact:
  assumes "methods_ok ms"
  shows "methods_ok (data_prune_empty_methods (without_host addr ms))"
    "subs_of (data_prune_empty_methods (without_host addr ms)) = apply_update (Upd_host addr) (subs_of ms)"
    "\<not> host_in addr ms \<Longrightarrow> apply_update (Upd_host addr) (subs_of ms) = subs_of ms"
proof -
  have d: "distinct (map fst (without_host addr ms))"
    using methods_okD(1) [OF assms] by (simp add: without_host_def comp_def case_prod_beta)
  have ok: "\<forall>(m, ts) \<in> set (without_host addr ms). \<forall>t \<in> set ts. info_ok t"
    using assms by (auto simp: methods_ok_def without_host_def)
  show "methods_ok (data_prune_empty_methods (without_host addr ms))" by (rule prune_exact(1) [OF d ok])
  have "subs_of (without_host addr ms) m = apply_update (Upd_host addr) (subs_of ms) m" for m
    using image_mset_filter_key [of _ "\<lambda>t. \<not> info_at addr t" "\<lambda>k. \<not> key_has_addr addr k" info_key]
    by (simp add: subs_of_def map_of_without_host split: option.split)
  then show "subs_of (data_prune_empty_methods (without_host addr ms)) = apply_update (Upd_host addr) (subs_of ms)"
    unfolding prune_exact(2) [OF d ok] by blast
  assume none: "\<not> host_in addr ms"
  have "filter_mset (\<lambda>k. \<not> key_has_addr addr k) (subs_of ms m) = subs_of ms m" for m
  proof (cases "map_of ms m")
    case (Some ts)
    with none have "\<forall>t \<in> set ts. \<not> info_at addr t" by (auto simp: host_in_def dest: map_of_SomeD)
    then show ?thesis by (simp add: subs_of_def Some filter_mset_True)
  qed (simp add: subs_of_def)
  then show "apply_update (Upd_host addr) (subs_of ms) = subs_of ms" by simp
qed

text \<open>The entry without the host, and what its publishers and the others hear.\<close>

definition entry_without_host :: "u8 list \<Rightarrow> ps_service_entry \<Rightarrow> ps_service_entry" where
  "entry_without_host addr e = e\<lparr>ps_methods := data_prune_empty_methods (without_host addr (ps_methods e))\<rparr>"

lemma entry_without_host_simps [simp]: "ps_comp_client (entry_without_host addr e) = ps_comp_client e"
  by (simp add: entry_without_host_def)

lemma subs_without_host:
  assumes "methods_ok (ps_methods e)"
  shows "subs_of (ps_methods (entry_without_host addr e)) = apply_update (Upd_host addr) (subs_of (ps_methods e))"
  using without_host_exact(2) [OF assms] by (simp add: entry_without_host_def)

lemma remove_entries_for_addr:
  assumes "methods_ok (ps_methods e)" "distinct (publishers_of e)"
  obtains st' where
    "data_remove_local_entries_for_addr env addr e st = Some (entry_without_host addr e, st')" "same_store st st'"
    "\<And>c S. c \<notin> set (publishers_of e) \<Longrightarrow> knows c S (ps_trace st) \<Longrightarrow> knows c S (ps_trace st')"
    "\<And>c. c \<in> set (publishers_of e) \<Longrightarrow> knows c (subs_of (ps_methods e)) (ps_trace st) \<Longrightarrow>
      knows c (subs_of (ps_methods (entry_without_host addr e))) (ps_trace st')"
proof -
  let ?st' = "if host_in addr (ps_methods e) then tell_all env (Upd_host addr) (publishers_of e) st else st"
  have r: "data_remove_local_entries_for_addr env addr e st = Some (entry_without_host addr e, ?st')"
    using remove_addr_from_methods [OF methods_ok_infos [OF assms(1)], of addr]
    by (simp add: data_remove_local_entries_for_addr_def entry_without_host_def update_publishers_tell_all)
  note wo = without_host_exact [OF assms(1), of addr] and subs = subs_without_host [OF assms(1), of addr]
  show ?thesis
  proof (rule that [OF r])
    show "same_store st ?st'" using tell_all_store by simp
    show "knows c S (ps_trace ?st')" if "c \<notin> set (publishers_of e)" "knows c S (ps_trace st)" for c S
      using that tell_all_other by simp
    show "knows c (subs_of (ps_methods (entry_without_host addr e))) (ps_trace ?st')"
      if "c \<in> set (publishers_of e)" "knows c (subs_of (ps_methods e)) (ps_trace st)" for c
      using that wo(3) tell_all_told [OF assms(2) that, of "Upd_host addr" env] unfolding subs by auto
  qed
qed

text \<open>The traversal of the table. No publisher is in two entries.\<close>

lemma foreach_exact:
  assumes "distinct (map fst tbl)"
    and "\<And>k e. (k, e) \<in> set tbl \<Longrightarrow> methods_ok (ps_methods e) \<and> distinct (publishers_of e)"
    and "\<And>k e k' e' c. (k, e) \<in> set tbl \<Longrightarrow> (k', e') \<in> set tbl \<Longrightarrow> c \<in> set (publishers_of e) \<Longrightarrow>
      c \<in> set (publishers_of e') \<Longrightarrow> k' = k"
  shows "\<exists>st'. ps_foreach (data_remove_local_entries_for_addr env addr) tbl st =
      Some (map (\<lambda>(k, e). (k, entry_without_host addr e)) tbl, st') \<and> same_store st st' \<and>
    (\<forall>c S. (\<forall>(k, e) \<in> set tbl. c \<notin> set (publishers_of e)) \<longrightarrow> knows c S (ps_trace st) \<longrightarrow> knows c S (ps_trace st')) \<and>
    (\<forall>k e c. (k, e) \<in> set tbl \<longrightarrow> c \<in> set (publishers_of e) \<longrightarrow> knows c (subs_of (ps_methods e)) (ps_trace st) \<longrightarrow>
      knows c (subs_of (ps_methods (entry_without_host addr e))) (ps_trace st'))"
  using assms
proof (induction tbl arbitrary: st)
  case Nil
  then show ?case by simp
next
  case (Cons x tbl)
  obtain k e where x: "x = (k, e)" by fastforce
  have "methods_ok (ps_methods e)" "distinct (publishers_of e)" using Cons.prems(2) [of k e] x by simp_all
  then obtain st1 where r: "data_remove_local_entries_for_addr env addr e st = Some (entry_without_host addr e, st1)"
    "same_store st st1"
    "\<And>c S. c \<notin> set (publishers_of e) \<Longrightarrow> knows c S (ps_trace st) \<Longrightarrow> knows c S (ps_trace st1)"
    "\<And>c. c \<in> set (publishers_of e) \<Longrightarrow> knows c (subs_of (ps_methods e)) (ps_trace st) \<Longrightarrow>
      knows c (subs_of (ps_methods (entry_without_host addr e))) (ps_trace st1)"
    using remove_entries_for_addr by (metis (lifting))
  have IH: "\<exists>st'. ps_foreach (data_remove_local_entries_for_addr env addr) tbl st1 =
      Some (map (\<lambda>(k, e). (k, entry_without_host addr e)) tbl, st') \<and> same_store st1 st' \<and>
    (\<forall>c S. (\<forall>(k, e) \<in> set tbl. c \<notin> set (publishers_of e)) \<longrightarrow> knows c S (ps_trace st1) \<longrightarrow> knows c S (ps_trace st')) \<and>
    (\<forall>k e c. (k, e) \<in> set tbl \<longrightarrow> c \<in> set (publishers_of e) \<longrightarrow> knows c (subs_of (ps_methods e)) (ps_trace st1) \<longrightarrow>
      knows c (subs_of (ps_methods (entry_without_host addr e))) (ps_trace st'))"
  proof (rule Cons.IH)
    show "k' = k" if "(k, e) \<in> set tbl" "(k', e') \<in> set tbl" "c \<in> set (publishers_of e)" "c \<in> set (publishers_of e')"
      for k e k' e' c
      by (rule Cons.prems(3) [OF _ _ that(3,4)]) (use that in simp_all)
    show "methods_ok (ps_methods e) \<and> distinct (publishers_of e)" if "(k, e) \<in> set tbl" for k e
      by (rule Cons.prems(2) [of k e]) (use that in simp)
  qed (use Cons.prems(1) in simp)
  then obtain st2 where i: "ps_foreach (data_remove_local_entries_for_addr env addr) tbl st1 =
      Some (map (\<lambda>(k, e). (k, entry_without_host addr e)) tbl, st2)" "same_store st1 st2"
    "\<And>c S. (\<forall>(k, e) \<in> set tbl. c \<notin> set (publishers_of e)) \<Longrightarrow> knows c S (ps_trace st1) \<Longrightarrow> knows c S (ps_trace st2)"
    "\<And>k e c. (k, e) \<in> set tbl \<Longrightarrow> c \<in> set (publishers_of e) \<Longrightarrow> knows c (subs_of (ps_methods e)) (ps_trace st1) \<Longrightarrow>
      knows c (subs_of (ps_methods (entry_without_host addr e))) (ps_trace st2)"
    by blast
  have apart: "c \<notin> set (publishers_of e')" if "(k', e') \<in> set tbl" "c \<in> set (publishers_of e)" for k' e' c
  proof
    assume "c \<in> set (publishers_of e')"
    then have "k' = k" using Cons.prems(3) [of k e k' e' c] that x by simp
    then show False using Cons.prems(1) x that(1) by (force simp: image_iff)
  qed
  have "knows c (subs_of (ps_methods (entry_without_host addr e1))) (ps_trace st2)"
    if "(k1, e1) \<in> set (x # tbl)" "c \<in> set (publishers_of e1)" "knows c (subs_of (ps_methods e1)) (ps_trace st)" for k1 e1 c
  proof (cases "(k1, e1) = x")
    case True
    then have e1: "e1 = e" using x by simp
    have "\<forall>(k', e') \<in> set tbl. c \<notin> set (publishers_of e')" using apart that(2) e1 by blast
    from i(3) [OF this r(4)] that(2,3) e1 show ?thesis by simp
  next
    case False
    then have mem: "(k1, e1) \<in> set tbl" using that(1) by simp
    have "c \<notin> set (publishers_of e)" using apart [OF mem] that(2) by blast
    from i(4) [OF mem that(2) r(3) [OF this that(3)]] show ?thesis .
  qed
  moreover have "knows c S (ps_trace st2)"
    if "\<forall>(k1, e1) \<in> set (x # tbl). c \<notin> set (publishers_of e1)" "knows c S (ps_trace st)" for c S
    using that i(3) [of c S] r(3) [of c S] x by simp
  ultimately show ?case
    using r(1) i(1) same_store_trans [OF r(2) i(2)] x by (intro exI [of _ st2]) simp
qed

text \<open>The emptied services go, and nothing else of the store changes.\<close>

lemma fold_entry_free:
  "same_store st (fold (\<lambda>(k, e). ps_service_entry_free k e) es st)"
  "knows c S (ps_trace (fold (\<lambda>(k, e). ps_service_entry_free k e) es st)) \<longleftrightarrow> knows c S (ps_trace st)"
proof (induction es arbitrary: st)
  case Nil
  { case 1 show ?case by simp next case 2 show ?case by simp }
next
  case (Cons x es)
  obtain k e where x: "x = (k, e)" by fastforce
  { case (1 st)
    from same_store_trans [OF entry_free_store Cons.IH(1), of st k e] show ?case by (simp add: x)
  next
    case (2 st)
    from Cons.IH(2) [of "ps_service_entry_free k e st"] show ?case by (simp add: x) }
qed

lemma map_of_map_entry: "map_of (map (\<lambda>(k, e). (k, f e)) tbl) k = map_option f (map_of tbl k)"
  by (induction tbl) auto

lemma psd_inv_shrink:
  assumes inv: "psd_inv st"
    and old: "\<And>k e'. map_of (ps_table st') k = Some e' \<Longrightarrow>
      \<exists>e. map_of (ps_table st) k = Some e \<and> publishers_of e' = publishers_of e \<and> entry_fine (ps_next st') e' \<and>
        (\<forall>c \<in> set (publishers_of e). knows c (subs_of (ps_methods e')) (ps_trace st'))"
    and "distinct (map fst (ps_table st'))" "\<forall>info \<in> set (ps_remote st'). info_ok (sub_transport info)"
  shows "psd_inv st'"
proof (rule psd_invI)
  fix k e k' e' c
  assume h: "map_of (ps_table st') k = Some e" "map_of (ps_table st') k' = Some e'"
    "c \<in> set (publishers_of e)" "c \<in> set (publishers_of e')"
  obtain a b where "map_of (ps_table st) k = Some a" "publishers_of e = publishers_of a"
    "map_of (ps_table st) k' = Some b" "publishers_of e' = publishers_of b"
    using old [OF h(1)] old [OF h(2)] by blast
  with h(3,4) psd_invD(4) [OF inv, of k a k' b c] show "k' = k" by simp
next
  fix k e c
  assume h: "map_of (ps_table st') k = Some e"
  from old [OF h] show "entry_fine (ps_next st') e" by blast
  assume "c \<in> set (publishers_of e)"
  with old [OF h] show "knows c (subs_of (ps_methods e)) (ps_trace st')" by auto
qed (fact assms(3,4))+

text \<open>The table after the removal, by lookups.\<close>

definition table_without_host :: "u8 list \<Rightarrow> (string \<times> ps_service_entry) list \<Rightarrow> (string \<times> ps_service_entry) list" where
  "table_without_host addr tbl =
     filter (\<lambda>(k, e). \<not> data_remove_empty_services e) (map (\<lambda>(k, e). (k, entry_without_host addr e)) tbl)"

lemma table_without_host_lookup:
  assumes "distinct (map fst tbl)"
  shows "distinct (map fst (table_without_host addr tbl))"
    "map_of (table_without_host addr tbl) k = (case map_of tbl k of None \<Rightarrow> None
      | Some e \<Rightarrow> if data_remove_empty_services (entry_without_host addr e) then None else Some (entry_without_host addr e))"
proof -
  have d: "distinct (map fst (map (\<lambda>(k, e). (k, entry_without_host addr e)) tbl))"
    using assms by (simp add: comp_def case_prod_beta)
  show "distinct (map fst (table_without_host addr tbl))"
    unfolding table_without_host_def by (rule distinct_filter_entry [OF d])
  show "map_of (table_without_host addr tbl) k = (case map_of tbl k of None \<Rightarrow> None
      | Some e \<Rightarrow> if data_remove_empty_services (entry_without_host addr e) then None else Some (entry_without_host addr e))"
    using map_of_filter_entry [OF d, of "\<lambda>e. \<not> data_remove_empty_services e" k]
    by (simp add: table_without_host_def map_of_map_entry split: option.splits)
qed

lemma host_removal_run:
  assumes "psd_inv st"
  obtains st' where "data_remove_local_subscriptions_for_addr env addr st = Some st'"
    "ps_table st' = table_without_host addr (ps_table st)" "ps_next st' = ps_next st" "ps_remote st' = ps_remote st"
    "ps_tports st' = ps_tports st" "ps_sync_clients st' = ps_sync_clients st"
    "\<And>k e c. map_of (ps_table st) k = Some e \<Longrightarrow> c \<in> set (publishers_of e) \<Longrightarrow>
      knows c (subs_of (ps_methods (entry_without_host addr e))) (ps_trace st')"
proof -
  note D = psd_invD [OF assms]
  let ?tbl = "map (\<lambda>(k, e). (k, entry_without_host addr e)) (ps_table st)"
  have mem: "map_of (ps_table st) k = Some e" if "(k, e) \<in> set (ps_table st)" for k e
    using map_of_is_SomeI [OF D(1) that] .
  have "\<exists>st'. ps_foreach (data_remove_local_entries_for_addr env addr) (ps_table st) st = Some (?tbl, st') \<and> same_store st st' \<and>
    (\<forall>c S. (\<forall>(k, e) \<in> set (ps_table st). c \<notin> set (publishers_of e)) \<longrightarrow> knows c S (ps_trace st) \<longrightarrow> knows c S (ps_trace st')) \<and>
    (\<forall>k e c. (k, e) \<in> set (ps_table st) \<longrightarrow> c \<in> set (publishers_of e) \<longrightarrow> knows c (subs_of (ps_methods e)) (ps_trace st) \<longrightarrow>
      knows c (subs_of (ps_methods (entry_without_host addr e))) (ps_trace st'))"
  proof (rule foreach_exact [OF D(1)])
    show "methods_ok (ps_methods e) \<and> distinct (publishers_of e)" if "(k, e) \<in> set (ps_table st)" for k e
      using entry_fineD(1,3) [OF D(2) [OF mem [OF that]]] by simp
    show "k' = k" if "(k, e) \<in> set (ps_table st)" "(k', e') \<in> set (ps_table st)"
      "c \<in> set (publishers_of e)" "c \<in> set (publishers_of e')" for k e k' e' c
      by (rule D(4) [OF mem [OF that(1)] mem [OF that(2)] that(3,4)])
  qed
  then obtain st1 where r: "ps_foreach (data_remove_local_entries_for_addr env addr) (ps_table st) st = Some (?tbl, st1)"
    "same_store st st1"
    "\<And>k e c. (k, e) \<in> set (ps_table st) \<Longrightarrow> c \<in> set (publishers_of e) \<Longrightarrow> knows c (subs_of (ps_methods e)) (ps_trace st) \<Longrightarrow>
      knows c (subs_of (ps_methods (entry_without_host addr e))) (ps_trace st1)" by blast
  let ?gone = "filter (\<lambda>(k, e). data_remove_empty_services e) ?tbl"
  let ?st' = "fold (\<lambda>(k, e). ps_service_entry_free k e) ?gone (st1\<lparr>ps_table := table_without_host addr (ps_table st)\<rparr>)"
  have res: "data_remove_local_subscriptions_for_addr env addr st = Some ?st'"
    by (simp only: data_remove_local_subscriptions_for_addr_def r(1) option.map prod.case table_without_host_def)
  note same = same_storeD [OF fold_entry_free(1), of ?gone "st1\<lparr>ps_table := table_without_host addr (ps_table st)\<rparr>"]
    same_storeD [OF r(2)]
  have told: "knows c (subs_of (ps_methods (entry_without_host addr e))) (ps_trace ?st')"
    if "map_of (ps_table st) k = Some e" "c \<in> set (publishers_of e)" for k e c
    unfolding fold_entry_free(2) using r(3) [OF map_of_SomeD [OF that(1)] that(2) D(3) [OF that]] by simp
  show ?thesis by (rule that [OF res _ _ _ _ _ told]) (use same in simp_all)
qed

lemma host_removal_store:
  assumes "psd_inv st"
  shows "\<exists>st'. data_remove_local_subscriptions_for_addr env addr st = Some st' \<and> psd_inv st' \<and>
    psd_subs st' = (\<lambda>k. apply_update (Upd_host addr) (psd_subs st k)) \<and> ps_remote st' = ps_remote st \<and>
    ps_tports st' = ps_tports st \<and> ps_sync_clients st' = ps_sync_clients st \<and> ps_next st' = ps_next st"
proof -
  note D = psd_invD [OF assms]
  obtain st' where st': "data_remove_local_subscriptions_for_addr env addr st = Some st'"
    "ps_table st' = table_without_host addr (ps_table st)" "ps_next st' = ps_next st" "ps_remote st' = ps_remote st"
    "ps_tports st' = ps_tports st" "ps_sync_clients st' = ps_sync_clients st"
    "\<And>k e c. map_of (ps_table st) k = Some e \<Longrightarrow> c \<in> set (publishers_of e) \<Longrightarrow>
      knows c (subs_of (ps_methods (entry_without_host addr e))) (ps_trace st')"
    using host_removal_run [OF assms] by (metis (lifting))
  note look = table_without_host_lookup [OF D(1), of addr, folded st'(2)]
  have fine: "methods_ok (ps_methods e)" if "map_of (ps_table st) k = Some e" for k e
    by (rule entry_fineD(1) [OF D(2) [OF that]])
  have "psd_inv st'"
  proof (rule psd_inv_shrink [OF assms _ look(1)])
    fix k e' assume "map_of (ps_table st') k = Some e'"
    then obtain e where e: "map_of (ps_table st) k = Some e" "e' = entry_without_host addr e"
      unfolding look(2) by (auto split: option.splits if_splits)
    have "entry_fine (ps_next st') e'"
      using D(2) [OF e(1)] without_host_exact(1) [OF fine [OF e(1)]] e(2) st'(3)
      by (simp add: entry_fine_def entry_without_host_def)
    with e st'(7) [OF e(1)] show "\<exists>e. map_of (ps_table st) k = Some e \<and> publishers_of e' = publishers_of e \<and>
        entry_fine (ps_next st') e' \<and> (\<forall>c \<in> set (publishers_of e). knows c (subs_of (ps_methods e')) (ps_trace st'))"
      by simp
  qed (use D(5) st'(4) in simp)
  moreover have "psd_subs st' k = apply_update (Upd_host addr) (psd_subs st k)" for k
  proof (cases "map_of (ps_table st) k")
    case None
    then show ?thesis by (simp add: psd_subs_def look(2) fun_eq_iff)
  next
    case (Some e)
    have "subs_of (ps_methods (entry_without_host addr e)) = (\<lambda>_. {#})"
      if "data_remove_empty_services (entry_without_host addr e)"
      using that by (simp add: data_remove_empty_services_def)
    then have "psd_subs st' k = subs_of (ps_methods (entry_without_host addr e))"
      using Some by (simp add: psd_subs_def look(2))
    with subs_without_host [OF fine [OF Some]] show ?thesis by (simp only: psd_subs_Some [OF Some])
  qed
  ultimately show ?thesis using st' by (intro exI [of _ st']) (simp add: fun_eq_iff)
qed

section \<open>Publishers\<close>

text \<open>A new publisher is told the subscriptions of its service; the store stays as it is.\<close>

lemma add_child_composite:
  assumes "comp_is_composite cc" "c \<notin> set (comp_children cc)" "distinct (comp_children cc)"
  obtains cc' where "snd (cmsg_composite_client_add_child tports (Some cc) (Some c)) = Some cc'"
    "comp_is_composite cc'" "set (comp_children cc') = insert c (set (comp_children cc))" "distinct (comp_children cc')"
  using assms that by (auto simp: cmsg_composite_client_add_child_def)

lemma add_publisher_exact:
  assumes "psd_inv st" "info_ok ti"
  shows "\<exists>st' e. cmsg_psd_configuration_impl_add_publisher env k ti st = Some st' \<and> psd_inv st' \<and>
    psd_subs st' = psd_subs st \<and> ps_remote st' = ps_remote st \<and>
    map_of (ps_table st') k = Some e \<and> ps_next st \<in> set (publishers_of e)"
proof -
  obtain e st1 where g: "ps_get_service_entry_or_create env k True st = (Some e, st1)" "psd_inv st1"
    "map_of (ps_table st1) k = Some e" "psd_subs st1 = psd_subs st" "ps_next st1 = ps_next st" "ps_remote st1 = ps_remote st"
    using get_service_entry_exact [OF assms(1)] by metis
  have fine: "entry_fine (ps_next st1) e" by (rule psd_invD(2) [OF g(2,3)])
  note ok = entry_fineD [OF fine]
  let ?c = "ps_next st1" and ?t = "(ps_tports st1)(ps_next st1 := transport_of_info ti)"
  have new: "?c \<notin> set (publishers_of e)" using ok(4) by blast
  obtain cc where cc: "snd (cmsg_composite_client_add_child ?t (Some (ps_comp_client e)) (Some ?c)) = Some cc"
    "comp_is_composite cc" "set (comp_children cc) = insert ?c (set (publishers_of e))" "distinct (comp_children cc)"
    using add_child_composite [OF ok(2) new ok(3)] by metis
  let ?e' = "e\<lparr>ps_comp_client := cc\<rparr>"
  let ?put = "ps_put_entry k ?e' (st1\<lparr>ps_tports := ?t, ps_next := ?c + 1\<rparr>)"
  let ?st' = "ps_log (Psd_registered ?c (ps_methods e) (delivered env (ps_trace st1) ?c)) ?put"
  have "data_add_publisher env k ti st = Some (Some ?c, ?put)"
    using cc(1) by (simp add: data_add_publisher_def g(1) info_to_transport_ok [OF assms(2)] Let_def)
  then have r: "cmsg_psd_configuration_impl_add_publisher env k ti st = Some ?st'"
    by (simp add: cmsg_psd_configuration_impl_add_publisher_def data_get_subscription_info_for_service_def
        ps_put_entry_def update_conv)
  have st': "ps_table ?st' = AList.update k ?e' (ps_table st1)" "ps_next ?st' = Suc ?c" "ps_remote ?st' = ps_remote st1"
    "ps_trace ?st' = ps_trace st1 @ [Psd_registered ?c (ps_methods e) (delivered env (ps_trace st1) ?c)]"
    by (simp_all add: ps_put_entry_def)
  have "psd_inv ?st'"
  proof (rule psd_inv_put [OF g(2,3) st'(1) _ st'(3)])
    have "\<forall>c \<in> set (comp_children cc). c < Suc ?c" using ok(4) cc(3) by (auto intro: less_SucI)
    then show "entry_fine (ps_next ?st') ?e'" unfolding st'(2) using ok(1) cc(2,4) by (simp add: entry_fine_def)
    fix c assume "c \<in> set (publishers_of ?e')"
    then have c: "c = ?c \<or> c \<in> set (publishers_of e)" using cc(3) by simp
    then show "c \<in> set (publishers_of e) \<or> ?c \<le> c" by auto
    show "knows c (subs_of (ps_methods ?e')) (ps_trace ?st')"
    proof (cases "c = ?c")
      case True
      then show ?thesis unfolding st'(4) using knows_registered [OF ok(1)] by simp
    next
      case False
      with c psd_invD(3) [OF g(2,3), of c] show ?thesis unfolding st'(4) by simp
    qed
  next
    fix c S assume "c < ?c" "knows c S (ps_trace st1)"
    then show "knows c S (ps_trace ?st')" unfolding st'(4) by simp
  next
    show "?c \<le> ps_next ?st'" unfolding st'(2) by simp
  qed
  moreover have "psd_subs ?st' = psd_subs st"
    using psd_subs_update [OF st'(1)] by (simp add: g(4) [symmetric] psd_subs_Some [OF g(3), symmetric])
  ultimately show ?thesis using r st' g(5,6) cc(3) by (intro exI [of _ ?st'] exI [of _ ?e']) (simp add: update_conv)
qed

lemma remove_publisher_exact:
  assumes "psd_inv st" "info_ok ti"
  shows "\<exists>st'. cmsg_psd_configuration_impl_remove_publisher env k ti st = Some st' \<and> psd_inv st' \<and>
    psd_subs st' = psd_subs st \<and> ps_remote st' = ps_remote st"
proof (cases "map_of (ps_table st) k")
  case None
  with assms(1) show ?thesis
    by (simp add: cmsg_psd_configuration_impl_remove_publisher_def data_remove_publisher_def ps_get_service_entry_or_create_def)
next
  case (Some e)
  have fine: "entry_fine (ps_next st) e" by (rule psd_invD(2) [OF assms(1) Some])
  note ok = entry_fineD [OF fine]
  let ?P = "\<lambda>c. cmsg_transport_compare (ps_tports st c) (transport_of_info ti)"
  have find: "list_find (\<lambda>c. Some (?P c)) (publishers_of e) = Some (List.find ?P (publishers_of e))"
    by (rule list_find_total) simp
  show ?thesis
  proof (cases "List.find ?P (publishers_of e)")
    case None
    with find assms(1) Some ok(2) show ?thesis
      by (simp add: cmsg_psd_configuration_impl_remove_publisher_def data_remove_publisher_def
          ps_get_service_entry_or_create_def info_to_transport_ok [OF assms(2)] cmsg_composite_client_get_children_def)
  next
    case (Some c)
    let ?cc = "(ps_comp_client e)\<lparr>comp_children := remove1 c (publishers_of e),
      comp_parent_set := removeAll c (comp_parent_set (ps_comp_client e))\<rparr>"
    let ?e' = "e\<lparr>ps_comp_client := ?cc\<rparr>"
    let ?st' = "ps_log (Psd_destroy_client c) (ps_put_entry k ?e' st)"
    have e: "map_of (ps_table st) k = Some e" by fact
    have r: "cmsg_psd_configuration_impl_remove_publisher env k ti st = Some ?st'"
      using find Some e ok(2)
      by (simp add: cmsg_psd_configuration_impl_remove_publisher_def data_remove_publisher_def
          ps_get_service_entry_or_create_def info_to_transport_ok [OF assms(2)] cmsg_composite_client_get_children_def
          cmsg_composite_client_delete_child_def)
    have st': "ps_table ?st' = AList.update k ?e' (ps_table st)" "ps_next ?st' = ps_next st"
      "ps_remote ?st' = ps_remote st" "ps_trace ?st' = ps_trace st @ [Psd_destroy_client c]"
      by (simp_all add: ps_put_entry_def)
    have sub: "c1 \<in> set (publishers_of e)" if "c1 \<in> set (publishers_of ?e')" for c1
      using that set_remove1_subset [of c "publishers_of e"] by auto
    have "psd_inv ?st'"
    proof (rule psd_inv_put [OF assms(1) e st'(1) _ st'(3)])
      have "\<forall>c1 \<in> set (remove1 c (publishers_of e)). c1 < ps_next st"
        using ok(4) set_remove1_subset [of c "publishers_of e"] by blast
      then show "entry_fine (ps_next ?st') ?e'" unfolding st'(2) using ok(1,2,3) by (simp add: entry_fine_def)
      fix c1 assume c1: "c1 \<in> set (publishers_of ?e')"
      show "c1 \<in> set (publishers_of e) \<or> ps_next st \<le> c1" using sub [OF c1] ..
      show "knows c1 (subs_of (ps_methods ?e')) (ps_trace ?st')"
        unfolding st'(4) using psd_invD(3) [OF assms(1) e sub [OF c1]] by simp
    next
      fix c1 S assume "knows c1 S (ps_trace st)"
      then show "knows c1 S (ps_trace ?st')" unfolding st'(4) by simp
    qed (simp only: st'(2))
    moreover have "psd_subs ?st' = psd_subs st"
      using psd_subs_update [OF st'(1)] by (simp add: psd_subs_Some [OF e, symmetric])
    ultimately show ?thesis using r st'(3) by blast
  qed
qed

section \<open>Subscriptions of this host and of others\<close>

type_synonym remote_key = "string \<times> string \<times> u8 list option \<times> ps_key"

definition remote_key :: "ps_subscription \<Rightarrow> remote_key" where
  "remote_key info = (sub_service info, sub_method info, sub_remote_addr info, info_key (sub_transport info))"

definition remote_subs :: "psd_state \<Rightarrow> remote_key multiset" where
  "remote_subs st = image_mset remote_key (mset (ps_remote st))"

text \<open>What a subscription is in the abstract store: where it is kept depends on its address.\<close>

definition subscribed :: "ps_subscription \<Rightarrow> bool \<Rightarrow> psd_state \<Rightarrow> psd_state \<Rightarrow> bool" where
  "subscribed info added st st' \<longleftrightarrow>
     (case sub_remote_addr info of
        None \<Rightarrow> remote_subs st' = remote_subs st \<and>
          psd_subs st' = (psd_subs st)(sub_service info :=
            apply_update (Upd_change (sub_method info) (sub_transport info) added) (psd_subs st (sub_service info)))
      | Some _ \<Rightarrow> psd_subs st' = psd_subs st \<and>
          remote_subs st' = (if added then add_mset (remote_key info) (remote_subs st)
                             else remote_subs st - {#remote_key info#}))"

lemma add_subscription_exact:
  assumes "psd_inv st" "info_ok (sub_transport info)"
  shows "\<exists>st'. cmsg_psd_configuration_impl_add_subscription env info st = Some st' \<and> psd_inv st' \<and> subscribed info True st st'"
proof (cases "sub_remote_addr info")
  case None
  from add_local_exact [OF assms, of env] obtain st' where
    "data_add_local_subscription env info st = Some st'" "psd_inv st'" "ps_remote st' = ps_remote st"
    "psd_subs st' = (psd_subs st)(sub_service info :=
      apply_update (Upd_change (sub_method info) (sub_transport info) True) (psd_subs st (sub_service info)))" by blast
  with None show ?thesis
    by (simp add: cmsg_psd_configuration_impl_add_subscription_def data_add_subscription_def subscribed_def remote_subs_def)
next
  case (Some addr)
  let ?st' = "remote_sync_subscription_added env info (st\<lparr>ps_remote := info # ps_remote st\<rparr>)"
  have rem: "ps_remote ?st' = info # ps_remote st" by (simp add: remote_sync_subscription_added_def sync_quiet)
  have q: "quiet st ?st'" by (simp add: remote_sync_subscription_added_def sync_quiet)
  have "\<forall>a \<in> set (ps_remote ?st'). info_ok (sub_transport a)" using psd_invD(5) [OF assms(1)] assms(2) rem by simp
  from quiet_inv [OF assms(1) q this] Some rem show ?thesis
    by (simp add: cmsg_psd_configuration_impl_add_subscription_def data_add_subscription_def subscribed_def remote_subs_def)
qed

lemma remote_compare_key:
  assumes "info_ok (sub_transport a)" "info_ok (sub_transport b)"
  shows "remote_subscription_compare a b = Some (remote_key a = remote_key b)"
  using info_compare_key [OF assms] by (auto simp: remote_subscription_compare_def remote_key_def)

lemma remove_remote_exact:
  assumes "psd_inv st" "info_ok (sub_transport info)"
  shows "\<exists>st'. data_remove_remote_subscription env info st = Some st' \<and> psd_inv st' \<and> psd_subs st' = psd_subs st \<and>
    remote_subs st' = remote_subs st - {#remote_key info#}"
proof -
  have find: "list_find (\<lambda>a. remote_subscription_compare a info) (ps_remote st) =
      Some (List.find (\<lambda>a. remote_key a = remote_key info) (ps_remote st))"
    by (rule list_find_total) (use psd_invD(5) [OF assms(1)] remote_compare_key [OF _ assms(2)] in blast)
  show ?thesis
  proof (cases "List.find (\<lambda>a. remote_key a = remote_key info) (ps_remote st)")
    case None
    then have "remote_key info \<notin># remote_subs st" by (auto simp: find_None_iff remote_subs_def)
    with find None assms(1) show ?thesis by (simp add: data_remove_remote_subscription_def diff_single_trivial)
  next
    case (Some a)
    let ?st' = "remote_sync_subscription_removed env info (st\<lparr>ps_remote := remove1 a (ps_remote st)\<rparr>)"
    note a = find_SomeD [OF Some]
    have rem: "ps_remote ?st' = remove1 a (ps_remote st)" by (simp add: remote_sync_subscription_removed_def sync_quiet)
    have q: "quiet st ?st'" by (simp add: remote_sync_subscription_removed_def sync_quiet)
    have ok: "\<forall>b \<in> set (ps_remote ?st'). info_ok (sub_transport b)"
      using psd_invD(5) [OF assms(1)] rem set_remove1_subset by fastforce
    have "remote_subs ?st' = remote_subs st - {#remote_key info#}"
      unfolding remote_subs_def rem using a image_mset_remove1 [of a "ps_remote st" remote_key] by simp
    with quiet_inv [OF assms(1) q ok] find Some show ?thesis by (simp add: data_remove_remote_subscription_def)
  qed
qed

lemma remove_subscription_exact:
  assumes "psd_inv st" "info_ok (sub_transport info)"
  shows "\<exists>st'. cmsg_psd_configuration_impl_remove_subscription env info st = Some st' \<and> psd_inv st' \<and> subscribed info False st st'"
proof (cases "sub_remote_addr info")
  case None
  from remove_local_exact [OF assms, of env] obtain st' where
    "data_remove_local_subscription env info st = Some st'" "psd_inv st'" "ps_remote st' = ps_remote st"
    "psd_subs st' = (psd_subs st)(sub_service info :=
      drop_key (sub_method info) (info_key (sub_transport info)) (psd_subs st (sub_service info)))" by blast
  with None show ?thesis
    by (simp add: cmsg_psd_configuration_impl_remove_subscription_def data_remove_subscription_def subscribed_def
        remote_subs_def drop_key_def)
next
  case (Some addr)
  with remove_remote_exact [OF assms, of env] show ?thesis
    by (simp add: cmsg_psd_configuration_impl_remove_subscription_def data_remove_subscription_def subscribed_def)
qed

section \<open>What other hosts send\<close>

definition add_all :: "ps_subscription list \<Rightarrow> (string \<Rightarrow> ps_subs) \<Rightarrow> string \<Rightarrow> ps_subs" where
  "add_all infos = fold (\<lambda>info S. S(sub_service info :=
     apply_update (Upd_change (sub_method info) (sub_transport info) True) (S (sub_service info)))) infos"

lemma bulk_sync_exact:
  "psd_inv st \<Longrightarrow> \<forall>info \<in> set infos. info_ok (sub_transport info) \<Longrightarrow>
    \<exists>st'. cmsg_psd_remote_sync_impl_bulk_sync env infos st = Some st' \<and> psd_inv st' \<and>
      psd_subs st' = add_all infos (psd_subs st) \<and> ps_remote st' = ps_remote st"
proof (induction infos arbitrary: st)
  case Nil
  then show ?case by (simp add: add_all_def)
next
  case (Cons info infos)
  then have ok: "info_ok (sub_transport info)" "\<forall>info \<in> set infos. info_ok (sub_transport info)" by simp_all
  obtain st1 where st1: "data_add_local_subscription env info st = Some st1" "psd_inv st1" "ps_remote st1 = ps_remote st"
    "psd_subs st1 = (psd_subs st)(sub_service info :=
      apply_update (Upd_change (sub_method info) (sub_transport info) True) (psd_subs st (sub_service info)))"
    using add_local_exact [OF Cons.prems(1) ok(1), of env] by blast
  obtain st2 where "cmsg_psd_remote_sync_impl_bulk_sync env infos st1 = Some st2" "psd_inv st2"
    "psd_subs st2 = add_all infos (psd_subs st1)" "ps_remote st2 = ps_remote st1"
    using Cons.IH [OF st1(2) ok(2)] by blast
  with st1 show ?case by (simp add: add_all_def)
qed

lemma sync_event_quiet:
  "quiet st (remote_sync_bulk_sync_subscriptions env c (st\<lparr>ps_tports := tp, ps_sync_clients := cs, ps_next := Suc (ps_next st)\<rparr>))"
  "quiet st ((ps_log (Psd_destroy_client c) st)\<lparr>ps_sync_clients := cs\<rparr>)"
  "quiet st (ps_remote_sync_address_set env addr st)"
  by (auto simp: quiet_def remote_sync_bulk_sync_subscriptions_def ps_remote_sync_address_set_def split: option.split)

lemma address_set_exact:
  assumes "psd_inv st"
  shows "psd_inv (cmsg_psd_configuration_impl_address_set env addr st)"
    "psd_subs (cmsg_psd_configuration_impl_address_set env addr st) = psd_subs st"
proof -
  have "ps_remote (ps_remote_sync_address_set env addr st) = ps_remote st"
    by (simp add: ps_remote_sync_address_set_def split: option.split)
  with psd_invD(5) [OF assms] quiet_inv [OF assms sync_event_quiet(3), of env addr]
  show "psd_inv (cmsg_psd_configuration_impl_address_set env addr st)"
    "psd_subs (cmsg_psd_configuration_impl_address_set env addr st) = psd_subs st"
    by (simp_all add: cmsg_psd_configuration_impl_address_set_def)
qed

lemma sync_sl_event_exact:
  assumes "psd_inv st" "ps_sync_server st = Some own"
  shows "\<exists>st'. remote_sync_sl_event_handler env transport added st = Some st' \<and> psd_inv st' \<and>
    ps_remote st' = ps_remote st \<and>
    psd_subs st' = (if cmsg_transport_compare own transport \<or> added then psd_subs st
                    else (\<lambda>k. apply_update (Upd_host (sin_addr transport)) (psd_subs st k)))"
proof (cases "cmsg_transport_compare own transport \<or> added")
  case True
  let ?st = "remote_sync_bulk_sync_subscriptions env (ps_next st)
    (st\<lparr>ps_tports := (ps_tports st)(ps_next st := transport), ps_sync_clients := ps_next st # ps_sync_clients st,
        ps_next := Suc (ps_next st)\<rparr>)"
  have rem: "ps_remote ?st = ps_remote st" by (simp add: remote_sync_bulk_sync_subscriptions_def)
  have "remote_sync_sl_event_handler env transport added st =
      Some (if cmsg_transport_compare own transport then st else ?st)"
    using True assms(2) by (cases "cmsg_transport_compare own transport") (simp_all add: remote_sync_sl_event_handler_def Let_def)
  with True assms(1) rem psd_invD(5) [OF assms(1)] quiet_inv [OF assms(1) sync_event_quiet(1), of env "ps_next st"]
  show ?thesis by simp
next
  case False
  obtain st1 where st1: "data_remove_local_subscriptions_for_addr env (sin_addr transport) st = Some st1" "psd_inv st1"
    "psd_subs st1 = (\<lambda>k. apply_update (Upd_host (sin_addr transport)) (psd_subs st k))" "ps_remote st1 = ps_remote st"
    using host_removal_store [OF assms(1), of env "sin_addr transport"] by blast
  have q: "psd_inv ((ps_log (Psd_destroy_client c) st1)\<lparr>ps_sync_clients := cs\<rparr>)"
    "psd_subs ((ps_log (Psd_destroy_client c) st1)\<lparr>ps_sync_clients := cs\<rparr>) = psd_subs st1" for c cs
    using quiet_inv [OF st1(2) sync_event_quiet(2) [of st1 cs c]] psd_invD(5) [OF st1(2)] by simp_all
  show ?thesis
    using False assms(2) st1 q
    by (simp add: remote_sync_sl_event_handler_def split: option.split)
qed

section \<open>The daemon's states\<close>

text \<open>
  A step is a call of a handler with descriptions that are as the library makes them, and an
  event of one of the two service listener subscriptions.
\<close>

inductive psd_step :: "psd_env \<Rightarrow> psd_state \<Rightarrow> psd_state \<Rightarrow> bool" for env where
  Address_set: "psd_step env st (cmsg_psd_configuration_impl_address_set env addr st)"
| Add_subscription: "info_ok (sub_transport info) \<Longrightarrow>
    cmsg_psd_configuration_impl_add_subscription env info st = Some st' \<Longrightarrow> psd_step env st st'"
| Remove_subscription: "info_ok (sub_transport info) \<Longrightarrow>
    cmsg_psd_configuration_impl_remove_subscription env info st = Some st' \<Longrightarrow> psd_step env st st'"
| Remove_subscriber: "info_ok info \<Longrightarrow>
    cmsg_psd_configuration_impl_remove_subscriber env service info st = Some st' \<Longrightarrow> psd_step env st st'"
| Add_publisher: "info_ok info \<Longrightarrow>
    cmsg_psd_configuration_impl_add_publisher env service info st = Some st' \<Longrightarrow> psd_step env st st'"
| Remove_publisher: "info_ok info \<Longrightarrow>
    cmsg_psd_configuration_impl_remove_publisher env service info st = Some st' \<Longrightarrow> psd_step env st st'"
| Remote_add: "info_ok (sub_transport info) \<Longrightarrow>
    cmsg_psd_remote_sync_impl_add_subscription env info st = Some st' \<Longrightarrow> psd_step env st st'"
| Remote_remove: "info_ok (sub_transport info) \<Longrightarrow>
    cmsg_psd_remote_sync_impl_remove_subscription env info st = Some st' \<Longrightarrow> psd_step env st st'"
| Remote_bulk: "\<forall>info \<in> set infos. info_ok (sub_transport info) \<Longrightarrow>
    cmsg_psd_remote_sync_impl_bulk_sync env infos st = Some st' \<Longrightarrow> psd_step env st st'"
| Server_event: "info_ok info \<Longrightarrow>
    sl_event_handler env service (transport_of_info info) added st = Some (listening, st') \<Longrightarrow> psd_step env st st'"
| Host_event: "ps_sync_server st \<noteq> None \<Longrightarrow> remote_sync_sl_event_handler env transport added st = Some st' \<Longrightarrow>
    psd_step env st st'"

inductive psd_reachable :: "psd_env \<Rightarrow> psd_state \<Rightarrow> bool" for env where
  Init: "psd_reachable env ps_data_init"
| Step: "psd_reachable env st \<Longrightarrow> psd_step env st st' \<Longrightarrow> psd_reachable env st'"

lemma remove_subscriber_handler_exact:
  assumes "psd_inv st" "info_ok info"
  shows "\<exists>st'. cmsg_psd_configuration_impl_remove_subscriber env k info st = Some st' \<and> psd_inv st' \<and>
    psd_subs st' = (psd_subs st)(k := drop_in UNIV (info_key info) (psd_subs st k)) \<and>
    ps_remote st' = filter (\<lambda>a. \<not> same_subscriber k (info_key info) a) (ps_remote st)"
  using psd_remove_subscriber_exact [OF assms, of env False k]
  by (auto simp: cmsg_psd_configuration_impl_remove_subscriber_def)

lemma server_event_inv:
  assumes "psd_inv st" "info_ok info" "sl_event_handler env k (transport_of_info info) added st = Some (b, st')"
  shows "psd_inv st'"
  using assms psd_remove_subscriber_exact [OF assms(1,2), of env True k]
  by (auto simp: sl_event_handler_def info_create_of_info split: if_splits)

lemma psd_inv_step: "psd_step env st st' \<Longrightarrow> psd_inv st \<Longrightarrow> psd_inv st'"
proof (induction rule: psd_step.induct)
  case (Address_set st addr)
  then show ?case by (rule address_set_exact(1))
next
  case (Add_subscription info st st')
  with add_subscription_exact [of st info env] show ?case by auto
next
  case (Remove_subscription info st st')
  with remove_subscription_exact [of st info env] show ?case by auto
next
  case (Remove_subscriber info service st st')
  with remove_subscriber_handler_exact [of st info env service] show ?case by auto
next
  case (Add_publisher info service st st')
  with add_publisher_exact [of st info env service] show ?case by auto
next
  case (Remove_publisher info service st st')
  with remove_publisher_exact [of st info env service] show ?case by auto
next
  case (Remote_add info st st')
  with add_local_exact [of st info env] show ?case by (auto simp: cmsg_psd_remote_sync_impl_add_subscription_def)
next
  case (Remote_remove info st st')
  with remove_local_exact [of st info env] show ?case by (auto simp: cmsg_psd_remote_sync_impl_remove_subscription_def)
next
  case (Remote_bulk infos st st')
  with bulk_sync_exact [of st infos env] show ?case by auto
next
  case (Server_event info service added st listening st')
  then show ?case by (blast intro: server_event_inv)
next
  case (Host_event st transport added st')
  with sync_sl_event_exact [of st _ env transport added] show ?case by auto
qed

lemma psd_inv_init: "psd_inv ps_data_init"
  by (rule psd_invI) (simp_all add: ps_data_init_def)

lemma psd_reachable_inv: "psd_reachable env st \<Longrightarrow> psd_inv st"
  by (induction rule: psd_reachable.induct) (auto intro: psd_inv_init psd_inv_step)

end
