(* ===== verification/PubSubProperties.thy ===== *)
theory PubSubProperties
  imports PubSubReach
begin

text \<open>
  The properties of the publisher subscriber daemon and its publishers, over the reachable
  states of \<open>PubSubReach\<close>.
\<close>

section \<open>The daemon's store as an index of subscriptions\<close>

definition psd_update :: "psd_env \<Rightarrow> string \<Rightarrow> ps_update \<Rightarrow> psd_state \<Rightarrow> psd_state option" where
  "psd_update env k u st =
     (case u of
        Upd_change m info added \<Rightarrow>
          (let s = \<lparr>sub_service = k, sub_transport = info, sub_method = m, sub_remote_addr = None\<rparr> in
           if added then cmsg_psd_configuration_impl_add_subscription env s st
           else cmsg_psd_configuration_impl_remove_subscription env s st)
      | Upd_host addr \<Rightarrow> data_remove_local_subscriptions_for_addr env addr st)"

interpretation daemon: subscription_index psd_inv "\<lambda>st. psd_subs st k" "psd_update env k" for env k
proof
  fix st u assume inv: "psd_inv st" and fits: "update_fits u (psd_subs st k)"
  show "\<exists>st'. psd_update env k u st = Some st' \<and> psd_inv st' \<and> psd_subs st' k = apply_update u (psd_subs st k)"
  proof (cases u)
    case (Upd_change m info added)
    let ?s = "\<lparr>sub_service = k, sub_transport = info, sub_method = m, sub_remote_addr = None\<rparr>"
    have "info_ok (sub_transport ?s)" using fits Upd_change by simp
    from add_subscription_exact [OF inv this, of env] remove_subscription_exact [OF inv this, of env]
    show ?thesis by (auto simp: psd_update_def Upd_change subscribed_def)
  next
    case (Upd_host addr)
    with host_removal_store [OF inv, of env addr] show ?thesis by (auto simp: psd_update_def)
  qed
qed

section \<open>Publishing\<close>

definition children_of :: "publisher \<Rightarrow> string \<Rightarrow> nat list" where
  "children_of p m = (case map_of (pub_methods p) m of None \<Rightarrow> [] | Some cc \<Rightarrow> comp_children cc)"

lemma publish_packet_exact:
  "publish_packet m packet p = p\<lparr>pub_trace := pub_trace p @ map (\<lambda>c. Pub_send c packet) (children_of p m)\<rparr>"
proof -
  have "fold (\<lambda>c. pub_log (Pub_send c packet)) cs p = p\<lparr>pub_trace := pub_trace p @ map (\<lambda>c. Pub_send c packet) cs\<rparr>" for cs p
    by (induction cs arbitrary: p) (simp_all add: pub_log_def)
  then show ?thesis
    by (simp add: publish_packet_def cmsg_publisher_get_client_for_method_def children_of_def split: option.split)
qed

lemma process_send_queue_exact:
  "pub_queue p = q \<Longrightarrow> cmsg_publisher_process_send_queue p =
     p\<lparr>pub_queue := [], pub_trace := pub_trace p @
       concat (map (\<lambda>(m, packet). map (\<lambda>c. Pub_send c packet) (children_of p m)) (rev q))\<rparr>"
proof (induction q arbitrary: p rule: rev_induct)
  case Nil
  then show ?case by (simp add: cmsg_publisher_process_send_queue.simps [of p] g_queue_pop_tail_def)
next
  case (snoc x q)
  obtain m packet where x: "x = (m, packet)" by fastforce
  let ?p = "(publish_packet m packet p)\<lparr>pub_queue := q\<rparr>"
  have "cmsg_publisher_process_send_queue p = cmsg_publisher_process_send_queue ?p"
    using snoc.prems x by (subst cmsg_publisher_process_send_queue.simps) (simp add: g_queue_pop_tail_def)
  moreover have "children_of ?p = children_of p" by (simp add: publish_packet_exact children_of_def fun_eq_iff)
  ultimately show ?case using snoc.IH [of ?p] x by (simp add: publish_packet_exact)
qed

lemma children_keys: "image_mset (\<lambda>c. transport_key (pub_tports p c)) (mset (children_of p m)) = pub_subs p m"
  by (simp add: children_of_def pub_subs_def child_keys_def split: option.split)

text \<open>The copies of one packet, by whom they are sent to.\<close>

definition copies :: "publisher \<Rightarrow> pub_event list \<Rightarrow> (ps_key \<times> u8 list) multiset" where
  "copies p evs = image_mset (\<lambda>ev. case ev of Pub_send c packet \<Rightarrow> (transport_key (pub_tports p c), packet)
     | Pub_destroy_client c \<Rightarrow> (transport_key (pub_tports p c), [])) (mset evs)"

section \<open>A daemon at work\<close>

text \<open>The daemon of a host: a publisher registers, a subscriber subscribes, the host's address is set.\<close>

definition demo_psd_env :: psd_env where
  "demo_psd_env = \<lparr>delivered = \<lambda>_ _. True, listen_ok = \<lambda>_ _. True,
     sync_transport = \<lambda>_. Some (cmsg_transport_new CMSG_TRANSPORT_RPC_TCP)\<rparr>"

abbreviation demo_pub_info :: cmsg_transport_info where
  "demo_pub_info \<equiv> Info_unix False ''/tmp/pub''"

abbreviation demo_sub_info :: cmsg_transport_info where
  "demo_sub_info \<equiv> Info_unix True ''/tmp/sub''"

definition demo_subscription :: "u8 list option \<Rightarrow> ps_subscription" where
  "demo_subscription addr =
     \<lparr>sub_service = ''svc'', sub_transport = demo_sub_info, sub_method = ''ping'', sub_remote_addr = addr\<rparr>"

definition demo_entry :: "nat list \<Rightarrow> method_entries \<Rightarrow> ps_service_entry" where
  "demo_entry cs ms = \<lparr>ps_methods = ms,
     ps_comp_client = \<lparr>comp_is_composite = True, comp_children = cs, comp_parent_set = cs\<rparr>, ps_sl_info = True\<rparr>"

definition demo_registered :: psd_state where
  "demo_registered = ps_data_init\<lparr>ps_table := [(''svc'', demo_entry [0] [])],
     ps_tports := (ps_tports ps_data_init)(0 := transport_of_info demo_pub_info), ps_next := 1,
     ps_trace := [Psd_listen ''svc'', Psd_registered 0 [] True]\<rparr>"

definition demo_subscribed :: psd_state where
  "demo_subscribed = demo_registered\<lparr>ps_table := [(''svc'', demo_entry [0] [(''ping'', [demo_sub_info])])],
     ps_trace := ps_trace demo_registered @ [Psd_change 0 ''ping'' demo_sub_info True True]\<rparr>"

definition demo_addressed :: psd_state where
  "demo_addressed = cmsg_psd_configuration_impl_address_set demo_psd_env [10, 0, 0, 1] demo_subscribed"

text \<open>The same subscriber without the publisher, here and on another host.\<close>

definition demo_remote :: psd_state where
  "demo_remote = ps_data_init\<lparr>ps_table := [(''svc'', demo_entry [] [(''ping'', [demo_sub_info])])],
     ps_remote := [demo_subscription (Some [10, 0, 0, 2])], ps_trace := [Psd_listen ''svc'']\<rparr>"

lemma demo_infos_ok: "info_ok demo_pub_info" "info_ok demo_sub_info"
  by (simp_all add: info_ok_def)

lemmas demo_psd_defs = demo_psd_env_def demo_subscription_def demo_entry_def ps_data_init_def
  ps_get_service_entry_or_create_def get_method_entry_or_create_def cmsg_composite_client_init_def
  cmsg_composite_client_add_child_def ps_put_entry_def ps_log_def Let_def

lemma demo_registered_reachable: "psd_reachable demo_psd_env demo_registered"
proof -
  have "cmsg_psd_configuration_impl_add_publisher demo_psd_env ''svc'' demo_pub_info ps_data_init = Some demo_registered"
    by (simp add: cmsg_psd_configuration_impl_add_publisher_def data_add_publisher_def demo_psd_defs
        data_get_subscription_info_for_service_def info_to_transport_ok demo_infos_ok demo_registered_def)
  from psd_reachable.Step [OF psd_reachable.Init psd_step.Add_publisher [OF demo_infos_ok(1) this]] show ?thesis .
qed

lemma demo_subscribed_reachable: "psd_reachable demo_psd_env demo_subscribed"
proof -
  have "cmsg_psd_configuration_impl_add_subscription demo_psd_env (demo_subscription None) demo_registered = Some demo_subscribed"
    by (simp add: cmsg_psd_configuration_impl_add_subscription_def data_add_subscription_def
        data_add_local_subscription_def update_publishers_with_method_change_def demo_psd_defs info_copy_ok demo_infos_ok
        demo_registered_def demo_subscribed_def)
  moreover have "info_ok (sub_transport (demo_subscription None))" by (simp add: demo_subscription_def demo_infos_ok)
  ultimately show ?thesis
    using psd_reachable.Step [OF demo_registered_reachable psd_step.Add_subscription] by blast
qed

lemma demo_addressed_reachable: "psd_reachable demo_psd_env demo_addressed"
  unfolding demo_addressed_def by (rule psd_reachable.Step [OF demo_subscribed_reachable psd_step.Address_set])

lemma demo_remote_reachable: "psd_reachable demo_psd_env demo_remote"
proof -
  let ?st = "demo_remote\<lparr>ps_remote := []\<rparr>"
  have ok: "info_ok (sub_transport (demo_subscription addr))" for addr by (simp add: demo_subscription_def demo_infos_ok)
  have "cmsg_psd_configuration_impl_add_subscription demo_psd_env (demo_subscription None) ps_data_init = Some ?st"
    by (simp add: cmsg_psd_configuration_impl_add_subscription_def data_add_subscription_def
        data_add_local_subscription_def update_publishers_with_method_change_def demo_psd_defs info_copy_ok demo_infos_ok
        demo_remote_def)
  from psd_reachable.Step [OF psd_reachable.Init psd_step.Add_subscription [OF ok this]]
  have "psd_reachable demo_psd_env ?st" .
  moreover have "cmsg_psd_configuration_impl_add_subscription demo_psd_env (demo_subscription (Some [10, 0, 0, 2])) ?st =
      Some demo_remote"
    by (simp add: cmsg_psd_configuration_impl_add_subscription_def data_add_subscription_def demo_psd_defs demo_remote_def
        remote_sync_subscription_added_def remote_sync_subscription_added_removed_def)
  ultimately show ?thesis using psd_reachable.Step [OF _ psd_step.Add_subscription [OF ok]] by blast
qed

lemma demo_subscribed_facts:
  "map_of (ps_table demo_subscribed) ''svc'' = Some (demo_entry [0] [(''ping'', [demo_sub_info])])"
  "all_arrived 0 (ps_trace demo_subscribed)"
  "psd_subs demo_subscribed ''svc'' = (\<lambda>_. {#})(''ping'' := {#(Some (True, ''/tmp/sub''), None)#})"
  by (simp_all add: demo_subscribed_def demo_registered_def all_arrived_def psd_subs_def demo_entry_def subs_of_def fun_eq_iff)

section \<open>Properties\<close>

text \<open>
  C9: A publisher knows the daemon's subscribers. In every reachable state of the daemon, a
  registered publisher that got every message the daemon sent it is defined (none of the
  updates made it use a missing client), and for each method it sends to exactly the
  subscribers that the daemon holds for its service, as often as they subscribed.
\<close>

theorem publisher_follows_daemon:
  assumes "psd_reachable env st" "map_of (ps_table st) service = Some e" "c \<in> set (publishers_of e)"
    and "all_arrived c (ps_trace st)"
  shows "\<exists>p. publisher_at c (ps_trace st) = Some p \<and> pub_ok p \<and> pub_subs p = psd_subs st service"
  using psd_invD(3) [OF psd_reachable_inv [OF assms(1)] assms(2,3)] assms(4)
  by (auto simp: knows_def psd_subs_Some [OF assms(2)])

theorem publisher_follows_daemon_witness:
  "\<exists>p. publisher_at 0 (ps_trace demo_subscribed) = Some p \<and> pub_subs p ''ping'' = {#(Some (True, ''/tmp/sub''), None)#}"
  using publisher_follows_daemon [OF demo_subscribed_reachable demo_subscribed_facts(1) _ demo_subscribed_facts(2)]
    demo_subscribed_facts(3) by (auto simp: demo_entry_def)

text \<open>
  C10: A published message reaches its subscribers. When such a publisher works off its send
  queue, the packets go out oldest first and nothing is left; of each packet exactly one copy is
  sent to every subscriber that the daemon holds for the packet's method.
\<close>

theorem published_reaches_subscribers:
  assumes "psd_reachable env st" "map_of (ps_table st) service = Some e" "c \<in> set (publishers_of e)"
    and "all_arrived c (ps_trace st)"
  shows "\<exists>p sent. publisher_at c (ps_trace st) = Some p \<and> length sent = length q \<and>
    pub_queue (cmsg_publisher_process_send_queue (p\<lparr>pub_queue := q\<rparr>)) = [] \<and>
    pub_trace (cmsg_publisher_process_send_queue (p\<lparr>pub_queue := q\<rparr>)) = pub_trace p @ concat sent \<and>
    (\<forall>i < length q. copies p (sent ! i) =
       image_mset (\<lambda>k. (k, snd (rev q ! i))) (psd_subs st service (fst (rev q ! i))))"
proof -
  obtain p where p: "publisher_at c (ps_trace st) = Some p" "pub_subs p = psd_subs st service"
    using psd_invD(3) [OF psd_reachable_inv [OF assms(1)] assms(2,3)] assms(4)
    by (auto simp: knows_def psd_subs_Some [OF assms(2)])
  let ?send = "\<lambda>(m, packet). map (\<lambda>c. Pub_send c packet) (children_of p m)"
  have same: "children_of (p\<lparr>pub_queue := q\<rparr>) = children_of p" by (simp add: children_of_def fun_eq_iff)
  have one: "copies p (?send x) = image_mset (\<lambda>k. (k, snd x)) (psd_subs st service (fst x))" for x
    by (simp add: copies_def case_prod_beta image_mset.compositionality comp_def
        children_keys [of p, unfolded p(2), symmetric])
  show ?thesis
    by (intro exI [of _ p] exI [of _ "map ?send (rev q)"]) (simp add: p(1) same one process_send_queue_exact [OF refl])
qed

theorem published_reaches_subscribers_witness:
  "\<exists>p sent. publisher_at 0 (ps_trace demo_subscribed) = Some p \<and>
    pub_trace (cmsg_publisher_process_send_queue (p\<lparr>pub_queue := [(''ping'', [1])]\<rparr>)) = pub_trace p @ sent \<and>
    copies p sent = {#((Some (True, ''/tmp/sub''), None), [1])#}"
proof -
  from published_reaches_subscribers [OF demo_subscribed_reachable demo_subscribed_facts(1) _ demo_subscribed_facts(2),
    of "[(''ping'', [1])]"] obtain p sent where
    "publisher_at 0 (ps_trace demo_subscribed) = Some p" "length sent = 1"
    "pub_trace (cmsg_publisher_process_send_queue (p\<lparr>pub_queue := [(''ping'', [1])]\<rparr>)) = pub_trace p @ concat sent"
    "copies p (sent ! 0) = image_mset (\<lambda>k. (k, [1])) (psd_subs demo_subscribed ''svc'' ''ping'')"
    by (auto simp: demo_entry_def)
  moreover from this(2) obtain evs where "sent = [evs]" by (auto simp: length_Suc_conv)
  ultimately show ?thesis by (auto simp: demo_subscribed_facts(3))
qed

section \<open>The operations of the daemon\<close>

lemma remote_entries_table:
  "data_remove_remote_entries_for_subscriber env service t st = Some st' \<Longrightarrow> ps_table st' = ps_table st"
  using fold_sync_removed [of st env]
  by (auto simp: data_remove_remote_entries_for_subscriber_def quiet_def)

lemma removed_service: "map_of (ps_table (ps_remove_service k st)) k = None"
  using same_storeD(1) [OF entry_free_store]
  by (auto simp: ps_remove_service_def delete_conv split: option.split)

text \<open>An event of the service listener is only undefined where it takes the last subscription of a service.\<close>

lemma removed_entry_gone:
  assumes "data_remove_subscriber env b k info st = Some (True, st')"
  shows "map_of (ps_table st') k = None"
  using assms remote_entries_table
  by (auto simp: data_remove_subscriber_def bind_eq_Some_conv Let_def removed_service
      split: option.splits prod.splits if_splits)

lemma event_undefined_last:
  assumes "psd_inv st" "info_ok info" "data_remove_subscriber env True k info st = None"
  shows "ps_remote st \<noteq> []" "psd_subs st k m - {#info_key info#} = {#}"
proof -
  show "ps_remote st \<noteq> []" using psd_remove_subscriber_exact [OF assms(1,2), of env True k] assms(3) by auto
  obtain removed st' where r: "data_remove_subscriber env False k info st = Some (removed, st')"
    "psd_subs st' = (psd_subs st)(k := drop_in UNIV (info_key info) (psd_subs st k))"
    using psd_remove_subscriber_exact [OF assms(1,2), of env False k] by auto
  have removed
  proof (rule ccontr)
    assume "\<not> removed"
    then have "data_remove_subscriber env True k info st = Some (False, st')"
      using r(1) by (auto simp: data_remove_subscriber_def bind_eq_Some_conv)
    then show False using assms(3) by simp
  qed
  then have "psd_subs st' k m = {#}" using removed_entry_gone r(1) by (simp add: psd_subs_def)
  then show "psd_subs st k m - {#info_key info#} = {#}" by (simp add: r(2) drop_in_def)
qed

text \<open>What a list of subscriptions, from a daemon that joins, adds for a method of a service.\<close>

definition synced :: "ps_subscription list \<Rightarrow> string \<Rightarrow> string \<Rightarrow> ps_key multiset" where
  "synced infos k m = {# info_key (sub_transport i). i \<in># filter_mset (\<lambda>i. sub_service i = k \<and> sub_method i = m) (mset infos) #}"

lemma add_all_synced: "add_all infos S = (\<lambda>k m. S k m + synced infos k m)"
proof (induction infos arbitrary: S)
  case Nil
  show ?case by (simp add: add_all_def synced_def)
next
  case (Cons i infos)
  have "add_all (i # infos) S = add_all infos (S(sub_service i :=
      apply_update (Upd_change (sub_method i) (sub_transport i) True) (S (sub_service i))))"
    by (simp add: add_all_def)
  then show ?case unfolding Cons.IH by (auto simp: synced_def fun_eq_iff)
qed



text \<open>
  The last subscriber takes the publishers of its service with it. When the only subscription
  of a service is removed, the daemon forgets the registered publishers too; a later subscription is
  stored, but a publisher that got every message knows of no subscriber.
\<close>

lemma last_unsubscribe_forgets_publishers:
  assumes "psd_reachable env st" "map_of (ps_table st) (sub_service info) = Some e" "c \<in> set (publishers_of e)"
    and "ps_methods e = [(sub_method info, [t])]" "info_key (sub_transport info) = info_key t"
    and "info_ok (sub_transport info)" "sub_remote_addr info = None"
  shows "\<exists>st1 st2. cmsg_psd_configuration_impl_remove_subscription env info st = Some st1 \<and>
    cmsg_psd_configuration_impl_add_subscription env info st1 = Some st2 \<and>
    psd_subs st2 (sub_service info) (sub_method info) = {#info_key t#} \<and>
    (all_arrived c (ps_trace st2) \<longrightarrow>
      (\<exists>p. publisher_at c (ps_trace st2) = Some p \<and> pub_subs p = (\<lambda>_. {#})))"
proof -
  note inv = psd_reachable_inv [OF assms(1)]
  let ?k = "sub_service info" and ?m = "sub_method info" and ?i = "sub_transport info"
  let ?u = "Upd_change ?m ?i False"
  let ?st0 = "ps_put_entry ?k (e\<lparr>ps_methods := []\<rparr>) (tell_all env ?u (publishers_of e) st)"
  let ?st1 = "ps_remove_service ?k ?st0"
  note ok = entry_fineD [OF psd_invD(2) [OF inv assms(2)]]
  have t: "\<forall>t1 \<in> set [t]. info_ok t1" using methods_okD(3) [OF ok(1), of ?m "[t]"] assms(4) by simp
  have "data_remove_transport_from_method env (ps_comp_client e) ?m ?i [t] st = Some ([], tell_all env ?u (publishers_of e) st)"
    using t assms(6)
    by (cases rule: remove_transport_cases [where env = env and cc = "ps_comp_client e" and m = ?m and st = st])
      (use assms(5) in auto)
  then have r: "data_remove_local_subscription env info st = Some ?st1"
    using remove_local_store [OF assms(2), of "[t]"] assms(4) by (simp add: store_methods_def)
  have gone: "map_of (ps_table ?st1) ?k = None"
    using same_storeD(1) [OF entry_free_store] by (simp add: ps_remove_service_def ps_put_entry_def update_conv delete_conv)
  have "psd_inv ?st1" using remove_local_exact [OF inv assms(6), of env] r by auto
  from add_local_exact [OF this assms(6), of env] obtain st2 where st2: "data_add_local_subscription env info ?st1 = Some st2"
    "psd_subs st2 = (psd_subs ?st1)(?k := apply_update (Upd_change ?m ?i True) (psd_subs ?st1 ?k))" by blast
  have "apply_update ?u (subs_of (ps_methods e)) = (\<lambda>_. {#})"
    using assms(4,5) by (auto simp: subs_of_def fun_eq_iff)
  moreover have "update_fits ?u (subs_of (ps_methods e))" using assms(4,5,6) by (simp add: subs_of_def)
  ultimately have "knows c (\<lambda>_. {#}) (ps_trace (tell_all env ?u (publishers_of e) st))"
    using tell_all_told [OF ok(3) assms(3) psd_invD(3) [OF inv assms(2,3)], of ?u env] by simp
  then have "knows c (\<lambda>_. {#}) (ps_trace ?st1)" by (simp add: ps_remove_service_def ps_put_entry_def update_conv)
  then have "knows c (\<lambda>_. {#}) (ps_trace st2)"
    using st2(1) gone info_copy_ok [OF assms(6)]
    by (auto simp: data_add_local_subscription_def ps_get_service_entry_or_create_def get_method_entry_or_create_def
        update_publishers_tell_all tell_all_def cmsg_composite_client_init_def ps_put_entry_def Let_def)
  moreover have "psd_subs st2 ?k ?m = {#info_key t#}"
    using st2(2) gone assms(5) by (simp add: psd_subs_def)
  ultimately show ?thesis
    using r st2(1) assms(7)
    by (auto simp: knows_def cmsg_psd_configuration_impl_remove_subscription_def data_remove_subscription_def
        cmsg_psd_configuration_impl_add_subscription_def data_add_subscription_def)
qed

text \<open>
  An event of the service listener can use a freed service name. When the server of the last
  subscriber of a service without publishers goes, the service's entry and with it the name
  that the event carries are freed; if there are remote subscriptions they are then compared with it.
\<close>

lemma sl_event_use_after_free:
  assumes "psd_reachable env st" "map_of (ps_table st) k = Some e" "publishers_of e = []"
    and "ps_methods e = [(m, [t])]" "info_ok info" "info_key info = info_key t" "ps_remote st \<noteq> []"
  shows "sl_event_handler env k (transport_of_info info) False st = None"
proof -
  note inv = psd_reachable_inv [OF assms(1)]
  note ok = entry_fineD [OF psd_invD(2) [OF inv assms(2)]]
  have t: "\<forall>t1 \<in> set [t]. info_ok t1" using methods_okD(3) [OF ok(1), of m "[t]"] assms(4) by simp
  have "data_remove_transport_from_method env (ps_comp_client e) m info [t] st = Some ([], st)"
    using t assms(5)
    by (cases rule: remove_transport_cases [where env = env and cc = "ps_comp_client e" and m = m and st = st])
      (use assms(3,6) in \<open>auto simp: tell_all_def\<close>)
  then have "data_remove_subscriber_from_methods env (ps_comp_client e) info (ps_methods e) st = Some ([(m, [])], st)"
    by (simp add: assms(4))
  moreover have "ps_remote (ps_remove_service k (ps_put_entry k (e\<lparr>ps_methods := []\<rparr>) st)) = ps_remote st"
    using same_storeD(2) [OF entry_free_store] by (simp add: ps_remove_service_def ps_put_entry_def update_conv)
  ultimately have "data_remove_subscriber env True k info st = None"
    using assms(2,3,7) by (simp add: data_remove_subscriber_def ps_get_service_entry_or_create_def
        data_prune_empty_methods_def cmsg_composite_client_num_children_def)
  then show ?thesis by (simp add: sl_event_handler_def info_create_of_info [OF assms(5)])
qed

end
