(* ===== verification/ProxyTree.thy ===== *)
theory ProxyTree
  imports CmsgBase
begin

text \<open>
  The proxy's tree of URLs (\<open>cmsg-proxy/src/cmsg_proxy_tree.c\<close>): every path segment of a registered
  URL is a node, and below the last one hangs a leaf with the service to call per HTTP verb.

  A leaf is a node without children, whatever its data: a segment without children is taken for a
  service leaf by the code, and using its text as a service structure is undefined (\<open>None\<close>). The
  text of a service leaf, in turn, is compared as if it were a segment: \<open>pe_info_text\<close> is what
  its memory reads as.
\<close>

section \<open>Generated descriptions\<close>

datatype field_type =
    PROTOBUF_C_TYPE_INT32 | PROTOBUF_C_TYPE_SINT32 | PROTOBUF_C_TYPE_SFIXED32 | PROTOBUF_C_TYPE_INT64
  | PROTOBUF_C_TYPE_SINT64 | PROTOBUF_C_TYPE_SFIXED64 | PROTOBUF_C_TYPE_UINT32 | PROTOBUF_C_TYPE_FIXED32
  | PROTOBUF_C_TYPE_UINT64 | PROTOBUF_C_TYPE_FIXED64 | PROTOBUF_C_TYPE_FLOAT | PROTOBUF_C_TYPE_DOUBLE
  | PROTOBUF_C_TYPE_BOOL | PROTOBUF_C_TYPE_ENUM | PROTOBUF_C_TYPE_STRING | PROTOBUF_C_TYPE_BYTES
  | PROTOBUF_C_TYPE_MESSAGE

record field_descriptor =
  fd_name :: string
  fd_type :: field_type
  fd_repeated :: bool

record message_descriptor =
  md_name :: string
  md_fields :: "field_descriptor list"

record api_descriptor =
  ad_service_name :: string
  ad_methods :: "(message_descriptor \<times> message_descriptor) list"

datatype cmsg_http_verb = CMSG_HTTP_GET | CMSG_HTTP_PUT | CMSG_HTTP_POST | CMSG_HTTP_DELETE | CMSG_HTTP_PATCH

record cmsg_service_info =
  si_desc :: api_descriptor
  si_method_index :: u32
  si_url_string :: string
  si_http_verb :: cmsg_http_verb
  si_body_string :: string

definition input_msg_descriptor :: "cmsg_service_info \<Rightarrow> message_descriptor option" where
  "input_msg_descriptor si = map_option fst (array_get (ad_methods (si_desc si)) (unat (si_method_index si)))"

definition output_msg_descriptor :: "cmsg_service_info \<Rightarrow> message_descriptor option" where
  "output_msg_descriptor si = map_option snd (array_get (ad_methods (si_desc si)) (unat (si_method_index si)))"

record cmsg_proxy_api_info =
  cmsg_http_get :: "cmsg_service_info option"
  cmsg_http_put :: "cmsg_service_info option"
  cmsg_http_post :: "cmsg_service_info option"
  cmsg_http_delete :: "cmsg_service_info option"
  cmsg_http_patch :: "cmsg_service_info option"

definition no_api_info :: cmsg_proxy_api_info where
  "no_api_info = \<lparr>cmsg_http_get = None, cmsg_http_put = None, cmsg_http_post = None,
     cmsg_http_delete = None, cmsg_http_patch = None\<rparr>"

datatype gnode = Token_node string "gnode list" | Api_node cmsg_proxy_api_info

record cmsg_url_parameter =
  url_key :: string
  url_value :: "string option"

record proxy_tree_env =
  pe_unescape :: "string \<Rightarrow> string option"
  pe_info_text :: "cmsg_proxy_api_info \<Rightarrow> string"
  pe_field_by_name :: "message_descriptor \<Rightarrow> string \<Rightarrow> field_descriptor option"
  pe_create_client :: "string list \<Rightarrow> string \<Rightarrow> bool"

section \<open>Segments\<close>

text \<open>What a loop of \<open>strtok_r\<close> calls with one delimiter returns: the pieces that are not empty.\<close>

fun strtok_from :: "char \<Rightarrow> string \<Rightarrow> string \<Rightarrow> string list" where
  "strtok_from d acc [] = (if acc = [] then [] else [rev acc])"
| "strtok_from d acc (c # cs) =
     (if c \<noteq> d then strtok_from d (c # acc) cs
      else if acc = [] then strtok_from d [] cs else rev acc # strtok_from d [] cs)"

definition strtok_all :: "char \<Rightarrow> string \<Rightarrow> string list" where
  "strtok_all d s = strtok_from d [] s"

fun strstr :: "string \<Rightarrow> string \<Rightarrow> bool" where
  "strstr [] pat = (pat = [])"
| "strstr (c # cs) pat \<longleftrightarrow> take (length pat) (c # cs) = pat \<or> strstr cs pat"

text \<open>\<open>strndup\<close> of the key without its first character; one that is only a brace ends up empty.\<close>

definition cmsg_proxy_create_url_parameter :: "proxy_tree_env \<Rightarrow> string \<Rightarrow> string \<Rightarrow> cmsg_url_parameter" where
  "cmsg_proxy_create_url_parameter env key value =
     \<lparr>url_key = (if take 1 key = ''{'' then take (length key - 2) (drop 1 key) else key),
      url_value = pe_unescape env value\<rparr>"

definition cmsg_proxy_token_is_url_param :: "string \<Rightarrow> bool" where
  "cmsg_proxy_token_is_url_param token \<longleftrightarrow> token \<noteq> [] \<and> hd token = CHR ''{'' \<and> last token = CHR ''}''"

section \<open>Nodes\<close>

fun node_children :: "gnode \<Rightarrow> gnode list" where
  "node_children (Token_node s cs) = cs"
| "node_children (Api_node info) = []"

definition node_is_leaf :: "gnode \<Rightarrow> bool" where
  "node_is_leaf node \<longleftrightarrow> node_children node = []"

fun node_text :: "proxy_tree_env \<Rightarrow> gnode \<Rightarrow> string" where
  "node_text env (Token_node s cs) = s"
| "node_text env (Api_node info) = pe_info_text env info"

definition cmsg_proxy_api_info_node_set :: "cmsg_service_info \<Rightarrow> cmsg_proxy_api_info \<Rightarrow> cmsg_proxy_api_info" where
  "cmsg_proxy_api_info_node_set si info =
     (case si_http_verb si of
        CMSG_HTTP_GET \<Rightarrow> info\<lparr>cmsg_http_get := Some si\<rparr>
      | CMSG_HTTP_PUT \<Rightarrow> info\<lparr>cmsg_http_put := Some si\<rparr>
      | CMSG_HTTP_POST \<Rightarrow> info\<lparr>cmsg_http_post := Some si\<rparr>
      | CMSG_HTTP_DELETE \<Rightarrow> info\<lparr>cmsg_http_delete := Some si\<rparr>
      | CMSG_HTTP_PATCH \<Rightarrow> info\<lparr>cmsg_http_patch := Some si\<rparr>)"

definition cmsg_proxy_service_info_get :: "cmsg_proxy_api_info \<Rightarrow> cmsg_http_verb \<Rightarrow> cmsg_service_info option" where
  "cmsg_proxy_service_info_get info verb =
     (case verb of
        CMSG_HTTP_GET \<Rightarrow> cmsg_http_get info
      | CMSG_HTTP_PUT \<Rightarrow> cmsg_http_put info
      | CMSG_HTTP_POST \<Rightarrow> cmsg_http_post info
      | CMSG_HTTP_DELETE \<Rightarrow> cmsg_http_delete info
      | CMSG_HTTP_PATCH \<Rightarrow> cmsg_http_patch info)"

text \<open>
  The service leaf of the last node of a URL is its first child, made if need be; \<open>f\<close> is what the
  caller then does with it.
\<close>

definition cmsg_proxy_api_info_node_new :: "(cmsg_proxy_api_info \<Rightarrow> cmsg_proxy_api_info) \<Rightarrow> gnode \<Rightarrow> gnode option" where
  "cmsg_proxy_api_info_node_new f last_node =
     (case last_node of
        Api_node _ \<Rightarrow> None
      | Token_node s [] \<Rightarrow> Some (Token_node s [Api_node (f no_api_info)])
      | Token_node s (first_child # cs) \<Rightarrow>
          if node_is_leaf first_child then
            (case first_child of
               Api_node info \<Rightarrow> Some (Token_node s (Api_node (f info) # cs))
             | Token_node _ _ \<Rightarrow> None)
          else Some (Token_node s (Api_node (f no_api_info) # first_child # cs)))"

section \<open>Adding a service\<close>

definition cmsg_proxy_service_info_conflicts :: "proxy_tree_env \<Rightarrow> gnode \<Rightarrow> string \<Rightarrow> bool" where
  "cmsg_proxy_service_info_conflicts env parent_node token =
     (case List.find (\<lambda>node. \<not> node_is_leaf node) (node_children parent_node) of
        None \<Rightarrow> False
      | Some node \<Rightarrow> cmsg_proxy_token_is_url_param token \<or> cmsg_proxy_token_is_url_param (node_text env node))"

definition cmsg_proxy_allowed_conflicts__DEPRECATED :: "string \<Rightarrow> bool" where
  "cmsg_proxy_allowed_conflicts__DEPRECATED url = strstr url ''/v0.1/statistics/interfaces''"

definition cmsg_proxy_field_is_hidden :: "string \<Rightarrow> bool" where
  "cmsg_proxy_field_is_hidden field_name \<longleftrightarrow> take 1 field_name = ''_''"

definition cmsg_proxy_msg_has_file :: "proxy_tree_env \<Rightarrow> message_descriptor \<Rightarrow> bool" where
  "cmsg_proxy_msg_has_file env desc \<longleftrightarrow> pe_field_by_name env desc ''_file'' \<noteq> None"

definition cmsg_proxy_body_string_check :: "proxy_tree_env \<Rightarrow> cmsg_service_info \<Rightarrow> bool option" where
  "cmsg_proxy_body_string_check env si =
     (if strcmp (si_body_string si) ''*'' \<noteq> 0 then Some True
      else map_option (\<lambda>input_desc.
        if cmsg_proxy_msg_has_file env input_desc then True
        else
          (let url_parameters = length (filter cmsg_proxy_token_is_url_param (strtok_all (CHR ''/'') (si_url_string si)));
               hidden = length (filter (\<lambda>f. cmsg_proxy_field_is_hidden (fd_name f)) (md_fields input_desc));
               expected_fields = int (length (md_fields input_desc)) - int url_parameters - int hidden
           in expected_fields \<noteq> 0))
        (input_msg_descriptor si))"

text \<open>
  The loop over the segments, from the node reached so far: whether the service was added, and
  that node as it is afterwards.
\<close>

primrec service_info_add_at :: "proxy_tree_env \<Rightarrow> cmsg_service_info \<Rightarrow> string list \<Rightarrow> gnode \<Rightarrow> (bool \<times> gnode) option" where
  "service_info_add_at env si [] node =
     map_option (Pair True) (cmsg_proxy_api_info_node_new (cmsg_proxy_api_info_node_set si) node)"
| "service_info_add_at env si (next_entry # rest) parent_node =
     (case parent_node of
        Api_node _ \<Rightarrow> None
      | Token_node s cs \<Rightarrow>
          (case List.extract (\<lambda>node. \<not> node_is_leaf node \<and> strcmp (node_text env node) next_entry = 0) cs of
             Some (before, node, after) \<Rightarrow>
               map_option (\<lambda>(ret, node). (ret, Token_node s (before @ node # after)))
                 (service_info_add_at env si rest node)
           | None \<Rightarrow>
               if cmsg_proxy_service_info_conflicts env parent_node next_entry \<and>
                  \<not> cmsg_proxy_allowed_conflicts__DEPRECATED (si_url_string si)
               then Some (False, parent_node)
               else Option.bind (cmsg_proxy_body_string_check env si) (\<lambda>body_ok.
                 if \<not> body_ok then Some (False, parent_node)
                 else map_option (\<lambda>(ret, node). (ret, Token_node s (cs @ [node])))
                        (service_info_add_at env si rest (Token_node next_entry [])))))"

definition cmsg_proxy_service_info_add :: "proxy_tree_env \<Rightarrow> cmsg_service_info \<Rightarrow> gnode \<Rightarrow> (bool \<times> gnode) option" where
  "cmsg_proxy_service_info_add env si root =
     service_info_add_at env si (strtok_all (CHR ''/'') (si_url_string si)) root"

fun cmsg_proxy_service_info_init :: "proxy_tree_env \<Rightarrow> cmsg_service_info list \<Rightarrow> gnode \<Rightarrow> gnode option" where
  "cmsg_proxy_service_info_init env [] root = Some root"
| "cmsg_proxy_service_info_init env (si # array) root =
     Option.bind (cmsg_proxy_service_info_add env si root) (\<lambda>(_, root). cmsg_proxy_service_info_init env array root)"

section \<open>Finding a service\<close>

text \<open>The loop over the children of a node: the child to go on with, and the parameter it binds.\<close>

fun find_child :: "proxy_tree_env \<Rightarrow> string \<Rightarrow> gnode list \<Rightarrow> (gnode \<times> cmsg_url_parameter option) option" where
  "find_child env next_entry [] = None"
| "find_child env next_entry (node # siblings) =
     (if \<not> node_is_leaf node \<and> strcmp next_entry (node_text env node) = 0 then Some (node, None)
      else if cmsg_proxy_token_is_url_param (node_text env node)
      then Some (node, Some (cmsg_proxy_create_url_parameter env (node_text env node) next_entry))
      else find_child env next_entry siblings)"

primrec find_node :: "proxy_tree_env \<Rightarrow> string list \<Rightarrow> gnode \<Rightarrow> cmsg_url_parameter list \<Rightarrow> gnode option \<times> cmsg_url_parameter list" where
  "find_node env [] parent_node url_parameters = (Some parent_node, url_parameters)"
| "find_node env (next_entry # rest) parent_node url_parameters =
     (case find_child env next_entry (node_children parent_node) of
        None \<Rightarrow> (None, url_parameters)
      | Some (node, None) \<Rightarrow> find_node env rest node url_parameters
      | Some (node, Some param) \<Rightarrow> find_node env rest node (param # url_parameters))"

definition cmsg_proxy_find_service_from_url_and_verb ::
  "proxy_tree_env \<Rightarrow> string \<Rightarrow> cmsg_http_verb \<Rightarrow> gnode \<Rightarrow> cmsg_url_parameter list
   \<Rightarrow> (cmsg_service_info option \<times> cmsg_url_parameter list) option" where
  "cmsg_proxy_find_service_from_url_and_verb env url verb root url_parameters =
     (case find_node env (strtok_all (CHR ''/'') url) root url_parameters of
        (None, params) \<Rightarrow> Some (None, params)
      | (Some parent_node, params) \<Rightarrow>
          (case node_children parent_node of
             [] \<Rightarrow> Some (None, params)
           | info_node # _ \<Rightarrow>
               if node_is_leaf info_node then
                 (case info_node of
                    Api_node info \<Rightarrow> Some (cmsg_proxy_service_info_get info verb, params)
                  | Token_node _ _ \<Rightarrow> None)
               else Some (None, params)))"

section \<open>Clients\<close>

text \<open>The leaves in the two orders that the code goes through them.\<close>

lemma size_list_le: "x \<in> set xs \<Longrightarrow> size x < Suc (size_list size xs)"
  by (induction xs) auto

function level_order :: "gnode list \<Rightarrow> gnode list" where
  "level_order [] = []"
| "level_order (node # queue) = node # level_order (queue @ node_children node)"
  by pat_completeness auto

lemma size_node_children: "size_list size (node_children node) < size node + Suc 0"
  by (cases node) auto

termination level_order
proof (relation "measure (size_list size)")
  fix node :: gnode and queue :: "gnode list"
  have "size_list size (queue @ node_children node) \<le> size_list size queue + size_list size (node_children node)"
    by (induction queue) auto
  then show "(queue @ node_children node, node # queue) \<in> measure (size_list size)"
    using size_node_children [of node] by simp
qed simp

fun leaves_in_order :: "gnode \<Rightarrow> gnode list" where
  "leaves_in_order (Api_node info) = [Api_node info]"
| "leaves_in_order (Token_node s cs) = (if cs = [] then [Token_node s []] else concat (map leaves_in_order cs))"

definition cmsg_proxy_find_client_by_service :: "string list \<Rightarrow> api_descriptor \<Rightarrow> string option" where
  "cmsg_proxy_find_client_by_service clients desc =
     List.find (\<lambda>name. strcmp name (ad_service_name desc) = 0) clients"

definition cmsg_proxy_create_client :: "proxy_tree_env \<Rightarrow> api_descriptor \<Rightarrow> string list \<Rightarrow> string list" where
  "cmsg_proxy_create_client env desc clients =
     (if pe_create_client env clients (ad_service_name desc) then clients @ [ad_service_name desc] else clients)"

definition cmsg_proxy_clients_add :: "proxy_tree_env \<Rightarrow> gnode \<Rightarrow> string list \<Rightarrow> string list option" where
  "cmsg_proxy_clients_add env leaf_node clients =
     (case leaf_node of
        Token_node _ _ \<Rightarrow> None
      | Api_node info \<Rightarrow>
          Some (fold (\<lambda>verb clients.
              case cmsg_proxy_service_info_get info verb of
                None \<Rightarrow> clients
              | Some si \<Rightarrow>
                  if cmsg_proxy_find_client_by_service clients (si_desc si) = None
                  then cmsg_proxy_create_client env (si_desc si) clients else clients)
            [CMSG_HTTP_GET, CMSG_HTTP_PUT, CMSG_HTTP_POST, CMSG_HTTP_DELETE, CMSG_HTTP_PATCH] clients))"

fun clients_add_all :: "proxy_tree_env \<Rightarrow> gnode list \<Rightarrow> string list \<Rightarrow> string list option" where
  "clients_add_all env [] clients = Some clients"
| "clients_add_all env (leaf # leaves) clients =
     Option.bind (cmsg_proxy_clients_add env leaf clients) (clients_add_all env leaves)"

definition cmsg_proxy_clients_init :: "proxy_tree_env \<Rightarrow> gnode \<Rightarrow> string list \<Rightarrow> string list option" where
  "cmsg_proxy_clients_init env root clients =
     (if node_is_leaf root then Some clients
      else clients_add_all env (filter node_is_leaf (level_order [root])) clients)"

section \<open>Start-up\<close>

text \<open>An entry of the library directory: a regular file, its name, and what loading it gives.\<close>

record dir_entry =
  de_regular :: bool
  de_name :: string
  de_library :: "cmsg_service_info list option option"

fun library_entries_load :: "proxy_tree_env \<Rightarrow> dir_entry list \<Rightarrow> gnode \<Rightarrow> gnode option" where
  "library_entries_load env [] root = Some root"
| "library_entries_load env (entry # entries) root =
     (if de_regular entry \<and> strstr (de_name entry) ''proto_proxy_def.so'' then
        (case de_library entry of
           Some (Some array) \<Rightarrow>
             Option.bind (cmsg_proxy_service_info_init env array root) (library_entries_load env entries)
         | _ \<Rightarrow> library_entries_load env entries root)
      else library_entries_load env entries root)"

definition cmsg_proxy_library_handles_load :: "proxy_tree_env \<Rightarrow> dir_entry list option \<Rightarrow> gnode \<Rightarrow> gnode option" where
  "cmsg_proxy_library_handles_load env dir root =
     (case dir of None \<Rightarrow> Some root | Some entries \<Rightarrow> library_entries_load env entries root)"

definition cmsg_proxy_tree_init :: "proxy_tree_env \<Rightarrow> dir_entry list option \<Rightarrow> (gnode \<times> string list) option" where
  "cmsg_proxy_tree_init env dir =
     Option.bind (cmsg_proxy_library_handles_load env dir (Token_node ''CMSG-API'' [])) (\<lambda>root.
       map_option (Pair root) (cmsg_proxy_clients_init env root []))"

text \<open>A callback for every leaf; a tree with nothing loaded is itself a leaf, and not a service leaf.\<close>

definition cmsg_proxy_tree_foreach_leaf :: "(gnode \<Rightarrow> 's \<Rightarrow> 's option) \<Rightarrow> gnode option \<Rightarrow> 's \<Rightarrow> (bool \<times> 's) option" where
  "cmsg_proxy_tree_foreach_leaf callback tree data =
     (case tree of
        None \<Rightarrow> Some (False, data)
      | Some root \<Rightarrow>
          map_option (Pair True) (fold (\<lambda>leaf s. Option.bind s (callback leaf)) (leaves_in_order root) (Some data)))"

end
