(* ===== verification/ProxyTreeProps.thy ===== *)
theory ProxyTreeProps
  imports ProxyTree
begin

text \<open>
  The proxy's tree as a table of routes: a route is a list of segments, some of them parameters,
  and has a service per verb. Adding a service adds one entry, unless it would make a URL
  ambiguous; looking a URL up finds the entry whose route matches it.
\<close>

section \<open>Well-formed trees\<close>

fun node_str :: "gnode \<Rightarrow> string" where
  "node_str (Token_node s cs) = s"
| "node_str (Api_node info) = []"

abbreviation is_param :: "string \<Rightarrow> bool" where
  "is_param \<equiv> cmsg_proxy_token_is_url_param"

definition segments :: "gnode list \<Rightarrow> gnode list" where
  "segments cs = filter (\<lambda>n. \<not> node_is_leaf n) cs"

text \<open>At most one service leaf, first; every segment once; a parameter has no siblings.\<close>

definition kids_shape :: "gnode list \<Rightarrow> bool" where
  "kids_shape cs \<longleftrightarrow> (case cs of Api_node _ # rest \<Rightarrow> segments rest = rest | _ \<Rightarrow> segments cs = cs)"

definition kids_ok :: "gnode list \<Rightarrow> bool" where
  "kids_ok cs \<longleftrightarrow> kids_shape cs \<and>
     distinct (map node_str (segments cs)) \<and>
     (\<forall>n \<in> set (segments cs). is_param (node_str n) \<longrightarrow> segments cs = [n])"

fun tree_ok :: "gnode \<Rightarrow> bool" where
  "tree_ok (Api_node info) = True"
| "tree_ok (Token_node s cs) \<longleftrightarrow> kids_ok cs \<and> (\<forall>c \<in> set cs. tree_ok c)"

lemma leaf_simps [simp]:
  "node_is_leaf (Api_node info)" "node_is_leaf (Token_node s cs) \<longleftrightarrow> cs = []"
  by (simp_all add: node_is_leaf_def)

lemma segments_simps [simp]:
  "segments [] = []" "segments (Api_node info # cs) = segments cs" "segments (cs @ cs') = segments cs @ segments cs'"
  "segments (n # cs) = (if node_is_leaf n then segments cs else n # segments cs)"
  by (simp_all add: segments_def)

lemma segments_idem [simp]: "segments (segments cs) = segments cs"
  by (simp add: segments_def)

lemma segments_all: "segments cs = cs \<longleftrightarrow> (\<forall>n \<in> set cs. \<not> node_is_leaf n)"
  by (simp add: segments_def filter_id_conv)

lemma kids_shape_simps [simp]:
  "kids_shape []" "kids_shape (Api_node info # cs) \<longleftrightarrow> (\<forall>n \<in> set cs. \<not> node_is_leaf n)"
  "kids_shape (Token_node s cs' # cs) \<longleftrightarrow> cs' \<noteq> [] \<and> (\<forall>n \<in> set cs. \<not> node_is_leaf n)"
  unfolding kids_shape_def list.case gnode.case segments_all by auto

lemma kids_shape_cases:
  assumes "kids_shape cs"
  obtains "segments cs = cs" | info where "cs = Api_node info # segments cs"
  using assms that by (auto simp: kids_shape_def split: list.splits gnode.splits)

lemma kids_shape_append: "\<not> node_is_leaf n \<Longrightarrow> kids_shape cs \<Longrightarrow> kids_shape (cs @ [n])"
  by (cases cs; cases "hd cs"; cases n) auto

lemma kids_shape_replace:
  "\<not> node_is_leaf n \<Longrightarrow> \<not> node_is_leaf n' \<Longrightarrow> kids_shape (xs @ n # ys) \<Longrightarrow> kids_shape (xs @ n' # ys)"
  by (cases xs; cases "hd xs"; cases n; cases n') auto

lemma segments_nonleaf: "n \<in> set (segments cs) \<Longrightarrow> \<not> node_is_leaf n"
  by (simp add: segments_def)

lemma nonleaf_token: "\<not> node_is_leaf n \<Longrightarrow> \<exists>s cs. n = Token_node s cs \<and> cs \<noteq> []"
  by (cases n) auto

lemma node_text_str [simp]: "\<not> node_is_leaf n \<Longrightarrow> node_text env n = node_str n"
  by (cases n) auto

lemma tree_okD:
  assumes "tree_ok n"
  shows "kids_ok (node_children n)" "c \<in> set (node_children n) \<Longrightarrow> tree_ok c"
    "c \<in> set (segments (node_children n)) \<Longrightarrow> tree_ok c"
  using assms by (cases n; simp add: kids_ok_def segments_def)+

lemma kids_okD:
  assumes "kids_ok cs"
  shows "kids_shape cs"
    "distinct (map node_str (segments cs))"
    "n \<in> set (segments cs) \<Longrightarrow> is_param (node_str n) \<Longrightarrow> segments cs = [n]"
  using assms by (auto simp: kids_ok_def)

section \<open>Routes\<close>

primrec node_at :: "gnode \<Rightarrow> string list \<Rightarrow> gnode option" where
  "node_at n [] = Some n"
| "node_at n (t # ts) = Option.bind (List.find (\<lambda>c. node_str c = t) (segments (node_children n))) (\<lambda>c. node_at c ts)"

lemma node_at_Cons_rec:
  "node_at n (t # ts) = (case List.find (\<lambda>c. node_str c = t) (segments (node_children n)) of None \<Rightarrow> None | Some c \<Rightarrow> node_at c ts)"
  by (simp split: option.split)

definition node_info :: "gnode \<Rightarrow> cmsg_proxy_api_info option" where
  "node_info n = (case node_children n of Api_node info # _ \<Rightarrow> Some info | _ \<Rightarrow> None)"

definition route_info :: "gnode \<Rightarrow> string list \<Rightarrow> cmsg_proxy_api_info option" where
  "route_info n p = Option.bind (node_at n p) node_info"

lemma route_info_Nil [simp]: "route_info n [] = node_info n"
  by (simp add: route_info_def)

lemma route_info_Cons:
  "route_info n (t # ts) = (case List.find (\<lambda>c. node_str c = t) (segments (node_children n)) of
     None \<Rightarrow> None | Some c \<Rightarrow> route_info c ts)"
  by (simp add: route_info_def split: option.split)

lemma node_info_Nil [simp]: "node_info (Token_node s []) = None"
  by (simp add: node_info_def)

text \<open>The service leaf is found or made at the head of the children.\<close>

lemma api_info_node_new_ok:
  assumes "tree_ok (Token_node s cs)"
  shows "\<exists>node'. cmsg_proxy_api_info_node_new f (Token_node s cs) = Some node' \<and> tree_ok node' \<and>
    node_str node' = s \<and> \<not> node_is_leaf node' \<and> segments (node_children node') = segments cs \<and>
    node_info node' = Some (f (case node_info (Token_node s cs) of None \<Rightarrow> no_api_info | Some info \<Rightarrow> info))"
proof -
  have kids: "kids_ok cs" and sub: "\<forall>c \<in> set cs. tree_ok c" using assms by simp_all
  consider (Nil) "cs = []" | (Api) info rest where "cs = Api_node info # rest"
    | (Token) first rest where "cs = first # rest" "\<not> node_is_leaf first"
    using kids_okD(1) [OF kids] by (cases cs; cases "hd cs") auto
  then show ?thesis
  proof cases
    case Nil
    then show ?thesis by (simp add: cmsg_proxy_api_info_node_new_def kids_ok_def node_info_def)
  next
    case Api
    then show ?thesis using kids sub by (simp add: cmsg_proxy_api_info_node_new_def kids_ok_def node_info_def)
  next
    case Token
    obtain s' cs' where "first = Token_node s' cs'" "cs' \<noteq> []" using nonleaf_token [OF Token(2)] by blast
    then have "\<forall>n \<in> set cs. \<not> node_is_leaf n" using kids_okD(1) [OF kids] Token(1) by simp
    then have "kids_ok (Api_node (f no_api_info) # cs)" using kids by (simp add: kids_ok_def)
    with \<open>first = Token_node s' cs'\<close> \<open>cs' \<noteq> []\<close> show ?thesis using sub Token by (simp add: cmsg_proxy_api_info_node_new_def node_info_def)
  qed
qed

section \<open>Adding\<close>

text \<open>A new branch always gets its service.\<close>

lemma add_at_empty:
  assumes "cmsg_proxy_body_string_check env si = Some True"
  shows "\<exists>n. service_info_add_at env si ts (Token_node t []) = Some (True, n)"
proof (induction ts arbitrary: t)
  case Nil
  show ?case by (simp add: cmsg_proxy_api_info_node_new_def)
next
  case (Cons a ts)
  obtain n where "service_info_add_at env si ts (Token_node a []) = Some (True, n)" using Cons.IH by blast
  with assms show ?case by (simp add: cmsg_proxy_service_info_conflicts_def extract_Nil_code)
qed

definition set_route :: "cmsg_service_info \<Rightarrow> string list \<Rightarrow> gnode \<Rightarrow> gnode \<Rightarrow> bool" where
  "set_route si ts node node' \<longleftrightarrow> route_info node' =
     (route_info node)(ts := Some (cmsg_proxy_api_info_node_set si
        (case route_info node ts of None \<Rightarrow> no_api_info | Some info \<Rightarrow> info)))"

lemma find_append: "List.find P (xs @ ys) = (case List.find P xs of None \<Rightarrow> List.find P ys | r \<Rightarrow> r)"
  by (induction xs) auto

text \<open>A child replaced by one of the same name, and a child appended.\<close>

lemma segments_replace:
  assumes "kids_ok (before @ node # after)" "\<not> node_is_leaf node" "\<not> node_is_leaf node'" "node_str node' = node_str node"
  shows "kids_ok (before @ node' # after)"
    "List.find (\<lambda>c. node_str c = t) (segments (before @ node' # after)) =
      (if t = node_str node then Some node' else List.find (\<lambda>c. node_str c = t) (segments (before @ node # after)))"
proof -
  let ?cs = "before @ node # after" and ?cs' = "before @ node' # after"
  have seg: "segments ?cs = segments before @ node # segments after" "segments ?cs' = segments before @ node' # segments after"
    using assms(2,3) by simp_all
  note D = kids_okD(2,3) [OF assms(1), unfolded seg]
  have shape: "kids_shape ?cs'" by (rule kids_shape_replace [OF assms(2,3) kids_okD(1) [OF assms(1)]])
  have dist: "distinct (map node_str (segments ?cs'))" using D(1) assms(4) unfolding seg by simp
  have "segments ?cs' = [n]" if "n \<in> set (segments ?cs')" "is_param (node_str n)" for n
  proof (cases "n = node'")
    case True
    with that D(2) [of node] assms(4) show ?thesis unfolding seg by (simp add: append_eq_Cons_conv)
  next
    case False
    with that have "n \<in> set (segments before @ node # segments after)" unfolding seg by auto
    from D(2) [OF this that(2)] have "segments before = []" "segments after = []" "n = node"
      by (simp_all add: append_eq_Cons_conv)
    with that(1) False show ?thesis unfolding seg by auto
  qed
  with shape dist show "kids_ok ?cs'" by (simp add: kids_ok_def)
  have "node_str node \<notin> node_str ` set (segments before)" using D(1) by auto
  then have "List.find (\<lambda>c. node_str c = node_str node) (segments before) = None"
    unfolding find_None_iff by (metis image_eqI)
  then show "List.find (\<lambda>c. node_str c = t) (segments ?cs') =
      (if t = node_str node then Some node' else List.find (\<lambda>c. node_str c = t) (segments ?cs))"
    unfolding seg by (auto simp: find_append assms(4) split: option.split)
qed

lemma segments_append:
  assumes "kids_ok cs" "\<not> node_is_leaf node" "List.find (\<lambda>c. node_str c = node_str node) (segments cs) = None"
    and "\<not> cmsg_proxy_service_info_conflicts env (Token_node s cs) (node_str node)"
  shows "kids_ok (cs @ [node])"
    "List.find (\<lambda>c. node_str c = t) (segments (cs @ [node])) =
      (if t = node_str node then Some node else List.find (\<lambda>c. node_str c = t) (segments cs))"
proof -
  have seg: "segments (cs @ [node]) = segments cs @ [node]" using assms(2) by simp
  have shape: "kids_shape (cs @ [node])" by (rule kids_shape_append [OF assms(2) kids_okD(1) [OF assms(1)]])
  have new: "node_str node \<notin> node_str ` set (segments cs)" using assms(3) by (auto simp: find_None_iff)
  have find: "List.find (\<lambda>n. \<not> node_is_leaf n) cs = (case segments cs of [] \<Rightarrow> None | n # _ \<Rightarrow> Some n)"
    by (induction cs) auto
  have no_param: "segments cs = [] \<or> (\<not> is_param (node_str node) \<and> (\<forall>n \<in> set (segments cs). \<not> is_param (node_str n)))"
  proof (cases "segments cs")
    case (Cons n ns)
    have nl: "\<not> node_is_leaf n" using segments_nonleaf [of n cs] Cons by simp
    have "\<not> is_param (node_str node)" "\<not> is_param (node_str n)"
      using assms(4) find Cons nl by (simp_all add: cmsg_proxy_service_info_conflicts_def)
    moreover have "\<not> is_param (node_str m)" if "m \<in> set (segments cs)" for m
      using kids_okD(3) [OF assms(1) that] \<open>\<not> is_param (node_str n)\<close> Cons by auto
    ultimately show ?thesis by blast
  qed simp
  have dist: "distinct (map node_str (segments (cs @ [node])))"
    using kids_okD(2) [OF assms(1)] new unfolding seg by simp
  have param: "segments (cs @ [node]) = [n]" if "n \<in> set (segments (cs @ [node]))" "is_param (node_str n)" for n
  proof (cases "segments cs = []")
    case True
    with that(1) show ?thesis unfolding seg by simp
  next
    case False
    from that(1) have "n = node \<or> n \<in> set (segments cs)" unfolding seg by auto
    with no_param that(2) False show ?thesis by blast
  qed
  show "kids_ok (cs @ [node])" unfolding kids_ok_def by (intro conjI ballI impI shape dist param)
  show "List.find (\<lambda>c. node_str c = t) (segments (cs @ [node])) =
      (if t = node_str node then Some node else List.find (\<lambda>c. node_str c = t) (segments cs))"
  proof (cases "t = node_str node")
    case True
    then show ?thesis using assms(2,3) by (simp add: find_append)
  next
    case False
    then show ?thesis unfolding seg find_append by (cases "List.find (\<lambda>c. node_str c = t) (segments cs)") simp_all
  qed
qed

text \<open>What adding does, by induction over the segments.\<close>

definition added_ok :: "cmsg_service_info \<Rightarrow> string list \<Rightarrow> gnode \<Rightarrow> bool \<times> gnode \<Rightarrow> bool" where
  "added_ok si ts node res \<longleftrightarrow> (case res of (ret, node') \<Rightarrow>
     if ret then tree_ok node' \<and> \<not> node_is_leaf node' \<and> node_str node' = node_str node \<and> set_route si ts node node'
     else node' = node)"

lemma set_route_Cons:
  assumes "\<And>t. List.find (\<lambda>c. node_str c = t) (segments (node_children node')) =
      (if t = a then Some child' else List.find (\<lambda>c. node_str c = t) (segments (node_children node)))"
    and "node_info node' = node_info node"
    and "set_route si ts (case List.find (\<lambda>c. node_str c = a) (segments (node_children node)) of
          None \<Rightarrow> Token_node a [] | Some child \<Rightarrow> child) child'"
  shows "set_route si (a # ts) node node'"
proof -
  have empty: "route_info (Token_node a []) p = None" for p by (cases p) (simp_all add: route_info_Cons)
  have "route_info node' p = ((route_info node)(a # ts := Some (cmsg_proxy_api_info_node_set si
      (case route_info node (a # ts) of None \<Rightarrow> no_api_info | Some info \<Rightarrow> info)))) p" for p
  proof (cases p)
    case Nil
    then show ?thesis using assms(2) by simp
  next
    case (Cons b q)
    show ?thesis
    proof (cases "b = a")
      case True
      with assms(3) empty show ?thesis
        by (auto simp: Cons route_info_Cons assms(1) set_route_def split: option.split)
    next
      case False
      then show ?thesis by (simp add: Cons route_info_Cons assms(1))
    qed
  qed
  then show ?thesis by (simp add: set_route_def fun_eq_iff)
qed

lemma node_info_append: "\<not> node_is_leaf n \<Longrightarrow> node_info (Token_node s (cs @ [n])) = node_info (Token_node s cs)"
  by (cases cs; cases n) (auto simp: node_info_def split: gnode.split)

lemma node_info_replace:
  "\<not> node_is_leaf n \<Longrightarrow> \<not> node_is_leaf n' \<Longrightarrow>
    node_info (Token_node s (xs @ n' # ys)) = node_info (Token_node s (xs @ n # ys))"
  by (cases xs; cases n; cases n') (auto simp: node_info_def split: gnode.split)

lemma find_child_named:
  "List.find (\<lambda>c. node_str c = t) (segments cs) = List.find (\<lambda>n. \<not> node_is_leaf n \<and> strcmp (node_text env n) t = 0) cs"
  by (induction cs) auto

lemma extract_find:
  "List.extract P xs = Some (ys, x, zs) \<Longrightarrow> xs = ys @ x # zs \<and> P x \<and> List.find P xs = Some x"
proof -
  assume "List.extract P xs = Some (ys, x, zs)"
  then have x: "xs = ys @ x # zs" "P x" "\<forall>y \<in> set ys. \<not> P y" by (auto simp: extract_Some_iff)
  from x(3) have "List.find P ys = None" by (auto simp: find_None_iff)
  with x show ?thesis by (simp add: find_append)
qed

lemma extract_find_None: "List.extract P xs = None \<longleftrightarrow> List.find P xs = None"
  by (auto simp: extract_None_iff find_None_iff)

lemma body_check_defined: "input_msg_descriptor si \<noteq> None \<Longrightarrow> \<exists>b. cmsg_proxy_body_string_check env si = Some b"
  unfolding cmsg_proxy_body_string_check_def by (cases "strcmp (si_body_string si) ''*'' = 0") auto

text \<open>A branch always leads to a route.\<close>

lemma branch_has_route: "\<not> node_is_leaf n \<Longrightarrow> tree_ok n \<Longrightarrow> \<exists>p. route_info n p \<noteq> None"
proof (induction n)
  case (Token_node s cs)
  then have shape: "kids_shape cs" and "cs \<noteq> []" by (simp_all add: kids_ok_def)
  then obtain c rest where cs: "cs = c # rest" by (cases cs) auto
  show ?case
  proof (cases c)
    case (Api_node info)
    then have "route_info (Token_node s cs) [] \<noteq> None" by (simp add: cs node_info_def)
    then show ?thesis by blast
  next
    case (Token_node t ds)
    then have nl: "\<not> node_is_leaf c" using shape cs by simp
    obtain p where "route_info c p \<noteq> None" using Token_node.IH [of c] nl Token_node.prems(2) cs by auto
    then have "route_info (Token_node s cs) (t # p) \<noteq> None" using nl by (simp add: route_info_Cons cs Token_node)
    then show ?thesis by blast
  qed
qed simp

text \<open>Two routes are ambiguous when one has a parameter where they part.\<close>

fun clash :: "string list \<Rightarrow> string list \<Rightarrow> bool" where
  "clash (a # p) (b # q) = (if a = b then clash p q else is_param a \<or> is_param b)"
| "clash _ _ = False"

definition accepts :: "bool option \<Rightarrow> string list \<Rightarrow> (string list \<Rightarrow> cmsg_proxy_api_info option) \<Rightarrow> bool" where
  "accepts body p table \<longleftrightarrow> (\<forall>q. table q \<noteq> None \<longrightarrow> \<not> clash p q) \<and>
     (p = [] \<or> (\<exists>q. table (p @ q) \<noteq> None) \<or> body = Some True)"

lemma found_named:
  "List.find (\<lambda>c. node_str c = t) cs = Some c \<Longrightarrow> node_str c = t \<and> c \<in> set cs"
  by (auto simp: find_Some_iff)

lemma found_in: "distinct (map node_str cs) \<Longrightarrow> c \<in> set cs \<Longrightarrow> List.find (\<lambda>d. node_str d = node_str c) cs = Some c"
  by (induction cs) auto

lemma accepts_present:
  assumes "tree_ok (Token_node s cs)" "List.find (\<lambda>c. node_str c = a) (segments cs) = Some child"
  shows "accepts body (a # ts) (route_info (Token_node s cs)) \<longleftrightarrow> accepts body ts (route_info child)"
proof -
  have kids: "kids_ok cs" using assms(1) by simp
  note child = found_named [OF assms(2)]
  have sub: "route_info (Token_node s cs) (a # q) = route_info child q" for q by (simp add: route_info_Cons assms(2))
  have nl: "\<not> node_is_leaf child" "tree_ok child"
    using child assms(1) segments_nonleaf tree_okD(3) [OF assms(1)] by auto
  obtain q0 where q0: "route_info child q0 \<noteq> None" using branch_has_route [OF nl] by blast
  have other: "\<not> clash (a # ts) q" if q: "route_info (Token_node s cs) q \<noteq> None" "q = [] \<or> hd q \<noteq> a" for q
  proof (cases q)
    case (Cons b q')
    obtain d where d: "List.find (\<lambda>c. node_str c = b) (segments cs) = Some d"
      using q(1) by (auto simp: Cons route_info_Cons split: option.splits)
    have "\<not> (is_param a \<or> is_param b)"
    proof
      assume "is_param a \<or> is_param b"
      then have "segments cs = [child] \<or> segments cs = [d]"
        using kids_okD(3) [OF kids, of child] kids_okD(3) [OF kids, of d] child found_named [OF d] by auto
      then have "a = b" using child found_named [OF d] by auto
      with q(2) Cons show False by simp
    qed
    with q(2) Cons show ?thesis by simp
  qed simp
  have "(\<forall>q. route_info (Token_node s cs) q \<noteq> None \<longrightarrow> \<not> clash (a # ts) q) \<longleftrightarrow>
      (\<forall>q. route_info child q \<noteq> None \<longrightarrow> \<not> clash ts q)" (is "?L \<longleftrightarrow> ?R")
  proof
    assume ?L
    show ?R
    proof (intro allI impI)
      fix q assume "route_info child q \<noteq> None"
      with \<open>?L\<close> [rule_format, of "a # q"] sub show "\<not> clash ts q" by simp
    qed
  next
    assume ?R
    show ?L
    proof (intro allI impI)
      fix q assume q: "route_info (Token_node s cs) q \<noteq> None"
      show "\<not> clash (a # ts) q"
      proof (cases "q = [] \<or> hd q \<noteq> a")
        case True
        with other q show ?thesis by blast
      next
        case False
        then obtain q' where "q = a # q'" by (cases q) auto
        with q sub \<open>?R\<close> show ?thesis by simp
      qed
    qed
  qed
  moreover have "(\<exists>q. route_info (Token_node s cs) ((a # ts) @ q) \<noteq> None) \<longleftrightarrow> (\<exists>q. route_info child (ts @ q) \<noteq> None)"
    by (simp add: sub)
  moreover have "ts = [] \<longrightarrow> (\<exists>q. route_info child (ts @ q) \<noteq> None)" using q0 by auto
  ultimately show ?thesis unfolding accepts_def by blast
qed

lemma accepts_absent:
  assumes "tree_ok (Token_node s cs)" "List.find (\<lambda>c. node_str c = a) (segments cs) = None"
  shows "accepts body (a # ts) (route_info (Token_node s cs)) \<longleftrightarrow>
    \<not> cmsg_proxy_service_info_conflicts env (Token_node s cs) a \<and> body = Some True"
proof -
  have kids: "kids_ok cs" using assms(1) by simp
  have none: "route_info (Token_node s cs) (a # q) = None" for q by (simp add: route_info_Cons assms(2))
  have find: "List.find (\<lambda>n. \<not> node_is_leaf n) cs = (case segments cs of [] \<Rightarrow> None | n # _ \<Rightarrow> Some n)"
    by (induction cs) auto
  have "(\<forall>q. route_info (Token_node s cs) q \<noteq> None \<longrightarrow> \<not> clash (a # ts) q) \<longleftrightarrow>
      \<not> cmsg_proxy_service_info_conflicts env (Token_node s cs) a" (is "?L \<longleftrightarrow> \<not> ?R")
  proof
    assume ?L
    show "\<not> ?R"
    proof
      assume ?R
      then obtain n ns where n: "segments cs = n # ns" "is_param a \<or> is_param (node_str n)"
        using find by (cases "segments cs") (auto simp: cmsg_proxy_service_info_conflicts_def segments_nonleaf [of _ cs])
      then have nl: "\<not> node_is_leaf n" "tree_ok n" using segments_nonleaf [of n cs] tree_okD(3) [OF assms(1), of n] by auto
      obtain q where "route_info n q \<noteq> None" using branch_has_route [OF nl] by blast
      then have "route_info (Token_node s cs) (node_str n # q) \<noteq> None" by (simp add: route_info_Cons n(1))
      with \<open>?L\<close> have "\<not> clash (a # ts) (node_str n # q)" by blast
      moreover have "node_str n \<noteq> a" using assms(2) n(1) by auto
      ultimately show False using n(2) by simp
    qed
  next
    assume R: "\<not> ?R"
    show ?L
    proof (intro allI impI)
      fix q assume q: "route_info (Token_node s cs) q \<noteq> None"
      show "\<not> clash (a # ts) q"
      proof (cases q)
        case (Cons b q')
        obtain d where d: "List.find (\<lambda>c. node_str c = b) (segments cs) = Some d"
          using q by (auto simp: Cons route_info_Cons split: option.splits)
        then obtain n ns where n: "segments cs = n # ns" by (cases "segments cs") auto
        then have "\<not> is_param a" "\<not> is_param (node_str n)"
          using R find segments_nonleaf [of n cs] by (simp_all add: cmsg_proxy_service_info_conflicts_def)
        moreover have "is_param b \<Longrightarrow> segments cs = [d]" using kids_okD(3) [OF kids, of d] found_named [OF d] by simp
        ultimately have "\<not> is_param a" "\<not> is_param b" using n found_named [OF d] by auto
        moreover have "a \<noteq> b" using none q Cons by auto
        ultimately show ?thesis by (simp add: Cons)
      qed simp
    qed
  qed
  then show ?thesis by (simp add: accepts_def none)
qed

text \<open>
  A URL that is excused from the check for conflicts (\<open>cmsg_proxy_allowed_conflicts__DEPRECATED\<close>) must
  not need the excuse.
\<close>

definition exempt_apart :: "cmsg_service_info \<Rightarrow> string list \<Rightarrow> gnode \<Rightarrow> bool" where
  "exempt_apart si ts node \<longleftrightarrow> cmsg_proxy_allowed_conflicts__DEPRECATED (si_url_string si) \<longrightarrow>
     (\<forall>q. route_info node q \<noteq> None \<longrightarrow> \<not> clash ts q)"

lemma exempt_apart_empty: "exempt_apart si ts (Token_node a [])"
proof -
  have "route_info (Token_node a []) q = None" for q by (cases q) (simp_all add: route_info_Cons)
  then show ?thesis by (simp add: exempt_apart_def)
qed

lemma exempt_apart_child:
  assumes "exempt_apart si (a # ts) (Token_node s cs)" "List.find (\<lambda>c. node_str c = a) (segments cs) = Some child"
  shows "exempt_apart si ts child"
proof -
  have "route_info (Token_node s cs) (a # q) = route_info child q" for q using assms(2) by (simp add: route_info_Cons)
  moreover have "clash (a # ts) (a # q) = clash ts q" for q by simp
  ultimately show ?thesis using assms(1) unfolding exempt_apart_def by metis
qed

lemma exempt_apart_conflict:
  assumes "exempt_apart si (a # ts) (Token_node s cs)" "tree_ok (Token_node s cs)"
    and "List.find (\<lambda>c. node_str c = a) (segments cs) = None" "cmsg_proxy_service_info_conflicts env (Token_node s cs) a"
  shows "\<not> cmsg_proxy_allowed_conflicts__DEPRECATED (si_url_string si)"
  using accepts_absent [OF assms(2,3), of "Some True" ts env] assms(1,4) by (auto simp: accepts_def exempt_apart_def)

lemma service_info_add_at_ok:
  assumes "input_msg_descriptor si \<noteq> None" "exempt_apart si ts (Token_node s cs)" "tree_ok (Token_node s cs)"
  shows "\<exists>res. service_info_add_at env si ts (Token_node s cs) = Some res \<and> added_ok si ts (Token_node s cs) res"
  using assms(2,3)
proof (induction ts arbitrary: s cs)
  case Nil
  then obtain node' where "cmsg_proxy_api_info_node_new (cmsg_proxy_api_info_node_set si) (Token_node s cs) = Some node'"
    "tree_ok node'" "node_str node' = s" "\<not> node_is_leaf node'" "segments (node_children node') = segments cs"
    "node_info node' = Some (cmsg_proxy_api_info_node_set si
      (case node_info (Token_node s cs) of None \<Rightarrow> no_api_info | Some info \<Rightarrow> info))"
    using api_info_node_new_ok by blast
  moreover from this have "set_route si [] (Token_node s cs) node'"
    by (auto simp: set_route_def fun_eq_iff route_info_def node_at_Cons_rec neq_Nil_conv split: option.split)
  ultimately show ?case by (simp add: added_ok_def)
next
  case (Cons a ts)
  let ?node = "Token_node s cs"
  let ?P = "\<lambda>n. \<not> node_is_leaf n \<and> strcmp (node_text env n) a = 0"
  have kids: "kids_ok cs" and sub: "\<And>c. c \<in> set cs \<Longrightarrow> tree_ok c" using Cons.prems(2) by simp_all
  show ?case
  proof (cases "List.extract ?P cs")
    case (Some r)
    obtain before child after where x: "List.extract ?P cs = Some (before, child, after)" using Some by (cases r) auto
    note ex = extract_find [OF x]
    then have cs: "cs = before @ child # after" and child: "\<not> node_is_leaf child" "node_str child = a" by auto
    have found: "List.find (\<lambda>c. node_str c = a) (segments cs) = Some child"
      unfolding find_child_named [of a cs env] using ex by blast
    obtain s' cs' where tok: "child = Token_node s' cs'" using nonleaf_token [OF child(1)] by blast
    obtain ret child' where r: "service_info_add_at env si ts child = Some (ret, child')" "added_ok si ts child (ret, child')"
      using Cons.IH [of s' cs'] sub [of child] exempt_apart_child [OF Cons.prems(1) found] cs tok by auto
    have add: "service_info_add_at env si (a # ts) ?node = Some (ret, Token_node s (before @ child' # after))"
      using x r(1) by simp
    show ?thesis
    proof (cases ret)
      case False
      with r(2) add cs show ?thesis by (simp add: added_ok_def)
    next
      case True
      with r(2) have c': "tree_ok child'" "\<not> node_is_leaf child'" "node_str child' = node_str child" "set_route si ts child child'"
        by (simp_all add: added_ok_def)
      note rep = segments_replace [OF kids [unfolded cs] child(1) c'(2,3)]
      have "tree_ok (Token_node s (before @ child' # after))" using rep(1) c'(1) sub cs by auto
      moreover have "set_route si (a # ts) ?node (Token_node s (before @ child' # after))"
        by (rule set_route_Cons [where child' = child'])
          (use rep(2) found c'(4) child node_info_replace [OF child(1) c'(2)] in \<open>simp_all add: cs\<close>)
      ultimately show ?thesis using add True by (simp add: added_ok_def)
    qed
  next
    case None
    then have absent: "List.find (\<lambda>c. node_str c = a) (segments cs) = None"
      by (simp add: extract_find_None find_child_named [of _ _ env])
    obtain body_ok where body: "cmsg_proxy_body_string_check env si = Some body_ok"
      using body_check_defined [OF assms(1)] by blast
    show ?thesis
    proof (cases "cmsg_proxy_service_info_conflicts env ?node a \<or> \<not> body_ok")
      case True
      with None body exempt_apart_conflict [OF Cons.prems absent] show ?thesis by (auto simp: added_ok_def)
    next
      case False
      then obtain child where c: "service_info_add_at env si ts (Token_node a []) = Some (True, child)"
        using add_at_empty [of env si] body by auto
      with Cons.IH [of a "[]", OF exempt_apart_empty] have c': "tree_ok child" "\<not> node_is_leaf child" "node_str child = a" "set_route si ts (Token_node a []) child"
        by (auto simp: added_ok_def kids_ok_def)
      have add: "service_info_add_at env si (a # ts) ?node = Some (True, Token_node s (cs @ [child]))"
        using None False body c by simp
      note app = segments_append [OF kids c'(2) absent [folded c'(3)], of env s, unfolded c'(3)]
      have "tree_ok (Token_node s (cs @ [child]))" using app(1) False c'(1) sub by auto
      moreover have "set_route si (a # ts) ?node (Token_node s (cs @ [child]))"
        by (rule set_route_Cons [where child' = child])
          (use app(2) False absent c'(4) node_info_append [OF c'(2)] in simp_all)
      ultimately show ?thesis using add c'(2) by (simp add: added_ok_def)
    qed
  qed
qed


lemma service_info_add_at_accepts:
  assumes "input_msg_descriptor si \<noteq> None" "exempt_apart si ts (Token_node s cs)"
    and "tree_ok (Token_node s cs)" "service_info_add_at env si ts (Token_node s cs) = Some (b, node')"
  shows "b \<longleftrightarrow> accepts (cmsg_proxy_body_string_check env si) ts (route_info (Token_node s cs))"
  using assms(2-4)
proof (induction ts arbitrary: s cs node')
  case Nil
  then show ?case by (auto simp: accepts_def)
next
  case (Cons a ts)
  let ?P = "\<lambda>n. \<not> node_is_leaf n \<and> strcmp (node_text env n) a = 0"
  show ?case
  proof (cases "List.extract ?P cs")
    case (Some r)
    obtain before child after where x: "List.extract ?P cs = Some (before, child, after)" using Some by (cases r) auto
    note ex = extract_find [OF x]
    then have found: "List.find (\<lambda>c. node_str c = a) (segments cs) = Some child"
      unfolding find_child_named [of a cs env] by blast
    obtain s' cs' where tok: "child = Token_node s' cs'" using nonleaf_token [of child] ex by blast
    obtain child' where r: "service_info_add_at env si ts child = Some (b, child')"
      using Cons.prems(3) x by auto
    have "tree_ok child" using Cons.prems(2) ex by simp
    then have "b \<longleftrightarrow> accepts (cmsg_proxy_body_string_check env si) ts (route_info child)"
      using Cons.IH [of s' cs' child'] exempt_apart_child [OF Cons.prems(1) found] r tok by simp
    with accepts_present [OF Cons.prems(2) found] show ?thesis by simp
  next
    case None
    then have absent: "List.find (\<lambda>c. node_str c = a) (segments cs) = None"
      by (simp add: extract_find_None find_child_named [of _ _ env])
    obtain body_ok where body: "cmsg_proxy_body_string_check env si = Some body_ok"
      using body_check_defined [OF assms(1)] by blast
    note acc = accepts_absent [OF Cons.prems(2) absent, of _ ts env]
    show ?thesis
    proof (cases "cmsg_proxy_service_info_conflicts env (Token_node s cs) a \<or> \<not> body_ok")
      case True
      with None body exempt_apart_conflict [OF Cons.prems(1,2) absent] Cons.prems(3) acc show ?thesis by (auto split: if_splits)
    next
      case False
      then have "body_ok" by simp
      then obtain child where c: "service_info_add_at env si ts (Token_node a []) = Some (True, child)"
        using add_at_empty [of env si] body by auto
      with None body Cons.prems(3) acc False show ?thesis by auto
    qed
  qed
qed

section \<open>Looking up\<close>

definition url_matches :: "string list \<Rightarrow> string list \<Rightarrow> bool" where
  "url_matches p ts \<longleftrightarrow> list_all2 (\<lambda>a t. a = t \<or> is_param a) p ts"

text \<open>A segment that equals the parameter's own text binds nothing.\<close>

fun bound :: "proxy_tree_env \<Rightarrow> string list \<Rightarrow> string list \<Rightarrow> cmsg_url_parameter list" where
  "bound env (a # p) (t # ts) =
     (if t = a then [] else [cmsg_proxy_create_url_parameter env a t]) @ bound env p ts"
| "bound env _ _ = []"

lemma find_child_leaf:
  "\<not> is_param (pe_info_text env info) \<Longrightarrow> find_child env t (Api_node info # cs) = find_child env t cs"
  by simp

lemma find_child_segments:
  assumes "kids_shape cs" "\<And>info. \<not> is_param (pe_info_text env info)"
  shows "find_child env t cs = find_child env t (segments cs)"
  using assms(1)
proof (cases rule: kids_shape_cases)
  case (2 info)
  then show ?thesis using find_child_leaf [OF assms(2), of t info "segments cs"] by metis
qed simp

lemma find_child_plain:
  "(\<forall>n \<in> set cs. \<not> node_is_leaf n \<and> \<not> is_param (node_str n)) \<Longrightarrow>
    find_child env t cs = map_option (\<lambda>c. (c, None)) (List.find (\<lambda>c. node_str c = t) cs)"
  by (induction cs) auto

text \<open>The child that is followed: the parameter if there is one, else the one of that name.\<close>

lemma find_child_ok:
  assumes "kids_ok cs" "\<And>info. \<not> is_param (pe_info_text env info)"
  shows "(\<exists>n. segments cs = [n] \<and> is_param (node_str n) \<and> find_child env t cs =
        Some (n, if t = node_str n then None else Some (cmsg_proxy_create_url_parameter env (node_str n) t))) \<or>
      ((\<forall>n \<in> set (segments cs). \<not> is_param (node_str n)) \<and>
        find_child env t cs = map_option (\<lambda>c. (c, None)) (List.find (\<lambda>c. node_str c = t) (segments cs)))"
proof (cases "\<exists>n \<in> set (segments cs). is_param (node_str n)")
  case True
  then obtain n where n: "n \<in> set (segments cs)" "is_param (node_str n)" by blast
  then have "segments cs = [n]" "\<not> node_is_leaf n" using kids_okD(3) [OF assms(1)] segments_nonleaf by blast+
  with n(2) show ?thesis by (simp add: find_child_segments [OF kids_okD(1) [OF assms(1)] assms(2)])
next
  case False
  then have "find_child env t (segments cs) = map_option (\<lambda>c. (c, None)) (List.find (\<lambda>c. node_str c = t) (segments cs))"
    using segments_nonleaf [of _ cs] by (intro find_child_plain) blast
  with False show ?thesis by (simp add: find_child_segments [OF kids_okD(1) [OF assms(1)] assms(2)])
qed

lemma find_node_found:
  assumes "\<And>info. \<not> is_param (pe_info_text env info)"
  shows "tree_ok n \<Longrightarrow> node_at n p = Some m \<Longrightarrow> url_matches p ts \<Longrightarrow>
    find_node env ts n ps = (Some m, rev (bound env p ts) @ ps)"
proof (induction p arbitrary: n ts ps)
  case Nil
  then show ?case by (simp add: url_matches_def)
next
  case (Cons a p)
  obtain t ts' where ts: "ts = t # ts'" "a = t \<or> is_param a" "url_matches p ts'"
    using Cons.prems(3) by (auto simp: url_matches_def list_all2_Cons1)
  obtain c where c: "List.find (\<lambda>c. node_str c = a) (segments (node_children n)) = Some c" "node_at c p = Some m"
    using Cons.prems(2) by (auto simp: bind_eq_Some_conv)
  note cn = found_named [OF c(1)]
  have ok: "tree_ok c" using tree_okD(3) [OF Cons.prems(1)] cn by blast
  have child: "find_child env t (node_children n) =
      Some (c, if t = a then None else Some (cmsg_proxy_create_url_parameter env a t))"
    using find_child_ok [OF tree_okD(1) [OF Cons.prems(1)] assms, of t]
  proof
    assume "\<exists>k. segments (node_children n) = [k] \<and> is_param (node_str k) \<and> find_child env t (node_children n) =
        Some (k, if t = node_str k then None else Some (cmsg_proxy_create_url_parameter env (node_str k) t))"
    with cn show ?thesis by auto
  next
    assume P: "(\<forall>n \<in> set (segments (node_children n)). \<not> is_param (node_str n)) \<and> find_child env t (node_children n) =
        map_option (\<lambda>c. (c, None)) (List.find (\<lambda>c. node_str c = t) (segments (node_children n)))"
    with cn have "\<not> is_param a" by blast
    with ts(2) have "a = t" by simp
    with P c(1) show ?thesis by simp
  qed
  show ?case using Cons.IH [OF ok c(2) ts(3)] by (simp add: ts(1) child)
qed

lemma find_node_sound:
  assumes "\<And>info. \<not> is_param (pe_info_text env info)"
  shows "tree_ok n \<Longrightarrow> find_node env ts n ps = (Some m, ps') \<Longrightarrow> \<exists>p. node_at n p = Some m \<and> url_matches p ts"
proof (induction ts arbitrary: n ps)
  case Nil
  then have "node_at n [] = Some m \<and> url_matches [] []" by (simp add: url_matches_def)
  then show ?case by blast
next
  case (Cons t ts)
  obtain c param where c: "find_child env t (node_children n) = Some (c, param)"
    using Cons.prems(2) by (auto split: option.splits)
  have seg: "c \<in> set (segments (node_children n)) \<and> (node_str c = t \<or> is_param (node_str c))"
    using find_child_ok [OF tree_okD(1) [OF Cons.prems(1)] assms, of t] c
    by (auto simp: eq_commute [of "Some (c, param)"] dest!: found_named)
  obtain ps'' where "find_node env ts c ps'' = (Some m, ps')"
    using Cons.prems(2) c by (cases param) auto
  with Cons.IH [OF tree_okD(3) [OF Cons.prems(1)]] seg obtain p where p: "node_at c p = Some m" "url_matches p ts" by blast
  have "List.find (\<lambda>d. node_str d = node_str c) (segments (node_children n)) = Some c"
    using found_in kids_okD(2) [OF tree_okD(1) [OF Cons.prems(1)]] seg by blast
  with p seg have "node_at n (node_str c # p) = Some m \<and> url_matches (node_str c # p) (t # ts)" by (simp add: url_matches_def)
  then show ?case by blast
qed

text \<open>The lookup against the table of routes of the tree.\<close>

lemma find_service_found:
  assumes "\<And>info. \<not> is_param (pe_info_text env info)" "tree_ok root"
    and "route_info root p = Some info" "url_matches p (strtok_all (CHR ''/'') url)"
  shows "cmsg_proxy_find_service_from_url_and_verb env url verb root ps =
    Some (cmsg_proxy_service_info_get info verb, rev (bound env p (strtok_all (CHR ''/'') url)) @ ps)"
proof -
  obtain m where m: "node_at root p = Some m" "node_info m = Some info"
    using assms(3) by (auto simp: route_info_def bind_eq_Some_conv)
  from m(2) obtain rest where "node_children m = Api_node info # rest"
    by (auto simp: node_info_def split: list.splits gnode.splits)
  with find_node_found [OF assms(1,2) m(1) assms(4), of ps] show ?thesis
    by (simp add: cmsg_proxy_find_service_from_url_and_verb_def)
qed

lemma node_at_ok: "tree_ok n \<Longrightarrow> node_at n p = Some m \<Longrightarrow> tree_ok m"
proof (induction p arbitrary: n)
  case (Cons a p)
  then obtain c where c: "List.find (\<lambda>c. node_str c = a) (segments (node_children n)) = Some c" "node_at c p = Some m"
    by (auto simp: bind_eq_Some_conv)
  with Cons.IH tree_okD(3) [OF Cons.prems(1)] found_named [OF c(1)] show ?case by blast
qed simp

lemma find_service_absent:
  assumes "\<And>info. \<not> is_param (pe_info_text env info)" "tree_ok root"
    and "\<And>p. route_info root p \<noteq> None \<Longrightarrow> \<not> url_matches p (strtok_all (CHR ''/'') url)"
  shows "\<exists>ps'. cmsg_proxy_find_service_from_url_and_verb env url verb root ps = Some (None, ps')"
proof (cases "find_node env (strtok_all (CHR ''/'') url) root ps")
  case (Pair r ps')
  show ?thesis
  proof (cases r)
    case None
    with Pair show ?thesis by (simp add: cmsg_proxy_find_service_from_url_and_verb_def)
  next
    case (Some m)
    obtain p where p: "node_at root p = Some m" "url_matches p (strtok_all (CHR ''/'') url)"
      using find_node_sound [OF assms(1,2)] Pair Some by blast
    then have "node_info m = None" using assms(3) [of p] by (cases "node_info m") (simp_all add: route_info_def)
    moreover have "kids_shape (node_children m)" using node_at_ok [OF assms(2) p(1)] tree_okD(1) kids_okD(1) by blast
    ultimately have "case node_children m of [] \<Rightarrow> True | n # _ \<Rightarrow> \<not> node_is_leaf n"
      by (cases "node_children m"; cases "hd (node_children m)") (auto simp: node_info_def)
    then show ?thesis using Pair Some
      by (auto simp: cmsg_proxy_find_service_from_url_and_verb_def split: list.splits)
  qed
qed

section \<open>Every tree\<close>

text \<open>
  What holds of the tree whatever services were added, also those excused from the check for
  conflicts: its shape, and that its services are the ones added.
\<close>

fun shape_ok :: "gnode \<Rightarrow> bool" where
  "shape_ok (Api_node info) = True"
| "shape_ok (Token_node s cs) \<longleftrightarrow> kids_shape cs \<and> (\<forall>c \<in> set cs. shape_ok c)"

definition infos_in :: "cmsg_service_info set \<Rightarrow> cmsg_proxy_api_info \<Rightarrow> bool" where
  "infos_in S info \<longleftrightarrow> (\<forall>verb si. cmsg_proxy_service_info_get info verb = Some si \<longrightarrow> si \<in> S)"

fun services_in :: "cmsg_service_info set \<Rightarrow> gnode \<Rightarrow> bool" where
  "services_in S (Api_node info) = infos_in S info"
| "services_in S (Token_node s cs) \<longleftrightarrow> (\<forall>c \<in> set cs. services_in S c)"

lemma service_info_get_set:
  "cmsg_proxy_service_info_get (cmsg_proxy_api_info_node_set si info) verb =
    (if verb = si_http_verb si then Some si else cmsg_proxy_service_info_get info verb)"
  by (cases verb; cases "si_http_verb si") (simp_all add: cmsg_proxy_service_info_get_def cmsg_proxy_api_info_node_set_def)

lemma service_info_get_none [simp]: "cmsg_proxy_service_info_get no_api_info verb = None"
  by (cases verb) (simp_all add: cmsg_proxy_service_info_get_def no_api_info_def)

lemma infos_in_set: "si \<in> S \<Longrightarrow> infos_in S info \<Longrightarrow> infos_in S (cmsg_proxy_api_info_node_set si info)"
  by (simp add: infos_in_def service_info_get_set)

lemma infos_in_none [simp]: "infos_in S no_api_info"
  by (simp add: infos_in_def)

text \<open>Adding a service to the node reached: its children keep their shape, and a node that got the service is no leaf.\<close>

definition grown :: "cmsg_service_info set \<Rightarrow> string \<Rightarrow> gnode list \<Rightarrow> bool \<times> gnode \<Rightarrow> bool" where
  "grown S s cs res \<longleftrightarrow> (\<exists>cs'. snd res = Token_node s cs' \<and> shape_ok (snd res) \<and> services_in S (snd res) \<and>
     (fst res \<or> cs \<noteq> [] \<longrightarrow> cs' \<noteq> []))"

lemma api_info_node_new_grown:
  assumes "shape_ok (Token_node s cs)" "services_in S (Token_node s cs)" "si \<in> S"
  shows "\<exists>n. cmsg_proxy_api_info_node_new (cmsg_proxy_api_info_node_set si) (Token_node s cs) = Some n \<and> grown S s cs (True, n)"
proof (cases cs)
  case Nil
  with assms show ?thesis by (simp add: cmsg_proxy_api_info_node_new_def grown_def infos_in_set)
next
  case (Cons c rest)
  with assms show ?thesis
    by (cases c) (auto simp: cmsg_proxy_api_info_node_new_def grown_def infos_in_set)
qed

lemma service_info_add_at_grown:
  assumes "input_msg_descriptor si \<noteq> None" "si \<in> S"
  shows "shape_ok (Token_node s cs) \<Longrightarrow> services_in S (Token_node s cs) \<Longrightarrow>
    \<exists>res. service_info_add_at env si ts (Token_node s cs) = Some res \<and> grown S s cs res"
proof (induction ts arbitrary: s cs)
  case Nil
  from api_info_node_new_grown [OF Nil assms(2)] show ?case by auto
next
  case (Cons a ts)
  let ?P = "\<lambda>n. \<not> node_is_leaf n \<and> strcmp (node_text env n) a = 0"
  show ?case
  proof (cases "List.extract ?P cs")
    case (Some r)
    obtain before child after where x: "List.extract ?P cs = Some (before, child, after)" using Some by (cases r) auto
    note ex = extract_find [OF x]
    then have cs: "cs = before @ child # after" and child: "\<not> node_is_leaf child" by auto
    obtain s' cs' where tok: "child = Token_node s' cs'" "cs' \<noteq> []" using nonleaf_token [OF child] by blast
    have "shape_ok child" "services_in S child" using Cons.prems cs by simp_all
    then obtain ret child' where r: "service_info_add_at env si ts child = Some (ret, child')" "grown S s' cs' (ret, child')"
      using Cons.IH [of s' cs'] tok(1) by auto
    then have child': "\<not> node_is_leaf child'" "shape_ok child'" "services_in S child'" using tok(2) by (auto simp: grown_def)
    have "grown S s cs (ret, Token_node s (before @ child' # after))"
      using Cons.prems child'(2,3) kids_shape_replace [OF child child'(1), of before after] by (auto simp: grown_def cs)
    with x r(1) show ?thesis by simp
  next
    case None
    have same: "grown S s cs (False, Token_node s cs)" using Cons.prems by (simp add: grown_def)
    obtain body_ok where body: "cmsg_proxy_body_string_check env si = Some body_ok"
      using body_check_defined [OF assms(1)] by blast
    show ?thesis
    proof (cases "cmsg_proxy_service_info_conflicts env (Token_node s cs) a \<and>
        \<not> cmsg_proxy_allowed_conflicts__DEPRECATED (si_url_string si) \<or> \<not> body_ok")
      case True
      with None body same show ?thesis by auto
    next
      case False
      then obtain child where c: "service_info_add_at env si ts (Token_node a []) = Some (True, child)"
        using add_at_empty [of env si] body by auto
      have "shape_ok (Token_node a [])" "services_in S (Token_node a [])" by simp_all
      from Cons.IH [OF this] c have child: "\<not> node_is_leaf child" "shape_ok child" "services_in S child"
        by (auto simp: grown_def)
      have "grown S s cs (True, Token_node s (cs @ [child]))"
        using Cons.prems child kids_shape_append [OF child(1), of cs] by (auto simp: grown_def)
      with None body c False show ?thesis by auto
    qed
  qed
qed

lemma service_info_init_grown:
  assumes "\<forall>si \<in> set sis. input_msg_descriptor si \<noteq> None" "set sis \<subseteq> S"
  shows "shape_ok (Token_node s cs) \<Longrightarrow> services_in S (Token_node s cs) \<Longrightarrow>
    \<exists>root. cmsg_proxy_service_info_init env sis (Token_node s cs) = Some root \<and> shape_ok root \<and> services_in S root"
  using assms
proof (induction sis arbitrary: cs)
  case (Cons si sis)
  then have si: "input_msg_descriptor si \<noteq> None" "si \<in> S" by simp_all
  obtain b cs' where r: "cmsg_proxy_service_info_add env si (Token_node s cs) = Some (b, Token_node s cs')"
    "shape_ok (Token_node s cs')" "services_in S (Token_node s cs')"
    using service_info_add_at_grown [OF si Cons.prems(1,2), of env "strtok_all (CHR ''/'') (si_url_string si)"]
    by (auto simp: cmsg_proxy_service_info_add_def grown_def)
  with Cons.IH [OF r(2,3)] Cons.prems(3,4) show ?case by simp
qed simp

text \<open>A lookup is defined, and what it finds was added.\<close>

lemma find_child_in: "find_child env t cs = Some (c, param) \<Longrightarrow> c \<in> set cs"
  by (induction cs) (auto split: if_splits)

lemma find_node_grown:
  "shape_ok n \<Longrightarrow> services_in S n \<Longrightarrow> find_node env ts n ps = (Some m, ps') \<Longrightarrow> shape_ok m \<and> services_in S m"
proof (induction ts arbitrary: n ps)
  case (Cons t ts)
  obtain c param where c: "find_child env t (node_children n) = Some (c, param)"
    using Cons.prems(3) by (auto split: option.splits)
  have ok: "shape_ok c" "services_in S c" using find_child_in [OF c] Cons.prems(1,2) by (cases n; simp)+
  obtain ps'' where "find_node env ts c ps'' = (Some m, ps')"
    using Cons.prems(3) c by (cases param) auto
  from Cons.IH [OF ok this] show ?case .
qed simp

lemma find_service_defined:
  assumes "shape_ok root" "services_in S root"
  shows "\<exists>si ps'. cmsg_proxy_find_service_from_url_and_verb env url verb root ps = Some (si, ps') \<and>
    (\<forall>x. si = Some x \<longrightarrow> x \<in> S)"
proof (cases "find_node env (strtok_all (CHR ''/'') url) root ps")
  case (Pair r ps')
  show ?thesis
  proof (cases "case r of None \<Rightarrow> True | Some m \<Rightarrow> node_children m = [] \<or> \<not> node_is_leaf (hd (node_children m))")
    case True
    with Pair show ?thesis
      by (auto simp: cmsg_proxy_find_service_from_url_and_verb_def split: option.splits list.splits)
  next
    case False
    then obtain m c cs where m: "r = Some m" "node_children m = c # cs" "node_is_leaf c"
      by (auto simp: neq_Nil_conv split: option.splits)
    have ok: "shape_ok m" "services_in S m" using find_node_grown [OF assms] Pair m(1) by blast+
    then obtain info where "c = Api_node info" "infos_in S info" using m(2,3) by (cases m; cases c) auto
    with Pair m show ?thesis
      by (auto simp: cmsg_proxy_find_service_from_url_and_verb_def infos_in_def)
  qed
qed

end
