(* ===== verification/ProxyJson.thy ===== *)
theory ProxyJson
  imports ProxyTree
begin

text \<open>
  What the paths into and out of the proxy share (\<open>cmsg-proxy/src/cmsg_proxy.c\<close>): JSON values and
  messages, the conversion of text to a JSON field, query strings, and error responses. Jansson,
  protobuf2json and the text encoding checks are third-party code: the fields of \<open>proxy_env\<close>.
\<close>

section \<open>JSON\<close>

datatype json =
    JNull
  | JBool bool
  | JInt int
  | JReal string
  | JString string
  | JArray "json list"
  | JObject "(string \<times> json) list"

type_synonym json_object = "(string \<times> json) list"

fun json_object_set :: "string \<Rightarrow> json \<Rightarrow> json_object \<Rightarrow> json_object" where
  "json_object_set k v [] = [(k, v)]"
| "json_object_set k v ((k', v') # obj) = (if k' = k then (k, v) # obj else (k', v') # json_object_set k v obj)"

definition json_object_update :: "json_object \<Rightarrow> json_object \<Rightarrow> json_object" where
  "json_object_update obj new = fold (\<lambda>(k, v). json_object_set k v) new obj"

fun is_JObject :: "json \<Rightarrow> bool" where
  "is_JObject (JObject obj) = True"
| "is_JObject _ = False"

datatype json_flag = JSON_COMPACT | JSON_ENCODE_ANY

section \<open>Messages\<close>

datatype proto_message = Proto (pm_descriptor: message_descriptor) (pm_fields: "(string \<times> proto_value) list")
  and proto_value =
      P_bool bool
    | P_number int
    | P_enum "int option"
    | P_string "string option"
    | P_bytes bool string
    | P_message "proto_message option"
    | P_repeated "proto_value list"

fun proto_set :: "string \<Rightarrow> proto_value \<Rightarrow> (string \<times> proto_value) list \<Rightarrow> (string \<times> proto_value) list" where
  "proto_set k v [] = [(k, v)]"
| "proto_set k v ((k', v') # fs) = (if k' = k then (k, v) # fs else (k', v') # proto_set k v fs)"

datatype protobuf2json_err =
    PROTOBUF2JSON_ERR_CANNOT_DUMP_STRING | PROTOBUF2JSON_ERR_CANNOT_DUMP_FILE
  | PROTOBUF2JSON_ERR_CANNOT_PARSE_STRING | PROTOBUF2JSON_ERR_CANNOT_PARSE_FILE
  | PROTOBUF2JSON_ERR_JANSSON_INTERNAL | PROTOBUF2JSON_ERR_CANNOT_ALLOCATE_MEMORY
  | PROTOBUF2JSON_ERR_UNKNOWN_FIELD | PROTOBUF2JSON_ERR_REQUIRED_IS_MISSING
  | PROTOBUF2JSON_ERR_IS_NOT_OBJECT | PROTOBUF2JSON_ERR_IS_NOT_ARRAY
  | PROTOBUF2JSON_ERR_IS_NOT_INTEGER | PROTOBUF2JSON_ERR_IS_NOT_INTEGER_OR_REAL
  | PROTOBUF2JSON_ERR_IS_NOT_BOOLEAN | PROTOBUF2JSON_ERR_IS_NOT_STRING
  | PROTOBUF2JSON_ERR_UNKNOWN_ENUM_VALUE | PROTOBUF2JSON_ERR_UNSUPPORTED_FIELD_TYPE

record proxy_env =
  px_tree :: proxy_tree_env
  px_json_loads :: "string \<Rightarrow> json option \<times> string"
  px_json_dumps :: "json \<Rightarrow> json_flag list \<Rightarrow> string option"
  px_utf8_valid :: "string \<Rightarrow> bool"
  px_json2protobuf :: "json \<Rightarrow> message_descriptor \<Rightarrow> (protobuf2json_err \<times> string) + proto_message"
  px_protobuf2json :: "proto_message \<Rightarrow> json_object option"
  px_unpack :: "message_descriptor \<Rightarrow> string \<Rightarrow> proto_message option"
  px_pre_api_check :: "(cmsg_http_verb \<Rightarrow> bool \<times> string option) option"
  px_invoke :: "string \<Rightarrow> cmsg_service_info \<Rightarrow> proto_message \<Rightarrow> int \<times> proto_message option"

abbreviation field_by_name :: "proxy_env \<Rightarrow> message_descriptor \<Rightarrow> string \<Rightarrow> field_descriptor option" where
  "field_by_name env \<equiv> pe_field_by_name (px_tree env)"

text \<open>The message of \<open>ant_result.proto\<close>.\<close>

definition ant_result_descriptor :: message_descriptor where
  "ant_result_descriptor = \<lparr>md_name = ''ant_result'', md_fields =
     [\<lparr>fd_name = ''code'', fd_type = PROTOBUF_C_TYPE_ENUM, fd_repeated = False\<rparr>,
      \<lparr>fd_name = ''message'', fd_type = PROTOBUF_C_TYPE_STRING, fd_repeated = False\<rparr>,
      \<lparr>fd_name = ''resource_id'', fd_type = PROTOBUF_C_TYPE_STRING, fd_repeated = False\<rparr>,
      \<lparr>fd_name = ''details'', fd_type = PROTOBUF_C_TYPE_MESSAGE, fd_repeated = True\<rparr>]\<rparr>"

definition ant_result_message :: "int \<Rightarrow> string \<Rightarrow> proto_message" where
  "ant_result_message code message = Proto ant_result_descriptor
     [(''code'', P_enum (Some code)), (''message'', P_string (Some message)),
      (''resource_id'', P_string None), (''details'', P_repeated [])]"

definition ant_result_code :: "proto_message \<Rightarrow> int option" where
  "ant_result_code m = (case map_of (pm_fields m) ''code'' of Some (P_enum c) \<Rightarrow> c | _ \<Rightarrow> None)"

section \<open>Codes\<close>

datatype ant_code =
    ANT_CODE_OK | ANT_CODE_CANCELLED | ANT_CODE_UNKNOWN | ANT_CODE_INVALID_ARGUMENT
  | ANT_CODE_DEADLINE_EXCEEDED | ANT_CODE_NOT_FOUND | ANT_CODE_ALREADY_EXISTS
  | ANT_CODE_PERMISSION_DENIED | ANT_CODE_RESOURCE_EXHAUSTED | ANT_CODE_FAILED_PRECONDITION
  | ANT_CODE_ABORTED | ANT_CODE_OUT_OF_RANGE | ANT_CODE_UNIMPLEMENTED | ANT_CODE_INTERNAL
  | ANT_CODE_UNAVAILABLE | ANT_CODE_DATALOSS | ANT_CODE_UNAUTHENTICATED | ANT_CODE_BATCH_PARTIAL_FAIL

fun ant_code_value :: "ant_code \<Rightarrow> int" where
  "ant_code_value ANT_CODE_OK = 0"
| "ant_code_value ANT_CODE_CANCELLED = 1"
| "ant_code_value ANT_CODE_UNKNOWN = 2"
| "ant_code_value ANT_CODE_INVALID_ARGUMENT = 3"
| "ant_code_value ANT_CODE_DEADLINE_EXCEEDED = 4"
| "ant_code_value ANT_CODE_NOT_FOUND = 5"
| "ant_code_value ANT_CODE_ALREADY_EXISTS = 6"
| "ant_code_value ANT_CODE_PERMISSION_DENIED = 7"
| "ant_code_value ANT_CODE_RESOURCE_EXHAUSTED = 8"
| "ant_code_value ANT_CODE_FAILED_PRECONDITION = 9"
| "ant_code_value ANT_CODE_ABORTED = 10"
| "ant_code_value ANT_CODE_OUT_OF_RANGE = 11"
| "ant_code_value ANT_CODE_UNIMPLEMENTED = 12"
| "ant_code_value ANT_CODE_INTERNAL = 13"
| "ant_code_value ANT_CODE_UNAVAILABLE = 14"
| "ant_code_value ANT_CODE_DATALOSS = 15"
| "ant_code_value ANT_CODE_UNAUTHENTICATED = 16"
| "ant_code_value ANT_CODE_BATCH_PARTIAL_FAIL = 17"

definition ANT_CODE_MAX :: int where "ANT_CODE_MAX = 18"

definition HTTP_CODE_OK :: int where "HTTP_CODE_OK = 200"
definition HTTP_CODE_BAD_REQUEST :: int where "HTTP_CODE_BAD_REQUEST = 400"
definition HTTP_CODE_UNAUTHORIZED :: int where "HTTP_CODE_UNAUTHORIZED = 401"
definition HTTP_CODE_FORBIDDEN :: int where "HTTP_CODE_FORBIDDEN = 403"
definition HTTP_CODE_NOT_FOUND :: int where "HTTP_CODE_NOT_FOUND = 404"
definition HTTP_CODE_REQUEST_TIMEOUT :: int where "HTTP_CODE_REQUEST_TIMEOUT = 408"
definition HTTP_CODE_CONFLICT :: int where "HTTP_CODE_CONFLICT = 409"
definition HTTP_CODE_INTERNAL_SERVER_ERROR :: int where "HTTP_CODE_INTERNAL_SERVER_ERROR = 500"
definition HTTP_CODE_NOT_IMPLEMENTED :: int where "HTTP_CODE_NOT_IMPLEMENTED = 501"
definition HTTP_CODE_SERVICE_UNAVAILABLE :: int where "HTTP_CODE_SERVICE_UNAVAILABLE = 503"

lemmas http_codes = HTTP_CODE_OK_def HTTP_CODE_BAD_REQUEST_def HTTP_CODE_UNAUTHORIZED_def
  HTTP_CODE_FORBIDDEN_def HTTP_CODE_NOT_FOUND_def HTTP_CODE_REQUEST_TIMEOUT_def HTTP_CODE_CONFLICT_def
  HTTP_CODE_INTERNAL_SERVER_ERROR_def HTTP_CODE_NOT_IMPLEMENTED_def HTTP_CODE_SERVICE_UNAVAILABLE_def

definition ant_code_to_http_code_array :: "int list" where
  "ant_code_to_http_code_array =
     [HTTP_CODE_OK, HTTP_CODE_REQUEST_TIMEOUT, HTTP_CODE_INTERNAL_SERVER_ERROR, HTTP_CODE_BAD_REQUEST,
      HTTP_CODE_REQUEST_TIMEOUT, HTTP_CODE_NOT_FOUND, HTTP_CODE_CONFLICT, HTTP_CODE_FORBIDDEN,
      HTTP_CODE_FORBIDDEN, HTTP_CODE_BAD_REQUEST, HTTP_CODE_CONFLICT, HTTP_CODE_BAD_REQUEST,
      HTTP_CODE_NOT_IMPLEMENTED, HTTP_CODE_INTERNAL_SERVER_ERROR, HTTP_CODE_SERVICE_UNAVAILABLE,
      HTTP_CODE_INTERNAL_SERVER_ERROR, HTTP_CODE_UNAUTHORIZED, HTTP_CODE_OK]"

definition cmsg_proxy_ant_code_to_http_code :: "int \<Rightarrow> int" where
  "cmsg_proxy_ant_code_to_http_code code =
     (if code < 0 \<or> code \<ge> ANT_CODE_MAX then HTTP_CODE_INTERNAL_SERVER_ERROR
      else ant_code_to_http_code_array ! nat code)"

section \<open>Text as a JSON field\<close>

definition is_space :: "char \<Rightarrow> bool" where
  "is_space c \<longleftrightarrow> c \<in> {CHR '' '', CHR 0x09, CHR 0x0A, CHR 0x0B, CHR 0x0C, CHR 0x0D}"

definition is_digit :: "char \<Rightarrow> bool" where
  "is_digit c \<longleftrightarrow> 48 \<le> (of_char c :: nat) \<and> (of_char c :: nat) \<le> 57"

definition digits_value :: "string \<Rightarrow> int" where
  "digits_value ds = foldl (\<lambda>n c. n * 10 + (of_char c - 48)) 0 ds"

text \<open>\<open>strtoll\<close> in base 10: the value, cut to 64 bits, and the rest of the text; without digits, all of it.\<close>

definition strtoll :: "string \<Rightarrow> int \<times> string" where
  "strtoll s =
     (let t = dropWhile is_space s;
          (neg, u) = (case t of c # t' \<Rightarrow> if c = CHR ''-'' then (True, t') else if c = CHR ''+'' then (False, t') else (False, t)
                      | [] \<Rightarrow> (False, []));
          ds = takeWhile is_digit u
      in if ds = [] then (0, s)
         else (max (- (2 ^ 63)) (min (2 ^ 63 - 1) (if neg then - digits_value ds else digits_value ds)),
               dropWhile is_digit u))"

definition json_field :: "field_descriptor \<Rightarrow> json \<Rightarrow> json_object" where
  "json_field fd j = [(fd_name fd, if fd_repeated fd then JArray [j] else j)]"

text \<open>\<open>json_pack\<close> refuses a string that is not UTF-8.\<close>

definition cmsg_proxy_json_value_handle_as_string :: "proxy_env \<Rightarrow> field_descriptor \<Rightarrow> string \<Rightarrow> json_object option" where
  "cmsg_proxy_json_value_handle_as_string env fd value =
     (if px_utf8_valid env value then Some (json_field fd (JString value)) else None)"

definition cmsg_proxy_json_value_to_object :: "proxy_env \<Rightarrow> field_descriptor \<Rightarrow> string option \<Rightarrow> json_object option" where
  "cmsg_proxy_json_value_to_object env fd value =
     (case value of
        None \<Rightarrow> Some (json_field fd JNull)
      | Some value \<Rightarrow>
          if fd_type fd \<in> {PROTOBUF_C_TYPE_INT32, PROTOBUF_C_TYPE_SINT32, PROTOBUF_C_TYPE_SFIXED32,
                           PROTOBUF_C_TYPE_UINT32, PROTOBUF_C_TYPE_FIXED32}
          then (case strtoll value of (llvalue, endptr) \<Rightarrow>
                  if endptr = [] then Some (json_field fd (JInt llvalue))
                  else cmsg_proxy_json_value_handle_as_string env fd value)
          else if fd_type fd \<in> {PROTOBUF_C_TYPE_UINT64, PROTOBUF_C_TYPE_INT64, PROTOBUF_C_TYPE_SINT64,
                                PROTOBUF_C_TYPE_SFIXED64, PROTOBUF_C_TYPE_FIXED64,
                                PROTOBUF_C_TYPE_ENUM, PROTOBUF_C_TYPE_STRING}
          then cmsg_proxy_json_value_handle_as_string env fd value
          else if fd_type fd = PROTOBUF_C_TYPE_BOOL
          then (if strcmp value ''false'' = 0 \<or> strcmp value ''true'' = 0
                then Some (json_field fd (JBool (strcmp value ''false'' \<noteq> 0)))
                else cmsg_proxy_json_value_handle_as_string env fd value)
          else None)"

definition cmsg_proxy_set_internal_api_value ::
  "proxy_env \<Rightarrow> string option \<Rightarrow> message_descriptor \<Rightarrow> string \<Rightarrow> json_object \<Rightarrow> json_object" where
  "cmsg_proxy_set_internal_api_value env internal_info_value md field_name json_obj =
     (case field_by_name env md field_name of
        None \<Rightarrow> json_obj
      | Some fd \<Rightarrow>
          (case cmsg_proxy_json_value_to_object env fd internal_info_value of
             None \<Rightarrow> json_obj
           | Some new_object \<Rightarrow> json_object_update json_obj new_object))"

section \<open>Files\<close>

definition cmsg_proxy_file_data_to_message :: "proxy_env \<Rightarrow> string \<Rightarrow> proto_message \<Rightarrow> proto_message" where
  "cmsg_proxy_file_data_to_message env input_data msg =
     (case field_by_name env (pm_descriptor msg) ''_file'' of
        None \<Rightarrow> msg
      | Some file_field \<Rightarrow>
          Proto (pm_descriptor msg)
            (proto_set (fd_name file_field) (P_bytes (input_data \<noteq> []) input_data) (pm_fields msg)))"

definition cmsg_proxy_file_data_strip :: "proxy_env \<Rightarrow> proto_message \<Rightarrow> proto_message" where
  "cmsg_proxy_file_data_strip env msg = cmsg_proxy_file_data_to_message env [] msg"

section \<open>Query strings\<close>

text \<open>A \<open>key=value\<close> piece is split at its last equals sign.\<close>

fun split_last :: "char \<Rightarrow> string \<Rightarrow> (string \<times> string) option" where
  "split_last d [] = None"
| "split_last d (c # cs) =
     (case split_last d cs of
        Some (a, b) \<Rightarrow> Some (c # a, b)
      | None \<Rightarrow> if c = d then Some ([], cs) else None)"

definition cmsg_proxy_param_name_matches :: "cmsg_url_parameter \<Rightarrow> string \<Rightarrow> bool" where
  "cmsg_proxy_param_name_matches p key \<longleftrightarrow> strcmp (url_key p) key = 0"

definition parse_query_entry :: "proxy_env \<Rightarrow> string \<Rightarrow> cmsg_url_parameter list \<Rightarrow> cmsg_url_parameter list" where
  "parse_query_entry env next_entry url_parameters =
     (case split_last (CHR ''='') next_entry of
        None \<Rightarrow> url_parameters
      | Some (key, value) \<Rightarrow>
          if List.find (\<lambda>p. cmsg_proxy_param_name_matches p key) url_parameters = None
          then cmsg_proxy_create_url_parameter (px_tree env) key value # url_parameters
          else url_parameters)"

definition cmsg_proxy_parse_query_parameters ::
  "proxy_env \<Rightarrow> string option \<Rightarrow> cmsg_url_parameter list \<Rightarrow> cmsg_url_parameter list" where
  "cmsg_proxy_parse_query_parameters env query_string url_parameters =
     (case query_string of
        None \<Rightarrow> url_parameters
      | Some q \<Rightarrow> fold (parse_query_entry env) (strtok_all (CHR ''&'') q) url_parameters)"

section \<open>Responses\<close>

record cmsg_proxy_output =
  out_response_body :: "string option"
  out_response_length :: nat
  out_mime_type :: string
  out_stream_response :: bool
  out_http_status :: int

definition cmsg_proxy_json_t_to_output :: "proxy_env \<Rightarrow> json \<Rightarrow> json_flag list \<Rightarrow> cmsg_proxy_output \<Rightarrow> cmsg_proxy_output" where
  "cmsg_proxy_json_t_to_output env json_data json_flags output =
     (case px_json_dumps env json_data json_flags of
        Some response_body \<Rightarrow>
          output\<lparr>out_response_body := Some response_body, out_response_length := length response_body\<rparr>
      | None \<Rightarrow> output\<lparr>out_response_length := 0\<rparr>)"

fun json_object_del :: "string \<Rightarrow> json_object \<Rightarrow> json_object" where
  "json_object_del k [] = []"
| "json_object_del k ((k', v) # obj) = (if k' = k then obj else (k', v) # json_object_del k obj)"

definition cmsg_proxy_strip_details_from_ant_result :: "json_object \<Rightarrow> json_object" where
  "cmsg_proxy_strip_details_from_ant_result obj =
     (if map_of obj ''details'' = Some (JArray []) then json_object_del ''details'' obj else obj)"

definition cmsg_proxy_generate_ant_result_error ::
  "proxy_env \<Rightarrow> ant_code \<Rightarrow> string \<Rightarrow> cmsg_proxy_output \<Rightarrow> cmsg_proxy_output" where
  "cmsg_proxy_generate_ant_result_error env code message output =
     (let output = output\<lparr>out_http_status := cmsg_proxy_ant_code_to_http_code (ant_code_value code)\<rparr>
      in case px_protobuf2json env (ant_result_message (ant_code_value code) message) of
           None \<Rightarrow> output\<lparr>out_http_status := HTTP_CODE_INTERNAL_SERVER_ERROR\<rparr>
         | Some obj \<Rightarrow>
             cmsg_proxy_json_t_to_output env (JObject (cmsg_proxy_strip_details_from_ant_result obj)) [JSON_COMPACT] output)"

section \<open>Lemmas\<close>

lemma json_object_set_map_of: "map_of (json_object_set k v obj) = (map_of obj)(k \<mapsto> v)"
  by (induction k v obj rule: json_object_set.induct) auto

lemma json_object_set_keys: "fst ` set (json_object_set k v obj) = insert k (fst ` set obj)"
  by (induction k v obj rule: json_object_set.induct) auto

lemma json_object_set_distinct: "distinct (map fst obj) \<Longrightarrow> distinct (map fst (json_object_set k v obj))"
proof (induction k v obj rule: json_object_set.induct)
  case (2 k v k' v' obj)
  then show ?case using json_object_set_keys [of k v obj] by (auto simp flip: set_map)
qed simp

lemma json_update_field:
  "json_object_update obj (json_field fd j) = json_object_set (fd_name fd) (if fd_repeated fd then JArray [j] else j) obj"
  by (simp add: json_object_update_def json_field_def)

lemma strtoll_bounds: "strtoll s = (n, r) \<Longrightarrow> - (2 ^ 63) \<le> n \<and> n < 2 ^ 63"
  by (auto simp: strtoll_def Let_def split: prod.splits if_splits)

end
