(* ===== verification/ProxyOutput.thy ===== *)
theory ProxyOutput
  imports ProxyJson
begin

text \<open>
  The path out of the proxy (\<open>cmsg-proxy/src/cmsg_proxy_output.c\<close>): the HTTP status from the
  \<open>_error_info\<close> of the answer, and the body from the rest of it.
\<close>

section \<open>Status\<close>

text \<open>The value of the message field that is named \<open>_error_info\<close>.\<close>

definition error_info_of :: "proto_message \<Rightarrow> proto_message option" where
  "error_info_of m = (case map_of (pm_fields m) ''_error_info'' of Some (P_message sub) \<Rightarrow> sub | _ \<Rightarrow> None)"

definition is_ant_result :: "proto_message \<Rightarrow> bool" where
  "is_ant_result m \<longleftrightarrow> strcmp (md_name (pm_descriptor m)) ''ant_result'' = 0"

text \<open>
  The message that tells the result, and the message that is left when it is taken out; the
  answer may be that message itself.
\<close>

definition error_message_ptr :: "proxy_env \<Rightarrow> proto_message \<Rightarrow> (proto_message option \<times> proto_message option) option" where
  "error_message_ptr env m =
     (if field_by_name env (pm_descriptor m) ''_error_info'' \<noteq> None
      then Some (error_info_of m, Some (Proto (pm_descriptor m) (proto_set ''_error_info'' (P_message None) (pm_fields m))))
      else if is_ant_result m then Some (Some m, None)
      else None)"

text \<open>Whether the status was found, the status, and the message afterwards.\<close>

definition cmsg_proxy_set_http_status ::
  "proxy_env \<Rightarrow> cmsg_http_verb \<Rightarrow> proto_message option \<Rightarrow> bool \<times> int \<times> proto_message option" where
  "cmsg_proxy_set_http_status env http_verb msg =
     (case msg of
        None \<Rightarrow> (False, HTTP_CODE_INTERNAL_SERVER_ERROR, None)
      | Some m \<Rightarrow>
          (case error_message_ptr env m of
             None \<Rightarrow> (False, HTTP_CODE_INTERNAL_SERVER_ERROR, Some m)
           | Some (error_message, cleared) \<Rightarrow>
               (case Option.bind error_message ant_result_code of
                  Some code \<Rightarrow>
                    (True, cmsg_proxy_ant_code_to_http_code code,
                     if code = ant_code_value ANT_CODE_OK \<and> http_verb = CMSG_HTTP_GET then cleared else Some m)
                | None \<Rightarrow> (False, HTTP_CODE_INTERNAL_SERVER_ERROR, Some m))))"

section \<open>Body\<close>

definition cmsg_proxy_msg_has_body_override :: "proxy_env \<Rightarrow> message_descriptor \<Rightarrow> bool" where
  "cmsg_proxy_msg_has_body_override env md \<longleftrightarrow> field_by_name env md ''_body'' \<noteq> None"

definition cmsg_proxy_generate_plaintext_response ::
  "proxy_env \<Rightarrow> proto_message \<Rightarrow> cmsg_proxy_output \<Rightarrow> bool \<times> cmsg_proxy_output" where
  "cmsg_proxy_generate_plaintext_response env m output =
     (let output = output\<lparr>out_response_length := 0\<rparr>
      in case field_by_name env (pm_descriptor m) ''_body'' of
           None \<Rightarrow> (False, output)
         | Some fd \<Rightarrow>
             if fd_type fd \<noteq> PROTOBUF_C_TYPE_STRING then (False, output)
             else (case map_of (pm_fields m) (fd_name fd) of
                     Some (P_string (Some text)) \<Rightarrow>
                       (True, output\<lparr>out_response_body := Some text, out_mime_type := ''text/plain'',
                                     out_response_length := length text\<rparr>)
                   | _ \<Rightarrow> (True, output)))"

fun strip_details :: "json \<Rightarrow> json" where
  "strip_details (JObject obj) = JObject (cmsg_proxy_strip_details_from_ant_result obj)"
| "strip_details j = j"

definition cmsg_proxy_generate_response_body ::
  "proxy_env \<Rightarrow> proto_message \<Rightarrow> cmsg_proxy_output \<Rightarrow> bool \<times> cmsg_proxy_output" where
  "cmsg_proxy_generate_response_body env m output =
     (if out_http_status output = HTTP_CODE_OK \<and> cmsg_proxy_msg_has_body_override env (pm_descriptor m)
      then cmsg_proxy_generate_plaintext_response env m output
      else case px_protobuf2json env m of
        None \<Rightarrow> (False, output)
      | Some obj \<Rightarrow>
          if is_ant_result m
          then (True, cmsg_proxy_json_t_to_output env (JObject (cmsg_proxy_strip_details_from_ant_result obj)) [JSON_COMPACT] output)
          else if out_http_status output \<noteq> HTTP_CODE_OK
          then (case List.find (\<lambda>(key, _). strcmp key ''_error_info'' = 0) obj of
                  Some (_, j) \<Rightarrow>
                    (True, cmsg_proxy_json_t_to_output env (strip_details j) [JSON_ENCODE_ANY, JSON_COMPACT] output)
                | None \<Rightarrow> (False, output))
          else if length (md_fields (pm_descriptor m)) \<le> 2
          then (case List.find (\<lambda>(key, _). strcmp key ''_error_info'' \<noteq> 0) obj of
                  Some (_, j) \<Rightarrow> (True, cmsg_proxy_json_t_to_output env j [JSON_ENCODE_ANY, JSON_COMPACT] output)
                | None \<Rightarrow> (False, output))
          else (True, cmsg_proxy_json_t_to_output env
                  (JObject (if map_of obj ''_error_info'' \<noteq> None then cmsg_proxy_strip_details_from_ant_result obj else obj))
                  [JSON_COMPACT] output))"

end
