(* ===== verification/ProxyStream.thy ===== *)
theory ProxyStream
  imports ProxyOutput
begin

text \<open>
  Streamed responses (\<open>cmsg-proxy/src/cmsg_proxy_http_streaming.c\<close>). The web server's threads
  create and delete the connections; the streaming server's thread looks one up by its id, uses it
  and releases it. Connections live at addresses: an access to a freed one is undefined (\<open>None\<close>).
  A handler is cut where the code gives up a lock, so that the steps can interleave.
\<close>

section \<open>State\<close>

record cmsg_proxy_stream_connection =
  sc_id :: u32
  sc_connection :: nat
  sc_output_msg_descriptor :: message_descriptor
  sc_in_use :: bool
  sc_to_delete :: bool
  sc_headers_set :: bool

datatype stream_event =
    Stream_response_send nat string
  | Stream_response_close nat
  | Stream_conn_release nat
  | Stream_headers_set nat "(string \<times> string) list"
  | Stream_conn_abort nat

text \<open>Which of the web server's callbacks are set; the last one tells whether a connection is busy.\<close>

record stream_callbacks =
  cb_response_send :: bool
  cb_response_close :: bool
  cb_conn_release :: bool
  cb_headers_set :: bool
  cb_conn_abort :: bool
  cb_conn_busy :: "(nat \<Rightarrow> nat \<Rightarrow> bool) option"

record stream_state =
  ss_conns :: "nat \<Rightarrow> cmsg_proxy_stream_connection option"
  ss_list :: "nat list"
  ss_last_id_assigned :: u32
  ss_next_addr :: nat
  ss_events :: "stream_event list"

definition stream_log :: "bool \<Rightarrow> stream_event \<Rightarrow> stream_state \<Rightarrow> stream_state" where
  "stream_log callback_set e s = (if callback_set then s\<lparr>ss_events := ss_events s @ [e]\<rparr> else s)"

definition conn_free :: "nat \<Rightarrow> stream_state \<Rightarrow> stream_state" where
  "conn_free a s = s\<lparr>ss_conns := (ss_conns s)(a := None)\<rparr>"

definition conn_update ::
  "nat \<Rightarrow> (cmsg_proxy_stream_connection \<Rightarrow> cmsg_proxy_stream_connection) \<Rightarrow> stream_state \<Rightarrow> stream_state option" where
  "conn_update a f s = map_option (\<lambda>c. s\<lparr>ss_conns := (ss_conns s)(a \<mapsto> f c)\<rparr>) (ss_conns s a)"

section \<open>Connections\<close>

definition cmsg_proxy_streaming_is_required :: "proxy_env \<Rightarrow> message_descriptor \<Rightarrow> bool" where
  "cmsg_proxy_streaming_is_required env md \<longleftrightarrow> field_by_name env md ''_streaming_id'' \<noteq> None"

definition cmsg_proxy_streaming_generate_id :: "stream_state \<Rightarrow> u32 \<times> stream_state" where
  "cmsg_proxy_streaming_generate_id s = (ss_last_id_assigned s, s\<lparr>ss_last_id_assigned := ss_last_id_assigned s + 1\<rparr>)"

definition decimal_int :: "int \<Rightarrow> string" where
  "decimal_int n = (if n < 0 then CHR ''-'' # decimal (nat (- n)) else decimal (nat n))"

text \<open>The result: whether the response is streamed, the id, and the JSON input with the id in it.\<close>

definition cmsg_proxy_streaming_create_conn ::
  "proxy_env \<Rightarrow> bool \<Rightarrow> nat \<Rightarrow> json_object \<Rightarrow> message_descriptor \<Rightarrow> message_descriptor \<Rightarrow> stream_state
   \<Rightarrow> (bool \<times> u32 \<times> json_object) \<times> stream_state" where
  "cmsg_proxy_streaming_create_conn env alloc_ok connection json_obj input_md output_md s =
     (if \<not> cmsg_proxy_streaming_is_required env input_md then ((False, 0, json_obj), s)
      else if \<not> alloc_ok then ((False, 0, json_obj), s)
      else
        (let (ident, s) = cmsg_proxy_streaming_generate_id s;
             json_obj = cmsg_proxy_set_internal_api_value env (Some (decimal (unat ident))) input_md ''_streaming_id'' json_obj;
             a = ss_next_addr s
         in ((True, ident, json_obj),
             s\<lparr>ss_conns := (ss_conns s)(a \<mapsto>
                  \<lparr>sc_id = ident, sc_connection = connection, sc_output_msg_descriptor = output_md,
                   sc_in_use = False, sc_to_delete = False, sc_headers_set = False\<rparr>),
                ss_list := a # ss_list s, ss_next_addr := a + 1\<rparr>)))"

text \<open>Going through the list reads every connection up to the one that is looked for.\<close>

fun list_search :: "(nat \<Rightarrow> cmsg_proxy_stream_connection option) \<Rightarrow> (cmsg_proxy_stream_connection \<Rightarrow> bool) \<Rightarrow> nat list \<Rightarrow> nat option option" where
  "list_search conns P [] = Some None"
| "list_search conns P (a # as) =
     (case conns a of
        None \<Rightarrow> None
      | Some c \<Rightarrow> if P c then Some (Some a) else list_search conns P as)"

definition cmsg_proxy_streaming_delete_conn_by_id :: "u32 \<Rightarrow> stream_state \<Rightarrow> stream_state option" where
  "cmsg_proxy_streaming_delete_conn_by_id ident s =
     map_option (\<lambda>r. case r of
         None \<Rightarrow> s
       | Some a \<Rightarrow> (conn_free a s)\<lparr>ss_list := remove1 a (ss_list s)\<rparr>)
       (list_search (ss_conns s) (\<lambda>c. sc_id c = ident) (ss_list s))"

definition cmsg_proxy_streaming_lookup_conn_by_id :: "u32 \<Rightarrow> stream_state \<Rightarrow> (nat option \<times> stream_state) option" where
  "cmsg_proxy_streaming_lookup_conn_by_id ident s =
     Option.bind (list_search (ss_conns s) (\<lambda>c. sc_id c = ident) (ss_list s)) (\<lambda>r.
       case r of
         None \<Rightarrow> Some (None, s)
       | Some a \<Rightarrow> map_option (Pair (Some a)) (conn_update a (\<lambda>c. c\<lparr>sc_in_use := True\<rparr>) s))"

definition cmsg_proxy_streaming_delete_conn_info :: "stream_callbacks \<Rightarrow> nat \<Rightarrow> stream_state \<Rightarrow> stream_state option" where
  "cmsg_proxy_streaming_delete_conn_info cb a s =
     Option.bind (ss_conns s a) (\<lambda>c.
       if sc_in_use c then conn_update a (\<lambda>c. c\<lparr>sc_to_delete := True\<rparr>) s
       else Some (conn_free a (stream_log (cb_conn_release cb) (Stream_conn_release (sc_connection c)) s)))"

definition cmsg_proxy_streaming_release_conn_info :: "stream_callbacks \<Rightarrow> nat \<Rightarrow> stream_state \<Rightarrow> stream_state option" where
  "cmsg_proxy_streaming_release_conn_info cb a s =
     Option.bind (ss_conns s a) (\<lambda>c.
       if sc_to_delete c
       then Some (conn_free a (stream_log (cb_conn_release cb) (Stream_conn_release (sc_connection c)) s))
       else conn_update a (\<lambda>c. c\<lparr>sc_in_use := False\<rparr>) s)"

definition cmsg_proxy_streaming_conn_timeout :: "stream_callbacks \<Rightarrow> nat \<Rightarrow> stream_state \<Rightarrow> stream_state option" where
  "cmsg_proxy_streaming_conn_timeout cb connection s =
     Option.bind (list_search (ss_conns s) (\<lambda>c. sc_connection c = connection) (ss_list s)) (\<lambda>r.
       case r of
         None \<Rightarrow> Some s
       | Some a \<Rightarrow> map_option (\<lambda>s. s\<lparr>ss_list := remove1 a (ss_list s)\<rparr>) (cmsg_proxy_streaming_delete_conn_info cb a s))"

section \<open>Messages without their result\<close>

definition strip_response :: "proxy_env \<Rightarrow> proto_message \<Rightarrow> proto_message option" where
  "strip_response env m =
     (if strcmp (md_name (pm_descriptor m)) ''streamed_ant_result'' = 0 \<and>
         field_by_name env (pm_descriptor m) ''response'' \<noteq> None
      then (case map_of (pm_fields m) ''response'' of Some (P_message sub) \<Rightarrow> sub | _ \<Rightarrow> None)
      else Some m)"

text \<open>
  The message may be gone afterwards. The result is undefined when it was an \<open>ant_result\<close> with a
  code: it is freed, and the name of its descriptor is read through the cleared pointer.
\<close>

definition cmsg_proxy_streaming_strip_ant_result :: "proxy_env \<Rightarrow> proto_message \<Rightarrow> proto_message option option" where
  "cmsg_proxy_streaming_strip_ant_result env m =
     (case error_message_ptr env m of
        None \<Rightarrow> Some (Some m)
      | Some (error_message, cleared) \<Rightarrow>
          (case Option.bind error_message ant_result_code of
             None \<Rightarrow> Some (strip_response env m)
           | Some code \<Rightarrow> map_option (strip_response env) cleared))"

section \<open>Handlers\<close>

record stream_data =
  sd_id :: u32
  sd_message_data :: string

datatype content_type = CONTENT_TYPE_UNSET | CONTENT_TYPE_JSON | CONTENT_TYPE_FILE | CONTENT_TYPE_PLAINTEXT | CONTENT_TYPE_OTHER

record stream_headers_info =
  sh_id :: u32
  sh_type :: content_type
  sh_file_info :: "(string \<times> u32) option"

text \<open>How a handler leaves the connection it looked up.\<close>

datatype conn_exit = Conn_release | Conn_keep | Conn_unlink

text \<open>
  What the handlers do with the connection that they hold: the events, whether the headers get
  set, and the exit. The output structure is not initialised but for its status; printing a body
  that was not stored is undefined.
\<close>

definition uninitialised_output :: cmsg_proxy_output where
  "uninitialised_output = \<lparr>out_response_body = None, out_response_length = 0, out_mime_type = [],
     out_stream_response = False, out_http_status = HTTP_CODE_OK\<rparr>"

definition send_stream_data_held ::
  "proxy_env \<Rightarrow> cmsg_proxy_stream_connection \<Rightarrow> stream_data \<Rightarrow> (stream_event list \<times> bool \<times> conn_exit) option" where
  "send_stream_data_held env c msg =
     (if cmsg_proxy_msg_has_file (px_tree env) (sc_output_msg_descriptor c) then Some ([], False, Conn_release)
      else if \<not> sc_headers_set c then Some ([], False, Conn_release)
      else case px_unpack env (sc_output_msg_descriptor c) (sd_message_data msg) of
        None \<Rightarrow> Some ([], False, Conn_keep)
      | Some message \<Rightarrow>
          Option.bind (cmsg_proxy_streaming_strip_ant_result env message) (\<lambda>stripped.
            case stripped of
              None \<Rightarrow> None
            | Some message \<Rightarrow>
                (case cmsg_proxy_generate_response_body env message uninitialised_output of
                   (False, _) \<Rightarrow> Some ([], False, Conn_keep)
                 | (True, output) \<Rightarrow>
                     map_option (\<lambda>body. ([Stream_response_send (sc_connection c) (body @ [CHR 0x0A])], False, Conn_release))
                       (out_response_body output))))"

text \<open>The wait until the connection is no longer busy need not end.\<close>

partial_function (option) conn_busy_wait :: "(nat \<Rightarrow> bool) \<Rightarrow> nat \<Rightarrow> nat option" where
  "conn_busy_wait busy n = (if busy n then conn_busy_wait busy (Suc n) else Some n)"

definition send_stream_file_data_held ::
  "proxy_env \<Rightarrow> stream_callbacks \<Rightarrow> cmsg_proxy_stream_connection \<Rightarrow> stream_data
   \<Rightarrow> (stream_event list \<times> bool \<times> conn_exit) option" where
  "send_stream_file_data_held env cb c msg =
     (if \<not> cmsg_proxy_msg_has_file (px_tree env) (sc_output_msg_descriptor c) then Some ([], False, Conn_release)
      else if \<not> sc_headers_set c then Some ([], False, Conn_release)
      else map_option (\<lambda>_. ([Stream_response_send (sc_connection c) (sd_message_data msg)], False, Conn_release))
             (case cb_conn_busy cb of
                None \<Rightarrow> Some 0
              | Some busy \<Rightarrow> conn_busy_wait (busy (sc_connection c)) 0))"

definition close_stream_connection_held :: "cmsg_proxy_stream_connection \<Rightarrow> stream_event list \<times> bool \<times> conn_exit" where
  "close_stream_connection_held c = ([Stream_response_close (sc_connection c)], False, Conn_unlink)"

definition abort_stream_connection_held :: "cmsg_proxy_stream_connection \<Rightarrow> stream_event list \<times> bool \<times> conn_exit" where
  "abort_stream_connection_held c = ([Stream_conn_abort (sc_connection c)], False, Conn_unlink)"

text \<open>The size of a file is printed as a signed number.\<close>

definition stream_headers :: "proxy_env \<Rightarrow> cmsg_proxy_stream_connection \<Rightarrow> stream_headers_info \<Rightarrow> (string \<times> string) list option" where
  "stream_headers env c msg =
     (case sh_type msg of
        CONTENT_TYPE_JSON \<Rightarrow> Some [(''Content-Type'', ''application/json'')]
      | CONTENT_TYPE_FILE \<Rightarrow>
          (case sh_file_info msg of
             None \<Rightarrow> None
           | Some (file_name, file_size) \<Rightarrow>
               if \<not> cmsg_proxy_msg_has_file (px_tree env) (sc_output_msg_descriptor c) then None
               else Some [(''Content-Type'', ''application/octet-stream''),
                          (''Content-Transfer-Encoding'', ''binary''),
                          (''Content-Disposition'', ''attachment; filename='' @ [CHR 0x22] @ file_name @ [CHR 0x22]),
                          (''Content-Length'', decimal_int (sint file_size))])
      | CONTENT_TYPE_PLAINTEXT \<Rightarrow> Some [(''Content-Type'', ''text/plain'')]
      | _ \<Rightarrow> None)"

definition set_stream_headers_held ::
  "proxy_env \<Rightarrow> cmsg_proxy_stream_connection \<Rightarrow> stream_headers_info \<Rightarrow> stream_event list \<times> bool \<times> conn_exit" where
  "set_stream_headers_held env c msg =
     (case stream_headers env c msg of
        None \<Rightarrow> ([], False, Conn_release)
      | Some headers \<Rightarrow> ([Stream_headers_set (sc_connection c) headers], True, Conn_release))"

text \<open>The events of a callback that is not set do not happen.\<close>

fun event_callback :: "stream_callbacks \<Rightarrow> stream_event \<Rightarrow> bool" where
  "event_callback cb (Stream_response_send c d) = cb_response_send cb"
| "event_callback cb (Stream_response_close c) = cb_response_close cb"
| "event_callback cb (Stream_conn_release c) = cb_conn_release cb"
| "event_callback cb (Stream_headers_set c h) = cb_headers_set cb"
| "event_callback cb (Stream_conn_abort c) = cb_conn_abort cb"

definition conn_use :: "stream_callbacks \<Rightarrow> nat \<Rightarrow> stream_event list \<Rightarrow> bool \<Rightarrow> stream_state \<Rightarrow> stream_state option" where
  "conn_use cb a events headers s =
     conn_update a (\<lambda>c. if headers then c\<lparr>sc_headers_set := True\<rparr> else c)
       (fold (\<lambda>e. stream_log (event_callback cb e) e) events s)"

definition conn_unlink :: "nat \<Rightarrow> stream_state \<Rightarrow> stream_state" where
  "conn_unlink a s = s\<lparr>ss_list := remove1 a (ss_list s)\<rparr>"

definition conn_mark_and_release :: "stream_callbacks \<Rightarrow> nat \<Rightarrow> stream_state \<Rightarrow> stream_state option" where
  "conn_mark_and_release cb a s =
     Option.bind (conn_update a (\<lambda>c. c\<lparr>sc_to_delete := True, sc_in_use := False\<rparr>) s)
       (cmsg_proxy_streaming_release_conn_info cb a)"

fun conn_leave :: "stream_callbacks \<Rightarrow> conn_exit \<Rightarrow> nat \<Rightarrow> stream_state \<Rightarrow> stream_state option" where
  "conn_leave cb Conn_release a s = cmsg_proxy_streaming_release_conn_info cb a s"
| "conn_leave cb Conn_keep a s = Some s"
| "conn_leave cb Conn_unlink a s = conn_mark_and_release cb a (conn_unlink a s)"

text \<open>A handler from its lookup to its end: whether the stream was found.\<close>

definition stream_handler ::
  "stream_callbacks \<Rightarrow> u32 \<Rightarrow> (cmsg_proxy_stream_connection \<Rightarrow> (stream_event list \<times> bool \<times> conn_exit) option)
   \<Rightarrow> stream_state \<Rightarrow> (bool \<times> stream_state) option" where
  "stream_handler cb ident held s =
     Option.bind (cmsg_proxy_streaming_lookup_conn_by_id ident s) (\<lambda>(r, s).
       case r of
         None \<Rightarrow> Some (False, s)
       | Some a \<Rightarrow>
           Option.bind (ss_conns s a) (\<lambda>c.
             Option.bind (held c) (\<lambda>(events, headers, leave).
               Option.bind (conn_use cb a events headers s) (\<lambda>s.
                 map_option (Pair True) (conn_leave cb leave a s)))))"

definition http_streaming_impl_send_stream_data ::
  "proxy_env \<Rightarrow> stream_callbacks \<Rightarrow> stream_data \<Rightarrow> stream_state \<Rightarrow> (bool \<times> stream_state) option" where
  "http_streaming_impl_send_stream_data env cb msg =
     stream_handler cb (sd_id msg) (\<lambda>c. send_stream_data_held env c msg)"

definition http_streaming_impl_send_stream_file_data ::
  "proxy_env \<Rightarrow> stream_callbacks \<Rightarrow> stream_data \<Rightarrow> stream_state \<Rightarrow> (bool \<times> stream_state) option" where
  "http_streaming_impl_send_stream_file_data env cb msg =
     stream_handler cb (sd_id msg) (\<lambda>c. send_stream_file_data_held env cb c msg)"

definition http_streaming_impl_close_stream_connection ::
  "stream_callbacks \<Rightarrow> u32 \<Rightarrow> stream_state \<Rightarrow> (bool \<times> stream_state) option" where
  "http_streaming_impl_close_stream_connection cb ident = stream_handler cb ident (\<lambda>c. Some (close_stream_connection_held c))"

definition http_streaming_impl_set_stream_headers ::
  "proxy_env \<Rightarrow> stream_callbacks \<Rightarrow> stream_headers_info \<Rightarrow> stream_state \<Rightarrow> (bool \<times> stream_state) option" where
  "http_streaming_impl_set_stream_headers env cb msg =
     stream_handler cb (sh_id msg) (\<lambda>c. Some (set_stream_headers_held env c msg))"

definition http_streaming_impl_abort_stream_connection ::
  "stream_callbacks \<Rightarrow> u32 \<Rightarrow> stream_state \<Rightarrow> (bool \<times> stream_state) option" where
  "http_streaming_impl_abort_stream_connection cb ident = stream_handler cb ident (\<lambda>c. Some (abort_stream_connection_held c))"

end
