(* ===== verification/Proxy.thy ===== *)
theory Proxy
  imports ProxyStream Wire
begin

text \<open>
  A request through the proxy (\<open>cmsg_proxy_input.c\<close>, \<open>cmsg_proxy_output.c\<close>, \<open>cmsg_proxy.c\<close>,
  \<open>cmsg_proxy_index.c\<close> and \<open>cmsg_proxy_passthrough.c\<close> in \<open>cmsg-proxy/src\<close>). The JSON input is an
  object, as the code has it from the moment it is created. The outermost \<open>None\<close> is undefined
  behaviour; the call of the API is the field \<open>px_invoke\<close> of the environment.
\<close>

section \<open>Data\<close>

record cmsg_proxy_input =
  in_url :: string
  in_query_string :: "string option"
  in_http_verb :: cmsg_http_verb
  in_data :: "string option"
  in_api_request_ip_address :: "string option"
  in_api_request_username :: "string option"
  in_upload_request :: bool
  in_temp_filename :: "string option"
  in_client_filename :: "string option"
  in_connection :: nat

datatype proxy_counter =
    cntr_unknown_service | cntr_api_calls | cntr_error_api_failure | cntr_error_missing_client
  | cntr_error_malformed_input | cntr_error_missing_error_info | cntr_error_protobuf_to_json

record cmsg_proxy_processing_info =
  pi_is_file_input :: bool
  pi_service_info :: cmsg_service_info
  pi_client :: string
  pi_streaming_id :: u32
  pi_cmsg_api_result :: ant_code
  pi_http_verb :: cmsg_http_verb

text \<open>The tree and the clients that start-up made, and whether memory can be had.\<close>

record proxy_conf =
  pc_root :: gnode
  pc_clients :: "string list"
  pc_alloc_ok :: bool

record proxy_state =
  pxs_streams :: stream_state
  pxs_counters :: "proxy_counter list"

definition proxy_count :: "proxy_counter \<Rightarrow> proxy_state \<Rightarrow> proxy_state" where
  "proxy_count c s = s\<lparr>pxs_counters := pxs_counters s @ [c]\<rparr>"

definition delete_stream :: "u32 \<Rightarrow> cmsg_proxy_output \<times> proxy_state \<Rightarrow> (cmsg_proxy_output \<times> proxy_state) option" where
  "delete_stream ident = (\<lambda>(output, s).
     if out_stream_response output
     then map_option (\<lambda>ss. (output\<lparr>out_stream_response := False\<rparr>, s\<lparr>pxs_streams := ss\<rparr>))
            (cmsg_proxy_streaming_delete_conn_by_id ident (pxs_streams s))
     else Some (output, s))"

section \<open>The way in\<close>

definition cmsg_proxy_pre_api_check :: "proxy_env \<Rightarrow> cmsg_http_verb \<Rightarrow> string option" where
  "cmsg_proxy_pre_api_check env http_verb =
     (case px_pre_api_check env of
        None \<Rightarrow> None
      | Some check \<Rightarrow>
          (case check http_verb of
             (True, _) \<Rightarrow> None
           | (False, None) \<Rightarrow> Some ''Pre-API check failed''
           | (False, Some error_msg) \<Rightarrow> Some error_msg))"

definition cmsg_proxy_convert_json_to_protobuf ::
  "proxy_env \<Rightarrow> json_object \<Rightarrow> message_descriptor \<Rightarrow> (ant_code \<times> string) + proto_message" where
  "cmsg_proxy_convert_json_to_protobuf env json_obj md =
     (case px_json2protobuf env (JObject json_obj) md of
        Inr m \<Rightarrow> Inr m
      | Inl (res, conversion_message) \<Rightarrow>
          if res \<in> {PROTOBUF2JSON_ERR_CANNOT_DUMP_STRING, PROTOBUF2JSON_ERR_CANNOT_DUMP_FILE,
                     PROTOBUF2JSON_ERR_JANSSON_INTERNAL, PROTOBUF2JSON_ERR_CANNOT_ALLOCATE_MEMORY}
          then Inl (ANT_CODE_INTERNAL, ''JSON to Protobuf conversion failed'')
          else Inl (ANT_CODE_INVALID_ARGUMENT, conversion_message))"

definition cmsg_proxy_get_service_and_parameters ::
  "proxy_env \<Rightarrow> gnode \<Rightarrow> string \<Rightarrow> string option \<Rightarrow> cmsg_http_verb
   \<Rightarrow> (cmsg_service_info option \<times> cmsg_url_parameter list) option" where
  "cmsg_proxy_get_service_and_parameters env root url query_string verb =
     map_option (\<lambda>(si, params).
         (si, if si \<noteq> None then cmsg_proxy_parse_query_parameters env query_string params else params))
       (cmsg_proxy_find_service_from_url_and_verb (px_tree env) url verb root [])"

definition cmsg_proxy_find_unparsed_field :: "message_descriptor \<Rightarrow> cmsg_url_parameter list \<Rightarrow> field_descriptor option" where
  "cmsg_proxy_find_unparsed_field md url_parameters =
     List.find (\<lambda>fd. \<not> cmsg_proxy_field_is_hidden (fd_name fd) \<and>
       \<not> list_ex (\<lambda>p. strcmp (url_key p) (fd_name fd) = 0) url_parameters) (md_fields md)"

fun cmsg_proxy_json_object_sanity_check :: "json \<Rightarrow> string option" where
  "cmsg_proxy_json_object_sanity_check (JObject obj) =
     (if list_ex (\<lambda>(key, _). cmsg_proxy_field_is_hidden key) obj then Some ''Invalid JSON'' else None)"
| "cmsg_proxy_json_object_sanity_check _ = Some ''JSON object expected but JSON value or array given''"

fun cmsg_proxy_json_object_array_sanity_check :: "json \<Rightarrow> string option" where
  "cmsg_proxy_json_object_array_sanity_check (JArray js) =
     (if list_ex (\<lambda>j. cmsg_proxy_json_object_sanity_check j \<noteq> None) js then Some ''Invalid JSON'' else None)"
| "cmsg_proxy_json_object_array_sanity_check _ = Some ''JSON array expected but JSON value or object given''"

definition cmsg_proxy_input_data_presence_as_expected :: "string option \<Rightarrow> string \<Rightarrow> string option" where
  "cmsg_proxy_input_data_presence_as_expected data body_string =
     (if body_string = []
      then (if data \<noteq> None then Some ''Invalid JSON: No JSON data expected for API, but JSON data input'' else None)
      else if hd body_string \<noteq> CHR ''*'' \<and> data = None then Some ''Invalid JSON: Input expected but not provided.''
      else None)"

text \<open>The value of the one field that the body is for.\<close>

definition json_field_create ::
  "proxy_env \<Rightarrow> string \<Rightarrow> string \<Rightarrow> json \<Rightarrow> field_descriptor \<Rightarrow> string + json_object" where
  "json_field_create env input_data error_text converted_json fd =
     (let or_error = (\<lambda>obj. case obj of None \<Rightarrow> Inl error_text | Some obj \<Rightarrow> Inr obj)
      in if fd_type fd = PROTOBUF_C_TYPE_MESSAGE
         then (case (if fd_repeated fd then cmsg_proxy_json_object_array_sanity_check converted_json
                     else cmsg_proxy_json_object_sanity_check converted_json) of
                 Some err \<Rightarrow> Inl err
               | None \<Rightarrow> Inr [(fd_name fd, converted_json)])
         else (case converted_json of
                 JObject _ \<Rightarrow> Inl ''JSON value or array expected but JSON object given''
               | JArray _ \<Rightarrow> Inr [(fd_name fd, converted_json)]
               | JString text \<Rightarrow> or_error (cmsg_proxy_json_value_to_object env fd (Some text))
               | _ \<Rightarrow>
                   if fd_type fd \<in> {PROTOBUF_C_TYPE_ENUM, PROTOBUF_C_TYPE_STRING}
                   then Inl ''JSON string value expected''
                   else or_error (cmsg_proxy_json_value_to_object env fd (Some input_data))))"

definition cmsg_proxy_json_object_create ::
  "proxy_env \<Rightarrow> string option \<Rightarrow> message_descriptor \<Rightarrow> string \<Rightarrow> cmsg_url_parameter list \<Rightarrow> string + json_object" where
  "cmsg_proxy_json_object_create env input_data md body_string url_parameters =
     (case input_data of
        None \<Rightarrow> Inr []
      | Some input_data \<Rightarrow>
          if cmsg_proxy_msg_has_file (px_tree env) md then Inr []
          else
            (let expected_input_fields = int (length (md_fields md)) - int (length url_parameters)
                   - int (length (filter (\<lambda>fd. cmsg_proxy_field_is_hidden (fd_name fd)) (md_fields md)))
             in case px_json_loads env input_data of
                  (None, error_text) \<Rightarrow> Inl error_text
                | (Some converted_json, error_text) \<Rightarrow>
                    if strcmp body_string ''*'' \<noteq> 0 \<or> expected_input_fields = 1
                    then (case (if strcmp body_string ''*'' = 0 then cmsg_proxy_find_unparsed_field md url_parameters
                                else field_by_name env md body_string) of
                            None \<Rightarrow> Inl ''Internal proxy error''
                          | Some fd \<Rightarrow> json_field_create env input_data error_text converted_json fd)
                    else (case cmsg_proxy_json_object_sanity_check converted_json of
                            Some err \<Rightarrow> Inl err
                          | None \<Rightarrow> (case converted_json of JObject obj \<Rightarrow> Inr obj | _ \<Rightarrow> Inl []))))"

definition cmsg_proxy_set_internal_api_info ::
  "proxy_env \<Rightarrow> cmsg_proxy_input \<Rightarrow> message_descriptor \<Rightarrow> json_object \<Rightarrow> json_object" where
  "cmsg_proxy_set_internal_api_info env input md json_obj =
     cmsg_proxy_set_internal_api_value env (in_api_request_username input) md ''_api_request_username''
       (cmsg_proxy_set_internal_api_value env (in_api_request_ip_address input) md ''_api_request_ip_address'' json_obj)"

definition cmsg_proxy_set_file_upload_info ::
  "proxy_env \<Rightarrow> cmsg_proxy_input \<Rightarrow> message_descriptor \<Rightarrow> json_object \<Rightarrow> string + json_object" where
  "cmsg_proxy_set_file_upload_info env input md json_obj =
     (if in_upload_request input
      then if strcmp (md_name md) ''file_upload_info'' = 0
           then Inr (cmsg_proxy_set_internal_api_value env (in_client_filename input) md ''_client_filename''
                  (cmsg_proxy_set_internal_api_value env (in_temp_filename input) md ''_temp_filename'' json_obj))
           else Inl ''API does not accept uploaded files as input data''
      else Inr json_obj)"

definition parse_url_parameter :: "proxy_env \<Rightarrow> message_descriptor \<Rightarrow> cmsg_url_parameter \<Rightarrow> json_object \<Rightarrow> json_object" where
  "parse_url_parameter env md p json_obj =
     (case field_by_name env md (url_key p) of
        None \<Rightarrow> json_obj
      | Some fd \<Rightarrow>
          (case cmsg_proxy_json_value_to_object env fd (url_value p) of
             None \<Rightarrow> json_obj
           | Some new_object \<Rightarrow> json_object_update json_obj new_object))"

definition cmsg_proxy_parse_url_parameters ::
  "proxy_env \<Rightarrow> cmsg_url_parameter list \<Rightarrow> message_descriptor \<Rightarrow> json_object \<Rightarrow> json_object" where
  "cmsg_proxy_parse_url_parameters env parameters md json_obj = fold (parse_url_parameter env md) parameters json_obj"

text \<open>The JSON object for the API: the body, the parameters, the request's own values, the upload.\<close>

definition input_json ::
  "proxy_env \<Rightarrow> cmsg_proxy_input \<Rightarrow> cmsg_service_info \<Rightarrow> message_descriptor \<Rightarrow> cmsg_url_parameter list \<Rightarrow> string + json_object" where
  "input_json env input si md url_parameters =
     (case cmsg_proxy_input_data_presence_as_expected (in_data input) (si_body_string si) of
        Some message \<Rightarrow> Inl message
      | None \<Rightarrow>
          (case cmsg_proxy_json_object_create env (in_data input) md (si_body_string si) url_parameters of
             Inl error_text \<Rightarrow> Inl (''Invalid JSON: '' @ error_text)
           | Inr json_obj \<Rightarrow>
               cmsg_proxy_set_file_upload_info env input md
                 (cmsg_proxy_set_internal_api_info env input md
                   (cmsg_proxy_parse_url_parameters env url_parameters md json_obj))))"

text \<open>The second half: the client, the stream and the message.\<close>

definition input_message ::
  "proxy_env \<Rightarrow> proxy_conf \<Rightarrow> cmsg_proxy_input \<Rightarrow> cmsg_service_info \<Rightarrow> message_descriptor \<Rightarrow> message_descriptor
   \<Rightarrow> json_object \<Rightarrow> cmsg_proxy_output \<Rightarrow> proxy_state
   \<Rightarrow> ((proto_message \<times> cmsg_proxy_processing_info) option \<times> cmsg_proxy_output \<times> proxy_state) option" where
  "input_message env conf input si input_desc output_desc json_obj output s =
     (case cmsg_proxy_find_client_by_service (pc_clients conf) (si_desc si) of
        None \<Rightarrow>
          Some (None, cmsg_proxy_generate_ant_result_error env ANT_CODE_INTERNAL ''Client not found in proxy_clients_list'' output,
                proxy_count cntr_error_missing_client s)
      | Some client \<Rightarrow>
          (case cmsg_proxy_streaming_create_conn env (pc_alloc_ok conf) (in_connection input) json_obj
                  input_desc output_desc (pxs_streams s) of
             ((streamed, ident, json_obj), ss) \<Rightarrow>
               (let output = output\<lparr>out_stream_response := streamed\<rparr>;
                    s = s\<lparr>pxs_streams := ss\<rparr>
                in case cmsg_proxy_convert_json_to_protobuf env json_obj input_desc of
                     Inl (result, message) \<Rightarrow>
                       map_option (Pair None)
                         (delete_stream ident (cmsg_proxy_generate_ant_result_error env result message output,
                            proxy_count cntr_error_malformed_input s))
                   | Inr m \<Rightarrow>
                       (let is_file = cmsg_proxy_msg_has_file (px_tree env) input_desc;
                            m = (if is_file then cmsg_proxy_file_data_to_message env
                                   (case in_data input of None \<Rightarrow> [] | Some d \<Rightarrow> d) m else m)
                        in Some (Some (m, \<lparr>pi_is_file_input = is_file, pi_service_info = si, pi_client = client,
                                            pi_streaming_id = ident, pi_cmsg_api_result = ANT_CODE_OK,
                                            pi_http_verb = in_http_verb input\<rparr>), output, s)))))"

definition cmsg_proxy_input_process ::
  "proxy_env \<Rightarrow> proxy_conf \<Rightarrow> cmsg_proxy_input \<Rightarrow> cmsg_proxy_output \<Rightarrow> proxy_state
   \<Rightarrow> ((proto_message \<times> cmsg_proxy_processing_info) option \<times> cmsg_proxy_output \<times> proxy_state) option" where
  "cmsg_proxy_input_process env conf input output s =
     Option.bind (cmsg_proxy_get_service_and_parameters env (pc_root conf) (in_url input) (in_query_string input) (in_http_verb input))
       (\<lambda>(service_info, url_parameters).
         case service_info of
           None \<Rightarrow>
             Some (None, cmsg_proxy_generate_ant_result_error env ANT_CODE_UNIMPLEMENTED ''Unknown url and verb combination'' output,
                   proxy_count cntr_unknown_service s)
         | Some si \<Rightarrow>
             (case (input_msg_descriptor si, output_msg_descriptor si) of
                (Some input_desc, Some output_desc) \<Rightarrow>
                  (let s = proxy_count cntr_api_calls s
                   in case cmsg_proxy_pre_api_check env (in_http_verb input) of
                        Some message \<Rightarrow>
                          Some (None, cmsg_proxy_generate_ant_result_error env ANT_CODE_UNAVAILABLE message output,
                                proxy_count cntr_error_api_failure s)
                      | None \<Rightarrow>
                          (case input_json env input si input_desc url_parameters of
                             Inl message \<Rightarrow>
                               Some (None, cmsg_proxy_generate_ant_result_error env ANT_CODE_INVALID_ARGUMENT message output, s)
                           | Inr json_obj \<Rightarrow> input_message env conf input si input_desc output_desc json_obj output s))
              | _ \<Rightarrow> None))"

section \<open>The way out\<close>

definition cmsg_proxy_output_process ::
  "proxy_env \<Rightarrow> proto_message option \<Rightarrow> cmsg_proxy_output \<Rightarrow> cmsg_proxy_processing_info \<Rightarrow> proxy_state
   \<Rightarrow> (cmsg_proxy_output \<times> proxy_state) option" where
  "cmsg_proxy_output_process env msg output info s =
     (if pi_cmsg_api_result info \<noteq> ANT_CODE_OK
      then delete_stream (pi_streaming_id info)
             (cmsg_proxy_generate_ant_result_error env (pi_cmsg_api_result info) ''Internal CMSG operation failed'' output,
              proxy_count cntr_error_api_failure s)
      else case cmsg_proxy_set_http_status env (pi_http_verb info) msg of
        (False, status, msg) \<Rightarrow>
          delete_stream (pi_streaming_id info)
            (cmsg_proxy_generate_ant_result_error env ANT_CODE_INTERNAL
               (''_error_info is not set for '' @ si_url_string (pi_service_info info)) (output\<lparr>out_http_status := status\<rparr>),
             proxy_count cntr_error_missing_error_info s)
      | (True, status, msg) \<Rightarrow>
          (let output = output\<lparr>out_http_status := status\<rparr>
           in if out_stream_response output \<and> status = HTTP_CODE_OK then Some (output, s)
              else Option.bind (delete_stream (pi_streaming_id info) (output, s)) (\<lambda>(output, s).
                case msg of
                  None \<Rightarrow> Some (output, s)
                | Some m \<Rightarrow>
                    (case cmsg_proxy_generate_response_body env m output of
                       (True, output) \<Rightarrow> Some (output, s)
                     | (False, output) \<Rightarrow>
                         Some (cmsg_proxy_generate_ant_result_error env ANT_CODE_INTERNAL
                                 ''Internal CMSG response is malformed'' output,
                               proxy_count cntr_error_protobuf_to_json s)))))"

definition cmsg_proxy_call_cmsg_api ::
  "proxy_env \<Rightarrow> string \<Rightarrow> proto_message \<Rightarrow> cmsg_service_info \<Rightarrow> ant_code \<times> proto_message option" where
  "cmsg_proxy_call_cmsg_api env client input_msg si =
     (case px_invoke env client si input_msg of
        (ret, output_msg) \<Rightarrow> (if ret = CMSG_RET_OK then ANT_CODE_OK else ANT_CODE_INTERNAL, output_msg))"

section \<open>The index\<close>

definition cmsg_proxy_index_search_pattern :: "proxy_env \<Rightarrow> string option \<Rightarrow> string option" where
  "cmsg_proxy_index_search_pattern env query_string =
     Option.bind (List.find (\<lambda>p. strcmp (url_key p) ''search_string'' = 0 \<and> url_value p \<noteq> None \<and> url_value p \<noteq> Some [])
         (cmsg_proxy_parse_query_parameters env query_string []))
       url_value"

definition index_methods :: "cmsg_proxy_api_info \<Rightarrow> (string \<times> cmsg_service_info) list" where
  "index_methods info =
     concat (map (\<lambda>(name, si). case si of None \<Rightarrow> [] | Some si \<Rightarrow> [(name, si)])
       [(''DELETE'', cmsg_http_delete info), (''GET'', cmsg_http_get info), (''PATCH'', cmsg_http_patch info),
        (''POST'', cmsg_http_post info), (''PUT'', cmsg_http_put info)])"

definition cmsg_proxy_index_add_element :: "string option \<Rightarrow> gnode \<Rightarrow> json list \<Rightarrow> json list option" where
  "cmsg_proxy_index_add_element pattern node api_array =
     (case node of
        Token_node _ _ \<Rightarrow> None
      | Api_node info \<Rightarrow>
          (case rev (index_methods info) of
             [] \<Rightarrow> Some api_array
           | (_, si) # _ \<Rightarrow>
               if (case pattern of None \<Rightarrow> False | Some pat \<Rightarrow> \<not> strstr (si_url_string si) pat) then Some api_array
               else Some (api_array @ [JObject [(''path'', JString (si_url_string si)),
                       (''methods'', JArray (map (\<lambda>(name, _). JString name) (index_methods info)))]])))"

definition cmsg_proxy_index :: "proxy_env \<Rightarrow> gnode option \<Rightarrow> string option \<Rightarrow> cmsg_proxy_output \<Rightarrow> (int \<times> cmsg_proxy_output) option" where
  "cmsg_proxy_index env tree query_string output =
     map_option (\<lambda>(done_ok, api_array).
         if \<not> done_ok then (HTTP_CODE_INTERNAL_SERVER_ERROR, output)
         else (HTTP_CODE_OK, cmsg_proxy_json_t_to_output env
                 (JObject [(''basepath'', JString ''/api''), (''paths'', JArray api_array)]) [JSON_ENCODE_ANY, JSON_COMPACT] output))
       (cmsg_proxy_tree_foreach_leaf
         (cmsg_proxy_index_add_element (cmsg_proxy_index_search_pattern env query_string)) tree [])"

section \<open>A request\<close>

text \<open>The file of the request is taken out of the message only before the message is freed.\<close>

definition cmsg_proxy ::
  "proxy_env \<Rightarrow> proxy_conf \<Rightarrow> cmsg_proxy_input \<Rightarrow> cmsg_proxy_output \<Rightarrow> proxy_state \<Rightarrow> (cmsg_proxy_output \<times> proxy_state) option" where
  "cmsg_proxy env conf input output s =
     (let output = output\<lparr>out_mime_type := ''application/json''\<rparr>
      in if strcmp (in_url input) ''/v1/index'' = 0 \<and> in_http_verb input = CMSG_HTTP_GET
         then map_option (\<lambda>(status, output). (output\<lparr>out_http_status := status\<rparr>, s))
                (cmsg_proxy_index env (Some (pc_root conf)) (in_query_string input) output)
         else Option.bind (cmsg_proxy_input_process env conf input output s) (\<lambda>(request, output, s).
           case request of
             None \<Rightarrow> Some (output, s)
           | Some (m, info) \<Rightarrow>
               (case cmsg_proxy_call_cmsg_api env (pi_client info) m (pi_service_info info) of
                  (result, output_msg) \<Rightarrow>
                    cmsg_proxy_output_process env output_msg output (info\<lparr>pi_cmsg_api_result := result\<rparr>) s)))"

section \<open>Passthrough\<close>

record passthrough_state =
  pt_lib_handle :: bool
  pt_api_service_info :: "cmsg_service_info option"
  pt_client :: bool

definition passthrough_down :: passthrough_state where
  "passthrough_down = \<lparr>pt_lib_handle = False, pt_api_service_info = None, pt_client = False\<rparr>"

fun cmsg_proxy_passthrough_verb_to_string :: "cmsg_http_verb \<Rightarrow> string" where
  "cmsg_proxy_passthrough_verb_to_string CMSG_HTTP_GET = ''GET''"
| "cmsg_proxy_passthrough_verb_to_string CMSG_HTTP_PUT = ''PUT''"
| "cmsg_proxy_passthrough_verb_to_string CMSG_HTTP_POST = ''POST''"
| "cmsg_proxy_passthrough_verb_to_string CMSG_HTTP_DELETE = ''DELETE''"
| "cmsg_proxy_passthrough_verb_to_string CMSG_HTTP_PATCH = ''PATCH''"

text \<open>A library that loads is told by its array of services; \<open>None\<close> inside is one without the functions.\<close>

definition load_library_info :: "cmsg_service_info list \<Rightarrow> cmsg_service_info option option" where
  "load_library_info array =
     (case array of
        [si] \<Rightarrow>
          (case ad_methods (si_desc si) of
             [] \<Rightarrow> None
           | (input_md, output_md) # _ \<Rightarrow>
               if strcmp (md_name input_md) ''passthrough_request'' \<noteq> 0 then Some None
               else if strcmp (md_name output_md) ''passthrough_response'' \<noteq> 0 then Some None
               else Some (Some si))
      | _ \<Rightarrow> Some None)"

definition cmsg_proxy_passthrough_library_handle_load ::
  "cmsg_service_info list option option \<Rightarrow> passthrough_state \<Rightarrow> (bool \<times> passthrough_state) option" where
  "cmsg_proxy_passthrough_library_handle_load library st =
     (case library of
        None \<Rightarrow> Some (False, st\<lparr>pt_lib_handle := False\<rparr>)
      | Some None \<Rightarrow> Some (False, st\<lparr>pt_lib_handle := False\<rparr>)
      | Some (Some array) \<Rightarrow>
          map_option (\<lambda>r. case r of
              None \<Rightarrow> (False, st\<lparr>pt_lib_handle := True\<rparr>)
            | Some si \<Rightarrow> (True, st\<lparr>pt_lib_handle := True, pt_api_service_info := Some si\<rparr>))
            (load_library_info array))"

definition cmsg_proxy_passthrough_deinit :: "passthrough_state \<Rightarrow> passthrough_state" where
  "cmsg_proxy_passthrough_deinit st = passthrough_down"

definition cmsg_proxy_passthrough_init ::
  "cmsg_service_info list option option \<Rightarrow> bool \<Rightarrow> passthrough_state \<Rightarrow> passthrough_state option" where
  "cmsg_proxy_passthrough_init library client_ok st =
     map_option (\<lambda>(loaded, st). if loaded then st\<lparr>pt_client := client_ok\<rparr> else st)
       (cmsg_proxy_passthrough_library_handle_load library (cmsg_proxy_passthrough_deinit st))"

text \<open>
  The API call \<open>invoke\<close> gets the path, the method and the body, and answers with a code and the
  response: a body and a status.
\<close>

definition cmsg_proxy_passthrough ::
  "proxy_env \<Rightarrow> (bool \<Rightarrow> cmsg_service_info \<Rightarrow> string \<times> string \<times> string option \<Rightarrow> int \<times> (string option \<times> int) option)
   \<Rightarrow> passthrough_state \<Rightarrow> cmsg_proxy_input \<Rightarrow> cmsg_proxy_output \<Rightarrow> cmsg_proxy_output option" where
  "cmsg_proxy_passthrough env invoke st input output =
     (case pt_api_service_info st of
        None \<Rightarrow> None
      | Some si \<Rightarrow>
          (case invoke (pt_client st) si (in_url input, cmsg_proxy_passthrough_verb_to_string (in_http_verb input), in_data input) of
             (ret, recv_msg) \<Rightarrow>
               if ret \<noteq> CMSG_RET_OK
               then Some (cmsg_proxy_generate_ant_result_error env ANT_CODE_INTERNAL ''Error calling passthrough API'' output)
               else (case recv_msg of
                       None \<Rightarrow> None
                     | Some (response_body, http_code) \<Rightarrow>
                         (let output = output\<lparr>out_response_length := 0\<rparr>;
                              output = (case response_body of
                                  None \<Rightarrow> output
                                | Some body \<Rightarrow> output\<lparr>out_response_body := Some body, out_response_length := length body,
                                                      out_mime_type := ''application/json''\<rparr>)
                          in Some (output\<lparr>out_http_status := http_code\<rparr>)))))"

end
