(* ===== verification/ProxyProps.thy ===== *)
theory ProxyProps
  imports ProxyTreeProps Proxy
begin

text \<open>Lemmas on the requests of the proxy: the JSON input, the streams and the whole request.\<close>

section \<open>Parameters\<close>

lemma parse_query_entry_prepends: "\<exists>q. parse_query_entry env e ps = q @ ps"
  by (auto simp: parse_query_entry_def split: option.split prod.split)

lemma parse_query_prepends: "\<exists>q. cmsg_proxy_parse_query_parameters env qs ps = q @ ps"
proof -
  have "\<exists>q. fold (parse_query_entry env) es ps = q @ ps" for es
  proof (induction es arbitrary: ps)
    case (Cons e es)
    obtain q where q: "parse_query_entry env e ps = q @ ps" using parse_query_entry_prepends by blast
    obtain q' where "fold (parse_query_entry env) es (q @ ps) = q' @ q @ ps" using Cons.IH [of "q @ ps"] by blast
    with q show ?case by simp
  qed simp
  then show ?thesis by (auto simp: cmsg_proxy_parse_query_parameters_def split: option.split)
qed

text \<open>What one value sets.\<close>

definition field_names :: "proxy_env \<Rightarrow> bool" where
  "field_names env \<longleftrightarrow> (\<forall>md k fd. field_by_name env md k = Some fd \<longrightarrow> fd_name fd = k)"

definition field_value :: "proxy_env \<Rightarrow> message_descriptor \<Rightarrow> string \<Rightarrow> string option \<Rightarrow> json option" where
  "field_value env md k v = Option.bind (field_by_name env md k) (\<lambda>fd.
     map_option (\<lambda>obj. snd (hd obj)) (cmsg_proxy_json_value_to_object env fd v))"

text \<open>
  What text becomes: one field, whose value reads the text as its type. An integer field takes text
  that is a number through and through, a boolean field \<open>true\<close> and \<open>false\<close>; other text stays a string
  there, for the conversion to the message to refuse. Text that is absent is null.
\<close>

fun json_reads :: "field_type \<Rightarrow> string option \<Rightarrow> json \<Rightarrow> bool" where
  "json_reads t None j \<longleftrightarrow> j = JNull"
| "json_reads t (Some v) (JInt n) \<longleftrightarrow> t \<in> {PROTOBUF_C_TYPE_INT32, PROTOBUF_C_TYPE_SINT32, PROTOBUF_C_TYPE_SFIXED32,
     PROTOBUF_C_TYPE_UINT32, PROTOBUF_C_TYPE_FIXED32} \<and> strtoll v = (n, []) \<and> - (2 ^ 63) \<le> n \<and> n < 2 ^ 63"
| "json_reads t (Some v) (JBool b) \<longleftrightarrow> t = PROTOBUF_C_TYPE_BOOL \<and> v = (if b then ''true'' else ''false'')"
| "json_reads t (Some v) (JString s) \<longleftrightarrow> s = v \<and>
     (if t \<in> {PROTOBUF_C_TYPE_INT32, PROTOBUF_C_TYPE_SINT32, PROTOBUF_C_TYPE_SFIXED32,
              PROTOBUF_C_TYPE_UINT32, PROTOBUF_C_TYPE_FIXED32} then snd (strtoll v) \<noteq> []
      else if t = PROTOBUF_C_TYPE_BOOL then v \<notin> {''true'', ''false''}
      else t \<notin> {PROTOBUF_C_TYPE_FLOAT, PROTOBUF_C_TYPE_DOUBLE, PROTOBUF_C_TYPE_BYTES, PROTOBUF_C_TYPE_MESSAGE})"
| "json_reads t (Some v) _ = False"

lemma json_value_to_object_reads:
  assumes "cmsg_proxy_json_value_to_object env fd text0 = Some obj"
  shows "\<exists>j. obj = json_field fd j \<and> json_reads (fd_type fd) text0 j"
proof (cases text0)
  case None
  with assms show ?thesis by (auto simp: cmsg_proxy_json_value_to_object_def)
next
  case (Some v)
  obtain n r where "strtoll v = (n, r)" by (cases "strtoll v") auto
  with assms Some strtoll_bounds [OF this] show ?thesis
    by (cases "fd_type fd") (auto simp: cmsg_proxy_json_value_to_object_def cmsg_proxy_json_value_handle_as_string_def split: if_splits)
qed

lemma value_to_object_single:
  "cmsg_proxy_json_value_to_object env fd v = Some obj \<Longrightarrow> \<exists>j. obj = [(fd_name fd, j)]"
  using json_value_to_object_reads [of env fd v obj] by (auto simp: json_field_def)

lemma update_single: "json_object_update obj [(k, j)] = json_object_set k j obj"
  by (simp add: json_object_update_def)

lemma set_internal_api_value_eq:
  assumes "field_names env"
  shows "cmsg_proxy_set_internal_api_value env v md k obj =
    (case field_value env md k v of None \<Rightarrow> obj | Some j \<Rightarrow> json_object_set k j obj)"
proof (cases "field_by_name env md k")
  case (Some fd)
  then have "fd_name fd = k" using assms by (simp add: field_names_def)
  with Some show ?thesis
    by (auto simp: cmsg_proxy_set_internal_api_value_def field_value_def update_single split: option.split
        dest!: value_to_object_single)
qed (simp add: cmsg_proxy_set_internal_api_value_def field_value_def)

lemma parse_url_parameter_eq:
  assumes "field_names env"
  shows "parse_url_parameter env md p obj =
    (case field_value env md (url_key p) (url_value p) of None \<Rightarrow> obj | Some j \<Rightarrow> json_object_set (url_key p) j obj)"
  using set_internal_api_value_eq [OF assms, of "url_value p" md "url_key p" obj]
  by (simp add: parse_url_parameter_def cmsg_proxy_set_internal_api_value_def)

lemma parse_url_parameters_append:
  "cmsg_proxy_parse_url_parameters env (ps @ qs) md obj =
    cmsg_proxy_parse_url_parameters env qs md (cmsg_proxy_parse_url_parameters env ps md obj)"
  by (simp add: cmsg_proxy_parse_url_parameters_def)

text \<open>The field of a parameter that has a value does not depend on what was there before.\<close>

lemma parse_url_parameters_agree:
  assumes "field_names env"
  shows "map_of obj k = map_of obj' k \<or> (\<exists>p \<in> set ps. url_key p = k \<and> field_value env md k (url_value p) \<noteq> None) \<Longrightarrow>
    map_of (cmsg_proxy_parse_url_parameters env ps md obj) k = map_of (cmsg_proxy_parse_url_parameters env ps md obj') k"
proof (induction ps arbitrary: obj obj')
  case (Cons p ps)
  let ?f = "parse_url_parameter env md p"
  have "map_of (?f obj) k = map_of (?f obj') k \<or> (\<exists>p \<in> set ps. url_key p = k \<and> field_value env md k (url_value p) \<noteq> None)"
    using Cons.prems by (auto simp: parse_url_parameter_eq [OF assms] json_object_set_map_of split: option.split)
  from Cons.IH [OF this] show ?case by (simp add: cmsg_proxy_parse_url_parameters_def)
qed (simp add: cmsg_proxy_parse_url_parameters_def)

section \<open>Types of the input\<close>

definition typed_entry :: "proxy_env \<Rightarrow> message_descriptor \<Rightarrow> string option \<Rightarrow> string \<times> json \<Rightarrow> bool" where
  "typed_entry env md v e \<longleftrightarrow>
     (\<exists>fd j. field_by_name env md (fst e) = Some fd \<and> json_field fd j = [e] \<and> json_reads (fd_type fd) v j)"

lemma field_value_typed:
  assumes "field_names env" "field_value env md k v = Some j"
  shows "typed_entry env md v (k, j)"
proof -
  obtain fd obj where f: "field_by_name env md k = Some fd" "cmsg_proxy_json_value_to_object env fd v = Some obj" "j = snd (hd obj)"
    using assms(2) by (auto simp: field_value_def bind_eq_Some_conv)
  have "fd_name fd = k" using f(1) assms(1) by (simp add: field_names_def)
  with json_value_to_object_reads [OF f(2)] f show ?thesis by (auto simp: typed_entry_def json_field_def)
qed

text \<open>The texts that an input is made of beside its body: the parameters and the request's own values.\<close>

definition input_texts :: "cmsg_proxy_input \<Rightarrow> cmsg_url_parameter list \<Rightarrow> (string \<times> string option) set" where
  "input_texts input params = {(url_key p, url_value p) |p. p \<in> set params} \<union>
     {(''_api_request_username'', in_api_request_username input), (''_api_request_ip_address'', in_api_request_ip_address input)} \<union>
     (if in_upload_request input
      then {(''_temp_filename'', in_temp_filename input), (''_client_filename'', in_client_filename input)} else {})"

definition entries_typed ::
  "proxy_env \<Rightarrow> message_descriptor \<Rightarrow> (string \<times> string option) set \<Rightarrow> json_object \<Rightarrow> json_object \<Rightarrow> bool" where
  "entries_typed env md texts body obj \<longleftrightarrow>
     (\<forall>e \<in> set obj. e \<in> set body \<or> (\<exists>v. (fst e, v) \<in> texts \<and> typed_entry env md v e))"

lemma json_object_set_entries: "set (json_object_set k v obj) \<subseteq> insert (k, v) (set obj)"
  by (induction k v obj rule: json_object_set.induct) auto

lemma entries_typed_set:
  assumes "entries_typed env md texts body obj" "(k, v) \<in> texts" "typed_entry env md v (k, j)"
  shows "entries_typed env md texts body (json_object_set k j obj)"
  unfolding entries_typed_def
proof
  fix e assume "e \<in> set (json_object_set k j obj)"
  then have "e = (k, j) \<or> e \<in> set obj" using json_object_set_entries [of k j obj] by blast
  with assms show "e \<in> set body \<or> (\<exists>v. (fst e, v) \<in> texts \<and> typed_entry env md v e)"
    unfolding entries_typed_def by auto
qed

lemma entries_typed_internal:
  "field_names env \<Longrightarrow> (k, v) \<in> texts \<Longrightarrow> entries_typed env md texts body obj \<Longrightarrow>
    entries_typed env md texts body (cmsg_proxy_set_internal_api_value env v md k obj)"
  by (auto simp: set_internal_api_value_eq field_value_typed split: option.split intro: entries_typed_set)

lemma entries_typed_params:
  "field_names env \<Longrightarrow> {(url_key p, url_value p) |p. p \<in> set ps} \<subseteq> texts \<Longrightarrow> entries_typed env md texts body obj \<Longrightarrow>
    entries_typed env md texts body (cmsg_proxy_parse_url_parameters env ps md obj)"
proof (induction ps arbitrary: obj)
  case (Cons p ps)
  have "(url_key p, url_value p) \<in> texts" using Cons.prems(2) by auto
  then have "entries_typed env md texts body (parse_url_parameter env md p obj)"
    using Cons.prems(1,3) by (auto simp: parse_url_parameter_eq field_value_typed split: option.split intro: entries_typed_set)
  moreover have "{(url_key p, url_value p) |p. p \<in> set ps} \<subseteq> texts" using Cons.prems(2) by auto
  ultimately show ?case using Cons.IH Cons.prems(1) by (simp add: cmsg_proxy_parse_url_parameters_def)
qed (simp add: cmsg_proxy_parse_url_parameters_def)

text \<open>The parts that made up an input.\<close>

lemma input_json_parts:
  assumes "input_json env input si md ps = Inr obj"
  obtains body where "cmsg_proxy_json_object_create env (in_data input) md (si_body_string si) ps = Inr body"
    "cmsg_proxy_set_file_upload_info env input md
       (cmsg_proxy_set_internal_api_info env input md (cmsg_proxy_parse_url_parameters env ps md body)) = Inr obj"
  using assms that by (auto simp: input_json_def split: option.splits sum.splits)

lemma file_upload_info_cases:
  assumes "cmsg_proxy_set_file_upload_info env input md obj = Inr obj'"
  shows "\<not> in_upload_request input \<and> obj' = obj \<or> in_upload_request input \<and> obj' = cmsg_proxy_set_internal_api_value env (in_client_filename input) md ''_client_filename''
      (cmsg_proxy_set_internal_api_value env (in_temp_filename input) md ''_temp_filename'' obj)"
  using assms by (auto simp: cmsg_proxy_set_file_upload_info_def split: if_splits)

lemma internal_api_value_other:
  "field_names env \<Longrightarrow> k' \<noteq> k \<Longrightarrow> map_of (cmsg_proxy_set_internal_api_value env v md k obj) k' = map_of obj k'"
  by (simp add: set_internal_api_value_eq json_object_set_map_of split: option.split)

lemma internal_api_value_same:
  "field_names env \<Longrightarrow> field_value env md k v = Some j \<Longrightarrow>
    map_of (cmsg_proxy_set_internal_api_value env v md k obj) k = Some j"
  by (simp add: set_internal_api_value_eq json_object_set_map_of)

text \<open>What the body can set.\<close>

lemma json_field_create_key: "json_field_create env d t j fd = Inr obj \<Longrightarrow> \<exists>v. obj = [(fd_name fd, v)]"
  by (auto simp: json_field_create_def Let_def split: if_splits option.splits json.splits dest!: value_to_object_single)

lemma sanity_check_hidden:
  "cmsg_proxy_json_object_sanity_check j = None \<Longrightarrow>
    \<exists>obj. j = JObject obj \<and> (\<forall>e \<in> set obj. \<not> cmsg_proxy_field_is_hidden (fst e))"
  by (cases j) (auto simp: list_ex_iff split: if_splits)

lemma json_object_create_keys:
  assumes "cmsg_proxy_json_object_create env d md body_string ps = Inr body" "field_names env"
  shows "\<forall>e \<in> set body. if body_string = ''*'' then \<not> cmsg_proxy_field_is_hidden (fst e) else fst e = body_string"
proof (cases "d = None \<or> cmsg_proxy_msg_has_file (px_tree env) md")
  case True
  with assms show ?thesis by (auto simp: cmsg_proxy_json_object_create_def split: option.splits)
next
  case False
  then obtain data where d: "d = Some data" by auto
  obtain j t where l: "px_json_loads env data = (Some j, t)"
    using assms(1) False d by (cases "px_json_loads env data"; cases "fst (px_json_loads env data)")
      (auto simp: cmsg_proxy_json_object_create_def Let_def)
  let ?n = "int (length (md_fields md)) - int (length ps) - int (length (filter (\<lambda>fd. cmsg_proxy_field_is_hidden (fd_name fd)) (md_fields md)))"
  show ?thesis
  proof (cases "body_string \<noteq> ''*'' \<or> ?n = 1")
    case True
    then obtain fd where fd: "(if body_string = ''*'' then cmsg_proxy_find_unparsed_field md ps else field_by_name env md body_string) = Some fd"
      "json_field_create env data t j fd = Inr body"
      using assms(1) False d l by (auto simp: cmsg_proxy_json_object_create_def split: option.splits if_splits)
    from json_field_create_key [OF fd(2)] fd(1) assms(2) show ?thesis
      by (auto simp: cmsg_proxy_find_unparsed_field_def find_Some_iff field_names_def split: if_splits)
  next
    case not_one: False
    then have "cmsg_proxy_json_object_sanity_check j = None \<and> j = JObject body"
      using assms(1) False d l
      by (cases "cmsg_proxy_json_object_sanity_check j")
        (auto simp: cmsg_proxy_json_object_create_def dest: sanity_check_hidden split: json.splits)
    with sanity_check_hidden [of j] have "\<forall>e \<in> set body. \<not> cmsg_proxy_field_is_hidden (fst e)" by fastforce
    with not_one show ?thesis by simp
  qed
qed

section \<open>Streams\<close>

text \<open>Nothing is at the addresses that were not given out yet.\<close>

definition streams_fresh :: "stream_state \<Rightarrow> bool" where
  "streams_fresh s \<longleftrightarrow> (\<forall>a \<ge> ss_next_addr s. ss_conns s a = None)"

definition same_streams :: "stream_state \<Rightarrow> stream_state \<Rightarrow> bool" where
  "same_streams s s' \<longleftrightarrow> ss_conns s' = ss_conns s \<and> ss_list s' = ss_list s"

text \<open>The id of a new stream is the counter's value, and the counter goes on.\<close>

definition one_more_stream :: "stream_state \<Rightarrow> u32 \<Rightarrow> nat \<Rightarrow> stream_state \<Rightarrow> bool" where
  "one_more_stream s ident connection s' \<longleftrightarrow> ident = ss_last_id_assigned s \<and>
     ss_last_id_assigned s' = ss_last_id_assigned s + 1 \<and> (\<exists>c. sc_id c = ident \<and> sc_connection c = connection \<and>
     \<not> sc_in_use c \<and> \<not> sc_to_delete c \<and>
     ss_conns s' = (ss_conns s)(ss_next_addr s \<mapsto> c) \<and> ss_list s' = ss_next_addr s # ss_list s)"

lemma one_more_stream_id: "one_more_stream s i connection s' \<Longrightarrow> one_more_stream s (ss_last_id_assigned s) connection s'"
  by (auto simp: one_more_stream_def)

lemma create_conn_cases:
  assumes "cmsg_proxy_streaming_create_conn env ok connection obj imd omd s = ((streamed, ident, obj'), s')"
  shows "if streamed then one_more_stream s ident connection s' else s' = s"
proof (cases "cmsg_proxy_streaming_is_required env imd \<and> ok")
  case True
  let ?c = "\<lparr>sc_id = ss_last_id_assigned s, sc_connection = connection, sc_output_msg_descriptor = omd,
    sc_in_use = False, sc_to_delete = False, sc_headers_set = False\<rparr>"
  from assms True have r: "streamed" "ident = ss_last_id_assigned s"
    "ss_conns s' = (ss_conns s)(ss_next_addr s \<mapsto> ?c)" "ss_list s' = ss_next_addr s # ss_list s"
    "ss_last_id_assigned s' = ss_last_id_assigned s + 1"
    by (auto simp: cmsg_proxy_streaming_create_conn_def cmsg_proxy_streaming_generate_id_def Let_def)
  have "one_more_stream s ident connection s'"
    unfolding one_more_stream_def by (intro conjI exI [of _ ?c]) (simp_all add: r)
  with r(1) show ?thesis by simp
next
  case False
  then have "cmsg_proxy_streaming_create_conn env ok connection obj imd omd s = ((False, 0, obj), s)"
    by (cases ok) (simp_all add: cmsg_proxy_streaming_create_conn_def)
  with assms show ?thesis by simp
qed

lemma delete_new_stream:
  assumes "one_more_stream s ident connection s'" "streams_fresh s"
  shows "\<exists>s''. cmsg_proxy_streaming_delete_conn_by_id ident s' = Some s'' \<and> same_streams s s''"
proof -
  obtain c where c: "sc_id c = ident" "ss_conns s' = (ss_conns s)(ss_next_addr s \<mapsto> c)" "ss_list s' = ss_next_addr s # ss_list s"
    using assms(1) by (auto simp: one_more_stream_def)
  have "(ss_conns s)(ss_next_addr s := None) = ss_conns s" using assms(2) by (auto simp: streams_fresh_def)
  with c show ?thesis
    by (simp add: cmsg_proxy_streaming_delete_conn_by_id_def conn_free_def same_streams_def)
qed

text \<open>How a part of a request leaves the streams: with one more if the response is streamed, else as they were.\<close>

definition stream_outcome :: "nat \<Rightarrow> proxy_state \<Rightarrow> cmsg_proxy_output \<Rightarrow> proxy_state \<Rightarrow> bool" where
  "stream_outcome connection s output s' \<longleftrightarrow>
     (if out_stream_response output
      then one_more_stream (pxs_streams s) (ss_last_id_assigned (pxs_streams s)) connection (pxs_streams s')
      else same_streams (pxs_streams s) (pxs_streams s'))"

lemma delete_stream_outcome:
  assumes "out_stream_response output \<Longrightarrow> one_more_stream (pxs_streams s) ident connection (pxs_streams s')"
    and "\<not> out_stream_response output \<Longrightarrow> same_streams (pxs_streams s) (pxs_streams s')" "streams_fresh (pxs_streams s)"
  shows "\<exists>output'' s''. delete_stream ident (output, s') = Some (output'', s'') \<and> \<not> out_stream_response output'' \<and>
    out_http_status output'' = out_http_status output \<and> same_streams (pxs_streams s) (pxs_streams s'')"
proof (cases "out_stream_response output")
  case True
  with delete_new_stream [OF assms(1) assms(3)] show ?thesis by (auto simp: delete_stream_def)
next
  case False
  with assms(2) show ?thesis by (simp add: delete_stream_def)
qed

lemma json_t_to_output_keeps [simp]:
  "out_stream_response (cmsg_proxy_json_t_to_output env j flags output) = out_stream_response output"
  "out_http_status (cmsg_proxy_json_t_to_output env j flags output) = out_http_status output"
  by (simp_all add: cmsg_proxy_json_t_to_output_def split: option.split)

lemma generate_error_stream [simp]:
  "out_stream_response (cmsg_proxy_generate_ant_result_error env code message output) = out_stream_response output"
  by (simp add: cmsg_proxy_generate_ant_result_error_def Let_def split: option.split)

lemma generate_error_status:
  "out_http_status (cmsg_proxy_generate_ant_result_error env code message output) =
     cmsg_proxy_ant_code_to_http_code (ant_code_value code) \<or>
   out_http_status (cmsg_proxy_generate_ant_result_error env code message output) = HTTP_CODE_INTERNAL_SERVER_ERROR"
  by (simp add: cmsg_proxy_generate_ant_result_error_def Let_def split: option.split)

lemma generate_response_body_keeps:
  "cmsg_proxy_generate_response_body env m output = (ok, output') \<Longrightarrow>
    out_stream_response output' = out_stream_response output \<and> out_http_status output' = out_http_status output"
  by (auto simp: cmsg_proxy_generate_response_body_def cmsg_proxy_generate_plaintext_response_def Let_def
      split: if_splits option.splits proto_value.splits)

lemma proxy_count_streams [simp]: "pxs_streams (proxy_count c s) = pxs_streams s"
  by (simp add: proxy_count_def)


section \<open>Requests\<close>

lemma same_streams_refl [simp]: "same_streams s s"
  by (simp add: same_streams_def)

text \<open>The second half of the way in, and the way out: both are defined, and leave the streams as they should.\<close>

definition input_outcome ::
  "nat \<Rightarrow> proxy_state \<Rightarrow> (proto_message \<times> cmsg_proxy_processing_info) option \<Rightarrow> cmsg_proxy_output \<Rightarrow> proxy_state \<Rightarrow> bool" where
  "input_outcome connection s r output s' \<longleftrightarrow>
     (case r of
        None \<Rightarrow> \<not> out_stream_response output \<and> same_streams (pxs_streams s) (pxs_streams s')
      | Some (m, info) \<Rightarrow>
          if out_stream_response output
          then one_more_stream (pxs_streams s) (pi_streaming_id info) connection (pxs_streams s')
          else same_streams (pxs_streams s) (pxs_streams s'))"

lemma input_outcome_count [simp]: "input_outcome connection (proxy_count c s) r out0 s' = input_outcome connection s r out0 s'"
  unfolding input_outcome_def proxy_count_streams ..

lemma input_message_outcome:
  assumes "streams_fresh (pxs_streams s)" "\<not> out_stream_response out0"
  shows "\<exists>r out0' s'. input_message env conf input si imd omd obj out0 s = Some (r, out0', s') \<and>
    input_outcome (in_connection input) s r out0' s'"
proof (cases "cmsg_proxy_find_client_by_service (pc_clients conf) (si_desc si)")
  case None
  with assms show ?thesis by (simp add: input_outcome_def input_message_def)
next
  case (Some client)
  obtain streamed ident obj' ss where c: "cmsg_proxy_streaming_create_conn env (pc_alloc_ok conf) (in_connection input) obj imd omd (pxs_streams s) =
      ((streamed, ident, obj'), ss)" by (metis surj_pair)
  note cc = create_conn_cases [OF c]
  show ?thesis
  proof (cases "cmsg_proxy_convert_json_to_protobuf env obj' imd")
    case (Inl e)
    obtain result message where e: "e = (result, message)" by (cases e)
    let ?out0 = "cmsg_proxy_generate_ant_result_error env result message (out0\<lparr>out_stream_response := streamed\<rparr>)"
    let ?s = "proxy_count cntr_error_malformed_input (s\<lparr>pxs_streams := ss\<rparr>)"
    have "\<exists>out0'' s''. delete_stream ident (?out0, ?s) = Some (out0'', s'') \<and> \<not> out_stream_response out0'' \<and>
        out_http_status out0'' = out_http_status ?out0 \<and> same_streams (pxs_streams s) (pxs_streams s'')"
      by (rule delete_stream_outcome [where connection = "in_connection input"]) (use cc assms(1) in \<open>auto split: if_splits\<close>)
    with Some c Inl e show ?thesis by (auto simp: input_outcome_def input_message_def Let_def)
  next
    case (Inr m)
    with Some c cc assms(2) show ?thesis by (auto simp: input_outcome_def input_message_def Let_def)
  qed
qed

lemma output_process_outcome:
  assumes "streams_fresh (pxs_streams s)"
    and "if out_stream_response output then one_more_stream (pxs_streams s) (pi_streaming_id info) connection (pxs_streams s1)
         else same_streams (pxs_streams s) (pxs_streams s1)"
  shows "\<exists>output' s'. cmsg_proxy_output_process env msg output info s1 = Some (output', s') \<and> stream_outcome connection s output' s' \<and>
    (out_stream_response output' \<longrightarrow> out_http_status output' = HTTP_CODE_OK)"
proof -
  have delete: "\<exists>output'' s''. delete_stream (pi_streaming_id info) (output1, s2) = Some (output'', s'') \<and> \<not> out_stream_response output'' \<and>
      out_http_status output'' = out_http_status output1 \<and> same_streams (pxs_streams s) (pxs_streams s'')"
    if "out_stream_response output1 = out_stream_response output" "pxs_streams s2 = pxs_streams s1" for output1 s2
    by (rule delete_stream_outcome [where connection = connection]) (use that assms in \<open>auto split: if_splits\<close>)
  obtain ok status msg' where st: "cmsg_proxy_set_http_status env (pi_http_verb info) msg = (ok, status, msg')"
    by (metis surj_pair)
  consider (call) "pi_cmsg_api_result info \<noteq> ANT_CODE_OK"
    | (info) "pi_cmsg_api_result info = ANT_CODE_OK" "\<not> ok"
    | (stream) "pi_cmsg_api_result info = ANT_CODE_OK" ok "out_stream_response output" "status = HTTP_CODE_OK"
    | (body) "pi_cmsg_api_result info = ANT_CODE_OK" ok "\<not> (out_stream_response output \<and> status = HTTP_CODE_OK)"
    by blast
  then show ?thesis
  proof cases
    case call
    with delete [of "cmsg_proxy_generate_ant_result_error env (pi_cmsg_api_result info) ''Internal CMSG operation failed'' output"
        "proxy_count cntr_error_api_failure s1"]
    show ?thesis by (auto simp: cmsg_proxy_output_process_def stream_outcome_def)
  next
    case info
    with st delete [of "cmsg_proxy_generate_ant_result_error env ANT_CODE_INTERNAL
        (''_error_info is not set for '' @ si_url_string (pi_service_info info)) (output\<lparr>out_http_status := status\<rparr>)"
        "proxy_count cntr_error_missing_error_info s1"]
    show ?thesis by (auto simp: cmsg_proxy_output_process_def stream_outcome_def)
  next
    case stream
    with assms(2) have "one_more_stream (pxs_streams s) (ss_last_id_assigned (pxs_streams s)) connection (pxs_streams s1)"
      by (auto simp: stream(3) dest: one_more_stream_id)
    with stream st show ?thesis by (simp add: cmsg_proxy_output_process_def stream_outcome_def Let_def)
  next
    case body
    obtain output2 s2 where d: "delete_stream (pi_streaming_id info) (output\<lparr>out_http_status := status\<rparr>, s1) = Some (output2, s2)"
      "\<not> out_stream_response output2" "same_streams (pxs_streams s) (pxs_streams s2)"
      using delete [of "output\<lparr>out_http_status := status\<rparr>" s1] by auto
    have out: "cmsg_proxy_output_process env msg output info s1 =
      (case msg' of
         None \<Rightarrow> Some (output2, s2)
       | Some m \<Rightarrow>
           (case cmsg_proxy_generate_response_body env m output2 of
              (True, output) \<Rightarrow> Some (output, s2)
            | (False, output) \<Rightarrow>
                Some (cmsg_proxy_generate_ant_result_error env ANT_CODE_INTERNAL
                        ''Internal CMSG response is malformed'' output,
                      proxy_count cntr_error_protobuf_to_json s2)))"
      using body st d(1) by (auto simp: cmsg_proxy_output_process_def Let_def)
    show ?thesis
    proof (cases msg')
      case None
      with out d(2,3) show ?thesis by (simp add: stream_outcome_def)
    next
      case (Some m)
      obtain b output3 where g: "cmsg_proxy_generate_response_body env m output2 = (b, output3)" by fastforce
      with out d(2,3) Some generate_response_body_keeps [OF g] show ?thesis
        by (cases b) (simp_all add: stream_outcome_def)
    qed
  qed
qed

text \<open>The leaves of the index.\<close>

lemma leaves_of_tree:
  "\<not> node_is_leaf n \<Longrightarrow> shape_ok n \<Longrightarrow> \<forall>l \<in> set (leaves_in_order n). \<exists>info. l = Api_node info"
proof (induction n)
  case (Token_node s cs)
  have kids: "kids_shape cs" "cs \<noteq> []" using Token_node.prems by simp_all
  have "\<exists>info. l = Api_node info" if c: "c \<in> set cs" "l \<in> set (leaves_in_order c)" for c l
  proof (cases "node_is_leaf c")
    case True
    from kids(1) show ?thesis
    proof (cases rule: kids_shape_cases)
      case 1
      with c(1) True show ?thesis using segments_nonleaf [of c cs] by simp
    next
      case (2 info)
      then have "c = Api_node info" using c(1) True segments_nonleaf [of c cs] by (metis set_ConsD)
      with c(2) show ?thesis by simp
    qed
  next
    case False
    with Token_node.IH [OF c(1)] Token_node.prems(2) c show ?thesis by simp
  qed
  with kids(2) show ?case by auto
qed simp

lemma index_add_defined: "\<exists>arr'. cmsg_proxy_index_add_element pattern (Api_node info) arr = Some arr'"
  by (auto simp: cmsg_proxy_index_add_element_def split: list.split)

lemma index_defined:
  assumes "\<not> node_is_leaf root" "shape_ok root"
  shows "\<exists>r. cmsg_proxy_index env (Some root) query output = Some r"
proof -
  let ?f = "cmsg_proxy_index_add_element (cmsg_proxy_index_search_pattern env query)"
  have "\<forall>l \<in> set ls. \<exists>info. l = Api_node info \<Longrightarrow> \<exists>arr'. fold (\<lambda>leaf s. Option.bind s (?f leaf)) ls (Some arr) = Some arr'" for ls arr
  proof (induction ls arbitrary: arr)
    case (Cons l ls)
    then obtain info where l: "l = Api_node info" by auto
    obtain arr1 where "?f l arr = Some arr1" using index_add_defined unfolding l by blast
    with Cons show ?case by simp
  qed simp
  with leaves_of_tree [OF assms] show ?thesis by (fastforce simp: cmsg_proxy_index_def cmsg_proxy_tree_foreach_leaf_def)
qed

end
