(* ===== verification/ProxyProperties.thy ===== *)
theory ProxyProperties
  imports ProxyProps
begin

text \<open>The properties of the HTTP proxy, with their witnesses.\<close>

section \<open>Routes\<close>

text \<open>What registering a service does to the table of routes.\<close>

definition register :: "proxy_tree_env \<Rightarrow> cmsg_service_info
    \<Rightarrow> (string list \<Rightarrow> cmsg_proxy_api_info option) \<Rightarrow> string list \<Rightarrow> cmsg_proxy_api_info option" where
  "register env si table =
     (let p = strtok_all (CHR ''/'') (si_url_string si)
      in if accepts (cmsg_proxy_body_string_check env si) p table
         then table(p \<mapsto> cmsg_proxy_api_info_node_set si (case table p of None \<Rightarrow> no_api_info | Some info \<Rightarrow> info))
         else table)"

definition template :: "cmsg_service_info \<Rightarrow> string list" where
  "template si = strtok_all (CHR ''/'') (si_url_string si)"

text \<open>
  A service that may be loaded beside the services \<open>S\<close>: its method exists, and if its URL is excused
  from the check for conflicts then it does not conflict with any of them.
\<close>

definition service_fine :: "cmsg_service_info set \<Rightarrow> cmsg_service_info \<Rightarrow> bool" where
  "service_fine S si \<longleftrightarrow> si \<in> S \<and> input_msg_descriptor si \<noteq> None \<and>
     (cmsg_proxy_allowed_conflicts__DEPRECATED (si_url_string si) \<longrightarrow> (\<forall>sj \<in> S. \<not> clash (template si) (template sj)))"

lemma register_routes: "dom (register env si table) \<subseteq> insert (template si) (dom table)"
  by (auto simp: register_def template_def Let_def split: if_splits)

lemma service_info_add_registers:
  assumes "service_fine S si" "tree_ok (Token_node s cs)" "dom (route_info (Token_node s cs)) \<subseteq> template ` S"
  shows "\<exists>b cs'. cmsg_proxy_service_info_add env si (Token_node s cs) = Some (b, Token_node s cs') \<and>
    tree_ok (Token_node s cs') \<and> route_info (Token_node s cs') = register env si (route_info (Token_node s cs))"
proof -
  let ?ts = "strtok_all (CHR ''/'') (si_url_string si)" and ?root = "Token_node s cs"
  have "exempt_apart si ?ts ?root" using assms(1,3) by (auto simp: service_fine_def exempt_apart_def template_def)
  then have si: "input_msg_descriptor si \<noteq> None" "exempt_apart si ?ts ?root"
    using assms(1) by (simp_all add: service_fine_def)
  obtain b root' where r: "service_info_add_at env si ?ts ?root = Some (b, root')" "added_ok si ?ts ?root (b, root')"
    using service_info_add_at_ok [OF si assms(2), of env] by auto
  note b = service_info_add_at_accepts [OF si assms(2) r(1)]
  show ?thesis
  proof (cases b)
    case True
    with r(2) have root': "tree_ok root'" "\<not> node_is_leaf root'" "node_str root' = s" "set_route si ?ts ?root root'"
      by (simp_all add: added_ok_def)
    then obtain cs' where "root' = Token_node s cs'" using nonleaf_token [of root'] by auto
    with root' r(1) b True show ?thesis by (auto simp: cmsg_proxy_service_info_add_def register_def Let_def set_route_def)
  next
    case False
    with r(2) have "root' = ?root" by (simp add: added_ok_def)
    with r(1) b False assms(2) show ?thesis by (auto simp: cmsg_proxy_service_info_add_def register_def Let_def)
  qed
qed

lemma route_info_empty: "route_info (Token_node s []) = Map.empty"
proof
  show "route_info (Token_node s []) p = None" for p by (cases p) (simp_all add: route_info_Cons)
qed

text \<open>
  What the requests rely on: a table of routes that services are added to, and a lookup that
  answers from it.
\<close>

locale url_router =
  fixes good :: "'t \<Rightarrow> bool"
    and fine :: "cmsg_service_info \<Rightarrow> bool"
    and add :: "cmsg_service_info \<Rightarrow> 't \<Rightarrow> (bool \<times> 't) option"
    and table :: "'t \<Rightarrow> string list \<Rightarrow> cmsg_proxy_api_info option"
    and reg :: "cmsg_service_info \<Rightarrow> (string list \<Rightarrow> cmsg_proxy_api_info option) \<Rightarrow> string list \<Rightarrow> cmsg_proxy_api_info option"
    and lookup :: "string \<Rightarrow> cmsg_http_verb \<Rightarrow> 't \<Rightarrow> (cmsg_service_info option \<times> cmsg_url_parameter list) option"
    and params :: "string list \<Rightarrow> string list \<Rightarrow> cmsg_url_parameter list"
  assumes add_registers: "good t \<Longrightarrow> fine si \<Longrightarrow> \<exists>b t'. add si t = Some (b, t') \<and> good t' \<and> table t' = reg si (table t)"
    and lookup_found: "good t \<Longrightarrow> table t p = Some info \<Longrightarrow> url_matches p (strtok_all (CHR ''/'') url) \<Longrightarrow>
      lookup url verb t = Some (cmsg_proxy_service_info_get info verb, params p (strtok_all (CHR ''/'') url))"
    and lookup_absent: "good t \<Longrightarrow> (\<And>p. table t p \<noteq> None \<Longrightarrow> \<not> url_matches p (strtok_all (CHR ''/'') url)) \<Longrightarrow>
      \<exists>ps. lookup url verb t = Some (None, ps)"
begin

lemma add_all:
  "good t \<Longrightarrow> \<forall>si \<in> set sis. fine si \<Longrightarrow>
    \<exists>t'. fold (\<lambda>si r. Option.bind r (\<lambda>t. map_option snd (add si t))) sis (Some t) = Some t' \<and> good t' \<and>
      table t' = fold reg sis (table t)"
proof (induction sis arbitrary: t)
  case (Cons si sis)
  then obtain b t1 where "add si t = Some (b, t1)" "good t1" "table t1 = reg si (table t)"
    using add_registers [of t si] by auto
  with Cons.IH [of t1] Cons.prems(2) show ?case by simp
qed simp

text \<open>The lookups after the services were added, against the table of what was registered.\<close>

lemma lookups_exact:
  assumes "good t" "\<forall>si \<in> set sis. fine si"
  shows "\<exists>t'. fold (\<lambda>si r. Option.bind r (\<lambda>t. map_option snd (add si t))) sis (Some t) = Some t' \<and>
    (\<forall>url verb. let f = fold reg sis (table t); ts = strtok_all (CHR ''/'') url in
       (\<forall>p info. f p = Some info \<and> url_matches p ts \<longrightarrow>
          lookup url verb t' = Some (cmsg_proxy_service_info_get info verb, params p ts)) \<and>
       ((\<forall>p. f p \<noteq> None \<longrightarrow> \<not> url_matches p ts) \<longrightarrow> (\<exists>ps. lookup url verb t' = Some (None, ps))))"
proof -
  obtain t' where t': "fold (\<lambda>si r. Option.bind r (\<lambda>t. map_option snd (add si t))) sis (Some t) = Some t'"
    "good t'" "table t' = fold reg sis (table t)"
    using add_all [OF assms] by blast
  show ?thesis
    using lookup_found [OF t'(2)] lookup_absent [OF t'(2)] t'(1) unfolding t'(3) Let_def by blast
qed

end

text \<open>The tree of the proxy is one. The text of a service leaf must not read as a parameter.\<close>

definition good_tree :: "proxy_tree_env \<Rightarrow> cmsg_service_info set \<Rightarrow> gnode \<Rightarrow> bool" where
  "good_tree env S root \<longleftrightarrow> tree_ok root \<and> (\<exists>s cs. root = Token_node s cs) \<and> dom (route_info root) \<subseteq> template ` S \<and>
     (\<forall>info. \<not> cmsg_proxy_token_is_url_param (pe_info_text env info))"

interpretation routes: url_router "good_tree env S" "service_fine S" "cmsg_proxy_service_info_add env" route_info "register env"
  "\<lambda>url verb root. cmsg_proxy_find_service_from_url_and_verb env url verb root []" "\<lambda>p ts. rev (bound env p ts)" for env S
proof
  fix t si
  assume t: "good_tree env S t" and si: "service_fine S si"
  have "dom (register env si (route_info t)) \<subseteq> template ` S"
    using register_routes [of env si "route_info t"] t si by (auto simp: good_tree_def service_fine_def)
  with t si show "\<exists>b t'. cmsg_proxy_service_info_add env si t = Some (b, t') \<and> good_tree env S t' \<and>
      route_info t' = register env si (route_info t)"
    using service_info_add_registers [of S si _ _ env] unfolding good_tree_def by metis
next
  fix t p info url verb
  assume t: "good_tree env S t" and p: "route_info t p = Some info" "url_matches p (strtok_all (CHR ''/'') url)"
  then show "cmsg_proxy_find_service_from_url_and_verb env url verb t [] =
      Some (cmsg_proxy_service_info_get info verb, rev (bound env p (strtok_all (CHR ''/'') url)))"
    using find_service_found [of env t p info url verb "[]"] by (simp add: good_tree_def)
next
  fix t url verb
  assume t: "good_tree env S t" and none: "\<And>p. route_info t p \<noteq> None \<Longrightarrow> \<not> url_matches p (strtok_all (CHR ''/'') url)"
  have "\<not> is_param (pe_info_text env info)" "tree_ok t" for info using t by (simp_all add: good_tree_def)
  then show "\<exists>ps. cmsg_proxy_find_service_from_url_and_verb env url verb t [] = Some (None, ps)"
    using find_service_absent [of env t url verb "[]"] none by blast
qed

lemma service_info_init_fold:
  "cmsg_proxy_service_info_init env sis root =
    fold (\<lambda>si r. Option.bind r (\<lambda>t. map_option snd (cmsg_proxy_service_info_add env si t))) sis (Some root)"
proof (induction sis arbitrary: root)
  case (Cons si sis)
  have none: "fold (\<lambda>si r. Option.bind r (\<lambda>t. map_option snd (cmsg_proxy_service_info_add env si t))) sis None = None" for sis
    by (induction sis) simp_all
  show ?case by (cases "cmsg_proxy_service_info_add env si root") (auto simp: none Cons split_beta)
qed simp

lemma empty_tree_good:
  "\<forall>info. \<not> cmsg_proxy_token_is_url_param (pe_info_text env info) \<Longrightarrow> good_tree env S (Token_node s [])"
  by (simp add: good_tree_def kids_ok_def route_info_empty)

text \<open>
  C13: The proxy's tree of URLs is a table of routes. After the services of the loaded libraries
  were added to the empty tree, the table holds for every accepted URL template the services per
  verb; a template is refused only if it would part from an accepted one at a parameter, or if it
  needs a new node and its message has no field left for its body. Looking up a URL and verb then
  gives the service of the template that matches the URL segment by segment, with the parameters
  bound in it, and nothing when no template matches. This holds when the methods of the services
  exist, when no URL that the code excuses from the check for conflicts makes use of the excuse
  (it must not part from another service's URL at a parameter; with a conflict let in the lookup
  can miss a route), and when the text of a service leaf does not read as a parameter.
\<close>

theorem proxy_routes_exact:
  assumes "\<forall>si \<in> set sis. service_fine (set sis) si" "\<forall>info. \<not> cmsg_proxy_token_is_url_param (pe_info_text env info)"
  shows "\<exists>root. cmsg_proxy_service_info_init env sis (Token_node ''CMSG-API'' []) = Some root \<and>
    (\<forall>url verb. let table = fold (register env) sis Map.empty; ts = strtok_all (CHR ''/'') url in
       (\<forall>p info. table p = Some info \<and> url_matches p ts \<longrightarrow>
          cmsg_proxy_find_service_from_url_and_verb env url verb root [] =
            Some (cmsg_proxy_service_info_get info verb, rev (bound env p ts))) \<and>
       ((\<forall>p. table p \<noteq> None \<longrightarrow> \<not> url_matches p ts) \<longrightarrow>
          (\<exists>params. cmsg_proxy_find_service_from_url_and_verb env url verb root [] = Some (None, params))))"
  using routes.lookups_exact [OF empty_tree_good [OF assms(2)] assms(1)]
  unfolding service_info_init_fold route_info_empty .

definition demo_tree_env :: proxy_tree_env where
  "demo_tree_env = \<lparr>pe_unescape = Some, pe_info_text = (\<lambda>_. []),
     pe_field_by_name = (\<lambda>md k. List.find (\<lambda>fd. fd_name fd = k) (md_fields md)), pe_create_client = (\<lambda>_ _. True)\<rparr>"

definition demo_vlan_id :: message_descriptor where
  "demo_vlan_id = \<lparr>md_name = ''vlan_id'', md_fields =
     [\<lparr>fd_name = ''id'', fd_type = PROTOBUF_C_TYPE_UINT32, fd_repeated = False\<rparr>,
      \<lparr>fd_name = ''_api_request_username'', fd_type = PROTOBUF_C_TYPE_STRING, fd_repeated = False\<rparr>]\<rparr>"

definition demo_proxy_service :: cmsg_service_info where
  "demo_proxy_service = \<lparr>si_desc = \<lparr>ad_service_name = ''vlan'', ad_methods = [(demo_vlan_id, ant_result_descriptor)]\<rparr>,
     si_method_index = 0, si_url_string = ''/v1/{id}'', si_http_verb = CMSG_HTTP_GET, si_body_string = []\<rparr>"

lemmas demo_proxy_defs = demo_tree_env_def demo_vlan_id_def demo_proxy_service_def

lemma demo_proxy_service_fine: "service_fine {demo_proxy_service} demo_proxy_service"
  by (simp add: service_fine_def demo_proxy_service_def input_msg_descriptor_def array_get_def
      cmsg_proxy_allowed_conflicts__DEPRECATED_def)

lemma demo_route:
  "fold (register demo_tree_env) [demo_proxy_service] Map.empty [''v1'', ''{id}''] =
    Some (no_api_info\<lparr>cmsg_http_get := Some demo_proxy_service\<rparr>)"
  by (simp add: register_def accepts_def demo_proxy_defs strtok_all_def cmsg_proxy_body_string_check_def
      cmsg_proxy_api_info_node_set_def Let_def)

theorem proxy_routes_exact_witness:
  "\<exists>root. cmsg_proxy_service_info_init demo_tree_env [demo_proxy_service] (Token_node ''CMSG-API'' []) = Some root \<and>
    cmsg_proxy_find_service_from_url_and_verb demo_tree_env ''/v1/7'' CMSG_HTTP_GET root [] =
      Some (Some demo_proxy_service, [\<lparr>url_key = ''id'', url_value = Some ''7''\<rparr>])"
proof -
  have match: "url_matches [''v1'', ''{id}''] (strtok_all (CHR ''/'') ''/v1/7'')"
    "rev (bound demo_tree_env [''v1'', ''{id}''] (strtok_all (CHR ''/'') ''/v1/7'')) = [\<lparr>url_key = ''id'', url_value = Some ''7''\<rparr>]"
    by (simp_all add: url_matches_def strtok_all_def cmsg_proxy_token_is_url_param_def
        cmsg_proxy_create_url_parameter_def demo_tree_env_def)
  have get: "cmsg_proxy_service_info_get (no_api_info\<lparr>cmsg_http_get := Some demo_proxy_service\<rparr>) CMSG_HTTP_GET = Some demo_proxy_service"
    by (simp add: cmsg_proxy_service_info_get_def)
  show ?thesis
    using proxy_routes_exact [of "[demo_proxy_service]" demo_tree_env] demo_proxy_service_fine demo_route match get
    by (fastforce simp: demo_tree_env_def cmsg_proxy_token_is_url_param_def Let_def)
qed

text \<open>
  Two conflicting URLs that the code lets in. Both are added, the second next to the parameter of
  the first; a request for the second then follows the parameter and finds nothing.
\<close>

definition demo_interface :: cmsg_service_info where
  "demo_interface = demo_proxy_service\<lparr>si_url_string := ''/v0.1/statistics/interfaces/{id}/x''\<rparr>"

definition demo_eth :: cmsg_service_info where
  "demo_eth = demo_proxy_service\<lparr>si_url_string := ''/v0.1/statistics/interfaces/eth/y''\<rparr>"

lemma allowed_conflict_hides_route:
  "\<exists>root1 root. cmsg_proxy_service_info_add demo_tree_env demo_interface (Token_node ''CMSG-API'' []) = Some (True, root1) \<and>
    cmsg_proxy_service_info_add demo_tree_env demo_eth root1 = Some (True, root) \<and>
    url_matches (template demo_eth) (template demo_eth) \<and>
    (\<exists>params. cmsg_proxy_find_service_from_url_and_verb demo_tree_env (si_url_string demo_eth) CMSG_HTTP_GET root [] = Some (None, params))"
  by (simp add: demo_interface_def demo_eth_def template_def demo_proxy_service_def demo_tree_env_def cmsg_proxy_service_info_add_def
      strtok_all_def cmsg_proxy_service_info_conflicts_def cmsg_proxy_allowed_conflicts__DEPRECATED_def
      cmsg_proxy_body_string_check_def cmsg_proxy_api_info_node_new_def cmsg_proxy_api_info_node_set_def
      extract_Nil_code extract_Cons_code cmsg_proxy_token_is_url_param_def url_matches_def
      cmsg_proxy_find_service_from_url_and_verb_def)

section \<open>The input of an API\<close>

definition demo_proxy_env :: proxy_env where
  "demo_proxy_env = \<lparr>px_tree = demo_tree_env, px_json_loads = (\<lambda>_. (None, ''empty'')), px_json_dumps = (\<lambda>_ _. Some ''{}''),
     px_utf8_valid = (\<lambda>_. True), px_json2protobuf = (\<lambda>_ md. Inr (Proto md [])), px_protobuf2json = (\<lambda>_. Some []),
     px_unpack = (\<lambda>md _. Some (Proto md [])), px_pre_api_check = None,
     px_invoke = (\<lambda>_ _ _. (0, Some (ant_result_message 0 ''done'')))\<rparr>"

lemma demo_field_names: "field_names demo_proxy_env"
  by (auto simp: field_names_def demo_proxy_env_def demo_tree_env_def find_Some_iff)

definition demo_input :: cmsg_proxy_input where
  "demo_input = \<lparr>in_url = ''/v1/7'', in_query_string = None, in_http_verb = CMSG_HTTP_GET, in_data = None,
     in_api_request_ip_address = Some ''::1'', in_api_request_username = Some ''manager'',
     in_upload_request = False, in_temp_filename = None, in_client_filename = None, in_connection = 1\<rparr>"

definition demo_params :: "cmsg_url_parameter list" where
  "demo_params = [\<lparr>url_key = ''id'', url_value = Some ''7''\<rparr>]"

lemma demo_input_json:
  "input_json demo_proxy_env demo_input demo_proxy_service demo_vlan_id demo_params =
    Inr [(''id'', JInt 7), (''_api_request_username'', JString ''manager'')]"
  by (simp add: input_json_def demo_input_def demo_proxy_env_def demo_proxy_defs demo_params_def
      cmsg_proxy_input_data_presence_as_expected_def cmsg_proxy_json_object_create_def
      cmsg_proxy_parse_url_parameters_def parse_url_parameter_def cmsg_proxy_json_value_to_object_def
      cmsg_proxy_json_value_handle_as_string_def cmsg_proxy_set_internal_api_info_def
      cmsg_proxy_set_internal_api_value_def cmsg_proxy_set_file_upload_info_def
      json_field_def json_object_update_def strtoll_def is_space_def is_digit_def digits_value_def)



text \<open>
  C18: A query string cannot change what the path of the URL says. It does not change which service
  is called, and the field of every path parameter that converts keeps the value from the path,
  whatever keys the query string has and whatever was in the body.
\<close>

theorem path_parameters_win:
  assumes "field_names env" "cmsg_proxy_get_service_and_parameters env root url None verb = Some (si, path)"
    and "p \<in> set path" "field_value env md (url_key p) (url_value p) \<noteq> None"
  shows "\<exists>params. cmsg_proxy_get_service_and_parameters env root url query verb = Some (si, params) \<and>
    map_of (cmsg_proxy_parse_url_parameters env params md body) (url_key p) =
      map_of (cmsg_proxy_parse_url_parameters env path md []) (url_key p)"
proof -
  obtain params where f: "cmsg_proxy_find_service_from_url_and_verb (px_tree env) url verb root [] = Some (si, params)"
    "path = (if si \<noteq> None then cmsg_proxy_parse_query_parameters env None params else params)"
    using assms(2) by (auto simp: cmsg_proxy_get_service_and_parameters_def)
  then have path: "path = params" by (simp add: cmsg_proxy_parse_query_parameters_def)
  obtain q where q: "cmsg_proxy_parse_query_parameters env query path = q @ path" using parse_query_prepends by blast
  have "\<exists>q. cmsg_proxy_get_service_and_parameters env root url query verb = Some (si, q @ path)"
    using f(1) path q by (cases si) (auto simp: cmsg_proxy_get_service_and_parameters_def)
  then obtain q where "cmsg_proxy_get_service_and_parameters env root url query verb = Some (si, q @ path)" by blast
  moreover have "map_of (cmsg_proxy_parse_url_parameters env (q @ path) md body) (url_key p) =
      map_of (cmsg_proxy_parse_url_parameters env path md []) (url_key p)"
    unfolding parse_url_parameters_append using assms(3,4) by (intro parse_url_parameters_agree [OF assms(1)]) blast
  ultimately show ?thesis by blast
qed

theorem path_parameters_win_witness:
  "\<exists>params. cmsg_proxy_get_service_and_parameters demo_proxy_env
      (Token_node ''CMSG-API'' [Token_node ''v1'' [Token_node ''{id}'' [Api_node (no_api_info\<lparr>cmsg_http_get := Some demo_proxy_service\<rparr>)]]])
      ''/v1/7'' (Some ''id=8'') CMSG_HTTP_GET = Some (Some demo_proxy_service, params) \<and>
    map_of (cmsg_proxy_parse_url_parameters demo_proxy_env params demo_vlan_id [(''id'', JInt 9)]) ''id'' = Some (JInt 7)"
proof -
  let ?root = "Token_node ''CMSG-API'' [Token_node ''v1'' [Token_node ''{id}'' [Api_node (no_api_info\<lparr>cmsg_http_get := Some demo_proxy_service\<rparr>)]]]"
  have path: "cmsg_proxy_get_service_and_parameters demo_proxy_env ?root ''/v1/7'' None CMSG_HTTP_GET = Some (Some demo_proxy_service, demo_params)"
    by (simp add: cmsg_proxy_get_service_and_parameters_def cmsg_proxy_find_service_from_url_and_verb_def demo_proxy_env_def
        demo_tree_env_def strtok_all_def cmsg_proxy_token_is_url_param_def cmsg_proxy_create_url_parameter_def
        cmsg_proxy_service_info_get_def cmsg_proxy_parse_query_parameters_def demo_params_def)
  have val: "field_value demo_proxy_env demo_vlan_id ''id'' (Some ''7'') = Some (JInt 7)"
    by (simp add: field_value_def demo_proxy_env_def demo_proxy_defs cmsg_proxy_json_value_to_object_def json_field_def
        strtoll_def is_space_def is_digit_def digits_value_def)
  have "map_of (cmsg_proxy_parse_url_parameters demo_proxy_env demo_params demo_vlan_id []) ''id'' = Some (JInt 7)"
    by (simp add: cmsg_proxy_parse_url_parameters_def parse_url_parameter_eq [OF demo_field_names] demo_params_def val)
  with path_parameters_win [OF demo_field_names path, of "\<lparr>url_key = ''id'', url_value = Some ''7''\<rparr>" demo_vlan_id "Some ''id=8''" "[(''id'', JInt 9)]"] val
  show ?thesis by (simp add: demo_params_def)
qed

text \<open>
  C17: A request cannot forge its own origin. The user name and the address of the request that the
  API gets in its message are the ones that the web server passes in, converted to the type of the
  field, whatever the body, the path and the query string set. Only where that value has no
  conversion, as a text that is not UTF-8, or the message has no such field, is the entry what the
  body and the parameters made of it.
\<close>

theorem request_identity_unforgeable:
  assumes "field_names env" "input_json env input si md params = Inr obj"
  shows "\<exists>body. cmsg_proxy_json_object_create env (in_data input) md (si_body_string si) params = Inr body \<and>
    (\<forall>(k, v) \<in> {(''_api_request_username'', in_api_request_username input), (''_api_request_ip_address'', in_api_request_ip_address input)}.
       map_of obj k = (case field_value env md k v of
          Some j \<Rightarrow> Some j
        | None \<Rightarrow> map_of (cmsg_proxy_parse_url_parameters env params md body) k))"
proof -
  obtain body where b: "cmsg_proxy_json_object_create env (in_data input) md (si_body_string si) params = Inr body"
    "cmsg_proxy_set_file_upload_info env input md
       (cmsg_proxy_set_internal_api_info env input md (cmsg_proxy_parse_url_parameters env params md body)) = Inr obj"
    using input_json_parts [OF assms(2)] .
  let ?params = "cmsg_proxy_parse_url_parameters env params md body"
  let ?set = "cmsg_proxy_set_internal_api_info env input md ?params"
  have keep: "map_of obj k = map_of ?set k" if "k \<noteq> ''_client_filename''" "k \<noteq> ''_temp_filename''" for k
    using file_upload_info_cases [OF b(2)] that by (auto simp: internal_api_value_other [OF assms(1)])
  have "map_of ?set k = (case field_value env md k v of Some j \<Rightarrow> Some j | None \<Rightarrow> map_of ?params k)"
    if "(k, v) \<in> {(''_api_request_username'', in_api_request_username input), (''_api_request_ip_address'', in_api_request_ip_address input)}" for k v
    using that by (auto simp: cmsg_proxy_set_internal_api_info_def set_internal_api_value_eq [OF assms(1)] json_object_set_map_of
        split: option.split)
  with b(1) keep show ?thesis by auto
qed

definition forged_params :: "cmsg_url_parameter list" where
  "forged_params = \<lparr>url_key = ''_api_request_username'', url_value = Some ''eve''\<rparr> # demo_params"

lemma demo_values:
  "field_value demo_proxy_env demo_vlan_id ''_api_request_username'' (Some v) = Some (JString v)"
  "field_value demo_proxy_env demo_vlan_id ''id'' (Some ''7'') = Some (JInt 7)"
  by (simp_all add: field_value_def demo_proxy_env_def demo_proxy_defs cmsg_proxy_json_value_to_object_def json_field_def
      cmsg_proxy_json_value_handle_as_string_def strtoll_def is_space_def is_digit_def digits_value_def)

theorem request_identity_unforgeable_witness:
  "\<exists>obj. input_json demo_proxy_env demo_input demo_proxy_service demo_vlan_id forged_params = Inr obj \<and>
    map_of obj ''_api_request_username'' = Some (JString ''manager'')"
proof -
  obtain obj where obj: "input_json demo_proxy_env demo_input demo_proxy_service demo_vlan_id forged_params = Inr obj"
    by (simp add: input_json_def demo_input_def demo_proxy_service_def cmsg_proxy_input_data_presence_as_expected_def
        cmsg_proxy_json_object_create_def cmsg_proxy_set_file_upload_info_def)
  have "map_of obj ''_api_request_username'' = Some (JString ''manager'')"
    using request_identity_unforgeable [OF demo_field_names obj] by (auto simp: demo_input_def demo_values)
  with obj show ?thesis by blast
qed

text \<open>A user name that is not UTF-8 is left out, and the one that the query string set stays.\<close>

lemma forged_identity_stays:
  "\<exists>obj. input_json (demo_proxy_env\<lparr>px_utf8_valid := (\<lambda>v. v \<noteq> [CHR 0xFF])\<rparr>)
      (demo_input\<lparr>in_api_request_username := Some [CHR 0xFF]\<rparr>) demo_proxy_service demo_vlan_id forged_params = Inr obj \<and>
    map_of obj ''_api_request_username'' = Some (JString ''eve'')"
  by (simp add: input_json_def demo_input_def demo_proxy_env_def demo_proxy_defs demo_params_def forged_params_def
      cmsg_proxy_input_data_presence_as_expected_def cmsg_proxy_json_object_create_def
      cmsg_proxy_parse_url_parameters_def parse_url_parameter_def cmsg_proxy_json_value_to_object_def
      cmsg_proxy_json_value_handle_as_string_def cmsg_proxy_set_internal_api_info_def
      cmsg_proxy_set_internal_api_value_def cmsg_proxy_set_file_upload_info_def
      json_field_def json_object_update_def strtoll_def is_space_def is_digit_def digits_value_def)

text \<open>
  The names of an uploaded file can be forged. A request that uploads nothing, to an API whose
  message has the hidden field \<open>_temp_filename\<close>, sets that field from its query string: the API is
  told to take any file of the device as the uploaded one.
\<close>

lemma temp_filename_forgeable:
  assumes "field_names env" "field_by_name env md ''_temp_filename'' = Some fd" "fd_type fd = PROTOBUF_C_TYPE_STRING"
    and "\<not> fd_repeated fd" "pe_unescape (px_tree env) ''/etc/passwd'' = Some ''/etc/passwd''" "px_utf8_valid env ''/etc/passwd''"
    and "cmsg_proxy_get_service_and_parameters env root url None verb = Some (Some si, [])"
    and "in_data input = None" "si_body_string si \<in> {[], ''*''}" "\<not> in_upload_request input"
  shows "\<exists>params obj. cmsg_proxy_get_service_and_parameters env root url (Some ''_temp_filename=/etc/passwd'') verb = Some (Some si, params) \<and>
    input_json env input si md params = Inr obj \<and> map_of obj ''_temp_filename'' = Some (JString ''/etc/passwd'')"
proof -
  let ?p = "\<lparr>url_key = ''_temp_filename'', url_value = Some ''/etc/passwd''\<rparr>"
  have "cmsg_proxy_find_service_from_url_and_verb (px_tree env) url verb root [] = Some (Some si, [])"
    using assms(7) by (auto simp: cmsg_proxy_get_service_and_parameters_def cmsg_proxy_parse_query_parameters_def)
  then have get: "cmsg_proxy_get_service_and_parameters env root url (Some ''_temp_filename=/etc/passwd'') verb = Some (Some si, [?p])"
    using assms(5) by (simp add: cmsg_proxy_get_service_and_parameters_def cmsg_proxy_parse_query_parameters_def strtok_all_def
        parse_query_entry_def cmsg_proxy_create_url_parameter_def)
  have val: "field_value env md ''_temp_filename'' (Some ''/etc/passwd'') = Some (JString ''/etc/passwd'')"
    using assms(2-4,6) by (simp add: field_value_def cmsg_proxy_json_value_to_object_def
        cmsg_proxy_json_value_handle_as_string_def json_field_def)
  have "input_json env input si md [?p] = Inr (cmsg_proxy_set_internal_api_info env input md [(''_temp_filename'', JString ''/etc/passwd'')])"
    using assms(8-10) by (auto simp: input_json_def cmsg_proxy_input_data_presence_as_expected_def cmsg_proxy_json_object_create_def
        cmsg_proxy_set_file_upload_info_def cmsg_proxy_parse_url_parameters_def parse_url_parameter_eq [OF assms(1)] val)
  moreover have "map_of (cmsg_proxy_set_internal_api_info env input md [(''_temp_filename'', JString ''/etc/passwd'')]) ''_temp_filename'' =
      Some (JString ''/etc/passwd'')"
    by (simp add: cmsg_proxy_set_internal_api_info_def internal_api_value_other [OF assms(1)])
  ultimately show ?thesis using get by blast
qed

definition demo_upload :: message_descriptor where
  "demo_upload = \<lparr>md_name = ''file_upload_info'', md_fields =
     [\<lparr>fd_name = ''_temp_filename'', fd_type = PROTOBUF_C_TYPE_STRING, fd_repeated = False\<rparr>]\<rparr>"

section \<open>A whole request\<close>

text \<open>The way in is defined for every request, and leaves the streams as the way out expects them.\<close>

lemma input_process_outcome:
  assumes "shape_ok (pc_root conf)" "services_in S (pc_root conf)" "\<forall>si \<in> S. input_msg_descriptor si \<noteq> None"
    and "streams_fresh (pxs_streams s)" "\<not> out_stream_response output"
  shows "\<exists>r output1 s1. cmsg_proxy_input_process env conf input output s = Some (r, output1, s1) \<and>
    input_outcome (in_connection input) s r output1 s1"
proof -
  obtain si path where f: "cmsg_proxy_find_service_from_url_and_verb (px_tree env) (in_url input) (in_http_verb input) (pc_root conf) [] = Some (si, path)"
    "\<forall>x. si = Some x \<longrightarrow> x \<in> S"
    using find_service_defined [OF assms(1,2)] by blast
  show ?thesis
  proof (cases si)
    case None
    with f assms(5) show ?thesis by (simp add: input_outcome_def cmsg_proxy_input_process_def cmsg_proxy_get_service_and_parameters_def)
  next
    case (Some si0)
    then have "si0 \<in> S" using f(2) by blast
    with assms(3) obtain imd omd where d: "input_msg_descriptor si0 = Some imd" "output_msg_descriptor si0 = Some omd"
      by (auto simp: input_msg_descriptor_def output_msg_descriptor_def)
    let ?params = "cmsg_proxy_parse_query_parameters env (in_query_string input) path"
    have get: "cmsg_proxy_get_service_and_parameters env (pc_root conf) (in_url input) (in_query_string input) (in_http_verb input) = Some (Some si0, ?params)"
      using f Some by (simp add: cmsg_proxy_get_service_and_parameters_def)
    consider (check) message where "cmsg_proxy_pre_api_check env (in_http_verb input) = Some message"
      | (body) message where "cmsg_proxy_pre_api_check env (in_http_verb input) = None" "input_json env input si0 imd ?params = Inl message"
      | (ok) obj where "cmsg_proxy_pre_api_check env (in_http_verb input) = None" "input_json env input si0 imd ?params = Inr obj"
      by (cases "cmsg_proxy_pre_api_check env (in_http_verb input)"; cases "input_json env input si0 imd ?params") auto
    then show ?thesis
    proof cases
      case check
      with get d assms(5) show ?thesis by (simp add: input_outcome_def cmsg_proxy_input_process_def Let_def)
    next
      case body
      with get d assms(5) show ?thesis by (simp add: input_outcome_def cmsg_proxy_input_process_def Let_def)
    next
      case ok
      with get d assms(4,5)
        input_message_outcome [of "proxy_count cntr_api_calls s" "output"]
      show ?thesis by (simp add: cmsg_proxy_input_process_def Let_def)
    qed
  qed
qed

text \<open>
  C14: No request brings the proxy down, and streams are accounted for. With the tree of any
  loaded services whose methods exist, conflicting URLs included, every request (any URL, verb,
  body, upload, any answer of the API) is answered without undefined behaviour, except that the
  index is not asked for while no service is loaded. If the response is streamed, the status is 200
  and there is exactly one connection more, with the request's connection and the id that the
  counter of ids had, and the counter is one further; in every other case, whatever failed and
  however late, the connections are as before. This is of a request that no other thread interrupts.
\<close>

theorem proxy_request_served:
  assumes "\<forall>si \<in> set sis. input_msg_descriptor si \<noteq> None"
    and "cmsg_proxy_service_info_init (px_tree env) sis (Token_node ''CMSG-API'' []) = Some (pc_root conf)"
    and "in_url input = ''/v1/index'' \<and> in_http_verb input = CMSG_HTTP_GET \<longrightarrow> node_children (pc_root conf) \<noteq> []"
    and "streams_fresh (pxs_streams s)" "\<not> out_stream_response output"
  shows "\<exists>output' s'. cmsg_proxy env conf input output s = Some (output', s') \<and>
    stream_outcome (in_connection input) s output' s' \<and>
    (out_stream_response output' \<longrightarrow> out_http_status output' = HTTP_CODE_OK)"
proof -
  have root: "shape_ok (pc_root conf)" "services_in (set sis) (pc_root conf)"
    using service_info_init_grown [OF assms(1) order_refl, of "''CMSG-API''" "[]" "px_tree env"] assms(2) by simp_all
  let ?out = "output\<lparr>out_mime_type := ''application/json''\<rparr>"
  show ?thesis
  proof (cases "in_url input = ''/v1/index'' \<and> in_http_verb input = CMSG_HTTP_GET")
    case True
    have branch: "\<not> node_is_leaf (pc_root conf)" using assms(3) True by (simp add: node_is_leaf_def)
    obtain status output1
      where i: "cmsg_proxy_index env (Some (pc_root conf)) (in_query_string input) ?out = Some (status, output1)"
      using index_defined [OF branch root(1)] by fastforce
    then have "\<not> out_stream_response output1" using assms(5) by (auto simp: cmsg_proxy_index_def split: if_splits)
    with i True show ?thesis by (auto simp: cmsg_proxy_def stream_outcome_def)
  next
    case False
    have "\<not> out_stream_response ?out" using assms(5) by simp
    from input_process_outcome [OF root assms(1,4) this]
    obtain r output1 s1 where i: "cmsg_proxy_input_process env conf input ?out s = Some (r, output1, s1)"
      "input_outcome (in_connection input) s r output1 s1" by blast
    show ?thesis
    proof (cases r)
      case None
      with i False show ?thesis by (auto simp: input_outcome_def cmsg_proxy_def stream_outcome_def Let_def)
    next
      case (Some x)
      obtain m info where x: "x = (m, info)" by (cases x)
      obtain result answer where a: "cmsg_proxy_call_cmsg_api env (pi_client info) m (pi_service_info info) = (result, answer)" by fastforce
      let ?info = "info\<lparr>pi_cmsg_api_result := result\<rparr>"
      have "cmsg_proxy env conf input output s = cmsg_proxy_output_process env answer output1 ?info s1"
        using i(1) Some x a False by (auto simp: cmsg_proxy_def Let_def)
      moreover have "if out_stream_response output1
           then one_more_stream (pxs_streams s) (pi_streaming_id ?info) (in_connection input) (pxs_streams s1)
           else same_streams (pxs_streams s) (pxs_streams s1)" using i(2) Some x by (simp add: input_outcome_def)
      note output_process_outcome [OF assms(4) this, of env answer]
      ultimately show ?thesis by simp
    qed
  qed
qed

definition demo_conf :: proxy_conf where
  "demo_conf = \<lparr>pc_root = Token_node ''CMSG-API'' [Token_node ''v1'' [Token_node ''{id}'' [Api_node (no_api_info\<lparr>cmsg_http_get := Some demo_proxy_service\<rparr>)]]],
     pc_clients = [''vlan''], pc_alloc_ok = True\<rparr>"

definition demo_output :: cmsg_proxy_output where
  "demo_output = \<lparr>out_response_body = None, out_response_length = 0, out_mime_type = [], out_stream_response = False, out_http_status = 0\<rparr>"

definition demo_state :: proxy_state where
  "demo_state = \<lparr>pxs_streams = \<lparr>ss_conns = Map.empty, ss_list = [], ss_last_id_assigned = 0, ss_next_addr = 0, ss_events = []\<rparr>,
     pxs_counters = []\<rparr>"

lemma demo_root:
  "cmsg_proxy_service_info_init demo_tree_env [demo_proxy_service] (Token_node ''CMSG-API'' []) = Some (pc_root demo_conf)"
  by (simp add: demo_proxy_service_def demo_conf_def cmsg_proxy_service_info_add_def strtok_all_def cmsg_proxy_service_info_conflicts_def
      cmsg_proxy_body_string_check_def cmsg_proxy_api_info_node_new_def cmsg_proxy_api_info_node_set_def extract_Nil_code)

theorem proxy_request_served_witness:
  "\<exists>output' s'. cmsg_proxy demo_proxy_env demo_conf demo_input demo_output demo_state = Some (output', s') \<and>
    stream_outcome 1 demo_state output' s'"
proof -
  have "px_tree demo_proxy_env = demo_tree_env" "in_connection demo_input = 1" by (simp_all add: demo_proxy_env_def demo_input_def)
  moreover have "streams_fresh (pxs_streams demo_state)" "\<not> out_stream_response demo_output" "node_children (pc_root demo_conf) \<noteq> []"
    by (simp_all add: streams_fresh_def demo_state_def demo_output_def demo_conf_def)
  ultimately show ?thesis
    using proxy_request_served [of "[demo_proxy_service]" demo_proxy_env demo_conf demo_input demo_state demo_output] demo_proxy_service_fine demo_root
    by (auto simp: service_fine_def)
qed

text \<open>The index asked for while no service is loaded reads the root of the tree as a service leaf.\<close>

lemma empty_index_undefined:
  assumes "in_url input = ''/v1/index''" "in_http_verb input = CMSG_HTTP_GET" "pc_root conf = Token_node ''CMSG-API'' []"
  shows "cmsg_proxy env conf input output s = None"
  using assms by (simp add: cmsg_proxy_def cmsg_proxy_index_def cmsg_proxy_tree_foreach_leaf_def cmsg_proxy_index_add_element_def)

text \<open>The status that an answer of the API stands for.\<close>

definition answer_status :: "proxy_env \<Rightarrow> int \<times> proto_message option \<Rightarrow> int" where
  "answer_status env answer = (case answer of (ret, msg) \<Rightarrow>
     if ret \<noteq> CMSG_RET_OK then 500
     else case Option.bind msg (\<lambda>m. Option.bind (error_message_ptr env m) (\<lambda>(e, _). Option.bind e ant_result_code)) of
       None \<Rightarrow> 500
     | Some code \<Rightarrow> cmsg_proxy_ant_code_to_http_code code)"

lemma error_status_exact:
  assumes "\<forall>code message. px_protobuf2json env (ant_result_message code message) \<noteq> None"
  shows "out_http_status (cmsg_proxy_generate_ant_result_error env code message output) = cmsg_proxy_ant_code_to_http_code (ant_code_value code)"
proof -
  obtain obj where "px_protobuf2json env (ant_result_message (ant_code_value code) message) = Some obj" using assms by blast
  then show ?thesis by (simp add: cmsg_proxy_generate_ant_result_error_def)
qed

lemma http_code_values [simp]:
  "cmsg_proxy_ant_code_to_http_code 12 = 501" "cmsg_proxy_ant_code_to_http_code 14 = 503"
  "cmsg_proxy_ant_code_to_http_code 3 = 400" "cmsg_proxy_ant_code_to_http_code 13 = 500" "cmsg_proxy_ant_code_to_http_code 0 = 200"
  by (simp_all add: cmsg_proxy_ant_code_to_http_code_def ANT_CODE_MAX_def ant_code_to_http_code_array_def http_codes)

lemma delete_stream_status:
  "delete_stream ident (out0, s) = Some (out1, s1) \<Longrightarrow> out_http_status out1 = out_http_status out0 \<and> pxs_counters s1 = pxs_counters s"
  by (auto simp: delete_stream_def split: if_splits)

lemma set_http_status_exact:
  "fst (snd (cmsg_proxy_set_http_status env verb msg)) = answer_status env (CMSG_RET_OK, msg) \<and>
    (fst (cmsg_proxy_set_http_status env verb msg) \<or> answer_status env (CMSG_RET_OK, msg) = 500)"
  by (auto simp: cmsg_proxy_set_http_status_def answer_status_def http_codes split: option.split prod.split)

lemma output_process_status:
  assumes "\<forall>code message. px_protobuf2json env (ant_result_message code message) \<noteq> None"
    and "cmsg_proxy_output_process env msg output info s = Some (output', s')"
    and "pi_cmsg_api_result info = (if ret = CMSG_RET_OK then ANT_CODE_OK else ANT_CODE_INTERNAL)"
  shows "out_http_status output' = answer_status env (ret, msg) \<or>
    out_http_status output' = 500 \<and> pxs_counters s' = pxs_counters s @ [cntr_error_protobuf_to_json]"
proof -
  note err = error_status_exact [OF assms(1)]
  obtain ok status msg' where st: "cmsg_proxy_set_http_status env (pi_http_verb info) msg = (ok, status, msg')"
    by (metis surj_pair)
  have status: "status = answer_status env (CMSG_RET_OK, msg)" "ok \<or> status = 500"
    using set_http_status_exact [of env "pi_http_verb info" msg] st by auto
  consider (call) "ret \<noteq> CMSG_RET_OK" | (info) "ret = CMSG_RET_OK" "\<not> ok"
    | (stream) "ret = CMSG_RET_OK" ok "out_stream_response output" "status = HTTP_CODE_OK"
    | (body) "ret = CMSG_RET_OK" ok "\<not> (out_stream_response output \<and> status = HTTP_CODE_OK)"
    by blast
  then show ?thesis
  proof cases
    case call
    then have "out_http_status output' = 500"
      using assms(2,3) by (auto simp: cmsg_proxy_output_process_def err dest!: delete_stream_status)
    with call show ?thesis by (simp add: answer_status_def)
  next
    case info
    then have "out_http_status output' = 500"
      using assms(2,3) st by (auto simp: cmsg_proxy_output_process_def err dest!: delete_stream_status)
    with info status show ?thesis by simp
  next
    case stream
    with assms(2,3) st status show ?thesis by (auto simp: cmsg_proxy_output_process_def Let_def)
  next
    case body
    then obtain output2 s2 where d: "delete_stream (pi_streaming_id info) (output\<lparr>out_http_status := status\<rparr>, s) = Some (output2, s2)"
      and rest: "(case msg' of
         None \<Rightarrow> Some (output2, s2)
       | Some m \<Rightarrow>
           (case cmsg_proxy_generate_response_body env m output2 of
              (True, output) \<Rightarrow> Some (output, s2)
            | (False, output) \<Rightarrow>
                Some (cmsg_proxy_generate_ant_result_error env ANT_CODE_INTERNAL
                        ''Internal CMSG response is malformed'' output,
                      proxy_count cntr_error_protobuf_to_json s2))) = Some (output', s')"
      using assms(2,3) st by (auto simp: cmsg_proxy_output_process_def Let_def bind_eq_Some_conv)
    have d2: "out_http_status output2 = answer_status env (ret, msg)" "pxs_counters s2 = pxs_counters s"
      using delete_stream_status [OF d] status(1) body(1) by simp_all
    show ?thesis
    proof (cases msg')
      case None
      with rest d2 show ?thesis by simp
    next
      case (Some m)
      obtain b output3 where g: "cmsg_proxy_generate_response_body env m output2 = (b, output3)" by fastforce
      with rest Some d2 generate_response_body_keeps [OF g] show ?thesis
        by (cases b) (auto simp: err proxy_count_def)
    qed
  qed
qed

text \<open>The JSON that is converted to the message, with the id of the stream in it; and the message called with.\<close>

definition api_json :: "proxy_env \<Rightarrow> bool \<Rightarrow> message_descriptor \<Rightarrow> stream_state \<Rightarrow> json_object \<Rightarrow> json_object" where
  "api_json env alloc_ok md ss obj =
     (if cmsg_proxy_streaming_is_required env md \<and> alloc_ok
      then cmsg_proxy_set_internal_api_value env (Some (decimal (unat (ss_last_id_assigned ss)))) md ''_streaming_id'' obj
      else obj)"

definition api_message :: "proxy_env \<Rightarrow> message_descriptor \<Rightarrow> cmsg_proxy_input \<Rightarrow> proto_message \<Rightarrow> proto_message" where
  "api_message env md input m =
     (if cmsg_proxy_msg_has_file (px_tree env) md
      then cmsg_proxy_file_data_to_message env (case in_data input of None \<Rightarrow> [] | Some d \<Rightarrow> d) m else m)"

text \<open>The status of JSON that does not convert: the request's fault, or the proxy's own.\<close>

definition refusal_status :: "protobuf2json_err \<Rightarrow> int" where
  "refusal_status res =
     (if res \<in> {PROTOBUF2JSON_ERR_CANNOT_DUMP_STRING, PROTOBUF2JSON_ERR_CANNOT_DUMP_FILE,
                PROTOBUF2JSON_ERR_JANSSON_INTERNAL, PROTOBUF2JSON_ERR_CANNOT_ALLOCATE_MEMORY} then 500 else 400)"

lemma create_conn_json:
  "snd (snd (fst (cmsg_proxy_streaming_create_conn env ok connection obj imd omd s))) = api_json env ok imd s obj"
  by (auto simp: cmsg_proxy_streaming_create_conn_def cmsg_proxy_streaming_generate_id_def api_json_def Let_def)

lemma input_message_refused:
  assumes "\<forall>code message. px_protobuf2json env (ant_result_message code message) \<noteq> None"
    and "input_message env conf input si imd omd obj out0 s = Some (r, out1, s1)"
    and "cmsg_proxy_find_client_by_service (pc_clients conf) (si_desc si) = Some client"
    and "px_json2protobuf env (JObject (api_json env (pc_alloc_ok conf) imd (pxs_streams s) obj)) imd = Inl (res, message)"
  shows "r = None \<and> out_http_status out1 = refusal_status res"
proof -
  obtain streamed ident obj' ss where c: "cmsg_proxy_streaming_create_conn env (pc_alloc_ok conf) (in_connection input) obj imd omd (pxs_streams s) =
      ((streamed, ident, obj'), ss)" by (metis surj_pair)
  then have obj': "obj' = api_json env (pc_alloc_ok conf) imd (pxs_streams s) obj"
    using create_conn_json [of env "pc_alloc_ok conf" "in_connection input" obj imd omd "pxs_streams s"] by simp
  show ?thesis
    using assms(2-4) c obj'
    by (auto simp: input_message_def cmsg_proxy_convert_json_to_protobuf_def Let_def refusal_status_def error_status_exact [OF assms(1)]
        split: if_splits dest!: delete_stream_status)
qed

lemma input_message_converted:
  assumes "input_message env conf input si imd omd obj out0 s = Some (r, out1, s1)"
    and "cmsg_proxy_find_client_by_service (pc_clients conf) (si_desc si) = Some client"
    and "px_json2protobuf env (JObject (api_json env (pc_alloc_ok conf) imd (pxs_streams s) obj)) imd = Inr m"
  shows "\<exists>info. r = Some (api_message env imd input m, info) \<and> pi_client info = client \<and> pi_service_info info = si \<and>
    pxs_counters s1 = pxs_counters s"
proof -
  obtain streamed ident obj' ss where c: "cmsg_proxy_streaming_create_conn env (pc_alloc_ok conf) (in_connection input) obj imd omd (pxs_streams s) =
      ((streamed, ident, obj'), ss)" by (metis surj_pair)
  then have obj': "obj' = api_json env (pc_alloc_ok conf) imd (pxs_streams s) obj"
    using create_conn_json [of env "pc_alloc_ok conf" "in_connection input" obj imd omd "pxs_streams s"] by simp
  show ?thesis
    using assms c obj'
    by (auto simp: input_message_def cmsg_proxy_convert_json_to_protobuf_def Let_def api_message_def)
qed

text \<open>
  C19: The HTTP status of a request tells at which stage it ended: 501 if no service has the URL
  and verb, 503 if the application's own check refuses it, 400 if its body or upload is refused,
  500 if there is no client for the service, and if the JSON does not convert to the message of the
  API 400, or 500 where the conversion itself failed. Otherwise the API was called with that
  message, and the status is the one that the result code of its answer is mapped to, and 500 if
  the call failed or the answer has no result code or, as is counted, cannot be turned into a
  response. This is of every request but one for the index, provided the JSON of an error can be
  made.
\<close>

theorem proxy_status_exact:
  assumes "\<forall>code message. px_protobuf2json env (ant_result_message code message) \<noteq> None"
    and "cmsg_proxy env conf input output s = Some (output', s')" "\<not> (in_url input = ''/v1/index'' \<and> in_http_verb input = CMSG_HTTP_GET)"
    and "cmsg_proxy_get_service_and_parameters env (pc_root conf) (in_url input) (in_query_string input) (in_http_verb input) = Some (service, params)"
  shows "case service of
      None \<Rightarrow> out_http_status output' = 501
    | Some si \<Rightarrow>
        if cmsg_proxy_pre_api_check env (in_http_verb input) \<noteq> None then out_http_status output' = 503
        else \<exists>md. input_msg_descriptor si = Some md \<and>
          (case input_json env input si md params of
             Inl message \<Rightarrow> out_http_status output' = 400
           | Inr obj \<Rightarrow>
               (case cmsg_proxy_find_client_by_service (pc_clients conf) (si_desc si) of
                  None \<Rightarrow> out_http_status output' = 500
                | Some client \<Rightarrow>
                    (case px_json2protobuf env (JObject (api_json env (pc_alloc_ok conf) md (pxs_streams s) obj)) md of
                       Inl (res, message) \<Rightarrow> out_http_status output' = refusal_status res
                     | Inr m \<Rightarrow>
                         out_http_status output' = answer_status env (px_invoke env client si (api_message env md input m)) \<or>
                         out_http_status output' = 500 \<and>
                           pxs_counters s' = pxs_counters s @ [cntr_api_calls, cntr_error_protobuf_to_json])))"
proof -
  note err = error_status_exact [OF assms(1)]
  let ?out = "output\<lparr>out_mime_type := ''application/json''\<rparr>" and ?s = "proxy_count cntr_api_calls s"
  obtain r output1 s1 where i: "cmsg_proxy_input_process env conf input ?out s = Some (r, output1, s1)"
    using assms(2,3) by (auto simp: cmsg_proxy_def Let_def bind_eq_Some_conv split: if_splits)
  have none: "output' = output1" if "r = None" using assms(2,3) i that by (auto simp: cmsg_proxy_def Let_def)
  show ?thesis
  proof (cases service)
    case None
    then have "r = None \<and> out_http_status output1 = 501"
      using i assms(4) by (auto simp: cmsg_proxy_input_process_def err)
    with none None show ?thesis by simp
  next
    case (Some si)
    then obtain imd omd where d: "input_msg_descriptor si = Some imd" "output_msg_descriptor si = Some omd"
      using i assms(4) by (auto simp: cmsg_proxy_input_process_def split: option.splits)
    consider (check) message where "cmsg_proxy_pre_api_check env (in_http_verb input) = Some message"
      | (body) message where "cmsg_proxy_pre_api_check env (in_http_verb input) = None" "input_json env input si imd params = Inl message"
      | (ok) obj where "cmsg_proxy_pre_api_check env (in_http_verb input) = None" "input_json env input si imd params = Inr obj"
      by (cases "cmsg_proxy_pre_api_check env (in_http_verb input)"; cases "input_json env input si imd params") auto
    then show ?thesis
    proof cases
      case check
      then have "r = None \<and> out_http_status output1 = 503"
        using i assms(4) Some d by (auto simp: cmsg_proxy_input_process_def err Let_def)
      with none check Some show ?thesis by simp
    next
      case body
      then have "r = None \<and> out_http_status output1 = 400"
        using i assms(4) Some d by (auto simp: cmsg_proxy_input_process_def err Let_def)
      with none body Some d show ?thesis by simp
    next
      case ok
      then have im: "input_message env conf input si imd omd obj ?out ?s = Some (r, output1, s1)"
        using i assms(4) Some d by (auto simp: cmsg_proxy_input_process_def Let_def)
      show ?thesis
      proof (cases "cmsg_proxy_find_client_by_service (pc_clients conf) (si_desc si)")
        case None
        then have "r = None \<and> out_http_status output1 = 500" using im by (auto simp: input_message_def err)
        with none ok Some d None show ?thesis by simp
      next
        case (Some client)
        let ?conv = "px_json2protobuf env (JObject (api_json env (pc_alloc_ok conf) imd (pxs_streams s) obj)) imd"
        show ?thesis
        proof (cases ?conv)
          case (Inl e)
          then obtain res message where e: "?conv = Inl (res, message)" by (cases e) auto
          with input_message_refused [OF assms(1) im Some] none ok \<open>service = Some si\<close> d Some show ?thesis by simp
        next
          case (Inr m)
          with input_message_converted [OF im Some] obtain info
            where info: "r = Some (api_message env imd input m, info)" "pi_client info = client" "pi_service_info info = si"
              "pxs_counters s1 = pxs_counters s @ [cntr_api_calls]" by (auto simp: proxy_count_def)
          obtain ret msg where a: "px_invoke env client si (api_message env imd input m) = (ret, msg)" by fastforce
          have "cmsg_proxy_output_process env msg output1
              (info\<lparr>pi_cmsg_api_result := (if ret = CMSG_RET_OK then ANT_CODE_OK else ANT_CODE_INTERNAL)\<rparr>) s1 = Some (output', s')"
            using assms(2,3) i info a by (auto simp: cmsg_proxy_def Let_def cmsg_proxy_call_cmsg_api_def)
          from output_process_status [OF assms(1) this] have "out_http_status output' = answer_status env (ret, msg) \<or>
              out_http_status output' = 500 \<and> pxs_counters s' = pxs_counters s1 @ [cntr_error_protobuf_to_json]" by simp
          with ok \<open>service = Some si\<close> d Some Inr a info(4) show ?thesis by simp
        qed
      qed
    qed
  qed
qed

definition refusing_env :: proxy_env where
  "refusing_env = demo_proxy_env\<lparr>px_json2protobuf := (\<lambda>_ _. Inl (PROTOBUF2JSON_ERR_UNKNOWN_FIELD, ''refused''))\<rparr>"

lemma demo_lookup:
  "cmsg_proxy_get_service_and_parameters demo_proxy_env (pc_root demo_conf) ''/v1/7'' None CMSG_HTTP_GET = Some (Some demo_proxy_service, demo_params)"
  "cmsg_proxy_get_service_and_parameters refusing_env (pc_root demo_conf) ''/v1/7'' None CMSG_HTTP_GET = Some (Some demo_proxy_service, demo_params)"
  "cmsg_proxy_get_service_and_parameters demo_proxy_env (pc_root demo_conf) ''/v2'' None CMSG_HTTP_GET = Some (None, [])"
  by (simp_all add: cmsg_proxy_get_service_and_parameters_def cmsg_proxy_find_service_from_url_and_verb_def demo_proxy_env_def
      refusing_env_def demo_tree_env_def demo_conf_def strtok_all_def cmsg_proxy_token_is_url_param_def
      cmsg_proxy_create_url_parameter_def cmsg_proxy_service_info_get_def cmsg_proxy_parse_query_parameters_def demo_params_def)

lemma refusing_input_json:
  "input_json refusing_env demo_input demo_proxy_service demo_vlan_id demo_params =
    Inr [(''id'', JInt 7), (''_api_request_username'', JString ''manager'')]"
  by (simp add: input_json_def demo_input_def refusing_env_def demo_proxy_env_def demo_proxy_defs demo_params_def
      cmsg_proxy_input_data_presence_as_expected_def cmsg_proxy_json_object_create_def
      cmsg_proxy_parse_url_parameters_def parse_url_parameter_def cmsg_proxy_json_value_to_object_def
      cmsg_proxy_json_value_handle_as_string_def cmsg_proxy_set_internal_api_info_def
      cmsg_proxy_set_internal_api_value_def cmsg_proxy_set_file_upload_info_def
      json_field_def json_object_update_def strtoll_def is_space_def is_digit_def digits_value_def)

lemma demo_request:
  "in_url demo_input = ''/v1/7''" "in_query_string demo_input = None" "in_http_verb demo_input = CMSG_HTTP_GET"
  "in_data demo_input = None"
  "input_msg_descriptor demo_proxy_service = Some demo_vlan_id" "output_msg_descriptor demo_proxy_service = Some ant_result_descriptor"
  "cmsg_proxy_find_client_by_service (pc_clients demo_conf) (si_desc demo_proxy_service) = Some ''vlan''"
  "cmsg_proxy_pre_api_check demo_proxy_env CMSG_HTTP_GET = None" "cmsg_proxy_pre_api_check refusing_env CMSG_HTTP_GET = None"
  "\<not> cmsg_proxy_streaming_is_required demo_proxy_env demo_vlan_id" "\<not> cmsg_proxy_streaming_is_required refusing_env demo_vlan_id"
  "\<not> cmsg_proxy_msg_has_file (px_tree demo_proxy_env) demo_vlan_id"
  by (simp_all add: demo_input_def demo_proxy_defs input_msg_descriptor_def output_msg_descriptor_def array_get_def demo_conf_def
      cmsg_proxy_find_client_by_service_def cmsg_proxy_pre_api_check_def demo_proxy_env_def refusing_env_def
      cmsg_proxy_streaming_is_required_def cmsg_proxy_msg_has_file_def)

lemma demo_done:
  "error_message_ptr demo_proxy_env (ant_result_message 0 ''done'') = Some (Some (ant_result_message 0 ''done''), None)"
  "ant_result_code (ant_result_message 0 ''done'') = Some 0" "CMSG_RET_OK = 0"
  by (simp_all add: error_message_ptr_def demo_proxy_env_def demo_tree_env_def ant_result_message_def ant_result_descriptor_def
      is_ant_result_def ant_result_code_def CMSG_RET_OK_def)

lemma demo_convert:
  "px_json2protobuf demo_proxy_env j md = Inr (Proto md [])"
  "px_json2protobuf refusing_env j md = Inl (PROTOBUF2JSON_ERR_UNKNOWN_FIELD, ''refused'')"
  by (simp_all add: demo_proxy_env_def refusing_env_def)

lemma demo_run_start:
  "cmsg_proxy_input_process demo_proxy_env demo_conf demo_input output demo_state =
    Some (Some (Proto demo_vlan_id [], \<lparr>pi_is_file_input = False, pi_service_info = demo_proxy_service, pi_client = ''vlan'',
        pi_streaming_id = 0, pi_cmsg_api_result = ANT_CODE_OK, pi_http_verb = CMSG_HTTP_GET\<rparr>),
      output\<lparr>out_stream_response := False\<rparr>, proxy_count cntr_api_calls demo_state)"
  "\<exists>r. cmsg_proxy_input_process refusing_env demo_conf demo_input output demo_state = Some (None, r)"
  by (simp_all add: cmsg_proxy_input_process_def demo_request demo_lookup demo_input_json refusing_input_json input_message_def
      cmsg_proxy_streaming_create_conn_def cmsg_proxy_convert_json_to_protobuf_def demo_convert proxy_count_def Let_def delete_stream_def)

lemma demo_runs:
  "\<exists>output' s'. cmsg_proxy demo_proxy_env demo_conf demo_input demo_output demo_state = Some (output', s') \<and>
    pxs_counters s' = [cntr_api_calls]"
  "\<exists>output' s'. cmsg_proxy refusing_env demo_conf demo_input demo_output demo_state = Some (output', s')"
  "\<exists>output' s'. cmsg_proxy demo_proxy_env demo_conf (demo_input\<lparr>in_url := ''/v2''\<rparr>) demo_output demo_state = Some (output', s')"
proof -
  have call: "cmsg_proxy_call_cmsg_api demo_proxy_env c m si = (ANT_CODE_OK, Some (ant_result_message 0 ''done''))" for c m si
    by (simp add: cmsg_proxy_call_cmsg_api_def demo_proxy_env_def demo_done)
  show "\<exists>output' s'. cmsg_proxy demo_proxy_env demo_conf demo_input demo_output demo_state = Some (output', s') \<and>
      pxs_counters s' = [cntr_api_calls]"
    by (simp add: cmsg_proxy_def demo_request demo_run_start call cmsg_proxy_output_process_def cmsg_proxy_set_http_status_def
        demo_done Let_def delete_stream_def) (simp add: demo_state_def proxy_count_def)
  obtain r where "cmsg_proxy_input_process refusing_env demo_conf demo_input
      (demo_output\<lparr>out_mime_type := ''application/json''\<rparr>) demo_state = Some (None, r)"
    using demo_run_start(2) by blast
  then show "\<exists>output' s'. cmsg_proxy refusing_env demo_conf demo_input demo_output demo_state = Some (output', s')"
    by (cases r) (simp add: cmsg_proxy_def demo_request)
  show "\<exists>output' s'. cmsg_proxy demo_proxy_env demo_conf (demo_input\<lparr>in_url := ''/v2''\<rparr>) demo_output demo_state = Some (output', s')"
    by (simp add: cmsg_proxy_def cmsg_proxy_input_process_def demo_request demo_lookup)
qed

theorem proxy_status_exact_witness:
  "(\<exists>output' s'. cmsg_proxy demo_proxy_env demo_conf (demo_input\<lparr>in_url := ''/v2''\<rparr>) demo_output demo_state = Some (output', s') \<and>
      out_http_status output' = 501) \<and>
    (\<exists>output' s'. cmsg_proxy refusing_env demo_conf demo_input demo_output demo_state = Some (output', s') \<and>
      out_http_status output' = 400) \<and>
    (\<exists>output' s'. cmsg_proxy demo_proxy_env demo_conf demo_input demo_output demo_state = Some (output', s') \<and>
      out_http_status output' = 200)"
proof -
  obtain out1 s1 out2 s2 out3 s3 where run: "cmsg_proxy demo_proxy_env demo_conf demo_input demo_output demo_state = Some (out1, s1)"
    "pxs_counters s1 = [cntr_api_calls]" "cmsg_proxy refusing_env demo_conf demo_input demo_output demo_state = Some (out2, s2)"
    "cmsg_proxy demo_proxy_env demo_conf (demo_input\<lparr>in_url := ''/v2''\<rparr>) demo_output demo_state = Some (out3, s3)"
    using demo_runs by blast
  have json: "\<forall>code message. px_protobuf2json demo_proxy_env (ant_result_message code message) \<noteq> None"
    "\<forall>code message. px_protobuf2json refusing_env (ant_result_message code message) \<noteq> None"
    by (simp_all add: demo_proxy_env_def refusing_env_def)
  have "out_http_status out3 = 501"
    using proxy_status_exact [OF json(1) run(4)] demo_lookup(3) by (simp add: demo_request)
  moreover have "out_http_status out2 = 400"
    using proxy_status_exact [OF json(2) run(3)] demo_lookup(2)
    by (simp add: demo_request refusing_input_json) (simp add: refusing_env_def refusal_status_def)
  moreover have "out_http_status out1 = 200"
  proof -
    have "px_json2protobuf demo_proxy_env j md = Inr (Proto md [])" "px_invoke demo_proxy_env c si m = (0, Some (ant_result_message 0 ''done''))"
      for j md c si m by (simp_all add: demo_proxy_env_def)
    moreover have "answer_status demo_proxy_env (0, Some (ant_result_message 0 ''done'')) = 200"
      by (simp add: answer_status_def demo_done)
    ultimately show ?thesis
      using proxy_status_exact [OF json(1) run(1)] demo_lookup(1) run(2) by (simp add: demo_request demo_input_json demo_state_def)
  qed
  ultimately show ?thesis using run by blast
qed

end
