(* ===== verification/ProxyStreamProperties.thy ===== *)
theory ProxyStreamProperties
  imports ProxyProperties
begin

text \<open>
  The streams of the proxy under every interleaving of the web server's threads with the thread
  of the streaming server: an invariant over the reachable states, and the properties.
\<close>

section \<open>Threads\<close>

datatype stream_request =
    Req_send_stream_data stream_data
  | Req_send_stream_file_data stream_data
  | Req_set_stream_headers stream_headers_info
  | Req_close_stream_connection u32
  | Req_abort_stream_connection u32

fun request_id :: "stream_request \<Rightarrow> u32" where
  "request_id (Req_send_stream_data msg) = sd_id msg"
| "request_id (Req_send_stream_file_data msg) = sd_id msg"
| "request_id (Req_set_stream_headers msg) = sh_id msg"
| "request_id (Req_close_stream_connection ident) = ident"
| "request_id (Req_abort_stream_connection ident) = ident"

fun request_held ::
  "proxy_env \<Rightarrow> stream_callbacks \<Rightarrow> stream_request \<Rightarrow> cmsg_proxy_stream_connection
   \<Rightarrow> (stream_event list \<times> bool \<times> conn_exit) option" where
  "request_held env cb (Req_send_stream_data msg) c = send_stream_data_held env c msg"
| "request_held env cb (Req_send_stream_file_data msg) c = send_stream_file_data_held env cb c msg"
| "request_held env cb (Req_set_stream_headers msg) c = Some (set_stream_headers_held env c msg)"
| "request_held env cb (Req_close_stream_connection ident) c = Some (close_stream_connection_held c)"
| "request_held env cb (Req_abort_stream_connection ident) c = Some (abort_stream_connection_held c)"

text \<open>Where the streaming server's thread is; no lock is held in between.\<close>

datatype stream_pc = Waiting | Looked_up nat stream_request | Leaving nat conn_exit | Unlinked nat

fun held_addr :: "stream_pc \<Rightarrow> nat option" where
  "held_addr Waiting = None"
| "held_addr (Looked_up a req) = Some a"
| "held_addr (Leaving a leave) = Some a"
| "held_addr (Unlinked a) = Some a"

text \<open>
  One step of some thread. A request that fails after its API was called deletes its connection by
  the id (\<open>cmsg_proxy_output_process\<close>), whether or not the streaming thread is using it. With
  \<open>careful\<close> set the requests do not delete a connection while it is in use.
\<close>

inductive stream_step :: "bool \<Rightarrow> proxy_env \<Rightarrow> stream_callbacks \<Rightarrow> stream_pc \<times> stream_state \<Rightarrow> stream_pc \<times> stream_state \<Rightarrow> bool"
  for careful env cb where
  create: "cmsg_proxy_streaming_create_conn env ok connection obj imd omd s = (r, s') \<Longrightarrow> stream_step careful env cb (pc, s) (pc, s')"
| delete: "list_search (ss_conns s) (\<lambda>c. sc_id c = ident) (ss_list s) = Some r \<Longrightarrow>
    (careful \<longrightarrow> r = None \<or> r \<noteq> held_addr pc) \<Longrightarrow>
    cmsg_proxy_streaming_delete_conn_by_id ident s = Some s' \<Longrightarrow> stream_step careful env cb (pc, s) (pc, s')"
| timeout: "cmsg_proxy_streaming_conn_timeout cb connection s = Some s' \<Longrightarrow> stream_step careful env cb (pc, s) (pc, s')"
| missing: "cmsg_proxy_streaming_lookup_conn_by_id (request_id req) s = Some (None, s') \<Longrightarrow> stream_step careful env cb (Waiting, s) (Waiting, s')"
| found: "cmsg_proxy_streaming_lookup_conn_by_id (request_id req) s = Some (Some a, s') \<Longrightarrow> stream_step careful env cb (Waiting, s) (Looked_up a req, s')"
| work: "ss_conns s a = Some c \<Longrightarrow> request_held env cb req c = Some (events, headers, leave) \<Longrightarrow>
    conn_use cb a events headers s = Some s' \<Longrightarrow> stream_step careful env cb (Looked_up a req, s) (Leaving a leave, s')"
| release: "cmsg_proxy_streaming_release_conn_info cb a s = Some s' \<Longrightarrow> stream_step careful env cb (Leaving a Conn_release, s) (Waiting, s')"
| keep: "stream_step careful env cb (Leaving a Conn_keep, s) (Waiting, s)"
| unlink: "stream_step careful env cb (Leaving a Conn_unlink, s) (Unlinked a, conn_unlink a s)"
| finish: "conn_mark_and_release cb a s = Some s' \<Longrightarrow> stream_step careful env cb (Unlinked a, s) (Waiting, s')"

definition stream_start :: "stream_pc \<times> stream_state" where
  "stream_start = (Waiting, \<lparr>ss_conns = Map.empty, ss_list = [], ss_last_id_assigned = 0, ss_next_addr = 0, ss_events = []\<rparr>)"

definition stream_reachable :: "bool \<Rightarrow> proxy_env \<Rightarrow> stream_callbacks \<Rightarrow> stream_pc \<times> stream_state \<Rightarrow> bool" where
  "stream_reachable careful env cb = (stream_step careful env cb)\<^sup>*\<^sup>* stream_start"

section \<open>The invariant\<close>

definition conns_ok :: "stream_state \<Rightarrow> bool" where
  "conns_ok s \<longleftrightarrow> streams_fresh s \<and> distinct (ss_list s) \<and>
     (\<forall>a \<in> set (ss_list s). \<exists>c. ss_conns s a = Some c \<and> \<not> sc_to_delete c)"

fun pc_ok :: "stream_pc \<Rightarrow> stream_state \<Rightarrow> bool" where
  "pc_ok Waiting s = True"
| "pc_ok (Looked_up a req) s \<longleftrightarrow> (\<exists>c. ss_conns s a = Some c \<and> sc_in_use c)"
| "pc_ok (Leaving a leave) s \<longleftrightarrow> (\<exists>c. ss_conns s a = Some c \<and> sc_in_use c)"
| "pc_ok (Unlinked a) s \<longleftrightarrow> a \<notin> set (ss_list s) \<and> (\<exists>c. ss_conns s a = Some c \<and> sc_in_use c)"

definition stream_inv :: "stream_pc \<times> stream_state \<Rightarrow> bool" where
  "stream_inv st \<longleftrightarrow> conns_ok (snd st) \<and> pc_ok (fst st) (snd st)"

lemma conns_okD:
  assumes "conns_ok s"
  shows "a \<in> set (ss_list s) \<Longrightarrow> \<exists>c. ss_conns s a = Some c \<and> \<not> sc_to_delete c" "distinct (ss_list s)" "streams_fresh s"
    "ss_conns s a = Some c \<Longrightarrow> a < ss_next_addr s"
  using assms by (auto simp: conns_ok_def streams_fresh_def) (metis not_le option.distinct(1))

lemma list_search_result:
  "\<forall>a \<in> set as. conns a \<noteq> None \<Longrightarrow>
    list_search conns P as = Some (List.find (\<lambda>a. case conns a of None \<Rightarrow> False | Some c \<Rightarrow> P c) as)"
  by (induction as) auto

lemma list_search_found:
  "list_search conns P as = Some (Some a) \<Longrightarrow> a \<in> set as \<and> (\<exists>c. conns a = Some c \<and> P c)"
  by (induction as) (auto split: option.splits if_splits)

lemma conns_ok_search:
  assumes "conns_ok s"
  shows "\<exists>r. list_search (ss_conns s) P (ss_list s) = Some r"
  using list_search_result [of "ss_list s" "ss_conns s" P] conns_okD(1) [OF assms] by fastforce

text \<open>What the updates of one connection keep.\<close>

lemma conns_ok_update:
  assumes "conns_ok s" "conn_update a f s = Some s'" "\<And>c. sc_to_delete (f c) = sc_to_delete c"
  shows "conns_ok s'"
  using assms by (fastforce simp: conns_ok_def conn_update_def streams_fresh_def split: option.splits)

lemma conns_ok_free:
  assumes "conns_ok s"
  shows "conns_ok ((conn_free a s)\<lparr>ss_list := remove1 a (ss_list s)\<rparr>)"
  using assms by (auto simp: conns_ok_def conn_free_def streams_fresh_def)

lemma stream_log_simps [simp]:
  "ss_conns (stream_log b e s) = ss_conns s" "ss_list (stream_log b e s) = ss_list s" "ss_next_addr (stream_log b e s) = ss_next_addr s"
  by (simp_all add: stream_log_def)

lemma fold_log_simps [simp]:
  "ss_conns (fold (\<lambda>e. stream_log (event_callback cb e) e) es s) = ss_conns s"
  "ss_list (fold (\<lambda>e. stream_log (event_callback cb e) e) es s) = ss_list s"
  "ss_next_addr (fold (\<lambda>e. stream_log (event_callback cb e) e) es s) = ss_next_addr s"
  by (induction es arbitrary: s) simp_all

lemma pc_ok_keep:
  assumes "pc_ok pc s" "set (ss_list s') \<subseteq> set (ss_list s) \<union> {a. ss_conns s a = None}"
    and "\<And>a c. held_addr pc = Some a \<Longrightarrow> ss_conns s a = Some c \<Longrightarrow> sc_in_use c \<Longrightarrow> \<exists>c'. ss_conns s' a = Some c' \<and> sc_in_use c'"
  shows "pc_ok pc s'"
proof (cases pc)
  case (Unlinked a)
  then obtain c where "ss_conns s a = Some c" "sc_in_use c" "a \<notin> set (ss_list s)" using assms(1) by auto
  with assms(2,3) Unlinked show ?thesis by auto
qed (use assms in auto)

text \<open>The steps of the web server.\<close>

lemma create_inv:
  assumes "stream_inv (pc, s)" "cmsg_proxy_streaming_create_conn env ok connection obj imd omd s = (r, s')"
  shows "stream_inv (pc, s')"
proof (cases "s' = s")
  case False
  let ?a = "ss_next_addr s"
  obtain c where c: "ss_conns s' = (ss_conns s)(?a \<mapsto> c)" "ss_list s' = ?a # ss_list s" "ss_next_addr s' = ?a + 1" "\<not> sc_to_delete c"
    using assms(2) False
    by (auto simp: cmsg_proxy_streaming_create_conn_def cmsg_proxy_streaming_generate_id_def Let_def split: if_splits)
  have ok: "conns_ok s" "pc_ok pc s" using assms(1) by (simp_all add: stream_inv_def)
  have free: "ss_conns s ?a = None" using conns_okD(3) [OF ok(1)] by (simp add: streams_fresh_def)
  then have new: "?a \<notin> set (ss_list s)" using conns_okD(1) [OF ok(1)] by force
  have "conns_ok s'" using ok(1) new c by (auto simp: conns_ok_def streams_fresh_def)
  moreover have "pc_ok pc s'"
  proof (rule pc_ok_keep [OF ok(2)])
    show "set (ss_list s') \<subseteq> set (ss_list s) \<union> {a. ss_conns s a = None}" using c free by auto
    show "\<exists>c'. ss_conns s' a = Some c' \<and> sc_in_use c'" if "ss_conns s a = Some d" "sc_in_use d" for a d
      using that c free by auto
  qed
  ultimately show ?thesis by (simp add: stream_inv_def)
qed (use assms in simp)

lemma delete_inv:
  assumes "stream_inv (pc, s)" "list_search (ss_conns s) (\<lambda>c. sc_id c = ident) (ss_list s) = Some r" "r = None \<or> r \<noteq> held_addr pc"
    and "cmsg_proxy_streaming_delete_conn_by_id ident s = Some s'"
  shows "stream_inv (pc, s')"
proof (cases r)
  case (Some a)
  have ok: "conns_ok s" "pc_ok pc s" using assms(1) by (simp_all add: stream_inv_def)
  have s': "s' = (conn_free a s)\<lparr>ss_list := remove1 a (ss_list s)\<rparr>"
    using assms(2,4) Some by (simp add: cmsg_proxy_streaming_delete_conn_by_id_def)
  have "pc_ok pc s'"
  proof (rule pc_ok_keep [OF ok(2)])
    show "set (ss_list s') \<subseteq> set (ss_list s) \<union> {a. ss_conns s a = None}" using set_remove1_subset [of a "ss_list s"] by (auto simp: s')
    show "\<exists>c'. ss_conns s' b = Some c' \<and> sc_in_use c'" if "held_addr pc = Some b" "ss_conns s b = Some d" "sc_in_use d" for b d
      using that assms(3) Some by (auto simp: s' conn_free_def)
  qed
  with conns_ok_free [OF ok(1)] show ?thesis by (simp add: stream_inv_def s')
qed (use assms in \<open>simp add: cmsg_proxy_streaming_delete_conn_by_id_def\<close>)

lemma timeout_inv:
  assumes "stream_inv (pc, s)" "cmsg_proxy_streaming_conn_timeout cb connection s = Some s'"
  shows "stream_inv (pc, s')"
proof -
  have ok: "conns_ok s" "pc_ok pc s" using assms(1) by (simp_all add: stream_inv_def)
  obtain r where r: "list_search (ss_conns s) (\<lambda>c. sc_connection c = connection) (ss_list s) = Some r"
    using conns_ok_search [OF ok(1)] by blast
  show ?thesis
  proof (cases r)
    case None
    with r assms show ?thesis by (simp add: cmsg_proxy_streaming_conn_timeout_def)
  next
    case (Some a)
    then obtain c where c: "a \<in> set (ss_list s)" "ss_conns s a = Some c" using list_search_found r by blast
    have "conns_ok s' \<and> set (ss_list s') = set (ss_list s) - {a} \<and>
      (\<forall>b d. ss_conns s b = Some d \<and> sc_in_use d \<longrightarrow> (\<exists>c'. ss_conns s' b = Some c' \<and> sc_in_use c'))"
    proof (cases "sc_in_use c")
      case True
      then have s': "s' = s\<lparr>ss_conns := (ss_conns s)(a \<mapsto> c\<lparr>sc_to_delete := True\<rparr>), ss_list := remove1 a (ss_list s)\<rparr>"
        using assms(2) r Some c by (simp add: cmsg_proxy_streaming_conn_timeout_def cmsg_proxy_streaming_delete_conn_info_def conn_update_def)
      have "conns_ok s'" using ok(1) conns_okD(4) [OF ok(1) c(2)] unfolding s' by (auto simp: conns_ok_def streams_fresh_def)
      with c conns_okD(2) [OF ok(1)] True show ?thesis by (auto simp: s')
    next
      case False
      then have s': "s' = (conn_free a (stream_log (cb_conn_release cb) (Stream_conn_release (sc_connection c)) s))
          \<lparr>ss_list := remove1 a (ss_list s)\<rparr>"
        using assms(2) r Some c
        by (auto simp: cmsg_proxy_streaming_conn_timeout_def cmsg_proxy_streaming_delete_conn_info_def conn_free_def)
      have "conns_ok s'" using ok(1) unfolding s' by (auto simp: conns_ok_def conn_free_def streams_fresh_def)
      with c conns_okD(2) [OF ok(1)] False show ?thesis by (auto simp: s' conn_free_def)
    qed
    with pc_ok_keep [OF ok(2), of s'] show ?thesis by (auto simp: stream_inv_def)
  qed
qed

text \<open>The steps of the streaming thread.\<close>

lemma lookup_inv:
  assumes "stream_inv (Waiting, s)" "cmsg_proxy_streaming_lookup_conn_by_id ident s = Some (r, s')"
  shows "case r of None \<Rightarrow> s' = s | Some a \<Rightarrow> conns_ok s' \<and> (\<exists>c. ss_conns s' a = Some c \<and> sc_in_use c)"
proof -
  have ok: "conns_ok s" using assms(1) by (simp add: stream_inv_def)
  obtain r' where r': "list_search (ss_conns s) (\<lambda>c. sc_id c = ident) (ss_list s) = Some r'" using conns_ok_search [OF ok] by blast
  show ?thesis
  proof (cases r')
    case None
    with r' assms(2) show ?thesis by (auto simp: cmsg_proxy_streaming_lookup_conn_by_id_def)
  next
    case (Some a)
    with r' assms(2) have u: "r = Some a" "conn_update a (\<lambda>c. c\<lparr>sc_in_use := True\<rparr>) s = Some s'"
      by (auto simp: cmsg_proxy_streaming_lookup_conn_by_id_def)
    have "conns_ok s'" by (rule conns_ok_update [OF ok u(2)]) simp
    with u show ?thesis by (auto simp: conn_update_def)
  qed
qed

lemma work_inv:
  assumes "stream_inv (Looked_up a req, s)" "conn_use cb a events headers s = Some s'"
  shows "stream_inv (Leaving a leave, s')"
proof -
  let ?s = "fold (\<lambda>e. stream_log (event_callback cb e) e) events s"
  have "conns_ok ?s" using assms(1) by (simp add: stream_inv_def conns_ok_def streams_fresh_def)
  moreover have u: "conn_update a (\<lambda>c. if headers then c\<lparr>sc_headers_set := True\<rparr> else c) ?s = Some s'"
    using assms(2) by (simp add: conn_use_def)
  ultimately have "conns_ok s'" by (rule conns_ok_update) simp
  with u assms(1) show ?thesis by (auto simp: stream_inv_def conn_update_def)
qed

lemma release_frees_or_clears:
  assumes "conns_ok s" "ss_conns s a = Some c"
  shows "\<exists>s'. cmsg_proxy_streaming_release_conn_info cb a s = Some s' \<and> conns_ok s'"
proof (cases "sc_to_delete c")
  case True
  then have "a \<notin> set (ss_list s)" using conns_okD(1) [OF assms(1)] assms(2) by force
  then have "conns_ok (conn_free a (stream_log (cb_conn_release cb) (Stream_conn_release (sc_connection c)) s))"
    using assms(1) by (auto simp: conns_ok_def conn_free_def streams_fresh_def)
  with True assms(2) show ?thesis by (simp add: cmsg_proxy_streaming_release_conn_info_def)
next
  case False
  let ?s = "s\<lparr>ss_conns := (ss_conns s)(a \<mapsto> c\<lparr>sc_in_use := False\<rparr>)\<rparr>"
  have u: "conn_update a (\<lambda>c. c\<lparr>sc_in_use := False\<rparr>) s = Some ?s" using assms(2) by (simp add: conn_update_def)
  have "conns_ok ?s" by (rule conns_ok_update [OF assms(1) u]) simp
  with False u assms(2) show ?thesis by (simp add: cmsg_proxy_streaming_release_conn_info_def)
qed

lemma mark_and_release_frees:
  assumes "conns_ok s" "ss_conns s a = Some c" "a \<notin> set (ss_list s)"
  shows "\<exists>s'. conn_mark_and_release cb a s = Some s' \<and> conns_ok s' \<and> ss_conns s' a = None"
proof -
  have "conns_ok (conn_free a (stream_log (cb_conn_release cb) (Stream_conn_release (sc_connection c))
      (s\<lparr>ss_conns := (ss_conns s)(a \<mapsto> c\<lparr>sc_to_delete := True, sc_in_use := False\<rparr>)\<rparr>)))"
    using assms(1,3) by (auto simp: conns_ok_def conn_free_def streams_fresh_def)
  with assms(2) show ?thesis
    by (simp add: conn_mark_and_release_def conn_update_def cmsg_proxy_streaming_release_conn_info_def) (simp add: conn_free_def)
qed

lemma stream_inv_step:
  assumes "stream_step True env cb st st'" "stream_inv st"
  shows "stream_inv st'"
  using assms
proof (cases rule: stream_step.cases)
  case create
  with assms(2) create_inv show ?thesis by blast
next
  case delete
  with assms(2) delete_inv show ?thesis by blast
next
  case timeout
  with assms(2) timeout_inv show ?thesis by blast
next
  case (missing req s s')
  with lookup_inv [of s "request_id req" None s'] assms(2) show ?thesis by simp
next
  case (found req s a s')
  with lookup_inv [of s "request_id req" "Some a" s'] assms(2) show ?thesis by (simp add: stream_inv_def)
next
  case work
  with assms(2) work_inv show ?thesis by blast
next
  case (release a s s')
  then obtain c where "conns_ok s" "ss_conns s a = Some c" using assms(2) by (auto simp: stream_inv_def)
  with release_frees_or_clears [of s a c cb] release show ?thesis by (auto simp: stream_inv_def)
next
  case keep
  with assms(2) show ?thesis by (simp add: stream_inv_def)
next
  case (unlink a s)
  then show ?thesis using assms(2) by (auto simp: stream_inv_def conn_unlink_def conns_ok_def streams_fresh_def dest: in_set_remove1 [THEN iffD1, rotated])
next
  case (finish a s s')
  then obtain c where "conns_ok s" "ss_conns s a = Some c" "a \<notin> set (ss_list s)" using assms(2) by (auto simp: stream_inv_def)
  with mark_and_release_frees [of s a c cb] finish show ?thesis by (auto simp: stream_inv_def)
qed

lemma stream_inv_reachable: "stream_reachable True env cb st \<Longrightarrow> stream_inv st"
  unfolding stream_reachable_def
proof (induction rule: rtranclp_induct)
  case base
  show ?case by (simp add: stream_start_def stream_inv_def conns_ok_def streams_fresh_def)
next
  case step
  then show ?case by (blast intro: stream_inv_step)
qed

section \<open>The properties\<close>

text \<open>
  C16: No thread touches a freed connection, as long as no failing request deletes by its id a
  connection that the streaming thread is using at that moment. However the web server's threads
  (new streams, deletions, timeouts) and the streaming thread interleave otherwise, in every
  reachable state going through the list reads live connections only, so that lookups, deletions
  and timeouts are defined; the connection that the streaming thread holds is live until it releases
  it, also if it timed out in between; and closing or aborting frees it. The code does not check for
  such a deletion, and with one the streaming thread uses freed memory.
\<close>

theorem stream_connections_alive:
  assumes "stream_reachable True env cb (pc, s)"
  shows "(\<forall>ident. cmsg_proxy_streaming_lookup_conn_by_id ident s \<noteq> None \<and> cmsg_proxy_streaming_delete_conn_by_id ident s \<noteq> None) \<and>
    (\<forall>connection. cmsg_proxy_streaming_conn_timeout cb connection s \<noteq> None) \<and>
    (\<forall>a. held_addr pc = Some a \<longrightarrow> ss_conns s a \<noteq> None \<and> cmsg_proxy_streaming_release_conn_info cb a s \<noteq> None) \<and>
    (\<forall>a. pc = Unlinked a \<longrightarrow> (\<exists>s'. conn_mark_and_release cb a s = Some s' \<and> ss_conns s' a = None))"
proof -
  have inv: "conns_ok s" "pc_ok pc s" using stream_inv_reachable [OF assms] by (simp_all add: stream_inv_def)
  have "cmsg_proxy_streaming_lookup_conn_by_id ident s \<noteq> None \<and> cmsg_proxy_streaming_delete_conn_by_id ident s \<noteq> None" for ident
  proof -
    obtain r where r: "list_search (ss_conns s) (\<lambda>c. sc_id c = ident) (ss_list s) = Some r" using conns_ok_search [OF inv(1)] by blast
    then have "case r of None \<Rightarrow> True | Some a \<Rightarrow> ss_conns s a \<noteq> None"
      by (cases r) (auto dest: list_search_found)
    with r show ?thesis
      by (cases r) (auto simp: cmsg_proxy_streaming_lookup_conn_by_id_def cmsg_proxy_streaming_delete_conn_by_id_def conn_update_def)
  qed
  moreover have "cmsg_proxy_streaming_conn_timeout cb connection s \<noteq> None" for connection
  proof -
    obtain r where r: "list_search (ss_conns s) (\<lambda>c. sc_connection c = connection) (ss_list s) = Some r" using conns_ok_search [OF inv(1)] by blast
    then have "case r of None \<Rightarrow> True | Some a \<Rightarrow> ss_conns s a \<noteq> None"
      by (cases r) (auto dest: list_search_found)
    with r show ?thesis
      by (cases r) (auto simp: cmsg_proxy_streaming_conn_timeout_def cmsg_proxy_streaming_delete_conn_info_def conn_update_def)
  qed
  moreover have "ss_conns s a \<noteq> None" if "held_addr pc = Some a" for a using inv(2) that by (cases pc) auto
  moreover have "\<exists>s'. conn_mark_and_release cb a s = Some s' \<and> ss_conns s' a = None" if pc: "pc = Unlinked a" for a
  proof -
    obtain c where "ss_conns s a = Some c" "a \<notin> set (ss_list s)" using inv(2) pc by auto
    from mark_and_release_frees [OF inv(1) this, of cb] show ?thesis by blast
  qed
  moreover have "cmsg_proxy_streaming_release_conn_info cb a s \<noteq> None" if "ss_conns s a \<noteq> None" for a
    using release_frees_or_clears [OF inv(1)] that by force
  ultimately show ?thesis by blast
qed

text \<open>A connection that is in no list and that no thread holds stays as it is.\<close>

lemma lost_stays_lost:
  assumes "stream_step True env cb (pc, s) (pc', s')" "stream_inv (pc, s)"
    and "ss_conns s a = Some c" "a \<notin> set (ss_list s)" "held_addr pc \<noteq> Some a"
  shows "ss_conns s' a = Some c \<and> a \<notin> set (ss_list s') \<and> held_addr pc' \<noteq> Some a"
proof -
  have next_addr: "a < ss_next_addr s" using assms(2,3) conns_okD(4) by (auto simp: stream_inv_def)
  have listed: "b \<noteq> a" if "list_search (ss_conns s) P (ss_list s) = Some (Some b)" for P b
    using list_search_found [OF that] assms(4) by blast
  from assms(1) show ?thesis
  proof (cases rule: stream_step.cases)
    case create
    then show ?thesis using assms(3-5) next_addr
      by (auto simp: cmsg_proxy_streaming_create_conn_def cmsg_proxy_streaming_generate_id_def Let_def split: if_splits)
  next
    case (delete ident r)
    then show ?thesis using assms(3-5)
      by (cases r) (auto simp: cmsg_proxy_streaming_delete_conn_by_id_def conn_free_def dest: listed notin_set_remove1)
  next
    case (timeout connection)
    then obtain r where r: "list_search (ss_conns s) (\<lambda>c. sc_connection c = connection) (ss_list s) = Some r"
      by (auto simp: cmsg_proxy_streaming_conn_timeout_def bind_eq_Some_conv)
    show ?thesis
    proof (cases r)
      case None
      with r timeout assms(3-5) show ?thesis by (simp add: cmsg_proxy_streaming_conn_timeout_def)
    next
      case (Some b)
      with r listed have "b \<noteq> a" by blast
      with r Some timeout assms(3-5) show ?thesis
        by (auto simp: cmsg_proxy_streaming_conn_timeout_def cmsg_proxy_streaming_delete_conn_info_def conn_update_def conn_free_def
            bind_eq_Some_conv split: if_splits dest: notin_set_remove1)
    qed
  next
    case missing
    then show ?thesis using assms(3-5)
      by (auto simp: cmsg_proxy_streaming_lookup_conn_by_id_def bind_eq_Some_conv split: option.splits)
  next
    case (found req b)
    then have "list_search (ss_conns s) (\<lambda>c. sc_id c = request_id req) (ss_list s) = Some (Some b)"
      "conn_update b (\<lambda>c. c\<lparr>sc_in_use := True\<rparr>) s = Some s'"
      by (auto simp: cmsg_proxy_streaming_lookup_conn_by_id_def bind_eq_Some_conv split: option.splits)
    moreover from listed [OF this(1)] have "b \<noteq> a" .
    ultimately show ?thesis using found assms(3-5) by (auto simp: conn_update_def)
  next
    case work
    then show ?thesis using assms(3-5) by (auto simp: conn_use_def conn_update_def)
  next
    case release
    then show ?thesis using assms(3-5)
      by (auto simp: cmsg_proxy_streaming_release_conn_info_def conn_update_def conn_free_def bind_eq_Some_conv split: if_splits)
  next
    case keep
    then show ?thesis using assms(3-5) by simp
  next
    case unlink
    then show ?thesis using assms(3-5) by (auto simp: conn_unlink_def dest: notin_set_remove1)
  next
    case finish
    then show ?thesis using assms(3-5)
      by (auto simp: conn_mark_and_release_def cmsg_proxy_streaming_release_conn_info_def conn_update_def conn_free_def bind_eq_Some_conv split: if_splits)
  qed
qed

lemma lost_for_ever:
  assumes "(stream_step True env cb)\<^sup>*\<^sup>* (pc, s) (pc', s')" "stream_inv (pc, s)"
    and "ss_conns s a = Some c" "a \<notin> set (ss_list s)" "held_addr pc \<noteq> Some a"
  shows "ss_conns s' a = Some c"
proof -
  have "stream_inv st \<and> ss_conns (snd st) a = Some c \<and> a \<notin> set (ss_list (snd st)) \<and> held_addr (fst st) \<noteq> Some a"
    if "(stream_step True env cb)\<^sup>*\<^sup>* (pc, s) st" for st
    using that
  proof (induction rule: rtranclp_induct)
    case base
    show ?case using assms by simp
  next
    case (step st st')
    then show ?case using lost_stays_lost [of env cb "fst st" "snd st" "fst st'" "snd st'" a c] stream_inv_step [OF step.hyps(2)] by simp
  qed
  from this [OF assms(1)] show ?thesis by simp
qed

text \<open>
  Data that cannot be unpacked loses its connection. The handler of such data returns without
  releasing the connection that it looked up, so that it stays marked as in use. When the HTTP
  connection then times out, it is taken from the list but not freed, and whatever the threads do
  from then on, it is never freed and never released to the web server.
\<close>

lemma undecodable_data_loses_connection:
  assumes "stream_reachable True env cb (Waiting, s)" "list_search (ss_conns s) (\<lambda>c. sc_id c = sd_id msg) (ss_list s) = Some (Some a)"
    and "ss_conns s a = Some c" "\<not> cmsg_proxy_msg_has_file (px_tree env) (sc_output_msg_descriptor c)" "sc_headers_set c"
    and "px_unpack env (sc_output_msg_descriptor c) (sd_message_data msg) = None"
    and "list_search (ss_conns s) (\<lambda>d. sc_connection d = sc_connection c) (ss_list s) = Some (Some a)"
  shows "\<exists>s1 s2 d. http_streaming_impl_send_stream_data env cb msg s = Some (True, s1) \<and>
    cmsg_proxy_streaming_conn_timeout cb (sc_connection c) s1 = Some s2 \<and> ss_events s2 = ss_events s \<and>
    (\<forall>pc' s'. (stream_step True env cb)\<^sup>*\<^sup>* (Waiting, s2) (pc', s') \<longrightarrow> ss_conns s' a = Some d)"
proof -
  let ?c1 = "c\<lparr>sc_in_use := True\<rparr>" and ?c2 = "c\<lparr>sc_in_use := True, sc_to_delete := True\<rparr>"
  let ?s1 = "s\<lparr>ss_conns := (ss_conns s)(a \<mapsto> ?c1)\<rparr>"
  let ?s2 = "s\<lparr>ss_conns := (ss_conns s)(a \<mapsto> ?c2), ss_list := remove1 a (ss_list s)\<rparr>"
  have inv: "stream_inv (Waiting, s)" by (rule stream_inv_reachable [OF assms(1)])
  have ok: "conns_ok s" using inv by (simp add: stream_inv_def)
  have send: "http_streaming_impl_send_stream_data env cb msg s = Some (True, ?s1)"
    using assms(2-6) by (simp add: http_streaming_impl_send_stream_data_def stream_handler_def
        cmsg_proxy_streaming_lookup_conn_by_id_def conn_update_def send_stream_data_held_def conn_use_def)
  have "\<forall>as. list_search ((ss_conns s)(a \<mapsto> ?c1)) (\<lambda>d. sc_connection d = sc_connection c) as =
      list_search (ss_conns s) (\<lambda>d. sc_connection d = sc_connection c) as"
  proof
    show "list_search ((ss_conns s)(a \<mapsto> ?c1)) (\<lambda>d. sc_connection d = sc_connection c) as =
      list_search (ss_conns s) (\<lambda>d. sc_connection d = sc_connection c) as" for as
      by (induction as) (use assms(3) in \<open>auto split: option.split\<close>)
  qed
  then have timeout: "cmsg_proxy_streaming_conn_timeout cb (sc_connection c) ?s1 = Some ?s2"
    using assms(7) by (simp add: cmsg_proxy_streaming_conn_timeout_def cmsg_proxy_streaming_delete_conn_info_def conn_update_def)
  have "conns_ok ?s1" by (rule conns_ok_update [OF ok, of a "\<lambda>c. c\<lparr>sc_in_use := True\<rparr>"]) (simp_all add: conn_update_def assms(3))
  then have inv2: "stream_inv (Waiting, ?s2)" using timeout_inv [OF _ timeout, of Waiting] by (simp add: stream_inv_def)
  have "a \<notin> set (ss_list ?s2)" using conns_okD(2) [OF ok] by simp
  then have "\<forall>pc' s'. (stream_step True env cb)\<^sup>*\<^sup>* (Waiting, ?s2) (pc', s') \<longrightarrow> ss_conns s' a = Some ?c2"
    using lost_for_ever [OF _ inv2, of env cb _ _ a ?c2] by simp
  with send timeout show ?thesis by fastforce
qed

text \<open>A handler that is not interrupted is a run of the streaming thread.\<close>

lemma handler_run:
  assumes "stream_handler cb (request_id req) (request_held env cb req) s = Some (r, s')"
  shows "(stream_step True env cb)\<^sup>*\<^sup>* (Waiting, s) (Waiting, s')"
proof -
  obtain found s1 where look: "cmsg_proxy_streaming_lookup_conn_by_id (request_id req) s = Some (found, s1)"
    using assms by (auto simp: stream_handler_def bind_eq_Some_conv)
  show ?thesis
  proof (cases found)
    case None
    with assms look have "s' = s1" by (simp add: stream_handler_def)
    with look None show ?thesis by (auto intro: r_into_rtranclp stream_step.missing)
  next
    case (Some a)
    with assms look obtain c events headers leave s2 where use: "ss_conns s1 a = Some c" "request_held env cb req c = Some (events, headers, leave)"
      "conn_use cb a events headers s1 = Some s2" "conn_leave cb leave a s2 = Some s'"
      by (auto simp: stream_handler_def bind_eq_Some_conv)
    have "(stream_step True env cb)\<^sup>*\<^sup>* (Leaving a leave, s2) (Waiting, s')"
    proof (cases leave)
      case Conn_unlink
      with use(4) have "stream_step True env cb (Unlinked a, conn_unlink a s2) (Waiting, s')" by (auto intro: stream_step.finish)
      with Conn_unlink show ?thesis by (meson converse_rtranclp_into_rtranclp r_into_rtranclp stream_step.unlink)
    qed (use use(4) in \<open>auto intro: r_into_rtranclp stream_step.release stream_step.keep\<close>)
    moreover have "stream_step True env cb (Waiting, s) (Looked_up a req, s1)" using look Some by (auto intro: stream_step.found)
    moreover have "stream_step True env cb (Looked_up a req, s1) (Leaving a leave, s2)" using use(1-3) by (rule stream_step.work)
    ultimately show ?thesis by (meson converse_rtranclp_into_rtranclp)
  qed
qed

definition demo_stream_env :: proxy_env where
  "demo_stream_env = demo_proxy_env\<lparr>px_unpack := (\<lambda>_ _. None)\<rparr>"

definition demo_stream_input :: message_descriptor where
  "demo_stream_input = \<lparr>md_name = ''request'', md_fields =
     [\<lparr>fd_name = ''_streaming_id'', fd_type = PROTOBUF_C_TYPE_UINT32, fd_repeated = False\<rparr>]\<rparr>"

definition demo_callbacks :: stream_callbacks where
  "demo_callbacks = \<lparr>cb_response_send = True, cb_response_close = True, cb_conn_release = True, cb_headers_set = True,
     cb_conn_abort = True, cb_conn_busy = None\<rparr>"

text \<open>A connection with its headers set, as the threads reach it.\<close>

definition demo_conn :: cmsg_proxy_stream_connection where
  "demo_conn = \<lparr>sc_id = 0, sc_connection = 5, sc_output_msg_descriptor = ant_result_descriptor, sc_in_use = False,
     sc_to_delete = False, sc_headers_set = True\<rparr>"

definition demo_streams :: stream_state where
  "demo_streams = \<lparr>ss_conns = [0 \<mapsto> demo_conn], ss_list = [0], ss_last_id_assigned = 1, ss_next_addr = 1,
     ss_events = [Stream_headers_set 5 [(''Content-Type'', ''application/json'')]]\<rparr>"

lemma demo_streams_reachable: "stream_reachable True demo_stream_env demo_callbacks (Waiting, demo_streams)"
proof -
  let ?c = "demo_conn\<lparr>sc_headers_set := False\<rparr>"
  let ?s = "\<lparr>ss_conns = [0 \<mapsto> ?c], ss_list = [0], ss_last_id_assigned = 1, ss_next_addr = 1, ss_events = []\<rparr>"
  let ?msg = "\<lparr>sh_id = 0, sh_type = CONTENT_TYPE_JSON, sh_file_info = None\<rparr>"
  obtain r where "cmsg_proxy_streaming_create_conn demo_stream_env True 5 [] demo_stream_input ant_result_descriptor (snd stream_start) = (r, ?s)"
    by (auto simp: cmsg_proxy_streaming_create_conn_def cmsg_proxy_streaming_is_required_def cmsg_proxy_streaming_generate_id_def
        demo_stream_env_def demo_proxy_env_def demo_tree_env_def demo_stream_input_def stream_start_def demo_conn_def)
  then have "stream_step True demo_stream_env demo_callbacks (Waiting, snd stream_start) (Waiting, ?s)" by (rule stream_step.create)
  moreover have "stream_handler demo_callbacks (request_id (Req_set_stream_headers ?msg))
      (request_held demo_stream_env demo_callbacks (Req_set_stream_headers ?msg)) ?s = Some (True, demo_streams)"
    by (simp add: stream_handler_def cmsg_proxy_streaming_lookup_conn_by_id_def conn_update_def conn_use_def
        set_stream_headers_held_def stream_headers_def stream_log_def demo_callbacks_def demo_conn_def
        cmsg_proxy_streaming_release_conn_info_def demo_streams_def)
  note handler_run [OF this]
  ultimately show ?thesis
    unfolding stream_reachable_def by (metis converse_rtranclp_into_rtranclp stream_start_def snd_conv)
qed

text \<open>
  The deletion that the code does not guard against: the streaming thread has looked the connection
  up for a request, the API's answer fails, the web server's thread deletes the connection by its
  id, and the streaming thread goes on with freed memory.
\<close>

lemma careful_steps: "stream_step True env cb st st' \<Longrightarrow> stream_step False env cb st st'"
  by (erule stream_step.cases) (auto intro: stream_step.intros)

lemma careful_reachable: "stream_reachable True env cb st \<Longrightarrow> stream_reachable False env cb st"
  unfolding stream_reachable_def
proof (induction rule: rtranclp_induct)
  case (step st st')
  then show ?case using careful_steps [OF step.hyps(2)] by (meson rtranclp.rtrancl_into_rtrancl)
qed simp

lemma delete_in_use_undefined:
  "\<exists>a s. stream_reachable False demo_stream_env demo_callbacks (Looked_up a (Req_close_stream_connection 0), s) \<and>
    conn_use demo_callbacks a events headers s = None \<and> cmsg_proxy_streaming_release_conn_info demo_callbacks a s = None"
proof -
  let ?s1 = "demo_streams\<lparr>ss_conns := [0 \<mapsto> demo_conn\<lparr>sc_in_use := True\<rparr>]\<rparr>"
  let ?s2 = "?s1\<lparr>ss_conns := Map.empty, ss_list := []\<rparr>"
  let ?pc = "Looked_up 0 (Req_close_stream_connection 0)"
  have "stream_step False demo_stream_env demo_callbacks (Waiting, demo_streams) (?pc, ?s1)"
    by (rule stream_step.found) (simp add: cmsg_proxy_streaming_lookup_conn_by_id_def conn_update_def demo_streams_def demo_conn_def)
  moreover have "stream_step False demo_stream_env demo_callbacks (?pc, ?s1) (?pc, ?s2)"
    by (rule stream_step.delete [where ident = 0 and r = "Some 0"])
      (simp_all add: cmsg_proxy_streaming_delete_conn_by_id_def conn_free_def demo_streams_def demo_conn_def)
  ultimately have "stream_reachable False demo_stream_env demo_callbacks (?pc, ?s2)"
    using careful_reachable [OF demo_streams_reachable] unfolding stream_reachable_def by (meson rtranclp.rtrancl_into_rtrancl)
  moreover have "conn_use demo_callbacks 0 events headers ?s2 = None"
  proof -
    have "ss_conns (fold (\<lambda>e. stream_log (event_callback demo_callbacks e) e) events ?s2) = Map.empty" by simp
    then show ?thesis by (simp add: conn_use_def conn_update_def)
  qed
  moreover have "cmsg_proxy_streaming_release_conn_info demo_callbacks 0 ?s2 = None"
    by (simp add: cmsg_proxy_streaming_release_conn_info_def)
  ultimately show ?thesis by blast
qed

theorem stream_connections_alive_witness:
  "cmsg_proxy_streaming_conn_timeout demo_callbacks 5 demo_streams \<noteq> None \<and>
    cmsg_proxy_streaming_lookup_conn_by_id 0 demo_streams \<noteq> None"
  using stream_connections_alive [OF demo_streams_reachable] by blast

text \<open>
  C20: A streamed JSON response reaches the web server in order. For a request that is to be
  streamed, setting the headers, sending data that decodes to a message with a body, and closing
  give the web server exactly the headers, the body with a newline, the end, and the release of
  the request's connection; afterwards the connections are as they were before the request.
\<close>

theorem stream_lifecycle:
  assumes "conns_ok s" "\<forall>e. event_callback cb e" "cmsg_proxy_streaming_create_conn env True connection obj imd omd s = ((True, ident, obj'), s1)"
    and "\<not> cmsg_proxy_msg_has_file (px_tree env) omd" "px_unpack env omd packed = Some m"
    and "cmsg_proxy_streaming_strip_ant_result env m = Some (Some m')"
    and "cmsg_proxy_generate_response_body env m' uninitialised_output = (True, out1)" "out_response_body out1 = Some body"
  shows "\<exists>s2 s3 s4. http_streaming_impl_set_stream_headers env cb \<lparr>sh_id = ident, sh_type = CONTENT_TYPE_JSON, sh_file_info = None\<rparr> s1 = Some (True, s2) \<and>
    http_streaming_impl_send_stream_data env cb \<lparr>sd_id = ident, sd_message_data = packed\<rparr> s2 = Some (True, s3) \<and>
    http_streaming_impl_close_stream_connection cb ident s3 = Some (True, s4) \<and> same_streams s s4 \<and>
    ss_events s4 = ss_events s @ [Stream_headers_set connection [(''Content-Type'', ''application/json'')],
      Stream_response_send connection (body @ [CHR 0x0A]), Stream_response_close connection, Stream_conn_release connection]"
proof -
  let ?a = "ss_next_addr s"
  define c where "c = \<lparr>sc_id = ident, sc_connection = connection, sc_output_msg_descriptor = omd, sc_in_use = False,
    sc_to_delete = False, sc_headers_set = False\<rparr>"
  have s1: "s1 = s\<lparr>ss_last_id_assigned := ss_last_id_assigned s + 1, ss_conns := (ss_conns s)(?a \<mapsto> c),
      ss_list := ?a # ss_list s, ss_next_addr := ?a + 1\<rparr>"
    using assms(3) by (auto simp: cmsg_proxy_streaming_create_conn_def cmsg_proxy_streaming_generate_id_def c_def Let_def split: if_splits)
  define s2 where "s2 = s1\<lparr>ss_conns := (ss_conns s)(?a \<mapsto> c\<lparr>sc_headers_set := True\<rparr>),
    ss_events := ss_events s @ [Stream_headers_set connection [(''Content-Type'', ''application/json'')]]\<rparr>"
  define s3 where "s3 = s2\<lparr>ss_events := ss_events s2 @ [Stream_response_send connection (body @ [CHR 0x0A])]\<rparr>"
  have callbacks: "cb_conn_release cb"
    using assms(2) event_callback.simps(3) [of cb 0] by metis
  have step2: "http_streaming_impl_set_stream_headers env cb \<lparr>sh_id = ident, sh_type = CONTENT_TYPE_JSON, sh_file_info = None\<rparr> s1 = Some (True, s2)"
    using assms(2) by (simp add: http_streaming_impl_set_stream_headers_def stream_handler_def cmsg_proxy_streaming_lookup_conn_by_id_def
        conn_update_def conn_use_def set_stream_headers_held_def stream_headers_def stream_log_def
        cmsg_proxy_streaming_release_conn_info_def s1 s2_def c_def)
  have step3: "http_streaming_impl_send_stream_data env cb \<lparr>sd_id = ident, sd_message_data = packed\<rparr> s2 = Some (True, s3)"
    using assms(2,4-8) by (simp add: http_streaming_impl_send_stream_data_def stream_handler_def cmsg_proxy_streaming_lookup_conn_by_id_def
        conn_update_def conn_use_def send_stream_data_held_def stream_log_def
        cmsg_proxy_streaming_release_conn_info_def s1 s2_def s3_def c_def)
  have "(ss_conns s)(?a := None) = ss_conns s" using conns_okD(3) [OF assms(1)] by (auto simp: streams_fresh_def)
  then have "\<exists>s4. http_streaming_impl_close_stream_connection cb ident s3 = Some (True, s4) \<and> same_streams s s4 \<and>
      ss_events s4 = ss_events s3 @ [Stream_response_close connection, Stream_conn_release connection]"
    using assms(2) callbacks by (simp add: http_streaming_impl_close_stream_connection_def stream_handler_def
        cmsg_proxy_streaming_lookup_conn_by_id_def conn_update_def conn_use_def close_stream_connection_held_def stream_log_def
        conn_unlink_def conn_mark_and_release_def cmsg_proxy_streaming_release_conn_info_def s1 s2_def s3_def c_def same_streams_def)
      (simp add: conn_free_def)
  with step2 step3 show ?thesis by (fastforce simp: s3_def s2_def)
qed

definition demo_answer :: message_descriptor where
  "demo_answer = \<lparr>md_name = ''answer'', md_fields = [\<lparr>fd_name = ''_body'', fd_type = PROTOBUF_C_TYPE_STRING, fd_repeated = False\<rparr>]\<rparr>"

definition demo_answer_env :: proxy_env where
  "demo_answer_env = demo_proxy_env\<lparr>px_unpack := (\<lambda>md _. Some (Proto md [(''_body'', P_string (Some ''ok''))]))\<rparr>"

theorem stream_lifecycle_witness:
  "\<exists>s1 s2 s3 s4. http_streaming_impl_set_stream_headers demo_answer_env demo_callbacks \<lparr>sh_id = 0, sh_type = CONTENT_TYPE_JSON, sh_file_info = None\<rparr> s1 = Some (True, s2) \<and>
    http_streaming_impl_send_stream_data demo_answer_env demo_callbacks \<lparr>sd_id = 0, sd_message_data = []\<rparr> s2 = Some (True, s3) \<and>
    http_streaming_impl_close_stream_connection demo_callbacks 0 s3 = Some (True, s4) \<and> same_streams (snd stream_start) s4"
proof -
  let ?m = "Proto demo_answer [(''_body'', P_string (Some ''ok''))]"
  have create: "\<exists>obj' s1. cmsg_proxy_streaming_create_conn demo_answer_env True 5 [] demo_stream_input demo_answer (snd stream_start) =
      ((True, 0, obj'), s1)"
    by (simp add: cmsg_proxy_streaming_create_conn_def cmsg_proxy_streaming_is_required_def cmsg_proxy_streaming_generate_id_def
        demo_answer_env_def demo_proxy_env_def demo_tree_env_def demo_stream_input_def stream_start_def)
  have start: "conns_ok (snd stream_start)" by (simp add: conns_ok_def streams_fresh_def stream_start_def)
  have cb: "\<forall>e. event_callback demo_callbacks e"
  proof
    show "event_callback demo_callbacks e" for e by (cases e) (simp_all add: demo_callbacks_def)
  qed
  have msg: "\<not> cmsg_proxy_msg_has_file (px_tree demo_answer_env) demo_answer" "px_unpack demo_answer_env demo_answer [] = Some ?m"
    "cmsg_proxy_streaming_strip_ant_result demo_answer_env ?m = Some (Some ?m)"
    by (simp_all add: cmsg_proxy_msg_has_file_def demo_answer_env_def demo_proxy_env_def demo_tree_env_def demo_answer_def
        cmsg_proxy_streaming_strip_ant_result_def error_message_ptr_def is_ant_result_def)
  have body: "cmsg_proxy_generate_response_body demo_answer_env ?m uninitialised_output =
      (True, uninitialised_output\<lparr>out_response_body := Some ''ok'', out_mime_type := ''text/plain'', out_response_length := 2\<rparr>)"
    by (simp add: cmsg_proxy_generate_response_body_def cmsg_proxy_msg_has_body_override_def cmsg_proxy_generate_plaintext_response_def
        demo_answer_env_def demo_proxy_env_def demo_tree_env_def demo_answer_def uninitialised_output_def)
  from create obtain obj' s1 where s1: "cmsg_proxy_streaming_create_conn demo_answer_env True 5 [] demo_stream_input demo_answer (snd stream_start) =
      ((True, 0, obj'), s1)" by blast
  from stream_lifecycle [OF start cb s1 msg body] show ?thesis by auto
qed

end
