(* ===== verification/BroadcastClient.thy ===== *)
theory BroadcastClient
  imports CompositeClient
begin

text \<open>
  The broadcast client (\<open>broadcast_client/cmsg_broadcast_client.c\<close>,
  \<open>cmsg_broadcast_client_conn_mgmt.c\<close>): a composite client whose children follow the TCP servers that the
  service listener announces, with a queue of the nodes that join and leave; and the mesh connection
  on top of it (\<open>cmsg_mesh.c\<close>).

  A child is an address, as in the composite client; \<open>bc_tports\<close> is the transport of each and
  \<open>bc_next\<close> the next address. The calls of the application's handler and the children that are
  destroyed go to the trace. A \<open>NULL\<close> client or transport that is used is \<open>None\<close>.
\<close>

record broadcast_client_event =
  be_node_addr :: "u8 list"
  be_joined :: bool

datatype bc_event =
    Bc_listen string
  | Bc_unlisten
  | Bc_destroy_child nat
  | Bc_handler "u8 list" bool

text \<open>What may fail, and the port of a service (\<open>cmsg_service_port_get\<close>, in network order).\<close>

record bc_env =
  bc_calloc_ok :: bool
  bc_eventfd_ok :: bool
  bc_queue_ok :: bool
  bc_listen_ok :: bool
  bc_client_ok :: "bc_event list \<Rightarrow> bool"
  bc_event_ok :: "bc_event list \<Rightarrow> bool"
  bc_port :: "string \<Rightarrow> u8 list"

text \<open>\<open>bc_queue\<close> is \<open>None\<close> for \<open>NULL\<close>, \<open>bc_eventfd\<close> for -1, otherwise the counter behind it.\<close>

record broadcast_client =
  bc_base_client :: composite_client
  bc_descriptor_name :: string
  bc_oneway_children :: bool
  bc_service_entry_name :: "string option"
  bc_my_node_addr :: "u8 list"
  bc_connect_to_self :: bool
  bc_queue :: "broadcast_client_event list option"
  bc_eventfd :: "nat option"
  bc_has_handler :: bool
  bc_tports :: "nat \<Rightarrow> cmsg_transport"
  bc_next :: nat
  bc_trace :: "bc_event list"

definition bc_log :: "bc_event \<Rightarrow> broadcast_client \<Rightarrow> broadcast_client" where
  "bc_log ev bc = bc\<lparr>bc_trace := bc_trace bc @ [ev]\<rparr>"

section \<open>The children\<close>

definition cmsg_broadcast_client_generate_event ::
  "bc_env \<Rightarrow> u8 list \<Rightarrow> bool \<Rightarrow> broadcast_client \<Rightarrow> broadcast_client" where
  "cmsg_broadcast_client_generate_event env node_addr joined bc =
     (case bc_queue bc of
        None \<Rightarrow> bc
      | Some q \<Rightarrow>
          if bc_event_ok env (bc_trace bc)
          then bc\<lparr>bc_queue := Some (q @ [\<lparr>be_node_addr = node_addr, be_joined = joined\<rparr>]),
                  bc_eventfd := map_option Suc (bc_eventfd bc)\<rparr>
          else bc)"

definition cmsg_broadcast_client_add_child :: "bc_env \<Rightarrow> cmsg_transport \<Rightarrow> broadcast_client \<Rightarrow> broadcast_client" where
  "cmsg_broadcast_client_add_child env transport bc =
     (if \<not> bc_client_ok env (bc_trace bc) then bc
      else
        let child = bc_next bc;
            tports = (bc_tports bc)(child := transport);
            (_, new_comp) = cmsg_composite_client_add_child tports (Some (bc_base_client bc)) (Some child)
        in cmsg_broadcast_client_generate_event env (sin_addr transport) True
             (bc\<lparr>bc_base_client := (case new_comp of Some cc \<Rightarrow> cc | None \<Rightarrow> bc_base_client bc),
                 bc_tports := tports, bc_next := child + 1\<rparr>))"

definition cmsg_broadcast_client_delete_child :: "bc_env \<Rightarrow> cmsg_transport \<Rightarrow> broadcast_client \<Rightarrow> broadcast_client" where
  "cmsg_broadcast_client_delete_child env transport bc =
     (case cmsg_composite_client_lookup_by_transport (bc_tports bc) (bc_base_client bc) transport of
        None \<Rightarrow> bc
      | Some child \<Rightarrow>
          (case cmsg_composite_client_delete_child (Some (bc_base_client bc)) (Some child) of
             (ret, Some cc) \<Rightarrow>
               if ret < 0 then bc
               else cmsg_broadcast_client_generate_event env (sin_addr transport) False
                      (bc_log (Bc_destroy_child child) (bc\<lparr>bc_base_client := cc\<rparr>))
           | _ \<Rightarrow> bc))"

definition server_event_callback ::
  "bc_env \<Rightarrow> cmsg_transport option \<Rightarrow> bool \<Rightarrow> broadcast_client \<Rightarrow> (bool \<times> broadcast_client) option" where
  "server_event_callback env transport added bc =
     Option.bind transport (\<lambda>t.
     if t_type t = CMSG_TRANSPORT_RPC_UNIX \<or> t_type t = CMSG_TRANSPORT_ONEWAY_UNIX then Some (True, bc)
     else Option.bind (bc_service_entry_name bc) (\<lambda>service_entry_name.
       if sin_port t \<noteq> bc_port env service_entry_name then Some (True, bc)
       else if \<not> bc_connect_to_self bc \<and> bc_my_node_addr bc = sin_addr t then Some (True, bc)
       else Some (True, if added then cmsg_broadcast_client_add_child env t bc
                        else cmsg_broadcast_client_delete_child env t bc)))"

section \<open>Creation and destruction\<close>

definition cmsg_broadcast_conn_mgmt_init :: "bc_env \<Rightarrow> broadcast_client \<Rightarrow> int \<times> broadcast_client" where
  "cmsg_broadcast_conn_mgmt_init env bc =
     (if \<not> bc_listen_ok env then (CMSG_RET_ERR, bc)
      else (CMSG_RET_OK, bc_log (Bc_listen (bc_descriptor_name bc)) bc))"

definition cmsg_broadcast_conn_mgmt_deinit :: "broadcast_client \<Rightarrow> broadcast_client" where
  "cmsg_broadcast_conn_mgmt_deinit bc = bc_log Bc_unlisten bc"

definition cmsg_broadcast_client_create :: "bc_env \<Rightarrow> string \<Rightarrow> broadcast_client option" where
  "cmsg_broadcast_client_create env descriptor =
     (if \<not> bc_calloc_ok env then None
      else Some \<lparr>bc_base_client = cmsg_composite_client_init, bc_descriptor_name = descriptor,
             bc_oneway_children = False, bc_service_entry_name = None, bc_my_node_addr = [0, 0, 0, 0],
             bc_connect_to_self = False, bc_queue = None, bc_eventfd = None, bc_has_handler = False,
             bc_tports = (\<lambda>_. cmsg_transport_new CMSG_TRANSPORT_RPC_TCP), bc_next = 0, bc_trace = []\<rparr>)"

definition cmsg_broadcast_client_deinit_events :: "broadcast_client \<Rightarrow> broadcast_client" where
  "cmsg_broadcast_client_deinit_events bc = bc\<lparr>bc_has_handler := False, bc_eventfd := None, bc_queue := None\<rparr>"

definition cmsg_broadcast_client_init_events :: "bc_env \<Rightarrow> broadcast_client \<Rightarrow> int \<times> broadcast_client" where
  "cmsg_broadcast_client_init_events env bc =
     (if \<not> bc_eventfd_ok env then (CMSG_RET_ERR, bc)
      else if \<not> bc_queue_ok env then (CMSG_RET_ERR, bc)
      else (CMSG_RET_OK, bc\<lparr>bc_eventfd := Some 0, bc_queue := Some [], bc_has_handler := True\<rparr>))"

text \<open>A \<open>NULL\<close> descriptor or entry name is refused.\<close>

definition cmsg_broadcast_client_new ::
  "bc_env \<Rightarrow> string option \<Rightarrow> string option \<Rightarrow> u8 list \<Rightarrow> bool \<Rightarrow> bool \<Rightarrow> bool \<Rightarrow> broadcast_client option" where
  "cmsg_broadcast_client_new env descriptor service_entry_name my_node_addr connect_to_self oneway event_handler =
     (case (descriptor, service_entry_name) of
        (Some d, Some name) \<Rightarrow>
          (case cmsg_broadcast_client_create env d of
             None \<Rightarrow> None
           | Some bc \<Rightarrow>
               let bc = bc\<lparr>bc_service_entry_name := Some name, bc_oneway_children := oneway,
                           bc_my_node_addr := my_node_addr, bc_connect_to_self := connect_to_self\<rparr>;
                   (ret, bc) = (if event_handler then cmsg_broadcast_client_init_events env bc else (CMSG_RET_OK, bc))
               in if ret \<noteq> CMSG_RET_OK then None
                  else case cmsg_broadcast_conn_mgmt_init env bc of
                         (ret, bc) \<Rightarrow> if ret \<noteq> CMSG_RET_OK then None else Some bc)
      | _ \<Rightarrow> None)"

text \<open>What has happened when the client is gone.\<close>

definition cmsg_broadcast_client_destroy :: "broadcast_client \<Rightarrow> bc_event list" where
  "cmsg_broadcast_client_destroy bc =
     (let bc = cmsg_broadcast_conn_mgmt_deinit bc;
          bc = fold (\<lambda>child. bc_log (Bc_destroy_child child)) (cmsg_composite_client_get_children (bc_base_client bc)) bc
      in bc_trace (cmsg_broadcast_client_deinit_events bc))"

section \<open>Children of the application, and its events\<close>

definition add_application_child :: "nat \<Rightarrow> broadcast_client option \<Rightarrow> int \<times> broadcast_client option" where
  "add_application_child child client =
     (case client of
        None \<Rightarrow> (CMSG_RET_ERR, None)
      | Some bc \<Rightarrow>
          (case cmsg_composite_client_add_child (bc_tports bc) (Some (bc_base_client bc)) (Some child) of
             (ret, new_comp) \<Rightarrow>
               (ret, Some (bc\<lparr>bc_base_client := (case new_comp of Some cc \<Rightarrow> cc | None \<Rightarrow> bc_base_client bc)\<rparr>))))"

definition cmsg_broadcast_client_add_loopback :: "nat \<Rightarrow> broadcast_client option \<Rightarrow> int \<times> broadcast_client option" where
  "cmsg_broadcast_client_add_loopback child client =
     (case client of
        None \<Rightarrow> (CMSG_RET_ERR, None)
      | Some bc \<Rightarrow>
          if t_type (bc_tports bc child) \<noteq> CMSG_TRANSPORT_LOOPBACK then (CMSG_RET_ERR, Some bc)
          else add_application_child child (Some bc))"

definition cmsg_broadcast_client_add_unix :: "nat \<Rightarrow> broadcast_client option \<Rightarrow> int \<times> broadcast_client option" where
  "cmsg_broadcast_client_add_unix child client =
     (case client of
        None \<Rightarrow> (CMSG_RET_ERR, None)
      | Some bc \<Rightarrow>
          if t_type (bc_tports bc child) \<noteq> CMSG_TRANSPORT_RPC_UNIX \<and>
             t_type (bc_tports bc child) \<noteq> CMSG_TRANSPORT_ONEWAY_UNIX then (CMSG_RET_ERR, Some bc)
          else add_application_child child (Some bc))"

definition cmsg_broadcast_client_get_event_fd :: "broadcast_client option \<Rightarrow> nat option" where
  "cmsg_broadcast_client_get_event_fd client = Option.bind client bc_eventfd"

text \<open>The handler is read before the check of the client: \<open>NULL\<close> is dereferenced.\<close>

definition cmsg_broadcast_event_queue_process :: "broadcast_client option \<Rightarrow> broadcast_client option" where
  "cmsg_broadcast_event_queue_process client =
     Option.bind client (\<lambda>bc.
       if \<not> bc_has_handler bc then Some bc
       else Option.bind (bc_queue bc) (\<lambda>q.
         Some (fold (\<lambda>e. bc_log (Bc_handler (be_node_addr e) (be_joined e))) q
                (bc\<lparr>bc_queue := Some [], bc_eventfd := map_option (\<lambda>_. 0) (bc_eventfd bc)\<rparr>))))"

end
