(* ===== verification/MeshConnection.thy ===== *)
theory MeshConnection
  imports BroadcastClient
begin

text \<open>
  Mesh connections (\<open>cmsg_mesh.c\<close>): a server, a broadcast client that reaches the servers of the
  other nodes, and a way back to the own node.
\<close>

datatype cmsg_mesh_local_type = CMSG_MESH_LOCAL_NONE | CMSG_MESH_LOCAL_LOOPBACK | CMSG_MESH_LOCAL_TCP

text \<open>What a connection is made of, and what making and ending one creates and destroys.\<close>

datatype mesh_part = Mesh_info | Mesh_broadcast | Mesh_loopback | Mesh_server | Mesh_accept_thread

datatype mesh_event = Mesh_create mesh_part | Mesh_destroy mesh_part

record cmsg_mesh_conn =
  mesh_broadcast_client :: broadcast_client
  mesh_loopback_client :: "nat option"

text \<open>
  \<open>part_ok\<close> says which parts can be created. The server's accept thread ends with the server, a
  loopback client that was added ends with the broadcast client.
\<close>

definition cmsg_mesh_connection_init ::
  "bc_env \<Rightarrow> (mesh_part \<Rightarrow> bool) \<Rightarrow> string \<Rightarrow> string \<Rightarrow> u8 list \<Rightarrow> cmsg_mesh_local_type \<Rightarrow> bool \<Rightarrow> bool
   \<Rightarrow> cmsg_mesh_conn option \<times> mesh_event list" where
  "cmsg_mesh_connection_init env part_ok descriptor service_entry_name my_node_addr type oneway event_handler =
     (if \<not> part_ok Mesh_info then (None, [])
      else
        let tr = [Mesh_create Mesh_info] in
        case cmsg_broadcast_client_new env (Some descriptor) (Some service_entry_name) my_node_addr
               (type = CMSG_MESH_LOCAL_TCP) oneway event_handler of
          None \<Rightarrow> (None, tr @ [Mesh_destroy Mesh_info])
        | Some bc \<Rightarrow>
            let tr = tr @ [Mesh_create Mesh_broadcast];
                undo = [Mesh_destroy Mesh_broadcast, Mesh_destroy Mesh_info];
                loop = (type = CMSG_MESH_LOCAL_LOOPBACK)
            in if loop \<and> \<not> part_ok Mesh_loopback then (None, tr @ undo)
               else
                 let child = bc_next bc;
                     tr = tr @ (if loop then [Mesh_create Mesh_loopback] else []);
                     bc' = (if loop then bc\<lparr>bc_tports := (bc_tports bc)(child := cmsg_transport_new CMSG_TRANSPORT_LOOPBACK),
                                            bc_next := child + 1\<rparr> else bc);
                     (ret, bc'') = (if loop then cmsg_broadcast_client_add_loopback child (Some bc')
                                    else (CMSG_RET_OK, Some bc'));
                     undo = (if loop \<and> ret = CMSG_RET_OK then Mesh_destroy Mesh_loopback # undo else undo)
                 in if ret \<noteq> CMSG_RET_OK then (None, tr @ undo)
                    else if \<not> part_ok Mesh_server then (None, tr @ undo)
                    else
                      let tr = tr @ [Mesh_create Mesh_server] in
                      if \<not> part_ok Mesh_accept_thread then (None, tr @ Mesh_destroy Mesh_server # undo)
                      else (map_option (\<lambda>bc. \<lparr>mesh_broadcast_client = bc,
                              mesh_loopback_client = (if loop then Some child else None)\<rparr>) bc'',
                            tr @ [Mesh_create Mesh_accept_thread]))"

definition cmsg_mesh_connection_destroy :: "cmsg_mesh_conn option \<Rightarrow> mesh_event list" where
  "cmsg_mesh_connection_destroy mesh =
     (case mesh of
        None \<Rightarrow> []
      | Some m \<Rightarrow>
          [Mesh_destroy Mesh_accept_thread, Mesh_destroy Mesh_server] @
          (if mesh_loopback_client m \<noteq> None then [Mesh_destroy Mesh_loopback] else []) @
          [Mesh_destroy Mesh_broadcast, Mesh_destroy Mesh_info])"

end
