(* ===== verification/SlApi.thy ===== *)
theory SlApi
  imports ServiceListener "HOL-Library.Signed_Division"
begin

text \<open>
  The library with which a process talks to the service listener daemon
  (\<open>service_listener/cmsg_sl_api.c\<close>): its list of listeners, the server that the daemon's events
  arrive at, the queue and event counter of each listener, and the calls that wait for a server.

  The \<open>cmsg_sl_info\<close> structures live in a store that pointers index, since the list of listeners,
  the event thread and the application share them; a pointer that is not in the store is freed
  memory. The memory that a handler's \<open>user_data\<close> points to is a map from addresses to bytes. What
  the library sends and the handler calls it makes go to the trace. \<open>None\<close> is undefined behaviour
  (freed or \<open>NULL\<close> memory) or a call that never returns.
\<close>

type_synonym memory = "nat \<Rightarrow> u8 list"
type_synonym sl_handler = "cmsg_transport option \<Rightarrow> bool \<Rightarrow> nat \<Rightarrow> memory \<Rightarrow> (bool \<times> memory) option"

record cmsg_sl_event =
  se_added :: bool
  se_transport :: "cmsg_transport option"

record cmsg_sl_info =
  in_service_name :: string
  in_handler :: sl_handler
  in_id :: u32
  in_user_data :: nat
  in_queue :: "cmsg_sl_event list"
  in_eventfd :: nat
  in_event_loop_data :: "nat option"

record sld_server_event =
  ev_id :: u32
  ev_service_info :: service_info

datatype sl_api_event =
    Sla_listen bool sld_listener_info \<comment> \<open>listen or unlisten\<close>
  | Sla_address_set "u8 list"
  | Sla_host bool "u8 list"
  | Sla_server bool service_info
  | Sla_start cmsg_transport
  | Sla_stop
  | Sla_call nat bool "cmsg_transport option"
  | Sla_reply bool

text \<open>
  The world: the answer to each attempt to connect to the daemon, of each send, of the allocation
  of an event and of the four resources of a listener.
\<close>

record sl_api_env =
  connect_result :: "sl_api_event list \<Rightarrow> nat \<Rightarrow> int"
  send_result :: "sl_api_event list \<Rightarrow> int"
  event_alloc :: "sl_api_event list \<Rightarrow> nat \<Rightarrow> bool"
  calloc_ok :: "sl_api_event list \<Rightarrow> bool"
  strdup_ok :: "sl_api_event list \<Rightarrow> bool"
  eventfd_ok :: "sl_api_event list \<Rightarrow> bool"
  queue_ok :: "sl_api_event list \<Rightarrow> bool"
  own_pid :: u32

record sl_api =
  sa_event_server :: "cmsg_transport option"
  sa_listener_list :: "nat list"
  sa_infos :: "nat \<rightharpoonup> cmsg_sl_info"
  sa_id :: u32
  sa_next :: nat
  sa_sld_running :: bool
  sa_memory :: memory
  sa_trace :: "sl_api_event list"

definition sl_api_init :: sl_api where
  "sl_api_init = \<lparr>sa_event_server = None, sa_listener_list = [], sa_infos = Map.empty, sa_id = 0,
     sa_next = 0, sa_sld_running = False, sa_memory = (\<lambda>_. []), sa_trace = []\<rparr>"

definition sla_log :: "sl_api_event \<Rightarrow> sl_api \<Rightarrow> sl_api" where
  "sla_log ev st = st\<lparr>sa_trace := sa_trace st @ [ev]\<rparr>"

section \<open>The client of the daemon\<close>

text \<open>Until the first success it tries again, once a second, for ever.\<close>

partial_function (option) sl_connect_loop :: "(nat \<Rightarrow> int) \<Rightarrow> nat \<Rightarrow> nat option" where
  "sl_connect_loop answer n = (if answer n = 0 then Some n else sl_connect_loop answer (n + 1))"

definition cmsg_sl_get_client :: "sl_api_env \<Rightarrow> sl_api \<Rightarrow> sl_api option" where
  "cmsg_sl_get_client env st =
     (if sa_sld_running st then Some st
      else map_option (\<lambda>_. st\<lparr>sa_sld_running := True\<rparr>) (sl_connect_loop (connect_result env (sa_trace st)) 0))"

definition sl_send :: "sl_api_env \<Rightarrow> sl_api_event \<Rightarrow> sl_api \<Rightarrow> (int \<times> sl_api) option" where
  "sl_send env ev st =
     map_option (\<lambda>st. (send_result env (sa_trace st), sla_log ev st)) (cmsg_sl_get_client env st)"

section \<open>Events\<close>

definition cmsg_service_listener_get_event_fd :: "cmsg_sl_info \<Rightarrow> nat" where
  "cmsg_service_listener_get_event_fd info = in_eventfd info"

text \<open>The loop of pops: the result of the last handler, and the events that stay on the queue.\<close>

fun process_events ::
  "nat \<Rightarrow> cmsg_sl_info \<Rightarrow> bool \<Rightarrow> cmsg_sl_event list \<Rightarrow> sl_api \<Rightarrow> (bool \<times> cmsg_sl_event list \<times> sl_api) option" where
  "process_events p info ret [] st = Some (ret, [], st)"
| "process_events p info ret (event # events) st =
     Option.bind (in_handler info (se_transport event) (se_added event) (in_user_data info) (sa_memory st)) (\<lambda>(ret, m).
       let st = sla_log (Sla_call p (se_added event) (se_transport event)) (st\<lparr>sa_memory := m\<rparr>)
       in if ret then process_events p info ret events st else Some (ret, events, st))"

definition cmsg_service_listener_event_queue_process :: "nat \<Rightarrow> sl_api \<Rightarrow> (bool \<times> sl_api) option" where
  "cmsg_service_listener_event_queue_process p st =
     Option.bind (sa_infos st p) (\<lambda>info.
     map_option (\<lambda>(ret, left, st). (ret, st\<lparr>sa_infos := (sa_infos st)(p \<mapsto> info\<lparr>in_queue := left, in_eventfd := 0\<rparr>)\<rparr>))
       (process_events p info True (in_queue info) st))"

text \<open>One listener of the list: a matching one gets the event and its counter goes up.\<close>

definition notify_one ::
  "sl_api_env \<Rightarrow> sld_server_event \<Rightarrow> bool \<Rightarrow> nat \<Rightarrow> sl_api \<Rightarrow> sl_api option" where
  "notify_one env recv_msg added p st =
     Option.bind (sa_infos st p) (\<lambda>entry.
       if in_id entry = ev_id recv_msg \<and> event_alloc env (sa_trace st) p then
         map_option (\<lambda>t. st\<lparr>sa_infos := (sa_infos st)
             (p \<mapsto> entry\<lparr>in_queue := in_queue entry @ [\<lparr>se_added = added, se_transport = t\<rparr>],
                         in_eventfd := in_eventfd entry + 1\<rparr>)\<rparr>)
           (cmsg_transport_info_to_transport (si_transport (ev_service_info recv_msg)))
       else Some st)"

fun notify_each_listener ::
  "sl_api_env \<Rightarrow> sld_server_event \<Rightarrow> bool \<Rightarrow> nat list \<Rightarrow> sl_api \<Rightarrow> sl_api option" where
  "notify_each_listener env recv_msg added [] st = Some st"
| "notify_each_listener env recv_msg added (p # ps) st =
     Option.bind (notify_one env recv_msg added p st) (notify_each_listener env recv_msg added ps)"

definition notify_listener :: "sl_api_env \<Rightarrow> sld_server_event \<Rightarrow> bool \<Rightarrow> sl_api \<Rightarrow> sl_api option" where
  "notify_listener env recv_msg added st = notify_each_listener env recv_msg added (sa_listener_list st) st"

definition cmsg_sld_events_impl_server_added :: "sl_api_env \<Rightarrow> sld_server_event \<Rightarrow> sl_api \<Rightarrow> sl_api option" where
  "cmsg_sld_events_impl_server_added env recv_msg st =
     map_option (sla_log (Sla_reply True)) (notify_listener env recv_msg True st)"

definition cmsg_sld_events_impl_server_removed :: "sl_api_env \<Rightarrow> sld_server_event \<Rightarrow> sl_api \<Rightarrow> sl_api option" where
  "cmsg_sld_events_impl_server_removed env recv_msg st =
     map_option (sla_log (Sla_reply False)) (notify_listener env recv_msg False st)"

text \<open>The events of the daemon that arrive, in order, each for the handler of its method.\<close>

fun deliver :: "sl_api_env \<Rightarrow> (bool \<times> sld_server_event) list \<Rightarrow> sl_api \<Rightarrow> sl_api option" where
  "deliver env [] st = Some st"
| "deliver env ((added, recv_msg) # rest) st =
     Option.bind (if added then cmsg_sld_events_impl_server_added env recv_msg st
                  else cmsg_sld_events_impl_server_removed env recv_msg st) (deliver env rest)"

section \<open>Servers, and the one that events arrive at\<close>

text \<open>A server is the name of its service and its transport.\<close>

definition cmsg_server_service_info_create :: "sl_api_env \<Rightarrow> string \<times> cmsg_transport \<Rightarrow> service_info option" where
  "cmsg_server_service_info_create env server =
     map_option (\<lambda>transport_info. \<lparr>si_ptr = 0, si_service = fst server, si_transport = transport_info,
                                   si_local = False, si_pid = own_pid env\<rparr>)
       (cmsg_transport_info_create (snd server))"

definition cmsg_service_listener_add_server :: "sl_api_env \<Rightarrow> string \<times> cmsg_transport \<Rightarrow> sl_api \<Rightarrow> sl_api option" where
  "cmsg_service_listener_add_server env server st =
     (case cmsg_server_service_info_create env server of
        None \<Rightarrow> Some st
      | Some send_msg \<Rightarrow> map_option snd (sl_send env (Sla_server True (send_msg\<lparr>si_pid := own_pid env\<rparr>)) st))"

definition cmsg_service_listener_remove_server :: "sl_api_env \<Rightarrow> string \<times> cmsg_transport \<Rightarrow> sl_api \<Rightarrow> sl_api option" where
  "cmsg_service_listener_remove_server env server st =
     (case cmsg_server_service_info_create env server of
        None \<Rightarrow> Some st
      | Some send_msg \<Rightarrow> map_option snd (sl_send env (Sla_server False send_msg) st))"

text \<open>
  The server is announced to the daemon when it is made (\<open>cmsg_server_new\<close>) and withdrawn when it is
  destroyed (\<open>cmsg_server_destroy\<close>), as every server is.
\<close>

definition event_transport :: "sl_api_env \<Rightarrow> cmsg_transport" where
  "event_transport env = (cmsg_transport_new CMSG_TRANSPORT_ONEWAY_UNIX)
     \<lparr>family := AF_UNIX, sun_family := AF_UNIX,
      sun_path := take 106 (''/tmp/cmsg_sld.events.'' @ decimal (unat (own_pid env)))\<rparr>"

definition event_server_init :: "sl_api_env \<Rightarrow> sl_api \<Rightarrow> sl_api option" where
  "event_server_init env st =
     (let transport = event_transport env
      in map_option (\<lambda>st. sla_log (Sla_start transport) (st\<lparr>sa_event_server := Some transport\<rparr>))
           (cmsg_service_listener_add_server env (''cmsg_sld.events'', transport) st))"

definition event_server_deinit :: "sl_api_env \<Rightarrow> sl_api \<Rightarrow> sl_api option" where
  "event_server_deinit env st =
     Option.bind (sa_event_server st) (\<lambda>transport.
       map_option (\<lambda>st. st\<lparr>sa_event_server := None\<rparr>)
         (cmsg_service_listener_remove_server env (''cmsg_sld.events'', transport) (sla_log Sla_stop st)))"

section \<open>Listening\<close>

text \<open>Only the message to listen carries the process id.\<close>

definition service_listener_listen ::
  "sl_api_env \<Rightarrow> string \<Rightarrow> bool \<Rightarrow> u32 \<Rightarrow> sl_api \<Rightarrow> sl_api option" where
  "service_listener_listen env service_name listen ident st =
     Option.bind (sa_event_server st) (\<lambda>transport.
     Option.bind (cmsg_transport_info_create transport) (\<lambda>transport_info.
       map_option snd
         (sl_send env (Sla_listen listen \<lparr>li_service = service_name, li_transport = transport_info, li_id = ident,
            li_pid = (if listen then own_pid env else 0)\<rparr>) st)))"

definition cmsg_service_listener_info_create ::
  "sl_api_env \<Rightarrow> string \<Rightarrow> sl_handler \<Rightarrow> nat \<Rightarrow> sl_api \<Rightarrow> nat option \<times> sl_api" where
  "cmsg_service_listener_info_create env service_name handler user_data st =
     (if \<not> calloc_ok env (sa_trace st) then (None, st)
      else if \<not> strdup_ok env (sa_trace st) then (None, st)
      else if \<not> eventfd_ok env (sa_trace st) then (None, st)
      else if \<not> queue_ok env (sa_trace st) then (None, st)
      else
        let p = sa_next st;
            info = \<lparr>in_service_name = service_name, in_handler = handler, in_id = sa_id st,
                    in_user_data = user_data, in_queue = [], in_eventfd = 0, in_event_loop_data = None\<rparr>
        in (Some p, st\<lparr>sa_infos := (sa_infos st)(p \<mapsto> info), sa_next := p + 1, sa_id := sa_id st + 1\<rparr>))"

definition cmsg_service_listener_info_destroy :: "nat \<Rightarrow> sl_api \<Rightarrow> sl_api" where
  "cmsg_service_listener_info_destroy p st = st\<lparr>sa_infos := (sa_infos st)(p := None)\<rparr>"

definition cmsg_service_listener_listen ::
  "sl_api_env \<Rightarrow> string \<Rightarrow> sl_handler \<Rightarrow> nat \<Rightarrow> sl_api \<Rightarrow> (nat option \<times> sl_api) option" where
  "cmsg_service_listener_listen env service_name handler user_data st =
     (case cmsg_service_listener_info_create env service_name handler user_data st of
        (None, st) \<Rightarrow> Some (None, st)
      | (Some p, st) \<Rightarrow>
          let st = st\<lparr>sa_listener_list := p # sa_listener_list st\<rparr>
          in Option.bind (if length (sa_listener_list st) = 1 then event_server_init env st else Some st) (\<lambda>st.
               Option.bind (sa_infos st p) (\<lambda>info.
                 map_option (Pair (Some p)) (service_listener_listen env service_name True (in_id info) st))))"

definition cmsg_service_listener_unlisten :: "sl_api_env \<Rightarrow> nat \<Rightarrow> sl_api \<Rightarrow> sl_api option" where
  "cmsg_service_listener_unlisten env p st =
     (let st = st\<lparr>sa_listener_list := remove1 p (sa_listener_list st)\<rparr>
      in Option.bind (sa_infos st p) (\<lambda>info.
         Option.bind (service_listener_listen env (in_service_name info) False (in_id info) st) (\<lambda>st.
           map_option (cmsg_service_listener_info_destroy p)
             (if sa_listener_list st = [] then event_server_deinit env st else Some st))))"

section \<open>Configuring the daemon\<close>

definition cmsg_service_listener_address_set :: "sl_api_env \<Rightarrow> u8 list \<Rightarrow> sl_api \<Rightarrow> (int \<times> sl_api) option" where
  "cmsg_service_listener_address_set env addr st = sl_send env (Sla_address_set addr) st"

definition cmsg_service_listener_add_host :: "sl_api_env \<Rightarrow> u8 list \<Rightarrow> sl_api \<Rightarrow> (int \<times> sl_api) option" where
  "cmsg_service_listener_add_host env addr st = sl_send env (Sla_host True addr) st"

definition cmsg_service_listener_delete_host :: "sl_api_env \<Rightarrow> u8 list \<Rightarrow> sl_api \<Rightarrow> (int \<times> sl_api) option" where
  "cmsg_service_listener_delete_host env addr st = sl_send env (Sla_host False addr) st"

section \<open>Waiting for a server\<close>

text \<open>
  What happens while the process waits: the events that arrive before the wait ends, whether the
  system call fails, the events that arrive before the queue is processed, and the clock after it.
  A wait without a timeout that nothing ends does not return.
\<close>

record wait_round =
  wr_before :: "(bool \<times> sld_server_event) list"
  wr_error :: bool
  wr_late :: "(bool \<times> sld_server_event) list"
  wr_now :: "int \<times> int"

definition sl_wait :: "sl_api_env \<Rightarrow> nat \<Rightarrow> bool \<Rightarrow> wait_round \<Rightarrow> sl_api \<Rightarrow> (int \<times> sl_api) option" where
  "sl_wait env p has_timeout r st =
     Option.bind (deliver env (wr_before r) st) (\<lambda>st.
     Option.bind (sa_infos st p) (\<lambda>info.
       if wr_error r then Some (-1, st)
       else if cmsg_service_listener_get_event_fd info > 0 then map_option (Pair 1) (deliver env (wr_late r) st)
       else if has_timeout then Some (0, st) else None))"

definition cmsg_sl_listener_unix_wait_cb :: sl_handler where
  "cmsg_sl_listener_unix_wait_cb transport added user_data m =
     Option.bind transport (\<lambda>t.
       Some (True, m(user_data := [if t_type t = CMSG_TRANSPORT_RPC_UNIX \<or> t_type t = CMSG_TRANSPORT_ONEWAY_UNIX
                                   then 1 else 0])))"

definition cmsg_service_listener_wait_for_unix_server ::
  "sl_api_env \<Rightarrow> string \<Rightarrow> int \<Rightarrow> nat \<Rightarrow> wait_round \<Rightarrow> sl_api \<Rightarrow> (bool \<times> sl_api) option" where
  "cmsg_service_listener_wait_for_unix_server env service_name seconds ret r st =
     (let st = st\<lparr>sa_memory := (sa_memory st)(ret := [0])\<rparr> in
      Option.bind (cmsg_service_listener_listen env service_name cmsg_sl_listener_unix_wait_cb ret st) (\<lambda>(info, st).
        case info of
          None \<Rightarrow> Some (False, st)
        | Some p \<Rightarrow>
            Option.bind (sl_wait env p (seconds \<noteq> -1) r st) (\<lambda>(select_rc, st).
              if select_rc = 0 \<or> select_rc = -1 then
                map_option (Pair False) (cmsg_service_listener_unlisten env p st)
              else
                Option.bind (cmsg_service_listener_event_queue_process p st) (\<lambda>(_, st).
                Option.bind (cmsg_service_listener_unlisten env p st) (\<lambda>st.
                  Some (sa_memory st ret \<noteq> [0], st))))))"

text \<open>The address is at \<open>user_data\<close>.\<close>

definition cmsg_sl_listener_tcp_wait_cb :: sl_handler where
  "cmsg_sl_listener_tcp_wait_cb transport added user_data m =
     Option.bind transport (\<lambda>t.
       Some (\<not> ((t_type t = CMSG_TRANSPORT_RPC_TCP \<or> t_type t = CMSG_TRANSPORT_ONEWAY_TCP) \<and>
                 sin_addr t = m user_data), m))"

partial_function (option) tcp_wait_loop ::
  "sl_api_env \<Rightarrow> nat \<Rightarrow> int \<times> int \<Rightarrow> (nat \<Rightarrow> wait_round) \<Rightarrow> nat \<Rightarrow> int \<Rightarrow> sl_api \<Rightarrow> (bool \<times> sl_api) option" where
  "tcp_wait_loop env p start rounds n time_to_wait st =
     (if time_to_wait > 0 then
        Option.bind (sl_wait env p True (rounds n) st) (\<lambda>(poll_rc, st).
          if poll_rc \<le> 0 then Some (False, st)
          else
            Option.bind (cmsg_service_listener_event_queue_process p st) (\<lambda>(go_on, st).
              if \<not> go_on then Some (True, st)
              else tcp_wait_loop env p start rounds (n + 1)
                     (time_to_wait - (fst (wr_now (rounds n)) - fst start) * 1000
                        - (snd (wr_now (rounds n)) - snd start) sdiv 1000000) st))
      else Some (False, st))"

text \<open>The product with 1000 is an \<open>int\<close>.\<close>

definition cmsg_service_listener_wait_for_tcp_server ::
  "sl_api_env \<Rightarrow> string \<Rightarrow> nat \<Rightarrow> int \<Rightarrow> int \<times> int \<Rightarrow> (nat \<Rightarrow> wait_round) \<Rightarrow> sl_api \<Rightarrow> (bool \<times> sl_api) option" where
  "cmsg_service_listener_wait_for_tcp_server env service_name addr seconds start rounds st =
     (if \<bar>seconds * 1000\<bar> \<ge> 2 ^ 31 then None
      else
        Option.bind (cmsg_service_listener_listen env service_name cmsg_sl_listener_tcp_wait_cb addr st) (\<lambda>(info, st).
          case info of
            None \<Rightarrow> Some (False, st)
          | Some p \<Rightarrow>
              Option.bind (tcp_wait_loop env p start rounds 0 (seconds * 1000) st) (\<lambda>(ret, st).
                map_option (Pair ret) (cmsg_service_listener_unlisten env p st))))"

section \<open>Event loop data\<close>

definition cmsg_service_listener_event_loop_data_set :: "nat \<Rightarrow> nat option \<Rightarrow> sl_api \<Rightarrow> sl_api option" where
  "cmsg_service_listener_event_loop_data_set p data st =
     map_option (\<lambda>info. st\<lparr>sa_infos := (sa_infos st)(p \<mapsto> info\<lparr>in_event_loop_data := data\<rparr>)\<rparr>) (sa_infos st p)"

definition cmsg_service_listener_event_loop_data_get :: "nat \<Rightarrow> sl_api \<Rightarrow> nat option option" where
  "cmsg_service_listener_event_loop_data_get p st = map_option in_event_loop_data (sa_infos st p)"

section \<open>One listener, operation by operation\<close>

text \<open>
  The event thread and the application share a queue and its counter without a lock. The single
  operations of \<open>notify_listener\<close> and of \<open>cmsg_service_listener_event_queue_process\<close>, as they
  interleave; \<open>wk_unwritten\<close> counts the events that are pushed but not yet counted.
\<close>

datatype sl_reader = Reader_idle | Reader_popping | Reader_stopped

record sl_wake =
  wk_queue :: "cmsg_sl_event list"
  wk_eventfd :: nat
  wk_unwritten :: nat
  wk_reader :: sl_reader

definition wake_init :: sl_wake where
  "wake_init = \<lparr>wk_queue = [], wk_eventfd = 0, wk_unwritten = 0, wk_reader = Reader_idle\<rparr>"

definition wake_push :: "cmsg_sl_event \<Rightarrow> sl_wake \<Rightarrow> sl_wake" where
  "wake_push e w = w\<lparr>wk_queue := wk_queue w @ [e], wk_unwritten := wk_unwritten w + 1\<rparr>"

definition wake_write :: "sl_wake \<Rightarrow> sl_wake" where
  "wake_write w = w\<lparr>wk_eventfd := wk_eventfd w + 1, wk_unwritten := wk_unwritten w - 1\<rparr>"

definition wake_clear :: "sl_wake \<Rightarrow> sl_wake" where
  "wake_clear w = w\<lparr>wk_eventfd := 0, wk_reader := Reader_popping\<rparr>"

text \<open>\<open>g_async_queue_try_pop\<close> and the handler's answer.\<close>

definition wake_pop :: "bool \<Rightarrow> sl_wake \<Rightarrow> sl_wake" where
  "wake_pop ret w =
     (case wk_queue w of
        [] \<Rightarrow> w\<lparr>wk_reader := Reader_idle\<rparr>
      | e # q \<Rightarrow> w\<lparr>wk_queue := q, wk_reader := (if ret then Reader_popping else Reader_stopped)\<rparr>)"

inductive wake_step :: "sl_wake \<Rightarrow> sl_wake \<Rightarrow> bool" where
  Push: "wake_step w (wake_push e w)"
| Write: "0 < wk_unwritten w \<Longrightarrow> wake_step w (wake_write w)"
| Clear: "wk_reader w = Reader_idle \<Longrightarrow> wake_step w (wake_clear w)"
| Pop: "wk_reader w = Reader_popping \<Longrightarrow> wake_step w (wake_pop ret w)"

end
