(* ===== verification/SlApiProps.thy ===== *)
theory SlApiProps
  imports SlApi ServiceListenerSteps
begin

text \<open>
  The service listener library as a transition system: its calls, the events that arrive and the
  application's own writes, in any order. The lemmas follow what one listener has been told: what
  its handler saw and what still waits on its queue.
\<close>

section \<open>Steps\<close>

text \<open>A step names the events it delivers and the listener it ends.\<close>

inductive sla_step ::
  "sl_api_env \<Rightarrow> (bool \<times> sld_server_event) list \<Rightarrow> nat option \<Rightarrow> sl_api \<Rightarrow> sl_api \<Rightarrow> bool" for env where
  Listen: "cmsg_service_listener_listen env service h ud st = Some (r, st') \<Longrightarrow> sla_step env [] None st st'"
| Unlisten: "p \<in> set (sa_listener_list st) \<Longrightarrow> cmsg_service_listener_unlisten env p st = Some st' \<Longrightarrow>
    sla_step env [] (Some p) st st'"
| Deliver: "deliver env evs st = Some st' \<Longrightarrow> sla_step env evs None st st'"
| Process: "cmsg_service_listener_event_queue_process p st = Some (r, st') \<Longrightarrow> sla_step env [] None st st'"
| Address_set: "cmsg_service_listener_address_set env addr st = Some (r, st') \<Longrightarrow> sla_step env [] None st st'"
| Add_host: "cmsg_service_listener_add_host env addr st = Some (r, st') \<Longrightarrow> sla_step env [] None st st'"
| Delete_host: "cmsg_service_listener_delete_host env addr st = Some (r, st') \<Longrightarrow> sla_step env [] None st st'"
| Add_server: "cmsg_service_listener_add_server env server st = Some st' \<Longrightarrow> sla_step env [] None st st'"
| Remove_server: "cmsg_service_listener_remove_server env server st = Some st' \<Longrightarrow> sla_step env [] None st st'"
| Loop_data: "cmsg_service_listener_event_loop_data_set p data st = Some st' \<Longrightarrow> sla_step env [] None st st'"
| Memory: "sla_step env [] None st (st\<lparr>sa_memory := m\<rparr>)"

inductive sla_reachable :: "sl_api_env \<Rightarrow> sl_api \<Rightarrow> bool" for env where
  Start: "sla_reachable env sl_api_init"
| Step: "sla_reachable env st \<Longrightarrow> sla_step env evs gone st st' \<Longrightarrow> sla_reachable env st'"

text \<open>A run in which listener \<open>p\<close> stays, with all the events it delivers.\<close>

inductive sla_run :: "sl_api_env \<Rightarrow> nat \<Rightarrow> sl_api \<Rightarrow> (bool \<times> sld_server_event) list \<Rightarrow> sl_api \<Rightarrow> bool" for env p where
  Start: "sla_run env p st [] st"
| Step: "sla_run env p st evs st' \<Longrightarrow> sla_step env es gone st' st'' \<Longrightarrow> gone \<noteq> Some p \<Longrightarrow>
    sla_run env p st (evs @ es) st''"

section \<open>What a listener has been told\<close>

definition server_transport_key :: "cmsg_transport option \<Rightarrow> server_key" where
  "server_transport_key t = info_key (the (cmsg_transport_info_create (the t)))"

definition tell :: "bool \<Rightarrow> server_key \<Rightarrow> server_key multiset \<Rightarrow> server_key multiset" where
  "tell added k K = (if added then add_mset k K else K - {#k#})"

text \<open>The calls of its handler so far, and those its queue holds.\<close>

fun call_of :: "nat \<Rightarrow> sl_api_event \<Rightarrow> (bool \<times> cmsg_transport option) list" where
  "call_of p (Sla_call q added t) = (if q = p then [(added, t)] else [])"
| "call_of p _ = []"

definition calls :: "nat \<Rightarrow> sl_api_event list \<Rightarrow> (bool \<times> cmsg_transport option) list" where
  "calls p tr = concat (map (call_of p) tr)"

definition waiting :: "cmsg_sl_event list \<Rightarrow> (bool \<times> cmsg_transport option) list" where
  "waiting q = map (\<lambda>e. (se_added e, se_transport e)) q"

definition told :: "sl_api \<Rightarrow> nat \<Rightarrow> (bool \<times> cmsg_transport option) list" where
  "told st p = calls p (sa_trace st) @ waiting (in_queue (the (sa_infos st p)))"

text \<open>What they add up to.\<close>

definition tally :: "(bool \<times> cmsg_transport option) list \<Rightarrow> server_key multiset" where
  "tally cs = fold (\<lambda>(a, t). tell a (server_transport_key t)) cs {#}"

lemma calls_Nil [simp]: "calls p [] = []"
  by (simp add: calls_def)

lemma calls_append [simp]: "calls p (tr @ evs) = calls p tr @ calls p evs"
  by (simp add: calls_def)

lemma calls_Cons [simp]: "calls p (ev # evs) = call_of p ev @ calls p evs"
  by (simp add: calls_def)

lemma waiting_simps [simp]: "waiting [] = []" "waiting (e # q) = (se_added e, se_transport e) # waiting q"
  "waiting (q @ r) = waiting q @ waiting r"
  by (simp_all add: waiting_def)

lemma log_fields [simp]:
  "sa_infos (sla_log ev st) = sa_infos st" "sa_listener_list (sla_log ev st) = sa_listener_list st"
  "sa_event_server (sla_log ev st) = sa_event_server st" "sa_next (sla_log ev st) = sa_next st"
  "sa_id (sla_log ev st) = sa_id st" "sa_trace (sla_log ev st) = sa_trace st @ [ev]"
  "sa_sld_running (sla_log ev st) = sa_sld_running st" "sa_memory (sla_log ev st) = sa_memory st"
  by (simp_all add: sla_log_def)

section \<open>The events of the daemon\<close>

fun sent_event :: "nat \<Rightarrow> sld_event \<Rightarrow> (bool \<times> sld_server_event) list" where
  "sent_event q (Sld_notify added p i s ok) =
     (if p = q \<and> ok then [(added, \<lparr>ev_id = i, ev_service_info = s\<rparr>)] else [])"
| "sent_event q _ = []"

definition sent_to :: "nat \<Rightarrow> sld_event list \<Rightarrow> (bool \<times> sld_server_event) list" where
  "sent_to q tr = concat (map (sent_event q) tr)"

definition with_id :: "u32 \<Rightarrow> (bool \<times> sld_server_event) list \<Rightarrow> (bool \<times> sld_server_event) list" where
  "with_id i evs = filter (\<lambda>(_, e). ev_id e = i) evs"

definition announced :: "(bool \<times> sld_server_event) list \<Rightarrow> server_key multiset \<Rightarrow> server_key multiset" where
  "announced evs K = fold (\<lambda>(a, e). announce a (ev_service_info e)) evs K"

lemma announced_append [simp]: "announced (a @ b) K = announced b (announced a K)"
  by (simp add: announced_def)

lemma announced_simps [simp]:
  "announced [] K = K" "announced ((a, e) # evs) K = announced evs (announce a (ev_service_info e) K)"
  by (simp_all add: announced_def)

lemma with_id_simps [simp]:
  "with_id i [] = []" "with_id i ((a, e) # evs) = (if ev_id e = i then (a, e) # with_id i evs else with_id i evs)"
  "with_id i (evs @ es) = with_id i evs @ with_id i es"
  by (simp_all add: with_id_def)

lemma known_announced: "known tr q i = announced (with_id i (sent_to q tr)) {#}"
proof (induction tr rule: rev_induct)
  case (snoc ev tr)
  have "sent_to q (tr @ [ev]) = sent_to q tr @ sent_event q ev" by (simp add: sent_to_def)
  with snoc show ?case by (cases ev) auto
qed (simp add: sent_to_def)

lemma sent_to_ok:
  assumes "trace_ok tr" "(a, e) \<in> set (sent_to q tr)"
  shows "info_ok (si_transport (ev_service_info e))"
proof -
  obtain ev where "ev \<in> set tr" "(a, e) \<in> set (sent_event q ev)" using assms(2) by (auto simp: sent_to_def)
  with assms(1) show ?thesis by (cases ev) (auto split: if_splits)
qed

section \<open>Steps and one listener\<close>

lemma get_client_frame:
  "cmsg_sl_get_client env st = Some st' \<Longrightarrow> st' = st\<lparr>sa_sld_running := True\<rparr>"
  by (auto simp: cmsg_sl_get_client_def split: if_splits)

lemma sl_send_frame:
  "sl_send env ev st = Some (r, st') \<Longrightarrow> st' = sla_log ev (st\<lparr>sa_sld_running := True\<rparr>)"
  by (auto simp: sl_send_def dest: get_client_frame)

lemma service_listener_frame:
  "service_listener_listen env service listen i st = Some st' \<Longrightarrow>
    \<exists>li. st' = sla_log (Sla_listen listen li) (st\<lparr>sa_sld_running := True\<rparr>)"
  by (auto simp: service_listener_listen_def bind_eq_Some_conv dest: sl_send_frame)

text \<open>The event server as the daemon is told of it, and what making and ending it changes.\<close>

definition event_server_info :: "sl_api_env \<Rightarrow> cmsg_transport \<Rightarrow> service_info" where
  "event_server_info env t = \<lparr>si_ptr = 0, si_service = ''cmsg_sld.events'', si_transport = Info_unix True (sun_path t),
     si_local = False, si_pid = own_pid env\<rparr>"

lemma event_transport_type [simp]: "t_type (event_transport env) = CMSG_TRANSPORT_ONEWAY_UNIX"
  by (simp add: event_transport_def)

lemma event_server_message:
  "t_type t = CMSG_TRANSPORT_ONEWAY_UNIX \<Longrightarrow>
    cmsg_service_listener_add_server env (''cmsg_sld.events'', t) st =
      map_option snd (sl_send env (Sla_server True (event_server_info env t)) st)"
  "t_type t = CMSG_TRANSPORT_ONEWAY_UNIX \<Longrightarrow>
    cmsg_service_listener_remove_server env (''cmsg_sld.events'', t) st =
      map_option snd (sl_send env (Sla_server False (event_server_info env t)) st)"
  by (simp_all add: cmsg_service_listener_add_server_def cmsg_service_listener_remove_server_def
      cmsg_server_service_info_create_def cmsg_transport_info_create_def event_server_info_def)

lemma event_server_init_frame:
  "event_server_init env st = Some st' \<Longrightarrow> st' = st\<lparr>sa_event_server := Some (event_transport env), sa_sld_running := True,
    sa_trace := sa_trace st @ [Sla_server True (event_server_info env (event_transport env)), Sla_start (event_transport env)]\<rparr>"
  by (auto simp: event_server_init_def event_server_message Let_def sla_log_def dest!: sl_send_frame)

lemma event_server_deinit_frame:
  assumes "event_server_deinit env st = Some st'" "\<forall>t. sa_event_server st = Some t \<longrightarrow> t_type t = CMSG_TRANSPORT_ONEWAY_UNIX"
  shows "st' = st\<lparr>sa_sld_running := True,
    sa_trace := sa_trace st @ [Sla_stop, Sla_server False (event_server_info env (the (sa_event_server st)))], sa_event_server := None\<rparr>"
  using assms
  by (auto simp: event_server_deinit_def event_server_message bind_eq_Some_conv sla_log_def dest!: sl_send_frame)

section \<open>The invariant\<close>

text \<open>
  The list holds exactly the structures in use; pointers and ids are given out in step; a pointer
  not yet given out was never called; the event server runs while there are listeners.
\<close>

definition sla_inv :: "sl_api \<Rightarrow> bool" where
  "sla_inv st \<longleftrightarrow> distinct (sa_listener_list st) \<and> set (sa_listener_list st) = dom (sa_infos st) \<and>
     (\<forall>q info. sa_infos st q = Some info \<longrightarrow> q < sa_next st \<and> in_id info = of_nat q) \<and>
     sa_id st = of_nat (sa_next st) \<and> (\<forall>q \<ge> sa_next st. calls q (sa_trace st) = []) \<and>
     (sa_event_server st = None \<longleftrightarrow> sa_listener_list st = []) \<and>
     (\<forall>t. sa_event_server st = Some t \<longrightarrow> t_type t = CMSG_TRANSPORT_ONEWAY_UNIX)"

lemma sla_inv_init: "sla_inv sl_api_init"
  by (simp add: sla_inv_def sl_api_init_def)

text \<open>An operation that leaves listener \<open>p\<close> as it was told.\<close>

definition keeps :: "nat \<Rightarrow> sl_api \<Rightarrow> sl_api \<Rightarrow> bool" where
  "keeps p st st' \<longleftrightarrow> told st' p = told st p \<and>
     map_option in_id (sa_infos st' p) = map_option in_id (sa_infos st p)"

lemma keepsI:
  "sa_infos st' p = sa_infos st p \<Longrightarrow> calls p (sa_trace st') = calls p (sa_trace st) \<Longrightarrow> keeps p st st'"
  by (simp add: keeps_def told_def)

lemma sl_send_keeps:
  assumes "sl_send env ev st = Some (r, st')" "\<And>q. call_of q ev = []"
  shows "keeps p st st' \<and> (sla_inv st \<longrightarrow> sla_inv st')"
proof -
  have "st' = sla_log ev (st\<lparr>sa_sld_running := True\<rparr>)" by (rule sl_send_frame [OF assms(1)])
  then show ?thesis using assms(2) by (auto simp: sla_inv_def intro!: keepsI)
qed

lemma server_message_keeps:
  assumes "cmsg_service_listener_add_server env server st = Some st' \<or>
    cmsg_service_listener_remove_server env server st = Some st'"
  shows "keeps p st st' \<and> (sla_inv st \<longrightarrow> sla_inv st')"
proof (cases "cmsg_server_service_info_create env server")
  case None
  with assms show ?thesis
    by (auto simp: cmsg_service_listener_add_server_def cmsg_service_listener_remove_server_def keeps_def)
next
  case (Some msg)
  with assms obtain b msg' r where "sl_send env (Sla_server b msg') st = Some (r, st')"
    by (auto simp: cmsg_service_listener_add_server_def cmsg_service_listener_remove_server_def)
  then show ?thesis by (rule sl_send_keeps) simp
qed

lemma listen_keeps:
  assumes "cmsg_service_listener_listen env service h ud st = Some (r, st')" "sla_inv st"
  shows "sla_inv st' \<and> (p \<in> dom (sa_infos st) \<longrightarrow> keeps p st st') \<and>
    (r = Some q \<longrightarrow> q = sa_next st \<and> sa_next st' = Suc q \<and> told st' q = [] \<and> sa_infos st' q =
       Some \<lparr>in_service_name = service, in_handler = h, in_id = of_nat q, in_user_data = ud, in_queue = [],
             in_eventfd = 0, in_event_loop_data = None\<rparr>)"
proof -
  obtain r1 st1 where c: "cmsg_service_listener_info_create env service h ud st = (r1, st1)" by fastforce
  show ?thesis
  proof (cases r1)
    case None
    with c have "st1 = st" by (auto simp: cmsg_service_listener_info_create_def Let_def split: if_splits)
    then show ?thesis using assms c None by (auto simp: cmsg_service_listener_listen_def keeps_def)
  next
    case (Some n)
    let ?info = "\<lparr>in_service_name = service, in_handler = h, in_id = sa_id st, in_user_data = ud, in_queue = [],
             in_eventfd = 0, in_event_loop_data = None\<rparr>"
    have st1: "n = sa_next st" "st1 = st\<lparr>sa_infos := (sa_infos st)(n \<mapsto> ?info), sa_next := n + 1, sa_id := sa_id st + 1\<rparr>"
      using c Some by (auto simp: cmsg_service_listener_info_create_def Let_def split: if_splits)
    let ?st2 = "st1\<lparr>sa_listener_list := n # sa_listener_list st1\<rparr>"
    have "Option.bind (if length (sa_listener_list ?st2) = 1 then event_server_init env ?st2 else Some ?st2) (\<lambda>st.
        Option.bind (sa_infos st n) (\<lambda>info.
          map_option (Pair (Some n)) (service_listener_listen env service True (in_id info) st))) = Some (r, st')"
      using assms(1) c Some by (simp add: cmsg_service_listener_listen_def Let_def)
    then obtain st3 info where st3: "(if length (sa_listener_list ?st2) = 1 then event_server_init env ?st2 else Some ?st2) = Some st3"
      "sa_infos st3 n = Some info" and r0: "r = Some n" "service_listener_listen env service True (in_id info) st3 = Some st'"
      unfolding bind_eq_Some_conv by auto
    have frame: "sa_infos st3 = sa_infos ?st2" "sa_listener_list st3 = sa_listener_list ?st2" "sa_next st3 = sa_next ?st2"
      "sa_id st3 = sa_id ?st2" "calls x (sa_trace st3) = calls x (sa_trace st)"
      "sa_event_server st3 = (if sa_listener_list st = [] then Some (event_transport env) else sa_event_server st)" for x
      using st3(1) st1(2) by (auto split: if_splits dest!: event_server_init_frame)
    then have r: "r = Some n" "service_listener_listen env service True (sa_id st) st3 = Some st'"
      using r0 st3(2) st1(2) by auto
    obtain li where st': "st' = sla_log (Sla_listen True li) (st3\<lparr>sa_sld_running := True\<rparr>)"
      using service_listener_frame [OF r(2)] by blast
    have infos: "sa_infos st' = (sa_infos st)(n \<mapsto> ?info)" "sa_listener_list st' = n # sa_listener_list st"
      "sa_next st' = Suc n" "sa_id st' = sa_id st + 1" "calls x (sa_trace st') = calls x (sa_trace st)" for x
      by (simp_all add: st' frame) (simp_all add: st1(2))
    have server: "sa_event_server st' = (if sa_listener_list st = [] then sa_event_server st' else sa_event_server st)"
      "sa_listener_list st = [] \<Longrightarrow> sa_event_server st' \<noteq> None \<and>
        (\<forall>t. sa_event_server st' = Some t \<longrightarrow> t_type t = CMSG_TRANSPORT_ONEWAY_UNIX)"
      by (simp_all add: st' frame)
    have fresh: "n \<notin> dom (sa_infos st)" "calls n (sa_trace st) = []" "sa_id st = of_nat n"
      using assms(2) by (auto simp: sla_inv_def st1(1))
    have "sla_inv st'"
      using assms(2) fresh server st1(1) by (auto simp: sla_inv_def infos less_Suc_eq split: if_splits)
    moreover have "keeps p st st'" if "p \<in> dom (sa_infos st)"
      using that fresh(1) by (intro keepsI) (auto simp: infos)
    ultimately show ?thesis
      using r(1) st1(1) fresh by (auto simp: infos told_def)
  qed
qed

lemma listen_new:
  assumes "cmsg_service_listener_listen env service h ud st = Some (Some p, st')" "sla_inv st"
  shows "sla_inv st'" "p = sa_next st" "sa_next st' = Suc p" "told st' p = []" "sa_infos st' p =
       Some \<lparr>in_service_name = service, in_handler = h, in_id = of_nat p, in_user_data = ud, in_queue = [],
             in_eventfd = 0, in_event_loop_data = None\<rparr>" "p \<in> set (sa_listener_list st')"
proof -
  note L = listen_keeps [OF assms, of p p]
  then show "sla_inv st'" and i: "sa_infos st' p =
       Some \<lparr>in_service_name = service, in_handler = h, in_id = of_nat p, in_user_data = ud, in_queue = [],
             in_eventfd = 0, in_event_loop_data = None\<rparr>"
    and "p = sa_next st" "sa_next st' = Suc p" "told st' p = []" by blast+
  with L show "p \<in> set (sa_listener_list st')" by (auto simp: sla_inv_def)
qed

lemma unlisten_keeps:
  assumes "cmsg_service_listener_unlisten env q st = Some st'" "sla_inv st" "q \<in> set (sa_listener_list st)"
  shows "sla_inv st' \<and> (p \<noteq> q \<longrightarrow> keeps p st st')"
proof -
  let ?st1 = "st\<lparr>sa_listener_list := remove1 q (sa_listener_list st)\<rparr>"
  obtain info st2 where s: "sa_infos st q = Some info"
      "service_listener_listen env (in_service_name info) False (in_id info) ?st1 = Some st2"
    and st3: "map_option (cmsg_service_listener_info_destroy q)
      (if sa_listener_list st2 = [] then event_server_deinit env st2 else Some st2) = Some st'"
    using assms(1) by (auto simp: cmsg_service_listener_unlisten_def Let_def bind_eq_Some_conv)
  obtain li where st2: "st2 = sla_log (Sla_listen False li) (?st1\<lparr>sa_sld_running := True\<rparr>)"
    using service_listener_frame [OF s(2)] by blast
  have f: "sa_infos st' = (sa_infos st)(q := None)" "sa_listener_list st' = remove1 q (sa_listener_list st)"
    "sa_next st' = sa_next st" "sa_id st' = sa_id st" "calls x (sa_trace st') = calls x (sa_trace st)"
    "sa_event_server st' = (if remove1 q (sa_listener_list st) = [] then None else sa_event_server st)" for x
  proof -
    have "\<forall>t. sa_event_server st2 = Some t \<longrightarrow> t_type t = CMSG_TRANSPORT_ONEWAY_UNIX"
      using assms(2) by (simp add: st2 sla_inv_def)
    note deinit = event_server_deinit_frame [OF _ this]
    have "\<exists>st3. st' = cmsg_service_listener_info_destroy q st3 \<and> sa_infos st3 = sa_infos st2 \<and>
      sa_listener_list st3 = sa_listener_list st2 \<and> sa_next st3 = sa_next st2 \<and> sa_id st3 = sa_id st2 \<and>
      (\<forall>x. calls x (sa_trace st3) = calls x (sa_trace st2)) \<and>
      sa_event_server st3 = (if sa_listener_list st2 = [] then None else sa_event_server st2)"
      using st3 by (auto split: if_splits dest!: deinit)
    then show "sa_infos st' = (sa_infos st)(q := None)" "sa_listener_list st' = remove1 q (sa_listener_list st)"
      "sa_next st' = sa_next st" "sa_id st' = sa_id st" "calls x (sa_trace st') = calls x (sa_trace st)"
      "sa_event_server st' = (if remove1 q (sa_listener_list st) = [] then None else sa_event_server st)" for x
      by (auto simp: st2 cmsg_service_listener_info_destroy_def)
  qed
  have "sla_inv st'"
    using assms(2,3) by (auto simp: sla_inv_def f)
  moreover have "keeps p st st'" if "p \<noteq> q"
    using that by (intro keepsI) (auto simp: f)
  ultimately show ?thesis by blast
qed

lemma process_events_frame:
  "process_events p info ret q st = Some (r, left, st') \<Longrightarrow>
    sa_infos st' = sa_infos st \<and> sa_listener_list st' = sa_listener_list st \<and> sa_next st' = sa_next st \<and>
    sa_id st' = sa_id st \<and> sa_event_server st' = sa_event_server st \<and>
    calls p (sa_trace st') @ waiting left = calls p (sa_trace st) @ waiting q \<and>
    (\<forall>x. x \<noteq> p \<longrightarrow> calls x (sa_trace st') = calls x (sa_trace st))"
proof (induction q arbitrary: ret st)
  case (Cons e q)
  obtain go m where h: "in_handler info (se_transport e) (se_added e) (in_user_data info) (sa_memory st) = Some (go, m)"
    using Cons.prems by (auto simp: bind_eq_Some_conv)
  let ?st = "sla_log (Sla_call p (se_added e) (se_transport e)) (st\<lparr>sa_memory := m\<rparr>)"
  show ?case
  proof (cases go)
    case True
    then show ?thesis using Cons.IH [of go ?st] Cons.prems h by (simp add: Let_def)
  next
    case False
    then show ?thesis using Cons.prems h by (auto simp: Let_def)
  qed
qed auto

lemma process_keeps:
  assumes "cmsg_service_listener_event_queue_process q st = Some (r, st')" "sla_inv st"
  shows "sla_inv st' \<and> keeps p st st'"
proof -
  obtain info left st1 where i: "sa_infos st q = Some info"
      "process_events q info True (in_queue info) st = Some (r, left, st1)"
    and st': "st' = st1\<lparr>sa_infos := (sa_infos st1)(q \<mapsto> info\<lparr>in_queue := left, in_eventfd := 0\<rparr>)\<rparr>"
    using assms(1) by (auto simp: cmsg_service_listener_event_queue_process_def bind_eq_Some_conv)
  note F = process_events_frame [OF i(2)]
  have "q < sa_next st" using assms(2) i(1) by (auto simp: sla_inv_def)
  then have "calls x (sa_trace st1) = calls x (sa_trace st)" if "sa_next st \<le> x" for x using F that by auto
  then have "sla_inv st'"
    using assms(2) i(1) F by (auto simp: sla_inv_def st' dom_def)
  moreover have "keeps p st st'"
    using i(1) F by (cases "p = q") (auto simp: keeps_def told_def st')
  ultimately show ?thesis by blast
qed

section \<open>Deliveries\<close>

text \<open>An event as the call it leads to, and what deliveries do to what one listener has been told.\<close>

definition handed :: "bool \<times> sld_server_event \<Rightarrow> bool \<times> cmsg_transport option" where
  "handed ae = (fst ae, Some (transport_of_info (si_transport (ev_service_info (snd ae)))))"

lemma tally_handed:
  assumes "\<forall>(a, e) \<in> set evs. info_ok (si_transport (ev_service_info e))"
  shows "tally (map handed evs) = announced evs {#}"
proof -
  have "fold (\<lambda>(a, t). tell a (server_transport_key t)) (map handed evs) K = announced evs K" for K
    using assms
    by (induction evs arbitrary: K)
      (auto simp: handed_def tell_def announce_def server_transport_key_def server_key_def info_create_of_info)
  then show ?thesis by (simp add: tally_def)
qed

definition hears :: "nat \<Rightarrow> (bool \<times> sld_server_event) list \<Rightarrow> sl_api \<Rightarrow> sl_api \<Rightarrow> bool" where
  "hears p evs st st' \<longleftrightarrow>
     map_option in_id (sa_infos st' p) = map_option in_id (sa_infos st p) \<and>
     (\<forall>i. map_option in_id (sa_infos st p) = Some i \<longrightarrow>
       (\<forall>(a, e) \<in> set (with_id i evs). info_ok (si_transport (ev_service_info e))) \<longrightarrow>
       told st' p = told st p @ map handed (with_id i evs))"

lemma keeps_hears: "keeps p st st' \<Longrightarrow> hears p [] st st'"
  by (simp add: keeps_def hears_def)

lemma hears_trans: "hears p a st st1 \<Longrightarrow> hears p b st1 st2 \<Longrightarrow> hears p (a @ b) st st2"
  by (auto simp: hears_def)

text \<open>Nothing but the structures (and the trace) changes, and the same ones are in use.\<close>

definition same_list :: "sl_api \<Rightarrow> sl_api \<Rightarrow> bool" where
  "same_list st st' \<longleftrightarrow> sa_listener_list st' = sa_listener_list st \<and> sa_next st' = sa_next st \<and> sa_id st' = sa_id st \<and>
     sa_event_server st' = sa_event_server st \<and> (\<forall>q. calls q (sa_trace st') = calls q (sa_trace st)) \<and>
     (\<forall>q. map_option in_id (sa_infos st' q) = map_option in_id (sa_infos st q))"

lemma same_list_inv:
  assumes "same_list st st'" "sla_inv st"
  shows "sla_inv st'"
proof -
  have ids: "map_option in_id (sa_infos st' q) = map_option in_id (sa_infos st q)" for q
    using assms(1) by (simp add: same_list_def)
  have "dom (sa_infos st') = dom (sa_infos st)"
    using ids by (metis (no_types, lifting) domIff map_option_is_None subsetI subset_antisym)
  moreover have "q < sa_next st \<and> in_id info = of_nat q" if "sa_infos st' q = Some info" for q info
    using ids [of q] that assms(2) by (cases "sa_infos st q") (auto simp: sla_inv_def)
  ultimately show ?thesis
    using assms by (auto simp: same_list_def sla_inv_def)
qed

lemma same_list_trans: "same_list a b \<Longrightarrow> same_list b c \<Longrightarrow> same_list a c"
  by (simp add: same_list_def)

lemma notify_one_result:
  assumes "notify_one env e a q st = Some st'"
  shows "same_list st st' \<and> (\<forall>p. p \<noteq> q \<longrightarrow> sa_infos st' p = sa_infos st p) \<and> sa_trace st' = sa_trace st"
    and "(\<forall>tr. event_alloc env tr q) \<Longrightarrow> hears q [(a, e)] st st'"
proof -
  obtain info where q: "sa_infos st q = Some info" using assms by (auto simp: notify_one_def bind_eq_Some_conv)
  then show "same_list st st' \<and> (\<forall>p. p \<noteq> q \<longrightarrow> sa_infos st' p = sa_infos st p) \<and> sa_trace st' = sa_trace st"
    using assms by (auto simp: notify_one_def same_list_def split: if_splits)
  show "hears q [(a, e)] st st'" if al: "\<forall>tr. event_alloc env tr q"
  proof (cases "in_id info = ev_id e")
    case True
    then obtain t where t: "cmsg_transport_info_to_transport (si_transport (ev_service_info e)) = Some t"
        "st' = st\<lparr>sa_infos := (sa_infos st)(q \<mapsto> info\<lparr>in_queue := in_queue info @ [\<lparr>se_added = a, se_transport = t\<rparr>],
           in_eventfd := in_eventfd info + 1\<rparr>)\<rparr>"
      using assms q al by (auto simp: notify_one_def)
    then show ?thesis
      using q True by (auto simp: hears_def told_def handed_def info_to_transport_ok)
  next
    case False
    then show ?thesis using assms q by (auto simp: notify_one_def hears_def)
  qed
qed

lemma notify_each_listener_result:
  assumes "notify_each_listener env e a ps st = Some st'" "distinct ps"
  shows "same_list st st' \<and> sa_trace st' = sa_trace st \<and> (\<forall>p. p \<notin> set ps \<longrightarrow> sa_infos st' p = sa_infos st p)"
    and "p \<in> set ps \<Longrightarrow> (\<forall>tr. event_alloc env tr p) \<Longrightarrow> hears p [(a, e)] st st'"
proof -
  have "(same_list st st' \<and> sa_trace st' = sa_trace st \<and> (\<forall>p. p \<notin> set ps \<longrightarrow> sa_infos st' p = sa_infos st p)) \<and>
    (p \<in> set ps \<longrightarrow> (\<forall>tr. event_alloc env tr p) \<longrightarrow> hears p [(a, e)] st st')"
    using assms
  proof (induction ps arbitrary: st)
    case (Cons q ps)
    obtain st1 where s: "notify_one env e a q st = Some st1" "notify_each_listener env e a ps st1 = Some st'"
      using Cons.prems(1) by (auto simp: bind_eq_Some_conv)
    have IH: "same_list st1 st'" "sa_trace st' = sa_trace st1" "\<And>p. p \<notin> set ps \<Longrightarrow> sa_infos st' p = sa_infos st1 p"
      "p \<in> set ps \<Longrightarrow> (\<forall>tr. event_alloc env tr p) \<Longrightarrow> hears p [(a, e)] st1 st'"
      using Cons.IH [OF s(2)] Cons.prems(2) by auto
    note N = notify_one_result [OF s(1)]
    have "hears p [(a, e)] st st'" if "p \<in> set (q # ps)" "\<forall>tr. event_alloc env tr p"
    proof (cases "p = q")
      case True
      then have "hears p [] st1 st'" using IH(2,3) Cons.prems(2) by (intro keeps_hears keepsI) auto
      with True N(2) that(2) show ?thesis using hears_trans [of p "[(a, e)]" st st1 "[]" st'] by simp
    next
      case False
      then have "hears p [] st st1" using N(1) by (intro keeps_hears keepsI) auto
      moreover have "hears p [(a, e)] st1 st'" using IH(4) that False by simp
      ultimately show ?thesis using hears_trans [of p "[]" st st1 "[(a, e)]" st'] by simp
    qed
    then show ?case using IH(1-3) N(1) Cons.prems(2) by (auto intro: same_list_trans)
  qed (auto simp: same_list_def)
  then show "same_list st st' \<and> sa_trace st' = sa_trace st \<and> (\<forall>p. p \<notin> set ps \<longrightarrow> sa_infos st' p = sa_infos st p)"
    and "p \<in> set ps \<Longrightarrow> (\<forall>tr. event_alloc env tr p) \<Longrightarrow> hears p [(a, e)] st st'" by blast+
qed

lemma deliver_result:
  assumes "deliver env evs st = Some st'" "sla_inv st"
  shows "sla_inv st' \<and> (p \<in> set (sa_listener_list st) \<longrightarrow> (\<forall>tr. event_alloc env tr p) \<longrightarrow> hears p evs st st')"
  using assms
proof (induction env evs st rule: deliver.induct)
  case (2 env a e rest st)
  obtain st1 where s: "notify_listener env e a st = Some st1"
      "deliver env rest (sla_log (Sla_reply a) st1) = Some st'"
    using "2.prems"(1)
    by (auto simp: bind_eq_Some_conv cmsg_sld_events_impl_server_added_def cmsg_sld_events_impl_server_removed_def
        split: if_splits)
  have d: "distinct (sa_listener_list st)" using "2.prems"(2) by (simp add: sla_inv_def)
  note N = notify_each_listener_result [OF s(1) [unfolded notify_listener_def] d]
  have L: "same_list st (sla_log (Sla_reply a) st1)" using N(1) by (auto simp: same_list_def)
  have "(if a then cmsg_sld_events_impl_server_added env e st else cmsg_sld_events_impl_server_removed env e st)
      = Some (sla_log (Sla_reply a) st1)"
    using s(1) by (cases a) (simp_all add: cmsg_sld_events_impl_server_added_def cmsg_sld_events_impl_server_removed_def)
  note IH = "2.IH" [OF this s(2) same_list_inv [OF L "2.prems"(2)]]
  have "hears p ((a, e) # rest) st st'" if "p \<in> set (sa_listener_list st)" "\<forall>tr. event_alloc env tr p"
  proof -
    have "hears p [(a, e)] st st1" using N(2) that by blast
    moreover have "hears p [] st1 (sla_log (Sla_reply a) st1)" by (intro keeps_hears keepsI) simp_all
    ultimately have "hears p [(a, e)] st (sla_log (Sla_reply a) st1)"
      using hears_trans [of p "[(a, e)]" st st1 "[]"] by simp
    then show ?thesis using IH that L hears_trans [of p "[(a, e)]" st _ rest st'] by (simp add: same_list_def)
  qed
  then show ?case using IH by blast
qed (simp add: hears_def)

section \<open>Every step\<close>

lemma sla_step_result:
  assumes "sla_step env evs gone st st'" "sla_inv st"
  shows "sla_inv st' \<and> (p \<in> set (sa_listener_list st) \<longrightarrow> gone \<noteq> Some p \<longrightarrow>
    (\<forall>tr. event_alloc env tr p) \<longrightarrow> p \<in> set (sa_listener_list st') \<and> hears p evs st st')"
proof -
  have dom: "set (sa_listener_list st) = dom (sa_infos st)" using assms(2) by (simp add: sla_inv_def)
  have main: "sla_inv st' \<and> (p \<in> set (sa_listener_list st) \<longrightarrow> gone \<noteq> Some p \<longrightarrow>
    (\<forall>tr. event_alloc env tr p) \<longrightarrow> hears p evs st st')"
    using assms(1)
  proof (cases rule: sla_step.cases)
    case Listen
    then show ?thesis using listen_keeps [OF Listen(3) assms(2), of p] dom by (auto intro: keeps_hears)
  next
    case Unlisten
    then show ?thesis using unlisten_keeps [OF _ assms(2)] by (auto intro: keeps_hears)
  next
    case Deliver
    then show ?thesis using deliver_result [OF _ assms(2)] by blast
  next
    case Process
    then show ?thesis using process_keeps [OF _ assms(2)] by (auto intro: keeps_hears)
  next
    case (Loop_data q data)
    then obtain info where "sa_infos st q = Some info"
        "st' = st\<lparr>sa_infos := (sa_infos st)(q \<mapsto> info\<lparr>in_event_loop_data := data\<rparr>)\<rparr>"
      by (auto simp: cmsg_service_listener_event_loop_data_set_def)
    then have "same_list st st'" "keeps p st st'"
      by (auto simp: same_list_def keeps_def told_def)
    then show ?thesis using same_list_inv assms(2) Loop_data keeps_hears by blast
  next
    case Memory
    then show ?thesis using assms(2) by (auto simp: sla_inv_def intro!: keeps_hears keepsI)
  next
    case (Add_server server)
    then show ?thesis using server_message_keeps [of env server st st' p] assms(2) by (simp add: keeps_hears)
  next
    case (Remove_server server)
    then show ?thesis using server_message_keeps [of env server st st' p] assms(2) by (simp add: keeps_hears)
  qed (use assms(2) in \<open>auto simp: cmsg_service_listener_address_set_def cmsg_service_listener_add_host_def
      cmsg_service_listener_delete_host_def dest!: sl_send_keeps [where p = p] intro: keeps_hears\<close>)
  moreover have "p \<in> set (sa_listener_list st')" if "p \<in> set (sa_listener_list st)" "hears p evs st st'" "sla_inv st'"
    using that dom by (auto simp: hears_def sla_inv_def)
  ultimately show ?thesis by blast
qed

lemma sla_reachable_inv: "sla_reachable env st \<Longrightarrow> sla_inv st"
  by (induction rule: sla_reachable.induct) (auto simp: sla_inv_init dest: sla_step_result)

lemma sla_run_result:
  assumes "sla_run env p st evs st'" "sla_inv st" "p \<in> set (sa_listener_list st)" "\<forall>tr. event_alloc env tr p"
  shows "sla_inv st' \<and> p \<in> set (sa_listener_list st') \<and> hears p evs st st'"
  using assms
proof (induction rule: sla_run.induct)
  case (Step st evs st' es gone st'')
  then have "sla_inv st'" "p \<in> set (sa_listener_list st')" "hears p evs st st'" by auto
  with sla_step_result [OF Step.hyps(2), of p] Step show ?case by (auto intro: hears_trans)
qed (simp add: hears_def)

section \<open>Calls that return\<close>

text \<open>The loop ends at the first success, if there is one.\<close>

lemma sl_connect_loop_returns: "answer (n + k) = 0 \<Longrightarrow> \<exists>m. sl_connect_loop answer n = Some m"
proof (induction k arbitrary: n)
  case (Suc k)
  then show ?case using Suc.IH [of "n + 1"] by (subst sl_connect_loop.simps) auto
qed (subst sl_connect_loop.simps, auto)

lemma sl_connect_loop_success: "sl_connect_loop answer n = Some m \<Longrightarrow> answer m = 0"
  by (rule sl_connect_loop.raw_induct [of "\<lambda>answer n m. answer m = 0"]) (auto split: if_splits)

definition daemon_up :: "sl_api_env \<Rightarrow> sl_api \<Rightarrow> bool" where
  "daemon_up env st \<longleftrightarrow> sa_sld_running st \<or> (\<exists>n. connect_result env (sa_trace st) n = 0)"

text \<open>Nothing runs out, and the daemon answers in the end.\<close>

definition world_ok :: "sl_api_env \<Rightarrow> bool" where
  "world_ok env \<longleftrightarrow> (\<forall>tr. calloc_ok env tr \<and> strdup_ok env tr \<and> eventfd_ok env tr \<and> queue_ok env tr \<and>
     (\<forall>p. event_alloc env tr p) \<and> (\<exists>n. connect_result env tr n = 0))"

lemma world_up: "world_ok env \<Longrightarrow> daemon_up env st"
  by (simp add: world_ok_def daemon_up_def)

lemma get_client_returns:
  "cmsg_sl_get_client env st = (if daemon_up env st then Some (st\<lparr>sa_sld_running := True\<rparr>) else None)"
proof -
  have "sl_connect_loop answer 0 = None" if "\<forall>n. answer n \<noteq> 0" for answer
    using sl_connect_loop_success that by (metis option.exhaust)
  moreover have "\<exists>m. sl_connect_loop answer 0 = Some m" if "answer n = 0" for answer n
    using sl_connect_loop_returns [of answer 0 n] that by simp
  ultimately show ?thesis
    by (fastforce simp: cmsg_sl_get_client_def daemon_up_def)
qed

lemma sl_send_returns:
  "daemon_up env st \<Longrightarrow> sl_send env ev st = Some (send_result env (sa_trace st), sla_log ev (st\<lparr>sa_sld_running := True\<rparr>))"
  by (simp add: sl_send_def get_client_returns)

lemma service_listener_returns:
  assumes "daemon_up env st" "sa_event_server st = Some t" "t_type t = CMSG_TRANSPORT_ONEWAY_UNIX"
  shows "service_listener_listen env service listen i st =
    Some (sla_log (Sla_listen listen \<lparr>li_service = service, li_transport = Info_unix True (sun_path t), li_id = i,
            li_pid = (if listen then own_pid env else 0)\<rparr>) (st\<lparr>sa_sld_running := True\<rparr>))"
  using assms by (simp add: service_listener_listen_def sl_send_returns cmsg_transport_info_create_def)

lemma event_server_init_returns:
  assumes "daemon_up env st"
  shows "\<exists>st'. event_server_init env st = Some st' \<and> sa_event_server st' = Some (event_transport env) \<and>
    sa_infos st' = sa_infos st \<and> sa_listener_list st' = sa_listener_list st \<and> sa_memory st' = sa_memory st \<and> sa_sld_running st'"
  using assms by (simp add: event_server_init_def event_server_message sl_send_returns Let_def)

lemma event_server_deinit_returns:
  assumes "daemon_up env (sla_log Sla_stop st)" "sa_event_server st = Some t" "t_type t = CMSG_TRANSPORT_ONEWAY_UNIX"
  shows "\<exists>st'. event_server_deinit env st = Some st' \<and> sa_memory st' = sa_memory st"
  using assms by (simp add: event_server_deinit_def event_server_message sl_send_returns)

text \<open>Listening succeeds; \<open>st'\<close> differs in the new structure, the server and the trace.\<close>

lemma listen_returns:
  assumes "world_ok env" "sla_inv st"
  obtains st' where "cmsg_service_listener_listen env service h ud st = Some (Some (sa_next st), st')"
    "sa_memory st' = sa_memory st" "sa_listener_list st' = sa_next st # sa_listener_list st"
proof -
  let ?info = "\<lparr>in_service_name = service, in_handler = h, in_id = sa_id st, in_user_data = ud, in_queue = [],
             in_eventfd = 0, in_event_loop_data = None\<rparr>"
  let ?st2 = "st\<lparr>sa_infos := (sa_infos st)(sa_next st \<mapsto> ?info), sa_next := sa_next st + 1, sa_id := sa_id st + 1,
     sa_listener_list := sa_next st # sa_listener_list st\<rparr>"
  have "\<exists>st3 t. (if sa_listener_list st = [] then event_server_init env ?st2 else Some ?st2) = Some st3 \<and>
      sa_event_server st3 = Some t \<and> t_type t = CMSG_TRANSPORT_ONEWAY_UNIX \<and> sa_infos st3 = sa_infos ?st2 \<and>
      sa_listener_list st3 = sa_listener_list ?st2 \<and> sa_memory st3 = sa_memory st"
    using event_server_init_returns [OF world_up [OF assms(1)], of ?st2] assms(2) by (auto simp: sla_inv_def)
  then obtain st3 t where st3: "(if sa_listener_list st = [] then event_server_init env ?st2 else Some ?st2) = Some st3"
    "sa_event_server st3 = Some t" "t_type t = CMSG_TRANSPORT_ONEWAY_UNIX" "sa_infos st3 = sa_infos ?st2"
    "sa_listener_list st3 = sa_listener_list ?st2" "sa_memory st3 = sa_memory st" by blast
  have infos: "sa_infos st3 (sa_next st) = Some ?info" by (simp add: st3(4))
  from service_listener_returns [OF world_up [OF assms(1)] st3(2,3)]
  have "service_listener_listen env service True (sa_id st) st3 =
      Some (sla_log (Sla_listen True \<lparr>li_service = service, li_transport = Info_unix True (sun_path t), li_id = sa_id st,
            li_pid = own_pid env\<rparr>) (st3\<lparr>sa_sld_running := True\<rparr>))" by simp
  then have "cmsg_service_listener_listen env service h ud st = Some (Some (sa_next st),
      sla_log (Sla_listen True \<lparr>li_service = service, li_transport = Info_unix True (sun_path t), li_id = sa_id st,
            li_pid = own_pid env\<rparr>) (st3\<lparr>sa_sld_running := True\<rparr>))"
    using assms(1) st3(1) infos
    by (cases "sa_listener_list st = []")
      (simp_all add: cmsg_service_listener_listen_def cmsg_service_listener_info_create_def world_ok_def Let_def)
  then show thesis by (rule that) (simp_all add: st3(5,6))
qed

lemma unlisten_returns:
  assumes "sla_inv st" "p \<in> set (sa_listener_list st)" "world_ok env"
  obtains st' where "cmsg_service_listener_unlisten env p st = Some st'" "sa_memory st' = sa_memory st"
proof -
  obtain info t where i: "sa_infos st p = Some info" "sa_event_server st = Some t" "t_type t = CMSG_TRANSPORT_ONEWAY_UNIX"
    using assms(1,2) by (cases "sa_event_server st") (auto simp: sla_inv_def)
  let ?st1 = "st\<lparr>sa_listener_list := remove1 p (sa_listener_list st)\<rparr>"
  obtain st2 where st2: "service_listener_listen env (in_service_name info) False (in_id info) ?st1 = Some st2"
      "sa_event_server st2 = Some t" "sa_memory st2 = sa_memory st"
    using service_listener_returns [OF world_up [OF assms(3)], of ?st1 t] i by simp
  have "\<exists>st3. (if sa_listener_list st2 = [] then event_server_deinit env st2 else Some st2) = Some st3 \<and> sa_memory st3 = sa_memory st2"
    using event_server_deinit_returns [OF world_up [OF assms(3)] st2(2) i(3)] by simp
  then obtain st3 where st3: "(if sa_listener_list st2 = [] then event_server_deinit env st2 else Some st2) = Some st3"
    "sa_memory st3 = sa_memory st2" by blast
  then have "cmsg_service_listener_unlisten env p st = Some (cmsg_service_listener_info_destroy p st3)"
    using i(1) st2(1) by (simp add: cmsg_service_listener_unlisten_def Let_def)
  then show thesis by (rule that) (simp add: cmsg_service_listener_info_destroy_def st3(2) st2(3))
qed

text \<open>Handlers that accept everything empty the queue.\<close>

lemma process_all:
  assumes "\<forall>e \<in> set q. \<forall>m. \<exists>m'. in_handler info (se_transport e) (se_added e) (in_user_data info) m = Some (True, m')"
  shows "\<exists>st'. process_events p info True q st = Some (True, [], st')"
  using assms
proof (induction q arbitrary: st)
  case (Cons e q)
  then obtain m where "in_handler info (se_transport e) (se_added e) (in_user_data info) (sa_memory st) = Some (True, m)"
    by fastforce
  with Cons show ?case by (simp add: Let_def)
qed simp

section \<open>Deliveries that return\<close>

definition queued :: "bool \<times> sld_server_event \<Rightarrow> cmsg_sl_event" where
  "queued ae = \<lparr>se_added = fst ae, se_transport = Some (transport_of_info (si_transport (ev_service_info (snd ae))))\<rparr>"

definition enqueue :: "(bool \<times> sld_server_event) list \<Rightarrow> cmsg_sl_info \<Rightarrow> cmsg_sl_info" where
  "enqueue evs info = info\<lparr>in_queue := in_queue info @ map queued (with_id (in_id info) evs),
     in_eventfd := in_eventfd info + length (with_id (in_id info) evs)\<rparr>"

definition events_ok :: "(bool \<times> sld_server_event) list \<Rightarrow> bool" where
  "events_ok evs \<longleftrightarrow> (\<forall>(a, e) \<in> set evs. info_ok (si_transport (ev_service_info e)))"

lemma enqueue_simps [simp]: "enqueue [] = id" "in_id (enqueue evs info) = in_id info"
  "in_handler (enqueue evs info) = in_handler info" "in_user_data (enqueue evs info) = in_user_data info"
  by (auto simp: enqueue_def fun_eq_iff)

lemma enqueue_Cons: "enqueue (ae # evs) info = enqueue evs (enqueue [ae] info)"
  by (cases ae) (simp add: enqueue_def)

lemma notify_each_returns:
  assumes "world_ok env" "info_ok (si_transport (ev_service_info e))" "distinct ps" "set ps \<subseteq> dom (sa_infos st)"
  shows "notify_each_listener env e a ps st = Some (st\<lparr>sa_infos :=
    (\<lambda>q. if q \<in> set ps then map_option (enqueue [(a, e)]) (sa_infos st q) else sa_infos st q)\<rparr>)"
  using assms(3,4)
proof (induction ps arbitrary: st)
  case (Cons p ps)
  then obtain info where i: "sa_infos st p = Some info" by auto
  have n: "notify_one env e a p st = Some (st\<lparr>sa_infos := (sa_infos st)(p \<mapsto> enqueue [(a, e)] info)\<rparr>)"
    using i assms(1,2) by (auto simp: notify_one_def world_ok_def info_to_transport_ok enqueue_def queued_def
        fun_upd_idem)
  let ?f = "(sa_infos st)(p \<mapsto> enqueue [(a, e)] info)"
  have d: "distinct ps" "set ps \<subseteq> dom (sa_infos (st\<lparr>sa_infos := ?f\<rparr>))" using Cons.prems by auto
  have "(\<lambda>q. if q \<in> set ps then map_option (enqueue [(a, e)]) (?f q) else ?f q) =
      (\<lambda>q. if q \<in> set (p # ps) then map_option (enqueue [(a, e)]) (sa_infos st q) else sa_infos st q)"
    using Cons.prems(1) i by (auto simp: fun_eq_iff)
  with Cons.IH [OF d] n show ?case by (simp del: fun_upd_apply cong: if_cong)
qed simp

lemma deliver_returns:
  assumes "world_ok env" "events_ok evs" "sla_inv st"
  shows "deliver env evs st = Some (st\<lparr>sa_infos := map_option (enqueue evs) \<circ> sa_infos st,
    sa_trace := sa_trace st @ map (\<lambda>(a, _). Sla_reply a) evs\<rparr>)"
  using assms(2,3)
proof (induction evs arbitrary: st)
  case (Cons ae evs)
  obtain a e where ae: "ae = (a, e)" by fastforce
  have inv: "distinct (sa_listener_list st)" "set (sa_listener_list st) = dom (sa_infos st)"
    using Cons.prems(2) by (simp_all add: sla_inv_def)
  have ok: "info_ok (si_transport (ev_service_info e))" "events_ok evs"
    using Cons.prems(1) by (simp_all add: events_ok_def ae)
  let ?st1 = "st\<lparr>sa_infos := map_option (enqueue [ae]) \<circ> sa_infos st\<rparr>"
  have "notify_each_listener env e a (sa_listener_list st) st = Some ?st1"
    using notify_each_returns [OF assms(1) ok(1) inv(1), of st a] inv(2)
    by (auto simp: ae fun_eq_iff dom_def intro!: arg_cong [where f = "\<lambda>f. st\<lparr>sa_infos := f\<rparr>"])
  then have n: "notify_listener env e a st = Some ?st1" by (simp add: notify_listener_def)
  then have d: "deliver env [ae] st = Some (sla_log (Sla_reply a) ?st1)"
    by (cases a) (simp_all add: ae cmsg_sld_events_impl_server_added_def cmsg_sld_events_impl_server_removed_def)
  from deliver_result [OF this Cons.prems(2)] have "sla_inv (sla_log (Sla_reply a) ?st1)" by blast
  note IH = Cons.IH [OF ok(2) this]
  have "map_option (enqueue (ae # evs)) \<circ> sa_infos st = map_option (enqueue evs) \<circ> (map_option (enqueue [ae]) \<circ> sa_infos st)"
    by (simp add: fun_eq_iff option.map_comp comp_def flip: enqueue_Cons)
  then show ?case
    using IH n by (cases a) (simp_all add: ae sla_log_def cmsg_sld_events_impl_server_added_def
        cmsg_sld_events_impl_server_removed_def)
qed (simp add: option.map_id0)

section \<open>Two listeners of one process\<close>

text \<open>The messages of a process, handled by the daemon in order.\<close>

fun daemon_hears :: "sld_env \<Rightarrow> sl_api_event list \<Rightarrow> sld_state \<Rightarrow> sld_state option" where
  "daemon_hears denv [] d = Some d"
| "daemon_hears denv (ev # evs) d =
     Option.bind
       (case ev of
          Sla_listen listen li \<Rightarrow>
            if listen then cmsg_sld_configuration_impl_listen denv li d else cmsg_sld_configuration_impl_unlisten li d
        | Sla_address_set addr \<Rightarrow> Some (cmsg_sld_configuration_impl_address_set addr d)
        | Sla_host add addr \<Rightarrow>
            if add then cmsg_sld_configuration_impl_add_host denv addr d
            else cmsg_sld_configuration_impl_delete_host denv addr d
        | Sla_server add info \<Rightarrow>
            if add then cmsg_sld_configuration_impl_add_server denv info d
            else cmsg_sld_configuration_impl_remove_server denv info d
        | _ \<Rightarrow> Some d) (daemon_hears denv evs)"

definition event_path :: "sl_api_env \<Rightarrow> string" where
  "event_path env = take 106 (''/tmp/cmsg_sld.events.'' @ decimal (unat (own_pid env)))"

lemma event_path_ok: "info_ok (Info_unix b (event_path env))"
proof -
  have "CHR ''%'' \<notin> set (''/tmp/cmsg_sld.events.'' @ decimal (unat (own_pid env)))" by simp
  then have "CHR ''%'' \<notin> set (event_path env)" unfolding event_path_def by (meson in_set_takeD)
  then show ?thesis by (simp add: info_ok_def event_path_def)
qed

lemma world_client: "world_ok env \<Longrightarrow> cmsg_sl_get_client env st = Some (st\<lparr>sa_sld_running := True\<rparr>)"
  by (simp add: get_client_returns world_up)

abbreviation listen_message :: "sl_api_env \<Rightarrow> string \<Rightarrow> u32 \<Rightarrow> u32 \<Rightarrow> sld_listener_info" where
  "listen_message env service i pid \<equiv>
     \<lparr>li_service = service, li_transport = Info_unix True (event_path env), li_id = i, li_pid = pid\<rparr>"

text \<open>Listening twice and ending the first: what the daemon is sent, and what is left.\<close>

lemma listen_twice:
  assumes "world_ok env" "cmsg_service_listener_listen env service h1 u1 sl_api_init = Some (Some p1, st1)"
    and "cmsg_service_listener_listen env service h2 u2 st1 = Some (Some p2, st2)"
    and "cmsg_service_listener_unlisten env p1 st2 = Some st3"
  shows "\<exists>t. sa_trace st3 = [Sla_server True (event_server_info env (event_transport env)), Sla_start t,
      Sla_listen True (listen_message env service 0 (own_pid env)),
      Sla_listen True (listen_message env service 1 (own_pid env)), Sla_listen False (listen_message env service 0 0)] \<and>
    sa_listener_list st3 = [p2] \<and> p2 = 1 \<and>
    map_option in_id (sa_infos st3 p2) = Some 1"
proof -
  have path: "sun_path (event_transport env) = event_path env" by (simp add: event_transport_def event_path_def)
  have ok: "calloc_ok env tr" "strdup_ok env tr" "eventfd_ok env tr" "queue_ok env tr" for tr
    using assms(1) by (simp_all add: world_ok_def)
  note S = sl_send_def world_client [OF assms(1)] service_listener_listen_def cmsg_transport_info_create_def path
    cmsg_service_listener_info_create_def ok sla_log_def Let_def
  have 1: "p1 = 0" "sa_next st1 = 1" "sa_id st1 = 1" "sa_listener_list st1 = [0]"
    "sa_event_server st1 = Some (event_transport env)"
    "\<exists>t. sa_trace st1 = [Sla_server True (event_server_info env (event_transport env)), Sla_start t,
      Sla_listen True (listen_message env service 0 (own_pid env))]"
    "\<exists>i. sa_infos st1 = [0 \<mapsto> i] \<and> in_id i = 0 \<and> in_service_name i = service"
    using assms(2)
    by (auto simp: cmsg_service_listener_listen_def S sl_api_init_def event_server_init_def event_server_message)
  have 2: "p2 = 1" "sa_listener_list st2 = [1, 0]" "sa_event_server st2 = sa_event_server st1"
    "sa_trace st2 = sa_trace st1 @ [Sla_listen True (listen_message env service 1 (own_pid env))]"
    "\<exists>i. sa_infos st2 = (sa_infos st1)(1 \<mapsto> i) \<and> in_id i = 1"
    using assms(3) 1 by (auto simp: cmsg_service_listener_listen_def S)
  show ?thesis
    using assms(4) 1 2 by (auto simp: cmsg_service_listener_unlisten_def S cmsg_service_listener_info_destroy_def)
qed

section \<open>A listener and the daemon\<close>

text \<open>
  A listener that got the events the daemon sent it has been told the daemon's servers, event by
  event and each with a proper transport.
\<close>

lemma listener_told:
  assumes "sld_reachable denv dst" "map_of (sl_table dst) service = Some entry" "l \<in> set (listeners entry)"
    and "sla_reachable env st0" "cmsg_service_listener_listen env service h ud st0 = Some (Some p, st1)"
    and "sla_run env p st1 evs st2" "\<forall>tr. event_alloc env tr p"
    and "ls_id l = of_nat p" "with_id (of_nat p) evs = with_id (of_nat p) (sent_to (ls_ptr l) (sl_trace dst))"
  shows "\<exists>info. sa_infos st2 p = Some info \<and> in_id info = of_nat p"
    and "told st2 p = map handed (with_id (of_nat p) evs)"
    and "\<forall>(a, e) \<in> set (with_id (of_nat p) evs). info_ok (si_transport (ev_service_info e))"
    and "tally (told st2 p) = server_keys (servers entry)"
proof -
  have d: "sld_inv dst" by (rule sld_reachable_inv [OF assms(1)])
  then have ok: "trace_ok (sl_trace dst)" by (simp add: sld_inv_def sld_inv_for_def)
  have known: "known (sl_trace dst) (ls_ptr l) (of_nat p) = server_keys (servers entry)"
    using table_entry(1) [OF d [unfolded sld_inv_def] assms(2)] assms(3,8)
    by (metis entry_ok_def view_def)
  note L = listen_new [OF assms(5) sla_reachable_inv [OF assms(4)]]
  then have new: "told st1 p = []" "map_option in_id (sa_infos st1 p) = Some (of_nat p)" by simp_all
  note R = sla_run_result [OF assms(6) L(1) L(6) assms(7)]
  show events: "\<forall>(a, e) \<in> set (with_id (of_nat p) evs). info_ok (si_transport (ev_service_info e))"
    unfolding assms(9) using sent_to_ok [OF ok] by (auto simp: with_id_def)
  then show t: "told st2 p = map handed (with_id (of_nat p) evs)"
    using R new by (auto simp: hears_def)
  show "tally (told st2 p) = server_keys (servers entry)"
    unfolding t by (simp only: tally_handed [OF events]) (simp add: assms(9) known flip: known_announced)
  show "\<exists>info. sa_infos st2 p = Some info \<and> in_id info = of_nat p"
    using R new(2) by (auto simp: hears_def)
qed

end
