(* ===== verification/SlApiProperties.thy ===== *)
theory SlApiProperties
  imports SlApiProps DaemonProperties
begin

text \<open>
  The properties of the service listener library, alone and together with the daemon.
\<close>

section \<open>From the daemon to the handler\<close>

text \<open>
  C6: A handler sees the daemon's servers. Take any state the daemon can reach and any run of the
  process from the call that made the listener on, with other listeners made and ended, events of
  others arriving and queues processed in any order. If the events with the listener's id that
  arrived are those the daemon sent it, then the calls of its handler and the events that still
  wait on its queue add up to exactly the servers the daemon has for the service.
\<close>

theorem listener_follows_daemon:
  assumes "sld_reachable denv dst" "map_of (sl_table dst) service = Some entry" "l \<in> set (listeners entry)"
    and "sla_reachable env st0" "cmsg_service_listener_listen env service h ud st0 = Some (Some p, st1)"
    and "sla_run env p st1 evs st2" "\<forall>tr. event_alloc env tr p"
    and "ls_id l = of_nat p" "with_id (of_nat p) evs = with_id (of_nat p) (sent_to (ls_ptr l) (sl_trace dst))"
  shows "\<exists>info. sa_infos st2 p = Some info \<and> in_id info = of_nat p \<and>
    tally (calls p (sa_trace st2) @ waiting (in_queue info)) = server_keys (servers entry)"
  using listener_told [OF assms] by (auto simp: told_def)

text \<open>The process of the witness: it listens for \<open>x\<close>, then for \<open>db\<close>, and accepts every event.\<close>

definition demo_sl_env :: sl_api_env where
  "demo_sl_env = \<lparr>connect_result = \<lambda>_ _. 0, send_result = \<lambda>_. 0, event_alloc = \<lambda>_ _. True, calloc_ok = \<lambda>_. True,
     strdup_ok = \<lambda>_. True, eventfd_ok = \<lambda>_. True, queue_ok = \<lambda>_. True, own_pid = 5\<rparr>"

definition demo_handler :: sl_handler where
  "demo_handler t added u m = Some (True, m)"

definition demo_listen :: "string \<Rightarrow> sl_api \<Rightarrow> sl_api" where
  "demo_listen service st = snd (the (cmsg_service_listener_listen demo_sl_env service demo_handler 0 st))"

definition demo_sl0 :: sl_api where
  "demo_sl0 = demo_listen ''x'' sl_api_init"

definition demo_sl1 :: sl_api where
  "demo_sl1 = demo_listen ''db'' demo_sl0"

definition demo_events :: "(bool \<times> sld_server_event) list" where
  "demo_events = sent_to 0 (sl_trace demo_serving)"

definition demo_sl2 :: sl_api where
  "demo_sl2 = the (deliver demo_sl_env demo_events demo_sl1)"

definition demo_sl3 :: sl_api where
  "demo_sl3 = snd (the (cmsg_service_listener_event_queue_process 1 demo_sl2))"

lemma demo_world_ok: "world_ok demo_sl_env"
  by (simp add: world_ok_def demo_sl_env_def)

lemma demo_listening_sl:
  "cmsg_service_listener_listen demo_sl_env ''x'' demo_handler 0 sl_api_init = Some (Some 0, demo_sl0)"
  "cmsg_service_listener_listen demo_sl_env ''db'' demo_handler 0 demo_sl0 = Some (Some 1, demo_sl1)"
proof -
  obtain st where 0: "cmsg_service_listener_listen demo_sl_env ''x'' demo_handler 0 sl_api_init = Some (Some (sa_next sl_api_init), st)"
    by (rule listen_returns [OF demo_world_ok sla_inv_init])
  then show x: "cmsg_service_listener_listen demo_sl_env ''x'' demo_handler 0 sl_api_init = Some (Some 0, demo_sl0)"
    by (simp add: demo_sl0_def demo_listen_def sl_api_init_def)
  note L = listen_new [OF x sla_inv_init]
  then have "sa_next demo_sl0 = 1" by simp
  with L(1) obtain st1 where "cmsg_service_listener_listen demo_sl_env ''db'' demo_handler 0 demo_sl0 = Some (Some 1, st1)"
    using listen_returns [OF demo_world_ok] by metis
  then show "cmsg_service_listener_listen demo_sl_env ''db'' demo_handler 0 demo_sl0 = Some (Some 1, demo_sl1)"
    by (simp add: demo_sl1_def demo_listen_def)
qed

lemma demo_delivered:
  "deliver demo_sl_env demo_events demo_sl1 = Some demo_sl2"
  "\<exists>info. cmsg_service_listener_event_queue_process 1 demo_sl2 = Some (True, demo_sl3) \<and>
     sa_infos demo_sl3 1 = Some info \<and> in_queue info = []"
proof -
  note L = listen_new [OF demo_listening_sl(2) listen_new(1) [OF demo_listening_sl(1) sla_inv_init]]
  have "events_ok demo_events" by code_simp
  note D = deliver_returns [OF demo_world_ok this L(1)]
  then show d: "deliver demo_sl_env demo_events demo_sl1 = Some demo_sl2" by (simp add: demo_sl2_def)
  have "sa_infos demo_sl2 = map_option (enqueue demo_events) \<circ> sa_infos demo_sl1"
    unfolding demo_sl2_def D by simp
  with L(5) have "\<exists>info. sa_infos demo_sl2 1 = Some info \<and> in_handler info = demo_handler" by simp
  then obtain info where i: "sa_infos demo_sl2 1 = Some info" "in_handler info = demo_handler" by blast
  then obtain st where "process_events 1 info True (in_queue info) demo_sl2 = Some (True, [], st)"
    using process_all [of "in_queue info" info] by (auto simp: demo_handler_def)
  with i(1) show "\<exists>info. cmsg_service_listener_event_queue_process 1 demo_sl2 = Some (True, demo_sl3) \<and>
     sa_infos demo_sl3 1 = Some info \<and> in_queue info = []"
    by (simp add: demo_sl3_def cmsg_service_listener_event_queue_process_def)
qed

lemma demo_listener:
  "map_of (sl_table demo_serving) ''db'' = Some (demo_db demo_serving)"
  "hd (listeners (demo_db demo_serving)) \<in> set (listeners (demo_db demo_serving))"
  "ls_ptr (hd (listeners (demo_db demo_serving))) = 0" "ls_id (hd (listeners (demo_db demo_serving))) = 1"
  "length (servers (demo_db demo_serving)) = 2"
proof -
  have "\<not> Option.is_none (map_of (sl_table demo_serving) ''db'')" by code_simp
  then show "map_of (sl_table demo_serving) ''db'' = Some (demo_db demo_serving)"
    by (simp add: demo_db_def Option.is_none_def)
  show "hd (listeners (demo_db demo_serving)) \<in> set (listeners (demo_db demo_serving))"
    by (rule hd_in_set) code_simp
qed code_simp+

lemma demo_sl_run: "sla_reachable demo_sl_env demo_sl0" "sla_run demo_sl_env 1 demo_sl1 demo_events demo_sl3"
proof -
  show "sla_reachable demo_sl_env demo_sl0"
    by (rule sla_reachable.Step [OF sla_reachable.Start sla_step.Listen [OF demo_listening_sl(1)]])
  obtain info where p: "cmsg_service_listener_event_queue_process 1 demo_sl2 = Some (True, demo_sl3)"
    using demo_delivered(2) by blast
  show "sla_run demo_sl_env 1 demo_sl1 demo_events demo_sl3"
    using sla_run.Step [OF sla_run.Step [OF sla_run.Start sla_step.Deliver [OF demo_delivered(1)], of 1] sla_step.Process [OF p]]
    by simp
qed

theorem listener_follows_daemon_witness:
  "tally (calls 1 (sa_trace demo_sl3)) = server_keys (servers (demo_db demo_serving)) \<and>
   length (servers (demo_db demo_serving)) = 2"
proof -
  obtain info where "sa_infos demo_sl3 1 = Some info" "in_queue info = []"
    using demo_delivered(2) by blast
  then show ?thesis
    using listener_follows_daemon [OF demo_serving_reachable demo_listener(1,2) demo_sl_run(1) demo_listening_sl(2) demo_sl_run(2)]
    by (simp add: demo_listener demo_events_def demo_sl_env_def waiting_def)
qed

lemma listen_alive:
  assumes "map_of (sl_table d) (li_service li) = None \<or> map_of (sl_table d) (li_service li) = Some \<lparr>servers = [], listeners = ls\<rparr>"
    and "info_ok (li_transport li)" "\<forall>tr pid. pidfd_open denv tr pid = Pidfd_ok"
    and "map_of (sl_table d) (li_service li) = None \<Longrightarrow> ls = []"
  shows "\<exists>d'. cmsg_sld_configuration_impl_listen denv li d = Some d' \<and>
    map_of (sl_table d') (li_service li) = Some \<lparr>servers = [], listeners =
      \<lparr>ls_ptr = sl_next d, ls_client = Some (transport_of_info (li_transport li)), ls_id = li_id li, ls_pid = li_pid li\<rparr> # ls\<rparr> \<and>
    sl_next d' = Suc (sl_next d)"
  using assms
  by (auto simp: cmsg_sld_configuration_impl_listen_def data_add_listener_def get_service_entry_or_create_def
      info_to_transport_ok put_entry_def process_watch_add_def create_process_watch_def Let_def update_conv'
      split: option.splits)

lemma unlisten_newest:
  assumes "map_of (sl_table d) (li_service li) = Some \<lparr>servers = [], listeners = l # ls\<rparr>" "ls \<noteq> []"
    and "ls_client l = Some (transport_of_info (li_transport li))" "info_ok (li_transport li)"
  shows "\<exists>d'. cmsg_sld_configuration_impl_unlisten li d = Some d' \<and>
    map_of (sl_table d') (li_service li) = Some \<lparr>servers = [], listeners = ls\<rparr>"
proof -
  have "cmsg_transport_info_compare (li_transport li) (li_transport li) = Some True"
    using assms(4) by (simp add: info_compare_key)
  then have "find_listener (li_transport li) (l # ls) = Some (Some l)"
    using assms(3,4) by (simp add: info_create_of_info)
  with assms(1,2) show ?thesis
    by (auto simp: cmsg_sld_configuration_impl_unlisten_def data_remove_listener_def get_service_entry_or_create_def
        put_entry_def data_remove_service_data_entry_if_empty_def process_watch_remove_def sld_log_def Let_def
        update_conv' split: option.splits)
qed

lemma sl_api_init_next: "sa_next sl_api_init = 0"
  by (simp add: sl_api_init_def)

text \<open>A server of another service leaves the entry of a service as it is.\<close>

lemma notify_listeners_table:
  "notify_listeners env info added e st = (e', st') \<Longrightarrow> sl_table st' = sl_table st"
proof -
  have d: "sl_table (snd (drop_listeners rs (ls, st))) = sl_table st" for rs ls st
    by (induction rs arbitrary: ls st) (simp_all add: sld_log_def)
  have "notify_each env info added ls rem st = (rem', st') \<Longrightarrow> sl_table st' = sl_table st" for ls rem rem' st st'
  proof (induction ls arbitrary: rem st)
    case (Cons l ls)
    obtain ret st1 where s: "send_event env added l info st = (ret, st1)" by fastforce
    then have "sl_table st1 = sl_table st" by (auto simp: send_event_def sld_log_def Let_def split: option.splits)
    with s Cons show ?case by (auto split: if_splits)
  qed simp
  then show "notify_listeners env info added e st = (e', st') \<Longrightarrow> sl_table st' = sl_table st"
    using d by (auto simp: notify_listeners_def split: prod.splits) (metis snd_conv)
qed

lemma remote_sync_table:
  "remote_sync_server_added_removed info a st = Some (b, st') \<Longrightarrow> sl_table st' = sl_table st"
  by (auto simp: remote_sync_server_added_removed_def sld_log_def split: option.splits cmsg_transport_info.splits if_splits)

lemma if_empty_other:
  "k \<noteq> k' \<Longrightarrow> map_of (sl_table (data_remove_service_data_entry_if_empty e k st)) k' = map_of (sl_table st) k'"
  by (simp add: data_remove_service_data_entry_if_empty_def delete_conv')

lemma remove_server_other:
  assumes "data_remove_server env info local st = Some st'" "service \<noteq> si_service info"
  shows "map_of (sl_table st') service = map_of (sl_table st) service"
  using assms
  by (auto simp: data_remove_server_def get_service_entry_or_create_def bind_eq_Some_conv remote_sync_server_removed_def
      if_empty_other process_watch_remove_def Let_def put_entry_def update_conv'
      dest!: notify_listeners_table remote_sync_table
      split: option.splits prod.splits if_splits)

lemma add_server_other:
  assumes "cmsg_sld_configuration_impl_add_server env info st = Some st'" "service \<noteq> si_service info"
    and "\<forall>tr pid. pidfd_open env tr pid = Pidfd_ok"
  shows "map_of (sl_table st') service = map_of (sl_table st) service"
proof -
  have w: "sl_table st2 = sl_table st1" if "process_watch_add env pid st1 = Some st2" for pid st1 st2
    using that assms(3) by (auto simp: process_watch_add_def create_process_watch_def Let_def split: option.splits)
  have put: "map_of (sl_table (put_entry k e st2)) service = map_of (sl_table st2) service" if "service \<noteq> k" for k e st2
    using that by (simp add: put_entry_def update_conv')
  obtain info1 st1 where r: "received info st = (info1, st1)" "si_service info1 = si_service info" "sl_table st1 = sl_table st"
    by (simp add: received_def)
  show ?thesis
  proof (cases "si_transport info1 = Info_not_set")
    case True
    with assms(1) r show ?thesis by (simp add: cmsg_sld_configuration_impl_add_server_def)
  next
    case False
    let ?i = "info1\<lparr>si_local := True\<rparr>"
    have k: "service \<noteq> si_service ?i" using assms(2) r(2) by simp
    have "data_add_server env info1 True st1 = Some st'"
      using assms(1) r(1) False by (simp add: cmsg_sld_configuration_impl_add_server_def)
    then obtain st2 entry st3 e st4 b st5 where
      s: "data_remove_server env ?i True st1 = Some st2"
        "get_service_entry_or_create (si_service ?i) True st2 = (Some entry, st3)"
        "notify_listeners env ?i True (entry\<lparr>servers := ?i # servers entry\<rparr>) st3 = (e, st4)"
        "remote_sync_server_added_removed ?i True (put_entry (si_service ?i) e st4) = Some (b, st5)"
        "process_watch_add env (si_pid info1) st5 = Some st'"
      by (auto simp: data_add_server_def Let_def bind_eq_Some_conv remote_sync_server_added_def split: prod.splits option.splits)
        (metis prod.exhaust)
    have "map_of (sl_table st3) service = map_of (sl_table st2) service"
      using s(2) k by (auto simp: get_service_entry_or_create_def update_conv' split: option.splits)
    then show ?thesis
      using w [OF s(5)] remote_sync_table [OF s(4)] put [OF k, of e st4] notify_listeners_table [OF s(3)]
        remove_server_other [OF s(1) k] r(3) by simp
  qed
qed

text \<open>
  C8: Ending one listener silences another. A process that has not listened yet listens twice for the same service (not that of the events
  themselves), which nobody serves or listens for at the daemon, and ends the first listener; the daemon can watch every
  process. The daemon looks up the listener to end by the
  transport of the process, not by the id, so it is the second one that goes: the one listener that the daemon keeps has the id
  of the first, the one that the process keeps has another, and no event that the daemon sends to
  the listener it keeps reaches the handler that is left.
\<close>

theorem unlisten_silences_sibling:
  assumes "world_ok env" "\<forall>tr pid. pidfd_open denv tr pid = Pidfd_ok"
    and "sld_reachable denv d0" "service \<noteq> ''cmsg_sld.events''" "map_of (sl_table d0) service = None"
    and "cmsg_service_listener_listen env service h1 u1 sl_api_init = Some (Some p1, st1)"
    and "cmsg_service_listener_listen env service h2 u2 st1 = Some (Some p2, st2)"
    and "cmsg_service_listener_unlisten env p1 st2 = Some st3"
  shows "\<exists>d l. daemon_hears denv (sa_trace st3) d0 = Some d \<and>
    map_of (sl_table d) service = Some \<lparr>servers = [], listeners = [l]\<rparr> \<and> sa_listener_list st3 = [p2] \<and>
    map_option in_id (sa_infos st1 p1) = Some (ls_id l) \<and> (\<exists>i. map_option in_id (sa_infos st3 p2) = Some i \<and> i \<noteq> ls_id l) \<and>
    (\<forall>evs st4. (\<forall>(a, e) \<in> set evs. ev_id e = ls_id l) \<longrightarrow> deliver env evs st3 = Some st4 \<longrightarrow>
       sa_infos st4 p2 = sa_infos st3 p2)"
proof -
  let ?ev = "event_server_info env (event_transport env)"
  obtain t where T: "sa_trace st3 = [Sla_server True ?ev, Sla_start t, Sla_listen True (listen_message env service 0 (own_pid env)),
      Sla_listen True (listen_message env service 1 (own_pid env)), Sla_listen False (listen_message env service 0 0)]"
    and left: "sa_listener_list st3 = [p2]" "map_option in_id (sa_infos st3 p2) = Some 1"
    using listen_twice [OF assms(1,6-8)] by auto
  have first: "map_option in_id (sa_infos st1 p1) = Some 0"
    using listen_new(2,5) [OF assms(6) sla_inv_init] by (simp add: sl_api_init_next)
  let ?m = "listen_message env service"
  let ?l = "\<lambda>n i. \<lparr>ls_ptr = n, ls_client = Some (transport_of_info (Info_unix True (event_path env))), ls_id = i, ls_pid = own_pid env\<rparr>"
  have "message_ok ?ev"
    using event_path_ok [of True env] by (simp add: message_ok_def event_server_info_def event_transport_def event_path_def)
  from add_server_handler(1) [OF sld_reachable_inv [OF assms(3)] this]
  obtain d0' where 0: "cmsg_sld_configuration_impl_add_server denv ?ev d0 = Some d0'" by blast
  have new: "map_of (sl_table d0') service = None"
    using add_server_other [OF 0 _ assms(2), of service] assms(4,5) by (simp add: event_server_info_def)
  obtain d1 where 1: "cmsg_sld_configuration_impl_listen denv (?m 0 (own_pid env)) d0' = Some d1"
      "map_of (sl_table d1) service = Some \<lparr>servers = [], listeners = [?l (sl_next d0') 0]\<rparr>"
    using listen_alive [of d0' "?m 0 (own_pid env)" "[]" denv] assms(2) new event_path_ok [of True env] by auto
  obtain d2 where 2: "cmsg_sld_configuration_impl_listen denv (?m 1 (own_pid env)) d1 = Some d2"
      "map_of (sl_table d2) service = Some \<lparr>servers = [], listeners = [?l (sl_next d1) 1, ?l (sl_next d0') 0]\<rparr>"
    using listen_alive [of d1 "?m 1 (own_pid env)" "[?l (sl_next d0') 0]" denv] 1(2) assms(2) event_path_ok [of True env] by auto
  obtain d3 where 3: "cmsg_sld_configuration_impl_unlisten (?m 0 0) d2 = Some d3"
      "map_of (sl_table d3) service = Some \<lparr>servers = [], listeners = [?l (sl_next d0') 0]\<rparr>"
    using unlisten_newest [of d2 "?m 0 0"] 2(2) event_path_ok [of True env] by auto
  have one: "sa_infos st'' p2 = sa_infos st' p2 \<and> sa_listener_list st'' = [p2]"
    if "notify_listener env e a st' = Some st''" "ev_id e = 0" "sa_listener_list st' = [p2]"
      "map_option in_id (sa_infos st' p2) = Some 1" for e a st' st''
    using that by (auto simp: notify_listener_def notify_one_def bind_eq_Some_conv split: if_splits)
  have "sa_infos st4 p2 = sa_infos st' p2"
    if "\<forall>(a, e) \<in> set evs. ev_id e = 0" "deliver env evs st' = Some st4" "sa_listener_list st' = [p2]"
      "map_option in_id (sa_infos st' p2) = Some 1" for evs st' st4
    using that
  proof (induction evs arbitrary: st')
    case (Cons ae evs)
    obtain a e where ae: "ae = (a, e)" by fastforce
    with Cons.prems(2) obtain st'' where n: "notify_listener env e a st' = Some st''"
        "deliver env evs (sla_log (Sla_reply a) st'') = Some st4"
      by (auto simp: bind_eq_Some_conv cmsg_sld_events_impl_server_added_def cmsg_sld_events_impl_server_removed_def
          split: if_splits)
    have "sa_infos st'' p2 = sa_infos st' p2" "sa_listener_list st'' = [p2]"
      using one [OF n(1)] Cons.prems ae by auto
    then show ?case using Cons.IH [OF _ n(2)] Cons.prems by simp
  qed simp
  then show ?thesis
    using 0 1 2 3 left first by (intro exI [of _ d3] exI [of _ "?l (sl_next d0') 0"]) (auto simp: T)
qed

theorem unlisten_silences_sibling_witness:
  "\<exists>st1 st2 st3 d l. cmsg_service_listener_listen demo_sl_env ''db'' demo_handler 0 sl_api_init = Some (Some 0, st1) \<and>
     cmsg_service_listener_listen demo_sl_env ''db'' demo_handler 0 st1 = Some (Some 1, st2) \<and>
     cmsg_service_listener_unlisten demo_sl_env 0 st2 = Some st3 \<and>
     daemon_hears (demo_sld_env\<lparr>pidfd_open := \<lambda>_ _. Pidfd_ok\<rparr>) (sa_trace st3) data_init = Some d \<and>
     map_of (sl_table d) ''db'' = Some \<lparr>servers = [], listeners = [l]\<rparr> \<and> sa_listener_list st3 = [1]"
proof -
  let ?denv = "demo_sld_env\<lparr>pidfd_open := \<lambda>_ _. Pidfd_ok\<rparr>"
  obtain st1 where 1: "cmsg_service_listener_listen demo_sl_env ''db'' demo_handler 0 sl_api_init = Some (Some 0, st1)"
    using listen_returns [OF demo_world_ok sla_inv_init, of "''db''" demo_handler 0] sl_api_init_next by metis
  note L1 = listen_new [OF 1 sla_inv_init]
  obtain st2 where 2: "cmsg_service_listener_listen demo_sl_env ''db'' demo_handler 0 st1 = Some (Some 1, st2)"
    "sa_listener_list st2 = 1 # sa_listener_list st1"
    using listen_returns [OF demo_world_ok L1(1)] L1(3) by (metis One_nat_def)
  note L2 = listen_new [OF 2(1) L1(1)]
  obtain st3 where 3: "cmsg_service_listener_unlisten demo_sl_env 0 st2 = Some st3"
    using unlisten_returns [OF L2(1) _ demo_world_ok, of 0] L1(6) 2(2) by auto
  have "map_of (sl_table data_init) ''db'' = None" by (simp add: data_init_def)
  then show ?thesis
    using unlisten_silences_sibling [OF demo_world_ok _ sld_reachable.Start _ _ 1 2(1) 3, of ?denv] 1 2(1) 3 by auto
qed

section \<open>Waiting for a server\<close>

definition is_unix_info :: "cmsg_transport_info \<Rightarrow> bool" where
  "is_unix_info info = (case info of Info_unix _ _ \<Rightarrow> True | _ \<Rightarrow> False)"

lemma unix_type:
  "info_ok info \<Longrightarrow> (t_type (transport_of_info info) = CMSG_TRANSPORT_RPC_UNIX \<or>
    t_type (transport_of_info info) = CMSG_TRANSPORT_ONEWAY_UNIX) = is_unix_info info"
  using transport_of_unix transport_of_tcp
  by (cases info) (auto simp: is_unix_info_def info_ok_def [of Info_not_set])

text \<open>The callback leaves the kind of the last event.\<close>

lemma process_unix:
  assumes "in_handler info = cmsg_sl_listener_unix_wait_cb" "events_ok evs"
  shows "\<exists>st'. process_events p info True (map queued evs) st = Some (True, [], st') \<and>
    sa_memory st' (in_user_data info) =
      (if evs = [] then sa_memory st (in_user_data info)
       else [if is_unix_info (si_transport (ev_service_info (snd (last evs)))) then 1 else 0])"
  using assms(2)
proof (induction evs arbitrary: st)
  case (Cons ae evs)
  obtain a e where ae: "ae = (a, e)" by fastforce
  have ok: "info_ok (si_transport (ev_service_info e))" "events_ok evs"
    using Cons.prems by (auto simp: events_ok_def ae)
  show ?case
    using Cons.IH [OF ok(2)] unix_type [OF ok(1)] assms(1)
    by (auto simp: queued_def ae cmsg_sl_listener_unix_wait_cb_def Let_def)
qed simp

lemma events_ok_with_id: "events_ok evs \<Longrightarrow> events_ok (with_id i evs)"
  by (auto simp: events_ok_def with_id_def)

lemma events_ok_append [simp]: "events_ok (a @ b) \<longleftrightarrow> events_ok a \<and> events_ok b"
  by (auto simp: events_ok_def)

text \<open>A wait: the events are queued, and it ends with the first one for the listener.\<close>

lemma sl_wait_returns:
  assumes "world_ok env" "events_ok (wr_before r @ wr_late r)" "sla_inv st" "sa_infos st p = Some info" "in_eventfd info = 0" "in_id info = i"
  shows "\<exists>st'. sl_wait env p to r st =
      (if wr_error r then Some (-1, st')
       else if with_id i (wr_before r) \<noteq> [] then Some (1, st')
       else if to then Some (0, st') else None) \<and>
    sla_inv st' \<and> sa_memory st' = sa_memory st \<and> sa_listener_list st' = sa_listener_list st \<and>
    (\<not> wr_error r \<longrightarrow> with_id i (wr_before r) \<noteq> [] \<longrightarrow>
       sa_infos st' p = Some (enqueue (wr_late r) (enqueue (wr_before r) info)))"
proof -
  note D = deliver_returns [OF assms(1) _ assms(3), of "wr_before r"]
  have ok: "events_ok (wr_before r)" "events_ok (wr_late r)" using assms(2) by simp_all
  obtain st1 where st1: "deliver env (wr_before r) st = Some st1" "sa_infos st1 p = Some (enqueue (wr_before r) info)"
      "sa_memory st1 = sa_memory st" "sa_listener_list st1 = sa_listener_list st"
    using D [OF ok(1)] assms(4) by simp
  have i1: "sla_inv st1" using deliver_result [OF st1(1) assms(3)] by blast
  obtain st2 where st2: "deliver env (wr_late r) st1 = Some st2"
      "sa_infos st2 p = Some (enqueue (wr_late r) (enqueue (wr_before r) info))"
      "sa_memory st2 = sa_memory st" "sa_listener_list st2 = sa_listener_list st"
    using deliver_returns [OF assms(1) ok(2) i1] st1 by simp
  have i2: "sla_inv st2" using deliver_result [OF st2(1) i1] by blast
  have pos: "0 < in_eventfd (enqueue (wr_before r) info) \<longleftrightarrow> with_id i (wr_before r) \<noteq> []"
    using assms(5,6) by (simp add: enqueue_def)
  show ?thesis
    using st1 st2 i1 i2 pos
    by (cases "\<not> wr_error r \<and> with_id i (wr_before r) \<noteq> []")
      (auto simp: sl_wait_def cmsg_service_listener_get_event_fd_def intro: exI [of _ st1] exI [of _ st2])
qed

text \<open>
  Waiting for a unix server answers by the last event. The wait ends without one when the
  system call fails or the time runs out (with -1 it does not end); otherwise its answer is whether
  the last event that came in for the listener is about a unix transport. Whether that event said
  that the server was added or removed makes no difference.
\<close>

lemma unix_wait_exact:
  assumes "world_ok env" "sla_reachable env st" "events_ok (wr_before r @ wr_late r)"
  shows "map_option fst (cmsg_service_listener_wait_for_unix_server env service seconds ret r st) =
    (if wr_error r then Some False
     else if with_id (sa_id st) (wr_before r) = [] then (if seconds = -1 then None else Some False)
     else Some (is_unix_info (si_transport (ev_service_info (snd (last (with_id (sa_id st) (wr_before r @ wr_late r))))))))"
proof -
  let ?st0 = "st\<lparr>sa_memory := (sa_memory st)(ret := [0])\<rparr>"
  have i0: "sla_inv ?st0" using sla_reachable_inv [OF assms(2)] by (simp add: sla_inv_def)
  have id: "sa_id st = of_nat (sa_next st)" using i0 by (simp add: sla_inv_def)
  obtain st1 where l: "cmsg_service_listener_listen env service cmsg_sl_listener_unix_wait_cb ret ?st0 = Some (Some (sa_next st), st1)"
      "sa_memory st1 = (sa_memory st)(ret := [0])"
    using listen_returns [OF assms(1) i0, of service cmsg_sl_listener_unix_wait_cb ret] by auto
  let ?p = "sa_next st"
  let ?info = "\<lparr>in_service_name = service, in_handler = cmsg_sl_listener_unix_wait_cb, in_id = of_nat ?p, in_user_data = ret,
    in_queue = [], in_eventfd = 0, in_event_loop_data = None\<rparr>"
  note L = listen_new [OF l(1) i0]
  obtain st2 where w: "sl_wait env ?p (seconds \<noteq> -1) r st1 =
      (if wr_error r then Some (-1, st2) else if with_id (of_nat ?p) (wr_before r) \<noteq> [] then Some (1, st2)
       else if seconds \<noteq> -1 then Some (0, st2) else None)"
      "sla_inv st2" "sa_listener_list st2 = sa_listener_list st1"
      "\<not> wr_error r \<Longrightarrow> with_id (of_nat ?p) (wr_before r) \<noteq> [] \<Longrightarrow>
        sa_infos st2 ?p = Some (enqueue (wr_late r) (enqueue (wr_before r) ?info))"
    using sl_wait_returns [OF assms(1,3) L(1,5), of "of_nat ?p" "seconds \<noteq> -1"] by simp blast
  show ?thesis
  proof (cases "\<not> wr_error r \<and> with_id (of_nat ?p) (wr_before r) \<noteq> []")
    case False
    obtain st3 where "cmsg_service_listener_unlisten env ?p st2 = Some st3"
      using unlisten_returns [OF w(2) _ assms(1)] w(3) L(6) by metis
    with False l w(1) show ?thesis
      by (auto simp: cmsg_service_listener_wait_for_unix_server_def Let_def id)
  next
    case True
    let ?all = "with_id (of_nat ?p) (wr_before r @ wr_late r)"
    let ?in = "enqueue (wr_late r) (enqueue (wr_before r) ?info)"
    have q: "in_queue ?in = map queued ?all" by (simp add: enqueue_def)
    have "events_ok ?all" using events_ok_with_id [OF assms(3)] .
    from process_unix [of ?in, OF _ this, of ?p st2] True
    obtain st3 where st3: "process_events ?p ?in True (in_queue ?in) st2 = Some (True, [], st3)"
        "sa_memory st3 ret = [if is_unix_info (si_transport (ev_service_info (snd (last ?all)))) then 1 else 0]"
      by (auto simp: q)
    then obtain st4 where st4: "cmsg_service_listener_event_queue_process ?p st2 = Some (True, st4)"
        "sa_memory st4 = sa_memory st3"
      using w(4) True by (auto simp: cmsg_service_listener_event_queue_process_def)
    have i4: "sla_inv st4" using process_keeps [OF st4(1) w(2)] by blast
    have "sa_listener_list st4 = sa_listener_list st2"
      using st4(1) w(4) True st3(1) process_events_frame [OF st3(1)]
      by (auto simp: cmsg_service_listener_event_queue_process_def)
    then obtain st5 where st5: "cmsg_service_listener_unlisten env ?p st4 = Some st5" "sa_memory st5 = sa_memory st4"
      using unlisten_returns [OF i4 _ assms(1)] w(3) L(6) by metis
    show ?thesis
      using True l w(1) st4 st5 st3(2)
      by (auto simp: cmsg_service_listener_wait_for_unix_server_def Let_def id)
  qed
qed
definition demo_round :: wait_round where
  "demo_round = \<lparr>wr_before = [(False, \<lparr>ev_id = 0, ev_service_info = demo_info\<rparr>)], wr_error = False, wr_late = [], wr_now = (0, 0)\<rparr>"

text \<open>Here the last event says that the server has gone; the answer is that it has started.\<close>

definition is_tcp_at :: "u8 list \<Rightarrow> cmsg_transport_info \<Rightarrow> bool" where
  "is_tcp_at addr info = (case info of Info_tcp _ tcp \<Rightarrow> (if ti_ipv4 tcp then ti_addr tcp else [0, 0, 0, 0]) = addr | _ \<Rightarrow> False)"

lemma tcp_cb:
  assumes "info_ok info" "\<not> is_tcp_at (m a) info"
  shows "cmsg_sl_listener_tcp_wait_cb (Some (transport_of_info info)) added a m = Some (True, m)"
proof (cases info)
  case (Info_tcp ow tcp)
  have "sin_addr (transport_of_info info) = (if ti_ipv4 tcp then ti_addr tcp else [0, 0, 0, 0])"
    using assms(1) Info_tcp
    by (auto simp: info_ok_def transport_of_info_def cmsg_transport_info_to_transport_def Let_def memcpy_field_exact
        split: option.splits)
  then show ?thesis using assms(2) Info_tcp by (auto simp: cmsg_sl_listener_tcp_wait_cb_def is_tcp_at_def)
next
  case (Info_unix ow path)
  then show ?thesis using transport_of_unix [of ow path] assms(1) by (auto simp: cmsg_sl_listener_tcp_wait_cb_def)
qed (use assms(1) in \<open>simp add: info_ok_def\<close>)

lemma process_tcp:
  assumes "in_handler info = cmsg_sl_listener_tcp_wait_cb" "events_ok evs"
    and "\<forall>(a, e) \<in> set evs. \<not> is_tcp_at (sa_memory st (in_user_data info)) (si_transport (ev_service_info e))"
  shows "\<exists>st'. process_events p info True (map queued evs) st = Some (True, [], st') \<and> sa_memory st' = sa_memory st"
  using assms(2,3)
proof (induction evs arbitrary: st)
  case (Cons ae evs)
  obtain a e where ae: "ae = (a, e)" by fastforce
  let ?st = "sla_log (Sla_call p a (Some (transport_of_info (si_transport (ev_service_info e))))) st"
  have ok: "info_ok (si_transport (ev_service_info e))" "events_ok evs"
    using Cons.prems by (auto simp: events_ok_def ae)
  have "\<exists>st'. process_events p info True (map queued evs) ?st = Some (True, [], st') \<and> sa_memory st' = sa_memory ?st"
    using Cons.prems by (intro Cons.IH [OF ok(2)]) auto
  then show ?case
    using tcp_cb [OF ok(1), of "sa_memory st" "in_user_data info" a] Cons.prems(2) assms(1)
    by (auto simp: queued_def [of "(a, e)"] ae Let_def sla_log_def)
qed simp

text \<open>The listener of a wait between two rounds.\<close>

definition tcp_waiting :: "nat \<Rightarrow> u32 \<Rightarrow> nat \<Rightarrow> u8 list \<Rightarrow> sl_api \<Rightarrow> bool" where
  "tcp_waiting p i addr A st \<longleftrightarrow> sla_inv st \<and> p \<in> set (sa_listener_list st) \<and> sa_memory st addr = A \<and>
     (\<exists>info. sa_infos st p = Some info \<and> in_id info = i \<and> in_handler info = cmsg_sl_listener_tcp_wait_cb \<and>
        in_user_data info = addr \<and> in_queue info = [] \<and> in_eventfd info = 0)"

text \<open>A round in which only other servers' events come in.\<close>

definition other_round :: "u32 \<Rightarrow> u8 list \<Rightarrow> wait_round \<Rightarrow> bool" where
  "other_round i A r \<longleftrightarrow> \<not> wr_error r \<and> with_id i (wr_before r) \<noteq> [] \<and> events_ok (wr_before r @ wr_late r) \<and>
     (\<forall>(a, e) \<in> set (wr_before r @ wr_late r). \<not> is_tcp_at A (si_transport (ev_service_info e)))"

lemma tcp_round:
  assumes "world_ok env" "other_round i A r" "tcp_waiting p i addr A st"
  obtains st1 st2 where "sl_wait env p True r st = Some (1, st1)"
    "cmsg_service_listener_event_queue_process p st1 = Some (True, st2)" "tcp_waiting p i addr A st2"
proof -
  obtain info where i: "sa_infos st p = Some info" "in_id info = i" "in_handler info = cmsg_sl_listener_tcp_wait_cb"
      "in_user_data info = addr" "in_queue info = []" "in_eventfd info = 0"
    and st: "sla_inv st" "p \<in> set (sa_listener_list st)" "sa_memory st addr = A"
    using assms(3) by (auto simp: tcp_waiting_def)
  let ?in = "enqueue (wr_late r) (enqueue (wr_before r) info)"
  let ?all = "with_id i (wr_before r @ wr_late r)"
  have r: "\<not> wr_error r" "with_id i (wr_before r) \<noteq> []" "events_ok (wr_before r @ wr_late r)"
    "\<forall>(a, e) \<in> set ?all. \<not> is_tcp_at A (si_transport (ev_service_info e))"
    using assms(2) by (auto simp: other_round_def with_id_def)
  obtain st1 where w: "sl_wait env p True r st = Some (1, st1)" "sla_inv st1" "sa_memory st1 = sa_memory st"
      "sa_listener_list st1 = sa_listener_list st" "sa_infos st1 p = Some ?in"
    using sl_wait_returns [OF assms(1) r(3) st(1) i(1,6,2), of True] r(1,2) by auto
  have q: "in_queue ?in = map queued ?all" using i by (simp add: enqueue_def)
  obtain st' where pe: "process_events p ?in True (in_queue ?in) st1 = Some (True, [], st')" "sa_memory st' = sa_memory st1"
    using process_tcp [of ?in ?all st1 p] events_ok_with_id [OF r(3), of i] r(4) i(3,4) w(3) st(3) by (auto simp: q)
  let ?st2 = "st'\<lparr>sa_infos := (sa_infos st')(p \<mapsto> ?in\<lparr>in_queue := [], in_eventfd := 0\<rparr>)\<rparr>"
  have e: "cmsg_service_listener_event_queue_process p st1 = Some (True, ?st2)"
    using w(5) pe(1) by (simp add: cmsg_service_listener_event_queue_process_def)
  have "sla_inv ?st2" using process_keeps [OF e w(2)] by blast
  then have "tcp_waiting p i addr A ?st2"
    using process_events_frame [OF pe(1)] pe(2) w(3,4) st i by (simp add: tcp_waiting_def)
  with w(1) e show thesis by (rule that)
qed

lemma tcp_loop_gives_up:
  assumes "world_ok env" "\<forall>k < n. other_round i A (rounds k) \<and> wr_now (rounds k) = (fst start + int k + 1, snd start)"
    and "tcp_waiting p i addr A st" "k \<le> n" "time \<le> 1000 * (\<Sum>j = k..<n. int j + 1)"
  shows "\<exists>st'. tcp_wait_loop env p start rounds k time st = Some (False, st') \<and> tcp_waiting p i addr A st'"
  using assms(3-5)
proof (induction "n - k" arbitrary: k time st)
  case 0
  then show ?case by (subst tcp_wait_loop.simps) auto
next
  case (Suc m)
  then have k: "k < n" "m = n - (k + 1)" by auto
  show ?case
  proof (cases "time > 0")
    case True
    have rk: "other_round i A (rounds k)" "wr_now (rounds k) = (fst start + int k + 1, snd start)"
      using assms(2) k(1) by blast+
    obtain st1 st2 where r: "sl_wait env p True (rounds k) st = Some (1, st1)"
        "cmsg_service_listener_event_queue_process p st1 = Some (True, st2)" "tcp_waiting p i addr A st2"
      by (rule tcp_round [OF assms(1) rk(1) Suc.prems(1)])
    have "time - (int k + 1) * 1000 \<le> 1000 * (\<Sum>j = k + 1..<n. int j + 1)"
      using Suc.prems(3) k(1) by (simp add: sum.atLeast_Suc_lessThan)
    from Suc.hyps(1) [OF k(2) r(3) _ this] k(1) True r(1,2) rk(2)
    show ?thesis by (subst tcp_wait_loop.simps) (simp add: algebra_simps)
  next
    case False
    then show ?thesis using Suc.prems(1) by (subst tcp_wait_loop.simps) auto
  qed
qed

text \<open>
  Waiting for a TCP server gives up early. After each event the time since the start is taken
  off what is left, so it is counted again with every event: when other nodes' servers come and go
  once a second, a wait of \<open>seconds\<close> is over, without the server, after \<open>n\<close> seconds as soon as
  \<open>n * (n + 1) div 2\<close> reaches \<open>seconds\<close> (10 seconds are over after 4). With \<open>n = 0\<close>: the documented
  special values, 0 to poll and -1 to wait indefinitely, never find a server at all.
\<close>

lemma tcp_wait_gives_up_early:
  assumes "world_ok env" "sla_reachable env st" "\<bar>seconds * 1000\<bar> < 2 ^ 31"
    and "\<forall>k < n. other_round (sa_id st) (sa_memory st addr) (rounds k) \<and>
           wr_now (rounds k) = (fst start + int k + 1, snd start)"
    and "seconds \<le> int (n * (n + 1) div 2)"
  shows "map_option fst (cmsg_service_listener_wait_for_tcp_server env service addr seconds start rounds st) = Some False"
proof -
  have i: "sla_inv st" by (rule sla_reachable_inv [OF assms(2)])
  obtain st1 where l: "cmsg_service_listener_listen env service cmsg_sl_listener_tcp_wait_cb addr st = Some (Some (sa_next st), st1)"
      "sa_memory st1 = sa_memory st"
    using listen_returns [OF assms(1) i] by metis
  note L = listen_new [OF l(1) i]
  have id: "sa_id st = of_nat (sa_next st)" using i by (simp add: sla_inv_def)
  have w: "tcp_waiting (sa_next st) (sa_id st) addr (sa_memory st addr) st1"
    using L l(2) by (simp add: tcp_waiting_def id)
  have "(\<Sum>j = 0..<n. int j + 1) = int (n * (n + 1) div 2)"
    by (induction n) auto
  then have "seconds * 1000 \<le> 1000 * (\<Sum>j = 0..<n. int j + 1)" using assms(5) by simp
  from tcp_loop_gives_up [OF assms(1,4) w _ this]
  obtain st2 where st2: "tcp_wait_loop env (sa_next st) start rounds 0 (seconds * 1000) st1 = Some (False, st2)"
      "tcp_waiting (sa_next st) (sa_id st) addr (sa_memory st addr) st2" by auto
  then obtain st3 where "cmsg_service_listener_unlisten env (sa_next st) st2 = Some st3"
    using unlisten_returns [OF _ _ assms(1)] unfolding tcp_waiting_def by metis
  with st2 l(1) assms(3) show ?thesis
    by (simp add: cmsg_service_listener_wait_for_tcp_server_def)
qed

section \<open>Wake-ups\<close>

text \<open>
  C33: No wake-up is lost. However the event thread and the application interleave, when the
  application has left the queue (and its handler did not ask to stop) and no event is half
  delivered, an event on the queue means that the descriptor the application waits on is readable.
\<close>

theorem wakeup_never_lost:
  assumes "wake_step\<^sup>*\<^sup>* wake_init w" "wk_reader w = Reader_idle" "wk_queue w \<noteq> []" "wk_unwritten w = 0"
  shows "wk_eventfd w > 0"
proof -
  have "wk_reader w = Reader_idle \<and> wk_queue w \<noteq> [] \<longrightarrow> 0 < wk_eventfd w + wk_unwritten w"
    using assms(1)
  proof (induction rule: rtranclp_induct)
    case (step w w')
    from step(2,3) show ?case
      by (cases rule: wake_step.cases)
        (auto simp: wake_push_def wake_write_def wake_clear_def wake_pop_def split: list.splits if_splits)
  qed (simp add: wake_init_def)
  with assms(2-4) show ?thesis by simp
qed

theorem wakeup_never_lost_witness:
  "wk_eventfd (wake_write (wake_push \<lparr>se_added = True, se_transport = None\<rparr> (wake_pop True (wake_clear wake_init)))) > 0"
proof (rule wakeup_never_lost)
  let ?e = "\<lparr>se_added = True, se_transport = None\<rparr>"
  have "wake_step wake_init (wake_clear wake_init)" by (rule wake_step.Clear) (simp add: wake_init_def)
  moreover have "wake_step (wake_clear wake_init) (wake_pop True (wake_clear wake_init))"
    by (rule wake_step.Pop) (simp add: wake_clear_def)
  moreover have "wake_step (wake_pop True (wake_clear wake_init)) (wake_push ?e (wake_pop True (wake_clear wake_init)))"
    by (rule wake_step.Push)
  moreover have "wake_step (wake_push ?e (wake_pop True (wake_clear wake_init)))
      (wake_write (wake_push ?e (wake_pop True (wake_clear wake_init))))"
    by (rule wake_step.Write) (simp add: wake_push_def)
  ultimately show "wake_step\<^sup>*\<^sup>* wake_init (wake_write (wake_push ?e (wake_pop True (wake_clear wake_init))))"
    by (meson rtranclp.rtrancl_into_rtrancl rtranclp.rtrancl_refl)
qed (simp_all add: wake_write_def wake_push_def wake_pop_def wake_clear_def wake_init_def)

end
