(* ===== verification/BroadcastProperties.thy ===== *)
theory BroadcastProperties
  imports MeshConnection SlApiProperties PublisherProps
begin

text \<open>
  The properties of the broadcast client and of mesh connections: which children a broadcast client has,
  from the service listener daemon over the library to the composite client.
\<close>

section \<open>Children that follow servers\<close>

definition tcp_child :: "broadcast_client \<Rightarrow> nat \<Rightarrow> bool" where
  "tcp_child bc c \<longleftrightarrow> t_type (bc_tports bc c) = CMSG_TRANSPORT_RPC_TCP \<or> t_type (bc_tports bc c) = CMSG_TRANSPORT_ONEWAY_TCP"

abbreviation bc_children :: "broadcast_client \<Rightarrow> nat list" where
  "bc_children bc \<equiv> comp_children (bc_base_client bc)"

text \<open>The servers it is connected to, each child counted, and the children of the application.\<close>

definition bc_keys :: "broadcast_client \<Rightarrow> server_key multiset" where
  "bc_keys bc = image_mset (\<lambda>c. transport_key (bc_tports bc c)) (mset (filter (tcp_child bc) (bc_children bc)))"

definition own_children :: "broadcast_client \<Rightarrow> nat list" where
  "own_children bc = filter (\<lambda>c. \<not> tcp_child bc c) (bc_children bc)"

text \<open>The servers it is meant to be connected to: on the port of its service, and not its own node's.\<close>

fun bc_wants :: "bc_env \<Rightarrow> broadcast_client \<Rightarrow> server_key \<Rightarrow> bool" where
  "bc_wants env bc (_, Some (_, ipv4, port, addr)) \<longleftrightarrow>
     bc_service_entry_name bc \<noteq> None \<and> port = bc_port env (the (bc_service_entry_name bc)) \<and>
     (bc_connect_to_self bc \<or> bc_my_node_addr bc \<noteq> (if ipv4 then addr else [0, 0, 0, 0]))"
| "bc_wants env bc (_, None) \<longleftrightarrow> False"

definition bc_ok :: "broadcast_client \<Rightarrow> bool" where
  "bc_ok bc \<longleftrightarrow> comp_is_composite (bc_base_client bc) \<and> bc_service_entry_name bc \<noteq> None \<and>
     (\<forall>c \<in> set (bc_children bc). c < bc_next bc \<and>
        (tcp_child bc c \<longrightarrow> (\<exists>info. info_ok info \<and> bc_tports bc c = transport_of_info info)))"

definition same_settings :: "broadcast_client \<Rightarrow> broadcast_client \<Rightarrow> bool" where
  "same_settings bc bc' \<longleftrightarrow> bc_service_entry_name bc' = bc_service_entry_name bc \<and>
     bc_my_node_addr bc' = bc_my_node_addr bc \<and> bc_connect_to_self bc' = bc_connect_to_self bc \<and>
     own_children bc' = own_children bc"

lemma same_settings_wants: "same_settings bc bc' \<Longrightarrow> bc_wants env bc' = bc_wants env bc"
proof
  show "bc_wants env bc' k = bc_wants env bc k" if "same_settings bc bc'" for k
    using that by (cases "(env, bc, k)" rule: bc_wants.cases) (auto simp: same_settings_def)
qed

lemma generate_event_fields [simp]:
  "bc_base_client (cmsg_broadcast_client_generate_event env a j bc) = bc_base_client bc"
  "bc_tports (cmsg_broadcast_client_generate_event env a j bc) = bc_tports bc"
  "bc_next (cmsg_broadcast_client_generate_event env a j bc) = bc_next bc"
  "bc_service_entry_name (cmsg_broadcast_client_generate_event env a j bc) = bc_service_entry_name bc"
  "bc_my_node_addr (cmsg_broadcast_client_generate_event env a j bc) = bc_my_node_addr bc"
  "bc_connect_to_self (cmsg_broadcast_client_generate_event env a j bc) = bc_connect_to_self bc"
  by (simp_all add: cmsg_broadcast_client_generate_event_def split: option.split)

lemma generate_event_sets [simp]:
  "tcp_child (cmsg_broadcast_client_generate_event env a j bc) = tcp_child bc"
  "bc_keys (cmsg_broadcast_client_generate_event env a j bc) = bc_keys bc"
  "own_children (cmsg_broadcast_client_generate_event env a j bc) = own_children bc"
  by (simp_all add: fun_eq_iff tcp_child_def bc_keys_def own_children_def)

text \<open>A TCP description: its transport is of a TCP type, on the server's port and address.\<close>

lemma tcp_transport:
  assumes "info_ok info" "info = Info_tcp ow tcp" "t = transport_of_info info"
  shows "t_type t = CMSG_TRANSPORT_RPC_TCP \<or> t_type t = CMSG_TRANSPORT_ONEWAY_TCP"
    and "t_type t \<noteq> CMSG_TRANSPORT_LOOPBACK" "sin_port t = ti_port tcp"
    and "sin_addr t = (if ti_ipv4 tcp then ti_addr tcp else [0, 0, 0, 0])" "transport_key t = info_key info"
  using assms transport_of_tcp [of ow tcp] sin_addr_of_tcp [of ow tcp] by auto

lemma broadcast_add_exact:
  assumes "info_ok info" "info = Info_tcp ow tcp" "bc_ok bc" "\<forall>tr. bc_client_ok env tr"
  shows "bc_ok (cmsg_broadcast_client_add_child env (transport_of_info info) bc) \<and>
    same_settings bc (cmsg_broadcast_client_add_child env (transport_of_info info) bc) \<and>
    bc_keys (cmsg_broadcast_client_add_child env (transport_of_info info) bc) = add_mset (info_key info) (bc_keys bc)"
proof -
  note T = tcp_transport [OF assms(1,2) refl]
  let ?n = "bc_next bc" and ?f = "(bc_tports bc)(bc_next bc := transport_of_info info)"
  let ?bc = "bc\<lparr>bc_base_client := (bc_base_client bc)\<lparr>comp_children := ?n # bc_children bc,
      comp_parent_set := ?n # comp_parent_set (bc_base_client bc)\<rparr>, bc_tports := ?f, bc_next := ?n + 1\<rparr>"
  have step: "cmsg_broadcast_client_add_child env (transport_of_info info) bc =
      cmsg_broadcast_client_generate_event env (sin_addr (transport_of_info info)) True ?bc"
    using assms(3,4) T(2) by (simp add: cmsg_broadcast_client_add_child_def cmsg_composite_client_add_child_def bc_ok_def Let_def)
  have old: "?f c = bc_tports bc c" if "c \<in> set (bc_children bc)" for c
    using that assms(3) by (auto simp: bc_ok_def)
  have tcp: "tcp_child ?bc c = tcp_child bc c" if "c \<in> set (bc_children bc)" for c
    using old [OF that] by (simp add: tcp_child_def)
  have new: "tcp_child ?bc ?n" using T(1) by (simp add: tcp_child_def)
  have eqs: "filter (tcp_child ?bc) (bc_children bc) = filter (tcp_child bc) (bc_children bc)"
    "filter (\<lambda>c. \<not> tcp_child ?bc c) (bc_children bc) = filter (\<lambda>c. \<not> tcp_child bc c) (bc_children bc)"
    using tcp by (auto intro!: filter_cong)
  have "bc_keys ?bc = add_mset (info_key info) (bc_keys bc)"
    using new eqs old T(5) by (auto simp: bc_keys_def intro!: image_mset_cong)
  moreover have "own_children ?bc = own_children bc" using new eqs by (simp add: own_children_def)
  moreover have "bc_ok ?bc"
    using assms(1,3) old tcp new by (fastforce simp: bc_ok_def)
  ultimately show ?thesis
    unfolding step by (simp add: same_settings_def bc_ok_def)
qed

lemma broadcast_delete_exact:
  assumes "info_ok info" "info = Info_tcp ow tcp" "bc_ok bc"
  shows "bc_ok (cmsg_broadcast_client_delete_child env (transport_of_info info) bc) \<and>
    same_settings bc (cmsg_broadcast_client_delete_child env (transport_of_info info) bc) \<and>
    bc_keys (cmsg_broadcast_client_delete_child env (transport_of_info info) bc) = bc_keys bc - {#info_key info#}"
proof -
  let ?t = "transport_of_info info"
  note T = tcp_transport [OF assms(1,2) refl]
  have cmp: "cmsg_transport_compare (bc_tports bc c) ?t \<longleftrightarrow> tcp_child bc c \<and> transport_key (bc_tports bc c) = info_key info"
    if c: "c \<in> set (bc_children bc)" for c
  proof (cases "tcp_child bc c")
    case True
    then obtain i where "info_ok i" "bc_tports bc c = transport_of_info i" using c assms(3) unfolding bc_ok_def by blast
    with True show ?thesis using transport_compare_key [OF _ assms(1)] by simp
  next
    case False
    then show ?thesis using T(1) by (auto simp: tcp_child_def cmsg_transport_compare_def)
  qed
  show ?thesis
  proof (cases "List.find (\<lambda>c. cmsg_transport_compare (bc_tports bc c) ?t) (bc_children bc)")
    case None
    then have "info_key info \<notin># bc_keys bc" using cmp by (auto simp: find_None_iff bc_keys_def)
    then show ?thesis
      using None assms(3) by (simp add: cmsg_broadcast_client_delete_child_def cmsg_composite_client_lookup_by_transport_def
          same_settings_def bc_ok_def diff_single_trivial)
  next
    case (Some c)
    then have c: "c \<in> set (bc_children bc)" "tcp_child bc c" "transport_key (bc_tports bc c) = info_key info"
      using cmp by (auto simp: find_Some_iff)
    let ?bc = "bc_log (Bc_destroy_child c) (bc\<lparr>bc_base_client := (bc_base_client bc)\<lparr>comp_children := remove1 c (bc_children bc),
        comp_parent_set := removeAll c (comp_parent_set (bc_base_client bc))\<rparr>\<rparr>)"
    have step: "cmsg_broadcast_client_delete_child env ?t bc =
        cmsg_broadcast_client_generate_event env (sin_addr ?t) False ?bc"
      using Some assms(3) by (simp add: cmsg_broadcast_client_delete_child_def cmsg_composite_client_lookup_by_transport_def
          cmsg_composite_client_delete_child_def bc_ok_def)
    have same: "tcp_child ?bc = tcp_child bc" by (simp add: fun_eq_iff tcp_child_def bc_log_def)
    have "filter (tcp_child bc) (remove1 c (bc_children bc)) = remove1 c (filter (tcp_child bc) (bc_children bc))"
      by (simp add: filter_remove1)
    then have "bc_keys ?bc = bc_keys bc - {#info_key info#}"
      using c by (simp add: bc_keys_def same) (simp add: bc_log_def image_mset_Diff)
    moreover have "own_children ?bc = own_children bc"
      using c(2) by (simp add: own_children_def same) (simp add: bc_log_def filter_remove1 remove1_idem)
    moreover have "bc_ok ?bc"
      using assms(3) same notin_set_remove1 by (fastforce simp: bc_ok_def bc_log_def)
    ultimately show ?thesis
      unfolding step by (simp add: same_settings_def bc_ok_def bc_log_def)
  qed
qed

text \<open>One call of the callback.\<close>

lemma callback_exact:
  assumes "info_ok info" "bc_ok bc" "\<forall>tr. bc_client_ok env tr"
  shows "\<exists>bc'. server_event_callback env (Some (transport_of_info info)) a bc = Some (True, bc') \<and> bc_ok bc' \<and>
    same_settings bc bc' \<and>
    bc_keys bc' = (if bc_wants env bc (info_key info) then tell a (info_key info) (bc_keys bc) else bc_keys bc)"
proof (cases info)
  case (Info_unix ow path)
  then show ?thesis
    using assms(1,2) transport_of_unix [of ow path] by (auto simp: server_event_callback_def same_settings_def)
next
  case (Info_tcp ow tcp)
  note T = tcp_transport [OF assms(1) Info_tcp refl]
  obtain name where name: "bc_service_entry_name bc = Some name" using assms(2) by (auto simp: bc_ok_def)
  have wants: "bc_wants env bc (info_key info) \<longleftrightarrow> sin_port (transport_of_info info) = bc_port env name \<and>
      (bc_connect_to_self bc \<or> bc_my_node_addr bc \<noteq> sin_addr (transport_of_info info))"
    using T(3,4) name Info_tcp by simp
  have not_unix: "t_type (transport_of_info info) \<noteq> CMSG_TRANSPORT_RPC_UNIX"
    "t_type (transport_of_info info) \<noteq> CMSG_TRANSPORT_ONEWAY_UNIX" using T(1) by auto
  show ?thesis
    using name wants not_unix broadcast_add_exact [OF assms(1) Info_tcp assms(2,3)] broadcast_delete_exact [OF assms(1) Info_tcp assms(2), of env]
      assms(2)
    by (auto simp: server_event_callback_def tell_def same_settings_def)
qed (use assms(1) in \<open>simp add: info_ok_def\<close>)

text \<open>A sequence of calls.\<close>

fun callbacks :: "bc_env \<Rightarrow> (bool \<times> cmsg_transport option) list \<Rightarrow> broadcast_client \<Rightarrow> broadcast_client option" where
  "callbacks env [] bc = Some bc"
| "callbacks env ((a, t) # cs) bc = Option.bind (server_event_callback env t a bc) (\<lambda>(_, bc). callbacks env cs bc)"

lemma filter_tell: "filter_mset P (tell a k K) = (if P k then tell a k (filter_mset P K) else filter_mset P K)"
  by (auto simp: tell_def)

lemma callbacks_exact:
  assumes "\<forall>(a, e) \<in> set evs. info_ok (si_transport (ev_service_info e))" "bc_ok bc" "\<forall>tr. bc_client_ok env tr"
    and "bc_keys bc = filter_mset (bc_wants env bc) (tally cs)"
  shows "\<exists>bc'. callbacks env (map handed evs) bc = Some bc' \<and> bc_ok bc' \<and> same_settings bc bc' \<and>
    bc_keys bc' = filter_mset (bc_wants env bc) (tally (cs @ map handed evs))"
  using assms(1,2,4)
proof (induction evs arbitrary: bc cs)
  case Nil
  then show ?case by (simp add: same_settings_def)
next
  case (Cons ae evs)
  obtain a e where ae: "ae = (a, e)" by fastforce
  let ?i = "si_transport (ev_service_info e)"
  have ok: "info_ok ?i" "\<forall>(a, e) \<in> set evs. info_ok (si_transport (ev_service_info e))"
    using Cons.prems(1) by (auto simp: ae)
  obtain bc1 where bc1: "server_event_callback env (Some (transport_of_info ?i)) a bc = Some (True, bc1)" "bc_ok bc1"
      "same_settings bc bc1" "bc_keys bc1 = (if bc_wants env bc (info_key ?i) then tell a (info_key ?i) (bc_keys bc) else bc_keys bc)"
    using callback_exact [OF ok(1) Cons.prems(2) assms(3)] by blast
  have key: "tally (cs @ [handed ae]) = tell a (info_key ?i) (tally cs)"
    using ok(1) by (simp add: tally_def handed_def ae server_transport_key_def info_create_of_info)
  have w: "bc_wants env bc1 = bc_wants env bc" by (rule same_settings_wants [OF bc1(3)])
  have "bc_keys bc1 = filter_mset (bc_wants env bc1) (tally (cs @ [handed ae]))"
    unfolding w key bc1(4) Cons.prems(3) by (simp add: filter_tell)
  from Cons.IH [OF ok(2) bc1(2) this] bc1(1,3) w
  show ?case by (auto simp: ae handed_def same_settings_def)
qed

section \<open>From the daemon to the children\<close>

lemma new_broadcast:
  assumes "cmsg_broadcast_client_new env (Some d) (Some name) addr self oneway events = Some bc"
  shows "bc_ok bc \<and> bc_children bc = [] \<and> bc_connect_to_self bc = self"
  using assms
  by (auto simp: cmsg_broadcast_client_new_def cmsg_broadcast_client_create_def cmsg_broadcast_client_init_events_def
      cmsg_broadcast_conn_mgmt_init_def cmsg_composite_client_init_def bc_log_def bc_ok_def Let_def split: if_splits)

text \<open>
  C7: A broadcast client has one child for each server it is meant to reach. The daemon, the service
  listener library and the client together: whatever the daemon was called with, and in whatever order the
  process took its events from the queue, once every event that the daemon sent to the client's listener has arrived and the queue of
  the listener is empty, the client's children are exactly the TCP servers that the daemon has for the
  service, on the service's port and, unless the client connects to its own node, on the other nodes. (This
  holds while the process can allocate the events it queues and make the clients of its children.)
\<close>

theorem broadcast_follows_servers:
  assumes "sld_reachable denv dst" "map_of (sl_table dst) service = Some entry" "l \<in> set (listeners entry)"
    and "sla_reachable env st0" "cmsg_service_listener_listen env service h ud st0 = Some (Some p, st1)"
    and "sla_run env p st1 evs st2" "\<forall>tr. event_alloc env tr p"
    and "ls_id l = of_nat p" "with_id (of_nat p) evs = with_id (of_nat p) (sent_to (ls_ptr l) (sl_trace dst))"
    and "sa_infos st2 p = Some info" "in_queue info = []"
    and "cmsg_broadcast_client_new benv (Some service) (Some name) addr self oneway events = Some bc0"
    and "\<forall>tr. bc_client_ok benv tr"
  shows "\<exists>bc. callbacks benv (calls p (sa_trace st2)) bc0 = Some bc \<and> own_children bc = [] \<and>
    bc_keys bc = filter_mset (bc_wants benv bc0) (server_keys (servers entry))"
proof -
  note T = listener_told [OF assms(1-9)]
  have "told st2 p = calls p (sa_trace st2)" by (simp add: told_def waiting_def assms(10,11))
  with T(2,4) have calls: "calls p (sa_trace st2) = map handed (with_id (of_nat p) evs)"
    "tally (calls p (sa_trace st2)) = server_keys (servers entry)" by simp_all
  have "bc_ok bc0" "bc_children bc0 = []" using new_broadcast [OF assms(12)] by simp_all
  moreover from this have "bc_keys bc0 = filter_mset (bc_wants benv bc0) (tally [])" "own_children bc0 = []"
    by (simp_all add: bc_keys_def own_children_def tally_def)
  ultimately show ?thesis
    using callbacks_exact [OF T(3) _ assms(13), of bc0 "[]"] calls by (auto simp: same_settings_def)
qed

text \<open>The client of the witness follows \<open>db\<close> on port 12345 from node 10.0.0.1.\<close>

definition demo_benv :: bc_env where
  "demo_benv = \<lparr>bc_calloc_ok = True, bc_eventfd_ok = True, bc_queue_ok = True, bc_listen_ok = True,
     bc_client_ok = (\<lambda>_. True), bc_event_ok = (\<lambda>_. True), bc_port = (\<lambda>_. [48, 57])\<rparr>"

definition demo_bc :: broadcast_client where
  "demo_bc = the (cmsg_broadcast_client_new demo_benv (Some ''db'') (Some ''db_port'') [10, 0, 0, 1] False False True)"

lemma demo_bc_new:
  "cmsg_broadcast_client_new demo_benv (Some ''db'') (Some ''db_port'') [10, 0, 0, 1] False False True = Some demo_bc"
  by (simp add: demo_bc_def cmsg_broadcast_client_new_def cmsg_broadcast_client_create_def demo_benv_def
      cmsg_broadcast_client_init_events_def cmsg_broadcast_conn_mgmt_init_def)

theorem broadcast_follows_servers_witness:
  "\<exists>bc. callbacks demo_benv (calls 1 (sa_trace demo_sl3)) demo_bc = Some bc \<and> own_children bc = [] \<and>
     bc_keys bc = {#server_key demo_tcp_info#}"
proof -
  obtain info where p: "sa_infos demo_sl3 1 = Some info" "in_queue info = []"
    using demo_delivered(2) by blast
  have keys: "filter_mset (bc_wants demo_benv demo_bc) (server_keys (servers (demo_db demo_serving))) = {#server_key demo_tcp_info#}"
    by code_simp
  show ?thesis
    using broadcast_follows_servers [OF demo_serving_reachable demo_listener(1,2) demo_sl_run(1) demo_listening_sl(2) demo_sl_run(2)
        _ _ _ p demo_bc_new]
    unfolding keys by (simp add: demo_listener demo_events_def demo_sl_env_def) (simp add: demo_benv_def)
qed

section \<open>Mesh connections\<close>

text \<open>The parts that exist after some events; \<open>None\<close> if one is destroyed that does not exist.\<close>

fun parts_left :: "mesh_event list \<Rightarrow> mesh_part multiset \<Rightarrow> mesh_part multiset option" where
  "parts_left [] ps = Some ps"
| "parts_left (Mesh_create p # evs) ps = parts_left evs (add_mset p ps)"
| "parts_left (Mesh_destroy p # evs) ps = (if p \<in># ps then parts_left evs (ps - {#p#}) else None)"

definition mesh_parts :: "cmsg_mesh_local_type \<Rightarrow> mesh_part multiset" where
  "mesh_parts type = {#Mesh_info, Mesh_broadcast, Mesh_server, Mesh_accept_thread#} +
     (if type = CMSG_MESH_LOCAL_LOOPBACK then {#Mesh_loopback#} else {#})"

text \<open>
  C37: A mesh connection is made as a whole or not at all. It is made exactly when every part that its type asks for can be
  created: if one cannot, the initialisation fails and those that were made are destroyed again, each once; otherwise the
  connection has every part, the loopback client is the only child of the broadcast client, which connects to its own node
  just for the TCP type, and ending the connection destroys every part once.
\<close>

theorem mesh_all_or_nothing:
  "case cmsg_mesh_connection_init env part_ok d name addr type oneway events of
     (None, tr) \<Rightarrow> parts_left tr {#} = Some {#} \<and>
       (cmsg_broadcast_client_new env (Some d) (Some name) addr (type = CMSG_MESH_LOCAL_TCP) oneway events = None \<or>
        (\<exists>p \<in># mesh_parts type. p \<noteq> Mesh_broadcast \<and> \<not> part_ok p))
   | (Some m, tr) \<Rightarrow> parts_left tr {#} = Some (mesh_parts type) \<and>
       \<not> (\<exists>p \<in># mesh_parts type. p \<noteq> Mesh_broadcast \<and> \<not> part_ok p) \<and>
       cmsg_broadcast_client_new env (Some d) (Some name) addr (type = CMSG_MESH_LOCAL_TCP) oneway events \<noteq> None \<and>
       parts_left (tr @ cmsg_mesh_connection_destroy (Some m)) {#} = Some {#} \<and>
       bc_children (mesh_broadcast_client m) = (case mesh_loopback_client m of None \<Rightarrow> [] | Some c \<Rightarrow> [c]) \<and>
       (mesh_loopback_client m \<noteq> None \<longleftrightarrow> type = CMSG_MESH_LOCAL_LOOPBACK) \<and>
       (bc_connect_to_self (mesh_broadcast_client m) \<longleftrightarrow> type = CMSG_MESH_LOCAL_TCP)"
proof (cases "cmsg_broadcast_client_new env (Some d) (Some name) addr (type = CMSG_MESH_LOCAL_TCP) oneway events")
  case None
  then show ?thesis by (auto simp: cmsg_mesh_connection_init_def mesh_parts_def Let_def)
next
  case (Some bc)
  note new = new_broadcast [OF Some]
  show ?thesis
    using Some new
    by (cases type) (auto simp: cmsg_mesh_connection_init_def mesh_parts_def cmsg_mesh_connection_destroy_def Let_def
        cmsg_broadcast_client_add_loopback_def add_application_child_def cmsg_composite_client_add_child_def bc_ok_def)
qed

end
