(* ===== verification/PubSubApi.thy ===== *)
theory PubSubApi
  imports Publisher
begin

text \<open>
  The library between a process and the publisher subscriber daemon
  (\<open>publisher_subscriber/cmsg_ps_api.c\<close>): the address of the host, subscriptions, subscribers that go,
  and publishers that register.

  A server is what the library reads of it, its transport and the name of its service. The calls
  of the daemon go to the trace with what they returned, as do the objects that a process makes and
  destroys and the servers that it announces to and withdraws from the service listener daemon (the
  library of \<open>SlApi\<close>, which connects to that daemon). \<open>None\<close> is an access through \<open>NULL\<close>.
\<close>

record ps_server =
  psv_transport :: cmsg_transport
  psv_service :: string

datatype ps_message =
    Psm_address "u8 list"
  | Psm_subscription bool ps_subscription
  | Psm_subscriber_gone string cmsg_transport_info
  | Psm_publisher bool string cmsg_transport_info

datatype ps_part =
    Part_object
  | Part_subscribed_methods_mutex
  | Part_send_queue_mutex
  | Part_send_queue_cond
  | Part_subscribed_methods
  | Part_update_thread
  | Part_send_queue
  | Part_send_thread
  | Part_transport cmsg_transport
  | Part_server ps_server

datatype ps_api_event =
    Psa_wait
  | Psa_call ps_message int
  | Psa_new ps_part
  | Psa_gone ps_part
  | Psa_sld bool string cmsg_transport_info

text \<open>What may fail, the answers of the daemon and the process id.\<close>

record ps_api_env =
  psa_part_ok :: "ps_api_event list \<Rightarrow> ps_part \<Rightarrow> bool"
  psa_client_ok :: "ps_api_event list \<Rightarrow> bool"
  psa_result :: "ps_api_event list \<Rightarrow> ps_message \<Rightarrow> int"
  psa_methods :: "ps_api_event list \<Rightarrow> method_entries"
  psa_pid :: u32

text \<open>\<open>psa_id\<close> is the static number of update servers, starting at 1.\<close>

record ps_api =
  psa_running :: bool
  psa_local_addr :: "u8 list"
  psa_id :: u32
  psa_trace :: "ps_api_event list"

definition ps_api_init :: ps_api where
  "ps_api_init = \<lparr>psa_running = False, psa_local_addr = [0, 0, 0, 0], psa_id = 1, psa_trace = []\<rparr>"

definition psa_log :: "ps_api_event \<Rightarrow> ps_api \<Rightarrow> ps_api" where
  "psa_log ev a = a\<lparr>psa_trace := psa_trace a @ [ev]\<rparr>"

section \<open>Calling the daemon\<close>

text \<open>Whether there is a client; the first time, the process waits for the daemon's server.\<close>

definition cmsg_ps_get_client :: "ps_api_env \<Rightarrow> ps_api \<Rightarrow> bool \<times> ps_api" where
  "cmsg_ps_get_client env a =
     (let a = (if \<not> psa_running a then (psa_log Psa_wait a)\<lparr>psa_running := True\<rparr> else a)
      in (psa_client_ok env (psa_trace a), a))"

definition ps_call :: "ps_api_env \<Rightarrow> ps_message \<Rightarrow> ps_api \<Rightarrow> int \<times> ps_api" where
  "ps_call env msg a =
     (let ret = psa_result env (psa_trace a) msg in (ret, psa_log (Psa_call msg ret) a))"

definition cmsg_ps_address_set :: "ps_api_env \<Rightarrow> u8 list \<Rightarrow> ps_api \<Rightarrow> int \<times> ps_api" where
  "cmsg_ps_address_set env addr a =
     (case cmsg_ps_get_client env a of
        (client, a) \<Rightarrow>
          if \<not> client then (CMSG_RET_ERR, a)
          else ps_call env (Psm_address addr) (a\<lparr>psa_local_addr := addr\<rparr>))"

definition cmsg_ps_subscription_add_remove ::
  "ps_api_env \<Rightarrow> ps_server option \<Rightarrow> string \<Rightarrow> bool \<Rightarrow> bool \<Rightarrow> u8 list \<Rightarrow> ps_api \<Rightarrow> (int \<times> ps_api) option" where
  "cmsg_ps_subscription_add_remove env sub_server method_name add remote remote_addr a =
     Option.bind sub_server (\<lambda>server.
     case cmsg_transport_info_create (psv_transport server) of
       None \<Rightarrow> Some (CMSG_RET_ERR, a)
     | Some transport_info \<Rightarrow>
         let send_msg = \<lparr>sub_service = psv_service server, sub_transport = transport_info, sub_method = method_name,
               sub_remote_addr = (if remote then Some remote_addr else None)\<rparr>
         in (case cmsg_ps_get_client env a of
               (client, a) \<Rightarrow>
                 Some (if \<not> client then (CMSG_RET_ERR, a) else ps_call env (Psm_subscription add send_msg) a)))"

definition cmsg_ps_subscription_add_local ::
  "ps_api_env \<Rightarrow> ps_server option \<Rightarrow> string \<Rightarrow> ps_api \<Rightarrow> (int \<times> ps_api) option" where
  "cmsg_ps_subscription_add_local env sub_server method_name a =
     cmsg_ps_subscription_add_remove env sub_server method_name True False [0, 0, 0, 0] a"

definition cmsg_ps_subscription_add_remote ::
  "ps_api_env \<Rightarrow> ps_server option \<Rightarrow> string \<Rightarrow> u8 list \<Rightarrow> ps_api \<Rightarrow> (int \<times> ps_api) option" where
  "cmsg_ps_subscription_add_remote env sub_server method_name remote_addr a =
     cmsg_ps_subscription_add_remove env sub_server method_name True True remote_addr a"

definition cmsg_ps_subscription_remove_local ::
  "ps_api_env \<Rightarrow> ps_server option \<Rightarrow> string \<Rightarrow> ps_api \<Rightarrow> (int \<times> ps_api) option" where
  "cmsg_ps_subscription_remove_local env sub_server method_name a =
     cmsg_ps_subscription_add_remove env sub_server method_name False False [0, 0, 0, 0] a"

definition cmsg_ps_subscription_remove_remote ::
  "ps_api_env \<Rightarrow> ps_server option \<Rightarrow> string \<Rightarrow> u8 list \<Rightarrow> ps_api \<Rightarrow> (int \<times> ps_api) option" where
  "cmsg_ps_subscription_remove_remote env sub_server method_name remote_addr a =
     cmsg_ps_subscription_add_remove env sub_server method_name False True remote_addr a"

definition cmsg_ps_remove_subscriber :: "ps_api_env \<Rightarrow> ps_server \<Rightarrow> ps_api \<Rightarrow> int \<times> ps_api" where
  "cmsg_ps_remove_subscriber env sub_server a =
     (case cmsg_transport_info_create (psv_transport sub_server) of
        None \<Rightarrow> (CMSG_RET_ERR, a)
      | Some transport_info \<Rightarrow>
          (case cmsg_ps_get_client env a of
             (client, a) \<Rightarrow>
               if \<not> client then (CMSG_RET_ERR, a)
               else ps_call env (Psm_subscriber_gone (psv_service sub_server) transport_info) a))"

section \<open>Publishers\<close>

text \<open>\<open>snprintf\<close> into 107 bytes, the NUL included.\<close>

definition ps_unix_transport :: "cmsg_transport_type \<Rightarrow> string \<Rightarrow> cmsg_transport" where
  "ps_unix_transport type path =
     (cmsg_transport_new type)\<lparr>family := AF_UNIX, sun_family := AF_UNIX, sun_path := take 106 path\<rparr>"

text \<open>
  Every server is announced to the service listener daemon when it is made and withdrawn when it is
  destroyed, unless its transport has no description.
\<close>

definition ps_server_event :: "bool \<Rightarrow> ps_server \<Rightarrow> ps_api_event list" where
  "ps_server_event added server =
     (case cmsg_transport_info_create (psv_transport server) of
        None \<Rightarrow> []
      | Some transport_info \<Rightarrow> [Psa_sld added (psv_service server) transport_info])"

definition ps_server_new :: "ps_api_env \<Rightarrow> cmsg_transport \<Rightarrow> string \<Rightarrow> ps_api \<Rightarrow> ps_server option \<times> ps_api" where
  "ps_server_new env transport service a =
     (let server = \<lparr>psv_transport = transport, psv_service = service\<rparr> in
      if psa_part_ok env (psa_trace a) (Part_server server)
      then (Some server, fold psa_log (Psa_new (Part_server server) # ps_server_event True server) a)
      else (None, a))"

text \<open>\<open>cmsg_destroy_server_and_transport\<close>: what it does, in order.\<close>

definition ps_server_gone :: "ps_server \<Rightarrow> ps_api_event list" where
  "ps_server_gone server =
     ps_server_event False server @ [Psa_gone (Part_server server), Psa_gone (Part_transport (psv_transport server))]"

definition cmsg_ps_create_publisher_update_server :: "ps_api_env \<Rightarrow> ps_api \<Rightarrow> ps_server option \<times> ps_api" where
  "cmsg_ps_create_publisher_update_server env a =
     (let transport = ps_unix_transport CMSG_TRANSPORT_RPC_UNIX
            (''/tmp/cmsg_psd.update.'' @ decimal (unat (psa_pid env)) @ ''.'' @ decimal (unat (psa_id a)))
      in ps_server_new env transport ''cmsg_psd.update''
           (psa_log (Psa_new (Part_transport transport)) (a\<lparr>psa_id := psa_id a + 1\<rparr>)))"

text \<open>With the methods that the daemon's reply lists; they are set to \<open>NULL\<close> first.\<close>

definition cmsg_ps_register_publisher ::
  "ps_api_env \<Rightarrow> string \<Rightarrow> ps_server \<Rightarrow> ps_api \<Rightarrow> (int \<times> method_entries) \<times> ps_api" where
  "cmsg_ps_register_publisher env service server a =
     (case cmsg_transport_info_create (psv_transport server) of
        None \<Rightarrow> ((CMSG_RET_ERR, []), a)
      | Some transport_info \<Rightarrow>
          (case cmsg_ps_get_client env a of
             (client, a) \<Rightarrow>
               if \<not> client then ((CMSG_RET_ERR, []), a)
               else (case ps_call env (Psm_publisher True service transport_info) a of
                       (ret, a') \<Rightarrow> ((ret, psa_methods env (psa_trace a)), a'))))"

definition cmsg_ps_deregister_publisher ::
  "ps_api_env \<Rightarrow> string \<Rightarrow> ps_server option \<Rightarrow> ps_api \<Rightarrow> (int \<times> ps_api) option" where
  "cmsg_ps_deregister_publisher env service server a =
     Option.bind server (\<lambda>server.
     case cmsg_transport_info_create (psv_transport server) of
       None \<Rightarrow> Some (CMSG_RET_ERR, a)
     | Some transport_info \<Rightarrow>
         (case cmsg_ps_get_client env a of
            (client, a) \<Rightarrow>
              Some (if \<not> client then (CMSG_RET_ERR, a)
                    else ps_call env (Psm_publisher False service transport_info) a)))"

end
