(* ===== verification/Subscriber.thy ===== *)
theory Subscriber
  imports PubSubApi
begin

text \<open>
  The subscriber (\<open>publisher_subscriber/cmsg_sub.c\<close>): a server on a unix socket for the host's own
  publishers, one on TCP for those of other hosts, and the subscriptions of both.
\<close>

record cmsg_subscriber =
  local_server :: "ps_server option"
  remote_server :: "ps_server option"

section \<open>Creation\<close>

text \<open>The server takes its transport over; a transport without a server is left behind.\<close>

definition cmsg_sub_new ::
  "ps_api_env \<Rightarrow> cmsg_transport option \<Rightarrow> string \<Rightarrow> ps_api \<Rightarrow> cmsg_subscriber option \<times> ps_api" where
  "cmsg_sub_new env tcp_transport pub_service a =
     (if \<not> psa_part_ok env (psa_trace a) Part_object then (None, a)
      else
        let a = psa_log (Psa_new Part_object) a;
            unix_transport = ps_unix_transport CMSG_TRANSPORT_ONEWAY_UNIX
              (''/tmp/'' @ pub_service @ ''.'' @ decimal (unat (psa_pid env)));
            a = psa_log (Psa_new (Part_transport unix_transport)) a
        in case ps_server_new env unix_transport pub_service a of
             (None, a) \<Rightarrow> (None, psa_log (Psa_gone Part_object) a)
           | (Some server, a) \<Rightarrow>
               (case tcp_transport of
                  None \<Rightarrow> (Some \<lparr>local_server = Some server, remote_server = None\<rparr>, a)
                | Some transport \<Rightarrow>
                    (case ps_server_new env transport pub_service a of
                       (None, a) \<Rightarrow>
                         (None, fold psa_log (ps_server_gone server @ [Psa_gone Part_object]) a)
                     | (Some remote, a) \<Rightarrow>
                         (Some \<lparr>local_server = Some server, remote_server = Some remote\<rparr>, a))))"

definition cmsg_sub_unix_server_get :: "cmsg_subscriber \<Rightarrow> ps_server option" where
  "cmsg_sub_unix_server_get subscriber = local_server subscriber"

text \<open>The getter of the transport is a parameter. A \<open>NULL\<close> server has no socket.\<close>

definition cmsg_server_get_socket :: "(cmsg_transport \<Rightarrow> int) \<Rightarrow> ps_server option \<Rightarrow> int" where
  "cmsg_server_get_socket get_socket server =
     (case server of None \<Rightarrow> -1 | Some s \<Rightarrow> get_socket (psv_transport s))"

definition cmsg_sub_unix_server_socket_get :: "(cmsg_transport \<Rightarrow> int) \<Rightarrow> cmsg_subscriber option \<Rightarrow> int" where
  "cmsg_sub_unix_server_socket_get get_socket subscriber =
     (case subscriber of None \<Rightarrow> -1 | Some s \<Rightarrow> cmsg_server_get_socket get_socket (local_server s))"

definition cmsg_sub_tcp_server_get :: "cmsg_subscriber \<Rightarrow> ps_server option" where
  "cmsg_sub_tcp_server_get subscriber = remote_server subscriber"

definition cmsg_sub_tcp_server_socket_get :: "(cmsg_transport \<Rightarrow> int) \<Rightarrow> cmsg_subscriber option \<Rightarrow> int" where
  "cmsg_sub_tcp_server_socket_get get_socket subscriber =
     (case subscriber of None \<Rightarrow> -1 | Some s \<Rightarrow> cmsg_server_get_socket get_socket (remote_server s))"

text \<open>\<open>port\<close> is the service's port, as in \<open>cmsg_create_transport_tcp_ipv4\<close>.\<close>

definition cmsg_subscriber_create_tcp ::
  "ps_api_env \<Rightarrow> u8 list option \<Rightarrow> u8 list \<Rightarrow> string option \<Rightarrow> string option \<Rightarrow> ps_api
   \<Rightarrow> cmsg_subscriber option \<times> ps_api" where
  "cmsg_subscriber_create_tcp env port addr vrf service a =
     (case (port, service) of
        (Some port, Some service) \<Rightarrow>
          (case cmsg_create_transport_tcp_ipv4 port addr vrf True of
             None \<Rightarrow> (None, a)
           | Some transport \<Rightarrow>
               (case cmsg_sub_new env (Some transport) service (psa_log (Psa_new (Part_transport transport)) a) of
                  (None, a) \<Rightarrow> (None, psa_log (Psa_gone (Part_transport transport)) a)
                | (Some subscriber, a) \<Rightarrow> (Some subscriber, a)))
      | _ \<Rightarrow> (None, a))"

definition cmsg_subscriber_create_unix :: "ps_api_env \<Rightarrow> string \<Rightarrow> ps_api \<Rightarrow> cmsg_subscriber option \<times> ps_api" where
  "cmsg_subscriber_create_unix env service a = cmsg_sub_new env None service a"

text \<open>
  A server is destroyed with its transport, after the daemon was told; destroying it also withdraws
  it from the service listener daemon.
\<close>

definition sub_server_destroy :: "ps_api_env \<Rightarrow> ps_server option \<Rightarrow> ps_api \<Rightarrow> ps_api" where
  "sub_server_destroy env server a =
     (case server of
        None \<Rightarrow> a
      | Some s \<Rightarrow> fold psa_log (ps_server_gone s) (snd (cmsg_ps_remove_subscriber env s a)))"

definition cmsg_subscriber_destroy :: "ps_api_env \<Rightarrow> cmsg_subscriber option \<Rightarrow> ps_api \<Rightarrow> ps_api" where
  "cmsg_subscriber_destroy env subscriber a =
     (case subscriber of
        None \<Rightarrow> a
      | Some s \<Rightarrow>
          psa_log (Psa_gone Part_object)
            (sub_server_destroy env (remote_server s) (sub_server_destroy env (local_server s) a)))"

section \<open>Subscriptions\<close>

definition cmsg_sub_subscribe_local ::
  "ps_api_env \<Rightarrow> cmsg_subscriber \<Rightarrow> string \<Rightarrow> ps_api \<Rightarrow> (int \<times> ps_api) option" where
  "cmsg_sub_subscribe_local env subscriber method_name a =
     cmsg_ps_subscription_add_local env (local_server subscriber) method_name a"

definition cmsg_sub_subscribe_remote ::
  "ps_api_env \<Rightarrow> cmsg_subscriber \<Rightarrow> u8 list \<Rightarrow> string \<Rightarrow> ps_api \<Rightarrow> (int \<times> ps_api) option" where
  "cmsg_sub_subscribe_remote env subscriber remote_addr method_name a =
     cmsg_ps_subscription_add_remote env (remote_server subscriber) method_name remote_addr a"

definition cmsg_sub_unsubscribe_local ::
  "ps_api_env \<Rightarrow> cmsg_subscriber \<Rightarrow> string \<Rightarrow> ps_api \<Rightarrow> (int \<times> ps_api) option" where
  "cmsg_sub_unsubscribe_local env subscriber method_name a =
     cmsg_ps_subscription_remove_local env (local_server subscriber) method_name a"

definition cmsg_sub_unsubscribe_remote ::
  "ps_api_env \<Rightarrow> cmsg_subscriber \<Rightarrow> u8 list \<Rightarrow> string \<Rightarrow> ps_api \<Rightarrow> (int \<times> ps_api) option" where
  "cmsg_sub_unsubscribe_remote env subscriber remote_addr method_name a =
     cmsg_ps_subscription_remove_remote env (remote_server subscriber) method_name remote_addr a"

text \<open>The \<open>while\<close> loop of the four functions for several events: the last failure is returned.\<close>

fun sub_each :: "(string \<Rightarrow> ps_api \<Rightarrow> (int \<times> ps_api) option) \<Rightarrow> string list \<Rightarrow> int \<Rightarrow> ps_api \<Rightarrow> (int \<times> ps_api) option" where
  "sub_each f [] return_value a = Some (return_value, a)"
| "sub_each f (event # events) return_value a =
     Option.bind (f event a) (\<lambda>(ret, a). sub_each f events (if ret < 0 then ret else return_value) a)"

definition cmsg_sub_subscribe_events_local ::
  "ps_api_env \<Rightarrow> cmsg_subscriber \<Rightarrow> string list \<Rightarrow> ps_api \<Rightarrow> (int \<times> ps_api) option" where
  "cmsg_sub_subscribe_events_local env subscriber events a =
     sub_each (cmsg_sub_subscribe_local env subscriber) events CMSG_RET_OK a"

definition cmsg_sub_subscribe_events_remote ::
  "ps_api_env \<Rightarrow> cmsg_subscriber \<Rightarrow> string list \<Rightarrow> u8 list \<Rightarrow> ps_api \<Rightarrow> (int \<times> ps_api) option" where
  "cmsg_sub_subscribe_events_remote env subscriber events remote_addr a =
     sub_each (cmsg_sub_subscribe_remote env subscriber remote_addr) events CMSG_RET_OK a"

definition cmsg_sub_unsubscribe_events_local ::
  "ps_api_env \<Rightarrow> cmsg_subscriber \<Rightarrow> string list \<Rightarrow> ps_api \<Rightarrow> (int \<times> ps_api) option" where
  "cmsg_sub_unsubscribe_events_local env subscriber events a =
     sub_each (cmsg_sub_unsubscribe_local env subscriber) events CMSG_RET_OK a"

definition cmsg_sub_unsubscribe_events_remote ::
  "ps_api_env \<Rightarrow> cmsg_subscriber \<Rightarrow> string list \<Rightarrow> u8 list \<Rightarrow> ps_api \<Rightarrow> (int \<times> ps_api) option" where
  "cmsg_sub_unsubscribe_events_remote env subscriber events remote_addr a =
     sub_each (cmsg_sub_unsubscribe_remote env subscriber remote_addr) events CMSG_RET_OK a"

end
