(* ===== verification/PublisherLife.thy ===== *)
theory PublisherLife
  imports PubSubApi
begin

text \<open>
  How a publisher is created and destroyed (\<open>publisher_subscriber/cmsg_pub.c\<close>): its mutexes, its table
  of subscribers, the server that gets the daemon's updates and its thread, the queue and its
  thread, and the registration with the daemon. \<open>Publisher\<close> has what it does in between.

  A member is \<open>None\<close> or \<open>False\<close> when it is \<open>NULL\<close> or not running; \<open>pub_core\<close> is the table of
  subscribers and the queue.
\<close>

record cmsg_publisher =
  pub_descriptor :: string
  pub_has_methods :: bool
  pub_update_server :: "ps_server option"
  pub_update_thread_running :: bool
  pub_has_send_queue :: bool
  pub_send_thread_running :: bool
  pub_core :: publisher

text \<open>\<open>pthread_mutex_init\<close>, \<open>pthread_create\<close> and the like: what is made is in the trace.\<close>

definition make_part :: "ps_api_env \<Rightarrow> ps_part \<Rightarrow> ps_api \<Rightarrow> bool \<times> ps_api" where
  "make_part env part a =
     (if psa_part_ok env (psa_trace a) part then (True, psa_log (Psa_new part) a) else (False, a))"

definition cmsg_publisher_init_pthread_structures :: "ps_api_env \<Rightarrow> ps_api \<Rightarrow> int \<times> ps_api" where
  "cmsg_publisher_init_pthread_structures env a =
     (case make_part env Part_subscribed_methods_mutex a of
        (ok, a) \<Rightarrow>
          if \<not> ok then (CMSG_RET_ERR, a)
          else
            (case make_part env Part_send_queue_mutex a of
               (ok, a) \<Rightarrow>
                 if \<not> ok then (CMSG_RET_ERR, psa_log (Psa_gone Part_subscribed_methods_mutex) a)
                 else
                   (case make_part env Part_send_queue_cond a of
                      (ok, a) \<Rightarrow>
                        if \<not> ok then
                          (CMSG_RET_ERR, psa_log (Psa_gone Part_send_queue_mutex)
                             (psa_log (Psa_gone Part_subscribed_methods_mutex) a))
                        else (CMSG_RET_OK, a))))"

text \<open>The registration; only its success fills the table.\<close>

definition publisher_register :: "ps_api_env \<Rightarrow> cmsg_publisher \<Rightarrow> ps_api \<Rightarrow> ((int \<times> cmsg_publisher) \<times> ps_api) option" where
  "publisher_register env publisher a =
     Option.bind (pub_update_server publisher) (\<lambda>server.
     case cmsg_ps_register_publisher env (pub_descriptor publisher) server a of
       ((ret, subscribed_methods), a) \<Rightarrow>
         if ret = CMSG_RET_OK then
           map_option (\<lambda>p. ((ret, publisher\<lparr>pub_core := p\<rparr>), a))
             (cmsg_publisher_init_subscribers subscribed_methods (pub_core publisher))
         else Some ((ret, publisher), a))"

text \<open>
  The server is read to tell the daemon, before it is known that there is one; releasing a queue that
  is \<open>NULL\<close> does nothing.
\<close>

definition cmsg_publisher_destroy :: "ps_api_env \<Rightarrow> cmsg_publisher \<Rightarrow> ps_api \<Rightarrow> ps_api option" where
  "cmsg_publisher_destroy env publisher a =
     Option.bind (cmsg_ps_deregister_publisher env (pub_descriptor publisher) (pub_update_server publisher) a) (\<lambda>(_, a).
     Option.bind (pub_update_server publisher) (\<lambda>server.
       Some (fold psa_log
         ((if pub_send_thread_running publisher then [Psa_gone Part_send_thread] else []) @
          (if pub_update_thread_running publisher then [Psa_gone Part_update_thread] else []) @
          (if pub_has_methods publisher then [Psa_gone Part_subscribed_methods] else []) @
          ps_server_gone server @
          [Psa_gone Part_subscribed_methods_mutex, Psa_gone Part_send_queue_mutex, Psa_gone Part_send_queue_cond] @
          (if pub_has_send_queue publisher then [Psa_gone Part_send_queue] else []) @
          [Psa_gone Part_object]) a)))"

text \<open>The end of a creation that failed.\<close>

definition publisher_abandon ::
  "ps_api_env \<Rightarrow> cmsg_publisher \<Rightarrow> ps_api \<Rightarrow> (cmsg_publisher option \<times> ps_api) option" where
  "publisher_abandon env publisher a = map_option (Pair None) (cmsg_publisher_destroy env publisher a)"

definition publisher_start_threads ::
  "ps_api_env \<Rightarrow> cmsg_publisher \<Rightarrow> ps_api \<Rightarrow> (cmsg_publisher option \<times> ps_api) option" where
  "publisher_start_threads env publisher a =
     (case make_part env Part_update_thread a of
        (ok, a) \<Rightarrow>
          if \<not> ok then publisher_abandon env publisher a
          else
            let publisher = publisher\<lparr>pub_update_thread_running := True\<rparr> in
            case make_part env Part_send_queue a of
              (ok, a) \<Rightarrow>
                if \<not> ok then publisher_abandon env publisher a
                else
                  let publisher = publisher\<lparr>pub_has_send_queue := True\<rparr> in
                  case make_part env Part_send_thread a of
                    (ok, a) \<Rightarrow>
                      if \<not> ok then publisher_abandon env publisher a
                      else
                        let publisher = publisher\<lparr>pub_send_thread_running := True\<rparr> in
                        Option.bind (publisher_register env publisher a) (\<lambda>((ret, publisher), a).
                          if ret \<noteq> CMSG_RET_OK then publisher_abandon env publisher a
                          else Some (Some publisher, a)))"

definition cmsg_publisher_create ::
  "ps_api_env \<Rightarrow> string option \<Rightarrow> ps_api \<Rightarrow> (cmsg_publisher option \<times> ps_api) option" where
  "cmsg_publisher_create env service a =
     (case service of
        None \<Rightarrow> Some (None, a)
      | Some service_name \<Rightarrow>
          (case make_part env Part_object a of
             (ok, a) \<Rightarrow>
               if \<not> ok then Some (None, a)
               else
                 let publisher = \<lparr>pub_descriptor = service_name, pub_has_methods = False, pub_update_server = None,
                       pub_update_thread_running = False, pub_has_send_queue = False, pub_send_thread_running = False,
                       pub_core = new_publisher\<rparr>
                 in case cmsg_publisher_init_pthread_structures env a of
                      (ret, a) \<Rightarrow>
                        if ret \<noteq> CMSG_RET_OK then Some (None, psa_log (Psa_gone Part_object) a)
                        else
                          (case make_part env Part_subscribed_methods a of
                             (ok, a) \<Rightarrow>
                               if \<not> ok then publisher_abandon env publisher a
                               else
                                 let publisher = publisher\<lparr>pub_has_methods := True\<rparr> in
                                 case cmsg_ps_create_publisher_update_server env a of
                                   (None, a) \<Rightarrow> publisher_abandon env publisher a
                                 | (Some server, a) \<Rightarrow>
                                     publisher_start_threads env (publisher\<lparr>pub_update_server := Some server\<rparr>) a)))"

end
