(* ===== verification/SubscriberProperties.thy ===== *)
theory SubscriberProperties
  imports Subscriber PublisherLife PubSubProperties
begin

text \<open>
  The properties of subscribers and of publishers as a process makes and ends them: what the
  daemon and the publishers know of a subscriber, and what a failed creation leaves.
\<close>

section \<open>From the library to the daemon\<close>

text \<open>
  What a process does that the daemon hears of: the messages it is sent, and the events of the
  service listener about the process's servers, which it gets for the services that it listens for.
\<close>

datatype psd_input =
    From_process ps_message
  | From_listener bool string cmsg_transport_info

fun input_of :: "ps_api_event \<Rightarrow> psd_input list" where
  "input_of (Psa_call msg _) = [From_process msg]"
| "input_of (Psa_sld added service info) = [From_listener added service info]"
| "input_of _ = []"

definition inputs :: "ps_api \<Rightarrow> psd_input list" where
  "inputs a = concat (map input_of (psa_trace a))"

definition sl_listening :: "psd_state \<Rightarrow> string \<Rightarrow> bool" where
  "sl_listening d service = (case map_of (ps_table d) service of None \<Rightarrow> False | Some e \<Rightarrow> ps_sl_info e)"

fun psd_handle :: "psd_env \<Rightarrow> ps_message \<Rightarrow> psd_state \<Rightarrow> psd_state option" where
  "psd_handle denv (Psm_address addr) d = Some (cmsg_psd_configuration_impl_address_set denv addr d)"
| "psd_handle denv (Psm_subscription add info) d =
     (if add then cmsg_psd_configuration_impl_add_subscription denv info d
      else cmsg_psd_configuration_impl_remove_subscription denv info d)"
| "psd_handle denv (Psm_subscriber_gone service info) d = cmsg_psd_configuration_impl_remove_subscriber denv service info d"
| "psd_handle denv (Psm_publisher add service info) d =
     (if add then cmsg_psd_configuration_impl_add_publisher denv service info d
      else cmsg_psd_configuration_impl_remove_publisher denv service info d)"

fun psd_hears :: "psd_env \<Rightarrow> psd_input list \<Rightarrow> psd_state \<Rightarrow> psd_state option" where
  "psd_hears denv [] d = Some d"
| "psd_hears denv (From_process msg # rest) d = Option.bind (psd_handle denv msg d) (psd_hears denv rest)"
| "psd_hears denv (From_listener added service info # rest) d =
     Option.bind
       (if sl_listening d service
        then map_option snd (sl_event_handler denv service (transport_of_info info) added d) else Some d)
       (psd_hears denv rest)"

lemma psd_hears_append: "psd_hears denv (xs @ ys) d = Option.bind (psd_hears denv xs d) (psd_hears denv ys)"
  by (induction denv xs d rule: psd_hears.induct) (auto split: Option.bind_split)

lemma inputs_log [simp]:
  "inputs (psa_log ev a) = inputs a @ input_of ev"
  "inputs (a\<lparr>psa_running := r\<rparr>) = inputs a" "inputs (a\<lparr>psa_id := i\<rparr>) = inputs a"
  by (simp_all add: inputs_def psa_log_def)

lemma inputs_fold: "inputs (fold psa_log evs a) = inputs a @ concat (map input_of evs)"
  by (induction evs arbitrary: a) simp_all

lemma get_client_inputs: "inputs (snd (cmsg_ps_get_client env a)) = inputs a"
  by (simp add: cmsg_ps_get_client_def Let_def)

lemma get_client_result: "\<forall>tr. psa_client_ok env tr \<Longrightarrow> fst (cmsg_ps_get_client env a)"
  by (simp add: cmsg_ps_get_client_def Let_def)

lemma call_inputs: "inputs (snd (ps_call env msg a)) = inputs a @ [From_process msg]"
  by (simp add: ps_call_def Let_def)

text \<open>A subscription of a server, as the library sends it.\<close>

definition local_subscription :: "ps_server \<Rightarrow> cmsg_transport_info \<Rightarrow> string \<Rightarrow> ps_subscription" where
  "local_subscription s info m =
     \<lparr>sub_service = psv_service s, sub_transport = info, sub_method = m, sub_remote_addr = None\<rparr>"

lemma subscribe_inputs:
  assumes "cmsg_transport_info_create (psv_transport s) = Some info" "\<forall>tr. psa_client_ok env tr"
    and "sub_each (cmsg_sub_subscribe_local env \<lparr>local_server = Some s, remote_server = r\<rparr>) events ret0 a = Some (ret, a')"
  shows "inputs a' = inputs a @ map (From_process \<circ> Psm_subscription True \<circ> local_subscription s info) events"
  using assms(3)
proof (induction events arbitrary: ret0 a)
  case (Cons m events)
  let ?a = "snd (cmsg_ps_get_client env a)"
  have "cmsg_sub_subscribe_local env \<lparr>local_server = Some s, remote_server = r\<rparr> m a =
      Some (ps_call env (Psm_subscription True (local_subscription s info m)) ?a)"
    using assms(1) get_client_result [OF assms(2), of a]
    by (simp add: cmsg_sub_subscribe_local_def cmsg_ps_subscription_add_local_def cmsg_ps_subscription_add_remove_def
        local_subscription_def Let_def case_prod_beta)
  moreover obtain r1 a1 where call: "ps_call env (Psm_subscription True (local_subscription s info m)) ?a = (r1, a1)"
    by fastforce
  moreover have "inputs a1 = inputs a @ [From_process (Psm_subscription True (local_subscription s info m))]"
    using call_inputs [of env "Psm_subscription True (local_subscription s info m)" ?a] call by (simp add: get_client_inputs)
  ultimately show ?case using Cons by simp
qed simp

lemma remove_subscriber_inputs:
  assumes "cmsg_transport_info_create (psv_transport s) = Some info" "\<forall>tr. psa_client_ok env tr"
  shows "inputs (snd (cmsg_ps_remove_subscriber env s a)) = inputs a @ [From_process (Psm_subscriber_gone (psv_service s) info)]"
proof -
  have "inputs a' = inputs a @ [From_process (Psm_subscriber_gone (psv_service s) info)]"
    if "cmsg_ps_remove_subscriber env s a = (ret, a')" for ret a'
    using that assms(1) get_client_result [OF assms(2), of a] get_client_inputs [of env a]
      call_inputs [of env "Psm_subscriber_gone (psv_service s) info" "snd (cmsg_ps_get_client env a)"]
    by (auto simp: cmsg_ps_remove_subscriber_def split: prod.splits)
  then show ?thesis by (metis prod.collapse)
qed

text \<open>What the daemon makes of the subscriptions.\<close>

definition add_times :: "string list \<Rightarrow> ps_key \<Rightarrow> ps_subs \<Rightarrow> ps_subs" where
  "add_times events k S = (\<lambda>m. S m + replicate_mset (count_list events m) k)"

lemma hears_subscriptions:
  assumes "psd_inv d" "info_ok info"
  shows "\<exists>d'. psd_hears denv (map (From_process \<circ> Psm_subscription True \<circ> local_subscription s info) events) d = Some d' \<and> psd_inv d' \<and>
    psd_subs d' = (psd_subs d)(psv_service s := add_times events (info_key info) (psd_subs d (psv_service s)))"
  using assms(1)
proof (induction events arbitrary: d)
  case (Cons m events)
  let ?s = "local_subscription s info m"
  have s: "info_ok (sub_transport ?s)" "sub_remote_addr ?s = None" "sub_service ?s = psv_service s"
    "sub_method ?s = m" "sub_transport ?s = info"
    using assms(2) by (simp_all add: local_subscription_def)
  obtain d1 where d1: "cmsg_psd_configuration_impl_add_subscription denv ?s d = Some d1" "psd_inv d1" "subscribed ?s True d d1"
    using add_subscription_exact [OF Cons.prems s(1)] by blast
  from Cons.IH [OF d1(2)] d1(1,3) s show ?case
    by (auto simp: subscribed_def add_times_def fun_eq_iff)
qed (simp add: add_times_def)

section \<open>Telling the daemon twice\<close>

text \<open>An entry that is still there after a subscriber was removed has a method or a publisher.\<close>

lemma remove_subscriber_left:
  assumes "psd_inv st" "data_remove_subscriber env b k info st = Some (r, st')" "map_of (ps_table st') k = Some e"
  shows "ps_methods e \<noteq> [] \<or> publishers_of e \<noteq> []"
proof (cases "map_of (ps_table st) k")
  case None
  then show ?thesis
    using assms remote_entries_table
    by (fastforce simp: data_remove_subscriber_def ps_get_service_entry_or_create_def)
next
  case (Some e0)
  then obtain ms st2 where f: "data_remove_subscriber_from_methods env (ps_comp_client e0) info (ps_methods e0) st = Some (ms, st2)"
    using assms(2) by (auto simp: data_remove_subscriber_def ps_get_service_entry_or_create_def bind_eq_Some_conv)
  let ?ms = "data_prune_empty_methods ms" and ?st = "ps_put_entry k (e0\<lparr>ps_methods := data_prune_empty_methods ms\<rparr>) st2"
  show ?thesis
  proof (cases "?ms = [] \<and> cmsg_composite_client_num_children (ps_comp_client e0) = 0")
    case True
    then have "ps_table st' = ps_table (ps_remove_service k ?st)"
      using assms(2) f Some remote_entries_table
      by (auto simp: data_remove_subscriber_def ps_get_service_entry_or_create_def Let_def split: if_splits)
    then show ?thesis using assms(3) by (simp add: removed_service)
  next
    case False
    then have "ps_table st' = ps_table ?st"
      using assms(2) f Some remote_entries_table
      by (auto simp: data_remove_subscriber_def ps_get_service_entry_or_create_def Let_def split: if_splits)
    then have "e = e0\<lparr>ps_methods := ?ms\<rparr>" using assms(3) by (simp add: ps_put_entry_def update_conv)
    then show ?thesis
      using False entry_fineD(2) [OF psd_invD(2) [OF assms(1) Some]] by (auto simp: cmsg_composite_client_num_children_def)
  qed
qed

text \<open>Removing a subscriber that has no subscription leaves such an entry in place.\<close>

lemma remove_absent_subscriber:
  assumes "psd_inv st" "info_ok info" "map_of (ps_table st) k = Some e" "ps_methods e \<noteq> [] \<or> publishers_of e \<noteq> []"
    and "\<forall>m. info_key info \<notin># psd_subs st k m"
  shows "data_remove_subscriber env b k info st \<noteq> None"
proof -
  note fine = entry_fineD [OF psd_invD(2) [OF assms(1,3)]]
  have "data_remove_subscriber_from_methods env cc info ms st = Some (ms, st)"
    if "\<forall>(m, ts) \<in> set ms. \<forall>t \<in> set ts. info_ok t \<and> info_key t \<noteq> info_key info" for cc ms
    using that
  proof (induction ms)
    case (Cons x ms)
    obtain m ts where x: "x = (m, ts)" by fastforce
    have ts: "\<forall>t \<in> set ts. info_ok t" "info_key info \<notin># image_mset info_key (mset ts)" using Cons.prems x by auto
    have "data_remove_transport_from_method env cc m info ts st = Some (ts, st)"
      using ts by (cases rule: remove_transport_cases [OF ts(1) assms(2), of env cc m st]) auto
    with Cons x show ?case by simp
  qed simp
  moreover have "info_ok t \<and> info_key t \<noteq> info_key info" if "(m, ts) \<in> set (ps_methods e)" "t \<in> set ts" for m ts t
  proof -
    have m: "map_of (ps_methods e) m = Some ts" by (rule map_of_is_SomeI [OF methods_okD(1) [OF fine(1)] that(1)])
    have "info_key info \<notin># image_mset info_key (mset ts)"
      using assms(5) m by (auto simp: psd_subs_Some [OF assms(3)] subs_of_def dest!: spec [of _ m])
    then have "info_key t \<noteq> info_key info" using that(2) by (metis image_eqI set_image_mset set_mset_mset)
    then show ?thesis using methods_okD(3) [OF fine(1) m that(2)] by blast
  qed
  ultimately have r: "data_remove_subscriber_from_methods env (ps_comp_client e) info (ps_methods e) st = Some (ps_methods e, st)"
    by blast
  have "data_prune_empty_methods (ps_methods e) = ps_methods e"
    using fine(1) by (auto simp: data_prune_empty_methods_def methods_ok_def intro!: filter_True)
  then have first: "\<not> (data_prune_empty_methods (ps_methods e) = [] \<and> cmsg_composite_client_num_children (ps_comp_client e) = 0)"
      "ps_put_entry k (e\<lparr>ps_methods := data_prune_empty_methods (ps_methods e)\<rparr>) st = st"
    using assms(4) fine(2) put_found [OF assms(1,3)] by (auto simp: cmsg_composite_client_num_children_def)
  obtain st' where "data_remove_remote_entries_for_subscriber env k info st = Some st'"
    using remove_remote_entries_exact [OF assms(1,2)] by blast
  then show ?thesis
    by (simp only: data_remove_subscriber_def ps_get_service_entry_or_create_def assms(3) option.case prod.case r option.map
        Let_def if_not_P [OF first(1)] first(2)) simp
qed

text \<open>
  The two ways in which the daemon hears that a subscriber is gone: the library's message, and then the
  event of the service listener, if the daemon still listens for the service.
\<close>

lemma hears_gone:
  assumes "psd_inv d" "info_ok info"
  obtains d2 where "psd_hears denv [From_process (Psm_subscriber_gone service info)] d = Some d2" "psd_inv d2"
    "psd_subs d2 = (psd_subs d)(service := drop_in UNIV (info_key info) (psd_subs d service))"
    "case psd_hears denv [From_listener False service info] d2 of
       Some d3 \<Rightarrow> psd_subs d3 = (psd_subs d2)(service :=
         if sl_listening d2 service then drop_in UNIV (info_key info) (psd_subs d2 service) else psd_subs d2 service)
     | None \<Rightarrow> ps_remote d2 \<noteq> [] \<and> (\<exists>m. info_key info \<in># psd_subs d2 service m)"
proof -
  obtain r d2 where d2: "data_remove_subscriber denv False service info d = Some (r, d2)" "psd_inv d2"
    "psd_subs d2 = (psd_subs d)(service := drop_in UNIV (info_key info) (psd_subs d service))"
    using psd_remove_subscriber_exact [OF assms, of denv False service] by auto
  have one: "psd_hears denv [From_process (Psm_subscriber_gone service info)] d = Some d2"
    using d2(1) by (simp add: cmsg_psd_configuration_impl_remove_subscriber_def)
  have two: "psd_hears denv [From_listener False service info] d2 =
      (if sl_listening d2 service then map_option snd (data_remove_subscriber denv True service info d2) else Some d2)"
    by (auto simp: sl_event_handler_def info_create_of_info [OF assms(2)] option.map_comp comp_def case_prod_beta
        intro: option.map_cong split: Option.bind_split)
  have "ps_remote d2 \<noteq> [] \<and> (\<exists>m. info_key info \<in># psd_subs d2 service m)"
    if "sl_listening d2 service" "data_remove_subscriber denv True service info d2 = None"
  proof -
    have "map_of (ps_table d2) service \<noteq> None" using that(1) by (auto simp: sl_listening_def split: option.splits)
    then obtain e where e: "map_of (ps_table d2) service = Some e" by blast
    have "ps_remote d2 \<noteq> []" using psd_remove_subscriber_exact [OF d2(2) assms(2), of denv True service] that(2) by auto
    moreover have "\<exists>m. info_key info \<in># psd_subs d2 service m"
      using remove_absent_subscriber [OF d2(2) assms(2) e remove_subscriber_left [OF assms(1) d2(1) e], of denv True] that(2) by blast
    ultimately show ?thesis by blast
  qed
  moreover have "psd_subs d3 = (psd_subs d2)(service := drop_in UNIV (info_key info) (psd_subs d2 service))"
    if "data_remove_subscriber denv True service info d2 = Some (b, d3)" for b d3
    using psd_remove_subscriber_exact [OF d2(2) assms(2), of denv True service] that by auto
  ultimately have "case psd_hears denv [From_listener False service info] d2 of
       Some d3 \<Rightarrow> psd_subs d3 = (psd_subs d2)(service :=
         if sl_listening d2 service then drop_in UNIV (info_key info) (psd_subs d2 service) else psd_subs d2 service)
     | None \<Rightarrow> ps_remote d2 \<noteq> [] \<and> (\<exists>m. info_key info \<in># psd_subs d2 service m)"
    unfolding two by (auto split: option.split)
  then show thesis by (rule that [OF one d2(2,3)])
qed

section \<open>A process at work\<close>

text \<open>Process 5; the daemon it talks to is the one of \<open>PubSubProperties\<close>.\<close>

definition demo_ps_env :: ps_api_env where
  "demo_ps_env = \<lparr>psa_part_ok = \<lambda>_ _. True, psa_client_ok = \<lambda>_. True, psa_result = \<lambda>_ _. CMSG_RET_OK,
     psa_methods = \<lambda>_. [(''ping'', [demo_sub_info])], psa_pid = 5\<rparr>"

definition demo_subscriber :: cmsg_subscriber where
  "demo_subscriber = the (fst (cmsg_subscriber_create_unix demo_ps_env ''svc'' ps_api_init))"

definition demo_ps_api1 :: ps_api where
  "demo_ps_api1 = snd (cmsg_subscriber_create_unix demo_ps_env ''svc'' ps_api_init)"

definition demo_ps_api2 :: ps_api where
  "demo_ps_api2 = snd (the (cmsg_sub_subscribe_events_local demo_ps_env demo_subscriber [''ping'', ''stat'', ''ping''] demo_ps_api1))"

lemma demo_ps_runs:
  "cmsg_subscriber_create_unix demo_ps_env ''svc'' ps_api_init = (Some demo_subscriber, demo_ps_api1)"
  "\<exists>ret. cmsg_sub_subscribe_events_local demo_ps_env demo_subscriber [''ping'', ''stat'', ''ping''] demo_ps_api1 =
     Some (ret, demo_ps_api2)"
proof -
  have "\<not> Option.is_none (fst (cmsg_subscriber_create_unix demo_ps_env ''svc'' ps_api_init))"
    "\<not> Option.is_none (cmsg_sub_subscribe_events_local demo_ps_env demo_subscriber [''ping'', ''stat'', ''ping''] demo_ps_api1)"
    by code_simp+
  then show "cmsg_subscriber_create_unix demo_ps_env ''svc'' ps_api_init = (Some demo_subscriber, demo_ps_api1)"
    "\<exists>ret. cmsg_sub_subscribe_events_local demo_ps_env demo_subscriber [''ping'', ''stat'', ''ping''] demo_ps_api1 =
       Some (ret, demo_ps_api2)"
    by (auto simp: Option.is_none_def demo_subscriber_def demo_ps_api1_def demo_ps_api2_def prod_eq_iff)
qed

section \<open>The life of a subscriber\<close>

text \<open>The unix server of a subscriber, by the path of its socket.\<close>

definition sub_path :: "u32 \<Rightarrow> string \<Rightarrow> string" where
  "sub_path pid service = take 106 (''/tmp/'' @ service @ ''.'' @ decimal (unat pid))"

lemma sub_path_ok: "CHR ''%'' \<notin> set service \<Longrightarrow> info_ok (Info_unix True (sub_path pid service))"
  by (auto simp: info_ok_def sub_path_def dest!: in_set_takeD)

lemma unix_transport_info:
  "cmsg_transport_info_create (ps_unix_transport CMSG_TRANSPORT_ONEWAY_UNIX path) = Some (Info_unix True (take 106 path))"
  by (simp add: ps_unix_transport_def cmsg_transport_info_create_def)

lemma server_new_inputs:
  assumes "ps_server_new env t service a = (Some s, a')" "cmsg_transport_info_create t = Some info"
  shows "s = \<lparr>psv_transport = t, psv_service = service\<rparr> \<and> inputs a' = inputs a @ [From_listener True service info]"
  using assms by (auto simp: ps_server_new_def ps_server_event_def Let_def split: if_splits)

lemma create_unix_subscriber:
  assumes "cmsg_subscriber_create_unix env service a = (Some s, a')"
  shows "\<exists>server. s = \<lparr>local_server = Some server, remote_server = None\<rparr> \<and> psv_service server = service \<and>
    cmsg_transport_info_create (psv_transport server) = Some (Info_unix True (sub_path (psa_pid env) service)) \<and>
    inputs a' = inputs a @ [From_listener True service (Info_unix True (sub_path (psa_pid env) service))]"
proof -
  define t where "t = ps_unix_transport CMSG_TRANSPORT_ONEWAY_UNIX (''/tmp/'' @ service @ ''.'' @ decimal (unat (psa_pid env)))"
  have info: "cmsg_transport_info_create t = Some (Info_unix True (sub_path (psa_pid env) service))"
    unfolding t_def sub_path_def by (rule unix_transport_info)
  obtain server a1 where n: "ps_server_new env t service a1 = (Some server, a')" "inputs a1 = inputs a"
      "s = \<lparr>local_server = Some server, remote_server = None\<rparr>"
    using assms unfolding cmsg_subscriber_create_unix_def cmsg_sub_new_def Let_def t_def [symmetric]
    by (fastforce split: if_splits prod.splits option.splits)
  show ?thesis using server_new_inputs [OF n(1) info] n(2,3) info by auto
qed

lemma destroy_inputs:
  assumes "cmsg_transport_info_create (psv_transport s) = Some info" "\<forall>tr. psa_client_ok env tr"
  shows "inputs (cmsg_subscriber_destroy env (Some \<lparr>local_server = Some s, remote_server = None\<rparr>) a) =
    inputs a @ [From_process (Psm_subscriber_gone (psv_service s) info), From_listener False (psv_service s) info]"
  using remove_subscriber_inputs [OF assms, of a] assms(1)
  by (simp add: cmsg_subscriber_destroy_def sub_server_destroy_def inputs_fold ps_server_gone_def ps_server_event_def)

text \<open>
  C11: A subscriber is known while it lives and forgotten after. A process makes a subscriber for the
  publishers of its host, which has no subscription there yet, subscribes to a list of events and
  later destroys it (the name of the service has no \<open>%\<close>, and the library can always make its client of the
  daemon). The daemon handles each message, whatever it answers, and after it the events of the
  service listener about the subscriber's server, while it listens for the service. After the
  subscriptions the daemon holds, for every event, the subscriber as often as it was listed, and every
  publisher of the service that got its messages sends to just the subscribers held. The message at
  the end takes one subscription of each method off, and the event that follows, if the daemon still
  listens, another one, so all are gone where no event was listed twice. Only where one was, and the
  daemon holds subscriptions at remote hosts, that event can be undefined.
\<close>

theorem subscriber_life_exact:
  assumes "psd_reachable denv d0" "cmsg_subscriber_create_unix env service a0 = (Some s, a1)"
    and "cmsg_sub_subscribe_events_local env s events a1 = Some (ret, a2)"
    and "\<forall>tr. psa_client_ok env tr" "CHR ''%'' \<notin> set service" "k = (Some (True, sub_path (psa_pid env) service), None)"
    and "\<forall>m. k \<notin># psd_subs d0 service m"
  shows "\<exists>ins message event d1 d2. inputs a2 = inputs a0 @ ins \<and> psd_hears denv ins d0 = Some d1 \<and>
    psd_subs d1 = (psd_subs d0)(service := \<lambda>m. psd_subs d0 service m + replicate_mset (count_list events m) k) \<and>
    (\<forall>e c p. map_of (ps_table d1) service = Some e \<longrightarrow> c \<in> set (publishers_of e) \<longrightarrow> all_arrived c (ps_trace d1) \<longrightarrow>
       publisher_at c (ps_trace d1) = Some p \<longrightarrow> pub_subs p = psd_subs d1 service) \<and>
    inputs (cmsg_subscriber_destroy env (Some s) a2) = inputs a2 @ [message, event] \<and>
    psd_hears denv [message] d1 = Some d2 \<and>
    psd_subs d2 = (psd_subs d0)(service := \<lambda>m. psd_subs d0 service m + replicate_mset (count_list events m - 1) k) \<and>
    (case psd_hears denv [event] d2 of
       Some d3 \<Rightarrow> psd_subs d3 = (psd_subs d0)(service := \<lambda>m. psd_subs d0 service m +
         replicate_mset (count_list events m - (if sl_listening d2 service then 2 else 1)) k)
     | None \<Rightarrow> \<not> distinct events \<and> ps_remote d2 \<noteq> [])"
proof -
  let ?info = "Info_unix True (sub_path (psa_pid env) service)"
  obtain server where s: "s = \<lparr>local_server = Some server, remote_server = None\<rparr>" "psv_service server = service"
      "cmsg_transport_info_create (psv_transport server) = Some ?info"
      "inputs a1 = inputs a0 @ [From_listener True service ?info]"
    using create_unix_subscriber [OF assms(2)] by blast
  note ok = sub_path_ok [OF assms(5), of "psa_pid env"]
  have k: "info_key ?info = k" by (simp add: assms(6))
  let ?subs = "map (From_process \<circ> Psm_subscription True \<circ> local_subscription server ?info) events"
  let ?ins = "From_listener True service ?info # ?subs"
  have m1: "inputs a2 = inputs a0 @ ?ins"
    using subscribe_inputs [OF s(3) assms(4)] assms(3) s(1,4) by (simp add: cmsg_sub_subscribe_events_local_def)
  obtain d1 where d1: "psd_hears denv ?subs d0 = Some d1" "psd_inv d1"
      "psd_subs d1 = (psd_subs d0)(service := add_times events k (psd_subs d0 service))"
    using hears_subscriptions [OF psd_reachable_inv [OF assms(1)] ok] s(2) k by metis
  have ins: "psd_hears denv ?ins d0 = Some d1" using d1(1) by (simp add: sl_event_handler_def)
  have pubs: "pub_subs p = psd_subs d1 service"
    if "map_of (ps_table d1) service = Some e" "c \<in> set (publishers_of e)" "all_arrived c (ps_trace d1)"
      "publisher_at c (ps_trace d1) = Some p" for e c p
    using psd_invD(3) [OF d1(2) that(1,2)] that(3,4) by (simp add: knows_def psd_subs_Some [OF that(1)])
  obtain d2 where d2: "psd_hears denv [From_process (Psm_subscriber_gone service ?info)] d1 = Some d2" "psd_inv d2"
    "psd_subs d2 = (psd_subs d1)(service := drop_in UNIV k (psd_subs d1 service))"
    "case psd_hears denv [From_listener False service ?info] d2 of
       Some d3 \<Rightarrow> psd_subs d3 = (psd_subs d2)(service :=
         if sl_listening d2 service then drop_in UNIV k (psd_subs d2 service) else psd_subs d2 service)
     | None \<Rightarrow> ps_remote d2 \<noteq> [] \<and> (\<exists>m. k \<in># psd_subs d2 service m)"
    by (rule hears_gone [OF d1(2) ok, of denv service, unfolded k])
  have drop: "S m + replicate_mset n k - {#k#} = S m + replicate_mset (n - 1) k" if "k \<notin># S m" for S :: ps_subs and m n
    using that by (cases n) (auto simp: diff_single_trivial)
  have s2: "psd_subs d2 = (psd_subs d0)(service := \<lambda>m. psd_subs d0 service m + replicate_mset (count_list events m - 1) k)"
    unfolding d2(3) d1(3) using assms(7) drop by (simp add: drop_in_def add_times_def fun_eq_iff)
  have s3: "drop_in UNIV k (psd_subs d2 service) =
      (\<lambda>m. psd_subs d0 service m + replicate_mset (count_list events m - 2) k)"
    unfolding s2 using assms(7) drop by (simp add: drop_in_def fun_eq_iff numeral_2_eq_2)
  have "\<not> distinct events" if "k \<in># psd_subs d2 service m" for m
  proof
    assume "distinct events"
    then have "count_list events m \<le> 1" by (induction events) (auto simp: count_list_0_iff)
    then show False using that assms(7) by (auto simp: s2 split: if_splits)
  qed
  then have "case psd_hears denv [From_listener False service ?info] d2 of
       Some d3 \<Rightarrow> psd_subs d3 = (psd_subs d0)(service := \<lambda>m. psd_subs d0 service m +
         replicate_mset (count_list events m - (if sl_listening d2 service then 2 else 1)) k)
     | None \<Rightarrow> \<not> distinct events \<and> ps_remote d2 \<noteq> []"
    using d2(4) s3 by (auto simp: s2 split: option.splits if_splits)
  then show ?thesis
    using m1 d1(3) ins pubs d2(1) s2 destroy_inputs [OF s(3) assms(4), of a2] s(1,2)
    by (intro exI [of _ ?ins] exI [of _ "From_process (Psm_subscriber_gone service ?info)"]
        exI [of _ "From_listener False service ?info"] exI [of _ d1] exI [of _ d2]) (auto simp: add_times_def)
qed

text \<open>In the witness the publisher keeps the daemon listening, so that the event counts too.\<close>

definition demo_gone :: psd_state where
  "demo_gone = the (psd_hears demo_psd_env
     (butlast (inputs (cmsg_subscriber_destroy demo_ps_env (Some demo_subscriber) demo_ps_api2))) demo_subscribed)"

theorem subscriber_life_exact_witness:
  "\<exists>ins message event d1 d2 d3. psd_hears demo_psd_env ins demo_subscribed = Some d1 \<and>
     psd_hears demo_psd_env [message] d1 = Some d2 \<and> psd_hears demo_psd_env [event] d2 = Some d3 \<and>
     length ins = 4 \<and> psd_subs d1 ''svc'' ''stat'' = {#(Some (True, sub_path 5 ''svc''), None)#} \<and>
     size (psd_subs d1 ''svc'' ''ping'') = 3 \<and> psd_subs d2 ''svc'' ''stat'' = {#} \<and> size (psd_subs d2 ''svc'' ''ping'') = 2 \<and>
     psd_subs d3 = psd_subs demo_subscribed"
proof -
  let ?k = "(Some (True, sub_path 5 ''svc''), None) :: ps_key"
  let ?events = "[''ping'', ''stat'', ''ping'']"
  have other: "sub_path 5 ''svc'' \<noteq> ''/tmp/sub''" by code_simp
  then have k: "\<forall>m. ?k \<notin># psd_subs demo_subscribed ''svc'' m"
    by (auto simp: demo_subscribed_facts(3))
  have env: "psa_pid demo_ps_env = 5" "\<forall>tr. psa_client_ok demo_ps_env tr" "CHR ''%'' \<notin> set ''svc''"
    by (simp_all add: demo_ps_env_def)
  have start: "inputs ps_api_init = []" "length (inputs demo_ps_api2) = 4" by code_simp+
  have left: "sl_listening demo_gone ''svc''" "ps_remote demo_gone = []" by code_simp+
  obtain ret where "cmsg_sub_subscribe_events_local demo_ps_env demo_subscriber ?events demo_ps_api1 = Some (ret, demo_ps_api2)"
    using demo_ps_runs(2) by blast
  note life = subscriber_life_exact [OF demo_subscribed_reachable demo_ps_runs(1) this env(2,3) _ k, unfolded env(1), OF refl]
  obtain ins message event d1 d2 where life: "inputs demo_ps_api2 = inputs ps_api_init @ ins"
    "psd_hears demo_psd_env ins demo_subscribed = Some d1"
    "psd_subs d1 = (psd_subs demo_subscribed)(''svc'' := \<lambda>m. psd_subs demo_subscribed ''svc'' m + replicate_mset (count_list ?events m) ?k)"
    "inputs (cmsg_subscriber_destroy demo_ps_env (Some demo_subscriber) demo_ps_api2) = inputs demo_ps_api2 @ [message, event]"
    "psd_hears demo_psd_env [message] d1 = Some d2"
    "psd_subs d2 = (psd_subs demo_subscribed)(''svc'' := \<lambda>m. psd_subs demo_subscribed ''svc'' m + replicate_mset (count_list ?events m - 1) ?k)"
    "case psd_hears demo_psd_env [event] d2 of
       Some d3 \<Rightarrow> psd_subs d3 = (psd_subs demo_subscribed)(''svc'' := \<lambda>m. psd_subs demo_subscribed ''svc'' m +
         replicate_mset (count_list ?events m - (if sl_listening d2 ''svc'' then 2 else 1)) ?k)
     | None \<Rightarrow> \<not> distinct ?events \<and> ps_remote d2 \<noteq> []"
    using life by (elim exE conjE) (rule that)
  have "psd_hears demo_psd_env (ins @ [message]) demo_subscribed = Some d2"
    using life(2,5) by (simp add: psd_hears_append)
  then have d2: "d2 = demo_gone" using life(1,4) start(1) by (simp add: demo_gone_def butlast_append)
  have subs: "psd_subs d1 ''svc'' ''stat'' = {#?k#}" "size (psd_subs d1 ''svc'' ''ping'') = 3"
    "psd_subs d2 ''svc'' ''stat'' = {#}" "size (psd_subs d2 ''svc'' ''ping'') = 2"
    unfolding life(3,6) by (simp_all add: demo_subscribed_facts(3))
  have all: "count_list ?events m - 2 = 0" for m by (cases "m = ''ping''") auto
  obtain d3 where d3: "psd_hears demo_psd_env [event] d2 = Some d3" "psd_subs d3 = psd_subs demo_subscribed"
    using life(7) left d2 by (auto simp: all simp del: count_list.simps split: option.splits)
  have "psd_hears demo_psd_env ins demo_subscribed = Some d1" "length ins = 4" using life(1,2) start by simp_all
  then show ?thesis using life(5) d3 subs by blast
qed

section \<open>A publisher from beginning to end\<close>

text \<open>What a process holds after some events; \<open>None\<close> if something is destroyed that it does not hold.\<close>

fun parts_held :: "ps_api_event list \<Rightarrow> ps_part multiset \<Rightarrow> ps_part multiset option" where
  "parts_held [] P = Some P"
| "parts_held (Psa_new part # evs) P = parts_held evs (add_mset part P)"
| "parts_held (Psa_gone part # evs) P = (if part \<in># P then parts_held evs (P - {#part#}) else None)"
| "parts_held (_ # evs) P = parts_held evs P"

definition held :: "ps_api \<Rightarrow> ps_part multiset option" where
  "held a = parts_held (psa_trace a) {#}"

lemma parts_held_append: "parts_held (tr @ evs) P = Option.bind (parts_held tr P) (parts_held evs)"
  by (induction tr P rule: parts_held.induct) auto

lemma held_fold: "held (fold psa_log evs a) = Option.bind (held a) (parts_held evs)"
proof -
  have "psa_trace (fold psa_log evs a) = psa_trace a @ evs"
    by (induction evs arbitrary: a) (simp_all add: psa_log_def)
  then show ?thesis by (simp add: held_def parts_held_append)
qed

lemma held_log [simp]:
  "held (psa_log ev a) = Option.bind (held a) (parts_held [ev])"
  "held (a\<lparr>psa_running := r\<rparr>) = held a" "held (a\<lparr>psa_id := i\<rparr>) = held a"
  using held_fold [of "[ev]" a] by (simp_all add: held_def)

lemma held_server_event [simp]: "held (fold psa_log (ps_server_event added s) a) = held a"
  by (cases "held a") (simp_all add: held_fold ps_server_event_def split: option.split)

lemma held_client: "held (snd (cmsg_ps_get_client env a)) = held a"
  by (simp add: cmsg_ps_get_client_def Let_def split: Option.bind_split)

lemma held_call: "held (snd (ps_call env msg a)) = held a"
  by (simp add: ps_call_def Let_def split: Option.bind_split)

definition parts_of :: "cmsg_publisher \<Rightarrow> ps_part multiset" where
  "parts_of p = {#Part_object, Part_subscribed_methods_mutex, Part_send_queue_mutex, Part_send_queue_cond#} +
     (if pub_has_methods p then {#Part_subscribed_methods#} else {#}) +
     (case pub_update_server p of None \<Rightarrow> {#} | Some s \<Rightarrow> {#Part_transport (psv_transport s), Part_server s#}) +
     (if pub_update_thread_running p then {#Part_update_thread#} else {#}) +
     (if pub_has_send_queue p then {#Part_send_queue#} else {#}) +
     (if pub_send_thread_running p then {#Part_send_thread#} else {#})"

lemma deregister_held:
  "\<exists>ret a'. cmsg_ps_deregister_publisher env service (Some s) a = Some (ret, a') \<and> held a' = held a"
proof (cases "cmsg_transport_info_create (psv_transport s)")
  case (Some info)
  let ?a = "snd (cmsg_ps_get_client env a)" and ?c = "fst (cmsg_ps_get_client env a)"
  have "cmsg_ps_deregister_publisher env service (Some s) a =
      Some (if \<not> ?c then (CMSG_RET_ERR, ?a) else ps_call env (Psm_publisher False service info) ?a)"
    by (simp add: cmsg_ps_deregister_publisher_def Some case_prod_beta)
  then show ?thesis
    using held_client [of env a] held_call [of env "Psm_publisher False service info" ?a] by (metis prod.collapse snd_conv)
qed (simp add: cmsg_ps_deregister_publisher_def)

lemma register_held: "held (snd (cmsg_ps_register_publisher env service s a)) = held a"
  using held_client [of env a]
  by (simp add: cmsg_ps_register_publisher_def case_prod_beta held_call split: option.split)

lemma release_all: "mset parts = Q \<Longrightarrow> parts_held (map Psa_gone parts) (P + Q) = Some P"
  by (induction parts arbitrary: Q) auto

lemma destroy_publisher_held:
  assumes "pub_update_server p = Some s" "held a = Some (P + parts_of p)"
  shows "\<exists>a'. cmsg_publisher_destroy env p a = Some a' \<and> held a' = Some P"
proof -
  obtain ret a1 where 1: "cmsg_ps_deregister_publisher env (pub_descriptor p) (Some s) a = Some (ret, a1)" "held a1 = held a"
    using deregister_held by blast
  let ?parts = "(if pub_send_thread_running p then [Part_send_thread] else []) @
    (if pub_update_thread_running p then [Part_update_thread] else []) @
    (if pub_has_methods p then [Part_subscribed_methods] else []) @
    [Part_server s, Part_transport (psv_transport s), Part_subscribed_methods_mutex, Part_send_queue_mutex,
     Part_send_queue_cond] @ (if pub_has_send_queue p then [Part_send_queue] else []) @ [Part_object]"
  have "mset ?parts = parts_of p" by (simp add: parts_of_def assms(1))
  moreover let ?evs = "((if pub_send_thread_running p then [Psa_gone Part_send_thread] else []) @
    (if pub_update_thread_running p then [Psa_gone Part_update_thread] else []) @
    (if pub_has_methods p then [Psa_gone Part_subscribed_methods] else []) @
    ps_server_gone s @
    [Psa_gone Part_subscribed_methods_mutex, Psa_gone Part_send_queue_mutex, Psa_gone Part_send_queue_cond] @
    (if pub_has_send_queue p then [Psa_gone Part_send_queue] else []) @ [Psa_gone Part_object])"
  have "cmsg_publisher_destroy env p a = Some (fold psa_log ?evs a1)"
    by (simp only: cmsg_publisher_destroy_def assms(1) 1(1) Option.bind.simps prod.case)
  moreover have gone: "parts_held (ps_server_gone s @ evs) Q =
      parts_held (Psa_gone (Part_server s) # Psa_gone (Part_transport (psv_transport s)) # evs) Q" for evs Q
    by (simp add: ps_server_gone_def ps_server_event_def split: option.split)
  have "parts_held ?evs Q = parts_held (map Psa_gone ?parts) Q" for Q
    by (cases "pub_send_thread_running p"; cases "pub_update_thread_running p"; cases "pub_has_methods p";
        cases "pub_has_send_queue p") (simp_all add: gone)
  ultimately obtain parts evs where "mset parts = parts_of p" "cmsg_publisher_destroy env p a = Some (fold psa_log evs a1)"
    "\<forall>Q. parts_held evs Q = parts_held (map Psa_gone parts) Q" by blast
  then show ?thesis using 1(2) assms(2) release_all [of parts "parts_of p" P] by (simp add: held_fold)
qed

lemma abandon_held:
  assumes "pub_update_server p = Some s" "held a = Some (P + parts_of p)"
  shows "\<exists>a'. publisher_abandon env p a = Some (None, a') \<and> held a' = Some P"
  using destroy_publisher_held [OF assms, of env] by (auto simp: publisher_abandon_def)

lemma make_part_held:
  "make_part env part a = (ok, a') \<Longrightarrow> held a = Some P \<Longrightarrow> held a' = Some (if ok then add_mset part P else P)"
  by (auto simp: make_part_def split: if_splits)

lemma register_exact:
  assumes "pub_update_server p = Some s" "\<forall>tr. methods_ok (psa_methods env tr)" "pub_core p = new_publisher"
  shows "\<exists>ret p' a'. publisher_register env p a = Some ((ret, p'), a') \<and> held a' = held a \<and> parts_of p' = parts_of p \<and>
    pub_update_server p' = Some s \<and>
    (ret = CMSG_RET_OK \<longrightarrow> (\<exists>ms. (\<exists>tr. ms = psa_methods env tr) \<and> pub_ok (pub_core p') \<and> pub_subs (pub_core p') = subs_of ms))"
proof -
  obtain ret ms a' where r: "cmsg_ps_register_publisher env (pub_descriptor p) s a = ((ret, ms), a')"
    by (metis prod.collapse)
  have held: "held a' = held a" using register_held [of env "pub_descriptor p" s a] by (simp add: r)
  show ?thesis
  proof (cases "ret = CMSG_RET_OK")
    case True
    have "\<exists>tr. ms = psa_methods env tr"
      using r True by (auto simp: cmsg_ps_register_publisher_def ps_call_def Let_def CMSG_RET_OK_def CMSG_RET_ERR_def
          split: option.splits prod.splits if_splits)
    then have "methods_ok ms" using assms(2) by blast
    from knows_registered [OF this, of 0 "[]" True] obtain q where
      "cmsg_publisher_init_subscribers ms new_publisher = Some q" "pub_ok q" "pub_subs q = subs_of ms"
      by (auto simp: knows_def publisher_at_def all_arrived_def)
    with \<open>\<exists>tr. ms = psa_methods env tr\<close> show ?thesis
      using True held by (auto simp: publisher_register_def assms(1,3) r parts_of_def)
  next
    case False
    then show ?thesis using held by (simp add: publisher_register_def assms(1) r)
  qed
qed

definition publisher_complete :: "cmsg_publisher \<Rightarrow> bool" where
  "publisher_complete p \<longleftrightarrow> pub_update_server p \<noteq> None \<and> pub_has_methods p \<and> pub_update_thread_running p \<and>
     pub_has_send_queue p \<and> pub_send_thread_running p"

definition created :: "ps_api_env \<Rightarrow> ps_part multiset \<Rightarrow> cmsg_publisher option \<Rightarrow> ps_api \<Rightarrow> bool" where
  "created env P r a =
     (case r of
        None \<Rightarrow> held a = Some P
      | Some p \<Rightarrow> publisher_complete p \<and> held a = Some (P + parts_of p) \<and>
          (\<exists>tr. pub_subs (pub_core p) = subs_of (psa_methods env tr)))"

lemma start_threads_exact:
  assumes "p = \<lparr>pub_descriptor = name, pub_has_methods = True, pub_update_server = Some s, pub_update_thread_running = False,
      pub_has_send_queue = False, pub_send_thread_running = False, pub_core = new_publisher\<rparr>"
    and "held a = Some (P + parts_of p)" "\<forall>tr. methods_ok (psa_methods env tr)"
  shows "\<exists>r a'. publisher_start_threads env p a = Some (r, a') \<and> created env P r a'"
proof -
  let ?p1 = "p\<lparr>pub_update_thread_running := True\<rparr>"
  let ?p2 = "?p1\<lparr>pub_has_send_queue := True\<rparr>"
  let ?p3 = "?p2\<lparr>pub_send_thread_running := True\<rparr>"
  have s: "pub_update_server p = Some s" "pub_update_server ?p1 = Some s" "pub_update_server ?p2 = Some s"
    "pub_update_server ?p3 = Some s" using assms(1) by simp_all
  obtain ok1 a1 where 1: "make_part env Part_update_thread a = (ok1, a1)" by fastforce
  obtain ok2 a2 where 2: "make_part env Part_send_queue a1 = (ok2, a2)" by fastforce
  obtain ok3 a3 where 3: "make_part env Part_send_thread a2 = (ok3, a3)" by fastforce
  have h1: "held a1 = Some (P + parts_of (if ok1 then ?p1 else p))"
    using make_part_held [OF 1 assms(2)] by (simp add: parts_of_def assms(1))
  have h2: "held a2 = Some (P + parts_of (if ok2 then ?p2 else ?p1))" if ok1
    using make_part_held [OF 2, of "P + parts_of ?p1"] h1 that by (simp add: parts_of_def assms(1))
  have h3: "held a3 = Some (P + parts_of (if ok3 then ?p3 else ?p2))" if ok1 ok2
    using make_part_held [OF 3, of "P + parts_of ?p2"] h2 that by (simp add: parts_of_def assms(1))
  consider "\<not> ok1" | "ok1" "\<not> ok2" | "ok1" "ok2" "\<not> ok3" | "ok1" "ok2" "ok3" by blast
  then show ?thesis
  proof cases
    case 1: 4
    obtain ret q a4 where r: "publisher_register env ?p3 a3 = Some ((ret, q), a4)" "held a4 = held a3" "parts_of q = parts_of ?p3"
        "pub_update_server q = Some s" "ret = CMSG_RET_OK \<longrightarrow> (\<exists>tr. pub_subs (pub_core q) = subs_of (psa_methods env tr))"
      using register_exact [OF s(4) assms(3), of a3] assms(1) by auto
    have h4: "held a4 = Some (P + parts_of q)" using r(2,3) h3 1 by simp
    have q: "publisher_complete q"
      using r(1) s(4) by (auto simp: publisher_register_def publisher_complete_def assms(1) split: prod.splits if_splits)
    show ?thesis
      using abandon_held [OF r(4) h4, of env] h4 q r(1,5) 1 \<open>make_part env Part_update_thread a = _\<close> 2 3
      by (auto simp: publisher_start_threads_def created_def)
  qed (use abandon_held [OF s(1), of a1 P env] abandon_held [OF s(2), of a2 P env] abandon_held [OF s(3), of a3 P env]
      h1 h2 h3 1 2 3 in \<open>auto simp: publisher_start_threads_def created_def\<close>)
qed

lemma pthread_structures_exact:
  assumes "cmsg_publisher_init_pthread_structures env a = (ret, a')" "held a = Some P"
  shows "held a' = Some (if ret = CMSG_RET_OK then P + {#Part_subscribed_methods_mutex, Part_send_queue_mutex, Part_send_queue_cond#} else P)"
  using assms
  by (auto simp: cmsg_publisher_init_pthread_structures_def CMSG_RET_OK_def CMSG_RET_ERR_def split: prod.splits if_splits
      dest!: make_part_held)

text \<open>
  C36: A publisher is created as a whole or not at all. Whichever of its mutexes, threads and queues
  cannot be made and whatever the daemon answers, a creation returns; if it fails, the process holds
  what it held before, and if it succeeds, every part of the publisher exists once, it sends to
  exactly the subscribers that the daemon's answer lists, and destroying it releases it all again.
  (That the table and the update server can be made is assumed: without the server, the clean-up
  reads it through \<open>NULL\<close>.)
\<close>

theorem publisher_all_or_nothing:
  assumes "held a = Some P" "\<forall>tr. methods_ok (psa_methods env tr)"
    and "\<forall>tr. psa_part_ok env tr Part_subscribed_methods" "\<forall>tr s. psa_part_ok env tr (Part_server s)"
  shows "\<exists>r a'. cmsg_publisher_create env (Some name) a = Some (r, a') \<and>
    (case r of
       None \<Rightarrow> held a' = Some P
     | Some p \<Rightarrow> publisher_complete p \<and> held a' = Some (P + parts_of p) \<and>
         (\<exists>tr. pub_subs (pub_core p) = subs_of (psa_methods env tr)) \<and>
         (\<exists>a''. cmsg_publisher_destroy env p a' = Some a'' \<and> held a'' = Some P))"
proof -
  obtain ok1 a1 where 1: "make_part env Part_object a = (ok1, a1)" by fastforce
  obtain ret a2 where 2: "cmsg_publisher_init_pthread_structures env a1 = (ret, a2)" by fastforce
  obtain ok3 a3 where 3: "make_part env Part_subscribed_methods a2 = (ok3, a3)" by fastforce
  obtain s a4 where 4: "cmsg_ps_create_publisher_update_server env a3 = (s, a4)" by fastforce
  have ok3 using 3 assms(3) by (auto simp: make_part_def split: if_splits)
  let ?p = "\<lparr>pub_descriptor = name, pub_has_methods = True, pub_update_server = s, pub_update_thread_running = False,
      pub_has_send_queue = False, pub_send_thread_running = False, pub_core = new_publisher\<rparr>"
  have h1: "held a1 = Some (if ok1 then add_mset Part_object P else P)" by (rule make_part_held [OF 1 assms(1)])
  have h3: "held a3 = Some (P + {#Part_object, Part_subscribed_methods_mutex, Part_send_queue_mutex, Part_send_queue_cond,
      Part_subscribed_methods#})" if ok1 "ret = CMSG_RET_OK"
    using pthread_structures_exact [OF 2] h1 that make_part_held [OF 3] \<open>ok3\<close> by simp
  have h4: "s \<noteq> None" "ok1 \<Longrightarrow> ret = CMSG_RET_OK \<Longrightarrow> held a4 = Some (P + parts_of ?p)"
    using 4 h3 assms(4)
    by (auto simp: cmsg_ps_create_publisher_update_server_def ps_server_new_def parts_of_def Let_def split: if_splits)
  have "\<exists>r a'. cmsg_publisher_create env (Some name) a = Some (r, a') \<and> created env P r a'"
  proof (cases "ok1 \<and> ret = CMSG_RET_OK")
    case True
    with h4 obtain s' where s': "s = Some s'" by blast
    with start_threads_exact [OF refl _ assms(2), of a4 P name s'] h4 True obtain r a' where
      "publisher_start_threads env ?p a4 = Some (r, a')" "created env P r a'" by auto
    with True show ?thesis using 1 2 3 4 \<open>ok3\<close> s' by (simp add: cmsg_publisher_create_def)
  next
    case False
    then show ?thesis
      using 1 2 h1 pthread_structures_exact [OF 2, of "add_mset Part_object P"]
      by (auto simp: cmsg_publisher_create_def created_def)
  qed
  then obtain r a' where r: "cmsg_publisher_create env (Some name) a = Some (r, a')" "created env P r a'" by blast
  moreover have "\<exists>a''. cmsg_publisher_destroy env p a' = Some a'' \<and> held a'' = Some P" if "r = Some p" for p
    using r(2) that destroy_publisher_held [of p _ a' P env] by (auto simp: created_def publisher_complete_def)
  ultimately show ?thesis by (auto simp: created_def split: option.splits)
qed

lemma demo_publisher_created:
  assumes "cmsg_publisher_init_subscribers [(''ping'', [demo_sub_info])] new_publisher = Some q"
  shows "\<exists>p a'. cmsg_publisher_create demo_ps_env (Some ''svc'') ps_api_init = Some (Some p, a')"
proof -
  have part: "make_part demo_ps_env part a = (True, psa_log (Psa_new part) a)" for part a
    by (simp add: make_part_def demo_ps_env_def)
  have "\<exists>s a'. cmsg_ps_create_publisher_update_server demo_ps_env a = (Some s, a') \<and> psv_transport s =
      ps_unix_transport CMSG_TRANSPORT_RPC_UNIX (''/tmp/cmsg_psd.update.'' @ decimal (unat (psa_pid demo_ps_env)) @ ''.'' @ decimal (unat (psa_id a)))" for a
  proof -
    have "psa_part_ok demo_ps_env tr q" for tr q by (simp add: demo_ps_env_def)
    then show ?thesis by (simp add: cmsg_ps_create_publisher_update_server_def ps_server_new_def Let_def del: append.simps)
  qed
  moreover have "cmsg_transport_info_create (ps_unix_transport CMSG_TRANSPORT_RPC_UNIX path) = Some (Info_unix False (take 106 path))" for path
    by (simp add: ps_unix_transport_def cmsg_transport_info_create_def)
  ultimately have server: "\<exists>s a' info. cmsg_ps_create_publisher_update_server demo_ps_env a = (Some s, a') \<and>
      cmsg_transport_info_create (psv_transport s) = Some info" for a
    by metis
  have reg: "\<exists>p' a'. publisher_register demo_ps_env p a = Some ((CMSG_RET_OK, p'), a')"
    if "pub_update_server p = Some s" "cmsg_transport_info_create (psv_transport s) = Some info" "pub_core p = new_publisher" for p a s info
  proof -
    have "psa_client_ok demo_ps_env tr" "psa_result demo_ps_env tr m = CMSG_RET_OK"
      "psa_methods demo_ps_env tr = [(''ping'', [demo_sub_info])]" for tr m
      by (simp_all add: demo_ps_env_def)
    with that assms show ?thesis
      by (simp add: publisher_register_def cmsg_ps_register_publisher_def cmsg_ps_get_client_def ps_call_def Let_def)
  qed
  let ?p = "\<lambda>s. \<lparr>pub_descriptor = ''svc'', pub_has_methods = True, pub_update_server = Some s, pub_update_thread_running = True,
    pub_has_send_queue = True, pub_send_thread_running = True, pub_core = new_publisher\<rparr>"
  obtain a2 where init: "cmsg_publisher_init_pthread_structures demo_ps_env (psa_log (Psa_new Part_object) ps_api_init) = (CMSG_RET_OK, a2)"
    by (simp add: cmsg_publisher_init_pthread_structures_def part)
  obtain s a3 info where srv: "cmsg_ps_create_publisher_update_server demo_ps_env (psa_log (Psa_new Part_subscribed_methods) a2) = (Some s, a3)"
      "cmsg_transport_info_create (psv_transport s) = Some info"
    using server by blast
  obtain p' a4 where "publisher_register demo_ps_env (?p s)
      (fold psa_log [Psa_new Part_update_thread, Psa_new Part_send_queue, Psa_new Part_send_thread] a3) = Some ((CMSG_RET_OK, p'), a4)"
    using reg [of "?p s" s info] srv(2) by fastforce
  then show ?thesis
    by (simp add: cmsg_publisher_create_def publisher_start_threads_def part init srv(1) Let_def)
qed

theorem publisher_all_or_nothing_witness:
  "\<exists>p a'. cmsg_publisher_create demo_ps_env (Some ''svc'') ps_api_init = Some (Some p, a') \<and> publisher_complete p \<and>
     pub_subs (pub_core p) ''ping'' = {#(Some (True, ''/tmp/sub''), None)#} \<and>
     (\<exists>a''. cmsg_publisher_destroy demo_ps_env p a' = Some a'' \<and> held a'' = Some {#})"
proof -
  have "methods_ok [(''ping'', [demo_sub_info])]" by (simp add: methods_ok_def demo_infos_ok)
  then have h: "held ps_api_init = Some {#}" "\<forall>tr. methods_ok (psa_methods demo_ps_env tr)"
    "\<forall>tr. psa_part_ok demo_ps_env tr Part_subscribed_methods" "\<forall>tr s. psa_part_ok demo_ps_env tr (Part_server s)"
    by (simp_all add: held_def ps_api_init_def demo_ps_env_def)
  obtain q where "cmsg_publisher_init_subscribers [(''ping'', [demo_sub_info])] new_publisher = Some q"
    using init_subscribers_exact [OF new_publisher_ok(1) \<open>methods_ok _\<close>] new_publisher_ok(2) by auto
  then have "\<exists>p a'. cmsg_publisher_create demo_ps_env (Some ''svc'') ps_api_init = Some (Some p, a')"
    by (rule demo_publisher_created)
  then obtain p a' where c: "cmsg_publisher_create demo_ps_env (Some ''svc'') ps_api_init = Some (Some p, a')" by blast
  have "psa_methods demo_ps_env tr = [(''ping'', [demo_sub_info])]" for tr by (simp add: demo_ps_env_def)
  moreover have "subs_of [(''ping'', [demo_sub_info])] ''ping'' = {#(Some (True, ''/tmp/sub''), None)#}"
    by (simp add: subs_of_def)
  ultimately show ?thesis using publisher_all_or_nothing [OF h, of "''svc''"] c by simp
qed

text \<open>The exception: every mutex and the table are made, but not the server.\<close>

lemma publisher_without_server:
  assumes "\<forall>tr part. psa_part_ok env tr part \<longleftrightarrow> (\<forall>s. part \<noteq> Part_server s)"
  shows "cmsg_publisher_create env (Some name) a = None"
  using assms
  by (simp add: cmsg_publisher_create_def make_part_def cmsg_publisher_init_pthread_structures_def publisher_abandon_def
      cmsg_publisher_destroy_def cmsg_ps_deregister_publisher_def cmsg_ps_create_publisher_update_server_def ps_server_new_def
      Let_def CMSG_RET_OK_def)

end
