(* ===== verification/Sockets.thy ===== *)
theory Sockets
  imports TransportIO "HOL-Library.State_Monad"
begin

text \<open>
  How transports make and close their sockets: \<open>connect\<close>, \<open>listen\<close>, \<open>accept\<close> and \<open>close\<close> of the TCP,
  unix and TIPC transports (\<open>transport/cmsg_transport.c\<close>, \<open>cmsg_transport_tcp.c\<close>,
  \<open>cmsg_transport_unix.c\<close>, \<open>cmsg_transport_tipc_broadcast.c\<close>).

  The code is written in the state monad. Its state is the transport, \<open>errno\<close> and the system calls
  made so far with their results; what a call returns may depend on all calls before it. A call that
  fails sets \<open>errno\<close>.
\<close>

unbundle bit_operations_syntax

section \<open>System calls\<close>

datatype sock_type = SOCK_STREAM | SOCK_RDM

datatype sock_option =
    SO_REUSEADDR
  | SO_BINDTODEVICE string
  | IP_FREEBIND
  | SO_SNDTIMEO u32
  | SO_RCVTIMEO u32
  | SO_LINGER0
  | TCP_KEEPIDLE nat
  | TCP_KEEPCNT nat
  | TCP_KEEPINTVL nat
  | SO_KEEPALIVE

text \<open>
  What a process makes besides descriptors; \<open>Sys_new\<close> stands for the allocation or initialisation,
  \<open>Sys_gone\<close> for the release.
\<close>

datatype obj_part =
    Obj_transport
  | Obj_client
  | Obj_server
  | Obj_mutex string
  | Obj_cond string
  | Obj_queue
  | Obj_filters
  | Obj_counters
  | Obj_announced
  | Obj_accept_info
  | Obj_accept_queue
  | Obj_accept_thread
  | Obj_crypto_sa

datatype sock_call =
    Sys_socket addr_family sock_type
  | Sys_setsockopt int sock_option
  | Sys_getfl int
  | Sys_setfl int u32
  | Sys_connect int
  | Sys_select int "u32 option"
  | Sys_so_error int
  | Sys_bind int
  | Sys_listen int
  | Sys_accept int
  | Sys_recvfrom int nat bool
  | Sys_sendto int nat
  | Sys_usleep nat
  | Sys_shutdown int
  | Sys_close int
  | Sys_unlink string
  | Sys_chmod string
  | Sys_poll int
  | Sys_eventfd
  | Sys_eventfd_write int
  | Sys_new obj_part
  | Sys_gone obj_part

type_synonym sock_trace = "(sock_call \<times> int) list"

text \<open>
  \<open>sk_ntop\<close> is \<open>inet_ntop\<close> for IPv6 or IPv4. \<open>Sys_so_error\<close> reads the pending error of a socket: its result is the error, or negative if it
  cannot be read. \<open>sk_ready\<close>: after a \<open>select\<close> that returned a descriptor, whether it is in one of the sets.
\<close>

record sock_env =
  sk_result :: "sock_trace \<Rightarrow> sock_call \<Rightarrow> int"
  sk_errno :: "sock_trace \<Rightarrow> sock_call \<Rightarrow> int"
  sk_ready :: "sock_trace \<Rightarrow> bool"
  sk_cache :: tcp_cache
  sk_ntop :: "bool \<Rightarrow> u8 list \<Rightarrow> string"

record sock_state =
  sk_trace :: sock_trace
  sk_err :: int
  sk_tport :: cmsg_transport

type_synonym 'a sock = "(sock_state, 'a) state"

definition errno_EINPROGRESS :: int where "errno_EINPROGRESS = 115"
definition errno_ETIMEDOUT :: int where "errno_ETIMEDOUT = 110"
definition errno_EAGAIN :: int where "errno_EAGAIN = 11"
definition O_NONBLOCK :: u32 where "O_NONBLOCK = 2048"

definition sk_gets :: "(sock_state \<Rightarrow> 'a) \<Rightarrow> 'a sock" where
  "sk_gets f = State (\<lambda>w. (f w, w))"

definition sk_modify :: "(sock_state \<Rightarrow> sock_state) \<Rightarrow> unit sock" where
  "sk_modify f = State (\<lambda>w. ((), f w))"

definition syscall :: "sock_env \<Rightarrow> sock_call \<Rightarrow> int sock" where
  "syscall env c = State (\<lambda>w.
     let r = sk_result env (sk_trace w) c in
     (r, w\<lparr>sk_trace := sk_trace w @ [(c, r)],
           sk_err := (if r < 0 then sk_errno env (sk_trace w) c else sk_err w)\<rparr>))"

definition set_errno :: "int \<Rightarrow> unit sock" where
  "set_errno e = sk_modify (\<lambda>w. w\<lparr>sk_err := e\<rparr>)"

definition set_socket :: "int \<Rightarrow> unit sock" where
  "set_socket fd = sk_modify (\<lambda>w. w\<lparr>sk_tport := (sk_tport w)\<lparr>t_socket := fd\<rparr>\<rparr>)"

text \<open>\<open>when\<close> a condition holds.\<close>

definition sock_when :: "bool \<Rightarrow> unit sock \<Rightarrow> unit sock" where
  "sock_when b m = (if b then m else State_Monad.return ())"

section \<open>Connecting with a timeout\<close>

text \<open>A \<open>select\<close> that fails leaves the sets as they were, with the socket in both of them.\<close>

definition fd_isset :: "sock_env \<Rightarrow> int \<Rightarrow> bool sock" where
  "fd_isset env n = sk_gets (\<lambda>w. if n < 0 then True else sk_ready env (sk_trace w))"

definition connect_nb :: "sock_env \<Rightarrow> int \<Rightarrow> u32 \<Rightarrow> int sock" where
  "connect_nb env sockfd timeout = do {
     flags \<leftarrow> syscall env (Sys_getfl sockfd);
     _ \<leftarrow> syscall env (Sys_setfl sockfd (word_of_int flags OR O_NONBLOCK));
     n \<leftarrow> syscall env (Sys_connect sockfd);
     err \<leftarrow> sk_gets sk_err;
     if n < 0 \<and> err \<noteq> errno_EINPROGRESS then do {
       _ \<leftarrow> syscall env (Sys_setfl sockfd (word_of_int flags));
       State_Monad.return (-1)
     } else if n = 0 then do {
       _ \<leftarrow> syscall env (Sys_setfl sockfd (word_of_int flags));
       State_Monad.return 0
     } else do {
       n \<leftarrow> syscall env (Sys_select sockfd (if timeout \<noteq> 0 then Some timeout else None));
       if n = 0 then do {
         _ \<leftarrow> syscall env (Sys_setfl sockfd (word_of_int flags));
         _ \<leftarrow> set_errno errno_ETIMEDOUT;
         State_Monad.return (-1)
       } else do {
         ready \<leftarrow> fd_isset env n;
         if ready then do {
           error \<leftarrow> syscall env (Sys_so_error sockfd);
           _ \<leftarrow> syscall env (Sys_setfl sockfd (word_of_int flags));
           if error < 0 then State_Monad.return (-1)
           else if error \<noteq> 0 then do {
             _ \<leftarrow> set_errno error;
             State_Monad.return (-1)
           } else State_Monad.return 0
         } else do {
           _ \<leftarrow> syscall env (Sys_setfl sockfd (word_of_int flags));
           State_Monad.return (-1)
         }
       }
     }
   }"

section \<open>TCP\<close>

text \<open>The end of a \<open>connect\<close> that failed: the error, and the socket is closed.\<close>

definition connect_failed :: "sock_env \<Rightarrow> int sock" where
  "connect_failed env = do {
     ret \<leftarrow> sk_gets (\<lambda>w. - sk_err w);
     fd \<leftarrow> sk_gets (\<lambda>w. t_socket (sk_tport w));
     _ \<leftarrow> syscall env (Sys_close fd);
     _ \<leftarrow> set_socket (-1);
     State_Monad.return ret
   }"

definition cmsg_transport_tcp_connect :: "sock_env \<Rightarrow> int sock" where
  "cmsg_transport_tcp_connect env = do {
     t \<leftarrow> sk_gets sk_tport;
     if family t = AF_INET \<and> \<not> cmsg_transport_tcp_cache_should_connect (sk_cache env) (word_of_be (sin_addr t))
     then State_Monad.return (-1)
     else do {
       fd \<leftarrow> syscall env (Sys_socket (family t) SOCK_STREAM);
       _ \<leftarrow> set_socket fd;
       if fd < 0 then sk_gets (\<lambda>w. - sk_err w)
       else do {
         ret \<leftarrow> (if vrf_bind_dev t \<noteq> [] \<and> (family t = AF_INET6 \<longrightarrow> sin6_scope_id t = 0)
                then syscall env (Sys_setsockopt fd (SO_BINDTODEVICE (vrf_bind_dev t)))
                else State_Monad.return 0);
         if ret < 0 then connect_failed env
         else do {
           r \<leftarrow> connect_nb env fd (connect_timeout t);
           if r < 0 then connect_failed env else State_Monad.return 0
         }
       }
     }
   }"

text \<open>The end of a \<open>listen\<close> that failed.\<close>

definition listen_failed :: "sock_env \<Rightarrow> int \<Rightarrow> int sock" where
  "listen_failed env fd = do {
     _ \<leftarrow> syscall env (Sys_close fd);
     State_Monad.return (-1)
   }"

definition bind_and_listen :: "sock_env \<Rightarrow> int \<Rightarrow> unit sock \<Rightarrow> int sock" where
  "bind_and_listen env fd finish = do {
     ret \<leftarrow> syscall env (Sys_bind fd);
     if ret < 0 then listen_failed env fd
     else do {
       ret \<leftarrow> syscall env (Sys_listen fd);
       if ret < 0 then listen_failed env fd
       else do {
         _ \<leftarrow> finish;
         _ \<leftarrow> set_socket fd;
         State_Monad.return 0
       }
     }
   }"

definition cmsg_transport_tcp_listen :: "sock_env \<Rightarrow> int sock" where
  "cmsg_transport_tcp_listen env = do {
     t \<leftarrow> sk_gets sk_tport;
     fd \<leftarrow> syscall env (Sys_socket (family t) SOCK_STREAM);
     if fd = -1 then State_Monad.return (-1)
     else do {
       ret \<leftarrow> syscall env (Sys_setsockopt fd SO_REUSEADDR);
       if ret = -1 then listen_failed env fd
       else do {
         ret \<leftarrow> (if (family t = AF_INET6 \<and> sin6_scope_id t = 0 \<or> family t = AF_INET) \<and> vrf_bind_dev t \<noteq> []
                then syscall env (Sys_setsockopt fd (SO_BINDTODEVICE (vrf_bind_dev t)))
                else State_Monad.return ret);
         if ret < 0 then listen_failed env fd
         else do {
           ret \<leftarrow> syscall env (Sys_setsockopt fd IP_FREEBIND);
           if ret = -1 then listen_failed env fd
           else bind_and_listen env fd (State_Monad.return ())
         }
       }
     }
   }"

definition cmsg_transport_tcp_set_so_linger :: "sock_env \<Rightarrow> int \<Rightarrow> unit sock" where
  "cmsg_transport_tcp_set_so_linger env sock = do {
     _ \<leftarrow> syscall env (Sys_setsockopt sock SO_LINGER0);
     State_Monad.return ()
   }"

definition accept_on :: "sock_env \<Rightarrow> (int \<Rightarrow> unit sock) \<Rightarrow> int sock" where
  "accept_on env opts = do {
     listen_socket \<leftarrow> sk_gets (\<lambda>w. t_socket (sk_tport w));
     if listen_socket < 0 then State_Monad.return (-1)
     else do {
       sock \<leftarrow> syscall env (Sys_accept listen_socket);
       if sock < 0 then State_Monad.return (-1)
       else do {
         _ \<leftarrow> opts sock;
         State_Monad.return sock
       }
     }
   }"

definition cmsg_transport_tcp_server_accept :: "sock_env \<Rightarrow> int sock" where
  "cmsg_transport_tcp_server_accept env = accept_on env (cmsg_transport_tcp_set_so_linger env)"

definition cmsg_transport_tcp_enable_keepalive :: "sock_env \<Rightarrow> int \<Rightarrow> unit sock" where
  "cmsg_transport_tcp_enable_keepalive env sock = do {
     _ \<leftarrow> syscall env (Sys_setsockopt sock (TCP_KEEPIDLE 5));
     _ \<leftarrow> syscall env (Sys_setsockopt sock (TCP_KEEPCNT 3));
     _ \<leftarrow> syscall env (Sys_setsockopt sock (TCP_KEEPINTVL 1));
     _ \<leftarrow> syscall env (Sys_setsockopt sock SO_KEEPALIVE);
     State_Monad.return ()
   }"

text \<open>\<open>opts\<close> is what a TCP transport sets before it closes.\<close>

definition close_with :: "sock_env \<Rightarrow> (int \<Rightarrow> unit sock) \<Rightarrow> unit sock" where
  "close_with env opts = do {
     fd \<leftarrow> sk_gets (\<lambda>w. t_socket (sk_tport w));
     sock_when (fd \<noteq> -1) (do {
       _ \<leftarrow> opts fd;
       _ \<leftarrow> syscall env (Sys_shutdown fd);
       _ \<leftarrow> syscall env (Sys_close fd);
       set_socket (-1)
     })
   }"

definition cmsg_transport_tcp_socket_close :: "sock_env \<Rightarrow> unit sock" where
  "cmsg_transport_tcp_socket_close env = do {
     t \<leftarrow> sk_gets sk_tport;
     close_with env (if t_type t = CMSG_TRANSPORT_ONEWAY_TCP then cmsg_transport_tcp_enable_keepalive env
                     else cmsg_transport_tcp_set_so_linger env)
   }"

section \<open>Unix sockets\<close>

definition cmsg_transport_unix_connect :: "sock_env \<Rightarrow> int sock" where
  "cmsg_transport_unix_connect env = do {
     t \<leftarrow> sk_gets sk_tport;
     fd \<leftarrow> syscall env (Sys_socket (family t) SOCK_STREAM);
     _ \<leftarrow> set_socket fd;
     if fd < 0 then sk_gets (\<lambda>w. - sk_err w)
     else do {
       r \<leftarrow> syscall env (Sys_connect fd);
       if r < 0 then connect_failed env else State_Monad.return 0
     }
   }"

definition cmsg_transport_unix_listen :: "sock_env \<Rightarrow> int sock" where
  "cmsg_transport_unix_listen env = do {
     t \<leftarrow> sk_gets sk_tport;
     fd \<leftarrow> syscall env (Sys_socket (family t) SOCK_STREAM);
     if fd = -1 then State_Monad.return (-1)
     else do {
       ret \<leftarrow> syscall env (Sys_setsockopt fd SO_REUSEADDR);
       if ret = -1 then listen_failed env fd
       else do {
         _ \<leftarrow> syscall env (Sys_unlink (sun_path t));
         bind_and_listen env fd (do {
           _ \<leftarrow> syscall env (Sys_chmod (sun_path t));
           State_Monad.return ()
         })
       }
     }
   }"

definition cmsg_transport_unix_server_accept :: "sock_env \<Rightarrow> int sock" where
  "cmsg_transport_unix_server_accept env = accept_on env (\<lambda>_. State_Monad.return ())"

definition cmsg_transport_socket_close :: "sock_env \<Rightarrow> unit sock" where
  "cmsg_transport_socket_close env = close_with env (\<lambda>_. State_Monad.return ())"

section \<open>TIPC broadcast\<close>

definition cmsg_transport_tipc_broadcast_connect :: "sock_env \<Rightarrow> int sock" where
  "cmsg_transport_tipc_broadcast_connect env = do {
     t \<leftarrow> sk_gets sk_tport;
     fd \<leftarrow> syscall env (Sys_socket (family t) SOCK_RDM);
     _ \<leftarrow> set_socket fd;
     if fd < 0 then sk_gets (\<lambda>w. - sk_err w) else State_Monad.return 0
   }"

text \<open>The socket that cannot be bound is not closed.\<close>

definition cmsg_transport_tipc_broadcast_listen :: "sock_env \<Rightarrow> int sock" where
  "cmsg_transport_tipc_broadcast_listen env = do {
     t \<leftarrow> sk_gets sk_tport;
     fd \<leftarrow> syscall env (Sys_socket (family t) SOCK_RDM);
     if fd = -1 then State_Monad.return (-1)
     else do {
       r \<leftarrow> syscall env (Sys_bind fd);
       if r \<noteq> 0 then State_Monad.return (-1)
       else do {
         _ \<leftarrow> set_socket fd;
         State_Monad.return 0
       }
     }
   }"

text \<open>A message of no bytes is one that came back undelivered: it is taken out, and read as "try again".\<close>

definition cmsg_transport_tipc_broadcast_recv :: "sock_env \<Rightarrow> int \<Rightarrow> nat \<Rightarrow> bool \<Rightarrow> int sock" where
  "cmsg_transport_tipc_broadcast_recv env sock len peek = do {
     _ \<leftarrow> syscall env (Sys_select sock (Some 1));
     fd \<leftarrow> sk_gets (\<lambda>w. t_socket (sk_tport w));
     nbytes \<leftarrow> syscall env (Sys_recvfrom fd len peek);
     if nbytes = 0 then do {
       _ \<leftarrow> sock_when peek (do {
         _ \<leftarrow> syscall env (Sys_recvfrom fd len False);
         State_Monad.return ()
       });
       _ \<leftarrow> set_errno errno_EAGAIN;
       State_Monad.return (-1)
     } else State_Monad.return nbytes
   }"

text \<open>\<open>n\<close> is how many of the 25 retries are left.\<close>

fun tipc_send_loop :: "sock_env \<Rightarrow> int \<Rightarrow> nat \<Rightarrow> nat \<Rightarrow> int \<Rightarrow> (nat \<times> int) sock" where
  "tipc_send_loop env fd len 0 result = State_Monad.return (0, result)"
| "tipc_send_loop env fd len (Suc n) result =
     (if result = int len then State_Monad.return (Suc n, result)
      else do {
        _ \<leftarrow> syscall env (Sys_usleep 50000);
        result \<leftarrow> syscall env (Sys_sendto fd len);
        tipc_send_loop env fd len n result
      })"

definition cmsg_transport_tipc_broadcast_client_send :: "sock_env \<Rightarrow> nat \<Rightarrow> int sock" where
  "cmsg_transport_tipc_broadcast_client_send env len = do {
     fd \<leftarrow> sk_gets (\<lambda>w. t_socket (sk_tport w));
     result \<leftarrow> syscall env (Sys_sendto fd len);
     (_, result) \<leftarrow> tipc_send_loop env fd len 25 result;
     State_Monad.return result
   }"

section \<open>Transports of any kind\<close>

definition cmsg_transport_get_socket :: "int sock" where
  "cmsg_transport_get_socket = sk_gets (\<lambda>w. t_socket (sk_tport w))"

definition cmsg_transport_apply_send_timeout :: "sock_env \<Rightarrow> int \<Rightarrow> int sock" where
  "cmsg_transport_apply_send_timeout env sockfd = do {
     t \<leftarrow> sk_gets sk_tport;
     if sockfd \<noteq> -1 then do {
       r \<leftarrow> syscall env (Sys_setsockopt sockfd (SO_SNDTIMEO (send_timeout t)));
       State_Monad.return (if r < 0 then -1 else 0)
     } else State_Monad.return 0
   }"

definition cmsg_transport_apply_recv_timeout :: "sock_env \<Rightarrow> int \<Rightarrow> int sock" where
  "cmsg_transport_apply_recv_timeout env sockfd = do {
     t \<leftarrow> sk_gets sk_tport;
     if sockfd \<noteq> -1 then do {
       r \<leftarrow> syscall env (Sys_setsockopt sockfd (SO_RCVTIMEO (receive_timeout t)));
       State_Monad.return (if r < 0 then -1 else 0)
     } else State_Monad.return 0
   }"

definition apply_timeouts :: "sock_env \<Rightarrow> int \<Rightarrow> unit sock" where
  "apply_timeouts env sock = do {
     _ \<leftarrow> cmsg_transport_apply_send_timeout env sock;
     _ \<leftarrow> cmsg_transport_apply_recv_timeout env sock;
     State_Monad.return ()
   }"

text \<open>The functions that the tables of the transports name.\<close>

definition tport_connect :: "sock_env \<Rightarrow> string \<Rightarrow> int sock" where
  "tport_connect env f =
     (if f = ''cmsg_transport_tcp_connect'' then cmsg_transport_tcp_connect env
      else if f = ''cmsg_transport_unix_connect'' then cmsg_transport_unix_connect env
      else cmsg_transport_tipc_broadcast_connect env)"

definition tport_listen :: "sock_env \<Rightarrow> string \<Rightarrow> int sock" where
  "tport_listen env f =
     (if f = ''cmsg_transport_tcp_listen'' then cmsg_transport_tcp_listen env
      else if f = ''cmsg_transport_unix_listen'' then cmsg_transport_unix_listen env
      else cmsg_transport_tipc_broadcast_listen env)"

definition tport_accept :: "sock_env \<Rightarrow> string \<Rightarrow> int sock" where
  "tport_accept env f =
     (if f = ''cmsg_transport_tcp_server_accept'' then cmsg_transport_tcp_server_accept env
      else cmsg_transport_unix_server_accept env)"

definition tport_socket_close :: "sock_env \<Rightarrow> string \<Rightarrow> unit sock" where
  "tport_socket_close env f =
     (if f = ''cmsg_transport_tcp_socket_close'' then cmsg_transport_tcp_socket_close env
      else if f = ''cmsg_transport_socket_close'' then cmsg_transport_socket_close env
      else State_Monad.return ())"

definition cmsg_transport_connect :: "sock_env \<Rightarrow> int sock" where
  "cmsg_transport_connect env = do {
     t \<leftarrow> sk_gets sk_tport;
     case fn_connect (tport_funcs t) of
       None \<Rightarrow> State_Monad.return CMSG_RET_OK
     | Some f \<Rightarrow> do {
         ret \<leftarrow> tport_connect env f;
         fd \<leftarrow> cmsg_transport_get_socket;
         _ \<leftarrow> sock_when (ret = CMSG_RET_OK) (apply_timeouts env fd);
         State_Monad.return ret
       }
   }"

definition cmsg_transport_accept :: "sock_env \<Rightarrow> int sock" where
  "cmsg_transport_accept env = do {
     t \<leftarrow> sk_gets sk_tport;
     case fn_server_accept (tport_funcs t) of
       None \<Rightarrow> State_Monad.return (-1)
     | Some f \<Rightarrow> do {
         sock \<leftarrow> tport_accept env f;
         _ \<leftarrow> sock_when (sock \<noteq> -1) (apply_timeouts env sock);
         State_Monad.return sock
       }
   }"

definition cmsg_transport_set_connect_timeout :: "u32 \<Rightarrow> int sock" where
  "cmsg_transport_set_connect_timeout timeout = do {
     t \<leftarrow> sk_gets sk_tport;
     if t_type t = CMSG_TRANSPORT_RPC_UNIX \<or> t_type t = CMSG_TRANSPORT_ONEWAY_UNIX then State_Monad.return (-1)
     else do {
       _ \<leftarrow> sk_modify (\<lambda>w. w\<lparr>sk_tport := (sk_tport w)\<lparr>connect_timeout := timeout\<rparr>\<rparr>);
       State_Monad.return 0
     }
   }"

definition cmsg_transport_set_send_timeout :: "sock_env \<Rightarrow> u32 \<Rightarrow> int sock" where
  "cmsg_transport_set_send_timeout env timeout = do {
     _ \<leftarrow> sk_modify (\<lambda>w. w\<lparr>sk_tport := (sk_tport w)\<lparr>send_timeout := timeout\<rparr>\<rparr>);
     fd \<leftarrow> cmsg_transport_get_socket;
     cmsg_transport_apply_send_timeout env fd
   }"

definition cmsg_transport_set_recv_peek_timeout :: "u32 \<Rightarrow> int sock" where
  "cmsg_transport_set_recv_peek_timeout timeout = do {
     _ \<leftarrow> sk_modify (\<lambda>w. w\<lparr>sk_tport := (sk_tport w)\<lparr>receive_peek_timeout := timeout\<rparr>\<rparr>);
     State_Monad.return 0
   }"


text \<open>Ports are printed in host order; \<open>snprintf\<close> keeps 127 characters of the 128 it may write.\<close>

definition port_number :: "u8 list \<Rightarrow> nat" where
  "port_number port = fold (\<lambda>b n. 256 * n + unat b) port 0"

definition transport_id :: "sock_env \<Rightarrow> cmsg_transport \<Rightarrow> string" where
  "transport_id env t =
     (case t_type t of
        CMSG_TRANSPORT_BROADCAST \<Rightarrow> ''.tipcb''
      | CMSG_TRANSPORT_LOOPBACK \<Rightarrow> ''.lpb''
      | CMSG_TRANSPORT_FORWARDING \<Rightarrow> ''.fwd''
      | CMSG_TRANSPORT_RPC_UNIX \<Rightarrow> take 127 (sun_path t)
      | CMSG_TRANSPORT_ONEWAY_UNIX \<Rightarrow> take 127 (sun_path t)
      | _ \<Rightarrow>
          take 127 (if family t = AF_INET6
            then ''.tcp[['' @ sk_ntop env True (sin6_addr t) @ '']:'' @ decimal (port_number (sin_port t)) @ '']''
            else ''.tcp['' @ sk_ntop env False (sin_addr t) @ '':'' @ decimal (port_number (sin_port t)) @ '']''))"

definition cmsg_transport_write_id :: "sock_env \<Rightarrow> string \<Rightarrow> unit sock" where
  "cmsg_transport_write_id env parent =
     sk_modify (\<lambda>w. w\<lparr>sk_tport := (sk_tport w)\<lparr>tport_id := transport_id env (sk_tport w),
       parent_obj_id := take 10 parent\<rparr>\<rparr>)"

text \<open>No transport has a \<open>destroy\<close> function but the forwarding one, which frees its data.\<close>

definition cmsg_transport_destroy :: "sock_env \<Rightarrow> unit sock" where
  "cmsg_transport_destroy env = do {
     _ \<leftarrow> syscall env (Sys_gone Obj_transport);
     State_Monad.return ()
   }"

end
