(* ===== verification/SocketProperties.thy ===== *)
theory SocketProperties
  imports Sockets "HOL-Library.Multiset"
begin

text \<open>
  The properties of the transports' sockets: none is leaked or closed twice, and what a connection
  with a timeout returns.
\<close>

section \<open>Reasoning about the state monad\<close>

text \<open>\<open>wp m Q w\<close>: the result and the state after running \<open>m\<close> from \<open>w\<close> satisfy \<open>Q\<close>.\<close>

definition wp :: "('s, 'a) state \<Rightarrow> ('a \<Rightarrow> 's \<Rightarrow> bool) \<Rightarrow> 's \<Rightarrow> bool" where
  "wp m Q w \<longleftrightarrow> (case run_state m w of (a, w') \<Rightarrow> Q a w')"

named_theorems wp_rules

lemma wp_simps [wp_rules]:
  "wp (State_Monad.bind m f) Q w \<longleftrightarrow> wp m (\<lambda>a. wp (f a) Q) w"
  "wp (State_Monad.return a) Q w \<longleftrightarrow> Q a w"
  "wp (if b then m1 else m2) Q w \<longleftrightarrow> (if b then wp m1 Q w else wp m2 Q w)"
  by (simp_all add: wp_def split: prod.split)

lemma wp_prims [wp_rules]:
  "wp (sk_gets g) Q' v \<longleftrightarrow> Q' (g v) v"
  "wp (sk_modify h) R v \<longleftrightarrow> R () (h v)"
  "wp (set_errno e) R v \<longleftrightarrow> R () (v\<lparr>sk_err := e\<rparr>)"
  "wp (set_socket fd) R v \<longleftrightarrow> R () (v\<lparr>sk_tport := (sk_tport v)\<lparr>t_socket := fd\<rparr>\<rparr>)"
  "wp (sock_when b u) R v \<longleftrightarrow> (if b then wp u R v else R () v)"
  by (simp_all add: wp_def sk_gets_def sk_modify_def set_errno_def set_socket_def sock_when_def State_Monad.return_def)

lemma wp_syscall [wp_rules]:
  "wp (syscall env c) Q w \<longleftrightarrow>
     (let r = sk_result env (sk_trace w) c in
      Q r (w\<lparr>sk_trace := sk_trace w @ [(c, r)],
             sk_err := (if r < 0 then sk_errno env (sk_trace w) c else sk_err w)\<rparr>))"
  by (simp add: wp_def syscall_def Let_def)

lemma wp_mono: "wp m Q w \<Longrightarrow> (\<And>a w'. Q a w' \<Longrightarrow> R a w') \<Longrightarrow> wp m R w"
  by (auto simp: wp_def split: prod.splits)

section \<open>Open sockets\<close>

text \<open>The descriptors that are open after some calls; \<open>None\<close> if one is closed that is not open.\<close>

fun fds_after :: "sock_trace \<Rightarrow> int multiset \<Rightarrow> int multiset option" where
  "fds_after [] F = Some F"
| "fds_after ((Sys_socket _ _, r) # tr) F = fds_after tr (if 0 \<le> r then add_mset r F else F)"
| "fds_after ((Sys_accept _, r) # tr) F = fds_after tr (if 0 \<le> r then add_mset r F else F)"
| "fds_after ((Sys_eventfd, r) # tr) F = fds_after tr (if 0 \<le> r then add_mset r F else F)"
| "fds_after ((Sys_close fd, _) # tr) F = (if fd \<in># F then fds_after tr (F - {#fd#}) else None)"
| "fds_after (_ # tr) F = fds_after tr F"

definition opened :: "sock_state \<Rightarrow> int multiset option" where
  "opened w = fds_after (sk_trace w) {#}"

text \<open>What a process has open is \<open>F\<close> and the socket of the transport, if it has one.\<close>

definition owns :: "sock_state \<Rightarrow> int multiset \<Rightarrow> bool" where
  "owns w F \<longleftrightarrow> -1 \<le> t_socket (sk_tport w) \<and> opened w = Some (if t_socket (sk_tport w) < 0 then F else add_mset (t_socket (sk_tport w)) F)"

lemma fds_after_append: "fds_after (tr @ tr') F = Option.bind (fds_after tr F) (fds_after tr')"
  by (induction tr F rule: fds_after.induct) auto

lemma opened_simps [simp]:
  "opened (w\<lparr>sk_err := e\<rparr>) = opened w" "opened (w\<lparr>sk_tport := t\<rparr>) = opened w"
  "opened (w\<lparr>sk_trace := sk_trace w @ evs\<rparr>) = Option.bind (opened w) (fds_after evs)"
  "opened (w\<lparr>sk_trace := sk_trace w @ evs, sk_err := e\<rparr>) = Option.bind (opened w) (fds_after evs)"
  by (simp_all add: opened_def fds_after_append)

text \<open>Documented behaviour: calls fail with \<open>-1\<close> and an error number, \<open>connect\<close> returns 0 or \<open>-1\<close>.\<close>

definition sk_ok :: "sock_env \<Rightarrow> bool" where
  "sk_ok env \<longleftrightarrow> (\<forall>tr c. -1 \<le> sk_result env tr c \<and> 0 < sk_errno env tr c) \<and>
     (\<forall>tr fd. sk_result env tr (Sys_connect fd) \<le> 0)"

lemma sk_okD:
  assumes "sk_ok env"
  shows "-1 \<le> sk_result env tr c" "0 < sk_errno env tr c" "sk_result env tr (Sys_connect fd) \<le> 0"
  using assms by (simp_all add: sk_ok_def)

text \<open>What does not touch the sockets.\<close>

abbreviation same_fds :: "sock_state \<Rightarrow> sock_state \<Rightarrow> bool" where
  "same_fds w w' \<equiv> opened w' = opened w \<and> sk_tport w' = sk_tport w"

text \<open>The calls by what they do to the open sockets. A call that fails leaves an error number.\<close>

fun quiet :: "sock_call \<Rightarrow> bool" where
  "quiet (Sys_socket _ _) \<longleftrightarrow> False"
| "quiet (Sys_accept _) \<longleftrightarrow> False"
| "quiet Sys_eventfd \<longleftrightarrow> False"
| "quiet (Sys_close _) \<longleftrightarrow> False"
| "quiet _ \<longleftrightarrow> True"

lemma fds_after_quiet: "quiet c \<Longrightarrow> fds_after [(c, r)] F = Some F"
  by (cases c) simp_all

definition err_ok :: "int \<Rightarrow> sock_state \<Rightarrow> sock_state \<Rightarrow> bool" where
  "err_ok r w w' \<longleftrightarrow> -1 \<le> r \<and> (if r < 0 then 0 < sk_err w' else sk_err w' = sk_err w)"

lemma wp_quiet:
  assumes "sk_ok env" "quiet c"
    and "\<And>r w'. same_fds w w' \<Longrightarrow> err_ok r w w' \<Longrightarrow> (\<And>fd. c = Sys_connect fd \<Longrightarrow> r \<le> 0) \<Longrightarrow> Q r w'"
  shows "wp (syscall env c) Q w"
  unfolding wp_syscall Let_def
  by (rule assms(3)) (use sk_okD [OF assms(1)] assms(2) in
    \<open>auto simp: err_ok_def opened_def fds_after_append fds_after_quiet split: Option.bind_split\<close>)

lemma wp_quiets:
  assumes "sk_ok env" "\<And>r w'. same_fds w w' \<Longrightarrow> err_ok r w w' \<Longrightarrow> Q r w'"
  shows "wp (syscall env (Sys_setsockopt fd opt)) Q w" "wp (syscall env (Sys_getfl fd)) Q w"
    "wp (syscall env (Sys_setfl fd flags)) Q w" "wp (syscall env (Sys_select fd timeout)) Q w"
    "wp (syscall env (Sys_so_error fd)) Q w" "wp (syscall env (Sys_bind fd)) Q w" "wp (syscall env (Sys_listen fd)) Q w"
    "wp (syscall env (Sys_shutdown fd)) Q w" "wp (syscall env (Sys_unlink path)) Q w" "wp (syscall env (Sys_chmod path)) Q w"
    "wp (syscall env (Sys_poll fd)) Q w" "wp (syscall env (Sys_eventfd_write fd)) Q w"
    "wp (syscall env (Sys_new part)) Q w" "wp (syscall env (Sys_gone part)) Q w"
  by (rule wp_quiet [OF assms(1)], simp, rule assms(2); assumption)+

lemma wp_connects:
  assumes "sk_ok env" "\<And>r w'. same_fds w w' \<Longrightarrow> err_ok r w w' \<Longrightarrow> r \<le> 0 \<Longrightarrow> Q r w'"
  shows "wp (syscall env (Sys_connect fd)) Q w"
  by (rule wp_quiet [OF assms(1)], simp, rule assms(2); simp)

lemma wp_opens_aux:
  assumes "sk_ok env" "c = Sys_socket f ty \<or> c = Sys_accept l \<or> c = Sys_eventfd" "opened w = Some F"
    and "\<And>r w'. opened w' = Some (if 0 \<le> r then add_mset r F else F) \<Longrightarrow> sk_tport w' = sk_tport w \<Longrightarrow> err_ok r w w' \<Longrightarrow> Q r w'"
  shows "wp (syscall env c) Q w"
  unfolding wp_syscall Let_def
  by (rule assms(4)) (use sk_okD [OF assms(1)] assms(2,3) in
    \<open>auto simp: err_ok_def opened_def fds_after_append\<close>)

lemma wp_opens:
  assumes "sk_ok env" "opened w = Some F"
    and "\<And>r w'. opened w' = Some (if 0 \<le> r then add_mset r F else F) \<Longrightarrow> sk_tport w' = sk_tport w \<Longrightarrow> err_ok r w w' \<Longrightarrow> Q r w'"
  shows "wp (syscall env (Sys_socket f ty)) Q w" "wp (syscall env (Sys_accept l)) Q w" "wp (syscall env Sys_eventfd) Q w"
  by (rule wp_opens_aux [OF assms(1) _ assms(2)], simp, rule assms(3); assumption)+

lemma wp_close:
  assumes "opened w = Some (add_mset fd F)"
    and "\<And>r w'. opened w' = Some F \<Longrightarrow> sk_tport w' = sk_tport w \<Longrightarrow> Q r w'"
  shows "wp (syscall env (Sys_close fd)) Q w"
  unfolding wp_syscall Let_def
  by (rule assms(2)) (use assms(1) in \<open>auto simp: opened_def fds_after_append\<close>)

lemmas wp_steps = wp_simps wp_prims

lemma connect_nb_fds:
  assumes "sk_ok env"
    and "\<And>r w'. same_fds w w' \<Longrightarrow> r = 0 \<or> r = -1 \<and> 0 < sk_err w' \<Longrightarrow> Q r w'"
  shows "wp (connect_nb env fd timeout) Q w"
  unfolding connect_nb_def wp_steps fd_isset_def
  by (auto intro!: wp_quiets [OF assms(1)] wp_connects [OF assms(1)] assms(2) simp: wp_steps errno_EINPROGRESS_def errno_ETIMEDOUT_def err_ok_def
      split: if_splits)

section \<open>Connecting, listening, accepting and closing\<close>

text \<open>After a connect or listen: the transport has a socket if it succeeded, and else nothing is left open.\<close>

definition made :: "int multiset \<Rightarrow> int \<Rightarrow> sock_state \<Rightarrow> bool" where
  "made F r w \<longleftrightarrow> owns w F \<and> (r = 0 \<longleftrightarrow> 0 \<le> t_socket (sk_tport w)) \<and> r \<le> 0"

lemma made_intros:
  "opened w = Some (add_mset (t_socket (sk_tport w)) F) \<Longrightarrow> 0 \<le> t_socket (sk_tport w) \<Longrightarrow> made F 0 w"
  "opened w = Some F \<Longrightarrow> t_socket (sk_tport w) = -1 \<Longrightarrow> r < 0 \<Longrightarrow> made F r w"
  by (simp_all add: made_def owns_def)

lemma connect_failed_fds:
  assumes "opened w = Some (add_mset (t_socket (sk_tport w)) F)" "0 < sk_err w"
  shows "wp (connect_failed env) (made F) w"
  unfolding connect_failed_def wp_steps
  by (rule wp_close [OF assms(1)]) (use assms(2) in \<open>simp add: made_intros\<close>)

lemma listen_failed_fds:
  assumes "opened w = Some (add_mset fd F)" "t_socket (sk_tport w) = -1"
  shows "wp (listen_failed env fd) (made F) w"
  unfolding listen_failed_def wp_steps
  by (rule wp_close [OF assms(1)]) (use assms(2) in \<open>simp add: made_intros\<close>)

lemma tcp_connect_fds:
  assumes "sk_ok env" "opened w = Some F" "t_socket (sk_tport w) = -1"
  shows "wp (cmsg_transport_tcp_connect env) (made F) w"
  unfolding cmsg_transport_tcp_connect_def wp_steps
  using assms(2,3)
  by (auto intro!: wp_opens [OF assms(1)] wp_quiets [OF assms(1)] wp_connects [OF assms(1)] connect_failed_fds connect_nb_fds [OF assms(1)] made_intros
      simp: wp_steps err_ok_def)

lemma bind_and_listen_fds:
  assumes "sk_ok env" "opened w = Some (add_mset fd F)" "t_socket (sk_tport w) = -1" "0 \<le> fd"
    and "\<And>Q v. (\<And>v'. same_fds v v' \<Longrightarrow> Q () v') \<Longrightarrow> wp finish Q v"
  shows "wp (bind_and_listen env fd finish) (made F) w"
  unfolding bind_and_listen_def wp_steps
  using assms(2-4)
  by (auto intro!: wp_quiets [OF assms(1)] wp_connects [OF assms(1)] listen_failed_fds made_intros assms(5) simp: wp_steps err_ok_def)

lemma tcp_listen_fds:
  assumes "sk_ok env" "opened w = Some F" "t_socket (sk_tport w) = -1"
  shows "wp (cmsg_transport_tcp_listen env) (made F) w"
  unfolding cmsg_transport_tcp_listen_def wp_steps
  using assms(2,3)
  by (auto intro!: wp_opens [OF assms(1)] wp_quiets [OF assms(1)] wp_connects [OF assms(1)] listen_failed_fds bind_and_listen_fds [OF assms(1)] made_intros
      simp: wp_steps err_ok_def)

lemma unix_connect_fds:
  assumes "sk_ok env" "opened w = Some F" "t_socket (sk_tport w) = -1"
  shows "wp (cmsg_transport_unix_connect env) (made F) w"
  unfolding cmsg_transport_unix_connect_def wp_steps
  using assms(2,3)
  by (auto intro!: wp_opens [OF assms(1)] wp_quiets [OF assms(1)] wp_connects [OF assms(1)] connect_failed_fds made_intros simp: wp_steps err_ok_def)

lemma unix_listen_fds:
  assumes "sk_ok env" "opened w = Some F" "t_socket (sk_tport w) = -1"
  shows "wp (cmsg_transport_unix_listen env) (made F) w"
  unfolding cmsg_transport_unix_listen_def wp_steps
  using assms(2,3)
  by (auto intro!: wp_opens [OF assms(1)] wp_quiets [OF assms(1)] wp_connects [OF assms(1)] listen_failed_fds bind_and_listen_fds [OF assms(1)] made_intros
      simp: wp_steps err_ok_def)

lemma tipc_connect_fds:
  assumes "sk_ok env" "opened w = Some F" "t_socket (sk_tport w) = -1"
  shows "wp (cmsg_transport_tipc_broadcast_connect env) (made F) w"
  unfolding cmsg_transport_tipc_broadcast_connect_def wp_steps
  using assms(2,3)
  by (auto intro!: wp_opens [OF assms(1)] made_intros simp: wp_steps err_ok_def)

lemma accept_on_fds:
  assumes "sk_ok env" "owns w F" "\<And>Q v fd. (\<And>v'. same_fds v v' \<Longrightarrow> Q () v') \<Longrightarrow> wp (opts fd) Q v"
    and "\<And>r w'. owns w' (if 0 \<le> r then add_mset r F else F) \<Longrightarrow> sk_tport w' = sk_tport w \<Longrightarrow> -1 \<le> r \<Longrightarrow> Q r w'"
  shows "wp (accept_on env opts) Q w"
  unfolding accept_on_def wp_steps
  using assms(2)
  by (auto intro!: wp_opens [OF assms(1)] assms(3,4) simp: wp_steps err_ok_def owns_def add_mset_commute)

lemma close_with_fds:
  assumes "sk_ok env" "owns w F" "\<And>Q v fd. (\<And>v'. same_fds v v' \<Longrightarrow> Q () v') \<Longrightarrow> wp (opts fd) Q v"
  shows "wp (close_with env opts) (\<lambda>_ w'. opened w' = Some F \<and> t_socket (sk_tport w') = -1) w"
  unfolding close_with_def wp_steps
  using assms(2)
  by (auto intro!: wp_quiets [OF assms(1)] wp_close [where F = F] assms(3) simp: wp_steps owns_def)

lemma options_fds:
  assumes "sk_ok env"
  shows "(\<And>v'. same_fds v v' \<Longrightarrow> Q () v') \<Longrightarrow> wp (cmsg_transport_tcp_set_so_linger env fd) Q v"
    and "(\<And>v'. same_fds v v' \<Longrightarrow> Q () v') \<Longrightarrow> wp (cmsg_transport_tcp_enable_keepalive env fd) Q v"
    and "(\<And>v'. same_fds v v' \<Longrightarrow> Q () v') \<Longrightarrow> wp (apply_timeouts env fd) Q v"
    and "(\<And>v'. same_fds v v' \<Longrightarrow> Q () v') \<Longrightarrow> wp (State_Monad.return ()) Q v"
  by (auto intro!: wp_quiets [OF assms] simp: wp_steps cmsg_transport_tcp_set_so_linger_def
      cmsg_transport_tcp_enable_keepalive_def apply_timeouts_def cmsg_transport_apply_send_timeout_def
      cmsg_transport_apply_recv_timeout_def)

lemma made_owns: "made F r w \<Longrightarrow> same_fds w w' \<Longrightarrow> made F r w'"
  by (simp add: made_def owns_def)

lemma transport_connect_fds:
  assumes "sk_ok env" "owns w F" "t_socket (sk_tport w) = -1" "fn_connect (tport_funcs (sk_tport w)) \<noteq> None"
  shows "wp (cmsg_transport_connect env) (made F) w"
proof -
  obtain f where f: "fn_connect (tport_funcs (sk_tport w)) = Some f" using assms(4) by auto
  have "opened w = Some F" using assms(2,3) by (simp add: owns_def)
  then have "wp (tport_connect env f) (made F) w"
    using assms(1,3) by (simp add: tport_connect_def tcp_connect_fds unix_connect_fds tipc_connect_fds)
  then have "wp (tport_connect env f) (\<lambda>r v. wp (sock_when (r = CMSG_RET_OK) (apply_timeouts env (t_socket (sk_tport v))))
      (\<lambda>_. made F r) v) w"
    by (rule wp_mono) (auto simp: wp_steps intro!: options_fds [OF assms(1)] elim: made_owns)
  then show ?thesis
    unfolding cmsg_transport_connect_def cmsg_transport_get_socket_def wp_steps f option.case
    by (rule wp_mono) (simp add: wp_steps split: if_splits)
qed

lemma close_fds:
  assumes "sk_ok env" "owns w F" "tport_funcs (sk_tport w) = tport_funcs (cmsg_transport_new type)"
    and "type \<noteq> CMSG_TRANSPORT_LOOPBACK" "type \<noteq> CMSG_TRANSPORT_FORWARDING"
  shows "wp (tport_socket_close env (the (fn_socket_close (tport_funcs (sk_tport w)))))
    (\<lambda>_ w'. opened w' = Some F \<and> t_socket (sk_tport w') = -1) w"
  using assms(3-5)
    by (cases type)
      (auto simp: tport_socket_close_def cmsg_transport_new_def transport_init_defs Let_def wp_steps
        cmsg_transport_tcp_socket_close_def cmsg_transport_socket_close_def
        intro!: close_with_fds [OF assms(1,2)] options_fds [OF assms(1)])

text \<open>
  C21: No socket is leaked, and none closed twice. What the process has open besides the transport's own
  socket never changes: a connection and a listener, for whichever reason they fail, leave nothing open,
  and have a socket exactly when they succeed; accepting adds the accepted socket alone; closing
  takes the transport's socket, which is then gone. (TIPC listeners are the exception.)
\<close>

theorem sockets_accounted:
  assumes "sk_ok env" "owns w F" "tport_funcs (sk_tport w) = tport_funcs (cmsg_transport_new type)"
    and "type \<noteq> CMSG_TRANSPORT_LOOPBACK" "type \<noteq> CMSG_TRANSPORT_FORWARDING"
  shows "(t_socket (sk_tport w) = -1 \<longrightarrow>
      wp (cmsg_transport_connect env) (\<lambda>r w'. owns w' F \<and> (r = 0 \<longleftrightarrow> 0 \<le> t_socket (sk_tport w'))) w \<and>
      (type \<noteq> CMSG_TRANSPORT_BROADCAST \<longrightarrow> wp (tport_listen env (the (fn_listen (tport_funcs (sk_tport w)))))
         (\<lambda>r w'. owns w' F \<and> (r = 0 \<longleftrightarrow> 0 \<le> t_socket (sk_tport w'))) w)) \<and>
    wp (cmsg_transport_accept env) (\<lambda>r w'. owns w' (if 0 \<le> r then add_mset r F else F) \<and> sk_tport w' = sk_tport w) w \<and>
    wp (tport_socket_close env (the (fn_socket_close (tport_funcs (sk_tport w)))))
      (\<lambda>_ w'. opened w' = Some F \<and> t_socket (sk_tport w') = -1) w"
proof (intro conjI impI)
  have o: "opened w = Some F" if "t_socket (sk_tport w) = -1" using assms(2) that by (simp add: owns_def)
  have m: "wp x (\<lambda>r w'. owns w' F \<and> (r = 0 \<longleftrightarrow> 0 \<le> t_socket (sk_tport w'))) w" if "wp x (made F) w" for x
    using that by (rule wp_mono) (simp add: made_def)
  have "fn_connect (tport_funcs (sk_tport w)) \<noteq> None"
    using assms(3-5) by (cases type) (simp_all add: cmsg_transport_new_def transport_init_defs Let_def)
  then show "wp (cmsg_transport_connect env) (\<lambda>r w'. owns w' F \<and> (r = 0 \<longleftrightarrow> 0 \<le> t_socket (sk_tport w'))) w"
    if "t_socket (sk_tport w) = -1"
    using m [OF transport_connect_fds [OF assms(1,2) that]] by simp
  show "wp (tport_listen env (the (fn_listen (tport_funcs (sk_tport w)))))
      (\<lambda>r w'. owns w' F \<and> (r = 0 \<longleftrightarrow> 0 \<le> t_socket (sk_tport w'))) w"
    if "t_socket (sk_tport w) = -1" "type \<noteq> CMSG_TRANSPORT_BROADCAST"
    using that(2) assms(3-5) m [OF tcp_listen_fds [OF assms(1) o that(1)]] m [OF unix_listen_fds [OF assms(1) o that(1)]] that(1)
    by (cases type) (auto simp: tport_listen_def cmsg_transport_new_def transport_init_defs Let_def)
  show "wp (cmsg_transport_accept env) (\<lambda>r w'. owns w' (if 0 \<le> r then add_mset r F else F) \<and> sk_tport w' = sk_tport w) w"
    unfolding cmsg_transport_accept_def wp_steps tport_accept_def cmsg_transport_tcp_server_accept_def
      cmsg_transport_unix_server_accept_def
    using assms(2)
    by (auto simp: wp_steps owns_def split: option.split
        intro!: accept_on_fds [OF assms(1,2)] options_fds [OF assms(1)])
  show "wp (tport_socket_close env (the (fn_socket_close (tport_funcs (sk_tport w)))))
      (\<lambda>_ w'. opened w' = Some F \<and> t_socket (sk_tport w') = -1) w"
    by (rule close_fds [OF assms])
qed

text \<open>The world of the witnesses: connecting takes its time and then works.\<close>

fun demo_sock_result :: "sock_trace \<Rightarrow> sock_call \<Rightarrow> int" where
  "demo_sock_result tr (Sys_socket _ _) = int (length tr) + 3"
| "demo_sock_result tr (Sys_connect _) = -1"
| "demo_sock_result tr (Sys_select _ _) = 1"
| "demo_sock_result tr _ = 0"

definition demo_sock_env :: sock_env where
  "demo_sock_env = \<lparr>sk_result = demo_sock_result, sk_errno = \<lambda>_ _. 115, sk_ready = \<lambda>_. True, sk_cache = [],
     sk_ntop = \<lambda>_ _. ''10.0.0.1''\<rparr>"

definition demo_sock :: sock_state where
  "demo_sock = \<lparr>sk_trace = [], sk_err = 0, sk_tport = cmsg_transport_new CMSG_TRANSPORT_RPC_TCP\<rparr>"

lemma demo_sock_ok: "sk_ok demo_sock_env"
proof -
  have "-1 \<le> demo_sock_result tr c" for tr c by (cases "(tr, c)" rule: demo_sock_result.cases) simp_all
  then show ?thesis by (simp add: sk_ok_def demo_sock_env_def)
qed

theorem sockets_accounted_witness:
  "\<exists>w. run_state (cmsg_transport_connect demo_sock_env) demo_sock = (0, w) \<and> owns w {#} \<and> 0 \<le> t_socket (sk_tport w)"
proof -
  have "owns demo_sock {#}" "t_socket (sk_tport demo_sock) = -1"
    by (simp_all add: owns_def opened_def demo_sock_def cmsg_transport_new_def)
  moreover have "fst (run_state (cmsg_transport_connect demo_sock_env) demo_sock) = 0" by code_simp
  ultimately show ?thesis
    using sockets_accounted [OF demo_sock_ok, of demo_sock "{#}" CMSG_TRANSPORT_RPC_TCP]
    by (auto simp: wp_def demo_sock_def prod_eq_iff split: prod.splits)
qed

text \<open>The exception: a TIPC listener that cannot be bound leaves its socket open.\<close>

lemma tipc_bind_leaks:
  assumes "opened w = Some F" "sk_result env (sk_trace w) (Sys_socket (family (sk_tport w)) SOCK_RDM) = fd" "0 \<le> fd"
    and "\<forall>tr. sk_result env tr (Sys_bind fd) = -1"
  shows "wp (cmsg_transport_tipc_broadcast_listen env)
    (\<lambda>r w'. r = -1 \<and> opened w' = Some (add_mset fd F) \<and> sk_tport w' = sk_tport w) w"
  using assms
  by (auto simp: cmsg_transport_tipc_broadcast_listen_def wp_steps wp_syscall Let_def opened_def fds_after_append)

section \<open>Connections with a timeout\<close>

lemma wp_exs: "wp m (\<lambda>r w'. \<exists>t. P a b c d e f t r w') w \<Longrightarrow> wp m (\<lambda>r w'. \<exists>a b c d e f t. P a b c d e f t r w') w"
  by (erule wp_mono) blast

text \<open>
  C34: What a connection with a timeout does and returns. The socket is made non-blocking and in the end gets back the flags
  it had. If \<open>connect\<close> succeeds at once the result is 0; if it fails for another reason than that it is under way the result is
  -1, at once; otherwise there is one wait, with the timeout given (none for 0). A wait that times out gives -1 and
  \<open>ETIMEDOUT\<close>; one that reports the socket asks for the pending error, and the result is 0 exactly when there is none, and
  else -1 with that error. The wait that failed, for example because a signal arrived, counts as one that reports the
  socket: the connection is then reported as made while it is still under way.
\<close>

theorem connect_nb_exact:
  assumes "sk_ok env"
  shows "wp (connect_nb env fd timeout) (\<lambda>r w'. \<exists>flags s n k e calls t.
      let start = sk_trace w @ [(Sys_getfl fd, flags), (Sys_setfl fd (word_of_int flags OR O_NONBLOCK), s)];
          limit = (if timeout \<noteq> 0 then Some timeout else None) in
      sk_trace w' = start @ [(Sys_connect fd, n)] @ calls @ [(Sys_setfl fd (word_of_int flags), t)] \<and>
      (if n = 0 then calls = [] \<and> r = 0
       else if sk_errno env start (Sys_connect fd) \<noteq> errno_EINPROGRESS then calls = [] \<and> r = -1
       else if k = 0 then calls = [(Sys_select fd limit, 0)] \<and> r = -1 \<and> sk_err w' = errno_ETIMEDOUT
         else if 0 < k \<and> \<not> sk_ready env (start @ [(Sys_connect fd, n), (Sys_select fd limit, k)])
           then calls = [(Sys_select fd limit, k)] \<and> r = -1
         else calls = [(Sys_select fd limit, k), (Sys_so_error fd, e)] \<and> r = (if e = 0 then 0 else -1) \<and>
           (0 < e \<longrightarrow> sk_err w' = e))) w"
proof -
  define flags where "flags = sk_result env (sk_trace w) (Sys_getfl fd)"
  define s where "s = sk_result env (sk_trace w @ [(Sys_getfl fd, flags)]) (Sys_setfl fd (word_of_int flags OR O_NONBLOCK))"
  define start where "start = sk_trace w @ [(Sys_getfl fd, flags), (Sys_setfl fd (word_of_int flags OR O_NONBLOCK), s)]"
  define n where "n = sk_result env start (Sys_connect fd)"
  define limit where "limit = (if timeout \<noteq> 0 then Some timeout else None)"
  define k where "k = sk_result env (start @ [(Sys_connect fd, n)]) (Sys_select fd limit)"
  define waited where "waited = start @ [(Sys_connect fd, n), (Sys_select fd limit, k)]"
  define e where "e = sk_result env waited (Sys_so_error fd)"
  note parts = flags_def [symmetric] s_def [symmetric] start_def [symmetric] n_def [symmetric] limit_def [symmetric]
    k_def [symmetric] waited_def [symmetric] e_def [symmetric]
  have trace: "sk_trace w @ (Sys_getfl fd, flags) # (Sys_setfl fd (word_of_int flags OR O_NONBLOCK), s) # more = start @ more"
    "start @ (Sys_connect fd, n) # (Sys_select fd limit, k) # more = waited @ more" for more
    by (simp_all add: start_def waited_def)
  have ok: "n \<le> 0" "0 < sk_errno env tr c" for tr c using sk_okD [OF assms] by (simp_all add: n_def)
  note run = connect_nb_def wp_steps wp_syscall fd_isset_def Let_def parts trace
  show ?thesis
  proof (cases "n = 0 \<or> sk_errno env start (Sys_connect fd) \<noteq> errno_EINPROGRESS")
    case True
    then show ?thesis
      by - (rule wp_exs [of _ _ flags s n k e "[]"], use ok in \<open>auto simp: run\<close>)
  next
    case False
    define calls where "calls = (if k = 0 \<or> 0 < k \<and> \<not> sk_ready env waited then [(Sys_select fd limit, k)]
      else [(Sys_select fd limit, k), (Sys_so_error fd, e)])"
    show ?thesis
      by (rule wp_exs [of _ _ flags s n k e calls], use False ok in \<open>auto simp: run calls_def\<close>)
  qed
qed

text \<open>A signal interrupts the wait.\<close>

definition demo_interrupted :: sock_env where
  "demo_interrupted = demo_sock_env\<lparr>sk_result := \<lambda>tr c. case c of Sys_select _ _ \<Rightarrow> -1 | _ \<Rightarrow> demo_sock_result tr c\<rparr>"

theorem connect_nb_exact_witness:
  "\<exists>w' flags calls last. run_state (connect_nb demo_interrupted 3 0) demo_sock = (0, w') \<and>
     (Sys_connect 3, -1) \<in> set (sk_trace w') \<and> (Sys_select 3 None, -1) \<in> set (sk_trace w') \<and>
     sk_trace w' = (Sys_getfl 3, flags) # calls @ [(Sys_setfl 3 (word_of_int flags), last)]"
proof -
  have "sk_ok demo_interrupted"
    using demo_sock_ok by (auto simp: sk_ok_def demo_interrupted_def demo_sock_env_def split: sock_call.splits)
  note exact = connect_nb_exact [OF this, of 3 0 demo_sock]
  obtain r w' where run: "run_state (connect_nb demo_interrupted 3 0) demo_sock = (r, w')" by fastforce
  have "sk_trace demo_sock = []" by (simp add: demo_sock_def)
  with exact run have "\<exists>flags calls last. sk_trace w' = (Sys_getfl 3, flags) # calls @ [(Sys_setfl 3 (word_of_int flags), last)]"
    by (fastforce simp: wp_def Let_def)
  moreover have "fst (run_state (connect_nb demo_interrupted 3 0) demo_sock) = 0"
    "(Sys_connect 3, -1) \<in> set (sk_trace (snd (run_state (connect_nb demo_interrupted 3 0) demo_sock)))"
    "(Sys_select 3 None, -1) \<in> set (sk_trace (snd (run_state (connect_nb demo_interrupted 3 0) demo_sock)))"
    by code_simp+
  ultimately show ?thesis using run by auto
qed

end
