(* ===== verification/ServerPoll.thy ===== *)
theory ServerPoll
  imports Server
begin

text \<open>
  How a server waits for work: the queue through which its accept thread passes connections on, the
  server lists, and the functions of \<open>cmsg/src/cmsg_server.c\<close> that wait with \<open>select\<close> and receive from
  the connections that are ready.

  The world is the state of the connections, which the receive functions read, and the trace of
  what happened so far. A \<open>None\<close> result is undefined behaviour: a server without its accept thread,
  a descriptor that does not fit an \<open>fd_set\<close>, or an undefined receive.
\<close>

section \<open>Descriptor sets\<close>

definition FD_SETSIZE :: nat where "FD_SETSIZE = 1024"

text \<open>Beyond the set is a write outside the array.\<close>

definition FD_SET :: "nat \<Rightarrow> nat set \<Rightarrow> nat set option" where
  "FD_SET fd S = (if fd < FD_SETSIZE then Some (insert fd S) else None)"

text \<open>The descriptors \<open>0\<close> to \<open>fdmax\<close>, as the loops visit them.\<close>

definition fds_upto :: "int \<Rightarrow> nat list" where
  "fds_upto fdmax = [0..<nat (fdmax + 1)]"

fun fold_opt :: "('a \<Rightarrow> 's \<Rightarrow> 's option) \<Rightarrow> 'a list \<Rightarrow> 's \<Rightarrow> 's option" where
  "fold_opt f [] s = Some s"
| "fold_opt f (x # xs) s = Option.bind (f x s) (fold_opt f xs)"

section \<open>State\<close>

text \<open>\<open>eventfd_count\<close>: the counter behind the descriptor; it is readable while the counter is positive.\<close>

record cmsg_server_accept_thread_info =
  accept_sd_eventfd :: nat
  eventfd_count :: nat
  accept_sd_queue :: "nat list"

datatype poll_event =
    Poll_select int "(int \<times> int) option"
  | Poll_eventfd nat
  | Poll_accept nat
  | Poll_recv nat int
  | Poll_close nat

record 's poll_world =
  pw_conns :: 's
  pw_trace :: "poll_event list"

text \<open>A server with its accept thread and the connections it keeps itself.\<close>

record 'm polled_server =
  pd_server :: "'m cmsg_server"
  accept_thread_info :: "cmsg_server_accept_thread_info option"
  accepted_fdset :: "nat set"
  accepted_fdmax :: int

datatype select_result =
    Select_interrupted
  | Select_failed
  | Select_timeout
  | Select_ready "nat set"

record ('m, 's) poll_env =
  pe_server :: "'m server_env"
  pe_recv :: "nat \<Rightarrow> 's recv_func"
  pe_derive :: sa_derive
  pe_calloc :: "poll_event list \<Rightarrow> bool \<times> bool"
  pe_peek_timeout :: nat
  pe_clocks :: "poll_event list \<Rightarrow> nat list"
  pe_accept :: "poll_event list \<Rightarrow> int \<times> cmsg_crypto_sa option"
  pe_select :: "poll_event list \<Rightarrow> nat set \<Rightarrow> select_result"

definition poll_log :: "poll_event \<Rightarrow> 's poll_world \<Rightarrow> 's poll_world" where
  "poll_log ev w = w\<lparr>pw_trace := pw_trace w @ [ev]\<rparr>"

section \<open>The accept thread\<close>

text \<open>
  One turn after \<open>poll\<close> reported a connection: \<open>pe_accept\<close> gives the results of the accept (the arguments of
  \<open>cmsg_server_accept\<close>). First the connection is queued, then the reader is notified. A connection that
  the accept itself closes again is not in the trace.
\<close>

definition accept_push :: "nat \<Rightarrow> cmsg_server_accept_thread_info \<Rightarrow> cmsg_server_accept_thread_info" where
  "accept_push fd info = info\<lparr>accept_sd_queue := accept_sd_queue info @ [fd]\<rparr>"

definition eventfd_write :: "cmsg_server_accept_thread_info \<Rightarrow> cmsg_server_accept_thread_info" where
  "eventfd_write info = info\<lparr>eventfd_count := eventfd_count info + 1\<rparr>"

definition eventfd_read :: "cmsg_server_accept_thread_info \<Rightarrow> cmsg_server_accept_thread_info" where
  "eventfd_read info = info\<lparr>eventfd_count := 0\<rparr>"

definition cmsg_server_accept_thread ::
  "('m, 's) poll_env \<Rightarrow> 'm polled_server \<Rightarrow> 's poll_world \<Rightarrow> 'm polled_server \<times> 's poll_world" where
  "cmsg_server_accept_thread env p w =
     (let (sock, sa) = pe_accept env (pw_trace w);
          (newfd, server) = cmsg_server_accept sock sa (pd_server p);
          p = p\<lparr>pd_server := server\<rparr>
      in if 0 \<le> newfd
         then (p\<lparr>accept_thread_info := map_option (\<lambda>info. eventfd_write (accept_push (nat newfd) info)) (accept_thread_info p)\<rparr>,
               poll_log (Poll_accept (nat newfd)) w)
         else (p, w))"

text \<open>
  Starting and stopping it. The arguments say what could be made: the record, the event descriptor,
  the queue and the thread. What is still queued at the end is closed.
\<close>

definition cmsg_server_accept_thread_init ::
  "bool \<Rightarrow> int \<Rightarrow> bool \<Rightarrow> bool \<Rightarrow> 'm polled_server \<Rightarrow> 's poll_world \<Rightarrow> int \<times> 'm polled_server \<times> 's poll_world" where
  "cmsg_server_accept_thread_init alloc eventfd queue thread p w =
     (if accept_thread_info p \<noteq> None then (CMSG_RET_OK, p, w)
      else if \<not> alloc then (CMSG_RET_ERR, p, w)
      else if eventfd < 0 then (CMSG_RET_ERR, p, w)
      else if \<not> queue then (CMSG_RET_ERR, p, poll_log (Poll_close (nat eventfd)) (poll_log (Poll_eventfd (nat eventfd)) w))
      else if \<not> thread then
        (CMSG_RET_ERR, p\<lparr>accept_thread_info := None\<rparr>,
         poll_log (Poll_close (nat eventfd)) (poll_log (Poll_eventfd (nat eventfd)) w))
      else
        (CMSG_RET_OK,
         p\<lparr>accept_thread_info := Some \<lparr>accept_sd_eventfd = nat eventfd, eventfd_count = 0, accept_sd_queue = []\<rparr>\<rparr>,
         poll_log (Poll_eventfd (nat eventfd)) w))"

definition clear_accept_sd_queue :: "nat list \<Rightarrow> 's poll_world \<Rightarrow> 's poll_world" where
  "clear_accept_sd_queue q w = fold (\<lambda>fd. poll_log (Poll_close fd)) q w"

definition cmsg_server_accept_thread_deinit :: "'m polled_server \<Rightarrow> 's poll_world \<Rightarrow> 'm polled_server \<times> 's poll_world" where
  "cmsg_server_accept_thread_deinit p w =
     (case accept_thread_info p of
        None \<Rightarrow> (p, w)
      | Some info \<Rightarrow>
          (p\<lparr>accept_thread_info := None\<rparr>,
           clear_accept_sd_queue (accept_sd_queue info) (poll_log (Poll_close (accept_sd_eventfd info)) w)))"

section \<open>Receiving from what is ready\<close>

text \<open>The connections that wait in the queue are added to a set and its maximum.\<close>

fun pop_accepted :: "nat list \<Rightarrow> nat set \<times> int \<Rightarrow> (nat set \<times> int) option" where
  "pop_accepted [] r = Some r"
| "pop_accepted (fd # q) (S, fdmax) = Option.bind (FD_SET fd S) (\<lambda>S. pop_accepted q (S, max (int fd) fdmax))"

definition take_accepted ::
  "cmsg_server_accept_thread_info \<Rightarrow> 'm polled_server \<Rightarrow> nat set \<Rightarrow> int \<Rightarrow> ('m polled_server \<times> nat set \<times> int) option" where
  "take_accepted info p S fdmax =
     (let info = eventfd_read info in
      map_option (\<lambda>(S, fdmax). (p\<lparr>accept_thread_info := Some (info\<lparr>accept_sd_queue := []\<rparr>)\<rparr>, S, fdmax))
        (pop_accepted (accept_sd_queue info) (S, fdmax)))"

definition receive_on ::
  "('m, 's) poll_env \<Rightarrow> nat \<Rightarrow> 'm polled_server \<Rightarrow> 's poll_world \<Rightarrow> (int \<times> 'm polled_server \<times> 's poll_world) option" where
  "receive_on env fd p w =
     (let (calloc1, calloc2) = pe_calloc env (pw_trace w) in
      map_option (\<lambda>(ret, server, conns).
          (ret, p\<lparr>pd_server := server\<rparr>, poll_log (Poll_recv fd ret) (w\<lparr>pw_conns := conns\<rparr>)))
        (cmsg_server_receive (pe_server env) (pe_recv env fd) (pe_derive env) calloc1 calloc2 (pe_peek_timeout env)
           (pe_clocks env (pw_trace w)) (pd_server p) (int fd) (pw_conns w)))"

definition close_accepted :: "nat \<Rightarrow> 'm polled_server \<Rightarrow> 's poll_world \<Rightarrow> 'm polled_server \<times> 's poll_world" where
  "close_accepted fd p w =
     (p\<lparr>pd_server := cmsg_server_close_accepted_socket (pd_server p) (int fd)\<rparr>, poll_log (Poll_close fd) w)"

text \<open>A negative time-out waits for ever; the other ones are split into seconds and microseconds.\<close>

definition poll_timeval :: "int \<Rightarrow> (int \<times> int) option" where
  "poll_timeval timeout_ms = (if timeout_ms < 0 then None else Some (timeout_ms div 1000, timeout_ms mod 1000 * 1000))"

text \<open>\<open>select\<close> looks at the descriptors below its first argument.\<close>

definition do_select ::
  "('m, 's) poll_env \<Rightarrow> int \<Rightarrow> nat set \<Rightarrow> int \<Rightarrow> 's poll_world \<Rightarrow> select_result \<times> 's poll_world" where
  "do_select env nfds S timeout_ms w =
     (let w = poll_log (Poll_select nfds (poll_timeval timeout_ms)) w in
      (pe_select env (pw_trace w) (Set.filter (\<lambda>fd. int fd < nfds) S), w))"

section \<open>One server in its own thread\<close>

definition thread_poll_fd ::
  "('m, 's) poll_env \<Rightarrow> nat set \<Rightarrow> nat \<Rightarrow> 'm polled_server \<times> 's poll_world \<times> nat set \<times> int \<times> bool
   \<Rightarrow> ('m polled_server \<times> 's poll_world \<times> nat set \<times> int \<times> bool) option" where
  "thread_poll_fd env read_fds fd = (\<lambda>(p, w, master_fdset, fdmax, check_fdmax).
     if fd \<notin> read_fds then Some (p, w, master_fdset, fdmax, check_fdmax)
     else case accept_thread_info p of
       None \<Rightarrow> None
     | Some info \<Rightarrow>
         if fd = accept_sd_eventfd info then
           map_option (\<lambda>(p, master_fdset, fdmax). (p, w, master_fdset, fdmax, check_fdmax))
             (take_accepted info p master_fdset fdmax)
         else
           Option.bind (receive_on env fd p w) (\<lambda>(ret, p, w).
             if ret < 0 then
               (let (p, w) = close_accepted fd p w in Some (p, w, master_fdset - {fd}, fdmax, True))
             else Some (p, w, master_fdset, fdmax, check_fdmax)))"

definition largest_fd :: "nat set \<Rightarrow> int \<Rightarrow> int" where
  "largest_fd S fdmax = (case find (\<lambda>fd. fd \<in> S) (rev (fds_upto fdmax)) of Some fd \<Rightarrow> int fd | None \<Rightarrow> fdmax)"

definition cmsg_server_thread_receive_poll ::
  "('m, 's) poll_env \<Rightarrow> 'm polled_server \<Rightarrow> int \<Rightarrow> nat set \<Rightarrow> int \<Rightarrow> 's poll_world
   \<Rightarrow> (int \<times> 'm polled_server \<times> nat set \<times> int \<times> 's poll_world) option" where
  "cmsg_server_thread_receive_poll env p timeout_ms master_fdset fdmax w =
     (if accept_thread_info p = None then None
      else
        let nfds = fdmax;
            (ret, w) = do_select env (nfds + 1) master_fdset timeout_ms w
        in case ret of
             Select_interrupted \<Rightarrow> Some (CMSG_RET_OK, p, master_fdset, fdmax, w)
           | Select_failed \<Rightarrow>
               Some (CMSG_RET_ERR, p\<lparr>pd_server := CMSG_COUNTER_INC (pd_server p) cntr_poll_errors\<rparr>, master_fdset, fdmax, w)
           | Select_timeout \<Rightarrow> Some (CMSG_RET_OK, p, master_fdset, fdmax, w)
           | Select_ready read_fds \<Rightarrow>
               map_option (\<lambda>(p, w, master_fdset, fdmax, check_fdmax).
                   (CMSG_RET_OK, p, master_fdset, if check_fdmax then largest_fd master_fdset fdmax else fdmax, w))
                 (fold_opt (thread_poll_fd env read_fds) (fds_upto nfds) (p, w, master_fdset, fdmax, False)))"

text \<open>
  A server as the task of a thread (\<open>cmsg_server_thread_task\<close>): \<open>rounds\<close> says how many connections the
  accept thread accepts before each wait, while the task is running; then everything is closed.
\<close>

fun accept_all :: "('m, 's) poll_env \<Rightarrow> nat \<Rightarrow> 'm polled_server \<Rightarrow> 's poll_world \<Rightarrow> 'm polled_server \<times> 's poll_world" where
  "accept_all env 0 p w = (p, w)"
| "accept_all env (Suc n) p w = (let (p, w) = cmsg_server_accept_thread env p w in accept_all env n p w)"

fun task_loop ::
  "('m, 's) poll_env \<Rightarrow> int \<Rightarrow> nat list \<Rightarrow> 'm polled_server \<times> nat set \<times> int \<times> 's poll_world
   \<Rightarrow> ('m polled_server \<times> nat set \<times> int \<times> 's poll_world) option" where
  "task_loop env timeout [] s = Some s"
| "task_loop env timeout (n # rounds) (p, readfds, fd_max, w) =
     (let (p, w) = accept_all env n p w in
      Option.bind (cmsg_server_thread_receive_poll env p timeout readfds fd_max w)
        (\<lambda>(_, p, readfds, fd_max, w). task_loop env timeout rounds (p, readfds, fd_max, w)))"

definition close_all ::
  "nat set \<Rightarrow> int \<Rightarrow> nat \<Rightarrow> 'm polled_server \<Rightarrow> 's poll_world \<Rightarrow> 'm polled_server \<times> 's poll_world" where
  "close_all readfds fd_max efd p w =
     fold (\<lambda>fd (p, w). if fd = efd then (p, w)
                       else if fd \<in> readfds then close_accepted fd p w else (p, w))
       (fds_upto fd_max) (p, w)"

text \<open>What the thread does before the server itself is destroyed. \<open>late\<close> connections are accepted after the last wait.\<close>

definition cmsg_server_thread_task ::
  "('m, 's) poll_env \<Rightarrow> int \<Rightarrow> bool \<Rightarrow> int \<Rightarrow> bool \<Rightarrow> bool \<Rightarrow> nat list
   \<Rightarrow> nat \<Rightarrow> 'm polled_server \<Rightarrow> 's poll_world \<Rightarrow> ('m polled_server \<times> 's poll_world) option" where
  "cmsg_server_thread_task env timeout alloc eventfd queue thread rounds late p w =
     (let (_, p, w) = cmsg_server_accept_thread_init alloc eventfd queue thread p w in
      case accept_thread_info p of
        None \<Rightarrow> None
      | Some info \<Rightarrow>
          let efd = accept_sd_eventfd info in
          Option.bind (FD_SET efd {}) (\<lambda>readfds.
            map_option (\<lambda>(p, readfds, fd_max, w).
                let (p, w) = accept_all env late p w;
                    (p, w) = cmsg_server_accept_thread_deinit p w
                in close_all readfds fd_max efd p w)
              (task_loop env timeout rounds (p, readfds, int efd, w))))"

section \<open>Server lists\<close>

type_synonym 'm cmsg_server_list = "'m polled_server list"

definition cmsg_server_list_new :: "bool \<Rightarrow> 'm cmsg_server_list option" where
  "cmsg_server_list_new alloc = (if alloc then Some [] else None)"

text \<open>The result says whether the list was freed; one that still has servers is not.\<close>

definition cmsg_server_list_destroy :: "'m cmsg_server_list option \<Rightarrow> bool" where
  "cmsg_server_list_destroy server_list \<longleftrightarrow> server_list = Some []"

definition cmsg_server_list_is_empty :: "'m cmsg_server_list option \<Rightarrow> bool" where
  "cmsg_server_list_is_empty server_list = (case server_list of None \<Rightarrow> True | Some l \<Rightarrow> length l = 0)"

definition cmsg_server_list_add_server ::
  "bool \<Rightarrow> int \<Rightarrow> bool \<Rightarrow> bool \<Rightarrow> 'm polled_server \<Rightarrow> 'm cmsg_server_list \<Rightarrow> 's poll_world
   \<Rightarrow> 'm cmsg_server_list \<times> 's poll_world" where
  "cmsg_server_list_add_server alloc eventfd queue thread server l w =
     (let (_, server, w) = cmsg_server_accept_thread_init alloc eventfd queue thread server w in (server # l, w))"

text \<open>\<open>n\<close> is where in the list the server is.\<close>

definition cmsg_server_list_remove_server :: "nat \<Rightarrow> 'm cmsg_server_list \<Rightarrow> 'm cmsg_server_list" where
  "cmsg_server_list_remove_server n l = take n l @ drop (Suc n) l"

text \<open>Collecting the descriptors: the event descriptor and the connections of every server.\<close>

definition collect_fds :: "'m polled_server \<Rightarrow> nat set \<times> int \<Rightarrow> (nat set \<times> int) option" where
  "collect_fds server = (\<lambda>(read_fds, fdmax).
     case accept_thread_info server of
       None \<Rightarrow> None
     | Some info \<Rightarrow>
         Option.bind (FD_SET (accept_sd_eventfd info) read_fds) (\<lambda>read_fds.
           Some (read_fds \<union> Set.filter (\<lambda>fd. int fd \<le> accepted_fdmax server) (accepted_fdset server),
                 max (max fdmax (int (accept_sd_eventfd info))) (accepted_fdmax server))))"

definition list_poll_fd ::
  "('m, 's) poll_env \<Rightarrow> nat \<Rightarrow> 'm polled_server \<times> 's poll_world \<times> nat set
   \<Rightarrow> ('m polled_server \<times> 's poll_world \<times> nat set) option" where
  "list_poll_fd env fd = (\<lambda>(p, w, read_fds).
     if fd \<notin> read_fds then Some (p, w, read_fds)
     else case accept_thread_info p of
       None \<Rightarrow> None
     | Some info \<Rightarrow>
         if fd = accept_sd_eventfd info then
           map_option (\<lambda>(p, S, fdmax). (p\<lparr>accepted_fdset := S, accepted_fdmax := fdmax\<rparr>, w, read_fds))
             (take_accepted info p (accepted_fdset p) (accepted_fdmax p))
         else if fd \<in> accepted_fdset p then
           Option.bind (receive_on env fd p w) (\<lambda>(ret, p, w).
             let (p, w) =
               (if ret < 0 then
                  let (p, w) = close_accepted fd p w in
                  (p\<lparr>accepted_fdset := accepted_fdset p - {fd},
                     accepted_fdmax := (if accepted_fdmax p = int fd then accepted_fdmax p - 1 else accepted_fdmax p)\<rparr>, w)
                else (p, w))
             in Some (p, w, read_fds - {fd}))
         else Some (p, w, read_fds))"

fun list_poll_servers ::
  "('m, 's) poll_env \<Rightarrow> int \<Rightarrow> 'm cmsg_server_list \<Rightarrow> 's poll_world \<times> nat set
   \<Rightarrow> ('m cmsg_server_list \<times> 's poll_world \<times> nat set) option" where
  "list_poll_servers env fdmax [] (w, read_fds) = Some ([], w, read_fds)"
| "list_poll_servers env fdmax (p # ps) (w, read_fds) =
     Option.bind (fold_opt (list_poll_fd env) (fds_upto fdmax) (p, w, read_fds)) (\<lambda>(p, w, read_fds).
       map_option (\<lambda>(ps, w, read_fds). (p # ps, w, read_fds)) (list_poll_servers env fdmax ps (w, read_fds)))"

text \<open>An error of the wait is counted for the server that was looked at last.\<close>

definition cmsg_server_receive_poll_list ::
  "('m, 's) poll_env \<Rightarrow> 'm cmsg_server_list option \<Rightarrow> int \<Rightarrow> 's poll_world
   \<Rightarrow> (int \<times> 'm cmsg_server_list option \<times> 's poll_world) option" where
  "cmsg_server_receive_poll_list env server_list timeout_ms w =
     (case server_list of
        None \<Rightarrow> Some (0, None, w)
      | Some l \<Rightarrow>
          if length l = 0 then Some (0, Some l, w)
          else
            Option.bind (fold_opt collect_fds l ({}, 0)) (\<lambda>(read_fds, fdmax).
              let (ret, w) = do_select env (fdmax + 1) read_fds timeout_ms w in
              case ret of
                Select_interrupted \<Rightarrow> Some (CMSG_RET_OK, Some l, w)
              | Select_failed \<Rightarrow>
                  Some (CMSG_RET_ERR,
                    Some (l[length l - 1 := (l ! (length l - 1))\<lparr>pd_server := CMSG_COUNTER_INC (pd_server (l ! (length l - 1))) cntr_poll_errors\<rparr>]), w)
              | Select_timeout \<Rightarrow> Some (CMSG_RET_OK, Some l, w)
              | Select_ready read_fds \<Rightarrow>
                  map_option (\<lambda>(l, w, _). (CMSG_RET_OK, Some l, w)) (list_poll_servers env fdmax l (w, read_fds))))"

end
