(* ===== verification/ServerPollProperties.thy ===== *)
theory ServerPollProperties
  imports ServerPoll ServerQueue Demo
begin

text \<open>
  The properties of the functions that wait for work: which connections one wait receives from and
  which it closes, and the life of all connections of a server that runs in its own thread.
\<close>

section \<open>Folds and descriptor sets\<close>

lemma set_fds_upto [simp]: "set (fds_upto n) = {fd. int fd \<le> n}"
  by (auto simp: fds_upto_def)

lemma distinct_fds_upto [simp]: "distinct (fds_upto n)"
  by (simp add: fds_upto_def)

lemma fds_upto_snoc: "0 \<le> n \<Longrightarrow> fds_upto n = fds_upto (n - 1) @ [nat n]"
  unfolding fds_upto_def by (simp add: nat_add_distrib)

lemma largest_fd_bound:
  assumes "\<forall>fd \<in> S. int fd \<le> m" "0 \<le> m"
  shows "(\<forall>fd \<in> S. int fd \<le> largest_fd S m) \<and> (S \<noteq> {} \<longrightarrow> nat (largest_fd S m) \<in> S)"
proof (cases "find (\<lambda>fd. fd \<in> S) (rev (fds_upto m))")
  case None
  have "fd \<in> set (rev (fds_upto m))" if "fd \<in> S" for fd using assms(1) that by simp
  with None have "S = {}" by (auto simp: find_None_iff)
  then show ?thesis by simp
next
  case (Some k)
  then obtain i where i: "i < length (rev (fds_upto m))" "rev (fds_upto m) ! i = k" "k \<in> S"
    "\<forall>j<i. rev (fds_upto m) ! j \<notin> S"
    by (auto simp: find_Some_iff)
  have nth: "rev (fds_upto m) ! j = nat m - j" if "j < length (rev (fds_upto m))" for j
    using that by (simp add: fds_upto_def rev_nth nat_add_distrib assms(2) del: upt_Suc)
  have "fd \<le> k" if "fd \<in> S" for fd
  proof (rule ccontr)
    assume "\<not> fd \<le> k"
    moreover have "fd \<le> nat m" using assms that by force
    moreover have "k = nat m - i" using nth [OF i(1)] i(2) by simp
    ultimately have "nat m - fd < i" "rev (fds_upto m) ! (nat m - fd) = fd"
      using nth [of "nat m - fd"] i(1) by (auto simp: fds_upto_def nat_add_distrib assms(2))
    with i(4) that show False by auto
  qed
  with Some i(3) show ?thesis by (auto simp: largest_fd_def)
qed

lemma pop_accepted_eq:
  assumes "\<forall>fd \<in> set q. fd < FD_SETSIZE"
  shows "\<exists>m'. pop_accepted q (S, m) = Some (S \<union> set q, m') \<and> m \<le> m' \<and> (\<forall>fd \<in> set q. int fd \<le> m')"
  using assms
proof (induction q arbitrary: S m)
  case (Cons fd q)
  then obtain m' where "pop_accepted q (insert fd S, max (int fd) m) = Some (insert fd S \<union> set q, m')"
    "max (int fd) m \<le> m'" "\<forall>fd \<in> set q. int fd \<le> m'"
    using Cons.IH [of "insert fd S" "max (int fd) m"] by auto
  then show ?case using Cons.prems by (auto simp: FD_SET_def)
qed simp

section \<open>One wait\<close>

text \<open>
  \<open>keeps_receiving\<close>: the connections only carry what the server can take (a receive is defined, and
  leaves the server fit for the next; \<open>good\<close> says what a fit server is).
\<close>

definition keeps_receiving :: "('m, 's) poll_env \<Rightarrow> ('m cmsg_server \<Rightarrow> bool) \<Rightarrow> bool" where
  "keeps_receiving env good \<longleftrightarrow>
     (\<forall>fd p w. good (pd_server p) \<longrightarrow>
        (\<exists>ret p' w'. receive_on env fd p w = Some (ret, p', w') \<and> good (pd_server p'))) \<and>
     (\<forall>server fd. good server \<longrightarrow> good (cmsg_server_close_accepted_socket server fd)) \<and>
     (\<forall>server sock sa. good server \<longrightarrow> good (snd (cmsg_server_accept sock sa server))) \<and>
     (\<forall>server. good server \<longrightarrow> good (CMSG_COUNTER_INC server cntr_poll_errors))"

text \<open>The receives of a wait with their results; a connection whose receive failed is closed at once.\<close>

fun served :: "(nat \<times> int) list \<Rightarrow> poll_event list" where
  "served [] = []"
| "served ((fd, ret) # rs) = Poll_recv fd ret # (if ret < 0 then [Poll_close fd] else []) @ served rs"

definition failed :: "(nat \<times> int) list \<Rightarrow> nat set" where
  "failed rs = {fd. \<exists>ret < 0. (fd, ret) \<in> set rs}"

lemma served_append [simp]: "served (a @ b) = served a @ served b"
  by (induction a rule: served.induct) simp_all

lemma failed_simps [simp]:
  "failed [] = {}" "failed ((fd, ret) # rs) = (if ret < 0 then insert fd (failed rs) else failed rs)"
  by (auto simp: failed_def)

lemma receive_on_frame:
  assumes "receive_on env fd p w = Some (ret, p', w')"
  shows "p' = p\<lparr>pd_server := pd_server p'\<rparr>" "pw_trace w' = pw_trace w @ [Poll_recv fd ret]"
  using assms by (auto simp: receive_on_def poll_log_def split: prod.splits)

text \<open>What the reader takes from the queue of the accept thread when it visits \<open>xs\<close>.\<close>

definition taken :: "cmsg_server_accept_thread_info \<Rightarrow> nat set \<Rightarrow> nat set \<Rightarrow> nat set" where
  "taken info R xs = (if accept_sd_eventfd info \<in> R \<inter> xs then set (accept_sd_queue info) else {})"

definition emptied :: "cmsg_server_accept_thread_info \<Rightarrow> nat set \<Rightarrow> nat set \<Rightarrow> cmsg_server_accept_thread_info" where
  "emptied info R xs = (if accept_sd_eventfd info \<in> R \<inter> xs then info\<lparr>eventfd_count := 0, accept_sd_queue := []\<rparr> else info)"

text \<open>What the loop over \<open>xs\<close> has done.\<close>

definition loop_done ::
  "('m cmsg_server \<Rightarrow> bool) \<Rightarrow> cmsg_server_accept_thread_info \<Rightarrow> nat set \<Rightarrow> nat list \<Rightarrow> 's poll_world \<Rightarrow> nat set \<Rightarrow> int \<Rightarrow> bool
   \<Rightarrow> (nat \<times> int) list \<Rightarrow> 'm polled_server \<times> 's poll_world \<times> nat set \<times> int \<times> bool \<Rightarrow> bool" where
  "loop_done good info R xs w S m c rs = (\<lambda>(p', w', S', m', c').
     S' = S - failed rs \<union> taken info R (set xs) \<and>
     map fst rs = filter (\<lambda>fd. fd \<in> R \<and> fd \<noteq> accept_sd_eventfd info) xs \<and>
     pw_trace w' = pw_trace w @ served rs \<and> (c' \<longleftrightarrow> c \<or> failed rs \<noteq> {}) \<and> m \<le> m' \<and> (\<forall>fd \<in> S'. int fd \<le> m') \<and>
     good (pd_server p') \<and> accept_thread_info p' = Some (emptied info R (set xs)))"

lemma failed_ready: "map fst rs = filter P xs \<Longrightarrow> failed rs \<subseteq> {fd. P fd}"
  by (force simp: failed_def dest: arg_cong [where f = set])

lemma thread_poll_loop:
  assumes "keeps_receiving env good" "good (pd_server p)" "accept_thread_info p = Some info"
    and "\<forall>fd \<in> set (accept_sd_queue info). fd < FD_SETSIZE \<and> fd \<notin> R" "distinct xs" "\<forall>fd \<in> S. int fd \<le> m"
  shows "\<exists>s' rs. fold_opt (thread_poll_fd env R) xs (p, w, S, m, c) = Some s' \<and> loop_done good info R xs w S m c rs s'"
  using assms(2-)
proof (induction xs arbitrary: p w S m c info)
  case (Cons x xs)
  let ?efd = "accept_sd_eventfd info"
  consider "x \<notin> R" | "x \<in> R" "x = ?efd" | "x \<in> R" "x \<noteq> ?efd" by blast
  then show ?case
  proof cases
    case 1
    then have "thread_poll_fd env R x (p, w, S, m, c) = Some (p, w, S, m, c)" by (simp add: thread_poll_fd_def)
    with Cons.IH [OF Cons.prems(1-3) _ Cons.prems(5), of w c] Cons.prems(4) 1 show ?thesis
      by (auto simp: loop_done_def taken_def emptied_def)
  next
    case 2
    define q where "q = accept_sd_queue info"
    define info' where "info' = info\<lparr>eventfd_count := 0, accept_sd_queue := []\<rparr>"
    have i [simp]: "accept_sd_queue info' = []" "accept_sd_eventfd info' = ?efd" by (simp_all add: info'_def)
    obtain m' where m': "pop_accepted q (S, m) = Some (S \<union> set q, m')" "m \<le> m'" "\<forall>fd \<in> set q. int fd \<le> m'"
      using pop_accepted_eq [of q S m] Cons.prems(3) by (auto simp: q_def)
    have step: "thread_poll_fd env R x (p, w, S, m, c) = Some (p\<lparr>accept_thread_info := Some info'\<rparr>, w, S \<union> set q, m', c)"
      using 2 Cons.prems(2) m'(1)
      by (simp add: thread_poll_fd_def take_accepted_def eventfd_read_def q_def info'_def Let_def)
    have "\<forall>fd \<in> S \<union> set q. int fd \<le> m'" using m'(2,3) Cons.prems(5) by fastforce
    with Cons.IH [of "p\<lparr>accept_thread_info := Some info'\<rparr>" info' "S \<union> set q" m' w c] Cons.prems
    obtain s' rs where IH: "fold_opt (thread_poll_fd env R) xs (p\<lparr>accept_thread_info := Some info'\<rparr>, w, S \<union> set q, m', c) = Some s'"
      "loop_done good info' R xs w (S \<union> set q) m' c rs s'"
      by auto
    then have "failed rs \<subseteq> R" using failed_ready [of rs _ xs] by (fastforce simp: loop_done_def split: prod.splits)
    then have "S \<union> set q - failed rs = S - failed rs \<union> set q" using Cons.prems(3) by (auto simp: q_def)
    then have "loop_done good info R (x # xs) w S m c rs s'"
      using IH(2) m'(2) 2 Cons.prems(4) by (auto simp: loop_done_def taken_def emptied_def q_def info'_def)
    with IH(1) step show ?thesis by auto
  next
    case 3
    obtain ret p1 w1 where r: "receive_on env x p w = Some (ret, p1, w1)" "good (pd_server p1)"
      using assms(1) Cons.prems(1) unfolding keeps_receiving_def by blast
    note frame = receive_on_frame [OF r(1)]
    have "accept_thread_info (p\<lparr>pd_server := pd_server p1\<rparr>) = Some info" using Cons.prems(2) by simp
    then have info1: "accept_thread_info p1 = Some info" using frame(1) by simp
    define p2 where "p2 = (if ret < 0 then p1\<lparr>pd_server := cmsg_server_close_accepted_socket (pd_server p1) (int x)\<rparr> else p1)"
    define w2 where "w2 = (if ret < 0 then poll_log (Poll_close x) w1 else w1)"
    define S2 where "S2 = (if ret < 0 then S - {x} else S)"
    have step: "thread_poll_fd env R x (p, w, S, m, c) = Some (p2, w2, S2, m, c \<or> ret < 0)"
      using 3 Cons.prems(2) r(1)
      by (simp add: thread_poll_fd_def close_accepted_def p2_def w2_def S2_def)
    have "good (pd_server p2)" "accept_thread_info p2 = Some info" "\<forall>fd \<in> S2. int fd \<le> m"
      using r(2) info1 assms(1) Cons.prems(5) by (auto simp: p2_def S2_def keeps_receiving_def)
    from Cons.IH [OF this(1,2) Cons.prems(3) _ this(3), of w2 "c \<or> ret < 0"] Cons.prems(4)
    obtain s' rs where IH: "fold_opt (thread_poll_fd env R) xs (p2, w2, S2, m, c \<or> ret < 0) = Some s'"
      "loop_done good info R xs w2 S2 m (c \<or> ret < 0) rs s'"
      by auto
    have "S2 - failed rs = S - failed ((x, ret) # rs)" by (auto simp: S2_def)
    moreover have "pw_trace w2 @ served rs = pw_trace w @ served ((x, ret) # rs)"
      using frame(2) by (simp add: w2_def poll_log_def)
    moreover have "taken info R (set (x # xs)) = taken info R (set xs)" "emptied info R (set (x # xs)) = emptied info R (set xs)"
      using 3 by (auto simp: taken_def emptied_def)
    ultimately have "loop_done good info R (x # xs) w S m c ((x, ret) # rs) s'"
      using IH(2) 3 unfolding loop_done_def by (auto split: prod.splits)
    with IH(1) step show ?thesis by auto
  qed
qed (auto simp: loop_done_def taken_def emptied_def)

text \<open>\<open>select\<close> only reports descriptors it was given.\<close>

definition select_ok :: "('m, 's) poll_env \<Rightarrow> bool" where
  "select_ok env \<longleftrightarrow> (\<forall>tr S R. pe_select env tr S = Select_ready R \<longrightarrow> R \<subseteq> S)"

lemma filter_fds_upto:
  assumes "R \<subseteq> {fd. int fd \<le> m}"
  shows "filter (\<lambda>fd. fd \<in> R \<and> fd \<noteq> e) (fds_upto m) = sorted_list_of_set (R - {e})"
proof -
  have "finite (R - {e})" using assms by (rule finite_subset [OF subset_trans [OF Diff_subset]]) (simp flip: set_fds_upto)
  moreover have "sorted (filter P (fds_upto m))" for P by (simp add: fds_upto_def sorted_filter [where f = id, simplified])
  ultimately show ?thesis
    using assms by (intro sorted_distinct_set_unique) auto
qed

lemma thread_poll_ready:
  assumes "keeps_receiving env good" "good (pd_server p)" "accept_thread_info p = Some info"
    and "\<forall>fd \<in> set (accept_sd_queue info). fd < FD_SETSIZE \<and> fd \<notin> S" "\<forall>fd \<in> S. int fd \<le> m" "accept_sd_eventfd info \<in> S"
    and "pe_select env (pw_trace w @ [Poll_select (m + 1) (poll_timeval t)]) S = Select_ready R" "R \<subseteq> S"
  shows "\<exists>p' S' m' w' rs. cmsg_server_thread_receive_poll env p t S m w = Some (CMSG_RET_OK, p', S', m', w') \<and>
    S' = S - failed rs \<union> (if accept_sd_eventfd info \<in> R then set (accept_sd_queue info) else {}) \<and>
    map fst rs = sorted_list_of_set (R - {accept_sd_eventfd info}) \<and>
    pw_trace w' = pw_trace w @ Poll_select (m + 1) (poll_timeval t) # served rs \<and>
    (\<forall>fd \<in> S'. int fd \<le> m') \<and> good (pd_server p') \<and>
    accept_thread_info p' = Some (emptied info R R)"
proof -
  define w1 where "w1 = poll_log (Poll_select (m + 1) (poll_timeval t)) w"
  have sel: "do_select env (m + 1) S t w = (Select_ready R, w1)"
  proof -
    have "Set.filter (\<lambda>fd. int fd < m + 1) S = S" using assms(5) by auto
    with assms(7) show ?thesis by (simp add: do_select_def w1_def poll_log_def Let_def)
  qed
  have "\<forall>fd \<in> set (accept_sd_queue info). fd < FD_SETSIZE \<and> fd \<notin> R" using assms(4,8) by auto
  from thread_poll_loop [OF assms(1-3) this distinct_fds_upto assms(5), of m w1 False]
  obtain p' w' S' m' c' rs where
    l: "fold_opt (thread_poll_fd env R) (fds_upto m) (p, w1, S, m, False) = Some (p', w', S', m', c')"
    "loop_done good info R (fds_upto m) w1 S m False rs (p', w', S', m', c')"
    by auto
  have R: "R \<subseteq> {fd. int fd \<le> m}" using assms(5,8) by auto
  then have same: "taken info R (set (fds_upto m)) = (if accept_sd_eventfd info \<in> R then set (accept_sd_queue info) else {})"
    "emptied info R (set (fds_upto m)) = emptied info R R"
    by (auto simp: taken_def emptied_def)
  have "0 \<le> m" using assms(5,6) by force
  with l(2) have b: "\<forall>fd \<in> S'. int fd \<le> m'" "0 \<le> m'" by (auto simp: loop_done_def)
  have "\<forall>fd \<in> S'. int fd \<le> (if c' then largest_fd S' m' else m')" using b largest_fd_bound [OF b] by simp
  moreover have "cmsg_server_thread_receive_poll env p t S m w =
      Some (CMSG_RET_OK, p', S', if c' then largest_fd S' m' else m', w')"
    using assms(3) by (simp add: cmsg_server_thread_receive_poll_def sel l(1))
  moreover note l(2) [unfolded loop_done_def prod.case same filter_fds_upto [OF R]]
  ultimately show ?thesis by (auto simp: w1_def poll_log_def intro!: exI [of _ rs])
qed

section \<open>The life of the connections\<close>

text \<open>
  The descriptors that are open after some events; \<open>None\<close> if a descriptor is read or closed that is
  not open, or one is made that is.
\<close>

fun conn_ledger :: "poll_event list \<Rightarrow> nat set \<Rightarrow> nat set option" where
  "conn_ledger [] S = Some S"
| "conn_ledger (Poll_select _ _ # tr) S = conn_ledger tr S"
| "conn_ledger (Poll_eventfd fd # tr) S = (if fd \<in> S then None else conn_ledger tr (insert fd S))"
| "conn_ledger (Poll_accept fd # tr) S = (if fd \<in> S then None else conn_ledger tr (insert fd S))"
| "conn_ledger (Poll_recv fd _ # tr) S = (if fd \<in> S then conn_ledger tr S else None)"
| "conn_ledger (Poll_close fd # tr) S = (if fd \<in> S then conn_ledger tr (S - {fd}) else None)"

lemma conn_ledger_append: "conn_ledger (a @ b) S = Option.bind (conn_ledger a S) (conn_ledger b)"
  by (induction a S rule: conn_ledger.induct) simp_all

text \<open>\<open>accept\<close> returns a descriptor that is not in use, below the limit of open files (by default 1024).\<close>

definition accepts_fresh :: "('m, 's) poll_env \<Rightarrow> bool" where
  "accepts_fresh env \<longleftrightarrow> (\<forall>tr S sock sa. conn_ledger tr {} = Some S \<longrightarrow> pe_accept env tr = (sock, sa) \<longrightarrow> 0 \<le> sock \<longrightarrow>
     nat sock \<notin> S \<and> nat sock < FD_SETSIZE)"

lemma conn_ledger_served:
  "set (map fst rs) \<subseteq> S \<Longrightarrow> distinct (map fst rs) \<Longrightarrow> conn_ledger (served rs) S = Some (S - failed rs)"
proof (induction rs arbitrary: S)
  case (Cons r rs)
  obtain fd ret where r: "r = (fd, ret)" by (cases r)
  show ?case
  proof (cases "ret < 0")
    case True
    then have "conn_ledger (served rs) (S - {fd}) = Some (S - {fd} - failed rs)" using Cons r by (intro Cons.IH) auto
    then show ?thesis using Cons.prems True r by (auto simp: insert_Diff_if)
  qed (use Cons r in auto)
qed simp

text \<open>
  A task that is running: the open descriptors are the ones it waits for, its event descriptor among
  them, and the connections it has yet to take from the queue.
\<close>

definition task_ok ::
  "('m cmsg_server \<Rightarrow> bool) \<Rightarrow> nat \<Rightarrow> 'm polled_server \<times> nat set \<times> int \<times> 's poll_world \<Rightarrow> bool" where
  "task_ok good efd = (\<lambda>(p, S, m, w). \<exists>info. accept_thread_info p = Some info \<and> accept_sd_eventfd info = efd \<and> efd \<in> S \<and>
     (\<forall>fd \<in> S. int fd \<le> m) \<and> distinct (accept_sd_queue info) \<and>
     (\<forall>fd \<in> set (accept_sd_queue info). fd < FD_SETSIZE \<and> fd \<notin> S) \<and>
     conn_ledger (pw_trace w) {} = Some (S \<union> set (accept_sd_queue info)) \<and> good (pd_server p))"

lemma accept_keeps_task:
  assumes "keeps_receiving env good" "accepts_fresh env" "task_ok good efd (p, S, m, w)"
    and "cmsg_server_accept_thread env p w = (p', w')"
  shows "task_ok good efd (p', S, m, w')"
proof -
  obtain sock sa where a: "pe_accept env (pw_trace w) = (sock, sa)" by (cases "pe_accept env (pw_trace w)")
  obtain newfd server where s: "cmsg_server_accept sock sa (pd_server p) = (newfd, server)"
    by (cases "cmsg_server_accept sock sa (pd_server p)")
  have good: "good server"
    using assms(1,3) s by (simp add: keeps_receiving_def task_ok_def) (metis snd_conv)
  have fd: "newfd = sock \<or> newfd = -1" using s by (auto simp: cmsg_server_accept_def split: option.splits)
  obtain info where i: "accept_thread_info p = Some info" "accept_sd_eventfd info = efd" "efd \<in> S" "\<forall>fd \<in> S. int fd \<le> m"
    "distinct (accept_sd_queue info)" "\<forall>fd \<in> set (accept_sd_queue info). fd < FD_SETSIZE \<and> fd \<notin> S"
    "conn_ledger (pw_trace w) {} = Some (S \<union> set (accept_sd_queue info))"
    using assms(3) by (auto simp: task_ok_def)
  show ?thesis
  proof (cases "0 \<le> newfd")
    case True
    then have "nat newfd \<notin> S \<union> set (accept_sd_queue info)" "nat newfd < FD_SETSIZE"
      using assms(2) i(7) a fd unfolding accepts_fresh_def by (metis neg_0_le_iff_le not_one_le_zero)+
    moreover have "p' = p\<lparr>pd_server := server, accept_thread_info := Some (eventfd_write (accept_push (nat newfd) info))\<rparr>"
      "w' = poll_log (Poll_accept (nat newfd)) w"
      using assms(4) a s i(1) True by (simp_all add: cmsg_server_accept_thread_def)
    ultimately show ?thesis
      using i good by (simp add: task_ok_def eventfd_write_def accept_push_def poll_log_def conn_ledger_append)
  next
    case False
    then have "p' = p\<lparr>pd_server := server\<rparr>" "w' = w" using assms(4) a s by (simp_all add: cmsg_server_accept_thread_def)
    then show ?thesis using i good by (simp add: task_ok_def)
  qed
qed

lemma accept_all_keeps_task:
  assumes "keeps_receiving env good" "accepts_fresh env" "task_ok good efd (p, S, m, w)" "accept_all env n p w = (p', w')"
  shows "task_ok good efd (p', S, m, w')"
  using assms(3,4)
  by (induction n arbitrary: p w) (auto split: prod.splits dest: accept_keeps_task [OF assms(1,2)])

lemma poll_keeps_task:
  assumes "keeps_receiving env good" "select_ok env" "task_ok good efd (p, S, m, w)"
  shows "\<exists>ret p' S' m' w'. cmsg_server_thread_receive_poll env p t S m w = Some (ret, p', S', m', w') \<and>
    task_ok good efd (p', S', m', w')"
proof -
  obtain info where i: "accept_thread_info p = Some info" "accept_sd_eventfd info = efd" "efd \<in> S" "\<forall>fd \<in> S. int fd \<le> m"
    "distinct (accept_sd_queue info)" "\<forall>fd \<in> set (accept_sd_queue info). fd < FD_SETSIZE \<and> fd \<notin> S"
    "conn_ledger (pw_trace w) {} = Some (S \<union> set (accept_sd_queue info))" "good (pd_server p)"
    using assms(3) by (auto simp: task_ok_def)
  have filter: "Set.filter (\<lambda>fd. int fd < m + 1) S = S" using i(4) by auto
  note inc = assms(1) [unfolded keeps_receiving_def, THEN conjunct2, THEN conjunct2, THEN conjunct2]
  show ?thesis
  proof (cases "pe_select env (pw_trace w @ [Poll_select (m + 1) (poll_timeval t)]) S")
    case (Select_ready R)
    then have R: "R \<subseteq> S" using assms(2) by (auto simp: select_ok_def)
    obtain p' S' m' w' rs where r: "cmsg_server_thread_receive_poll env p t S m w = Some (CMSG_RET_OK, p', S', m', w')"
      "S' = S - failed rs \<union> (if efd \<in> R then set (accept_sd_queue info) else {})"
      "map fst rs = sorted_list_of_set (R - {efd})" "pw_trace w' = pw_trace w @ Poll_select (m + 1) (poll_timeval t) # served rs"
      "\<forall>fd \<in> S'. int fd \<le> m'" "good (pd_server p')" "accept_thread_info p' = Some (emptied info R R)"
      using thread_poll_ready [OF assms(1) i(8,1,6,4) _ Select_ready R] i(2,3) by auto
    have "finite S" using i(4) by (intro finite_subset [OF _ finite_atMost [of "nat m"]]) force
    then have "finite (R - {efd})" using R finite_subset by blast
    then have rs: "set (map fst rs) = R - {efd}" "distinct (map fst rs)" unfolding r(3) by simp_all
    then have "failed rs \<subseteq> R - {efd}" by (force simp: failed_def)
    moreover have "conn_ledger (pw_trace w') {} = Some (S \<union> set (accept_sd_queue info) - failed rs)"
    proof -
      have "set (map fst rs) \<subseteq> S \<union> set (accept_sd_queue info)" unfolding rs(1) using R by blast
      from conn_ledger_served [OF this rs(2)] show ?thesis using i(7) by (simp add: r(4) conn_ledger_append)
    qed
    ultimately have "task_ok good efd (p', S', m', w')"
      using i(2,3,5,6) r(2,5-7) R unfolding task_ok_def by (auto simp: emptied_def)
    with r(1) show ?thesis by blast
  next
    case Select_failed
    then have "cmsg_server_thread_receive_poll env p t S m w =
        Some (CMSG_RET_ERR, p\<lparr>pd_server := CMSG_COUNTER_INC (pd_server p) cntr_poll_errors\<rparr>, S, m, poll_log (Poll_select (m + 1) (poll_timeval t)) w)"
      using i(1) filter by (simp add: cmsg_server_thread_receive_poll_def do_select_def poll_log_def)
    moreover have "good (CMSG_COUNTER_INC (pd_server p) cntr_poll_errors)" using inc i(8) by blast
    ultimately show ?thesis using i by (simp add: task_ok_def poll_log_def conn_ledger_append)
  next
    case Select_interrupted
    then have "cmsg_server_thread_receive_poll env p t S m w = Some (CMSG_RET_OK, p, S, m, poll_log (Poll_select (m + 1) (poll_timeval t)) w)"
      using i(1) filter by (simp add: cmsg_server_thread_receive_poll_def do_select_def poll_log_def)
    then show ?thesis using i by (simp add: task_ok_def poll_log_def conn_ledger_append)
  next
    case Select_timeout
    then have "cmsg_server_thread_receive_poll env p t S m w = Some (CMSG_RET_OK, p, S, m, poll_log (Poll_select (m + 1) (poll_timeval t)) w)"
      using i(1) filter by (simp add: cmsg_server_thread_receive_poll_def do_select_def poll_log_def)
    then show ?thesis using i by (simp add: task_ok_def poll_log_def conn_ledger_append)
  qed
qed

lemma task_loop_keeps:
  assumes "keeps_receiving env good" "select_ok env" "accepts_fresh env" "task_ok good efd (p, S, m, w)"
  shows "\<exists>s'. task_loop env t rounds (p, S, m, w) = Some s' \<and> task_ok good efd s'"
  using assms(4)
proof (induction rounds arbitrary: p S m w)
  case (Cons n rounds)
  obtain p1 w1 where a: "accept_all env n p w = (p1, w1)" by (cases "accept_all env n p w")
  obtain ret p2 S2 m2 w2 where "cmsg_server_thread_receive_poll env p1 t S m w1 = Some (ret, p2, S2, m2, w2)"
    "task_ok good efd (p2, S2, m2, w2)"
    using poll_keeps_task [OF assms(1,2) accept_all_keeps_task [OF assms(1,3) Cons.prems a]] by blast
  with Cons.IH [OF this(2)] a show ?case by simp
qed simp

lemma clear_queue_trace: "pw_trace (clear_accept_sd_queue q w) = pw_trace w @ map Poll_close q"
  by (induction q arbitrary: w) (simp_all add: clear_accept_sd_queue_def poll_log_def)

lemma conn_ledger_closes:
  "distinct q \<Longrightarrow> set q \<subseteq> S \<Longrightarrow> conn_ledger (map Poll_close q) S = Some (S - set q)"
proof (induction q arbitrary: S)
  case (Cons fd q)
  then have "conn_ledger (map Poll_close q) (S - {fd}) = Some (S - {fd} - set q)" by (intro Cons.IH) auto
  then show ?case using Cons.prems by (simp add: Diff_insert2 [of S fd "set q"])
qed simp

lemma close_all_fold:
  assumes "\<forall>server fd. good server \<longrightarrow> good (cmsg_server_close_accepted_socket server fd)" "good (pd_server p)"
    and "f = (\<lambda>fd (p, w). if fd = efd then (p, w) else if fd \<in> S then close_accepted fd p w else (p, w))"
  shows "pw_trace (snd (fold f xs (p, w))) = pw_trace w @ map Poll_close (filter (\<lambda>fd. fd \<in> S \<and> fd \<noteq> efd) xs) \<and>
    good (pd_server (fst (fold f xs (p, w))))"
  using assms(2)
proof (induction xs arbitrary: p w)
  case (Cons x xs)
  obtain p1 w1 where f: "f x (p, w) = (p1, w1)" by (cases "f x (p, w)")
  have "good (pd_server p1)" "pw_trace w1 = pw_trace w @ (if x \<in> S \<and> x \<noteq> efd then [Poll_close x] else [])"
    using f Cons.prems assms(1) by (auto simp: assms(3) close_accepted_def poll_log_def split: if_splits)
  with Cons.IH [OF this(1), of w1] show ?case by (simp add: f)
qed simp

lemma close_all_trace:
  assumes "\<forall>server fd. good server \<longrightarrow> good (cmsg_server_close_accepted_socket server fd)" "good (pd_server p)"
    and "close_all S m efd p w = (p', w')"
  shows "pw_trace w' = pw_trace w @ map Poll_close (filter (\<lambda>fd. fd \<in> S \<and> fd \<noteq> efd) (fds_upto m))"
  using close_all_fold [OF assms(1,2) refl, of efd S "fds_upto m" w] assms(3) by (simp add: close_all_def)


text \<open>
  The witness: every connection is closed by its peer. Two arrive before the first wait, one after the last; the wait
  reports everything it is given.
\<close>

definition demo_poll_env :: "(bool, unit) poll_env" where
  "demo_poll_env = \<lparr>pe_server = demo_env, pe_recv = \<lambda>_ s _ _. (Recv_ok [], s), pe_derive = \<lambda>sa _. (0, sa),
     pe_calloc = \<lambda>_. (True, True), pe_peek_timeout = 10, pe_clocks = \<lambda>_. [0],
     pe_accept = \<lambda>tr. (case conn_ledger tr {} of
         None \<Rightarrow> (-1, None)
       | Some S \<Rightarrow> (if 3 + length tr \<notin> S \<and> length tr < 1000 then (int (3 + length tr), None) else (-1, None))),
     pe_select = \<lambda>_ S. Select_ready S\<rparr>"

definition demo_polled :: "bool polled_server" where
  "demo_polled = \<lparr>pd_server = demo_server, accept_thread_info = None, accepted_fdset = {}, accepted_fdmax = 0\<rparr>"

definition demo_world :: "unit poll_world" where
  "demo_world = \<lparr>pw_conns = (), pw_trace = []\<rparr>"

lemma demo_poll_receiving: "keeps_receiving demo_poll_env (\<lambda>_. True)"
proof -
  have "cmsg_transport_peek_for_header (pe_recv demo_poll_env fd) 10 n [0] () = Some (CMSG_PEEK_CODE_CONNECTION_CLOSED, [], ())" if "n \<noteq> 0" for fd n
    using that by (simp add: cmsg_transport_peek_for_header_def demo_poll_env_def unat_eq_0 flip: length_0_conv)
  then have "\<exists>r. receive_on demo_poll_env fd p w = Some r" for fd p w
    by (auto simp: receive_on_def demo_poll_env_def cmsg_server_receive_def cmsg_server_receive_encrypted_def
        cmsg_server_receive_packet_def cmsg_transport_server_recv_def server_receive_result_def Let_def split: option.split)
  then show ?thesis by (simp add: keeps_receiving_def)
qed

lemma demo_poll_fresh: "select_ok demo_poll_env" "accepts_fresh demo_poll_env"
  by (auto simp: select_ok_def accepts_fresh_def demo_poll_env_def FD_SETSIZE_def nat_add_distrib split: option.splits if_splits)


section \<open>One wait for a list of servers\<close>

text \<open>The descriptors a server of a list has: its event descriptor, and its connections, taken or queued.\<close>

definition descriptors :: "'m polled_server \<Rightarrow> nat set" where
  "descriptors p = (case accept_thread_info p of None \<Rightarrow> {}
     | Some info \<Rightarrow> insert (accept_sd_eventfd info) (accepted_fdset p \<union> set (accept_sd_queue info)))"

definition listed_ok :: "('m cmsg_server \<Rightarrow> bool) \<Rightarrow> 'm polled_server \<Rightarrow> bool" where
  "listed_ok good p \<longleftrightarrow> good (pd_server p) \<and> (\<forall>fd \<in> accepted_fdset p. int fd \<le> accepted_fdmax p) \<and>
     (\<exists>info. accept_thread_info p = Some info \<and> accept_sd_eventfd info < FD_SETSIZE \<and> accept_sd_eventfd info \<notin> accepted_fdset p \<and>
        (\<forall>fd \<in> set (accept_sd_queue info). fd < FD_SETSIZE \<and> fd \<notin> accepted_fdset p \<and> fd \<noteq> accept_sd_eventfd info))"

text \<open>
  What a wait that reported \<open>R\<close> does for a server: \<open>rs\<close> are its receives. It receives once from each of its
  connections that is ready, in ascending order, drops the ones that failed and takes the ones that
  are new if its event descriptor was reported.
\<close>

definition list_served :: "nat set \<Rightarrow> 'm polled_server \<Rightarrow> (nat \<times> int) list \<Rightarrow> 'm polled_server \<Rightarrow> bool" where
  "list_served R p rs p' \<longleftrightarrow> map fst rs = sorted_list_of_set (R \<inter> accepted_fdset p) \<and>
     (\<exists>info. accept_thread_info p = Some info \<and> accept_thread_info p' = Some (emptied info R R) \<and>
        accepted_fdset p' = accepted_fdset p - failed rs \<union> taken info R R)"

definition list_loop_done ::
  "('m cmsg_server \<Rightarrow> bool) \<Rightarrow> cmsg_server_accept_thread_info \<Rightarrow> nat list \<Rightarrow> 'm polled_server \<Rightarrow> 's poll_world \<Rightarrow> nat set
   \<Rightarrow> (nat \<times> int) list \<Rightarrow> 'm polled_server \<times> 's poll_world \<times> nat set \<Rightarrow> bool" where
  "list_loop_done good info xs p w R rs = (\<lambda>(p', w', R').
     accepted_fdset p' = accepted_fdset p - failed rs \<union> taken info R (set xs) \<and>
     map fst rs = filter (\<lambda>fd. fd \<in> R \<and> fd \<in> accepted_fdset p) xs \<and> R' = R - set (map fst rs) \<and>
     pw_trace w' = pw_trace w @ served rs \<and> (\<forall>fd \<in> accepted_fdset p'. int fd \<le> accepted_fdmax p') \<and>
     good (pd_server p') \<and> accept_thread_info p' = Some (emptied info R (set xs)))"

lemma list_poll_loop:
  assumes "keeps_receiving env good" "good (pd_server p)" "accept_thread_info p = Some info"
    and "\<forall>fd \<in> set (accept_sd_queue info). fd < FD_SETSIZE \<and> fd \<notin> R" "distinct xs"
    and "\<forall>fd \<in> accepted_fdset p. int fd \<le> accepted_fdmax p" "accept_sd_eventfd info \<notin> accepted_fdset p"
  shows "\<exists>s' rs. fold_opt (list_poll_fd env) xs (p, w, R) = Some s' \<and> list_loop_done good info xs p w R rs s'"
  using assms(2-)
proof (induction xs arbitrary: p w R info)
  case (Cons x xs)
  let ?efd = "accept_sd_eventfd info"
  consider "x \<notin> R \<or> x \<noteq> ?efd \<and> x \<notin> accepted_fdset p" | "x \<in> R" "x = ?efd" | "x \<in> R" "x \<noteq> ?efd" "x \<in> accepted_fdset p" by blast
  then show ?case
  proof cases
    case 1
    then have "list_poll_fd env x (p, w, R) = Some (p, w, R)" using Cons.prems(2) by (auto simp: list_poll_fd_def)
    with Cons.IH [OF Cons.prems(1-3) _ Cons.prems(5,6), of w] Cons.prems(4) 1 show ?thesis
      by (auto simp: list_loop_done_def taken_def emptied_def)
  next
    case 2
    define q where "q = accept_sd_queue info"
    define info' where "info' = info\<lparr>eventfd_count := 0, accept_sd_queue := []\<rparr>"
    have i [simp]: "accept_sd_queue info' = []" "accept_sd_eventfd info' = ?efd" by (simp_all add: info'_def)
    obtain m' where m': "pop_accepted q (accepted_fdset p, accepted_fdmax p) = Some (accepted_fdset p \<union> set q, m')"
      "accepted_fdmax p \<le> m'" "\<forall>fd \<in> set q. int fd \<le> m'"
      using pop_accepted_eq [of q "accepted_fdset p" "accepted_fdmax p"] Cons.prems(3) by (auto simp: q_def)
    define p1 where "p1 = p\<lparr>accept_thread_info := Some info', accepted_fdset := accepted_fdset p \<union> set q, accepted_fdmax := m'\<rparr>"
    have step: "list_poll_fd env x (p, w, R) = Some (p1, w, R)"
      using 2 Cons.prems(2) m'(1)
      by (simp add: list_poll_fd_def take_accepted_def eventfd_read_def q_def info'_def p1_def Let_def)
    have "x \<notin> set q" using 2 Cons.prems(3) by (auto simp: q_def)
    moreover have "\<forall>fd \<in> accepted_fdset p \<union> set q. int fd \<le> m'" using m'(2,3) Cons.prems(5) by fastforce
    ultimately obtain s' rs where IH: "fold_opt (list_poll_fd env) xs (p1, w, R) = Some s'" "list_loop_done good info' xs p1 w R rs s'"
      using Cons.IH [of p1 info' R w] Cons.prems 2 by (auto simp: p1_def)
    have "filter (\<lambda>fd. fd \<in> R \<and> fd \<in> accepted_fdset p \<union> set q) xs = filter (\<lambda>fd. fd \<in> R \<and> fd \<in> accepted_fdset p) xs"
      using Cons.prems(3) by (intro filter_cong) (auto simp: q_def)
    moreover from this IH(2) have "failed rs \<subseteq> R" using failed_ready [of rs _ xs]
      by (fastforce simp: list_loop_done_def p1_def split: prod.splits)
    then have "accepted_fdset p \<union> set q - failed rs = accepted_fdset p - failed rs \<union> set q" using Cons.prems(3) by (auto simp: q_def)
    ultimately have "list_loop_done good info (x # xs) p w R rs s'"
      using IH(2) 2 Cons.prems(4,6) by (auto simp: list_loop_done_def taken_def emptied_def q_def info'_def p1_def)
    with IH(1) step show ?thesis by auto
  next
    case 3
    obtain ret p1 w1 where r: "receive_on env x p w = Some (ret, p1, w1)" "good (pd_server p1)"
      using assms(1) Cons.prems(1) unfolding keeps_receiving_def by blast
    note frame = receive_on_frame [OF r(1)]
    define server where "server = (if ret < 0 then cmsg_server_close_accepted_socket (pd_server p1) (int x) else pd_server p1)"
    define m where "m = (if ret < 0 \<and> accepted_fdmax p = int x then accepted_fdmax p - 1 else accepted_fdmax p)"
    define S2 where "S2 = (if ret < 0 then accepted_fdset p - {x} else accepted_fdset p)"
    define p2 where "p2 = p\<lparr>pd_server := server, accepted_fdset := S2, accepted_fdmax := m\<rparr>"
    define w2 where "w2 = (if ret < 0 then poll_log (Poll_close x) w1 else w1)"
    have step: "list_poll_fd env x (p, w, R) = Some (p2, w2, R - {x})"
      using 3 Cons.prems(2) r(1) frame(1)
      by (cases p, cases p1) (auto simp: list_poll_fd_def close_accepted_def p2_def w2_def S2_def m_def server_def Let_def)
    have "\<forall>fd \<in> S2. int fd \<le> m"
    proof
      fix fd assume "fd \<in> S2"
      then have "fd \<in> accepted_fdset p" "ret < 0 \<longrightarrow> fd \<noteq> x" by (auto simp: S2_def split: if_splits)
      with Cons.prems(5) show "int fd \<le> m" by (fastforce simp: m_def)
    qed
    moreover have "good server" using r(2) assms(1) by (simp add: server_def keeps_receiving_def)
    moreover have "?efd \<notin> S2" using Cons.prems(6) by (simp add: S2_def)
    ultimately obtain s' rs where IH: "fold_opt (list_poll_fd env) xs (p2, w2, R - {x}) = Some s'"
      "list_loop_done good info xs p2 w2 (R - {x}) rs s'"
      using Cons.IH [of p2 info "R - {x}" w2] Cons.prems by (auto simp: p2_def)
    have "S2 - failed rs = accepted_fdset p - failed ((x, ret) # rs)" by (auto simp: S2_def)
    moreover have "pw_trace w2 @ served rs = pw_trace w @ served ((x, ret) # rs)"
      using frame(2) by (simp add: w2_def poll_log_def)
    moreover have "taken info R (set (x # xs)) = taken info (R - {x}) (set xs)" "emptied info R (set (x # xs)) = emptied info (R - {x}) (set xs)"
      using 3 by (auto simp: taken_def emptied_def)
    moreover have "filter (\<lambda>fd. fd \<in> R - {x} \<and> fd \<in> S2) xs = filter (\<lambda>fd. fd \<in> R \<and> fd \<in> accepted_fdset p) xs"
      using Cons.prems(4) by (intro filter_cong) (auto simp: S2_def)
    ultimately have "list_loop_done good info (x # xs) p w R ((x, ret) # rs) s'"
      using IH(2) 3 unfolding list_loop_done_def by (auto simp: p2_def split: prod.splits)
    with IH(1) step show ?thesis by auto
  qed
qed (auto simp: list_loop_done_def taken_def emptied_def)

lemma collect_fds_eq:
  assumes "\<forall>p \<in> set l. listed_ok good p"
  shows "\<exists>S' m'. fold_opt collect_fds l (S, m) = Some (S', m') \<and> m \<le> m' \<and>
    S' = S \<union> (\<Union>p \<in> set l. accepted_fdset p \<union> (case accept_thread_info p of None \<Rightarrow> {} | Some info \<Rightarrow> {accept_sd_eventfd info})) \<and>
    (\<forall>p \<in> set l. accepted_fdmax p \<le> m') \<and> (\<forall>fd \<in> S' - S. int fd \<le> m')"
  using assms
proof (induction l arbitrary: S m)
  case (Cons p l)
  then obtain info where i: "accept_thread_info p = Some info" "accept_sd_eventfd info < FD_SETSIZE"
    "\<forall>fd \<in> accepted_fdset p. int fd \<le> accepted_fdmax p" by (auto simp: listed_ok_def)
  define m1 where "m1 = max (max m (int (accept_sd_eventfd info))) (accepted_fdmax p)"
  have "Set.filter (\<lambda>fd. int fd \<le> accepted_fdmax p) (accepted_fdset p) = accepted_fdset p" using i(3) by auto
  then have "collect_fds p (S, m) = Some (insert (accept_sd_eventfd info) S \<union> accepted_fdset p, m1)"
    using i(1,2) by (simp add: collect_fds_def FD_SET_def m1_def)
  moreover obtain S' m' where IH: "fold_opt collect_fds l (insert (accept_sd_eventfd info) S \<union> accepted_fdset p, m1) = Some (S', m')" "m1 \<le> m'"
    "S' = insert (accept_sd_eventfd info) S \<union> accepted_fdset p \<union>
      (\<Union>p \<in> set l. accepted_fdset p \<union> (case accept_thread_info p of None \<Rightarrow> {} | Some info \<Rightarrow> {accept_sd_eventfd info}))"
    "\<forall>p \<in> set l. accepted_fdmax p \<le> m'" "\<forall>fd \<in> S' - (insert (accept_sd_eventfd info) S \<union> accepted_fdset p). int fd \<le> m'"
    using Cons.IH [of "insert (accept_sd_eventfd info) S \<union> accepted_fdset p" m1] Cons.prems by auto
  moreover have "\<forall>fd \<in> S' - S. int fd \<le> m'"
  proof
    fix fd assume fd: "fd \<in> S' - S"
    show "int fd \<le> m'"
    proof (cases "fd \<in> insert (accept_sd_eventfd info) (accepted_fdset p)")
      case True
      then have "int fd \<le> m1" using i(3) by (fastforce simp: m1_def)
      with IH(2) show ?thesis by simp
    qed (use fd IH(5) in blast)
  qed
  ultimately show ?case using i(1) by (auto simp: m1_def)
qed simp

lemma list_poll_servers_eq:
  assumes "keeps_receiving env good" "\<forall>p \<in> set l. listed_ok good p"
    and "\<forall>p \<in> set l. \<forall>info. accept_thread_info p = Some info \<longrightarrow> R \<inter> set (accept_sd_queue info) = {}"
    and "R \<subseteq> {fd. int fd \<le> m}" "distinct (map descriptors l)" "\<forall>p \<in> set l. \<forall>q \<in> set l. p \<noteq> q \<longrightarrow> descriptors p \<inter> descriptors q = {}"
    and "\<forall>p \<in> set l. R' \<inter> descriptors p = R \<inter> descriptors p" "R' \<subseteq> R"
  shows "\<exists>l' w' R'' rss. list_poll_servers env m l (w, R') = Some (l', w', R'') \<and> length rss = length l \<and> length l' = length l \<and>
    (\<forall>i < length l. list_served R (l ! i) (rss ! i) (l' ! i) \<and>
       good (pd_server (l' ! i)) \<and> (\<forall>fd \<in> accepted_fdset (l' ! i). int fd \<le> accepted_fdmax (l' ! i))) \<and>
    pw_trace w' = pw_trace w @ concat (map served rss)"
  using assms(2-)
proof (induction l arbitrary: w R')
  case (Cons p l)
  obtain info where i: "accept_thread_info p = Some info" "good (pd_server p)" "accept_sd_eventfd info \<notin> accepted_fdset p"
    "\<forall>fd \<in> accepted_fdset p. int fd \<le> accepted_fdmax p" "\<forall>fd \<in> set (accept_sd_queue info). fd < FD_SETSIZE"
    using Cons.prems(1) by (auto simp: listed_ok_def)
  have "R \<inter> set (accept_sd_queue info) = {}" using Cons.prems(2) i(1) by simp
  then have q: "\<forall>fd \<in> set (accept_sd_queue info). fd < FD_SETSIZE \<and> fd \<notin> R'" using i(5) Cons.prems(7) by blast
  obtain p' w1 R1 rs where l: "fold_opt (list_poll_fd env) (fds_upto m) (p, w, R') = Some (p', w1, R1)"
    "list_loop_done good info (fds_upto m) p w R' rs (p', w1, R1)"
    using list_poll_loop [OF assms(1) i(2,1) q distinct_fds_upto i(4,3), of m w] by auto
  have own: "fd \<in> R' \<longleftrightarrow> fd \<in> R" if "fd \<in> descriptors p" for fd using Cons.prems(6) that by auto
  have f: "filter (\<lambda>fd. fd \<in> R' \<and> fd \<in> accepted_fdset p) (fds_upto m) = sorted_list_of_set (R \<inter> accepted_fdset p)"
  proof -
    have "filter (\<lambda>fd. fd \<in> R' \<and> fd \<in> accepted_fdset p) (fds_upto m) =
        filter (\<lambda>fd. fd \<in> R \<inter> accepted_fdset p \<and> fd \<noteq> accept_sd_eventfd info) (fds_upto m)"
      using own i(1,3) by (intro filter_cong) (auto simp: descriptors_def)
    also have "\<dots> = sorted_list_of_set (R \<inter> accepted_fdset p - {accept_sd_eventfd info})"
      using Cons.prems(3) by (intro filter_fds_upto) auto
    finally show ?thesis using i(3) by simp
  qed
  have "accept_sd_eventfd info \<in> R' \<inter> set (fds_upto m) \<longleftrightarrow> accept_sd_eventfd info \<in> R"
    using own i(1) Cons.prems(3) by (auto simp: descriptors_def)
  then have same: "taken info R' (set (fds_upto m)) = taken info R R" "emptied info R' (set (fds_upto m)) = emptied info R R"
    by (simp_all add: taken_def emptied_def)
  have "set (map fst rs) = set (filter (\<lambda>fd. fd \<in> R' \<and> fd \<in> accepted_fdset p) (fds_upto m))"
    using l(2) by (simp add: list_loop_done_def flip: set_map)
  then have own_rs: "set (map fst rs) \<subseteq> accepted_fdset p" by auto
  note l2 = l(2) [unfolded list_loop_done_def prod.case f same]
  have d: "list_served R p rs p'" "good (pd_server p')" "\<forall>fd \<in> accepted_fdset p'. int fd \<le> accepted_fdmax p'"
    "pw_trace w1 = pw_trace w @ served rs" "R1 = R' - set (map fst rs)"
    using l2 i(1) by (simp_all add: list_served_def del: set_map list.set_map)
  have "R1 \<inter> descriptors q = R \<inter> descriptors q" if "q \<in> set l" for q
  proof -
    have "descriptors p \<noteq> descriptors q" using Cons.prems(4) that by auto
    then have "descriptors p \<inter> descriptors q = {}" using Cons.prems(5) that by (metis list.set_intros(1,2))
    moreover have "set (map fst rs) \<subseteq> descriptors p" using own_rs i(1) by (auto simp: descriptors_def)
    ultimately show ?thesis using Cons.prems(6) that d(5) by auto
  qed
  moreover have "R1 \<subseteq> R" using d(5) Cons.prems(7) by blast
  ultimately obtain l' w' R'' rss where IH: "list_poll_servers env m l (w1, R1) = Some (l', w', R'')" "length rss = length l" "length l' = length l"
    "\<forall>i < length l. list_served R (l ! i) (rss ! i) (l' ! i) \<and> good (pd_server (l' ! i)) \<and>
       (\<forall>fd \<in> accepted_fdset (l' ! i). int fd \<le> accepted_fdmax (l' ! i))"
    "pw_trace w' = pw_trace w1 @ concat (map served rss)"
    using Cons.IH [of R1 w1] Cons.prems(1-5) by auto
  have "\<forall>i < length (p # l). list_served R ((p # l) ! i) ((rs # rss) ! i) ((p' # l') ! i) \<and>
      good (pd_server ((p' # l') ! i)) \<and> (\<forall>fd \<in> accepted_fdset ((p' # l') ! i). int fd \<le> accepted_fdmax ((p' # l') ! i))"
    using IH(4) d(1-3) by (auto simp: less_Suc_eq_0_disj)
  moreover have "list_poll_servers env m (p # l) (w, R') = Some (p' # l', w', R'')" using l(1) IH(1) by simp
  ultimately show ?case using IH(2,3,5) d(4) by (intro exI [of _ "p' # l'"] exI [of _ w'] exI [of _ R''] exI [of _ "rs # rss"]) auto
qed simp

text \<open>
  C26: What one wait for a list of servers does. When the descriptors of the servers are their own and \<open>select\<close> reports \<open>R\<close>,
  every server receives exactly once from each of its own connections in \<open>R\<close>, in ascending order; it drops and closes
  the ones whose receive failed, and takes the ones its accept thread has queued if its event descriptor is
  in \<open>R\<close>, and no other descriptor is touched. The largest descriptor that a server has noted stays an upper bound of its connections,
  so that the next wait watches all of them.
\<close>

theorem list_poll_exact:
  assumes "keeps_receiving env good" "\<forall>p \<in> set l. listed_ok good p" "l \<noteq> []" "distinct (map descriptors l)"
    and "\<forall>p \<in> set l. \<forall>q \<in> set l. p \<noteq> q \<longrightarrow> descriptors p \<inter> descriptors q = {}" "select_ok env"
  shows "\<exists>S m. (\<Union>p \<in> set l. accepted_fdset p) \<subseteq> S \<and> (\<forall>p \<in> set l. accepted_fdmax p \<le> m) \<and>
    (\<forall>R. pe_select env (pw_trace w @ [Poll_select (m + 1) (poll_timeval t)]) S = Select_ready R \<longrightarrow>
      (\<exists>l' w' rss. cmsg_server_receive_poll_list env (Some l) t w = Some (CMSG_RET_OK, Some l', w') \<and>
        length rss = length l \<and> length l' = length l \<and>
        (\<forall>i < length l. list_served R (l ! i) (rss ! i) (l' ! i) \<and>
           (\<forall>fd \<in> accepted_fdset (l' ! i). int fd \<le> accepted_fdmax (l' ! i))) \<and>
        pw_trace w' = pw_trace w @ Poll_select (m + 1) (poll_timeval t) # concat (map served rss)))"
proof -
  obtain S m where S: "fold_opt collect_fds l ({}, 0) = Some (S, m)" "\<forall>fd \<in> S. int fd \<le> m"
    "S = (\<Union>p \<in> set l. accepted_fdset p \<union> (case accept_thread_info p of None \<Rightarrow> {} | Some info \<Rightarrow> {accept_sd_eventfd info}))"
    "\<forall>p \<in> set l. accepted_fdmax p \<le> m"
    using collect_fds_eq [OF assms(2), of "{}" 0] by auto
  define w1 where "w1 = poll_log (Poll_select (m + 1) (poll_timeval t)) w"
  have "\<exists>l' w' rss. cmsg_server_receive_poll_list env (Some l) t w = Some (CMSG_RET_OK, Some l', w') \<and>
        length rss = length l \<and> length l' = length l \<and>
        (\<forall>i < length l. list_served R (l ! i) (rss ! i) (l' ! i) \<and>
           (\<forall>fd \<in> accepted_fdset (l' ! i). int fd \<le> accepted_fdmax (l' ! i))) \<and>
        pw_trace w' = pw_trace w @ Poll_select (m + 1) (poll_timeval t) # concat (map served rss)"
    if sel: "pe_select env (pw_trace w @ [Poll_select (m + 1) (poll_timeval t)]) S = Select_ready R" for R
  proof -
    have R: "R \<subseteq> S" using assms(6) sel by (auto simp: select_ok_def)
    have "Set.filter (\<lambda>fd. int fd < m + 1) S = S" using S(2) by auto
    then have "do_select env (m + 1) S t w = (Select_ready R, w1)"
      using sel by (simp add: do_select_def w1_def poll_log_def Let_def)
    moreover have "R \<inter> set (accept_sd_queue info) = {}" if "p \<in> set l" "accept_thread_info p = Some info" for p info
    proof (rule ccontr)
      assume "R \<inter> set (accept_sd_queue info) \<noteq> {}"
      then obtain fd where fd: "fd \<in> S" "fd \<in> set (accept_sd_queue info)" using R by auto
      obtain p' where p': "p' \<in> set l"
        "fd \<in> accepted_fdset p' \<union> (case accept_thread_info p' of None \<Rightarrow> {} | Some info \<Rightarrow> {accept_sd_eventfd info})"
        using fd(1) unfolding S(3) by auto
      show False
      proof (cases "p' = p")
        case True
        then show ?thesis using p'(2) assms(2) that fd(2) by (fastforce simp: listed_ok_def)
      next
        case False
        have "fd \<in> descriptors p" using that(2) fd(2) by (simp add: descriptors_def)
        moreover have "fd \<in> descriptors p'" using p' assms(2) by (fastforce simp: descriptors_def listed_ok_def)
        ultimately show ?thesis using assms(5) that(1) p'(1) False by blast
      qed
    qed
    moreover have "R \<subseteq> {fd. int fd \<le> m}" using R S(2) by auto
    ultimately obtain l' w' R'' rss where "list_poll_servers env m l (w1, R) = Some (l', w', R'')" "length rss = length l" "length l' = length l"
      "\<forall>i < length l. list_served R (l ! i) (rss ! i) (l' ! i) \<and> good (pd_server (l' ! i)) \<and>
         (\<forall>fd \<in> accepted_fdset (l' ! i). int fd \<le> accepted_fdmax (l' ! i))"
      "pw_trace w' = pw_trace w1 @ concat (map served rss)"
      using list_poll_servers_eq [OF assms(1,2) _ _ assms(4,5), of R m R w1] by auto
    with \<open>do_select env (m + 1) S t w = (Select_ready R, w1)\<close> show ?thesis
      using assms(3) S(1) by (intro exI [of _ l'] exI [of _ w'] exI [of _ rss])
        (simp add: cmsg_server_receive_poll_list_def w1_def poll_log_def)
  qed
  moreover have "(\<Union>p \<in> set l. accepted_fdset p) \<subseteq> S" unfolding S(3) by auto
  ultimately show ?thesis using S(4) by blast
qed

definition demo_listed :: "nat \<Rightarrow> nat \<Rightarrow> nat list \<Rightarrow> bool polled_server" where
  "demo_listed efd fd q = \<lparr>pd_server = demo_server,
     accept_thread_info = Some \<lparr>accept_sd_eventfd = efd, eventfd_count = length q, accept_sd_queue = q\<rparr>,
     accepted_fdset = {fd}, accepted_fdmax = int fd\<rparr>"

theorem list_poll_exact_witness:
  "\<exists>S l' w' rss. 5 \<in> S \<and> 6 \<in> S \<and>
     cmsg_server_receive_poll_list demo_poll_env (Some [demo_listed 3 5 [], demo_listed 4 6 [7]]) 0 demo_world =
       Some (CMSG_RET_OK, Some l', w') \<and>
     list_served S (demo_listed 3 5 []) (rss ! 0) (l' ! 0) \<and> list_served S (demo_listed 4 6 [7]) (rss ! 1) (l' ! 1)"
proof -
  let ?l = "[demo_listed 3 5 [], demo_listed 4 6 [7]]"
  have d: "descriptors (demo_listed 3 5 []) = {3, 5}" "descriptors (demo_listed 4 6 [7]) = {4, 6, 7}"
    by (auto simp: descriptors_def demo_listed_def)
  have ok: "\<forall>p \<in> set ?l. listed_ok (\<lambda>_. True) p" by (simp add: listed_ok_def demo_listed_def FD_SETSIZE_def)
  have "{3, 5} \<noteq> {4, 6, 7 :: nat}" by auto
  then have dist: "distinct (map descriptors ?l)" by (simp add: d)
  have disj: "\<forall>p \<in> set ?l. \<forall>q \<in> set ?l. p \<noteq> q \<longrightarrow> descriptors p \<inter> descriptors q = {}" by (simp add: d)
  have "?l \<noteq> []" by simp
  from list_poll_exact [OF demo_poll_receiving ok this dist disj demo_poll_fresh(1), of demo_world 0]
  show ?thesis
  proof (elim exE conjE, goal_cases)
    case (1 S m)
    have "pe_select demo_poll_env (pw_trace demo_world @ [Poll_select (m + 1) (poll_timeval 0)]) S = Select_ready S"
      by (simp add: demo_poll_env_def)
    with 1(3) obtain l' w' rss where r: "cmsg_server_receive_poll_list demo_poll_env (Some ?l) 0 demo_world = Some (CMSG_RET_OK, Some l', w')"
      "\<forall>i < length ?l. list_served S (?l ! i) (rss ! i) (l' ! i)" by blast
    from r(2) have "list_served S (?l ! 0) (rss ! 0) (l' ! 0)" "list_served S (?l ! 1) (rss ! 1) (l' ! 1)"
      by (force dest: spec [where x = 0] spec [where x = 1])+
    moreover have "5 \<in> S" "6 \<in> S" using 1(1) by (auto simp: demo_listed_def)
    ultimately show ?case using r(1) by (intro exI [of _ S] exI [of _ l'] exI [of _ w'] exI [of _ rss]) simp
  qed
qed

end
