(* ===== verification/PthreadServer.thy ===== *)
theory PthreadServer
  imports ServerPollProperties
begin

text \<open>
  Servers in threads of their own (\<open>cmsg/src/cmsg_pthread_helpers.c\<close>): one thread for a whole server,
  and the multi-threaded server, where a thread takes the accepted connections and starts one more
  thread for each of them.

  The threads of the multi-threaded server are a step relation. A step is what a thread does between two points where
  another can interfere: a wait, a change of the shared record under its lock, one connection.
  A receive is one step of its thread.
\<close>

section \<open>One thread for a server\<close>

definition pthread_server_cancelled ::
  "nat set \<Rightarrow> int \<Rightarrow> 'm polled_server \<Rightarrow> 's poll_world \<Rightarrow> ('m polled_server \<times> 's poll_world) option" where
  "pthread_server_cancelled readfds fd_max p w =
     (case accept_thread_info p of
        None \<Rightarrow> None
      | Some info \<Rightarrow>
          let efd = accept_sd_eventfd info;
              (p, w) = cmsg_server_accept_thread_deinit p w
          in Some (close_all readfds fd_max efd p w))"

text \<open>The thread polls until it is cancelled, which happens in a wait; \<open>rounds\<close> and \<open>late\<close> are as for the task.\<close>

definition pthread_server_run ::
  "('m, 's) poll_env \<Rightarrow> bool \<Rightarrow> int \<Rightarrow> bool \<Rightarrow> bool \<Rightarrow> nat list \<Rightarrow> nat
   \<Rightarrow> 'm polled_server \<Rightarrow> 's poll_world \<Rightarrow> ('m polled_server \<times> 's poll_world) option" where
  "pthread_server_run env alloc eventfd queue thread rounds late p w =
     (let (_, p, w) = cmsg_server_accept_thread_init alloc eventfd queue thread p w in
      case accept_thread_info p of
        None \<Rightarrow> None
      | Some info \<Rightarrow>
          Option.bind (FD_SET (accept_sd_eventfd info) {}) (\<lambda>readfds.
            Option.bind (task_loop env (-1) rounds (p, readfds, int (accept_sd_eventfd info), w)) (\<lambda>(p, readfds, fd_max, w).
              let (p, w) = accept_all env late p w in pthread_server_cancelled readfds fd_max p w)))"

section \<open>The multi-threaded server\<close>

text \<open>
  The threads by where they are. \<open>Accept_pop\<close>: taking connections from the queue, with whether the shutdown was
  reported as well; \<open>Accept_created\<close>: a receive thread was started and is not counted yet;
  \<open>Accept_leave\<close>, \<open>Recv_leave\<close>: the loop was left.
\<close>

datatype accept_pc = Accept_wait | Accept_pop bool | Accept_created bool | Accept_leave | Accept_done
datatype recv_pc = Recv_wait | Recv_leave | Recv_done
datatype destroy_pc = Destroy_none | Destroy_check | Destroy_sleep | Destroy_freed

record ('m, 's) mt_state =
  mt_server :: "'m polled_server"
  mt_world :: "'s poll_world"
  mt_timeout :: u32
  num_threads :: int
  exiting :: bool
  shutdown_eventfd :: nat
  wakeup_signalled :: bool
  mt_accept :: accept_pc
  mt_recv :: "(nat \<times> recv_pc) list"
  mt_destroy :: destroy_pc

text \<open>The result of a \<open>select\<close> on a descriptor and the shutdown descriptor. After an error both are still in the set.\<close>

datatype mt_select = Mt_error | Mt_timeout | Mt_ready bool bool

definition fds_set :: "mt_select \<Rightarrow> bool \<times> bool" where
  "fds_set r = (case r of Mt_error \<Rightarrow> (True, True) | Mt_timeout \<Rightarrow> (False, False) | Mt_ready a b \<Rightarrow> (a, b))"

text \<open>A signal wakes the destroyer only if it sleeps.\<close>

definition cmsg_pthread_multithreaded_thread_exit :: "('m, 's) mt_state \<Rightarrow> ('m, 's) mt_state" where
  "cmsg_pthread_multithreaded_thread_exit s =
     (let s = s\<lparr>num_threads := num_threads s - 1\<rparr> in
      if exiting s \<and> num_threads s = 0 \<and> mt_destroy s = Destroy_sleep then s\<lparr>wakeup_signalled := True\<rparr> else s)"

definition mt_close :: "nat \<Rightarrow> ('m, 's) mt_state \<Rightarrow> ('m, 's) mt_state" where
  "mt_close fd s = (let (p, w) = close_accepted fd (mt_server s) (mt_world s) in s\<lparr>mt_server := p, mt_world := w\<rparr>)"

definition set_recv :: "nat \<Rightarrow> recv_pc \<Rightarrow> ('m, 's) mt_state \<Rightarrow> ('m, 's) mt_state" where
  "set_recv i pc s = s\<lparr>mt_recv := (mt_recv s)[i := (fst (mt_recv s ! i), pc)]\<rparr>"

text \<open>One turn of the receive thread number \<open>i\<close>. Without a time-out the wait does not end by itself.\<close>

definition cmsg_pthread_multithreaded_receive_thread ::
  "('m, 's) poll_env \<Rightarrow> nat \<Rightarrow> mt_select \<Rightarrow> ('m, 's) mt_state \<Rightarrow> ('m, 's) mt_state option" where
  "cmsg_pthread_multithreaded_receive_thread env i sel s =
     (case mt_recv s ! i of
        (socket, Recv_wait) \<Rightarrow>
          (if sel = Mt_timeout then
             (if mt_timeout s = 0 then None else Some (set_recv i Recv_leave (mt_close socket s)))
           else
             let (readable, shutdown) = fds_set sel in
             if readable then
               Option.bind (receive_on env socket (mt_server s) (mt_world s)) (\<lambda>(ret, p, w).
                 let s = s\<lparr>mt_server := p, mt_world := w\<rparr> in
                 if ret < 0 \<or> shutdown then Some (set_recv i Recv_leave (mt_close socket s)) else Some s)
             else if shutdown then Some (set_recv i Recv_leave (mt_close socket s))
             else Some s)
      | (socket, Recv_leave) \<Rightarrow> Some (set_recv i Recv_done (cmsg_pthread_multithreaded_thread_exit s))
      | (socket, Recv_done) \<Rightarrow> None)"

text \<open>
  One step of the accept thread: \<open>alloc\<close> and \<open>create\<close> say whether there is memory for a receive thread and whether
  it could be started.
\<close>

definition cmsg_pthread_multithreaded_accept_thread ::
  "mt_select \<Rightarrow> bool \<Rightarrow> bool \<Rightarrow> ('m, 's) mt_state \<Rightarrow> ('m, 's) mt_state option" where
  "cmsg_pthread_multithreaded_accept_thread sel alloc create s =
     (case mt_accept s of
        Accept_wait \<Rightarrow>
          (let (accepted, shutdown) = fds_set sel in
           if accepted then
             map_option (\<lambda>info. s\<lparr>mt_server := (mt_server s)\<lparr>accept_thread_info := Some (eventfd_read info)\<rparr>, mt_accept := Accept_pop shutdown\<rparr>)
               (accept_thread_info (mt_server s))
           else if shutdown then Some (s\<lparr>mt_accept := Accept_leave\<rparr>)
           else Some s)
      | Accept_pop shutdown \<Rightarrow>
          Option.bind (accept_thread_info (mt_server s)) (\<lambda>info.
            case accept_sd_queue info of
              [] \<Rightarrow> Some (s\<lparr>mt_accept := (if shutdown then Accept_leave else Accept_wait)\<rparr>)
            | newfd # q \<Rightarrow>
                let s = s\<lparr>mt_server := (mt_server s)\<lparr>accept_thread_info := Some (info\<lparr>accept_sd_queue := q\<rparr>)\<rparr>\<rparr> in
                if \<not> alloc then Some (mt_close newfd s)
                else if create then Some (s\<lparr>mt_recv := mt_recv s @ [(newfd, Recv_wait)], mt_accept := Accept_created shutdown\<rparr>)
                else Some (mt_close newfd s))
      | Accept_created shutdown \<Rightarrow> Some (s\<lparr>num_threads := num_threads s + 1, mt_accept := Accept_pop shutdown\<rparr>)
      | Accept_leave \<Rightarrow> Some ((cmsg_pthread_multithreaded_thread_exit s)\<lparr>mt_accept := Accept_done\<rparr>)
      | Accept_done \<Rightarrow> None)"

text \<open>The steps of the caller of the destroy function. After the last one the record is freed and the server is destroyed.\<close>

definition cmsg_pthread_multithreaded_server_destroy :: "('m, 's) mt_state \<Rightarrow> ('m, 's) mt_state option" where
  "cmsg_pthread_multithreaded_server_destroy s =
     (case mt_destroy s of
        Destroy_none \<Rightarrow> Some (s\<lparr>exiting := True, mt_destroy := Destroy_check\<rparr>)
      | Destroy_check \<Rightarrow> Some (s\<lparr>mt_destroy := (if num_threads s \<noteq> 0 then Destroy_sleep else Destroy_freed)\<rparr>)
      | Destroy_sleep \<Rightarrow> (if wakeup_signalled s then Some (s\<lparr>wakeup_signalled := False, mt_destroy := Destroy_check\<rparr>) else None)
      | Destroy_freed \<Rightarrow> None)"

text \<open>
  Starting. The arguments say what could be made: the record, the shutdown descriptor, the condition variable, the lock,
  what the accept thread of the server needs, and the thread.
\<close>

definition cmsg_pthread_multithreaded_server_init ::
  "bool \<Rightarrow> int \<Rightarrow> bool \<Rightarrow> bool \<Rightarrow> bool \<times> int \<times> bool \<times> bool \<Rightarrow> bool \<Rightarrow> 'm polled_server \<Rightarrow> u32 \<Rightarrow> 's poll_world
   \<Rightarrow> ('m, 's) mt_state option \<times> 'm polled_server \<times> 's poll_world" where
  "cmsg_pthread_multithreaded_server_init alloc shutdown cond lock accept thread p timeout w =
     (if \<not> alloc then (None, p, w)
      else if shutdown < 0 then (None, p, w)
      else
        let w = poll_log (Poll_eventfd (nat shutdown)) w in
        if \<not> cond then (None, p, poll_log (Poll_close (nat shutdown)) w)
        else if \<not> lock then (None, p, poll_log (Poll_close (nat shutdown)) w)
        else
          let (alloc, eventfd, queue, athread) = accept;
              (_, p, w) = cmsg_server_accept_thread_init alloc eventfd queue athread p w
          in if \<not> thread then (None, p, poll_log (Poll_close (nat shutdown)) w)
             else (Some \<lparr>mt_server = p, mt_world = w, mt_timeout = timeout, num_threads = 1, exiting = False,
                    shutdown_eventfd = nat shutdown, wakeup_signalled = False, mt_accept = Accept_wait, mt_recv = [],
                    mt_destroy = Destroy_none\<rparr>, p, w))"

text \<open>Once the record is freed nothing may run any more.\<close>

inductive mt_step :: "('m, 's) poll_env \<Rightarrow> ('m, 's) mt_state \<Rightarrow> ('m, 's) mt_state \<Rightarrow> bool" for env where
  Arrive: "mt_destroy s \<noteq> Destroy_freed \<Longrightarrow> cmsg_server_accept_thread env (mt_server s) (mt_world s) = (p, w) \<Longrightarrow>
    mt_step env s (s\<lparr>mt_server := p, mt_world := w\<rparr>)"
| Accept: "mt_destroy s \<noteq> Destroy_freed \<Longrightarrow> cmsg_pthread_multithreaded_accept_thread sel alloc create s = Some s' \<Longrightarrow> mt_step env s s'"
| Recv: "mt_destroy s \<noteq> Destroy_freed \<Longrightarrow> i < length (mt_recv s) \<Longrightarrow>
    cmsg_pthread_multithreaded_receive_thread env i sel s = Some s' \<Longrightarrow> mt_step env s s'"
| Destroy: "cmsg_pthread_multithreaded_server_destroy s = Some s' \<Longrightarrow> mt_step env s s'"

inductive mt_reachable :: "('m, 's) poll_env \<Rightarrow> ('m, 's) mt_state \<Rightarrow> ('m, 's) mt_state \<Rightarrow> bool" for env s0 where
  Start: "mt_reachable env s0 s0"
| Step: "mt_reachable env s0 s \<Longrightarrow> mt_step env s s' \<Longrightarrow> mt_reachable env s0 s'"

end
