(* ===== verification/PthreadProperties.thy ===== *)
theory PthreadProperties
  imports PthreadServer
begin

text \<open>
  The properties of servers in threads: the count of the multi-threaded server and what it means for the
  caller that destroys it, and its connections.
\<close>

section \<open>One thread for a server\<close>

text \<open>A server with a thread of its own is the task that never times out.\<close>

lemma pthread_server_is_task:
  assumes "keeps_receiving env good" "select_ok env" "accepts_fresh env"
    and "good (pd_server p)" "accept_thread_info p = None" "pw_trace w = []" "0 \<le> eventfd" "nat eventfd < FD_SETSIZE"
  shows "pthread_server_run env True eventfd True True rounds late p w =
    cmsg_server_thread_task env (-1) True eventfd True True rounds late p w"
proof -
  define info where "info = \<lparr>accept_sd_eventfd = nat eventfd, eventfd_count = 0, accept_sd_queue = []\<rparr>"
  define p1 where "p1 = p\<lparr>accept_thread_info := Some info\<rparr>"
  define w1 where "w1 = poll_log (Poll_eventfd (nat eventfd)) w"
  have init: "cmsg_server_accept_thread_init True eventfd True True p w = (CMSG_RET_OK, p1, w1)"
    using assms(5,7) by (simp add: cmsg_server_accept_thread_init_def p1_def w1_def info_def)
  have "task_ok good (nat eventfd) (p1, {nat eventfd}, int (nat eventfd), w1)"
    using assms(4,6) by (simp add: task_ok_def p1_def info_def w1_def poll_log_def)
  then obtain p2 S m w2 where l: "task_loop env (-1) rounds (p1, {nat eventfd}, int (nat eventfd), w1) = Some (p2, S, m, w2)"
    "task_ok good (nat eventfd) (p2, S, m, w2)"
    using task_loop_keeps [OF assms(1-3)] by (metis prod_cases4)
  obtain p3 w3 where a: "accept_all env late p2 w2 = (p3, w3)" by (cases "accept_all env late p2 w2")
  have "\<exists>info3. accept_thread_info p3 = Some info3 \<and> accept_sd_eventfd info3 = nat eventfd"
    using accept_all_keeps_task [OF assms(1,3) l(2) a] by (auto simp: task_ok_def)
  moreover have "accept_thread_info p1 = Some info" "accept_sd_eventfd info = nat eventfd" by (simp_all add: p1_def info_def)
  ultimately show ?thesis
    using l(1) assms(8) a
    by (auto simp: pthread_server_run_def cmsg_server_thread_task_def init FD_SET_def pthread_server_cancelled_def Let_def
        simp del: of_nat_nat int_nat_eq split: prod.split)
qed

section \<open>The count of the threads\<close>

definition live :: "(nat \<times> recv_pc) list \<Rightarrow> nat" where
  "live rs = length (filter (\<lambda>(_, pc). pc \<noteq> Recv_done) rs)"

text \<open>The threads that have not left: the accept thread and the receive threads, except for one that is not counted yet.\<close>

definition threads_counted :: "('m, 's) mt_state \<Rightarrow> bool" where
  "threads_counted s \<longleftrightarrow> num_threads s = (case mt_accept s of
      Accept_done \<Rightarrow> 0 | Accept_created _ \<Rightarrow> 0 | _ \<Rightarrow> 1) + int (live (mt_recv s))"

definition destroyer_ok :: "('m, 's) mt_state \<Rightarrow> bool" where
  "destroyer_ok s \<longleftrightarrow> (exiting s \<longleftrightarrow> mt_destroy s \<noteq> Destroy_none) \<and>
     (mt_destroy s = Destroy_sleep \<longrightarrow> num_threads s \<noteq> 0 \<or> wakeup_signalled s) \<and>
     (mt_destroy s = Destroy_freed \<longrightarrow> num_threads s = 0)"

lemma live_set:
  assumes "i < length rs" "rs ! i = (fd, pc)"
  shows "int (live (rs[i := (fd, pc')])) =
    int (live rs) - (if pc = Recv_done then 0 else 1) + (if pc' = Recv_done then 0 else 1)"
proof -
  have rs: "rs = take i rs @ (fd, pc) # drop (Suc i) rs" using assms by (metis id_take_nth_drop)
  have "rs[i := (fd, pc')] = take i rs @ (fd, pc') # drop (Suc i) rs" using assms(1) by (simp add: upd_conv_take_nth_drop)
  moreover have "live rs = live (take i rs) + (if pc = Recv_done then 0 else 1) + live (drop (Suc i) rs)"
    using arg_cong [OF rs, of live] by (simp add: live_def)
  ultimately show ?thesis by (simp add: live_def)
qed

lemma mt_close_simps [simp]:
  "num_threads (mt_close fd s) = num_threads s" "exiting (mt_close fd s) = exiting s"
  "wakeup_signalled (mt_close fd s) = wakeup_signalled s" "mt_accept (mt_close fd s) = mt_accept s"
  "mt_recv (mt_close fd s) = mt_recv s" "mt_destroy (mt_close fd s) = mt_destroy s"
  "mt_timeout (mt_close fd s) = mt_timeout s" "shutdown_eventfd (mt_close fd s) = shutdown_eventfd s"
  by (simp_all add: mt_close_def close_accepted_def)

lemma thread_exit_simps [simp]:
  "mt_accept (cmsg_pthread_multithreaded_thread_exit s) = mt_accept s"
  "mt_recv (cmsg_pthread_multithreaded_thread_exit s) = mt_recv s"
  "mt_destroy (cmsg_pthread_multithreaded_thread_exit s) = mt_destroy s"
  "mt_server (cmsg_pthread_multithreaded_thread_exit s) = mt_server s"
  "mt_world (cmsg_pthread_multithreaded_thread_exit s) = mt_world s"
  "shutdown_eventfd (cmsg_pthread_multithreaded_thread_exit s) = shutdown_eventfd s"
  "num_threads (cmsg_pthread_multithreaded_thread_exit s) = num_threads s - 1"
  by (simp_all add: cmsg_pthread_multithreaded_thread_exit_def Let_def)

lemma thread_exit_destroyer:
  assumes "destroyer_ok s" "mt_destroy s \<noteq> Destroy_freed"
  shows "destroyer_ok (cmsg_pthread_multithreaded_thread_exit s)"
  using assms by (auto simp: destroyer_ok_def cmsg_pthread_multithreaded_thread_exit_def Let_def)

lemma destroyer_ok_cong:
  assumes "exiting s' = exiting s" "mt_destroy s' = mt_destroy s" "num_threads s' = num_threads s"
    and "wakeup_signalled s' = wakeup_signalled s"
  shows "destroyer_ok s' = destroyer_ok s"
  using assms by (simp add: destroyer_ok_def)

text \<open>What the accept thread does with the next connection of the queue.\<close>

lemma accept_pop_cases:
  assumes "mt_accept s = Accept_pop b" "cmsg_pthread_multithreaded_accept_thread sel alloc create s = Some s'"
    and "accept_thread_info (mt_server s) = Some info"
  obtains (empty) "accept_sd_queue info = []" "s' = s\<lparr>mt_accept := (if b then Accept_leave else Accept_wait)\<rparr>"
  | (closed) fd q where "accept_sd_queue info = fd # q"
      "s' = mt_close fd (s\<lparr>mt_server := (mt_server s)\<lparr>accept_thread_info := Some (info\<lparr>accept_sd_queue := q\<rparr>)\<rparr>\<rparr>)"
  | (created) fd q where "accept_sd_queue info = fd # q"
      "s' = s\<lparr>mt_server := (mt_server s)\<lparr>accept_thread_info := Some (info\<lparr>accept_sd_queue := q\<rparr>)\<rparr>,
              mt_recv := mt_recv s @ [(fd, Recv_wait)], mt_accept := Accept_created b\<rparr>"
proof (cases "accept_sd_queue info")
  case Nil
  then show ?thesis using assms empty by (simp add: cmsg_pthread_multithreaded_accept_thread_def)
next
  case (Cons fd q)
  then show ?thesis
    using assms closed created
    by (simp add: cmsg_pthread_multithreaded_accept_thread_def Let_def split: if_splits)
qed

lemma accept_thread_counts:
  assumes "threads_counted s" "destroyer_ok s" "mt_destroy s \<noteq> Destroy_freed"
    and "cmsg_pthread_multithreaded_accept_thread sel alloc create s = Some s'"
  shows "threads_counted s' \<and> destroyer_ok s'"
proof (cases "mt_accept s")
  case Accept_wait
  then show ?thesis using assms(1,2,4)
    by (auto simp: cmsg_pthread_multithreaded_accept_thread_def threads_counted_def destroyer_ok_def split: prod.splits if_splits)
next
  case (Accept_pop b)
  then obtain info where info: "accept_thread_info (mt_server s) = Some info"
    using assms(4) by (auto simp: cmsg_pthread_multithreaded_accept_thread_def bind_eq_Some_conv)
  from Accept_pop assms(4) info show ?thesis
    by (cases rule: accept_pop_cases) (use assms(1,2) Accept_pop in \<open>simp_all add: threads_counted_def destroyer_ok_def live_def\<close>)
next
  case (Accept_created b)
  then show ?thesis using assms
    by (auto simp: cmsg_pthread_multithreaded_accept_thread_def threads_counted_def destroyer_ok_def)
next
  case Accept_leave
  then have s': "s' = (cmsg_pthread_multithreaded_thread_exit s)\<lparr>mt_accept := Accept_done\<rparr>"
    using assms(4) by (simp add: cmsg_pthread_multithreaded_accept_thread_def)
  note e = thread_exit_destroyer [OF assms(2,3)]
  have "destroyer_ok s' = destroyer_ok (cmsg_pthread_multithreaded_thread_exit s)" unfolding s' by (rule destroyer_ok_cong) simp_all
  then show ?thesis using e assms(1) Accept_leave by (simp add: threads_counted_def s')
qed (use assms in \<open>simp add: cmsg_pthread_multithreaded_accept_thread_def\<close>)

text \<open>A turn of a receive thread: nothing or a receive, and then the thread goes on, or closes its connection and leaves.\<close>

lemma recv_wait_cases:
  assumes "mt_recv s ! i = (fd, Recv_wait)" "cmsg_pthread_multithreaded_receive_thread env i sel s = Some s'"
  obtains p w where "p = mt_server s \<and> w = mt_world s \<or> (\<exists>ret. receive_on env fd (mt_server s) (mt_world s) = Some (ret, p, w))"
    "s' = s\<lparr>mt_server := p, mt_world := w\<rparr> \<or> s' = set_recv i Recv_leave (mt_close fd (s\<lparr>mt_server := p, mt_world := w\<rparr>))"
proof (cases "sel \<noteq> Mt_timeout \<and> fst (fds_set sel)")
  case True
  then obtain ret p w where "receive_on env fd (mt_server s) (mt_world s) = Some (ret, p, w)"
    "s' = s\<lparr>mt_server := p, mt_world := w\<rparr> \<or> s' = set_recv i Recv_leave (mt_close fd (s\<lparr>mt_server := p, mt_world := w\<rparr>))"
    using assms
    by (auto simp: cmsg_pthread_multithreaded_receive_thread_def Let_def bind_eq_Some_conv split: if_splits prod.splits)
  with that show ?thesis by blast
next
  case False
  have "s\<lparr>mt_server := mt_server s, mt_world := mt_world s\<rparr> = s" by simp
  with False that [of "mt_server s" "mt_world s"] assms show ?thesis
    by (auto simp: cmsg_pthread_multithreaded_receive_thread_def Let_def split: if_splits prod.splits)
qed

lemma receive_thread_counts:
  assumes "threads_counted s" "destroyer_ok s" "mt_destroy s \<noteq> Destroy_freed" "i < length (mt_recv s)"
    and "cmsg_pthread_multithreaded_receive_thread env i sel s = Some s'"
  shows "threads_counted s' \<and> destroyer_ok s'"
proof -
  obtain fd pc where t: "mt_recv s ! i = (fd, pc)" by (cases "mt_recv s ! i")
  show ?thesis
  proof (cases pc)
    case Recv_wait
    have l: "live ((mt_recv s)[i := (fd, Recv_leave)]) = live (mt_recv s)" using live_set [OF assms(4) t, of Recv_leave] Recv_wait by simp
    have "mt_recv s ! i = (fd, Recv_wait)" using t Recv_wait by simp
    from this assms(5) show ?thesis
    proof (cases rule: recv_wait_cases)
      case (1 p w)
      from 1(2) show ?thesis
        using assms(1,2) t l by (auto simp: threads_counted_def destroyer_ok_def set_recv_def)
    qed
  next
    case Recv_leave
    then have s': "s' = set_recv i Recv_done (cmsg_pthread_multithreaded_thread_exit s)"
      using assms(5) t by (simp add: cmsg_pthread_multithreaded_receive_thread_def)
    note e = thread_exit_destroyer [OF assms(2,3)]
    have "destroyer_ok s' = destroyer_ok (cmsg_pthread_multithreaded_thread_exit s)"
      unfolding s' by (rule destroyer_ok_cong) (simp_all add: set_recv_def)
    then show ?thesis using e assms(1) live_set [OF assms(4) t, of Recv_done] Recv_leave t
      by (simp add: threads_counted_def s' set_recv_def)
  qed (use assms t in \<open>simp add: cmsg_pthread_multithreaded_receive_thread_def\<close>)
qed

lemma destroy_counts:
  assumes "threads_counted s" "destroyer_ok s" "cmsg_pthread_multithreaded_server_destroy s = Some s'"
  shows "threads_counted s' \<and> destroyer_ok s'"
  using assms
  by (cases "mt_destroy s") (auto simp: cmsg_pthread_multithreaded_server_destroy_def threads_counted_def destroyer_ok_def split: if_splits)

lemma mt_step_counts:
  assumes "mt_step env s s'" "threads_counted s \<and> destroyer_ok s"
  shows "threads_counted s' \<and> destroyer_ok s'"
  using assms(1)
proof cases
  case (Arrive p w)
  then show ?thesis using assms(2) by (simp add: threads_counted_def destroyer_ok_def)
next
  case (Accept sel alloc create)
  then show ?thesis using accept_thread_counts assms(2) by blast
next
  case (Recv i sel)
  then show ?thesis using receive_thread_counts assms(2) by blast
next
  case Destroy
  then show ?thesis using destroy_counts assms(2) by blast
qed

section \<open>The connections\<close>

definition waiting_fds :: "(nat \<times> recv_pc) list \<Rightarrow> nat list" where
  "waiting_fds rs = map fst (filter (\<lambda>(_, pc). pc = Recv_wait) rs)"

text \<open>What is open: the two event descriptors, the connections in the queue and the ones of the receive threads.\<close>

definition mt_fds :: "cmsg_server_accept_thread_info \<Rightarrow> ('m, 's) mt_state \<Rightarrow> nat list" where
  "mt_fds info s = accept_sd_eventfd info # shutdown_eventfd s # accept_sd_queue info @ waiting_fds (mt_recv s)"

definition mt_conns_ok :: "('m cmsg_server \<Rightarrow> bool) \<Rightarrow> ('m, 's) mt_state \<Rightarrow> bool" where
  "mt_conns_ok good s \<longleftrightarrow> good (pd_server (mt_server s)) \<and>
     (\<exists>info. accept_thread_info (mt_server s) = Some info \<and> distinct (mt_fds info s) \<and>
        conn_ledger (pw_trace (mt_world s)) {} = Some (set (mt_fds info s)))"

lemma waiting_fds_set:
  assumes "i < length rs" "rs ! i = (fd, pc)" "pc' \<noteq> Recv_wait"
  shows "\<exists>a b. waiting_fds rs = a @ (if pc = Recv_wait then [fd] else []) @ b \<and> waiting_fds (rs[i := (fd, pc')]) = a @ b"
proof -
  have rs: "rs = take i rs @ (fd, pc) # drop (Suc i) rs" using assms by (metis id_take_nth_drop)
  have "rs[i := (fd, pc')] = take i rs @ (fd, pc') # drop (Suc i) rs" using assms(1) by (simp add: upd_conv_take_nth_drop)
  moreover have "waiting_fds rs = waiting_fds (take i rs) @ (if pc = Recv_wait then [fd] else []) @ waiting_fds (drop (Suc i) rs)"
    using arg_cong [OF rs, of waiting_fds] by (simp add: waiting_fds_def)
  ultimately show ?thesis using assms(3) by (auto simp: waiting_fds_def)
qed

lemma mt_close_conns:
  assumes "keeps_receiving env good" "good (pd_server (mt_server s))"
  shows "good (pd_server (mt_server (mt_close fd s)))" "accept_thread_info (mt_server (mt_close fd s)) = accept_thread_info (mt_server s)"
    "pw_trace (mt_world (mt_close fd s)) = pw_trace (mt_world s) @ [Poll_close fd]"
  using assms by (simp_all add: mt_close_def close_accepted_def poll_log_def keeps_receiving_def)

lemma mt_conns_intro:
  assumes "good (pd_server (mt_server s'))" "accept_thread_info (mt_server s') = Some info" "distinct (mt_fds info s')"
    and "conn_ledger (pw_trace (mt_world s')) {} = Some (set (mt_fds info s'))"
  shows "mt_conns_ok good s'"
  using assms by (auto simp: mt_conns_ok_def)

lemma arrive_conns:
  assumes "keeps_receiving env good" "accepts_fresh env" "mt_conns_ok good s"
    and "cmsg_server_accept_thread env (mt_server s) (mt_world s) = (p, w)"
  shows "mt_conns_ok good (s\<lparr>mt_server := p, mt_world := w\<rparr>)"
proof -
  obtain info where i: "good (pd_server (mt_server s))" "accept_thread_info (mt_server s) = Some info" "distinct (mt_fds info s)"
    "conn_ledger (pw_trace (mt_world s)) {} = Some (set (mt_fds info s))"
    using assms(3) by (auto simp: mt_conns_ok_def)
  obtain sock sa where a: "pe_accept env (pw_trace (mt_world s)) = (sock, sa)" by (cases "pe_accept env (pw_trace (mt_world s))")
  obtain newfd server where s: "cmsg_server_accept sock sa (pd_server (mt_server s)) = (newfd, server)"
    by (cases "cmsg_server_accept sock sa (pd_server (mt_server s))")
  have good: "good server" using assms(1) i(1) s by (simp add: keeps_receiving_def) (metis snd_conv)
  have fd: "newfd = sock \<or> newfd = -1" using s by (auto simp: cmsg_server_accept_def split: option.splits)
  show ?thesis
  proof (cases "0 \<le> newfd")
    case True
    then have fresh: "nat newfd \<notin> set (mt_fds info s)"
      using assms(2) i(4) a fd unfolding accepts_fresh_def by (metis neg_0_le_iff_le not_one_le_zero)
    have "p = (mt_server s)\<lparr>pd_server := server, accept_thread_info := Some (eventfd_write (accept_push (nat newfd) info))\<rparr>"
      "w = poll_log (Poll_accept (nat newfd)) (mt_world s)"
      using assms(4) a s i(2) True by (simp_all add: cmsg_server_accept_thread_def)
    then show ?thesis
      using fresh good i by (intro mt_conns_intro [where info = "eventfd_write (accept_push (nat newfd) info)"])
        (auto simp: mt_fds_def eventfd_write_def accept_push_def poll_log_def conn_ledger_append)
  next
    case False
    then have "p = (mt_server s)\<lparr>pd_server := server\<rparr>" "w = mt_world s" using assms(4) a s by (simp_all add: cmsg_server_accept_thread_def)
    then show ?thesis using i good by (intro mt_conns_intro [where info = info]) (simp_all add: mt_fds_def)
  qed
qed

lemma accept_thread_conns:
  assumes "keeps_receiving env good" "mt_conns_ok good s"
    and "cmsg_pthread_multithreaded_accept_thread sel alloc create s = Some s'"
  shows "mt_conns_ok good s'"
proof -
  obtain info where i: "good (pd_server (mt_server s))" "accept_thread_info (mt_server s) = Some info" "distinct (mt_fds info s)"
    "conn_ledger (pw_trace (mt_world s)) {} = Some (set (mt_fds info s))"
    using assms(2) by (auto simp: mt_conns_ok_def)
  show ?thesis
  proof (cases "mt_accept s")
    case (Accept_pop b)
    from this assms(3) i(2) show ?thesis
    proof (cases rule: accept_pop_cases)
      case empty
      then show ?thesis using i by (intro mt_conns_intro [where info = info]) (simp_all add: mt_fds_def)
    next
      case (closed fd q)
      let ?s = "s\<lparr>mt_server := (mt_server s)\<lparr>accept_thread_info := Some (info\<lparr>accept_sd_queue := q\<rparr>)\<rparr>\<rparr>"
      have "good (pd_server (mt_server ?s))" using i(1) by simp
      note c = mt_close_conns [OF assms(1) this, of fd]
      show ?thesis unfolding closed(2)
      proof (rule mt_conns_intro [where info = "info\<lparr>accept_sd_queue := q\<rparr>"])
        show "conn_ledger (pw_trace (mt_world (mt_close fd ?s))) {} = Some (set (mt_fds (info\<lparr>accept_sd_queue := q\<rparr>) (mt_close fd ?s)))"
          using i(3,4) closed(1) c(3) by (auto simp: mt_fds_def conn_ledger_append)
      qed (use c i(3) closed(1) in \<open>simp_all add: mt_fds_def\<close>)
    next
      case (created fd q)
      then show ?thesis using i
        by (intro mt_conns_intro [where info = "info\<lparr>accept_sd_queue := q\<rparr>"]) (auto simp: mt_fds_def waiting_fds_def)
    qed
  next
    case Accept_wait
    then consider "s' = s\<lparr>mt_server := (mt_server s)\<lparr>accept_thread_info := Some (eventfd_read info)\<rparr>, mt_accept := Accept_pop (snd (fds_set sel))\<rparr>"
      | "s' = s\<lparr>mt_accept := Accept_leave\<rparr>" | "s' = s"
      using assms(3) i(2) by (auto simp: cmsg_pthread_multithreaded_accept_thread_def split: prod.splits if_splits)
    then show ?thesis
    proof cases
      case 1
      then show ?thesis using i
        by (intro mt_conns_intro [where info = "eventfd_read info"]) (simp_all add: mt_fds_def eventfd_read_def)
    qed (use i in \<open>intro mt_conns_intro [where info = info]; simp add: mt_fds_def\<close>)+
  next
    case (Accept_created b)
    then show ?thesis using assms(3) i
      by (intro mt_conns_intro [where info = info]) (auto simp: cmsg_pthread_multithreaded_accept_thread_def mt_fds_def)
  next
    case Accept_leave
    then show ?thesis using assms(3) i
      by (intro mt_conns_intro [where info = info])
        (auto simp: cmsg_pthread_multithreaded_accept_thread_def mt_fds_def)
  qed (use assms in \<open>simp add: cmsg_pthread_multithreaded_accept_thread_def\<close>)
qed

lemma receive_on_keeps:
  assumes "keeps_receiving env good" "good (pd_server p)" "receive_on env fd p w = Some (ret, p', w')"
  shows "good (pd_server p')" "accept_thread_info p' = accept_thread_info p" "pw_trace w' = pw_trace w @ [Poll_recv fd ret]"
proof -
  obtain ret1 p1 w1 where "receive_on env fd p w = Some (ret1, p1, w1)" "good (pd_server p1)"
    using assms(1,2) unfolding keeps_receiving_def by blast
  with assms(3) show "good (pd_server p')" by simp
  have "accept_thread_info (p\<lparr>pd_server := pd_server p'\<rparr>) = accept_thread_info p" by simp
  then show "accept_thread_info p' = accept_thread_info p" using receive_on_frame(1) [OF assms(3)] by simp
  show "pw_trace w' = pw_trace w @ [Poll_recv fd ret]" using receive_on_frame(2) [OF assms(3)] .
qed

lemma receive_thread_conns:
  assumes "keeps_receiving env good" "mt_conns_ok good s" "i < length (mt_recv s)"
    and "cmsg_pthread_multithreaded_receive_thread env i sel s = Some s'"
  shows "mt_conns_ok good s'"
proof -
  obtain info where i: "good (pd_server (mt_server s))" "accept_thread_info (mt_server s) = Some info" "distinct (mt_fds info s)"
    "conn_ledger (pw_trace (mt_world s)) {} = Some (set (mt_fds info s))"
    using assms(2) by (auto simp: mt_conns_ok_def)
  obtain fd pc where t: "mt_recv s ! i = (fd, pc)" by (cases "mt_recv s ! i")
  show ?thesis
  proof (cases pc)
    case Recv_wait
    then have w: "mt_recv s ! i = (fd, Recv_wait)" using t by simp
    obtain a b where ab: "waiting_fds (mt_recv s) = a @ [fd] @ b" "waiting_fds ((mt_recv s)[i := (fd, Recv_leave)]) = a @ b"
      using waiting_fds_set [OF assms(3) w, of Recv_leave] by auto
    from w assms(4) show ?thesis
    proof (cases rule: recv_wait_cases)
      case (1 p w)
      let ?s = "s\<lparr>mt_server := p, mt_world := w\<rparr>"
      have p: "good (pd_server p)" "accept_thread_info p = Some info"
        "pw_trace w = pw_trace (mt_world s) \<or> (\<exists>ret. pw_trace w = pw_trace (mt_world s) @ [Poll_recv fd ret])"
        using 1(1) i(1,2) receive_on_keeps [OF assms(1) i(1)] by auto
      have "fd \<in> set (mt_fds info s)" using ab by (simp add: mt_fds_def)
      with p(3) i(4) have l: "conn_ledger (pw_trace w) {} = Some (set (mt_fds info s))" by (auto simp: conn_ledger_append)
      from 1(2) show ?thesis
      proof
        assume "s' = ?s"
        then show ?thesis using p i l by (intro mt_conns_intro [where info = info]) (simp_all add: mt_fds_def)
      next
        assume s': "s' = set_recv i Recv_leave (mt_close fd ?s)"
        note c = mt_close_conns [OF assms(1), of ?s fd, simplified, OF p(1)]
        show ?thesis unfolding s'
          using i(3) l c p(2) ab t
          by (intro mt_conns_intro [where info = info]) (auto simp: mt_fds_def set_recv_def conn_ledger_append)
      qed
    qed
  next
    case Recv_leave
    then show ?thesis using assms(4) i t waiting_fds_set [OF assms(3) t, of Recv_done]
      by (intro mt_conns_intro [where info = info])
        (auto simp: cmsg_pthread_multithreaded_receive_thread_def mt_fds_def set_recv_def)
  qed (use assms t in \<open>simp add: cmsg_pthread_multithreaded_receive_thread_def\<close>)
qed

lemma mt_step_conns:
  assumes "mt_step env s s'" "keeps_receiving env good" "accepts_fresh env" "mt_conns_ok good s"
  shows "mt_conns_ok good s'"
  using assms(1)
proof cases
  case (Arrive p w)
  then show ?thesis using arrive_conns assms(2-4) by blast
next
  case (Accept sel alloc create)
  then show ?thesis using accept_thread_conns assms(2,4) by blast
next
  case (Recv i sel)
  then show ?thesis using receive_thread_conns assms(2,4) by blast
next
  case Destroy
  then show ?thesis using assms(4)
    by (cases "mt_destroy s") (auto simp: cmsg_pthread_multithreaded_server_destroy_def mt_conns_ok_def mt_fds_def split: if_splits)
qed

lemma init_ok:
  assumes "cmsg_pthread_multithreaded_server_init True (int shutdown) True True (True, int eventfd, True, True) True p timeout w = (Some s, p', w')"
    and "good (pd_server p)" "accept_thread_info p = None" "pw_trace w = []" "shutdown \<noteq> eventfd"
  shows "threads_counted s \<and> destroyer_ok s" "mt_conns_ok good s"
  using assms
  by (auto simp: cmsg_pthread_multithreaded_server_init_def cmsg_server_accept_thread_init_def Let_def threads_counted_def
      destroyer_ok_def live_def poll_log_def mt_fds_def waiting_fds_def intro!: mt_conns_intro)

lemma mt_reachable_ok:
  assumes "mt_reachable env s0 s" "keeps_receiving env good" "accepts_fresh env"
    and "threads_counted s0 \<and> destroyer_ok s0" "mt_conns_ok good s0"
  shows "(threads_counted s \<and> destroyer_ok s) \<and> mt_conns_ok good s"
  using assms
proof (induction rule: mt_reachable.induct)
  case (Step s s')
  then show ?case using mt_step_counts [OF Step.hyps(2)] mt_step_conns [OF Step.hyps(2)] by blast
qed simp

lemma live_zero: "live rs = 0 \<longleftrightarrow> (\<forall>(fd, pc) \<in> set rs. pc = Recv_done)"
  by (auto simp: live_def filter_empty_conv)

text \<open>
  C25: The multi-threaded server in every interleaving of its threads: the connections that are open are the ones
  in the queue and the ones of the receive threads that wait, each closed once, by the thread that has it; the caller that destroys the
  server never sleeps without somebody to wake it; and when it goes on to free the record, every receive
  thread has closed its connection and left, and so has the accept thread, unless it has
  just started a receive thread and not yet counted it.
\<close>

theorem multithreaded_server_safe:
  assumes "keeps_receiving env good" "accepts_fresh env"
    and "cmsg_pthread_multithreaded_server_init True (int shutdown) True True (True, int eventfd, True, True) True p timeout w = (Some s0, p', w')"
    and "good (pd_server p)" "accept_thread_info p = None" "pw_trace w = []" "shutdown \<noteq> eventfd" "mt_reachable env s0 s"
  shows "(\<exists>info. accept_thread_info (mt_server s) = Some info \<and> conn_ledger (pw_trace (mt_world s)) {} =
      Some ({accept_sd_eventfd info, shutdown_eventfd s} \<union> set (accept_sd_queue info) \<union> {fd. (fd, Recv_wait) \<in> set (mt_recv s)})) \<and>
    (mt_destroy s = Destroy_sleep \<longrightarrow> num_threads s \<noteq> 0 \<or> wakeup_signalled s) \<and>
    (mt_destroy s = Destroy_freed \<longrightarrow> (\<forall>(fd, pc) \<in> set (mt_recv s). pc = Recv_done) \<and>
      (mt_accept s = Accept_done \<or> (\<exists>b. mt_accept s = Accept_created b)))"
proof -
  note ok = mt_reachable_ok [OF assms(8,1,2) init_ok [where good = good, OF assms(3-7)]]
  have "num_threads s = 0" if "mt_destroy s = Destroy_freed" using ok that by (simp add: destroyer_ok_def)
  then have "live (mt_recv s) = 0 \<and> (mt_accept s = Accept_done \<or> (\<exists>b. mt_accept s = Accept_created b))"
    if "mt_destroy s = Destroy_freed"
    using ok that by (cases "mt_accept s") (simp_all add: threads_counted_def)
  moreover have "{fd. (fd, Recv_wait) \<in> set (mt_recv s)} = set (waiting_fds (mt_recv s))" by (force simp: waiting_fds_def)
  ultimately show ?thesis
    using ok by (auto simp: live_zero destroyer_ok_def mt_conns_ok_def mt_fds_def)
qed

text \<open>
  The exception can happen. A connection arrives while the server is being destroyed: its thread leaves
  before it was counted, the count reaches 0 and the record is freed under the accept thread.
\<close>

definition demo_mt_init :: "(bool, unit) mt_state" where
  "demo_mt_init = the (fst (cmsg_pthread_multithreaded_server_init True 3 True True (True, 4, True, True) True demo_polled 0 demo_world))"

definition demo_arrive :: "(bool, unit) mt_state \<Rightarrow> (bool, unit) mt_state" where
  "demo_arrive s = (let (p, w) = cmsg_server_accept_thread demo_poll_env (mt_server s) (mt_world s) in s\<lparr>mt_server := p, mt_world := w\<rparr>)"

definition demo_recv :: "(bool, unit) mt_state \<Rightarrow> (bool, unit) mt_state option" where
  "demo_recv s = (if 0 < length (mt_recv s) then cmsg_pthread_multithreaded_receive_thread demo_poll_env 0 (Mt_ready True False) s else None)"

definition demo_schedule :: "((bool, unit) mt_state \<Rightarrow> (bool, unit) mt_state option) list" where
  "demo_schedule = [\<lambda>s. Some (demo_arrive s), cmsg_pthread_multithreaded_accept_thread (Mt_ready True False) True True,
     cmsg_pthread_multithreaded_accept_thread Mt_timeout True True, cmsg_pthread_multithreaded_server_destroy,
     demo_recv, demo_recv, cmsg_pthread_multithreaded_server_destroy]"

definition unless_freed :: "(('m, 's) mt_state \<Rightarrow> ('m, 's) mt_state option) \<Rightarrow> ('m, 's) mt_state \<Rightarrow> ('m, 's) mt_state option" where
  "unless_freed f s = (if mt_destroy s = Destroy_freed then None else f s)"

lemma schedule_reachable:
  assumes "fold_opt unless_freed fs s = Some s'" "mt_reachable env s0 s"
    and "\<forall>f \<in> set fs. \<forall>s s'. mt_destroy s \<noteq> Destroy_freed \<longrightarrow> f s = Some s' \<longrightarrow> mt_step env s s'"
  shows "mt_reachable env s0 s'"
  using assms
proof (induction fs arbitrary: s)
  case (Cons f fs)
  then obtain s1 where s1: "unless_freed f s = Some s1" "fold_opt unless_freed fs s1 = Some s'" by (auto simp: bind_eq_Some_conv)
  then have "mt_step env s s1" using Cons.prems(3) by (auto simp: unless_freed_def split: if_splits)
  then show ?case using Cons.IH [OF s1(2)] Cons.prems mt_reachable.Step by fastforce
qed simp

lemma demo_schedule_steps:
  "\<forall>f \<in> set demo_schedule. \<forall>s s'. mt_destroy s \<noteq> Destroy_freed \<longrightarrow> f s = Some s' \<longrightarrow> mt_step demo_poll_env s s'"
  by (auto simp: demo_schedule_def demo_arrive_def demo_recv_def intro: mt_step.intros split: prod.splits if_splits)

lemma multithreaded_destroy_race:
  "\<exists>s. mt_reachable demo_poll_env demo_mt_init s \<and> mt_destroy s = Destroy_freed \<and> mt_accept s = Accept_created False"
proof -
  have "map_option (\<lambda>s. (mt_destroy s, mt_accept s)) (fold_opt unless_freed demo_schedule demo_mt_init) =
      Some (Destroy_freed, Accept_created False)"
    by code_simp
  with schedule_reachable [OF _ mt_reachable.Start demo_schedule_steps] show ?thesis by fastforce
qed

theorem multithreaded_server_safe_witness:
  "\<exists>s. mt_reachable demo_poll_env demo_mt_init s \<and> mt_destroy s = Destroy_freed \<and> mt_accept s = Accept_created False \<and>
     (\<forall>(fd, pc) \<in> set (mt_recv s). pc = Recv_done)"
proof -
  obtain s where s: "mt_reachable demo_poll_env demo_mt_init s" "mt_destroy s = Destroy_freed" "mt_accept s = Accept_created False"
    using multithreaded_destroy_race by blast
  have "\<exists>p' w'. cmsg_pthread_multithreaded_server_init True (int 3) True True (True, int 4, True, True) True demo_polled 0 demo_world =
      (Some demo_mt_init, p', w')"
    by (simp add: demo_mt_init_def cmsg_pthread_multithreaded_server_init_def Let_def split: prod.split)
  then obtain p' w' where "cmsg_pthread_multithreaded_server_init True (int 3) True True (True, int 4, True, True) True demo_polled 0 demo_world =
      (Some demo_mt_init, p', w')" by blast
  from multithreaded_server_safe [OF demo_poll_receiving demo_poll_fresh(2) this _ _ _ _ s(1)] s show ?thesis
    by (auto simp: demo_polled_def demo_world_def)
qed

end
