(* ===== verification/Endpoints.thy ===== *)
theory Endpoints
  imports Sockets Server Client
begin

text \<open>
  How clients and servers are made and destroyed (\<open>cmsg_client.c\<close>, \<open>cmsg_server.c\<close>), with every failure
  on the way. Each function runs in the state monad of \<open>Sockets\<close>: \<open>Sys_new\<close> and \<open>Sys_gone\<close> are the objects it allocates,
  initialises and releases, and the transport of the state is the one that the endpoint uses.

  What a new endpoint is like otherwise is \<open>cmsg_server_create\<close> and \<open>cmsg_client_init\<close> of \<open>Server\<close> and
  \<open>Client\<close>. Announcing a server to the service listener and registering counters are \<open>Sys_new\<close> of
  \<open>Obj_announced\<close> and \<open>Obj_counters\<close>; what they return is not looked at.
\<close>

fun sock_each :: "('a \<Rightarrow> unit sock) \<Rightarrow> 'a list \<Rightarrow> unit sock" where
  "sock_each f [] = State_Monad.return ()"
| "sock_each f (x # xs) = do { _ \<leftarrow> f x; sock_each f xs }"

definition sys_gone :: "sock_env \<Rightarrow> obj_part \<Rightarrow> unit sock" where
  "sys_gone env part = do { _ \<leftarrow> syscall env (Sys_gone part); State_Monad.return () }"

text \<open>Making a part, or giving up with \<open>failed\<close>.\<close>

definition sys_make :: "sock_env \<Rightarrow> obj_part \<Rightarrow> 'a sock \<Rightarrow> 'a sock \<Rightarrow> 'a sock" where
  "sys_make env part failed rest = do {
     r \<leftarrow> syscall env (Sys_new part);
     if r < 0 then failed else rest
   }"

definition SERVER_RECV_HEADER_PEEK_TIMEOUT :: u32 where "SERVER_RECV_HEADER_PEEK_TIMEOUT = 10"
definition CLIENT_RECV_HEADER_PEEK_TIMEOUT :: u32 where "CLIENT_RECV_HEADER_PEEK_TIMEOUT = 100"

section \<open>Servers\<close>

text \<open>What comes after a successful \<open>listen\<close>: a lock that cannot be made leaves all that was made before.\<close>

definition server_listening :: "sock_env \<Rightarrow> service_descriptor \<Rightarrow> 'm cmsg_server option sock" where
  "server_listening env service =
     sys_make env (Obj_mutex ''queue_mutex'')
       (do { _ \<leftarrow> sys_gone env Obj_server; State_Monad.return None })
       (do {
          _ \<leftarrow> syscall env (Sys_new Obj_queue);
          _ \<leftarrow> syscall env (Sys_new Obj_filters);
          sys_make env (Obj_mutex ''queueing_state_mutex'') (State_Monad.return None)
            (sys_make env (Obj_mutex ''queue_filter_mutex'') (State_Monad.return None)
              (do {
                 t \<leftarrow> sk_gets sk_tport;
                 State_Monad.return (Some (cmsg_server_create (t_type t) service))
               }))
        })"

definition server_create :: "sock_env \<Rightarrow> service_descriptor \<Rightarrow> 'm cmsg_server option sock" where
  "server_create env service =
     sys_make env Obj_server (State_Monad.return None)
       (do {
          _ \<leftarrow> cmsg_transport_write_id env (svc_name service);
          _ \<leftarrow> cmsg_transport_set_recv_peek_timeout SERVER_RECV_HEADER_PEEK_TIMEOUT;
          t \<leftarrow> sk_gets sk_tport;
          ret \<leftarrow> (case fn_listen (tport_funcs t) of Some f \<Rightarrow> tport_listen env f | None \<Rightarrow> State_Monad.return 0);
          if ret < 0 then do { _ \<leftarrow> sys_gone env Obj_server; State_Monad.return None }
          else server_listening env service
        })"

definition cmsg_server_new :: "sock_env \<Rightarrow> service_descriptor \<Rightarrow> 'm cmsg_server option sock" where
  "cmsg_server_new env service = do {
     server \<leftarrow> server_create env service;
     _ \<leftarrow> sock_when (server \<noteq> None) (do {
       _ \<leftarrow> syscall env (Sys_new Obj_announced);
       _ \<leftarrow> syscall env (Sys_new Obj_counters);
       State_Monad.return ()
     });
     State_Monad.return server
   }"

text \<open>The accept thread of a server: its event descriptor and the connections that are still queued.\<close>

definition server_close_accepted :: "sock_env \<Rightarrow> int \<Rightarrow> unit sock" where
  "server_close_accepted env fd = do {
     _ \<leftarrow> syscall env (Sys_shutdown fd);
     _ \<leftarrow> syscall env (Sys_close fd);
     State_Monad.return ()
   }"

definition server_accept_deinit :: "sock_env \<Rightarrow> int \<times> int list \<Rightarrow> unit sock" where
  "server_accept_deinit env info = do {
     _ \<leftarrow> sys_gone env Obj_accept_thread;
     _ \<leftarrow> syscall env (Sys_close (fst info));
     _ \<leftarrow> sock_each (\<lambda>fd. do { _ \<leftarrow> syscall env (Sys_close fd); State_Monad.return () }) (snd info);
     _ \<leftarrow> sys_gone env Obj_accept_queue;
     sys_gone env Obj_accept_info
   }"

text \<open>
  \<open>accepted\<close> are the connections that the server has noted itself, \<open>info\<close> is its accept thread if it has one, \<open>crypto\<close>
  whether it encrypts. The lock of the filters is not destroyed.
\<close>

definition cmsg_server_destroy :: "sock_env \<Rightarrow> int list \<Rightarrow> (int \<times> int list) option \<Rightarrow> bool \<Rightarrow> unit sock" where
  "cmsg_server_destroy env accepted info crypto = do {
     _ \<leftarrow> sys_gone env Obj_announced;
     _ \<leftarrow> sock_each (server_close_accepted env) accepted;
     _ \<leftarrow> sys_gone env Obj_counters;
     _ \<leftarrow> sys_gone env Obj_filters;
     _ \<leftarrow> sys_gone env Obj_queue;
     _ \<leftarrow> sys_gone env (Obj_mutex ''queueing_state_mutex'');
     _ \<leftarrow> sys_gone env (Obj_mutex ''queue_mutex'');
     _ \<leftarrow> (case info of None \<Rightarrow> State_Monad.return () | Some info \<Rightarrow> server_accept_deinit env info);
     t \<leftarrow> sk_gets sk_tport;
     _ \<leftarrow> (case fn_socket_close (tport_funcs t) of None \<Rightarrow> State_Monad.return () | Some f \<Rightarrow> tport_socket_close env f);
     _ \<leftarrow> sock_when crypto (sys_gone env (Obj_mutex ''crypto_sa_hash_table_mutex''));
     sys_gone env Obj_server
   }"

definition cmsg_destroy_server_and_transport :: "sock_env \<Rightarrow> int list \<Rightarrow> (int \<times> int list) option \<Rightarrow> bool \<Rightarrow> unit sock" where
  "cmsg_destroy_server_and_transport env accepted info crypto = do {
     _ \<leftarrow> cmsg_server_destroy env accepted info crypto;
     t \<leftarrow> sk_gets sk_tport;
     _ \<leftarrow> sock_when (t_type t = CMSG_TRANSPORT_RPC_UNIX \<or> t_type t = CMSG_TRANSPORT_ONEWAY_UNIX) (do {
       _ \<leftarrow> syscall env (Sys_unlink (sun_path t));
       State_Monad.return ()
     });
     cmsg_transport_destroy env
   }"

section \<open>Clients\<close>

text \<open>\<open>with_transport\<close>: composite clients have none. The parts made before one that fails are left.\<close>

definition client_init :: "sock_env \<Rightarrow> bool \<Rightarrow> service_descriptor \<Rightarrow> bool sock" where
  "client_init env with_transport descriptor = do {
     _ \<leftarrow> sock_when with_transport (do {
       _ \<leftarrow> cmsg_transport_write_id env (svc_name descriptor);
       _ \<leftarrow> cmsg_transport_set_recv_peek_timeout CLIENT_RECV_HEADER_PEEK_TIMEOUT;
       State_Monad.return ()
     });
     sys_make env (Obj_mutex ''queue_mutex'') (State_Monad.return False) (do {
       _ \<leftarrow> syscall env (Sys_new Obj_queue);
       _ \<leftarrow> syscall env (Sys_new Obj_filters);
       sys_make env (Obj_cond ''queue_process_cond'') (State_Monad.return False)
         (sys_make env (Obj_mutex ''queue_process_mutex'') (State_Monad.return False)
           (sys_make env (Obj_mutex ''invoke_mutex'') (State_Monad.return False)
             (sys_make env (Obj_mutex ''send_mutex'') (State_Monad.return False)
               (State_Monad.return True))))
     })
   }"

text \<open>\<open>handle\<close> and \<open>transport\<close> are the pointers of the client and of its transport.\<close>

definition cmsg_client_create :: "sock_env \<Rightarrow> nat \<Rightarrow> nat \<Rightarrow> service_descriptor \<Rightarrow> cmsg_client option sock" where
  "cmsg_client_create env handle transport descriptor =
     sys_make env Obj_client (State_Monad.return None)
       (do {
          ok \<leftarrow> client_init env True descriptor;
          if \<not> ok then do { _ \<leftarrow> sys_gone env Obj_client; State_Monad.return None }
          else do {
            t \<leftarrow> sk_gets sk_tport;
            State_Monad.return (Some (cmsg_client_init handle transport (t_type t) descriptor))
          }
        })"

definition cmsg_client_new :: "sock_env \<Rightarrow> nat \<Rightarrow> nat \<Rightarrow> service_descriptor \<Rightarrow> cmsg_client option sock" where
  "cmsg_client_new env handle transport descriptor = do {
     client \<leftarrow> cmsg_client_create env handle transport descriptor;
     _ \<leftarrow> sock_when (client \<noteq> None) (do { _ \<leftarrow> syscall env (Sys_new Obj_counters); State_Monad.return () });
     State_Monad.return client
   }"

text \<open>
  \<open>loopback\<close>: whether the client has a loopback server, which shares its transport; \<open>crypto\<close>: whether it has a
  security association.
\<close>

definition cmsg_client_deinit :: "sock_env \<Rightarrow> bool \<Rightarrow> bool \<Rightarrow> unit sock" where
  "cmsg_client_deinit env loopback crypto = do {
     _ \<leftarrow> sys_gone env Obj_counters;
     _ \<leftarrow> sys_gone env (Obj_mutex ''queue_process_mutex'');
     _ \<leftarrow> sys_gone env (Obj_cond ''queue_process_cond'');
     _ \<leftarrow> sys_gone env Obj_filters;
     _ \<leftarrow> sys_gone env Obj_queue;
     _ \<leftarrow> sys_gone env (Obj_mutex ''queue_mutex'');
     t \<leftarrow> sk_gets sk_tport;
     _ \<leftarrow> (case fn_socket_close (tport_funcs t) of None \<Rightarrow> State_Monad.return () | Some f \<Rightarrow> tport_socket_close env f);
     _ \<leftarrow> sock_when loopback (cmsg_server_destroy env [] None False);
     _ \<leftarrow> sock_when crypto (sys_gone env Obj_crypto_sa);
     _ \<leftarrow> sys_gone env (Obj_mutex ''invoke_mutex'');
     sys_gone env (Obj_mutex ''send_mutex'')
   }"

definition cmsg_client_destroy :: "sock_env \<Rightarrow> bool \<Rightarrow> bool \<Rightarrow> unit sock" where
  "cmsg_client_destroy env loopback crypto = do {
     _ \<leftarrow> cmsg_client_deinit env loopback crypto;
     sys_gone env Obj_client
   }"

definition cmsg_destroy_client_and_transport :: "sock_env \<Rightarrow> bool \<Rightarrow> bool \<Rightarrow> unit sock" where
  "cmsg_destroy_client_and_transport env loopback crypto = do {
     _ \<leftarrow> cmsg_client_destroy env loopback crypto;
     cmsg_transport_destroy env
   }"

section \<open>Endpoints with their transports\<close>

text \<open>
  The frame of all functions that make an endpoint: no transport (its port is unknown, or there is no memory for it) is no endpoint,
  and a transport whose endpoint cannot be made is destroyed.
\<close>

definition with_transport :: "sock_env \<Rightarrow> cmsg_transport option \<Rightarrow> 'a option sock \<Rightarrow> 'a option sock" where
  "with_transport env transport create =
     (case transport of
        None \<Rightarrow> State_Monad.return None
      | Some t \<Rightarrow>
          sys_make env Obj_transport (State_Monad.return None)
            (do {
               _ \<leftarrow> sk_modify (\<lambda>w. w\<lparr>sk_tport := t\<rparr>);
               e \<leftarrow> create;
               _ \<leftarrow> sock_when (e = None) (cmsg_transport_destroy env);
               State_Monad.return e
             }))"

text \<open>\<open>port\<close> is the port of the service in network order, 0 when the service is unknown.\<close>

definition create_server_unix :: "sock_env \<Rightarrow> service_descriptor \<Rightarrow> cmsg_transport_type \<Rightarrow> 'm cmsg_server option sock" where
  "create_server_unix env service type =
     with_transport env (Some (cmsg_create_transport_unix (svc_name service) type)) (cmsg_server_new env service)"

definition cmsg_create_server_unix_rpc :: "sock_env \<Rightarrow> service_descriptor \<Rightarrow> 'm cmsg_server option sock" where
  "cmsg_create_server_unix_rpc env service = create_server_unix env service CMSG_TRANSPORT_RPC_UNIX"

definition cmsg_create_server_unix_oneway :: "sock_env \<Rightarrow> service_descriptor \<Rightarrow> 'm cmsg_server option sock" where
  "cmsg_create_server_unix_oneway env service = create_server_unix env service CMSG_TRANSPORT_ONEWAY_UNIX"

definition create_server_tcp_ipv4 ::
  "sock_env \<Rightarrow> u8 list \<Rightarrow> u8 list \<Rightarrow> string option \<Rightarrow> service_descriptor \<Rightarrow> bool \<Rightarrow> 'm cmsg_server option sock" where
  "create_server_tcp_ipv4 env port addr vrf service oneway =
     with_transport env (cmsg_create_transport_tcp_ipv4 port addr vrf oneway) (cmsg_server_new env service)"

definition cmsg_create_server_tcp_ipv4_rpc ::
  "sock_env \<Rightarrow> u8 list \<Rightarrow> u8 list \<Rightarrow> string option \<Rightarrow> service_descriptor \<Rightarrow> 'm cmsg_server option sock" where
  "cmsg_create_server_tcp_ipv4_rpc env port addr vrf service = create_server_tcp_ipv4 env port addr vrf service False"

definition cmsg_create_server_tcp_ipv4_oneway ::
  "sock_env \<Rightarrow> u8 list \<Rightarrow> u8 list \<Rightarrow> string option \<Rightarrow> service_descriptor \<Rightarrow> 'm cmsg_server option sock" where
  "cmsg_create_server_tcp_ipv4_oneway env port addr vrf service = create_server_tcp_ipv4 env port addr vrf service True"

definition create_server_tcp_ipv6 ::
  "sock_env \<Rightarrow> u8 list \<Rightarrow> u8 list \<Rightarrow> u32 \<Rightarrow> string option \<Rightarrow> service_descriptor \<Rightarrow> bool \<Rightarrow> 'm cmsg_server option sock" where
  "create_server_tcp_ipv6 env port addr scope vrf service oneway =
     with_transport env (cmsg_create_transport_tcp_ipv6 port addr scope vrf oneway) (cmsg_server_new env service)"

definition cmsg_create_server_tcp_ipv6_rpc ::
  "sock_env \<Rightarrow> u8 list \<Rightarrow> u8 list \<Rightarrow> u32 \<Rightarrow> string option \<Rightarrow> service_descriptor \<Rightarrow> 'm cmsg_server option sock" where
  "cmsg_create_server_tcp_ipv6_rpc env port addr scope vrf service =
     create_server_tcp_ipv6 env port addr scope vrf service False"

definition cmsg_create_server_tcp_ipv6_oneway ::
  "sock_env \<Rightarrow> u8 list \<Rightarrow> u8 list \<Rightarrow> u32 \<Rightarrow> string option \<Rightarrow> service_descriptor \<Rightarrow> 'm cmsg_server option sock" where
  "cmsg_create_server_tcp_ipv6_oneway env port addr scope vrf service =
     create_server_tcp_ipv6 env port addr scope vrf service True"

definition cmsg_create_server_forwarding :: "sock_env \<Rightarrow> service_descriptor \<Rightarrow> 'm cmsg_server option sock" where
  "cmsg_create_server_forwarding env service =
     with_transport env (Some (cmsg_transport_new CMSG_TRANSPORT_FORWARDING)) (cmsg_server_new env service)"

definition create_client_unix :: "sock_env \<Rightarrow> nat \<Rightarrow> nat \<Rightarrow> service_descriptor \<Rightarrow> cmsg_transport_type \<Rightarrow> cmsg_client option sock" where
  "create_client_unix env handle transport descriptor type =
     with_transport env (Some (cmsg_create_transport_unix (svc_name descriptor) type)) (cmsg_client_new env handle transport descriptor)"

definition cmsg_create_client_unix :: "sock_env \<Rightarrow> nat \<Rightarrow> nat \<Rightarrow> service_descriptor \<Rightarrow> cmsg_client option sock" where
  "cmsg_create_client_unix env handle transport descriptor =
     create_client_unix env handle transport descriptor CMSG_TRANSPORT_RPC_UNIX"

definition cmsg_create_client_unix_oneway :: "sock_env \<Rightarrow> nat \<Rightarrow> nat \<Rightarrow> service_descriptor \<Rightarrow> cmsg_client option sock" where
  "cmsg_create_client_unix_oneway env handle transport descriptor =
     create_client_unix env handle transport descriptor CMSG_TRANSPORT_ONEWAY_UNIX"

definition create_client_tcp_ipv4 ::
  "sock_env \<Rightarrow> nat \<Rightarrow> nat \<Rightarrow> u8 list \<Rightarrow> u8 list \<Rightarrow> string option \<Rightarrow> service_descriptor \<Rightarrow> bool \<Rightarrow> cmsg_client option sock" where
  "create_client_tcp_ipv4 env handle transport port addr vrf descriptor oneway =
     with_transport env (cmsg_create_transport_tcp_ipv4 port addr vrf oneway) (cmsg_client_new env handle transport descriptor)"

definition cmsg_create_client_tcp_ipv4_rpc ::
  "sock_env \<Rightarrow> nat \<Rightarrow> nat \<Rightarrow> u8 list \<Rightarrow> u8 list \<Rightarrow> string option \<Rightarrow> service_descriptor \<Rightarrow> cmsg_client option sock" where
  "cmsg_create_client_tcp_ipv4_rpc env handle transport port addr vrf descriptor =
     create_client_tcp_ipv4 env handle transport port addr vrf descriptor False"

definition cmsg_create_client_tcp_ipv4_oneway ::
  "sock_env \<Rightarrow> nat \<Rightarrow> nat \<Rightarrow> u8 list \<Rightarrow> u8 list \<Rightarrow> string option \<Rightarrow> service_descriptor \<Rightarrow> cmsg_client option sock" where
  "cmsg_create_client_tcp_ipv4_oneway env handle transport port addr vrf descriptor =
     create_client_tcp_ipv4 env handle transport port addr vrf descriptor True"

definition create_client_tcp_ipv6 ::
  "sock_env \<Rightarrow> nat \<Rightarrow> nat \<Rightarrow> u8 list \<Rightarrow> u8 list \<Rightarrow> u32 \<Rightarrow> string option \<Rightarrow> service_descriptor \<Rightarrow> bool \<Rightarrow> cmsg_client option sock" where
  "create_client_tcp_ipv6 env handle transport port addr scope vrf descriptor oneway =
     with_transport env (cmsg_create_transport_tcp_ipv6 port addr scope vrf oneway) (cmsg_client_new env handle transport descriptor)"

definition cmsg_create_client_tcp_ipv6_rpc ::
  "sock_env \<Rightarrow> nat \<Rightarrow> nat \<Rightarrow> u8 list \<Rightarrow> u8 list \<Rightarrow> u32 \<Rightarrow> string option \<Rightarrow> service_descriptor \<Rightarrow> cmsg_client option sock" where
  "cmsg_create_client_tcp_ipv6_rpc env handle transport port addr scope vrf descriptor =
     create_client_tcp_ipv6 env handle transport port addr scope vrf descriptor False"

definition cmsg_create_client_tcp_ipv6_oneway ::
  "sock_env \<Rightarrow> nat \<Rightarrow> nat \<Rightarrow> u8 list \<Rightarrow> u8 list \<Rightarrow> u32 \<Rightarrow> string option \<Rightarrow> service_descriptor \<Rightarrow> cmsg_client option sock" where
  "cmsg_create_client_tcp_ipv6_oneway env handle transport port addr scope vrf descriptor =
     create_client_tcp_ipv6 env handle transport port addr scope vrf descriptor True"

definition cmsg_create_client_forwarding :: "sock_env \<Rightarrow> nat \<Rightarrow> nat \<Rightarrow> service_descriptor \<Rightarrow> cmsg_client option sock" where
  "cmsg_create_client_forwarding env handle transport descriptor =
     with_transport env (Some (cmsg_transport_new CMSG_TRANSPORT_FORWARDING)) (cmsg_client_new env handle transport descriptor)"

text \<open>
  TIPC endpoints: the address of a server is its own name in the cluster, the one of a client a range of servers. The
  transport has it besides the parts that all kinds have.
\<close>

datatype tipc_addrtype = TIPC_ADDR_NAMESEQ | TIPC_ADDR_MCAST

record tipc_address =
  tipc_addrtype :: tipc_addrtype
  nameseq_type :: nat
  nameseq_lower :: int
  nameseq_upper :: int

definition cmsg_create_server_tipc_broadcast ::
  "sock_env \<Rightarrow> nat \<Rightarrow> int \<Rightarrow> service_descriptor \<Rightarrow> ('m cmsg_server \<times> tipc_address) option sock" where
  "cmsg_create_server_tipc_broadcast env port tid service =
     (if port = 0 then State_Monad.return None
      else do {
        server \<leftarrow> with_transport env (Some (cmsg_transport_new CMSG_TRANSPORT_BROADCAST)) (cmsg_server_new env service);
        State_Monad.return (map_option (\<lambda>server. (server,
          \<lparr>tipc_addrtype = TIPC_ADDR_NAMESEQ, nameseq_type = port, nameseq_lower = tid, nameseq_upper = tid\<rparr>)) server)
      })"

definition cmsg_create_client_tipc_broadcast ::
  "sock_env \<Rightarrow> nat \<Rightarrow> nat \<Rightarrow> nat \<Rightarrow> int \<Rightarrow> int \<Rightarrow> service_descriptor \<Rightarrow> (cmsg_client \<times> tipc_address) option sock" where
  "cmsg_create_client_tipc_broadcast env handle transport port lower upper descriptor =
     (if port = 0 then State_Monad.return None
      else do {
        client \<leftarrow> with_transport env (Some (cmsg_transport_new CMSG_TRANSPORT_BROADCAST)) (cmsg_client_new env handle transport descriptor);
        State_Monad.return (map_option (\<lambda>client. (client,
          \<lparr>tipc_addrtype = TIPC_ADDR_MCAST, nameseq_type = port, nameseq_lower = lower, nameseq_upper = upper\<rparr>)) client)
      })"

definition cmsg_client_tipc_broadcast_set_destination :: "int \<Rightarrow> int \<Rightarrow> tipc_address \<Rightarrow> tipc_address" where
  "cmsg_client_tipc_broadcast_set_destination lower upper addr = addr\<lparr>nameseq_lower := lower, nameseq_upper := upper\<rparr>"

text \<open>A loopback client does the work of the server itself; the messages stay the caller's. (The server that goes when the client cannot be
  made goes with its transport.)\<close>

definition cmsg_create_client_loopback ::
  "sock_env \<Rightarrow> nat \<Rightarrow> nat \<Rightarrow> service_descriptor \<Rightarrow> (cmsg_client \<times> 'm cmsg_server) option sock" where
  "cmsg_create_client_loopback env handle transport service =
     with_transport env (Some (cmsg_transport_new CMSG_TRANSPORT_LOOPBACK)) (do {
       server \<leftarrow> cmsg_server_new env service;
       case server of
         None \<Rightarrow> State_Monad.return None
       | Some server \<Rightarrow> do {
           client \<leftarrow> cmsg_client_new env handle transport service;
           case client of
             None \<Rightarrow> do {
               _ \<leftarrow> cmsg_server_destroy env [] None False;
               State_Monad.return None
             }
           | Some client \<Rightarrow> State_Monad.return (Some (client, cmsg_server_app_owns_all_msgs_set server True))
         }
     })"

section \<open>Timeouts, readiness\<close>

text \<open>The functions of a client that hand on to its transport.\<close>

definition cmsg_client_set_send_timeout :: "sock_env \<Rightarrow> u32 \<Rightarrow> int sock" where
  "cmsg_client_set_send_timeout env timeout = cmsg_transport_set_send_timeout env timeout"

definition cmsg_client_set_connect_timeout :: "u32 \<Rightarrow> int sock" where
  "cmsg_client_set_connect_timeout timeout = cmsg_transport_set_connect_timeout timeout"

definition cmsg_client_set_receive_timeout :: "u32 \<Rightarrow> int sock" where
  "cmsg_client_set_receive_timeout timeout = cmsg_transport_set_recv_peek_timeout timeout"

text \<open>\<open>exists_file\<close> is \<open>access\<close> with \<open>F_OK\<close>.\<close>

definition cmsg_client_unix_server_ready :: "(string \<Rightarrow> bool) \<Rightarrow> service_descriptor \<Rightarrow> int" where
  "cmsg_client_unix_server_ready exists_file descriptor =
     (if exists_file (cmsg_transport_unix_sun_path (svc_name descriptor)) then 0 else -1)"

end
