(* ===== verification/EndpointProperties.thy ===== *)
theory EndpointProperties
  imports Endpoints SocketProperties Demo
begin

text \<open>
  The properties of making and destroying endpoints: what is held afterwards, and that the client and
  the server of a service meet.
\<close>

section \<open>Objects\<close>

text \<open>
  The objects that are held after some calls; \<open>None\<close> if one is released that is not held. Announcements and
  counters belong to other components and may be withdrawn without having been made.
\<close>

fun objs_after :: "sock_trace \<Rightarrow> obj_part multiset \<Rightarrow> obj_part multiset option" where
  "objs_after [] P = Some P"
| "objs_after ((Sys_new part, r) # tr) P =
     objs_after tr (if 0 \<le> r \<and> part \<noteq> Obj_announced \<and> part \<noteq> Obj_counters then add_mset part P else P)"
| "objs_after ((Sys_gone part, _) # tr) P =
     (if part = Obj_announced \<or> part = Obj_counters then objs_after tr P
      else if part \<in># P then objs_after tr (P - {#part#}) else None)"
| "objs_after (_ # tr) P = objs_after tr P"

lemma objs_after_append: "objs_after (tr @ tr') P = Option.bind (objs_after tr P) (objs_after tr')"
  by (induction tr P rule: objs_after.induct) auto

definition objs :: "sock_state \<Rightarrow> obj_part multiset option" where
  "objs w = objs_after (sk_trace w) {#}"

lemma objs_simps [simp]:
  "objs (w\<lparr>sk_err := e\<rparr>) = objs w" "objs (w\<lparr>sk_tport := t\<rparr>) = objs w"
  "objs (w\<lparr>sk_trace := sk_trace w @ evs\<rparr>) = Option.bind (objs w) (objs_after evs)"
  "objs (w\<lparr>sk_trace := sk_trace w @ evs, sk_err := e\<rparr>) = Option.bind (objs w) (objs_after evs)"
  by (simp_all add: objs_def objs_after_append)

text \<open>\<open>holds\<close>: the open descriptors and the objects. \<open>own_fds\<close>: the transport's socket, if it has one.\<close>

definition holds :: "sock_state \<Rightarrow> int multiset \<Rightarrow> obj_part multiset \<Rightarrow> bool" where
  "holds w F P \<longleftrightarrow> opened w = Some F \<and> objs w = Some P"

definition own_fds :: "cmsg_transport \<Rightarrow> int multiset" where
  "own_fds t = (if t_socket t < 0 then {#} else {#t_socket t#})"

lemma owns_own_fds: "owns w F \<longleftrightarrow> -1 \<le> t_socket (sk_tport w) \<and> opened w = Some (own_fds (sk_tport w) + F)"
  by (auto simp: owns_def own_fds_def)

text \<open>What identifies a transport: it stays the same while its socket and its settings change.\<close>

definition address :: "cmsg_transport \<Rightarrow> cmsg_transport" where
  "address t = t\<lparr>t_socket := -1, tport_id := [], parent_obj_id := [], send_timeout := 0, receive_timeout := 0,
     connect_timeout := 0, receive_peek_timeout := 0\<rparr>"

lemma address_simps [simp]:
  "address (t\<lparr>t_socket := fd\<rparr>) = address t" "address (t\<lparr>tport_id := i, parent_obj_id := p\<rparr>) = address t"
  "address (t\<lparr>receive_peek_timeout := n\<rparr>) = address t"
  by (simp_all add: address_def)

lemma addressD:
  assumes "address t = address t'"
  shows "t_type t = t_type t'" "tport_funcs t = tport_funcs t'" "sun_path t = sun_path t'" "family t = family t'"
    "sin_port t = sin_port t'" "sin_addr t = sin_addr t'" "sin6_addr t = sin6_addr t'" "sin6_scope_id t = sin6_scope_id t'"
    "vrf_bind_dev t = vrf_bind_dev t'" "sun_family t = sun_family t'"
  using assms by (cases t, cases t', simp add: address_def)+

lemma address_compare:
  assumes "address t = address t'"
  shows "cmsg_transport_compare t u = cmsg_transport_compare t' u" "cmsg_transport_compare u t = cmsg_transport_compare u t'"
  using addressD [OF assms] by (simp_all add: cmsg_transport_compare_def)

section \<open>Calls that leave the objects alone\<close>

definition plain :: "'a sock \<Rightarrow> bool" where
  "plain m \<longleftrightarrow> (\<forall>w. wp m (\<lambda>_ w'. objs w' = objs w \<and> address (sk_tport w') = address (sk_tport w)) w)"

named_theorems plain_rules

lemma plain_bind [plain_rules]:
  assumes "plain m" "\<And>a. plain (f a)"
  shows "plain (State_Monad.bind m f)"
  unfolding plain_def wp_simps
proof
  fix w
  have "wp m (\<lambda>_ w'. objs w' = objs w \<and> address (sk_tport w') = address (sk_tport w)) w"
    using assms(1) by (simp add: plain_def)
  then show "wp m (\<lambda>a. wp (f a) (\<lambda>_ w'. objs w' = objs w \<and> address (sk_tport w') = address (sk_tport w))) w"
  proof (rule wp_mono)
    fix a w1 assume w1: "objs w1 = objs w \<and> address (sk_tport w1) = address (sk_tport w)"
    have "wp (f a) (\<lambda>_ w'. objs w' = objs w1 \<and> address (sk_tport w') = address (sk_tport w1)) w1"
      using assms(2) by (simp add: plain_def)
    then show "wp (f a) (\<lambda>_ w'. objs w' = objs w \<and> address (sk_tport w') = address (sk_tport w)) w1"
      using w1 by simp
  qed
qed

lemma plain_if [plain_rules]: "plain m1 \<Longrightarrow> plain m2 \<Longrightarrow> plain (if b then m1 else m2)"
  by simp

lemma plain_if_fun [plain_rules]: "plain (f x) \<Longrightarrow> plain (g x) \<Longrightarrow> plain ((if b then f else g) x)"
  by simp

lemma plain_prims [plain_rules]:
  "plain (State_Monad.return a)" "plain (sk_gets f)" "plain (set_errno e)" "plain (set_socket fd)"
  "plain (cmsg_transport_write_id env parent)" "plain (cmsg_transport_set_recv_peek_timeout n)"
  by (simp_all add: plain_def wp_steps cmsg_transport_write_id_def cmsg_transport_set_recv_peek_timeout_def)

lemma plain_when [plain_rules]: "plain m \<Longrightarrow> plain (sock_when b m)"
  by (simp add: sock_when_def plain_rules)

lemma plain_option [plain_rules]: "plain m \<Longrightarrow> (\<And>x. plain (f x)) \<Longrightarrow> plain (case opt of None \<Rightarrow> m | Some x \<Rightarrow> f x)"
  by (cases opt) simp_all

lemma plain_syscalls [plain_rules]:
  "plain (syscall env (Sys_socket f ty))" "plain (syscall env (Sys_setsockopt fd opt))" "plain (syscall env (Sys_getfl fd))"
  "plain (syscall env (Sys_setfl fd flags))" "plain (syscall env (Sys_connect fd))" "plain (syscall env (Sys_select fd timeout))"
  "plain (syscall env (Sys_so_error fd))" "plain (syscall env (Sys_bind fd))" "plain (syscall env (Sys_listen fd))"
  "plain (syscall env (Sys_accept fd))" "plain (syscall env (Sys_shutdown fd))" "plain (syscall env (Sys_close fd))"
  "plain (syscall env (Sys_unlink path))" "plain (syscall env (Sys_chmod path))"
  by (auto simp: plain_def wp_syscall Let_def split: Option.bind_split)

lemma plain_connect_nb [plain_rules]: "plain (connect_nb env fd timeout)"
  unfolding connect_nb_def fd_isset_def by (intro plain_rules)

lemma plain_listen [plain_rules]: "plain (tport_listen env f)"
  unfolding tport_listen_def cmsg_transport_tcp_listen_def cmsg_transport_unix_listen_def cmsg_transport_tipc_broadcast_listen_def
    listen_failed_def bind_and_listen_def
  by (intro plain_rules)

lemma plain_connect [plain_rules]: "plain (cmsg_transport_connect env)"
  unfolding cmsg_transport_connect_def tport_connect_def cmsg_transport_tcp_connect_def cmsg_transport_unix_connect_def
    cmsg_transport_tipc_broadcast_connect_def connect_failed_def apply_timeouts_def cmsg_transport_get_socket_def
    cmsg_transport_apply_send_timeout_def cmsg_transport_apply_recv_timeout_def
  by (intro plain_rules)

lemma plain_close [plain_rules]: "plain (tport_socket_close env f)"
  unfolding tport_socket_close_def cmsg_transport_tcp_socket_close_def cmsg_transport_socket_close_def close_with_def
    cmsg_transport_tcp_set_so_linger_def cmsg_transport_tcp_enable_keepalive_def
  by (intro plain_rules)

text \<open>What is known of the descriptors is known of the objects and the address as well.\<close>

lemma wp_plain:
  assumes "plain m" "wp m (\<lambda>a w'. opened w' = G a w') w" "objs w = Some P"
    and "\<And>a w'. opened w' = G a w' \<Longrightarrow> objs w' = Some P \<Longrightarrow> address (sk_tport w') = address (sk_tport w) \<Longrightarrow> Q a w'"
  shows "wp m Q w"
  using assms(1) [unfolded plain_def, rule_format, of w] assms(2,3,4)
  by (auto simp: wp_def split: prod.splits)

lemma wp_conj: "wp m Q w \<Longrightarrow> wp m R w \<Longrightarrow> wp m (\<lambda>a w'. Q a w' \<and> R a w') w"
  by (auto simp: wp_def split: prod.splits)

section \<open>Making and releasing objects\<close>

text \<open>Documented behaviour: locks, conditions, queues and tables can always be made.\<close>

definition locks_ok :: "sock_env \<Rightarrow> bool" where
  "locks_ok env \<longleftrightarrow> (\<forall>tr part. part \<noteq> Obj_transport \<and> part \<noteq> Obj_client \<and> part \<noteq> Obj_server \<longrightarrow>
     0 \<le> sk_result env tr (Sys_new part))"

lemma wp_new:
  assumes "holds w F P"
    and "\<And>w'. holds w' F (add_mset part P) \<Longrightarrow> sk_tport w' = sk_tport w \<Longrightarrow> wp rest Q w'"
    and "\<And>w'. holds w' F P \<Longrightarrow> sk_tport w' = sk_tport w \<Longrightarrow> wp failed Q w'"
    and "part \<noteq> Obj_announced" "part \<noteq> Obj_counters"
  shows "wp (sys_make env part failed rest) Q w"
  unfolding sys_make_def wp_steps wp_syscall Let_def
  using assms by (auto simp: holds_def opened_def fds_after_append objs_def objs_after_append)

lemma wp_lock:
  assumes "holds w F P" "locks_ok env" "part \<noteq> Obj_transport" "part \<noteq> Obj_client" "part \<noteq> Obj_server"
    and "part \<noteq> Obj_announced" "part \<noteq> Obj_counters"
    and "\<And>w'. holds w' F (add_mset part P) \<Longrightarrow> sk_tport w' = sk_tport w \<Longrightarrow> wp rest Q w'"
  shows "wp (sys_make env part failed rest) Q w"
proof -
  have "\<not> sk_result env (sk_trace w) (Sys_new part) < 0"
    using assms(2-5) by (metis locks_ok_def not_le)
  then show ?thesis
    unfolding sys_make_def wp_steps wp_syscall Let_def
    using assms(1,6-8) by (simp add: holds_def opened_def fds_after_append objs_def objs_after_append)
qed

lemma wp_made:
  assumes "holds w F P" "locks_ok env" "part = Obj_queue \<or> part = Obj_filters"
    and "\<And>r w'. holds w' F (add_mset part P) \<Longrightarrow> sk_tport w' = sk_tport w \<Longrightarrow> Q r w'"
  shows "wp (syscall env (Sys_new part)) Q w"
proof -
  have "0 \<le> sk_result env (sk_trace w) (Sys_new part)" using assms(2,3) by (auto simp: locks_ok_def)
  then show ?thesis
    using assms(1,3,4) by (auto simp: wp_syscall Let_def holds_def opened_def fds_after_append objs_def objs_after_append)
qed

lemma wp_noted:
  assumes "holds w F P" "part = Obj_announced \<or> part = Obj_counters"
    and "\<And>r w'. holds w' F P \<Longrightarrow> sk_tport w' = sk_tport w \<Longrightarrow> Q r w'"
  shows "wp (syscall env (Sys_new part)) Q w" "\<And>R. (\<And>w'. holds w' F P \<Longrightarrow> sk_tport w' = sk_tport w \<Longrightarrow> R () w') \<Longrightarrow> wp (sys_gone env part) R w"
  using assms by (auto simp: wp_steps wp_syscall sys_gone_def Let_def holds_def opened_def fds_after_append objs_def objs_after_append)

lemma wp_gone:
  assumes "holds w F (add_mset part P)" "part \<noteq> Obj_announced" "part \<noteq> Obj_counters"
    and "\<And>w'. holds w' F P \<Longrightarrow> sk_tport w' = sk_tport w \<Longrightarrow> Q () w'"
  shows "wp (sys_gone env part) Q w"
  using assms by (auto simp: sys_gone_def wp_steps wp_syscall Let_def holds_def opened_def fds_after_append objs_def objs_after_append)

text \<open>The rules for \<open>wp\<close> without the state.\<close>

lemma wp_funs:
  "wp (State_Monad.bind m f) Q = wp m (\<lambda>a. wp (f a) Q)" "wp (State_Monad.return a) Q = Q a"
  "wp (sk_gets g) Q' = (\<lambda>v. Q' (g v) v)"
  by (simp_all add: fun_eq_iff wp_simps wp_prims)

lemma sk_modify_at: "wp (sk_modify g) Q = (\<lambda>v. Q () (g v))"
  by (simp add: fun_eq_iff wp_prims)

section \<open>Servers\<close>

definition server_parts :: "obj_part multiset" where
  "server_parts = {#Obj_server, Obj_mutex ''queue_mutex'', Obj_queue, Obj_filters, Obj_mutex ''queueing_state_mutex'',
     Obj_mutex ''queue_filter_mutex''#}"

text \<open>The state between calls: what is held besides the transport's socket, and the transport by its address.\<close>

definition at_rest :: "cmsg_transport \<Rightarrow> int multiset \<Rightarrow> obj_part multiset \<Rightarrow> sock_state \<Rightarrow> bool" where
  "at_rest t F P w \<longleftrightarrow> holds w (own_fds (sk_tport w) + F) P \<and> -1 \<le> t_socket (sk_tport w) \<and> address (sk_tport w) = address t"

definition socketless :: "cmsg_transport \<Rightarrow> int multiset \<Rightarrow> obj_part multiset \<Rightarrow> sock_state \<Rightarrow> bool" where
  "socketless t F P w \<longleftrightarrow> at_rest t F P w \<and> t_socket (sk_tport w) = -1"

lemma at_rest_funcs: "at_rest t F P w \<Longrightarrow> tport_funcs (sk_tport w) = tport_funcs t"
  using addressD(2) unfolding at_rest_def by blast

lemma socketless_holds: "socketless t F P w \<Longrightarrow> holds w F P"
  by (auto simp: socketless_def at_rest_def own_fds_def)

lemma at_rest_objs:
  assumes "at_rest t F P w" "holds w' (own_fds (sk_tport w) + F) P'" "sk_tport w' = sk_tport w"
  shows "at_rest t F P' w'"
  using assms by (simp add: at_rest_def)

lemma wp_new_at:
  assumes "at_rest t F P w" "part \<noteq> Obj_announced" "part \<noteq> Obj_counters"
    and "\<And>w'. at_rest t F (add_mset part P) w' \<Longrightarrow> sk_tport w' = sk_tport w \<Longrightarrow> wp rest Q w'"
    and "\<And>w'. at_rest t F P w' \<Longrightarrow> sk_tport w' = sk_tport w \<Longrightarrow> wp failed Q w'"
  shows "wp (sys_make env part failed rest) Q w"
proof -
  have h: "holds w (own_fds (sk_tport w) + F) P" using assms(1) by (simp add: at_rest_def)
  show ?thesis
    by (rule wp_new [OF h _ _ assms(2,3)]) (use assms(4,5) at_rest_objs [OF assms(1)] in blast)+
qed

lemma wp_lock_at:
  assumes "at_rest t F P w" "locks_ok env"
    and "\<And>w'. at_rest t F (add_mset part P) w' \<Longrightarrow> sk_tport w' = sk_tport w \<Longrightarrow> wp rest Q w'"
    and "part \<noteq> Obj_transport" "part \<noteq> Obj_client" "part \<noteq> Obj_server" "part \<noteq> Obj_announced" "part \<noteq> Obj_counters"
  shows "wp (sys_make env part failed rest) Q w"
proof -
  have h: "holds w (own_fds (sk_tport w) + F) P" using assms(1) by (simp add: at_rest_def)
  show ?thesis
    by (rule wp_lock [OF h assms(2,4-8)]) (use assms(3) at_rest_objs [OF assms(1)] in blast)
qed

lemma wp_made_at:
  assumes "at_rest t F P w" "locks_ok env" "part = Obj_queue \<or> part = Obj_filters"
    and "\<And>r w'. at_rest t F (add_mset part P) w' \<Longrightarrow> sk_tport w' = sk_tport w \<Longrightarrow> Q r w'"
  shows "wp (syscall env (Sys_new part)) Q w"
proof -
  have h: "holds w (own_fds (sk_tport w) + F) P" using assms(1) by (simp add: at_rest_def)
  show ?thesis
    by (rule wp_made [OF h assms(2,3)]) (use assms(4) at_rest_objs [OF assms(1)] in blast)
qed

lemma wp_noted_at:
  assumes "at_rest t F P w" "part = Obj_announced \<or> part = Obj_counters"
  shows "(\<And>r w'. at_rest t F P w' \<Longrightarrow> sk_tport w' = sk_tport w \<Longrightarrow> Q r w') \<Longrightarrow> wp (syscall env (Sys_new part)) Q w"
    "(\<And>w'. at_rest t F P w' \<Longrightarrow> sk_tport w' = sk_tport w \<Longrightarrow> R () w') \<Longrightarrow> wp (sys_gone env part) R w"
proof -
  have h: "holds w (own_fds (sk_tport w) + F) P" using assms(1) by (simp add: at_rest_def)
  show "wp (syscall env (Sys_new part)) Q w" if "\<And>r w'. at_rest t F P w' \<Longrightarrow> sk_tport w' = sk_tport w \<Longrightarrow> Q r w'"
    by (rule wp_noted(1) [OF h assms(2)]) (use that at_rest_objs [OF assms(1)] in blast)
  show "wp (sys_gone env part) R w" if "\<And>w'. at_rest t F P w' \<Longrightarrow> sk_tport w' = sk_tport w \<Longrightarrow> R () w'"
    by (rule wp_noted(2) [OF h assms(2), where Q = "\<lambda>_ _. True"]) (use that at_rest_objs [OF assms(1)] in blast)+
qed

lemma wp_gone_at:
  assumes "at_rest t F P w" "part \<in># P" "part \<noteq> Obj_announced" "part \<noteq> Obj_counters"
    and "\<And>w'. at_rest t F (P - {#part#}) w' \<Longrightarrow> sk_tport w' = sk_tport w \<Longrightarrow> Q () w'"
  shows "wp (sys_gone env part) Q w"
proof -
  have "P = add_mset part (P - {#part#})" using assms(2) by simp
  with assms(1) have h: "holds w (own_fds (sk_tport w) + F) (add_mset part (P - {#part#}))" by (simp add: at_rest_def)
  show ?thesis
    by (rule wp_gone [OF h assms(3,4)]) (use assms(5) at_rest_objs [OF assms(1)] in blast)
qed

text \<open>Listening: on failure there is still no socket.\<close>

lemma listen_at:
  assumes "sk_ok env" "socketless t F P w" "fn_listen (tport_funcs (cmsg_transport_new type)) = Some f" "type \<noteq> CMSG_TRANSPORT_BROADCAST"
    and "\<And>r w'. at_rest t F P w' \<Longrightarrow> (r < 0 \<Longrightarrow> socketless t F P w') \<Longrightarrow>
      (0 \<le> r \<Longrightarrow> t_socket (sk_tport w') \<noteq> -1) \<Longrightarrow> Q r w'"
  shows "wp (tport_listen env f) Q w"
proof -
  have w: "opened w = Some F" "t_socket (sk_tport w) = -1" "objs w = Some P" "address (sk_tport w) = address t"
    using assms(2) by (simp_all add: socketless_def at_rest_def holds_def own_fds_def)
  have "wp (tport_listen env f) (made F) w"
    using assms(3,4) tcp_listen_fds [OF assms(1) w(1,2)] unix_listen_fds [OF assms(1) w(1,2)]
    by (cases type) (auto simp: tport_listen_def cmsg_transport_new_def transport_init_defs Let_def)
  moreover have "wp (tport_listen env f) (\<lambda>_ w'. objs w' = objs w \<and> address (sk_tport w') = address (sk_tport w)) w"
    using plain_listen by (auto simp: plain_def)
  ultimately show ?thesis
    by (rule wp_mono [OF wp_conj])
      (rule assms(5); use w in \<open>auto simp: made_def at_rest_def socketless_def owns_own_fds holds_def\<close>)
qed

lemma socketless_tport:
  assumes "socketless t F P w" "t_socket t' = -1" "address t' = address t"
  shows "socketless t F P (w\<lparr>sk_tport := t'\<rparr>)"
  using assms by (simp add: socketless_def at_rest_def holds_def own_fds_def)

text \<open>Transports without sockets.\<close>

definition in_memory :: "cmsg_transport_type \<Rightarrow> bool" where
  "in_memory type \<longleftrightarrow> type = CMSG_TRANSPORT_LOOPBACK \<or> type = CMSG_TRANSPORT_FORWARDING"

lemma in_memory_listen: "in_memory type \<Longrightarrow> fn_listen (tport_funcs (cmsg_transport_new type)) = None"
  by (auto simp: in_memory_def cmsg_transport_new_def transport_init_defs Let_def no_funcs_def)

lemma listen_in_memory: "fn_listen (tport_funcs (cmsg_transport_new type)) = None \<Longrightarrow> type \<noteq> CMSG_TRANSPORT_BROADCAST \<Longrightarrow> in_memory type"
  by (cases type) (simp_all add: in_memory_def cmsg_transport_new_def transport_init_defs Let_def)

lemma server_create_at:
  assumes "sk_ok env" "locks_ok env" "socketless t F P w" "tport_funcs t = tport_funcs (cmsg_transport_new type)"
    and "type \<noteq> CMSG_TRANSPORT_BROADCAST"
    and "\<And>w'. socketless t F P w' \<Longrightarrow> Q None w'"
    and "\<And>w'. at_rest t F (server_parts + P) w' \<Longrightarrow> in_memory type \<longleftrightarrow> t_socket (sk_tport w') = -1 \<Longrightarrow>
      Q (Some (cmsg_server_create (t_type t) service)) w'"
  shows "wp (server_create env service) Q w"
proof -
  have gone: "wp (sys_gone env Obj_server) (\<lambda>_. Q None) v" if "socketless t F (add_mset Obj_server P) v" for v
    using that assms(6) by (intro wp_gone_at [of t F "add_mset Obj_server P"]) (auto simp: socketless_def)
  have rest: "wp (server_listening env service) Q v"
    if "at_rest t F (add_mset Obj_server P) v" "in_memory type \<longleftrightarrow> t_socket (sk_tport v) = -1" for v
  proof -
    have type: "t_type (sk_tport v) = t_type t" using that(1) addressD(1) unfolding at_rest_def by blast
    show ?thesis unfolding server_listening_def wp_steps
    by (rule wp_lock_at [OF that(1) assms(2)], unfold wp_steps, rule wp_made_at [OF _ assms(2)], assumption, simp,
        rule wp_made_at [OF _ assms(2)], assumption, simp, rule wp_lock_at [OF _ assms(2)], assumption,
        rule wp_lock_at [OF _ assms(2)], assumption, unfold wp_steps, simp add: type, rule assms(7))
      (use that(2) in \<open>auto simp: server_parts_def add_mset_commute\<close>)
  qed
  show ?thesis unfolding server_create_def
  proof (rule wp_new_at [where t = t and F = F and P = P])
    show "at_rest t F P w" using assms(3) by (simp add: socketless_def)
  next
    fix v assume v: "at_rest t F P v" "sk_tport v = sk_tport w"
    then show "wp (State_Monad.return None) Q v"
      using assms(3,6) by (simp add: wp_steps socketless_def)
  next
    fix v assume "at_rest t F (add_mset Obj_server P) v" "sk_tport v = sk_tport w"
    then have v: "socketless t F (add_mset Obj_server P) v" using assms(3) by (simp add: socketless_def)
    define v' where "v' = v\<lparr>sk_tport := (sk_tport v)\<lparr>tport_id := transport_id env (sk_tport v), parent_obj_id := take 10 (svc_name service),
      receive_peek_timeout := SERVER_RECV_HEADER_PEEK_TIMEOUT\<rparr>\<rparr>"
    have v': "socketless t F (add_mset Obj_server P) v'"
      using v unfolding v'_def
      by (intro socketless_tport) (auto simp: socketless_def at_rest_def address_def)
    then have funcs: "tport_funcs (sk_tport v') = tport_funcs (cmsg_transport_new type)"
      using at_rest_funcs assms(4) by (metis socketless_def)
    have "wp (case fn_listen (tport_funcs (sk_tport v')) of None \<Rightarrow> State_Monad.return 0 | Some f \<Rightarrow> tport_listen env f)
      (\<lambda>r w'. at_rest t F (add_mset Obj_server P) w' \<and> (r < 0 \<longrightarrow> socketless t F (add_mset Obj_server P) w') \<and>
        (0 \<le> r \<longrightarrow> (in_memory type \<longleftrightarrow> t_socket (sk_tport w') = -1))) v'"
      using v' funcs assms(5)
      by (auto simp: wp_steps socketless_def in_memory_listen listen_in_memory split: option.split intro!: listen_at [OF assms(1) v'])
    then show "wp (do {
          _ \<leftarrow> cmsg_transport_write_id env (svc_name service);
          _ \<leftarrow> cmsg_transport_set_recv_peek_timeout SERVER_RECV_HEADER_PEEK_TIMEOUT;
          t \<leftarrow> sk_gets sk_tport;
          ret \<leftarrow> (case fn_listen (tport_funcs t) of Some f \<Rightarrow> tport_listen env f | None \<Rightarrow> State_Monad.return 0);
          if ret < 0 then do { _ \<leftarrow> sys_gone env Obj_server; State_Monad.return None }
          else server_listening env service
        }) Q v"
      unfolding cmsg_transport_write_id_def cmsg_transport_set_recv_peek_timeout_def wp_steps
      by (simp add: v'_def) (rule wp_mono, assumption, use gone rest in auto)
  qed simp_all
qed

lemma server_new_at:
  assumes "sk_ok env" "locks_ok env" "socketless t F P w" "tport_funcs t = tport_funcs (cmsg_transport_new type)"
    and "type \<noteq> CMSG_TRANSPORT_BROADCAST"
    and "\<And>w'. socketless t F P w' \<Longrightarrow> Q None w'"
    and "\<And>w'. at_rest t F (server_parts + P) w' \<Longrightarrow> in_memory type \<longleftrightarrow> t_socket (sk_tport w') = -1 \<Longrightarrow>
      Q (Some (cmsg_server_create (t_type t) service)) w'"
  shows "wp (cmsg_server_new env service) Q w"
  unfolding cmsg_server_new_def wp_steps
proof (rule server_create_at [OF assms(1-5)], goal_cases)
  case (1 w')
  then show ?case using assms(6) by simp
next
  case (2 w')
  have "wp (syscall env (Sys_new Obj_announced)) (\<lambda>_ v. wp (syscall env (Sys_new Obj_counters)) (\<lambda>_. Q (Some (cmsg_server_create (t_type t) service))) v) w'"
  proof (rule wp_noted_at(1) [OF 2(1)])
    fix v assume v: "at_rest t F (server_parts + P) v" "sk_tport v = sk_tport w'"
    show "wp (syscall env (Sys_new Obj_counters)) (\<lambda>_. Q (Some (cmsg_server_create (t_type t) service))) v"
      by (rule wp_noted_at(1) [OF v(1)], simp, rule assms(7)) (use v(2) 2(2) in simp_all)
  qed simp
  then show ?case by (simp add: wp_steps)
qed

text \<open>Closing the transport's socket. (A loopback or forwarding transport has none.)\<close>

lemma close_at:
  assumes "sk_ok env" "at_rest t F P w" "tport_funcs t = tport_funcs (cmsg_transport_new type)"
    and "in_memory type \<Longrightarrow> t_socket (sk_tport w) = -1"
    and "\<And>w'. socketless t F P w' \<Longrightarrow> Q () w'"
  shows "wp (case fn_socket_close (tport_funcs (sk_tport w)) of None \<Rightarrow> State_Monad.return () | Some f \<Rightarrow> tport_socket_close env f) Q w"
proof -
  have funcs: "tport_funcs (sk_tport w) = tport_funcs (cmsg_transport_new type)"
    using at_rest_funcs [OF assms(2)] assms(3) by simp
  have w: "owns w F" "objs w = Some P" using assms(2) by (auto simp: owns_own_fds at_rest_def holds_def)
  show ?thesis
  proof (cases "in_memory type")
    case True
    then have "t_socket (sk_tport w) = -1" using assms(4) by blast
    moreover from this have "Q () w" using assms(2,5) by (simp add: socketless_def)
    ultimately show ?thesis
      by (simp add: wp_steps tport_socket_close_def cmsg_transport_tcp_socket_close_def cmsg_transport_socket_close_def
          close_with_def split: option.split)
  next
    case False
    then obtain f where f: "fn_socket_close (tport_funcs (sk_tport w)) = Some f"
      unfolding funcs by (cases type) (auto simp: cmsg_transport_new_def transport_init_defs Let_def no_funcs_def in_memory_def)
    have "wp (tport_socket_close env f) (\<lambda>_ w'. opened w' = Some F \<and> t_socket (sk_tport w') = -1) w"
      using close_fds [OF assms(1) w(1) funcs] False f by (simp add: in_memory_def)
    moreover have "wp (tport_socket_close env f) (\<lambda>_ w'. objs w' = objs w \<and> address (sk_tport w') = address (sk_tport w)) w"
      using plain_close by (auto simp: plain_def)
    ultimately have "wp (tport_socket_close env f) Q w"
    proof (rule wp_mono [OF wp_conj])
      fix u w' assume "(opened w' = Some F \<and> t_socket (sk_tport w') = -1) \<and>
        objs w' = objs w \<and> address (sk_tport w') = address (sk_tport w)"
      then have "socketless t F P w'"
        using w(2) assms(2) by (simp add: at_rest_def socketless_def own_fds_def holds_def)
      then show "Q u w'" using assms(5) by simp
    qed
    then show ?thesis by (simp add: f)
  qed
qed

lemma wp_close_at:
  assumes "at_rest t (add_mset fd F) P w" "\<And>r w'. at_rest t F P w' \<Longrightarrow> sk_tport w' = sk_tport w \<Longrightarrow> Q r w'"
  shows "wp (syscall env (Sys_close fd)) Q w"
  unfolding wp_syscall Let_def
  by (rule assms(2)) (use assms(1) in \<open>auto simp: at_rest_def holds_def opened_def fds_after_append objs_def objs_after_append\<close>)

lemma wp_shutdown_at:
  assumes "at_rest t F P w" "\<And>r w'. at_rest t F P w' \<Longrightarrow> sk_tport w' = sk_tport w \<Longrightarrow> Q r w'"
  shows "wp (syscall env (Sys_shutdown fd)) Q w" "wp (syscall env (Sys_unlink path)) Q w"
  unfolding wp_syscall Let_def
  by (rule assms(2); use assms(1) in \<open>auto simp: at_rest_def holds_def opened_def fds_after_append objs_def objs_after_append\<close>)+

lemma wp_next: "at_rest t F P w \<Longrightarrow> part \<noteq> Obj_announced \<Longrightarrow> part \<noteq> Obj_counters \<Longrightarrow> P = add_mset part P' \<Longrightarrow>
    (\<And>w'. at_rest t F P' w' \<Longrightarrow> sk_tport w' = sk_tport w \<Longrightarrow> Q () w') \<Longrightarrow> wp (sys_gone env part) Q w"
  by (rule wp_gone_at) auto

lemma close_each_at:
  assumes "at_rest t (mset fds + F) P w" "\<And>w'. at_rest t F P w' \<Longrightarrow> sk_tport w' = sk_tport w \<Longrightarrow> Q () w'"
    and "\<And>v fd F' R. at_rest t (add_mset fd F') P v \<Longrightarrow>
      (\<And>v'. at_rest t F' P v' \<Longrightarrow> sk_tport v' = sk_tport v \<Longrightarrow> R () v') \<Longrightarrow> wp (close fd) R v"
  shows "wp (sock_each close fds) Q w"
  using assms(1,2)
proof (induction fds arbitrary: w)
  case (Cons fd fds)
  have "wp (close fd) (\<lambda>_. wp (sock_each close fds) Q) w"
  proof (rule assms(3) [where F' = "mset fds + F"])
    show "at_rest t (add_mset fd (mset fds + F)) P w" using Cons.prems(1) by simp
  next
    fix v assume v: "at_rest t (mset fds + F) P v" "sk_tport v = sk_tport w"
    show "wp (sock_each close fds) Q v" by (rule Cons.IH [OF v(1)]) (use Cons.prems(2) v(2) in simp)
  qed
  then show ?case by (simp add: wp_simps)
qed (simp add: wp_simps)

definition info_fds :: "(int \<times> int list) option \<Rightarrow> int multiset" where
  "info_fds info = (case info of None \<Rightarrow> {#} | Some (efd, q) \<Rightarrow> add_mset efd (mset q))"

text \<open>In the order in which they are released.\<close>

definition accept_parts :: "(int \<times> int list) option \<Rightarrow> obj_part multiset" where
  "accept_parts info = (if info = None then {#} else {#Obj_accept_thread, Obj_accept_queue, Obj_accept_info#})"

definition crypto_parts :: "bool \<Rightarrow> obj_part multiset" where
  "crypto_parts crypto = (if crypto then {#Obj_mutex ''crypto_sa_hash_table_mutex''#} else {#})"

lemma accept_deinit_at:
  assumes "at_rest t (info_fds (Some (efd, q)) + F) (accept_parts (Some (efd, q)) + P) w"
    and "\<And>w'. at_rest t F P w' \<Longrightarrow> sk_tport w' = sk_tport w \<Longrightarrow> Q () w'"
  shows "wp (server_accept_deinit env (efd, q)) Q w"
proof -
  have w: "at_rest t (add_mset efd (mset q + F)) (add_mset Obj_accept_thread (add_mset Obj_accept_queue (add_mset Obj_accept_info P))) w"
    using assms(1) by (simp add: info_fds_def accept_parts_def)
  show ?thesis
    unfolding server_accept_deinit_def wp_simps fst_conv snd_conv
  proof (rule wp_next [OF w _ _ refl])
    fix w1 assume w1: "at_rest t (add_mset efd (mset q + F)) (add_mset Obj_accept_queue (add_mset Obj_accept_info P)) w1" "sk_tport w1 = sk_tport w"
    show "wp (syscall env (Sys_close efd)) (\<lambda>_. wp (sock_each (\<lambda>fd. do { _ \<leftarrow> syscall env (Sys_close fd); State_Monad.return () }) q)
        (\<lambda>_. wp (sys_gone env Obj_accept_queue) (\<lambda>_. wp (sys_gone env Obj_accept_info) Q))) w1"
    proof (rule wp_close_at [OF w1(1)])
      fix w2 assume w2: "at_rest t (mset q + F) (add_mset Obj_accept_queue (add_mset Obj_accept_info P)) w2" "sk_tport w2 = sk_tport w1"
      show "wp (sock_each (\<lambda>fd. do { _ \<leftarrow> syscall env (Sys_close fd); State_Monad.return () }) q)
        (\<lambda>_. wp (sys_gone env Obj_accept_queue) (\<lambda>_. wp (sys_gone env Obj_accept_info) Q)) w2"
      proof (rule close_each_at [OF w2(1)])
        fix w3 assume w3: "at_rest t F (add_mset Obj_accept_queue (add_mset Obj_accept_info P)) w3" "sk_tport w3 = sk_tport w2"
        show "wp (sys_gone env Obj_accept_queue) (\<lambda>_. wp (sys_gone env Obj_accept_info) Q) w3"
        proof (rule wp_next [OF w3(1) _ _ refl])
          fix w4 assume w4: "at_rest t F (add_mset Obj_accept_info P) w4" "sk_tport w4 = sk_tport w3"
          show "wp (sys_gone env Obj_accept_info) Q w4"
            by (rule wp_next [OF w4(1) _ _ refl]) (use assms(2) w1 w2 w3 w4 in simp_all)
        qed simp_all
      qed (auto simp: wp_simps intro: wp_close_at)
    qed
  qed simp_all
qed

lemma server_destroy_at:
  assumes "sk_ok env" "at_rest t (mset accepted + (info_fds info + F)) (server_parts + accept_parts info + crypto_parts crypto + P) w"
    and "tport_funcs t = tport_funcs (cmsg_transport_new type)"
    and "in_memory type \<Longrightarrow> t_socket (sk_tport w) = -1"
    and "\<And>w'. socketless t F (add_mset (Obj_mutex ''queue_filter_mutex'') P) w' \<Longrightarrow> Q () w'"
  shows "wp (cmsg_server_destroy env accepted info crypto) Q w"
proof -
  define E where "E = add_mset (Obj_mutex ''queue_filter_mutex'') P"
  define D where "D = crypto_parts crypto + add_mset Obj_server E"
  define C where "C = accept_parts info + D"
  define B where "B = add_mset Obj_filters (add_mset Obj_queue (add_mset (Obj_mutex ''queueing_state_mutex'') (add_mset (Obj_mutex ''queue_mutex'') C)))"
  have B: "server_parts + accept_parts info + crypto_parts crypto + P = B"
    by (simp add: B_def C_def D_def E_def server_parts_def accept_parts_def add_mset_commute)
  let ?G = "mset accepted + (info_fds info + F)"
  have end_parts: "wp (sock_when crypto (sys_gone env (Obj_mutex ''crypto_sa_hash_table_mutex''))) (\<lambda>_. wp (sys_gone env Obj_server) Q) v"
    if "socketless t F D v" for v
  proof -
    have server: "wp (sys_gone env Obj_server) Q v" if "at_rest t F (add_mset Obj_server E) v" "t_socket (sk_tport v) = -1" for v
      by (rule wp_next [OF that(1) _ _ refl]) (use assms(5) that in \<open>simp_all add: socketless_def E_def\<close>)
    show ?thesis
    proof (cases crypto)
      case True
      then have v: "at_rest t F (add_mset (Obj_mutex ''crypto_sa_hash_table_mutex'') (add_mset Obj_server E)) v" "t_socket (sk_tport v) = -1"
        using that by (simp_all add: socketless_def D_def crypto_parts_def add_mset_commute)
      show ?thesis unfolding wp_prims
        using True by (simp, intro wp_next [OF v(1) _ _ refl]) (use server v(2) in simp_all)
    qed (use that server in \<open>simp add: wp_prims socketless_def D_def crypto_parts_def\<close>)
  qed
  have closing: "wp (case fn_socket_close (tport_funcs (sk_tport v)) of None \<Rightarrow> State_Monad.return () | Some f \<Rightarrow> tport_socket_close env f)
      (\<lambda>_. wp (sock_when crypto (sys_gone env (Obj_mutex ''crypto_sa_hash_table_mutex''))) (\<lambda>_. wp (sys_gone env Obj_server) Q)) v"
    if "at_rest t F D v" "sk_tport v = sk_tport w" for v
    by (rule close_at [OF assms(1) that(1) assms(3)]) (use assms(4) that(2) end_parts in simp_all)
  have stopping: "wp (case info of None \<Rightarrow> State_Monad.return () | Some info \<Rightarrow> server_accept_deinit env info)
      (\<lambda>_ v. wp (case fn_socket_close (tport_funcs (sk_tport v)) of None \<Rightarrow> State_Monad.return () | Some f \<Rightarrow> tport_socket_close env f)
        (\<lambda>_. wp (sock_when crypto (sys_gone env (Obj_mutex ''crypto_sa_hash_table_mutex''))) (\<lambda>_. wp (sys_gone env Obj_server) Q)) v) v"
    if "at_rest t (info_fds info + F) C v" "sk_tport v = sk_tport w" for v
  proof (cases info)
    case None
    then show ?thesis using that closing by (simp add: wp_simps info_fds_def accept_parts_def C_def)
  next
    case (Some i)
    obtain efd q where i: "i = (efd, q)" by (cases i)
    have v: "at_rest t (info_fds (Some (efd, q)) + F) (accept_parts (Some (efd, q)) + D) v"
      using that(1) by (simp add: Some i C_def)
    show ?thesis unfolding Some i option.case
      by (rule accept_deinit_at [OF v]) (use closing that(2) in simp)
  qed
  define finish where "finish = (\<lambda>v. wp (case info of None \<Rightarrow> State_Monad.return () | Some info \<Rightarrow> server_accept_deinit env info)
      (\<lambda>_ v. wp (case fn_socket_close (tport_funcs (sk_tport v)) of None \<Rightarrow> State_Monad.return () | Some f \<Rightarrow> tport_socket_close env f)
        (\<lambda>_. wp (sock_when crypto (sys_gone env (Obj_mutex ''crypto_sa_hash_table_mutex''))) (\<lambda>_. wp (sys_gone env Obj_server) Q)) v) v)"
  have unfold: "wp (cmsg_server_destroy env accepted info crypto) Q w =
      wp (sys_gone env Obj_announced) (\<lambda>_. wp (sock_each (server_close_accepted env) accepted) (\<lambda>_.
        wp (sys_gone env Obj_counters) (\<lambda>_. wp (sys_gone env Obj_filters) (\<lambda>_. wp (sys_gone env Obj_queue) (\<lambda>_.
        wp (sys_gone env (Obj_mutex ''queueing_state_mutex'')) (\<lambda>_. wp (sys_gone env (Obj_mutex ''queue_mutex'')) (\<lambda>_. finish))))))) w"
    by (simp add: cmsg_server_destroy_def wp_funs finish_def)
  have "at_rest t ?G B w" using assms(2) B by simp
  then show ?thesis unfolding unfold
  proof (rule wp_noted_at(2))
    fix w1 assume w1: "at_rest t ?G B w1" "sk_tport w1 = sk_tport w"
    show "wp (sock_each (server_close_accepted env) accepted) (\<lambda>_.
        wp (sys_gone env Obj_counters) (\<lambda>_. wp (sys_gone env Obj_filters) (\<lambda>_. wp (sys_gone env Obj_queue) (\<lambda>_.
        wp (sys_gone env (Obj_mutex ''queueing_state_mutex'')) (\<lambda>_. wp (sys_gone env (Obj_mutex ''queue_mutex'')) (\<lambda>_. finish)))))) w1"
    proof (rule close_each_at [OF w1(1)])
      fix v fd F' R assume v: "at_rest t (add_mset fd F') B v" "\<And>v'. at_rest t F' B v' \<Longrightarrow> sk_tport v' = sk_tport v \<Longrightarrow> R () v'"
      show "wp (server_close_accepted env fd) R v"
        unfolding server_close_accepted_def wp_simps
        by (rule wp_shutdown_at(1) [OF v(1)], rule wp_close_at, assumption) (use v(2) in simp)
    next
      fix w2 assume w2: "at_rest t (info_fds info + F) B w2" "sk_tport w2 = sk_tport w1"
      show "wp (sys_gone env Obj_counters) (\<lambda>_. wp (sys_gone env Obj_filters) (\<lambda>_. wp (sys_gone env Obj_queue) (\<lambda>_.
        wp (sys_gone env (Obj_mutex ''queueing_state_mutex'')) (\<lambda>_. wp (sys_gone env (Obj_mutex ''queue_mutex'')) (\<lambda>_. finish))))) w2"
        by (rule wp_noted_at(2) [OF w2(1)], simp, unfold B_def, rule wp_next, assumption, simp, simp, rule refl,
            rule wp_next, assumption, simp, simp, rule refl, rule wp_next, assumption, simp, simp, rule refl,
            rule wp_next, assumption, simp, simp, rule refl)
          (use stopping w1(2) w2(2) in \<open>simp add: finish_def\<close>)
    qed
  qed simp
qed

lemma destroy_server_at:
  assumes "sk_ok env" "at_rest t (mset accepted + (info_fds info + F)) (add_mset Obj_transport server_parts + accept_parts info + crypto_parts crypto + P) w"
    and "tport_funcs t = tport_funcs (cmsg_transport_new type)" "in_memory type \<Longrightarrow> t_socket (sk_tport w) = -1"
  shows "wp (cmsg_destroy_server_and_transport env accepted info crypto)
    (\<lambda>_ w'. holds w' F (add_mset (Obj_mutex ''queue_filter_mutex'') P)) w"
proof -
  have w: "at_rest t (mset accepted + (info_fds info + F)) (server_parts + accept_parts info + crypto_parts crypto + add_mset Obj_transport P) w"
    using assms(2) by simp
  define E where "E = add_mset (Obj_mutex ''queue_filter_mutex'') P"
  have gone: "wp (sys_gone env Obj_transport) (\<lambda>_ w'. holds w' F E) v" if "socketless t F (add_mset Obj_transport E) v" for v
    by (rule wp_next [of t F _ v _ E]) (use that in \<open>auto simp: socketless_def intro!: socketless_holds\<close>)
  have "wp (cmsg_server_destroy env accepted info crypto) (\<lambda>_ v.
      wp (sock_when (t_type (sk_tport v) = CMSG_TRANSPORT_RPC_UNIX \<or> t_type (sk_tport v) = CMSG_TRANSPORT_ONEWAY_UNIX)
        (do { _ \<leftarrow> syscall env (Sys_unlink (sun_path (sk_tport v))); State_Monad.return () }))
        (\<lambda>_. wp (sys_gone env Obj_transport) (\<lambda>_ w'. holds w' F E)) v) w"
  proof (rule server_destroy_at [OF assms(1) w assms(3,4)])
    fix v assume "socketless t F (add_mset (Obj_mutex ''queue_filter_mutex'') (add_mset Obj_transport P)) v"
    then have v: "socketless t F (add_mset Obj_transport E) v" by (simp add: E_def add_mset_commute)
    show "wp (sock_when (t_type (sk_tport v) = CMSG_TRANSPORT_RPC_UNIX \<or> t_type (sk_tport v) = CMSG_TRANSPORT_ONEWAY_UNIX)
        (do { _ \<leftarrow> syscall env (Sys_unlink (sun_path (sk_tport v))); State_Monad.return () }))
        (\<lambda>_. wp (sys_gone env Obj_transport) (\<lambda>_ w'. holds w' F E)) v"
      unfolding wp_prims
      using v gone by (auto simp: wp_simps socketless_def intro!: wp_shutdown_at(2))
  qed assumption
  then show ?thesis
    by (simp add: cmsg_destroy_server_and_transport_def cmsg_transport_destroy_def wp_funs sys_gone_def E_def)
qed

text \<open>The frame around the creation of an endpoint.\<close>

lemma transport_gone:
  assumes "socketless t F (add_mset Obj_transport P) v" "\<And>v. holds v F P \<Longrightarrow> Q () v"
  shows "wp (cmsg_transport_destroy env) Q v"
proof -
  have "wp (sys_gone env Obj_transport) Q v"
    by (rule wp_next [of t F _ v _ P]) (use assms(1) assms(2) [OF socketless_holds] in \<open>auto simp: socketless_def\<close>)
  then show ?thesis by (simp add: cmsg_transport_destroy_def sys_gone_def)
qed

lemma with_transport_wp:
  assumes "holds w F P" "\<And>t. transport = Some t \<Longrightarrow> t_socket t = -1" "\<And>v. holds v F P \<Longrightarrow> Q None v"
    and "\<And>v t. transport = Some t \<Longrightarrow> socketless t F (add_mset Obj_transport P) v \<Longrightarrow>
      wp create (\<lambda>e v'. if e = None then wp (cmsg_transport_destroy env) (\<lambda>_. Q None) v' else Q e v') v"
  shows "wp (with_transport env transport create) Q w"
proof (cases transport)
  case None
  then show ?thesis using assms(1,3) by (simp add: with_transport_def wp_simps)
next
  case (Some t)
  show ?thesis unfolding with_transport_def Some option.case
  proof (rule wp_new [OF assms(1)])
    fix v assume v: "holds v F (add_mset Obj_transport P)"
    then have "socketless t F (add_mset Obj_transport P) (v\<lparr>sk_tport := t\<rparr>)"
      using assms(2) [OF Some] by (simp add: socketless_def at_rest_def holds_def own_fds_def)
    from assms(4) [OF Some this]
    have "wp create (\<lambda>e v'. wp (sock_when (e = None) (cmsg_transport_destroy env)) (\<lambda>_. Q e) v') (v\<lparr>sk_tport := t\<rparr>)"
      by (rule wp_mono) (auto simp: wp_prims split: if_splits)
    then show "wp (do { _ \<leftarrow> sk_modify (\<lambda>w. w\<lparr>sk_tport := t\<rparr>); e \<leftarrow> create; _ \<leftarrow> sock_when (e = None) (cmsg_transport_destroy env); State_Monad.return e }) Q v"
      by (simp add: wp_funs sk_modify_at)
  qed (use assms(3) in \<open>simp_all add: wp_simps\<close>)
qed

lemma with_transport_at:
  assumes "holds w F P" "\<And>t. transport = Some t \<Longrightarrow> t_socket t = -1" "\<And>v. holds v F P \<Longrightarrow> Q None v"
    and "\<And>v t. transport = Some t \<Longrightarrow> socketless t F (add_mset Obj_transport P) v \<Longrightarrow>
      wp create (\<lambda>e v'. case e of None \<Rightarrow> socketless t F (add_mset Obj_transport P) v' | Some e \<Rightarrow> Q (Some e) v') v"
  shows "wp (with_transport env transport create) Q w"
proof (rule with_transport_wp [OF assms(1)])
  fix v t assume "transport = Some t" "socketless t F (add_mset Obj_transport P) v"
  from assms(4) [OF this]
  show "wp create (\<lambda>e v'. if e = None then wp (cmsg_transport_destroy env) (\<lambda>_. Q None) v' else Q e v') v"
    by (rule wp_mono) (auto intro: transport_gone assms(3) split: option.splits)
qed (use assms(2,3) in simp_all)

section \<open>Clients\<close>

definition client_parts :: "obj_part multiset" where
  "client_parts = {#Obj_client, Obj_mutex ''queue_mutex'', Obj_queue, Obj_filters, Obj_cond ''queue_process_cond'',
     Obj_mutex ''queue_process_mutex'', Obj_mutex ''invoke_mutex'', Obj_mutex ''send_mutex''#}"

lemma client_init_at:
  assumes "locks_ok env" "socketless t F (add_mset Obj_client P) w"
    and "\<And>w'. socketless t F (client_parts + P) w' \<Longrightarrow> Q True w'"
  shows "wp (client_init env True descriptor) Q w"
proof -
  define w1 where "w1 = w\<lparr>sk_tport := (sk_tport w)\<lparr>tport_id := transport_id env (sk_tport w), parent_obj_id := take 10 (svc_name descriptor),
      receive_peek_timeout := CLIENT_RECV_HEADER_PEEK_TIMEOUT\<rparr>\<rparr>"
  have w1: "socketless t F (add_mset Obj_client P) w1"
    using assms(2) unfolding w1_def
    by (intro socketless_tport) (auto simp: socketless_def at_rest_def address_def)
  then have r: "at_rest t F (add_mset Obj_client P) w1" and no: "t_socket (sk_tport w1) = -1" by (simp_all add: socketless_def)
  have "wp (sys_make env (Obj_mutex ''queue_mutex'') (State_Monad.return False) (do {
       _ \<leftarrow> syscall env (Sys_new Obj_queue);
       _ \<leftarrow> syscall env (Sys_new Obj_filters);
       sys_make env (Obj_cond ''queue_process_cond'') (State_Monad.return False)
         (sys_make env (Obj_mutex ''queue_process_mutex'') (State_Monad.return False)
           (sys_make env (Obj_mutex ''invoke_mutex'') (State_Monad.return False)
             (sys_make env (Obj_mutex ''send_mutex'') (State_Monad.return False)
               (State_Monad.return True))))
     })) Q w1"
    by (rule wp_lock_at [OF r assms(1)], unfold wp_steps, rule wp_made_at [OF _ assms(1)], assumption, simp,
        rule wp_made_at [OF _ assms(1)], assumption, simp, rule wp_lock_at [OF _ assms(1)], assumption,
        rule wp_lock_at [OF _ assms(1)], assumption, rule wp_lock_at [OF _ assms(1)], assumption,
        rule wp_lock_at [OF _ assms(1)], assumption, unfold wp_steps, rule assms(3))
      (use no in \<open>auto simp: client_parts_def add_mset_commute socketless_def\<close>)
  then show ?thesis
    by (simp add: client_init_def cmsg_transport_write_id_def cmsg_transport_set_recv_peek_timeout_def wp_steps w1_def)
qed

lemma client_new_at:
  assumes "locks_ok env" "socketless t F P w" "\<And>v. socketless t F P v \<Longrightarrow> Q None v"
    and "\<And>v. socketless t F (client_parts + P) v \<Longrightarrow> Q (Some (cmsg_client_init handle transport (t_type t) descriptor)) v"
  shows "wp (cmsg_client_new env handle transport descriptor) Q w"
proof -
  define R where "R = (\<lambda>c. wp (sock_when (c \<noteq> None) (do { _ \<leftarrow> syscall env (Sys_new Obj_counters); State_Monad.return () })) (\<lambda>_. Q c))"
  have none: "R None v" if "socketless t F P v" for v using assms(3) that by (simp add: R_def wp_prims)
  have made: "R (Some (cmsg_client_init handle transport (t_type (sk_tport v)) descriptor)) v" if v: "socketless t F (client_parts + P) v" for v
  proof -
    have "t_type (sk_tport v) = t_type t" using v addressD(1) unfolding socketless_def at_rest_def by blast
    then show ?thesis unfolding R_def wp_prims
      using v assms(4) by (auto simp: wp_simps socketless_def intro!: wp_noted_at(1))
  qed
  have w: "at_rest t F P w" "t_socket (sk_tport w) = -1" using assms(2) by (simp_all add: socketless_def)
  have "wp (cmsg_client_create env handle transport descriptor) R w"
    unfolding cmsg_client_create_def
  proof (rule wp_new_at [OF w(1)])
    fix v assume v: "at_rest t F (add_mset Obj_client P) v" "sk_tport v = sk_tport w"
    then have "socketless t F (add_mset Obj_client P) v" using w(2) by (simp add: socketless_def)
    then have "wp (client_init env True descriptor) (\<lambda>ok v. ok \<and> socketless t F (client_parts + P) v) v"
      by (rule client_init_at [OF assms(1)]) simp
    then have "wp (client_init env True descriptor) (\<lambda>ok. wp (if \<not> ok then do { _ \<leftarrow> sys_gone env Obj_client; State_Monad.return None }
        else do { t \<leftarrow> sk_gets sk_tport; State_Monad.return (Some (cmsg_client_init handle transport (t_type t) descriptor)) }) R) v"
      by (rule wp_mono) (simp add: wp_simps wp_prims made)
    then show "wp (do {
          ok \<leftarrow> client_init env True descriptor;
          if \<not> ok then do { _ \<leftarrow> sys_gone env Obj_client; State_Monad.return None }
          else do { t \<leftarrow> sk_gets sk_tport; State_Monad.return (Some (cmsg_client_init handle transport (t_type t) descriptor)) }
        }) R v" by (simp add: wp_funs)
  qed (use none w(2) in \<open>simp_all add: wp_simps socketless_def\<close>)
  then show ?thesis by (simp add: cmsg_client_new_def wp_funs R_def)
qed

text \<open>A client goes with its connection, and a loopback client with its server.\<close>

definition sa_parts :: "bool \<Rightarrow> obj_part multiset" where
  "sa_parts crypto = (if crypto then {#Obj_crypto_sa#} else {#})"

lemma destroy_client_at:
  assumes "sk_ok env" "at_rest t F (add_mset Obj_transport client_parts + (if loopback then server_parts else {#}) + sa_parts crypto + P) w"
    and "tport_funcs t = tport_funcs (cmsg_transport_new type)" "in_memory type \<Longrightarrow> t_socket (sk_tport w) = -1"
  shows "wp (cmsg_destroy_client_and_transport env loopback crypto)
    (\<lambda>_ w'. holds w' F ((if loopback then {#Obj_mutex ''queue_filter_mutex''#} else {#}) + P)) w"
proof -
  define S where "S = (if loopback then server_parts else {#})"
  define S' where "S' = (if loopback then {#Obj_mutex ''queue_filter_mutex''#} else {#})"
  define E where "E = add_mset (Obj_mutex ''invoke_mutex'') (add_mset (Obj_mutex ''send_mutex'') (add_mset Obj_client (add_mset Obj_transport P)))"
  define B where "B = add_mset (Obj_mutex ''queue_process_mutex'') (add_mset (Obj_cond ''queue_process_cond'') (add_mset Obj_filters
      (add_mset Obj_queue (add_mset (Obj_mutex ''queue_mutex'') (S + (sa_parts crypto + E))))))"
  have B: "add_mset Obj_transport client_parts + (if loopback then server_parts else {#}) + sa_parts crypto + P = B"
    by (simp add: B_def E_def S_def sa_parts_def client_parts_def add_mset_commute)
  let ?R = "\<lambda>_ w'. holds w' F (S' + P)"
  let ?last = "\<lambda>_. wp (sys_gone env (Obj_mutex ''invoke_mutex'')) (\<lambda>_. wp (sys_gone env (Obj_mutex ''send_mutex'')) (\<lambda>_.
      wp (sys_gone env Obj_client) (\<lambda>_. wp (sys_gone env Obj_transport) ?R)))"
  let ?sa = "\<lambda>_. wp (sock_when crypto (sys_gone env Obj_crypto_sa)) ?last"
  have last: "?last () v"
    if v: "socketless t F (S' + E) v" for v
  proof -
    have "at_rest t F (add_mset (Obj_mutex ''invoke_mutex'') (add_mset (Obj_mutex ''send_mutex'') (add_mset Obj_client (add_mset Obj_transport (S' + P))))) v"
      "t_socket (sk_tport v) = -1"
      using v by (simp_all add: E_def socketless_def)
    then show ?thesis
      by - (rule wp_next, assumption, simp, simp, rule refl, rule wp_next, assumption, simp, simp, rule refl,
        rule wp_next, assumption, simp, simp, rule refl, rule wp_next, assumption, simp, simp, rule refl, rule socketless_holds,
        simp add: socketless_def)
  qed
  have sa: "?sa () v" if v: "socketless t F (S' + (sa_parts crypto + E)) v" for v
  proof (cases crypto)
    case True
    have "at_rest t F (add_mset Obj_crypto_sa (S' + E)) v" "t_socket (sk_tport v) = -1"
      using v True by (simp_all add: sa_parts_def socketless_def)
    then have "wp (sys_gone env Obj_crypto_sa) ?last v"
      by - (rule wp_next, assumption, simp, simp, rule refl, rule last, simp add: socketless_def)
    then show ?thesis using True by (simp add: sock_when_def wp_simps)
  next
    case False
    then show ?thesis using last [of v] v by (simp add: sa_parts_def sock_when_def wp_simps)
  qed
  have loop: "wp (sock_when loopback (cmsg_server_destroy env [] None False)) ?sa v"
    if v: "socketless t F (S + (sa_parts crypto + E)) v" for v
  proof (cases loopback)
    case True
    have "at_rest t (mset [] + (info_fds None + F)) (server_parts + accept_parts None + crypto_parts False + (sa_parts crypto + E)) v" "t_socket (sk_tport v) = -1"
      using v True by (simp_all add: info_fds_def accept_parts_def crypto_parts_def socketless_def S_def)
    then have "wp (cmsg_server_destroy env [] None False) ?sa v"
      by - (rule server_destroy_at [OF assms(1) _ assms(3)], assumption, assumption, rule sa, use True in \<open>simp add: S'_def\<close>)
    then show ?thesis using True by (simp add: sock_when_def)
  next
    case False
    then have "?sa () v" using v by (intro sa) (simp add: S_def S'_def)
    then show ?thesis using False by (simp only: sock_when_def if_False wp_simps)
  qed
  have closing: "wp (case fn_socket_close (tport_funcs (sk_tport v)) of None \<Rightarrow> State_Monad.return () | Some f \<Rightarrow> tport_socket_close env f)
      (\<lambda>_. wp (sock_when loopback (cmsg_server_destroy env [] None False)) ?sa) v"
    if "at_rest t F (S + (sa_parts crypto + E)) v" "sk_tport v = sk_tport w" for v
    by (rule close_at [OF assms(1) that(1) assms(3)]) (use assms(4) that(2) loop in simp_all)
  define finish where "finish = (\<lambda>v. wp (case fn_socket_close (tport_funcs (sk_tport v)) of None \<Rightarrow> State_Monad.return () | Some f \<Rightarrow> tport_socket_close env f)
      (\<lambda>_. wp (sock_when loopback (cmsg_server_destroy env [] None False)) ?sa) v)"
  have "at_rest t F B w" using assms(2) B by simp
  then have "wp (sys_gone env Obj_counters) (\<lambda>_. wp (sys_gone env (Obj_mutex ''queue_process_mutex'')) (\<lambda>_.
      wp (sys_gone env (Obj_cond ''queue_process_cond'')) (\<lambda>_. wp (sys_gone env Obj_filters) (\<lambda>_.
      wp (sys_gone env Obj_queue) (\<lambda>_. wp (sys_gone env (Obj_mutex ''queue_mutex'')) (\<lambda>_. finish)))))) w"
    by - (rule wp_noted_at(2), assumption, simp, unfold B_def, rule wp_next, assumption, simp, simp, rule refl,
        rule wp_next, assumption, simp, simp, rule refl, rule wp_next, assumption, simp, simp, rule refl,
        rule wp_next, assumption, simp, simp, rule refl, rule wp_next, assumption, simp, simp, rule refl,
        unfold finish_def, rule closing, assumption, simp)
  then show ?thesis
    by (simp add: cmsg_destroy_client_and_transport_def cmsg_client_destroy_def cmsg_client_deinit_def cmsg_transport_destroy_def
        wp_funs finish_def S'_def sys_gone_def)
qed

lemma connect_at:
  assumes "sk_ok env" "socketless t F P w" "tport_funcs t = tport_funcs (cmsg_transport_new type)"
    and "\<And>r w'. at_rest t F P w' \<Longrightarrow> (\<not> in_memory type \<Longrightarrow> r = 0 \<longleftrightarrow> 0 \<le> t_socket (sk_tport w')) \<Longrightarrow>
      (in_memory type \<Longrightarrow> t_socket (sk_tport w') = -1) \<Longrightarrow> Q r w'"
  shows "wp (cmsg_transport_connect env) Q w"
proof (cases "fn_connect (tport_funcs (sk_tport w))")
  case None
  have "tport_funcs (sk_tport w) = tport_funcs (cmsg_transport_new type)"
    using at_rest_funcs assms(2,3) by (metis socketless_def)
  then have "in_memory type"
    using None by (cases type) (simp_all add: in_memory_def cmsg_transport_new_def transport_init_defs Let_def)
  then show ?thesis
    using None assms(2,4) by (simp add: cmsg_transport_connect_def wp_steps socketless_def)
next
  case (Some f)
  have "tport_funcs (sk_tport w) = tport_funcs (cmsg_transport_new type)"
    using at_rest_funcs assms(2,3) by (metis socketless_def)
  then have "\<not> in_memory type"
    using Some by (auto simp: in_memory_def cmsg_transport_new_def transport_init_defs Let_def)
  moreover have w: "owns w F" "t_socket (sk_tport w) = -1" "objs w = Some P" "address (sk_tport w) = address t"
    using assms(2) by (auto simp: socketless_def at_rest_def holds_def owns_own_fds)
  have "wp (cmsg_transport_connect env) (made F) w"
    by (rule transport_connect_fds [OF assms(1) w(1,2)]) (simp add: Some)
  moreover have "wp (cmsg_transport_connect env) (\<lambda>_ w'. objs w' = objs w \<and> address (sk_tport w') = address (sk_tport w)) w"
    using plain_connect by (auto simp: plain_def)
  ultimately show ?thesis
    by - (rule wp_mono [OF wp_conj], assumption, assumption, rule assms(4);
      use w in \<open>auto simp: made_def at_rest_def owns_own_fds holds_def\<close>)
qed

section \<open>The life of an endpoint\<close>

text \<open>The transports that endpoints are made with.\<close>

definition fresh :: "cmsg_transport_type set \<Rightarrow> cmsg_transport option \<Rightarrow> bool" where
  "fresh types transport \<longleftrightarrow> (\<forall>t. transport = Some t \<longrightarrow> t_type t \<in> types \<and> t_socket t = -1 \<and>
     tport_funcs t = tport_funcs (cmsg_transport_new (t_type t)))"

lemma fresh_transports:
  "fresh {CMSG_TRANSPORT_RPC_TCP, CMSG_TRANSPORT_ONEWAY_TCP} (cmsg_create_transport_tcp_ipv4 port addr vrf oneway)"
  "fresh {CMSG_TRANSPORT_RPC_TCP, CMSG_TRANSPORT_ONEWAY_TCP} (cmsg_create_transport_tcp_ipv6 port addr6 scope vrf oneway)"
  "fresh {type} (Some (cmsg_create_transport_unix service type))" "fresh {type} (Some (cmsg_transport_new type))"
proof -
  have type: "t_type (cmsg_transport_new ty) = ty" "t_socket (cmsg_transport_new ty) = -1" for ty
    by (cases ty; simp add: cmsg_transport_new_def transport_init_defs Let_def)+
  show "fresh {CMSG_TRANSPORT_RPC_TCP, CMSG_TRANSPORT_ONEWAY_TCP} (cmsg_create_transport_tcp_ipv4 port addr vrf oneway)"
    "fresh {CMSG_TRANSPORT_RPC_TCP, CMSG_TRANSPORT_ONEWAY_TCP} (cmsg_create_transport_tcp_ipv6 port addr6 scope vrf oneway)"
    by (auto simp: fresh_def cmsg_create_transport_tcp_ipv4_def cmsg_create_transport_tcp_ipv6_def Let_def type split: option.split)
  show "fresh {type} (Some (cmsg_create_transport_unix service type))" "fresh {type} (Some (cmsg_transport_new type))"
    by (simp_all add: fresh_def cmsg_create_transport_unix_def type)
qed

lemma fresh_mono: "fresh A transport \<Longrightarrow> A \<subseteq> B \<Longrightarrow> fresh B transport"
  unfolding fresh_def by blast

text \<open>Without \<open>locks_ok\<close>: a server that cannot have its first lock goes, but the socket it listens on stays open.\<close>

lemma lock_failure_leaks_listener:
  assumes "at_rest t F (add_mset Obj_server P) w" "\<forall>tr. sk_result env tr (Sys_new (Obj_mutex ''queue_mutex'')) < 0"
  shows "wp (server_listening env service) (\<lambda>r w'. r = None \<and> at_rest t F P w' \<and> sk_tport w' = sk_tport w) w"
proof -
  have "wp (sys_gone env Obj_server) (\<lambda>_ w'. at_rest t F P w' \<and> sk_tport w' = sk_tport w)
    (w\<lparr>sk_trace := sk_trace w @ [(Sys_new (Obj_mutex ''queue_mutex''), sk_result env (sk_trace w) (Sys_new (Obj_mutex ''queue_mutex'')))],
       sk_err := sk_errno env (sk_trace w) (Sys_new (Obj_mutex ''queue_mutex''))\<rparr>)"
    by (rule wp_next [of t F "add_mset Obj_server P" _ _ P])
      (use assms in \<open>auto simp: at_rest_def holds_def opened_def fds_after_append objs_def objs_after_append not_le\<close>)
  then show ?thesis
    using assms(2) by (simp add: server_listening_def sys_make_def wp_funs wp_syscall Let_def wp_simps)
qed

lemma client_lock_failure_leaks:
  assumes "at_rest t F (add_mset Obj_client P) w" "0 \<le> sk_result env (sk_trace w) (Sys_new (Obj_mutex ''queue_mutex''))"
    and "\<forall>tr. sk_result env tr (Sys_new (Obj_cond ''queue_process_cond'')) < 0"
    and "\<forall>tr. 0 \<le> sk_result env tr (Sys_new Obj_queue) \<and> 0 \<le> sk_result env tr (Sys_new Obj_filters)"
  shows "wp (client_init env False descriptor) (\<lambda>ok w'. \<not> ok \<and>
    at_rest t F (add_mset (Obj_mutex ''queue_mutex'') (add_mset Obj_queue (add_mset Obj_filters (add_mset Obj_client P)))) w') w"
  using assms
  by (simp add: client_init_def sys_make_def wp_funs wp_syscall Let_def wp_simps sock_when_def at_rest_def holds_def opened_def
      fds_after_append objs_def objs_after_append add_mset_commute not_le)

text \<open>
  C22: A server holds what it says it holds. As long as locks, queues and tables can be made (otherwise it leaks:
  \<open>lock_failure_leaks_listener\<close>), making a server over a unix socket, over TCP (IPv4 or IPv6, RPC or one-way) or for
  forwarding either fails, because there is no memory for the transport or the server, no port, or no listening socket, and then
  every descriptor and every object made on the way is released, the transport too; or it gives the initial server on a
  transport that listens, holding the listening socket, the transport and the parts of a server and nothing else. Destroying
  it, with whatever connections it has accepted, with or without an accept thread and encryption, gives all of it back, except
  for one lock that is never destroyed. (Loopback servers come with their client; TIPC listeners leak when they cannot be bound.)
\<close>

theorem server_endpoint_life:
  fixes create :: "'m cmsg_server option sock"
  assumes "sk_ok env" "locks_ok env" "holds w F P"
    and "create = cmsg_create_server_unix_rpc env service \<or> create = cmsg_create_server_unix_oneway env service \<or>
      create = cmsg_create_server_tcp_ipv4_rpc env port addr vrf service \<or>
      create = cmsg_create_server_tcp_ipv4_oneway env port addr vrf service \<or>
      create = cmsg_create_server_tcp_ipv6_rpc env port addr scope vrf service \<or>
      create = cmsg_create_server_tcp_ipv6_oneway env port addr scope vrf service \<or>
      create = cmsg_create_server_forwarding env service"
  shows "wp create (\<lambda>r w'. case r of
      None \<Rightarrow> holds w' F P
    | Some server \<Rightarrow>
        server = cmsg_server_create (t_type (sk_tport w')) service \<and>
        (t_type (sk_tport w') = CMSG_TRANSPORT_FORWARDING \<longleftrightarrow> t_socket (sk_tport w') = -1) \<and>
        holds w' (own_fds (sk_tport w') + F) (add_mset Obj_transport server_parts + P) \<and>
        (\<forall>accepted info crypto v. sk_tport v = sk_tport w' \<longrightarrow>
           holds v (own_fds (sk_tport v) + (mset accepted + (info_fds info + F)))
             (add_mset Obj_transport server_parts + accept_parts info + crypto_parts crypto + P) \<longrightarrow>
           wp (cmsg_destroy_server_and_transport env accepted info crypto)
             (\<lambda>_ v'. holds v' F (add_mset (Obj_mutex ''queue_filter_mutex'') P)) v)) w" (is "wp create ?Q w")
proof -
  let ?types = "{CMSG_TRANSPORT_RPC_TCP, CMSG_TRANSPORT_ONEWAY_TCP, CMSG_TRANSPORT_RPC_UNIX, CMSG_TRANSPORT_ONEWAY_UNIX,
    CMSG_TRANSPORT_FORWARDING}"
  obtain transport where create: "create = with_transport env transport (cmsg_server_new env service)" and "fresh ?types transport"
  proof -
    note defs = cmsg_create_server_unix_rpc_def cmsg_create_server_unix_oneway_def create_server_unix_def
      cmsg_create_server_tcp_ipv4_rpc_def cmsg_create_server_tcp_ipv4_oneway_def create_server_tcp_ipv4_def
      cmsg_create_server_tcp_ipv6_rpc_def cmsg_create_server_tcp_ipv6_oneway_def create_server_tcp_ipv6_def cmsg_create_server_forwarding_def
    show ?thesis using assms(4) unfolding defs
      by (elim disjE) (erule that, rule fresh_mono, rule fresh_transports, simp)+
  qed
  then have fresh: "t_type t \<in> ?types" "t_socket t = -1" "tport_funcs t = tport_funcs (cmsg_transport_new (t_type t))"
    if "transport = Some t" for t using that unfolding fresh_def by blast+
  show ?thesis unfolding create
  proof (rule with_transport_at [OF assms(3) fresh(2)])
    fix v t assume t: "transport = Some t" and v: "socketless t F (add_mset Obj_transport P) v"
    note fresh = fresh [OF t]
    have kind: "t_type t \<noteq> CMSG_TRANSPORT_BROADCAST" "in_memory (t_type t) \<longleftrightarrow> t_type t = CMSG_TRANSPORT_FORWARDING"
      using fresh(1) by (auto simp: in_memory_def)
    note facts = v fresh(3) kind
    show "wp (cmsg_server_new env service) (\<lambda>r w'. case r of None \<Rightarrow> socketless t F (add_mset Obj_transport P) w'
      | Some r \<Rightarrow> ?Q (Some r) w') v"
    proof (rule server_new_at [OF assms(1,2) facts(1,2,3)], goal_cases)
      case (2 w')
      have type: "t_type (sk_tport w') = t_type t" and no: "-1 \<le> t_socket (sk_tport w')" and address: "address (sk_tport w') = address t"
        using 2(1) addressD(1) unfolding at_rest_def by blast+
      have "wp (cmsg_destroy_server_and_transport env accepted info crypto) (\<lambda>_ v'. holds v' F (add_mset (Obj_mutex ''queue_filter_mutex'') P)) v"
        if "sk_tport v = sk_tport w'" "holds v (own_fds (sk_tport v) + (mset accepted + (info_fds info + F)))
          (add_mset Obj_transport server_parts + accept_parts info + crypto_parts crypto + P)" for accepted info crypto v
        by (rule destroy_server_at [OF assms(1) _ fresh(3)])
          (use that no address 2(2) in \<open>simp_all add: at_rest_def\<close>)
      then show ?case using 2 type kind(2) by (simp add: at_rest_def)
    qed simp
  qed (use assms(3) in simp_all)
qed

lemma wp_run: "wp m Q w \<Longrightarrow> run_state m w = (a, w') \<Longrightarrow> Q a w'"
  by (simp add: wp_def)

text \<open>The world of the witnesses makes everything it is asked to.\<close>

lemma demo_locks_ok: "locks_ok demo_sock_env"
  by (simp add: locks_ok_def demo_sock_env_def)

lemma demo_holds: "holds demo_sock {#} {#}"
  by (simp add: holds_def opened_def objs_def demo_sock_def)

abbreviation demo_server_made :: "bool cmsg_server option \<times> sock_state" where
  "demo_server_made \<equiv> run_state (cmsg_create_server_unix_rpc demo_sock_env demo_service) demo_sock"

theorem server_endpoint_life_witness:
  "\<exists>server w v. demo_server_made = (Some server, w) \<and> t_socket (sk_tport w) \<noteq> -1 \<and>
     holds w (own_fds (sk_tport w)) (add_mset Obj_transport server_parts) \<and>
     run_state (cmsg_destroy_server_and_transport demo_sock_env [] None False) w = ((), v) \<and>
     holds v {#} {#Obj_mutex ''queue_filter_mutex''#}"
proof -
  have "\<not> Option.is_none (fst demo_server_made) \<and> t_type (sk_tport (snd demo_server_made)) = CMSG_TRANSPORT_RPC_UNIX"
    by code_simp
  then obtain server w where w: "demo_server_made = (Some server, w)" "t_type (sk_tport w) = CMSG_TRANSPORT_RPC_UNIX"
    by (cases demo_server_made) (auto simp: Option.is_none_def)
  have life: "t_socket (sk_tport w) \<noteq> -1" "holds w (own_fds (sk_tport w)) (add_mset Obj_transport server_parts)"
    "\<forall>accepted info crypto v. sk_tport v = sk_tport w \<longrightarrow>
       holds v (own_fds (sk_tport v) + (mset accepted + (info_fds info + {#})))
         (add_mset Obj_transport server_parts + accept_parts info + crypto_parts crypto + {#}) \<longrightarrow>
       wp (cmsg_destroy_server_and_transport demo_sock_env accepted info crypto)
         (\<lambda>_ v'. holds v' {#} (add_mset (Obj_mutex ''queue_filter_mutex'') {#})) v"
    using server_endpoint_life [OF demo_sock_ok demo_locks_ok demo_holds disjI1 [OF refl], of demo_service, where 'm = bool] w
    by (simp_all add: wp_def)
  have "wp (cmsg_destroy_server_and_transport demo_sock_env [] None False) (\<lambda>_ v'. holds v' {#} {#Obj_mutex ''queue_filter_mutex''#}) w"
    using life(3) [rule_format, of w "[]" None False] life(2) by (simp add: info_fds_def accept_parts_def crypto_parts_def)
  then show ?thesis
    using w(1) life(1,2) by (cases "run_state (cmsg_destroy_server_and_transport demo_sock_env [] None False) w") (auto simp: wp_def)
qed

text \<open>
  C23: A client holds what it says it holds. As long as locks, conditions, queues and tables can be made (otherwise what was made
  before is left: \<open>client_lock_failure_leaks\<close>), making a client over a unix socket, over TCP (IPv4 or IPv6, RPC or one-way) or for
  forwarding either fails, with everything made on the way released, or gives the initial client, which is not
  connected and holds a transport and the parts of a client. Connecting adds a socket when it succeeds and
  nothing when it fails; and destroying the client, connected or not, with or without a security association, leaves what there
  was before it was made.
\<close>

theorem client_endpoint_life:
  assumes "sk_ok env" "locks_ok env" "holds w F P"
    and "create = cmsg_create_client_unix env handle transport descriptor \<or>
      create = cmsg_create_client_unix_oneway env handle transport descriptor \<or>
      create = cmsg_create_client_tcp_ipv4_rpc env handle transport port addr vrf descriptor \<or>
      create = cmsg_create_client_tcp_ipv4_oneway env handle transport port addr vrf descriptor \<or>
      create = cmsg_create_client_tcp_ipv6_rpc env handle transport port addr scope vrf descriptor \<or>
      create = cmsg_create_client_tcp_ipv6_oneway env handle transport port addr scope vrf descriptor \<or>
      create = cmsg_create_client_forwarding env handle transport descriptor"
  shows "wp create (\<lambda>r w'. case r of
      None \<Rightarrow> holds w' F P
    | Some client \<Rightarrow>
        client = cmsg_client_init handle transport (t_type (sk_tport w')) descriptor \<and>
        t_socket (sk_tport w') = -1 \<and> holds w' F (add_mset Obj_transport client_parts + P) \<and>
        wp (cmsg_transport_connect env) (\<lambda>ret v.
          holds v (own_fds (sk_tport v) + F) (add_mset Obj_transport client_parts + P) \<and>
          address (sk_tport v) = address (sk_tport w') \<and>
          (t_type (sk_tport w') \<noteq> CMSG_TRANSPORT_FORWARDING \<longrightarrow> (ret = 0 \<longleftrightarrow> 0 \<le> t_socket (sk_tport v)))) w' \<and>
        (\<forall>crypto v. address (sk_tport v) = address (sk_tport w') \<longrightarrow> -1 \<le> t_socket (sk_tport v) \<longrightarrow>
           (t_type (sk_tport w') = CMSG_TRANSPORT_FORWARDING \<longrightarrow> t_socket (sk_tport v) = -1) \<longrightarrow>
           holds v (own_fds (sk_tport v) + F) (add_mset Obj_transport client_parts + sa_parts crypto + P) \<longrightarrow>
           wp (cmsg_destroy_client_and_transport env False crypto) (\<lambda>_ v'. holds v' F P) v)) w" (is "wp create ?Q w")
proof -
  let ?types = "{CMSG_TRANSPORT_RPC_TCP, CMSG_TRANSPORT_ONEWAY_TCP, CMSG_TRANSPORT_RPC_UNIX, CMSG_TRANSPORT_ONEWAY_UNIX,
    CMSG_TRANSPORT_FORWARDING}"
  obtain tport where create: "create = with_transport env tport (cmsg_client_new env handle transport descriptor)" and "fresh ?types tport"
  proof -
    note defs = cmsg_create_client_unix_def cmsg_create_client_unix_oneway_def create_client_unix_def
      cmsg_create_client_tcp_ipv4_rpc_def cmsg_create_client_tcp_ipv4_oneway_def create_client_tcp_ipv4_def
      cmsg_create_client_tcp_ipv6_rpc_def cmsg_create_client_tcp_ipv6_oneway_def create_client_tcp_ipv6_def cmsg_create_client_forwarding_def
    show ?thesis using assms(4) unfolding defs
      by (elim disjE) (erule that, rule fresh_mono, rule fresh_transports, simp)+
  qed
  then have fresh: "t_type t \<in> ?types" "t_socket t = -1" "tport_funcs t = tport_funcs (cmsg_transport_new (t_type t))"
    if "tport = Some t" for t using that unfolding fresh_def by blast+
  show ?thesis unfolding create
  proof (rule with_transport_at [OF assms(3) fresh(2)])
    fix v t assume t: "tport = Some t" and v: "socketless t F (add_mset Obj_transport P) v"
    note fresh = fresh [OF t]
    have kind: "in_memory (t_type t) \<longleftrightarrow> t_type t = CMSG_TRANSPORT_FORWARDING"
      using fresh(1) by (auto simp: in_memory_def)
    show "wp (cmsg_client_new env handle transport descriptor) (\<lambda>r w'. case r of None \<Rightarrow> socketless t F (add_mset Obj_transport P) w'
      | Some r \<Rightarrow> ?Q (Some r) w') v"
    proof (rule client_new_at [OF assms(2) v], goal_cases)
      case (2 w')
      have address: "address (sk_tport w') = address t" "t_socket (sk_tport w') = -1"
        using 2 by (simp_all add: socketless_def at_rest_def)
      note type = addressD(1) [OF address(1)]
      have w': "holds w' F (add_mset Obj_transport client_parts + P)" using socketless_holds [OF 2] by simp
      have "wp (cmsg_destroy_client_and_transport env False crypto) (\<lambda>_ v'. holds v' F P) v"
        if "address (sk_tport v) = address (sk_tport w')" "-1 \<le> t_socket (sk_tport v)"
          "t_type (sk_tport w') = CMSG_TRANSPORT_FORWARDING \<longrightarrow> t_socket (sk_tport v) = -1"
          "holds v (own_fds (sk_tport v) + F) (add_mset Obj_transport client_parts + sa_parts crypto + P)" for crypto v
        using destroy_client_at [OF assms(1) _ fresh(3), of F False crypto P v] that address kind type
        by (simp add: at_rest_def)
      moreover have "wp (cmsg_transport_connect env) (\<lambda>ret v.
          holds v (own_fds (sk_tport v) + F) (add_mset Obj_transport client_parts + P) \<and>
          address (sk_tport v) = address (sk_tport w') \<and>
          (t_type (sk_tport w') \<noteq> CMSG_TRANSPORT_FORWARDING \<longrightarrow> (ret = 0 \<longleftrightarrow> 0 \<le> t_socket (sk_tport v)))) w'"
      proof (rule connect_at [OF assms(1) 2 fresh(3)], goal_cases)
        case (1 ret v)
        then have "t_type (sk_tport w') \<noteq> CMSG_TRANSPORT_FORWARDING \<longrightarrow> (ret = 0 \<longleftrightarrow> 0 \<le> t_socket (sk_tport v))"
          using kind type by metis
        then show ?case using 1(1) address(1) by (simp add: at_rest_def)
      qed
      ultimately show ?case using w' address type by simp
    qed simp
  qed (use assms(3) in simp_all)
qed

abbreviation demo_client_made :: "cmsg_client option \<times> sock_state" where
  "demo_client_made \<equiv> run_state (cmsg_create_client_unix demo_sock_env 1 2 demo_service) demo_sock"

theorem client_endpoint_life_witness:
  "\<exists>client w ret v u. demo_client_made = (Some client, w) \<and>
     holds w {#} (add_mset Obj_transport client_parts) \<and>
     run_state (cmsg_transport_connect demo_sock_env) w = (ret, v) \<and>
     holds v (own_fds (sk_tport v)) (add_mset Obj_transport client_parts) \<and> (ret = 0 \<longleftrightarrow> 0 \<le> t_socket (sk_tport v)) \<and>
     run_state (cmsg_destroy_client_and_transport demo_sock_env False False) w = ((), u) \<and> holds u {#} {#}"
proof -
  have "\<not> Option.is_none (fst demo_client_made) \<and> t_type (sk_tport (snd demo_client_made)) = CMSG_TRANSPORT_RPC_UNIX"
    by (simp add: cmsg_create_client_unix_def create_client_unix_def with_transport_def sys_make_def syscall_def cmsg_client_new_def
        cmsg_client_create_def client_init_def sk_modify_def sk_gets_def sock_when_def cmsg_transport_write_id_def
        cmsg_transport_set_recv_peek_timeout_def demo_sock_env_def State_Monad.bind_def State_Monad.return_def State_Monad.get_def
        State_Monad.set_def cmsg_create_transport_unix_def cmsg_transport_new_def transport_init_defs Let_def split: prod.splits)
  then obtain client w where w: "demo_client_made = (Some client, w)" "t_type (sk_tport w) = CMSG_TRANSPORT_RPC_UNIX"
    by (cases demo_client_made) (auto simp: Option.is_none_def)
  have life: "t_socket (sk_tport w) = -1" "holds w {#} (add_mset Obj_transport client_parts)"
    "wp (cmsg_transport_connect demo_sock_env) (\<lambda>ret v. holds v (own_fds (sk_tport v)) (add_mset Obj_transport client_parts) \<and>
       address (sk_tport v) = address (sk_tport w) \<and> (ret = 0 \<longleftrightarrow> 0 \<le> t_socket (sk_tport v))) w"
    "\<forall>crypto v. address (sk_tport v) = address (sk_tport w) \<longrightarrow> -1 \<le> t_socket (sk_tport v) \<longrightarrow>
       holds v (own_fds (sk_tport v)) (add_mset Obj_transport client_parts + sa_parts crypto) \<longrightarrow>
       wp (cmsg_destroy_client_and_transport demo_sock_env False crypto) (\<lambda>_ v'. holds v' {#} {#}) v"
    using wp_run [OF client_endpoint_life [OF demo_sock_ok demo_locks_ok demo_holds disjI1 [OF refl]] w(1)] w(2)
    by simp_all
  have "wp (cmsg_destroy_client_and_transport demo_sock_env False False) (\<lambda>_ v'. holds v' {#} {#}) w"
    using life(4) [rule_format, of w False] life(1,2) by (simp add: sa_parts_def own_fds_def)
  then show ?thesis
    using w(1) life(2,3) by (cases "run_state (cmsg_destroy_client_and_transport demo_sock_env False False) w")
      (auto simp: wp_def split: prod.splits)
qed

text \<open>The same for a loopback client, whose server shares its transport.\<close>

lemma loopback_client_life:
  assumes "sk_ok env" "locks_ok env" "holds w F P"
  shows "wp (cmsg_create_client_loopback env handle transport service) (\<lambda>r w'. case r of
      None \<Rightarrow> holds w' F P \<or> holds w' F (add_mset (Obj_mutex ''queue_filter_mutex'') P)
    | Some (client, server) \<Rightarrow>
        server = cmsg_server_app_owns_all_msgs_set (cmsg_server_create CMSG_TRANSPORT_LOOPBACK service) True \<and>
        holds w' F (add_mset Obj_transport client_parts + server_parts + P) \<and>
        wp (cmsg_destroy_client_and_transport env True False)
          (\<lambda>_ v. holds v F (add_mset (Obj_mutex ''queue_filter_mutex'') P)) w') w" (is "wp _ ?Q w")
  unfolding cmsg_create_client_loopback_def
proof (rule with_transport_wp [OF assms(3)])
  fix v t assume t: "Some (cmsg_transport_new CMSG_TRANSPORT_LOOPBACK) = Some t" and v: "socketless t F (add_mset Obj_transport P) v"
  let ?R = "\<lambda>e v'. if e = None then wp (cmsg_transport_destroy env) (\<lambda>_. ?Q None) v' else ?Q e v'"
  have type: "t_type t = CMSG_TRANSPORT_LOOPBACK" using t by (auto simp: cmsg_transport_new_def transport_init_defs Let_def)
  have funcs: "tport_funcs t = tport_funcs (cmsg_transport_new CMSG_TRANSPORT_LOOPBACK)" using t by simp
  have memory: "in_memory CMSG_TRANSPORT_LOOPBACK" by (simp add: in_memory_def)
  have none: "?R None u" if "socketless t F (add_mset Obj_transport P) u" for u
    using transport_gone [OF that, of "\<lambda>_. ?Q None"] by simp
  have none': "?R None u" if "socketless t F (add_mset (Obj_mutex ''queue_filter_mutex'') (add_mset Obj_transport P)) u" for u
    using transport_gone [of t F "add_mset (Obj_mutex ''queue_filter_mutex'') P" u "\<lambda>_. ?Q None"] that
    by (simp add: add_mset_commute)
  show "wp (do {
       server \<leftarrow> cmsg_server_new env service;
       case server of
         None \<Rightarrow> State_Monad.return None
       | Some server \<Rightarrow> do {
           client \<leftarrow> cmsg_client_new env handle transport service;
           case client of
             None \<Rightarrow> do {
               _ \<leftarrow> cmsg_server_destroy env [] None False;
               State_Monad.return None
             }
           | Some client \<Rightarrow> State_Monad.return (Some (client, cmsg_server_app_owns_all_msgs_set server True))
         }
     }) ?R v"
    unfolding wp_funs
  proof (rule server_new_at [OF assms(1,2) v funcs], goal_cases)
    case (2 u)
    then show ?case using none by (simp add: wp_simps)
  next
    case (3 u)
    then have u: "socketless t F (server_parts + add_mset Obj_transport P) u" using memory by (simp add: socketless_def)
    show ?case unfolding option.case wp_funs
    proof (rule client_new_at [OF assms(2) u], goal_cases)
      case (1 x)
      have "wp (cmsg_server_destroy env [] None False) (\<lambda>_. ?R None) x"
        by (rule server_destroy_at [OF assms(1) _ funcs, where accepted = "[]" and info = None and F = F and crypto = False and P = "add_mset Obj_transport P"])
          (use 1 none' in \<open>simp_all add: socketless_def info_fds_def accept_parts_def crypto_parts_def\<close>)
      then show ?case by (simp add: wp_funs)
    next
      case (2 x)
      have "wp (cmsg_destroy_client_and_transport env True False) (\<lambda>_ v. holds v F (add_mset (Obj_mutex ''queue_filter_mutex'') P)) x"
        using destroy_client_at [OF assms(1) _ funcs, of F True False P x] 2 by (simp add: socketless_def sa_parts_def union_assoc)
      then show ?case using socketless_holds [OF 2] by (simp add: wp_simps type union_assoc)
    qed
  qed simp
qed (use assms(3) in \<open>simp_all add: cmsg_transport_new_def transport_init_defs Let_def\<close>)

end
