(* ===== verification/Validation.thy ===== *)
theory Validation
  imports Transport
begin

text \<open>
  The functions that generated code calls to validate the fields of a message (\<open>validation/cmsg_validation.c\<close>).
  \<open>err_str\<close> is the buffer for the error message, \<open>None\<close> if the caller has none. The parsers of addresses and
  times are parameters. \<open>None\<close> as a result is undefined behaviour: a write outside the buffer, or a conversion
  without an argument.
\<close>

record validation_env =
  is_ipv4 :: "string \<Rightarrow> bool"
  is_ipv6 :: "string \<Rightarrow> bool"
  strptime_utc :: "string \<Rightarrow> string option"
  is_mac_address :: "string \<Rightarrow> bool"

type_synonym validation_result = "(bool \<times> string option) option"

definition snprintf :: "string \<Rightarrow> u32 \<Rightarrow> string \<Rightarrow> string option" where
  "snprintf buf n s =
     (let out = (if n = 0 then [] else take (unat n - 1) s @ [CHR 0x00]) in
      if length out \<le> length buf then Some (out @ drop (length out) buf) else None)"

text \<open>The message is the format when the definition of the field supplies one.\<close>

definition validation_failed :: "string \<Rightarrow> string option \<Rightarrow> string option \<Rightarrow> u32 \<Rightarrow> validation_result" where
  "validation_failed message supplied_error_message err_str err_str_len =
     (case err_str of
        None \<Rightarrow> Some (False, None)
      | Some buf \<Rightarrow>
          Option.bind (case supplied_error_message of None \<Rightarrow> Some message | Some format \<Rightarrow> format_no_args format)
            (\<lambda>s. map_option (\<lambda>buf. (False, Some buf)) (snprintf buf err_str_len s)))"

definition print_int64 :: "64 word \<Rightarrow> string" where
  "print_int64 v = (if sint v < 0 then ''-'' @ decimal (nat (- sint v)) else decimal (nat (sint v)))"

definition cmsg_validate_int_ge ::
  "64 word \<Rightarrow> 64 word \<Rightarrow> string \<Rightarrow> string option \<Rightarrow> string option \<Rightarrow> u32 \<Rightarrow> validation_result" where
  "cmsg_validate_int_ge input_value compare_value field_name supplied_error_message err_str err_str_len =
     (if sint input_value < sint compare_value then
        validation_failed (''Field '' @ [CHR 0x27] @ field_name @ [CHR 0x27] @ '' must be greater than or equal to '' @
          print_int64 compare_value @ ''.'') supplied_error_message err_str err_str_len
      else Some (True, err_str))"

definition cmsg_validate_int_le ::
  "64 word \<Rightarrow> 64 word \<Rightarrow> string \<Rightarrow> string option \<Rightarrow> string option \<Rightarrow> u32 \<Rightarrow> validation_result" where
  "cmsg_validate_int_le input_value compare_value field_name supplied_error_message err_str err_str_len =
     (if sint compare_value < sint input_value then
        validation_failed (''Field '' @ [CHR 0x27] @ field_name @ [CHR 0x27] @ '' must be less than or equal to '' @
          print_int64 compare_value @ ''.'') supplied_error_message err_str err_str_len
      else Some (True, err_str))"

definition cmsg_validate_ip_address ::
  "validation_env \<Rightarrow> string \<Rightarrow> string \<Rightarrow> string option \<Rightarrow> string option \<Rightarrow> u32 \<Rightarrow> validation_result" where
  "cmsg_validate_ip_address env input_string field_name supplied_error_message err_str err_str_len =
     (if \<not> is_ipv4 env input_string \<and> \<not> is_ipv6 env input_string then
        validation_failed (''Field '' @ [CHR 0x27] @ field_name @ [CHR 0x27] @ '' must be in IP address format.'')
          supplied_error_message err_str err_str_len
      else Some (True, err_str))"

text \<open>\<open>strptime_utc\<close> is \<open>strptime\<close> with the format of a timestamp: what it has not read.\<close>

definition cmsg_validate_utc_timestamp ::
  "validation_env \<Rightarrow> string \<Rightarrow> string \<Rightarrow> string option \<Rightarrow> string option \<Rightarrow> u32 \<Rightarrow> validation_result" where
  "cmsg_validate_utc_timestamp env input_string field_name supplied_error_message err_str err_str_len =
     (if strptime_utc env input_string = None \<or> strptime_utc env input_string \<noteq> Some [] then
        validation_failed (''Field '' @ [CHR 0x27] @ field_name @ [CHR 0x27] @ '' must be in UTC timestamp format.'')
          supplied_error_message err_str err_str_len
      else Some (True, err_str))"

definition cmsg_validate_mac_address ::
  "validation_env \<Rightarrow> string \<Rightarrow> string \<Rightarrow> string option \<Rightarrow> string option \<Rightarrow> u32 \<Rightarrow> validation_result" where
  "cmsg_validate_mac_address env input_string field_name supplied_error_message err_str err_str_len =
     (if \<not> is_mac_address env input_string then
        validation_failed (''Field '' @ [CHR 0x27] @ field_name @ [CHR 0x27] @ '' must be in MAC address format.'')
          supplied_error_message err_str err_str_len
      else Some (True, err_str))"

text \<open>
  A range check succeeds exactly for the values in the range, and leaves the error buffer alone then. When it fails, the
  buffer holds the error, cut to its size, with its NUL, and nothing is written after it.
\<close>

lemma snprintf_safe:
  assumes "unat n \<le> length buf" "0 < n"
  shows "\<exists>buf'. snprintf buf n s = Some buf' \<and> length buf' = length buf \<and>
    take (min (unat n - 1) (length s)) buf' = take (unat n - 1) s \<and>
    buf' ! min (unat n - 1) (length s) = CHR 0x00 \<and> drop (unat n) buf' = drop (unat n) buf"
proof -
  have "0 < unat n" using assms(2) by (simp add: word_less_nat_alt)
  then show ?thesis using assms by (auto simp: snprintf_def Let_def nth_append min_def)
qed

lemma validation_failed_safe:
  assumes "unat len \<le> length buf" "0 < len" "\<And>format. supplied = Some format \<Longrightarrow> CHR ''%'' \<notin> set format"
  shows "\<exists>buf'. validation_failed message supplied (Some buf) len = Some (False, Some buf') \<and> length buf' = length buf \<and>
    drop (unat len) buf' = drop (unat len) buf \<and>
    take (min (unat len - 1) (length (case supplied of None \<Rightarrow> message | Some format \<Rightarrow> format))) buf' =
      take (unat len - 1) (case supplied of None \<Rightarrow> message | Some format \<Rightarrow> format)"
  using snprintf_safe [OF assms(1,2)] assms(3)
  by (fastforce simp: validation_failed_def format_no_args_plain split: option.split)

lemma validate_int_range:
  assumes "unat len \<le> length buf" "\<And>format. supplied = Some format \<Longrightarrow> CHR ''%'' \<notin> set format"
  shows "\<exists>buf'. cmsg_validate_int_ge v c field supplied (Some buf) len = Some (sint c \<le> sint v, Some buf') \<and>
      (sint c \<le> sint v \<longrightarrow> buf' = buf) \<and> length buf' = length buf"
    and "\<exists>buf'. cmsg_validate_int_le v c field supplied (Some buf) len = Some (sint v \<le> sint c, Some buf') \<and>
      (sint v \<le> sint c \<longrightarrow> buf' = buf) \<and> length buf' = length buf"
proof -
  have failed: "\<exists>buf'. validation_failed message supplied (Some buf) len = Some (False, Some buf') \<and> length buf' = length buf" for message
  proof (cases "len = 0")
    case True
    then show ?thesis using assms(2)
      by (auto simp: validation_failed_def snprintf_def format_no_args_plain split: option.split)
  next
    case False
    then have "0 < len" by (simp add: word_neq_0_conv)
    from validation_failed_safe [OF assms(1) this assms(2)] show ?thesis by blast
  qed
  show "\<exists>buf'. cmsg_validate_int_ge v c field supplied (Some buf) len = Some (sint c \<le> sint v, Some buf') \<and>
      (sint c \<le> sint v \<longrightarrow> buf' = buf) \<and> length buf' = length buf"
    using failed by (auto simp: cmsg_validate_int_ge_def)
  show "\<exists>buf'. cmsg_validate_int_le v c field supplied (Some buf) len = Some (sint v \<le> sint c, Some buf') \<and>
      (sint v \<le> sint c \<longrightarrow> buf' = buf) \<and> length buf' = length buf"
    using failed by (auto simp: cmsg_validate_int_le_def)
qed

text \<open>A supplied message with a conversion in it is printed as a format without arguments.\<close>

lemma supplied_message_is_format:
  "cmsg_validate_int_ge 0 1 field (Some ''at most 100%'') (Some buf) len = None"
  by (simp add: cmsg_validate_int_ge_def validation_failed_def)

end
