(* ===== verification/Spec2Isabelle.thy ===== *)
theory Spec2Isabelle
  imports ServerProperties ClientProperties WireProperties TransportProperties DaemonProperties PubSubProperties
    ProxyStreamProperties BroadcastProperties SubscriberProperties SocketProperties
    PthreadProperties EndpointProperties Validation
begin

text \<open>
  CMSG: remote calls and published notifications between processes and hosts.

  The program. A client (\<open>cmsg_client.c\<close>) packs a message, puts a header with the method's name
  around it (\<open>cmsg.c\<close>) and sends it over a transport (\<open>transport/\<close>); a server (\<open>cmsg_server.c\<close>)
  reads it, finds the method, runs the implementation at once or from a queue (\<open>cmsg_queue.c\<close>), and
  the replies go back the same way, encrypted if asked for (\<open>cmsg_crypto.c\<close>). A composite client
  makes one call of many. Two daemons tell processes about each other: the service listener
  daemon (\<open>service_listener/\<close>) which servers run, the publisher subscriber daemon
  (\<open>publisher_subscriber/\<close>) which subscribers a publisher sends to. Paths are below
  \<open>src/cmsg/src\<close>. The HTTP proxy (\<open>src/cmsg-proxy/src\<close>) turns HTTP requests into calls: it finds the
  service for a URL, makes the input message of parameters and JSON, and turns the answer back.

  The theories, the code before the lemmas about it:

  \<^item> \<open>CmsgBase\<close>: machine words and their memory images in both byte orders, arrays, C strings.
  \<^item> \<open>Wire\<close> (\<open>cmsg.c\<close>, \<open>cmsg_protobuf-c.c\<close>): packet header, TLV method header, binary search for a
    method; \<open>Packets\<close>: packets as byte strings, built and read back.
  \<^item> \<open>MsgHelpers\<close> (\<open>cmsg.c\<close>): repeated fields, message arrays, packing, dumps; \<open>Crypto\<close>
    (\<open>cmsg_crypto.c\<close>): framing around an abstract cipher.
  \<^item> \<open>Transport\<close>, \<open>TransportIO\<close> (\<open>transport/\<close>): transports and their descriptions; the send, receive and
    peek loops, in-memory transports; \<open>Sockets\<close>: how sockets are made and closed, in the state monad
    over a trace of system calls (\<open>SocketProperties\<close>: which descriptors are open). The locale \<open>byte_source\<close> is what a receive function
    promises; the forwarding transport interprets it.
  \<^item> \<open>MsgQueue\<close> (\<open>cmsg_queue.c\<close>): send queue, receive queue, filters. The locale \<open>fifo\<close> is the queue.
  \<^item> \<open>Server\<close> (\<open>cmsg_server.c\<close>): reception, invocation, closures and replies, queueing. \<open>ServerProps\<close>
    and \<open>ServerQueue\<close>: nothing goes wrong on sane packets, the well-formed server, the queue
    state machine, reachable servers (after anything that may arrive, plain or encrypted). \<open>ServerPoll\<close>: the accept thread, server lists and the functions that
    wait with \<open>select\<close>; \<open>PthreadServer\<close> (\<open>cmsg_pthread_helpers.c\<close>): servers in threads, the multi-threaded one as
    a step relation. \<open>ServerPollProperties\<close>, \<open>PthreadProperties\<close>: which connections are read and closed.
  \<^item> \<open>Client\<close> (\<open>cmsg_client.c\<close>): connecting, sending with retries, queueing, calling.
  \<^item> \<open>Endpoints\<close> (\<open>cmsg_server.c\<close>, \<open>cmsg_client.c\<close>): creation and destruction of servers and clients with their
    transports, in the state monad of \<open>Sockets\<close>. \<open>EndpointProperties\<close>: which descriptors and objects
    are held afterwards. \<open>Validation\<close> (\<open>validation/cmsg_validation.c\<close>): checks of message fields.
  \<^item> \<open>EndToEnd\<close>: what becomes of a call on its way there and back; \<open>Demo\<close>: a concrete service.
  \<^item> \<open>CompositeClient\<close> (\<open>cmsg_composite_client.c\<close>, closure data of \<open>cmsg_client.c\<close>).
  \<^item> \<open>BroadcastClient\<close> (\<open>broadcast_client/\<close>): a composite client whose children follow the servers
    that the service listener announces; \<open>MeshConnection\<close> (\<open>cmsg_mesh.c\<close>). \<open>BroadcastProperties\<close>: one
    child per server, from the daemon through the library to the client.
  \<^item> \<open>ServiceListener\<close> (\<open>service_listener/data.c\<close>, \<open>remote_sync.c\<close>, \<open>process_watch.c\<close>,
    \<open>configuration.c\<close>). \<open>ServiceListenerProps\<close>, \<open>-Inv\<close>, \<open>-Steps\<close>: the events a listener was sent
    add up to the servers of its service, in every reachable state.
  \<^item> \<open>SlApi\<close> (\<open>service_listener/cmsg_sl_api.c\<close>): the library on the other side of the daemon.
    \<open>SlApiProps\<close>: its calls, the events that arrive and the queues it processes as a step relation, and
    what a listener has been told; \<open>SlApiProperties\<close> composes it with the daemon.
  \<^item> \<open>PubSub\<close> (\<open>publisher_subscriber/data.c\<close>, \<open>remote_sync.c\<close>, \<open>configuration.c\<close>) and \<open>Publisher\<close>
    (\<open>cmsg_pub.c\<close>). \<open>PubSubApi\<close> (\<open>cmsg_ps_api.c\<close>), \<open>Subscriber\<close> (\<open>cmsg_sub.c\<close>), \<open>PublisherLife\<close>
    (creation and destruction in \<open>cmsg_pub.c\<close>): the process's side of the daemon; the servers made here, and
    that of \<open>SlApi\<close>, are announced to the service listener and withdrawn, as every server is. \<open>PublisherProps\<close>: the locale \<open>subscription_index\<close>, a store of subscriptions that
    carries out updates exactly; the publisher's table of composite clients interprets it, and so
    does the daemon's table (\<open>PubSubProperties\<close>). \<open>PubSubProps\<close>, \<open>-Inv\<close>, \<open>-Steps\<close>, \<open>-Reach\<close>: every
    publisher that got its messages has the daemon's subscribers, in every reachable state.
  \<^item> \<open>ProxyTree\<close> (\<open>cmsg_proxy_tree.c\<close>), \<open>ProxyJson\<close> (\<open>cmsg_proxy.c\<close>), \<open>ProxyOutput\<close>
    (\<open>cmsg_proxy_output.c\<close>), \<open>ProxyStream\<close> (\<open>cmsg_proxy_http_streaming.c\<close>) and \<open>Proxy\<close>
    (\<open>cmsg_proxy_input.c\<close>, \<open>cmsg_proxy.c\<close>, \<open>cmsg_proxy_index.c\<close>, \<open>cmsg_proxy_passthrough.c\<close>): the HTTP
    proxy. \<open>ProxyTreeProps\<close>: the tree of URLs is a table of routes; the locale \<open>url_router\<close> of
    \<open>ProxyProperties\<close> is what the requests rely on of it. \<open>ProxyProps\<close>: the JSON input and the streams of
    a request. \<open>ProxyStreamProperties\<close>: the threads of web server and streaming server as a step
    relation, and the invariant of the stream connections. The relation has a flag for an API that
    refuses to stream only before the streaming thread has taken the connection up: without it the
    code frees a connection in use (\<open>delete_in_use_undefined\<close>).
  \<^item> The properties are in this theory (a call from end to end) and in \<open>WireProperties\<close>,
    \<open>TransportProperties\<close>, \<open>SocketProperties\<close>, \<open>EndpointProperties\<close>, \<open>ServerProperties\<close>, \<open>ServerPollProperties\<close>,
    \<open>PthreadProperties\<close>, \<open>ClientProperties\<close>, \<open>DaemonProperties\<close>,
    \<open>SlApiProperties\<close>, \<open>BroadcastProperties\<close>, \<open>PubSubProperties\<close>,
    \<open>SubscriberProperties\<close>, \<open>ProxyProperties\<close> and \<open>ProxyStreamProperties\<close>, each with a concrete instance.

  How state and operations correspond to the code. A structure is a record with the fields the
  modelled code uses, a union or enumeration a datatype; \<open>GList\<close> and \<open>GQueue\<close> are lists,
  \<open>GHashTable\<close> an association list with distinct keys; objects that are shared or compared by pointer
  (listeners, clients of the daemons) have addresses. A function of the code is a definition of
  the same name that takes the state and returns it updated; \<open>None\<close> is undefined behaviour, such
  as an access through \<open>NULL\<close>, to freed memory or outside a buffer, so that "is \<open>Some\<close>" is memory
  safety. Error returns are values. Messages that leave a component go to a trace in its state.
  Machine integers are words where their width matters (header fields, lengths) and wrap as in C;
  counts of elements in memory are naturals.

  What is not under \<open>src\<close> is a parameter: system calls (\<open>send\<close>, \<open>recv\<close>, the clock, \<open>connect\<close>), the
  cipher and key derivation of OpenSSL, protobuf-c, jansson and protobuf2json, the user's
  implementations, whether an allocation succeeds. They may depend on the trace so far, that is, they
  may answer differently each time. Hypotheses on them state documented behaviour (packing
  a message fills its packed size, unpacking inverts packing, a decryption inverts its
  encryption, a field found by a name has that name, a result message converts to JSON), and each property with such a hypothesis has an instance.

  Loops. Recursion follows the lists or words the code's loops run over, with a termination proof
  where it is not structural (the TLV loop, method search, queue processing, deleting the
  children of a host). The loops that wait for a clock or a socket (\<open>peek_loop\<close>, \<open>socket_recv_loop\<close>,
  \<open>request_wait\<close>) take the list of the answers they get: that a list long enough
  ends them is proved (\<open>peek_ends\<close>), and that \<open>request_wait\<close> can wait for ever is too. A receive
  gets of what the kernel has at most what it asks for (\<open>kernel_recv\<close>); \<open>None\<close> is a receive that waits for ever. Partial
  functions are the wait for a busy connection (\<open>conn_busy_wait\<close>), the client's send queue loop
  (\<open>queue_never_left_behind\<close> says when it returns), the loop that connects to the service listener daemon
  (\<open>get_client_returns\<close>) and the wait for a TCP server (\<open>tcp_wait_gives_up_early\<close>). No other fuel is used.

  Concurrency. Each component is a sequence of steps, as the code's mutexes and main loops make
  it; the reachable states of server and daemons are all interleavings of their operations.
  The proxy's streams are
  shared by threads, and a handler is cut into steps where the code gives up its locks; so is the
  queue of a service listener, which has none (\<open>wake_step\<close>), and the threads of a server (\<open>mt_step\<close>).
  Between components there are only messages, and the daemons' properties hold whichever of them are lost.

  Not modelled. Event loops (\<open>cmsg_glib_helpers.c\<close>, \<open>cmsg_liboop_helpers.c\<close>): registration with libraries. Counters beyond their
  increments, debug dumps, logging: output only. The proxy's call of the API is a parameter, the client's side of which \<open>Client\<close> models; its counters and
  release of memory are left out. \<open>protoc-c\<close> is C++.
\<close>

section \<open>A call from end to end\<close>

text \<open>
  C1: A remote call works from end to end. A client that calls a method of a service builds a
  packet; a server of the service that reads the packet off its transport runs the method's
  implementation exactly once, on the message the client packed, and puts one reply for each of
  its responses on the wire; the client that reads such a reply off its transport gets success
  and the response, unpacked. (The reliable byte streams between them, and that unpacking
  inverts packing, are hypotheses; they are what sockets and protobuf-c document.)
\<close>

theorem rpc_round_trip:
  assumes "client_env_ok cenv" "env_ok senv" "ce_endian cenv = e" "env_endian senv = e"
    and meth: "service_method d i nm" "srv_service s = d" "rpc_plain s"
      "cmsg_server_queue_filter_lookup s nm = CMSG_QUEUE_FILTER_PROCESS"
    and alloc: "ce_alloc cenv (cl_trace c)" "\<And>t. alloc_ok senv t"
    and unpack_call: "unpack_msg senv i (ce_pack cenv m) = Some m"
    and ready: "method_ready senv i m"
    and impl: "\<And>t. fst (impl_func senv t i (method_arg senv i m)) = map Some rs"
    and server_stream: "byte_source srecv spending" "sclocks \<noteq> []"
      "spending t = call_packet e nm (ce_pack cenv m)"
    and client_stream: "byte_source crecv cpending" "cclocks \<noteq> []"
      "r \<in> set rs" "cpending u = reply_packet e nm (pack_msg senv r)"
    and unpack_reply: "unpack_reply i (pack_msg senv r) = Some r"
  shows "cmsg_client_create_packet cenv c nm m = Some ((CMSG_RET_OK, call_packet e nm (ce_pack cenv m)), c) \<and>
    (\<exists>s' t' evs. cmsg_server_receive senv srecv derive True c2 stimeout sclocks s sock t = Some (CMSG_RET_OK, s', t') \<and>
       srv_trace s' = srv_trace s @ evs \<and> impl_calls evs = [(i, method_arg senv i m)] \<and>
       sent_packets evs = map (\<lambda>r. (sock, reply_packet e nm (pack_msg senv r))) rs) \<and>
    (\<exists>u'. cmsg_transport_client_recv e d unpack_reply crecv True ctimeout cclocks u =
       Some (status_code CMSG_STATUS_CODE_SUCCESS, Some r, u'))"
proof (intro conjI)
  have nm: "length nm < 128" using meth(1) by (simp add: service_method_def)
  show "cmsg_client_create_packet cenv c nm m = Some ((CMSG_RET_OK, call_packet e nm (ce_pack cenv m)), c)"
    using create_packet_builds [OF assms(1) nm alloc(1)] assms(3) by simp
  have len: "length (ce_pack cenv m) < 2000000000" "length (pack_msg senv r) < 2000000000"
    using assms(1,2) by (auto simp: client_env_ok_def env_ok_def)
  show "\<exists>u'. cmsg_transport_client_recv e d unpack_reply crecv True ctimeout cclocks u =
       Some (status_code CMSG_STATUS_CODE_SUCCESS, Some r, u')"
    using client_receives_reply [where pending = cpending and t = u and unpack = unpack_reply,
        OF client_stream(1,4,2) meth(1) len(2) unpack_reply] by blast
  let ?s = "CMSG_COUNTER_INC s cntr_rpc"
  let ?req = "call_request i nm (ce_pack cenv m)"
  have plain: "crypto_sas s = None" "rpc_plain ?s" using meth(3) by (simp_all add: rpc_plain_def server_log_ext)
  have sm: "service_method (srv_service s) i nm" using meth(1,2) by simp
  have i: "unat (of_nat i :: u32) = i" using service_method_index [OF meth(1)] by metis
  have idx: "unat (req_method_index ?req) < length (svc_methods (srv_service ?s))"
    using meth(1,2) by (simp add: i service_method_def server_log_ext)
  have "\<exists>s'. cmsg_server_invoke senv sock ?req ?s m CMSG_METHOD_OK_TO_INVOKE = Some s' \<and>
      acts sock (map (answer_packet senv nm) (map Some rs)) [(i, method_arg senv i m)]
        (?s\<lparr>app_owns_current_msg := False\<rparr>) s'"
    using invoke_answers [OF assms(2) plain(2) _ alloc(2), of ?req m "map Some rs" sock] nm idx ready impl
    by (simp add: i)
  then obtain s' where inv: "cmsg_server_invoke senv sock ?req ?s m CMSG_METHOD_OK_TO_INVOKE = Some s'"
    and acts: "acts sock (map (answer_packet senv nm) (map Some rs)) [(i, method_arg senv i m)]
      (?s\<lparr>app_owns_current_msg := False\<rparr>) s'" by blast
  obtain t' pad where "cmsg_server_receive senv srecv derive True c2 stimeout sclocks s sock t =
      map_option (\<lambda>(_, s'). (CMSG_RET_OK, s', t'))
        (cmsg_server_message_processor senv sock ?req s (ce_pack cenv m @ pad))"
    using server_receive_call [where pending = spending and t = t and env = senv and body = "ce_pack cenv m",
        OF server_stream(1) server_stream(3) [folded assms(4)] server_stream(2) plain(1) sm len(1)] by blast
  also have "\<dots> = Some (CMSG_RET_OK, s', t')"
    using message_processor_call [OF sm len(1) unpack_call, of CMSG_METHOD_OK_TO_INVOKE] meth(4) inv by simp
  finally show "\<exists>s' t' evs. cmsg_server_receive senv srecv derive True c2 stimeout sclocks s sock t = Some (CMSG_RET_OK, s', t') \<and>
       srv_trace s' = srv_trace s @ evs \<and> impl_calls evs = [(i, method_arg senv i m)] \<and>
       sent_packets evs = map (\<lambda>r. (sock, reply_packet e nm (pack_msg senv r))) rs"
    using acts assms(4)
    by (auto simp: acts_def server_log_def trace_ext_def answer_packet_def comp_def
        intro!: exI [of _ s'] exI [of _ t'])
qed

theorem rpc_round_trip_witness:
  "\<exists>s' t' evs. cmsg_server_receive demo_env (cmsg_transport_forwarding_recv_wrapper EAGAIN) (\<lambda>sa _. (0, sa)) True False 5 [1]
      demo_server 3 \<lparr>fw_msg = call_packet LittleEndian ''flip'' [1], fw_pos = 0\<rparr> = Some (CMSG_RET_OK, s', t') \<and>
    srv_trace s' = evs \<and> impl_calls evs = [(1, Some True)] \<and>
    sent_packets evs = [(3, reply_packet LittleEndian ''flip'' [0])]"
proof -
  have "service_method demo_service 1 ''flip'' \<and> rpc_plain demo_server" using demo_flip
    by (simp add: rpc_plain_def cmsg_server_create_def)
  then show ?thesis
    using rpc_round_trip [of demo_client_env demo_env LittleEndian demo_service 1 "''flip''" demo_server demo_client
      True "[False]" "cmsg_transport_forwarding_recv_wrapper EAGAIN" "\<lambda>d. drop (fw_pos d) (fw_msg d)" "[1]"
      "\<lparr>fw_msg = call_packet LittleEndian ''flip'' [1], fw_pos = 0\<rparr>" "cmsg_transport_forwarding_recv_wrapper EAGAIN"
      "\<lambda>d. drop (fw_pos d) (fw_msg d)" "[1]" False
      "\<lparr>fw_msg = reply_packet LittleEndian ''flip'' [0], fw_pos = 0\<rparr>" demo_unpack "\<lambda>sa _. (0, sa)" False 5 3 5]
      demo_client_env_ok demo_env_ok forwarding_source.byte_source_axioms [of EAGAIN]
    by (simp add: demo_client_env_def demo_env_def method_ready_def method_arg_def demo_pack_def demo_unpack_def
        cmsg_server_create_def cmsg_server_queue_filter_lookup_def cmsg_queue_filter_lookup_def
        cmsg_queue_filter_init_def demo_service_def)
qed

end
